(* ===== verification/Prelude.thy ===== *)
theory Prelude
  imports "HOL-Library.Multiset"
begin

text \<open>
  Shared vocabulary of the development: instants, JSON values with the JavaScript operators the
  sources apply to them, list idioms (first match, update in place, bounded newest-first lists)
  and decimal numerals.  Every component theory builds on this one.

  Conventions.  A JavaScript \<open>null\<close> or \<open>undefined\<close> is \<open>None\<close> (or \<open>JNull\<close> inside a JSON value):
  the modelled code reads both with \<open>??\<close>, \<open>?.\<close> or \<open>== null\<close>, which treat them alike.  A time
  stamp is the number of milliseconds \<open>Date.parse\<close> reads from it; every stamp of the modelled
  code is written from \<open>now()\<close>, so it always parses.  A handler reads the clock once: the code
  runs synchronously between two awaits.
\<close>

type_synonym instant = int

named_theorems frame "what an operation leaves unchanged"
named_theorems js "evaluation of the JavaScript operators"

section \<open>JSON values and the operators \<open>??\<close>, \<open>||\<close>, \<open>?.\<close>\<close>

datatype json = JNull | JBool bool | JNum int | JStr string | JArr "json list"
  | JObj "(string \<times> json) list"

fun coalesce :: "'a option \<Rightarrow> 'a \<Rightarrow> 'a" where
  "coalesce (Some x) d = x"
| "coalesce None d = d"

fun coalesce_opt :: "'a option \<Rightarrow> 'a option \<Rightarrow> 'a option" where
  "coalesce_opt (Some x) d = Some x"
| "coalesce_opt None d = d"

fun truthy :: "json \<Rightarrow> bool" where
  "truthy JNull = False"
| "truthy (JBool b) = b"
| "truthy (JNum n) = (n \<noteq> 0)"
| "truthy (JStr s) = (s \<noteq> [])"
| "truthy (JArr xs) = True"
| "truthy (JObj kvs) = True"

fun nullish_or :: "json \<Rightarrow> json \<Rightarrow> json" where
  "nullish_or JNull w = w"
| "nullish_or v w = v"

definition truthy_or :: "json \<Rightarrow> json \<Rightarrow> json" where
  "truthy_or v w = (if truthy v then v else w)"

fun jget :: "json \<Rightarrow> string \<Rightarrow> json" where
  "jget (JObj kvs) k = (case map_of kvs k of None \<Rightarrow> JNull | Some v \<Rightarrow> v)"
| "jget v k = JNull"

fun assoc_set :: "string \<Rightarrow> 'v \<Rightarrow> (string \<times> 'v) list \<Rightarrow> (string \<times> 'v) list" where
  "assoc_set k v [] = [(k, v)]"
| "assoc_set k v ((k', v') # kvs) = (if k = k' then (k, v) # kvs else (k', v') # assoc_set k v kvs)"

fun jset :: "json \<Rightarrow> string \<Rightarrow> json \<Rightarrow> json" where
  "jset (JObj kvs) k v = JObj (assoc_set k v kvs)"
| "jset JNull k v = JObj [(k, v)]"
| "jset w k v = w"

fun is_obj :: "json \<Rightarrow> bool" where
  "is_obj (JObj kvs) = True"
| "is_obj v = False"

text \<open>\<open>v && typeof v === "object"\<close>\<close>

fun is_object :: "json \<Rightarrow> bool" where
  "is_object (JObj kvs) = True"
| "is_object (JArr xs) = True"
| "is_object v = False"

fun jstr :: "string option \<Rightarrow> json" where
  "jstr None = JNull"
| "jstr (Some s) = JStr s"

fun jstr_opt :: "json \<Rightarrow> string option" where
  "jstr_opt (JStr s) = Some s"
| "jstr_opt v = None"

lemma map_of_assoc_set [simp]: "map_of (assoc_set k v kvs) = (map_of kvs)(k \<mapsto> v)"
  by (induction k v kvs rule: assoc_set.induct) auto

lemma dom_assoc_set [simp]: "fst ` set (assoc_set k v kvs) = insert k (fst ` set kvs)"
  by (induction k v kvs rule: assoc_set.induct) auto

lemma distinct_assoc_set [simp]:
  "distinct (map fst (assoc_set k v kvs)) = distinct (map fst kvs)"
  by (induction k v kvs rule: assoc_set.induct) (auto simp: image_iff)

lemma assoc_set_range: "set (assoc_set k v kvs) \<subseteq> insert (k, v) (set kvs)"
  by (induction k v kvs rule: assoc_set.induct) auto

lemma jget_JNull [simp]: "jget JNull k = JNull"
  by simp

lemma jget_jset: "is_obj w \<Longrightarrow> jget (jset w k v) k' = (if k = k' then v else jget w k')"
  by (cases w) auto

lemma nullish_or_JNull2 [simp]: "nullish_or v JNull = v"
  by (cases v) auto

lemma coalesce_def': "coalesce x d = (case x of None \<Rightarrow> d | Some y \<Rightarrow> y)"
  by (cases x) auto

lemma coalesce_opt_None2 [simp]: "coalesce_opt x None = x"
  by (cases x) auto

lemma coalesce_opt_eq_None [simp]: "coalesce_opt x y = None \<longleftrightarrow> x = None \<and> y = None"
  by (cases x) auto

section \<open>Lists: first match, update in place, bounded newest-first collections\<close>

definition upd_where :: "('a \<Rightarrow> bool) \<Rightarrow> ('a \<Rightarrow> 'a) \<Rightarrow> 'a list \<Rightarrow> 'a list" where
  "upd_where P f xs = map (\<lambda>x. if P x then f x else x) xs"

lemma upd_where_simps [simp]:
  "upd_where P f [] = []"
  "upd_where P f (x # xs) = (if P x then f x else x) # upd_where P f xs"
  by (auto simp: upd_where_def)

lemma length_upd_where [simp]: "length (upd_where P f xs) = length xs"
  by (simp add: upd_where_def)

lemma set_upd_where: "set (upd_where P f xs) = (\<lambda>x. if P x then f x else x) ` set xs"
  by (simp add: upd_where_def)

lemma map_upd_where: "(\<And>x. x \<in> set xs \<Longrightarrow> P x \<Longrightarrow> g (f x) = g x) \<Longrightarrow> map g (upd_where P f xs) = map g xs"
  by (auto simp: upd_where_def)

lemma upd_where_none: "(\<And>x. x \<in> set xs \<Longrightarrow> \<not> P x) \<Longrightarrow> upd_where P f xs = xs"
  by (induction xs) auto

lemma find_upd_where:
  assumes "\<And>x. P x \<Longrightarrow> Q (f x) = Q x"
  shows "List.find Q (upd_where P f xs) = map_option (\<lambda>x. if P x then f x else x) (List.find Q xs)"
  using assms by (induction xs) auto

lemma find_SomeD: "List.find P xs = Some x \<Longrightarrow> x \<in> set xs \<and> P x"
  by (auto simp: find_Some_iff)

lemma find_None_ball: "List.find P xs = None \<longleftrightarrow> (\<forall>x \<in> set xs. \<not> P x)"
  by (auto simp: find_None_iff)

lemma find_of_filter: "filter P xs = y # ys \<Longrightarrow> List.find P xs = Some y"
  by (induction xs) (auto split: if_splits)

lemma find_key_unique:
  "distinct (map k xs) \<Longrightarrow> x \<in> set xs \<Longrightarrow> List.find (\<lambda>y. k y = k x) xs = Some x"
proof (induction xs)
  case Nil
  then show ?case by simp
next
  case (Cons a xs)
  show ?case
  proof (cases "x = a")
    case True
    then show ?thesis by simp
  next
    case False
    with Cons.prems have "x \<in> set xs" and "k a \<noteq> k x" by auto
    with Cons show ?thesis by simp
  qed
qed

lemma distinct_key_eq:
  "distinct (map k xs) \<Longrightarrow> x \<in> set xs \<Longrightarrow> y \<in> set xs \<Longrightarrow> k x = k y \<Longrightarrow> x = y"
  by (auto simp: distinct_map inj_on_def)

text \<open>The collections of the server are newest first: \<open>unshift\<close>, then \<open>slice(0, cap)\<close>.\<close>

definition push_cap :: "nat \<Rightarrow> 'a \<Rightarrow> 'a list \<Rightarrow> 'a list" where
  "push_cap cap x xs = take cap (x # xs)"

definition overflow :: "nat \<Rightarrow> 'a \<Rightarrow> 'a list \<Rightarrow> 'a list" where
  "overflow cap x xs = drop cap (x # xs)"

text \<open>What every bounded collection promises: the newest row is in, the bound holds, and kept and
  evicted rows together are exactly the old rows and the new one, in order.\<close>

locale bounded_log =
  fixes cap :: nat
    and push :: "'a \<Rightarrow> 'a list \<Rightarrow> 'a list"
    and evicted :: "'a \<Rightarrow> 'a list \<Rightarrow> 'a list"
  assumes cap_pos: "0 < cap"
    and bounded: "length (push x xs) \<le> cap"
    and partition: "push x xs @ evicted x xs = x # xs"
    and full_before_evicting: "evicted x xs \<noteq> [] \<Longrightarrow> length (push x xs) = cap"
begin

lemma newest_kept: "\<exists>ys. push x xs = x # ys"
proof (cases "push x xs")
  case Nil
  then have "evicted x xs = x # xs" using partition [of x xs] by simp
  with Nil have "length (push x xs) = cap" using full_before_evicting [of x xs] by simp
  with Nil cap_pos show ?thesis by simp
next
  case (Cons a list)
  then show ?thesis using partition [of x xs] by simp
qed

lemma nothing_lost: "set (push x xs) \<union> set (evicted x xs) = insert x (set xs)"
  by (metis partition set_append list.simps(15))

lemma evict_nothing_below_cap: "length xs < cap \<Longrightarrow> evicted x xs = []"
proof (rule ccontr)
  assume less: "length xs < cap" and ne: "evicted x xs \<noteq> []"
  have "length (push x xs) + length (evicted x xs) = Suc (length xs)"
    using arg_cong [OF partition [of x xs], of length] by simp
  moreover from ne have "length (push x xs) = cap" by (rule full_before_evicting)
  ultimately show False using less ne by (cases "evicted x xs") auto
qed

end

lemma push_cap_log: "0 < cap \<Longrightarrow> bounded_log cap (push_cap cap) (overflow cap)"
  by unfold_locales (auto simp: push_cap_def overflow_def)

lemma length_push_cap [simp]: "length (push_cap cap x xs) \<le> cap"
  by (simp add: push_cap_def)

lemma set_push_cap: "set (push_cap cap x xs) \<subseteq> insert x (set xs)"
  unfolding push_cap_def by (metis list.simps(15) set_take_subset)

text \<open>The keys of a \<open>Map\<close> or \<open>Set\<close> filled in order: first occurrences.\<close>

definition first_keys :: "'k list \<Rightarrow> 'k list" where
  "first_keys ks = rev (remdups (rev ks))"

lemma set_first_keys [simp]: "set (first_keys ks) = set ks"
  by (simp add: first_keys_def)

lemma distinct_first_keys [simp]: "distinct (first_keys ks)"
  by (simp add: first_keys_def)

section \<open>Stable sorting by a comparator\<close>

text \<open>\<open>Array.prototype.sort\<close> is stable; \<open>le x y\<close> is \<open>compare(x, y) <= 0\<close>.  For a comparator that is a
  total preorder every stable sort gives the same list, so insertion sort stands for it.\<close>

fun insert_by :: "('a \<Rightarrow> 'a \<Rightarrow> bool) \<Rightarrow> 'a \<Rightarrow> 'a list \<Rightarrow> 'a list" where
  "insert_by le x [] = [x]"
| "insert_by le x (y # ys) = (if le x y then x # y # ys else y # insert_by le x ys)"

definition sort_by :: "('a \<Rightarrow> 'a \<Rightarrow> bool) \<Rightarrow> 'a list \<Rightarrow> 'a list" where
  "sort_by le xs = foldr (insert_by le) xs []"

lemma mset_insert_by [simp]: "mset (insert_by le x ys) = add_mset x (mset ys)"
  by (induction le x ys rule: insert_by.induct) auto

lemma sort_by_simps [simp]:
  "sort_by le [] = []" "sort_by le (x # xs) = insert_by le x (sort_by le xs)"
  by (simp_all add: sort_by_def)

lemma mset_sort_by [simp]: "mset (sort_by le xs) = mset xs"
  by (induction xs) auto

lemma set_sort_by [simp]: "set (sort_by le xs) = set xs"
  by (metis mset_sort_by set_mset_mset)

lemma length_sort_by [simp]: "length (sort_by le xs) = length xs"
  by (metis mset_sort_by size_mset)

lemma distinct_map_sort_by [simp]: "distinct (map f (sort_by le xs)) = distinct (map f xs)"
  by (metis mset_sort_by mset_map mset_eq_imp_distinct_iff)

lemma sort_by_Nil_iff [simp]: "sort_by le xs = [] \<longleftrightarrow> xs = []"
  by (metis length_0_conv length_sort_by)

text \<open>The filter of a sorted list keeps the arrival order of the equivalent rows.\<close>

locale comparator =
  fixes le :: "'a \<Rightarrow> 'a \<Rightarrow> bool"
  assumes total: "le x y \<or> le y x"
    and trans: "le x y \<Longrightarrow> le y z \<Longrightarrow> le x z"
begin

lemma refl: "le x x"
  using total by auto

lemma sorted_insert: "sorted_wrt le ys \<Longrightarrow> sorted_wrt le (insert_by le x ys)"
proof (induction ys)
  case Nil
  then show ?case by simp
next
  case (Cons y ys)
  have sub: "set (insert_by le x ys) = insert x (set ys)"
    by (metis mset_insert_by set_mset_add_mset_insert set_mset_mset)
  show ?case
  proof (cases "le x y")
    case True
    with Cons.prems show ?thesis by (auto intro: trans)
  next
    case False
    then have "le y x" using total by blast
    with Cons sub False show ?thesis by auto
  qed
qed

lemma sorted_sort: "sorted_wrt le (sort_by le xs)"
  by (induction xs) (auto intro: sorted_insert)

lemma hd_least:
  assumes "x \<in> set xs"
  shows "le (hd (sort_by le xs)) x"
proof (cases "sort_by le xs")
  case Nil
  with assms show ?thesis by (metis set_sort_by empty_iff empty_set)
next
  case (Cons y ys)
  have "x \<in> set (y # ys)" using assms Cons by (metis set_sort_by)
  moreover have "sorted_wrt le (y # ys)" using sorted_sort [of xs] Cons by simp
  ultimately show ?thesis using Cons refl by auto
qed

lemma stable_insert:
  assumes "\<And>z. z \<in> set ys \<Longrightarrow> P z \<Longrightarrow> P x \<Longrightarrow> le x z"
    and "sorted_wrt le ys"
  shows "filter P (insert_by le x ys) = (if P x then x # filter P ys else filter P ys)"
  using assms
proof (induction ys)
  case Nil
  then show ?case by simp
next
  case (Cons y ys)
  show ?case
  proof (cases "le x y")
    case True
    then show ?thesis by simp
  next
    case False
    with Cons.prems(1) [of y] have "\<not> (P y \<and> P x)" by auto
    with False Cons show ?thesis by auto
  qed
qed

lemma stable:
  assumes "\<And>x y. P x \<Longrightarrow> P y \<Longrightarrow> le x y"
  shows "filter P (sort_by le xs) = filter P xs"
  by (induction xs) (simp_all add: stable_insert [OF _ sorted_sort] assms)

end

text \<open>A comparator that compares a key first and another comparator on equal keys.\<close>

definition key_then :: "('a \<Rightarrow> int) \<Rightarrow> ('a \<Rightarrow> 'a \<Rightarrow> bool) \<Rightarrow> 'a \<Rightarrow> 'a \<Rightarrow> bool" where
  "key_then k le x y \<longleftrightarrow> k x < k y \<or> k x = k y \<and> le x y"

lemma key_then_comparator:
  assumes "comparator le"
  shows "comparator (key_then k le)"
proof
  fix x y z
  show "key_then k le x y \<or> key_then k le y x"
    using comparator.total [OF assms, of x y] by (auto simp: key_then_def)
  show "key_then k le x y \<Longrightarrow> key_then k le y z \<Longrightarrow> key_then k le x z"
    using comparator.trans [OF assms, of x y z] by (auto simp: key_then_def)
qed

lemma const_comparator: "comparator (\<lambda>x y. True)"
  by unfold_locales auto

text \<open>\<open><=\<close> on strings: the code units decide, a proper prefix comes first.\<close>

fun str_le :: "string \<Rightarrow> string \<Rightarrow> bool" where
  "str_le [] ys = True"
| "str_le (x # xs) [] = False"
| "str_le (x # xs) (y # ys) =
     ((of_char x :: nat) < of_char y \<or> x = y \<and> str_le xs ys)"

lemma char_code_eq: "(of_char x :: nat) = of_char y \<longleftrightarrow> x = y"
  by (metis char_of_char)

lemma str_le_total: "str_le xs ys \<or> str_le ys xs"
proof (induction xs ys rule: str_le.induct)
  case (3 x xs y ys)
  have "(of_char x :: nat) < of_char y \<or> (of_char y :: nat) < of_char x \<or> x = y"
    using char_code_eq [of x y] by linarith
  with 3 show ?case by auto
qed auto

lemma str_le_antisym: "str_le xs ys \<Longrightarrow> str_le ys xs \<Longrightarrow> xs = ys"
proof (induction xs ys rule: str_le.induct)
  case (1 ys)
  then show ?case by (cases ys) auto
qed auto

lemma str_le_trans: "str_le xs ys \<Longrightarrow> str_le ys zs \<Longrightarrow> str_le xs zs"
proof (induction xs ys arbitrary: zs rule: str_le.induct)
  case (3 x xs y ys)
  then show ?case by (cases zs) auto
qed auto

text \<open>\<open>trim\<close> and \<open>toLowerCase\<close> on the code units below 256.\<close>

definition js_space :: "char \<Rightarrow> bool" where
  "js_space c \<longleftrightarrow> (of_char c :: nat) \<in> {9, 10, 11, 12, 13, 32, 160}"

definition js_trim :: "string \<Rightarrow> string" where
  "js_trim s = rev (dropWhile js_space (rev (dropWhile js_space s)))"

definition lower_char :: "char \<Rightarrow> char" where
  "lower_char c =
     (let n = (of_char c :: nat)
      in if 65 \<le> n \<and> n \<le> 90 \<or> 192 \<le> n \<and> n \<le> 222 \<and> n \<noteq> 215 then char_of (n + 32) else c)"

definition js_lower :: "string \<Rightarrow> string" where
  "js_lower = map lower_char"

definition ends_with :: "string \<Rightarrow> string \<Rightarrow> bool" where
  "ends_with s suffix \<longleftrightarrow> length suffix \<le> length s \<and> drop (length s - length suffix) s = suffix"

definition starts_with :: "string \<Rightarrow> string \<Rightarrow> bool" where
  "starts_with s prefix \<longleftrightarrow> take (length prefix) s = prefix"

section \<open>Decimal numerals\<close>

text \<open>\<open>String(n)\<close> of a non-negative integer, and \<open>padStart(4, "0")\<close>.\<close>

definition digit_char :: "nat \<Rightarrow> char" where
  "digit_char d = char_of (48 + d)"

fun show_nat :: "nat \<Rightarrow> string" where
  "show_nat n = (if n < 10 then [digit_char n] else show_nat (n div 10) @ [digit_char (n mod 10)])"

declare show_nat.simps [simp del]

definition show_int :: "int \<Rightarrow> string" where
  "show_int n = (if n < 0 then CHR ''-'' # show_nat (nat (- n)) else show_nat (nat n))"

definition pad_start4 :: "string \<Rightarrow> string" where
  "pad_start4 s = replicate (4 - length s) (CHR ''0'') @ s"

definition read_nat :: "string \<Rightarrow> nat" where
  "read_nat s = foldl (\<lambda>acc c. 10 * acc + (of_char c - 48)) 0 s"

lemma read_digit: "d < 10 \<Longrightarrow> (of_char (digit_char d) :: nat) - 48 = d"
  by (simp add: digit_char_def of_char_of take_bit_eq_mod)

lemma read_show_nat: "read_nat (show_nat n) = n"
proof (induction n rule: show_nat.induct)
  case (1 n)
  show ?case
  proof (cases "n < 10")
    case True
    then show ?thesis by (simp add: show_nat.simps [of n] read_nat_def read_digit)
  next
    case False
    then have "read_nat (show_nat n) = 10 * read_nat (show_nat (n div 10)) + n mod 10"
      by (simp add: show_nat.simps [of n] read_nat_def read_digit)
    with "1.IH" False show ?thesis by simp
  qed
qed

lemma read_pad: "read_nat (pad_start4 s) = read_nat s"
proof -
  have "foldl (\<lambda>acc c. 10 * acc + (of_char c - 48)) 0 (replicate k (CHR ''0'')) = (0::nat)" for k
    by (induction k) auto
  then show ?thesis by (simp add: read_nat_def pad_start4_def)
qed

lemma pad_show_inj: "pad_start4 (show_nat m) = pad_start4 (show_nat n) \<Longrightarrow> m = n"
  by (metis read_pad read_show_nat)

end
