(* ===== verification/Ids.thy ===== *)
theory Ids
  imports Prelude
begin

text \<open>
  The id mint of the composer (\<open>nextId\<close> in apps/server/src/runtime/service-composer.mjs): a
  counter that is bumped until the rendered id is not among the ids already issued.  The interface
  \<open>id_source\<close> states what every service relies on: a minted id is new and stays recorded.
\<close>

section \<open>The interface: a source of fresh ids\<close>

locale id_source =
  fixes mint :: "string \<Rightarrow> 's \<Rightarrow> string \<times> 's"
    and issued :: "'s \<Rightarrow> string set"
  assumes mint_fresh: "fst (mint p s) \<notin> issued s"
    and mint_recorded: "issued (snd (mint p s)) = insert (fst (mint p s)) (issued s)"
begin

primrec mint_all :: "string list \<Rightarrow> 's \<Rightarrow> string list \<times> 's" where
  "mint_all [] s = ([], s)"
| "mint_all (p # ps) s =
     (let (i, s1) = mint p s; (is, s2) = mint_all ps s1 in (i # is, s2))"

lemma mint_all_recorded:
  "issued (snd (mint_all ps s)) = set (fst (mint_all ps s)) \<union> issued s"
proof (induction ps arbitrary: s)
  case Nil
  then show ?case by simp
next
  case (Cons p ps)
  obtain i s1 where m: "mint p s = (i, s1)" by fastforce
  obtain js s2 where ms: "mint_all ps s1 = (js, s2)" by fastforce
  have "issued s1 = insert i (issued s)"
    using mint_recorded [of p s] m by simp
  with Cons.IH [of s1] m ms show ?case by auto
qed

lemma mint_all_fresh: "set (fst (mint_all ps s)) \<inter> issued s = {}"
proof (induction ps arbitrary: s)
  case Nil
  then show ?case by simp
next
  case (Cons p ps)
  obtain i s1 where m: "mint p s = (i, s1)" by fastforce
  obtain js s2 where ms: "mint_all ps s1 = (js, s2)" by fastforce
  have "i \<notin> issued s" and "issued s1 = insert i (issued s)"
    using mint_fresh [of p s] mint_recorded [of p s] m by simp_all
  with Cons.IH [of s1] m ms show ?case by auto
qed

lemma mint_all_distinct: "distinct (fst (mint_all ps s))"
proof (induction ps arbitrary: s)
  case Nil
  then show ?case by simp
next
  case (Cons p ps)
  obtain i s1 where m: "mint p s = (i, s1)" by fastforce
  obtain js s2 where ms: "mint_all ps s1 = (js, s2)" by fastforce
  have "i \<in> issued s1" using mint_recorded [of p s] m by simp
  with mint_all_fresh [of ps s1] Cons.IH [of s1] m ms show ?case by auto
qed

end

section \<open>The mint of the server\<close>

record mint_state =
  id_counter :: nat
  issued_ids :: "string list"

definition id_of :: "string \<Rightarrow> nat \<Rightarrow> string" where
  "id_of prefix n = prefix @ ''_'' @ pad_start4 (show_nat n)"

lemma id_of_inj: "id_of p m = id_of p n \<Longrightarrow> m = n"
  by (simp add: id_of_def pad_show_inj)

lemma finite_issued: "finite {n. c \<le> n \<and> id_of p n \<in> set issued}"
proof -
  have "inj_on (id_of p) {n. c \<le> n \<and> id_of p n \<in> set issued}"
    by (rule inj_onI) (rule id_of_inj)
  moreover have "finite (id_of p ` {n. c \<le> n \<and> id_of p n \<in> set issued})"
    by (rule finite_subset [of _ "set issued"]) auto
  ultimately show ?thesis by (rule finite_imageD [rotated])
qed

text \<open>The \<open>for (;;)\<close> loop.  It stops because only finitely many rendered ids are taken.\<close>

function mint_from :: "string \<Rightarrow> string list \<Rightarrow> nat \<Rightarrow> nat" where
  "mint_from prefix issued c =
     (if id_of prefix c \<in> set issued then mint_from prefix issued (Suc c) else c)"
  by pat_completeness auto
termination
proof (relation "measure (\<lambda>(p, issued, c). card {n. c \<le> n \<and> id_of p n \<in> set issued})")
  fix p :: string and issued :: "string list" and c :: nat
  assume taken: "id_of p c \<in> set issued"
  have "{n. Suc c \<le> n \<and> id_of p n \<in> set issued} \<subset> {n. c \<le> n \<and> id_of p n \<in> set issued}"
  proof (rule psubsetI)
    show "{n. Suc c \<le> n \<and> id_of p n \<in> set issued} \<subseteq> {n. c \<le> n \<and> id_of p n \<in> set issued}"
      by auto
    have "c \<in> {n. c \<le> n \<and> id_of p n \<in> set issued}" using taken by simp
    moreover have "c \<notin> {n. Suc c \<le> n \<and> id_of p n \<in> set issued}" by simp
    ultimately show "{n. Suc c \<le> n \<and> id_of p n \<in> set issued} \<noteq> {n. c \<le> n \<and> id_of p n \<in> set issued}"
      by metis
  qed
  then have "card {n. Suc c \<le> n \<and> id_of p n \<in> set issued} < card {n. c \<le> n \<and> id_of p n \<in> set issued}"
    by (rule psubset_card_mono [OF finite_issued])
  then show "((p, issued, Suc c), (p, issued, c))
      \<in> measure (\<lambda>(p, issued, c). card {n. c \<le> n \<and> id_of p n \<in> set issued})"
    by simp
qed simp

declare mint_from.simps [simp del]

definition next_id :: "string \<Rightarrow> 'a mint_state_scheme \<Rightarrow> string \<times> 'a mint_state_scheme" where
  "next_id prefix st =
     (let n = mint_from prefix (issued_ids st) (id_counter st);
          i = id_of prefix n
      in (i, st\<lparr>id_counter := Suc n, issued_ids := i # issued_ids st\<rparr>))"

lemma mint_from_free: "id_of p (mint_from p issued c) \<notin> set issued"
proof (induction p issued c rule: mint_from.induct)
  case (1 p issued c)
  then show ?case by (cases "id_of p c \<in> set issued") (simp_all add: mint_from.simps [of p issued c])
qed

lemma mint_from_ge: "c \<le> mint_from p issued c"
proof (induction p issued c rule: mint_from.induct)
  case (1 p issued c)
  then show ?case by (cases "id_of p c \<in> set issued") (simp_all add: mint_from.simps [of p issued c])
qed

lemma mint_from_least:
  "c \<le> n \<Longrightarrow> n < mint_from p issued c \<Longrightarrow> id_of p n \<in> set issued"
proof (induction p issued c rule: mint_from.induct)
  case (1 p issued c)
  show ?case
  proof (cases "id_of p c \<in> set issued")
    case True
    with 1 show ?thesis by (cases "n = c") (auto simp: mint_from.simps [of p issued c])
  next
    case False
    with "1.prems" show ?thesis by (simp add: mint_from.simps [of p issued c])
  qed
qed

lemma next_id_fresh: "fst (next_id p st) \<notin> set (issued_ids st)"
  by (simp add: next_id_def Let_def mint_from_free)

lemma next_id_issued: "issued_ids (snd (next_id p st)) = fst (next_id p st) # issued_ids st"
  by (simp add: next_id_def Let_def)

lemma next_id_prefix: "\<exists>n \<ge> id_counter st. fst (next_id p st) = id_of p n"
  by (auto simp: next_id_def Let_def intro: mint_from_ge)

lemma next_id_more [frame]: "mint_state.more (snd (next_id p st)) = mint_state.more st"
  by (simp add: next_id_def Let_def)

interpretation ids: id_source next_id "\<lambda>st. set (issued_ids st)"
  by unfold_locales (simp_all add: next_id_fresh next_id_issued)

text \<open>C12: \<open>nextId\<close> always returns, and the id it returns was never issued before, whatever the
  counter restored from a snapshot says: it is the first free rendering at or after the counter,
  it is recorded as issued, and a run of mints yields pairwise distinct ids, none of them old.\<close>

theorem next_id_unique:
  "fst (next_id p st) \<notin> set (issued_ids st)
   \<and> set (issued_ids (snd (next_id p st))) = insert (fst (next_id p st)) (set (issued_ids st))
   \<and> (\<exists>n. fst (next_id p st) = id_of p n \<and> id_counter st \<le> n \<and> id_counter (snd (next_id p st)) = Suc n
        \<and> \<not> (\<exists>m. id_counter st \<le> m \<and> m < n \<and> id_of p m \<notin> set (issued_ids st)))
   \<and> distinct (fst (ids.mint_all ps st))
   \<and> set (fst (ids.mint_all ps st)) \<inter> set (issued_ids st) = {}"
proof -
  let ?n = "mint_from p (issued_ids st) (id_counter st)"
  have "fst (next_id p st) = id_of p ?n \<and> id_counter st \<le> ?n \<and> id_counter (snd (next_id p st)) = Suc ?n
        \<and> \<not> (\<exists>m. id_counter st \<le> m \<and> m < ?n \<and> id_of p m \<notin> set (issued_ids st))"
    by (auto simp: next_id_def Let_def mint_from_ge dest: mint_from_least)
  moreover have "set (issued_ids (snd (next_id p st))) = insert (fst (next_id p st)) (set (issued_ids st))"
    by (simp add: next_id_issued)
  ultimately show ?thesis
    using next_id_fresh [of p st] ids.mint_all_distinct [of ps st] ids.mint_all_fresh [of ps st]
    by blast
qed

end
