(* ===== verification/Model.thy ===== *)
theory Model
  imports Ids
begin

text \<open>
  The records of the control plane that the modelled services share: invocations with their
  delivery and cancellation parts, agents, devices, projects, users, and the core of the server
  state that the event log works on.  Field names follow the source with a short prefix.  Free
  form objects (\<open>options\<close>, \<open>input\<close>, \<open>result\<close>, event \<open>data\<close>) stay JSON values.  A location or an
  adapter the source would find missing has the empty string as its type.
\<close>

section \<open>State vocabularies\<close>

text \<open>\<open>Invocation.status\<close>, \<open>delivery.state\<close> and \<open>cancellation.state\<close>.  The last two delivery states
  are written by the code but are not in the vocabulary of packages/protocol.\<close>

datatype inv_status = Created | Authorized | Rejected | Queued | Dispatching
  | WaitingForLocalApproval | Running | Cancelling | Succeeded | Failed | Cancelled | TimedOut
  | Expired

datatype delivery_state = DNotRequired | DQueued | DDispatching | DDelivered | DAcknowledged
  | DRedelivering | DDeliveryFailed | DExpired | DExhausted | DRefused

datatype cancel_state = CNone | CRequested | CQueuedCancelled | CDispatched | CAcknowledged
  | CApplied | CFailed | CNotSupported

fun status_str :: "inv_status \<Rightarrow> string" where
  "status_str Created = ''created''"
| "status_str Authorized = ''authorized''"
| "status_str Rejected = ''rejected''"
| "status_str Queued = ''queued''"
| "status_str Dispatching = ''dispatching''"
| "status_str WaitingForLocalApproval = ''waiting_for_local_approval''"
| "status_str Running = ''running''"
| "status_str Cancelling = ''cancelling''"
| "status_str Succeeded = ''succeeded''"
| "status_str Failed = ''failed''"
| "status_str Cancelled = ''cancelled''"
| "status_str TimedOut = ''timed_out''"
| "status_str Expired = ''expired''"

fun delivery_str :: "delivery_state \<Rightarrow> string" where
  "delivery_str DNotRequired = ''not_required''"
| "delivery_str DQueued = ''queued''"
| "delivery_str DDispatching = ''dispatching''"
| "delivery_str DDelivered = ''delivered''"
| "delivery_str DAcknowledged = ''acknowledged''"
| "delivery_str DRedelivering = ''redelivering''"
| "delivery_str DDeliveryFailed = ''delivery_failed''"
| "delivery_str DExpired = ''expired''"
| "delivery_str DExhausted = ''exhausted''"
| "delivery_str DRefused = ''refused''"

fun cancel_str :: "cancel_state \<Rightarrow> string" where
  "cancel_str CNone = ''none''"
| "cancel_str CRequested = ''requested''"
| "cancel_str CQueuedCancelled = ''queued_cancelled''"
| "cancel_str CDispatched = ''dispatched''"
| "cancel_str CAcknowledged = ''acknowledged''"
| "cancel_str CApplied = ''applied''"
| "cancel_str CFailed = ''failed''"
| "cancel_str CNotSupported = ''not_supported''"

text \<open>\<open>isTerminal\<close> of services/invocations.mjs.\<close>

definition is_terminal :: "inv_status \<Rightarrow> bool" where
  "is_terminal s \<longleftrightarrow> s \<in> {Succeeded, Failed, Cancelled, TimedOut, Expired, Rejected}"

lemma is_terminal_simps [simp]:
  "is_terminal Succeeded" "is_terminal Failed" "is_terminal Cancelled" "is_terminal TimedOut"
  "is_terminal Expired" "is_terminal Rejected" "\<not> is_terminal Created" "\<not> is_terminal Authorized"
  "\<not> is_terminal Queued" "\<not> is_terminal Dispatching" "\<not> is_terminal WaitingForLocalApproval"
  "\<not> is_terminal Running" "\<not> is_terminal Cancelling"
  by (simp_all add: is_terminal_def)

section \<open>Invocations\<close>

record supersession =
  sup_completeAfter :: "instant option"
  sup_terminalStatus :: "string option"
  sup_errorCode :: "string option"

record delivery =
  del_id :: string
  del_deviceId :: "string option"
  del_state :: delivery_state
  del_idempotencyKey :: string
  del_leaseExpiresAt :: "instant option"
  del_attempts :: nat
  del_lastDispatchAt :: "instant option"
  del_acknowledgedAt :: "instant option"
  del_bridgeCursor :: "string option"
  del_bridgeSessionId :: "string option"
  del_supersession :: "supersession option"

record cancellation =
  can_state :: cancel_state
  can_requestedBy :: "string option"
  can_requestedAt :: "instant option"
  can_reason :: "string option"
  can_appliedAt :: "instant option"
  can_message :: "string option"

record deadline =
  dl_state :: string
  dl_requestedAt :: json
  dl_deadlineAt :: json

text \<open>A time in a record is a reading of the server's clock, or, in what a device reported, the text it sent.\<close>

datatype stamp = Clock instant | Told string

text \<open>Whether a time is set: an empty text is falsy.\<close>

fun stamped :: "stamp option \<Rightarrow> bool" where
  "stamped None = False"
| "stamped (Some (Clock t)) = True"
| "stamped (Some (Told s)) = (s \<noteq> [])"

text \<open>What the events of a bridge leave on the invocation: \<open>droppedRoundCount\<close>, \<open>loopSuspected\<close>,
  \<open>fileLedger\<close> and \<open>requestContext\<close>.\<close>

record tool_loop =
  tl_toolName :: string
  tl_repeats :: nat
  tl_at :: instant

record file_ledger =
  fl_reads :: "string list"
  fl_writes :: "string list"
  fl_truncated :: bool

record request_context =
  rq_provider :: string
  rq_model :: "string option"
  rq_permissionMode :: "string option"
  rq_tools :: "string list"
  rq_mcpServers :: "(string \<times> string option) list"
  rq_skills :: "string list"
  rq_agents :: "string list"
  rq_slashCommandCount :: int
  rq_sessionId :: "string option"

record run_notes =
  nt_droppedRounds :: nat
  nt_loopSuspected :: "tool_loop option"
  nt_fileLedger :: "file_ledger option"
  nt_requestContext :: "request_context option"

definition no_notes :: run_notes where
  "no_notes = \<lparr>nt_droppedRounds = 0, nt_loopSuspected = None, nt_fileLedger = None, nt_requestContext = None\<rparr>"

record invocation =
  inv_id :: string
  inv_idempotencyKey :: "string option"
  inv_compareRunId :: "string option"
  inv_agentId :: string
  inv_terminalId :: "string option"
  inv_projectId :: "string option"
  inv_worktreeId :: "string option"
  inv_requestedBy :: string
  inv_status :: inv_status
  inv_delivery :: delivery
  inv_cancellation :: cancellation
  inv_input :: json
  inv_options :: json
  inv_result :: json
  inv_policyDecisionId :: "string option"
  inv_approvalRequestId :: "string option"
  inv_traceId :: "string option"
  inv_rootSpanId :: "string option"
  inv_createdAt :: instant
  inv_startedAt :: "stamp option"
  inv_completedAt :: "instant option"
  inv_updatedAt :: instant
  inv_deadline :: "deadline option"
  inv_notes :: run_notes

definition inv_metadata :: "invocation \<Rightarrow> json" where
  "inv_metadata i = jget (inv_options i) ''metadata''"

abbreviation set_status :: "inv_status \<Rightarrow> invocation \<Rightarrow> invocation" where
  "set_status s i \<equiv> i\<lparr>inv_status := s\<rparr>"

section \<open>Agents, devices, projects, users\<close>

record agent_location =
  loc_type :: string
  loc_deviceId :: "string option"

record agent_adapter =
  ad_type :: string
  ad_transport :: "string option"
  ad_command :: "string option"
  ad_args :: "string list"
  ad_cancellation :: "string option"
  ad_workingDirectory :: "string option"
  ad_workingDirectoryPolicy :: "string option"
  ad_permissionMode :: "string option"
  ad_claudeRuntime :: "string option"
  ad_models :: "json list"

record capability =
  cap_riskLevel :: "string option"
  cap_riskTags :: "string list"

record economics =
  eco_model :: "string option"
  eco_costOwner :: "string option"
  eco_currency :: "string option"
  eco_unknownCostPolicy :: "string option"
  eco_budgetPoolId :: "string option"

record registration_notes =
  rn_risk :: "string option"
  rn_data :: "string option"
  rn_cost :: "string option"
  rn_cancellation :: "string option"

record agent =
  ag_id :: string
  ag_name :: string
  ag_status :: string
  ag_lifecycle :: "string option"
  ag_health :: "string option"
  ag_location :: agent_location
  ag_adapter :: agent_adapter
  ag_capabilities :: "capability list"
  ag_economics :: "economics option"
  ag_notes :: registration_notes

definition is_local_device :: "agent \<Rightarrow> bool" where
  "is_local_device a \<longleftrightarrow> loc_type (ag_location a) = ''local_device''"

text \<open>\<open>isAgentDisabled\<close> of services/agents.mjs.\<close>

definition isAgentDisabled :: "agent \<Rightarrow> bool" where
  "isAgentDisabled a \<longleftrightarrow> ag_status a = ''disabled'' \<or> ag_lifecycle a = Some ''disabled''"

record project =
  pr_id :: string
  pr_name :: string
  pr_path :: "string option"
  pr_ownerTeamId :: "string option"
  pr_autoExecutionEnabled :: bool
  pr_futurePullForwardEnabled :: "bool option"

record user =
  us_id :: string
  us_teamId :: "string option"
  us_role :: "string option"

section \<open>Events and the core of the server state\<close>

record event_in =
  ei_invocationId :: "string option"
  ei_type :: string
  ei_level :: string
  ei_message :: string
  ei_data :: json

record event =
  ev_id :: string
  ev_invocationId :: "string option"
  ev_type :: string
  ev_level :: string
  ev_message :: string
  ev_data :: json
  ev_createdAt :: instant

abbreviation mk_ev :: "string option \<Rightarrow> string \<Rightarrow> string \<Rightarrow> string \<Rightarrow> json \<Rightarrow> event_in" where
  "mk_ev i ty lv msg d \<equiv>
     \<lparr>ei_invocationId = i, ei_type = ty, ei_level = lv, ei_message = msg, ei_data = d\<rparr>"

text \<open>What the injected archiver answers: stored, a result other than \<open>ok\<close> (with its error), a
  thrown error, or no archiver wired.\<close>

datatype archive_result = ArchiveOk | ArchiveFailed "string option" | ArchiveThrew string
  | ArchiveMissing

record retention =
  ret_truncatedIds :: "string list"
  ret_globalTruncated :: bool
  ret_lastErrorAt :: "instant option"
  ret_lastError :: "string option"

record core = mint_state +
  invocations :: "invocation list"
  events :: "event list"
  event_archive :: "event list"
  event_retention :: retention
  event_archiver :: "event list \<Rightarrow> archive_result"

definition find_inv :: "string \<Rightarrow> 'a core_scheme \<Rightarrow> invocation option" where
  "find_inv i st = List.find (\<lambda>x. inv_id x = i) (invocations st)"

text \<open>A handler that writes through an invocation object updates the row with that id.\<close>

definition upd_inv :: "string \<Rightarrow> (invocation \<Rightarrow> invocation) \<Rightarrow> 'a core_scheme \<Rightarrow> 'a core_scheme" where
  "upd_inv i f st = st\<lparr>invocations := upd_where (\<lambda>x. inv_id x = i) f (invocations st)\<rparr>"

lemma find_inv_SomeD: "find_inv i st = Some x \<Longrightarrow> x \<in> set (invocations st) \<and> inv_id x = i"
  unfolding find_inv_def by (rule find_SomeD)

lemma find_inv_unique:
  "distinct (map inv_id (invocations st)) \<Longrightarrow> x \<in> set (invocations st) \<Longrightarrow> find_inv (inv_id x) st = Some x"
  unfolding find_inv_def by (rule find_key_unique)

lemma invocations_upd_inv [simp]:
  "invocations (upd_inv i f st) = upd_where (\<lambda>x. inv_id x = i) f (invocations st)"
  by (simp add: upd_inv_def)

lemma upd_inv_frame [simp, frame]:
  "id_counter (upd_inv i f st) = id_counter st" "issued_ids (upd_inv i f st) = issued_ids st"
  "events (upd_inv i f st) = events st" "event_archive (upd_inv i f st) = event_archive st"
  "event_retention (upd_inv i f st) = event_retention st"
  "event_archiver (upd_inv i f st) = event_archiver st"
  "core.more (upd_inv i f st) = core.more st"
  by (simp_all add: upd_inv_def)

lemma find_inv_upd_inv:
  assumes "\<And>x. inv_id (f x) = inv_id x"
  shows "find_inv j (upd_inv i f st) = (if i = j then map_option f (find_inv j st) else find_inv j st)"
proof -
  have "find_inv j (upd_inv i f st) = map_option (\<lambda>x. if inv_id x = i then f x else x) (find_inv j st)"
    unfolding find_inv_def invocations_upd_inv by (rule find_upd_where) (simp add: assms)
  then show ?thesis by (auto dest: find_inv_SomeD split: option.split simp: map_option_case)
qed

lemma map_inv_id_upd [simp]:
  "(\<And>x. inv_id (f x) = inv_id x) \<Longrightarrow>
   map inv_id (upd_where (\<lambda>x. inv_id x = i) f xs) = map inv_id xs"
  by (rule map_upd_where) simp

section \<open>Operations on one row\<close>

text \<open>What a sweep over the invocations relies on: an operation for one id takes that row to a related
  one, leaves the other rows alone and keeps the ids.  A loop over distinct ids then takes exactly
  the rows it visits to related ones, once each.\<close>

locale row_rel =
  fixes op :: "string \<Rightarrow> 'a core_scheme \<Rightarrow> 'a core_scheme"
    and R :: "invocation \<Rightarrow> invocation \<Rightarrow> bool"
  assumes rel_row: "find_inv i st = Some v \<Longrightarrow> \<exists>v'. find_inv i (op i st) = Some v' \<and> R v v'"
    and rel_other: "j \<noteq> i \<Longrightarrow> find_inv j (op i st) = find_inv j st"
    and rel_ids: "map inv_id (invocations (op i st)) = map inv_id (invocations st)"
begin

lemma sweep_ids: "map inv_id (invocations (fold op is st)) = map inv_id (invocations st)"
  by (induction \<open>is\<close> arbitrary: st) (simp_all add: rel_ids)

lemma sweep_unvisited: "j \<notin> set is \<Longrightarrow> find_inv j (fold op is st) = find_inv j st"
  by (induction \<open>is\<close> arbitrary: st) (simp_all add: rel_other)

lemma sweep_visited:
  "distinct is \<Longrightarrow> j \<in> set is \<Longrightarrow> find_inv j st = Some v \<Longrightarrow>
   \<exists>v'. find_inv j (fold op is st) = Some v' \<and> R v v'"
proof (induction \<open>is\<close> arbitrary: st)
  case Nil
  then show ?case by simp
next
  case (Cons i ids)
  show ?case
  proof (cases "j = i")
    case True
    with Cons.prems rel_row obtain v' where "find_inv j (op i st) = Some v'" "R v v'" by blast
    with True Cons.prems(1) sweep_unvisited [of j ids "op i st"] show ?thesis by simp
  next
    case False
    with Cons.prems rel_other [of j i st] Cons.IH [of "op i st"] show ?thesis by simp
  qed
qed

end

text \<open>When the row is rewritten by a function.\<close>

locale row_op =
  fixes op :: "string \<Rightarrow> 'a core_scheme \<Rightarrow> 'a core_scheme"
    and f :: "invocation \<Rightarrow> invocation"
  assumes op_row: "find_inv j (op i st) = (if i = j then map_option f (find_inv j st) else find_inv j st)"
    and op_ids: "map inv_id (invocations (op i st)) = map inv_id (invocations st)"

sublocale row_op \<subseteq> rows: row_rel op "\<lambda>v v'. v' = f v"
  by unfold_locales (simp_all add: op_row op_ids)

context row_op
begin

lemma sweep_row:
  "distinct is \<Longrightarrow>
   find_inv j (fold op is st) = (if j \<in> set is then map_option f (find_inv j st) else find_inv j st)"
  by (induction \<open>is\<close> arbitrary: st) (auto simp: op_row)

end

section \<open>Calling actor\<close>

record actor =
  ac_userId :: "string option"
  ac_teamId :: "string option"
  ac_role :: string

text \<open>\<open>actor?.userId ?? "usr_local"\<close>\<close>

definition actor_user :: "actor option \<Rightarrow> string" where
  "actor_user a = coalesce (Option.bind a ac_userId) ''usr_local''"

definition actor_team :: "actor option \<Rightarrow> string option" where
  "actor_team a = Option.bind a ac_teamId"

end
