(* ===== verification/EventLog.thy ===== *)
theory EventLog
  imports Model
begin

text \<open>
  apps/server/src/runtime/event-log.mjs: the single append path of the event log.  The hot list is
  bounded; what overflows is handed to the durable archive first, and when the archive does not
  take it, the affected invocations are marked as having a truncated history.  \<open>event_archive\<close> is
  what the archive holds.  The handlers that mirror an event into the Codex and Claude session
  tables are not modelled.
\<close>

section \<open>Constants\<close>

definition SERVER_REFUSAL_EVENT_TYPES :: "string list" where
  "SERVER_REFUSAL_EVENT_TYPES = [
     ''bridge_delivery_refused'', ''bridge_lifecycle_refused'', ''bridge_operation_refused'',
     ''delivery_refused'', ''local_execution_refused'', ''invocation_rejected'',
     ''local_approval_denied'', ''codex_approval_denied'', ''auto_run_denied'',
     ''auto_run_design_rejected'', ''auto_run_decomposition_rejected'',
     ''application_orchestration_recovery_action_rejected'', ''permission_denied'']"

definition EVENT_HOT_LIMIT :: nat where "EVENT_HOT_LIMIT = 500"

definition TRUNCATED_INVOCATION_ID_LIMIT :: nat where "TRUNCATED_INVOCATION_ID_LIMIT = 1000"

section \<open>Marking a truncated history\<close>

text \<open>The loop over the overflowing rows: skip rows without an invocation id or with a known one,
  stop with the global flag when the list of ids is full.\<close>

fun mark_rows :: "event list \<Rightarrow> string list \<Rightarrow> bool \<Rightarrow> string list \<times> bool" where
  "mark_rows [] ids g = (ids, g)"
| "mark_rows (r # rs) ids g =
     (case ev_invocationId r of
        None \<Rightarrow> mark_rows rs ids g
      | Some i \<Rightarrow>
          if i = [] \<or> i \<in> set ids then mark_rows rs ids g
          else if TRUNCATED_INVOCATION_ID_LIMIT \<le> length ids then (ids, True)
          else mark_rows rs (ids @ [i]) g)"

definition markEventHistoryTruncated ::
    "event list \<Rightarrow> instant \<Rightarrow> string option \<Rightarrow> retention \<Rightarrow> retention" where
  "markEventHistoryTruncated rows failedAt err r =
     (let (ids, g) = mark_rows rows (filter (\<lambda>i. i \<noteq> []) (ret_truncatedIds r)) (ret_globalTruncated r)
      in r\<lparr>ret_truncatedIds := ids, ret_globalTruncated := g, ret_lastErrorAt := Some failedAt,
           ret_lastError := Some (take 500 (coalesce err ''event_archive_unavailable''))\<rparr>)"

section \<open>appendEvent\<close>

fun archive_error :: "archive_result \<Rightarrow> string option" where
  "archive_error (ArchiveFailed e) = e"
| "archive_error (ArchiveThrew m) = Some m"
| "archive_error r = None"

definition refusal_bypass :: "bool \<Rightarrow> event_in \<Rightarrow> bool" where
  "refusal_bypass viaRefuse e \<longleftrightarrow> ei_type e \<in> set SERVER_REFUSAL_EVENT_TYPES \<and> \<not> viaRefuse"

definition execution_chain :: "event_in \<Rightarrow> 'a core_scheme \<Rightarrow> json" where
  "execution_chain e st =
     (let inv = (case ei_invocationId e of None \<Rightarrow> None
                 | Some i \<Rightarrow> if i = [] then None else find_inv i st)
      in nullish_or (jget (ei_data e) ''executionChainId'')
           (case inv of None \<Rightarrow> JNull
            | Some x \<Rightarrow> nullish_or (jget (inv_metadata x) ''executionChainId'')
                (jget (jget (inv_input x) ''metadata'') ''executionChainId'')))"

definition event_record :: "instant \<Rightarrow> event_in \<Rightarrow> string \<Rightarrow> 'a core_scheme \<Rightarrow> event" where
  "event_record t e i st =
     (let chain = execution_chain e st
      in \<lparr>ev_id = i, ev_invocationId = ei_invocationId e, ev_type = ei_type e,
          ev_level = ei_level e, ev_message = ei_message e,
          ev_data = (if truthy chain then jset (ei_data e) ''executionChainId'' chain else ei_data e),
          ev_createdAt = t\<rparr>)"

text \<open>The log part of the append: newest first, archive before evicting, mark when that fails.\<close>

definition log_push :: "instant \<Rightarrow> event \<Rightarrow> 'a core_scheme \<Rightarrow> 'a core_scheme" where
  "log_push t r st =
     (let out = overflow EVENT_HOT_LIMIT r (events st);
          res = event_archiver st out
      in if out = [] then st\<lparr>events := push_cap EVENT_HOT_LIMIT r (events st)\<rparr>
         else if res = ArchiveOk
         then st\<lparr>events := push_cap EVENT_HOT_LIMIT r (events st),
                 event_archive := out @ event_archive st\<rparr>
         else st\<lparr>events := push_cap EVENT_HOT_LIMIT r (events st),
                 event_retention :=
                   markEventHistoryTruncated out t (archive_error res) (event_retention st)\<rparr>)"

definition append_event :: "instant \<Rightarrow> event_in \<Rightarrow> 'a core_scheme \<Rightarrow> 'a core_scheme" where
  "append_event t e st =
     (let (i, st1) = next_id ''evt_demo'' st
      in log_push t (event_record t e i st) st1)"

text \<open>The exported operation: under \<open>REFUSAL_STRICT\<close> a refusal-typed event outside \<open>refuse()\<close>
  throws; otherwise it is only reported on the console.\<close>

definition appendEvent ::
    "bool \<Rightarrow> bool \<Rightarrow> instant \<Rightarrow> event_in \<Rightarrow> 'a core_scheme \<Rightarrow> string + 'a core_scheme" where
  "appendEvent strict viaRefuse t e st =
     (if refusal_bypass viaRefuse e \<and> strict
      then Inl (''refusal-typed event \"'' @ ei_type e @
                ''\" appended outside refuse() - route it through the single writer'')
      else Inr (append_event t e st))"

fun append_events :: "instant \<Rightarrow> event_in list \<Rightarrow> 'a core_scheme \<Rightarrow> 'a core_scheme" where
  "append_events t [] st = st"
| "append_events t (e # es) st = append_events t es (append_event t e st)"

section \<open>Frame\<close>

lemma next_id_core [simp, frame]:
  "invocations (snd (next_id p st)) = invocations st"
  "events (snd (next_id p st)) = events st"
  "event_archive (snd (next_id p st)) = event_archive st"
  "event_retention (snd (next_id p st)) = event_retention st"
  "event_archiver (snd (next_id p st)) = event_archiver st"
  "core.more (snd (next_id p st)) = core.more st"
  by (simp_all add: next_id_def Let_def)

lemma log_push_frame [simp, frame]:
  "invocations (log_push t r st) = invocations st"
  "id_counter (log_push t r st) = id_counter st" "issued_ids (log_push t r st) = issued_ids st"
  "event_archiver (log_push t r st) = event_archiver st"
  "core.more (log_push t r st) = core.more st"
  by (simp_all add: log_push_def Let_def)

lemma append_event_frame [simp, frame]:
  "invocations (append_event t e st) = invocations st"
  "event_archiver (append_event t e st) = event_archiver st"
  "core.more (append_event t e st) = core.more st"
  by (simp_all add: append_event_def split: prod.split)
     (metis next_id_core snd_conv)+

lemma append_event_issued: "set (issued_ids st) \<subseteq> set (issued_ids (append_event t e st))"
  using ids.mint_recorded [of "''evt_demo''" st] by (auto simp: append_event_def split: prod.splits)

lemma append_events_frame [simp, frame]:
  "invocations (append_events t es st) = invocations st"
  "core.more (append_events t es st) = core.more st"
  by (induction es arbitrary: st) simp_all

lemma append_events_issued: "set (issued_ids st) \<subseteq> set (issued_ids (append_events t es st))"
  by (induction es arbitrary: st) (auto dest: append_event_issued [THEN subsetD])

lemma find_inv_append_event [simp]: "find_inv i (append_event t e st) = find_inv i st"
  by (simp add: find_inv_def)

section \<open>The log keeps its bound and loses nothing silently\<close>

interpretation event_log: bounded_log EVENT_HOT_LIMIT "push_cap EVENT_HOT_LIMIT" "overflow EVENT_HOT_LIMIT"
  by (rule push_cap_log) (simp add: EVENT_HOT_LIMIT_def)

lemma mark_rows_keeps: "set ids \<subseteq> set (fst (mark_rows rs ids g)) \<and> (g \<longrightarrow> snd (mark_rows rs ids g))"
  by (induction rs ids g rule: mark_rows.induct) (auto split: option.splits)

lemma mark_rows_marks:
  "r \<in> set rs \<Longrightarrow> ev_invocationId r = Some i \<Longrightarrow> i \<noteq> [] \<Longrightarrow>
   i \<in> set (fst (mark_rows rs ids g)) \<or> snd (mark_rows rs ids g)"
proof (induction rs ids g rule: mark_rows.induct)
  case (1 ids g)
  then show ?case by simp
next
  case (2 r' rs ids g)
  show ?case
  proof (cases "r = r'")
    case True
    with 2 show ?thesis
      using mark_rows_keeps [of ids rs g] mark_rows_keeps [of "ids @ [i]" rs g] by auto
  next
    case False
    with 2 show ?thesis by (auto split: option.splits)
  qed
qed

lemma mark_rows_bound:
  "length ids \<le> TRUNCATED_INVOCATION_ID_LIMIT \<Longrightarrow>
   length (fst (mark_rows rs ids g)) \<le> TRUNCATED_INVOCATION_ID_LIMIT"
  by (induction rs ids g rule: mark_rows.induct) (auto split: option.splits)

definition history_truncated :: "event \<Rightarrow> retention \<Rightarrow> bool" where
  "history_truncated r ret \<longleftrightarrow>
     ret_globalTruncated ret \<or> (\<exists>i. ev_invocationId r = Some i \<and> i \<in> set (ret_truncatedIds ret))"

lemma mark_truncated:
  assumes "r \<in> set rows" and "ev_invocationId r = Some i" and "i \<noteq> []"
  shows "history_truncated r (markEventHistoryTruncated rows t err ret)"
  using mark_rows_marks [OF assms, of "filter (\<lambda>i. i \<noteq> []) (ret_truncatedIds ret)" "ret_globalTruncated ret"] assms(2)
  by (auto simp: history_truncated_def markEventHistoryTruncated_def split: prod.splits)

lemma mark_monotone:
  "history_truncated r ret \<Longrightarrow> ev_invocationId r \<noteq> Some [] \<Longrightarrow>
   history_truncated r (markEventHistoryTruncated rows t err ret)"
  using mark_rows_keeps [of "filter (\<lambda>i. i \<noteq> []) (ret_truncatedIds ret)" rows "ret_globalTruncated ret"]
  by (auto simp: history_truncated_def markEventHistoryTruncated_def split: prod.splits)

text \<open>A row of an invocation is accounted for: it is in the hot list, in the archive, or the reader
  is told that the history of its invocation is incomplete.\<close>

definition accounted :: "event \<Rightarrow> 'a core_scheme \<Rightarrow> bool" where
  "accounted r st \<longleftrightarrow> r \<in> set (events st) \<or> r \<in> set (event_archive st)
     \<or> history_truncated r (event_retention st)"

lemma events_append_event:
  "events (append_event t e st) =
     push_cap EVENT_HOT_LIMIT (event_record t e (fst (next_id ''evt_demo'' st)) st) (events st)"
  by (simp add: append_event_def log_push_def Let_def split: prod.split)
     (metis next_id_core(2) snd_conv)

lemma accounted_log_push:
  assumes inv: "ev_invocationId x = Some i" "i \<noteq> []"
    and acc: "accounted x st \<or> x = r"
  shows "accounted x (log_push t r st)"
proof (cases "x \<in> set (overflow EVENT_HOT_LIMIT r (events st))")
  case True
  then show ?thesis
    using mark_truncated [OF True inv]
    by (auto simp: accounted_def log_push_def Let_def)
next
  case False
  with acc event_log.nothing_lost [of r "events st"]
  have "x \<in> set (push_cap EVENT_HOT_LIMIT r (events st)) \<or> x \<in> set (event_archive st)
        \<or> history_truncated x (event_retention st)"
    by (auto simp: accounted_def)
  then show ?thesis
    using mark_monotone [of x "event_retention st"] inv
    by (auto simp: accounted_def log_push_def Let_def)
qed

lemma accounted_next_id [simp]: "accounted x (snd (next_id p st)) = accounted x st"
  by (simp add: accounted_def)

lemma accounted_append:
  "ev_invocationId x = Some i \<Longrightarrow> i \<noteq> [] \<Longrightarrow> accounted x st \<Longrightarrow> accounted x (append_event t e st)"
  using accounted_log_push [of x i "snd (next_id ''evt_demo'' st)" _ t]
  by (simp add: append_event_def case_prod_beta)

text \<open>An event of the given type was logged for the invocation and is still accounted for.\<close>

definition reported :: "string \<Rightarrow> string \<Rightarrow> 'a core_scheme \<Rightarrow> bool" where
  "reported ty i st \<longleftrightarrow> (\<exists>r. ev_type r = ty \<and> ev_invocationId r = Some i \<and> accounted r st)"

lemma reported_append: "i \<noteq> [] \<Longrightarrow> reported ty i st \<Longrightarrow> reported ty i (append_event t e st)"
  unfolding reported_def using accounted_append by blast

lemma reported_append_events: "i \<noteq> [] \<Longrightarrow> reported ty i st \<Longrightarrow> reported ty i (append_events t es st)"
  by (induction es arbitrary: st) (simp_all add: reported_append)

lemma reported_new:
  assumes "ei_invocationId e = Some i" and "i \<noteq> []"
  shows "reported (ei_type e) i (append_event t e st)"
proof -
  let ?r = "event_record t e (fst (next_id ''evt_demo'' st)) st"
  have "ev_type ?r = ei_type e" and inv: "ev_invocationId ?r = Some i"
    using assms(1) by (simp_all add: event_record_def Let_def)
  moreover have "accounted ?r (append_event t e st)"
    using accounted_log_push [OF inv assms(2), of "snd (next_id ''evt_demo'' st)" ?r t]
    by (simp add: append_event_def case_prod_beta)
  ultimately show ?thesis unfolding reported_def by blast
qed

lemma reported_cong:
  "events st' = events st \<Longrightarrow> event_archive st' = event_archive st \<Longrightarrow>
   event_retention st' = event_retention st \<Longrightarrow> reported ty i st' = reported ty i st"
  by (simp add: reported_def accounted_def)

text \<open>Appending an event keeps the hot list within its 500 rows with the new event first, and
  every event of an invocation stays accounted for: in the hot list, in the durable archive, or
  with the history of its invocation marked as truncated.\<close>

theorem append_event_no_silent_loss:
  assumes "ev_invocationId x = Some i" and "i \<noteq> []" and "accounted x st"
  shows "accounted x (append_event t e st)
    \<and> length (events (append_event t e st)) \<le> EVENT_HOT_LIMIT
    \<and> (\<exists>r rest. events (append_event t e st) = r # rest \<and> ev_type r = ei_type e
         \<and> ev_invocationId r = ei_invocationId e \<and> ev_createdAt r = t
         \<and> ev_id r \<notin> set (issued_ids st))"
proof -
  let ?r = "event_record t e (fst (next_id ''evt_demo'' st)) st"
  have acc: "accounted x (append_event t e st)"
    using assms by (rule accounted_append)
  obtain ys where "push_cap EVENT_HOT_LIMIT ?r (events st) = ?r # ys"
    using event_log.newest_kept [of ?r "events st"] by auto
  moreover have "ev_type ?r = ei_type e \<and> ev_invocationId ?r = ei_invocationId e
      \<and> ev_createdAt ?r = t \<and> ev_id ?r \<notin> set (issued_ids st)"
    using next_id_fresh [of "''evt_demo''" st] by (simp add: event_record_def Let_def)
  ultimately show ?thesis
    using acc event_log.bounded [of ?r "events st"] by (simp add: events_append_event)
qed

definition ev_core0 :: core where
  "ev_core0 = \<lparr>id_counter = 2, issued_ids = [''evt_demo_0001''], invocations = [],
     events = [\<lparr>ev_id = ''evt_demo_0001'', ev_invocationId = Some ''inv_1'', ev_type = ''log'',
                ev_level = ''info'', ev_message = [], ev_data = JNull, ev_createdAt = 5\<rparr>],
     event_archive = [], event_retention = \<lparr>ret_truncatedIds = [], ret_globalTruncated = False,
       ret_lastErrorAt = None, ret_lastError = None\<rparr>,
     event_archiver = (\<lambda>rows. ArchiveMissing)\<rparr>"

theorem append_event_no_silent_loss_witness:
  "accounted (hd (events ev_core0))
     (append_event 7 (mk_ev (Some ''inv_1'') ''log'' ''info'' ''x'' JNull) ev_core0)"
proof -
  have "accounted (hd (events ev_core0)) ev_core0"
    by (simp add: accounted_def ev_core0_def)
  moreover have "ev_invocationId (hd (events ev_core0)) = Some ''inv_1''"
    by (simp add: ev_core0_def)
  ultimately show ?thesis
    using append_event_no_silent_loss [of "hd (events ev_core0)" "''inv_1''" ev_core0 7
        "mk_ev (Some ''inv_1'') ''log'' ''info'' ''x'' JNull"]
    by simp
qed

end
