(* ===== verification/Protocol.thy ===== *)
theory Protocol
  imports Model
begin

text \<open>
  packages/protocol/src/index.mjs: the closed vocabularies of the control plane, the refusal
  taxonomy (Epic 758) with its catalogue of refusal events, and the self check
  (\<open>--check\<close> mode, \<open>runM0ProtocolCheck\<close>) that throws when a required word is missing, a refusal code
  has no category or two, a catalogue row disagrees with the taxonomy, or a loop refusal event is
  not catalogued.  A thrown error is \<open>Inl\<close> of its message.
\<close>

section \<open>The vocabularies\<close>

record catalog_entry =
  ce_eventType :: string
  ce_reason :: "string option"
  ce_category :: string
  ce_code :: string
  ce_reserved :: bool
  ce_httpErrorCode :: bool

abbreviation catalog ::
    "string \<Rightarrow> string option \<Rightarrow> string \<Rightarrow> string \<Rightarrow> bool \<Rightarrow> bool \<Rightarrow> catalog_entry" where
  "catalog e r c k res http \<equiv>
     \<lparr>ce_eventType = e, ce_reason = r, ce_category = c, ce_code = k, ce_reserved = res,
      ce_httpErrorCode = http\<rparr>"

definition invocationStatuses :: "string list" where
  "invocationStatuses = [
     ''created'', ''authorized'', ''rejected'', ''queued'', ''dispatching'',
     ''waiting_for_local_approval'', ''running'', ''cancelling'', ''succeeded'', ''failed'',
     ''cancelled'', ''timed_out'', ''expired'']"

definition deliveryStates :: "string list" where
  "deliveryStates = [
     ''not_required'', ''queued'', ''dispatching'', ''delivered'', ''acknowledged'',
     ''redelivering'', ''delivery_failed'', ''expired'']"

definition cancellationStates :: "string list" where
  "cancellationStates = [
     ''none'', ''requested'', ''queued_cancelled'', ''dispatched'', ''acknowledged'',
     ''applied'', ''failed'', ''not_supported'']"

definition loopRunStates :: "string list" where
  "loopRunStates = [
     ''created'', ''planning'', ''planned'', ''applying'', ''running_adapter'',
     ''checking_scope'', ''verifying'', ''awaiting_human'', ''queued'', ''claimed'',
     ''completed'', ''failed'', ''cancelled'', ''timed_out'']"

definition loopEventTypes :: "string list" where
  "loopEventTypes = [
     ''loop_run_created'', ''loop_state_changed'', ''loop_plan_written'',
     ''loop_manifest_written'', ''loop_testing_plan_written'', ''loop_adapter_contract_written'',
     ''loop_adapter_started'', ''loop_adapter_completed'', ''loop_scope_checked'',
     ''loop_verification_completed'', ''loop_pr_requested'', ''loop_completed'', ''loop_failed'',
     ''loop_cancelled'', ''loop_cancel_requested'', ''loop_resume_requested'',
     ''loop_retry_requested'', ''loop_human_gate_required'', ''loop_human_gate_approved'',
     ''loop_human_gate_rejected'', ''loop_enqueued'', ''loop_claimed'', ''loop_heartbeat'',
     ''loop_released'', ''loop_timed_out'', ''loop_worker_started'', ''loop_worker_completed'',
     ''loop_worker_failed'', ''loop_worktree_cleanup_requested'',
     ''loop_worktree_cleanup_completed'', ''loop_worktree_cleanup_refused'',
     ''loop_worktree_review_written'', ''loop_worktree_promotion_requested'',
     ''loop_worktree_promotion_refused'', ''loop_worktree_promotion_planned'',
     ''loop_worktree_promotion_apply_requested'', ''loop_worktree_promotion_apply_checked'',
     ''loop_worktree_promotion_apply_refused'', ''loop_worktree_promotion_apply_succeeded'',
     ''loop_worktree_promotion_apply_failed'', ''loop_worktree_promotion_verify_requested'',
     ''loop_worktree_promotion_verify_started'', ''loop_worktree_promotion_verify_refused'',
     ''loop_worktree_promotion_verify_succeeded'', ''loop_worktree_promotion_verify_failed'',
     ''loop_worktree_promotion_pr_prep_requested'', ''loop_worktree_promotion_pr_prep_refused'',
     ''loop_worktree_promotion_pr_prep_written'', ''loop_worktree_promotion_commit_requested'',
     ''loop_worktree_promotion_commit_refused'', ''loop_worktree_promotion_commit_succeeded'',
     ''loop_worktree_promotion_commit_failed'', ''loop_worktree_promotion_push_plan_requested'',
     ''loop_worktree_promotion_push_plan_refused'',
     ''loop_worktree_promotion_push_plan_written'',
     ''loop_worktree_promotion_push_preflight_requested'',
     ''loop_worktree_promotion_push_preflight_refused'',
     ''loop_worktree_promotion_push_preflight_succeeded'',
     ''loop_worktree_promotion_push_preflight_failed'',
     ''loop_worktree_promotion_push_execute_requested'',
     ''loop_worktree_promotion_push_execute_refused'',
     ''loop_worktree_promotion_push_execute_started'',
     ''loop_worktree_promotion_push_execute_succeeded'',
     ''loop_worktree_promotion_push_execute_failed'',
     ''loop_worktree_promotion_pr_create_prep_requested'',
     ''loop_worktree_promotion_pr_create_prep_refused'',
     ''loop_worktree_promotion_pr_create_prep_written'',
     ''loop_worktree_promotion_pr_create_execute_requested'',
     ''loop_worktree_promotion_pr_create_execute_refused'',
     ''loop_worktree_promotion_pr_create_execute_started'',
     ''loop_worktree_promotion_pr_create_execute_succeeded'',
     ''loop_worktree_promotion_pr_create_execute_failed'',
     ''loop_worktree_promotion_pr_merge_prep_requested'',
     ''loop_worktree_promotion_pr_merge_prep_refused'',
     ''loop_worktree_promotion_pr_merge_prep_ready'',
     ''loop_worktree_promotion_pr_merge_prep_blocked'',
     ''loop_worktree_promotion_pr_merge_execute_requested'',
     ''loop_worktree_promotion_pr_merge_execute_refused'',
     ''loop_worktree_promotion_pr_merge_execute_started'',
     ''loop_worktree_promotion_pr_merge_execute_succeeded'',
     ''loop_worktree_promotion_pr_merge_execute_failed'']"

definition loopHumanGateStates :: "string list" where
  "loopHumanGateStates = [
     ''none'', ''requested'', ''approved'', ''rejected'', ''expired'']"

definition loopRoutineScheduleModes :: "string list" where
  "loopRoutineScheduleModes = [
     ''manual'', ''cron'', ''event'']"

definition loopRoutineInputTypes :: "string list" where
  "loopRoutineInputTypes = [
     ''filesystem.glob'', ''git.commits'', ''github.issues'', ''github.prs'', ''github.checks'',
     ''github.commits'', ''loop.registry'']"

definition loopRoutineCheckTypes :: "string list" where
  "loopRoutineCheckTypes = [
     ''command'', ''loop-registry'', ''docs-check'', ''typecheck'', ''test'']"

definition loopRoutineWritePolicies :: "string list" where
  "loopRoutineWritePolicies = [
     ''forbidden'', ''approval-required'', ''allowed'']"

definition lifecycleRecipeActions :: "string list" where
  "lifecycleRecipeActions = [
     ''install'', ''update'', ''uninstall'']"

definition lifecycleRecipeReviewStates :: "string list" where
  "lifecycleRecipeReviewStates = [
     ''draft'', ''needs_review'', ''approved'', ''rejected'', ''archived'']"

definition lifecycleRecipeQueueStates :: "string list" where
  "lifecycleRecipeQueueStates = [
     ''not_queued'', ''local_approval_required'', ''queued'', ''observed'', ''running'',
     ''succeeded'', ''failed'', ''cancelled'', ''blocked'', ''expired'']"

definition aiProviderModes :: "string list" where
  "aiProviderModes = [
     ''byok'', ''platform_managed'', ''local_model'', ''disabled'']"

definition deploymentModes :: "string list" where
  "deploymentModes = [
     ''local_developer'', ''self_hosted'', ''saas'', ''private_deployment'']"

definition workProfileInferenceKinds :: "string list" where
  "workProfileInferenceKinds = [
     ''category'', ''recurring_activity'', ''document_pattern'', ''preferred_output'']"

definition workProfileConfidenceLevels :: "string list" where
  "workProfileConfidenceLevels = [
     ''low'', ''medium'', ''high'']"

definition workProfileEvidenceSourceKinds :: "string list" where
  "workProfileEvidenceSourceKinds = [
     ''explicit_user_input'', ''invocation'', ''document'', ''project'', ''routine'']"

definition workProfileAuthorizationPermissions :: "string list" where
  "workProfileAuthorizationPermissions = [
     ''read'', ''update'', ''use_for_personalization'']"

definition m0RequiredEventTypes :: "string list" where
  "m0RequiredEventTypes = [
     ''invocation_created'', ''invocation_authorized'', ''delivery_queued'',
     ''delivery_dispatched'', ''delivery_acknowledged'', ''delivery_redelivered'',
     ''trace_created'', ''span_started'', ''span_completed'', ''invocation_started'',
     ''invocation_succeeded'', ''invocation_failed'', ''cancel_requested'', ''cancel_applied'']"

definition m0RequiredInvocationStatuses :: "string list" where
  "m0RequiredInvocationStatuses = [
     ''created'', ''authorized'', ''queued'', ''dispatching'', ''running'', ''succeeded'',
     ''failed'', ''cancelled'', ''timed_out'', ''expired'']"

definition m0RequiredDeliveryStates :: "string list" where
  "m0RequiredDeliveryStates = [
     ''queued'', ''dispatching'', ''acknowledged'', ''redelivering'', ''delivery_failed'',
     ''expired'']"

definition m0RequiredCancellationStates :: "string list" where
  "m0RequiredCancellationStates = [
     ''none'', ''requested'', ''queued_cancelled'', ''dispatched'', ''applied'', ''failed'',
     ''not_supported'']"

definition loopRequiredRunStates :: "string list" where
  "loopRequiredRunStates = [
     ''created'', ''planning'', ''planned'', ''applying'', ''running_adapter'',
     ''checking_scope'', ''verifying'', ''awaiting_human'', ''queued'', ''claimed'',
     ''completed'', ''failed'', ''cancelled'', ''timed_out'']"

definition loopRequiredEventTypes :: "string list" where
  "loopRequiredEventTypes = [
     ''loop_run_created'', ''loop_state_changed'', ''loop_plan_written'',
     ''loop_manifest_written'', ''loop_testing_plan_written'', ''loop_adapter_contract_written'',
     ''loop_adapter_started'', ''loop_adapter_completed'', ''loop_scope_checked'',
     ''loop_verification_completed'', ''loop_completed'', ''loop_failed'',
     ''loop_cancel_requested'', ''loop_resume_requested'', ''loop_retry_requested'',
     ''loop_human_gate_required'', ''loop_human_gate_approved'', ''loop_human_gate_rejected'',
     ''loop_enqueued'', ''loop_claimed'', ''loop_heartbeat'', ''loop_released'',
     ''loop_timed_out'', ''loop_worker_started'', ''loop_worker_completed'',
     ''loop_worker_failed'', ''loop_worktree_cleanup_requested'',
     ''loop_worktree_cleanup_completed'', ''loop_worktree_cleanup_refused'',
     ''loop_worktree_review_written'', ''loop_worktree_promotion_requested'',
     ''loop_worktree_promotion_refused'', ''loop_worktree_promotion_planned'',
     ''loop_worktree_promotion_apply_requested'', ''loop_worktree_promotion_apply_checked'',
     ''loop_worktree_promotion_apply_refused'', ''loop_worktree_promotion_apply_succeeded'',
     ''loop_worktree_promotion_apply_failed'', ''loop_worktree_promotion_verify_requested'',
     ''loop_worktree_promotion_verify_started'', ''loop_worktree_promotion_verify_refused'',
     ''loop_worktree_promotion_verify_succeeded'', ''loop_worktree_promotion_verify_failed'',
     ''loop_worktree_promotion_pr_prep_requested'', ''loop_worktree_promotion_pr_prep_refused'',
     ''loop_worktree_promotion_pr_prep_written'', ''loop_worktree_promotion_commit_requested'',
     ''loop_worktree_promotion_commit_refused'', ''loop_worktree_promotion_commit_succeeded'',
     ''loop_worktree_promotion_commit_failed'', ''loop_worktree_promotion_push_plan_requested'',
     ''loop_worktree_promotion_push_plan_refused'',
     ''loop_worktree_promotion_push_plan_written'',
     ''loop_worktree_promotion_push_preflight_requested'',
     ''loop_worktree_promotion_push_preflight_refused'',
     ''loop_worktree_promotion_push_preflight_succeeded'',
     ''loop_worktree_promotion_push_preflight_failed'',
     ''loop_worktree_promotion_push_execute_requested'',
     ''loop_worktree_promotion_push_execute_refused'',
     ''loop_worktree_promotion_push_execute_started'',
     ''loop_worktree_promotion_push_execute_succeeded'',
     ''loop_worktree_promotion_push_execute_failed'',
     ''loop_worktree_promotion_pr_create_prep_requested'',
     ''loop_worktree_promotion_pr_create_prep_refused'',
     ''loop_worktree_promotion_pr_create_prep_written'',
     ''loop_worktree_promotion_pr_create_execute_requested'',
     ''loop_worktree_promotion_pr_create_execute_refused'',
     ''loop_worktree_promotion_pr_create_execute_started'',
     ''loop_worktree_promotion_pr_create_execute_succeeded'',
     ''loop_worktree_promotion_pr_create_execute_failed'',
     ''loop_worktree_promotion_pr_merge_prep_requested'',
     ''loop_worktree_promotion_pr_merge_prep_refused'',
     ''loop_worktree_promotion_pr_merge_prep_ready'',
     ''loop_worktree_promotion_pr_merge_prep_blocked'',
     ''loop_worktree_promotion_pr_merge_execute_requested'',
     ''loop_worktree_promotion_pr_merge_execute_refused'',
     ''loop_worktree_promotion_pr_merge_execute_started'',
     ''loop_worktree_promotion_pr_merge_execute_succeeded'',
     ''loop_worktree_promotion_pr_merge_execute_failed'']"

definition loopRequiredHumanGateStates :: "string list" where
  "loopRequiredHumanGateStates = [
     ''none'', ''requested'', ''approved'', ''rejected'', ''expired'']"

definition loopRequiredRoutineScheduleModes :: "string list" where
  "loopRequiredRoutineScheduleModes = [
     ''manual'', ''cron'', ''event'']"

definition loopRequiredRoutineInputTypes :: "string list" where
  "loopRequiredRoutineInputTypes = [
     ''filesystem.glob'', ''git.commits'', ''github.issues'', ''github.prs'', ''github.checks'',
     ''github.commits'', ''loop.registry'']"

definition loopRequiredRoutineCheckTypes :: "string list" where
  "loopRequiredRoutineCheckTypes = [
     ''command'', ''loop-registry'', ''docs-check'', ''typecheck'', ''test'']"

definition loopRequiredRoutineWritePolicies :: "string list" where
  "loopRequiredRoutineWritePolicies = [
     ''forbidden'', ''approval-required'', ''allowed'']"

definition m3RequiredLifecycleRecipeActions :: "string list" where
  "m3RequiredLifecycleRecipeActions = [
     ''install'', ''update'', ''uninstall'']"

definition m3RequiredLifecycleRecipeReviewStates :: "string list" where
  "m3RequiredLifecycleRecipeReviewStates = [
     ''draft'', ''needs_review'', ''approved'', ''rejected'', ''archived'']"

definition m3RequiredLifecycleRecipeQueueStates :: "string list" where
  "m3RequiredLifecycleRecipeQueueStates = [
     ''not_queued'', ''local_approval_required'', ''queued'', ''observed'', ''running'',
     ''succeeded'', ''failed'', ''cancelled'', ''blocked'', ''expired'']"

definition m3RequiredAiProviderModes :: "string list" where
  "m3RequiredAiProviderModes = [
     ''byok'', ''platform_managed'', ''local_model'', ''disabled'']"

definition m3RequiredDeploymentModes :: "string list" where
  "m3RequiredDeploymentModes = [
     ''local_developer'', ''self_hosted'', ''saas'', ''private_deployment'']"

definition refusalCategories :: "string list" where
  "refusalCategories = [
     ''not_granted'', ''policy'', ''state'', ''human'']"

definition refusalCodes :: "string list" where
  "refusalCodes = [
     ''capability_not_granted'', ''command_not_allowlisted'', ''cwd_outside_approved_root'',
     ''file_policy_exceeded'', ''network_policy_exceeded'', ''action_not_permitted'',
     ''subject_not_actionable'', ''over_budget'', ''over_quota'', ''undeliverable'',
     ''binary_unavailable'', ''approval_denied'', ''deliverable_rejected'', ''gate_rejected'']"

definition refusalSubjectKinds :: "string list" where
  "refusalSubjectKinds = [
     ''invocation'', ''lifecycle_action'', ''capability_call'', ''worktree_action'',
     ''application_action'', ''registration'']"

definition refusalRequesterKinds :: "string list" where
  "refusalRequesterKinds = [
     ''local_user'', ''control_plane'', ''automation'']"

definition refusalDeciderKinds :: "string list" where
  "refusalDeciderKinds = [
     ''grant'', ''policy_engine'', ''arbiter'', ''user'']"

definition roundStatuses :: "string list" where
  "roundStatuses = [
     ''started'', ''succeeded'', ''failed'', ''cancelled'']"

definition roundKinds :: "string list" where
  "roundKinds = [
     ''model_turn'']"

definition toolInvocationStatuses :: "string list" where
  "toolInvocationStatuses = [
     ''started'', ''succeeded'', ''failed'']"

definition aiUsageDerivations :: "string list" where
  "aiUsageDerivations = [
     ''rounds'', ''client_reported'', ''import'']"

definition roundTelemetryEventTypes :: "string list" where
  "roundTelemetryEventTypes = [
     ''round_started'', ''round_completed'', ''tool_invocation_created'']"

definition refusalCodesByCategory :: "(string \<times> string list) list" where
  "refusalCodesByCategory = [
     (''not_granted'', [''capability_not_granted'']),
     (''policy'', [''command_not_allowlisted'', ''cwd_outside_approved_root'', ''file_policy_exceeded'', ''network_policy_exceeded'', ''action_not_permitted'']),
     (''state'', [''subject_not_actionable'', ''over_budget'', ''over_quota'', ''undeliverable'', ''binary_unavailable'']),
     (''human'', [''approval_denied'', ''deliverable_rejected'', ''gate_rejected''])]"

definition refusalEventCatalog :: "catalog_entry list" where
  "refusalEventCatalog = [
     catalog ''bridge_delivery_refused'' (Some ''not_owned_or_inactive'') ''state'' ''subject_not_actionable'' False False,
     catalog ''bridge_lifecycle_refused'' (Some ''not_owned_or_not_running'') ''state'' ''subject_not_actionable'' False False,
     catalog ''bridge_operation_refused'' (Some ''not_owned_or_bad_status'') ''state'' ''subject_not_actionable'' False False,
     catalog ''delivery_refused'' (Some ''bridge_self_reported'') ''state'' ''undeliverable'' False False,
     catalog ''device_dispatch_blocked'' None ''state'' ''undeliverable'' True False,
     catalog ''project_remove_blocked'' None ''state'' ''subject_not_actionable'' False True,
     catalog ''local_execution_refused'' (Some ''command_not_allowlisted'') ''policy'' ''command_not_allowlisted'' False False,
     catalog ''local_execution_refused'' (Some ''cwd_outside_approved_root'') ''policy'' ''cwd_outside_approved_root'' False False,
     catalog ''local_execution_refused'' (Some ''file_policy_exceeded'') ''policy'' ''file_policy_exceeded'' False False,
     catalog ''local_execution_refused'' (Some ''network_policy_exceeded'') ''policy'' ''network_policy_exceeded'' False False,
     catalog ''local_execution_refused'' (Some ''binary_unavailable'') ''state'' ''binary_unavailable'' False False,
     catalog ''policy_blocked'' None ''policy'' ''command_not_allowlisted'' False True,
     catalog ''application_orchestration_recovery_action_rejected'' None ''policy'' ''action_not_permitted'' False False,
     catalog ''recovery_action_blocked'' None ''policy'' ''action_not_permitted'' False True,
     catalog ''lifecycle_gate_blocked'' None ''policy'' ''action_not_permitted'' False True,
     catalog ''rollback_gate_blocked'' None ''policy'' ''action_not_permitted'' False True,
     catalog ''loop_worktree_promotion_pr_merge_prep_blocked'' None ''policy'' ''action_not_permitted'' False False,
     catalog ''invocation_rejected'' (Some ''over_quota'') ''state'' ''over_quota'' False False,
     catalog ''invocation_rejected'' (Some ''over_budget'') ''state'' ''over_budget'' False False,
     catalog ''invocation_rejected'' (Some ''local_approval_denied'') ''human'' ''approval_denied'' False False,
     catalog ''local_approval_denied'' None ''human'' ''approval_denied'' False False,
     catalog ''codex_approval_denied'' None ''human'' ''approval_denied'' False False,
     catalog ''auto_run_denied'' None ''human'' ''approval_denied'' False False,
     catalog ''permission_denied'' None ''not_granted'' ''capability_not_granted'' True False,
     catalog ''auto_run_design_rejected'' None ''human'' ''deliverable_rejected'' False False,
     catalog ''auto_run_decomposition_rejected'' None ''human'' ''deliverable_rejected'' False False,
     catalog ''loop_human_gate_rejected'' None ''human'' ''gate_rejected'' False False,
     catalog ''loop_worktree_cleanup_refused'' None ''human'' ''gate_rejected'' False False,
     catalog ''loop_worktree_promotion_refused'' None ''human'' ''gate_rejected'' False False,
     catalog ''loop_worktree_promotion_apply_refused'' None ''human'' ''gate_rejected'' False False,
     catalog ''loop_worktree_promotion_verify_refused'' None ''human'' ''gate_rejected'' False False,
     catalog ''loop_worktree_promotion_pr_prep_refused'' None ''human'' ''gate_rejected'' False False,
     catalog ''loop_worktree_promotion_commit_refused'' None ''human'' ''gate_rejected'' False False,
     catalog ''loop_worktree_promotion_push_plan_refused'' None ''human'' ''gate_rejected'' False False,
     catalog ''loop_worktree_promotion_push_preflight_refused'' None ''human'' ''gate_rejected'' False False,
     catalog ''loop_worktree_promotion_push_execute_refused'' None ''human'' ''gate_rejected'' False False,
     catalog ''loop_worktree_promotion_pr_create_prep_refused'' None ''human'' ''gate_rejected'' False False,
     catalog ''loop_worktree_promotion_pr_create_execute_refused'' None ''human'' ''gate_rejected'' False False,
     catalog ''loop_worktree_promotion_pr_merge_prep_refused'' None ''human'' ''gate_rejected'' False False,
     catalog ''loop_worktree_promotion_pr_merge_execute_refused'' None ''human'' ''gate_rejected'' False False]"

section \<open>The self check\<close>

type_synonym check = "string + unit"

fun assertIncludes :: "string list \<Rightarrow> string list \<Rightarrow> string \<Rightarrow> check" where
  "assertIncludes actual [] label = Inr ()"
| "assertIncludes actual (v # vs) label =
     (if v \<in> set actual then assertIncludes actual vs label
      else Inl (''Missing M0 '' @ label @ '': '' @ v))"

text \<open>Statements in sequence: the first one that throws ends the check.\<close>

fun in_sequence :: "check list \<Rightarrow> check" where
  "in_sequence [] = Inr ()"
| "in_sequence (Inl e # cs) = Inl e"
| "in_sequence (Inr u # cs) = in_sequence cs"

text \<open>The inner loop over the codes of one category, with the set \<open>seen\<close>.\<close>

fun check_codes :: "string list \<Rightarrow> string list \<Rightarrow> string + string list" where
  "check_codes [] seen = Inr seen"
| "check_codes (c # cs) seen =
     (if c \<notin> set refusalCodes then Inl (''refusalCodesByCategory has unknown code: '' @ c)
      else if c \<in> set seen then Inl (''refusal code in more than one category: '' @ c)
      else check_codes cs (c # seen))"

fun check_categories :: "string list \<Rightarrow> string list \<Rightarrow> string + string list" where
  "check_categories [] seen = Inr seen"
| "check_categories (g # gs) seen =
     (case map_of refusalCodesByCategory g of
        None \<Rightarrow> Inl (''Missing refusal category in map: '' @ g)
      | Some codes \<Rightarrow>
          (case check_codes codes seen of
             Inl e \<Rightarrow> Inl e
           | Inr seen' \<Rightarrow> check_categories gs seen'))"

fun check_assigned :: "string list \<Rightarrow> string list \<Rightarrow> check" where
  "check_assigned [] seen = Inr ()"
| "check_assigned (c # cs) seen =
     (if c \<in> set seen then check_assigned cs seen
      else Inl (''refusal code not assigned to a category: '' @ c))"

definition codes_of :: "string \<Rightarrow> string list" where
  "codes_of g = (case map_of refusalCodesByCategory g of None \<Rightarrow> [] | Some cs \<Rightarrow> cs)"

fun check_catalog :: "catalog_entry list \<Rightarrow> check" where
  "check_catalog [] = Inr ()"
| "check_catalog (e # es) =
     (if ce_code e \<notin> set refusalCodes
      then Inl (''refusalEventCatalog uses unknown code: '' @ ce_code e @ '' ('' @ ce_eventType e @ '')'')
      else if ce_code e \<notin> set (codes_of (ce_category e))
      then Inl (''refusalEventCatalog category/code mismatch: '' @ ce_eventType e @ '' -> ''
                @ ce_category e @ ''/'' @ ce_code e)
      else check_catalog es)"

definition is_refusal_event_name :: "string \<Rightarrow> bool" where
  "is_refusal_event_name s \<longleftrightarrow> ends_with s ''_refused'' \<or> ends_with s ''_blocked''"

fun check_mapped :: "string list \<Rightarrow> string list \<Rightarrow> check" where
  "check_mapped [] mapped = Inr ()"
| "check_mapped (t # ts) mapped =
     (if is_refusal_event_name t \<and> t \<notin> set mapped
      then Inl (''Unmapped loop refusal event: '' @ t)
      else check_mapped ts mapped)"

definition requiredRefusalCodes :: "string list" where
  "requiredRefusalCodes = [
     ''capability_not_granted'', ''command_not_allowlisted'', ''cwd_outside_approved_root'',
     ''file_policy_exceeded'', ''network_policy_exceeded'', ''action_not_permitted'',
     ''subject_not_actionable'', ''over_budget'', ''over_quota'', ''undeliverable'',
     ''approval_denied'', ''deliverable_rejected'', ''gate_rejected'']"

definition runRefusalTaxonomyCheck :: check where
  "runRefusalTaxonomyCheck =
     in_sequence [
       assertIncludes refusalCodes requiredRefusalCodes ''refusal code'',
       assertIncludes refusalCategories [''not_granted'', ''policy'', ''state'', ''human'']
         ''refusal category'',
       (case check_categories refusalCategories [] of
          Inl e \<Rightarrow> Inl e
        | Inr seen \<Rightarrow> check_assigned refusalCodes seen),
       check_catalog refusalEventCatalog,
       check_mapped loopEventTypes (map ce_eventType refusalEventCatalog)]"

fun check_tool_statuses :: "string list \<Rightarrow> check" where
  "check_tool_statuses [] = Inr ()"
| "check_tool_statuses (s # ss) =
     (if s \<in> set roundStatuses then check_tool_statuses ss
      else Inl (''tool invocation status not a valid round status: '' @ s))"

definition runRoundTelemetryCheck :: check where
  "runRoundTelemetryCheck =
     in_sequence [
       assertIncludes roundStatuses [''started'', ''succeeded'', ''failed'', ''cancelled'']
         ''round status'',
       assertIncludes roundKinds [''model_turn''] ''round kind'',
       assertIncludes toolInvocationStatuses [''started'', ''succeeded'', ''failed'']
         ''tool invocation status'',
       assertIncludes aiUsageDerivations [''rounds'', ''client_reported'', ''import'']
         ''AI usage derivation'',
       assertIncludes roundTelemetryEventTypes
         [''round_started'', ''round_completed'', ''tool_invocation_created'']
         ''round telemetry event type'',
       check_tool_statuses toolInvocationStatuses]"

definition runWorkProfileCheck :: check where
  "runWorkProfileCheck =
     in_sequence [
       assertIncludes workProfileInferenceKinds
         [''category'', ''recurring_activity'', ''document_pattern'', ''preferred_output'']
         ''work profile inference kind'',
       assertIncludes workProfileConfidenceLevels [''low'', ''medium'', ''high'']
         ''work profile confidence level'',
       assertIncludes workProfileEvidenceSourceKinds
         [''explicit_user_input'', ''invocation'', ''document'', ''project'', ''routine'']
         ''work profile evidence source kind'',
       assertIncludes workProfileAuthorizationPermissions
         [''read'', ''update'', ''use_for_personalization'']
         ''work profile authorization permission'']"

definition runM0ProtocolCheck :: check where
  "runM0ProtocolCheck =
     in_sequence [
       assertIncludes invocationStatuses m0RequiredInvocationStatuses ''invocation status'',
       assertIncludes deliveryStates m0RequiredDeliveryStates ''delivery state'',
       assertIncludes cancellationStates m0RequiredCancellationStates ''cancellation state'',
       assertIncludes loopRunStates loopRequiredRunStates ''loop run state'',
       assertIncludes loopEventTypes loopRequiredEventTypes ''loop event type'',
       assertIncludes loopHumanGateStates loopRequiredHumanGateStates ''loop human gate state'',
       assertIncludes loopRoutineScheduleModes loopRequiredRoutineScheduleModes
         ''loop routine schedule mode'',
       assertIncludes loopRoutineInputTypes loopRequiredRoutineInputTypes ''loop routine input type'',
       assertIncludes loopRoutineCheckTypes loopRequiredRoutineCheckTypes ''loop routine check type'',
       assertIncludes loopRoutineWritePolicies loopRequiredRoutineWritePolicies
         ''loop routine write policy'',
       assertIncludes lifecycleRecipeActions m3RequiredLifecycleRecipeActions
         ''M3 lifecycle recipe action'',
       assertIncludes lifecycleRecipeReviewStates m3RequiredLifecycleRecipeReviewStates
         ''M3 lifecycle recipe review state'',
       assertIncludes lifecycleRecipeQueueStates m3RequiredLifecycleRecipeQueueStates
         ''M3 lifecycle recipe queue state'',
       assertIncludes aiProviderModes m3RequiredAiProviderModes ''M3 AI provider mode'',
       assertIncludes deploymentModes m3RequiredDeploymentModes ''M3 deployment mode'',
       runRefusalTaxonomyCheck,
       runRoundTelemetryCheck,
       runWorkProfileCheck,
       assertIncludes m0RequiredEventTypes
         [''invocation_created'', ''delivery_dispatched'', ''delivery_acknowledged'',
          ''delivery_redelivered'', ''trace_created'', ''span_completed'', ''cancel_applied'']
         ''event type'']"

section \<open>What a passing check establishes\<close>

lemma assertIncludes_iff: "assertIncludes actual req label = Inr () \<longleftrightarrow> set req \<subseteq> set actual"
  by (induction actual req label rule: assertIncludes.induct) auto

lemma in_sequence_iff: "in_sequence cs = Inr () \<longleftrightarrow> (\<forall>c \<in> set cs. c = Inr ())"
  by (induction cs rule: in_sequence.induct) auto

lemma check_codes_sound:
  "check_codes cs seen = Inr seen' \<Longrightarrow> distinct seen \<Longrightarrow>
   seen' = rev cs @ seen \<and> distinct seen' \<and> set cs \<subseteq> set refusalCodes"
  by (induction cs seen arbitrary: seen' rule: check_codes.induct) (auto split: if_splits)

lemma check_categories_sound:
  "check_categories gs seen = Inr seen' \<Longrightarrow> distinct seen \<Longrightarrow>
   distinct seen' \<and> set seen' = set seen \<union> (\<Union>g \<in> set gs. set (codes_of g))
   \<and> seen' = rev (concat (map codes_of gs)) @ seen"
proof (induction gs arbitrary: seen)
  case Nil
  then show ?case by simp
next
  case (Cons g gs)
  then show ?case
    by (auto simp: codes_of_def split: option.splits sum.splits dest!: check_codes_sound)
qed

lemma check_assigned_iff: "check_assigned cs seen = Inr () \<longleftrightarrow> set cs \<subseteq> set seen"
  by (induction cs) auto

lemma check_catalog_iff:
  "check_catalog es = Inr () \<longleftrightarrow>
     (\<forall>e \<in> set es. ce_code e \<in> set refusalCodes \<and> ce_code e \<in> set (codes_of (ce_category e)))"
  by (induction es) auto

lemma check_mapped_iff:
  "check_mapped ts mapped = Inr () \<longleftrightarrow>
     (\<forall>t \<in> set ts. is_refusal_event_name t \<longrightarrow> t \<in> set mapped)"
  by (induction ts) auto

lemma taxonomy_check_sound:
  assumes "runRefusalTaxonomyCheck = Inr ()"
  shows "distinct (concat (map codes_of refusalCategories))
    \<and> set (concat (map codes_of refusalCategories)) \<supseteq> set refusalCodes
    \<and> (\<forall>e \<in> set refusalEventCatalog. ce_code e \<in> set (codes_of (ce_category e)))
    \<and> (\<forall>t \<in> set loopEventTypes. is_refusal_event_name t \<longrightarrow>
          t \<in> set (map ce_eventType refusalEventCatalog))"
proof -
  have steps: "(case check_categories refusalCategories [] of
        Inl e \<Rightarrow> Inl e | Inr seen \<Rightarrow> check_assigned refusalCodes seen) = Inr ()"
    and cat: "check_catalog refusalEventCatalog = Inr ()"
    and mapped: "check_mapped loopEventTypes (map ce_eventType refusalEventCatalog) = Inr ()"
    using assms unfolding runRefusalTaxonomyCheck_def in_sequence_iff by (simp_all only: list.set insert_iff ball_simps simp_thms)
  from steps obtain seen where seen: "check_categories refusalCategories [] = Inr seen"
    and assigned: "check_assigned refusalCodes seen = Inr ()"
    by (cases "check_categories refusalCategories []") auto
  from check_categories_sound [OF seen] have "distinct (rev (concat (map codes_of refusalCategories)))"
    and "set seen = set (concat (map codes_of refusalCategories))" by auto
  with assigned cat mapped show ?thesis
    by (auto simp: check_assigned_iff check_catalog_iff check_mapped_iff)
qed

section \<open>The shipped vocabulary passes\<close>

text \<open>A required list that is a subsequence of the actual one is included in it; deciding the
  subsequence takes one pass.\<close>

fun in_order :: "string list \<Rightarrow> string list \<Rightarrow> bool" where
  "in_order [] ys = True"
| "in_order (x # xs) [] = False"
| "in_order (x # xs) (y # ys) = (if x = y then in_order xs ys else in_order (x # xs) ys)"

lemma in_order_subset: "in_order xs ys \<Longrightarrow> set xs \<subseteq> set ys"
  by (induction xs ys rule: in_order.induct) (auto split: if_splits)

lemma assertIncludes_in_order: "in_order req actual \<Longrightarrow> assertIncludes actual req label = Inr ()"
  by (simp add: assertIncludes_iff in_order_subset)

lemma loop_event_types_included: "in_order loopRequiredEventTypes loopEventTypes"
  by code_simp

lemma m0_vocabulary_included:
  "in_order m0RequiredInvocationStatuses invocationStatuses"
  "in_order m0RequiredDeliveryStates deliveryStates"
  "in_order m0RequiredCancellationStates cancellationStates"
  "in_order loopRequiredRunStates loopRunStates"
  "in_order loopRequiredHumanGateStates loopHumanGateStates"
  "in_order loopRequiredRoutineScheduleModes loopRoutineScheduleModes"
  "in_order loopRequiredRoutineInputTypes loopRoutineInputTypes"
  "in_order loopRequiredRoutineCheckTypes loopRoutineCheckTypes"
  "in_order loopRequiredRoutineWritePolicies loopRoutineWritePolicies"
  by (simp_all add: m0RequiredInvocationStatuses_def invocationStatuses_def
      m0RequiredDeliveryStates_def deliveryStates_def m0RequiredCancellationStates_def
      cancellationStates_def loopRequiredRunStates_def loopRunStates_def
      loopRequiredHumanGateStates_def loopHumanGateStates_def
      loopRequiredRoutineScheduleModes_def loopRoutineScheduleModes_def
      loopRequiredRoutineInputTypes_def loopRoutineInputTypes_def
      loopRequiredRoutineCheckTypes_def loopRoutineCheckTypes_def
      loopRequiredRoutineWritePolicies_def loopRoutineWritePolicies_def)

lemma m3_vocabulary_included:
  "in_order m3RequiredLifecycleRecipeActions lifecycleRecipeActions"
  "in_order m3RequiredLifecycleRecipeReviewStates lifecycleRecipeReviewStates"
  "in_order m3RequiredLifecycleRecipeQueueStates lifecycleRecipeQueueStates"
  "in_order m3RequiredAiProviderModes aiProviderModes"
  "in_order m3RequiredDeploymentModes deploymentModes"
  by (simp_all add: m3RequiredLifecycleRecipeActions_def lifecycleRecipeActions_def
      m3RequiredLifecycleRecipeReviewStates_def lifecycleRecipeReviewStates_def
      m3RequiredLifecycleRecipeQueueStates_def lifecycleRecipeQueueStates_def
      m3RequiredAiProviderModes_def aiProviderModes_def m3RequiredDeploymentModes_def
      deploymentModes_def)

lemma taxonomy_check_passes: "runRefusalTaxonomyCheck = Inr ()"
  by code_simp

lemma round_and_profile_checks_pass:
  "runRoundTelemetryCheck = Inr ()" "runWorkProfileCheck = Inr ()"
  by (simp_all add: runRoundTelemetryCheck_def runWorkProfileCheck_def roundStatuses_def
      roundKinds_def toolInvocationStatuses_def aiUsageDerivations_def
      roundTelemetryEventTypes_def workProfileInferenceKinds_def workProfileConfidenceLevels_def
      workProfileEvidenceSourceKinds_def workProfileAuthorizationPermissions_def)

lemma event_types_included:
  "assertIncludes m0RequiredEventTypes
     [''invocation_created'', ''delivery_dispatched'', ''delivery_acknowledged'',
      ''delivery_redelivered'', ''trace_created'', ''span_completed'', ''cancel_applied'']
     ''event type'' = Inr ()"
  by code_simp

text \<open>The protocol self check of the shipped vocabulary returns without throwing, and therefore
  every refusal code belongs to exactly one category, every catalogue row agrees with that map, and
  every loop event whose name ends in \<open>_refused\<close> or \<open>_blocked\<close> is catalogued.\<close>

theorem protocol_check_passes:
  "runM0ProtocolCheck = Inr ()
   \<and> distinct (concat (map codes_of refusalCategories))
   \<and> set refusalCodes \<subseteq> set (concat (map codes_of refusalCategories))
   \<and> list_all (\<lambda>e. ce_code e \<in> set (codes_of (ce_category e))) refusalEventCatalog
   \<and> list_all (\<lambda>t. t \<in> set (map ce_eventType refusalEventCatalog))
       (filter is_refusal_event_name loopEventTypes)"
proof -
  have "runM0ProtocolCheck = Inr ()"
    by (simp add: runM0ProtocolCheck_def assertIncludes_in_order loop_event_types_included
        m0_vocabulary_included m3_vocabulary_included taxonomy_check_passes
        round_and_profile_checks_pass event_types_included del: assertIncludes.simps)
  moreover note taxonomy_check_sound [OF taxonomy_check_passes]
  ultimately show ?thesis by (auto simp: list_all_iff)
qed

end
