(* ===== verification/Refusals.thy ===== *)
theory Refusals
  imports EventLog Protocol
begin

text \<open>
  The refusal log: runtime/refusal-log.mjs (\<open>refuse\<close>, the single writer of a veto, and
  \<open>firstRefusal\<close>), runtime/refusal-daily-stats.mjs (the per-day counters),
  \<open>capWithArchive\<close> of services/retention-archive.mjs and the read surface
  services/invocation-refusals.mjs.  A day is the number of whole days of a time stamp; the
  source writes it as the first ten characters of the ISO string, which order the same way.
\<close>

section \<open>State\<close>

record entity_ref =
  er_kind :: string
  er_id :: "string option"

record refusal =
  rf_id :: string
  rf_at :: instant
  rf_subject :: entity_ref
  rf_requester :: entity_ref
  rf_category :: string
  rf_code :: string
  rf_decidedBy :: entity_ref
  rf_summary :: string
  rf_evidence :: json
  rf_remedy :: string
  rf_retryAfter :: "instant option"
  rf_appealTo :: "string option"
  rf_invocationId :: "string option"

record refusal_in =
  ri_subject :: "entity_ref option"
  ri_requester :: "entity_ref option"
  ri_category :: string
  ri_code :: string
  ri_decidedBy :: "entity_ref option"
  ri_summary :: "string option"
  ri_evidence :: json
  ri_remedy :: "string option"
  ri_retryAfter :: "instant option"
  ri_appealTo :: "string option"
  ri_event :: "event_in option"

abbreviation ref_to :: "string \<Rightarrow> string option \<Rightarrow> entity_ref" where
  "ref_to k i \<equiv> \<lparr>er_kind = k, er_id = i\<rparr>"

record day_stat =
  ds_date :: int
  ds_total :: nat
  ds_byCategory :: "(string \<times> nat) list"

record refusal_core = core +
  refusals :: "refusal list"
  refusal_archive :: "refusal list"
  refusal_archive_up :: "refusal list \<Rightarrow> bool"
  refusal_stats :: "day_stat list"
  refusal_since :: "int option"

section \<open>Day counters\<close>

definition MAX_STAT_DAYS :: int where "MAX_STAT_DAYS = 120"

definition utcDate :: "instant \<Rightarrow> int" where
  "utcDate t = t div 86400000"

definition trimOldStats :: "int \<Rightarrow> day_stat list \<Rightarrow> day_stat list" where
  "trimOldStats newest rows = filter (\<lambda>r. newest - MAX_STAT_DAYS \<le> ds_date r) rows"

definition bump_category :: "string \<Rightarrow> (string \<times> nat) list \<Rightarrow> (string \<times> nat) list" where
  "bump_category c kvs = assoc_set c (coalesce (map_of kvs c) 0 + 1) kvs"

definition bump_row :: "string \<Rightarrow> day_stat \<Rightarrow> day_stat" where
  "bump_row c r = r\<lparr>ds_total := ds_total r + 1, ds_byCategory := bump_category c (ds_byCategory r)\<rparr>"

definition stats_after :: "int \<Rightarrow> string \<Rightarrow> day_stat list \<Rightarrow> day_stat list" where
  "stats_after d category rows =
     (let rows1 = (case List.find (\<lambda>r. ds_date r = d) rows of
                     Some r \<Rightarrow> rows
                   | None \<Rightarrow> trimOldStats d (\<lparr>ds_date = d, ds_total = 0, ds_byCategory = []\<rparr> # rows));
          cat = (if category = [] then ''unknown'' else category)
      in upd_where (\<lambda>r. ds_date r = d) (bump_row cat) rows1)"

definition recordRefusalDailyStat ::
    "instant \<Rightarrow> string \<Rightarrow> 'a refusal_core_scheme \<Rightarrow> 'a refusal_core_scheme" where
  "recordRefusalDailyStat t category st =
     st\<lparr>refusal_since := coalesce_opt (refusal_since st) (Some (utcDate t)),
        refusal_stats := stats_after (utcDate t) category (refusal_stats st)\<rparr>"

section \<open>refuse\<close>

definition REFUSALS_CAP :: nat where "REFUSALS_CAP = 200"

definition assertTaxonomy :: "string \<Rightarrow> string \<Rightarrow> string + unit" where
  "assertTaxonomy category code =
     (if category \<notin> set refusalCategories
      then Inl (''refuse(): unknown category \"'' @ category @ ''\"'')
      else if code \<notin> set refusalCodes
      then Inl (''refuse(): unknown code \"'' @ code @ ''\"'')
      else if code \<notin> set (codes_of category)
      then Inl (''refuse(): '' @ category @ ''/'' @ code @ '' is not in the closed taxonomy'')
      else Inr ())"

text \<open>\<open>capWithArchive\<close>: the overflow goes to the archive before it is cut off; the answer of the
  archive is not looked at.\<close>

definition refusal_push :: "refusal \<Rightarrow> 'a refusal_core_scheme \<Rightarrow> 'a refusal_core_scheme" where
  "refusal_push r st =
     (let out = overflow REFUSALS_CAP r (refusals st)
      in if out \<noteq> [] \<and> refusal_archive_up st out
         then st\<lparr>refusals := push_cap REFUSALS_CAP r (refusals st),
                 refusal_archive := refusal_archive st @ out\<rparr>
         else st\<lparr>refusals := push_cap REFUSALS_CAP r (refusals st)\<rparr>)"

definition refusal_row :: "instant \<Rightarrow> refusal_in \<Rightarrow> string \<Rightarrow> refusal" where
  "refusal_row t a i =
     \<lparr>rf_id = i, rf_at = t,
      rf_subject = coalesce (ri_subject a) (ref_to ''invocation'' None),
      rf_requester = coalesce (ri_requester a) (ref_to ''control_plane'' None),
      rf_category = ri_category a, rf_code = ri_code a,
      rf_decidedBy = coalesce (ri_decidedBy a) (ref_to ''policy_engine'' None),
      rf_summary = coalesce (ri_summary a) [],
      rf_evidence = (if is_object (ri_evidence a) then ri_evidence a else JObj []),
      rf_remedy = coalesce (ri_remedy a) [],
      rf_retryAfter = ri_retryAfter a, rf_appealTo = ri_appealTo a,
      rf_invocationId =
        coalesce_opt (Option.bind (ri_event a) ei_invocationId)
          (case ri_subject a of
             Some s \<Rightarrow> if er_kind s = ''invocation'' then er_id s else None
           | None \<Rightarrow> None)\<rparr>"

definition refuse_unchecked ::
    "instant \<Rightarrow> refusal_in \<Rightarrow> 'a refusal_core_scheme \<Rightarrow> 'a refusal_core_scheme" where
  "refuse_unchecked t a st =
     (let st1 = (case ri_event a of None \<Rightarrow> st | Some e \<Rightarrow> append_event t e st);
          (i, st2) = next_id ''ref_demo'' st1
      in recordRefusalDailyStat t (ri_category a) (refusal_push (refusal_row t a i) st2))"

definition refuse ::
    "instant \<Rightarrow> refusal_in \<Rightarrow> 'a refusal_core_scheme \<Rightarrow> string + 'a refusal_core_scheme" where
  "refuse t a st =
     (case assertTaxonomy (ri_category a) (ri_code a) of
        Inl e \<Rightarrow> Inl e
      | Inr _ \<Rightarrow> Inr (refuse_unchecked t a st))"

section \<open>firstRefusal\<close>

fun indexOf :: "string list \<Rightarrow> string \<Rightarrow> int" where
  "indexOf [] y = -1"
| "indexOf (x # xs) y = (if x = y then 0 else let k = indexOf xs y in if k < 0 then -1 else k + 1)"

definition firstRefusal :: "(string \<times> 'a) option list \<Rightarrow> (string \<times> 'a) option" where
  "firstRefusal candidates =
     (case sort_by (key_then (\<lambda>c. indexOf refusalCategories (fst c)) (\<lambda>_ _. True))
             (List.map_filter id candidates) of
        [] \<Rightarrow> None
      | c # _ \<Rightarrow> Some c)"

section \<open>The read surface\<close>

definition clampLimit :: "int option \<Rightarrow> nat" where
  "clampLimit limit =
     (case limit of None \<Rightarrow> 200 | Some n \<Rightarrow> if n \<le> 0 then 200 else nat (min 500 n))"

text \<open>An archived row is \<open>None\<close> when it has not the shape of a refusal at all.\<close>

definition isInvocationRefusal :: "string \<Rightarrow> refusal \<Rightarrow> bool" where
  "isInvocationRefusal i r \<longleftrightarrow> rf_id r \<noteq> [] \<and> rf_invocationId r = Some i"

fun merge_archived ::
    "string \<Rightarrow> refusal option list \<Rightarrow> (string \<times> refusal) list \<Rightarrow> nat \<Rightarrow> (string \<times> refusal) list \<times> nat" where
  "merge_archived i [] m bad = (m, bad)"
| "merge_archived i (row # rows) m bad =
     (case row of
        None \<Rightarrow> merge_archived i rows m (bad + 1)
      | Some r \<Rightarrow>
          if \<not> isInvocationRefusal i r then merge_archived i rows m (bad + 1)
          else merge_archived i rows
                 (if map_of m (rf_id r) = None then assoc_set (rf_id r) r m else m) bad)"

fun merge_live :: "string \<Rightarrow> refusal list \<Rightarrow> (string \<times> refusal) list \<Rightarrow> (string \<times> refusal) list" where
  "merge_live i [] m = m"
| "merge_live i (r # rs) m =
     merge_live i rs (if isInvocationRefusal i r then assoc_set (rf_id r) r m else m)"

text \<open>\<open>compareRefusals(left, right) <= 0\<close>; \<open>cmp\<close> is \<open>localeCompare\<close> on ids.\<close>

definition compareRefusals :: "(string \<Rightarrow> string \<Rightarrow> int) \<Rightarrow> refusal \<Rightarrow> refusal \<Rightarrow> bool" where
  "compareRefusals cmp = key_then (\<lambda>r. - rf_at r) (\<lambda>l r. cmp (rf_id r) (rf_id l) \<le> 0)"

record archive_page =
  ap_rows :: "refusal option list"
  ap_damaged :: bool
  ap_more :: bool

definition listInvocationRefusals ::
    "(string \<Rightarrow> string \<Rightarrow> int) \<Rightarrow> archive_page \<Rightarrow> string \<Rightarrow> int option \<Rightarrow> 'a refusal_core_scheme
     \<Rightarrow> refusal list \<times> bool" where
  "listInvocationRefusals cmp page i limit st =
     (let cap = clampLimit limit;
          (m, bad) = merge_archived i (ap_rows page) [] 0;
          all = sort_by (compareRefusals cmp) (map snd (merge_live i (refusals st) m))
      in (take cap all, cap < length all \<or> ap_more page \<or> ap_damaged page \<or> 0 < bad))"

section \<open>Frame\<close>

lemma refusal_push_frame [simp, frame]:
  "invocations (refusal_push r st) = invocations st" "events (refusal_push r st) = events st"
  "id_counter (refusal_push r st) = id_counter st" "issued_ids (refusal_push r st) = issued_ids st"
  "event_archive (refusal_push r st) = event_archive st"
  "event_retention (refusal_push r st) = event_retention st"
  "refusal_stats (refusal_push r st) = refusal_stats st"
  "refusal_since (refusal_push r st) = refusal_since st"
  "refusal_archive_up (refusal_push r st) = refusal_archive_up st"
  "refusal_core.more (refusal_push r st) = refusal_core.more st"
  by (simp_all add: refusal_push_def Let_def)

lemma recordRefusalDailyStat_frame [simp, frame]:
  "invocations (recordRefusalDailyStat t c st) = invocations st"
  "events (recordRefusalDailyStat t c st) = events st"
  "id_counter (recordRefusalDailyStat t c st) = id_counter st"
  "issued_ids (recordRefusalDailyStat t c st) = issued_ids st"
  "refusals (recordRefusalDailyStat t c st) = refusals st"
  "refusal_archive (recordRefusalDailyStat t c st) = refusal_archive st"
  "refusal_core.more (recordRefusalDailyStat t c st) = refusal_core.more st"
  by (simp_all add: recordRefusalDailyStat_def)

lemma next_id_refusal [simp, frame]:
  "refusals (snd (next_id p st)) = refusals st"
  "refusal_archive (snd (next_id p st)) = refusal_archive st"
  "refusal_archive_up (snd (next_id p st)) = refusal_archive_up st"
  "refusal_stats (snd (next_id p st)) = refusal_stats st"
  "refusal_since (snd (next_id p st)) = refusal_since st"
  "refusal_core.more (snd (next_id p st)) = refusal_core.more st"
  by (simp_all add: next_id_def Let_def)

lemma append_event_refusal [simp, frame]:
  "refusals (append_event t e st) = refusals st"
  "refusal_archive (append_event t e st) = refusal_archive st"
  "refusal_archive_up (append_event t e st) = refusal_archive_up st"
  "refusal_stats (append_event t e st) = refusal_stats st"
  "refusal_since (append_event t e st) = refusal_since st"
  "refusal_core.more (append_event t e st) = refusal_core.more st"
  by (simp_all add: append_event_def log_push_def Let_def split: prod.split)
     (metis next_id_refusal snd_conv)+

lemma append_events_refusal [simp, frame]:
  "refusals (append_events t es st) = refusals st"
  "refusal_archive (append_events t es st) = refusal_archive st"
  "refusal_archive_up (append_events t es st) = refusal_archive_up st"
  "refusal_stats (append_events t es st) = refusal_stats st"
  by (induction es arbitrary: st; simp)+

lemma upd_inv_refusal [simp, frame]:
  "refusals (upd_inv i f st) = refusals st"
  "refusal_archive (upd_inv i f st) = refusal_archive st"
  "refusal_stats (upd_inv i f st) = refusal_stats st"
  "refusal_core.more (upd_inv i f st) = refusal_core.more st"
  by (simp_all add: upd_inv_def)

lemma refuse_unchecked_frame [simp, frame]:
  "invocations (refuse_unchecked t a st) = invocations st"
  "refusal_core.more (refuse_unchecked t a st) = refusal_core.more st"
  by (simp_all add: refuse_unchecked_def case_prod_beta Let_def split: option.split)

lemma find_inv_refuse [simp]: "find_inv i (refuse_unchecked t a st) = find_inv i st"
  by (simp add: find_inv_def)

lemma refuse_unchecked_issued: "set (issued_ids st) \<subseteq> set (issued_ids (refuse_unchecked t a st))"
  by (auto simp: refuse_unchecked_def case_prod_beta Let_def next_id_issued split: option.split
      dest: append_event_issued [THEN subsetD])

section \<open>The day counters count every veto once\<close>

definition day_total :: "int \<Rightarrow> day_stat list \<Rightarrow> nat" where
  "day_total d rows = (case List.find (\<lambda>r. ds_date r = d) rows of None \<Rightarrow> 0 | Some r \<Rightarrow> ds_total r)"

definition stats_ok :: "day_stat list \<Rightarrow> bool" where
  "stats_ok rows \<longleftrightarrow> distinct (map ds_date rows)
     \<and> list_all (\<lambda>r. ds_total r = sum_list (map snd (ds_byCategory r))) rows"

lemma sum_bump: "sum_list (map snd (bump_category c kvs)) = sum_list (map snd kvs) + 1"
proof -
  have "sum_list (map snd (assoc_set c (coalesce (map_of kvs c) 0 + 1) kvs))
      = sum_list (map snd kvs) + 1" for kvs :: "(string \<times> nat) list"
    by (induction kvs) auto
  then show ?thesis by (simp add: bump_category_def)
qed

lemma find_filter_date:
  "d - MAX_STAT_DAYS \<le> d' \<Longrightarrow>
   List.find (\<lambda>r. ds_date r = d') (trimOldStats d rows) = List.find (\<lambda>r. ds_date r = d') rows"
  by (induction rows) (auto simp: trimOldStats_def)

lemma bump_row_simps [simp]:
  "ds_date (bump_row c r) = ds_date r" "ds_total (bump_row c r) = ds_total r + 1"
  "ds_byCategory (bump_row c r) = bump_category c (ds_byCategory r)"
  by (simp_all add: bump_row_def)

lemma stats_after_today: "day_total d (stats_after d c rows) = day_total d rows + 1"
proof (cases "List.find (\<lambda>r. ds_date r = d) rows")
  case None
  have "MAX_STAT_DAYS \<ge> 0" by (simp add: MAX_STAT_DAYS_def)
  with None show ?thesis
    by (auto simp: day_total_def stats_after_def Let_def find_upd_where trimOldStats_def)
next
  case (Some r)
  then show ?thesis
    by (auto simp: day_total_def stats_after_def Let_def find_upd_where dest: find_SomeD)
qed

lemma stats_after_other:
  assumes "d' \<noteq> d" and "d - MAX_STAT_DAYS \<le> d'"
  shows "day_total d' (stats_after d c rows) = day_total d' rows"
proof -
  have "List.find (\<lambda>r. ds_date r = d') (upd_where (\<lambda>r. ds_date r = d) (bump_row k) xs)
      = List.find (\<lambda>r. ds_date r = d') xs" for k xs
    using assms(1) by (induction xs) auto
  then show ?thesis
    using assms find_filter_date [OF assms(2)]
    by (auto simp: day_total_def stats_after_def Let_def split: option.split)
qed

lemma stats_after_ok:
  assumes "stats_ok rows"
  shows "stats_ok (stats_after d c rows)"
proof -
  have bump: "stats_ok (upd_where (\<lambda>r. ds_date r = d) (bump_row k) xs)" if "stats_ok xs" for k xs
    using that
    by (auto simp: stats_ok_def list_all_iff set_upd_where sum_bump map_upd_where)
  have new: "stats_ok (trimOldStats d (\<lparr>ds_date = d, ds_total = 0, ds_byCategory = []\<rparr> # rows))"
    if "List.find (\<lambda>r. ds_date r = d) rows = None"
    using that assms
    by (auto simp: stats_ok_def list_all_iff trimOldStats_def find_None_ball distinct_map_filter)
  show ?thesis
    using bump [OF assms] bump [OF new]
    by (auto simp: stats_after_def Let_def split: option.split)
qed

section \<open>The single writer\<close>

interpretation refusal_log: bounded_log REFUSALS_CAP "push_cap REFUSALS_CAP" "overflow REFUSALS_CAP"
  by (rule push_cap_log) (simp add: REFUSALS_CAP_def)

lemma assertTaxonomy_iff:
  "assertTaxonomy c k = Inr () \<longleftrightarrow> c \<in> set refusalCategories \<and> k \<in> set refusalCodes \<and> k \<in> set (codes_of c)"
  by (simp add: assertTaxonomy_def)

lemma refuse_Inr_iff:
  "refuse t a st = Inr st' \<longleftrightarrow>
     assertTaxonomy (ri_category a) (ri_code a) = Inr () \<and> st' = refuse_unchecked t a st"
  by (auto simp: refuse_def split: sum.split)

lemma refuse_refusals:
  "refusals (refuse_unchecked t a st) =
     push_cap REFUSALS_CAP
       (refusal_row t a (fst (next_id ''ref_demo''
          (case ri_event a of None \<Rightarrow> st | Some e \<Rightarrow> append_event t e st)))) (refusals st)"
  by (simp add: refuse_unchecked_def case_prod_beta Let_def refusal_push_def split: option.split)

lemma refuse_events:
  "events (refuse_unchecked t a st) =
     (case ri_event a of None \<Rightarrow> events st | Some e \<Rightarrow> events (append_event t e st))"
  by (simp add: refuse_unchecked_def case_prod_beta Let_def split: option.split)

lemma refuse_stats:
  "refusal_stats (refuse_unchecked t a st) = stats_after (utcDate t) (ri_category a) (refusal_stats st)"
  by (simp add: refuse_unchecked_def case_prod_beta Let_def recordRefusalDailyStat_def split: option.split)

lemma refuse_archived:
  "refusal_archive (refuse_unchecked t a st) =
     (let r = refusal_row t a (fst (next_id ''ref_demo''
                (case ri_event a of None \<Rightarrow> st | Some e \<Rightarrow> append_event t e st)));
          out = overflow REFUSALS_CAP r (refusals st)
      in refusal_archive st @ (if refusal_archive_up st out then out else []))"
  by (cases "ri_event a")
     (simp_all add: refuse_unchecked_def case_prod_beta Let_def refusal_push_def)

lemma hd_refuse:
  "hd (refusals (refuse_unchecked t a st)) =
     refusal_row t a (fst (next_id ''ref_demo''
          (case ri_event a of None \<Rightarrow> st | Some e \<Rightarrow> append_event t e st)))"
  by (simp add: refuse_refusals push_cap_def REFUSALS_CAP_def numeral_eq_Suc)

lemma refusal_row_simps [simp]:
  "rf_id (refusal_row t a i) = i" "rf_at (refusal_row t a i) = t"
  "rf_category (refusal_row t a i) = ri_category a" "rf_code (refusal_row t a i) = ri_code a"
  by (simp_all add: refusal_row_def)

text \<open>\<open>refuse\<close> accepts exactly the pairs of the closed taxonomy; an accepted veto fires its event
  first, is the newest of at most 200 refusals under an id never issued before, and is counted once
  in the counter of its day, the counters of the other days within the retention being untouched;
  a rejected one throws before anything is written.\<close>

theorem refuse_single_writer:
  "(case refuse t a st of
      Inl e \<Rightarrow> \<not> (ri_category a \<in> set refusalCategories \<and> ri_code a \<in> set refusalCodes
                \<and> ri_code a \<in> set (codes_of (ri_category a)))
    | Inr st' \<Rightarrow>
        ri_category a \<in> set refusalCategories \<and> ri_code a \<in> set (codes_of (ri_category a))
        \<and> (let r = hd (refusals st')
            in rf_category r = ri_category a \<and> rf_code r = ri_code a \<and> rf_at r = t
               \<and> rf_id r \<notin> set (issued_ids st)
               \<and> set (refusals st') \<union> set (overflow REFUSALS_CAP r (refusals st))
                   = insert r (set (refusals st)))
        \<and> length (refusals st') \<le> 200
        \<and> events st' = (case ri_event a of None \<Rightarrow> events st | Some e \<Rightarrow> events (append_event t e st))
        \<and> invocations st' = invocations st
        \<and> day_total (utcDate t) (refusal_stats st') = day_total (utcDate t) (refusal_stats st) + 1
        \<and> list_all (\<lambda>r. ds_date r = utcDate t \<or> ds_date r < utcDate t - 120
              \<or> day_total (ds_date r) (refusal_stats st') = day_total (ds_date r) (refusal_stats st))
            (refusal_stats st))"
proof (cases "refuse t a st")
  case (Inl e)
  then show ?thesis
    by (auto simp: refuse_def assertTaxonomy_def split: sum.splits if_splits)
next
  case (Inr st')
  then have tax: "assertTaxonomy (ri_category a) (ri_code a) = Inr ()"
    and st': "st' = refuse_unchecked t a st"
    by (simp_all add: refuse_Inr_iff)
  let ?st1 = "case ri_event a of None \<Rightarrow> st | Some e \<Rightarrow> append_event t e st"
  have "set (issued_ids st) \<subseteq> set (issued_ids ?st1)"
    by (auto split: option.split dest: append_event_issued [THEN subsetD])
  with next_id_fresh [of "''ref_demo''" ?st1]
  have fresh: "rf_id (hd (refusals st')) \<notin> set (issued_ids st)"
    by (auto simp: st' hd_refuse)
  have "set (refusals st') \<union> set (overflow REFUSALS_CAP (hd (refusals st')) (refusals st))
      = insert (hd (refusals st')) (set (refusals st))"
    using refusal_log.nothing_lost by (simp only: st' hd_refuse) (simp only: refuse_refusals)
  moreover have "length (refusals st') \<le> 200"
    using refusal_log.bounded by (simp add: st' refuse_refusals REFUSALS_CAP_def)
  moreover have "day_total (utcDate t) (refusal_stats st')
      = day_total (utcDate t) (refusal_stats st) + 1"
    by (simp add: st' refuse_stats stats_after_today)
  moreover have "list_all (\<lambda>r. ds_date r = utcDate t \<or> ds_date r < utcDate t - 120
      \<or> day_total (ds_date r) (refusal_stats st') = day_total (ds_date r) (refusal_stats st))
    (refusal_stats st)"
    by (auto simp: list_all_iff st' refuse_stats MAX_STAT_DAYS_def intro!: stats_after_other)
  moreover have "rf_category (hd (refusals st')) = ri_category a
      \<and> rf_code (hd (refusals st')) = ri_code a \<and> rf_at (hd (refusals st')) = t"
    by (simp add: st' hd_refuse)
  ultimately show ?thesis
    using Inr tax fresh by (simp add: st' assertTaxonomy_iff refuse_events)
qed

text \<open>The day counters keep one row per day and each row's total is the sum of its category
  counts, whatever is refused and however old rows are trimmed.\<close>

theorem refuse_keeps_stats_ok:
  assumes "stats_ok (refusal_stats st)" and "refuse t a st = Inr st'"
  shows "stats_ok (refusal_stats st')"
  using assms by (simp add: refuse_Inr_iff refuse_stats stats_after_ok)

definition rf_core0 :: refusal_core where
  "rf_core0 = \<lparr>id_counter = 1, issued_ids = [], invocations = [], events = [], event_archive = [],
     event_retention = \<lparr>ret_truncatedIds = [], ret_globalTruncated = False,
       ret_lastErrorAt = None, ret_lastError = None\<rparr>,
     event_archiver = (\<lambda>rows. ArchiveMissing),
     refusals = [], refusal_archive = [], refusal_archive_up = (\<lambda>_. True),
     refusal_stats = [\<lparr>ds_date = 3, ds_total = 2, ds_byCategory = [(''policy'', 2)]\<rparr>],
     refusal_since = Some 3\<rparr>"

definition rf_in0 :: refusal_in where
  "rf_in0 = \<lparr>ri_subject = Some (ref_to ''invocation'' (Some ''inv_1'')), ri_requester = None,
     ri_category = ''state'', ri_code = ''over_budget'', ri_decidedBy = None, ri_summary = None,
     ri_evidence = JNull, ri_remedy = None, ri_retryAfter = None, ri_appealTo = None,
     ri_event = None\<rparr>"

lemma rf_in0_ok: "assertTaxonomy (ri_category rf_in0) (ri_code rf_in0) = Inr ()"
  by code_simp

theorem refuse_keeps_stats_ok_witness:
  "stats_ok (refusal_stats (refuse_unchecked 259300000 rf_in0 rf_core0))"
proof -
  have "stats_ok (refusal_stats rf_core0)" by (simp add: rf_core0_def stats_ok_def)
  moreover have "refuse 259300000 rf_in0 rf_core0 = Inr (refuse_unchecked 259300000 rf_in0 rf_core0)"
    using rf_in0_ok by (simp add: refuse_def)
  ultimately show ?thesis by (rule refuse_keeps_stats_ok)
qed

section \<open>Several gates refuse: the pinned order decides\<close>

interpretation gate_order: comparator
    "key_then (\<lambda>c. indexOf refusalCategories (fst c)) (\<lambda>_ _. True)"
  by (rule key_then_comparator [OF const_comparator])

text \<open>Of several refusals of one request the one reported is of the earliest category in the
  pinned order \<open>not_granted, policy, state, human\<close>, and the first listed of that category; none is
  reported only when there is none.\<close>

theorem firstRefusal_pinned_order:
  "refusalCategories = [''not_granted'', ''policy'', ''state'', ''human'']
   \<and> (case firstRefusal cs of
        None \<Rightarrow> List.map_filter id cs = []
      | Some c \<Rightarrow>
          (let rank = (\<lambda>c. indexOf refusalCategories (fst c)); valid = List.map_filter id cs
           in list_all (\<lambda>c'. rank c \<le> rank c') valid
              \<and> List.find (\<lambda>c'. rank c' = rank c) valid = Some c))"
proof -
  let ?rank = "\<lambda>c. indexOf refusalCategories (fst c)"
  let ?valid = "List.map_filter id cs"
  let ?s = "sort_by (key_then ?rank (\<lambda>_ _. True)) ?valid"
  have "list_all (\<lambda>c'. ?rank c \<le> ?rank c') ?valid
      \<and> List.find (\<lambda>c'. ?rank c' = ?rank c) ?valid = Some c" if s: "?s = c # ys" for c ys
  proof
    show "list_all (\<lambda>c'. ?rank c \<le> ?rank c') ?valid"
      unfolding list_all_iff
    proof
      fix c' assume "c' \<in> set ?valid"
      from gate_order.hd_least [OF this] s show "?rank c \<le> ?rank c'" by (auto simp: key_then_def)
    qed
    have "filter (\<lambda>c'. ?rank c' = ?rank c) ?valid = filter (\<lambda>c'. ?rank c' = ?rank c) (c # ys)"
      using gate_order.stable [of "\<lambda>c'. ?rank c' = ?rank c" ?valid] s by (simp add: key_then_def)
    then have "filter (\<lambda>c'. ?rank c' = ?rank c) ?valid
        = c # filter (\<lambda>c'. ?rank c' = ?rank c) ys" by simp
    then show "List.find (\<lambda>c'. ?rank c' = ?rank c) ?valid = Some c"
      by (rule find_of_filter)
  qed
  then show ?thesis
    by (auto simp: firstRefusal_def Let_def refusalCategories_def split: list.split)
qed

section \<open>The merged history of an invocation\<close>

definition merged_ok :: "string \<Rightarrow> (string \<times> refusal) list \<Rightarrow> bool" where
  "merged_ok i m \<longleftrightarrow> distinct (map fst m)
     \<and> (\<forall>(k, r) \<in> set m. rf_id r = k \<and> isInvocationRefusal i r)"

lemma merged_ok_set:
  assumes "merged_ok i m" and "isInvocationRefusal i r"
  shows "merged_ok i (assoc_set (rf_id r) r m)"
  using assms assoc_set_range [of "rf_id r" r m] by (fastforce simp: merged_ok_def)

lemma merge_archived_ok: "merged_ok i m \<Longrightarrow> merged_ok i (fst (merge_archived i rows m bad))"
  by (induction i rows m bad rule: merge_archived.induct) (auto simp: merged_ok_set split: option.splits)

lemma merge_live_ok: "merged_ok i m \<Longrightarrow> merged_ok i (merge_live i rs m)"
  by (induction i rs m rule: merge_live.induct) (auto simp: merged_ok_set)

lemma merge_archived_mono: "k \<in> fst ` set m \<Longrightarrow> k \<in> fst ` set (fst (merge_archived i rows m bad))"
  by (induction i rows m bad rule: merge_archived.induct) (simp_all split: option.split)

lemma merge_archived_dom:
  "Some r \<in> set rows \<Longrightarrow> isInvocationRefusal i r \<Longrightarrow>
   rf_id r \<in> fst ` set (fst (merge_archived i rows m bad))"
proof (induction i rows m bad rule: merge_archived.induct)
  case (1 i m bad)
  then show ?case by simp
next
  case (2 i row rows m bad)
  show ?case
  proof (cases "row = Some r")
    case True
    have "rf_id r \<in> fst ` set (if map_of m (rf_id r) = None then assoc_set (rf_id r) r m else m)"
      by (simp add: map_of_eq_None_iff)
    with True 2(5) show ?thesis by (simp add: merge_archived_mono)
  next
    case False
    with 2 show ?thesis by (simp split: option.split)
  qed
qed

lemma merge_live_mono: "k \<in> fst ` set m \<Longrightarrow> k \<in> fst ` set (merge_live i rs m)"
  by (induction i rs m rule: merge_live.induct) simp_all

lemma merge_live_keep:
  "rf_id r \<notin> rf_id ` set rs \<Longrightarrow> map_of (merge_live i rs m) (rf_id r) = map_of m (rf_id r)"
  by (induction i rs m rule: merge_live.induct) auto

lemma merge_live_wins:
  "distinct (map rf_id rs) \<Longrightarrow> r \<in> set rs \<Longrightarrow> isInvocationRefusal i r \<Longrightarrow>
   map_of (merge_live i rs m) (rf_id r) = Some r"
proof (induction i rs m rule: merge_live.induct)
  case (1 i m)
  then show ?case by simp
next
  case (2 i r' rs m)
  show ?case
  proof (cases "r = r'")
    case True
    with 2 show ?thesis by (simp add: merge_live_keep)
  next
    case False
    with 2 show ?thesis by simp
  qed
qed

lemma compareRefusals_comparator:
  assumes "\<And>a b. cmp a b \<le> 0 \<or> cmp b a \<le> 0"
    and "\<And>a b c. cmp a b \<le> 0 \<Longrightarrow> cmp b c \<le> 0 \<Longrightarrow> cmp a c \<le> 0"
  shows "comparator (compareRefusals cmp)"
  unfolding compareRefusals_def
proof (rule key_then_comparator, unfold_locales)
  fix x y z :: refusal
  show "cmp (rf_id y) (rf_id x) \<le> 0 \<or> cmp (rf_id x) (rf_id y) \<le> 0"
    by (rule assms(1))
  show "cmp (rf_id y) (rf_id x) \<le> 0 \<Longrightarrow> cmp (rf_id z) (rf_id y) \<le> 0 \<Longrightarrow> cmp (rf_id z) (rf_id x) \<le> 0"
    by (rule assms(2))
qed

lemma merged_ids:
  assumes "merged_ok i m"
  shows "distinct (map rf_id (map snd m))" and "rf_id ` set (map snd m) = fst ` set m"
    and "map_of m k = Some r \<Longrightarrow> r \<in> set (map snd m)"
    and "r \<in> set (map snd m) \<Longrightarrow> isInvocationRefusal i r"
proof -
  have "map rf_id (map snd m) = map fst m"
    using assms by (auto simp: merged_ok_def)
  then show "distinct (map rf_id (map snd m))" and "rf_id ` set (map snd m) = fst ` set m"
    using assms by (metis merged_ok_def) (metis \<open>map rf_id (map snd m) = map fst m\<close> set_map)
  show "map_of m k = Some r \<Longrightarrow> r \<in> set (map snd m)"
    by (force dest: map_of_SomeD)
  show "r \<in> set (map snd m) \<Longrightarrow> isInvocationRefusal i r"
    using assms by (auto simp: merged_ok_def)
qed

text \<open>The refusals read back for an invocation have pairwise distinct ids, all belong to it, are
  newest first and at most 500; and when the answer does not say truncated they are complete: every
  live refusal of the invocation is among them, as the live row, and every archived one under its
  id.\<close>

theorem refusal_history_complete:
  assumes "\<And>a b. cmp a b \<le> 0 \<or> cmp b a \<le> 0"
    and "\<And>a b c. cmp a b \<le> 0 \<Longrightarrow> cmp b c \<le> 0 \<Longrightarrow> cmp a c \<le> 0"
    and "distinct (map rf_id (refusals st))"
    and "listInvocationRefusals cmp page i limit st = (rows, trunc)"
  shows "distinct (map rf_id rows) \<and> length rows \<le> 500
    \<and> list_all (isInvocationRefusal i) rows
    \<and> sorted_wrt (\<lambda>a b. rf_at b \<le> rf_at a) rows
    \<and> (trunc \<or> (\<forall>r. isInvocationRefusal i r \<longrightarrow>
          (r \<in> set (refusals st) \<longrightarrow> r \<in> set rows)
          \<and> (Some r \<in> set (ap_rows page) \<longrightarrow> rf_id r \<in> rf_id ` set rows)))"
proof -
  obtain m bad where arch: "merge_archived i (ap_rows page) [] 0 = (m, bad)" by fastforce
  let ?m = "merge_live i (refusals st) m"
  let ?all = "sort_by (compareRefusals cmp) (map snd ?m)"
  have cmp: "comparator (compareRefusals cmp)"
    by (rule compareRefusals_comparator [OF assms(1,2)])
  have rows: "rows = take (clampLimit limit) ?all"
    and trunc: "trunc \<longleftrightarrow> clampLimit limit < length ?all \<or> ap_more page \<or> ap_damaged page \<or> 0 < bad"
    using assms(4) arch by (auto simp: listInvocationRefusals_def Let_def)
  have "merged_ok i m"
    using merge_archived_ok [of i "[]" "ap_rows page" 0] arch by (simp add: merged_ok_def)
  then have ok: "merged_ok i ?m" by (rule merge_live_ok)
  have sub: "set rows \<subseteq> set (map snd ?m)"
    unfolding rows using set_take_subset [of _ ?all] by auto
  have "distinct (map rf_id ?all)" using merged_ids(1) [OF ok] by simp
  then have "distinct (map rf_id rows)" unfolding rows by (simp add: take_map [symmetric])
  moreover have "length rows \<le> 500"
  proof -
    have "clampLimit limit \<le> 500" by (cases limit) (auto simp: clampLimit_def)
    then show ?thesis unfolding rows by (simp add: min_le_iff_disj)
  qed
  moreover have "list_all (isInvocationRefusal i) rows"
    using merged_ids(4) [OF ok] sub unfolding list_all_iff by blast
  moreover have "sorted_wrt (\<lambda>a b. rf_at b \<le> rf_at a) rows"
  proof -
    have "sorted_wrt (compareRefusals cmp) ?all" by (rule comparator.sorted_sort [OF cmp])
    then have "sorted_wrt (\<lambda>a b. rf_at b \<le> rf_at a) ?all"
      by (rule sorted_wrt_mono_rel [rotated]) (auto simp: compareRefusals_def key_then_def)
    then show ?thesis unfolding rows by (rule sorted_wrt_take)
  qed
  moreover have "r \<in> set rows"
    if "\<not> trunc" and "isInvocationRefusal i r" and "r \<in> set (refusals st)" for r
  proof -
    have "map_of ?m (rf_id r) = Some r" using merge_live_wins [OF assms(3) that(3,2)] .
    with merged_ids(3) [OF ok] that(1) show ?thesis unfolding rows trunc by fastforce
  qed
  moreover have "rf_id r \<in> rf_id ` set rows"
    if "\<not> trunc" and "isInvocationRefusal i r" and "Some r \<in> set (ap_rows page)" for r
  proof -
    have "rf_id r \<in> fst ` set m" using merge_archived_dom [OF that(3,2), of "[]" 0] arch by simp
    then have "rf_id r \<in> fst ` set ?m" by (rule merge_live_mono)
    then have "rf_id r \<in> rf_id ` set (map snd ?m)" using merged_ids(2) [OF ok] by simp
    moreover have "set rows = set (map snd ?m)" using that(1) unfolding rows trunc by simp
    ultimately show ?thesis by simp
  qed
  ultimately show ?thesis by blast
qed

theorem refusal_history_complete_witness:
  "\<exists>rows trunc. listInvocationRefusals (\<lambda>a b. int (length a) - int (length b))
       \<lparr>ap_rows = [None], ap_damaged = False, ap_more = False\<rparr> ''inv_1'' (Some 10)
       (refuse_unchecked 259300000 rf_in0 rf_core0) = (rows, trunc)
     \<and> list_all (isInvocationRefusal ''inv_1'') rows"
proof -
  let ?st = "refuse_unchecked 259300000 rf_in0 rf_core0"
  obtain rows trunc where eq: "listInvocationRefusals (\<lambda>a b. int (length a) - int (length b))
       \<lparr>ap_rows = [None], ap_damaged = False, ap_more = False\<rparr> ''inv_1'' (Some 10) ?st = (rows, trunc)"
    by fastforce
  have "distinct (map rf_id (refusals ?st))"
    by (simp add: refuse_refusals push_cap_def rf_core0_def REFUSALS_CAP_def numeral_eq_Suc)
  from refusal_history_complete [OF _ _ this eq] have "list_all (isInvocationRefusal ''inv_1'') rows"
    by (simp add: linear)
  with eq show ?thesis by blast
qed

end
