(* ===== verification/WorkScheduler.thy ===== *)
theory WorkScheduler
  imports Model
begin

text \<open>
  services/work-item-auto-scheduler-policy.mjs: which work items may run by themselves, in which
  order, and the dispatch score that the bridge queue uses for the work item behind an invocation;
  with \<open>unresolvedArtifactKinds\<close> of services/work-goal-artifacts.mjs.

  A date \<open>YYYY-MM-DD\<close> is the number YYYYMMDD: it compares as the string does.  \<open>date_key\<close> is
  \<open>autoExecutionDateKey\<close>, the calendar date of an instant in the server's time zone (\<open>Intl\<close>).
\<close>

section \<open>State\<close>

record exec_binding =
  eb_kind :: string
  eb_id :: "string option"
  eb_targetId :: "string option"

record artifact_handoff =
  ah_sourceWorkItemId :: string
  ah_status :: string
  ah_kinds :: "string list"
  ah_assetIds :: "string list"

record work_item =
  wi_id :: string
  wi_projectId :: "string option"
  wi_priority :: "string option"
  wi_state :: "string option"
  wi_status :: "string option"
  wi_archived :: bool
  wi_waitingOn :: "string option"
  wi_executionState :: "string option"
  wi_operationStatus :: "string option"
  wi_executionPolicy :: "string option"
  wi_dependencyIds :: "string list"
  wi_dueDate :: "string option"
  wi_commitmentDate :: "string option"
  wi_plannedDate :: "string option"
  wi_notBefore :: "instant option"
  wi_createdAt :: "instant option"
  wi_updatedAt :: "instant option"
  wi_workGoalId :: "string option"
  wi_consumes :: "string list"
  wi_produces :: "string list"
  wi_handoffs :: "artifact_handoff list"
  wi_executionBindings :: "exec_binding list"

definition unresolvedArtifactKinds :: "work_item \<Rightarrow> string list" where
  "unresolvedArtifactKinds w =
     (if coalesce (wi_workGoalId w) [] = [] \<or> wi_dependencyIds w = [] then []
      else filter (\<lambda>kind. \<not> list_ex (\<lambda>h. ah_status h = ''attached'' \<and> ah_assetIds h \<noteq> [] \<and> kind \<in> set (ah_kinds h))
                        (wi_handoffs w))
             (wi_consumes w))"

section \<open>Dates\<close>

definition is_digit :: "char \<Rightarrow> bool" where
  "is_digit c \<longleftrightarrow> 48 \<le> (of_char c :: nat) \<and> (of_char c :: nat) \<le> 57"

text \<open>The pattern \<open>^\d{4}-\d{2}-\d{2}\<close>, read as the number YYYYMMDD.\<close>

fun dateOnly :: "string option \<Rightarrow> int option" where
  "dateOnly (Some (a # b # c # d # h1 # e # f # h2 # g # h # rest)) =
     (if h1 = CHR ''-'' \<and> h2 = CHR ''-'' \<and> list_all is_digit [a, b, c, d, e, f, g, h]
      then Some (int (read_nat [a, b, c, d, e, f, g, h])) else None)"
| "dateOnly v = None"

text \<open>\<open>Date.parse\<close> of a date at midnight UTC, in days; a month or day out of range does not parse.\<close>

definition days_of_date :: "int \<Rightarrow> int option" where
  "days_of_date ymd =
     (let d = ymd mod 100; m = ymd div 100 mod 100; y0 = ymd div 10000;
          y = (if m \<le> 2 then y0 - 1 else y0);
          doy = (153 * (if m > 2 then m - 3 else m + 9) + 2) div 5 + d - 1
      in if 1 \<le> m \<and> m \<le> 12 \<and> 1 \<le> d \<and> d \<le> 31
         then Some (365 * y + y div 4 - y div 100 + y div 400 + doy - 719468)
         else None)"

definition MAX_SAFE_INTEGER :: int where "MAX_SAFE_INTEGER = 9007199254740991"

definition PRIORITY_RANK :: "(string \<times> int) list" where
  "PRIORITY_RANK = [(''p0'', 0), (''p1'', 1), (''p2'', 2), (''p3'', 3)]"

definition priority_rank :: "work_item \<Rightarrow> int" where
  "priority_rank w = coalesce (Option.bind (wi_priority w) (map_of PRIORITY_RANK)) 2"

definition due_date :: "work_item \<Rightarrow> int option" where
  "due_date w = dateOnly (coalesce_opt (wi_dueDate w) (wi_commitmentDate w))"

definition deadlineBucket :: "work_item \<Rightarrow> int \<Rightarrow> int" where
  "deadlineBucket w today =
     (case due_date w of
        None \<Rightarrow> 4
      | Some due \<Rightarrow>
          if due < today then 0
          else if due = today then 1
          else (case (days_of_date due, days_of_date today) of
                  (Some a, Some b) \<Rightarrow> if a - b \<le> 2 then 2 else if a - b \<le> 7 then 3 else 4
                | _ \<Rightarrow> 4))"

definition planBucket :: "work_item \<Rightarrow> int \<Rightarrow> int" where
  "planBucket w today =
     (case dateOnly (wi_plannedDate w) of
        None \<Rightarrow> 3
      | Some p \<Rightarrow> if p < today then 0 else if p = today then 1 else 2)"

section \<open>Rank and dispatch score\<close>

definition rankFor :: "work_item \<Rightarrow> int \<Rightarrow> int list \<times> string" where
  "rankFor w today =
     ([if wi_priority w = Some ''p0'' then 0 else 1,
       deadlineBucket w today,
       priority_rank w,
       planBucket w today,
       coalesce (due_date w) 99991231,
       coalesce (dateOnly (wi_plannedDate w)) 99991231,
       coalesce (wi_updatedAt w) MAX_SAFE_INTEGER,
       coalesce (wi_createdAt w) MAX_SAFE_INTEGER],
      wi_id w)"

definition autoExecutionDispatchScore :: "work_item \<Rightarrow> int \<Rightarrow> int" where
  "autoExecutionDispatchScore w today =
     (let rank = fst (rankFor w today)
      in rank ! 0 * 1000000 + rank ! 1 * 10000 + rank ! 2 * 100 + rank ! 3)"

fun compare_ints :: "int list \<Rightarrow> int list \<Rightarrow> int" where
  "compare_ints (x # xs) (y # ys) = (if x = y then compare_ints xs ys else if x < y then -1 else 1)"
| "compare_ints xs ys = 0"

definition compareRank :: "int list \<times> string \<Rightarrow> int list \<times> string \<Rightarrow> int" where
  "compareRank l r =
     (let c = compare_ints (fst l) (fst r)
      in if c \<noteq> 0 then c
         else if snd l = snd r then 0
         else if str_le (snd l) (snd r) then -1 else 1)"

section \<open>Candidates\<close>

definition resolvedExecutionPolicy :: "work_item \<Rightarrow> project option \<Rightarrow> string" where
  "resolvedExecutionPolicy w p =
     (let policy = coalesce (wi_executionPolicy w) ''inherit''
      in if policy \<noteq> ''inherit'' then policy
         else if (case p of None \<Rightarrow> False | Some x \<Rightarrow> pr_autoExecutionEnabled x) then ''auto''
         else ''manual'')"

text \<open>\<open>new Map(items.map((item) => [id, item]))\<close>: a later item replaces an earlier one.\<close>

definition by_id :: "('a \<Rightarrow> string) \<Rightarrow> 'a list \<Rightarrow> string \<Rightarrow> 'a option" where
  "by_id key xs i = List.find (\<lambda>x. key x = i) (rev xs)"

definition is_resolved :: "work_item option \<Rightarrow> bool" where
  "is_resolved d \<longleftrightarrow> (case d of None \<Rightarrow> False
     | Some x \<Rightarrow> wi_status x = Some ''done'' \<or> wi_state x = Some ''closed'')"

definition unresolvedDependencies :: "work_item \<Rightarrow> work_item list \<Rightarrow> string list" where
  "unresolvedDependencies w items = filter (\<lambda>d. \<not> is_resolved (by_id wi_id items d)) (wi_dependencyIds w)"

record decision =
  dc_workItemId :: string
  dc_eligible :: bool
  dc_reasons :: "string list"
  dc_executionPolicy :: string
  dc_unresolvedDependencyIds :: "string list"
  dc_unresolvedArtifactKinds :: "string list"
  dc_rank :: "int list \<times> string"

definition candidate_reasons ::
    "work_item \<Rightarrow> int \<Rightarrow> instant \<Rightarrow> project option \<Rightarrow> work_item list \<Rightarrow> string list" where
  "candidate_reasons w today nowMs p items =
     (let policy = resolvedExecutionPolicy w p;
          deps = unresolvedDependencies w items;
          missing = (if deps \<noteq> [] then [] else unresolvedArtifactKinds w)
      in (if policy \<noteq> ''auto''
          then [if policy = ''paused'' then ''execution_paused'' else ''automatic_execution_disabled'']
          else [])
       @ (if wi_state w \<noteq> Some ''open'' \<or> wi_archived w then [''work_item_not_open''] else [])
       @ (if wi_status w \<notin> {Some ''ready'', Some ''in_progress''}
          then [''planning_status_not_executable''] else [])
       @ (if wi_waitingOn w \<in> {Some ''me'', Some ''requester'', Some ''internal''}
          then [''waiting_for_user''] else [])
       @ (if wi_executionState w \<in> {Some ''claimed'', Some ''running'', Some ''awaiting_approval'', Some ''verifying''}
          then [''active_execution''] else [])
       @ (if wi_operationStatus w = Some ''starting'' then [''execution_starting''] else [])
       @ (if deps \<noteq> [] then [''dependencies_unresolved''] else [])
       @ (if missing \<noteq> [] then [''artifacts_unavailable''] else [])
       @ (case wi_notBefore w of None \<Rightarrow> []
          | Some t \<Rightarrow> if nowMs < t then [''not_before_reached''] else [])
       @ (case (dateOnly (wi_plannedDate w), p) of
            (Some d, Some x) \<Rightarrow> if today < d \<and> pr_futurePullForwardEnabled x = Some False
                              then [''future_pull_forward_disabled''] else []
          | _ \<Rightarrow> []))"

definition evaluateAutoExecutionCandidate ::
    "work_item \<Rightarrow> int \<Rightarrow> instant \<Rightarrow> project option \<Rightarrow> work_item list \<Rightarrow> decision" where
  "evaluateAutoExecutionCandidate w today nowMs p items =
     (let reasons = candidate_reasons w today nowMs p items;
          deps = unresolvedDependencies w items
      in \<lparr>dc_workItemId = wi_id w, dc_eligible = (reasons = []), dc_reasons = reasons,
          dc_executionPolicy = resolvedExecutionPolicy w p,
          dc_unresolvedDependencyIds = deps,
          dc_unresolvedArtifactKinds = (if deps \<noteq> [] then [] else unresolvedArtifactKinds w),
          dc_rank = rankFor w today\<rparr>)"

definition plan_decisions ::
    "(instant \<Rightarrow> int) \<Rightarrow> work_item list \<Rightarrow> project list \<Rightarrow> string option \<Rightarrow> instant \<Rightarrow> decision list" where
  "plan_decisions date_key items projects today nowMs =
     map (\<lambda>w. evaluateAutoExecutionCandidate w (coalesce (dateOnly today) (date_key nowMs)) nowMs
                (Option.bind (wi_projectId w) (by_id pr_id projects)) items) items"

definition decision_for :: "decision list \<Rightarrow> work_item \<Rightarrow> decision option" where
  "decision_for ds w = by_id dc_workItemId ds (wi_id w)"

definition rank_le :: "decision list \<Rightarrow> work_item \<Rightarrow> work_item \<Rightarrow> bool" where
  "rank_le ds l r \<longleftrightarrow>
     (case (decision_for ds l, decision_for ds r) of
        (Some a, Some b) \<Rightarrow> compareRank (dc_rank a) (dc_rank b) \<le> 0
      | _ \<Rightarrow> True)"

definition planAutoExecutionQueue ::
    "(instant \<Rightarrow> int) \<Rightarrow> work_item list \<Rightarrow> project list \<Rightarrow> string option \<Rightarrow> instant
     \<Rightarrow> work_item list \<times> decision list" where
  "planAutoExecutionQueue date_key items projects today nowMs =
     (let ds = plan_decisions date_key items projects today nowMs
      in (sort_by (rank_le ds)
            (filter (\<lambda>w. case decision_for ds w of None \<Rightarrow> False | Some d \<Rightarrow> dc_eligible d) items), ds))"

section \<open>The dispatch score packs the first four rank components\<close>

lemma priority_rank_cases: "priority_rank w \<in> {0, 1, 2, 3}"
  by (cases "wi_priority w") (auto simp: priority_rank_def PRIORITY_RANK_def)

lemma deadlineBucket_bounds: "0 \<le> deadlineBucket w today \<and> deadlineBucket w today \<le> 4"
  by (auto simp: deadlineBucket_def split: option.split)

lemma planBucket_bounds: "0 \<le> planBucket w today \<and> planBucket w today \<le> 3"
  by (auto simp: planBucket_def split: option.split)

text \<open>The dispatch score orders work items exactly as the first four components of the queue
  rank do, lexicographically (P0 first, then deadline risk, priority, plan date): no score of a less
  urgent item overtakes a more urgent one, and equal scores mean equal components.\<close>

theorem dispatch_score_is_rank_prefix:
  "(autoExecutionDispatchScore v today < autoExecutionDispatchScore w today
      \<longleftrightarrow> compare_ints (take 4 (fst (rankFor v today))) (take 4 (fst (rankFor w today))) = -1)
   \<and> (autoExecutionDispatchScore v today = autoExecutionDispatchScore w today
      \<longleftrightarrow> take 4 (fst (rankFor v today)) = take 4 (fst (rankFor w today)))"
  using priority_rank_cases [of v] priority_rank_cases [of w]
    deadlineBucket_bounds [of v today] deadlineBucket_bounds [of w today]
    planBucket_bounds [of v today] planBucket_bounds [of w today]
  unfolding autoExecutionDispatchScore_def rankFor_def Let_def
  by (simp add: numeral_eq_Suc) linarith

section \<open>The queue order is a total preorder\<close>

lemma compare_ints_refl [simp]: "compare_ints xs xs = 0"
  by (induction xs) auto

lemma compare_ints_antisym: "compare_ints ys xs = - compare_ints xs ys"
  by (induction xs ys rule: compare_ints.induct) auto

lemma compare_ints_trans:
  "length xs = length ys \<Longrightarrow> length ys = length zs \<Longrightarrow>
   compare_ints xs ys \<le> 0 \<Longrightarrow> compare_ints ys zs \<le> 0 \<Longrightarrow>
   compare_ints xs zs \<le> 0 \<and> (compare_ints xs zs = 0 \<longrightarrow> compare_ints xs ys = 0 \<and> compare_ints ys zs = 0)"
proof (induction xs ys arbitrary: zs rule: compare_ints.induct)
  case (1 x xs y ys)
  from 1(3) obtain z zs' where zs: "zs = z # zs'" by (cases zs) auto
  show ?case
  proof (cases "x = y")
    case True
    with 1 zs show ?thesis by (auto split: if_splits)
  next
    case False
    with 1(4) have "x < y" by (auto split: if_splits)
    moreover have "y \<le> z" using 1(5) zs by (auto split: if_splits)
    ultimately show ?thesis using zs by auto
  qed
qed auto

lemma compareRank_total: "compareRank l r \<le> 0 \<or> compareRank r l \<le> 0"
  using compare_ints_antisym [of "fst l" "fst r"] str_le_total [of "snd l" "snd r"]
  by (auto simp: compareRank_def Let_def)

lemma compareRank_trans:
  assumes "length (fst a) = length (fst b)" and "length (fst b) = length (fst c)"
    and "compareRank a b \<le> 0" and "compareRank b c \<le> 0"
  shows "compareRank a c \<le> 0"
proof -
  have "compare_ints (fst a) (fst b) \<le> 0" "compare_ints (fst b) (fst c) \<le> 0"
    using assms(3,4) by (auto simp: compareRank_def Let_def split: if_splits)
  note c = compare_ints_trans [OF assms(1,2) this]
  show ?thesis
  proof (cases "compare_ints (fst a) (fst c) = 0")
    case True
    with c have "compare_ints (fst a) (fst b) = 0" "compare_ints (fst b) (fst c) = 0" by auto
    with assms(3,4) have "str_le (snd a) (snd b)" "str_le (snd b) (snd c)"
      using str_le_total [of "snd a" "snd a"] str_le_total [of "snd b" "snd b"]
      by (auto simp: compareRank_def Let_def split: if_splits)
    with True show ?thesis by (auto simp: compareRank_def Let_def intro: str_le_trans)
  next
    case False
    with c show ?thesis by (simp add: compareRank_def Let_def)
  qed
qed

lemma length_rankFor [simp]: "length (fst (rankFor w today)) = 8"
  by (simp add: rankFor_def)

text \<open>The order the queue sorts by, as a comparator on work items.\<close>

definition item_le :: "int \<Rightarrow> work_item \<Rightarrow> work_item \<Rightarrow> bool" where
  "item_le today v w \<longleftrightarrow> compareRank (rankFor v today) (rankFor w today) \<le> 0"

interpretation item_order: comparator "item_le today"
proof
  fix x y z :: work_item
  show "item_le today x y \<or> item_le today y x"
    unfolding item_le_def by (rule compareRank_total)
  show "item_le today x y \<Longrightarrow> item_le today y z \<Longrightarrow> item_le today x z"
    unfolding item_le_def by (rule compareRank_trans [of _ "rankFor y today"]) simp_all
qed

section \<open>The planned queue\<close>

lemma by_id_unique: "distinct (map key xs) \<Longrightarrow> x \<in> set xs \<Longrightarrow> by_id key xs (key x) = Some x"
  unfolding by_id_def by (rule find_key_unique) (simp_all add: rev_map [symmetric])

definition evaluate_in ::
    "(instant \<Rightarrow> int) \<Rightarrow> work_item list \<Rightarrow> project list \<Rightarrow> string option \<Rightarrow> instant \<Rightarrow> work_item \<Rightarrow> decision" where
  "evaluate_in date_key items projects today nowMs w =
     evaluateAutoExecutionCandidate w (coalesce (dateOnly today) (date_key nowMs)) nowMs
       (Option.bind (wi_projectId w) (by_id pr_id projects)) items"

lemma plan_decisions_eq:
  "plan_decisions date_key items projects today nowMs
     = map (evaluate_in date_key items projects today nowMs) items"
  by (simp add: plan_decisions_def evaluate_in_def)

lemma decision_for_unique:
  assumes "distinct (map wi_id items)" and "w \<in> set items"
  shows "decision_for (plan_decisions date_key items projects today nowMs) w
    = Some (evaluate_in date_key items projects today nowMs w)"
proof -
  let ?e = "evaluate_in date_key items projects today nowMs"
  have id: "dc_workItemId (?e v) = wi_id v" for v
    by (simp add: evaluate_in_def evaluateAutoExecutionCandidate_def Let_def)
  have "map dc_workItemId (map ?e items) = map wi_id items" by (simp add: id)
  then have "distinct (map dc_workItemId (map ?e items))" using assms(1) by (simp only:)
  moreover have "?e w \<in> set (map ?e items)" using assms(2) by simp
  ultimately have "by_id dc_workItemId (map ?e items) (dc_workItemId (?e w)) = Some (?e w)"
    by (rule by_id_unique)
  then show ?thesis by (simp add: decision_for_def plan_decisions_eq id)
qed

lemma eligible_reasons:
  "dc_eligible (evaluateAutoExecutionCandidate w today nowMs p items)
     \<longleftrightarrow> candidate_reasons w today nowMs p items = []"
  by (simp add: evaluateAutoExecutionCandidate_def Let_def)

lemma no_reasons:
  assumes "candidate_reasons w today nowMs p items = []"
  shows "resolvedExecutionPolicy w p = ''auto'' \<and> wi_state w = Some ''open'' \<and> \<not> wi_archived w
    \<and> (wi_status w = Some ''ready'' \<or> wi_status w = Some ''in_progress'')
    \<and> unresolvedDependencies w items = [] \<and> unresolvedArtifactKinds w = []
    \<and> (case wi_notBefore w of None \<Rightarrow> True | Some t \<Rightarrow> t \<le> nowMs)"
  using assms by (auto simp: candidate_reasons_def Let_def split: if_splits option.splits)

lemma unresolved_empty:
  "unresolvedDependencies w items = [] \<longleftrightarrow>
     list_all (\<lambda>d. is_resolved (by_id wi_id items d)) (wi_dependencyIds w)"
  by (simp add: unresolvedDependencies_def filter_empty_conv list_all_iff)

text \<open>Of uniquely identified work items the automatic queue holds exactly those with no blocking
  reason, in non-decreasing rank order; each of them is open, allowed to run by itself, past its
  not-before instant, with every dependency present and finished and every required artifact
  attached; and nothing eligible ranks before the head of the queue.\<close>

theorem plan_queue_sound:
  assumes "distinct (map wi_id items)"
    and "planAutoExecutionQueue date_key items projects today nowMs = (queue, ds)"
  shows "mset queue = mset (filter (\<lambda>w. dc_reasons (evaluate_in date_key items projects today nowMs w) = []) items)
    \<and> sorted_wrt (item_le (coalesce (dateOnly today) (date_key nowMs))) queue
    \<and> list_all (\<lambda>w. wi_state w = Some ''open'' \<and> \<not> wi_archived w
         \<and> dc_executionPolicy (evaluate_in date_key items projects today nowMs w) = ''auto''
         \<and> list_all (\<lambda>d. is_resolved (by_id wi_id items d)) (wi_dependencyIds w)
         \<and> unresolvedArtifactKinds w = []
         \<and> (case wi_notBefore w of None \<Rightarrow> True | Some t \<Rightarrow> t \<le> nowMs)
         \<and> item_le (coalesce (dateOnly today) (date_key nowMs)) (hd queue) w) queue"
proof -
  let ?e = "evaluate_in date_key items projects today nowMs"
  let ?today = "coalesce (dateOnly today) (date_key nowMs)"
  let ?ds = "plan_decisions date_key items projects today nowMs"
  let ?ok = "\<lambda>w. dc_reasons (?e w) = []"
  have elig: "dc_eligible (?e w) \<longleftrightarrow> ?ok w" for w
    by (simp add: evaluate_in_def evaluateAutoExecutionCandidate_def Let_def)
  have filt: "filter (\<lambda>w. case decision_for ?ds w of None \<Rightarrow> False | Some d \<Rightarrow> dc_eligible d) items
      = filter ?ok items"
    by (rule filter_cong [OF refl]) (simp add: decision_for_unique [OF assms(1)] elig)
  have le: "rank_le ?ds v w = item_le ?today v w" if "v \<in> set items" "w \<in> set items" for v w
    using that
    by (simp add: rank_le_def decision_for_unique [OF assms(1)] item_le_def evaluate_in_def
        evaluateAutoExecutionCandidate_def Let_def)
  have sort: "set xs \<subseteq> set items \<Longrightarrow> sort_by (rank_le ?ds) xs = sort_by (item_le ?today) xs" for xs
  proof (induction xs)
    case Nil
    then show ?case by simp
  next
    case (Cons x xs)
    have "set ys \<subseteq> set items \<Longrightarrow> insert_by (rank_le ?ds) x ys = insert_by (item_le ?today) x ys" for ys
      using Cons.prems le by (induction ys) auto
    with Cons show ?case by simp
  qed
  have queue: "queue = sort_by (item_le ?today) (filter ?ok items)"
    using assms(2) by (auto simp: planAutoExecutionQueue_def Let_def filt sort)
  have each: "wi_state w = Some ''open'' \<and> \<not> wi_archived w \<and> dc_executionPolicy (?e w) = ''auto''
      \<and> list_all (\<lambda>d. is_resolved (by_id wi_id items d)) (wi_dependencyIds w)
      \<and> unresolvedArtifactKinds w = []
      \<and> (case wi_notBefore w of None \<Rightarrow> True | Some t \<Rightarrow> t \<le> nowMs)" if "w \<in> set queue" for w
  proof -
    from that have "dc_eligible (?e w)" by (simp add: queue elig)
    then have "candidate_reasons w ?today nowMs (Option.bind (wi_projectId w) (by_id pr_id projects)) items = []"
      by (simp add: evaluate_in_def eligible_reasons)
    from no_reasons [OF this] show ?thesis
      by (simp add: evaluate_in_def evaluateAutoExecutionCandidate_def Let_def unresolved_empty)
  qed
  have "item_le ?today (hd queue) w" if "w \<in> set queue" for w
    using item_order.hd_least [of w "filter ?ok items" ?today] that by (simp add: queue)
  with each have "list_all (\<lambda>w. wi_state w = Some ''open'' \<and> \<not> wi_archived w
         \<and> dc_executionPolicy (?e w) = ''auto''
         \<and> list_all (\<lambda>d. is_resolved (by_id wi_id items d)) (wi_dependencyIds w)
         \<and> unresolvedArtifactKinds w = []
         \<and> (case wi_notBefore w of None \<Rightarrow> True | Some t \<Rightarrow> t \<le> nowMs)
         \<and> item_le ?today (hd queue) w) queue"
    by (simp add: list_all_iff)
  moreover have "mset queue = mset (filter ?ok items)" by (simp add: queue)
  moreover have "sorted_wrt (item_le ?today) queue"
    unfolding queue by (rule item_order.sorted_sort)
  ultimately show ?thesis by blast
qed

definition wi0 :: "string \<Rightarrow> string \<Rightarrow> string list \<Rightarrow> work_item" where
  "wi0 i prio deps =
     \<lparr>wi_id = i, wi_projectId = None, wi_priority = Some prio, wi_state = Some ''open'',
      wi_status = Some ''ready'', wi_archived = False, wi_waitingOn = None,
      wi_executionState = None, wi_operationStatus = None, wi_executionPolicy = Some ''auto'',
      wi_dependencyIds = deps, wi_dueDate = Some ''2026-07-20'', wi_commitmentDate = None,
      wi_plannedDate = None, wi_notBefore = None, wi_createdAt = None, wi_updatedAt = Some 4,
      wi_workGoalId = None, wi_consumes = [], wi_produces = [], wi_handoffs = [],
      wi_executionBindings = []\<rparr>"

theorem plan_queue_sound_witness:
  "\<exists>queue ds. planAutoExecutionQueue (\<lambda>t. 20260718)
       [wi0 ''b'' ''p2'' [], wi0 ''a'' ''p0'' [], wi0 ''c'' ''p0'' [''b'']] [] None 5 = (queue, ds)
     \<and> mset queue = {# wi0 ''b'' ''p2'' [], wi0 ''a'' ''p0'' [] #}
     \<and> sorted_wrt (item_le 20260718) queue"
proof -
  let ?items = "[wi0 ''b'' ''p2'' [], wi0 ''a'' ''p0'' [], wi0 ''c'' ''p0'' [''b'']]"
  let ?e = "evaluate_in (\<lambda>t. 20260718) ?items [] None 5"
  obtain queue ds where eq: "planAutoExecutionQueue (\<lambda>t. 20260718) ?items [] None 5 = (queue, ds)"
    by fastforce
  have "distinct (map wi_id ?items)" by (simp add: wi0_def)
  note sound = plan_queue_sound [OF this eq]
  have "dc_reasons (?e (wi0 ''b'' ''p2'' [])) = []" "dc_reasons (?e (wi0 ''a'' ''p0'' [])) = []"
    "dc_reasons (?e (wi0 ''c'' ''p0'' [''b''])) \<noteq> []"
    by (simp_all add: evaluate_in_def evaluateAutoExecutionCandidate_def candidate_reasons_def
        unresolvedDependencies_def unresolvedArtifactKinds_def resolvedExecutionPolicy_def by_id_def
        is_resolved_def wi0_def Let_def)
  with sound have "mset queue = {# wi0 ''b'' ''p2'' [], wi0 ''a'' ''p0'' [] #}" by simp
  with sound eq show ?thesis by auto
qed

end
