(* ===== verification/Server.thy ===== *)
theory Server
  imports Refusals WorkScheduler
begin

text \<open>
  The server state that the invocation services share (services/invocations.mjs and what it composes)
  and the bookkeeping operations of services/invocations/completion.mjs that several of them call:
  root spans, usage summaries, audit summaries and compare runs.  \<open>world\<close> stands for the parts of the
  state that only injected callbacks touch (sessions, ledger, imported results, drafts).
\<close>

section \<open>Records\<close>

record device =
  dv_id :: string
  dv_maxConcurrency :: "nat option"
  dv_bridgeSessionId :: "string option"
  dv_unlinkState :: string

record worktree =
  wt_id :: string
  wt_projectId :: "string option"
  wt_workspaceProjectId :: "string option"
  wt_branchName :: "string option"
  wt_baseBranch :: "string option"
  wt_path :: "string option"
  wt_worktreePath :: "string option"

record trace =
  tr_id :: string
  tr_subjectId :: string
  tr_rootSpanId :: string
  tr_createdAt :: instant

record span =
  sp_id :: string
  sp_traceId :: "string option"
  sp_parentSpanId :: "string option"
  sp_name :: string
  sp_status :: string
  sp_startedAt :: stamp
  sp_endedAt :: "stamp option"
  sp_attributes :: json

text \<open>The telemetry of a run: a round is one turn of the model, a tool record one call of a tool.
  \<open>usageRecordId\<close>, which the ledger fills in, is not kept.\<close>

record round =
  rd_id :: string
  rd_invocationId :: string
  rd_traceId :: "string option"
  rd_spanId :: string
  rd_roundIndex :: int
  rd_kind :: string
  rd_provider :: string
  rd_model :: string
  rd_status :: string
  rd_startedAt :: stamp
  rd_endedAt :: "stamp option"
  rd_durationMs :: "int option"
  rd_inputTokens :: int
  rd_outputTokens :: int
  rd_cachedTokens :: int
  rd_reasoningTokens :: int
  rd_requestDigest :: "string option"
  rd_responseDigest :: "string option"
  rd_filesRead :: "string list"
  rd_toolCallIds :: "string list"
  rd_errorCode :: "string option"
  rd_estimatedCost :: "int option"
  rd_createdAt :: instant

record tool_record =
  tv_id :: string
  tv_invocationId :: string
  tv_roundId :: "string option"
  tv_toolName :: string
  tv_toolUseId :: "string option"
  tv_inputDigest :: "string option"
  tv_outputDigest :: "string option"
  tv_targetPath :: "string option"
  tv_action :: "string option"
  tv_riskTag :: "string option"
  tv_sideEffect :: bool
  tv_resultSize :: "int option"
  tv_status :: string
  tv_startedAt :: stamp
  tv_endedAt :: stamp
  tv_createdAt :: instant

record transcript =
  ts_invocationId :: string
  ts_contentHash :: "string option"
  ts_blocks :: nat
  ts_truncated :: bool

record transcript_info =
  ti_contentHash :: "string option"
  ti_blocks :: nat
  ti_truncated :: bool

record audit =
  au_invocationId :: string
  au_requesterId :: string
  au_transcript :: "transcript_info option"
  au_agentId :: string
  au_deviceId :: "string option"
  au_terminalId :: "string option"
  au_status :: inv_status
  au_permissionDecision :: string
  au_traceId :: "string option"
  au_startedAt :: stamp
  au_completedAt :: instant
  au_resultSummary :: "string option"
  au_errorSummary :: "string option"
  au_applicationResult :: json

record usage =
  ug_agentId :: string
  ug_invocationCount :: nat
  ug_succeededCount :: nat
  ug_failedCount :: nat
  ug_cancelledCount :: nat
  ug_lastInvocationId :: "string option"
  ug_lastInvocationStatus :: "inv_status option"
  ug_costOwner :: string
  ug_economicModel :: string
  ug_currency :: string
  ug_unknownCostVisible :: bool
  ug_updatedAt :: "instant option"

record compare_child =
  cc_invocationId :: string
  cc_agentId :: string
  cc_worktreeId :: "string option"

record promotion =
  pm_invocationId :: string
  pm_worktreeId :: string
  pm_prNumber :: "int option"
  pm_prUrl :: "string option"
  pm_by :: string
  pm_at :: instant

record compare_run =
  cr_id :: string
  cr_task :: string
  cr_requestedBy :: string
  cr_projectId :: "string option"
  cr_isolated :: bool
  cr_status :: string
  cr_childInvocationIds :: "string list"
  cr_children :: "compare_child list"
  cr_preferredInvocationId :: "string option"
  cr_preferredBy :: "string option"
  cr_promotion :: "promotion option"
  cr_summary :: string
  cr_createdAt :: instant
  cr_updatedAt :: instant

record policy_record =
  pd_id :: string
  pd_invocationId :: string
  pd_agentId :: string
  pd_riskLevel :: string
  pd_riskTags :: "string list"
  pd_decision :: string
  pd_reason :: string
  pd_approvalRequestId :: "string option"
  pd_approver :: "string option"
  pd_createdAt :: instant

record policy_summary =
  ps_risk :: string
  ps_data :: string
  ps_cost :: string
  ps_cancellation :: string

record execution_context =
  ec_command :: "string option"
  ec_arguments :: "string list"
  ec_workingDirectory :: "string option"
  ec_pathPolicy :: string
  ec_impactScope :: "string list"
  ec_projectId :: json
  ec_worktreeId :: json
  ec_autoRunId :: json

record approval =
  apr_id :: string
  apr_invocationId :: string
  apr_agentId :: string
  apr_terminalId :: "string option"
  apr_requestedBy :: string
  apr_status :: string
  apr_riskLevel :: string
  apr_riskTags :: "string list"
  apr_summary :: policy_summary
  apr_executionContext :: execution_context
  apr_createdAt :: instant
  apr_decidedAt :: "instant option"
  apr_decidedBy :: "string option"

record application =
  app_id :: string
  app_latestResult :: json
  app_updatedAt :: instant

text \<open>The runtime of services/invocations/direct-http.mjs: requests in flight with the agent each was
  launched for (the key set of \<open>directHttpRuns\<close> with what the closures hold), the waiting queue, the set
  of scheduled ids, the counters and the two configured limits.\<close>

record http_runtime =
  hr_live :: "(string \<times> string) list"
  hr_pending :: "(string \<times> agent) list"
  hr_scheduled :: "string list"
  hr_activeCount :: nat
  hr_activeByAgent :: "(string \<times> nat) list"
  hr_max :: nat
  hr_perAgentMax :: nat

record 'w server = refusal_core +
  agents :: "agent list"
  device :: device
  projects :: "project list"
  users :: "user list"
  worktrees :: "worktree list"
  work_items :: "work_item list"
  traces :: "trace list"
  spans :: "span list"
  rounds :: "round list"
  tool_records :: "tool_record list"
  transcripts :: "transcript list"
  audits :: "audit list"
  usages :: "usage list"
  compare_runs :: "compare_run list"
  policy_records :: "policy_record list"
  approvals :: "approval list"
  applications :: "application list"
  http :: http_runtime
  world :: 'w

section \<open>Lookups\<close>

definition findAgent :: "string \<Rightarrow> 'w server \<Rightarrow> agent option" where
  "findAgent i st = List.find (\<lambda>a. ag_id a = i) (agents st)"

definition findApprovalRequest :: "string \<Rightarrow> 'w server \<Rightarrow> approval option" where
  "findApprovalRequest i st = List.find (\<lambda>a. apr_id a = i) (approvals st)"

text \<open>\<open>selectDefaultAgent\<close>.\<close>

definition selectDefaultAgent :: "agent list \<Rightarrow> agent option" where
  "selectDefaultAgent as =
     coalesce_opt (List.find (\<lambda>a. ag_id a = ''agt_codex_cli'') as)
      (coalesce_opt (List.find (\<lambda>a. ad_type (ag_adapter a) \<noteq> ''platform'' \<and> ag_id a \<noteq> ''agt_demo_cli'') as)
        (coalesce_opt (List.find (\<lambda>a. ag_id a = ''agt_demo_cli'') as)
          (case as of [] \<Rightarrow> None | a # _ \<Rightarrow> Some a)))"

section \<open>Root span\<close>

definition span_status :: "inv_status \<Rightarrow> string" where
  "span_status s = (if s = Succeeded then ''succeeded''
                    else if s = Cancelled then ''cancelled'' else ''failed'')"

definition end_span :: "instant \<Rightarrow> inv_status \<Rightarrow> span \<Rightarrow> span" where
  "end_span t s sp =
     (if stamped (sp_endedAt sp) then sp else sp\<lparr>sp_status := span_status s, sp_endedAt := Some (Clock t)\<rparr>)"

definition completeRootSpan :: "instant \<Rightarrow> invocation \<Rightarrow> inv_status \<Rightarrow> 'w server \<Rightarrow> 'w server" where
  "completeRootSpan t iv s st =
     st\<lparr>spans := upd_where (\<lambda>sp. Some (sp_id sp) = inv_rootSpanId iv) (end_span t s) (spans st)\<rparr>"

section \<open>Usage summaries\<close>

definition new_usage :: "string \<Rightarrow> agent option \<Rightarrow> usage" where
  "new_usage aid a =
     \<lparr>ug_agentId = aid, ug_invocationCount = 0, ug_succeededCount = 0, ug_failedCount = 0,
      ug_cancelledCount = 0, ug_lastInvocationId = None, ug_lastInvocationStatus = None,
      ug_costOwner = coalesce (Option.bind (Option.bind a ag_economics) eco_costOwner) ''unknown'',
      ug_economicModel = coalesce (Option.bind (Option.bind a ag_economics) eco_model) ''unknown'',
      ug_currency = coalesce (Option.bind (Option.bind a ag_economics) eco_currency) ''USD'',
      ug_unknownCostVisible =
        (coalesce (Option.bind (Option.bind a ag_economics) eco_model) ''unknown'' = ''unknown''),
      ug_updatedAt = None\<rparr>"

definition getAgentUsageSummary :: "string \<Rightarrow> 'w server \<Rightarrow> 'w server" where
  "getAgentUsageSummary aid st =
     (case List.find (\<lambda>u. ug_agentId u = aid) (usages st) of
        Some u \<Rightarrow> st
      | None \<Rightarrow> st\<lparr>usages := usages st @ [new_usage aid (findAgent aid st)]\<rparr>)"

definition is_failed_status :: "inv_status \<Rightarrow> bool" where
  "is_failed_status s \<longleftrightarrow> s \<in> {Failed, TimedOut, Expired, Rejected}"

definition bump_usage :: "instant \<Rightarrow> agent option \<Rightarrow> string \<Rightarrow> inv_status \<Rightarrow> usage \<Rightarrow> usage" where
  "bump_usage t a i s u =
     (let model = coalesce (Option.bind (Option.bind a ag_economics) eco_model) ''unknown''
      in u\<lparr>ug_invocationCount := ug_invocationCount u + 1,
           ug_succeededCount := ug_succeededCount u + (if s = Succeeded then 1 else 0),
           ug_failedCount := ug_failedCount u + (if is_failed_status s then 1 else 0),
           ug_cancelledCount := ug_cancelledCount u + (if s = Cancelled then 1 else 0),
           ug_lastInvocationId := Some i, ug_lastInvocationStatus := Some s,
           ug_costOwner := coalesce (Option.bind (Option.bind a ag_economics) eco_costOwner) ''unknown'',
           ug_economicModel := model,
           ug_currency := coalesce (Option.bind (Option.bind a ag_economics) eco_currency) ''USD'',
           ug_unknownCostVisible := (model = ''unknown''), ug_updatedAt := Some t\<rparr>)"

definition recordAgentUsage :: "instant \<Rightarrow> invocation \<Rightarrow> inv_status \<Rightarrow> 'w server \<Rightarrow> 'w server" where
  "recordAgentUsage t iv s st =
     (let aid = inv_agentId iv; st1 = getAgentUsageSummary aid st
      in st1\<lparr>usages := upd_where (\<lambda>u. ug_agentId u = aid)
                          (bump_usage t (findAgent aid st) (inv_id iv) s) (usages st1)\<rparr>)"

section \<open>Audit summaries\<close>

definition createAuditSummary :: "instant \<Rightarrow> invocation \<Rightarrow> string option \<Rightarrow> 'w server \<Rightarrow> audit" where
  "createAuditSummary t iv summary st =
     \<lparr>au_invocationId = inv_id iv, au_requesterId = inv_requestedBy iv,
      au_transcript = map_option
        (\<lambda>r. \<lparr>ti_contentHash = ts_contentHash r, ti_blocks = ts_blocks r, ti_truncated = ts_truncated r\<rparr>)
        (List.find (\<lambda>r. ts_invocationId r = inv_id iv) (transcripts st)),
      au_agentId = inv_agentId iv, au_deviceId = del_deviceId (inv_delivery iv),
      au_terminalId = coalesce_opt (inv_terminalId iv) (del_deviceId (inv_delivery iv)),
      au_status = inv_status iv,
      au_permissionDecision = (if inv_status iv = Rejected then ''denied'' else ''allowed''),
      au_traceId = inv_traceId iv,
      au_startedAt = coalesce (coalesce_opt (inv_startedAt iv) (map_option Clock (del_acknowledgedAt (inv_delivery iv))))
                       (Clock (inv_createdAt iv)),
      au_completedAt = coalesce (inv_completedAt iv) t,
      au_resultSummary = (if inv_status iv = Succeeded then summary else None),
      au_errorSummary = (if inv_status iv = Succeeded then None else summary),
      au_applicationResult = JNull\<rparr>"

definition push_audit :: "audit \<Rightarrow> 'w server \<Rightarrow> 'w server" where
  "push_audit a st = st\<lparr>audits := audits st @ [a]\<rparr>"

section \<open>Compare runs\<close>

definition compare_children :: "compare_run \<Rightarrow> 'w server \<Rightarrow> invocation list" where
  "compare_children cr st = List.map_filter (\<lambda>i. find_inv i st) (cr_childInvocationIds cr)"

definition compare_refresh :: "instant \<Rightarrow> invocation list \<Rightarrow> compare_run \<Rightarrow> compare_run" where
  "compare_refresh t children cr =
     (let terminal = filter (\<lambda>c. is_terminal (inv_status c)) children
      in cr\<lparr>cr_status :=
              (if length terminal = length children
               then (if list_ex (\<lambda>c. inv_status c = Succeeded) children then ''completed'' else ''failed'')
               else ''running''),
            cr_summary := show_nat (length terminal) @ ''/'' @ show_nat (length children)
                            @ '' agent run(s) finished.'',
            cr_preferredInvocationId :=
              coalesce_opt (cr_preferredInvocationId cr)
                (map_option inv_id (List.find (\<lambda>c. inv_status c = Succeeded) children)),
            cr_updatedAt := t\<rparr>)"

definition updateCompareRun :: "instant \<Rightarrow> string \<Rightarrow> 'w server \<Rightarrow> 'w server" where
  "updateCompareRun t crid st =
     st\<lparr>compare_runs := upd_where (\<lambda>c. cr_id c = crid)
          (\<lambda>c. compare_refresh t (compare_children c st) c) (compare_runs st)\<rparr>"

definition updateCompareRunForInvocation :: "instant \<Rightarrow> invocation \<Rightarrow> 'w server \<Rightarrow> 'w server" where
  "updateCompareRunForInvocation t iv st =
     (case inv_compareRunId iv of None \<Rightarrow> st | Some c \<Rightarrow> updateCompareRun t c st)"

section \<open>Frame\<close>

lemma next_id_server [simp, frame]:
  "agents (snd (next_id p st)) = agents st" "device (snd (next_id p st)) = device st"
  "projects (snd (next_id p st)) = projects st" "users (snd (next_id p st)) = users st"
  "worktrees (snd (next_id p st)) = worktrees st"
  "work_items (snd (next_id p st)) = work_items st" "traces (snd (next_id p st)) = traces st"
  "spans (snd (next_id p st)) = spans st" "transcripts (snd (next_id p st)) = transcripts st"
  "audits (snd (next_id p st)) = audits st" "usages (snd (next_id p st)) = usages st"
  "compare_runs (snd (next_id p st)) = compare_runs st"
  "policy_records (snd (next_id p st)) = policy_records st"
  "approvals (snd (next_id p st)) = approvals st"
  "applications (snd (next_id p st)) = applications st" "http (snd (next_id p st)) = http st"
  "world (snd (next_id p st)) = world st"
  by (simp_all add: next_id_def Let_def)

lemma log_push_server [simp, frame]:
  "agents (log_push t r st) = agents st" "device (log_push t r st) = device st"
  "projects (log_push t r st) = projects st" "users (log_push t r st) = users st"
  "worktrees (log_push t r st) = worktrees st" "work_items (log_push t r st) = work_items st"
  "traces (log_push t r st) = traces st" "spans (log_push t r st) = spans st"
  "transcripts (log_push t r st) = transcripts st" "audits (log_push t r st) = audits st"
  "usages (log_push t r st) = usages st" "compare_runs (log_push t r st) = compare_runs st"
  "policy_records (log_push t r st) = policy_records st"
  "approvals (log_push t r st) = approvals st" "applications (log_push t r st) = applications st"
  "http (log_push t r st) = http st" "world (log_push t r st) = world st"
  by (simp_all add: log_push_def Let_def)

lemma append_event_server [simp, frame]:
  "agents (append_event t e st) = agents st" "device (append_event t e st) = device st"
  "projects (append_event t e st) = projects st" "users (append_event t e st) = users st"
  "worktrees (append_event t e st) = worktrees st"
  "work_items (append_event t e st) = work_items st" "traces (append_event t e st) = traces st"
  "spans (append_event t e st) = spans st" "transcripts (append_event t e st) = transcripts st"
  "audits (append_event t e st) = audits st" "usages (append_event t e st) = usages st"
  "compare_runs (append_event t e st) = compare_runs st"
  "policy_records (append_event t e st) = policy_records st"
  "approvals (append_event t e st) = approvals st"
  "applications (append_event t e st) = applications st" "http (append_event t e st) = http st"
  "world (append_event t e st) = world st"
  by (simp_all add: append_event_def case_prod_beta)

lemma append_events_server [simp, frame]:
  "agents (append_events t es st) = agents st" "device (append_events t es st) = device st"
  "projects (append_events t es st) = projects st" "users (append_events t es st) = users st"
  "worktrees (append_events t es st) = worktrees st"
  "work_items (append_events t es st) = work_items st"
  "traces (append_events t es st) = traces st" "spans (append_events t es st) = spans st"
  "transcripts (append_events t es st) = transcripts st"
  "audits (append_events t es st) = audits st" "usages (append_events t es st) = usages st"
  "compare_runs (append_events t es st) = compare_runs st"
  "policy_records (append_events t es st) = policy_records st"
  "approvals (append_events t es st) = approvals st"
  "applications (append_events t es st) = applications st"
  "http (append_events t es st) = http st" "world (append_events t es st) = world st"
  by (induction es arbitrary: st; simp)+

lemma upd_inv_server [simp, frame]:
  "agents (upd_inv i f st) = agents st" "device (upd_inv i f st) = device st"
  "projects (upd_inv i f st) = projects st" "users (upd_inv i f st) = users st"
  "worktrees (upd_inv i f st) = worktrees st" "work_items (upd_inv i f st) = work_items st"
  "traces (upd_inv i f st) = traces st" "spans (upd_inv i f st) = spans st"
  "transcripts (upd_inv i f st) = transcripts st" "audits (upd_inv i f st) = audits st"
  "usages (upd_inv i f st) = usages st" "compare_runs (upd_inv i f st) = compare_runs st"
  "policy_records (upd_inv i f st) = policy_records st"
  "approvals (upd_inv i f st) = approvals st" "applications (upd_inv i f st) = applications st"
  "http (upd_inv i f st) = http st" "world (upd_inv i f st) = world st"
  by (simp_all add: upd_inv_def)

lemma refusal_push_server [simp, frame]:
  "agents (refusal_push r st) = agents st" "device (refusal_push r st) = device st"
  "projects (refusal_push r st) = projects st" "users (refusal_push r st) = users st"
  "worktrees (refusal_push r st) = worktrees st" "work_items (refusal_push r st) = work_items st"
  "traces (refusal_push r st) = traces st" "spans (refusal_push r st) = spans st"
  "transcripts (refusal_push r st) = transcripts st" "audits (refusal_push r st) = audits st"
  "usages (refusal_push r st) = usages st" "compare_runs (refusal_push r st) = compare_runs st"
  "policy_records (refusal_push r st) = policy_records st"
  "approvals (refusal_push r st) = approvals st"
  "applications (refusal_push r st) = applications st" "http (refusal_push r st) = http st"
  "world (refusal_push r st) = world st"
  by (simp_all add: refusal_push_def Let_def)

lemma recordRefusalDailyStat_server [simp, frame]:
  "agents (recordRefusalDailyStat t c st) = agents st"
  "device (recordRefusalDailyStat t c st) = device st"
  "projects (recordRefusalDailyStat t c st) = projects st"
  "users (recordRefusalDailyStat t c st) = users st"
  "worktrees (recordRefusalDailyStat t c st) = worktrees st"
  "work_items (recordRefusalDailyStat t c st) = work_items st"
  "traces (recordRefusalDailyStat t c st) = traces st"
  "spans (recordRefusalDailyStat t c st) = spans st"
  "transcripts (recordRefusalDailyStat t c st) = transcripts st"
  "audits (recordRefusalDailyStat t c st) = audits st"
  "usages (recordRefusalDailyStat t c st) = usages st"
  "compare_runs (recordRefusalDailyStat t c st) = compare_runs st"
  "policy_records (recordRefusalDailyStat t c st) = policy_records st"
  "approvals (recordRefusalDailyStat t c st) = approvals st"
  "applications (recordRefusalDailyStat t c st) = applications st"
  "http (recordRefusalDailyStat t c st) = http st"
  "world (recordRefusalDailyStat t c st) = world st"
  by (simp_all add: recordRefusalDailyStat_def)

lemma refuse_unchecked_server [simp, frame]:
  "agents (refuse_unchecked t a st) = agents st" "device (refuse_unchecked t a st) = device st"
  "projects (refuse_unchecked t a st) = projects st" "users (refuse_unchecked t a st) = users st"
  "worktrees (refuse_unchecked t a st) = worktrees st"
  "work_items (refuse_unchecked t a st) = work_items st"
  "traces (refuse_unchecked t a st) = traces st" "spans (refuse_unchecked t a st) = spans st"
  "transcripts (refuse_unchecked t a st) = transcripts st"
  "audits (refuse_unchecked t a st) = audits st" "usages (refuse_unchecked t a st) = usages st"
  "compare_runs (refuse_unchecked t a st) = compare_runs st"
  "policy_records (refuse_unchecked t a st) = policy_records st"
  "approvals (refuse_unchecked t a st) = approvals st"
  "applications (refuse_unchecked t a st) = applications st"
  "http (refuse_unchecked t a st) = http st" "world (refuse_unchecked t a st) = world st"
  by (cases "ri_event a"; simp add: refuse_unchecked_def case_prod_beta Let_def)+

lemma completeRootSpan_frame [simp, frame]:
  "id_counter (completeRootSpan t v s st) = id_counter st"
  "issued_ids (completeRootSpan t v s st) = issued_ids st"
  "invocations (completeRootSpan t v s st) = invocations st"
  "events (completeRootSpan t v s st) = events st"
  "event_archive (completeRootSpan t v s st) = event_archive st"
  "event_retention (completeRootSpan t v s st) = event_retention st"
  "event_archiver (completeRootSpan t v s st) = event_archiver st"
  "refusals (completeRootSpan t v s st) = refusals st"
  "refusal_archive (completeRootSpan t v s st) = refusal_archive st"
  "refusal_archive_up (completeRootSpan t v s st) = refusal_archive_up st"
  "refusal_stats (completeRootSpan t v s st) = refusal_stats st"
  "refusal_since (completeRootSpan t v s st) = refusal_since st"
  "agents (completeRootSpan t v s st) = agents st"
  "device (completeRootSpan t v s st) = device st"
  "projects (completeRootSpan t v s st) = projects st"
  "users (completeRootSpan t v s st) = users st"
  "worktrees (completeRootSpan t v s st) = worktrees st"
  "work_items (completeRootSpan t v s st) = work_items st"
  "traces (completeRootSpan t v s st) = traces st"
  "transcripts (completeRootSpan t v s st) = transcripts st"
  "audits (completeRootSpan t v s st) = audits st"
  "usages (completeRootSpan t v s st) = usages st"
  "compare_runs (completeRootSpan t v s st) = compare_runs st"
  "policy_records (completeRootSpan t v s st) = policy_records st"
  "approvals (completeRootSpan t v s st) = approvals st"
  "applications (completeRootSpan t v s st) = applications st"
  "http (completeRootSpan t v s st) = http st" "world (completeRootSpan t v s st) = world st"
  by (simp_all add: completeRootSpan_def)

lemma getAgentUsageSummary_frame [simp, frame]:
  "id_counter (getAgentUsageSummary aid st) = id_counter st"
  "issued_ids (getAgentUsageSummary aid st) = issued_ids st"
  "invocations (getAgentUsageSummary aid st) = invocations st"
  "events (getAgentUsageSummary aid st) = events st"
  "event_archive (getAgentUsageSummary aid st) = event_archive st"
  "event_retention (getAgentUsageSummary aid st) = event_retention st"
  "event_archiver (getAgentUsageSummary aid st) = event_archiver st"
  "refusals (getAgentUsageSummary aid st) = refusals st"
  "refusal_archive (getAgentUsageSummary aid st) = refusal_archive st"
  "refusal_archive_up (getAgentUsageSummary aid st) = refusal_archive_up st"
  "refusal_stats (getAgentUsageSummary aid st) = refusal_stats st"
  "refusal_since (getAgentUsageSummary aid st) = refusal_since st"
  "agents (getAgentUsageSummary aid st) = agents st"
  "device (getAgentUsageSummary aid st) = device st"
  "projects (getAgentUsageSummary aid st) = projects st"
  "users (getAgentUsageSummary aid st) = users st"
  "worktrees (getAgentUsageSummary aid st) = worktrees st"
  "work_items (getAgentUsageSummary aid st) = work_items st"
  "traces (getAgentUsageSummary aid st) = traces st"
  "spans (getAgentUsageSummary aid st) = spans st"
  "transcripts (getAgentUsageSummary aid st) = transcripts st"
  "audits (getAgentUsageSummary aid st) = audits st"
  "compare_runs (getAgentUsageSummary aid st) = compare_runs st"
  "policy_records (getAgentUsageSummary aid st) = policy_records st"
  "approvals (getAgentUsageSummary aid st) = approvals st"
  "applications (getAgentUsageSummary aid st) = applications st"
  "http (getAgentUsageSummary aid st) = http st" "world (getAgentUsageSummary aid st) = world st"
  by (cases "List.find (\<lambda>u. ug_agentId u = aid) (usages st)"; simp add: getAgentUsageSummary_def)+

lemma recordAgentUsage_frame [simp, frame]:
  "id_counter (recordAgentUsage t v s st) = id_counter st"
  "issued_ids (recordAgentUsage t v s st) = issued_ids st"
  "invocations (recordAgentUsage t v s st) = invocations st"
  "events (recordAgentUsage t v s st) = events st"
  "event_archive (recordAgentUsage t v s st) = event_archive st"
  "event_retention (recordAgentUsage t v s st) = event_retention st"
  "event_archiver (recordAgentUsage t v s st) = event_archiver st"
  "refusals (recordAgentUsage t v s st) = refusals st"
  "refusal_archive (recordAgentUsage t v s st) = refusal_archive st"
  "refusal_archive_up (recordAgentUsage t v s st) = refusal_archive_up st"
  "refusal_stats (recordAgentUsage t v s st) = refusal_stats st"
  "refusal_since (recordAgentUsage t v s st) = refusal_since st"
  "agents (recordAgentUsage t v s st) = agents st"
  "device (recordAgentUsage t v s st) = device st"
  "projects (recordAgentUsage t v s st) = projects st"
  "users (recordAgentUsage t v s st) = users st"
  "worktrees (recordAgentUsage t v s st) = worktrees st"
  "work_items (recordAgentUsage t v s st) = work_items st"
  "traces (recordAgentUsage t v s st) = traces st" "spans (recordAgentUsage t v s st) = spans st"
  "transcripts (recordAgentUsage t v s st) = transcripts st"
  "audits (recordAgentUsage t v s st) = audits st"
  "compare_runs (recordAgentUsage t v s st) = compare_runs st"
  "policy_records (recordAgentUsage t v s st) = policy_records st"
  "approvals (recordAgentUsage t v s st) = approvals st"
  "applications (recordAgentUsage t v s st) = applications st"
  "http (recordAgentUsage t v s st) = http st" "world (recordAgentUsage t v s st) = world st"
  by (simp_all add: recordAgentUsage_def Let_def)

lemma push_audit_frame [simp, frame]:
  "id_counter (push_audit a st) = id_counter st" "issued_ids (push_audit a st) = issued_ids st"
  "invocations (push_audit a st) = invocations st" "events (push_audit a st) = events st"
  "event_archive (push_audit a st) = event_archive st"
  "event_retention (push_audit a st) = event_retention st"
  "event_archiver (push_audit a st) = event_archiver st"
  "refusals (push_audit a st) = refusals st"
  "refusal_archive (push_audit a st) = refusal_archive st"
  "refusal_archive_up (push_audit a st) = refusal_archive_up st"
  "refusal_stats (push_audit a st) = refusal_stats st"
  "refusal_since (push_audit a st) = refusal_since st" "agents (push_audit a st) = agents st"
  "device (push_audit a st) = device st" "projects (push_audit a st) = projects st"
  "users (push_audit a st) = users st" "worktrees (push_audit a st) = worktrees st"
  "work_items (push_audit a st) = work_items st" "traces (push_audit a st) = traces st"
  "spans (push_audit a st) = spans st" "transcripts (push_audit a st) = transcripts st"
  "usages (push_audit a st) = usages st" "compare_runs (push_audit a st) = compare_runs st"
  "policy_records (push_audit a st) = policy_records st"
  "approvals (push_audit a st) = approvals st" "applications (push_audit a st) = applications st"
  "http (push_audit a st) = http st" "world (push_audit a st) = world st"
  by (simp_all add: push_audit_def)

lemma updateCompareRun_frame [simp, frame]:
  "id_counter (updateCompareRun t c st) = id_counter st"
  "issued_ids (updateCompareRun t c st) = issued_ids st"
  "invocations (updateCompareRun t c st) = invocations st"
  "events (updateCompareRun t c st) = events st"
  "event_archive (updateCompareRun t c st) = event_archive st"
  "event_retention (updateCompareRun t c st) = event_retention st"
  "event_archiver (updateCompareRun t c st) = event_archiver st"
  "refusals (updateCompareRun t c st) = refusals st"
  "refusal_archive (updateCompareRun t c st) = refusal_archive st"
  "refusal_archive_up (updateCompareRun t c st) = refusal_archive_up st"
  "refusal_stats (updateCompareRun t c st) = refusal_stats st"
  "refusal_since (updateCompareRun t c st) = refusal_since st"
  "agents (updateCompareRun t c st) = agents st" "device (updateCompareRun t c st) = device st"
  "projects (updateCompareRun t c st) = projects st" "users (updateCompareRun t c st) = users st"
  "worktrees (updateCompareRun t c st) = worktrees st"
  "work_items (updateCompareRun t c st) = work_items st"
  "traces (updateCompareRun t c st) = traces st" "spans (updateCompareRun t c st) = spans st"
  "transcripts (updateCompareRun t c st) = transcripts st"
  "audits (updateCompareRun t c st) = audits st" "usages (updateCompareRun t c st) = usages st"
  "policy_records (updateCompareRun t c st) = policy_records st"
  "approvals (updateCompareRun t c st) = approvals st"
  "applications (updateCompareRun t c st) = applications st"
  "http (updateCompareRun t c st) = http st" "world (updateCompareRun t c st) = world st"
  by (simp_all add: updateCompareRun_def)

lemma updateCompareRunForInvocation_frame [simp, frame]:
  "id_counter (updateCompareRunForInvocation t v st) = id_counter st"
  "issued_ids (updateCompareRunForInvocation t v st) = issued_ids st"
  "invocations (updateCompareRunForInvocation t v st) = invocations st"
  "events (updateCompareRunForInvocation t v st) = events st"
  "event_archive (updateCompareRunForInvocation t v st) = event_archive st"
  "event_retention (updateCompareRunForInvocation t v st) = event_retention st"
  "event_archiver (updateCompareRunForInvocation t v st) = event_archiver st"
  "refusals (updateCompareRunForInvocation t v st) = refusals st"
  "refusal_archive (updateCompareRunForInvocation t v st) = refusal_archive st"
  "refusal_archive_up (updateCompareRunForInvocation t v st) = refusal_archive_up st"
  "refusal_stats (updateCompareRunForInvocation t v st) = refusal_stats st"
  "refusal_since (updateCompareRunForInvocation t v st) = refusal_since st"
  "agents (updateCompareRunForInvocation t v st) = agents st"
  "device (updateCompareRunForInvocation t v st) = device st"
  "projects (updateCompareRunForInvocation t v st) = projects st"
  "users (updateCompareRunForInvocation t v st) = users st"
  "worktrees (updateCompareRunForInvocation t v st) = worktrees st"
  "work_items (updateCompareRunForInvocation t v st) = work_items st"
  "traces (updateCompareRunForInvocation t v st) = traces st"
  "spans (updateCompareRunForInvocation t v st) = spans st"
  "transcripts (updateCompareRunForInvocation t v st) = transcripts st"
  "audits (updateCompareRunForInvocation t v st) = audits st"
  "usages (updateCompareRunForInvocation t v st) = usages st"
  "policy_records (updateCompareRunForInvocation t v st) = policy_records st"
  "approvals (updateCompareRunForInvocation t v st) = approvals st"
  "applications (updateCompareRunForInvocation t v st) = applications st"
  "http (updateCompareRunForInvocation t v st) = http st"
  "world (updateCompareRunForInvocation t v st) = world st"
  by (cases "inv_compareRunId v"; simp add: updateCompareRunForInvocation_def)+


lemma find_inv_server [simp]:
  "find_inv i (completeRootSpan t v s st) = find_inv i st"
  "find_inv i (recordAgentUsage t v s st) = find_inv i st"
  "find_inv i (push_audit a st) = find_inv i st"
  "find_inv i (updateCompareRun t c st) = find_inv i st"
  "find_inv i (updateCompareRunForInvocation t v st) = find_inv i st"
  "find_inv i (append_events t es st) = find_inv i st"
  by (simp_all add: find_inv_def)

lemma findAgent_frame [simp]:
  "findAgent i (append_event t e st) = findAgent i st"
  "findAgent i (append_events t es st) = findAgent i st"
  "findAgent i (upd_inv j f st) = findAgent i st"
  "findAgent i (refuse_unchecked t a st) = findAgent i st"
  "findAgent i (completeRootSpan t v s st) = findAgent i st"
  "findAgent i (recordAgentUsage t v s st) = findAgent i st"
  "findAgent i (push_audit au st) = findAgent i st"
  "findAgent i (updateCompareRunForInvocation t v st) = findAgent i st"
  by (simp_all add: findAgent_def)

section \<open>Usage counts\<close>

text \<open>Each usage summary counts every recorded run in exactly one of its three classes; one summary
  per agent.\<close>

definition usages_ok :: "usage list \<Rightarrow> bool" where
  "usages_ok us \<longleftrightarrow> distinct (map ug_agentId us)
     \<and> list_all (\<lambda>u. ug_invocationCount u = ug_succeededCount u + ug_failedCount u + ug_cancelledCount u) us"

definition usage_count :: "string \<Rightarrow> 'w server \<Rightarrow> nat" where
  "usage_count aid st =
     (case List.find (\<lambda>u. ug_agentId u = aid) (usages st) of None \<Rightarrow> 0 | Some u \<Rightarrow> ug_invocationCount u)"

lemma usage_count_frame [simp]:
  "usage_count a (append_event t e st) = usage_count a st"
  "usage_count a (append_events t es st) = usage_count a st"
  "usage_count a (upd_inv i f st) = usage_count a st"
  "usage_count a (push_audit x st) = usage_count a st"
  "usage_count a (completeRootSpan t v s st) = usage_count a st"
  "usage_count a (refuse_unchecked t r st) = usage_count a st"
  "usage_count a (st\<lparr>world := w\<rparr>) = usage_count a st"
  by (simp_all add: usage_count_def)

lemma bump_usage_simps [simp]:
  "ug_agentId (bump_usage t a i s u) = ug_agentId u"
  "ug_invocationCount (bump_usage t a i s u) = ug_invocationCount u + 1"
  by (simp_all add: bump_usage_def Let_def)

lemma bump_usage_sum:
  "is_terminal s \<Longrightarrow>
   ug_invocationCount u = ug_succeededCount u + ug_failedCount u + ug_cancelledCount u \<Longrightarrow>
   ug_invocationCount (bump_usage t a i s u)
     = ug_succeededCount (bump_usage t a i s u) + ug_failedCount (bump_usage t a i s u)
       + ug_cancelledCount (bump_usage t a i s u)"
  by (auto simp: bump_usage_def Let_def is_failed_status_def is_terminal_def)

lemma getAgentUsageSummary_ok: "usages_ok (usages st) \<Longrightarrow> usages_ok (usages (getAgentUsageSummary aid st))"
  by (auto simp: getAgentUsageSummary_def usages_ok_def new_usage_def find_None_ball split: option.split)

lemma recordAgentUsage_ok:
  assumes "usages_ok (usages st)" and "is_terminal s"
  shows "usages_ok (usages (recordAgentUsage t v s st))"
  using getAgentUsageSummary_ok [OF assms(1), of "inv_agentId v"] assms(2)
  by (auto simp: recordAgentUsage_def Let_def usages_ok_def list_all_iff set_upd_where map_upd_where
      intro!: bump_usage_sum)

lemma recordAgentUsage_count:
  "usage_count aid (recordAgentUsage t v s st)
     = (if aid = inv_agentId v then usage_count aid st + 1 else usage_count aid st)"
proof -
  have other: "List.find (\<lambda>u. ug_agentId u = aid) (upd_where (\<lambda>u. ug_agentId u = b) f us)
      = map_option (\<lambda>u. if ug_agentId u = b then f u else u) (List.find (\<lambda>u. ug_agentId u = aid) us)"
    if "\<And>u. ug_agentId (f u) = ug_agentId u" for f us b
    by (rule find_upd_where) (simp add: that)
  have app: "List.find P (xs @ [x]) = (case List.find P xs of None \<Rightarrow> if P x then Some x else None | Some y \<Rightarrow> Some y)"
    for P :: "usage \<Rightarrow> bool" and xs x
    by (induction xs) auto
  show ?thesis
    by (cases "List.find (\<lambda>u. ug_agentId u = inv_agentId v) (usages st)";
        cases "List.find (\<lambda>u. ug_agentId u = aid) (usages st)")
      (auto simp: usage_count_def recordAgentUsage_def Let_def getAgentUsageSummary_def other app
        new_usage_def dest: find_SomeD)
qed

end
