(* ===== verification/Completion.thy ===== *)
theory Completion
  imports Server
begin

text \<open>
  services/invocations/completion.mjs: \<open>completeInvocation\<close>, the one way a run that was admitted
  becomes terminal, with everything it records.  The importers and session services it calls are
  injected callbacks (\<open>hooks\<close>): each may change the opaque \<open>world\<close>, emit events and answer the ids of
  the records it created.  The commit of the enclosing unit of work is the returned state.
\<close>

section \<open>Injected callbacks\<close>

type_synonym 'w hook =
  "instant \<Rightarrow> invocation \<Rightarrow> json \<Rightarrow> agent option \<Rightarrow> 'w \<Rightarrow> string list \<times> event_in list \<times> 'w"

record 'w hooks =
  hk_sanitizeIntent :: "json \<Rightarrow> json"
  hk_stampResult :: "invocation \<Rightarrow> json \<Rightarrow> json"
  hk_transcript :: "instant \<Rightarrow> invocation \<Rightarrow> json \<Rightarrow> transcript list \<Rightarrow> transcript list \<times> json \<times> event_in list"
  hk_ledger :: "'w hook"
  hk_roundUsage :: "string list \<Rightarrow> 'w hook"
  hk_ccusage :: "'w hook"
  hk_codexReview :: "'w hook"
  hk_claudeReview :: "'w hook"
  hk_claudeApply :: "'w hook"
  hk_codexExec :: "'w hook"
  hk_application :: "'w hook"
  hk_closeSessions :: "inv_status \<Rightarrow> json \<Rightarrow> 'w hook"
  hk_releaseReservations :: "'w hook"
  hk_completed :: "'w hook"
  hk_approved :: "'w hook"
  hk_denied :: "'w hook"
  hk_notifyCancellation :: "string option \<Rightarrow> 'w \<Rightarrow> 'w"

text \<open>Run a hook for the invocation as it is now.\<close>

definition run_hook :: "instant \<Rightarrow> 'w hook \<Rightarrow> string \<Rightarrow> json \<Rightarrow> 'w server \<Rightarrow> string list \<times> 'w server" where
  "run_hook t h i arg st =
     (case find_inv i st of
        None \<Rightarrow> ([], st)
      | Some v \<Rightarrow>
          (let (ids, evs, w) = h t v arg (findAgent (inv_agentId v) st) (world st)
           in (ids, append_events t evs (st\<lparr>world := w\<rparr>))))"

section \<open>The body of a completion\<close>

record completion =
  bd_status :: "string option"
  bd_summary :: "string option"
  bd_result :: json
  bd_cost :: json

definition terminalStatus :: "completion \<Rightarrow> inv_status" where
  "terminalStatus b =
     (if bd_status b = Some ''cancelled'' then Cancelled
      else if bd_status b = Some ''timed_out'' then TimedOut
      else if bd_status b = Some ''failed'' then Failed
      else Succeeded)"

text \<open>The object spread \<open>{...v}\<close>.\<close>

fun spread :: "json \<Rightarrow> (string \<times> json) list" where
  "spread (JObj kvs) = kvs"
| "spread (JArr xs) = zip (map show_nat [0..<length xs]) xs"
| "spread (JStr s) = zip (map show_nat [0..<length s]) (map (\<lambda>c. JStr [c]) s)"
| "spread v = []"

definition effectiveBody :: "invocation \<Rightarrow> completion \<Rightarrow> completion" where
  "effectiveBody v b =
     (case inv_deadline v of
        Some d \<Rightarrow>
          if dl_state d = ''interrupt_requested''
          then b\<lparr>bd_status := Some ''timed_out'',
                 bd_summary := Some ''The invocation exceeded its server-enforced runtime deadline.'',
                 bd_result :=
                   jset (jset (jset (JObj (spread (bd_result b))) ''errorCode'' (JStr ''execution_timeout''))
                     ''timeoutKind'' (JStr ''server_hard_deadline''))
                     ''deadlineEnforcement''
                       (JObj [(''requestedAt'', dl_requestedAt d), (''deadlineAt'', dl_deadlineAt d)])\<rparr>
          else b
      | None \<Rightarrow> b)"

fun stripClaudeProviderSessionId :: "json \<Rightarrow> json" where
  "stripClaudeProviderSessionId (JObj kvs) = JObj (filter (\<lambda>kv. fst kv \<noteq> ''claudeSessionId'') kvs)"
| "stripClaudeProviderSessionId v = v"

section \<open>attachApplicationResult\<close>

definition set_last :: "('a \<Rightarrow> 'a) \<Rightarrow> 'a list \<Rightarrow> 'a list" where
  "set_last f xs = (if xs = [] then [] else butlast xs @ [f (last xs)])"

definition nonempty_arr :: "json \<Rightarrow> bool" where
  "nonempty_arr v \<longleftrightarrow> (case v of JArr (x # xs) \<Rightarrow> True | JStr s \<Rightarrow> s \<noteq> [] | _ \<Rightarrow> False)"

definition application_result ::
    "instant \<Rightarrow> invocation \<Rightarrow> json \<Rightarrow> json \<Rightarrow> string list \<Rightarrow> string \<Rightarrow> json" where
  "application_result t v meta existing ids output =
     JObj [(''applicationId'', jget meta ''applicationId''),
           (''capability'', jget meta ''capability''),
           (''applicationAction'', jget meta ''applicationAction''),
           (''outputCollection'',
              if ids \<noteq> [] then JStr output
              else nullish_or (jget existing ''outputCollection'')
                     (nullish_or (jget (jget meta ''applicationWrapper'') ''outputCollection'')
                       (nullish_or (jget meta ''outputCollection'') (JStr output)))),
           (''resultImport'', nullish_or (jget meta ''resultImport'')
                                (jget (jget meta ''applicationWrapper'') ''resultImport'')),
           (''importedRecordIds'', JArr (map JStr ids)),
           (''importedRecordCount'', JNum (int (length ids))),
           (''invocationId'', JStr (inv_id v)),
           (''status'', JStr (status_str (inv_status v))),
           (''completedAt'', JNum (coalesce (inv_completedAt v) t))]"

definition with_application_result :: "json \<Rightarrow> json \<Rightarrow> invocation \<Rightarrow> invocation" where
  "with_application_result meta r v =
     v\<lparr>inv_options := jset (inv_options v) ''metadata'' (jset meta ''applicationResult'' r),
       inv_result := (if is_obj (inv_result v) then jset (inv_result v) ''applicationResult'' r
                      else inv_result v)\<rparr>"

text \<open>The audit summary of this completion is the last one pushed.\<close>

definition attachApplicationResult ::
    "instant \<Rightarrow> string \<Rightarrow> string list \<Rightarrow> string \<Rightarrow> 'w server \<Rightarrow> 'w server" where
  "attachApplicationResult t i ids output st =
     (case find_inv i st of
        None \<Rightarrow> st
      | Some v \<Rightarrow>
          (let meta = inv_metadata v;
               existing = nullish_or (jget (inv_result v) ''applicationResult'') (jget meta ''applicationResult'');
               r = application_result t v meta existing ids output;
               appid = jget meta ''applicationId''
           in if jget meta ''providerType'' \<noteq> JStr ''application'' \<or> \<not> truthy appid then st
              else if output \<noteq> ''invocations'' \<and> ids = [] then st
              else if nonempty_arr (jget existing ''importedRecordIds'') \<and> ids = [] then st
              else
                (let st1 = upd_inv i (with_application_result meta r) st;
                     st2 = st1\<lparr>audits := set_last (\<lambda>a. a\<lparr>au_applicationResult := r\<rparr>) (audits st1),
                               applications := upd_where (\<lambda>a. JStr (app_id a) = appid)
                                 (\<lambda>a. a\<lparr>app_latestResult := r,
                                        app_updatedAt := coalesce (inv_completedAt v) t\<rparr>)
                                 (applications st1)\<rparr>
                 in if r \<noteq> existing
                    then append_event t
                      (mk_ev (Some i) ''application_result_recorded''
                        (if inv_status v = Succeeded then ''info'' else ''warn'')
                        (''Application result recorded for ''
                          @ coalesce (coalesce_opt (jstr_opt (jget meta ''capability'')) (jstr_opt appid)) [] @ ''.'')
                        r) st2
                    else st2)))"

section \<open>completeInvocation\<close>

definition set_terminal :: "instant \<Rightarrow> inv_status \<Rightarrow> string option \<Rightarrow> json \<Rightarrow> invocation \<Rightarrow> invocation" where
  "set_terminal t s msg r v =
     v\<lparr>inv_status := s, inv_result := r, inv_completedAt := Some t, inv_updatedAt := t,
       inv_cancellation :=
         (if s = Cancelled
          then (inv_cancellation v)\<lparr>can_state := CApplied, can_appliedAt := Some t, can_message := msg\<rparr>
          else inv_cancellation v)\<rparr>"

definition completion_event :: "inv_status \<Rightarrow> string" where
  "completion_event s =
     (if s = Succeeded then ''invocation_succeeded''
      else if s = Cancelled then ''cancel_applied''
      else if s = TimedOut then ''invocation_timed_out'' else ''invocation_failed'')"

definition import_step ::
    "instant \<Rightarrow> 'w hook \<Rightarrow> string \<Rightarrow> json \<Rightarrow> string \<Rightarrow> 'w server \<Rightarrow> 'w server" where
  "import_step t h i r output st =
     (let (ids, st1) = run_hook t h i r st in attachApplicationResult t i ids output st1)"

definition do_hook :: "instant \<Rightarrow> 'w hook \<Rightarrow> string \<Rightarrow> json \<Rightarrow> 'w server \<Rightarrow> 'w server" where
  "do_hook t h i r st = snd (run_hook t h i r st)"

text \<open>From the terminal status to the event of the completion.\<close>

definition complete_row :: "'w hooks \<Rightarrow> instant \<Rightarrow> invocation \<Rightarrow> completion \<Rightarrow> 'w server \<Rightarrow> 'w server" where
  "complete_row hk t v b st =
     (let s = terminalStatus b;
          msg = (if s = Cancelled then Some (coalesce (bd_summary b) ''Cancellation applied.'') else None);
          r0 = (if truthy (jget (inv_metadata v) ''channelIntentClassifier'')
                then hk_sanitizeIntent hk (bd_result b)
                else stripClaudeProviderSessionId (bd_result b));
          v1 = v\<lparr>inv_status := s, inv_result := r0\<rparr>;
          r1 = (if s = Succeeded then hk_stampResult hk v1 r0 else r0);
          (ts, r2, evs) = hk_transcript hk t (v1\<lparr>inv_result := r1\<rparr>) r1 (transcripts st);
          st1 = append_events t evs (upd_inv (inv_id v) (\<lambda>x. x\<lparr>inv_status := s, inv_result := r2\<rparr>)
                                       (st\<lparr>transcripts := ts\<rparr>));
          st2 = completeRootSpan t v s (upd_inv (inv_id v) (set_terminal t s msg r2) st1)
      in append_event t
           (mk_ev (Some (inv_id v)) (completion_event s) (if s = Succeeded then ''info'' else ''warn'')
             (if s = Cancelled then coalesce msg []
              else coalesce (bd_summary b) (''Invocation '' @ status_str s @ ''.''))
             r2) st2)"

text \<open>The audit summary and the usage count of the row as it stands.\<close>

definition complete_audit :: "instant \<Rightarrow> string \<Rightarrow> completion \<Rightarrow> 'w server \<Rightarrow> 'w server" where
  "complete_audit t i b st =
     (case find_inv i st of
        None \<Rightarrow> st
      | Some v \<Rightarrow>
          (let summary = (if inv_status v = Cancelled
                          then Some (coalesce (bd_summary b) ''Cancellation applied.'') else bd_summary b)
           in recordAgentUsage t v (inv_status v)
                (push_audit (createAuditSummary t v summary st) st)))"

definition reported_cost :: "completion \<Rightarrow> json" where
  "reported_cost b = nullish_or (jget (bd_result b) ''cost'') (bd_cost b)"

definition output_collection :: "invocation option \<Rightarrow> string" where
  "output_collection v =
     (case v of
        None \<Rightarrow> ''applicationResults''
      | Some x \<Rightarrow> coalesce (jstr_opt (nullish_or (jget (jget (inv_metadata x) ''applicationWrapper'') ''outputCollection'')
                                       (jget (inv_metadata x) ''outputCollection'')))
                    ''applicationResults'')"

text \<open>Ledger, round usage and the importers; those guarded by \<open>succeeded\<close> run only then.\<close>

definition complete_imports ::
    "'w hooks \<Rightarrow> instant \<Rightarrow> string \<Rightarrow> completion \<Rightarrow> 'w server \<Rightarrow> 'w server" where
  "complete_imports hk t i b st =
     (let ok = (terminalStatus b = Succeeded);
          r = bd_result b;
          (ledgerIds, st1) = (if truthy (reported_cost b)
                              then run_hook t (hk_ledger hk) i (reported_cost b) st else ([], st));
          st2 = do_hook t (hk_roundUsage hk ledgerIds) i JNull st1;
          st3 = (if ok then import_step t (hk_ccusage hk) i r ''importedUsageEstimates'' st2 else st2);
          st4 = (if ok then import_step t (hk_codexReview hk) i r ''codexReviewFindings'' st3 else st3);
          st5 = (if ok then import_step t (hk_claudeReview hk) i r ''claudeReviewFindings'' st4 else st4);
          st6 = do_hook t (hk_claudeApply hk) i r st5;
          st7 = (if ok then import_step t (hk_codexExec hk) i r ''codexExecChanges'' st6 else st6);
          st8 = (if ok then import_step t (hk_application hk) i r (output_collection (find_inv i st7)) st7
                 else st7)
      in attachApplicationResult t i [] ''invocations'' st8)"

definition complete_close ::
    "'w hooks \<Rightarrow> instant \<Rightarrow> invocation \<Rightarrow> completion \<Rightarrow> 'w server \<Rightarrow> 'w server" where
  "complete_close hk t v b st =
     (let i = inv_id v; s = terminalStatus b;
          st1 = do_hook t (hk_closeSessions hk s (jget (bd_result b) ''claudeSessionId'')) i JNull st;
          st2 = updateCompareRunForInvocation t v st1
      in do_hook t (hk_releaseReservations hk) i JNull st2)"

definition completeInvocationWork ::
    "'w hooks \<Rightarrow> instant \<Rightarrow> invocation \<Rightarrow> completion \<Rightarrow> 'w server \<Rightarrow> 'w server" where
  "completeInvocationWork hk t v b st =
     complete_close hk t v b
       (complete_imports hk t (inv_id v) b
         (complete_audit t (inv_id v) b (complete_row hk t v b st)))"

definition completeInvocation ::
    "'w hooks \<Rightarrow> instant \<Rightarrow> string \<Rightarrow> completion \<Rightarrow> 'w server \<Rightarrow> 'w server" where
  "completeInvocation hk t i b st =
     (case find_inv i st of
        None \<Rightarrow> st
      | Some v \<Rightarrow>
          if is_terminal (inv_status v) then st
          else do_hook t (hk_completed hk) i JNull
                 (completeInvocationWork hk t v (effectiveBody v b) st))"

section \<open>Frame\<close>

lemma run_hook_frame [simp, frame]:
  "agents (snd (run_hook t h i r st)) = agents st"
  "device (snd (run_hook t h i r st)) = device st"
  "projects (snd (run_hook t h i r st)) = projects st"
  "users (snd (run_hook t h i r st)) = users st"
  "worktrees (snd (run_hook t h i r st)) = worktrees st"
  "work_items (snd (run_hook t h i r st)) = work_items st"
  "traces (snd (run_hook t h i r st)) = traces st" "spans (snd (run_hook t h i r st)) = spans st"
  "transcripts (snd (run_hook t h i r st)) = transcripts st"
  "audits (snd (run_hook t h i r st)) = audits st"
  "usages (snd (run_hook t h i r st)) = usages st"
  "compare_runs (snd (run_hook t h i r st)) = compare_runs st"
  "policy_records (snd (run_hook t h i r st)) = policy_records st"
  "approvals (snd (run_hook t h i r st)) = approvals st"
  "applications (snd (run_hook t h i r st)) = applications st"
  "http (snd (run_hook t h i r st)) = http st"
  "invocations (snd (run_hook t h i r st)) = invocations st"
  "refusals (snd (run_hook t h i r st)) = refusals st"
  "refusal_stats (snd (run_hook t h i r st)) = refusal_stats st"
  by (cases "find_inv i st"; simp add: run_hook_def Let_def case_prod_beta)+

lemma do_hook_frame [simp, frame]:
  "agents (do_hook t h i r st) = agents st" "device (do_hook t h i r st) = device st"
  "projects (do_hook t h i r st) = projects st" "users (do_hook t h i r st) = users st"
  "worktrees (do_hook t h i r st) = worktrees st"
  "work_items (do_hook t h i r st) = work_items st" "traces (do_hook t h i r st) = traces st"
  "spans (do_hook t h i r st) = spans st" "transcripts (do_hook t h i r st) = transcripts st"
  "audits (do_hook t h i r st) = audits st" "usages (do_hook t h i r st) = usages st"
  "compare_runs (do_hook t h i r st) = compare_runs st"
  "policy_records (do_hook t h i r st) = policy_records st"
  "approvals (do_hook t h i r st) = approvals st"
  "applications (do_hook t h i r st) = applications st" "http (do_hook t h i r st) = http st"
  "invocations (do_hook t h i r st) = invocations st"
  "refusals (do_hook t h i r st) = refusals st"
  "refusal_stats (do_hook t h i r st) = refusal_stats st"
  by (simp_all add: do_hook_def)

lemma attachApplicationResult_frame [simp, frame]:
  "agents (attachApplicationResult t i ids out st) = agents st"
  "device (attachApplicationResult t i ids out st) = device st"
  "projects (attachApplicationResult t i ids out st) = projects st"
  "users (attachApplicationResult t i ids out st) = users st"
  "worktrees (attachApplicationResult t i ids out st) = worktrees st"
  "work_items (attachApplicationResult t i ids out st) = work_items st"
  "traces (attachApplicationResult t i ids out st) = traces st"
  "spans (attachApplicationResult t i ids out st) = spans st"
  "transcripts (attachApplicationResult t i ids out st) = transcripts st"
  "usages (attachApplicationResult t i ids out st) = usages st"
  "compare_runs (attachApplicationResult t i ids out st) = compare_runs st"
  "policy_records (attachApplicationResult t i ids out st) = policy_records st"
  "approvals (attachApplicationResult t i ids out st) = approvals st"
  "http (attachApplicationResult t i ids out st) = http st"
  "world (attachApplicationResult t i ids out st) = world st"
  "refusals (attachApplicationResult t i ids out st) = refusals st"
  "refusal_stats (attachApplicationResult t i ids out st) = refusal_stats st"
  by (cases "find_inv i st"; simp add: attachApplicationResult_def Let_def)+

lemma import_step_frame [simp, frame]:
  "agents (import_step t h i r out st) = agents st"
  "device (import_step t h i r out st) = device st"
  "projects (import_step t h i r out st) = projects st"
  "users (import_step t h i r out st) = users st"
  "worktrees (import_step t h i r out st) = worktrees st"
  "work_items (import_step t h i r out st) = work_items st"
  "traces (import_step t h i r out st) = traces st"
  "spans (import_step t h i r out st) = spans st"
  "transcripts (import_step t h i r out st) = transcripts st"
  "usages (import_step t h i r out st) = usages st"
  "compare_runs (import_step t h i r out st) = compare_runs st"
  "policy_records (import_step t h i r out st) = policy_records st"
  "approvals (import_step t h i r out st) = approvals st"
  "http (import_step t h i r out st) = http st"
  "refusals (import_step t h i r out st) = refusals st"
  "refusal_stats (import_step t h i r out st) = refusal_stats st"
  by (simp_all add: import_step_def case_prod_beta)

lemma complete_row_frame [simp, frame]:
  "agents (complete_row hk t v b st) = agents st" "device (complete_row hk t v b st) = device st"
  "projects (complete_row hk t v b st) = projects st"
  "users (complete_row hk t v b st) = users st"
  "worktrees (complete_row hk t v b st) = worktrees st"
  "work_items (complete_row hk t v b st) = work_items st"
  "traces (complete_row hk t v b st) = traces st" "audits (complete_row hk t v b st) = audits st"
  "usages (complete_row hk t v b st) = usages st"
  "compare_runs (complete_row hk t v b st) = compare_runs st"
  "policy_records (complete_row hk t v b st) = policy_records st"
  "approvals (complete_row hk t v b st) = approvals st"
  "applications (complete_row hk t v b st) = applications st"
  "http (complete_row hk t v b st) = http st" "world (complete_row hk t v b st) = world st"
  "refusals (complete_row hk t v b st) = refusals st"
  "refusal_stats (complete_row hk t v b st) = refusal_stats st"
  by (simp_all add: complete_row_def Let_def case_prod_beta)

lemma complete_audit_frame [simp, frame]:
  "id_counter (complete_audit t i b st) = id_counter st"
  "issued_ids (complete_audit t i b st) = issued_ids st"
  "invocations (complete_audit t i b st) = invocations st"
  "events (complete_audit t i b st) = events st"
  "event_archive (complete_audit t i b st) = event_archive st"
  "event_retention (complete_audit t i b st) = event_retention st"
  "event_archiver (complete_audit t i b st) = event_archiver st"
  "refusals (complete_audit t i b st) = refusals st"
  "refusal_archive (complete_audit t i b st) = refusal_archive st"
  "refusal_archive_up (complete_audit t i b st) = refusal_archive_up st"
  "refusal_stats (complete_audit t i b st) = refusal_stats st"
  "refusal_since (complete_audit t i b st) = refusal_since st"
  "agents (complete_audit t i b st) = agents st" "device (complete_audit t i b st) = device st"
  "projects (complete_audit t i b st) = projects st" "users (complete_audit t i b st) = users st"
  "worktrees (complete_audit t i b st) = worktrees st"
  "work_items (complete_audit t i b st) = work_items st"
  "traces (complete_audit t i b st) = traces st" "spans (complete_audit t i b st) = spans st"
  "transcripts (complete_audit t i b st) = transcripts st"
  "compare_runs (complete_audit t i b st) = compare_runs st"
  "policy_records (complete_audit t i b st) = policy_records st"
  "approvals (complete_audit t i b st) = approvals st"
  "applications (complete_audit t i b st) = applications st"
  "http (complete_audit t i b st) = http st" "world (complete_audit t i b st) = world st"
  by (cases "find_inv i st"; simp add: complete_audit_def Let_def)+

lemma complete_imports_frame [simp, frame]:
  "agents (complete_imports hk t i b st) = agents st"
  "device (complete_imports hk t i b st) = device st"
  "projects (complete_imports hk t i b st) = projects st"
  "users (complete_imports hk t i b st) = users st"
  "worktrees (complete_imports hk t i b st) = worktrees st"
  "work_items (complete_imports hk t i b st) = work_items st"
  "traces (complete_imports hk t i b st) = traces st"
  "spans (complete_imports hk t i b st) = spans st"
  "transcripts (complete_imports hk t i b st) = transcripts st"
  "usages (complete_imports hk t i b st) = usages st"
  "compare_runs (complete_imports hk t i b st) = compare_runs st"
  "policy_records (complete_imports hk t i b st) = policy_records st"
  "approvals (complete_imports hk t i b st) = approvals st"
  "http (complete_imports hk t i b st) = http st"
  "refusals (complete_imports hk t i b st) = refusals st"
  "refusal_stats (complete_imports hk t i b st) = refusal_stats st"
  by (simp_all add: complete_imports_def Let_def case_prod_beta)

lemma complete_close_frame [simp, frame]:
  "agents (complete_close hk t v b st) = agents st"
  "device (complete_close hk t v b st) = device st"
  "projects (complete_close hk t v b st) = projects st"
  "users (complete_close hk t v b st) = users st"
  "worktrees (complete_close hk t v b st) = worktrees st"
  "work_items (complete_close hk t v b st) = work_items st"
  "traces (complete_close hk t v b st) = traces st"
  "spans (complete_close hk t v b st) = spans st"
  "transcripts (complete_close hk t v b st) = transcripts st"
  "audits (complete_close hk t v b st) = audits st"
  "usages (complete_close hk t v b st) = usages st"
  "policy_records (complete_close hk t v b st) = policy_records st"
  "approvals (complete_close hk t v b st) = approvals st"
  "applications (complete_close hk t v b st) = applications st"
  "http (complete_close hk t v b st) = http st"
  "invocations (complete_close hk t v b st) = invocations st"
  "refusals (complete_close hk t v b st) = refusals st"
  "refusal_stats (complete_close hk t v b st) = refusal_stats st"
  by (simp_all add: complete_close_def Let_def)

lemma find_inv_cong: "invocations st' = invocations st \<Longrightarrow> find_inv i st' = find_inv i st"
  by (simp add: find_inv_def)

lemma find_inv_completion [simp]:
  "find_inv i (snd (run_hook t h j r st)) = find_inv i st"
  "find_inv i (do_hook t h j r st) = find_inv i st"
  "find_inv i (complete_audit t j b st) = find_inv i st"
  "find_inv i (complete_close hk t v b st) = find_inv i st"
  by (rule find_inv_cong, simp)+

section \<open>What the importers may change of an invocation\<close>

text \<open>All the fields but \<open>options\<close> and \<open>result\<close>.\<close>

definition same_life :: "invocation \<Rightarrow> invocation \<Rightarrow> bool" where
  "same_life v v' \<longleftrightarrow> v' = v\<lparr>inv_options := inv_options v', inv_result := inv_result v'\<rparr>"

lemma same_life_refl [simp]: "same_life v v"
  by (simp add: same_life_def)

lemma same_life_trans: "same_life u v \<Longrightarrow> same_life v w \<Longrightarrow> same_life u w"
  by (cases u; cases v; cases w) (simp add: same_life_def)

lemma same_life_simps:
  assumes "same_life v v'"
  shows "inv_id v' = inv_id v" "inv_status v' = inv_status v" "inv_delivery v' = inv_delivery v"
    "inv_cancellation v' = inv_cancellation v" "inv_completedAt v' = inv_completedAt v"
    "inv_agentId v' = inv_agentId v" "inv_compareRunId v' = inv_compareRunId v"
    "inv_rootSpanId v' = inv_rootSpanId v" "inv_updatedAt v' = inv_updatedAt v"
    "inv_requestedBy v' = inv_requestedBy v"
  using assms by (cases v; cases v'; simp add: same_life_def)+

lemma same_life_attach: "same_life v (with_application_result meta r v)"
  by (cases v) (simp add: same_life_def with_application_result_def)

definition only_data :: "string \<Rightarrow> 'w server \<Rightarrow> 'w server \<Rightarrow> bool" where
  "only_data i st st' \<longleftrightarrow>
     list_all2 (\<lambda>v v'. same_life v v' \<and> (inv_id v \<noteq> i \<longrightarrow> v' = v)) (invocations st) (invocations st')"

lemma only_data_same [simp]: "invocations st' = invocations st \<Longrightarrow> only_data i st st'"
  by (simp add: only_data_def list.rel_refl)

lemma only_data_trans: "only_data i st st1 \<Longrightarrow> only_data i st1 st2 \<Longrightarrow> only_data i st st2"
  unfolding only_data_def
  by (erule list_all2_trans [rotated], assumption) (auto intro: same_life_trans dest: same_life_simps(1))

lemma only_data_attach: "only_data i st (attachApplicationResult t i ids out st)"
proof -
  have "list_all2 (\<lambda>v v'. same_life v v' \<and> (inv_id v \<noteq> i \<longrightarrow> v' = v)) vs
      (upd_where (\<lambda>x. inv_id x = i) (with_application_result meta r) vs)" for vs meta r
    by (induction vs) (auto simp: same_life_attach)
  then show ?thesis
    by (cases "find_inv i st") (simp_all add: attachApplicationResult_def Let_def only_data_def list.rel_refl)
qed

lemma only_data_import: "only_data i st (import_step t h i r out st)"
  unfolding import_step_def case_prod_beta Let_def
  by (rule only_data_trans [OF only_data_same only_data_attach]) simp

lemma only_data_imports: "only_data i st (complete_imports hk t i b st)"
proof -
  have import: "only_data i x st' \<Longrightarrow> only_data i x (import_step t h i r out st')" for x st' h r out
    by (erule only_data_trans) (rule only_data_import)
  have hook: "only_data i x st' \<Longrightarrow> only_data i x (do_hook t h i r st')" for x st' h r
    by (erule only_data_trans) simp
  show ?thesis
    unfolding complete_imports_def Let_def case_prod_beta
    by (rule only_data_trans [OF _ only_data_attach]) (auto intro!: import hook)
qed

lemma only_data_find:
  assumes "only_data i st st'"
  shows "j \<noteq> i \<Longrightarrow> find_inv j st' = find_inv j st"
    and "find_inv i st = Some v \<Longrightarrow> \<exists>v'. find_inv i st' = Some v' \<and> same_life v v'"
    and "map inv_id (invocations st') = map inv_id (invocations st)"
proof -
  have rel: "list_all2 (\<lambda>v v'. same_life v v' \<and> (inv_id v \<noteq> i \<longrightarrow> v' = v)) vs vs' \<Longrightarrow>
      (j \<noteq> i \<longrightarrow> List.find (\<lambda>x. inv_id x = j) vs' = List.find (\<lambda>x. inv_id x = j) vs)
      \<and> (\<forall>v. List.find (\<lambda>x. inv_id x = i) vs = Some v \<longrightarrow>
            (\<exists>v'. List.find (\<lambda>x. inv_id x = i) vs' = Some v' \<and> same_life v v'))
      \<and> map inv_id vs' = map inv_id vs" for vs vs' j
    by (induction vs vs' rule: list_all2_induct) (auto dest: same_life_simps(1))
  from rel [of "invocations st" "invocations st'"] assms
  show "j \<noteq> i \<Longrightarrow> find_inv j st' = find_inv j st"
    and "find_inv i st = Some v \<Longrightarrow> \<exists>v'. find_inv i st' = Some v' \<and> same_life v v'"
    and "map inv_id (invocations st') = map inv_id (invocations st)"
    by (auto simp: only_data_def find_inv_def)
qed

section \<open>The row of the completed invocation\<close>

lemma terminalStatus_terminal [simp]: "is_terminal (terminalStatus b)"
  by (simp add: terminalStatus_def)

definition completed_as :: "instant \<Rightarrow> inv_status \<Rightarrow> invocation \<Rightarrow> invocation \<Rightarrow> bool" where
  "completed_as t s v v' \<longleftrightarrow>
     inv_id v' = inv_id v \<and> inv_status v' = s \<and> inv_completedAt v' = Some t \<and> inv_updatedAt v' = t
     \<and> inv_delivery v' = inv_delivery v \<and> inv_agentId v' = inv_agentId v
     \<and> inv_compareRunId v' = inv_compareRunId v \<and> inv_rootSpanId v' = inv_rootSpanId v
     \<and> inv_requestedBy v' = inv_requestedBy v
     \<and> (if s = Cancelled then can_state (inv_cancellation v') = CApplied
          \<and> can_appliedAt (inv_cancellation v') = Some t
        else inv_cancellation v' = inv_cancellation v)"

lemma completed_as_same_life: "completed_as t s v v' \<Longrightarrow> same_life v' v'' \<Longrightarrow> completed_as t s v v''"
  by (auto simp: completed_as_def same_life_simps split: if_splits)

lemma completed_as_set_terminal:
  "completed_as t s v (set_terminal t s msg r (v\<lparr>inv_status := s, inv_result := r\<rparr>))"
  by (simp add: completed_as_def set_terminal_def)

lemma complete_row_find:
  assumes "find_inv (inv_id v) st = Some v"
  shows "\<exists>v'. find_inv (inv_id v) (complete_row hk t v b st) = Some v'
           \<and> completed_as t (terminalStatus b) v v'"
    and "j \<noteq> inv_id v \<Longrightarrow> find_inv j (complete_row hk t v b st) = find_inv j st"
    and "map inv_id (invocations (complete_row hk t v b st)) = map inv_id (invocations st)"
proof -
  have tr: "find_inv k (st\<lparr>transcripts := ts\<rparr>) = find_inv k st" for k ts
    by (simp add: find_inv_def)
  have id: "inv_id (set_terminal t s m r x) = inv_id x" for s m r x
    by (simp add: set_terminal_def)
  show "\<exists>v'. find_inv (inv_id v) (complete_row hk t v b st) = Some v'
           \<and> completed_as t (terminalStatus b) v v'"
    using assms
    by (simp add: complete_row_def Let_def case_prod_beta find_inv_upd_inv id tr
        completed_as_set_terminal)
  show "j \<noteq> inv_id v \<Longrightarrow> find_inv j (complete_row hk t v b st) = find_inv j st"
    by (simp add: complete_row_def Let_def case_prod_beta find_inv_upd_inv id tr)
  show "map inv_id (invocations (complete_row hk t v b st)) = map inv_id (invocations st)"
    by (simp add: complete_row_def Let_def case_prod_beta id)
qed

lemma completeInvocation_row:
  assumes "find_inv i st = Some v" and "\<not> is_terminal (inv_status v)"
  shows "\<exists>v'. find_inv i (completeInvocation hk t i b st) = Some v'
           \<and> completed_as t (terminalStatus (effectiveBody v b)) v v'"
    and "j \<noteq> i \<Longrightarrow> find_inv j (completeInvocation hk t i b st) = find_inv j st"
    and "map inv_id (invocations (completeInvocation hk t i b st)) = map inv_id (invocations st)"
proof -
  have vi: "inv_id v = i" using assms(1) by (auto dest: find_inv_SomeD)
  let ?b = "effectiveBody v b"
  let ?row = "complete_row hk t v ?b st"
  let ?imp = "complete_imports hk t i ?b (complete_audit t i ?b ?row)"
  have eq: "invocations (completeInvocation hk t i b st) = invocations ?imp"
    using assms vi by (simp add: completeInvocation_def completeInvocationWork_def)
  have fi: "find_inv k (completeInvocation hk t i b st) = find_inv k ?imp" for k
    by (rule find_inv_cong [OF eq])
  note od = only_data_find [OF only_data_imports [of i "complete_audit t i ?b ?row" hk t ?b]]
  from complete_row_find(1) [of v st hk t ?b] assms(1) vi
  obtain v' where v': "find_inv i ?row = Some v'" "completed_as t (terminalStatus ?b) v v'" by auto
  from od(2) [of v'] v'(1)
  obtain v'' where "find_inv i ?imp = Some v''" "same_life v' v''" by auto
  then show "\<exists>v'. find_inv i (completeInvocation hk t i b st) = Some v'
           \<and> completed_as t (terminalStatus ?b) v v'"
    using v'(2) by (auto simp: fi intro: completed_as_same_life)
  show "j \<noteq> i \<Longrightarrow> find_inv j (completeInvocation hk t i b st) = find_inv j st"
    using od(1) [of j] complete_row_find(2) [of v st j hk t ?b] assms(1) vi by (simp add: fi)
  show "map inv_id (invocations (completeInvocation hk t i b st)) = map inv_id (invocations st)"
    using od(3) complete_row_find(3) [of v st hk t ?b] assms(1) vi by (simp add: eq)
qed

lemma completeInvocation_terminal:
  "find_inv i st = Some v \<Longrightarrow> is_terminal (inv_status v) \<Longrightarrow> completeInvocation hk t i b st = st"
  by (simp add: completeInvocation_def)

lemma completeInvocation_missing: "find_inv i st = None \<Longrightarrow> completeInvocation hk t i b st = st"
  by (simp add: completeInvocation_def)

lemma completeInvocation_env [simp, frame]:
  "agents (completeInvocation hk t i b st) = agents st"
  "device (completeInvocation hk t i b st) = device st"
  "approvals (completeInvocation hk t i b st) = approvals st"
  "policy_records (completeInvocation hk t i b st) = policy_records st"
  "http (completeInvocation hk t i b st) = http st"
  "work_items (completeInvocation hk t i b st) = work_items st"
  "users (completeInvocation hk t i b st) = users st"
  "projects (completeInvocation hk t i b st) = projects st"
  by (cases "find_inv i st"; simp add: completeInvocation_def completeInvocationWork_def)+

lemma completeInvocation_other:
  "j \<noteq> i \<Longrightarrow> find_inv j (completeInvocation hk t i b st) = find_inv j st"
proof (cases "find_inv i st")
  case None
  then show ?thesis by (simp add: completeInvocation_missing)
next
  case (Some v)
  then show "j \<noteq> i \<Longrightarrow> ?thesis"
    by (cases "is_terminal (inv_status v)")
      (simp_all add: completeInvocation_terminal completeInvocation_row(2))
qed

lemma completeInvocation_ids:
  "map inv_id (invocations (completeInvocation hk t i b st)) = map inv_id (invocations st)"
proof (cases "find_inv i st")
  case None
  then show ?thesis by (simp add: completeInvocation_missing)
next
  case (Some v)
  then show ?thesis
    by (cases "is_terminal (inv_status v)")
      (simp_all add: completeInvocation_terminal completeInvocation_row(3))
qed

text \<open>A completion is final: once an invocation has been completed, by the executor, by the
  cancel reclaim or by any other report, a later completion with any body at any time changes
  nothing at all, and no other invocation is touched by either.\<close>

theorem completion_final:
  "completeInvocation hk' t' i b' (completeInvocation hk t i b st) =
     (case find_inv i st of
        None \<Rightarrow> st
      | Some v \<Rightarrow> completeInvocation hk t i b st)
   \<and> (j = i \<or> find_inv j (completeInvocation hk t i b st) = find_inv j st)"
proof (cases "find_inv i st")
  case None
  then show ?thesis by (simp add: completeInvocation_missing)
next
  case (Some v)
  show ?thesis
  proof (cases "is_terminal (inv_status v)")
    case True
    with Some show ?thesis by (simp add: completeInvocation_terminal)
  next
    case False
    from completeInvocation_row(1) [OF Some False]
    obtain v' where v': "find_inv i (completeInvocation hk t i b st) = Some v'"
      and s: "completed_as t (terminalStatus (effectiveBody v b)) v v'" by blast
    have "is_terminal (inv_status v')" using s by (simp add: completed_as_def)
    from completeInvocation_terminal [OF v' this] completeInvocation_row(2) [OF Some False, of j]
    show ?thesis using Some by (cases "j = i") simp_all
  qed
qed

section \<open>What a completion records\<close>

lemma reported_frame:
  "reported ty i (st\<lparr>world := w\<rparr>) = reported ty i st"
  "reported ty i (st\<lparr>transcripts := ts\<rparr>) = reported ty i st"
  "reported ty i (st\<lparr>audits := as, applications := ps\<rparr>) = reported ty i st"
  "reported ty i (upd_inv j f st) = reported ty i st"
  "reported ty i (completeRootSpan t v s st) = reported ty i st"
  "reported ty i (complete_audit t j b st) = reported ty i st"
  "reported ty i (updateCompareRunForInvocation t v st) = reported ty i st"
  by (rule reported_cong, simp, simp, simp)+

lemma reported_run_hook:
  "i \<noteq> [] \<Longrightarrow> reported ty i st \<Longrightarrow> reported ty i (snd (run_hook t h j r st))"
  by (cases "find_inv j st")
     (simp_all add: run_hook_def Let_def case_prod_beta reported_append_events reported_frame)

lemma reported_do_hook:
  "i \<noteq> [] \<Longrightarrow> reported ty i st \<Longrightarrow> reported ty i (do_hook t h j r st)"
  by (simp add: do_hook_def reported_run_hook)

lemma reported_attach:
  "i \<noteq> [] \<Longrightarrow> reported ty i st \<Longrightarrow> reported ty i (attachApplicationResult t j ids out st)"
  by (cases "find_inv j st")
     (simp_all add: attachApplicationResult_def Let_def reported_frame reported_append)

lemma reported_import:
  "i \<noteq> [] \<Longrightarrow> reported ty i st \<Longrightarrow> reported ty i (import_step t h j r out st)"
  by (simp add: import_step_def case_prod_beta Let_def reported_attach reported_run_hook)

lemma reported_complete_row:
  "inv_id v \<noteq> [] \<Longrightarrow> reported (completion_event (terminalStatus b)) (inv_id v) (complete_row hk t v b st)"
  by (simp add: complete_row_def Let_def case_prod_beta)
     (metis (no_types, lifting) reported_new event_in.select_convs(1,2))

lemma reported_imports:
  "i \<noteq> [] \<Longrightarrow> reported ty i st \<Longrightarrow> reported ty i (complete_imports hk t j b st)"
  by (simp add: complete_imports_def Let_def case_prod_beta reported_attach reported_import
      reported_run_hook reported_do_hook)

lemma reported_close:
  "i \<noteq> [] \<Longrightarrow> reported ty i st \<Longrightarrow> reported ty i (complete_close hk t v b st)"
  by (simp add: complete_close_def Let_def reported_frame reported_do_hook)

text \<open>The audit of this completion is the last row, with its status.\<close>

definition audited :: "audit list \<Rightarrow> string \<Rightarrow> inv_status \<Rightarrow> 'w server \<Rightarrow> bool" where
  "audited xs i s st \<longleftrightarrow> (\<exists>a. audits st = xs @ [a] \<and> au_invocationId a = i \<and> au_status a = s)"

lemma audited_attach: "audited xs i s st \<Longrightarrow> audited xs i s (attachApplicationResult t j ids out st)"
  by (cases "find_inv j st")
     (auto simp: audited_def attachApplicationResult_def Let_def set_last_def)

lemma audited_cong: "audits st' = audits st \<Longrightarrow> audited xs i s st' = audited xs i s st"
  by (simp add: audited_def)

lemma audited_import: "audited xs i s st \<Longrightarrow> audited xs i s (import_step t h j r out st)"
  unfolding import_step_def case_prod_beta Let_def
  by (rule audited_attach) (simp add: audited_cong [of "snd (run_hook t h j r st)" st])

lemma audited_hook: "audited xs i s (do_hook t h j r st) = audited xs i s st"
  by (rule audited_cong) simp

lemma audited_imports: "audited xs i s st \<Longrightarrow> audited xs i s (complete_imports hk t j b st)"
  unfolding complete_imports_def Let_def case_prod_beta
  by (auto intro!: audited_attach audited_import
      simp: audited_hook audited_cong [of "snd (run_hook t h j r st)" st for t h j r st])

lemma complete_audit_effect:
  assumes "find_inv i st = Some v"
  shows "audited (audits st) i (inv_status v) (complete_audit t i b st)"
    and "usage_count aid (complete_audit t i b st)
      = (if aid = inv_agentId v then usage_count aid st + 1 else usage_count aid st)"
    and "usages_ok (usages st) \<Longrightarrow> is_terminal (inv_status v) \<Longrightarrow> usages_ok (usages (complete_audit t i b st))"
proof -
  have vi: "inv_id v = i" using assms by (auto dest: find_inv_SomeD)
  show "audited (audits st) i (inv_status v) (complete_audit t i b st)"
    using assms vi by (simp add: complete_audit_def Let_def audited_def push_audit_def createAuditSummary_def)
  have "usage_count a (push_audit x st) = usage_count a st" for a x
    by (simp add: usage_count_def)
  then show "usage_count aid (complete_audit t i b st)
      = (if aid = inv_agentId v then usage_count aid st + 1 else usage_count aid st)"
    using assms by (simp add: complete_audit_def Let_def recordAgentUsage_count)
  show "usages_ok (usages st) \<Longrightarrow> is_terminal (inv_status v) \<Longrightarrow> usages_ok (usages (complete_audit t i b st))"
    using assms by (simp add: complete_audit_def Let_def recordAgentUsage_ok)
qed

text \<open>C2: completing an invocation that is not yet terminal makes it terminal with the reported
  status (\<open>timed_out\<close> whatever is reported, once the server deadline asked for the interrupt), keeps
  its delivery and identity, records the cancellation as applied exactly when it ends cancelled, logs
  the matching event, appends exactly one audit summary with that status and counts one more run for
  its agent.\<close>

theorem completion_effect:
  assumes "find_inv i st = Some v" and "\<not> is_terminal (inv_status v)" and "i \<noteq> []"
  shows "\<exists>v'. let st' = completeInvocation hk t i b st; s = inv_status v'
      in find_inv i st' = Some v'
         \<and> (if Option.bind (inv_deadline v) (Some \<circ> dl_state) = Some ''interrupt_requested''
             then s = TimedOut else s = terminalStatus b)
         \<and> completed_as t s v v'
         \<and> reported (completion_event s) i st'
         \<and> audited (audits st) i s st'
         \<and> usage_count (inv_agentId v) st' = usage_count (inv_agentId v) st + 1
         \<and> (usages_ok (usages st) \<longrightarrow> usages_ok (usages st'))"
proof -
  have vi: "inv_id v = i" using assms(1) by (auto dest: find_inv_SomeD)
  let ?b = "effectiveBody v b" and ?st' = "completeInvocation hk t i b st"
  let ?row = "complete_row hk t v ?b st"
  let ?aud = "complete_audit t i ?b ?row"
  have st': "?st' = do_hook t (hk_completed hk) i JNull
      (complete_close hk t v ?b (complete_imports hk t i ?b ?aud))"
    using assms vi by (simp add: completeInvocation_def completeInvocationWork_def)
  obtain v' where v': "find_inv i ?st' = Some v'" "completed_as t (terminalStatus ?b) v v'"
    using completeInvocation_row(1) [OF assms(1,2)] by blast
  obtain r where r: "find_inv i ?row = Some r" "completed_as t (terminalStatus ?b) v r"
    using complete_row_find(1) [of v st hk t ?b] assms(1) vi by auto
  have s: "inv_status v' = terminalStatus ?b" "inv_status r = terminalStatus ?b"
    "inv_agentId r = inv_agentId v"
    using v'(2) r(2) by (simp_all add: completed_as_def)
  have deadline: "if Option.bind (inv_deadline v) (Some \<circ> dl_state) = Some ''interrupt_requested''
      then terminalStatus ?b = TimedOut else terminalStatus ?b = terminalStatus b"
    by (cases "inv_deadline v") (simp_all add: effectiveBody_def terminalStatus_def)
  have rep: "reported (completion_event (terminalStatus ?b)) i ?st'"
    unfolding st' using reported_complete_row [of v ?b hk t st] assms(3) vi
    by (simp add: reported_do_hook reported_close reported_imports reported_frame)
  have "audited (audits st) i (terminalStatus ?b) ?aud"
    using complete_audit_effect(1) [OF r(1), of t ?b] s by simp
  then have aud: "audited (audits st) i (terminalStatus ?b) ?st'"
    unfolding st' by (simp add: audited_hook audited_cong [of "complete_close hk t v ?b x" x for x] audited_imports)
  have uc: "usage_count a ?st' = usage_count a ?aud" for a
    by (simp add: usage_count_def st')
  have "usage_count (inv_agentId v) ?row = usage_count (inv_agentId v) st"
    by (simp add: usage_count_def)
  then have cnt: "usage_count (inv_agentId v) ?st' = usage_count (inv_agentId v) st + 1"
    using complete_audit_effect(2) [OF r(1), of "inv_agentId v" t ?b] s by (simp add: uc)
  have "usages_ok (usages st) \<longrightarrow> usages_ok (usages ?st')"
    using complete_audit_effect(3) [OF r(1), of t ?b] s by (simp add: st')
  with v' s deadline rep aud cnt show ?thesis by (auto simp: Let_def)
qed

section \<open>A concrete server for the witnesses\<close>

text \<open>One local CLI agent on one device, callbacks that do nothing, and the given invocations.\<close>

definition null_hook :: "'w hook" where
  "null_hook t v r a w = ([], [], w)"

definition null_hooks :: "'w hooks" where
  "null_hooks = \<lparr>hk_sanitizeIntent = (\<lambda>r. r), hk_stampResult = (\<lambda>v r. r),
     hk_transcript = (\<lambda>t v r ts. (ts, r, [])), hk_ledger = null_hook,
     hk_roundUsage = (\<lambda>ids. null_hook), hk_ccusage = null_hook, hk_codexReview = null_hook,
     hk_claudeReview = null_hook, hk_claudeApply = null_hook, hk_codexExec = null_hook,
     hk_application = null_hook, hk_closeSessions = (\<lambda>s r. null_hook),
     hk_releaseReservations = null_hook, hk_completed = null_hook,
     hk_approved = null_hook, hk_denied = null_hook, hk_notifyCancellation = (\<lambda>d w. w)\<rparr>"

definition demo_agent :: agent where
  "demo_agent = \<lparr>ag_id = ''agt_demo_cli'', ag_name = ''Demo'', ag_status = ''active'',
     ag_lifecycle = None, ag_health = None,
     ag_location = \<lparr>loc_type = ''local_device'', loc_deviceId = Some ''dev_1''\<rparr>,
     ag_adapter = \<lparr>ad_type = ''cli'', ad_transport = None, ad_command = Some ''demo'', ad_args = [],
       ad_cancellation = None, ad_workingDirectory = None, ad_workingDirectoryPolicy = None,
       ad_permissionMode = None, ad_claudeRuntime = None, ad_models = []\<rparr>,
     ag_capabilities = [], ag_economics = None,
     ag_notes = \<lparr>rn_risk = None, rn_data = None, rn_cost = None, rn_cancellation = None\<rparr>\<rparr>"

definition demo_inv :: "string \<Rightarrow> inv_status \<Rightarrow> delivery_state \<Rightarrow> nat \<Rightarrow> invocation" where
  "demo_inv i s d n = \<lparr>inv_id = i, inv_idempotencyKey = None, inv_compareRunId = None,
     inv_agentId = ''agt_demo_cli'', inv_terminalId = Some ''dev_1'', inv_projectId = None,
     inv_worktreeId = None, inv_requestedBy = ''usr_local'', inv_status = s,
     inv_delivery = \<lparr>del_id = ''del_1'', del_deviceId = Some ''dev_1'', del_state = d,
       del_idempotencyKey = ''idem'', del_leaseExpiresAt = Some 50, del_attempts = n,
       del_lastDispatchAt = None, del_acknowledgedAt = None, del_bridgeCursor = None,
       del_bridgeSessionId = None, del_supersession = None\<rparr>,
     inv_cancellation = \<lparr>can_state = CNone, can_requestedBy = None, can_requestedAt = None,
       can_reason = None, can_appliedAt = None, can_message = None\<rparr>,
     inv_input = JObj [(''task'', JStr ''t'')],
     inv_options = JObj [(''metadata'', JObj [(''worktreePath'', JStr i)])],
     inv_result = JNull, inv_policyDecisionId = None, inv_approvalRequestId = None,
     inv_traceId = None, inv_rootSpanId = None, inv_createdAt = 1, inv_startedAt = None,
     inv_completedAt = None, inv_updatedAt = 1, inv_deadline = None, inv_notes = no_notes\<rparr>"

definition demo_server_with :: "'w \<Rightarrow> invocation list \<Rightarrow> 'w server" where
  "demo_server_with w invs = \<lparr>id_counter = 1, issued_ids = [], invocations = invs, events = [],
     event_archive = [],
     event_retention = \<lparr>ret_truncatedIds = [], ret_globalTruncated = False,
       ret_lastErrorAt = None, ret_lastError = None\<rparr>,
     event_archiver = (\<lambda>rows. ArchiveOk), refusals = [], refusal_archive = [],
     refusal_archive_up = (\<lambda>rows. True), refusal_stats = [], refusal_since = None,
     agents = [demo_agent],
     device = \<lparr>dv_id = ''dev_1'', dv_maxConcurrency = Some 2, dv_bridgeSessionId = None, dv_unlinkState = ''linked''\<rparr>,
     projects = [], users = [], worktrees = [], work_items = [], traces = [], spans = [], rounds = [], tool_records = [],
     transcripts = [], audits = [], usages = [], compare_runs = [], policy_records = [],
     approvals = [], applications = [],
     http = \<lparr>hr_live = [], hr_pending = [], hr_scheduled = [], hr_activeCount = 0, hr_activeByAgent = [],
       hr_max = 8, hr_perAgentMax = 2\<rparr>, world = w\<rparr>"

abbreviation demo_server :: "invocation list \<Rightarrow> unit server" where
  "demo_server \<equiv> demo_server_with ()"

lemmas demo_server_def = demo_server_with_def

lemma demo_inv_simps [simp]:
  "inv_id (demo_inv i s d n) = i" "inv_status (demo_inv i s d n) = s"
  "del_state (inv_delivery (demo_inv i s d n)) = d" "del_attempts (inv_delivery (demo_inv i s d n)) = n"
  "inv_agentId (demo_inv i s d n) = ''agt_demo_cli''" "inv_createdAt (demo_inv i s d n) = 1"
  "inv_deadline (demo_inv i s d n) = None" "del_supersession (inv_delivery (demo_inv i s d n)) = None"
  "del_deviceId (inv_delivery (demo_inv i s d n)) = Some ''dev_1''"
  "inv_approvalRequestId (demo_inv i s d n) = None"
  by (simp_all add: demo_inv_def)

lemma demo_server_simps [simp]:
  "invocations (demo_server_with w vs) = vs" "agents (demo_server_with w vs) = [demo_agent]"
  "approvals (demo_server_with w vs) = []" "usages (demo_server_with w vs) = []"
  "dv_id (device (demo_server_with w vs)) = ''dev_1''"
  "dv_maxConcurrency (device (demo_server_with w vs)) = Some 2"
  "projects (demo_server_with w vs) = []" "users (demo_server_with w vs) = []"
  "work_items (demo_server_with w vs) = []" "world (demo_server_with w vs) = w"
  by (simp_all add: demo_server_def)

lemma demo_find:
  "find_inv i (demo_server (demo_inv i s d n # vs)) = Some (demo_inv i s d n)"
  by (simp add: find_inv_def)

theorem completion_effect_witness:
  "\<exists>v'. find_inv ''inv_1'' (completeInvocation null_hooks 9 ''inv_1''
            \<lparr>bd_status = Some ''failed'', bd_summary = None, bd_result = JNull, bd_cost = JNull\<rparr>
            (demo_server [demo_inv ''inv_1'' Running DAcknowledged 1])) = Some v'
        \<and> inv_status v' = Failed"
proof -
  let ?st = "demo_server [demo_inv ''inv_1'' Running DAcknowledged 1]"
  let ?b = "\<lparr>bd_status = Some ''failed'', bd_summary = None, bd_result = JNull, bd_cost = JNull\<rparr>"
  have "\<not> is_terminal (inv_status (demo_inv ''inv_1'' Running DAcknowledged 1))"
    by simp
  from completion_effect [OF demo_find this, where hk = null_hooks and t = 9 and b = ?b]
  obtain v' where "find_inv ''inv_1'' (completeInvocation null_hooks 9 ''inv_1'' ?b ?st) = Some v'"
    and "inv_status v' = terminalStatus ?b"
    by (auto simp: Let_def)
  then show ?thesis by (simp add: terminalStatus_def)
qed

end
