(* ===== verification/Budget.thy ===== *)
theory Budget
  imports Completion
begin

text \<open>
  The budget part of services/m3.mjs: spend of a project and of a team from the ledger, the admission
  gate, and the reservations (holds) that make concurrent admissions see each other; with the usage
  quota check.  The tables are the \<open>world\<close> of the server state.  An amount is a number of
  micro-dollars: \<open>roundUsd\<close> keeps six decimals, so every amount the code adds is a whole number of them (also in event data).
\<close>

section \<open>State\<close>

record ledger_entry =
  le_id :: string
  le_projectId :: "string option"
  le_status :: string
  le_amount :: "int option"
  le_amountSource :: "string option"
  le_userId :: string
  le_teamId :: "string option"
  le_agentId :: "string option"
  le_invocationId :: "string option"
  le_autoRunId :: json
  le_localIssueId :: json
  le_executionChainId :: json
  le_sourceType :: string
  le_sourceRecordId :: string
  le_economicModel :: string
  le_currency :: string
  le_costOwner :: string
  le_budgetPoolId :: "string option"
  le_model :: string
  le_provider :: string
  le_billable :: bool
  le_createdAt :: instant
  le_finalizedAt :: "instant option"

record budget =
  bg_id :: string
  bg_projectId :: "string option"
  bg_teamId :: "string option"
  bg_name :: string
  bg_limitUsd :: int
  bg_policy :: string
  bg_createdAt :: instant
  bg_updatedAt :: instant

record reservation =
  rv_id :: string
  rv_projectId :: "string option"
  rv_teamId :: "string option"
  rv_amountUsd :: int
  rv_invocationId :: "string option"
  rv_autoRunId :: "string option"
  rv_status :: string
  rv_createdAt :: instant
  rv_settledAt :: "instant option"
  rv_outcome :: "string option"

record team =
  tm_id :: string
  tm_name :: string

record quota_policy =
  qp_id :: string
  qp_status :: string
  qp_subjectId :: string
  qp_provider :: string
  qp_model :: string
  qp_providerMode :: string
  qp_subjectType :: string
  qp_teamId :: "string option"
  qp_currency :: string
  qp_costOwner :: string
  qp_meter :: string
  qp_enforcement :: string
  qp_limit :: int
  qp_used :: int
  qp_updatedAt :: instant

record finance =
  fin_currentProjectId :: "string option"
  fin_teams :: "team list"
  fin_ledger :: "ledger_entry list"
  fin_budgets :: "budget list"
  fin_reservations :: "reservation list"
  fin_quotas :: "quota_policy list"

type_synonym 'a fin_server = "'a finance_scheme server"

definition upd_fin :: "('a finance_scheme \<Rightarrow> 'a finance_scheme) \<Rightarrow> 'a fin_server \<Rightarrow> 'a fin_server" where
  "upd_fin f st = st\<lparr>world := f (world st)\<rparr>"

section \<open>Spend\<close>

definition teamOf :: "project \<Rightarrow> string" where
  "teamOf p = coalesce (pr_ownerTeamId p) ''team_local''"

definition find_project :: "string option \<Rightarrow> 'w server \<Rightarrow> project option" where
  "find_project i st = List.find (\<lambda>p. Some (pr_id p) = i) (projects st)"

definition currentProject :: "'a fin_server \<Rightarrow> project option" where
  "currentProject st =
     coalesce_opt (find_project (fin_currentProjectId (world st)) st)
       (case projects st of [] \<Rightarrow> None | p # _ \<Rightarrow> Some p)"

definition ledgerEntryAmount :: "ledger_entry \<Rightarrow> int" where
  "ledgerEntryAmount e = (case le_amount e of Some a \<Rightarrow> if 0 < a then a else 0 | None \<Rightarrow> 0)"

definition ledgerAmountSource :: "ledger_entry \<Rightarrow> string" where
  "ledgerAmountSource e =
     (if ledgerEntryAmount e \<le> 0 then ''unknown''
      else if le_amountSource e = Some ''reported'' \<or> le_status e = ''finalized'' then ''reported''
      else if le_amountSource e = Some ''estimated'' \<or> le_status e = ''estimated'' then ''estimated''
      else ''reported'')"

record spend =
  sd_finalizedUsd :: int
  sd_estimatedUsd :: int

definition spentUsd :: "spend \<Rightarrow> int" where
  "spentUsd s = sd_finalizedUsd s + sd_estimatedUsd s"

definition add_entry :: "ledger_entry \<Rightarrow> spend \<Rightarrow> spend" where
  "add_entry e s =
     (if ledgerAmountSource e = ''unknown'' then s
      else if ledgerAmountSource e = ''estimated''
      then s\<lparr>sd_estimatedUsd := sd_estimatedUsd s + ledgerEntryAmount e\<rparr>
      else s\<lparr>sd_finalizedUsd := sd_finalizedUsd s + ledgerEntryAmount e\<rparr>)"

definition entry_project :: "'a fin_server \<Rightarrow> ledger_entry \<Rightarrow> string option" where
  "entry_project st e =
     coalesce_opt (le_projectId e)
       (coalesce_opt (fin_currentProjectId (world st))
         (case projects st of [] \<Rightarrow> None | p # _ \<Rightarrow> Some (pr_id p)))"

definition ledgerSpendForProject :: "string option \<Rightarrow> 'a fin_server \<Rightarrow> spend" where
  "ledgerSpendForProject pid st =
     fold add_entry
       (filter (\<lambda>e. entry_project st e = pid \<and> le_status e \<notin> {''voided'', ''cancelled''})
         (fin_ledger (world st)))
       \<lparr>sd_finalizedUsd = 0, sd_estimatedUsd = 0\<rparr>"

definition active :: "reservation \<Rightarrow> bool" where
  "active r \<longleftrightarrow> rv_status r = ''active''"

definition held :: "(reservation \<Rightarrow> bool) \<Rightarrow> reservation list \<Rightarrow> int" where
  "held P rs = sum_list (map rv_amountUsd (filter (\<lambda>r. active r \<and> P r) rs))"

definition activeReservedForProject :: "string option \<Rightarrow> 'a fin_server \<Rightarrow> int" where
  "activeReservedForProject pid st = held (\<lambda>r. rv_projectId r = pid) (fin_reservations (world st))"

definition in_team :: "string \<Rightarrow> 'a fin_server \<Rightarrow> string option \<Rightarrow> bool" where
  "in_team team st pid \<longleftrightarrow> list_ex (\<lambda>p. teamOf p = team \<and> Some (pr_id p) = pid) (projects st)"

definition activeReservedForTeam :: "string \<Rightarrow> 'a fin_server \<Rightarrow> int" where
  "activeReservedForTeam team st = held (\<lambda>r. in_team team st (rv_projectId r)) (fin_reservations (world st))"

section \<open>Status and gate\<close>

record budget_status =
  bst_exists :: bool
  bst_limitUsd :: "int option"
  bst_policy :: string
  bst_spentUsd :: int
  bst_reservedUsd :: int
  bst_admissionUsd :: int
  bst_remainingUsd :: "int option"
  bst_over :: bool
  bst_admissionOver :: bool

definition budgetStatusFor :: "string option \<Rightarrow> 'a fin_server \<Rightarrow> budget_status" where
  "budgetStatusFor pid st =
     (let b = List.find (\<lambda>b. bg_projectId b = pid) (fin_budgets (world st));
          spent = spentUsd (ledgerSpendForProject pid st);
          reserved = activeReservedForProject pid st;
          limit = map_option bg_limitUsd b
      in \<lparr>bst_exists = (b \<noteq> None), bst_limitUsd = limit,
          bst_policy = (case b of Some x \<Rightarrow> bg_policy x | None \<Rightarrow> ''warn''),
          bst_spentUsd = spent, bst_reservedUsd = reserved, bst_admissionUsd = spent + reserved,
          bst_remainingUsd = map_option (\<lambda>l. l - spent) limit,
          bst_over = (case limit of Some l \<Rightarrow> l < spent | None \<Rightarrow> False),
          bst_admissionOver = (case limit of Some l \<Rightarrow> l < spent + reserved | None \<Rightarrow> False)\<rparr>)"

definition team_spend :: "string \<Rightarrow> 'a fin_server \<Rightarrow> int" where
  "team_spend team st =
     sum_list (map (\<lambda>p. spentUsd (ledgerSpendForProject (Some (pr_id p)) st))
       (filter (\<lambda>p. teamOf p = team) (projects st)))"

text \<open>A team has a row of \<open>teamBudgetStatuses\<close> when it owns a project.\<close>

definition teamBudgetStatusFor :: "string \<Rightarrow> 'a fin_server \<Rightarrow> budget_status option" where
  "teamBudgetStatusFor team st =
     (if \<not> list_ex (\<lambda>p. teamOf p = team) (projects st) then None
      else
        (let b = List.find (\<lambda>b. bg_teamId b = Some team) (fin_budgets (world st));
             spent = team_spend team st;
             reserved = activeReservedForTeam team st;
             limit = map_option bg_limitUsd b
         in Some \<lparr>bst_exists = (b \<noteq> None), bst_limitUsd = limit,
              bst_policy = (case b of Some x \<Rightarrow> bg_policy x | None \<Rightarrow> ''warn''),
              bst_spentUsd = spent, bst_reservedUsd = reserved, bst_admissionUsd = spent + reserved,
              bst_remainingUsd = map_option (\<lambda>l. l - (spent + reserved)) limit,
              bst_over = (case limit of Some l \<Rightarrow> l < spent | None \<Rightarrow> False),
              bst_admissionOver = (case limit of Some l \<Rightarrow> l < spent + reserved | None \<Rightarrow> False)\<rparr>))"

text \<open>How JavaScript prints a number with at most six decimals.\<close>

definition pad_left :: "nat \<Rightarrow> string \<Rightarrow> string" where
  "pad_left n s = replicate (n - length s) (CHR ''0'') @ s"

definition show_usd :: "int \<Rightarrow> string" where
  "show_usd x =
     (let m = nat \<bar>x\<bar>; w = show_nat (m div 1000000);
          frac = rev (dropWhile (\<lambda>c. c = CHR ''0'') (rev (pad_left 6 (show_nat (m mod 1000000)))))
      in (if x < 0 then ''-'' else []) @ w @ (if frac = [] then [] else CHR ''.'' # frac))"

definition exceeded_text :: "string \<Rightarrow> budget_status \<Rightarrow> string" where
  "exceeded_text who s =
     who @ '' budget exceeded ('' @ show_usd (bst_spentUsd s) @ '' of ''
       @ show_usd (coalesce (bst_limitUsd s) 0) @ '' USD) with a block policy.''"

definition blocking :: "budget_status \<Rightarrow> bool" where
  "blocking s \<longleftrightarrow> bst_exists s \<and> bst_policy s = ''block''"

text \<open>\<open>None\<close>: not blocked; otherwise the reason.\<close>

definition budgetGateForProject :: "string \<Rightarrow> 'a fin_server \<Rightarrow> string option" where
  "budgetGateForProject pid st =
     (case find_project (Some pid) st of
        None \<Rightarrow> None
      | Some p \<Rightarrow>
          (let s = budgetStatusFor (Some (pr_id p)) st
           in if blocking s \<and> bst_over s then Some (exceeded_text ''Project'' s)
              else (case teamBudgetStatusFor (teamOf p) st of
                      None \<Rightarrow> None
                    | Some t \<Rightarrow> if blocking t \<and> bst_over t then Some (exceeded_text ''Team'' t) else None)))"

section \<open>Reservations\<close>

definition capBudgetReservations :: "nat \<Rightarrow> reservation list \<Rightarrow> reservation list" where
  "capBudgetReservations limitSettled rs =
     filter active rs @ take limitSettled (filter (\<lambda>r. \<not> active r) rs)"

definition would_exceed_text :: "string \<Rightarrow> int \<Rightarrow> int \<Rightarrow> string" where
  "would_exceed_text who wouldBe limit =
     who @ '' budget would be exceeded ($'' @ show_usd wouldBe @ '' of $'' @ show_usd limit
       @ '' including in-flight runs).''"

definition project_refusal :: "string option \<Rightarrow> int \<Rightarrow> 'a fin_server \<Rightarrow> string option" where
  "project_refusal pid amount st =
     (let s = budgetStatusFor pid st
      in case bst_limitUsd s of
           None \<Rightarrow> None
         | Some l \<Rightarrow>
             (let wouldBe = bst_spentUsd s + bst_reservedUsd s + amount
              in if blocking s \<and> l < wouldBe then Some (would_exceed_text ''Project'' wouldBe l) else None))"

definition team_refusal :: "string option \<Rightarrow> int \<Rightarrow> 'a fin_server \<Rightarrow> string option" where
  "team_refusal team amount st =
     (case Option.bind team (\<lambda>t. teamBudgetStatusFor t st) of
        None \<Rightarrow> None
      | Some s \<Rightarrow>
          (case bst_limitUsd s of
             None \<Rightarrow> None
           | Some l \<Rightarrow>
               (let wouldBe = bst_spentUsd s + activeReservedForTeam (the team) st + amount
                in if blocking s \<and> l < wouldBe then Some (would_exceed_text ''Team'' wouldBe l) else None)))"

definition hold_refusal :: "string option \<Rightarrow> int \<Rightarrow> string option \<Rightarrow> 'a fin_server \<Rightarrow> string option" where
  "hold_refusal pid amount teamId st =
     (if 0 < amount \<and> coalesce pid [] \<noteq> []
      then coalesce_opt (project_refusal pid amount st)
             (team_refusal (coalesce_opt teamId (map_option teamOf (find_project pid st))) amount st)
      else None)"

definition reserved_event ::
    "string option \<Rightarrow> string option \<Rightarrow> int \<Rightarrow> string option \<Rightarrow> string \<Rightarrow> event_in" where
  "reserved_event iid auto amount pid rid =
     mk_ev iid ''budget_reserved'' ''info''
       (''Reserved $'' @ show_usd amount @ '' for '' @ coalesce pid ''unscoped'' @ '' (auto-run ''
         @ coalesce auto ''n/a'' @ '').'')
       (JObj [(''reservationId'', JStr rid), (''projectId'', jstr pid), (''autoRunId'', jstr auto),
             (''amountUsd'', JNum amount)])"

definition reserveBudget ::
    "instant \<Rightarrow> string option \<Rightarrow> int \<Rightarrow> string option \<Rightarrow> string option \<Rightarrow> string option \<Rightarrow> 'a fin_server
     \<Rightarrow> (string + string) \<times> 'a fin_server" where
  "reserveBudget t pid amountUsd iid auto teamId st =
     (let amount = max 0 amountUsd
      in case hold_refusal pid amount teamId st of
           Some reason \<Rightarrow> (Inl reason, st)
         | None \<Rightarrow>
             (let (rid, st1) = next_id ''bres'' st;
                  r = \<lparr>rv_id = rid, rv_projectId = pid,
                       rv_teamId = coalesce_opt teamId (map_option teamOf (find_project pid st)),
                       rv_amountUsd = amount, rv_invocationId = iid, rv_autoRunId = auto,
                       rv_status = ''active'', rv_createdAt = t, rv_settledAt = None, rv_outcome = None\<rparr>
              in (Inr rid,
                  append_event t (reserved_event iid auto amount pid rid)
                    (upd_fin (\<lambda>w. w\<lparr>fin_reservations := capBudgetReservations 200 (r # fin_reservations w)\<rparr>) st1))))"

definition settle :: "instant \<Rightarrow> string \<Rightarrow> reservation \<Rightarrow> reservation" where
  "settle t outcome r = r\<lparr>rv_status := ''settled'', rv_outcome := Some outcome, rv_settledAt := Some t\<rparr>"

definition find_reservation :: "string \<Rightarrow> 'a fin_server \<Rightarrow> reservation option" where
  "find_reservation rid st = List.find (\<lambda>r. rv_id r = rid) (fin_reservations (world st))"

definition releaseBudgetReservation ::
    "instant \<Rightarrow> string \<Rightarrow> string \<Rightarrow> 'a fin_server \<Rightarrow> bool \<times> 'a fin_server" where
  "releaseBudgetReservation t outcome rid st =
     (case find_reservation rid st of
        None \<Rightarrow> (False, st)
      | Some r \<Rightarrow>
          if \<not> active r then (False, st)
          else (True, append_event t
                  (mk_ev (rv_invocationId r) ''budget_reservation_released'' ''info''
                    (''Released reservation '' @ rid @ '' ('' @ outcome @ '').'')
                    (JObj [(''reservationId'', JStr rid), (''projectId'', jstr (rv_projectId r)),
                           (''autoRunId'', jstr (rv_autoRunId r)), (''outcome'', JStr outcome)]))
                  (upd_fin (\<lambda>w. w\<lparr>fin_reservations :=
                     upd_where (\<lambda>x. rv_id x = rid) (settle t outcome) (fin_reservations w)\<rparr>) st)))"

text \<open>The loops run over a copy of the list; every row that qualifies is released by its id.\<close>

definition release_where ::
    "instant \<Rightarrow> string \<Rightarrow> (reservation \<Rightarrow> bool) \<Rightarrow> 'a fin_server \<Rightarrow> nat \<times> 'a fin_server" where
  "release_where t outcome P st =
     fold (\<lambda>rid (n, s). let (ok, s1) = releaseBudgetReservation t outcome rid s
                         in (if ok then n + 1 else n, s1))
       (map rv_id (filter (\<lambda>r. active r \<and> P r) (fin_reservations (world st)))) (0, st)"

definition releaseReservationsForAutoRun ::
    "instant \<Rightarrow> string \<Rightarrow> string \<Rightarrow> 'a fin_server \<Rightarrow> nat \<times> 'a fin_server" where
  "releaseReservationsForAutoRun t outcome auto st =
     (if auto = [] then (0, st) else release_where t outcome (\<lambda>r. rv_autoRunId r = Some auto) st)"

definition releaseReservationsForInvocation ::
    "instant \<Rightarrow> string \<Rightarrow> string \<Rightarrow> 'a fin_server \<Rightarrow> nat \<times> 'a fin_server" where
  "releaseReservationsForInvocation t outcome i st =
     (if i = [] then (0, st)
      else release_where t outcome
             (\<lambda>r. rv_invocationId r = Some i \<and> coalesce (rv_autoRunId r) [] = []) st)"

definition orphaned :: "(string \<Rightarrow> bool) \<Rightarrow> (string \<Rightarrow> bool) \<Rightarrow> reservation \<Rightarrow> bool" where
  "orphaned isSettled isInvocationTerminal r \<longleftrightarrow>
     (if coalesce (rv_autoRunId r) [] \<noteq> [] then isSettled (the (rv_autoRunId r))
      else if coalesce (rv_invocationId r) [] \<noteq> [] then isInvocationTerminal (the (rv_invocationId r))
      else True)"

definition reconcileBudgetReservations ::
    "instant \<Rightarrow> (string \<Rightarrow> bool) \<Rightarrow> (string \<Rightarrow> bool) \<Rightarrow> 'a fin_server \<Rightarrow> nat \<times> 'a fin_server" where
  "reconcileBudgetReservations t isSettled isInvocationTerminal st =
     release_where t ''reconciled'' (orphaned isSettled isInvocationTerminal) st"

section \<open>Frame\<close>

lemma fin_upd [simp]: "world (upd_fin f st) = f (world st)"
  by (simp add: upd_fin_def)

lemma upd_fin_frame [simp, frame]:
  "projects (upd_fin f st) = projects st" "invocations (upd_fin f st) = invocations st"
  "agents (upd_fin f st) = agents st" "id_counter (upd_fin f st) = id_counter st"
  "issued_ids (upd_fin f st) = issued_ids st" "usages (upd_fin f st) = usages st"
  "approvals (upd_fin f st) = approvals st" "policy_records (upd_fin f st) = policy_records st"
  "spans (upd_fin f st) = spans st" "traces (upd_fin f st) = traces st"
  "refusals (upd_fin f st) = refusals st" "audits (upd_fin f st) = audits st"
  "worktrees (upd_fin f st) = worktrees st" "http (upd_fin f st) = http st"
  "compare_runs (upd_fin f st) = compare_runs st" "device (upd_fin f st) = device st"
  "users (upd_fin f st) = users st" "events (upd_fin f st) = events st"
  by (simp_all add: upd_fin_def)

section \<open>Setting a budget\<close>

definition normalizeBudgetPolicy :: "string option \<Rightarrow> string" where
  "normalizeBudgetPolicy v =
     (let p = js_trim (coalesce v ''warn'')
      in if p \<in> {''warn'', ''block'', ''allow_overage''} then p else ''warn'')"

text \<open>\<open>toFixed(2)\<close>: whole cents (ties go up, which \<open>toFixed\<close> decides on the binary value).\<close>

definition round_cents :: "int \<Rightarrow> int" where
  "round_cents x = (x + 5000) div 10000 * 10000"

definition set_budget ::
    "instant \<Rightarrow> (budget \<Rightarrow> bool) \<Rightarrow> string \<Rightarrow> string option \<Rightarrow> string option \<Rightarrow> string \<Rightarrow> int \<Rightarrow> string
     \<Rightarrow> 'a fin_server \<Rightarrow> string \<times> 'a fin_server" where
  "set_budget t here key pid tm name limit pol st =
     (case List.find here (fin_budgets (world st)) of
        Some b \<Rightarrow>
          (bg_id b, upd_fin (\<lambda>w. w\<lparr>fin_budgets := take 200 (upd_where (\<lambda>x. bg_id x = bg_id b)
             (\<lambda>x. x\<lparr>bg_name := name, bg_limitUsd := round_cents limit, bg_policy := pol, bg_updatedAt := t\<rparr>)
             (fin_budgets w))\<rparr>) st)
      | None \<Rightarrow>
          (let (i, st1) = next_id ''bud_demo'' st;
               b = \<lparr>bg_id = i, bg_projectId = pid, bg_teamId = tm, bg_name = name,
                    bg_limitUsd = round_cents limit, bg_policy = pol, bg_createdAt = t, bg_updatedAt = t\<rparr>
           in (i, upd_fin (\<lambda>w. w\<lparr>fin_budgets := push_cap 200 b (fin_budgets w)\<rparr>) st1)))"

definition upsertBudget ::
    "instant \<Rightarrow> string \<Rightarrow> string \<Rightarrow> int option \<Rightarrow> string option \<Rightarrow> 'a fin_server
     \<Rightarrow> string + (string \<times> 'a fin_server)" where
  "upsertBudget t projectId teamId limitUsd policy st =
     (let pid = js_trim projectId; tm = js_trim teamId; pol = normalizeBudgetPolicy policy
      in if (pid \<noteq> []) = (tm \<noteq> []) then Inl ''A budget needs exactly one of projectId or teamId.''
         else case limitUsd of
           None \<Rightarrow> Inl ''Budget limitUsd must be a non-negative number.''
         | Some limit \<Rightarrow>
             if limit < 0 then Inl ''Budget limitUsd must be a non-negative number.''
             else if tm \<noteq> [] then
               (case List.find (\<lambda>x. tm_id x = tm) (fin_teams (world st)) of
                  None \<Rightarrow> Inl ''A known teamId is required.''
                | Some x \<Rightarrow>
                    (let (i, st1) = set_budget t (\<lambda>b. bg_teamId b = Some tm) tm None (Some tm) (tm_name x) limit pol st
                     in Inr (i, append_event t (mk_ev None ''billing_recorded'' ''info''
                          (''Team budget updated for '' @ tm_name x @ ''.'')
                          (JObj [(''budgetId'', JStr i), (''teamId'', JStr tm), (''policy'', JStr pol)])) st1)))
             else
               (case find_project (Some pid) st of
                  None \<Rightarrow> Inl ''A known projectId is required.''
                | Some p \<Rightarrow>
                    (let (i, st1) = set_budget t (\<lambda>b. bg_projectId b = Some pid) pid (Some pid) None (pr_name p) limit pol st
                     in Inr (i, append_event t (mk_ev None ''billing_recorded'' ''info''
                          (''Budget updated for '' @ pr_name p @ ''.'')
                          (JObj [(''budgetId'', JStr i), (''projectId'', JStr pid), (''policy'', JStr pol)])) st1))))"

section \<open>Usage quotas\<close>

record ai_usage =
  aiu_userId :: string
  aiu_provider :: "string option"
  aiu_inputTokens :: int
  aiu_outputTokens :: int
  aiu_estimatedCost :: int
  aiu_requestCount :: int

text \<open>A USD meter counts micro-dollars here, its limit likewise.\<close>

definition meterQuantity :: "ai_usage \<Rightarrow> string \<Rightarrow> int" where
  "meterQuantity u meter =
     (if meter = ''input_tokens'' then max 0 (aiu_inputTokens u)
      else if meter = ''total_tokens'' then max 0 (aiu_inputTokens u) + max 0 (aiu_outputTokens u)
      else if meter = ''usd'' then max 0 (aiu_estimatedCost u)
      else max 1 (aiu_requestCount u))"

definition covers :: "string \<Rightarrow> string option \<Rightarrow> quota_policy \<Rightarrow> bool" where
  "covers subjectId provider p \<longleftrightarrow>
     qp_status p = ''enabled'' \<and> qp_subjectId p = subjectId
     \<and> (coalesce provider [] = [] \<or> qp_provider p \<in> {[], ''default'', ''any'', ''*'', the provider})"

definition policiesForSubject :: "string \<Rightarrow> string option \<Rightarrow> 'a fin_server \<Rightarrow> quota_policy list" where
  "policiesForSubject subjectId provider st = filter (covers subjectId provider) (fin_quotas (world st))"

definition metered :: "quota_policy \<Rightarrow> bool" where
  "metered p \<longleftrightarrow> qp_meter p \<noteq> ''requests''"

definition accrueUsageQuota :: "instant \<Rightarrow> ai_usage \<Rightarrow> 'a fin_server \<Rightarrow> 'a fin_server" where
  "accrueUsageQuota t u st =
     upd_fin (\<lambda>w. w\<lparr>fin_quotas := upd_where (\<lambda>p. covers (aiu_userId u) (aiu_provider u) p \<and> metered p)
       (\<lambda>p. p\<lparr>qp_used := qp_used p + meterQuantity u (qp_meter p), qp_updatedAt := t\<rparr>) (fin_quotas w)\<rparr>) st"

definition used_up :: "quota_policy \<Rightarrow> bool" where
  "used_up p \<longleftrightarrow> metered p \<and> 0 < qp_limit p \<and> qp_limit p \<le> qp_used p"

definition enforced :: "quota_policy \<Rightarrow> bool" where
  "enforced p \<longleftrightarrow> qp_enforcement p = ''block''"

definition quota_amount :: "quota_policy \<Rightarrow> int \<Rightarrow> string" where
  "quota_amount p n = (if qp_meter p = ''usd'' then show_usd n else show_usd (n * 1000000))"

definition checkUsageQuota ::
    "instant \<Rightarrow> string \<Rightarrow> string option \<Rightarrow> 'a fin_server \<Rightarrow> bool \<times> quota_policy option \<times> 'a fin_server" where
  "checkUsageQuota t subjectId provider st =
     (if subjectId = [] then (False, None, st)
      else case filter used_up (policiesForSubject subjectId provider st) of
        [] \<Rightarrow> (False, None, st)
      | first # others \<Rightarrow>
          (let blocking = List.find (\<lambda>p. enforced p) (first # others);
               p = coalesce blocking first;
               blocked = (blocking \<noteq> None)
           in (blocked, Some p,
               append_event t
                 (mk_ev None ''quota_checked'' (if blocked then ''warn'' else ''info'')
                   (''Usage quota '' @ (if blocked then ''blocked'' else ''warning'') @ '': '' @ qp_meter p
                     @ '' used '' @ quota_amount p (qp_used p) @ ''/'' @ quota_amount p (qp_limit p) @ ''.'')
                   (JObj [(''policyId'', JStr (qp_id p)), (''meter'', JStr (qp_meter p)),
                          (''used'', JNum (qp_used p)), (''limit'', JNum (qp_limit p)),
                          (''enforcement'', JStr (qp_enforcement p))])) st)))"

text \<open>A subject is blocked exactly when an enabled policy of it that meters consumption has its
  positive limit used up and enforces by blocking; consumption only ever raises what is used, so a
  blocked subject stays blocked whatever it consumes next; the check itself changes no quota.\<close>

theorem usage_quota_blocks:
  "fst (checkUsageQuota t subjectId None st)
      = (subjectId \<noteq> [] \<and> list_ex (\<lambda>p. covers subjectId None p \<and> used_up p \<and> enforced p)
           (fin_quotas (world st)))
   \<and> (fst (checkUsageQuota t subjectId None st) \<le> fst (checkUsageQuota t' subjectId None (accrueUsageQuota t' u st)))
   \<and> world (snd (snd (checkUsageQuota t subjectId None st))) = world st"
proof -
  have iff: "fst (checkUsageQuota t subjectId None st)
      = (subjectId \<noteq> [] \<and> list_ex (\<lambda>p. covers subjectId None p \<and> used_up p \<and> enforced p)
           (fin_quotas (world st)))" for t and st :: "'a fin_server"
  proof -
    let ?ps = "filter used_up (policiesForSubject subjectId None st)"
    have "fst (checkUsageQuota t subjectId None st)
        = (subjectId \<noteq> [] \<and> List.find (\<lambda>p. enforced p) ?ps \<noteq> None)"
    proof (cases ?ps)
      case Nil
      then show ?thesis by (simp only: checkUsageQuota_def list.case fst_conv List.find.simps if_cancel) simp
    next
      case (Cons p ps)
      have "fst (checkUsageQuota t subjectId None st)
          = (if subjectId = [] then False else List.find (\<lambda>p. enforced p) (p # ps) \<noteq> None)"
        unfolding checkUsageQuota_def Cons list.case Let_def by (simp only: if_distrib [of fst] fst_conv)
      then show ?thesis unfolding Cons by (simp only: if_bool_eq_conj) blast
    qed
    also have "List.find (\<lambda>p. enforced p) ?ps \<noteq> None
        \<longleftrightarrow> (\<exists>x \<in> set ?ps. enforced x)"
      by (metis find_None_ball)
    also have "\<dots> \<longleftrightarrow> list_ex (\<lambda>p. covers subjectId None p \<and> used_up p \<and> enforced p)
        (fin_quotas (world st))"
      unfolding policiesForSubject_def list_ex_iff by auto
    finally show ?thesis .
  qed
  have step: "qp_used p \<le> qp_used p + meterQuantity u (qp_meter p)" for p
    unfolding meterQuantity_def by (simp add: max_def)
  let ?B = "\<lambda>p. covers subjectId None p \<and> used_up p \<and> enforced p"
  let ?f = "\<lambda>p. p\<lparr>qp_used := qp_used p + meterQuantity u (qp_meter p), qp_updatedAt := t'\<rparr>"
  have keep: "?B p \<Longrightarrow> ?B (?f p)" for p
    using step [of p] by (simp add: covers_def used_up_def metered_def enforced_def)
  have mono: "list_ex ?B (upd_where Q ?f ps)" if "list_ex ?B ps" for ps Q
  proof -
    from that obtain p where p: "p \<in> set ps" "?B p" unfolding list_ex_iff by blast
    have "(if Q p then ?f p else p) \<in> set (upd_where Q ?f ps)"
      unfolding set_upd_where by (rule imageI [OF p(1)])
    moreover have "?B (if Q p then ?f p else p)" using keep [OF p(2)] p(2) by (cases "Q p") (simp_all only: if_True if_False)
    ultimately show ?thesis unfolding list_ex_iff by (rule bexI [rotated])
  qed
  have w: "world (snd (snd (checkUsageQuota t subjectId None st))) = world st"
    by (simp add: checkUsageQuota_def Let_def split: list.split)
  have q: "fin_quotas (world (accrueUsageQuota t' u st))
      = upd_where (\<lambda>p. covers (aiu_userId u) (aiu_provider u) p \<and> metered p) ?f (fin_quotas (world st))"
    by (simp add: accrueUsageQuota_def)
  have "list_ex ?B (fin_quotas (world st)) \<Longrightarrow> list_ex ?B (fin_quotas (world (accrueUsageQuota t' u st)))"
    unfolding q by (rule mono)
  then show ?thesis unfolding iff using w by (auto simp only: le_bool_def)
qed

section \<open>The admission invariant\<close>

text \<open>What is already spent or held against a budget: the figure every admission adds to.\<close>

definition project_load :: "string \<Rightarrow> 'a fin_server \<Rightarrow> int" where
  "project_load pid st =
     spentUsd (ledgerSpendForProject (Some pid) st) + activeReservedForProject (Some pid) st"

definition team_load :: "string \<Rightarrow> 'a fin_server \<Rightarrow> int" where
  "team_load team st = team_spend team st + activeReservedForTeam team st"

definition block_limit :: "string \<Rightarrow> 'a fin_server \<Rightarrow> int option" where
  "block_limit pid st =
     (case List.find (\<lambda>b. bg_projectId b = Some pid) (fin_budgets (world st)) of
        Some b \<Rightarrow> if bg_policy b = ''block'' then Some (bg_limitUsd b) else None
      | None \<Rightarrow> None)"

definition team_block_limit :: "string \<Rightarrow> 'a fin_server \<Rightarrow> int option" where
  "team_block_limit team st =
     (case List.find (\<lambda>b. bg_teamId b = Some team) (fin_budgets (world st)) of
        Some b \<Rightarrow> if bg_policy b = ''block'' then Some (bg_limitUsd b) else None
      | None \<Rightarrow> None)"

definition amounts_ok :: "'a fin_server \<Rightarrow> bool" where
  "amounts_ok st \<longleftrightarrow> list_all (\<lambda>r. 0 \<le> rv_amountUsd r) (fin_reservations (world st))"

text \<open>Everything but the reservations is as it was.\<close>

definition same_books :: "'a fin_server \<Rightarrow> 'a fin_server \<Rightarrow> bool" where
  "same_books st st' \<longleftrightarrow>
     projects st' = projects st \<and> fin_budgets (world st') = fin_budgets (world st)
     \<and> fin_ledger (world st') = fin_ledger (world st)
     \<and> fin_currentProjectId (world st') = fin_currentProjectId (world st)"

lemma same_books_refl [simp]: "same_books st st"
  by (simp add: same_books_def)

lemma same_books_trans: "same_books a b \<Longrightarrow> same_books b c \<Longrightarrow> same_books a c"
  by (simp add: same_books_def)

lemma same_books_spend:
  assumes "same_books st st'"
  shows "ledgerSpendForProject pid st' = ledgerSpendForProject pid st"
    and "team_spend team st' = team_spend team st"
    and "block_limit p st' = block_limit p st" and "team_block_limit team st' = team_block_limit team st"
    and "in_team team st' = in_team team st"
proof -
  have e: "entry_project st' = entry_project st"
    using assms by (intro ext) (simp add: entry_project_def same_books_def)
  show l: "ledgerSpendForProject pid st' = ledgerSpendForProject pid st" for pid
    using assms by (simp add: ledgerSpendForProject_def e same_books_def)
  show "team_spend team st' = team_spend team st"
    using assms by (simp add: team_spend_def l same_books_def)
  show "block_limit p st' = block_limit p st" and "team_block_limit team st' = team_block_limit team st"
    and "in_team team st' = in_team team st"
    using assms by (auto simp: block_limit_def team_block_limit_def in_team_def same_books_def fun_eq_iff)
qed

lemma held_simps [simp]:
  "held P [] = 0"
  "held P (r # rs) = (if active r \<and> P r then rv_amountUsd r else 0) + held P rs"
  by (simp_all add: held_def)

lemma held_append [simp]: "held P (xs @ ys) = held P xs + held P ys"
  by (simp add: held_def)

text \<open>The cap drops settled rows only.\<close>

lemma held_cap [simp]: "held P (capBudgetReservations n rs) = held P rs"
proof -
  have "filter (\<lambda>r. active r \<and> P r) (take n (filter (\<lambda>r. \<not> active r) rs)) = []"
    by (auto simp: filter_empty_conv dest!: in_set_takeD)
  then have "held P (take n (filter (\<lambda>r. \<not> active r) rs)) = 0" by (simp add: held_def)
  moreover have "held P (filter active rs) = held P rs"
    by (induction rs) auto
  ultimately show ?thesis by (simp add: capBudgetReservations_def)
qed

lemma held_settle:
  assumes "list_all (\<lambda>r. 0 \<le> rv_amountUsd r) rs"
  shows "held P (upd_where Q (settle t out) rs) \<le> held P rs"
  using assms by (induction rs) (auto simp: settle_def active_def)

lemma cap_amounts:
  "list_all (\<lambda>r. 0 \<le> rv_amountUsd r) rs \<Longrightarrow>
   list_all (\<lambda>r. 0 \<le> rv_amountUsd r) (capBudgetReservations n rs)"
  by (auto simp: capBudgetReservations_def list_all_iff dest: in_set_takeD)

text \<open>Releasing only lowers what is held.\<close>

definition lowers :: "'a fin_server \<Rightarrow> 'a fin_server \<Rightarrow> bool" where
  "lowers st st' \<longleftrightarrow> same_books st st' \<and> (amounts_ok st \<longrightarrow> amounts_ok st' \<and>
     (\<forall>P. held P (fin_reservations (world st')) \<le> held P (fin_reservations (world st))))"

lemma lowers_refl [simp]: "lowers st st"
  by (simp add: lowers_def)

lemma lowers_trans: "lowers a b \<Longrightarrow> lowers b c \<Longrightarrow> lowers a c"
  unfolding lowers_def by (meson order_trans same_books_trans)

lemma release_lowers: "lowers st (snd (releaseBudgetReservation t out rid st))"
proof (cases "find_reservation rid st")
  case None
  then show ?thesis by (simp add: releaseBudgetReservation_def)
next
  case (Some r)
  show ?thesis
  proof (cases "active r")
    case True
    have "list_all (\<lambda>x. 0 \<le> rv_amountUsd x) (upd_where (\<lambda>x. rv_id x = rid) (settle t out) rs)"
      if "list_all (\<lambda>x. 0 \<le> rv_amountUsd x) rs" for rs
      using that by (induction rs) (auto simp: settle_def)
    with True Some show ?thesis
      by (auto simp: releaseBudgetReservation_def lowers_def same_books_def amounts_ok_def held_settle)
  next
    case False
    with Some show ?thesis by (simp add: releaseBudgetReservation_def)
  qed
qed

lemma release_where_lowers: "lowers st (snd (release_where t out P st))"
proof -
  have "lowers st (snd (fold (\<lambda>rid (n, s). let (ok, s1) = releaseBudgetReservation t out rid s
      in (if ok then n + 1 else n, s1)) rids (n, st)))" for rids and n :: nat and st :: "'a fin_server"
  proof (induction rids arbitrary: n st)
    case Nil
    then show ?case by simp
  next
    case (Cons rid rids)
    from lowers_trans [OF release_lowers [of st t out rid] Cons.IH] show ?case
      by (simp add: case_prod_beta Let_def)
  qed
  then show ?thesis by (simp add: release_where_def)
qed

lemma find_project_unique:
  assumes "distinct (map pr_id (projects st))" and "in_team team st (Some q)"
  shows "\<exists>p. find_project (Some q) st = Some p \<and> teamOf p = team"
proof -
  from assms(2) obtain p where p: "p \<in> set (projects st)" "teamOf p = team" "pr_id p = q"
    by (auto simp: in_team_def list_ex_iff)
  from find_key_unique [OF assms(1) p(1)] p show ?thesis by (simp add: find_project_def)
qed

definition projects_ok :: "'a fin_server \<Rightarrow> bool" where
  "projects_ok st \<longleftrightarrow> distinct (map pr_id (projects st)) \<and> list_all (\<lambda>p. pr_id p \<noteq> []) (projects st)"

lemma reserve_cases:
  obtains (refused) reason where "reserveBudget t pid a iid auto tm st = (Inl reason, st)"
  | (held) rid st' where "reserveBudget t pid a iid auto tm st = (Inr rid, st')"
      and "hold_refusal pid (max 0 a) tm st = None" and "same_books st st'"
      and "amounts_ok st \<Longrightarrow> amounts_ok st'"
      and "\<And>P. (\<And>r r'. rv_projectId r = rv_projectId r' \<Longrightarrow> P r = P r') \<Longrightarrow>
             held P (fin_reservations (world st'))
               = (if P (undefined\<lparr>rv_projectId := pid\<rparr>) then max 0 a else 0)
                 + held P (fin_reservations (world st))"
proof (cases "hold_refusal pid (max 0 a) tm st")
  case (Some reason)
  then show thesis by (intro refused) (simp add: reserveBudget_def Let_def)
next
  case None
  let ?n = "next_id ''bres'' st"
  let ?r = "\<lparr>rv_id = fst ?n, rv_projectId = pid,
     rv_teamId = coalesce_opt tm (map_option teamOf (find_project pid st)), rv_amountUsd = max 0 a,
     rv_invocationId = iid, rv_autoRunId = auto, rv_status = ''active'', rv_createdAt = t,
     rv_settledAt = None, rv_outcome = None\<rparr>"
  obtain e where eq: "reserveBudget t pid a iid auto tm st
      = (Inr (fst ?n), append_event t e
          (upd_fin (\<lambda>w. w\<lparr>fin_reservations := capBudgetReservations 200 (?r # fin_reservations w)\<rparr>) (snd ?n)))"
    using None by (simp add: reserveBudget_def Let_def case_prod_beta)
  show thesis
  proof (rule held [OF eq None])
    show "same_books st (append_event t e (upd_fin (\<lambda>w. w\<lparr>fin_reservations
        := capBudgetReservations 200 (?r # fin_reservations w)\<rparr>) (snd ?n)))"
      by (simp add: same_books_def)
    show "amounts_ok (append_event t e (upd_fin (\<lambda>w. w\<lparr>fin_reservations
        := capBudgetReservations 200 (?r # fin_reservations w)\<rparr>) (snd ?n)))" if "amounts_ok st"
      using that by (simp add: amounts_ok_def cap_amounts)
    fix P :: "reservation \<Rightarrow> bool"
    assume "\<And>r r'. rv_projectId r = rv_projectId r' \<Longrightarrow> P r = P r'"
    from this [of ?r "undefined\<lparr>rv_projectId := pid\<rparr>"]
    show "held P (fin_reservations (world (append_event t e (upd_fin (\<lambda>w. w\<lparr>fin_reservations
        := capBudgetReservations 200 (?r # fin_reservations w)\<rparr>) (snd ?n)))))
      = (if P (undefined\<lparr>rv_projectId := pid\<rparr>) then max 0 a else 0)
        + held P (fin_reservations (world st))"
      by (simp add: active_def)
  qed
qed

lemma reserve_within:
  assumes "block_limit pid st = Some l" and "project_load pid st \<le> l" and "pid \<noteq> []"
  shows "project_load pid (snd (reserveBudget t q a iid auto tm st)) \<le> l"
proof (cases rule: reserve_cases [where t = t and pid = q and a = a and iid = iid and auto = auto and tm = tm and st = st])
  case (refused reason)
  with assms show ?thesis by simp
next
  case (held rid st')
  have load: "project_load pid st' = (if q = Some pid then max 0 a else 0) + project_load pid st"
    using held(5) [of "\<lambda>r. rv_projectId r = Some pid"]
    by (simp add: project_load_def activeReservedForProject_def same_books_spend [OF held(3)])
  show ?thesis
  proof (cases "q = Some pid \<and> 0 < max 0 a")
    case True
    with held(2) assms(3) have "project_refusal (Some pid) (max 0 a) st = None"
      by (simp add: hold_refusal_def)
    with assms(1) have "project_load pid st + max 0 a \<le> l"
      by (auto simp: project_refusal_def budgetStatusFor_def blocking_def block_limit_def Let_def
          project_load_def split: option.splits if_splits)
    with True load held(1) show ?thesis by simp
  next
    case False
    with load assms(2) held(1) show ?thesis by auto
  qed
qed

lemma reserve_within_team:
  assumes "team_block_limit team st = Some l" and "team_load team st \<le> l" and "projects_ok st"
  shows "team_load team (snd (reserveBudget t q a iid auto None st)) \<le> l"
proof (cases rule: reserve_cases [where t = t and pid = q and a = a and iid = iid and auto = auto and tm = None and st = st])
  case (refused reason)
  with assms show ?thesis by simp
next
  case (held rid st')
  have load: "team_load team st' = (if in_team team st q then max 0 a else 0) + team_load team st"
    using held(5) [of "\<lambda>r. in_team team st (rv_projectId r)"]
    by (simp add: team_load_def activeReservedForTeam_def same_books_spend [OF held(3)])
  show ?thesis
  proof (cases "in_team team st q \<and> 0 < max 0 a")
    case True
    then obtain i where q: "q = Some i" "i \<noteq> []"
      using assms(3) by (auto simp: in_team_def projects_ok_def list_ex_iff list_all_iff)
    from find_project_unique [of st team i] True q assms(3)
    obtain p where p: "find_project q st = Some p" "teamOf p = team"
      by (auto simp: projects_ok_def)
    have "list_ex (\<lambda>p. teamOf p = team) (projects st)"
      using True by (auto simp: in_team_def list_ex_iff)
    moreover have "team_refusal (Some team) (max 0 a) st = None"
      using held(2) True q p by (simp add: hold_refusal_def)
    ultimately have "team_load team st + max 0 a \<le> l"
      using assms(1)
      by (auto simp: team_refusal_def teamBudgetStatusFor_def blocking_def team_block_limit_def Let_def
          team_load_def split: option.splits if_splits)
    with True load held(1) show ?thesis by simp
  next
    case False
    with load assms(2) held(1) show ?thesis by auto
  qed
qed

text \<open>The operations on the holds, in any order: admissions for any project, settlements and sweeps.\<close>

datatype hold_op = Reserve "string option" int "string option" "string option"
  | Release string string | ReleaseRun string | ReleaseInvocation string
  | Reconcile "string list" "string list"

fun run_op :: "instant \<Rightarrow> hold_op \<Rightarrow> 'a fin_server \<Rightarrow> 'a fin_server" where
  "run_op t (Reserve q a iid auto) st = snd (reserveBudget t q a iid auto None st)"
| "run_op t (Release out rid) st = snd (releaseBudgetReservation t out rid st)"
| "run_op t (ReleaseRun auto) st = snd (releaseReservationsForAutoRun t ''released'' auto st)"
| "run_op t (ReleaseInvocation i) st = snd (releaseReservationsForInvocation t ''committed'' i st)"
| "run_op t (Reconcile settled done) st =
     snd (reconcileBudgetReservations t (\<lambda>i. i \<in> set settled) (\<lambda>i. i \<in> set done) st)"

definition run_ops :: "(instant \<times> hold_op) list \<Rightarrow> 'a fin_server \<Rightarrow> 'a fin_server" where
  "run_ops ops st = fold (\<lambda>(t, op). run_op t op) ops st"

definition within :: "string \<Rightarrow> int \<Rightarrow> string \<Rightarrow> int \<Rightarrow> 'a fin_server \<Rightarrow> bool" where
  "within pid l team lt st \<longleftrightarrow>
     amounts_ok st \<and> projects_ok st
     \<and> block_limit pid st = Some l \<and> project_load pid st \<le> l
     \<and> team_block_limit team st = Some lt \<and> team_load team st \<le> lt"

lemma lowers_within: "lowers st st' \<Longrightarrow> within pid l team lt st \<Longrightarrow> within pid l team lt st'"
  unfolding within_def lowers_def project_load_def team_load_def activeReservedForProject_def
    activeReservedForTeam_def
  by (elim conjE, frule same_books_spend(1) [of _ _ "Some pid"], frule same_books_spend(2) [of _ _ team],
      frule same_books_spend(3) [of _ _ pid], frule same_books_spend(4) [of _ _ team],
      frule same_books_spend(5) [of _ _ team])
    (auto simp: projects_ok_def same_books_def intro: add_left_mono order_trans)

lemma run_op_within:
  assumes "within pid l team lt st" and "pid \<noteq> []"
  shows "within pid l team lt (run_op t op st)"
proof (cases op)
  case (Reserve q a iid auto)
  let ?st' = "snd (reserveBudget t q a iid auto None st)"
  have "same_books st ?st' \<and> (amounts_ok st \<longrightarrow> amounts_ok ?st')"
    by (cases rule: reserve_cases [where t = t and pid = q and a = a and iid = iid and auto = auto
          and tm = None and st = st]) auto
  with assms reserve_within [of pid st l t q a iid auto None] reserve_within_team [of team st lt t q a iid auto]
  show ?thesis unfolding Reserve run_op.simps within_def
    by (auto simp: same_books_spend projects_ok_def) (auto simp: same_books_def)
next
  case (Release out rid)
  show ?thesis unfolding Release run_op.simps by (rule lowers_within [OF release_lowers assms(1)])
next
  case (ReleaseRun auto)
  show ?thesis unfolding ReleaseRun run_op.simps releaseReservationsForAutoRun_def
    using lowers_within [OF release_where_lowers assms(1)] assms(1) by simp
next
  case (ReleaseInvocation i)
  show ?thesis unfolding ReleaseInvocation run_op.simps releaseReservationsForInvocation_def
    using lowers_within [OF release_where_lowers assms(1)] assms(1) by simp
next
  case (Reconcile settled finished)
  show ?thesis unfolding Reconcile run_op.simps reconcileBudgetReservations_def
    by (rule lowers_within [OF release_where_lowers assms(1)])
qed

text \<open>C9: admissions that see each other: from books in which a project and a team are within their
  blocking limits, no sequence of reservations (for any projects and amounts), settlements and
  reconcile sweeps ever takes spend plus active holds over either limit.\<close>

theorem holds_within_limits:
  assumes "within pid l team lt st" and "pid \<noteq> []"
  shows "project_load pid (run_ops ops st) \<le> l \<and> team_load team (run_ops ops st) \<le> lt"
proof -
  have "within pid l team lt (run_ops ops st)"
    using assms(1) unfolding run_ops_def
    by (induction ops arbitrary: st) (auto simp: run_op_within [OF _ assms(2)])
  then show ?thesis by (simp add: within_def)
qed

definition demo_books :: "finance server" where
  "demo_books = \<lparr>id_counter = 1, issued_ids = [], invocations = [], events = [], event_archive = [],
     event_retention = \<lparr>ret_truncatedIds = [], ret_globalTruncated = False, ret_lastErrorAt = None, ret_lastError = None\<rparr>,
     event_archiver = (\<lambda>rows. ArchiveOk), refusals = [], refusal_archive = [],
     refusal_archive_up = (\<lambda>rows. True), refusal_stats = [], refusal_since = None,
     agents = [], device = \<lparr>dv_id = ''dev_1'', dv_maxConcurrency = Some 2, dv_bridgeSessionId = None, dv_unlinkState = ''linked''\<rparr>,
     projects = [\<lparr>pr_id = ''prj_1'', pr_name = ''One'', pr_path = None, pr_ownerTeamId = None,
       pr_autoExecutionEnabled = False, pr_futurePullForwardEnabled = None\<rparr>],
     users = [], worktrees = [], work_items = [], traces = [], spans = [], rounds = [], tool_records = [], transcripts = [],
     audits = [], usages = [], compare_runs = [], policy_records = [], approvals = [], applications = [],
     http = \<lparr>hr_live = [], hr_pending = [], hr_scheduled = [], hr_activeCount = 0, hr_activeByAgent = [],
       hr_max = 8, hr_perAgentMax = 2\<rparr>,
     world = \<lparr>fin_currentProjectId = None, fin_teams = [],
       fin_ledger = [\<lparr>le_id = ''led_1'', le_projectId = Some ''prj_1'', le_status = ''finalized'',
         le_amount = Some 6000000, le_amountSource = None, le_userId = ''usr_local'', le_teamId = None,
         le_agentId = None, le_invocationId = None, le_autoRunId = JNull, le_localIssueId = JNull,
         le_executionChainId = JNull, le_sourceType = ''agent_invocation'', le_sourceRecordId = ''inv_0'',
         le_economicModel = ''external_metered'', le_currency = ''USD'', le_costOwner = ''usr_local'',
         le_budgetPoolId = None, le_model = ''m'', le_provider = ''p'', le_billable = False,
         le_createdAt = 1, le_finalizedAt = Some 1\<rparr>],
       fin_budgets =
         [\<lparr>bg_id = ''bud_1'', bg_projectId = Some ''prj_1'', bg_teamId = None, bg_name = ''One'',
           bg_limitUsd = 10000000, bg_policy = ''block'', bg_createdAt = 1, bg_updatedAt = 1\<rparr>,
          \<lparr>bg_id = ''bud_2'', bg_projectId = None, bg_teamId = Some ''team_local'', bg_name = ''T'',
           bg_limitUsd = 20000000, bg_policy = ''block'', bg_createdAt = 1, bg_updatedAt = 1\<rparr>],
       fin_reservations = [], fin_quotas = []\<rparr>\<rparr>"

lemma demo_books_within: "within ''prj_1'' 10000000 ''team_local'' 20000000 demo_books"
  by (simp add: within_def amounts_ok_def projects_ok_def block_limit_def team_block_limit_def
      project_load_def team_load_def ledgerSpendForProject_def entry_project_def add_entry_def
      ledgerAmountSource_def ledgerEntryAmount_def spentUsd_def activeReservedForProject_def
      activeReservedForTeam_def team_spend_def teamOf_def demo_books_def)

theorem holds_within_limits_witness:
  "project_load ''prj_1'' (run_ops [(1, Reserve (Some ''prj_1'') 3000000 (Some ''inv_1'') None),
      (2, Reserve (Some ''prj_1'') 3000000 (Some ''inv_2'') None)] demo_books) \<le> 10000000"
  using holds_within_limits [OF demo_books_within, where ops = "[(1, Reserve (Some ''prj_1'') 3000000
      (Some ''inv_1'') None), (2, Reserve (Some ''prj_1'') 3000000 (Some ''inv_2'') None)]"] by simp

text \<open>A reservation is all or nothing: a refused one changes nothing, and is refused exactly when a
  blocking limit of the project or of its team would be passed; an accepted one adds exactly its amount
  (never a negative one) to what is held for the project, under a fresh id.\<close>

theorem reserve_all_or_nothing:
  "case reserveBudget t q a iid auto None st of
     (Inl reason, st') \<Rightarrow> st' = st \<and> hold_refusal q (max 0 a) None st = Some reason
   | (Inr rid, st') \<Rightarrow>
       hold_refusal q (max 0 a) None st = None \<and> rid \<notin> set (issued_ids st)
       \<and> activeReservedForProject q st' = activeReservedForProject q st + max 0 a
       \<and> ledgerSpendForProject q st' = ledgerSpendForProject q st"
proof (cases "hold_refusal q (max 0 a) None st")
  case (Some reason)
  then show ?thesis by (simp add: reserveBudget_def Let_def)
next
  case None
  have fresh: "fst (next_id ''bres'' st) \<notin> set (issued_ids st)" by (rule next_id_fresh)
  show ?thesis
  proof (cases rule: reserve_cases [where t = t and pid = q and a = a and iid = iid and auto = auto
        and tm = None and st = st])
    case (refused reason)
    with None show ?thesis by (simp add: reserveBudget_def Let_def case_prod_beta)
  next
    case (held rid st')
    have "rid = fst (next_id ''bres'' st)"
      using held(1) None by (simp add: reserveBudget_def Let_def case_prod_beta)
    with fresh held(1) None held(5) [of "\<lambda>r. rv_projectId r = q"] same_books_spend(1) [OF held(3)]
    show ?thesis by (simp add: activeReservedForProject_def)
  qed
qed

end
