(* ===== verification/Metering.thy ===== *)
theory Metering
  imports Budget
begin

text \<open>
  The metering part of services/m3.mjs: the price table and the cost of a token count, the ledger entry
  of a completed run, the usage record summed from its rounds, the cost anomaly check, and the quota of
  platform-managed AI.  A price is in micro-dollars per million tokens, so the cost of a run before
  \<open>roundUsd\<close> is a whole number of millionths of a micro-dollar.  The event of a quota decision holds the
  decision as it was when the event was appended.
\<close>

section \<open>State\<close>

record price =
  px_id :: string
  px_provider :: string
  px_model :: string
  px_input :: int
  px_cachedInput :: int
  px_output :: int
  px_effectiveFrom :: instant
  px_effectiveTo :: "instant option"

record round =
  rd_invocationId :: string
  rd_model :: "string option"
  rd_provider :: "string option"
  rd_inputTokens :: int
  rd_outputTokens :: int
  rd_cachedTokens :: int
  rd_reasoningTokens :: int
  rd_durationMs :: "int option"
  rd_usageRecordId :: "string option"

record usage_row = ai_usage +
  ur_id :: string
  ur_teamId :: "string option"
  ur_agentId :: "string option"
  ur_invocationId :: "string option"
  ur_autoRunId :: json
  ur_localIssueId :: json
  ur_executionChainId :: json
  ur_projectId :: "string option"
  ur_budgetPoolId :: "string option"
  ur_quotaDecisionId :: "string option"
  ur_model :: string
  ur_providerMode :: string
  ur_cachedTokens :: int
  ur_reasoningTokens :: int
  ur_latencyMs :: "int option"
  ur_derivedFrom :: string
  ur_pricingModelPriceId :: "string option"
  ur_ledgerEntryIds :: "string list"
  ur_status :: string
  ur_createdAt :: instant

record quota_decision =
  qd_id :: string
  qd_policyId :: "string option"
  qd_subjectType :: string
  qd_subjectId :: string
  qd_resourceId :: string
  qd_providerMode :: string
  qd_estimatedCost :: "int option"
  qd_decision :: string
  qd_reason :: string
  qd_enforce :: bool
  qd_createdUsageRecordId :: "string option"
  qd_createdLedgerEntryIds :: "string list"
  qd_createdAt :: instant

record metering = finance +
  mt_rounds :: "round list"
  mt_usages :: "usage_row list"
  mt_decisions :: "quota_decision list"
  mt_autoRunChains :: "(string \<times> json) list"

type_synonym 'a mt_server = "'a metering_scheme server"

section \<open>Prices\<close>

definition PRICE_UPDATED_AT :: instant where
  "PRICE_UPDATED_AT = 1782864000000"

text \<open>\<open>env\<close> gives a configured rate, read as a number; an unset one is \<open>None\<close>.\<close>

definition price_rate :: "(string \<Rightarrow> int option) \<Rightarrow> string \<Rightarrow> string \<Rightarrow> int \<Rightarrow> string + int" where
  "price_rate env envPrefix suffix fallback =
     (let variable = envPrefix @ ''_'' @ suffix @ ''_USD_PER_MTOK'';
          v = coalesce (env variable) fallback
      in if v < 0 then Inl (variable @ '' must be a finite non-negative number.'') else Inr v)"

definition modelPrice ::
    "(string \<Rightarrow> int option) \<Rightarrow> string \<Rightarrow> string \<Rightarrow> string \<Rightarrow> int \<times> int \<times> int \<Rightarrow> string + price" where
  "modelPrice env provider model envPrefix rates =
     (case rates of (i, c, out) \<Rightarrow>
        case price_rate env envPrefix ''INPUT'' i of
          Inl e \<Rightarrow> Inl e
        | Inr i' \<Rightarrow>
            (case price_rate env envPrefix ''CACHED_INPUT'' c of
               Inl e \<Rightarrow> Inl e
             | Inr c' \<Rightarrow>
                 (case price_rate env envPrefix ''OUTPUT'' out of
                    Inl e \<Rightarrow> Inl e
                  | Inr out' \<Rightarrow>
                      Inr \<lparr>px_id = ''prc_'' @ provider @ ''_'' @ model, px_provider = provider,
                           px_model = model, px_input = i', px_cachedInput = c', px_output = out',
                           px_effectiveFrom = PRICE_UPDATED_AT, px_effectiveTo = None\<rparr>)))"

definition price_rows :: "(string \<times> string \<times> string \<times> int \<times> int \<times> int) list" where
  "price_rows =
     [(''anthropic'', ''claude-opus'', ''CLAUDE_OPUS'', 15000000, 1500000, 75000000),
      (''anthropic'', ''claude-sonnet'', ''CLAUDE_SONNET'', 3000000, 300000, 15000000),
      (''anthropic'', ''claude-haiku'', ''CLAUDE_HAIKU'', 800000, 80000, 4000000),
      (''openai'', ''gpt'', ''OPENAI_GPT'', 2500000, 250000, 10000000),
      (''codex'', ''codex'', ''CODEX'', 1750000, 175000, 14000000)]"

fun load_prices ::
    "(string \<Rightarrow> int option) \<Rightarrow> (string \<times> string \<times> string \<times> int \<times> int \<times> int) list \<Rightarrow> string + price list" where
  "load_prices env [] = Inr []"
| "load_prices env ((provider, model, pre, rates) # rows) =
     (case modelPrice env provider model pre rates of
        Inl e \<Rightarrow> Inl e
      | Inr p \<Rightarrow> (case load_prices env rows of Inl e \<Rightarrow> Inl e | Inr ps \<Rightarrow> Inr (p # ps)))"

definition in_force :: "instant \<Rightarrow> price \<Rightarrow> bool" where
  "in_force at p \<longleftrightarrow> px_effectiveFrom p \<le> at \<and> (case px_effectiveTo p of None \<Rightarrow> True | Some e \<Rightarrow> at < e)"

definition better_price :: "string \<Rightarrow> instant \<Rightarrow> price \<Rightarrow> price option \<Rightarrow> price option" where
  "better_price key at p best =
     (if in_force at p \<and> starts_with key (px_model p)
         \<and> (case best of None \<Rightarrow> True | Some b \<Rightarrow> length (px_model b) < length (px_model p))
      then Some p else best)"

definition priceForModel :: "price list \<Rightarrow> string option \<Rightarrow> instant \<Rightarrow> price option" where
  "priceForModel prices model at =
     (let key = js_lower (coalesce model [])
      in if key = [] then None else fold (better_price key at) prices None)"

record cost_report =
  ct_amountUsd :: "int option"
  ct_inputTokens :: int
  ct_cachedInputTokens :: int
  ct_outputTokens :: int
  ct_billable :: bool
  ct_model :: "string option"
  ct_currency :: "string option"

definition token_cost :: "price \<Rightarrow> cost_report \<Rightarrow> int" where
  "token_cost p c =
     (let input = max 0 (ct_inputTokens c);
          cached = min input (max 0 (ct_cachedInputTokens c));
          out = max 0 (ct_outputTokens c)
      in (input - cached) * px_input p + cached * px_cachedInput p + out * px_output p)"

text \<open>The cost is in millionths of a micro-dollar here; \<open>roundUsd\<close> takes it to micro-dollars.\<close>

definition priceEvidenceForTokens :: "price list \<Rightarrow> cost_report \<Rightarrow> instant \<Rightarrow> int \<times> price option" where
  "priceEvidenceForTokens prices c at =
     (case priceForModel prices (ct_model c) at of
        None \<Rightarrow> (0, None)
      | Some p \<Rightarrow> (max 0 (token_cost p c), Some p))"

definition roundUsd :: "int \<Rightarrow> int" where
  "roundUsd n = (n + 500000) div 1000000"

section \<open>The ledger\<close>

definition is_spend :: "ledger_entry \<Rightarrow> bool" where
  "is_spend e \<longleftrightarrow> 0 < coalesce (le_amount e) 0 \<and> le_status e \<notin> {''voided'', ''cancelled''}"

fun cap_scan :: "nat \<Rightarrow> nat \<Rightarrow> ledger_entry list \<Rightarrow> ledger_entry list" where
  "cap_scan cap others [] = []"
| "cap_scan cap others (e # es) =
     (if is_spend e then e # cap_scan cap others es
      else if others + 1 \<le> cap then e # cap_scan cap (others + 1) es
      else cap_scan cap (others + 1) es)"

definition capLedgerEntries :: "nat \<Rightarrow> ledger_entry list \<Rightarrow> ledger_entry list" where
  "capLedgerEntries cap es = cap_scan cap 0 es"

definition add_ledger :: "ledger_entry \<Rightarrow> 'a fin_server \<Rightarrow> 'a fin_server" where
  "add_ledger e st = upd_fin (\<lambda>w. w\<lparr>fin_ledger := capLedgerEntries 200 (e # fin_ledger w)\<rparr>) st"

definition bound_issue :: "json \<Rightarrow> 'w server \<Rightarrow> json" where
  "bound_issue auto st =
     (case List.find (\<lambda>w. list_ex (\<lambda>b. eb_kind b = ''auto_run'' \<and> jstr (eb_targetId b) = auto) (wi_executionBindings w))
             (work_items st) of
        None \<Rightarrow> JNull | Some w \<Rightarrow> JStr (wi_id w))"

definition auto_run_chain :: "json \<Rightarrow> 'a mt_server \<Rightarrow> json" where
  "auto_run_chain auto st =
     (case List.find (\<lambda>r. JStr (fst r) = auto) (mt_autoRunChains (world st)) of
        None \<Rightarrow> JNull | Some r \<Rightarrow> snd r)"

text \<open>\<open>invocation.input?.metadata ?? {}\<close>\<close>

definition input_metadata :: "invocation \<Rightarrow> json" where
  "input_metadata v = jget (inv_input v) ''metadata''"

definition first_project_id :: "'a fin_server \<Rightarrow> string option" where
  "first_project_id st = (case projects st of [] \<Rightarrow> None | p # _ \<Rightarrow> Some (pr_id p))"

text \<open>A budget row has one of the two ids; \<open>null\<close> matches neither.\<close>

definition budget_pool :: "string option \<Rightarrow> string option \<Rightarrow> 'a fin_server \<Rightarrow> string option" where
  "budget_pool pid tm st =
     coalesce_opt (map_option bg_id (List.find (\<lambda>b. pid \<noteq> None \<and> bg_projectId b = pid) (fin_budgets (world st))))
       (map_option bg_id (List.find (\<lambda>b. tm \<noteq> None \<and> bg_teamId b = tm) (fin_budgets (world st))))"

definition owning_team :: "string option \<Rightarrow> 'w server \<Rightarrow> string option" where
  "owning_team pid st =
     (if coalesce pid [] = [] then None else map_option teamOf (find_project pid st))"

definition issue_of_run :: "json \<Rightarrow> 'w server \<Rightarrow> json" where
  "issue_of_run meta st =
     (let auto = jget meta ''autoRunId''
      in if truthy auto then bound_issue auto st else jget meta ''localIssueId'')"

definition cost_source :: "price list \<Rightarrow> instant \<Rightarrow> cost_report \<Rightarrow> string \<times> int option \<times> price option" where
  "cost_source prices at c =
     (case ct_amountUsd c of
        Some a \<Rightarrow>
          if 0 < a then (''reported'', Some a, None)
          else (let (n, p) = priceEvidenceForTokens prices c at
                in if 0 < n then (''estimated'', Some (roundUsd n), p) else (''unknown'', None, p))
      | None \<Rightarrow>
          (let (n, p) = priceEvidenceForTokens prices c at
           in if 0 < n then (''estimated'', Some (roundUsd n), p) else (''unknown'', None, p)))"

definition has_tokens :: "cost_report \<Rightarrow> bool" where
  "has_tokens c \<longleftrightarrow> 0 < ct_inputTokens c \<or> 0 < ct_outputTokens c"

definition ledger_message :: "string \<Rightarrow> cost_report \<Rightarrow> string \<Rightarrow> string \<Rightarrow> int option \<Rightarrow> string" where
  "ledger_message source c currency model usd =
     (let tokens = show_int (max 0 (ct_inputTokens c)) @ ''+'' @ show_int (max 0 (ct_outputTokens c)) @ '' tokens''
      in if source = ''reported''
         then ''Recorded '' @ currency @ '' '' @ show_usd (coalesce usd 0) @ '' reported cost for '' @ model @ ''.''
         else if source = ''estimated''
         then ''Recorded estimated '' @ currency @ '' '' @ show_usd (coalesce usd 0) @ '' for '' @ model @ '' ('' @ tokens @ '').''
         else ''Recorded unmetered token usage ('' @ tokens @ '') for '' @ model @ ''.'')"

definition run_ledger_entry ::
    "instant \<Rightarrow> invocation \<Rightarrow> cost_report \<Rightarrow> string \<Rightarrow> int option \<Rightarrow> agent option \<Rightarrow> string
     \<Rightarrow> 'a mt_server \<Rightarrow> ledger_entry" where
  "run_ledger_entry t v c source usd agent i st =
     (let meta = input_metadata v;
          eco = Option.bind agent ag_economics;
          pid = coalesce_opt (jstr_opt (jget meta ''projectId''))
                  (coalesce_opt (inv_projectId v)
                    (coalesce_opt (fin_currentProjectId (world st)) (first_project_id st)));
          tm = owning_team pid st;
          issue = issue_of_run meta st;
          model = coalesce (ct_model c) ''unknown''
      in \<lparr>le_id = i, le_projectId = pid,
          le_status = (if source = ''estimated'' then ''estimated'' else ''finalized''),
          le_amount = Some (coalesce usd 0), le_amountSource = Some source,
          le_userId = inv_requestedBy v, le_teamId = tm, le_agentId = Some (inv_agentId v),
          le_invocationId = Some (inv_id v), le_autoRunId = jget meta ''autoRunId'',
          le_localIssueId = issue,
          le_executionChainId =
            nullish_or (jget meta ''executionChainId'')
              (nullish_or (auto_run_chain (jget meta ''autoRunId'') st) issue),
          le_sourceType = ''agent_invocation'', le_sourceRecordId = inv_id v,
          le_economicModel = coalesce (Option.bind eco eco_model) ''external_metered'',
          le_currency = coalesce (ct_currency c) ''USD'',
          le_costOwner = coalesce (Option.bind eco eco_costOwner) (inv_requestedBy v),
          le_budgetPoolId = coalesce_opt (Option.bind eco eco_budgetPoolId) (budget_pool pid tm st),
          le_model = model, le_provider = model, le_billable = ct_billable c, le_createdAt = t,
          le_finalizedAt = (if source = ''estimated'' then None else Some t)\<rparr>)"

definition ledger_event :: "cost_report \<Rightarrow> int option \<Rightarrow> ledger_entry \<Rightarrow> event_in" where
  "ledger_event c usd e =
     (let source = coalesce (le_amountSource e) ''unknown''
      in mk_ev (le_invocationId e) ''ledger_entry_recorded'' ''info''
           (ledger_message source c (le_currency e) (le_model e) usd)
           (JObj [(''ledgerEntryId'', JStr (le_id e)),
                  (''amountUsd'', (case usd of None \<Rightarrow> JNull | Some a \<Rightarrow> JNum a)),
                  (''amountSource'', JStr source), (''inputTokens'', JNum (max 0 (ct_inputTokens c))),
                  (''outputTokens'', JNum (max 0 (ct_outputTokens c))), (''projectId'', jstr (le_projectId e)),
                  (''teamId'', jstr (le_teamId e)), (''autoRunId'', le_autoRunId e)]))"

definition recordInvocationLedgerEntry ::
    "price list \<Rightarrow> instant \<Rightarrow> invocation \<Rightarrow> cost_report option \<Rightarrow> agent option \<Rightarrow> 'a mt_server
     \<Rightarrow> ledger_entry option \<times> 'a mt_server" where
  "recordInvocationLedgerEntry prices t v cost agent st =
     (case cost of
        None \<Rightarrow> (None, st)
      | Some c \<Rightarrow>
          (let (source, usd, p) = cost_source prices (inv_createdAt v) c
           in if source = ''unknown'' \<and> \<not> (ct_billable c \<and> has_tokens c) then (None, st)
              else (let (i, st1) = next_id ''led_demo'' st;
                        e = run_ledger_entry t v c source usd agent i st
                    in (Some e, append_event t (ledger_event c usd e) (add_ledger e st1)))))"

section \<open>Usage of a run, summed from its rounds\<close>

definition add_usage :: "usage_row \<Rightarrow> 'a mt_server \<Rightarrow> 'a mt_server" where
  "add_usage r st = st\<lparr>world := (world st)\<lparr>mt_usages := push_cap 200 r (mt_usages (world st))\<rparr>\<rparr>"

definition run_rounds :: "string \<Rightarrow> 'a mt_server \<Rightarrow> round list" where
  "run_rounds i st = filter (\<lambda>r. rd_invocationId r = i) (mt_rounds (world st))"

definition round_sum :: "(round \<Rightarrow> int) \<Rightarrow> round list \<Rightarrow> int" where
  "round_sum f rs = fold (\<lambda>r total. total + max 0 (f r)) rs 0"

definition round_latency :: "round list \<Rightarrow> int option" where
  "round_latency rs =
     (case concat (map (\<lambda>r. case rd_durationMs r of None \<Rightarrow> [] | Some d \<Rightarrow> [d]) rs) of
        [] \<Rightarrow> None | d # ds \<Rightarrow> Some (fold (+) (d # ds) 0))"

definition named_round :: "round list \<Rightarrow> round option" where
  "named_round rs =
     coalesce_opt (List.find (\<lambda>r. coalesce (rd_model r) [] \<noteq> [] \<and> rd_model r \<noteq> Some ''unknown'') rs)
       (case rs of [] \<Rightarrow> None | r # _ \<Rightarrow> Some r)"

definition mapInvocationUsageStatus :: "inv_status \<Rightarrow> string" where
  "mapInvocationUsageStatus s =
     (if s = Succeeded then ''succeeded'' else if s = Cancelled then ''cancelled'' else ''failed'')"

definition round_usage_row ::
    "price list \<Rightarrow> instant \<Rightarrow> invocation \<Rightarrow> string list \<Rightarrow> round list \<Rightarrow> round \<Rightarrow> string \<Rightarrow> 'a mt_server \<Rightarrow> usage_row" where
  "round_usage_row prices t v ledgerEntryIds rs named i st =
     (let meta = input_metadata v;
          pid = coalesce_opt (jstr_opt (jget meta ''projectId''))
                  (coalesce_opt (inv_projectId v) (fin_currentProjectId (world st)));
          tm = coalesce_opt (jstr_opt (jget meta ''teamId'')) (owning_team pid st);
          issue = issue_of_run meta st;
          chain = nullish_or (jget meta ''executionChainId'') (auto_run_chain (jget meta ''autoRunId'') st);
          (usd, p) = priceEvidenceForTokens prices
            \<lparr>ct_amountUsd = None, ct_inputTokens = round_sum rd_inputTokens rs,
             ct_cachedInputTokens = round_sum rd_cachedTokens rs,
             ct_outputTokens = round_sum rd_outputTokens rs, ct_billable = False,
             ct_model = rd_model named, ct_currency = None\<rparr> (inv_createdAt v)
      in \<lparr>aiu_userId = inv_requestedBy v, aiu_provider = Some (coalesce (rd_provider named) ''unknown''),
          aiu_inputTokens = round_sum rd_inputTokens rs, aiu_outputTokens = round_sum rd_outputTokens rs,
          aiu_estimatedCost = roundUsd usd, aiu_requestCount = int (length rs),
          ur_id = i, ur_teamId = tm, ur_agentId = Some (inv_agentId v), ur_invocationId = Some (inv_id v),
          ur_autoRunId = jget meta ''autoRunId'', ur_localIssueId = issue,
          ur_executionChainId = nullish_or chain issue, ur_projectId = pid,
          ur_budgetPoolId = budget_pool pid tm st, ur_quotaDecisionId = None,
          ur_model = coalesce (rd_model named) ''unknown'', ur_providerMode = ''byok'',
          ur_cachedTokens = round_sum rd_cachedTokens rs,
          ur_reasoningTokens = round_sum rd_reasoningTokens rs, ur_latencyMs = round_latency rs,
          ur_derivedFrom = ''rounds'', ur_pricingModelPriceId = map_option px_id p,
          ur_ledgerEntryIds = ledgerEntryIds, ur_status = mapInvocationUsageStatus (inv_status v),
          ur_createdAt = t\<rparr>)"

text \<open>The thresholds come from the environment: per-run micro-dollars, ratio, floor.\<close>

record anomaly_config =
  an_absolute :: int
  an_ratio :: int
  an_floor :: int

definition prior_costs :: "usage_row \<Rightarrow> 'a mt_server \<Rightarrow> int list" where
  "prior_costs u st =
     take 20 (filter (\<lambda>c. 0 < c) (map aiu_estimatedCost
       (filter (\<lambda>r. ur_id r \<noteq> ur_id u \<and> aiu_userId r = aiu_userId u) (mt_usages (world st)))))"

text \<open>The average is compared multiplied out by the number of prior runs: \<open>avg >= floor\<close> and
  \<open>cost >= ratio * avg\<close>.\<close>

definition is_spike :: "anomaly_config \<Rightarrow> int \<Rightarrow> int list \<Rightarrow> bool" where
  "is_spike cfg cost prior \<longleftrightarrow>
     (if prior = [] then an_floor cfg \<le> 0 \<and> 0 \<le> cost
      else an_floor cfg * int (length prior) \<le> sum_list prior
        \<and> an_ratio cfg * sum_list prior \<le> cost * int (length prior))"

definition anomaly_reason :: "anomaly_config \<Rightarrow> usage_row \<Rightarrow> 'a mt_server \<Rightarrow> string option" where
  "anomaly_reason cfg u st =
     (let cost = aiu_estimatedCost u
      in if cost \<le> 0 then None
         else if an_absolute cfg \<le> cost then Some ''absolute_threshold''
         else if is_spike cfg cost (prior_costs u st) then Some ''spike_vs_recent''
         else None)"

definition detectCostAnomaly :: "anomaly_config \<Rightarrow> instant \<Rightarrow> usage_row \<Rightarrow> 'a mt_server \<Rightarrow> 'a mt_server" where
  "detectCostAnomaly cfg t u st =
     (case anomaly_reason cfg u st of
        None \<Rightarrow> st
      | Some reason \<Rightarrow>
          append_event t
            (mk_ev (ur_invocationId u) ''alert_triggered'' ''warn''
              (''Cost anomaly: $'' @ show_usd (aiu_estimatedCost u) @ '' on one run ('' @ reason @ '').'')
              (JObj [(''kind'', JStr ''cost_anomaly''), (''reason'', JStr reason),
                     (''costUsd'', JNum (aiu_estimatedCost u)), (''subjectId'', JStr (aiu_userId u)),
                     (''agentId'', jstr (ur_agentId u)), (''invocationId'', jstr (ur_invocationId u))])) st)"

definition round_usage_event :: "usage_row \<Rightarrow> event_in" where
  "round_usage_event u =
     mk_ev (ur_invocationId u) ''ai_usage_recorded'' ''info''
       (''AI usage summed from '' @ show_int (aiu_requestCount u) @ '' round(s) for ''
         @ coalesce (aiu_provider u) [] @ ''/'' @ ur_model u @ ''.'')
       (JObj [(''usageRecordId'', JStr (ur_id u)), (''derivedFrom'', JStr ''rounds''),
              (''roundCount'', JNum (aiu_requestCount u)), (''inputTokens'', JNum (aiu_inputTokens u)),
              (''outputTokens'', JNum (aiu_outputTokens u)), (''projectId'', jstr (ur_projectId u)),
              (''teamId'', jstr (ur_teamId u)), (''autoRunId'', ur_autoRunId u),
              (''pricingModelPriceId'', jstr (ur_pricingModelPriceId u))])"

definition link_rounds :: "string \<Rightarrow> string \<Rightarrow> 'a mt_server \<Rightarrow> 'a mt_server" where
  "link_rounds i uid st = st\<lparr>world := (world st)\<lparr>mt_rounds :=
     upd_where (\<lambda>r. rd_invocationId r = i) (\<lambda>r. r\<lparr>rd_usageRecordId := Some uid\<rparr>) (mt_rounds (world st))\<rparr>\<rparr>"

definition recordInvocationRoundUsage ::
    "price list \<Rightarrow> anomaly_config \<Rightarrow> instant \<Rightarrow> invocation \<Rightarrow> string list \<Rightarrow> 'a mt_server
     \<Rightarrow> usage_row option \<times> 'a mt_server" where
  "recordInvocationRoundUsage prices cfg t v ledgerEntryIds st =
     (let rs = run_rounds (inv_id v) st
      in case named_round rs of
           None \<Rightarrow> (None, st)
         | Some named \<Rightarrow>
             (let (i, st1) = next_id ''aiu_demo'' st;
                  u = round_usage_row prices t v ledgerEntryIds rs named i st;
                  st2 = link_rounds (inv_id v) i (add_usage u st1);
                  st3 = accrueUsageQuota t (ai_usage.truncate u) st2
              in (Some u, append_event t (round_usage_event u) (detectCostAnomaly cfg t u st3))))"

section \<open>Platform-managed AI\<close>

text \<open>The request after the defaults: \<open>estimatedCost\<close> read as a number (\<open>None\<close> when it is not one).\<close>

record ai_request =
  ar_invocationId :: "string option"
  ar_userId :: string
  ar_teamId :: "string option"
  ar_agentId :: "string option"
  ar_provider :: string
  ar_model :: string
  ar_providerMode :: string
  ar_requestCount :: int
  ar_inputTokens :: int
  ar_outputTokens :: int
  ar_estimatedCost :: "int option"
  ar_costOwner :: "string option"
  ar_allowedModels :: "string list option"
  ar_credentialState :: "string option"
  ar_projectId :: "string option"

definition provider_modes :: "string list" where
  "provider_modes = [''byok'', ''platform_managed'', ''local_model'', ''disabled'']"

definition normalizeProviderMode :: "string option \<Rightarrow> string \<Rightarrow> string" where
  "normalizeProviderMode v fallback =
     (let n = js_trim (coalesce v fallback) in if n \<in> set provider_modes then n else fallback)"

definition governs :: "ai_request \<Rightarrow> quota_policy \<Rightarrow> bool" where
  "governs r p \<longleftrightarrow> qp_status p = ''enabled'' \<and> qp_providerMode p = ar_providerMode r
     \<and> qp_provider p = ar_provider r \<and> qp_model p = ar_model r \<and> qp_subjectId p = ar_userId r"

definition findQuotaPolicy :: "ai_request \<Rightarrow> 'a fin_server \<Rightarrow> quota_policy option" where
  "findQuotaPolicy r st = List.find (governs r) (fin_quotas (world st))"

text \<open>The limit check counts requests whatever the meter of the policy is; a USD limit is in dollars there.\<close>

definition quota_units :: "quota_policy \<Rightarrow> int \<Rightarrow> int" where
  "quota_units p n = (if qp_meter p = ''usd'' then n * 1000000 else n)"

definition quota_verdict :: "ai_request \<Rightarrow> quota_policy option \<Rightarrow> string \<times> string" where
  "quota_verdict r policy =
     (if ar_providerMode r = ''disabled'' then (''blocked_provider_disabled'', ''Provider mode is disabled.'')
      else if ar_providerMode r \<noteq> ''platform_managed''
      then (''allowed'', ''Provider mode is attributable but not SaaS-billable by default.'')
      else if ar_credentialState r = Some ''missing''
      then (''blocked_missing_credential'', ''Platform-managed provider credential is missing.'')
      else (case policy of
              None \<Rightarrow> (''blocked_quota_exceeded'', ''No enabled quota policy matched this platform-managed AI request.'')
            | Some p \<Rightarrow>
                if (case ar_allowedModels r of None \<Rightarrow> False | Some ms \<Rightarrow> ar_model r \<notin> set ms)
                then (''blocked_model_not_allowed'', ''Requested model is not allowed by policy.'')
                else if qp_limit p < qp_used p + quota_units p (max 1 (ar_requestCount r))
                then (''blocked_quota_exceeded'', ''Quota policy limit would be exceeded.'')
                else (''allowed'', ''Quota policy allowed the platform-managed AI request.'')))"

definition decideQuota ::
    "instant \<Rightarrow> ai_request \<Rightarrow> quota_policy option \<Rightarrow> 'a mt_server \<Rightarrow> quota_decision \<times> 'a mt_server" where
  "decideQuota t r policy st =
     (let (i, st1) = next_id ''qtd_demo'' st; (d, reason) = quota_verdict r policy
      in (\<lparr>qd_id = i, qd_policyId = map_option qp_id policy,
           qd_subjectType = (case policy of Some p \<Rightarrow> qp_subjectType p | None \<Rightarrow> ''user''),
           qd_subjectId = (case policy of Some p \<Rightarrow> qp_subjectId p | None \<Rightarrow> ar_userId r),
           qd_resourceId = ar_provider r @ ''/'' @ ar_model r, qd_providerMode = ar_providerMode r,
           qd_estimatedCost = ar_estimatedCost r, qd_decision = d, qd_reason = reason,
           qd_enforce = (ar_providerMode r = ''platform_managed''), qd_createdUsageRecordId = None,
           qd_createdLedgerEntryIds = [], qd_createdAt = t\<rparr>, st1))"

definition decision_event :: "ai_request \<Rightarrow> quota_decision \<Rightarrow> event_in" where
  "decision_event r d =
     mk_ev (ar_invocationId r) ''quota_checked'' (if qd_decision d = ''allowed'' then ''info'' else ''warn'')
       (''AI quota decision: '' @ qd_decision d @ ''.'')
       (JObj [(''id'', JStr (qd_id d)), (''policyId'', jstr (qd_policyId d)),
              (''subjectType'', JStr (qd_subjectType d)), (''subjectId'', JStr (qd_subjectId d)),
              (''resourceType'', JStr ''ai_model''), (''resourceId'', JStr (qd_resourceId d)),
              (''providerMode'', JStr (qd_providerMode d)), (''enforce'', JBool (qd_enforce d)),
              (''decision'', JStr (qd_decision d)), (''reason'', JStr (qd_reason d))])"

definition request_usage_row ::
    "instant \<Rightarrow> ai_request \<Rightarrow> quota_policy option \<Rightarrow> string \<Rightarrow> string \<Rightarrow> usage_row" where
  "request_usage_row t r policy decisionId i =
     \<lparr>aiu_userId = ar_userId r, aiu_provider = Some (ar_provider r),
      aiu_inputTokens = max 0 (ar_inputTokens r), aiu_outputTokens = max 0 (ar_outputTokens r),
      aiu_estimatedCost = coalesce (ar_estimatedCost r) 0, aiu_requestCount = max 1 (ar_requestCount r),
      ur_id = i, ur_teamId = coalesce_opt (ar_teamId r) (Option.bind policy qp_teamId),
      ur_agentId = ar_agentId r, ur_invocationId = ar_invocationId r, ur_autoRunId = JNull,
      ur_localIssueId = JNull, ur_executionChainId = JNull, ur_projectId = None, ur_budgetPoolId = None,
      ur_quotaDecisionId = Some decisionId, ur_model = ar_model r, ur_providerMode = ar_providerMode r,
      ur_cachedTokens = 0, ur_reasoningTokens = 0, ur_latencyMs = None,
      ur_derivedFrom = ''client_reported'', ur_pricingModelPriceId = None, ur_ledgerEntryIds = [],
      ur_status = ''succeeded'', ur_createdAt = t\<rparr>"

definition usage_ledger_entry ::
    "instant \<Rightarrow> ai_request \<Rightarrow> quota_policy option \<Rightarrow> usage_row \<Rightarrow> string \<Rightarrow> 'a fin_server \<Rightarrow> ledger_entry" where
  "usage_ledger_entry t r policy u i st =
     (let platform = ur_providerMode u = ''platform_managed''
      in \<lparr>le_id = i,
          le_projectId = (if coalesce (ar_projectId r) [] \<noteq> [] then ar_projectId r
            else coalesce_opt (fin_currentProjectId (world st)) (first_project_id st)),
          le_status = ''estimated'', le_amount = ar_estimatedCost r, le_amountSource = None,
          le_userId = aiu_userId u, le_teamId = ur_teamId u, le_agentId = ur_agentId u,
          le_invocationId = ur_invocationId u, le_autoRunId = JNull, le_localIssueId = JNull,
          le_executionChainId = JNull, le_sourceType = ''ai_usage'', le_sourceRecordId = ur_id u,
          le_economicModel = (if platform then ''platform_billed'' else ''unknown''),
          le_currency = (case policy of Some p \<Rightarrow> qp_currency p | None \<Rightarrow> ''USD''),
          le_costOwner = coalesce (ar_costOwner r) (case policy of Some p \<Rightarrow> qp_costOwner p | None \<Rightarrow> ''unknown''),
          le_budgetPoolId = None, le_model = ur_model u, le_provider = coalesce (aiu_provider u) [],
          le_billable = platform, le_createdAt = t, le_finalizedAt = None\<rparr>)"

definition createLedgerEntryForUsage ::
    "instant \<Rightarrow> ai_request \<Rightarrow> quota_policy option \<Rightarrow> usage_row \<Rightarrow> 'a mt_server \<Rightarrow> string \<times> 'a mt_server" where
  "createLedgerEntryForUsage t r policy u st =
     (let (i, st1) = next_id ''led_demo'' st
      in (i, append_event t
               (mk_ev (ur_invocationId u) ''ledger_entry_recorded'' ''info''
                 (''Ledger entry recorded for '' @ coalesce (aiu_provider u) [] @ ''/'' @ ur_model u @ ''.'')
                 (JObj [(''ledgerEntryId'', JStr i), (''usageRecordId'', JStr (ur_id u))]))
               (add_ledger (usage_ledger_entry t r policy u i st) st1)))"

definition spend_quota :: "instant \<Rightarrow> quota_policy option \<Rightarrow> usage_row \<Rightarrow> 'a fin_server \<Rightarrow> 'a fin_server" where
  "spend_quota t policy u st =
     (case policy of
        None \<Rightarrow> st
      | Some p \<Rightarrow>
          upd_fin (\<lambda>w. w\<lparr>fin_quotas := upd_where (\<lambda>x. qp_id x = qp_id p)
            (\<lambda>x. x\<lparr>qp_used := qp_used x + meterQuantity (ai_usage.truncate u) (qp_meter x), qp_updatedAt := t\<rparr>)
            (fin_quotas w)\<rparr>) st)"

definition add_decision :: "quota_decision \<Rightarrow> 'a mt_server \<Rightarrow> 'a mt_server" where
  "add_decision d st = st\<lparr>world := (world st)\<lparr>mt_decisions := push_cap 200 d (mt_decisions (world st))\<rparr>\<rparr>"

definition link_decision :: "string \<Rightarrow> string \<Rightarrow> string \<Rightarrow> 'a mt_server \<Rightarrow> 'a mt_server" where
  "link_decision di ui li st = st\<lparr>world := (world st)\<lparr>mt_decisions := upd_where (\<lambda>d. qd_id d = di)
     (\<lambda>d. d\<lparr>qd_createdUsageRecordId := Some ui, qd_createdLedgerEntryIds := [li]\<rparr>) (mt_decisions (world st))\<rparr>\<rparr>"

definition recordAiUsage ::
    "instant \<Rightarrow> ai_request \<Rightarrow> 'a mt_server \<Rightarrow> (quota_decision \<times> usage_row option \<times> bool) \<times> 'a mt_server" where
  "recordAiUsage t r st =
     (let policy = findQuotaPolicy r st;
          (d, st1) = decideQuota t r policy st;
          st2 = append_event t (decision_event r d) (add_decision d st1)
      in if ar_providerMode r = ''platform_managed'' \<and> qd_decision d \<noteq> ''allowed'' then ((d, None, True), st2)
         else
           (let (ui, st3) = next_id ''aiu_demo'' st2;
                u0 = request_usage_row t r policy (qd_id d) ui;
                (li, st4) = createLedgerEntryForUsage t r policy u0 st3;
                u = u0\<lparr>ur_ledgerEntryIds := [li]\<rparr>;
                st5 = link_decision (qd_id d) ui li st4;
                st6 = (if qd_decision d = ''allowed'' then spend_quota t policy u st5 else st5)
            in ((d\<lparr>qd_createdUsageRecordId := Some ui, qd_createdLedgerEntryIds := [li]\<rparr>, Some u, False),
                append_event t
                  (mk_ev (ur_invocationId u) ''ai_usage_recorded'' ''info''
                    (''AI usage recorded for '' @ ar_provider r @ ''/'' @ ar_model r @ ''.'')
                    (JObj [(''usageRecordId'', JStr ui), (''quotaDecisionId'', JStr (qd_id d)),
                           (''ledgerEntryIds'', JArr [JStr li])]))
                  (add_usage u st6))))"

definition enforcePlatformAiQuota ::
    "instant \<Rightarrow> ai_request \<Rightarrow> 'a mt_server \<Rightarrow> (bool \<times> quota_decision) \<times> 'a mt_server" where
  "enforcePlatformAiQuota t r st =
     (let ((d, u, blocked), st1) = recordAiUsage t (r\<lparr>ar_providerMode := ''platform_managed''\<rparr>) st
      in ((\<not> blocked, d), st1))"

section \<open>The longest matching prefix is the price\<close>

definition price_candidate :: "string \<Rightarrow> instant \<Rightarrow> price \<Rightarrow> bool" where
  "price_candidate key at p \<longleftrightarrow> in_force at p \<and> starts_with key (px_model p)"

lemma better_price_fold:
  "case fold (better_price key at) ps best of
     None \<Rightarrow> best = None \<and> list_all (\<lambda>p. \<not> price_candidate key at p) ps
   | Some b \<Rightarrow>
       (best = Some b \<or> b \<in> set ps \<and> price_candidate key at b)
       \<and> (\<forall>b0. best = Some b0 \<longrightarrow> length (px_model b0) \<le> length (px_model b))
       \<and> list_all (\<lambda>p. price_candidate key at p \<longrightarrow> length (px_model p) \<le> length (px_model b)) ps"
proof (induction ps arbitrary: best)
  case Nil
  then show ?case by (cases best) auto
next
  case (Cons p ps)
  let ?best = "better_price key at p best"
  show ?case
  proof (cases "fold (better_price key at) ps ?best")
    case None
    with Cons.IH [of ?best] have "?best = None" "list_all (\<lambda>p. \<not> price_candidate key at p) ps" by auto
    moreover from this(1) have "best = None" "\<not> price_candidate key at p"
      by (auto simp: better_price_def price_candidate_def split: if_splits option.splits)
    ultimately show ?thesis using None by simp
  next
    case (Some b)
    with Cons.IH [of ?best] have ih: "?best = Some b \<or> b \<in> set ps \<and> price_candidate key at b"
      "\<And>b0. ?best = Some b0 \<Longrightarrow> length (px_model b0) \<le> length (px_model b)"
      "list_all (\<lambda>p. price_candidate key at p \<longrightarrow> length (px_model p) \<le> length (px_model b)) ps" by auto
    have here: "price_candidate key at p \<longrightarrow> length (px_model p) \<le> length (px_model b)"
      using ih(2) by (force simp: better_price_def price_candidate_def split: option.splits if_splits)
    have before: "\<forall>b0. best = Some b0 \<longrightarrow> length (px_model b0) \<le> length (px_model b)"
      using ih(2) by (force simp: better_price_def split: option.splits if_splits)
    have from_here: "best = Some b \<or> b \<in> set (p # ps) \<and> price_candidate key at b"
      using ih(1) by (auto simp: better_price_def price_candidate_def split: if_splits)
    show ?thesis using Some here before from_here ih(3) by simp
  qed
qed

text \<open>The price of a model is the one, among the prices in force at the time of the run, whose name
  is a prefix of the model's, and the longest such; a model has no price exactly when there is none,
  and then its tokens cost nothing rather than a guess; a cost is never negative.\<close>

theorem price_longest_prefix:
  "(case priceForModel prices (Some model) at of
      None \<Rightarrow> model = [] \<or> list_all (\<lambda>p. \<not> price_candidate (js_lower model) at p) prices
    | Some b \<Rightarrow>
        b \<in> set prices \<and> price_candidate (js_lower model) at b
        \<and> filter (\<lambda>p. price_candidate (js_lower model) at p \<and> length (px_model b) < length (px_model p)) prices = [])
   \<and> 0 \<le> fst (priceEvidenceForTokens prices c at)
   \<and> (priceForModel prices (ct_model c) at = None) = (snd (priceEvidenceForTokens prices c at) = None)"
proof -
  have nil: "js_lower model = [] \<longleftrightarrow> model = []" by (simp add: js_lower_def)
  have "case priceForModel prices (Some model) at of
      None \<Rightarrow> model = [] \<or> list_all (\<lambda>p. \<not> price_candidate (js_lower model) at p) prices
    | Some b \<Rightarrow>
        b \<in> set prices \<and> price_candidate (js_lower model) at b
        \<and> filter (\<lambda>p. price_candidate (js_lower model) at p \<and> length (px_model b) < length (px_model p)) prices = []"
    using better_price_fold [where key = "js_lower model" and at = at and ps = prices and best = None]
    by (auto simp: priceForModel_def Let_def nil filter_empty_conv list_all_iff not_less split: option.splits)
  then show ?thesis by (auto simp: priceEvidenceForTokens_def split: option.splits)
qed

section \<open>The cap of the ledger never loses spend\<close>

lemma not_spend_adds_nothing:
  "\<not> is_spend e \<Longrightarrow> le_status e \<notin> {''voided'', ''cancelled''} \<Longrightarrow> add_entry e s = s"
proof -
  assume "\<not> is_spend e" and "le_status e \<notin> {''voided'', ''cancelled''}"
  then have "\<not> 0 < coalesce (le_amount e) 0" by (simp only: is_spend_def simp_thms)
  then have "ledgerEntryAmount e = 0" by (cases "le_amount e") (simp_all add: ledgerEntryAmount_def)
  then show ?thesis by (simp add: add_entry_def ledgerAmountSource_def)
qed

definition counted :: "'a fin_server \<Rightarrow> string option \<Rightarrow> ledger_entry \<Rightarrow> bool" where
  "counted st pid e \<longleftrightarrow> entry_project st e = pid \<and> le_status e \<notin> {''voided'', ''cancelled''}"

lemma cap_scan_spend:
  "fold add_entry (filter (counted st pid) (cap_scan cap n es)) s = fold add_entry (filter (counted st pid) es) s"
proof (induction cap n es arbitrary: s rule: cap_scan.induct)
  case (1 cap others)
  then show ?case by simp
next
  case (2 cap others e es)
  have "\<not> is_spend e \<Longrightarrow> counted st pid e \<Longrightarrow> add_entry e s = s"
    by (rule not_spend_adds_nothing) (simp_all add: counted_def)
  with 2 show ?case by simp
qed

lemma ledgerSpend_counted:
  "ledgerSpendForProject pid st =
     fold add_entry (filter (counted st pid) (fin_ledger (world st))) \<lparr>sd_finalizedUsd = 0, sd_estimatedUsd = 0\<rparr>"
  by (simp only: ledgerSpendForProject_def counted_def [abs_def])

lemma entry_project_upd_ledger [simp]: "entry_project (upd_fin (\<lambda>w. w\<lparr>fin_ledger := es\<rparr>) st) e = entry_project st e"
  by (simp add: entry_project_def)

lemma counted_upd_ledger [simp]: "counted (upd_fin (\<lambda>w. w\<lparr>fin_ledger := es\<rparr>) st) = counted st"
  by (intro ext) (simp only: counted_def entry_project_upd_ledger)

lemma cap_spend:
  "ledgerSpendForProject pid (upd_fin (\<lambda>w. w\<lparr>fin_ledger := capLedgerEntries cap (fin_ledger (world st))\<rparr>) st)
   = ledgerSpendForProject pid st"
proof -
  let ?st = "upd_fin (\<lambda>w. w\<lparr>fin_ledger := capLedgerEntries cap (fin_ledger (world st))\<rparr>) st"
  have "counted ?st pid e = counted st pid e" for e
    by (simp add: counted_def entry_project_def)
  then have c: "counted ?st pid = counted st pid" by (rule ext)
  show ?thesis unfolding ledgerSpend_counted c by (simp add: capLedgerEntries_def cap_scan_spend)
qed

text \<open>Cutting the ledger to its bound never changes the spend of any project, whatever the bound:
  rows that carry cost are kept, however old.\<close>

theorem cap_keeps_spend:
  "ledgerSpendForProject pid (upd_fin (\<lambda>w. w\<lparr>fin_ledger := capLedgerEntries cap (fin_ledger (world st))\<rparr>) st)
   = ledgerSpendForProject pid st"
  by (rule cap_spend)

lemma spent_fold: "spentUsd (fold add_entry es s) = spentUsd s + sum_list (map ledgerEntryAmount es)"
proof (induction es arbitrary: s)
  case Nil
  then show ?case by simp
next
  case (Cons e es)
  have "spentUsd (add_entry e s) = spentUsd s + ledgerEntryAmount e"
    by (auto simp: add_entry_def spentUsd_def ledgerAmountSource_def ledgerEntryAmount_def split: option.splits)
  with Cons show ?case by simp
qed

lemma spent_sum:
  "spentUsd (ledgerSpendForProject pid st)
   = sum_list (map ledgerEntryAmount (filter (counted st pid) (fin_ledger (world st))))"
  unfolding ledgerSpend_counted spent_fold by (simp add: spentUsd_def)

lemma spent_add_ledger:
  "spentUsd (ledgerSpendForProject pid (add_ledger e st))
   = (if counted st pid e then ledgerEntryAmount e else 0) + spentUsd (ledgerSpendForProject pid st)"
proof -
  let ?st = "upd_fin (\<lambda>w. w\<lparr>fin_ledger := e # fin_ledger (world st)\<rparr>) st"
  have eq: "add_ledger e st = upd_fin (\<lambda>w. w\<lparr>fin_ledger := capLedgerEntries 200 (fin_ledger (world ?st))\<rparr>) ?st"
    by (simp add: add_ledger_def upd_fin_def)
  have "counted ?st pid x = counted st pid x" for x
    by (simp add: counted_def entry_project_def)
  then have c: "counted ?st pid = counted st pid" by (rule ext)
  have "ledgerSpendForProject pid (add_ledger e st) = ledgerSpendForProject pid ?st"
    unfolding eq by (rule cap_spend)
  then show ?thesis by (simp add: spent_sum c)
qed

text \<open>The cost of a run is booked once and whole: a run that reports no cost and cannot be estimated
  leaves the state as it was (unless it is billable tokens, booked as zero); any other run adds one entry
  under a fresh id, and the spend of the project it is charged to grows by exactly its amount, that of
  every other project by nothing.\<close>

theorem run_cost_is_booked:
  "case recordInvocationLedgerEntry prices t v cost agent st of
     (None, st') \<Rightarrow> st' = st
       \<and> (case cost of None \<Rightarrow> True | Some c \<Rightarrow> fst (cost_source prices (inv_createdAt v) c) = ''unknown'')
   | (Some e, st') \<Rightarrow>
       le_invocationId e = Some (inv_id v) \<and> le_id e \<notin> set (issued_ids st)
       \<and> le_amountSource e \<in> {Some ''reported'', Some ''estimated'', Some ''unknown''}
       \<and> spentUsd (ledgerSpendForProject q st')
          = spentUsd (ledgerSpendForProject q st)
            + (if entry_project st e = q then max 0 (coalesce (le_amount e) 0) else 0)"
proof (cases cost)
  case None
  then show ?thesis by (simp add: recordInvocationLedgerEntry_def)
next
  case (Some c)
  obtain source usd p where src: "cost_source prices (inv_createdAt v) c = (source, usd, p)"
    by (cases "cost_source prices (inv_createdAt v) c") auto
  have source: "source \<in> {''reported'', ''estimated'', ''unknown''}"
    using src unfolding cost_source_def
    by (auto simp only: Let_def case_prod_beta prod.inject insert_iff split: option.splits if_splits)
  show ?thesis
  proof (cases "source = ''unknown'' \<and> \<not> (ct_billable c \<and> has_tokens c)")
    case True
    then show ?thesis using Some src by (simp add: recordInvocationLedgerEntry_def)
  next
    case False
    let ?n = "next_id ''led_demo'' st"
    let ?e = "run_ledger_entry t v c source usd agent (fst ?n) st"
    let ?st' = "append_event t (ledger_event c usd ?e) (add_ledger ?e (snd ?n))"
    have eq: "recordInvocationLedgerEntry prices t v cost agent st = (Some ?e, ?st')"
      unfolding recordInvocationLedgerEntry_def Some option.case src prod.case Let_def if_not_P [OF False]
      by (simp only: case_prod_beta)
    have fresh: "fst ?n \<notin> set (issued_ids st)" by (rule next_id_fresh)
    have entry: "le_id ?e = fst ?n" "le_invocationId ?e = Some (inv_id v)" "le_amountSource ?e = Some source"
      "le_amount ?e = Some (coalesce usd 0)" "le_status ?e = (if source = ''estimated'' then ''estimated'' else ''finalized'')"
      by (simp_all only: run_ledger_entry_def Let_def ledger_entry.simps)
    have status: "le_status ?e \<notin> {''voided'', ''cancelled''}"
      unfolding entry by (cases "source = ''estimated''") simp_all
    have books: "same_books (add_ledger ?e (snd ?n)) ?st'" by (simp add: same_books_def)
    have before: "same_books st (snd ?n)" by (simp add: same_books_def)
    have proj: "entry_project (snd ?n) = entry_project st"
      using before by (intro ext) (simp add: entry_project_def same_books_def)
    have amount: "ledgerEntryAmount ?e = max 0 (coalesce usd 0)"
      unfolding ledgerEntryAmount_def entry by (simp add: max_def)
    have "spentUsd (ledgerSpendForProject q ?st') = spentUsd (ledgerSpendForProject q (add_ledger ?e (snd ?n)))"
      by (simp only: same_books_spend(1) [OF books])
    also have "\<dots> = (if counted (snd ?n) q ?e then ledgerEntryAmount ?e else 0)
        + spentUsd (ledgerSpendForProject q (snd ?n))"
      by (rule spent_add_ledger)
    also have "\<dots> = (if entry_project st ?e = q then max 0 (coalesce usd 0) else 0)
        + spentUsd (ledgerSpendForProject q st)"
      using status by (simp only: counted_def proj amount same_books_spend(1) [OF before] simp_thms)
    finally show ?thesis unfolding eq prod.case option.case entry using fresh source by auto
  qed
qed

section \<open>The platform quota is never exceeded\<close>

definition within_quota :: "quota_policy \<Rightarrow> bool" where
  "within_quota p \<longleftrightarrow>
     (qp_providerMode p = ''platform_managed'' \<and> qp_meter p = ''requests'' \<longrightarrow> qp_used p \<le> qp_limit p)"

definition quotas_kept :: "'a fin_server \<Rightarrow> bool" where
  "quotas_kept st \<longleftrightarrow>
     distinct (map qp_id (fin_quotas (world st))) \<and> list_all within_quota (fin_quotas (world st))"

lemma quotas_kept_upd:
  assumes "quotas_kept st"
    and "\<And>p. qp_id (f p) = qp_id p"
    and "\<And>p. p \<in> set (fin_quotas (world st)) \<Longrightarrow> Q p \<Longrightarrow> within_quota p \<Longrightarrow> within_quota (f p)"
  shows "quotas_kept (upd_fin (\<lambda>w. w\<lparr>fin_quotas := upd_where Q f (fin_quotas w)\<rparr>) st)"
proof -
  have "map qp_id (upd_where Q f ps) = map qp_id ps" for ps
    by (rule map_upd_where) (rule assms(2))
  moreover have "list_all within_quota (upd_where Q f (fin_quotas (world st)))"
    using assms(1, 3) by (auto simp: quotas_kept_def list_all_iff set_upd_where)
  ultimately show ?thesis using assms(1) by (simp add: quotas_kept_def)
qed

lemma quotas_kept_cong:
  "fin_quotas (world st') = fin_quotas (world st) \<Longrightarrow> quotas_kept st' = quotas_kept st"
  by (simp add: quotas_kept_def)

lemma accrue_keeps: "quotas_kept st \<Longrightarrow> quotas_kept (accrueUsageQuota t u st)"
  unfolding accrueUsageQuota_def
proof (rule quotas_kept_upd)
  fix p assume "covers (aiu_userId u) (aiu_provider u) p \<and> metered p"
  then have "metered p" by blast
  then have "qp_meter p \<noteq> ''requests''" unfolding metered_def .
  then show "within_quota (p\<lparr>qp_used := qp_used p + meterQuantity u (qp_meter p), qp_updatedAt := t\<rparr>)"
    by (simp add: within_quota_def)
qed simp_all

lemma decideQuota_simps [simp]:
  "world (snd (decideQuota t r policy st)) = world st"
  "qd_decision (fst (decideQuota t r policy st)) = fst (quota_verdict r policy)"
  "projects (snd (decideQuota t r policy st)) = projects st"
  by (simp_all add: decideQuota_def case_prod_beta Let_def)

lemma metering_frame [simp]:
  "fin_quotas (world (add_decision d st)) = fin_quotas (world st)"
  "fin_ledger (world (add_decision d st)) = fin_ledger (world st)"
  "mt_usages (world (add_decision d st)) = mt_usages (world st)"
  "fin_quotas (world (link_decision i ui li st)) = fin_quotas (world st)"
  "fin_quotas (world (add_usage u st)) = fin_quotas (world st)"
  "fin_quotas (world (add_ledger e st)) = fin_quotas (world st)"
  "fin_quotas (world (snd (createLedgerEntryForUsage t r policy u st))) = fin_quotas (world st)"
  by (simp_all add: add_decision_def link_decision_def add_usage_def add_ledger_def
      createLedgerEntryForUsage_def case_prod_beta Let_def)

lemma verdict_allowed:
  assumes "fst (quota_verdict r policy) = ''allowed''" and "ar_providerMode r = ''platform_managed''"
  obtains p where "policy = Some p" and "qp_used p + quota_units p (max 1 (ar_requestCount r)) \<le> qp_limit p"
proof (cases policy)
  case None
  with assms show thesis by (simp add: quota_verdict_def split: if_splits)
next
  case (Some p)
  have "\<not> qp_limit p < qp_used p + quota_units p (max 1 (ar_requestCount r))"
  proof
    assume "qp_limit p < qp_used p + quota_units p (max 1 (ar_requestCount r))"
    with assms Some show False by (simp add: quota_verdict_def split: if_splits)
  qed
  then show thesis by (intro that [OF Some]) (simp only: not_less)
qed

lemma findQuotaPolicy_SomeD:
  assumes "findQuotaPolicy r st = Some p"
  shows "p \<in> set (fin_quotas (world st))" and "qp_providerMode p = ar_providerMode r"
  using find_SomeD [OF assms [unfolded findQuotaPolicy_def]] by (simp_all only: governs_def)

lemma spend_keeps:
  assumes "quotas_kept st" and "policy = findQuotaPolicy r st'" and "fin_quotas (world st') = fin_quotas (world st)"
    and "fst (quota_verdict r policy) = ''allowed''"
    and "aiu_requestCount u = max 1 (ar_requestCount r)"
  shows "quotas_kept (spend_quota t policy u st)"
proof (cases policy)
  case None
  with assms(1) show ?thesis by (simp add: spend_quota_def)
next
  case (Some p)
  from findQuotaPolicy_SomeD [of r st' p] Some assms(2, 3)
  have p: "p \<in> set (fin_quotas (world st))" "qp_providerMode p = ar_providerMode r" by simp_all
  show ?thesis unfolding spend_quota_def Some option.case
  proof (rule quotas_kept_upd [OF assms(1)])
    fix x assume x: "x \<in> set (fin_quotas (world st))" "qp_id x = qp_id p"
    have "x = p" by (rule distinct_key_eq [OF _ x(1) p(1) x(2)]) (use assms(1) in \<open>simp add: quotas_kept_def\<close>)
    show "within_quota (x\<lparr>qp_used := qp_used x + meterQuantity (ai_usage.truncate u) (qp_meter x), qp_updatedAt := t\<rparr>)"
    proof (cases "qp_providerMode p = ''platform_managed'' \<and> qp_meter p = ''requests''")
      case True
      with p(2) have mode: "ar_providerMode r = ''platform_managed''" by simp
      from verdict_allowed [OF assms(4) mode] Some
      have "qp_used p + quota_units p (max 1 (ar_requestCount r)) \<le> qp_limit p" by blast
      moreover have "meterQuantity (ai_usage.truncate u) ''requests'' = max 1 (aiu_requestCount u)"
        by (simp add: meterQuantity_def ai_usage.truncate_def)
      ultimately show ?thesis using True assms(5) \<open>x = p\<close>
        by (simp add: within_quota_def quota_units_def)
    next
      case False
      moreover have "qp_providerMode (p\<lparr>qp_used := n, qp_updatedAt := t\<rparr>) = qp_providerMode p"
        "qp_meter (p\<lparr>qp_used := n, qp_updatedAt := t\<rparr>) = qp_meter p" for n by simp_all
      ultimately show ?thesis unfolding \<open>x = p\<close> within_quota_def by (simp only: simp_thms)
    qed
  qed simp_all
qed

text \<open>The request quota of platform-managed AI is never exceeded: recording a use keeps every such
  policy within its limit, and so does the accrual of a run's own usage.  A use is blocked exactly when it
  is platform-managed and not allowed, and then quotas, ledger and usage rows stay as they were; one that
  passes was matched by a policy with room for it.\<close>

theorem platform_quota_kept:
  assumes "quotas_kept st"
  shows "case recordAiUsage t r st of
      ((d, u, blocked), st') \<Rightarrow>
        quotas_kept st' \<and> quotas_kept (accrueUsageQuota t' x st)
        \<and> blocked = (ar_providerMode r = ''platform_managed'' \<and> qd_decision d \<noteq> ''allowed'')
        \<and> (if blocked
           then u = None \<and> fin_quotas (world st') = fin_quotas (world st)
             \<and> fin_ledger (world st') = fin_ledger (world st) \<and> mt_usages (world st') = mt_usages (world st)
           else u \<noteq> None
             \<and> (if ar_providerMode r = ''platform_managed''
                then (case findQuotaPolicy r st of
                        None \<Rightarrow> False
                      | Some p \<Rightarrow> qp_used p + quota_units p (max 1 (ar_requestCount r)) \<le> qp_limit p)
                else True))"
proof -
  let ?policy = "findQuotaPolicy r st"
  obtain d st1 where dq: "decideQuota t r ?policy st = (d, st1)"
    by (cases "decideQuota t r ?policy st") auto
  have d: "qd_decision d = fst (quota_verdict r ?policy)" and st1: "world st1 = world st"
    using decideQuota_simps(1, 2) [of t r ?policy st] unfolding dq by simp_all
  let ?st2 = "append_event t (decision_event r d) (add_decision d st1)"
  have st2: "fin_quotas (world ?st2) = fin_quotas (world st)" "fin_ledger (world ?st2) = fin_ledger (world st)"
    "mt_usages (world ?st2) = mt_usages (world st)" by (simp_all add: st1)
  show ?thesis
  proof (cases "ar_providerMode r = ''platform_managed'' \<and> qd_decision d \<noteq> ''allowed''")
    case True
    have eq: "recordAiUsage t r st = ((d, None, True), ?st2)"
      unfolding recordAiUsage_def Let_def dq prod.case using True by simp
    show ?thesis unfolding eq prod.case
      using True assms st2 accrue_keeps [OF assms] quotas_kept_cong [OF st2(1)] by simp
  next
    case False
    let ?n = "next_id ''aiu_demo'' ?st2"
    let ?u0 = "request_usage_row t r ?policy (qd_id d) (fst ?n)"
    let ?l = "createLedgerEntryForUsage t r ?policy ?u0 (snd ?n)"
    let ?u = "?u0\<lparr>ur_ledgerEntryIds := [fst ?l]\<rparr>"
    let ?st5 = "link_decision (qd_id d) (fst ?n) (fst ?l) (snd ?l)"
    let ?st6 = "if qd_decision d = ''allowed'' then spend_quota t ?policy ?u ?st5 else ?st5"
    obtain d' st' where eq: "recordAiUsage t r st = ((d', Some ?u, False), st')"
      and d': "qd_decision d' = qd_decision d" and st': "fin_quotas (world st') = fin_quotas (world ?st6)"
    proof -
      have "recordAiUsage t r st =
        ((d\<lparr>qd_createdUsageRecordId := Some (fst ?n), qd_createdLedgerEntryIds := [fst ?l]\<rparr>, Some ?u, False),
         append_event t
                  (mk_ev (ur_invocationId ?u) ''ai_usage_recorded'' ''info''
                    (''AI usage recorded for '' @ ar_provider r @ ''/'' @ ar_model r @ ''.'')
                    (JObj [(''usageRecordId'', JStr (fst ?n)), (''quotaDecisionId'', JStr (qd_id d)),
                           (''ledgerEntryIds'', JArr [JStr (fst ?l)])]))
                  (add_usage ?u ?st6))"
        unfolding recordAiUsage_def Let_def dq prod.case if_not_P [OF False] by (simp only: case_prod_beta)
      then show thesis by (intro that) (assumption, simp, simp)
    qed
    have st5: "fin_quotas (world ?st5) = fin_quotas (world st)" using st2(1) by simp
    have kept5: "quotas_kept ?st5" using assms quotas_kept_cong [OF st5] by simp
    have kept: "quotas_kept ?st6"
    proof (cases "qd_decision d = ''allowed''")
      case True
      then have "fst (quota_verdict r ?policy) = ''allowed''" unfolding d .
      from spend_keeps [OF kept5 HOL.refl st5 [symmetric] this, where u = ?u and t = t]
      show ?thesis using True by (simp add: request_usage_row_def)
    qed (use kept5 in simp)
    have room: "case ?policy of None \<Rightarrow> False
        | Some p \<Rightarrow> qp_used p + quota_units p (max 1 (ar_requestCount r)) \<le> qp_limit p"
      if mode: "ar_providerMode r = ''platform_managed''"
    proof -
      from mode False have "qd_decision d = ''allowed''" by blast
      then have "fst (quota_verdict r ?policy) = ''allowed''" unfolding d .
      then obtain p where p: "?policy = Some p" "qp_used p + quota_units p (max 1 (ar_requestCount r)) \<le> qp_limit p"
        using mode by (rule verdict_allowed)
      show ?thesis unfolding p(1) option.case by (rule p(2))
    qed
    have kept': "quotas_kept st'" using kept quotas_kept_cong [OF st'] by (simp only:)
    have "False = (ar_providerMode r = ''platform_managed'' \<and> qd_decision d' \<noteq> ''allowed'')"
      using False unfolding d' by (simp only:)
    moreover have "if ar_providerMode r = ''platform_managed''
        then (case ?policy of None \<Rightarrow> False
              | Some p \<Rightarrow> qp_used p + quota_units p (max 1 (ar_requestCount r)) \<le> qp_limit p)
        else True"
      using room unfolding if_bool_eq_conj by blast
    ultimately show ?thesis unfolding eq prod.case if_False
      using kept' accrue_keeps [OF assms] by (intro conjI) (assumption | rule option.distinct(2))+
  qed
qed

definition demo_metering :: metering where
  "demo_metering = \<lparr>fin_currentProjectId = None, fin_teams = [], fin_ledger = [], fin_budgets = [],
     fin_reservations = [],
     fin_quotas = [\<lparr>qp_id = ''qtp_1'', qp_status = ''enabled'', qp_subjectId = ''usr_local'',
       qp_provider = ''openai'', qp_model = ''default'', qp_providerMode = ''platform_managed'',
       qp_subjectType = ''user'', qp_teamId = None, qp_currency = ''USD'', qp_costOwner = ''usr_local'',
       qp_meter = ''requests'', qp_enforcement = ''block'', qp_limit = 10, qp_used = 10, qp_updatedAt = 1\<rparr>],
     mt_rounds = [], mt_usages = [], mt_decisions = [], mt_autoRunChains = []\<rparr>"

definition demo_request :: ai_request where
  "demo_request = \<lparr>ar_invocationId = Some ''inv_1'', ar_userId = ''usr_local'', ar_teamId = None,
     ar_agentId = None, ar_provider = ''openai'', ar_model = ''default'',
     ar_providerMode = ''platform_managed'', ar_requestCount = 1, ar_inputTokens = 0,
     ar_outputTokens = 0, ar_estimatedCost = None, ar_costOwner = None, ar_allowedModels = None,
     ar_credentialState = None, ar_projectId = None\<rparr>"

theorem platform_quota_kept_witness:
  "quotas_kept (snd (recordAiUsage 5 demo_request (demo_server_with demo_metering [])))"
proof -
  have "quotas_kept (demo_server_with demo_metering [])"
    by (simp add: quotas_kept_def demo_metering_def within_quota_def)
  from platform_quota_kept [OF this, where t = 5 and r = demo_request and t' = 5 and x = undefined]
  show ?thesis by (simp add: case_prod_beta)
qed

end
