(* ===== verification/DirectHttp.thy ===== *)
theory DirectHttp
  imports Completion
begin

text \<open>
  services/invocations/direct-http.mjs: requests to remote HTTP agents, at most \<open>hr_max\<close> at a time and
  \<open>hr_perAgentMax\<close> per agent, with a waiting queue.  A launch runs up to the first await of the request
  (registered, started, logged); \<open>http_settle\<close> is the rest: the outcome of the request completes the
  invocation, the slot is freed and the queue drained.  The outcome (response, timeout, abort, network
  error) is the body that the code builds from it.
\<close>

definition agent_active :: "string \<Rightarrow> http_runtime \<Rightarrow> nat" where
  "agent_active a h = coalesce (map_of (hr_activeByAgent h) a) 0"

definition hasCapacity :: "string \<Rightarrow> http_runtime \<Rightarrow> bool" where
  "hasCapacity a h \<longleftrightarrow> hr_activeCount h < hr_max h \<and> agent_active a h < hr_perAgentMax h"

definition set_http :: "(http_runtime \<Rightarrow> http_runtime) \<Rightarrow> 'w server \<Rightarrow> 'w server" where
  "set_http f st = st\<lparr>http := f (http st)\<rparr>"

text \<open>\<open>delete metadata.remoteConcurrencyState\<close>, when it is set.\<close>

fun jdelete :: "json \<Rightarrow> string \<Rightarrow> json" where
  "jdelete (JObj kvs) k = JObj (filter (\<lambda>kv. fst kv \<noteq> k) kvs)"
| "jdelete v k = v"

definition launched_row :: "instant \<Rightarrow> invocation \<Rightarrow> invocation" where
  "launched_row t v =
     v\<lparr>inv_status := Running, inv_updatedAt := t,
       inv_options := (if truthy (jget (inv_metadata v) ''remoteConcurrencyState'')
         then jset (inv_options v) ''metadata'' (jdelete (inv_metadata v) ''remoteConcurrencyState'')
         else inv_options v)\<rparr>"

definition claim_slot :: "string \<Rightarrow> string \<Rightarrow> http_runtime \<Rightarrow> http_runtime" where
  "claim_slot i a h =
     h\<lparr>hr_activeCount := hr_activeCount h + 1,
       hr_activeByAgent := assoc_set a (agent_active a h + 1) (hr_activeByAgent h),
       hr_live := (i, a) # hr_live h\<rparr>"

definition http_launch :: "instant \<Rightarrow> string \<Rightarrow> agent \<Rightarrow> 'w server \<Rightarrow> 'w server" where
  "http_launch t i a st =
     append_events t
       [mk_ev (Some i) ''invocation_started'' ''info'' (ag_name a @ '' invocation started.'') JNull,
        mk_ev (Some i) ''log'' ''info'' (''HTTP Agent request started for '' @ ag_name a @ ''.'') JNull]
       (upd_inv i (launched_row t) (set_http (claim_slot i (ag_id a)) st))"

definition waiting_row :: "instant \<Rightarrow> invocation \<Rightarrow> invocation" where
  "waiting_row t v =
     v\<lparr>inv_status := Queued, inv_updatedAt := t,
       inv_options := jset (JObj (case inv_options v of JObj kvs \<Rightarrow> kvs | _ \<Rightarrow> [])) ''metadata''
         (jset (JObj (case inv_metadata v of JObj kvs \<Rightarrow> kvs | _ \<Rightarrow> [])) ''remoteConcurrencyState'' (JStr ''queued''))\<rparr>"

definition is_remote_http :: "agent \<Rightarrow> bool" where
  "is_remote_http a \<longleftrightarrow> ad_type (ag_adapter a) = ''http'' \<and> loc_type (ag_location a) = ''remote_http''"

definition startInvocationIfAllowed :: "instant \<Rightarrow> string \<Rightarrow> agent option \<Rightarrow> 'w server \<Rightarrow> 'w server" where
  "startInvocationIfAllowed t i agent st =
     (case (agent, find_inv i st) of
        (Some a, Some v) \<Rightarrow>
          if inv_status v = WaitingForLocalApproval \<or> is_terminal (inv_status v) then st
          else if \<not> is_remote_http a then st
          else if i \<in> set (hr_scheduled (http st)) \<or> i \<in> fst ` set (hr_live (http st)) then st
          else
            (let st1 = set_http (\<lambda>h. h\<lparr>hr_scheduled := i # hr_scheduled h\<rparr>) st
             in if hasCapacity (ag_id a) (http st1) then http_launch t i a st1
                else append_event t
                  (mk_ev (Some i) ''remote_http_queued'' ''info''
                    ''HTTP Agent request is waiting for remote execution capacity.'' JNull)
                  (set_http (\<lambda>h. h\<lparr>hr_pending := hr_pending h @ [(i, a)]\<rparr>)
                    (upd_inv i (waiting_row t) st1)))
      | _ \<Rightarrow> st)"

text \<open>The loop over \<open>pending\<close>: \<open>kept\<close> are the entries passed over.\<close>

fun drainPending :: "instant \<Rightarrow> (string \<times> agent) list \<Rightarrow> (string \<times> agent) list \<Rightarrow> 'w server \<Rightarrow> 'w server" where
  "drainPending t [] kept st = set_http (\<lambda>h. h\<lparr>hr_pending := kept\<rparr>) st"
| "drainPending t ((i, a) # es) kept st =
     (if (case find_inv i st of Some v \<Rightarrow> is_terminal (inv_status v) | None \<Rightarrow> False)
      then drainPending t es kept
             (set_http (\<lambda>h. h\<lparr>hr_scheduled := filter (\<lambda>s. s \<noteq> i) (hr_scheduled h)\<rparr>) st)
      else if \<not> hasCapacity (ag_id a) (http st) then drainPending t es (kept @ [(i, a)]) st
      else drainPending t es kept (http_launch t i a st))"

definition free_slot :: "string \<Rightarrow> string \<Rightarrow> http_runtime \<Rightarrow> http_runtime" where
  "free_slot i a h =
     (let n = coalesce (map_of (hr_activeByAgent h) a) 1 - 1
      in h\<lparr>hr_activeCount := hr_activeCount h - 1,
           hr_activeByAgent := (if n = 0 then filter (\<lambda>kv. fst kv \<noteq> a) (hr_activeByAgent h)
                                else assoc_set a n (hr_activeByAgent h)),
           hr_live := filter (\<lambda>x. fst x \<noteq> i) (hr_live h),
           hr_scheduled := filter (\<lambda>s. s \<noteq> i) (hr_scheduled h)\<rparr>)"

definition http_settle :: "'w hooks \<Rightarrow> instant \<Rightarrow> string \<Rightarrow> completion \<Rightarrow> 'w server \<Rightarrow> 'w server" where
  "http_settle hk t i outcome st =
     (case map_of (hr_live (http st)) i of
        None \<Rightarrow> st
      | Some a \<Rightarrow>
          (let st1 = set_http (free_slot i a) (completeInvocation hk t i outcome st)
           in drainPending t (hr_pending (http st1)) [] st1))"

definition abortDirectHttpRun :: "instant \<Rightarrow> string \<Rightarrow> 'w server \<Rightarrow> bool \<times> 'w server" where
  "abortDirectHttpRun t i st =
     (if i \<in> fst ` set (hr_live (http st))
      then (True, append_event t
              (mk_ev (Some i) ''cancel_dispatched'' ''info'' ''Server aborted the HTTP Agent request.'' JNull) st)
      else (False, st))"

section \<open>The runtime keeps its limits\<close>

definition count_agent :: "string \<Rightarrow> (string \<times> string) list \<Rightarrow> nat" where
  "count_agent a xs = length (filter (\<lambda>x. snd x = a) xs)"

text \<open>The counters count what is in flight, the limits hold, every scheduled id is either in flight or
  waiting, once, and nothing waits for a slot that is free.\<close>

definition slots_within :: "http_runtime \<Rightarrow> bool" where
  "slots_within h \<longleftrightarrow>
     hr_activeCount h = length (hr_live h) \<and> hr_activeCount h \<le> hr_max h
     \<and> (\<forall>a. agent_active a h = count_agent a (hr_live h) \<and> agent_active a h \<le> hr_perAgentMax h)
     \<and> distinct (map fst (hr_activeByAgent h)) \<and> distinct (map fst (hr_live h))"

definition queue_ok :: "(string \<times> agent) list \<Rightarrow> http_runtime \<Rightarrow> bool" where
  "queue_ok es h \<longleftrightarrow>
     distinct (map fst es) \<and> fst ` set es \<inter> fst ` set (hr_live h) = {}
     \<and> set (hr_scheduled h) = fst ` set (hr_live h) \<union> fst ` set es"

definition no_idle_slot :: "(string \<times> agent) list \<Rightarrow> http_runtime \<Rightarrow> bool" where
  "no_idle_slot es h \<longleftrightarrow> list_all (\<lambda>e. \<not> hasCapacity (ag_id (snd e)) h) es"

definition http_ok :: "http_runtime \<Rightarrow> bool" where
  "http_ok h \<longleftrightarrow> slots_within h \<and> queue_ok (hr_pending h) h \<and> no_idle_slot (hr_pending h) h"

lemma http_set_http [simp]: "http (set_http f st) = f (http st)"
  by (simp add: set_http_def)

lemma find_inv_set_http [simp]: "find_inv i (set_http f st) = find_inv i st"
  by (simp add: set_http_def find_inv_def)

lemma http_launch_http [simp]: "http (http_launch t i a st) = claim_slot i (ag_id a) (http st)"
  by (simp add: http_launch_def)

lemma agent_active_claim:
  "agent_active b (claim_slot i a h) = (if a = b then agent_active b h + 1 else agent_active b h)"
  by (simp add: agent_active_def claim_slot_def)

lemma claim_slots:
  assumes "slots_within h" and "hasCapacity a h" and "i \<notin> fst ` set (hr_live h)"
  shows "slots_within (claim_slot i a h)"
  unfolding slots_within_def agent_active_claim
  using assms by (auto simp: slots_within_def hasCapacity_def count_agent_def claim_slot_def) metis

lemma claim_no_more_capacity: "\<not> hasCapacity b h \<Longrightarrow> \<not> hasCapacity b (claim_slot i a h)"
  unfolding hasCapacity_def agent_active_claim by (auto simp: claim_slot_def)

lemma claim_no_idle: "no_idle_slot es h \<Longrightarrow> no_idle_slot es (claim_slot i a h)"
  by (auto simp: no_idle_slot_def list_all_iff claim_no_more_capacity)

lemma claim_simps [simp]:
  "hr_live (claim_slot i a h) = (i, a) # hr_live h" "hr_pending (claim_slot i a h) = hr_pending h"
  "hr_scheduled (claim_slot i a h) = hr_scheduled h"
  by (simp_all add: claim_slot_def)

lemma hasCapacity_cong:
  "hr_activeCount h' = hr_activeCount h \<Longrightarrow> hr_max h' = hr_max h \<Longrightarrow>
   hr_activeByAgent h' = hr_activeByAgent h \<Longrightarrow> hr_perAgentMax h' = hr_perAgentMax h \<Longrightarrow>
   hasCapacity a h' = hasCapacity a h"
  by (simp add: hasCapacity_def agent_active_def)

lemma same_counters [simp]:
  "hasCapacity a (h\<lparr>hr_pending := p\<rparr>) = hasCapacity a h"
  "hasCapacity a (h\<lparr>hr_scheduled := s\<rparr>) = hasCapacity a h"
  "slots_within (h\<lparr>hr_pending := p\<rparr>) = slots_within h"
  "slots_within (h\<lparr>hr_scheduled := s\<rparr>) = slots_within h"
  "no_idle_slot es (h\<lparr>hr_pending := p\<rparr>) = no_idle_slot es h"
  "no_idle_slot es (h\<lparr>hr_scheduled := s\<rparr>) = no_idle_slot es h"
  "queue_ok es (h\<lparr>hr_pending := p\<rparr>) = queue_ok es h"
  by (simp_all add: hasCapacity_def agent_active_def slots_within_def no_idle_slot_def queue_ok_def)

text \<open>The drain keeps the invariant of the part of the queue it has passed and of the part before it.\<close>

lemma drain_ok:
  assumes "slots_within (http st)" and "queue_ok (kept @ es) (http st)" and "no_idle_slot kept (http st)"
  shows "http_ok (http (drainPending t es kept st))"
  using assms
proof (induction t es kept st rule: drainPending.induct)
  case (1 t kept st)
  then show ?case by (simp add: http_ok_def)
next
  case (2 t i a es kept st)
  let ?done = "case find_inv i st of Some v \<Rightarrow> is_terminal (inv_status v) | None \<Rightarrow> False"
  show ?case
  proof (cases ?done)
    case True
    let ?st = "set_http (\<lambda>h. h\<lparr>hr_scheduled := filter (\<lambda>s. s \<noteq> i) (hr_scheduled h)\<rparr>) st"
    have "queue_ok (kept @ es) (http ?st)"
      using 2(5) by (auto simp: queue_ok_def image_iff)
    with 2 True show ?thesis by simp
  next
    case no: False
    show ?thesis
    proof (cases "hasCapacity (ag_id a) (http st)")
      case True
      have "i \<notin> fst ` set (hr_live (http st))" using 2(5) by (auto simp: queue_ok_def)
      with claim_slots [OF 2(4) True] have "slots_within (http (http_launch t i a st))" by simp
      moreover have "queue_ok (kept @ es) (http (http_launch t i a st))"
        using 2(5) by (auto simp: queue_ok_def)
      moreover have "no_idle_slot kept (http (http_launch t i a st))"
        using 2(6) by (simp add: claim_no_idle)
      ultimately have "http_ok (http (drainPending t es kept (http_launch t i a st)))"
        using 2(3) no True by blast
      with no True show ?thesis by simp
    next
      case False
      with 2 no have "http_ok (http (drainPending t es (kept @ [(i, a)]) st))"
        by (simp add: no_idle_slot_def)
      with no False show ?thesis by simp
    qed
  qed
qed

lemma map_of_delete: "map_of (filter (\<lambda>kv. fst kv \<noteq> a) kvs) b = (if a = b then None else map_of kvs b)"
  by (induction kvs) auto

lemma free_active:
  assumes "distinct (map fst (hr_activeByAgent h))"
  shows "agent_active b (free_slot i a h) = (if a = b then agent_active b h - 1 else agent_active b h)"
  using assms
  by (auto simp: agent_active_def free_slot_def Let_def map_of_delete coalesce_def' split: option.splits)

lemma free_slots:
  assumes "slots_within h" and "map_of (hr_live h) i = Some a"
  shows "slots_within (free_slot i a h)"
proof -
  have d: "distinct (map fst (hr_live h))" using assms(1) by (simp add: slots_within_def)
  have "length (filter (\<lambda>x. fst x \<noteq> i) xs) = length xs - 1
      \<and> count_agent b (filter (\<lambda>x. fst x \<noteq> i) xs) = (if a = b then count_agent b xs - 1 else count_agent b xs)"
    if "distinct (map fst xs)" and "map_of xs i = Some a" for xs b
    using that
  proof (induction xs)
    case Nil
    then show ?case by simp
  next
    case (Cons x xs)
    show ?case
    proof (cases "fst x = i")
      case True
      with Cons.prems have "filter (\<lambda>x. fst x \<noteq> i) xs = xs" by (auto simp: filter_id_conv image_iff)
      with True Cons.prems show ?thesis by (auto simp: count_agent_def)
    next
      case False
      with Cons have ih: "length (filter (\<lambda>x. fst x \<noteq> i) xs) = length xs - 1"
        "count_agent b (filter (\<lambda>x. fst x \<noteq> i) xs) = (if a = b then count_agent b xs - 1 else count_agent b xs)"
        by auto
      have "(i, a) \<in> set xs" using False Cons.prems(2) by (auto dest: map_of_SomeD split: if_splits)
      then have "0 < length xs" and "0 < count_agent a xs"
        by (force simp: count_agent_def filter_empty_conv)+
      with False ih show ?thesis by (auto simp: count_agent_def)
    qed
  qed
  from this [OF d assms(2)]
  have n: "length (hr_live (free_slot i a h)) = length (hr_live h) - 1"
    and c: "count_agent b (hr_live (free_slot i a h))
      = (if a = b then count_agent b (hr_live h) - 1 else count_agent b (hr_live h))" for b
    by (simp_all add: free_slot_def Let_def)
  have lim: "hr_max (free_slot i a h) = hr_max h" "hr_perAgentMax (free_slot i a h) = hr_perAgentMax h"
    "hr_activeCount (free_slot i a h) = hr_activeCount h - 1"
    by (simp_all add: free_slot_def Let_def)
  have keys: "distinct (map fst (hr_activeByAgent (free_slot i a h)))"
    using assms(1) by (simp add: slots_within_def free_slot_def Let_def distinct_map_filter)
  have live: "distinct (map fst (hr_live (free_slot i a h)))"
    using d by (simp add: free_slot_def Let_def distinct_map_filter)
  have act: "agent_active b (free_slot i a h) = count_agent b (hr_live (free_slot i a h))"
    and bound: "agent_active b (free_slot i a h) \<le> hr_perAgentMax (free_slot i a h)" for b
  proof -
    have "agent_active b h = count_agent b (hr_live h) \<and> agent_active b h \<le> hr_perAgentMax h"
      using assms(1) unfolding slots_within_def by blast
    moreover have "distinct (map fst (hr_activeByAgent h))" using assms(1) by (simp add: slots_within_def)
    ultimately show "agent_active b (free_slot i a h) = count_agent b (hr_live (free_slot i a h))"
      and "agent_active b (free_slot i a h) \<le> hr_perAgentMax (free_slot i a h)"
      by (auto simp: lim free_active c)
  qed
  have "hr_activeCount h = length (hr_live h) \<and> hr_activeCount h \<le> hr_max h"
    using assms(1) by (simp add: slots_within_def)
  then have "hr_activeCount (free_slot i a h) = length (hr_live (free_slot i a h))
      \<and> hr_activeCount (free_slot i a h) \<le> hr_max (free_slot i a h)"
    using n by (auto simp: lim)
  then show ?thesis unfolding slots_within_def using act bound keys live by blast
qed

lemma free_queue:
  assumes "queue_ok es h" and "i \<in> fst ` set (hr_live h)"
  shows "queue_ok es (free_slot i a h)"
  using assms by (auto simp: queue_ok_def free_slot_def Let_def image_iff)

lemma free_pending [simp]: "hr_pending (free_slot i a h) = hr_pending h"
  by (simp add: free_slot_def Let_def)

lemma start_http_ok:
  assumes ok: "http_ok (http st)"
  shows "http_ok (http (startInvocationIfAllowed t i agent st))"
proof (cases agent)
  case None
  with ok show ?thesis by (simp add: startInvocationIfAllowed_def)
next
  case (Some a)
  note a = this
  show ?thesis
  proof (cases "find_inv i st")
    case None
    with ok a show ?thesis by (simp add: startInvocationIfAllowed_def)
  next
    case (Some v)
    let ?skip = "inv_status v = WaitingForLocalApproval \<or> is_terminal (inv_status v) \<or> \<not> is_remote_http a
        \<or> i \<in> set (hr_scheduled (http st)) \<or> i \<in> fst ` set (hr_live (http st))"
    show ?thesis
    proof (cases ?skip)
      case True
      with ok a Some show ?thesis by (auto simp: startInvocationIfAllowed_def)
    next
      case False
      let ?h = "(http st)\<lparr>hr_scheduled := i # hr_scheduled (http st)\<rparr>"
      from ok have s: "slots_within (http st)" and q: "queue_ok (hr_pending (http st)) (http st)"
        and n: "no_idle_slot (hr_pending (http st)) (http st)"
        by (simp_all add: http_ok_def)
      have i: "i \<notin> fst ` set (hr_live (http st))" "i \<notin> fst ` set (hr_pending (http st))"
        using False q by (auto simp: queue_ok_def)
      show ?thesis
      proof (cases "hasCapacity (ag_id a) (http st)")
        case True
        with False a Some have eq: "http (startInvocationIfAllowed t i agent st) = claim_slot i (ag_id a) ?h"
          by (simp add: startInvocationIfAllowed_def Let_def)
        have "slots_within (claim_slot i (ag_id a) ?h)"
          by (rule claim_slots) (use s True i in simp_all)
        moreover have "queue_ok (hr_pending (http st)) (claim_slot i (ag_id a) ?h)"
          using q i by (simp add: queue_ok_def)
        moreover have "no_idle_slot (hr_pending (http st)) (claim_slot i (ag_id a) ?h)"
          using n by (simp add: claim_no_idle)
        ultimately show ?thesis by (simp add: eq http_ok_def)
      next
        case full: False
        with False a Some have eq: "http (startInvocationIfAllowed t i agent st)
            = ?h\<lparr>hr_pending := hr_pending (http st) @ [(i, a)]\<rparr>"
          by (simp add: startInvocationIfAllowed_def Let_def)
        have "queue_ok (hr_pending (http st) @ [(i, a)]) ?h"
          using q i by (auto simp: queue_ok_def)
        with s n full show ?thesis by (simp add: eq http_ok_def) (simp add: no_idle_slot_def)
      qed
    qed
  qed
qed

lemma settle_http_ok:
  assumes ok: "http_ok (http st)"
  shows "http_ok (http (http_settle hk t i outcome st))"
proof (cases "map_of (hr_live (http st)) i")
  case None
  with ok show ?thesis by (simp add: http_settle_def)
next
  case (Some a)
  let ?st = "set_http (free_slot i a) (completeInvocation hk t i outcome st)"
  have i: "i \<in> fst ` set (hr_live (http st))" using map_of_SomeD [OF Some] by force
  have "slots_within (http ?st)" using free_slots [OF _ Some] ok by (simp add: http_ok_def)
  moreover have "queue_ok ([] @ hr_pending (http ?st)) (http ?st)"
    using free_queue [OF _ i] ok by (simp add: http_ok_def)
  moreover have "no_idle_slot [] (http ?st)" by (simp add: no_idle_slot_def)
  ultimately have "http_ok (http (drainPending t (hr_pending (http ?st)) [] ?st))" by (rule drain_ok)
  then show ?thesis using Some by (simp add: http_settle_def Let_def)
qed

text \<open>C10: the runtime of remote HTTP requests keeps its limits: starting an invocation, the settling
  of a request with any outcome and an abort all keep the counters equal to what is in flight, at most
  \<open>hr_max\<close> requests in all and \<open>hr_perAgentMax\<close> per agent, every scheduled id either in flight or waiting,
  once, and no request waiting for a slot that is free.\<close>

theorem http_runtime_limits:
  assumes "http_ok (http st)"
  shows "http_ok (http (startInvocationIfAllowed t i agent st))
    \<and> http_ok (http (http_settle hk t i outcome st))
    \<and> http_ok (http (snd (abortDirectHttpRun t i st)))"
  using start_http_ok [OF assms] settle_http_ok [OF assms] assms by (simp add: abortDirectHttpRun_def)

definition demo_http_agent :: agent where
  "demo_http_agent = demo_agent\<lparr>ag_id := ''agt_http'',
     ag_location := \<lparr>loc_type = ''remote_http'', loc_deviceId = None\<rparr>,
     ag_adapter := (ag_adapter demo_agent)\<lparr>ad_type := ''http''\<rparr>\<rparr>"

theorem http_runtime_limits_witness:
  "let h = http (startInvocationIfAllowed 5 ''inv_1'' (Some demo_http_agent)
       (demo_server [demo_inv ''inv_1'' Created DNotRequired 0]))
   in http_ok h \<and> hr_live h = [(''inv_1'', ''agt_http'')]"
proof -
  let ?st = "demo_server [demo_inv ''inv_1'' Created DNotRequired 0]"
  have "http_ok (http ?st)"
    by (simp add: demo_server_def http_ok_def slots_within_def queue_ok_def no_idle_slot_def
        agent_active_def count_agent_def)
  from http_runtime_limits [OF this, where t = 5 and i = "''inv_1''" and agent = "Some demo_http_agent"]
  have "http_ok (http (startInvocationIfAllowed 5 ''inv_1'' (Some demo_http_agent) ?st))" by blast
  moreover have "hr_live (http (startInvocationIfAllowed 5 ''inv_1'' (Some demo_http_agent) ?st))
      = [(''inv_1'', ''agt_http'')]"
    by (simp add: startInvocationIfAllowed_def demo_find Let_def is_remote_http_def demo_http_agent_def
        hasCapacity_def agent_active_def) (simp add: demo_server_def agent_active_def hasCapacity_def)
  ultimately show ?thesis by (simp add: Let_def)
qed

section \<open>Frame\<close>

lemma set_http_frame [simp, frame]:
  "id_counter (set_http f st) = id_counter st" "issued_ids (set_http f st) = issued_ids st"
  "invocations (set_http f st) = invocations st" "events (set_http f st) = events st"
  "event_archive (set_http f st) = event_archive st"
  "event_retention (set_http f st) = event_retention st"
  "event_archiver (set_http f st) = event_archiver st" "refusals (set_http f st) = refusals st"
  "refusal_archive (set_http f st) = refusal_archive st"
  "refusal_archive_up (set_http f st) = refusal_archive_up st"
  "refusal_stats (set_http f st) = refusal_stats st"
  "refusal_since (set_http f st) = refusal_since st" "agents (set_http f st) = agents st"
  "device (set_http f st) = device st" "projects (set_http f st) = projects st"
  "users (set_http f st) = users st" "worktrees (set_http f st) = worktrees st"
  "work_items (set_http f st) = work_items st" "traces (set_http f st) = traces st"
  "spans (set_http f st) = spans st" "transcripts (set_http f st) = transcripts st"
  "audits (set_http f st) = audits st" "usages (set_http f st) = usages st"
  "compare_runs (set_http f st) = compare_runs st"
  "policy_records (set_http f st) = policy_records st" "approvals (set_http f st) = approvals st"
  "applications (set_http f st) = applications st" "world (set_http f st) = world st"
  by (simp_all add: set_http_def)

lemma http_launch_frame [simp, frame]:
  "agents (http_launch t i a st) = agents st" "device (http_launch t i a st) = device st"
  "projects (http_launch t i a st) = projects st" "users (http_launch t i a st) = users st"
  "worktrees (http_launch t i a st) = worktrees st"
  "work_items (http_launch t i a st) = work_items st" "traces (http_launch t i a st) = traces st"
  "spans (http_launch t i a st) = spans st" "transcripts (http_launch t i a st) = transcripts st"
  "audits (http_launch t i a st) = audits st" "usages (http_launch t i a st) = usages st"
  "compare_runs (http_launch t i a st) = compare_runs st"
  "policy_records (http_launch t i a st) = policy_records st"
  "approvals (http_launch t i a st) = approvals st"
  "applications (http_launch t i a st) = applications st"
  "world (http_launch t i a st) = world st" "refusals (http_launch t i a st) = refusals st"
  "refusal_stats (http_launch t i a st) = refusal_stats st"
  by (simp_all add: http_launch_def)

lemma drain_keeps:
  assumes "\<And>t i a st. f (http_launch t i a st) = f st" and "\<And>g st. f (set_http g st) = f st"
  shows "f (drainPending t es kept st) = f st"
  by (induction t es kept st rule: drainPending.induct) (simp_all add: assms)

lemma start_keeps:
  assumes "\<And>t i a st. f (http_launch t i a st) = f st" and "\<And>g st. f (set_http g st) = f st"
    and "\<And>t e st. f (append_event t e st) = f st" and "\<And>i g st. f (upd_inv i g st) = f st"
  shows "f (startInvocationIfAllowed t i ag st) = f st"
  by (simp add: startInvocationIfAllowed_def Let_def assms split: option.split)

lemma drainPending_frame [simp, frame]:
  "agents (drainPending t es kept st) = agents st"
  "device (drainPending t es kept st) = device st"
  "projects (drainPending t es kept st) = projects st"
  "users (drainPending t es kept st) = users st"
  "worktrees (drainPending t es kept st) = worktrees st"
  "work_items (drainPending t es kept st) = work_items st"
  "traces (drainPending t es kept st) = traces st" "spans (drainPending t es kept st) = spans st"
  "transcripts (drainPending t es kept st) = transcripts st"
  "audits (drainPending t es kept st) = audits st"
  "usages (drainPending t es kept st) = usages st"
  "compare_runs (drainPending t es kept st) = compare_runs st"
  "policy_records (drainPending t es kept st) = policy_records st"
  "approvals (drainPending t es kept st) = approvals st"
  "applications (drainPending t es kept st) = applications st"
  "world (drainPending t es kept st) = world st"
  "refusals (drainPending t es kept st) = refusals st"
  "refusal_stats (drainPending t es kept st) = refusal_stats st"
  by (rule drain_keeps; simp)+

lemma startInvocation_frame [simp, frame]:
  "agents (startInvocationIfAllowed t i ag st) = agents st"
  "device (startInvocationIfAllowed t i ag st) = device st"
  "projects (startInvocationIfAllowed t i ag st) = projects st"
  "users (startInvocationIfAllowed t i ag st) = users st"
  "worktrees (startInvocationIfAllowed t i ag st) = worktrees st"
  "work_items (startInvocationIfAllowed t i ag st) = work_items st"
  "traces (startInvocationIfAllowed t i ag st) = traces st"
  "spans (startInvocationIfAllowed t i ag st) = spans st"
  "transcripts (startInvocationIfAllowed t i ag st) = transcripts st"
  "audits (startInvocationIfAllowed t i ag st) = audits st"
  "usages (startInvocationIfAllowed t i ag st) = usages st"
  "compare_runs (startInvocationIfAllowed t i ag st) = compare_runs st"
  "policy_records (startInvocationIfAllowed t i ag st) = policy_records st"
  "approvals (startInvocationIfAllowed t i ag st) = approvals st"
  "applications (startInvocationIfAllowed t i ag st) = applications st"
  "world (startInvocationIfAllowed t i ag st) = world st"
  "refusals (startInvocationIfAllowed t i ag st) = refusals st"
  "refusal_stats (startInvocationIfAllowed t i ag st) = refusal_stats st"
  by (rule start_keeps; simp)+

lemma abortDirectHttpRun_frame [simp, frame]:
  "invocations (snd (abortDirectHttpRun t i st)) = invocations st"
  "agents (snd (abortDirectHttpRun t i st)) = agents st"
  "device (snd (abortDirectHttpRun t i st)) = device st"
  "projects (snd (abortDirectHttpRun t i st)) = projects st"
  "users (snd (abortDirectHttpRun t i st)) = users st"
  "worktrees (snd (abortDirectHttpRun t i st)) = worktrees st"
  "work_items (snd (abortDirectHttpRun t i st)) = work_items st"
  "traces (snd (abortDirectHttpRun t i st)) = traces st"
  "spans (snd (abortDirectHttpRun t i st)) = spans st"
  "transcripts (snd (abortDirectHttpRun t i st)) = transcripts st"
  "audits (snd (abortDirectHttpRun t i st)) = audits st"
  "usages (snd (abortDirectHttpRun t i st)) = usages st"
  "compare_runs (snd (abortDirectHttpRun t i st)) = compare_runs st"
  "policy_records (snd (abortDirectHttpRun t i st)) = policy_records st"
  "approvals (snd (abortDirectHttpRun t i st)) = approvals st"
  "applications (snd (abortDirectHttpRun t i st)) = applications st"
  "http (snd (abortDirectHttpRun t i st)) = http st"
  "world (snd (abortDirectHttpRun t i st)) = world st"
  "refusals (snd (abortDirectHttpRun t i st)) = refusals st"
  "refusal_stats (snd (abortDirectHttpRun t i st)) = refusal_stats st"
  by (simp_all add: abortDirectHttpRun_def)

lemma find_inv_abort [simp]: "find_inv j (snd (abortDirectHttpRun t i st)) = find_inv j st"
  by (rule find_inv_cong) simp

lemma launched_simps [simp]:
  "inv_id (launched_row t v) = inv_id v" "inv_status (launched_row t v) = Running"
  "inv_delivery (launched_row t v) = inv_delivery v" "inv_agentId (launched_row t v) = inv_agentId v"
  "inv_id (waiting_row t v) = inv_id v" "inv_status (waiting_row t v) = Queued"
  "inv_delivery (waiting_row t v) = inv_delivery v" "inv_agentId (waiting_row t v) = inv_agentId v"
  by (simp_all add: launched_row_def waiting_row_def)

lemma find_inv_launch:
  "find_inv j (http_launch t i a st)
     = (if i = j then map_option (launched_row t) (find_inv j st) else find_inv j st)"
  by (simp add: http_launch_def find_inv_upd_inv)

lemma ids_launch [simp]:
  "map inv_id (invocations (http_launch t i a st)) = map inv_id (invocations st)"
  by (simp add: http_launch_def set_http_def)

lemma ids_drain [simp]:
  "map inv_id (invocations (drainPending t es kept st)) = map inv_id (invocations st)"
  by (rule drain_keeps) simp_all

lemma ids_start [simp]:
  "map inv_id (invocations (startInvocationIfAllowed t i ag st)) = map inv_id (invocations st)"
  by (cases ag; cases "find_inv i st"; simp add: startInvocationIfAllowed_def Let_def)

lemma ids_settle [simp]:
  "map inv_id (invocations (http_settle hk t i b st)) = map inv_id (invocations st)"
  by (cases "map_of (hr_live (http st)) i") (simp_all add: http_settle_def Let_def completeInvocation_ids)

lemma find_inv_start:
  "find_inv j (startInvocationIfAllowed t i ag st) = find_inv j st
   \<or> i = j \<and> (\<exists>v. find_inv i st = Some v \<and> \<not> is_terminal (inv_status v)
        \<and> inv_status v \<noteq> WaitingForLocalApproval
        \<and> find_inv j (startInvocationIfAllowed t i ag st) \<in> {Some (launched_row t v), Some (waiting_row t v)})"
  by (cases ag; cases "find_inv i st")
    (auto simp: startInvocationIfAllowed_def Let_def find_inv_launch find_inv_upd_inv)

lemma find_inv_drain:
  "distinct (map fst es) \<Longrightarrow>
   find_inv j (drainPending t es kept st) = find_inv j st
   \<or> j \<in> fst ` set es
     \<and> (\<exists>v. find_inv j st = Some v \<and> \<not> is_terminal (inv_status v)
         \<and> find_inv j (drainPending t es kept st) = Some (launched_row t v))"
proof (induction t es kept st rule: drainPending.induct)
  case (1 t kept st)
  then show ?case by simp
next
  case (2 t i a es kept st)
  then have d: "distinct (map fst es)" "i \<notin> fst ` set es" by auto
  show ?case
  proof (cases "case find_inv i st of Some v \<Rightarrow> is_terminal (inv_status v) | None \<Rightarrow> False")
    case True
    with 2(1) [OF True d(1)] show ?thesis by auto
  next
    case no: False
    show ?thesis
    proof (cases "hasCapacity (ag_id a) (http st)")
      case True
      with no have eq: "drainPending t ((i, a) # es) kept st = drainPending t es kept (http_launch t i a st)"
        by simp
      have ih: "find_inv j (drainPending t es kept (http_launch t i a st)) = find_inv j (http_launch t i a st)
          \<or> j \<in> fst ` set es \<and> (\<exists>v. find_inv j (http_launch t i a st) = Some v
              \<and> \<not> is_terminal (inv_status v)
              \<and> find_inv j (drainPending t es kept (http_launch t i a st)) = Some (launched_row t v))"
        using 2(3) no True d(1) by blast
      show ?thesis
      proof (cases "i = j")
        case True
        then have "find_inv j (drainPending t es kept (http_launch t i a st))
            = map_option (launched_row t) (find_inv j st)"
          using ih d(2) by (simp add: find_inv_launch)
        with eq True no show ?thesis by (cases "find_inv j st") auto
      next
        case False
        with ih show ?thesis unfolding eq by (auto simp: find_inv_launch)
      qed
    next
      case False
      with 2(2) [OF no] d(1) no show ?thesis by auto
    qed
  qed
qed

end
