(* ===== verification/InvocationCancel.thy ===== *)
theory InvocationCancel
  imports DirectHttp
begin

text \<open>
  services/invocations/cancellation.mjs: cancelling one invocation (queued work ends at once, work
  that runs is asked to stop) and cancelling everything when the device is unlinked.
\<close>

section \<open>Queued work\<close>

definition queued_cancelled :: "instant \<Rightarrow> string \<Rightarrow> string \<Rightarrow> invocation \<Rightarrow> invocation" where
  "queued_cancelled t reason requestedBy v =
     v\<lparr>inv_status := Cancelled,
       inv_cancellation := \<lparr>can_state = CQueuedCancelled, can_requestedBy = Some requestedBy,
         can_requestedAt = Some t, can_reason = Some reason, can_appliedAt = Some t,
         can_message = Some ''Invocation cancelled before execution.''\<rparr>,
       inv_completedAt := Some t, inv_updatedAt := t\<rparr>"

text \<open>A pending approval request of the invocation is denied.\<close>

definition deny_pending :: "instant \<Rightarrow> string \<Rightarrow> string option \<Rightarrow> 'w server \<Rightarrow> 'w server" where
  "deny_pending t by aid st =
     (case aid of
        None \<Rightarrow> st
      | Some a \<Rightarrow> st\<lparr>approvals := upd_where (\<lambda>r. apr_id r = a)
          (\<lambda>r. if apr_status r = ''pending''
               then r\<lparr>apr_status := ''denied'', apr_decidedAt := Some t, apr_decidedBy := Some by\<rparr>
               else r) (approvals st)\<rparr>)"

definition cancelQueuedInvocation ::
    "instant \<Rightarrow> string \<Rightarrow> string \<Rightarrow> string \<Rightarrow> string \<Rightarrow> string \<Rightarrow> string \<Rightarrow> 'w server \<Rightarrow> 'w server" where
  "cancelQueuedInvocation t reason evType evMsg summary requestedBy i st =
     (case find_inv i st of
        None \<Rightarrow> st
      | Some v \<Rightarrow>
          (let v' = queued_cancelled t reason requestedBy v;
               st1 = deny_pending t requestedBy (inv_approvalRequestId v)
                       (upd_inv i (queued_cancelled t reason requestedBy) st);
               st2 = append_events t
                 [mk_ev (Some i) evType (if evType = ''device_queue_cancelled'' then ''warn'' else ''info'')
                    evMsg JNull,
                  mk_ev (Some i) ''cancel_applied'' ''info'' ''Invocation cancelled before execution.'' JNull] st1
           in recordAgentUsage t v' Cancelled
                (push_audit (createAuditSummary t v' (Some summary) st2) st2)))"

section \<open>cancelInvocation\<close>

definition stamp_request :: "instant \<Rightarrow> string \<Rightarrow> invocation \<Rightarrow> invocation" where
  "stamp_request t by v =
     v\<lparr>inv_cancellation := (inv_cancellation v)\<lparr>can_requestedBy := Some by,
         can_requestedAt := Some t, can_reason := Some ''Requested from Web Console.''\<rparr>\<rparr>"

definition ask_cancel :: "instant \<Rightarrow> invocation \<Rightarrow> invocation" where
  "ask_cancel t v =
     v\<lparr>inv_status := Cancelling, inv_cancellation := (inv_cancellation v)\<lparr>can_state := CRequested\<rparr>,
       inv_updatedAt := t\<rparr>"

definition set_cancel_state :: "cancel_state \<Rightarrow> invocation \<Rightarrow> invocation" where
  "set_cancel_state c v = v\<lparr>inv_cancellation := (inv_cancellation v)\<lparr>can_state := c\<rparr>\<rparr>"

definition http_cancel :: "instant \<Rightarrow> agent \<Rightarrow> string \<Rightarrow> 'w server \<Rightarrow> 'w server" where
  "http_cancel t a i st =
     (let (aborted, st1) = abortDirectHttpRun t i st
      in if aborted then st1
         else if ad_cancellation (ag_adapter a) = Some ''unsupported''
         then (let st2 = append_event t
                 (mk_ev (Some i) ''cancel_failed'' ''warn'' ''HTTP Agent cancellation is not supported.'' JNull)
                 (upd_inv i (set_cancel_state CNotSupported) st1)
               in case find_inv i st2 of
                    None \<Rightarrow> st2
                  | Some v \<Rightarrow> push_audit (createAuditSummary t v
                      (Some ''HTTP cancellation is not supported.'') st2) st2)
         else st1)"

definition cancelInvocation ::
    "'w hooks \<Rightarrow> instant \<Rightarrow> actor option \<Rightarrow> string \<Rightarrow> 'w server \<Rightarrow> 'w server" where
  "cancelInvocation hk t actor i st =
     (case find_inv i st of
        None \<Rightarrow> st
      | Some v \<Rightarrow>
          if is_terminal (inv_status v) then st
          else
            (let by = actor_user actor;
                 agent = findAgent (inv_agentId v) st;
                 st1 = upd_inv i (stamp_request t by) st
             in if inv_status v \<in> {Queued, WaitingForLocalApproval}
                then cancelQueuedInvocation t ''Requested from Web Console.'' ''cancel_requested''
                       ''Queued invocation cancellation requested.'' ''Cancelled before local execution.'' by i st1
                else
                  (let st2 = append_event t
                         (mk_ev (Some i) ''cancel_requested'' ''info'' ''Running invocation cancellation requested.'' JNull)
                         (upd_inv i (ask_cancel t) st1);
                       st3 = st2\<lparr>world := hk_notifyCancellation hk (del_deviceId (inv_delivery v)) (world st2)\<rparr>
                   in case agent of
                        None \<Rightarrow> st3
                      | Some a \<Rightarrow> if ad_type (ag_adapter a) = ''http'' then http_cancel t a i st3 else st3)))"

section \<open>Device unlink\<close>

definition requested_cancel :: "instant \<Rightarrow> string \<Rightarrow> invocation \<Rightarrow> invocation" where
  "requested_cancel t reason v =
     v\<lparr>inv_status := Cancelling,
       inv_cancellation := (inv_cancellation v)\<lparr>can_state := CRequested,
         can_requestedBy := Some ''usr_local'', can_requestedAt := Some t, can_reason := Some reason\<rparr>,
       inv_updatedAt := t\<rparr>"

definition requestRunningDeviceCancellation ::
    "'w hooks \<Rightarrow> instant \<Rightarrow> string \<Rightarrow> 'w server \<Rightarrow> 'w server" where
  "requestRunningDeviceCancellation hk t i st =
     (let reason = ''Device unlink requested cancellation for running local work.'';
          dev = Option.bind (find_inv i st) (\<lambda>v. del_deviceId (inv_delivery v));
          st1 = append_event t (mk_ev (Some i) ''cancel_requested'' ''warn'' reason JNull)
                  (upd_inv i (requested_cancel t reason) st)
      in st1\<lparr>world := hk_notifyCancellation hk dev (world st1)\<rparr>)"

definition ids_with :: "inv_status set \<Rightarrow> 'a core_scheme \<Rightarrow> string list" where
  "ids_with S st = map inv_id (filter (\<lambda>v. inv_status v \<in> S) (invocations st))"

definition unlink_queued :: "instant \<Rightarrow> string \<Rightarrow> 'w server \<Rightarrow> 'w server" where
  "unlink_queued t = cancelQueuedInvocation t ''Device unlinked before dispatch.'' ''device_queue_cancelled''
     ''Queued invocation cancelled because the device was unlinked.''
     ''Device unlink cancelled queued local work.'' ''usr_local''"

definition cancelInvocationsForDeviceUnlink :: "'w hooks \<Rightarrow> instant \<Rightarrow> 'w server \<Rightarrow> 'w server" where
  "cancelInvocationsForDeviceUnlink hk t st =
     (let st1 = fold (unlink_queued t) (ids_with {Queued, WaitingForLocalApproval} st) st
      in fold (requestRunningDeviceCancellation hk t) (ids_with {Dispatching, Running} st1) st1)"

section \<open>Frame\<close>

lemma deny_pending_frame [simp, frame]:
  "id_counter (deny_pending t u aid st) = id_counter st"
  "issued_ids (deny_pending t u aid st) = issued_ids st"
  "invocations (deny_pending t u aid st) = invocations st"
  "events (deny_pending t u aid st) = events st"
  "event_archive (deny_pending t u aid st) = event_archive st"
  "event_retention (deny_pending t u aid st) = event_retention st"
  "event_archiver (deny_pending t u aid st) = event_archiver st"
  "refusals (deny_pending t u aid st) = refusals st"
  "refusal_archive (deny_pending t u aid st) = refusal_archive st"
  "refusal_archive_up (deny_pending t u aid st) = refusal_archive_up st"
  "refusal_stats (deny_pending t u aid st) = refusal_stats st"
  "refusal_since (deny_pending t u aid st) = refusal_since st"
  "agents (deny_pending t u aid st) = agents st" "device (deny_pending t u aid st) = device st"
  "projects (deny_pending t u aid st) = projects st" "users (deny_pending t u aid st) = users st"
  "worktrees (deny_pending t u aid st) = worktrees st"
  "work_items (deny_pending t u aid st) = work_items st"
  "traces (deny_pending t u aid st) = traces st" "spans (deny_pending t u aid st) = spans st"
  "transcripts (deny_pending t u aid st) = transcripts st"
  "audits (deny_pending t u aid st) = audits st" "usages (deny_pending t u aid st) = usages st"
  "compare_runs (deny_pending t u aid st) = compare_runs st"
  "policy_records (deny_pending t u aid st) = policy_records st"
  "applications (deny_pending t u aid st) = applications st"
  "http (deny_pending t u aid st) = http st"
  "world (deny_pending t u aid st) = world st"
  by (cases aid; simp add: deny_pending_def)+

lemma cancelQueuedInvocation_frame [simp, frame]:
  "agents (cancelQueuedInvocation t rs et em sm u i st) = agents st"
  "device (cancelQueuedInvocation t rs et em sm u i st) = device st"
  "projects (cancelQueuedInvocation t rs et em sm u i st) = projects st"
  "users (cancelQueuedInvocation t rs et em sm u i st) = users st"
  "worktrees (cancelQueuedInvocation t rs et em sm u i st) = worktrees st"
  "work_items (cancelQueuedInvocation t rs et em sm u i st) = work_items st"
  "traces (cancelQueuedInvocation t rs et em sm u i st) = traces st"
  "spans (cancelQueuedInvocation t rs et em sm u i st) = spans st"
  "transcripts (cancelQueuedInvocation t rs et em sm u i st) = transcripts st"
  "compare_runs (cancelQueuedInvocation t rs et em sm u i st) = compare_runs st"
  "policy_records (cancelQueuedInvocation t rs et em sm u i st) = policy_records st"
  "applications (cancelQueuedInvocation t rs et em sm u i st) = applications st"
  "http (cancelQueuedInvocation t rs et em sm u i st) = http st"
  "world (cancelQueuedInvocation t rs et em sm u i st) = world st"
  "refusals (cancelQueuedInvocation t rs et em sm u i st) = refusals st"
  "refusal_stats (cancelQueuedInvocation t rs et em sm u i st) = refusal_stats st"
  by (cases "find_inv i st"; simp add: cancelQueuedInvocation_def Let_def)+

lemma http_cancel_frame [simp, frame]:
  "agents (http_cancel t a i st) = agents st" "device (http_cancel t a i st) = device st"
  "projects (http_cancel t a i st) = projects st" "users (http_cancel t a i st) = users st"
  "worktrees (http_cancel t a i st) = worktrees st"
  "work_items (http_cancel t a i st) = work_items st"
  "traces (http_cancel t a i st) = traces st" "spans (http_cancel t a i st) = spans st"
  "transcripts (http_cancel t a i st) = transcripts st"
  "usages (http_cancel t a i st) = usages st"
  "compare_runs (http_cancel t a i st) = compare_runs st"
  "policy_records (http_cancel t a i st) = policy_records st"
  "approvals (http_cancel t a i st) = approvals st"
  "applications (http_cancel t a i st) = applications st"
  "http (http_cancel t a i st) = http st" "world (http_cancel t a i st) = world st"
  "refusals (http_cancel t a i st) = refusals st"
  "refusal_stats (http_cancel t a i st) = refusal_stats st"
  by (simp_all add: http_cancel_def Let_def case_prod_beta split: option.split)

lemma requestRunning_frame [simp, frame]:
  "agents (requestRunningDeviceCancellation hk t i st) = agents st"
  "device (requestRunningDeviceCancellation hk t i st) = device st"
  "projects (requestRunningDeviceCancellation hk t i st) = projects st"
  "users (requestRunningDeviceCancellation hk t i st) = users st"
  "worktrees (requestRunningDeviceCancellation hk t i st) = worktrees st"
  "work_items (requestRunningDeviceCancellation hk t i st) = work_items st"
  "traces (requestRunningDeviceCancellation hk t i st) = traces st"
  "spans (requestRunningDeviceCancellation hk t i st) = spans st"
  "transcripts (requestRunningDeviceCancellation hk t i st) = transcripts st"
  "audits (requestRunningDeviceCancellation hk t i st) = audits st"
  "usages (requestRunningDeviceCancellation hk t i st) = usages st"
  "compare_runs (requestRunningDeviceCancellation hk t i st) = compare_runs st"
  "policy_records (requestRunningDeviceCancellation hk t i st) = policy_records st"
  "approvals (requestRunningDeviceCancellation hk t i st) = approvals st"
  "applications (requestRunningDeviceCancellation hk t i st) = applications st"
  "http (requestRunningDeviceCancellation hk t i st) = http st"
  "refusals (requestRunningDeviceCancellation hk t i st) = refusals st"
  "refusal_stats (requestRunningDeviceCancellation hk t i st) = refusal_stats st"
  by (simp_all add: requestRunningDeviceCancellation_def Let_def)

lemma usage_count_deny_pending [simp]: "usage_count a (deny_pending t u aid st) = usage_count a st"
  by (simp add: usage_count_def)

lemma find_inv_deny_pending [simp]: "find_inv i (deny_pending t u aid st) = find_inv i st"
  by (rule find_inv_cong) simp

lemma find_inv_world [simp]: "find_inv i (st\<lparr>world := w\<rparr>) = find_inv i st"
  by (rule find_inv_cong) simp

section \<open>Rows\<close>

lemma row_ids [simp]:
  "inv_id (queued_cancelled t r u v) = inv_id v" "inv_id (stamp_request t u v) = inv_id v"
  "inv_id (ask_cancel t v) = inv_id v" "inv_id (set_cancel_state c v) = inv_id v"
  "inv_id (requested_cancel t r v) = inv_id v"
  by (simp_all add: queued_cancelled_def stamp_request_def ask_cancel_def set_cancel_state_def
      requested_cancel_def)

interpretation cancel_queued: row_op "cancelQueuedInvocation t rs et em sm u" "queued_cancelled t rs u"
proof
  fix i j :: string and st :: "'a server"
  show "find_inv j (cancelQueuedInvocation t rs et em sm u i st)
      = (if i = j then map_option (queued_cancelled t rs u) (find_inv j st) else find_inv j st)"
    by (cases "find_inv i st") (auto simp: cancelQueuedInvocation_def Let_def find_inv_upd_inv)
  show "map inv_id (invocations (cancelQueuedInvocation t rs et em sm u i st)) = map inv_id (invocations st)"
    by (cases "find_inv i st") (simp_all add: cancelQueuedInvocation_def Let_def)
qed

interpretation request_running: row_op "requestRunningDeviceCancellation hk t"
    "requested_cancel t ''Device unlink requested cancellation for running local work.''"
proof
  fix i j :: string and st :: "'a server"
  show "find_inv j (requestRunningDeviceCancellation hk t i st)
      = (if i = j then map_option (requested_cancel t
            ''Device unlink requested cancellation for running local work.'') (find_inv j st)
         else find_inv j st)"
    by (simp add: requestRunningDeviceCancellation_def Let_def find_inv_upd_inv)
  show "map inv_id (invocations (requestRunningDeviceCancellation hk t i st)) = map inv_id (invocations st)"
    by (simp add: requestRunningDeviceCancellation_def Let_def)
qed

lemma find_inv_http_cancel:
  "find_inv j (http_cancel t a i st) =
     (if i = j \<and> \<not> fst (abortDirectHttpRun t i st) \<and> ad_cancellation (ag_adapter a) = Some ''unsupported''
      then map_option (set_cancel_state CNotSupported) (find_inv j st) else find_inv j st)"
  by (cases "find_inv i st")
     (auto simp: http_cancel_def Let_def case_prod_beta find_inv_upd_inv split: option.split)

lemma ids_http_cancel: "map inv_id (invocations (http_cancel t a i st)) = map inv_id (invocations st)"
  by (auto simp: http_cancel_def Let_def case_prod_beta split: option.split)

text \<open>The row after \<open>cancelInvocation\<close>.\<close>

definition cancelled_row :: "'w hooks \<Rightarrow> instant \<Rightarrow> actor option \<Rightarrow> 'w server \<Rightarrow> invocation \<Rightarrow> invocation \<Rightarrow> bool" where
  "cancelled_row hk t actor st v v' \<longleftrightarrow>
     inv_delivery v' = inv_delivery v \<and> inv_result v' = inv_result v \<and> inv_agentId v' = inv_agentId v
     \<and> (if inv_status v \<in> {Queued, WaitingForLocalApproval}
        then inv_status v' = Cancelled \<and> can_state (inv_cancellation v') = CQueuedCancelled
             \<and> inv_completedAt v' = Some t
        else inv_status v' = Cancelling \<and> inv_completedAt v' = inv_completedAt v
             \<and> can_requestedBy (inv_cancellation v') = Some (actor_user actor)
             \<and> can_requestedAt (inv_cancellation v') = Some t
             \<and> can_state (inv_cancellation v') \<in> {CRequested, CNotSupported})"

lemma cancelInvocation_row:
  assumes "find_inv i st = Some v" and "\<not> is_terminal (inv_status v)"
  shows "\<exists>v'. find_inv i (cancelInvocation hk t actor i st) = Some v' \<and> cancelled_row hk t actor st v v'"
  using assms
  by (auto simp: cancelInvocation_def Let_def cancel_queued.op_row find_inv_upd_inv
      find_inv_http_cancel cancelled_row_def queued_cancelled_def stamp_request_def ask_cancel_def
      set_cancel_state_def split: option.split)

lemma cancelInvocation_other:
  "j \<noteq> i \<Longrightarrow> find_inv j (cancelInvocation hk t actor i st) = find_inv j st"
  by (auto simp: cancelInvocation_def Let_def cancel_queued.op_row find_inv_upd_inv
      find_inv_http_cancel split: option.split)

lemma cancelInvocation_ids:
  "map inv_id (invocations (cancelInvocation hk t actor i st)) = map inv_id (invocations st)"
  by (auto simp: cancelInvocation_def Let_def cancel_queued.op_ids ids_http_cancel split: option.split)

section \<open>Cancelling\<close>

lemma deny_pending_rows:
  "approvals (deny_pending t u aid st)
    = map (\<lambda>a. if Some (apr_id a) = aid \<and> apr_status a = ''pending''
        then a\<lparr>apr_status := ''denied'', apr_decidedAt := Some t, apr_decidedBy := Some u\<rparr> else a) (approvals st)"
  by (cases aid) (auto simp: deny_pending_def upd_where_def)

lemma cancel_approvals:
  assumes v: "find_inv i st = Some v" and nt: "\<not> is_terminal (inv_status v)"
  shows "approvals (cancelInvocation hk t actor i st)
    = (if inv_status v \<in> {Queued, WaitingForLocalApproval}
       then map (\<lambda>a. if Some (apr_id a) = inv_approvalRequestId v \<and> apr_status a = ''pending''
              then a\<lparr>apr_status := ''denied'', apr_decidedAt := Some t, apr_decidedBy := Some (actor_user actor)\<rparr> else a) (approvals st)
       else approvals st)"
proof -
  have f1: "find_inv i (upd_inv i (stamp_request t (actor_user actor)) st) = Some (stamp_request t (actor_user actor) v)"
    using v by (simp add: find_inv_upd_inv)
  have "inv_approvalRequestId (stamp_request t (actor_user actor) v) = inv_approvalRequestId v" by (simp add: stamp_request_def)
  moreover have "approvals (deny_pending t u aid (upd_inv i f st)) = approvals (deny_pending t u aid st)" for u aid f and st :: "'a server"
    by (simp add: deny_pending_rows)
  ultimately show ?thesis using v nt f1
    by (simp add: cancelInvocation_def Let_def cancelQueuedInvocation_def deny_pending_rows split: option.split)
qed
text \<open>C8: cancelling a terminal invocation changes nothing; a queued one, or one waiting for approval,
  ends cancelled at once, is counted once for its agent and has its pending approval denied in the name
  of the caller, with every other approval and every field besides the decision kept; a dispatched or running
  one is only asked to stop and stays non-terminal, with all approvals kept; and no other invocation is
  touched.\<close>

theorem cancel_effect:
  "(case find_inv i st of
      None \<Rightarrow> cancelInvocation hk t actor i st = st
    | Some v \<Rightarrow>
        if is_terminal (inv_status v) then cancelInvocation hk t actor i st = st
        else (\<exists>v'. find_inv i (cancelInvocation hk t actor i st) = Some v'
               \<and> cancelled_row hk t actor st v v')
             \<and> (inv_status v \<in> {Queued, WaitingForLocalApproval} \<longleftrightarrow>
                  usage_count (inv_agentId v) (cancelInvocation hk t actor i st)
                    = usage_count (inv_agentId v) st + 1)
             \<and> approvals (cancelInvocation hk t actor i st)
                 = (if inv_status v \<in> {Queued, WaitingForLocalApproval}
                    then map (\<lambda>a. if Some (apr_id a) = inv_approvalRequestId v \<and> apr_status a = ''pending''
                           then a\<lparr>apr_status := ''denied'', apr_decidedAt := Some t, apr_decidedBy := Some (actor_user actor)\<rparr>
                           else a) (approvals st)
                    else approvals st))
   \<and> (j = i \<or> find_inv j (cancelInvocation hk t actor i st) = find_inv j st)"
proof -
  have other: "j = i \<or> find_inv j (cancelInvocation hk t actor i st) = find_inv j st"
    using cancelInvocation_other [of j i hk t actor st] by (cases "j = i") simp_all
  show ?thesis
  proof (cases "find_inv i st")
    case None
    then show ?thesis using other by (simp add: cancelInvocation_def)
  next
    case (Some v)
    note v = this
    let ?st' = "cancelInvocation hk t actor i st"
    let ?Q = "inv_status v \<in> {Queued, WaitingForLocalApproval}"
    show ?thesis
    proof (cases "is_terminal (inv_status v)")
      case True
      then show ?thesis using v other by (simp add: cancelInvocation_def)
    next
      case False
      let ?st1 = "upd_inv i (stamp_request t (actor_user actor)) st"
      have f1: "find_inv i ?st1 = Some (stamp_request t (actor_user actor) v)"
        using v by (simp add: find_inv_upd_inv)
      have cnt: "usage_count (inv_agentId v) ?st' = usage_count (inv_agentId v) st + (if ?Q then 1 else 0)"
      proof (cases ?Q)
        case True
        then show ?thesis using v False f1
          by (simp add: cancelInvocation_def Let_def cancelQueuedInvocation_def recordAgentUsage_count
              queued_cancelled_def stamp_request_def)
      next
        case False
        then have "usages ?st' = usages st"
          using v \<open>\<not> is_terminal (inv_status v)\<close>
          by (simp add: cancelInvocation_def Let_def split: option.split)
        with False show ?thesis by (simp add: usage_count_def)
      qed
      have "?Q \<longleftrightarrow> usage_count (inv_agentId v) ?st' = usage_count (inv_agentId v) st + 1"
        unfolding cnt by simp
      then have "(\<exists>v'. find_inv i ?st' = Some v' \<and> cancelled_row hk t actor st v v')
          \<and> (?Q \<longleftrightarrow> usage_count (inv_agentId v) ?st' = usage_count (inv_agentId v) st + 1)
          \<and> approvals ?st' = (if ?Q then map (\<lambda>a. if Some (apr_id a) = inv_approvalRequestId v \<and> apr_status a = ''pending''
                then a\<lparr>apr_status := ''denied'', apr_decidedAt := Some t, apr_decidedBy := Some (actor_user actor)\<rparr> else a) (approvals st)
              else approvals st)"
        using cancelInvocation_row [OF v False, of hk t actor] cancel_approvals [OF v False, of hk t actor] by (intro conjI) assumption+
      with other show ?thesis unfolding v option.case if_not_P [OF False] by (rule conjI [rotated])
    qed
  qed
qed

theorem cancel_effect_witness:
  "\<exists>v'. find_inv ''inv_1'' (cancelInvocation null_hooks 7 None ''inv_1''
       (demo_server [demo_inv ''inv_1'' Running DAcknowledged 1])) = Some v' \<and> inv_status v' = Cancelling"
proof -
  have "\<not> is_terminal (inv_status (demo_inv ''inv_1'' Running DAcknowledged 1))" by simp
  with cancel_effect [where i = "''inv_1''" and hk = null_hooks and t = 7 and actor = None and j = "''inv_1''"
      and st = "demo_server [demo_inv ''inv_1'' Running DAcknowledged 1]"]
  show ?thesis by (auto simp: demo_find cancelled_row_def)
qed

text \<open>What ending queued work leaves open: unlike a completion it does not end the root span, does
  not refresh the compare run of the invocation and runs no callback (so neither the budget hold is
  released nor the completion hook informed), although the invocation is terminal afterwards and no
  later operation on it can make up for it.\<close>

theorem queued_cancel_leaves_open:
  assumes "find_inv i st = Some v" and "inv_status v = Queued"
  shows "let st' = cancelInvocation hk t actor i st
    in (\<exists>v'. find_inv i st' = Some v' \<and> is_terminal (inv_status v'))
       \<and> spans st' = spans st \<and> compare_runs st' = compare_runs st \<and> world st' = world st
       \<and> completeInvocation hk t' i b st' = st' \<and> cancelInvocation hk t' actor' i st' = st'"
proof -
  let ?st' = "cancelInvocation hk t actor i st"
  have "\<not> is_terminal (inv_status v)" using assms(2) by simp
  from cancelInvocation_row [OF assms(1) this, of hk t actor] assms(2)
  obtain v' where v': "find_inv i ?st' = Some v'" and "inv_status v' = Cancelled"
    by (auto simp: cancelled_row_def)
  then have fin: "is_terminal (inv_status v')" by simp
  have "spans ?st' = spans st \<and> compare_runs ?st' = compare_runs st \<and> world ?st' = world st"
    using assms by (simp add: cancelInvocation_def Let_def)
  with v' fin completeInvocation_terminal [OF v' fin] show ?thesis
    by (simp add: Let_def cancelInvocation_def)
qed

theorem queued_cancel_leaves_open_witness:
  "\<exists>v'. find_inv ''inv_1'' (cancelInvocation null_hooks 7 None ''inv_1''
       (demo_server [demo_inv ''inv_1'' Queued DQueued 0])) = Some v' \<and> is_terminal (inv_status v')"
proof -
  have "inv_status (demo_inv ''inv_1'' Queued DQueued 0) = Queued" by simp
  from queued_cancel_leaves_open [OF demo_find this, where hk = null_hooks and t = 7 and actor = None]
  show ?thesis by (simp add: Let_def)
qed

section \<open>Unlinking the device\<close>

lemma find_in_ids_with:
  assumes "find_inv j st = Some v"
  shows "inv_status v \<in> S \<Longrightarrow> j \<in> set (ids_with S st)"
    and "distinct (map inv_id (invocations st)) \<Longrightarrow> j \<in> set (ids_with S st) \<Longrightarrow> inv_status v \<in> S"
proof -
  from find_inv_SomeD [OF assms] have v: "v \<in> set (invocations st)" "inv_id v = j" by auto
  then show "inv_status v \<in> S \<Longrightarrow> j \<in> set (ids_with S st)" by (auto simp: ids_with_def)
  show "inv_status v \<in> S"
    if "distinct (map inv_id (invocations st))" and "j \<in> set (ids_with S st)"
  proof -
    from that(2) obtain w where w: "w \<in> set (invocations st)" "inv_id w = j" "inv_status w \<in> S"
      by (auto simp: ids_with_def)
    with v distinct_key_eq [OF that(1) w(1) v(1)] show ?thesis by simp
  qed
qed

lemma find_in_ids_with_iff:
  "find_inv j st = Some v \<Longrightarrow> distinct (map inv_id (invocations st)) \<Longrightarrow>
   j \<in> set (ids_with S st) \<longleftrightarrow> inv_status v \<in> S"
  using find_in_ids_with by blast

lemma distinct_ids_with: "distinct (map inv_id (invocations st)) \<Longrightarrow> distinct (ids_with S st)"
  by (simp add: ids_with_def distinct_map_filter)

text \<open>C11: unlinking the device leaves no work that could still start or run unasked: work that was
  queued or waiting ends cancelled, work that was dispatched or running is being cancelled, and every
  other row is as it was.\<close>

theorem unlink_drains:
  assumes "distinct (map inv_id (invocations st))" and "find_inv j st = Some v"
  shows "\<exists>v'. find_inv j (cancelInvocationsForDeviceUnlink hk t st) = Some v'
    \<and> (if inv_status v \<in> {Queued, WaitingForLocalApproval}
        then inv_status v' = Cancelled \<and> can_state (inv_cancellation v') = CQueuedCancelled
        else if inv_status v \<in> {Dispatching, Running}
        then inv_status v' = Cancelling \<and> can_state (inv_cancellation v') = CRequested
             \<and> can_requestedAt (inv_cancellation v') = Some t
        else v' = v)
    \<and> inv_status v' \<notin> {Queued, WaitingForLocalApproval, Dispatching, Running}"
proof -
  let ?q = "ids_with {Queued, WaitingForLocalApproval} st"
  let ?st1 = "fold (unlink_queued t) ?q st"
  let ?r = "ids_with {Dispatching, Running} ?st1"
  let ?f = "queued_cancelled t ''Device unlinked before dispatch.'' ''usr_local''"
  let ?g = "requested_cancel t ''Device unlink requested cancellation for running local work.''"
  have ids1: "map inv_id (invocations ?st1) = map inv_id (invocations st)"
    unfolding unlink_queued_def by (rule cancel_queued.rows.sweep_ids)
  have d1: "distinct (map inv_id (invocations ?st1))" using assms(1) ids1 by simp
  have f1: "find_inv j ?st1 = (if j \<in> set ?q then map_option ?f (find_inv j st) else find_inv j st)"
    unfolding unlink_queued_def by (rule cancel_queued.sweep_row [OF distinct_ids_with [OF assms(1)]])
  have f2: "find_inv j (cancelInvocationsForDeviceUnlink hk t st)
      = (if j \<in> set ?r then map_option ?g (find_inv j ?st1) else find_inv j ?st1)"
    unfolding cancelInvocationsForDeviceUnlink_def Let_def
    by (rule request_running.sweep_row [OF distinct_ids_with [OF d1]])
  have q: "j \<in> set ?q \<longleftrightarrow> inv_status v \<in> {Queued, WaitingForLocalApproval}"
    by (rule find_in_ids_with_iff [OF assms(2) assms(1)])
  show ?thesis
  proof (cases "j \<in> set ?q")
    case True
    then have v1: "find_inv j ?st1 = Some (?f v)" using f1 assms(2) by simp
    have "j \<notin> set ?r"
      using find_in_ids_with(2) [OF v1 d1] by (auto simp: queued_cancelled_def)
    with True q v1 f2 show ?thesis by (simp add: queued_cancelled_def)
  next
    case False
    then have v1: "find_inv j ?st1 = Some v" using f1 assms(2) by simp
    have r: "j \<in> set ?r \<longleftrightarrow> inv_status v \<in> {Dispatching, Running}"
      by (rule find_in_ids_with_iff [OF v1 d1])
    show ?thesis
    proof (cases "j \<in> set ?r")
      case True
      with r have s: "inv_status v \<in> {Dispatching, Running}" by simp
      have "find_inv j (cancelInvocationsForDeviceUnlink hk t st) = Some (?g v)"
        using True v1 f2 by simp
      then show ?thesis using s by (auto simp: requested_cancel_def)
    next
      case no: False
      then have "find_inv j (cancelInvocationsForDeviceUnlink hk t st) = Some v" using v1 f2 by simp
      then show ?thesis using r no q False by simp
    qed
  qed
qed

theorem unlink_drains_witness:
  "\<exists>v'. find_inv ''inv_2'' (cancelInvocationsForDeviceUnlink null_hooks 7
       (demo_server [demo_inv ''inv_2'' Running DAcknowledged 1, demo_inv ''inv_1'' Queued DQueued 0]))
     = Some v' \<and> inv_status v' = Cancelling"
proof -
  have "distinct (map inv_id (invocations (demo_server [demo_inv ''inv_2'' Running DAcknowledged 1,
      demo_inv ''inv_1'' Queued DQueued 0])))"
    by simp
  from unlink_drains [OF this demo_find, where hk = null_hooks and t = 7]
  show ?thesis by auto
qed

end
