(* ===== verification/Approval.thy ===== *)
theory Approval
  imports InvocationCancel
begin

text \<open>
  services/invocations/approval.mjs: the policy decision for a new invocation, its record, the request
  for a local approval, and the two human decisions on it.  With \<open>uniqueStrings\<close> of
  runtime/service-composer.mjs and two helpers of services/agents.mjs.  The routes look the approval
  request and its invocation up by id; the two handlers here take the ids.
\<close>

section \<open>Policy\<close>

definition uniqueStrings :: "string list \<Rightarrow> string list" where
  "uniqueStrings xs = first_keys (filter (\<lambda>s. s \<noteq> []) (map js_trim xs))"

definition codex_names :: "string list" where
  "codex_names = [''codex'', ''codex.cmd'', ''codex.ps1'', ''codex.exe'']"

definition isCodexCliCommand :: "string option \<Rightarrow> bool" where
  "isCodexCliCommand command =
     (let n = js_lower (js_trim (coalesce command []))
      in list_ex (\<lambda>name. n = name \<or> ends_with n (''/'' @ name) \<or> ends_with n (CHR 0x5C # name)) codex_names)"

definition cancellationTextForAdapter :: "agent_adapter \<Rightarrow> string" where
  "cancellationTextForAdapter a =
     (if ad_cancellation a = Some ''supported'' then ''Can request stop.''
      else if ad_cancellation a = Some ''unsupported'' then ''Stop is not supported by this agent.''
      else ''Stop behavior is unknown.'')"

definition risk_order :: "string list" where
  "risk_order = [''low'', ''medium'', ''high'', ''critical'']"

definition normal_risk :: "string option \<Rightarrow> string" where
  "normal_risk l = (case l of Some r \<Rightarrow> if r \<in> set risk_order then r else ''medium'' | None \<Rightarrow> ''medium'')"

definition raise_risk :: "string option \<Rightarrow> string \<Rightarrow> string" where
  "raise_risk l highest =
     (if indexOf risk_order highest < indexOf risk_order (normal_risk l) then normal_risk l else highest)"

definition highestRiskLevel :: "string option list \<Rightarrow> string" where
  "highestRiskLevel levels = fold raise_risk levels ''low''"

definition costTextForAgent :: "agent \<Rightarrow> string" where
  "costTextForAgent a =
     (case Option.bind (ag_economics a) eco_model of
        Some m \<Rightarrow>
          if m \<noteq> [] \<and> m \<noteq> ''unknown''
          then m @ '' cost policy: '' @ coalesce (Option.bind (ag_economics a) eco_unknownCostPolicy) ''unknown'' @ ''.''
          else ''Cost is unknown and no billing is performed by the demo server.''
      | None \<Rightarrow> ''Cost is unknown and no billing is performed by the demo server.'')"

record policy =
  pol_decision :: string
  pol_reason :: string
  pol_riskLevel :: string
  pol_riskTags :: "string list"
  pol_summary :: policy_summary

definition agent_tags :: "agent \<Rightarrow> string list" where
  "agent_tags a = concat (map cap_riskTags (ag_capabilities a))"

definition requires_approval :: "agent \<Rightarrow> json \<Rightarrow> bool" where
  "requires_approval a options \<longleftrightarrow>
     \<not> isCodexCliCommand (ad_command (ag_adapter a)) \<and> \<not> truthy (jget options ''preApproved'')
     \<and> (truthy (jget options ''requireLocalApproval'')
        \<or> highestRiskLevel (map cap_riskLevel (ag_capabilities a)) \<in> {''high'', ''critical''})"

definition evaluateInvocationPolicy :: "agent \<Rightarrow> json \<Rightarrow> policy" where
  "evaluateInvocationPolicy a options =
     (let risk = highestRiskLevel (map cap_riskLevel (ag_capabilities a));
          need = requires_approval a options
      in \<lparr>pol_decision = (if need then ''requires_local_approval'' else ''allowed''),
          pol_reason =
            (if need then ag_name a @ '' has '' @ risk @ '' risk capability tags and needs local approval before running.''
             else if isCodexCliCommand (ad_command (ag_adapter a))
             then ag_name a @ '' risk is '' @ risk @ ''; invocation is allowed and permissions are handled by Codex CLI native controls.''
             else ag_name a @ '' risk is '' @ risk @ ''; invocation is allowed by local policy.''),
          pol_riskLevel = risk, pol_riskTags = uniqueStrings (agent_tags a),
          pol_summary =
            \<lparr>ps_risk = coalesce (rn_risk (ag_notes a)) (ag_name a @ '' reports '' @ risk @ '' risk for this capability.''),
             ps_data = coalesce (rn_data (ag_notes a))
               ''Task input, logs, trace, and result are recorded by the local demo server.'',
             ps_cost = coalesce (rn_cost (ag_notes a)) (costTextForAgent a),
             ps_cancellation = coalesce (rn_cancellation (ag_notes a))
               (cancellationTextForAdapter (ag_adapter a))\<rparr>\<rparr>)"

section \<open>Records\<close>

definition createPolicyDecisionRecord ::
    "instant \<Rightarrow> string \<Rightarrow> agent \<Rightarrow> policy \<Rightarrow> 'w server \<Rightarrow> string \<times> 'w server" where
  "createPolicyDecisionRecord t i a p st =
     (let (pid, st1) = next_id ''pdr_demo'' st;
          r = \<lparr>pd_id = pid, pd_invocationId = i, pd_agentId = ag_id a, pd_riskLevel = pol_riskLevel p,
               pd_riskTags = pol_riskTags p, pd_decision = pol_decision p, pd_reason = pol_reason p,
               pd_approvalRequestId = None, pd_approver = None, pd_createdAt = t\<rparr>
      in (pid, st1\<lparr>policy_records := push_cap 200 r (policy_records st1)\<rparr>))"

definition approval_context ::
    "invocation \<Rightarrow> agent \<Rightarrow> policy \<Rightarrow> 'w server \<Rightarrow> execution_context" where
  "approval_context v a p st =
     (let metadata = jget (inv_input v) ''metadata'';
          worktree = (if truthy (jget metadata ''worktreeId'')
                      then List.find (\<lambda>w. JStr (wt_id w) = jget metadata ''worktreeId'') (worktrees st)
                      else None);
          pid = nullish_or (jget metadata ''projectId'') (jstr (inv_projectId v));
          project = List.find (\<lambda>x. JStr (pr_id x) = pid) (projects st);
          wpath = Option.bind worktree wt_path
      in \<lparr>ec_command = ad_command (ag_adapter a), ec_arguments = ad_args (ag_adapter a),
          ec_workingDirectory =
            coalesce_opt wpath
              (coalesce_opt (Option.bind project pr_path) (ad_workingDirectory (ag_adapter a))),
          ec_pathPolicy =
            (if coalesce wpath [] \<noteq> [] then ''isolated_worktree''
             else coalesce (ad_workingDirectoryPolicy (ag_adapter a)) ''project''),
          ec_impactScope = uniqueStrings (agent_tags a @ pol_riskTags p),
          ec_projectId = pid, ec_worktreeId = jget metadata ''worktreeId'',
          ec_autoRunId = jget metadata ''autoRunId''\<rparr>)"

definition createApprovalRequest ::
    "instant \<Rightarrow> invocation \<Rightarrow> agent \<Rightarrow> policy \<Rightarrow> 'w server \<Rightarrow> string \<times> 'w server" where
  "createApprovalRequest t v a p st =
     (let (aid, st1) = next_id ''apr_demo'' st;
          r = \<lparr>apr_id = aid, apr_invocationId = inv_id v, apr_agentId = ag_id a,
               apr_terminalId = coalesce_opt (inv_terminalId v) (del_deviceId (inv_delivery v)),
               apr_requestedBy = inv_requestedBy v, apr_status = ''pending'',
               apr_riskLevel = pol_riskLevel p, apr_riskTags = pol_riskTags p,
               apr_summary = pol_summary p, apr_executionContext = approval_context v a p st,
               apr_createdAt = t, apr_decidedAt = None, apr_decidedBy = None\<rparr>
      in (aid, st1\<lparr>approvals := push_cap 200 r (approvals st1)\<rparr>))"

section \<open>Decisions\<close>

definition decide_approval :: "string \<Rightarrow> instant \<Rightarrow> string \<Rightarrow> string \<Rightarrow> 'w server \<Rightarrow> 'w server" where
  "decide_approval d t by aid st =
     st\<lparr>approvals := upd_where (\<lambda>r. apr_id r = aid)
          (\<lambda>r. r\<lparr>apr_status := d, apr_decidedAt := Some t, apr_decidedBy := Some by\<rparr>) (approvals st)\<rparr>"

definition decide_policy :: "string \<Rightarrow> string \<Rightarrow> string \<Rightarrow> string option \<Rightarrow> 'w server \<Rightarrow> 'w server" where
  "decide_policy d reason by pid st =
     st\<lparr>policy_records := upd_where (\<lambda>r. Some (pd_id r) = pid)
          (\<lambda>r. r\<lparr>pd_decision := d, pd_approver := Some by, pd_reason := reason\<rparr>) (policy_records st)\<rparr>"

definition is_http :: "agent option \<Rightarrow> bool" where
  "is_http a \<longleftrightarrow> (case a of Some x \<Rightarrow> ad_type (ag_adapter x) = ''http'' | None \<Rightarrow> False)"

definition approved_row :: "instant \<Rightarrow> bool \<Rightarrow> invocation \<Rightarrow> invocation" where
  "approved_row t h v =
     v\<lparr>inv_status := (if h then Running else Queued),
       inv_delivery := (inv_delivery v)\<lparr>del_state := (if h then DNotRequired else DQueued),
         del_attempts := (if h then 1 else 0), del_lastDispatchAt := (if h then Some t else None),
         del_acknowledgedAt := (if h then Some t else None)\<rparr>,
       inv_updatedAt := t\<rparr>"

definition approval_data :: "string \<Rightarrow> json" where
  "approval_data aid = JObj [(''approvalRequestId'', JStr aid)]"

definition undecided :: "string \<Rightarrow> string \<Rightarrow> 'w server \<Rightarrow> bool" where
  "undecided aid i st \<longleftrightarrow>
     (case (findApprovalRequest aid st, find_inv i st) of
        (Some r, Some v) \<Rightarrow> apr_status r = ''pending'' \<and> inv_status v = WaitingForLocalApproval
      | _ \<Rightarrow> False)"

definition approval_events :: "bool \<Rightarrow> string \<Rightarrow> string \<Rightarrow> string \<Rightarrow> event_in list" where
  "approval_events h name aid i =
     [mk_ev (Some i) ''local_approval_granted'' ''info''
        ''Local approval granted. Invocation can run.'' (approval_data aid),
      mk_ev (Some i) ''invocation_authorized'' ''info''
        (''Invocation authorized after local approval for '' @ name @ ''.'') JNull,
      mk_ev (Some i) (if h then ''invocation_started'' else ''delivery_queued'') ''info''
        (if h then ''HTTP Agent invocation started after approval.''
         else ''Invocation queued for Desktop Bridge after approval.'') JNull]"

text \<open>The unit of work of the approval, then what runs after its commit.\<close>

definition approve_commit ::
    "instant \<Rightarrow> string \<Rightarrow> agent option \<Rightarrow> string \<Rightarrow> invocation \<Rightarrow> 'w server \<Rightarrow> 'w server" where
  "approve_commit t by agent aid v st =
     append_events t
       (approval_events (is_http agent) (case agent of Some a \<Rightarrow> ag_name a | None \<Rightarrow> inv_agentId v) aid (inv_id v))
       (decide_policy ''allowed'' ''Local approval granted for high-risk invocation.'' by (inv_policyDecisionId v)
         (upd_inv (inv_id v) (approved_row t (is_http agent)) (decide_approval ''approved'' t by aid st)))"

definition approveInvocation ::
    "'w hooks \<Rightarrow> instant \<Rightarrow> actor option \<Rightarrow> string \<Rightarrow> string \<Rightarrow> 'w server \<Rightarrow> 'w server" where
  "approveInvocation hk t actor aid i st =
     (case find_inv i st of
        None \<Rightarrow> st
      | Some v \<Rightarrow>
          if \<not> undecided aid i st then st
          else (let agent = findAgent (inv_agentId v) st
                in do_hook t (hk_approved hk) i JNull
                     (startInvocationIfAllowed t i agent
                       (approve_commit t (actor_user actor) agent aid v st))))"

definition denied_row :: "instant \<Rightarrow> invocation \<Rightarrow> invocation" where
  "denied_row t v = v\<lparr>inv_status := Rejected, inv_completedAt := Some t, inv_updatedAt := t\<rparr>"

definition denial :: "string \<Rightarrow> string \<Rightarrow> invocation \<Rightarrow> refusal_in" where
  "denial by aid v =
     \<lparr>ri_subject = Some (ref_to ''invocation'' (Some (inv_id v))),
      ri_requester = Some (ref_to ''local_user'' (Some (inv_requestedBy v))),
      ri_category = ''human'', ri_code = ''approval_denied'',
      ri_decidedBy = Some (ref_to ''user'' (Some by)),
      ri_summary = Some ''Local approval denied. Invocation was not executed.'',
      ri_evidence = approval_data aid,
      ri_remedy = Some ''Re-request the invocation and approve it at the local gate.'',
      ri_retryAfter = None, ri_appealTo = Some ''device_owner'',
      ri_event = Some (mk_ev (Some (inv_id v)) ''local_approval_denied'' ''warn''
        ''Local approval denied. Invocation was not executed.'' (approval_data aid))\<rparr>"

definition deny_commit :: "instant \<Rightarrow> string \<Rightarrow> string \<Rightarrow> invocation \<Rightarrow> 'w server \<Rightarrow> 'w server" where
  "deny_commit t by aid v st =
     (let v' = denied_row t v;
          st1 = decide_policy ''denied'' ''Local approval denied by user.'' by (inv_policyDecisionId v)
                  (completeRootSpan t v' Failed
                    (upd_inv (inv_id v) (denied_row t) (decide_approval ''denied'' t by aid st)));
          st2 = append_event t
            (mk_ev (Some (inv_id v)) ''invocation_rejected'' ''warn'' ''Invocation rejected before execution.'' JNull)
            (refuse_unchecked t (denial by aid v') st1);
          audit = (createAuditSummary t v' (Some ''Local approval denied before execution.'') st2)
            \<lparr>au_permissionDecision := ''denied'',
             au_errorSummary := Some ''Local approval denied before execution.''\<rparr>
      in recordAgentUsage t v' Rejected (push_audit audit st2))"

definition denyInvocation ::
    "'w hooks \<Rightarrow> instant \<Rightarrow> actor option \<Rightarrow> string \<Rightarrow> string \<Rightarrow> 'w server \<Rightarrow> 'w server" where
  "denyInvocation hk t actor aid i st =
     (case find_inv i st of
        None \<Rightarrow> st
      | Some v \<Rightarrow>
          if \<not> undecided aid i st then st
          else do_hook t (hk_denied hk) i JNull (deny_commit t (actor_user actor) aid v st))"

lemma denial_in_taxonomy: "assertTaxonomy (ri_category (denial by aid v)) (ri_code (denial by aid v)) = Inr ()"
  by (simp add: denial_def) code_simp

lemma decide_approval_frame [simp, frame]:
  "id_counter (decide_approval d t u aid st) = id_counter st"
  "issued_ids (decide_approval d t u aid st) = issued_ids st"
  "invocations (decide_approval d t u aid st) = invocations st"
  "events (decide_approval d t u aid st) = events st"
  "event_archive (decide_approval d t u aid st) = event_archive st"
  "event_retention (decide_approval d t u aid st) = event_retention st"
  "event_archiver (decide_approval d t u aid st) = event_archiver st"
  "refusals (decide_approval d t u aid st) = refusals st"
  "refusal_archive (decide_approval d t u aid st) = refusal_archive st"
  "refusal_archive_up (decide_approval d t u aid st) = refusal_archive_up st"
  "refusal_stats (decide_approval d t u aid st) = refusal_stats st"
  "refusal_since (decide_approval d t u aid st) = refusal_since st"
  "agents (decide_approval d t u aid st) = agents st"
  "device (decide_approval d t u aid st) = device st"
  "projects (decide_approval d t u aid st) = projects st"
  "users (decide_approval d t u aid st) = users st"
  "worktrees (decide_approval d t u aid st) = worktrees st"
  "work_items (decide_approval d t u aid st) = work_items st"
  "traces (decide_approval d t u aid st) = traces st"
  "spans (decide_approval d t u aid st) = spans st"
  "transcripts (decide_approval d t u aid st) = transcripts st"
  "audits (decide_approval d t u aid st) = audits st"
  "usages (decide_approval d t u aid st) = usages st"
  "compare_runs (decide_approval d t u aid st) = compare_runs st"
  "policy_records (decide_approval d t u aid st) = policy_records st"
  "applications (decide_approval d t u aid st) = applications st"
  "http (decide_approval d t u aid st) = http st"
  "world (decide_approval d t u aid st) = world st"
  by (simp_all add: decide_approval_def)

lemma decide_policy_frame [simp, frame]:
  "id_counter (decide_policy d rs u pid st) = id_counter st"
  "issued_ids (decide_policy d rs u pid st) = issued_ids st"
  "invocations (decide_policy d rs u pid st) = invocations st"
  "events (decide_policy d rs u pid st) = events st"
  "event_archive (decide_policy d rs u pid st) = event_archive st"
  "event_retention (decide_policy d rs u pid st) = event_retention st"
  "event_archiver (decide_policy d rs u pid st) = event_archiver st"
  "refusals (decide_policy d rs u pid st) = refusals st"
  "refusal_archive (decide_policy d rs u pid st) = refusal_archive st"
  "refusal_archive_up (decide_policy d rs u pid st) = refusal_archive_up st"
  "refusal_stats (decide_policy d rs u pid st) = refusal_stats st"
  "refusal_since (decide_policy d rs u pid st) = refusal_since st"
  "agents (decide_policy d rs u pid st) = agents st"
  "device (decide_policy d rs u pid st) = device st"
  "projects (decide_policy d rs u pid st) = projects st"
  "users (decide_policy d rs u pid st) = users st"
  "worktrees (decide_policy d rs u pid st) = worktrees st"
  "work_items (decide_policy d rs u pid st) = work_items st"
  "traces (decide_policy d rs u pid st) = traces st"
  "spans (decide_policy d rs u pid st) = spans st"
  "transcripts (decide_policy d rs u pid st) = transcripts st"
  "audits (decide_policy d rs u pid st) = audits st"
  "usages (decide_policy d rs u pid st) = usages st"
  "compare_runs (decide_policy d rs u pid st) = compare_runs st"
  "approvals (decide_policy d rs u pid st) = approvals st"
  "applications (decide_policy d rs u pid st) = applications st"
  "http (decide_policy d rs u pid st) = http st" "world (decide_policy d rs u pid st) = world st"
  by (simp_all add: decide_policy_def)

lemma find_inv_decide [simp]:
  "find_inv i (decide_approval d t u aid st) = find_inv i st"
  "find_inv i (decide_policy d rs u pid st) = find_inv i st"
  by (rule find_inv_cong; simp)+

lemma decision_rows [simp]:
  "inv_id (approved_row t h v) = inv_id v" "inv_id (denied_row t v) = inv_id v"
  "inv_status (approved_row t h v) = (if h then Running else Queued)"
  "inv_status (denied_row t v) = Rejected" "inv_agentId (denied_row t v) = inv_agentId v"
  "inv_agentId (approved_row t h v) = inv_agentId v"
  "inv_completedAt (denied_row t v) = Some t" "inv_delivery (denied_row t v) = inv_delivery v"
  by (simp_all add: approved_row_def denied_row_def)

section \<open>The gate\<close>

lemma normal_risk_in: "normal_risk l \<in> set risk_order"
  by (cases l) (simp_all add: normal_risk_def risk_order_def)

definition risk_index :: "string option \<Rightarrow> int" where
  "risk_index l = indexOf risk_order (normal_risk l)"

lemma raise_risk_max:
  "indexOf risk_order (raise_risk l h) = max (indexOf risk_order h) (risk_index l)"
  by (simp add: raise_risk_def risk_index_def max_def)

lemma raise_risk_in: "h \<in> set risk_order \<Longrightarrow> raise_risk l h \<in> set risk_order"
  using normal_risk_in [of l] by (simp add: raise_risk_def)

lemma highest_in: "highestRiskLevel ls \<in> set risk_order"
proof -
  have "h \<in> set risk_order \<Longrightarrow> fold raise_risk ls h \<in> set risk_order" for h
    by (induction ls arbitrary: h) (simp_all add: raise_risk_in)
  then show ?thesis by (simp add: highestRiskLevel_def risk_order_def)
qed

lemma highest_index: "indexOf risk_order (highestRiskLevel ls) = Max (insert 0 (risk_index ` set ls))"
proof -
  have "indexOf risk_order (fold raise_risk ls h) = fold max (map risk_index ls) (indexOf risk_order h)" for h
    by (induction ls arbitrary: h) (simp_all add: raise_risk_max max.commute)
  from this [of "''low''"] Max.set_eq_fold [of "0::int" "map risk_index ls"] show ?thesis
    by (simp add: highestRiskLevel_def risk_order_def)
qed

lemma index_high: "r \<in> set risk_order \<Longrightarrow> r \<in> {''high'', ''critical''} \<longleftrightarrow> 2 \<le> indexOf risk_order r"
  by (auto simp: risk_order_def)

lemma risk_index_high: "2 \<le> risk_index l \<longleftrightarrow> l \<in> {Some ''high'', Some ''critical''}"
  unfolding risk_index_def index_high [OF normal_risk_in, symmetric]
  by (cases l) (auto simp: normal_risk_def risk_order_def)

text \<open>The gate before a run: the risk of an agent is the highest risk of its capabilities, an
  unknown one counting as medium, and a run needs local approval exactly when some capability is of high
  or critical risk or the caller asked for it, unless the agent is the Codex CLI or the run continues an
  approved one.\<close>

theorem approval_gate:
  "let p = evaluateInvocationPolicy a options;
       levels = map cap_riskLevel (ag_capabilities a)
   in (pol_decision p = ''requires_local_approval'') =
        (\<not> isCodexCliCommand (ad_command (ag_adapter a)) \<and> \<not> truthy (jget options ''preApproved'')
         \<and> (truthy (jget options ''requireLocalApproval'')
            \<or> list_ex (\<lambda>l. l \<in> {Some ''high'', Some ''critical''}) levels))
      \<and> pol_decision p \<in> {''requires_local_approval'', ''allowed''}
      \<and> indexOf risk_order (pol_riskLevel p) = Max (insert 0 (risk_index ` set levels))"
proof -
  let ?ls = "map cap_riskLevel (ag_capabilities a)"
  have "highestRiskLevel ?ls \<in> {''high'', ''critical''} \<longleftrightarrow> 2 \<le> Max (insert 0 (risk_index ` set ?ls))"
    unfolding index_high [OF highest_in] highest_index ..
  also have "\<dots> \<longleftrightarrow> list_ex (\<lambda>l. 2 \<le> risk_index l) ?ls"
    by (subst Max_ge_iff) (auto simp: list_ex_iff)
  also have "\<dots> \<longleftrightarrow> list_ex (\<lambda>l. l \<in> {Some ''high'', Some ''critical''}) ?ls"
    unfolding risk_index_high ..
  finally have "requires_approval a options =
      (\<not> isCodexCliCommand (ad_command (ag_adapter a)) \<and> \<not> truthy (jget options ''preApproved'')
       \<and> (truthy (jget options ''requireLocalApproval'')
          \<or> list_ex (\<lambda>l. l \<in> {Some ''high'', Some ''critical''}) ?ls))"
    unfolding requires_approval_def by simp
  then show ?thesis
    by (simp add: evaluateInvocationPolicy_def Let_def highest_index [symmetric])
qed

section \<open>The decision\<close>

lemma findApproval_frame: "approvals st' = approvals st \<Longrightarrow> findApprovalRequest aid st' = findApprovalRequest aid st"
  by (simp add: findApprovalRequest_def)

lemma find_decided:
  "findApprovalRequest aid (decide_approval d t u aid st)
     = map_option (\<lambda>r. r\<lparr>apr_status := d, apr_decidedAt := Some t, apr_decidedBy := Some u\<rparr>)
         (findApprovalRequest aid st)"
proof -
  have upd: "List.find (\<lambda>r. apr_id r = aid) (upd_where (\<lambda>r. apr_id r = aid) f xs)
      = map_option f (List.find (\<lambda>r. apr_id r = aid) xs)" if "\<And>r. apr_id (f r) = apr_id r" for f xs
    using that by (induction xs) auto
  show ?thesis by (simp add: findApprovalRequest_def decide_approval_def upd)
qed

lemma decision_approvals:
  assumes "undecided aid i st" and "find_inv i st = Some v"
  shows "approvals (approveInvocation hk t actor aid i st)
      = approvals (decide_approval ''approved'' t (actor_user actor) aid st)"
    and "approvals (denyInvocation hk t actor aid i st)
      = approvals (decide_approval ''denied'' t (actor_user actor) aid st)"
  using assms
  by (simp_all add: approveInvocation_def denyInvocation_def Let_def decide_approval_def
      approve_commit_def deny_commit_def)

lemma undecided_find: "undecided aid i st \<Longrightarrow> \<exists>v r. find_inv i st = Some v \<and> findApprovalRequest aid st = Some r
    \<and> inv_status v = WaitingForLocalApproval \<and> apr_status r = ''pending''"
  by (simp add: undecided_def split: option.splits)

lemma decided_not_undecided:
  assumes "findApprovalRequest aid st = Some r" and "apr_status r \<noteq> ''pending''"
  shows "\<not> undecided aid i st"
  using assms by (simp add: undecided_def split: option.splits)

lemma decided_final:
  assumes "\<not> undecided aid i st"
  shows "approveInvocation hk t actor aid i st = st" and "denyInvocation hk t actor aid i st = st"
  using assms by (simp_all add: approveInvocation_def denyInvocation_def split: option.split)

lemma decision_find:
  assumes "undecided aid i st"
  shows "\<exists>r. findApprovalRequest aid (approveInvocation hk t actor aid i st) = Some r
            \<and> apr_status r = ''approved'' \<and> apr_decidedBy r = Some (actor_user actor)"
    and "\<exists>r. findApprovalRequest aid (denyInvocation hk t actor aid i st) = Some r
            \<and> apr_status r = ''denied'' \<and> apr_decidedBy r = Some (actor_user actor)"
proof -
  from undecided_find [OF assms] obtain v r where v: "find_inv i st = Some v"
    and r: "findApprovalRequest aid st = Some r" by blast
  show "\<exists>r. findApprovalRequest aid (approveInvocation hk t actor aid i st) = Some r
            \<and> apr_status r = ''approved'' \<and> apr_decidedBy r = Some (actor_user actor)"
    unfolding findApproval_frame [OF decision_approvals(1) [OF assms v]] find_decided r by simp
  show "\<exists>r. findApprovalRequest aid (denyInvocation hk t actor aid i st) = Some r
            \<and> apr_status r = ''denied'' \<and> apr_decidedBy r = Some (actor_user actor)"
    unfolding findApproval_frame [OF decision_approvals(2) [OF assms v]] find_decided r by simp
qed

lemma approve_row:
  assumes "undecided aid i st" and "find_inv i st = Some v"
  shows "\<exists>v'. find_inv i (approveInvocation hk t actor aid i st) = Some v'
      \<and> inv_status v' \<in> {Queued, Running}"
    and "j \<noteq> i \<Longrightarrow> find_inv j (approveInvocation hk t actor aid i st) = find_inv j st"
proof -
  let ?a = "findAgent (inv_agentId v) st"
  let ?st1 = "approve_commit t (actor_user actor) ?a aid v st"
  have eq: "find_inv j (approveInvocation hk t actor aid i st)
      = find_inv j (startInvocationIfAllowed t i ?a ?st1)" for j
    using assms by (simp add: approveInvocation_def Let_def)
  have f: "find_inv j ?st1
      = (if i = j then map_option (approved_row t (is_http ?a)) (find_inv j st) else find_inv j st)" for j
    using find_inv_SomeD [OF assms(2)] by (simp add: approve_commit_def find_inv_upd_inv)
  show "\<exists>v'. find_inv i (approveInvocation hk t actor aid i st) = Some v'
      \<and> inv_status v' \<in> {Queued, Running}"
    using find_inv_start [of i t i ?a ?st1] assms(2) unfolding eq f by auto
  show "j \<noteq> i \<Longrightarrow> find_inv j (approveInvocation hk t actor aid i st) = find_inv j st"
    using find_inv_start [of j t i ?a ?st1] unfolding eq f by auto
qed

lemma deny_effect:
  assumes "undecided aid i st" and "find_inv i st = Some v"
  shows "find_inv j (denyInvocation hk t actor aid i st)
       = (if i = j then Some (denied_row t v) else find_inv j st)"
    and "usage_count (inv_agentId v) (denyInvocation hk t actor aid i st) = usage_count (inv_agentId v) st + 1"
    and "\<exists>r rs. refusals (denyInvocation hk t actor aid i st) = r # rs
           \<and> rf_code r = ''approval_denied'' \<and> rf_invocationId r = Some i
           \<and> rf_decidedBy r = ref_to ''user'' (Some (actor_user actor))"
    and "\<exists>a. audits (denyInvocation hk t actor aid i st) = audits st @ [a]
           \<and> au_invocationId a = i \<and> au_permissionDecision a = ''denied'' \<and> au_status a = Rejected"
    and "list_all (\<lambda>sp. stamped (sp_endedAt sp))
           (filter (\<lambda>sp. Some (sp_id sp) = inv_rootSpanId v) (spans (denyInvocation hk t actor aid i st)))"
proof -
  let ?st' = "denyInvocation hk t actor aid i st"
  have vi: "inv_id v = i" using assms(2) by (auto dest: find_inv_SomeD)
  have eq: "?st' = do_hook t (hk_denied hk) i JNull (deny_commit t (actor_user actor) aid v st)"
    using assms by (simp add: denyInvocation_def)
  show "find_inv j ?st' = (if i = j then Some (denied_row t v) else find_inv j st)"
    using assms(2) vi by (auto simp: eq deny_commit_def Let_def find_inv_upd_inv)
  have "usages ?st' = usages (deny_commit t (actor_user actor) aid v st)" by (simp add: eq)
  moreover have "usage_count a (deny_commit t (actor_user actor) aid v st)
      = (if a = inv_agentId v then usage_count a st + 1 else usage_count a st)" for a
    by (simp add: deny_commit_def Let_def recordAgentUsage_count) (simp add: usage_count_def)
  ultimately show "usage_count (inv_agentId v) ?st' = usage_count (inv_agentId v) st + 1"
    by (simp add: usage_count_def)
  show "\<exists>r rs. refusals ?st' = r # rs \<and> rf_code r = ''approval_denied'' \<and> rf_invocationId r = Some i
           \<and> rf_decidedBy r = ref_to ''user'' (Some (actor_user actor))"
    using vi
    by (simp add: eq deny_commit_def Let_def refuse_refusals push_cap_def REFUSALS_CAP_def denial_def
        numeral_eq_Suc) (simp add: refusal_row_def)
  show "\<exists>a. audits ?st' = audits st @ [a]
           \<and> au_invocationId a = i \<and> au_permissionDecision a = ''denied'' \<and> au_status a = Rejected"
    using vi by (simp add: eq deny_commit_def Let_def push_audit_def createAuditSummary_def)
  have "list_all (\<lambda>sp. stamped (sp_endedAt sp)) (filter (\<lambda>sp. Some (sp_id sp) = r)
      (upd_where (\<lambda>sp. Some (sp_id sp) = r) (end_span t Failed) xs))" for r xs
    by (induction xs) (auto simp: end_span_def)
  then show "list_all (\<lambda>sp. stamped (sp_endedAt sp))
           (filter (\<lambda>sp. Some (sp_id sp) = inv_rootSpanId v) (spans ?st'))"
    by (simp add: eq deny_commit_def Let_def completeRootSpan_def denied_row_def)
qed

text \<open>A decision on an approval request is made once and says who made it.  On a request that is
  not pending, or whose invocation no longer waits, both handlers change nothing.  An approval sends the
  invocation to its queue (or starts the remote request); a denial ends it rejected, ends its root span,
  records exactly one refusal \<open>approval_denied\<close> and one audit row, and counts it once for its agent.  No
  other invocation is touched, and no later decision on the same request has an effect.\<close>

theorem approval_decided_once:
  "let ap = approveInvocation hk t actor aid i st; dn = denyInvocation hk t actor aid i st
   in (if undecided aid i st
       then (\<exists>v v'. find_inv i st = Some v \<and> find_inv i ap = Some v' \<and> inv_status v' \<in> {Queued, Running}
             \<and> find_inv i dn = Some (denied_row t v)
             \<and> usage_count (inv_agentId v) dn = usage_count (inv_agentId v) st + 1
             \<and> list_all (\<lambda>sp. stamped (sp_endedAt sp))
                 (filter (\<lambda>sp. Some (sp_id sp) = inv_rootSpanId v) (spans dn)))
         \<and> (\<exists>r rs. refusals dn = r # rs \<and> rf_code r = ''approval_denied'' \<and> rf_invocationId r = Some i
              \<and> rf_decidedBy r = ref_to ''user'' (Some (actor_user actor)))
         \<and> (\<exists>a. audits dn = audits st @ [a] \<and> au_invocationId a = i \<and> au_permissionDecision a = ''denied''
              \<and> au_status a = Rejected)
         \<and> (\<exists>r. findApprovalRequest aid ap = Some r \<and> apr_status r = ''approved''
              \<and> apr_decidedBy r = Some (actor_user actor))
         \<and> approveInvocation hk t2 actor2 aid i2 dn = dn \<and> denyInvocation hk t2 actor2 aid i2 ap = ap
       else ap = st \<and> dn = st)
      \<and> (j = i \<or> find_inv j ap = find_inv j st \<and> find_inv j dn = find_inv j st)"
proof (cases "undecided aid i st")
  case True
  from undecided_find [OF this] obtain v where v: "find_inv i st = Some v" by blast
  note ap = approve_row(1) [OF True v, of hk t actor]
  note dn = deny_effect [OF True v, where hk = hk and t = t and actor = actor]
  have row: "find_inv i (denyInvocation hk t actor aid i st) = Some (denied_row t v)"
    by (simp add: dn(1))
  have j: "j = i \<or> find_inv j (approveInvocation hk t actor aid i st) = find_inv j st
      \<and> find_inv j (denyInvocation hk t actor aid i st) = find_inv j st"
    using approve_row(2) [OF True v, of j hk t actor] dn(1) [of j] by auto
  have fin: "approveInvocation hk t2 actor2 aid i2 (denyInvocation hk t actor aid i st)
        = denyInvocation hk t actor aid i st"
    "denyInvocation hk t2 actor2 aid i2 (approveInvocation hk t actor aid i st)
        = approveInvocation hk t actor aid i st"
    using decision_find [OF True, of hk t actor] by (auto intro!: decided_final dest: decided_not_undecided)
  from ap obtain v' where "find_inv i (approveInvocation hk t actor aid i st) = Some v'"
    "inv_status v' \<in> {Queued, Running}" by blast
  with v row dn(2,5) have
    "\<exists>v v'. find_inv i st = Some v \<and> find_inv i (approveInvocation hk t actor aid i st) = Some v'
        \<and> inv_status v' \<in> {Queued, Running}
        \<and> find_inv i (denyInvocation hk t actor aid i st) = Some (denied_row t v)
        \<and> usage_count (inv_agentId v) (denyInvocation hk t actor aid i st) = usage_count (inv_agentId v) st + 1
        \<and> list_all (\<lambda>sp. stamped (sp_endedAt sp))
            (filter (\<lambda>sp. Some (sp_id sp) = inv_rootSpanId v) (spans (denyInvocation hk t actor aid i st)))"
    by blast
  moreover have "\<exists>a. audits (denyInvocation hk t actor aid i st) = audits st @ [a] \<and> au_invocationId a = i
      \<and> au_permissionDecision a = ''denied'' \<and> au_status a = Rejected"
    using dn(4) by blast
  ultimately show ?thesis
    unfolding Let_def if_P [OF True] using dn(3) decision_find(1) [OF True, of hk t actor] fin j
    by (intro conjI) assumption+
next
  case False
  then show ?thesis by (simp add: decided_final)
qed

end
