(* ===== verification/Sessions.thy ===== *)
theory Sessions
  imports Metering Approval
begin

text \<open>
  The provider sessions a new run may continue (services/codex.mjs), the worktree of a project
  (services/projects.mjs), the model a run may ask for and its permission mode
  (packages/protocol/src/agent-models.mjs, codex-permissions.mjs).  The session tables extend the
  \<open>world\<close> of the server state.
\<close>

section \<open>Text of a JSON value\<close>

text \<open>\<open>String(v ?? "")\<close>\<close>

fun join_with :: "string \<Rightarrow> string list \<Rightarrow> string" where
  "join_with sep [] = []"
| "join_with sep [s] = s"
| "join_with sep (s # ss) = s @ sep @ join_with sep ss"

fun jtext :: "json \<Rightarrow> string" where
  "jtext JNull = []"
| "jtext (JBool b) = (if b then ''true'' else ''false'')"
| "jtext (JNum n) = show_int n"
| "jtext (JStr s) = s"
| "jtext (JArr xs) = join_with '','' (map jtext xs)"
| "jtext (JObj kvs) = ''[object Object]''"

section \<open>Models and permission modes\<close>

definition char_in :: "char \<Rightarrow> char \<Rightarrow> char \<Rightarrow> bool" where
  "char_in lo hi c \<longleftrightarrow> of_char lo \<le> (of_char c :: nat) \<and> (of_char c :: nat) \<le> of_char hi"

definition alnum :: "char \<Rightarrow> bool" where
  "alnum c \<longleftrightarrow> char_in CHR ''A'' CHR ''Z'' c \<or> char_in CHR ''a'' CHR ''z'' c \<or> char_in CHR ''0'' CHR ''9'' c"

definition safe_model_id :: "string \<Rightarrow> bool" where
  "safe_model_id s \<longleftrightarrow>
     (case s of [] \<Rightarrow> False
      | c # cs \<Rightarrow> alnum c \<and> length cs \<le> 199 \<and> list_all (\<lambda>x. alnum x \<or> x \<in> set ''._:/@-'') cs)"

definition normalizeAgentModel :: "json \<Rightarrow> string option" where
  "normalizeAgentModel v = (let m = js_trim (jtext v) in if safe_model_id m then Some m else None)"

definition CODEX_MODEL_IDS :: "string list" where
  "CODEX_MODEL_IDS = [''gpt-5.6-sol'', ''gpt-5.6-terra'', ''gpt-5.6-luna'']"

definition CLAUDE_MODEL_IDS :: "string list" where
  "CLAUDE_MODEL_IDS = [''sonnet'', ''opus'']"

definition commandMatches :: "string option \<Rightarrow> string list \<Rightarrow> bool" where
  "commandMatches command names =
     (let n = js_lower (js_trim (coalesce command []))
      in list_ex (\<lambda>name. n = name \<or> ends_with n (''/'' @ name) \<or> ends_with n (CHR 0x5C # name)) names)"

definition isCodexAgentCommand :: "string option \<Rightarrow> bool" where
  "isCodexAgentCommand c = commandMatches c [''codex'', ''codex.exe'', ''codex.cmd'', ''codex.ps1'']"

definition isClaudeAgentCommand :: "string option \<Rightarrow> bool" where
  "isClaudeAgentCommand c = commandMatches c [''claude'', ''claude.exe'', ''claude.cmd'', ''claude.ps1'']"

definition uniqueModels :: "json list \<Rightarrow> string list" where
  "uniqueModels vs = first_keys (concat (map (\<lambda>v. case normalizeAgentModel v of None \<Rightarrow> [] | Some m \<Rightarrow> [m]) vs))"

definition modelIdsForAgentAdapter :: "agent_adapter \<Rightarrow> string list" where
  "modelIdsForAgentAdapter a =
     (let configured = uniqueModels (ad_models a)
      in if configured \<noteq> [] then configured
         else if ad_type a = ''cli'' \<and> isCodexAgentCommand (ad_command a) then CODEX_MODEL_IDS
         else if ad_type a = ''cli'' \<and> isClaudeAgentCommand (ad_command a) then CLAUDE_MODEL_IDS
         else [])"

definition agentAdapterSupportsModel :: "agent_adapter \<Rightarrow> json \<Rightarrow> bool" where
  "agentAdapterSupportsModel a v =
     (case normalizeAgentModel v of None \<Rightarrow> False | Some m \<Rightarrow> m \<in> set (modelIdsForAgentAdapter a))"

definition codexPermissionModes :: "string list" where
  "codexPermissionModes = [''read_only'', ''ask'', ''auto'', ''full'']"

definition normalizeCodexPermissionMode :: "json \<Rightarrow> string" where
  "normalizeCodexPermissionMode v =
     (let n = js_lower (js_trim (jtext v)) in if n \<in> set codexPermissionModes then n else ''ask'')"

section \<open>Session tables\<close>

record codex_workspace =
  cw_id :: string
  cw_invocationId :: string
  cw_policy :: string
  cw_repoPath :: "string option"
  cw_worktreePath :: "string option"
  cw_baseBranch :: "string option"
  cw_branchName :: "string option"
  cw_status :: string
  cw_projectId :: "string option"
  cw_worktreeId :: "string option"
  cw_sessionIds :: "string list"
  cw_createdAt :: instant

record codex_session =
  cs_id :: string
  cs_codexSessionId :: "string option"
  cs_codexThreadId :: "string option"
  cs_invocationId :: string
  cs_userId :: string
  cs_deviceId :: "string option"
  cs_repoPath :: "string option"
  cs_workspaceId :: "string option"
  cs_agentId :: string
  cs_sessionMode :: string
  cs_name :: "string option"
  cs_status :: string
  cs_startedAt :: instant
  cs_lastSeenAt :: instant

record claude_session =
  cl_id :: string
  cl_claudeSessionId :: "string option"
  cl_invocationId :: string
  cl_userId :: string
  cl_deviceId :: "string option"
  cl_projectId :: "string option"
  cl_worktreeId :: "string option"
  cl_repoPath :: "string option"
  cl_agentId :: string
  cl_sessionMode :: string
  cl_resumedFromSessionId :: "string option"
  cl_name :: "string option"
  cl_status :: string
  cl_runtime :: string
  cl_startedAt :: instant
  cl_lastSeenAt :: instant

record session_tables = metering +
  ses_workspaces :: "codex_workspace list"
  ses_codex :: "codex_session list"
  ses_claude :: "claude_session list"
  ses_reservationEstimateUsd :: int

type_synonym 'a ses_server = "'a session_tables_scheme server"

definition upd_ses :: "('a session_tables_scheme \<Rightarrow> 'a session_tables_scheme) \<Rightarrow> 'a ses_server \<Rightarrow> 'a ses_server" where
  "upd_ses f st = st\<lparr>world := f (world st)\<rparr>"

section \<open>Worktree of a project\<close>

definition worktreeForProject :: "string option \<Rightarrow> 'w server \<Rightarrow> worktree option" where
  "worktreeForProject pid st =
     (if coalesce pid [] = [] then None
      else List.find (\<lambda>w. wt_projectId w = pid \<or> wt_workspaceProjectId w = pid) (worktrees st))"

section \<open>Registering a session\<close>

definition is_codex :: "agent \<Rightarrow> bool" where
  "is_codex a = isCodexCliCommand (ad_command (ag_adapter a))"

definition normalizeCodexSessionMode :: "json \<Rightarrow> agent \<Rightarrow> string" where
  "normalizeCodexSessionMode v a =
     (if \<not> is_codex a then ''not_applicable'' else if v = JStr ''continue_last'' then ''continue_last'' else ''new'')"

definition normalizeCodexWorkspacePolicy :: "json \<Rightarrow> agent \<Rightarrow> string" where
  "normalizeCodexWorkspacePolicy v a =
     (if \<not> is_codex a then ''not_applicable''
      else (case v of JStr s \<Rightarrow>
              if s \<in> {''current_repo'', ''new_worktree'', ''existing_worktree''} then s else ''current_repo''
            | _ \<Rightarrow> ''current_repo''))"

definition isClaudeSdkAgent :: "agent \<Rightarrow> bool" where
  "isClaudeSdkAgent a \<longleftrightarrow>
     commandMatches (ad_command (ag_adapter a)) [''claude'', ''claude.cmd'', ''claude.ps1'', ''claude.exe'']
     \<and> ad_claudeRuntime (ag_adapter a) \<noteq> Some ''cli''"

definition normalizeClaudeSessionMode :: "json \<Rightarrow> agent \<Rightarrow> string" where
  "normalizeClaudeSessionMode v a =
     (if \<not> isClaudeSdkAgent a then ''not_applicable''
      else if v = JStr ''continue_last'' then ''continue_last'' else ''new'')"

definition bridge_default_path :: "agent \<Rightarrow> string option \<Rightarrow> string option" where
  "bridge_default_path a other =
     (if ad_workingDirectoryPolicy (ag_adapter a) = Some ''bridge_default'' then Some ''bridge_default'' else other)"

definition createManagedCodexWorkspace ::
    "instant \<Rightarrow> string \<Rightarrow> agent \<Rightarrow> string \<Rightarrow> project option \<Rightarrow> worktree option \<Rightarrow> 'a ses_server
     \<Rightarrow> codex_workspace option \<times> 'a ses_server" where
  "createManagedCodexWorkspace t i a policy requestedProject requestedWorktree st =
     (if \<not> is_codex a then (None, st)
      else
        (let project = coalesce_opt requestedProject (currentProject st);
             wt = coalesce_opt requestedWorktree (worktreeForProject (map_option pr_id project) st);
             repoPath = coalesce_opt (Option.bind wt wt_worktreePath)
               (coalesce_opt (Option.bind project pr_path)
                 (bridge_default_path a (ad_workingDirectory (ag_adapter a))));
             (wid, st1) = next_id ''cdx_ws'' st;
             w = \<lparr>cw_id = wid, cw_invocationId = i, cw_policy = policy, cw_repoPath = repoPath,
                  cw_worktreePath = coalesce_opt (Option.bind wt wt_worktreePath)
                    (if policy = ''current_repo'' then None else Some ''pending_explicit_worktree''),
                  cw_baseBranch = Option.bind wt wt_baseBranch, cw_branchName = Option.bind wt wt_branchName,
                  cw_status = (if wt \<noteq> None then ''registered_worktree''
                    else if policy = ''new_worktree'' then ''pending_explicit_creation'' else ''registered''),
                  cw_projectId = map_option pr_id project, cw_worktreeId = map_option wt_id wt,
                  cw_sessionIds = [], cw_createdAt = t\<rparr>
         in (Some w, upd_ses (\<lambda>x. x\<lparr>ses_workspaces := w # ses_workspaces x\<rparr>) st1)))"

definition createManagedCodexSession ::
    "instant \<Rightarrow> string \<Rightarrow> agent \<Rightarrow> string \<Rightarrow> codex_workspace option \<Rightarrow> string \<Rightarrow> project option
     \<Rightarrow> worktree option \<Rightarrow> 'a ses_server \<Rightarrow> codex_session option \<times> 'a ses_server" where
  "createManagedCodexSession t i a mode workspace requestedBy requestedProject requestedWorktree st =
     (if \<not> is_codex a then (None, st)
      else
        (let project = coalesce_opt requestedProject (currentProject st);
             repoPath = coalesce_opt (Option.bind requestedWorktree wt_worktreePath)
               (coalesce_opt (Option.bind workspace cw_repoPath)
                 (coalesce_opt (Option.bind project pr_path) (bridge_default_path a None)));
             (sid, st1) = next_id ''cdx_sess'' st;
             s = \<lparr>cs_id = sid, cs_codexSessionId = None, cs_codexThreadId = None, cs_invocationId = i,
                  cs_userId = requestedBy, cs_deviceId = loc_deviceId (ag_location a), cs_repoPath = repoPath,
                  cs_workspaceId = map_option cw_id workspace, cs_agentId = ag_id a, cs_sessionMode = mode,
                  cs_name = None, cs_status = ''registered'', cs_startedAt = t, cs_lastSeenAt = t\<rparr>
         in (Some s, upd_ses (\<lambda>x. x\<lparr>ses_codex := s # ses_codex x,
               ses_workspaces := upd_where (\<lambda>w. Some (cw_id w) = map_option cw_id workspace)
                 (\<lambda>w. w\<lparr>cw_sessionIds := uniqueStrings (cw_sessionIds w @ [sid])\<rparr>) (ses_workspaces x)\<rparr>) st1)))"

definition createManagedClaudeSession ::
    "instant \<Rightarrow> string \<Rightarrow> agent \<Rightarrow> string \<Rightarrow> string \<Rightarrow> project option \<Rightarrow> worktree option \<Rightarrow> 'a ses_server
     \<Rightarrow> claude_session option \<times> 'a ses_server" where
  "createManagedClaudeSession t i a mode requestedBy project wt st =
     (if \<not> isClaudeSdkAgent a then (None, st)
      else
        (let (sid, st1) = next_id ''cld_sess'' st;
             s = \<lparr>cl_id = sid, cl_claudeSessionId = None, cl_invocationId = i, cl_userId = requestedBy,
                  cl_deviceId = loc_deviceId (ag_location a), cl_projectId = map_option pr_id project,
                  cl_worktreeId = map_option wt_id wt,
                  cl_repoPath = coalesce_opt (Option.bind wt wt_worktreePath) (Option.bind project pr_path),
                  cl_agentId = ag_id a, cl_sessionMode = mode, cl_resumedFromSessionId = None, cl_name = None,
                  cl_status = ''registered'', cl_runtime = ''agent_sdk'', cl_startedAt = t, cl_lastSeenAt = t\<rparr>
         in (Some s, upd_ses (\<lambda>x. x\<lparr>ses_claude := s # ses_claude x\<rparr>) st1)))"

section \<open>Resuming\<close>

definition providerSessionId :: "codex_session \<Rightarrow> string option" where
  "providerSessionId s = coalesce_opt (cs_codexSessionId s) (cs_codexThreadId s)"

definition normalizedRepoPath :: "string \<Rightarrow> string" where
  "normalizedRepoPath p =
     js_lower (rev (dropWhile (\<lambda>c. c = CHR ''/'') (rev (map (\<lambda>c. if c = CHR 0x5C then CHR ''/'' else c) p))))"

definition effectiveSessionRepoPath :: "codex_session \<Rightarrow> 'a ses_server \<Rightarrow> string option" where
  "effectiveSessionRepoPath s st =
     (let w = (if coalesce (cs_workspaceId s) [] = [] then None
               else List.find (\<lambda>w. Some (cw_id w) = cs_workspaceId s) (ses_workspaces (world st)))
      in coalesce_opt (Option.bind w cw_repoPath) (coalesce_opt (Option.bind w cw_worktreePath) (cs_repoPath s)))"

definition sameRepo :: "string option \<Rightarrow> string option \<Rightarrow> bool" where
  "sameRepo left right \<longleftrightarrow>
     (if coalesce left [] = [] then True
      else if coalesce right [] = [] then False
      else normalizedRepoPath (the left) = normalizedRepoPath (the right))"

definition resolveResumeCodexSessionId ::
    "string option \<Rightarrow> string option \<Rightarrow> string option \<Rightarrow> string option \<Rightarrow> 'a ses_server \<Rightarrow> string option" where
  "resolveResumeCodexSessionId repoPath userId excludeSessionId invocationId st =
     (let mine = (\<lambda>s. coalesce userId [] = [] \<or> Some (cs_userId s) = userId)
      in if coalesce invocationId [] \<noteq> []
         then (case List.find (\<lambda>s. Some (cs_invocationId s) = invocationId) (ses_codex (world st)) of
                 None \<Rightarrow> None
               | Some s \<Rightarrow>
                   if \<not> mine s then None
                   else if \<not> sameRepo repoPath (effectiveSessionRepoPath s st) then None
                   else providerSessionId s)
         else Option.bind
                (List.find (\<lambda>s. Some (cs_id s) \<noteq> excludeSessionId \<and> coalesce (providerSessionId s) [] \<noteq> []
                   \<and> mine s \<and> sameRepo repoPath (effectiveSessionRepoPath s st)) (ses_codex (world st)))
                providerSessionId)"

definition resolveResumeClaudeSessionId ::
    "string option \<Rightarrow> string option \<Rightarrow> string option \<Rightarrow> string option \<Rightarrow> 'a ses_server \<Rightarrow> string option" where
  "resolveResumeClaudeSessionId repoPath userId excludeSessionId invocationId st =
     (let matchesScope = (\<lambda>s. Some (cl_id s) \<noteq> excludeSessionId \<and> coalesce (cl_claudeSessionId s) [] \<noteq> []
            \<and> (coalesce userId [] = [] \<or> Some (cl_userId s) = userId) \<and> sameRepo repoPath (cl_repoPath s))
      in if coalesce invocationId [] \<noteq> []
         then (case List.find (\<lambda>s. Some (cl_invocationId s) = invocationId) (ses_claude (world st)) of
                 None \<Rightarrow> None
               | Some s \<Rightarrow> if matchesScope s then cl_claudeSessionId s else None)
         else Option.bind (List.find matchesScope (ses_claude (world st))) cl_claudeSessionId)"

section \<open>A resume stays with its user and its repository\<close>

definition codex_in_scope :: "string option \<Rightarrow> string \<Rightarrow> 'a ses_server \<Rightarrow> string \<Rightarrow> codex_session \<Rightarrow> bool" where
  "codex_in_scope repo u st p s \<longleftrightarrow>
     providerSessionId s = Some p \<and> cs_userId s = u \<and> sameRepo repo (effectiveSessionRepoPath s st)"

definition claude_in_scope :: "string option \<Rightarrow> string \<Rightarrow> string \<Rightarrow> claude_session \<Rightarrow> bool" where
  "claude_in_scope repo u p s \<longleftrightarrow>
     cl_claudeSessionId s = Some p \<and> cl_userId s = u \<and> sameRepo repo (cl_repoPath s)"

lemma resume_codex:
  assumes "resolveResumeCodexSessionId repo (Some u) ex iid st = Some p" and "u \<noteq> []"
  obtains s where "s \<in> set (ses_codex (world st))" and "codex_in_scope repo u st p s"
    and "coalesce iid [] \<noteq> [] \<Longrightarrow> Some (cs_invocationId s) = iid"
    and "coalesce iid [] = [] \<Longrightarrow> Some (cs_id s) \<noteq> ex"
proof (cases "coalesce iid [] = []")
  case True
  let ?Q = "\<lambda>s. Some (cs_id s) \<noteq> ex \<and> coalesce (providerSessionId s) [] \<noteq> []
      \<and> (coalesce (Some u) [] = [] \<or> Some (cs_userId s) = Some u) \<and> sameRepo repo (effectiveSessionRepoPath s st)"
  from assms(1) True have "Option.bind (List.find ?Q (ses_codex (world st))) providerSessionId = Some p"
    by (simp add: resolveResumeCodexSessionId_def)
  then obtain s where s: "List.find ?Q (ses_codex (world st)) = Some s" "providerSessionId s = Some p"
    by (auto simp: bind_eq_Some_conv)
  from find_SomeD [OF s(1)] have "s \<in> set (ses_codex (world st))" "?Q s" by simp_all
  with s(2) assms(2) True show thesis by (intro that [of s]) (auto simp: codex_in_scope_def)
next
  case False
  with assms(1) obtain s where s: "List.find (\<lambda>s. Some (cs_invocationId s) = iid) (ses_codex (world st)) = Some s"
    and r: "coalesce (Some u) [] = [] \<or> Some (cs_userId s) = Some u"
      "sameRepo repo (effectiveSessionRepoPath s st)" "providerSessionId s = Some p"
    by (auto simp: resolveResumeCodexSessionId_def Let_def split: option.splits if_splits)
  from find_SomeD [OF s] r assms(2) False show thesis by (intro that [of s]) (auto simp: codex_in_scope_def)
qed

lemma resume_claude:
  assumes "resolveResumeClaudeSessionId repo (Some u) ex iid st = Some p" and "u \<noteq> []"
  obtains s where "s \<in> set (ses_claude (world st))" and "claude_in_scope repo u p s"
    and "Some (cl_id s) \<noteq> ex"
proof -
  let ?Q = "\<lambda>s. Some (cl_id s) \<noteq> ex \<and> coalesce (cl_claudeSessionId s) [] \<noteq> []
      \<and> (coalesce (Some u) [] = [] \<or> Some (cl_userId s) = Some u) \<and> sameRepo repo (cl_repoPath s)"
  obtain P s where s: "List.find P (ses_claude (world st)) = Some s" "?Q s" "cl_claudeSessionId s = Some p"
  proof (cases "coalesce iid [] = []")
    case True
    with assms(1) have "Option.bind (List.find ?Q (ses_claude (world st))) cl_claudeSessionId = Some p"
      by (simp add: resolveResumeClaudeSessionId_def Let_def)
    then obtain s where f: "List.find ?Q (ses_claude (world st)) = Some s" and c: "cl_claudeSessionId s = Some p"
      by (auto simp: bind_eq_Some_conv)
    from find_SomeD [OF f] show thesis by (intro that [OF f _ c]) simp
  next
    case False
    with assms(1) show thesis
      by (auto simp: resolveResumeClaudeSessionId_def Let_def split: option.splits if_splits intro: that)
  qed
  from find_SomeD [OF s(1)] s(2, 3) assms(2) show thesis
    by (intro that [of s]) (auto simp: claude_in_scope_def)
qed

text \<open>Continuing a run never crosses users or repositories: the provider session a run of a (named)
  user resumes was captured by a session of that same user in the same repository (any, when the run has
  none), and is the session of the invocation asked for when one is; the same for Claude sessions, where
  it is never the session of the run itself.\<close>

theorem resume_stays_in_scope:
  "(case resolveResumeCodexSessionId repo (Some (c # cs)) ex iid st of
      None \<Rightarrow> True
    | Some p \<Rightarrow> list_ex (\<lambda>s. codex_in_scope repo (c # cs) st p s
        \<and> (if coalesce iid [] = [] then Some (cs_id s) \<noteq> ex else Some (cs_invocationId s) = iid))
        (ses_codex (world st)))
   \<and> (case resolveResumeClaudeSessionId repo (Some (c # cs)) ex iid st of
      None \<Rightarrow> True
    | Some p \<Rightarrow> list_ex (\<lambda>s. claude_in_scope repo (c # cs) p s \<and> Some (cl_id s) \<noteq> ex)
        (ses_claude (world st)))"
proof (rule conjI)
  show "case resolveResumeCodexSessionId repo (Some (c # cs)) ex iid st of
      None \<Rightarrow> True
    | Some p \<Rightarrow> list_ex (\<lambda>s. codex_in_scope repo (c # cs) st p s
        \<and> (if coalesce iid [] = [] then Some (cs_id s) \<noteq> ex else Some (cs_invocationId s) = iid))
        (ses_codex (world st))"
  proof (cases "resolveResumeCodexSessionId repo (Some (c # cs)) ex iid st")
    case (Some p)
    from resume_codex [OF Some] obtain s where s: "s \<in> set (ses_codex (world st))"
        "codex_in_scope repo (c # cs) st p s" "coalesce iid [] \<noteq> [] \<Longrightarrow> Some (cs_invocationId s) = iid"
        "coalesce iid [] = [] \<Longrightarrow> Some (cs_id s) \<noteq> ex" by blast
    have "if coalesce iid [] = [] then Some (cs_id s) \<noteq> ex else Some (cs_invocationId s) = iid"
      using s(3, 4) by (cases "coalesce iid [] = []") (simp_all only: if_True if_False simp_thms)
    with s(1, 2) show ?thesis unfolding Some option.case list_ex_iff by blast
  qed simp
next
  show "case resolveResumeClaudeSessionId repo (Some (c # cs)) ex iid st of
      None \<Rightarrow> True
    | Some p \<Rightarrow> list_ex (\<lambda>s. claude_in_scope repo (c # cs) p s \<and> Some (cl_id s) \<noteq> ex)
        (ses_claude (world st))"
  proof (cases "resolveResumeClaudeSessionId repo (Some (c # cs)) ex iid st")
    case (Some p)
    from resume_claude [OF Some] obtain s where "s \<in> set (ses_claude (world st))"
        "claude_in_scope repo (c # cs) p s" "Some (cl_id s) \<noteq> ex" by blast
    then show ?thesis unfolding Some option.case list_ex_iff by blast
  qed simp
qed

end
