(* ===== verification/Creation.thy ===== *)
theory Creation
  imports Sessions
begin

text \<open>
  services/invocations/creation.mjs: \<open>createInvocation\<close>, with its trace, the resolution of project and
  worktree, the managed sessions, the four gates (platform quota, budget, usage quota, budget hold) and
  every branch after them.  \<open>options\<close> is the JSON object the caller passes, less \<open>options.actor\<close>, which
  is an argument.  The branch that renders agent skills writes files only.  Over-cap traces are archived;
  the model keeps the rows that stay.
\<close>

section \<open>Trace\<close>

definition MAX_TRACES_TOTAL :: nat where
  "MAX_TRACES_TOTAL = 10000"

definition createTrace :: "instant \<Rightarrow> string \<Rightarrow> agent \<Rightarrow> 'w server \<Rightarrow> (string \<times> string) \<times> 'w server" where
  "createTrace t i a st =
     (let (tid, st1) = next_id ''trc_demo'' st;
          (sid, st2) = next_id ''spn_demo'' st1;
          h = ad_type (ag_adapter a) = ''http'';
          tr = \<lparr>tr_id = tid, tr_subjectId = i, tr_rootSpanId = sid, tr_createdAt = t\<rparr>;
          sp = \<lparr>sp_id = sid, sp_traceId = Some tid, sp_parentSpanId = None,
                sp_name = ''m0.remote_invocation'', sp_status = ''started'', sp_startedAt = Clock t, sp_endedAt = None,
                sp_attributes = JObj [(''deviceId'', JStr (dv_id (device st))), (''agentId'', JStr (ag_id a)),
                  (''adapterType'', JStr (ad_type (ag_adapter a))),
                  (''transport'', JStr (if h then ''direct-http'' else ''polling-demo-websocket-baseline'')),
                  (''queue'', JStr (if h then ''not-required'' else ''server-owned''))]\<rparr>
      in ((tid, sid), st2\<lparr>traces := push_cap MAX_TRACES_TOTAL tr (traces st2), spans := sp # spans st2\<rparr>))"

section \<open>Reading the options\<close>

definition opt_string :: "json \<Rightarrow> string \<Rightarrow> string option" where
  "opt_string options k = jstr_opt (jget options k)"

definition requested_metadata :: "json \<Rightarrow> json" where
  "requested_metadata options =
     (let m = jget options ''metadata'' in if is_obj m then m else JObj [])"

definition client_key :: "json \<Rightarrow> string option" where
  "client_key options =
     (case jget options ''idempotencyKey'' of
        JStr s \<Rightarrow> if js_trim s \<noteq> [] then Some (js_trim s) else None
      | _ \<Rightarrow> None)"

definition requested_by :: "json \<Rightarrow> actor option \<Rightarrow> string" where
  "requested_by options actor = coalesce (opt_string options ''requestedBy'') (actor_user actor)"

definition bad_model :: "agent \<Rightarrow> json \<Rightarrow> bool" where
  "bad_model a options \<longleftrightarrow>
     (let m = jget options ''model''
      in m \<noteq> JNull \<and> js_trim (jtext m) \<noteq> []
         \<and> (normalizeAgentModel m = None \<or> \<not> agentAdapterSupportsModel (ag_adapter a) (jstr (normalizeAgentModel m))))"

definition find_existing :: "json \<Rightarrow> actor option \<Rightarrow> 'w server \<Rightarrow> invocation option" where
  "find_existing options actor st =
     (case client_key options of
        None \<Rightarrow> None
      | Some k \<Rightarrow> List.find (\<lambda>v. inv_idempotencyKey v = Some k \<and> inv_requestedBy v = requested_by options actor)
          (invocations st))"

section \<open>Project and worktree\<close>

definition findProjectForActor :: "actor option \<Rightarrow> json \<Rightarrow> 'w server \<Rightarrow> project option" where
  "findProjectForActor actor pid st =
     (if \<not> truthy pid then None
      else (case List.find (\<lambda>p. JStr (pr_id p) = pid) (projects st) of
              None \<Rightarrow> None
            | Some p \<Rightarrow>
                if actor_team actor \<noteq> None \<and> Some (teamOf p) \<noteq> actor_team actor then None else Some p))"

definition requested_worktree :: "json \<Rightarrow> 'w server \<Rightarrow> worktree option" where
  "requested_worktree options st =
     (let w = jget (requested_metadata options) ''worktreeId''
      in if truthy w then List.find (\<lambda>x. JStr (wt_id x) = w) (worktrees st) else None)"

definition visible_project :: "actor option \<Rightarrow> json \<Rightarrow> 'a fin_server \<Rightarrow> project option" where
  "visible_project actor options st =
     (let pid = jget (requested_metadata options) ''projectId'';
          wpid = jstr (Option.bind (requested_worktree options st) wt_projectId)
      in if truthy pid then coalesce_opt (findProjectForActor actor pid st) (currentProject st)
         else if truthy wpid then coalesce_opt (findProjectForActor actor wpid st) (currentProject st)
         else currentProject st)"

definition run_project :: "actor option \<Rightarrow> json \<Rightarrow> 'a fin_server \<Rightarrow> project option" where
  "run_project actor options st =
     (case Option.bind (requested_worktree options st) wt_workspaceProjectId of
        None \<Rightarrow> visible_project actor options st
      | Some w \<Rightarrow>
          if w = [] then visible_project actor options st
          else coalesce_opt (find_project (Some w) st) (visible_project actor options st))"

definition run_worktree :: "actor option \<Rightarrow> json \<Rightarrow> 'a fin_server \<Rightarrow> worktree option" where
  "run_worktree actor options st =
     coalesce_opt (requested_worktree options st)
       (worktreeForProject (map_option pr_id (run_project actor options st)) st)"

definition target_project :: "actor option \<Rightarrow> json \<Rightarrow> 'a fin_server \<Rightarrow> string option" where
  "target_project actor options st =
     coalesce_opt (map_option pr_id (visible_project actor options st))
       (map_option pr_id (run_project actor options st))"

definition runsWithoutBridge :: "agent \<Rightarrow> bool" where
  "runsWithoutBridge a \<longleftrightarrow>
     ad_type (ag_adapter a) = ''platform''
     \<or> ad_type (ag_adapter a) = ''http'' \<and> loc_type (ag_location a) = ''remote_http''"

definition remoteHttpRun :: "agent \<Rightarrow> bool" where
  "remoteHttpRun a \<longleftrightarrow> ad_type (ag_adapter a) = ''http'' \<and> loc_type (ag_location a) = ''remote_http''"

section \<open>Gates\<close>

fun jnum_or :: "json \<Rightarrow> int \<Rightarrow> int" where
  "jnum_or (JNum n) d = n"
| "jnum_or v d = d"

fun jstrings :: "json \<Rightarrow> string list option" where
  "jstrings (JArr xs) = Some (map jtext xs)"
| "jstrings v = None"

text \<open>\<open>Number(v)\<close> of an amount: a JSON number is in micro-dollars already, a string is read in decimal
  notation with at most six decimals.\<close>

definition is_digit :: "char \<Rightarrow> bool" where
  "is_digit c \<longleftrightarrow> char_in CHR ''0'' CHR ''9'' c"

definition digits_value :: "string \<Rightarrow> int" where
  "digits_value s = fold (\<lambda>c n. n * 10 + (of_char c - 48)) s 0"

definition parse_usd :: "string \<Rightarrow> int option" where
  "parse_usd s =
     (let w = takeWhile is_digit s; r = dropWhile is_digit s
      in if w = [] then None
         else (case r of
                 [] \<Rightarrow> Some (digits_value w * 1000000)
               | c # f \<Rightarrow>
                   if c = CHR ''.'' \<and> list_all is_digit f \<and> length f \<le> 6
                   then Some (digits_value w * 1000000 + digits_value (f @ replicate (6 - length f) CHR ''0''))
                   else None))"

fun usd_of :: "json \<Rightarrow> int option" where
  "usd_of JNull = Some 0"
| "usd_of (JNum n) = Some n"
| "usd_of (JStr s) = parse_usd s"
| "usd_of v = None"

text \<open>The request for the platform quota.\<close>

definition platform_request :: "string \<Rightarrow> agent \<Rightarrow> json \<Rightarrow> actor option \<Rightarrow> ai_request" where
  "platform_request i a options actor =
     (let m = requested_metadata options
      in \<lparr>ar_invocationId = Some i, ar_userId = actor_user actor,
          ar_teamId = coalesce_opt (opt_string m ''teamId'') (actor_team actor), ar_agentId = Some (ag_id a),
          ar_provider = coalesce (opt_string m ''provider'') ''openai'',
          ar_model = coalesce (opt_string m ''model'') ''default'', ar_providerMode = ''platform_managed'',
          ar_requestCount = jnum_or (jget m ''requestCount'') 1, ar_inputTokens = 0, ar_outputTokens = 0,
          ar_estimatedCost = usd_of (jget m ''estimatedCost''),
          ar_costOwner = Some (coalesce (opt_string m ''costOwner'')
            (coalesce (Option.bind (ag_economics a) eco_costOwner) (actor_user actor))),
          ar_allowedModels = jstrings (jget m ''allowedModels''),
          ar_credentialState = opt_string m ''credentialState'', ar_projectId = None\<rparr>)"

definition maybeEnforcePlatformAiQuota ::
    "instant \<Rightarrow> string \<Rightarrow> agent \<Rightarrow> json \<Rightarrow> actor option \<Rightarrow> 'a mt_server
     \<Rightarrow> (bool \<times> quota_decision) option \<times> 'a mt_server" where
  "maybeEnforcePlatformAiQuota t i a options actor st =
     (if truthy (jget (requested_metadata options) ''platformManagedAi'')
      then (let (g, st1) = enforcePlatformAiQuota t (platform_request i a options actor) st in (Some g, st1))
      else (None, st))"

record gates =
  gt_quota :: "(bool \<times> quota_decision) option"
  gt_budget :: "string option"
  gt_usage :: bool
  gt_reservation :: "string option"

definition quota_denied :: "gates \<Rightarrow> bool" where
  "quota_denied g \<longleftrightarrow> (case gt_quota g of Some (allowed, d) \<Rightarrow> \<not> allowed | None \<Rightarrow> False)"

definition gate_rejected :: "gates \<Rightarrow> bool" where
  "gate_rejected g \<longleftrightarrow> quota_denied g \<or> gt_budget g \<noteq> None \<or> gt_usage g \<or> gt_reservation g \<noteq> None"

section \<open>Before the row: identity, trace, sessions, gates\<close>

record prepared =
  pp_id :: string
  pp_traceId :: string
  pp_rootSpanId :: string
  pp_workspace :: "codex_workspace option"
  pp_codex :: "codex_session option"
  pp_claude :: "claude_session option"
  pp_codexMode :: string
  pp_codexResume :: "string option"
  pp_workspacePolicy :: string
  pp_claudeMode :: string
  pp_claudeResume :: "string option"
  pp_gates :: gates

definition resume_target :: "json \<Rightarrow> string option" where
  "resume_target options = opt_string options ''resumeFromInvocationId''"

definition set_codex_mode :: "string option \<Rightarrow> string \<Rightarrow> 'a ses_server \<Rightarrow> 'a ses_server" where
  "set_codex_mode i m st = upd_ses (\<lambda>x. x\<lparr>ses_codex :=
     upd_where (\<lambda>s. Some (cs_id s) = i) (\<lambda>s. s\<lparr>cs_sessionMode := m\<rparr>) (ses_codex x)\<rparr>) st"

definition set_claude_mode :: "string option \<Rightarrow> string \<Rightarrow> 'a ses_server \<Rightarrow> 'a ses_server" where
  "set_claude_mode i m st = upd_ses (\<lambda>x. x\<lparr>ses_claude :=
     upd_where (\<lambda>s. Some (cl_id s) = i) (\<lambda>s. s\<lparr>cl_sessionMode := m\<rparr>) (ses_claude x)\<rparr>) st"

definition set_claude_resumed :: "string option \<Rightarrow> string option \<Rightarrow> 'a ses_server \<Rightarrow> 'a ses_server" where
  "set_claude_resumed i r st = upd_ses (\<lambda>x. x\<lparr>ses_claude :=
     upd_where (\<lambda>s. Some (cl_id s) = i) (\<lambda>s. s\<lparr>cl_resumedFromSessionId := r\<rparr>) (ses_claude x)\<rparr>) st"

definition codex_resume :: "json \<Rightarrow> string \<Rightarrow> codex_session option \<Rightarrow> 'a ses_server \<Rightarrow> string option" where
  "codex_resume options mode s st =
     (case s of
        None \<Rightarrow> None
      | Some x \<Rightarrow>
          if mode = ''continue_last''
          then resolveResumeCodexSessionId (cs_repoPath x) (Some (cs_userId x)) (Some (cs_id x)) (resume_target options) st
          else None)"

definition claude_resume :: "json \<Rightarrow> string \<Rightarrow> claude_session option \<Rightarrow> 'a ses_server \<Rightarrow> string option" where
  "claude_resume options mode s st =
     (case s of
        None \<Rightarrow> None
      | Some x \<Rightarrow>
          if mode = ''continue_last''
          then resolveResumeClaudeSessionId (cl_repoPath x) (Some (cl_userId x)) (Some (cl_id x)) (resume_target options) st
          else None)"

text \<open>A continuation without a provider session becomes a fresh session.\<close>

definition settle_mode :: "string \<Rightarrow> string option \<Rightarrow> string" where
  "settle_mode mode resume = (if mode = ''continue_last'' \<and> coalesce resume [] = [] then ''new'' else mode)"

definition create_sessions ::
    "instant \<Rightarrow> string \<Rightarrow> agent \<Rightarrow> json \<Rightarrow> actor option \<Rightarrow> 'a ses_server
     \<Rightarrow> (codex_workspace option \<times> codex_session option \<times> claude_session option
         \<times> string option \<times> string option) \<times> 'a ses_server" where
  "create_sessions t i a options actor st =
     (let by = requested_by options actor;
          project = run_project actor options st;
          wt = run_worktree actor options st;
          cmode = normalizeCodexSessionMode (jget options ''codexSessionMode'') a;
          lmode = normalizeClaudeSessionMode (jget options ''claudeSessionMode'') a;
          (ws, st1) = createManagedCodexWorkspace t i a
            (normalizeCodexWorkspacePolicy (jget options ''codexWorkspacePolicy'') a) project wt st;
          (cs, st2) = createManagedCodexSession t i a cmode ws by project wt st1;
          (cl, st3) = createManagedClaudeSession t i a lmode by project wt st2;
          cres = codex_resume options cmode cs st3;
          st4 = (if settle_mode cmode cres \<noteq> cmode then set_codex_mode (map_option cs_id cs) ''new'' st3 else st3);
          lres = claude_resume options lmode cl st4;
          st5 = (if settle_mode lmode lres \<noteq> lmode then set_claude_mode (map_option cl_id cl) ''new'' st4 else st4);
          st6 = (if coalesce lres [] \<noteq> [] then set_claude_resumed (map_option cl_id cl) lres st5 else st5)
      in ((ws, cs, cl, cres, lres), st6))"

definition other_gates ::
    "instant \<Rightarrow> json \<Rightarrow> actor option \<Rightarrow> (bool \<times> quota_decision) option \<Rightarrow> 'a ses_server \<Rightarrow> gates \<times> 'a ses_server" where
  "other_gates t options actor quota st =
     (let budget = Option.bind (target_project actor options st) (\<lambda>p. budgetGateForProject p st);
          (blocked, policy, st1) = checkUsageQuota t (requested_by options actor) None st
      in (\<lparr>gt_quota = quota, gt_budget = budget, gt_usage = blocked, gt_reservation = None\<rparr>, st1))"

definition hold_gate ::
    "instant \<Rightarrow> string \<Rightarrow> json \<Rightarrow> actor option \<Rightarrow> gates \<Rightarrow> 'a ses_server \<Rightarrow> gates \<times> 'a ses_server" where
  "hold_gate t i options actor g st =
     (let amount = ses_reservationEstimateUsd (world st); target = target_project actor options st
      in if \<not> gate_rejected g \<and> 0 < amount \<and> \<not> truthy (jget (requested_metadata options) ''autoRunId'')
            \<and> coalesce target [] \<noteq> []
         then (case reserveBudget t target amount (Some i) None None st of
                 (Inl reason, st1) \<Rightarrow> (g\<lparr>gt_reservation := Some reason\<rparr>, st1)
               | (Inr rid, st1) \<Rightarrow> (g, st1))
         else (g, st))"

definition create_prepare ::
    "instant \<Rightarrow> agent \<Rightarrow> json \<Rightarrow> actor option \<Rightarrow> 'a ses_server \<Rightarrow> prepared \<times> 'a ses_server" where
  "create_prepare t a options actor st =
     (let (i, st1) = next_id ''inv_demo'' st;
          ((trid, spid), st2) = createTrace t i a st1;
          (quota, st3) = maybeEnforcePlatformAiQuota t i a options actor st2;
          ((ws, cs, cl, cres, lres), st4) = create_sessions t i a options actor st3;
          (g1, st5) = other_gates t options actor quota st4;
          (g, st6) = hold_gate t i options actor g1 st5
      in (\<lparr>pp_id = i, pp_traceId = trid, pp_rootSpanId = spid, pp_workspace = ws, pp_codex = cs, pp_claude = cl,
           pp_codexMode = settle_mode (normalizeCodexSessionMode (jget options ''codexSessionMode'') a) cres,
           pp_codexResume = cres,
           pp_workspacePolicy = normalizeCodexWorkspacePolicy (jget options ''codexWorkspacePolicy'') a,
           pp_claudeMode = settle_mode (normalizeClaudeSessionMode (jget options ''claudeSessionMode'') a) lres,
           pp_claudeResume = lres, pp_gates = g\<rparr>, st6))"

section \<open>The row\<close>

text \<open>\<open>Number(v ?? d)\<close>; what is not a number is stored as \<open>null\<close>.\<close>

fun number_or :: "json \<Rightarrow> int \<Rightarrow> json" where
  "number_or JNull d = JNum d"
| "number_or (JNum n) d = JNum n"
| "number_or (JBool b) d = JNum (if b then 1 else 0)"
| "number_or (JStr s) d =
     (if s = [] then JNum 0 else if list_all is_digit s then JNum (digits_value s) else JNull)"
| "number_or v d = JNull"

definition when_set :: "bool \<Rightarrow> string \<Rightarrow> json \<Rightarrow> json \<Rightarrow> json" where
  "when_set c k v w = (if c then jset w k v else w)"

definition run_metadata :: "prepared \<Rightarrow> json \<Rightarrow> actor option \<Rightarrow> 'a fin_server \<Rightarrow> json" where
  "run_metadata p options actor st =
     (let vp = visible_project actor options st; rp = run_project actor options st;
          wt = run_worktree actor options st; d = map_option snd (gt_quota (pp_gates p));
          base = fold (\<lambda>kv w. jset w (fst kv) (snd kv)) (spread (requested_metadata options)) (JObj [(''demo'', JBool True)]);
          m = fold (\<lambda>kv w. jset w (fst kv) (snd kv))
            [(''quotaDecisionId'', jstr (map_option qd_id d)), (''quotaDecision'', jstr (map_option qd_decision d)),
             (''projectId'', jstr (coalesce_opt (map_option pr_id vp) (map_option pr_id rp))),
             (''projectName'', jstr (coalesce_opt (map_option pr_name vp) (map_option pr_name rp))),
             (''projectPath'', jstr (Option.bind rp pr_path)),
             (''workspaceProjectId'', jstr (map_option pr_id rp)),
             (''worktreeId'', jstr (map_option wt_id wt)),
             (''worktreeBranchName'', jstr (Option.bind wt wt_branchName)),
             (''worktreePath'', jstr (Option.bind wt wt_worktreePath))] base;
          m1 = (case pp_codex p of
                  None \<Rightarrow> m
                | Some s \<Rightarrow> jset (jset (jset m ''managedCodexSessionId'' (JStr (cs_id s)))
                    ''managedCodexWorkspaceId'' (jstr (map_option cw_id (pp_workspace p)))) ''managedLaunch'' (JBool True))
      in case pp_claude p of
           None \<Rightarrow> m1
         | Some s \<Rightarrow> jset (jset m1 ''managedClaudeSessionId'' (JStr (cl_id s))) ''managedLaunch'' (JBool True))"

definition run_options :: "prepared \<Rightarrow> agent \<Rightarrow> json \<Rightarrow> actor option \<Rightarrow> 'a fin_server \<Rightarrow> json" where
  "run_options p a options actor st =
     (let need = pol_decision (evaluateInvocationPolicy a options) = ''requires_local_approval'';
          model = normalizeAgentModel (jget options ''model'');
          tool = jget options ''toolName''; args = jget options ''toolArguments'';
          base = JObj [(''timeoutSeconds'', number_or (jget options ''timeoutSeconds'') 30),
            (''requireLocalApproval'', JBool (truthy (nullish_or (jget options ''requireLocalApproval'') (JBool need))))];
          o1 = when_set (model \<noteq> None) ''model'' (jstr model) base;
          o2 = when_set (truthy tool) ''toolName'' (JStr (jtext tool)) o1;
          o3 = when_set (is_obj args) ''toolArguments'' args o2
      in fold (\<lambda>kv w. jset w (fst kv) (snd kv))
           [(''codexSessionMode'', JStr (pp_codexMode p)), (''codexResumeSessionId'', jstr (pp_codexResume p)),
            (''codexWorkspacePolicy'', JStr (pp_workspacePolicy p)), (''claudeSessionMode'', JStr (pp_claudeMode p)),
            (''claudeResumeSessionId'', jstr (pp_claudeResume p)),
            (''approvalMode'', JStr (normalizeCodexPermissionMode
               (nullish_or (jget options ''approvalMode'')
                 (nullish_or (jget (requested_metadata options) ''permissionMode'')
                   (jstr (ad_permissionMode (ag_adapter a))))))),
            (''metadata'', run_metadata p options actor st)] o3)"

definition admitted_status :: "agent \<Rightarrow> json \<Rightarrow> gates \<Rightarrow> inv_status" where
  "admitted_status a options g =
     (if gate_rejected g then Rejected
      else if requires_approval a options then WaitingForLocalApproval
      else if runsWithoutBridge a then Running else Queued)"

definition admitted_delivery :: "instant \<Rightarrow> agent \<Rightarrow> json \<Rightarrow> gates \<Rightarrow> string \<Rightarrow> string \<Rightarrow> delivery" where
  "admitted_delivery t a options g i did =
     (let held = gate_rejected g \<or> requires_approval a options; direct = \<not> held \<and> runsWithoutBridge a
      in \<lparr>del_id = did, del_deviceId = (if is_local_device a then loc_deviceId (ag_location a) else None),
          del_state = (if held then DNotRequired else if direct then DNotRequired else DQueued),
          del_idempotencyKey = ''idem_'' @ i, del_leaseExpiresAt = None, del_attempts = (if direct then 1 else 0),
          del_lastDispatchAt = (if direct then Some t else None), del_acknowledgedAt = (if direct then Some t else None),
          del_bridgeCursor = None, del_bridgeSessionId = None, del_supersession = None\<rparr>)"

definition create_row ::
    "instant \<Rightarrow> json \<Rightarrow> agent \<Rightarrow> json \<Rightarrow> actor option \<Rightarrow> prepared \<Rightarrow> string \<Rightarrow> 'a fin_server \<Rightarrow> invocation" where
  "create_row t task a options actor p did st =
     \<lparr>inv_id = pp_id p, inv_idempotencyKey = client_key options, inv_compareRunId = None, inv_agentId = ag_id a,
      inv_terminalId = (if is_local_device a then loc_deviceId (ag_location a) else None),
      inv_projectId = target_project actor options st,
      inv_worktreeId = map_option wt_id (run_worktree actor options st),
      inv_requestedBy = requested_by options actor,
      inv_status = admitted_status a options (pp_gates p),
      inv_delivery = admitted_delivery t a options (pp_gates p) (pp_id p) did,
      inv_cancellation = \<lparr>can_state = CNone, can_requestedBy = None, can_requestedAt = None, can_reason = None,
        can_appliedAt = None, can_message = None\<rparr>,
      inv_input = JObj [(''task'', task)], inv_options = run_options p a options actor st, inv_result = JNull,
      inv_policyDecisionId = None, inv_approvalRequestId = None, inv_traceId = Some (pp_traceId p),
      inv_rootSpanId = Some (pp_rootSpanId p), inv_createdAt = t, inv_startedAt = None, inv_completedAt = None,
      inv_updatedAt = t, inv_deadline = None, inv_notes = no_notes\<rparr>"

section \<open>What every new row records\<close>

definition session_events :: "prepared \<Rightarrow> event_in list" where
  "session_events p =
     (case pp_codex p of
        None \<Rightarrow> []
      | Some s \<Rightarrow>
          [mk_ev (Some (pp_id p)) ''codex_session_registered'' ''info''
             ''Managed Codex session registered for a MyAgentTool-launched invocation.''
             (JObj [(''codexSessionId'', JStr (cs_id s)), (''workspaceId'', jstr (map_option cw_id (pp_workspace p))),
                    (''sessionMode'', JStr (pp_codexMode p)), (''workspacePolicy'', JStr (pp_workspacePolicy p))])])
     @ (case pp_claude p of
          None \<Rightarrow> []
        | Some s \<Rightarrow>
            [mk_ev (Some (pp_id p)) ''claude_session_registered'' ''info''
               ''Managed Claude SDK session registered for a MyAgentTool-launched invocation.''
               (JObj [(''claudeSessionRegistryId'', JStr (cl_id s)), (''sessionMode'', JStr (pp_claudeMode p)),
                      (''resumedFromSessionId'', jstr (pp_claudeResume p))])])"

definition created_events :: "prepared \<Rightarrow> policy \<Rightarrow> string \<Rightarrow> event_in list" where
  "created_events p pol pid =
     [mk_ev (Some (pp_id p)) ''invocation_created'' ''info'' ''Invocation created from Web Console.'' JNull,
      mk_ev (Some (pp_id p)) ''policy_decision_recorded''
        (if pol_decision pol = ''requires_local_approval'' then ''warn'' else ''info'') (pol_reason pol)
        (JObj [(''policyDecisionId'', JStr pid), (''riskLevel'', JStr (pol_riskLevel pol)),
               (''riskTags'', JArr (map JStr (pol_riskTags pol))), (''decision'', JStr (pol_decision pol))]),
      mk_ev (Some (pp_id p)) ''trace_created'' ''info'' ''Invocation trace created.''
        (JObj [(''traceId'', JStr (pp_traceId p)), (''rootSpanId'', JStr (pp_rootSpanId p))])]"

definition create_record ::
    "instant \<Rightarrow> agent \<Rightarrow> policy \<Rightarrow> prepared \<Rightarrow> invocation \<Rightarrow> 'w server \<Rightarrow> string \<times> 'w server" where
  "create_record t a pol p v st =
     (let st1 = append_events t (session_events p) (st\<lparr>invocations := v # invocations st\<rparr>);
          (pid, st2) = createPolicyDecisionRecord t (pp_id p) a pol st1;
          st3 = upd_inv (pp_id p) (\<lambda>x. x\<lparr>inv_policyDecisionId := Some pid\<rparr>) st2
      in (pid, append_events t (created_events p pol pid) st3))"

section \<open>The rejections\<close>

definition deny_record :: "string \<Rightarrow> string \<Rightarrow> 'w server \<Rightarrow> 'w server" where
  "deny_record pid reason st = st\<lparr>policy_records := upd_where (\<lambda>r. pd_id r = pid)
     (\<lambda>r. r\<lparr>pd_decision := ''denied'', pd_reason := reason\<rparr>) (policy_records st)\<rparr>"

definition quota_refusal :: "invocation \<Rightarrow> quota_decision \<Rightarrow> refusal_in" where
  "quota_refusal v d =
     (let data = JObj [(''quotaDecisionId'', JStr (qd_id d)), (''decision'', JStr (qd_decision d))]
      in \<lparr>ri_subject = Some (ref_to ''invocation'' (Some (inv_id v))),
          ri_requester = Some (ref_to ''local_user'' (Some (inv_requestedBy v))),
          ri_category = ''state'', ri_code = ''over_quota'',
          ri_decidedBy = Some (ref_to ''policy_engine'' (Some (qd_id d))),
          ri_summary = Some (qd_reason d), ri_evidence = data,
          ri_remedy = Some ''Wait for the quota window to reset or raise the platform AI quota.'',
          ri_retryAfter = None, ri_appealTo = Some ''device_owner'',
          ri_event = Some (mk_ev (Some (inv_id v)) ''invocation_rejected'' ''warn'' (qd_reason d) data)\<rparr>)"

definition budget_refusal :: "invocation \<Rightarrow> string option \<Rightarrow> bool \<Rightarrow> string \<Rightarrow> refusal_in" where
  "budget_refusal v target hold reason =
     \<lparr>ri_subject = Some (ref_to ''invocation'' (Some (inv_id v))),
      ri_requester = Some (ref_to ''local_user'' (Some (inv_requestedBy v))),
      ri_category = ''state'', ri_code = ''over_budget'',
      ri_decidedBy = Some (ref_to ''policy_engine'' (Some (coalesce target ''budget''))),
      ri_summary = Some reason,
      ri_evidence = JObj [(''gate'', JStr ''budget''), (''projectId'', jstr target), (''inFlightHold'', JBool hold)],
      ri_remedy = Some ''Raise the project or team budget, or wait for the budget window to reset.'',
      ri_retryAfter = None, ri_appealTo = Some ''device_owner'',
      ri_event = Some (mk_ev (Some (inv_id v)) ''invocation_rejected'' ''warn'' reason
        (JObj [(''gate'', JStr ''budget''), (''inFlightHold'', JBool hold)]))\<rparr>"

definition reject_new ::
    "instant \<Rightarrow> invocation \<Rightarrow> string \<Rightarrow> string \<Rightarrow> refusal_in \<Rightarrow> 'w server \<Rightarrow> 'w server" where
  "reject_new t v pid reason refusal st =
     (let v' = v\<lparr>inv_policyDecisionId := Some pid, inv_completedAt := Some t\<rparr>;
          st1 = completeRootSpan t v' Failed
                  (upd_inv (inv_id v) (\<lambda>x. x\<lparr>inv_completedAt := Some t\<rparr>) (deny_record pid reason st));
          st2 = refuse_unchecked t refusal st1
      in recordAgentUsage t v' Rejected (push_audit (createAuditSummary t v' (Some reason) st2) st2))"

section \<open>The admission\<close>

definition admission_event :: "agent \<Rightarrow> json \<Rightarrow> string \<Rightarrow> event_in" where
  "admission_event a options i =
     (let need = requires_approval a options; remote = remoteHttpRun a; direct = runsWithoutBridge a
      in mk_ev (Some i)
           (if need then ''local_approval_requested'' else if remote then ''remote_http_accepted''
            else if direct then ''invocation_started'' else ''delivery_queued'') ''info''
           (if need then ''Local approval is required before this high-risk invocation can run.''
            else if remote then ag_name a @ '' invocation accepted for remote execution.''
            else if direct then ag_name a @ '' invocation started.''
            else ''Invocation queued for Desktop Bridge.'') JNull)"

definition admit_new ::
    "instant \<Rightarrow> agent \<Rightarrow> json \<Rightarrow> policy \<Rightarrow> invocation \<Rightarrow> string \<Rightarrow> 'w server \<Rightarrow> 'w server" where
  "admit_new t a options pol v pid st =
     (let st1 = append_event t (admission_event a options (inv_id v)) st
      in if requires_approval a options
         then (let (aid, st2) = createApprovalRequest t v a pol st1
               in st2\<lparr>invocations := upd_where (\<lambda>x. inv_id x = inv_id v)
                        (\<lambda>x. x\<lparr>inv_approvalRequestId := Some aid\<rparr>) (invocations st2),
                      policy_records := upd_where (\<lambda>r. pd_id r = pid)
                        (\<lambda>r. r\<lparr>pd_approvalRequestId := Some aid\<rparr>) (policy_records st2)\<rparr>)
         else append_event t (mk_ev (Some (inv_id v)) ''invocation_authorized'' ''info''
                (''Demo invocation authorized for '' @ ag_name a @ ''.'') JNull) st1)"

definition create_commit ::
    "instant \<Rightarrow> json \<Rightarrow> agent \<Rightarrow> json \<Rightarrow> actor option \<Rightarrow> prepared \<Rightarrow> 'a ses_server \<Rightarrow> 'a ses_server" where
  "create_commit t task a options actor p st =
     (let (did, st1) = next_id ''del_demo'' st;
          v = create_row t task a options actor p did st;
          pol = evaluateInvocationPolicy a options;
          g = pp_gates p;
          (pid, st2) = create_record t a pol p v st1;
          target = target_project actor options st;
          admitted = admit_new t a options pol v pid st2
      in if quota_denied g
         then (case gt_quota g of
                 Some (allowed, d) \<Rightarrow> reject_new t v pid (qd_reason d) (quota_refusal v d) st2
               | None \<Rightarrow> admitted)
         else (case coalesce_opt (gt_budget g) (gt_reservation g) of
                 Some reason \<Rightarrow>
                   reject_new t v pid reason (budget_refusal v target (gt_reservation g \<noteq> None) reason) st2
               | None \<Rightarrow> admitted))"

text \<open>\<open>Inl\<close> is the error thrown, before anything changes; the id answered is the row's.\<close>

definition createInvocation ::
    "instant \<Rightarrow> json \<Rightarrow> agent option \<Rightarrow> json \<Rightarrow> actor option \<Rightarrow> 'a ses_server
     \<Rightarrow> string + (string \<times> 'a ses_server)" where
  "createInvocation t task agent options actor st =
     (case agent of
        None \<Rightarrow> Inl ''No agent is registered.''
      | Some a \<Rightarrow>
          if bad_model a options then Inl ''The selected model is not supported by this Agent.''
          else (case find_existing options actor st of
                  Some v \<Rightarrow> Inr (inv_id v, st)
                | None \<Rightarrow>
                    (let (p, st1) = create_prepare t a options actor st
                     in Inr (pp_id p, create_commit t task a options actor p st1))))"

section \<open>Preparing changes no row of the run\<close>

definition same_rows :: "'w server \<Rightarrow> 'w server \<Rightarrow> bool" where
  "same_rows st st' \<longleftrightarrow>
     invocations st' = invocations st \<and> projects st' = projects st \<and> worktrees st' = worktrees st
     \<and> agents st' = agents st \<and> device st' = device st \<and> http st' = http st \<and> approvals st' = approvals st
     \<and> policy_records st' = policy_records st \<and> refusals st' = refusals st \<and> audits st' = audits st
     \<and> usages st' = usages st \<and> set (issued_ids st) \<subseteq> set (issued_ids st')"

named_theorems rows "operations that change no row of the run"

lemma same_rows_refl [rows]: "same_rows st st"
  by (simp add: same_rows_def)

lemma same_rows_trans: "same_rows a b \<Longrightarrow> same_rows b c \<Longrightarrow> same_rows a c"
  by (auto simp: same_rows_def)

lemma rows_next_id: "same_rows st (snd (next_id p st))"
  by (simp add: same_rows_def next_id_issued subset_insertI)

lemma rows_append: "same_rows st (append_event t e st)"
  by (simp add: same_rows_def append_event_issued)

lemma rows_fin: "same_rows st (upd_fin f st)"
  by (simp add: same_rows_def upd_fin_def)

lemma rows_ses: "same_rows st (upd_ses f st)"
  by (simp add: same_rows_def upd_ses_def)

lemmas same_rows_after = same_rows_trans [OF _ rows_next_id] same_rows_trans [OF _ rows_append]
  same_rows_trans [OF _ rows_fin] same_rows_trans [OF _ rows_ses]

lemma rows_trace: "same_rows st (snd (createTrace t i a st))"
  by (simp add: same_rows_def createTrace_def case_prod_beta Let_def next_id_issued subset_insertI2)

lemma rows_quota: "same_rows st (snd (maybeEnforcePlatformAiQuota t i a options actor st))"
proof -
  have w: "same_rows st (st\<lparr>world := w\<rparr>)" for w and st :: "'a mt_server" by (simp add: same_rows_def)
  have d: "same_rows st (snd (decideQuota t r p st))" for r p and st :: "'a mt_server"
    by (simp add: decideQuota_def case_prod_beta Let_def rows_next_id)
  have l: "same_rows st (snd (createLedgerEntryForUsage t r p u st))" for r p u and st :: "'a mt_server"
    unfolding createLedgerEntryForUsage_def case_prod_beta Let_def snd_conv add_ledger_def
    by (intro same_rows_after same_rows_refl)
  have s: "same_rows st (spend_quota t p u st)" for p u and st :: "'a mt_server"
    by (cases p) (simp_all add: spend_quota_def same_rows_refl rows_fin)
  have r: "same_rows st (snd (recordAiUsage t r st))" for r and st :: "'a mt_server"
    unfolding recordAiUsage_def case_prod_beta Let_def add_decision_def link_decision_def add_usage_def
    by (auto intro!: same_rows_trans [OF _ rows_append] same_rows_trans [OF _ w] same_rows_trans [OF _ l]
        same_rows_trans [OF _ s] same_rows_trans [OF _ rows_next_id] d)
  show ?thesis
    by (simp add: maybeEnforcePlatformAiQuota_def enforcePlatformAiQuota_def case_prod_beta Let_def
        same_rows_refl r)
qed

lemma rows_sessions: "same_rows st (snd (create_sessions t i a options actor st))"
proof -
  have w: "same_rows st (snd (createManagedCodexWorkspace t i a p pr wt st))" for p pr wt and st :: "'a ses_server"
    unfolding createManagedCodexWorkspace_def Let_def case_prod_beta
    by (auto intro!: same_rows_after same_rows_refl)
  have c: "same_rows st (snd (createManagedCodexSession t i a m ws by pr wt st))" for m ws "by" pr wt
    and st :: "'a ses_server"
    unfolding createManagedCodexSession_def Let_def case_prod_beta
    by (auto intro!: same_rows_after same_rows_refl)
  have l: "same_rows st (snd (createManagedClaudeSession t i a m by pr wt st))" for m "by" pr wt
    and st :: "'a ses_server"
    unfolding createManagedClaudeSession_def Let_def case_prod_beta
    by (auto intro!: same_rows_after same_rows_refl)
  show ?thesis
    unfolding create_sessions_def Let_def case_prod_beta snd_conv set_codex_mode_def set_claude_mode_def
      set_claude_resumed_def
    by (auto intro!: same_rows_trans [OF _ rows_ses] same_rows_trans [OF _ l] same_rows_trans [OF _ c] w)
qed

lemma rows_gates: "same_rows st (snd (other_gates t options actor quota st))"
proof -
  have "same_rows st (snd (snd (checkUsageQuota t u p st)))" for u p
    by (auto simp: checkUsageQuota_def Let_def same_rows_refl rows_append split: list.split)
  then show ?thesis by (simp add: other_gates_def case_prod_beta Let_def)
qed

lemma rows_hold: "same_rows st (snd (hold_gate t i options actor g st))"
proof -
  have "same_rows st (snd (reserveBudget t p n iid auto tm st))" for p n iid auto tm
    unfolding reserveBudget_def Let_def case_prod_beta
    by (auto intro!: same_rows_after same_rows_refl split: option.split)
  then show ?thesis
    by (auto simp: hold_gate_def Let_def case_prod_beta same_rows_refl split: sum.split)
qed

lemma rows_prepare: "same_rows st (snd (create_prepare t a options actor st))"
  unfolding create_prepare_def Let_def case_prod_beta snd_conv
  by (rule same_rows_trans [OF _ rows_hold], rule same_rows_trans [OF _ rows_gates],
      rule same_rows_trans [OF _ rows_sessions], rule same_rows_trans [OF _ rows_quota],
      rule same_rows_trans [OF _ rows_trace], rule rows_next_id)

section \<open>The row and its fate\<close>

lemma create_row_simps [simp]:
  "inv_id (create_row t task a options actor p did st) = pp_id p"
  "inv_status (create_row t task a options actor p did st) = admitted_status a options (pp_gates p)"
  "inv_completedAt (create_row t task a options actor p did st) = None"
  "inv_approvalRequestId (create_row t task a options actor p did st) = None"
  "inv_idempotencyKey (create_row t task a options actor p did st) = client_key options"
  "inv_requestedBy (create_row t task a options actor p did st) = requested_by options actor"
  "inv_projectId (create_row t task a options actor p did st) = target_project actor options st"
  "inv_worktreeId (create_row t task a options actor p did st) = map_option wt_id (run_worktree actor options st)"
  "inv_agentId (create_row t task a options actor p did st) = ag_id a"
  "inv_input (create_row t task a options actor p did st) = JObj [(''task'', task)]"
  "inv_delivery (create_row t task a options actor p did st)
   = admitted_delivery t a options (pp_gates p) (pp_id p) did"
  by (simp_all add: create_row_def)

text \<open>What a step may do to the newest row: set the three fields that follow its creation.\<close>

definition stamped :: "invocation \<Rightarrow> string option \<Rightarrow> instant option \<Rightarrow> string option \<Rightarrow> invocation" where
  "stamped v pid done_at aid =
     v\<lparr>inv_policyDecisionId := pid, inv_completedAt := done_at, inv_approvalRequestId := aid\<rparr>"

lemma stamped_simps [simp]:
  "inv_id (stamped v x y z) = inv_id v" "inv_status (stamped v x y z) = inv_status v"
  "inv_completedAt (stamped v x y z) = y" "inv_approvalRequestId (stamped v x y z) = z"
  "inv_idempotencyKey (stamped v x y z) = inv_idempotencyKey v" "inv_requestedBy (stamped v x y z) = inv_requestedBy v"
  "inv_projectId (stamped v x y z) = inv_projectId v" "inv_worktreeId (stamped v x y z) = inv_worktreeId v"
  "inv_delivery (stamped v x y z) = inv_delivery v" "inv_agentId (stamped v x y z) = inv_agentId v"
  "inv_input (stamped v x y z) = inv_input v"
  by (simp_all add: stamped_def)

lemma upd_fresh: "i \<notin> inv_id ` set vs \<Longrightarrow> upd_where (\<lambda>x. inv_id x = i) f vs = vs"
  by (rule upd_where_none) auto

lemma create_record_effect:
  fixes st :: "'a ses_server"
  assumes "inv_id v = pp_id p" and "pp_id p \<notin> inv_id ` set (invocations st)"
    and "inv_completedAt v = None" and "inv_approvalRequestId v = None"
  shows "invocations (snd (create_record t a pol p v st))
      = stamped v (Some (fst (create_record t a pol p v st))) None None # invocations st"
    and "refusals (snd (create_record t a pol p v st)) = refusals st"
    and "audits (snd (create_record t a pol p v st)) = audits st"
    and "usages (snd (create_record t a pol p v st)) = usages st"
    and "approvals (snd (create_record t a pol p v st)) = approvals st"
    and "http (snd (create_record t a pol p v st)) = http st"
    and "agents (snd (create_record t a pol p v st)) = agents st"
    and "projects (snd (create_record t a pol p v st)) = projects st"
    and "worktrees (snd (create_record t a pol p v st)) = worktrees st"
  using assms
  by (simp_all add: create_record_def createPolicyDecisionRecord_def case_prod_beta Let_def upd_fresh stamped_def)

lemma refuse_newest:
  "\<exists>r rs. refusals (refuse_unchecked t a st) = r # rs \<and> rf_code r = ri_code a
     \<and> rf_category r = ri_category a \<and> rf_summary r = coalesce (ri_summary a) []"
  by (simp add: refuse_unchecked_def case_prod_beta Let_def refusal_push_def push_cap_def REFUSALS_CAP_def
      refusal_row_def recordRefusalDailyStat_def)

lemma reject_new_effect:
  fixes st :: "'a ses_server"
  assumes "invocations st = stamped v (Some pid) None None # vs" and "inv_id v \<notin> inv_id ` set vs"
  shows "invocations (reject_new t v pid reason rf st) = stamped v (Some pid) (Some t) None # vs"
    and "\<exists>r rs. refusals (reject_new t v pid reason rf st) = r # rs \<and> rf_code r = ri_code rf
           \<and> rf_category r = ri_category rf \<and> rf_summary r = coalesce (ri_summary rf) []"
    and "approvals (reject_new t v pid reason rf st) = approvals st"
    and "http (reject_new t v pid reason rf st) = http st"
    and "agents (reject_new t v pid reason rf st) = agents st"
    and "\<exists>a. audits (reject_new t v pid reason rf st) = audits st @ [a] \<and> au_invocationId a = inv_id v
           \<and> au_status a = inv_status v"
proof -
  show "invocations (reject_new t v pid reason rf st) = stamped v (Some pid) (Some t) None # vs"
    using assms by (simp add: reject_new_def Let_def deny_record_def upd_fresh stamped_def)
  show "\<exists>r rs. refusals (reject_new t v pid reason rf st) = r # rs \<and> rf_code r = ri_code rf
           \<and> rf_category r = ri_category rf \<and> rf_summary r = coalesce (ri_summary rf) []"
    by (simp only: reject_new_def Let_def recordAgentUsage_frame push_audit_frame refuse_newest)
  show "approvals (reject_new t v pid reason rf st) = approvals st"
    "http (reject_new t v pid reason rf st) = http st" "agents (reject_new t v pid reason rf st) = agents st"
    by (simp_all add: reject_new_def Let_def deny_record_def)
  show "\<exists>a. audits (reject_new t v pid reason rf st) = audits st @ [a] \<and> au_invocationId a = inv_id v
           \<and> au_status a = inv_status v"
    by (simp add: reject_new_def Let_def push_audit_def deny_record_def createAuditSummary_def)
qed

lemma admit_new_effect:
  fixes st :: "'a ses_server"
  assumes "invocations st = stamped v (Some pid) None None # vs" and "inv_id v \<notin> inv_id ` set vs"
    and "inv_approvalRequestId v = None"
  shows "if requires_approval a options
         then (\<exists>r rs. approvals (admit_new t a options pol v pid st) = r # rs \<and> apr_status r = ''pending''
                \<and> apr_invocationId r = inv_id v
                \<and> invocations (admit_new t a options pol v pid st)
                   = stamped v (Some pid) None (Some (apr_id r)) # vs)
         else approvals (admit_new t a options pol v pid st) = approvals st
           \<and> invocations (admit_new t a options pol v pid st) = stamped v (Some pid) None None # vs"
    and "refusals (admit_new t a options pol v pid st) = refusals st"
    and "audits (admit_new t a options pol v pid st) = audits st"
    and "usages (admit_new t a options pol v pid st) = usages st"
    and "http (admit_new t a options pol v pid st) = http st"
    and "agents (admit_new t a options pol v pid st) = agents st"
  using assms
  by (simp_all add: admit_new_def Let_def createApprovalRequest_def case_prod_beta push_cap_def upd_fresh stamped_def)

text \<open>Why a new run is refused, when it is: the code and the reason of the refusal.\<close>

definition denial_reason :: "gates \<Rightarrow> (string \<times> string) option" where
  "denial_reason g =
     (case gt_quota g of
        Some (False, d) \<Rightarrow> Some (''over_quota'', qd_reason d)
      | _ \<Rightarrow> map_option (\<lambda>r. (''over_budget'', r)) (coalesce_opt (gt_budget g) (gt_reservation g)))"

definition refused_run :: "invocation \<Rightarrow> instant \<Rightarrow> string \<Rightarrow> string \<Rightarrow> invocation list \<Rightarrow> 'w server \<Rightarrow> 'w server \<Rightarrow> bool" where
  "refused_run v t code reason vs st st' \<longleftrightarrow>
     (\<exists>pid. invocations st' = stamped v (Some pid) (Some t) None # vs)
     \<and> (\<exists>r rs. refusals st' = r # rs \<and> rf_code r = code \<and> rf_category r = ''state'' \<and> rf_summary r = reason)
     \<and> (\<exists>a. audits st' = audits st @ [a] \<and> au_invocationId a = inv_id v \<and> au_status a = inv_status v)
     \<and> approvals st' = approvals st"

definition admitted_run :: "invocation \<Rightarrow> bool \<Rightarrow> invocation list \<Rightarrow> 'w server \<Rightarrow> 'w server \<Rightarrow> bool" where
  "admitted_run v need vs st st' \<longleftrightarrow>
     refusals st' = refusals st \<and> audits st' = audits st \<and> usages st' = usages st
     \<and> (if need
        then (\<exists>pid r rs. approvals st' = r # rs \<and> apr_status r = ''pending'' \<and> apr_invocationId r = inv_id v
               \<and> invocations st' = stamped v (Some pid) None (Some (apr_id r)) # vs)
        else approvals st' = approvals st \<and> (\<exists>pid. invocations st' = stamped v (Some pid) None None # vs))"

lemma create_commit_effect:
  fixes st :: "'a ses_server"
  assumes "pp_id p \<notin> inv_id ` set (invocations st)"
  and v_def: "v = create_row t task a options actor p (fst (next_id ''del_demo'' st)) st"
  shows "case denial_reason (pp_gates p) of
      Some (code, reason) \<Rightarrow>
        refused_run v t code reason (invocations st) st (create_commit t task a options actor p st)
    | None \<Rightarrow>
        admitted_run v (requires_approval a options) (invocations st) st (create_commit t task a options actor p st)"
proof -
  let ?n = "next_id ''del_demo'' st" and ?pol = "evaluateInvocationPolicy a options"
  let ?r = "create_record t a ?pol p v (snd ?n)"
  let ?target = "target_project actor options st"
  have v: "inv_id v = pp_id p" "inv_completedAt v = None" "inv_approvalRequestId v = None"
    by (simp_all add: v_def)
  have fresh: "pp_id p \<notin> inv_id ` set (invocations (snd ?n))" using assms(1) by simp
  note rec = create_record_effect [OF v(1) fresh v(2, 3), where t = t and a = a and pol = ?pol]
  have inv: "invocations (snd ?r) = stamped v (Some (fst ?r)) None None # invocations st"
    using rec(1) by simp
  have new: "inv_id v \<notin> inv_id ` set (invocations st)" using assms(1) v(1) by simp
  have rejected: "refused_run v t (ri_code rf) (coalesce (ri_summary rf) []) (invocations st) st
      (reject_new t v (fst ?r) reason rf (snd ?r))" if "ri_category rf = ''state''" for reason rf
  proof -
    note e = reject_new_effect [OF inv new, where t = t and reason = reason and rf = rf]
    have "audits (snd ?r) = audits st" "approvals (snd ?r) = approvals st" using rec(3, 5) by simp_all
    then show ?thesis
      unfolding refused_run_def using e(2) [unfolded that] e(6) by (simp only: e(1, 3)) blast
  qed
  have admitted: "admitted_run v (requires_approval a options) (invocations st) st
      (admit_new t a options ?pol v (fst ?r) (snd ?r))"
  proof -
    note e = admit_new_effect [OF inv new v(3), where t = t and a = a and options = options and pol = ?pol]
    have "refusals (snd ?r) = refusals st" "audits (snd ?r) = audits st" "usages (snd ?r) = usages st"
      "approvals (snd ?r) = approvals st" using rec(2-5) by simp_all
    note same = this
    show ?thesis
    proof (cases "requires_approval a options")
      case True
      have x: "\<exists>r rs. approvals (admit_new t a options ?pol v (fst ?r) (snd ?r)) = r # rs
          \<and> apr_status r = ''pending'' \<and> apr_invocationId r = inv_id v
          \<and> invocations (admit_new t a options ?pol v (fst ?r) (snd ?r))
             = stamped v (Some (fst ?r)) None (Some (apr_id r)) # invocations st"
        using e(1) unfolding if_P [OF True] .
      show ?thesis unfolding admitted_run_def if_P [OF True] e(2, 3, 4) same
        by (intro conjI HOL.refl exI [of _ "fst ?r"] x)
    next
      case False
      have x: "approvals (admit_new t a options ?pol v (fst ?r) (snd ?r)) = approvals (snd ?r)"
        "invocations (admit_new t a options ?pol v (fst ?r) (snd ?r)) = stamped v (Some (fst ?r)) None None # invocations st"
        using e(1) unfolding if_not_P [OF False] by (rule conjunct1, rule conjunct2)
      show ?thesis unfolding admitted_run_def if_not_P [OF False] e(2, 3, 4) same x
        by (intro conjI HOL.refl exI [of _ "fst ?r"])
    qed
  qed
  have commit: "create_commit t task a options actor p st =
      (if quota_denied (pp_gates p)
       then (case gt_quota (pp_gates p) of
               Some (allowed, d) \<Rightarrow> reject_new t v (fst ?r) (qd_reason d) (quota_refusal v d) (snd ?r)
             | None \<Rightarrow> admit_new t a options ?pol v (fst ?r) (snd ?r))
       else (case coalesce_opt (gt_budget (pp_gates p)) (gt_reservation (pp_gates p)) of
               Some reason \<Rightarrow> reject_new t v (fst ?r) reason
                 (budget_refusal v ?target (gt_reservation (pp_gates p) \<noteq> None) reason) (snd ?r)
             | None \<Rightarrow> admit_new t a options ?pol v (fst ?r) (snd ?r)))"
    unfolding create_commit_def Let_def v_def case_prod_beta by (rule HOL.refl)
  show ?thesis
  proof (cases "quota_denied (pp_gates p)")
    case True
    then obtain d where d: "gt_quota (pp_gates p) = Some (False, d)"
      by (auto simp: quota_denied_def split: option.splits)
    have "denial_reason (pp_gates p) = Some (''over_quota'', qd_reason d)" by (simp add: denial_reason_def d)
    moreover have "create_commit t task a options actor p st
        = reject_new t v (fst ?r) (qd_reason d) (quota_refusal v d) (snd ?r)"
      unfolding commit using True by (simp add: d)
    ultimately show ?thesis
      using rejected [where rf = "quota_refusal v d" and reason = "qd_reason d"]
      by (simp add: quota_refusal_def Let_def)
  next
    case False
    then have dr: "denial_reason (pp_gates p)
        = map_option (\<lambda>r. (''over_budget'', r)) (coalesce_opt (gt_budget (pp_gates p)) (gt_reservation (pp_gates p)))"
      by (auto simp: quota_denied_def denial_reason_def split: option.splits bool.splits)
    show ?thesis
    proof (cases "coalesce_opt (gt_budget (pp_gates p)) (gt_reservation (pp_gates p))")
      case None
      then show ?thesis unfolding dr commit if_not_P [OF False] using admitted by (simp only: option.map option.case)
    next
      case (Some reason)
      let ?rf = "budget_refusal v ?target (gt_reservation (pp_gates p) \<noteq> None) reason"
      have rf: "ri_category ?rf = ''state''" "ri_code ?rf = ''over_budget''" "ri_summary ?rf = Some reason"
        by (simp_all only: budget_refusal_def refusal_in.simps)
      show ?thesis unfolding dr commit if_not_P [OF False] Some option.map option.case prod.case
        using rejected [OF rf(1), where reason = reason] unfolding rf coalesce.simps .
    qed
  qed
qed

definition rows_issued :: "'w server \<Rightarrow> bool" where
  "rows_issued st \<longleftrightarrow> inv_id ` set (invocations st) \<subseteq> set (issued_ids st)"

lemma prepare_id:
  "pp_id (fst (create_prepare t a options actor st)) = fst (next_id ''inv_demo'' st)"
  by (simp add: create_prepare_def Let_def case_prod_beta)

lemma prepare_fresh:
  assumes "rows_issued st"
  shows "pp_id (fst (create_prepare t a options actor st)) \<notin> set (issued_ids st)"
    and "pp_id (fst (create_prepare t a options actor st)) \<notin> inv_id ` set (invocations st)"
  using assms next_id_fresh [of "''inv_demo''" st] by (auto simp: prepare_id rows_issued_def)

lemma create_new:
  assumes "find_existing options actor st = None" and "\<not> bad_model a options"
  shows "createInvocation t task (Some a) options actor st
    = Inr (pp_id (fst (create_prepare t a options actor st)),
           create_commit t task a options actor (fst (create_prepare t a options actor st))
             (snd (create_prepare t a options actor st)))"
  using assms by (simp add: createInvocation_def Let_def case_prod_beta)

lemma outcome:
  assumes "rows_issued st"
    and p_def: "p = fst (create_prepare t a options actor st)"
    and st1_def: "st1 = snd (create_prepare t a options actor st)"
  obtains v where "inv_id v = pp_id p" and "inv_status v = admitted_status a options (pp_gates p)"
    and "inv_idempotencyKey v = client_key options" and "inv_requestedBy v = requested_by options actor"
    and "inv_input v = JObj [(''task'', task)]"
    and "inv_projectId v = target_project actor options st1"
    and "case denial_reason (pp_gates p) of
      Some (code, reason) \<Rightarrow>
        refused_run v t code reason (invocations st) st (create_commit t task a options actor p st1)
    | None \<Rightarrow>
        admitted_run v (requires_approval a options) (invocations st) st (create_commit t task a options actor p st1)"
proof -
  have rows: "same_rows st st1" unfolding st1_def by (rule rows_prepare)
  have "pp_id p \<notin> inv_id ` set (invocations st)" unfolding p_def by (rule prepare_fresh [OF assms(1)])
  then have fresh: "pp_id p \<notin> inv_id ` set (invocations st1)" using rows by (simp add: same_rows_def)
  let ?v = "create_row t task a options actor p (fst (next_id ''del_demo'' st1)) st1"
  have same: "invocations st1 = invocations st" "refusals st1 = refusals st" "audits st1 = audits st"
    "approvals st1 = approvals st" "usages st1 = usages st"
    using rows by (simp_all add: same_rows_def)
  have eqs: "refused_run w t code reason (invocations st1) st1 = refused_run w t code reason (invocations st) st"
    "admitted_run w need (invocations st1) st1 = admitted_run w need (invocations st) st" for w code reason need
    by (intro ext; simp only: refused_run_def admitted_run_def same)+
  note c = create_commit_effect [OF fresh HOL.refl, where t = t and task = task and a = a and options = options
      and actor = actor, unfolded eqs]
  show thesis by (rule that [OF _ _ _ _ _ _ c]) simp_all
qed

text \<open>C18: the outcome of a creation: the new run gets a fresh id and is the newest row, the others stay as
  they were.  Denied by the platform quota, a budget or a hold, it is rejected and closed, with a refusal of
  that code, an audit and no approval request.  Otherwise nothing is refused, and a pending approval that
  names the run is opened exactly when the policy asks for one.  The status follows the gates.\<close>

theorem creation_outcome:
  assumes "rows_issued st" and "find_existing options actor st = None" and "\<not> bad_model a options"
  shows "let g = pp_gates (fst (create_prepare t a options actor st))
    in case createInvocation t task (Some a) options actor st of
         Inl e \<Rightarrow> False
       | Inr (i, st') \<Rightarrow>
           i \<notin> set (issued_ids st)
           \<and> (\<exists>v. inv_id v = i \<and> inv_status v = admitted_status a options g
               \<and> (case denial_reason g of
                    Some (code, reason) \<Rightarrow>
                      inv_status v = Rejected \<and> refused_run v t code reason (invocations st) st st'
                  | None \<Rightarrow>
                      admitted_run v (requires_approval a options) (invocations st) st st'))"
proof -
  let ?p = "fst (create_prepare t a options actor st)"
  obtain v where v: "inv_id v = pp_id ?p" "inv_status v = admitted_status a options (pp_gates ?p)"
    "case denial_reason (pp_gates ?p) of
      Some (code, reason) \<Rightarrow> refused_run v t code reason (invocations st) st
        (create_commit t task a options actor ?p (snd (create_prepare t a options actor st)))
    | None \<Rightarrow> admitted_run v (requires_approval a options) (invocations st) st
        (create_commit t task a options actor ?p (snd (create_prepare t a options actor st)))"
    using outcome [OF assms(1) HOL.refl HOL.refl, where t = t and task = task and a = a and options = options and actor = actor]
    by metis
  have rejected: "inv_status v = Rejected" if "denial_reason (pp_gates ?p) = Some r" for r
    using that unfolding v(2)
    by (auto simp: denial_reason_def admitted_status_def gate_rejected_def quota_denied_def
        split: option.splits bool.splits)
  show ?thesis
    unfolding create_new [OF assms(2, 3)] Let_def sum.case prod.case
    using prepare_fresh(1) [OF assms(1)] v rejected
    by (cases "denial_reason (pp_gates ?p)") auto
qed

text \<open>A client key makes creation idempotent: asking again with the same key as the same requester, at
  any later time and with any task, answers the same run and changes nothing.\<close>

theorem creation_idempotent:
  assumes "rows_issued st"
  shows "case (client_key options, createInvocation t task agent options actor st) of
      (Some k, Inr (i, st1)) \<Rightarrow> createInvocation t' task' agent options actor st1 = Inr (i, st1)
    | _ \<Rightarrow> True"
proof (cases "\<exists>k a. client_key options = Some k \<and> agent = Some a \<and> \<not> bad_model a options")
  case False
  then show ?thesis by (auto simp: createInvocation_def split: option.split)
next
  case True
  then obtain k a where k: "client_key options = Some k" and a: "agent = Some a" "\<not> bad_model a options" by blast
  show ?thesis
  proof (cases "find_existing options actor st")
    case (Some v)
    then show ?thesis using k a by (simp add: createInvocation_def)
  next
    case None
    let ?p = "fst (create_prepare t a options actor st)"
    let ?st' = "create_commit t task a options actor ?p (snd (create_prepare t a options actor st))"
    obtain v where v: "inv_id v = pp_id ?p" "inv_idempotencyKey v = client_key options"
      "inv_requestedBy v = requested_by options actor"
      and fate: "case denial_reason (pp_gates ?p) of
        Some (code, reason) \<Rightarrow> refused_run v t code reason (invocations st) st ?st'
      | None \<Rightarrow> admitted_run v (requires_approval a options) (invocations st) st ?st'"
      using outcome [OF assms HOL.refl HOL.refl, where t = t and task = task and a = a and options = options and actor = actor]
      by metis
    obtain x y z where "invocations ?st' = stamped v x y z # invocations st"
      using fate by (auto simp: refused_run_def admitted_run_def split: option.splits if_splits)
    then have "find_existing options actor ?st' = Some (stamped v x y z)"
      using v k by (simp add: find_existing_def)
    then have "createInvocation t' task' agent options actor ?st' = Inr (pp_id ?p, ?st')"
      using a v(1) by (simp add: createInvocation_def)
    then show ?thesis using create_new [OF None a(2)] k a by simp
  qed
qed

text \<open>A run that only the usage quota blocks is rejected but not recorded as a rejection: no refusal, no
  audit, no usage count, no completion time; when the policy asks for approval, a pending approval is
  opened for the rejected run.\<close>

theorem usage_quota_rejects_silently:
  assumes "pp_id p \<notin> inv_id ` set (invocations st)"
    and "pp_gates p = \<lparr>gt_quota = None, gt_budget = None, gt_usage = True, gt_reservation = None\<rparr>"
  shows "let st' = create_commit t task a options actor p st
    in refusals st' = refusals st \<and> audits st' = audits st \<and> usages st' = usages st
       \<and> (case invocations st' of
            [] \<Rightarrow> False
          | v # vs \<Rightarrow> vs = invocations st \<and> inv_id v = pp_id p \<and> inv_status v = Rejected
              \<and> inv_completedAt v = None \<and> (inv_approvalRequestId v = None) = (\<not> requires_approval a options))"
proof -
  let ?v = "create_row t task a options actor p (fst (next_id ''del_demo'' st)) st"
  have none: "denial_reason (pp_gates p) = None" by (simp add: assms(2) denial_reason_def)
  have status: "inv_status ?v = Rejected" by (simp add: admitted_status_def gate_rejected_def assms(2))
  from create_commit_effect [OF assms(1) HOL.refl, where t = t and task = task and a = a and options = options and actor = actor]
  have "admitted_run ?v (requires_approval a options) (invocations st) st (create_commit t task a options actor p st)"
    unfolding none option.case .
  then show ?thesis using status
    by (cases "requires_approval a options") (auto simp: admitted_run_def Let_def)
qed

section \<open>A concrete server\<close>

definition demo_tables :: session_tables where
  "demo_tables = \<lparr>fin_currentProjectId = None, fin_teams = [], fin_ledger = [], fin_budgets = [],
     fin_reservations = [], fin_quotas = [], mt_rounds = [], mt_usages = [], mt_decisions = [],
     mt_autoRunChains = [], ses_workspaces = [], ses_codex = [], ses_claude = [],
     ses_reservationEstimateUsd = 0\<rparr>"

abbreviation demo_control_plane :: "session_tables server" where
  "demo_control_plane \<equiv> demo_server_with demo_tables []"

definition demo_prepared :: prepared where
  "demo_prepared = \<lparr>pp_id = ''inv_demo_1'', pp_traceId = ''trc_1'', pp_rootSpanId = ''spn_1'',
     pp_workspace = None, pp_codex = None, pp_claude = None, pp_codexMode = ''not_applicable'',
     pp_codexResume = None, pp_workspacePolicy = ''not_applicable'', pp_claudeMode = ''not_applicable'',
     pp_claudeResume = None,
     pp_gates = \<lparr>gt_quota = None, gt_budget = None, gt_usage = True, gt_reservation = None\<rparr>\<rparr>"

lemma demo_rows_issued: "rows_issued demo_control_plane"
  by (simp add: rows_issued_def)

theorem creation_outcome_witness:
  "case createInvocation 5 (JStr ''task'') (Some demo_agent) (JObj []) None demo_control_plane of
     Inl e \<Rightarrow> False | Inr (i, st') \<Rightarrow> i \<notin> set (issued_ids demo_control_plane)"
proof -
  have new: "find_existing (JObj []) None demo_control_plane = None" by (simp add: find_existing_def client_key_def)
  have "\<not> bad_model demo_agent (JObj [])" by (simp add: bad_model_def)
  from creation_outcome [OF demo_rows_issued new this, where t = 5 and task = "JStr ''task''"]
  show ?thesis by (auto simp: Let_def split: sum.splits prod.splits)
qed

theorem creation_idempotent_witness:
  "case createInvocation 5 (JStr ''a'') (Some demo_agent) (JObj [(''idempotencyKey'', JStr ''k'')]) None demo_control_plane of
     Inr (i, st1) \<Rightarrow>
       createInvocation 6 (JStr ''b'') (Some demo_agent) (JObj [(''idempotencyKey'', JStr ''k'')]) None st1 = Inr (i, st1)
   | Inl e \<Rightarrow> True"
proof -
  have "client_key (JObj [(''idempotencyKey'', JStr ''k'')]) = Some ''k''"
    by (simp add: client_key_def js_trim_def js_space_def)
  with creation_idempotent [OF demo_rows_issued, where t = 5 and task = "JStr ''a''" and agent = "Some demo_agent"
      and options = "JObj [(''idempotencyKey'', JStr ''k'')]" and actor = None and t' = 6 and task' = "JStr ''b''"]
  show ?thesis by (simp split: sum.splits prod.splits)
qed

theorem usage_quota_rejects_silently_witness:
  "refusals (create_commit 5 JNull demo_agent (JObj []) None demo_prepared demo_control_plane)
   = refusals demo_control_plane"
proof -
  have f: "pp_id demo_prepared \<notin> inv_id ` set (invocations demo_control_plane)" by simp
  have "pp_gates demo_prepared = \<lparr>gt_quota = None, gt_budget = None, gt_usage = True, gt_reservation = None\<rparr>"
    by (simp add: demo_prepared_def)
  from usage_quota_rejects_silently [OF f this, where t = 5 and task = JNull and a = demo_agent
      and options = "JObj []" and actor = None]
  show ?thesis by (simp only: Let_def)
qed

end
