(* ===== verification/CreateRoute.thy ===== *)
theory CreateRoute
  imports Creation
begin

text \<open>
  POST /api/invocations of routes/invocations.mjs: what of the client's body reaches
  \<open>createInvocation\<close>, the tenant guard of project and worktree (with runtime/auth.mjs), and the handler
  up to the start of the run.  The body is a JSON value; \<open>header\<close> is the \<open>Idempotency-Key\<close> header.
\<close>

section \<open>Options from the body\<close>

fun jdel :: "string \<Rightarrow> json \<Rightarrow> json" where
  "jdel k (JObj kvs) = JObj (filter (\<lambda>kv. fst kv \<noteq> k) kvs)"
| "jdel k v = v"

fun jhas :: "json \<Rightarrow> string \<Rightarrow> bool" where
  "jhas (JObj kvs) k \<longleftrightarrow> k \<in> fst ` set kvs"
| "jhas v k \<longleftrightarrow> False"

definition RESERVED_INVOCATION_METADATA_KEYS :: "string list" where
  "RESERVED_INVOCATION_METADATA_KEYS =
     [''applicationWrapper'', ''providerType'', ''applicationId'', ''capability'', ''platformManagedAi'',
      ''teamId'', ''provider'', ''model'', ''requestCount'', ''estimatedCost'', ''costOwner'',
      ''allowedModels'', ''credentialState'', ''economicModel'', ''unitPrice'', ''currency'',
      ''revenueOwner'', ''budgetPoolId'']"

definition stripReservedInvocationMetadata :: "json \<Rightarrow> json" where
  "stripReservedInvocationMetadata m =
     (if is_obj m then fold jdel RESERVED_INVOCATION_METADATA_KEYS m else JObj [])"

definition body_options :: "json \<Rightarrow> json" where
  "body_options body = (let x = jget body ''options'' in if is_obj x then x else JObj [])"

definition body_metadata :: "json \<Rightarrow> json" where
  "body_metadata body =
     (let options = body_options body;
          m = stripReservedInvocationMetadata (jget options ''metadata'');
          m1 = when_set (jhas body ''projectId'') ''projectId'' (jget body ''projectId'') m;
          m2 = when_set (jhas body ''worktreeId'') ''worktreeId'' (jget body ''worktreeId'') m1
      in when_set (jget body ''permissionLevel'' \<noteq> JNull \<or> jhas options ''permissionLevel'') ''permissionMode''
           (nullish_or (jget body ''permissionLevel'') (jget options ''permissionLevel'')) m2)"

definition invocationOptionsFromBody :: "json \<Rightarrow> json" where
  "invocationOptionsFromBody body =
     (let options = body_options body; model = normalizeAgentModel (jget options ''model'')
      in jset (when_set (model \<noteq> None) ''model'' (jstr model) (jdel ''model'' options))
           ''metadata'' (body_metadata body))"

definition client_only :: "string list" where
  "client_only = [''actor'', ''idempotencyKey'', ''requestedBy'', ''preApproved'']"

text \<open>\<open>String(header ?? body.idempotencyKey ?? "").trim() || undefined\<close>\<close>

definition request_key :: "string option \<Rightarrow> json \<Rightarrow> string option" where
  "request_key header body =
     (let k = js_trim (jtext (nullish_or (jstr header) (jget body ''idempotencyKey''))) in if k = [] then None else Some k)"

definition route_options :: "string option \<Rightarrow> json \<Rightarrow> json" where
  "route_options header body =
     jset (fold jdel client_only (invocationOptionsFromBody body)) ''idempotencyKey''
       (jstr (request_key header body))"

section \<open>The tenant guard\<close>

definition actorCanAccessProject :: "actor option \<Rightarrow> json \<Rightarrow> 'w server \<Rightarrow> bool" where
  "actorCanAccessProject actor pid st \<longleftrightarrow>
     (if \<not> truthy pid then True
      else (case actor of
              None \<Rightarrow> True
            | Some ac \<Rightarrow>
                (case List.find (\<lambda>p. JStr (pr_id p) = pid) (projects st) of
                   None \<Rightarrow> False
                 | Some p \<Rightarrow> Some (teamOf p) = ac_teamId ac)))"

text \<open>\<open>None\<close>: not denied; otherwise the error of the 404.\<close>

definition denyForeignInvocationScope :: "actor option \<Rightarrow> json \<Rightarrow> 'w server \<Rightarrow> string option" where
  "denyForeignInvocationScope actor metadata st =
     (if \<not> actorCanAccessProject actor (jget metadata ''projectId'') st then Some ''project_not_found''
      else if jget metadata ''worktreeId'' = JNull then None
      else
        (let wid = (case jget metadata ''worktreeId'' of JStr s \<Rightarrow> js_trim s | _ \<Rightarrow> [])
         in case (if wid = [] then None else List.find (\<lambda>w. wt_id w = wid) (worktrees st)) of
              None \<Rightarrow> Some ''worktree_not_found''
            | Some w \<Rightarrow>
                if actorCanAccessProject actor (jstr (coalesce_opt (wt_workspaceProjectId w) (wt_projectId w))) st
                then None else Some ''worktree_not_found''))"

section \<open>The handler\<close>

record reply =
  rp_code :: nat
  rp_error :: "string option"
  rp_invocationId :: "string option"

definition fail_reply :: "nat \<Rightarrow> string \<Rightarrow> reply" where
  "fail_reply c e = \<lparr>rp_code = c, rp_error = Some e, rp_invocationId = None\<rparr>"

definition selected_agent :: "json \<Rightarrow> 'w server \<Rightarrow> agent option" where
  "selected_agent body st =
     (let i = jget body ''agentId''
      in if truthy i then List.find (\<lambda>a. JStr (ag_id a) = i) (agents st) else selectDefaultAgent (agents st))"

definition agent_block :: "agent \<Rightarrow> 'w server \<Rightarrow> string option" where
  "agent_block a st =
     (if ag_status a = ''disabled'' then Some ''agent_disabled''
      else if ag_health a = Some ''unhealthy'' then Some ''agent_unhealthy''
      else if is_local_device a \<and> dv_unlinkState (device st) \<noteq> ''linked'' then Some ''device_unlinked''
      else None)"

definition model_refused :: "agent \<Rightarrow> json \<Rightarrow> bool" where
  "model_refused a body \<longleftrightarrow>
     (let raw = jget (body_options body) ''model''; model = jget (invocationOptionsFromBody body) ''model''
      in raw \<noteq> JNull \<and> js_trim (jtext raw) \<noteq> []
         \<and> (\<not> truthy model \<or> \<not> agentAdapterSupportsModel (ag_adapter a) model))"

definition postInvocation ::
    "instant \<Rightarrow> string option \<Rightarrow> actor option \<Rightarrow> json \<Rightarrow> 'a ses_server \<Rightarrow> reply \<times> 'a ses_server" where
  "postInvocation t header actor body st =
     (let task = js_trim (jtext (jget body ''task''))
      in if task = [] then (fail_reply 400 ''task_required'', st)
         else if \<not> actorCanAccessProject actor (jget body ''projectId'') st then (fail_reply 404 ''not_found'', st)
         else (case selected_agent body st of
                 None \<Rightarrow> (fail_reply 404 ''agent_not_found'', st)
               | Some a \<Rightarrow>
                   (case agent_block a st of
                      Some e \<Rightarrow> (fail_reply 409 e, st)
                    | None \<Rightarrow>
                        if model_refused a body then (fail_reply 400 ''model_not_supported'', st)
                        else (case denyForeignInvocationScope actor (body_metadata body) st of
                                Some e \<Rightarrow> (fail_reply 404 e, st)
                              | None \<Rightarrow>
                                  (case createInvocation t (JStr task) (Some a) (route_options header body) actor st of
                                     Inl e \<Rightarrow> (fail_reply 500 e, st)
                                   | Inr (i, st1) \<Rightarrow>
                                       (\<lparr>rp_code = 201, rp_error = None, rp_invocationId = Some i\<rparr>,
                                        startInvocationIfAllowed t i (Some a) st1))))))"

section \<open>What a client cannot say\<close>

lemma jget_jdel [simp]: "jget (jdel k v) k' = (if k = k' then JNull else jget v k')"
proof (cases v)
  case (JObj kvs)
  have "map_of (filter (\<lambda>kv. fst kv \<noteq> k) kvs) k' = (if k = k' then None else map_of kvs k')"
    by (induction kvs) auto
  with JObj show ?thesis by simp
qed simp_all

lemma jget_fold_jdel: "jget (fold jdel ks v) k = (if k \<in> set ks then JNull else jget v k)"
  by (induction ks arbitrary: v) auto

lemma is_obj_jdel [simp]: "is_obj (jdel k v) = is_obj v"
  by (cases v) auto

lemma is_obj_fold_jdel [simp]: "is_obj (fold jdel ks v) = is_obj v"
  by (induction ks arbitrary: v) auto

lemma is_obj_jset [simp]: "is_obj w \<Longrightarrow> is_obj (jset w k v)"
  by (cases w) auto

lemma is_obj_when_set [simp]: "is_obj w \<Longrightarrow> is_obj (when_set c k v w)"
  by (simp add: when_set_def)

lemma jget_when_set: "is_obj w \<Longrightarrow> jget (when_set c k v w) k' = (if c \<and> k = k' then v else jget w k')"
  by (simp add: when_set_def jget_jset)

lemma is_obj_strip [simp]: "is_obj (stripReservedInvocationMetadata m)"
  by (simp add: stripReservedInvocationMetadata_def)

lemma is_obj_body_options [simp]: "is_obj (body_options body)"
  by (simp add: body_options_def Let_def)

lemma is_obj_body_metadata [simp]: "is_obj (body_metadata body)"
  by (simp add: body_metadata_def Let_def)

lemma is_obj_options [simp]: "is_obj (invocationOptionsFromBody body)"
  by (simp add: invocationOptionsFromBody_def Let_def)

lemma route_options_get:
  "jget (route_options header body) k
   = (if k = ''idempotencyKey'' then jstr (request_key header body)
      else if k \<in> set client_only then JNull else jget (invocationOptionsFromBody body) k)"
  unfolding route_options_def
  by (subst jget_jset) (auto simp: jget_fold_jdel)

lemma route_metadata: "requested_metadata (route_options header body) = body_metadata body"
proof -
  have "jget (invocationOptionsFromBody body) ''metadata'' = body_metadata body"
    unfolding invocationOptionsFromBody_def Let_def by (subst jget_jset) simp_all
  then have "jget (route_options header body) ''metadata'' = body_metadata body"
    by (simp add: route_options_get client_only_def)
  then show ?thesis by (simp add: requested_metadata_def)
qed

lemma body_option_get:
  "k \<noteq> ''model'' \<Longrightarrow> k \<noteq> ''metadata'' \<Longrightarrow> jget (invocationOptionsFromBody body) k = jget (body_options body) k"
  unfolding invocationOptionsFromBody_def Let_def
  by (subst jget_jset) (simp_all add: jget_when_set)

definition high_risk :: "agent \<Rightarrow> bool" where
  "high_risk a \<longleftrightarrow> highestRiskLevel (map cap_riskLevel (ag_capabilities a)) \<in> {''high'', ''critical''}"

lemma route_approval:
  "requires_approval a (route_options header body)
   = (\<not> is_codex a \<and> (truthy (jget (body_options body) ''requireLocalApproval'') \<or> high_risk a))"
proof -
  have p: "jget (route_options header body) ''preApproved'' = JNull"
    by (simp add: route_options_get client_only_def)
  have "jget (route_options header body) ''requireLocalApproval'' = jget (body_options body) ''requireLocalApproval''"
    by (simp add: route_options_get client_only_def body_option_get)
  with p show ?thesis unfolding requires_approval_def is_codex_def high_risk_def by simp
qed

text \<open>What a client may not say does not reach the creation: whatever its body, no approval is taken as
  given, the requester is the authenticated actor, the key is the request's own, the metadata hold none of
  the reserved keys (so no platform quota is charged), and whether a run waits for approval is decided by
  the agent's risk and the client's own wish for approval alone.\<close>

theorem client_options_are_safe:
  "jget (route_options header body) ''preApproved'' = JNull
   \<and> requested_by (route_options header body) actor = actor_user actor
   \<and> list_all (\<lambda>k. jget (requested_metadata (route_options header body)) k = JNull) RESERVED_INVOCATION_METADATA_KEYS
   \<and> maybeEnforcePlatformAiQuota t i a (route_options header body) actor st = (None, st)
   \<and> requires_approval a (route_options header body)
      = (\<not> is_codex a \<and> (truthy (jget (body_options body) ''requireLocalApproval'') \<or> high_risk a))"
proof -
  have res: "jget (body_metadata body) k = JNull" if "k \<in> set RESERVED_INVOCATION_METADATA_KEYS" for k
  proof -
    from that have "''projectId'' \<noteq> k" "''worktreeId'' \<noteq> k" "''permissionMode'' \<noteq> k"
      by (auto simp: RESERVED_INVOCATION_METADATA_KEYS_def)
    then have "jget (body_metadata body) k = jget (stripReservedInvocationMetadata (jget (body_options body) ''metadata'')) k"
      by (simp add: body_metadata_def Let_def jget_when_set)
    also have "\<dots> = JNull" using that by (simp add: stripReservedInvocationMetadata_def jget_fold_jdel)
    finally show ?thesis .
  qed
  then have all: "list_all (\<lambda>k. jget (requested_metadata (route_options header body)) k = JNull)
      RESERVED_INVOCATION_METADATA_KEYS"
    by (simp only: route_metadata list_all_iff) blast
  have "jget (body_metadata body) ''platformManagedAi'' = JNull"
    by (rule res) (simp add: RESERVED_INVOCATION_METADATA_KEYS_def)
  then have quota: "maybeEnforcePlatformAiQuota t i a (route_options header body) actor st = (None, st)"
    by (simp add: maybeEnforcePlatformAiQuota_def route_metadata)
  have "jget (route_options header body) ''requestedBy'' = JNull"
    by (simp add: route_options_get client_only_def)
  then have "requested_by (route_options header body) actor = actor_user actor"
    by (simp add: requested_by_def opt_string_def)
  moreover have "jget (route_options header body) ''preApproved'' = JNull"
    by (simp add: route_options_get client_only_def)
  ultimately show ?thesis using all quota route_approval by blast
qed

section \<open>The run of a high-risk agent waits\<close>

lemma commit_http [simp]: "http (create_commit t task a options actor p st) = http st"
  by (simp add: create_commit_def Let_def case_prod_beta reject_new_def admit_new_def create_record_def
      createPolicyDecisionRecord_def createApprovalRequest_def deny_record_def split: option.splits)

lemma prepare_http [simp]: "http (snd (create_prepare t a options actor st)) = http st"
  using rows_prepare [of st t a options actor] by (simp add: same_rows_def)

lemma start_waiting:
  "find_inv i st = Some v \<Longrightarrow> inv_status v \<in> {WaitingForLocalApproval, Rejected}
   \<Longrightarrow> startInvocationIfAllowed t i a st = st"
  by (auto simp: startInvocationIfAllowed_def split: option.split)

lemma post_cases:
  obtains (denied) c e where "postInvocation t header actor body st = (fail_reply c e, st)"
  | (posted) a i st1 where "selected_agent body st = Some a" and "agent_block a st = None"
      and "denyForeignInvocationScope actor (body_metadata body) st = None"
      and "createInvocation t (JStr (js_trim (jtext (jget body ''task'')))) (Some a)
             (route_options header body) actor st = Inr (i, st1)"
      and "postInvocation t header actor body st
        = (\<lparr>rp_code = 201, rp_error = None, rp_invocationId = Some i\<rparr>, startInvocationIfAllowed t i (Some a) st1)"
proof (cases "\<exists>c e. postInvocation t header actor body st = (fail_reply c e, st)")
  case True
  then show thesis by (auto intro: denied)
next
  case False
  then show thesis
    by (auto simp: postInvocation_def Let_def split: if_splits option.splits sum.splits intro: posted)
qed

text \<open>No request runs a high-risk agent without a person: for any body, a request that names an agent of
  high or critical risk (the Codex CLI aside, which asks by itself) and is accepted leaves the new run
  waiting for local approval or rejected, never queued nor running, and no HTTP request is launched; one
  that repeats a key answers the earlier run; any other answer leaves the state as it was.\<close>

theorem high_risk_request_waits:
  assumes "rows_issued st" and "selected_agent body st = Some a" and "high_risk a" and "\<not> is_codex a"
  shows "case postInvocation t header actor body st of
      (r, st') \<Rightarrow>
        (case rp_invocationId r of
           None \<Rightarrow> st' = st
         | Some i \<Rightarrow>
             (case find_existing (route_options header body) actor st of
                Some v \<Rightarrow> inv_id v = i
              | None \<Rightarrow> http st' = http st
                  \<and> (\<exists>v. find_inv i st' = Some v \<and> inv_status v \<in> {WaitingForLocalApproval, Rejected})))"
proof (cases rule: post_cases [where t = t and header = header and actor = actor and body = body and st = st])
  case (denied c e)
  then show ?thesis by (simp add: fail_reply_def)
next
  case (posted b i st1)
  from posted(1) assms(2) have b: "b = a" by simp
  let ?o = "route_options header body" and ?task = "JStr (js_trim (jtext (jget body ''task'')))"
  show ?thesis
  proof (cases "find_existing ?o actor st")
    case (Some v)
    with posted(4) have "inv_id v = i" by (simp add: createInvocation_def split: if_splits)
    with Some posted(5) show ?thesis by simp
  next
    case None
    let ?p = "fst (create_prepare t a ?o actor st)"
    have "\<not> bad_model a ?o" using posted(4) b by (auto simp: createInvocation_def)
    from create_new [OF None this, where t = t and task = ?task] posted(4) b
    have st1: "i = pp_id ?p" "st1 = create_commit t ?task a ?o actor ?p (snd (create_prepare t a ?o actor st))"
      by simp_all
    obtain v where v: "inv_id v = pp_id ?p" "inv_status v = admitted_status a ?o (pp_gates ?p)"
      and fate: "case denial_reason (pp_gates ?p) of
        Some (code, reason) \<Rightarrow> refused_run v t code reason (invocations st) st st1
      | None \<Rightarrow> admitted_run v (requires_approval a ?o) (invocations st) st st1"
      unfolding st1(2)
      using outcome [OF assms(1) HOL.refl HOL.refl, where t = t and task = ?task and a = a and options = ?o and actor = actor]
      by metis
    obtain x y z where row: "invocations st1 = stamped v x y z # invocations st"
      using fate by (auto simp: refused_run_def admitted_run_def split: option.splits if_splits)
    have "requires_approval a ?o" using assms(3, 4) by (simp add: route_approval)
    then have status: "inv_status v \<in> {WaitingForLocalApproval, Rejected}"
      unfolding v(2) by (simp add: admitted_status_def)
    have found: "find_inv i st1 = Some (stamped v x y z)" by (simp add: find_inv_def row v(1) st1(1))
    have "startInvocationIfAllowed t i (Some a) st1 = st1"
      by (rule start_waiting [OF found]) (use status in simp)
    then have post: "postInvocation t header actor body st
        = (\<lparr>rp_code = 201, rp_error = None, rp_invocationId = Some i\<rparr>, st1)"
      using posted(5) b by simp
    have "http st1 = http st" by (simp add: st1(2))
    with found status None show ?thesis unfolding post by simp
  qed
qed

theorem high_risk_request_waits_witness:
  "case postInvocation 5 None None (JObj [(''task'', JStr ''t'')])
      (demo_server_with demo_tables []\<lparr>agents := [demo_agent\<lparr>ag_capabilities :=
         [\<lparr>cap_riskLevel = Some ''high'', cap_riskTags = []\<rparr>]\<rparr>]\<rparr>) of
     (r, st') \<Rightarrow>
       (case rp_invocationId r of
          None \<Rightarrow> True
        | Some i \<Rightarrow> \<exists>v. find_inv i st' = Some v \<and> inv_status v \<in> {WaitingForLocalApproval, Rejected})"
proof -
  let ?a = "demo_agent\<lparr>ag_capabilities := [\<lparr>cap_riskLevel = Some ''high'', cap_riskTags = []\<rparr>]\<rparr>"
  let ?st = "demo_server_with demo_tables []\<lparr>agents := [?a]\<rparr>" and ?body = "JObj [(''task'', JStr ''t'')]"
  have rows: "rows_issued ?st" by (simp add: rows_issued_def)
  have sel: "selected_agent ?body ?st = Some ?a"
    by (simp add: selected_agent_def selectDefaultAgent_def demo_agent_def)
  have risk: "high_risk ?a"
    by (simp add: high_risk_def highestRiskLevel_def raise_risk_def normal_risk_def risk_order_def)
  have "\<not> is_codex ?a"
    by (simp add: is_codex_def isCodexCliCommand_def demo_agent_def codex_names_def js_lower_def js_trim_def
        js_space_def lower_char_def ends_with_def Let_def)
  from high_risk_request_waits [OF rows sel risk this, where t = 5 and header = None and actor = None]
  have "case postInvocation 5 None None ?body ?st of
      (r, st') \<Rightarrow>
        (case rp_invocationId r of
           None \<Rightarrow> st' = ?st
         | Some i \<Rightarrow>
             (case find_existing (route_options None ?body) None ?st of
                Some v \<Rightarrow> inv_id v = i
              | None \<Rightarrow> http st' = http ?st
                  \<and> (\<exists>v. find_inv i st' = Some v \<and> inv_status v \<in> {WaitingForLocalApproval, Rejected})))" .
  moreover have "find_existing (route_options None ?body) None ?st = None"
    by (simp add: find_existing_def split: option.split)
  ultimately show ?thesis by (simp split: prod.splits option.splits)
qed

section \<open>Projects and worktrees of the request\<close>

lemma access_owned:
  assumes "actorCanAccessProject (Some ac) pid st" and "truthy pid"
  obtains p where "List.find (\<lambda>p. JStr (pr_id p) = pid) (projects st) = Some p" and "Some (teamOf p) = ac_teamId ac"
  using assms by (auto simp: actorCanAccessProject_def split: option.splits)

text \<open>What an accepted request names is the actor's own: a project it names exists, belongs to the
  actor's team and is the one the run is charged to; a worktree it runs in belongs to a project of that
  team.  (Worktree ids carry no blanks around them.)\<close>

theorem request_scope_owned:
  assumes "denyForeignInvocationScope (Some ac) (body_metadata body) st = None"
    and "list_all (\<lambda>w. js_trim (wt_id w) = wt_id w) (worktrees st)"
  shows "(if truthy (jget (body_metadata body) ''projectId'')
          then (\<exists>p. visible_project (Some ac) (route_options header body) st = Some p
                 \<and> JStr (pr_id p) = jget (body_metadata body) ''projectId'' \<and> Some (teamOf p) = ac_teamId ac)
          else True)
    \<and> (case requested_worktree (route_options header body) st of
          None \<Rightarrow> True
        | Some w \<Rightarrow>
            (case coalesce_opt (wt_workspaceProjectId w) (wt_projectId w) of
               None \<Rightarrow> True
             | Some pid \<Rightarrow> pid = [] \<or> list_ex (\<lambda>p. pr_id p = pid \<and> Some (teamOf p) = ac_teamId ac) (projects st)))"
proof (rule conjI)
  let ?m = "body_metadata body"
  have acc: "actorCanAccessProject (Some ac) (jget ?m ''projectId'') st"
    using assms(1) by (auto simp: denyForeignInvocationScope_def split: if_splits)
  show "if truthy (jget ?m ''projectId'')
      then (\<exists>p. visible_project (Some ac) (route_options header body) st = Some p
             \<and> JStr (pr_id p) = jget ?m ''projectId'' \<and> Some (teamOf p) = ac_teamId ac)
      else True"
  proof (cases "truthy (jget ?m ''projectId'')")
    case True
    from access_owned [OF acc True] obtain p where
      p: "List.find (\<lambda>p. JStr (pr_id p) = jget ?m ''projectId'') (projects st) = Some p" "Some (teamOf p) = ac_teamId ac" .
    have "findProjectForActor (Some ac) (jget ?m ''projectId'') st = Some p"
      using True p by (simp add: findProjectForActor_def actor_team_def)
    with True have "visible_project (Some ac) (route_options header body) st = Some p"
      by (simp add: visible_project_def route_metadata)
    with p find_SomeD [OF p(1)] True show ?thesis by auto
  qed simp
  show "case requested_worktree (route_options header body) st of
          None \<Rightarrow> True
        | Some w \<Rightarrow>
            (case coalesce_opt (wt_workspaceProjectId w) (wt_projectId w) of
               None \<Rightarrow> True
             | Some pid \<Rightarrow> pid = [] \<or> list_ex (\<lambda>p. pr_id p = pid \<and> Some (teamOf p) = ac_teamId ac) (projects st))"
  proof (cases "requested_worktree (route_options header body) st")
    case (Some w)
    let ?wid = "jget ?m ''worktreeId''"
    from Some have find: "List.find (\<lambda>x. JStr (wt_id x) = ?wid) (worktrees st) = Some w" and t: "truthy ?wid"
      by (auto simp: requested_worktree_def route_metadata Let_def split: if_splits)
    from find_SomeD [OF find] have w: "w \<in> set (worktrees st)" "?wid = JStr (wt_id w)" by auto
    have trim: "js_trim (wt_id w) = wt_id w" using assms(2) w(1) by (simp add: list_all_iff)
    have "List.find (\<lambda>x. wt_id x = wt_id w) (worktrees st) = Some w"
      using find unfolding w(2) by simp
    with assms(1) w(2) trim t acc
    have ok: "actorCanAccessProject (Some ac) (jstr (coalesce_opt (wt_workspaceProjectId w) (wt_projectId w))) st"
      by (auto simp: denyForeignInvocationScope_def split: if_splits)
    show ?thesis
    proof (cases "coalesce_opt (wt_workspaceProjectId w) (wt_projectId w)")
      case pid: (Some pid)
      show ?thesis
      proof (cases "pid = []")
        case False
        with ok pid obtain p where "List.find (\<lambda>p. JStr (pr_id p) = JStr pid) (projects st) = Some p"
          "Some (teamOf p) = ac_teamId ac" by (auto elim!: access_owned)
        with find_SomeD [OF this(1)] show ?thesis using Some pid by (auto simp: list_ex_iff)
      qed (use Some pid in simp)
    qed (use Some in simp)
  qed simp
qed

theorem request_scope_owned_witness:
  "case requested_worktree (route_options None (JObj [])) (demo_server_with demo_tables []) of
     None \<Rightarrow> True
   | Some w \<Rightarrow> (case coalesce_opt (wt_workspaceProjectId w) (wt_projectId w) of None \<Rightarrow> True
       | Some pid \<Rightarrow> pid = [] \<or> list_ex (\<lambda>p. pr_id p = pid \<and> Some (teamOf p) = None)
           (projects (demo_server_with demo_tables [])))"
proof -
  let ?st = "demo_server_with demo_tables []" and ?ac = "\<lparr>ac_userId = None, ac_teamId = None, ac_role = ''owner''\<rparr>"
  have "jget (body_metadata (JObj [])) k = JNull" for k
    by (simp add: body_metadata_def body_options_def stripReservedInvocationMetadata_def when_set_def)
  then have ok: "denyForeignInvocationScope (Some ?ac) (body_metadata (JObj [])) ?st = None"
    by (simp add: denyForeignInvocationScope_def actorCanAccessProject_def)
  have "list_all (\<lambda>w. js_trim (wt_id w) = wt_id w) (worktrees ?st)" by (simp add: demo_server_def)
  from conjunct2 [OF request_scope_owned [OF ok this, where header = None]] show ?thesis
    unfolding actor.select_convs .
qed

text \<open>A client can switch off its own budget hold: the metadata key \<open>autoRunId\<close> is not reserved, it
  reaches the creation as sent, and with any value in it the hold gate places no hold and refuses nothing,
  whatever the budget.\<close>

theorem client_skips_hold:
  "let x = jget (jget (body_options body) ''metadata'') ''autoRunId''
   in jget (requested_metadata (route_options header body)) ''autoRunId'' = x
      \<and> (if truthy x then hold_gate t i (route_options header body) actor g st = (g, st) else True)"
proof -
  let ?m = "jget (body_options body) ''metadata''"
  have "jget (stripReservedInvocationMetadata ?m) ''autoRunId'' = jget ?m ''autoRunId''"
  proof (cases "is_obj ?m")
    case True
    then show ?thesis
      by (simp add: stripReservedInvocationMetadata_def jget_fold_jdel RESERVED_INVOCATION_METADATA_KEYS_def)
  next
    case False
    then show ?thesis by (cases ?m) (simp_all add: stripReservedInvocationMetadata_def)
  qed
  then have "jget (requested_metadata (route_options header body)) ''autoRunId'' = jget ?m ''autoRunId''"
    by (simp add: route_metadata body_metadata_def Let_def jget_when_set)
  then show ?thesis by (auto simp: hold_gate_def Let_def)
qed

text \<open>A request that names neither project nor worktree passes the guard and runs in the console's
  current project, whoever owns it: the team of the actor is not consulted.\<close>

theorem unnamed_project_unscoped:
  "let m = body_metadata body
   in if truthy (jget m ''projectId'') \<or> truthy (jget m ''worktreeId'') then True
      else visible_project actor (route_options header body) st = currentProject st
        \<and> (if jget m ''worktreeId'' = JNull then denyForeignInvocationScope actor m st = None else True)"
proof -
  let ?m = "body_metadata body"
  have "visible_project actor (route_options header body) st = currentProject st"
    "jget ?m ''worktreeId'' = JNull \<Longrightarrow> denyForeignInvocationScope actor ?m st = None"
    if "\<not> truthy (jget ?m ''projectId'')" "\<not> truthy (jget ?m ''worktreeId'')"
    using that by (simp_all add: visible_project_def requested_worktree_def route_metadata
        denyForeignInvocationScope_def actorCanAccessProject_def)
  then show ?thesis unfolding Let_def if_bool_eq_conj by blast
qed

end
