(* ===== verification/Dispatch.thy ===== *)
theory Dispatch
  imports Completion
begin

text \<open>
  The bridge queue: services/invocations/dispatch-eligibility.mjs (which invocation may go to the
  device now), dispatch-fairness.mjs (which of them goes next), agent-failover.mjs and dispatch.mjs
  (claim, acknowledgement, expiry of a claim, reclaim of lost work).  The clock of one call is \<open>t\<close>;
  \<open>date_key\<close> is the calendar date of an instant, \<open>leases\<close> the worktree leases of
  \<open>isWorktreeReactionBusy\<close> in runtime/service-composer.mjs.
\<close>

section \<open>Eligibility\<close>

definition INFLIGHT_STATUSES :: "inv_status set" where
  "INFLIGHT_STATUSES = {Dispatching, Running, Cancelling}"

datatype dispatch_reason = Dispatchable | NotQueued | DirBusy | AgentMissing | WrongDevice
  | AgentDisabled | AgentUnhealthy

definition invocationDirKey :: "invocation \<Rightarrow> json" where
  "invocationDirKey v =
     truthy_or (jget (inv_metadata v) ''worktreePath'')
       (truthy_or (jget (inv_metadata v) ''projectPath'') (JStr ''__default__''))"

definition belongsToThisBridge :: "invocation \<Rightarrow> agent option \<Rightarrow> string \<Rightarrow> bool" where
  "belongsToThisBridge v a dev \<longleftrightarrow>
     coalesce_opt (del_deviceId (inv_delivery v))
       (case a of None \<Rightarrow> None
        | Some x \<Rightarrow> if is_local_device x then loc_deviceId (ag_location x) else None) = Some dev"

definition isBridgeExecuted :: "'w server \<Rightarrow> string \<Rightarrow> invocation \<Rightarrow> bool" where
  "isBridgeExecuted st dev v =
     (case findAgent (inv_agentId v) st of
        None \<Rightarrow> True
      | Some a \<Rightarrow>
          if \<not> is_local_device a then False
          else if \<not> belongsToThisBridge v (Some a) dev then False
          else if ad_type (ag_adapter a) = ''mcp'' then ad_transport (ag_adapter a) \<noteq> Some ''http''
          else ad_type (ag_adapter a) \<in> {''cli'', ''container''})"

definition classifyDispatchEligibility ::
    "invocation \<Rightarrow> agent option \<Rightarrow> bool \<Rightarrow> bool \<Rightarrow> dispatch_reason" where
  "classifyDispatchEligibility v agent dirBusy onThisBridge =
     (if inv_status v \<noteq> Queued \<or> del_state (inv_delivery v) \<notin> {DQueued, DRedelivering} then NotQueued
      else if dirBusy then DirBusy
      else case agent of
        None \<Rightarrow> AgentMissing
      | Some a \<Rightarrow>
          if is_local_device a \<and> \<not> onThisBridge then WrongDevice
          else if isAgentDisabled a then AgentDisabled
          else if ag_health a = Some ''unhealthy'' then AgentUnhealthy
          else Dispatchable)"

section \<open>Fair selection\<close>

definition invocationProjectId :: "invocation \<Rightarrow> json" where
  "invocationProjectId v =
     nullish_or (jstr (inv_projectId v))
       (nullish_or (jget (inv_metadata v) ''projectId'')
         (jget (jget (inv_input v) ''metadata'') ''projectId''))"

definition invocationProjectKey :: "invocation \<Rightarrow> json" where
  "invocationProjectKey v = nullish_or (invocationProjectId v) (JStr ''__no_project__'')"

definition requester_team :: "invocation \<Rightarrow> 'w server \<Rightarrow> string" where
  "requester_team v st =
     coalesce (Option.bind (List.find (\<lambda>u. us_id u = inv_requestedBy v) (users st)) us_teamId) ''team_local''"

definition invocationTeamKey :: "invocation \<Rightarrow> 'w server \<Rightarrow> string" where
  "invocationTeamKey v st =
     (let p = invocationProjectId v
      in if truthy p
         then (case List.find (\<lambda>x. JStr (pr_id x) = p) (projects st) of
                 Some x \<Rightarrow> coalesce (pr_ownerTeamId x) ''team_local''
               | None \<Rightarrow> requester_team v st)
         else requester_team v st)"

type_synonym level = "(invocation \<Rightarrow> json) \<times> (json \<Rightarrow> int)"

fun max_of :: "int list \<Rightarrow> int" where
  "max_of [] = 0"
| "max_of [x] = x"
| "max_of (x # xs) = max x (max_of xs)"

record group =
  gr_load :: int
  gr_oldest :: int
  gr_members :: "(invocation \<times> nat) list"

definition groups_of :: "level \<Rightarrow> (invocation \<Rightarrow> int) \<Rightarrow> (invocation \<times> nat) list \<Rightarrow> group list" where
  "groups_of l age pool =
     map (\<lambda>k. (let members = filter (\<lambda>e. fst l (fst e) = k) pool
               in \<lparr>gr_load = snd l k, gr_oldest = max_of (map (age \<circ> fst) members),
                   gr_members = members\<rparr>))
       (first_keys (map (fst l \<circ> fst) pool))"

definition better :: "group \<Rightarrow> group \<Rightarrow> bool" where
  "better g b \<longleftrightarrow> gr_load g < gr_load b \<or> gr_load g = gr_load b \<and> gr_oldest b < gr_oldest g"

fun best_group :: "group list \<Rightarrow> group option \<Rightarrow> group option" where
  "best_group [] best = best"
| "best_group (g # gs) best =
     best_group gs (case best of None \<Rightarrow> Some g | Some b \<Rightarrow> if better g b then Some g else Some b)"

fun descend :: "level list \<Rightarrow> (invocation \<Rightarrow> int) \<Rightarrow> (invocation \<times> nat) list \<Rightarrow> (invocation \<times> nat) list" where
  "descend [] age pool = pool"
| "descend (l # ls) age pool =
     descend ls age (case best_group (groups_of l age pool) None of None \<Rightarrow> [] | Some g \<Rightarrow> gr_members g)"

definition leaf_le :: "(invocation \<Rightarrow> int) \<Rightarrow> invocation \<times> nat \<Rightarrow> invocation \<times> nat \<Rightarrow> bool" where
  "leaf_le age = key_then (\<lambda>e. - age (fst e)) (\<lambda>a b. snd a \<le> snd b)"

definition selectFairInvocation ::
    "invocation list \<Rightarrow> level list \<Rightarrow> (invocation \<Rightarrow> int) \<Rightarrow> invocation option" where
  "selectFairInvocation candidates levels age =
     (case sort_by (leaf_le age) (descend levels age (zip candidates [0..<length candidates])) of
        [] \<Rightarrow> None
      | e # _ \<Rightarrow> Some (fst e))"

section \<open>Failover\<close>

definition FAILOVER_INFRA_CODES :: "string list" where
  "FAILOVER_INFRA_CODES = [''dispatch_timeout'', ''orphaned'', ''stuck'']"

definition MAX_FAILOVERS :: nat where "MAX_FAILOVERS = 2"

definition local_deviceId :: "agent \<Rightarrow> string option" where
  "local_deviceId a = (if is_local_device a then loc_deviceId (ag_location a) else None)"

definition selectFailoverAgent ::
    "agent list \<Rightarrow> agent option \<Rightarrow> string option list \<Rightarrow> agent option" where
  "selectFailoverAgent as failed excludeIds =
     (case failed of
        None \<Rightarrow> None
      | Some f \<Rightarrow>
          (case local_deviceId f of
             None \<Rightarrow> None
           | Some dev \<Rightarrow>
               List.find (\<lambda>a. ag_id a \<noteq> [] \<and> Some (ag_id a) \<notin> set excludeIds
                 \<and> is_local_device a \<and> loc_deviceId (ag_location a) = Some dev
                 \<and> ad_type (ag_adapter a) = ad_type (ag_adapter f)
                 \<and> \<not> isAgentDisabled a \<and> ag_health a \<noteq> Some ''unhealthy'') as))"

section \<open>Dispatch priority\<close>

definition isWorktreeReactionBusy :: "(string \<times> string) list \<Rightarrow> invocation \<Rightarrow> bool" where
  "isWorktreeReactionBusy leases v =
     (case jget (inv_metadata v) ''worktreeId'' of
        JStr w \<Rightarrow> if w = [] then False
                  else (case map_of leases w of
                          None \<Rightarrow> False
                        | Some owner \<Rightarrow> owner \<noteq> [] \<and> owner \<noteq> inv_id v)
      | _ \<Rightarrow> False)"

text \<open>A binding without a target is \<open>undefined\<close> in the code, never equal to the \<open>null\<close> of a run
  without an auto-run.\<close>

definition binds :: "invocation \<Rightarrow> exec_binding \<Rightarrow> bool" where
  "binds v b \<longleftrightarrow>
     (let run = jstr_opt (jget (inv_metadata v) ''autoRunId'')
      in eb_kind b = ''auto_run'' \<and> run \<noteq> None \<and> eb_targetId b = run
         \<or> eb_kind b = ''application_invocation''
            \<and> (eb_id b = Some (inv_id v) \<or> eb_targetId b = Some (inv_id v)))"

definition boundWorkItem :: "invocation \<Rightarrow> 'w server \<Rightarrow> work_item option" where
  "boundWorkItem v st = List.find (\<lambda>w. list_ex (binds v) (wi_executionBindings w)) (work_items st)"

text \<open>The literal \<open>{ priority: "p2" }\<close>.\<close>

definition plain_p2 :: work_item where
  "plain_p2 = \<lparr>wi_id = [], wi_projectId = None, wi_priority = Some ''p2'', wi_state = None,
     wi_status = None, wi_archived = False, wi_waitingOn = None, wi_executionState = None,
     wi_operationStatus = None, wi_executionPolicy = None, wi_dependencyIds = [], wi_dueDate = None,
     wi_commitmentDate = None, wi_plannedDate = None, wi_notBefore = None, wi_createdAt = None,
     wi_updatedAt = None, wi_workGoalId = None, wi_consumes = [], wi_produces = [],
     wi_handoffs = [], wi_executionBindings = []\<rparr>"

definition dispatchPriority :: "(instant \<Rightarrow> int) \<Rightarrow> instant \<Rightarrow> 'w server \<Rightarrow> invocation \<Rightarrow> int" where
  "dispatchPriority date_key t st v =
     autoExecutionDispatchScore (coalesce (boundWorkItem v st) plain_p2) (date_key t)"

section \<open>Reclaiming lost work\<close>

definition cancelGraceMs :: "int \<Rightarrow> int" where
  "cancelGraceMs lease = max 60000 (lease * 2)"

definition stuck_body :: completion where
  "stuck_body = \<lparr>bd_status = Some ''cancelled'',
     bd_summary = Some ''Cancellation reclaimed after grace - the bridge did not confirm completion.'',
     bd_result = JNull, bd_cost = JNull\<rparr>"

definition is_stuck :: "int \<Rightarrow> instant \<Rightarrow> invocation \<Rightarrow> bool" where
  "is_stuck lease t v \<longleftrightarrow> inv_status v = Cancelling
     \<and> coalesce (can_requestedAt (inv_cancellation v)) (inv_updatedAt v) \<le> t - cancelGraceMs lease"

definition reclaim_stuck :: "'w hooks \<Rightarrow> int \<Rightarrow> instant \<Rightarrow> string \<Rightarrow> 'w server \<Rightarrow> 'w server" where
  "reclaim_stuck hk lease t i st =
     (case find_inv i st of
        None \<Rightarrow> st
      | Some v \<Rightarrow> if is_stuck lease t v then completeInvocation hk t i stuck_body st else st)"

definition all_ids :: "'a core_scheme \<Rightarrow> string list" where
  "all_ids st = map inv_id (invocations st)"

definition reclaimStuckCancellations :: "'w hooks \<Rightarrow> int \<Rightarrow> instant \<Rightarrow> 'w server \<Rightarrow> 'w server" where
  "reclaimStuckCancellations hk lease t st = fold (reclaim_stuck hk lease t) (all_ids st) st"

definition superseded_body :: "supersession \<Rightarrow> invocation \<Rightarrow> completion" where
  "superseded_body s v =
     (if sup_terminalStatus s = Some ''cancelled'' \<or> inv_status v = Cancelling
      then \<lparr>bd_status = Some ''cancelled'',
            bd_summary = Some ''Cancellation completed while the superseded Desktop Bridge executor tree drained.'',
            bd_result = JNull, bd_cost = JNull\<rparr>
      else \<lparr>bd_status = Some ''failed'',
            bd_summary = Some ''Desktop Bridge process restarted before this invocation reported completion.'',
            bd_result = JObj [(''errorCode'', JStr (coalesce (sup_errorCode s) ''transport_closed''))],
            bd_cost = JNull\<rparr>)"

definition drop_supersession :: "invocation \<Rightarrow> invocation" where
  "drop_supersession v = v\<lparr>inv_delivery := (inv_delivery v)\<lparr>del_supersession := None\<rparr>\<rparr>"

definition reclaim_superseded :: "'w hooks \<Rightarrow> instant \<Rightarrow> string \<Rightarrow> 'w server \<Rightarrow> 'w server" where
  "reclaim_superseded hk t i st =
     (case find_inv i st of
        None \<Rightarrow> st
      | Some v \<Rightarrow>
          (case del_supersession (inv_delivery v) of
             None \<Rightarrow> st
           | Some s \<Rightarrow>
               if inv_status v \<notin> INFLIGHT_STATUSES then st
               else if (case sup_completeAfter s of None \<Rightarrow> False | Some c \<Rightarrow> t < c) then st
               else completeInvocation hk t i (superseded_body s v) (upd_inv i drop_supersession st)))"

definition reclaimSupersededBridgeSessions :: "'w hooks \<Rightarrow> instant \<Rightarrow> 'w server \<Rightarrow> 'w server" where
  "reclaimSupersededBridgeSessions hk t st = fold (reclaim_superseded hk t) (all_ids st) st"

section \<open>nextDispatchableInvocation\<close>

definition dev_id :: "'w server \<Rightarrow> string" where
  "dev_id st = dv_id (device st)"

definition max_concurrency :: "'w server \<Rightarrow> nat" where
  "max_concurrency st = (let m = coalesce (dv_maxConcurrency (device st)) 0 in if m = 0 then 1 else m)"

definition in_flight :: "'w server \<Rightarrow> invocation list" where
  "in_flight st =
     filter (\<lambda>v. inv_status v \<in> INFLIGHT_STATUSES \<and> isBridgeExecuted st (dev_id st) v) (invocations st)"

definition dispatch_reason_of :: "(string \<times> string) list \<Rightarrow> 'w server \<Rightarrow> invocation \<Rightarrow> dispatch_reason" where
  "dispatch_reason_of leases st v =
     (let a = findAgent (inv_agentId v) st
      in classifyDispatchEligibility v a
           (invocationDirKey v \<in> set (map invocationDirKey (in_flight st)) \<or> isWorktreeReactionBusy leases v)
           (a \<noteq> None \<and> belongsToThisBridge v a (dev_id st)))"

definition isInvocationDispatchable :: "(string \<times> string) list \<Rightarrow> 'w server \<Rightarrow> invocation \<Rightarrow> bool" where
  "isInvocationDispatchable leases st v \<longleftrightarrow>
     isBridgeExecuted st (dev_id st) v \<and> length (in_flight st) < max_concurrency st
     \<and> dispatch_reason_of leases st v = Dispatchable"

definition dispatchable :: "(string \<times> string) list \<Rightarrow> 'w server \<Rightarrow> invocation list" where
  "dispatchable leases st =
     filter (\<lambda>v. isBridgeExecuted st (dev_id st) v \<and> dispatch_reason_of leases st v = Dispatchable)
       (invocations st)"

definition count_key :: "('a \<Rightarrow> json) \<Rightarrow> 'a list \<Rightarrow> json \<Rightarrow> int" where
  "count_key key xs k = int (length (filter (\<lambda>x. key x = k) xs))"

definition team_json :: "'w server \<Rightarrow> invocation \<Rightarrow> json" where
  "team_json st v = JStr (invocationTeamKey v st)"

fun num_of :: "json \<Rightarrow> int" where
  "num_of (JNum n) = n"
| "num_of v = 0"

definition dispatch_levels :: "(instant \<Rightarrow> int) \<Rightarrow> instant \<Rightarrow> 'w server \<Rightarrow> level list" where
  "dispatch_levels date_key t st =
     [(\<lambda>v. JNum (dispatchPriority date_key t st v), num_of),
      (team_json st, count_key (team_json st) (in_flight st)),
      (invocationProjectKey, count_key invocationProjectKey (in_flight st))]"

definition waited :: "instant \<Rightarrow> invocation \<Rightarrow> int" where
  "waited t v = max 0 (t - inv_createdAt v)"

definition select_next ::
    "(instant \<Rightarrow> int) \<Rightarrow> (string \<times> string) list \<Rightarrow> instant \<Rightarrow> 'w server \<Rightarrow> invocation option" where
  "select_next date_key leases t st =
     (if max_concurrency st \<le> length (in_flight st) then None
      else selectFairInvocation (dispatchable leases st) (dispatch_levels date_key t st) (waited t))"

definition nextDispatchableInvocation ::
    "'w hooks \<Rightarrow> (instant \<Rightarrow> int) \<Rightarrow> (string \<times> string) list \<Rightarrow> int \<Rightarrow> instant \<Rightarrow> 'w server
     \<Rightarrow> string option \<times> 'w server" where
  "nextDispatchableInvocation hk date_key leases lease t st =
     (let st1 = reclaimStuckCancellations hk lease t (reclaimSupersededBridgeSessions hk t st)
      in (map_option inv_id (select_next date_key leases t st1), st1))"

section \<open>Claim, acknowledgement, expiry\<close>

definition dispatched_row :: "int \<Rightarrow> instant \<Rightarrow> string \<Rightarrow> string option \<Rightarrow> invocation \<Rightarrow> invocation" where
  "dispatched_row lease t dev session v =
     (let d = inv_delivery v; n = del_attempts d + 1
      in v\<lparr>inv_status := Dispatching,
           inv_delivery := d\<lparr>del_state := DDispatching,
             del_deviceId := coalesce_opt (del_deviceId d) (Some dev),
             del_bridgeSessionId := session, del_attempts := n, del_lastDispatchAt := Some t,
             del_leaseExpiresAt := Some (t + lease),
             del_bridgeCursor := Some (''cursor_'' @ show_nat n @ ''_'' @ inv_id v)\<rparr>,
           inv_updatedAt := t\<rparr>)"

definition markDispatched :: "int \<Rightarrow> instant \<Rightarrow> string \<Rightarrow> 'w server \<Rightarrow> 'w server" where
  "markDispatched lease t i st =
     (case find_inv i st of
        None \<Rightarrow> st
      | Some v \<Rightarrow>
          (let v' = dispatched_row lease t (dev_id st) (dv_bridgeSessionId (device st)) v;
               n = del_attempts (inv_delivery v')
           in append_event t
                (mk_ev (Some i) (if 1 < n then ''delivery_redelivered'' else ''delivery_dispatched'') ''info''
                  (if 1 < n then ''Invocation redelivered to Desktop Bridge.''
                   else ''Invocation dispatched to Desktop Bridge.'')
                  (JObj [(''dispatchAttempts'', JNum (int n)), (''leaseExpiresAt'', JNum (t + lease)),
                         (''bridgeCursor'', jstr (del_bridgeCursor (inv_delivery v')))]))
                (upd_inv i (dispatched_row lease t (dev_id st) (dv_bridgeSessionId (device st))) st)))"

definition acknowledged_row :: "instant \<Rightarrow> invocation \<Rightarrow> invocation" where
  "acknowledged_row t v =
     v\<lparr>inv_status := Running,
       inv_delivery := (inv_delivery v)\<lparr>del_state := DAcknowledged, del_acknowledgedAt := Some t,
         del_leaseExpiresAt := None\<rparr>,
       inv_updatedAt := t\<rparr>"

text \<open>\<open>agent?.name || "Agent"\<close>\<close>

definition agent_label :: "agent option \<Rightarrow> string" where
  "agent_label a = (case a of None \<Rightarrow> ''Agent'' | Some x \<Rightarrow> if ag_name x = [] then ''Agent'' else ag_name x)"

definition acknowledgeInvocation :: "instant \<Rightarrow> string \<Rightarrow> 'w server \<Rightarrow> 'w server" where
  "acknowledgeInvocation t i st =
     (case find_inv i st of
        None \<Rightarrow> st
      | Some v \<Rightarrow>
          if del_state (inv_delivery v) = DAcknowledged \<or> inv_status v = Running then st
          else append_events t
            [mk_ev (Some i) ''delivery_acknowledged'' ''info'' ''Desktop Bridge acknowledged durable receipt.'' JNull,
             mk_ev (Some i) ''invocation_started'' ''info''
               (agent_label (findAgent (inv_agentId v) st) @ '' started.'') JNull]
            (upd_inv i (acknowledged_row t) st))"

definition MAX_DISPATCH_ATTEMPTS :: nat where "MAX_DISPATCH_ATTEMPTS = 5"

definition lease_expired :: "instant \<Rightarrow> invocation \<Rightarrow> bool" where
  "lease_expired t v \<longleftrightarrow> inv_status v = Dispatching \<and> del_state (inv_delivery v) = DDispatching
     \<and> (case del_leaseExpiresAt (inv_delivery v) of None \<Rightarrow> False | Some e \<Rightarrow> e \<le> t)"

definition exhausted_body :: "nat \<Rightarrow> completion" where
  "exhausted_body n = \<lparr>bd_status = Some ''failed'', bd_summary = None,
     bd_result = JObj [(''summary'', JStr (''Delivery exhausted: the bridge leased this run '' @ show_nat n
                          @ '' times without acknowledging it.'')),
                       (''errorCode'', JStr ''dispatch_timeout'')],
     bd_cost = JNull\<rparr>"

definition exhausted_row :: "invocation \<Rightarrow> invocation" where
  "exhausted_row v = v\<lparr>inv_delivery := (inv_delivery v)\<lparr>del_state := DExhausted\<rparr>\<rparr>"

definition redelivering_row :: "instant \<Rightarrow> invocation \<Rightarrow> invocation" where
  "redelivering_row t v =
     v\<lparr>inv_status := Queued, inv_delivery := (inv_delivery v)\<lparr>del_state := DRedelivering\<rparr>,
       inv_updatedAt := t\<rparr>"

definition redeliver_one :: "'w hooks \<Rightarrow> instant \<Rightarrow> string \<Rightarrow> 'w server \<Rightarrow> 'w server" where
  "redeliver_one hk t i st =
     (case find_inv i st of
        None \<Rightarrow> st
      | Some v \<Rightarrow>
          (let n = del_attempts (inv_delivery v)
           in if \<not> lease_expired t v then st
              else if MAX_DISPATCH_ATTEMPTS \<le> n
              then completeInvocation hk t i (exhausted_body n)
                     (append_event t
                       (mk_ev (Some i) ''delivery_exhausted'' ''warn''
                         (''Delivery exhausted after '' @ show_nat n @ '' dispatch attempts without acknowledgement.'')
                         (JObj [(''dispatchAttempts'', JNum (int n)),
                                (''maxDispatchAttempts'', JNum (int MAX_DISPATCH_ATTEMPTS))]))
                       (upd_inv i exhausted_row st))
              else append_event t
                     (mk_ev (Some i) ''delivery_redelivered'' ''warn''
                       ''Dispatch lease expired; invocation returned to queue for redelivery.''
                       (JObj [(''dispatchAttempts'', JNum (int n))]))
                     (upd_inv i (redelivering_row t) st)))"

definition redeliverExpiredDispatches :: "'w hooks \<Rightarrow> instant \<Rightarrow> 'w server \<Rightarrow> 'w server" where
  "redeliverExpiredDispatches hk t st =
     (let st1 = reclaimSupersededBridgeSessions hk t st
      in fold (redeliver_one hk t) (all_ids st1) st1)"

section \<open>The selection is fair\<close>

text \<open>What a fair choice is, independently of how it is computed: at each level the chosen row's group
  has the least load, and within its group the choice is fair for the remaining levels; at the end
  nobody in the same groups has waited longer.\<close>

fun fair_over :: "level list \<Rightarrow> (invocation \<Rightarrow> int) \<Rightarrow> invocation \<Rightarrow> invocation list \<Rightarrow> bool" where
  "fair_over [] age c pool = list_all (\<lambda>x. age x \<le> age c) pool"
| "fair_over ((key, load) # ls) age c pool =
     (list_all (\<lambda>x. load (key c) \<le> load (key x)) pool
      \<and> fair_over ls age c (filter (\<lambda>x. key x = key c) pool))"

lemma not_better_trans: "\<not> better a b \<Longrightarrow> \<not> better b c \<Longrightarrow> \<not> better a c"
  by (auto simp: better_def)

lemma better_asym: "better a b \<Longrightarrow> \<not> better b a"
  by (auto simp: better_def)

lemma best_group_Some:
  "best_group gs (Some b) = Some g \<Longrightarrow>
   (g = b \<or> g \<in> set gs) \<and> \<not> better b g \<and> (\<forall>h \<in> set gs. \<not> better h g)"
proof (induction gs arbitrary: b)
  case Nil
  then show ?case by (simp add: better_def)
next
  case (Cons h gs)
  show ?case
  proof (cases "better h b")
    case True
    with Cons.prems have "best_group gs (Some h) = Some g" by simp
    from Cons.IH [OF this] not_better_trans [OF better_asym [OF True], of g] show ?thesis by auto
  next
    case False
    with Cons.prems have "best_group gs (Some b) = Some g" by simp
    from Cons.IH [OF this] not_better_trans [OF False, of g] show ?thesis by auto
  qed
qed

lemma best_group_exists: "\<exists>g. best_group gs (Some b) = Some g"
  by (induction gs arbitrary: b) auto

lemma best_group_None:
  assumes "gs \<noteq> []"
  shows "\<exists>g \<in> set gs. best_group gs None = Some g \<and> (\<forall>h \<in> set gs. \<not> better h g)"
proof -
  obtain h hs where gs: "gs = h # hs" using assms by (cases gs) auto
  obtain g where g: "best_group hs (Some h) = Some g" using best_group_exists by blast
  from best_group_Some [OF g] gs g show ?thesis by auto
qed

lemma level_step:
  assumes "pool \<noteq> []"
  shows "\<exists>e \<in> set pool. (\<exists>g. best_group (groups_of l age pool) None = Some g
            \<and> gr_members g = filter (\<lambda>x. fst l (fst x) = fst l (fst e)) pool)
          \<and> (\<forall>x \<in> set pool. snd l (fst l (fst e)) \<le> snd l (fst l (fst x)))"
proof -
  let ?mk = "\<lambda>k. (let members = filter (\<lambda>e. fst l (fst e) = k) pool
                 in \<lparr>gr_load = snd l k, gr_oldest = max_of (map (age \<circ> fst) members), gr_members = members\<rparr>)"
  have gs: "groups_of l age pool = map ?mk (first_keys (map (fst l \<circ> fst) pool))"
    by (simp add: groups_of_def)
  have "map (fst l \<circ> fst) pool \<noteq> []" using assms by simp
  then have "first_keys (map (fst l \<circ> fst) pool) \<noteq> []"
    by (metis set_first_keys set_empty)
  then have "groups_of l age pool \<noteq> []" by (simp add: gs)
  from best_group_None [OF this] obtain g
    where g: "g \<in> set (groups_of l age pool)" "best_group (groups_of l age pool) None = Some g"
      and min: "\<forall>h \<in> set (groups_of l age pool). \<not> better h g" by blast
  from g(1) obtain e where e: "e \<in> set pool" "g = ?mk (fst l (fst e))"
    by (auto simp: gs)
  have "snd l (fst l (fst e)) \<le> snd l (fst l (fst x))" if "x \<in> set pool" for x
  proof -
    have "?mk (fst l (fst x)) \<in> set (groups_of l age pool)" using that by (auto simp: gs)
    with min have "\<not> better (?mk (fst l (fst x))) g" by blast
    then show ?thesis by (auto simp: better_def e(2) Let_def)
  qed
  with e g(2) show ?thesis by (auto simp: Let_def)
qed

lemma descend_fair:
  assumes "pool \<noteq> []" and "e \<in> set (descend ls age pool)"
    and "\<forall>x \<in> set (descend ls age pool). age (fst x) \<le> age (fst e)"
  shows "e \<in> set pool \<and> fair_over ls age (fst e) (map fst pool)"
  using assms
proof (induction ls arbitrary: pool)
  case Nil
  then show ?case by (simp add: list_all_iff)
next
  case (Cons l ls)
  obtain key load where l: "l = (key, load)" by fastforce
  from level_step [OF Cons.prems(1), of l age] obtain e0 g
    where e0: "e0 \<in> set pool" "best_group (groups_of l age pool) None = Some g"
      and mem: "gr_members g = filter (\<lambda>x. key (fst x) = key (fst e0)) pool"
      and min: "\<forall>x \<in> set pool. load (key (fst e0)) \<le> load (key (fst x))"
    by (auto simp: l)
  let ?sub = "filter (\<lambda>x. key (fst x) = key (fst e0)) pool"
  have "?sub \<noteq> []" using e0(1) by (auto simp: filter_empty_conv)
  from Cons.IH [OF this] Cons.prems(2,3) e0(2) mem
  have sub: "e \<in> set ?sub" "fair_over ls age (fst e) (map fst ?sub)" by auto
  then have k: "key (fst e) = key (fst e0)" by simp
  have "filter (\<lambda>x. key x = key (fst e)) (map fst pool) = map fst ?sub"
    by (simp add: k filter_map comp_def)
  with sub min k show ?case by (auto simp: l list_all_iff)
qed

lemma descend_nonempty: "pool \<noteq> [] \<Longrightarrow> descend ls age pool \<noteq> []"
proof (induction ls arbitrary: pool)
  case Nil
  then show ?case by simp
next
  case (Cons l ls)
  from level_step [OF Cons.prems, of l age] obtain e0 g
    where "e0 \<in> set pool" "best_group (groups_of l age pool) None = Some g"
      "gr_members g = filter (\<lambda>x. fst l (fst x) = fst l (fst e0)) pool" by blast
  moreover from this(1) have "filter (\<lambda>x. fst l (fst x) = fst l (fst e0)) pool \<noteq> []"
    by (auto simp: filter_empty_conv)
  ultimately show ?case using Cons.IH by simp
qed

interpretation leaf_order: comparator "leaf_le age"
  unfolding leaf_le_def by (rule key_then_comparator) (unfold_locales, auto)

lemma select_fair:
  "(case selectFairInvocation cands levels age of
      None \<Rightarrow> cands = []
    | Some c \<Rightarrow> c \<in> set cands \<and> fair_over levels age c cands)"
proof (cases "cands = []")
  case True
  have "descend levels age [] = []" for levels
    by (induction levels) (simp_all add: groups_of_def first_keys_def)
  with True show ?thesis by (simp add: selectFairInvocation_def)
next
  case False
  let ?pool = "zip cands [0..<length cands]"
  have ne: "?pool \<noteq> []" using False by (cases cands) simp_all
  let ?s = "sort_by (leaf_le age) (descend levels age ?pool)"
  obtain e es where s: "?s = e # es"
    using descend_nonempty [OF ne, of levels age] by (cases ?s) auto
  have "e \<in> set ?s" using s by simp
  then have mem: "e \<in> set (descend levels age ?pool)" by simp
  have "age (fst x) \<le> age (fst e)" if "x \<in> set (descend levels age ?pool)" for x
    using leaf_order.hd_least [OF that, of age] s by (auto simp: leaf_le_def key_then_def)
  with descend_fair [OF ne mem] have "e \<in> set ?pool" "fair_over levels age (fst e) cands" by auto
  moreover from this(1) have "fst e \<in> set cands" by (metis prod.collapse set_zip_leftD)
  ultimately show ?thesis using s by (simp add: selectFairInvocation_def)
qed

text \<open>C5: the bridge gets a dispatchable invocation exactly when one exists and the device has a free
  slot; the one it gets has the least dispatch score (most urgent), among those the least loaded
  team, then the least loaded project, and nobody dispatchable in the same groups has waited longer.\<close>

theorem dispatch_selection_fair:
  "(case select_next date_key leases t st of
      None \<Rightarrow> max_concurrency st \<le> length (in_flight st) \<or> dispatchable leases st = []
    | Some c \<Rightarrow>
        length (in_flight st) < max_concurrency st \<and> c \<in> set (dispatchable leases st)
        \<and> list_all (\<lambda>x.
              dispatchPriority date_key t st c \<le> dispatchPriority date_key t st x
              \<and> (dispatchPriority date_key t st x \<noteq> dispatchPriority date_key t st c
                 \<or> count_key (team_json st) (in_flight st) (team_json st c)
                     \<le> count_key (team_json st) (in_flight st) (team_json st x)
                   \<and> (team_json st x \<noteq> team_json st c
                      \<or> count_key invocationProjectKey (in_flight st) (invocationProjectKey c)
                          \<le> count_key invocationProjectKey (in_flight st) (invocationProjectKey x)
                        \<and> (invocationProjectKey x \<noteq> invocationProjectKey c
                           \<or> waited t x \<le> waited t c))))
            (dispatchable leases st))"
proof -
  have fair: "fair_over (dispatch_levels date_key t st) (waited t) c (dispatchable leases st)
      \<Longrightarrow> ?thesis" if "select_next date_key leases t st = Some c"
      "length (in_flight st) < max_concurrency st" "c \<in> set (dispatchable leases st)" for c
    using that by (auto simp: dispatch_levels_def list_all_iff)
  show ?thesis
    using select_fair [of "dispatchable leases st" "dispatch_levels date_key t st" "waited t"] fair
    by (cases "max_concurrency st \<le> length (in_flight st)")
      (auto simp: select_next_def split: option.splits)
qed

section \<open>Slots and directories\<close>

lemma rows_upd:
  assumes "distinct (map inv_id vs)" and "map inv_id vs' = map inv_id vs"
    and "\<And>j. j \<noteq> i \<Longrightarrow> List.find (\<lambda>x. inv_id x = j) vs' = List.find (\<lambda>x. inv_id x = j) vs"
  shows "filter (\<lambda>v. inv_id v \<noteq> i) vs' = filter (\<lambda>v. inv_id v \<noteq> i) vs"
  using assms
proof (induction vs arbitrary: vs')
  case Nil
  then show ?case by simp
next
  case (Cons v vs)
  from Cons.prems(2) obtain w ws where vs': "vs' = w # ws" and id: "inv_id w = inv_id v"
    and ids: "map inv_id ws = map inv_id vs" by (cases vs') auto
  have wv: "w = v" if "inv_id v \<noteq> i"
    using Cons.prems(3) [of "inv_id v"] that vs' id by simp
  have "List.find (\<lambda>x. inv_id x = j) ws = List.find (\<lambda>x. inv_id x = j) vs" if "j \<noteq> i" for j
  proof (cases "j = inv_id v")
    case True
    have "j \<notin> inv_id ` set vs" using Cons.prems(1) True by simp
    moreover have "inv_id ` set ws = inv_id ` set vs" using ids by (metis list.set_map)
    ultimately have "j \<notin> inv_id ` set ws" by simp
    with \<open>j \<notin> inv_id ` set vs\<close> show ?thesis
      by (metis (mono_tags, lifting) find_None_ball image_eqI)
  next
    case False
    with Cons.prems(3) [OF that] vs' id show ?thesis by simp
  qed
  with Cons.IH [OF _ ids] Cons.prems(1) vs' id wv show ?case by auto
qed

lemma isBridgeExecuted_cong:
  "agents st' = agents st \<Longrightarrow> isBridgeExecuted st' dev v = isBridgeExecuted st dev v"
  by (simp add: isBridgeExecuted_def findAgent_def)

lemma isBridgeExecuted_row:
  "inv_agentId v' = inv_agentId v \<Longrightarrow> del_deviceId (inv_delivery v') = del_deviceId (inv_delivery v) \<Longrightarrow>
   isBridgeExecuted st dev v' = isBridgeExecuted st dev v"
  by (simp add: isBridgeExecuted_def belongsToThisBridge_def split: option.split)

text \<open>The invariant of the device: no more bridge-executed runs in flight than slots, and no two of
  them in the same directory.\<close>

definition slots_ok :: "'w server \<Rightarrow> bool" where
  "slots_ok st \<longleftrightarrow> distinct (map inv_id (invocations st))
     \<and> length (in_flight st) \<le> max_concurrency st
     \<and> distinct (map invocationDirKey (in_flight st))"

text \<open>An operation that only ends work: ids kept, rows other than \<open>i\<close> kept, and row \<open>i\<close> not in flight
  afterwards (or not there).\<close>

definition releases :: "string \<Rightarrow> 'w server \<Rightarrow> 'w server \<Rightarrow> bool" where
  "releases i st st' \<longleftrightarrow> agents st' = agents st \<and> device st' = device st
     \<and> map inv_id (invocations st') = map inv_id (invocations st)
     \<and> (\<forall>j. j \<noteq> i \<longrightarrow> find_inv j st' = find_inv j st)
     \<and> (\<forall>v. find_inv i st' = Some v \<longrightarrow> inv_status v \<notin> INFLIGHT_STATUSES)"

lemma in_flight_releases:
  assumes "releases i st st'" and "distinct (map inv_id (invocations st))"
  shows "in_flight st' = filter (\<lambda>v. inv_id v \<noteq> i) (in_flight st)"
proof -
  let ?P = "\<lambda>s v. inv_status v \<in> INFLIGHT_STATUSES \<and> isBridgeExecuted s (dev_id s) v"
  have d': "distinct (map inv_id (invocations st'))" using assms by (simp add: releases_def)
  have rows: "filter (\<lambda>v. inv_id v \<noteq> i) (invocations st') = filter (\<lambda>v. inv_id v \<noteq> i) (invocations st)"
    using assms by (intro rows_upd) (auto simp: releases_def find_inv_def)
  have "inv_id v \<noteq> i" if "v \<in> set (invocations st')" "inv_status v \<in> INFLIGHT_STATUSES" for v
    using find_inv_unique [OF d' that(1)] that(2) assms(1) by (auto simp: releases_def)
  then have "in_flight st' = filter (?P st') (filter (\<lambda>v. inv_id v \<noteq> i) (invocations st'))"
    unfolding in_flight_def filter_filter by (intro filter_cong) auto
  also have "\<dots> = filter (\<lambda>v. inv_id v \<noteq> i) (filter (?P st') (invocations st))"
    unfolding rows filter_filter by (intro filter_cong) auto
  also have "filter (?P st') (invocations st) = in_flight st"
    unfolding in_flight_def using assms(1)
    by (intro filter_cong) (auto simp: releases_def dev_id_def isBridgeExecuted_cong [of st' st])
  finally show ?thesis .
qed

lemma slots_ok_releases:
  assumes "releases i st st'" and "slots_ok st"
  shows "slots_ok st'"
proof -
  have d: "distinct (map inv_id (invocations st))" using assms(2) by (simp add: slots_ok_def)
  note inf = in_flight_releases [OF assms(1) d]
  have "length (in_flight st') \<le> length (in_flight st)" unfolding inf by (rule length_filter_le)
  moreover have "max_concurrency st' = max_concurrency st"
    using assms(1) by (simp add: max_concurrency_def releases_def)
  moreover have "distinct (map invocationDirKey (in_flight st'))"
    unfolding inf using assms(2) by (simp add: slots_ok_def distinct_map_filter)
  ultimately show ?thesis using assms d by (simp add: slots_ok_def releases_def)
qed

lemma slots_ok_same:
  assumes "invocations st' = invocations st" and "agents st' = agents st" and "device st' = device st"
  shows "slots_ok st' = slots_ok st"
proof -
  have "in_flight st' = in_flight st"
    unfolding in_flight_def assms(1)
    by (intro filter_cong) (auto simp: dev_id_def assms isBridgeExecuted_cong [OF assms(2)])
  with assms show ?thesis by (simp add: slots_ok_def max_concurrency_def)
qed

lemma completeInvocation_releases:
  assumes "find_inv i st \<noteq> None"
  shows "releases i st (completeInvocation hk t i b st)"
proof -
  obtain v where v: "find_inv i st = Some v" using assms by auto
  show ?thesis
  proof (cases "is_terminal (inv_status v)")
    case True
    with v show ?thesis
      by (auto simp: completeInvocation_terminal releases_def INFLIGHT_STATUSES_def)
  next
    case False
    obtain v' where v': "find_inv i (completeInvocation hk t i b st) = Some v'"
      and c: "completed_as t (terminalStatus (effectiveBody v b)) v v'"
      using completeInvocation_row(1) [OF v False] by blast
    have "is_terminal (inv_status v')" using c by (simp add: completed_as_def)
    then have "inv_status v' \<notin> INFLIGHT_STATUSES" by (auto simp: INFLIGHT_STATUSES_def)
    with v' completeInvocation_row(2,3) [OF v False] show ?thesis
      unfolding releases_def by (intro conjI) simp_all
  qed
qed

lemma upd_then_complete_releases:
  assumes "\<And>x. inv_id (f x) = inv_id x" and "find_inv i st \<noteq> None"
  shows "releases i st (completeInvocation hk t i b (append_events t es (upd_inv i f st)))"
proof -
  let ?st1 = "append_events t es (upd_inv i f st)"
  have f1: "find_inv j ?st1 = (if i = j then map_option f (find_inv j st) else find_inv j st)" for j
    by (simp add: find_inv_upd_inv assms(1))
  have "find_inv i ?st1 \<noteq> None" using f1 [of i] assms(2) by auto
  from completeInvocation_releases [OF this, of hk t b] f1 show ?thesis
    by (auto simp: releases_def assms(1))
qed

lemma releases_self:
  "find_inv i st = None \<or> (\<exists>v. find_inv i st = Some v \<and> inv_status v \<notin> INFLIGHT_STATUSES) \<Longrightarrow> releases i st st"
  by (auto simp: releases_def)

text \<open>Rewriting a row by a function that keeps its id, agent, device and directory, and puts no row in
  flight that was not.\<close>

definition keeps_place :: "(invocation \<Rightarrow> invocation) \<Rightarrow> bool" where
  "keeps_place f \<longleftrightarrow> (\<forall>v. inv_id (f v) = inv_id v \<and> inv_agentId (f v) = inv_agentId v
     \<and> del_deviceId (inv_delivery (f v)) = del_deviceId (inv_delivery v)
     \<and> invocationDirKey (f v) = invocationDirKey v)"

lemma filter_keys_shrink:
  assumes "list_all2 (\<lambda>v w. P w \<longrightarrow> P v \<and> key w = key v) vs ws"
  shows "length (filter P ws) \<le> length (filter P vs)
    \<and> set (map key (filter P ws)) \<subseteq> set (map key (filter P vs))
    \<and> (distinct (map key (filter P vs)) \<longrightarrow> distinct (map key (filter P ws)))"
  using assms by (induction vs ws rule: list_all2_induct) auto

lemma slots_ok_upd_inv:
  assumes "slots_ok st" and "keeps_place f"
    and "\<And>v. find_inv i st = Some v \<Longrightarrow> inv_status (f v) \<in> INFLIGHT_STATUSES \<Longrightarrow>
           isBridgeExecuted st (dev_id st) v \<Longrightarrow> inv_status v \<in> INFLIGHT_STATUSES"
  shows "slots_ok (upd_inv i f st)"
proof -
  let ?P = "\<lambda>v. inv_status v \<in> INFLIGHT_STATUSES \<and> isBridgeExecuted st (dev_id st) v"
  let ?f = "\<lambda>v. if inv_id v = i then f v else v"
  have d: "distinct (map inv_id (invocations st))" using assms(1) by (simp add: slots_ok_def)
  have dev: "dev_id (upd_inv i f st) = dev_id st" by (simp add: dev_id_def)
  have inf: "in_flight (upd_inv i f st) = filter ?P (map ?f (invocations st))"
    by (simp add: in_flight_def upd_where_def dev isBridgeExecuted_cong [of "upd_inv i f st" st])
  have "?P (?f v) \<longrightarrow> ?P v \<and> invocationDirKey (?f v) = invocationDirKey v"
    if "v \<in> set (invocations st)" for v
  proof (cases "inv_id v = i")
    case False
    then show ?thesis by simp
  next
    case True
    then have "find_inv i st = Some v" using find_inv_unique [OF d that] by simp
    from assms(3) [OF this] assms(2) isBridgeExecuted_row [of "f v" v st "dev_id st"] True
    show ?thesis by (simp add: keeps_place_def)
  qed
  then have "list_all2 (\<lambda>v w. ?P w \<longrightarrow> ?P v \<and> invocationDirKey w = invocationDirKey v)
      (invocations st) (map ?f (invocations st))"
    by (simp add: list_all2_map2 list_all2_same)
  from filter_keys_shrink [OF this]
  have "length (in_flight (upd_inv i f st)) \<le> length (in_flight st)
      \<and> (distinct (map invocationDirKey (in_flight st)) \<longrightarrow>
         distinct (map invocationDirKey (in_flight (upd_inv i f st))))"
    by (simp add: inf) (simp add: in_flight_def)
  moreover have "max_concurrency (upd_inv i f st) = max_concurrency st"
    by (simp add: max_concurrency_def)
  moreover have "map inv_id (invocations (upd_inv i f st)) = map inv_id (invocations st)"
    using assms(2) by (simp add: keeps_place_def)
  ultimately show ?thesis using assms(1) d by (simp add: slots_ok_def del: invocations_upd_inv)
qed

lemma slots_ok_frame [simp]:
  "slots_ok (append_event t e st) = slots_ok st" "slots_ok (append_events t es st) = slots_ok st"
  "slots_ok (push_audit a st) = slots_ok st" "slots_ok (completeRootSpan t v s st) = slots_ok st"
  "slots_ok (recordAgentUsage t v s st) = slots_ok st" "slots_ok (st\<lparr>world := w\<rparr>) = slots_ok st"
  "slots_ok (refuse_unchecked t rq st) = slots_ok st" "slots_ok (do_hook t h i r st) = slots_ok st"
  by (rule slots_ok_same; simp)+

section \<open>Reclaims and dispatch keep the slots\<close>

lemma reclaim_stuck_slots: "slots_ok st \<Longrightarrow> slots_ok (reclaim_stuck hk lease t i st)"
  by (cases "find_inv i st")
     (auto simp: reclaim_stuck_def intro: slots_ok_releases [OF completeInvocation_releases])

lemma drop_supersession_id [simp]: "inv_id (drop_supersession v) = inv_id v"
  by (simp add: drop_supersession_def)

lemma reclaim_superseded_slots:
  assumes "slots_ok st"
  shows "slots_ok (reclaim_superseded hk t i st)"
proof (cases "find_inv i st")
  case None
  with assms show ?thesis by (simp add: reclaim_superseded_def)
next
  case (Some v)
  then have "releases i st (completeInvocation hk t i b (upd_inv i drop_supersession st))" for b
    using upd_then_complete_releases [of drop_supersession i st hk t b "[]"] by simp
  from slots_ok_releases [OF this assms] show ?thesis
    using Some assms by (simp add: reclaim_superseded_def split: option.split)
qed

lemma fold_slots:
  "(\<And>i s. slots_ok s \<Longrightarrow> slots_ok (op i s)) \<Longrightarrow> slots_ok st \<Longrightarrow> slots_ok (fold op is st)"
  by (induction \<open>is\<close> arbitrary: st) simp_all

lemma reclaims_slots:
  "slots_ok st \<Longrightarrow> slots_ok (reclaimSupersededBridgeSessions hk t st)"
  "slots_ok st \<Longrightarrow> slots_ok (reclaimStuckCancellations hk lease t st)"
  unfolding reclaimSupersededBridgeSessions_def reclaimStuckCancellations_def
  by (rule fold_slots, erule reclaim_superseded_slots reclaim_stuck_slots, assumption)+

lemma dispatched_row_simps [simp]:
  "inv_id (dispatched_row l t dev s v) = inv_id v" "inv_agentId (dispatched_row l t dev s v) = inv_agentId v"
  "inv_status (dispatched_row l t dev s v) = Dispatching"
  "inv_options (dispatched_row l t dev s v) = inv_options v"
  "del_deviceId (inv_delivery (dispatched_row l t dev s v)) = coalesce_opt (del_deviceId (inv_delivery v)) (Some dev)"
  "del_attempts (inv_delivery (dispatched_row l t dev s v)) = del_attempts (inv_delivery v) + 1"
  "del_state (inv_delivery (dispatched_row l t dev s v)) = DDispatching"
  by (simp_all add: dispatched_row_def Let_def)

lemma dirKey_options: "inv_options v' = inv_options v \<Longrightarrow> invocationDirKey v' = invocationDirKey v"
  by (simp add: invocationDirKey_def inv_metadata_def)

lemma mset_filter_upd:
  assumes "distinct (map inv_id vs)" and "v \<in> set vs" and "inv_id v = i" and "\<not> P v" and "P (f v)"
  shows "mset (filter P (upd_where (\<lambda>x. inv_id x = i) f vs)) = add_mset (f v) (mset (filter P vs))"
  using assms
proof (induction vs)
  case Nil
  then show ?case by simp
next
  case (Cons w vs)
  show ?case
  proof (cases "w = v")
    case True
    have "upd_where (\<lambda>x. inv_id x = i) f vs = vs"
    proof (rule upd_where_none)
      fix x assume "x \<in> set vs"
      then have "inv_id x \<in> inv_id ` set vs" by simp
      moreover have "i \<notin> inv_id ` set vs" using Cons.prems True by simp
      ultimately show "inv_id x \<noteq> i" by metis
    qed
    with True Cons.prems show ?thesis by simp
  next
    case False
    with Cons.prems have "v \<in> set vs" "inv_id w \<noteq> i" by auto
    with Cons show ?thesis by simp
  qed
qed

lemma dispatch_reason_Dispatchable:
  assumes "dispatch_reason_of leases st v = Dispatchable"
  shows "inv_status v = Queued \<and> del_state (inv_delivery v) \<in> {DQueued, DRedelivering}
    \<and> invocationDirKey v \<notin> set (map invocationDirKey (in_flight st))
    \<and> \<not> isWorktreeReactionBusy leases v
    \<and> (\<exists>a. findAgent (inv_agentId v) st = Some a \<and> \<not> isAgentDisabled a \<and> ag_health a \<noteq> Some ''unhealthy''
          \<and> (\<not> is_local_device a \<or> belongsToThisBridge v (Some a) (dev_id st)))"
  using assms
  by (auto simp: dispatch_reason_of_def Let_def classifyDispatchEligibility_def
      split: if_splits option.splits)

lemma markDispatched_slots:
  assumes "slots_ok st" and "v \<in> set (dispatchable leases st)"
    and "length (in_flight st) < max_concurrency st"
  shows "slots_ok (markDispatched lease t (inv_id v) st)"
proof -
  let ?f = "dispatched_row lease t (dev_id st) (dv_bridgeSessionId (device st))"
  let ?st1 = "upd_inv (inv_id v) ?f st"
  let ?P = "\<lambda>v. inv_status v \<in> INFLIGHT_STATUSES \<and> isBridgeExecuted st (dev_id st) v"
  have d: "distinct (map inv_id (invocations st))" using assms(1) by (simp add: slots_ok_def)
  have v: "v \<in> set (invocations st)" "isBridgeExecuted st (dev_id st) v"
    "dispatch_reason_of leases st v = Dispatchable"
    using assms(2) by (auto simp: dispatchable_def)
  note r = dispatch_reason_Dispatchable [OF v(3)]
  have "\<not> ?P v" using r by (simp add: INFLIGHT_STATUSES_def)
  moreover have "?P (?f v)"
    using v(2) r
    by (cases "del_deviceId (inv_delivery v)")
      (auto simp: INFLIGHT_STATUSES_def isBridgeExecuted_def belongsToThisBridge_def split: if_splits)
  ultimately have m: "mset (filter ?P (invocations ?st1)) = add_mset (?f v) (mset (filter ?P (invocations st)))"
    using mset_filter_upd [OF d v(1) refl, of ?P ?f] by simp
  have dev: "dev_id ?st1 = dev_id st" by (simp add: dev_id_def)
  have inf: "in_flight ?st1 = filter ?P (invocations ?st1)" "in_flight st = filter ?P (invocations st)"
    by (simp_all add: in_flight_def dev isBridgeExecuted_cong [of ?st1 st])
  have m': "mset (in_flight ?st1) = add_mset (?f v) (mset (in_flight st))"
    using m by (simp only: inf)
  from arg_cong [OF m', of size] have len: "length (in_flight ?st1) = Suc (length (in_flight st))" by simp
  have "mset (map invocationDirKey (in_flight ?st1)) = mset (map invocationDirKey (v # in_flight st))"
    using m' dirKey_options [of "?f v" v] by simp
  moreover have "distinct (map invocationDirKey (v # in_flight st))"
    using r assms(1) by (simp add: slots_ok_def)
  ultimately have dirs: "distinct (map invocationDirKey (in_flight ?st1))"
    by (metis mset_eq_imp_distinct_iff)
  have "max_concurrency ?st1 = max_concurrency st" by (simp add: max_concurrency_def)
  with len dirs assms(3) d have "slots_ok ?st1" by (simp add: slots_ok_def)
  then show ?thesis
    using find_inv_unique [OF d v(1)] by (simp add: markDispatched_def Let_def)
qed

lemma select_next_Some:
  assumes "select_next date_key leases t st = Some c"
  shows "length (in_flight st) < max_concurrency st \<and> c \<in> set (dispatchable leases st)"
  using assms select_fair [of "dispatchable leases st" "dispatch_levels date_key t st" "waited t"]
  by (simp add: select_next_def split: if_splits)

text \<open>C1: one poll of the bridge, reclaim sweeps included, keeps the device invariant, and so does
  handing out the invocation it chose: never more runs in flight than the device has slots, never two
  in one directory; and what is handed out was queued, of an enabled and healthy agent, and is then
  leased with one more attempt.\<close>

theorem dispatch_keeps_slots:
  assumes "slots_ok st"
    and "nextDispatchableInvocation hk date_key leases lease t st = (next, st1)"
  shows "slots_ok st1
    \<and> (case next of
         None \<Rightarrow> True
       | Some i \<Rightarrow>
           slots_ok (markDispatched lease t i st1)
           \<and> (\<exists>v a v'. find_inv i st1 = Some v \<and> inv_status v = Queued
               \<and> findAgent (inv_agentId v) st1 = Some a \<and> \<not> isAgentDisabled a
               \<and> ag_health a \<noteq> Some ''unhealthy''
               \<and> find_inv i (markDispatched lease t i st1) = Some v' \<and> inv_status v' = Dispatching
               \<and> del_attempts (inv_delivery v') = del_attempts (inv_delivery v) + 1
               \<and> del_leaseExpiresAt (inv_delivery v') = Some (t + lease)))"
proof -
  have st1: "st1 = reclaimStuckCancellations hk lease t (reclaimSupersededBridgeSessions hk t st)"
    and n: "next = map_option inv_id (select_next date_key leases t st1)"
    using assms(2) by (auto simp: nextDispatchableInvocation_def Let_def)
  have ok: "slots_ok st1" unfolding st1 by (intro reclaims_slots assms(1))
  show ?thesis
  proof (cases "select_next date_key leases t st1")
    case None
    with ok n show ?thesis by simp
  next
    case (Some v)
    note sel = select_next_Some [OF Some]
    have v: "v \<in> set (invocations st1)" "dispatch_reason_of leases st1 v = Dispatchable"
      using sel by (auto simp: dispatchable_def)
    have f: "find_inv (inv_id v) st1 = Some v"
      using ok find_inv_unique [OF _ v(1)] by (simp add: slots_ok_def)
    let ?v' = "dispatched_row lease t (dev_id st1) (dv_bridgeSessionId (device st1)) v"
    have f': "find_inv (inv_id v) (markDispatched lease t (inv_id v) st1) = Some ?v'"
      using f by (simp add: markDispatched_def Let_def find_inv_upd_inv)
    have l: "del_leaseExpiresAt (inv_delivery ?v') = Some (t + lease)"
      by (simp add: dispatched_row_def Let_def)
    from dispatch_reason_Dispatchable [OF v(2)] obtain a
      where "inv_status v = Queued" "findAgent (inv_agentId v) st1 = Some a" "\<not> isAgentDisabled a"
        "ag_health a \<noteq> Some ''unhealthy''" by blast
    with f f' l markDispatched_slots [OF ok conjunct2 [OF sel] conjunct1 [OF sel]] ok n Some
    show ?thesis by auto
  qed
qed

lemma demo_no_reclaim:
  "reclaimStuckCancellations hk lease t (reclaimSupersededBridgeSessions hk t
     (demo_server [demo_inv i Queued DQueued n])) = demo_server [demo_inv i Queued DQueued n]"
  by (simp add: reclaimStuckCancellations_def reclaimSupersededBridgeSessions_def all_ids_def
      reclaim_stuck_def reclaim_superseded_def demo_find is_stuck_def)

lemma demo_findAgent: "findAgent ''agt_demo_cli'' (demo_server vs) = Some demo_agent"
  by (simp add: findAgent_def demo_agent_def)

lemma demo_dispatchable:
  "in_flight (demo_server [demo_inv i Queued DQueued n]) = []"
  "dispatchable [] (demo_server [demo_inv i Queued DQueued n]) = [demo_inv i Queued DQueued n]"
proof -
  let ?st = "demo_server [demo_inv i Queued DQueued n]"
  show inf: "in_flight ?st = []" by (simp add: in_flight_def INFLIGHT_STATUSES_def)
  have b: "belongsToThisBridge (demo_inv i Queued DQueued n) (Some demo_agent) (dev_id ?st)"
    by (simp add: belongsToThisBridge_def dev_id_def)
  have "isBridgeExecuted ?st (dev_id ?st) (demo_inv i Queued DQueued n)"
    using b by (simp add: isBridgeExecuted_def demo_findAgent) (simp add: demo_agent_def is_local_device_def)
  moreover have "\<not> isWorktreeReactionBusy [] (demo_inv i Queued DQueued n)"
    by (simp add: isWorktreeReactionBusy_def split: json.split)
  then have "dispatch_reason_of [] ?st (demo_inv i Queued DQueued n) = Dispatchable"
    using b inf by (simp add: dispatch_reason_of_def Let_def demo_findAgent classifyDispatchEligibility_def)
      (simp add: demo_agent_def isAgentDisabled_def)
  ultimately show "dispatchable [] ?st = [demo_inv i Queued DQueued n]" by (simp add: dispatchable_def)
qed

theorem dispatch_keeps_slots_witness:
  "\<exists>st1. nextDispatchableInvocation null_hooks (\<lambda>t. 20260101) [] 30000 9
       (demo_server [demo_inv ''inv_1'' Queued DQueued 0]) = (Some ''inv_1'', st1)
     \<and> slots_ok (markDispatched 30000 9 ''inv_1'' st1)"
proof -
  let ?st = "demo_server [demo_inv ''inv_1'' Queued DQueued 0]"
  have "slots_ok ?st" by (simp add: slots_ok_def demo_dispatchable)
  moreover have "max_concurrency ?st = 2" by (simp add: max_concurrency_def)
  then have "select_next (\<lambda>t. 20260101) [] 9 ?st = Some (demo_inv ''inv_1'' Queued DQueued 0)"
    using select_fair [of "dispatchable [] ?st" "dispatch_levels (\<lambda>t. 20260101) 9 ?st" "waited 9"]
    by (auto simp: select_next_def demo_dispatchable split: option.splits)
  then have "nextDispatchableInvocation null_hooks (\<lambda>t. 20260101) [] 30000 9 ?st = (Some ''inv_1'', ?st)"
    by (simp add: nextDispatchableInvocation_def Let_def demo_no_reclaim)
  ultimately show ?thesis using dispatch_keeps_slots [of ?st] by fastforce
qed

theorem dispatch_selection_fair_witness:
  "\<exists>c. select_next (\<lambda>t. 20260101) [] 9 (demo_server [demo_inv ''inv_1'' Queued DQueued 0]) = Some c
     \<and> inv_id c = ''inv_1''"
proof -
  let ?st = "demo_server [demo_inv ''inv_1'' Queued DQueued 0]"
  have "max_concurrency ?st = 2" by (simp add: max_concurrency_def)
  with dispatch_selection_fair [where date_key = "\<lambda>t. 20260101" and leases = "[]" and t = 9 and st = ?st] show ?thesis
    by (auto simp: demo_dispatchable split: option.splits)
qed

section \<open>A claim that is not acknowledged\<close>

definition redelivered :: "instant \<Rightarrow> invocation \<Rightarrow> invocation \<Rightarrow> bool" where
  "redelivered t v v' \<longleftrightarrow>
     (if \<not> lease_expired t v then v' = v
      else if MAX_DISPATCH_ATTEMPTS \<le> del_attempts (inv_delivery v)
      then is_terminal (inv_status v') \<and> del_state (inv_delivery v') = DExhausted
           \<and> (inv_deadline v = None \<longrightarrow> inv_status v' = Failed)
           \<and> inv_completedAt v' = Some t \<and> del_attempts (inv_delivery v') = del_attempts (inv_delivery v)
      else v' = redelivering_row t v)"

lemma redelivering_row_id [simp]: "inv_id (redelivering_row t v) = inv_id v"
  "inv_id (exhausted_row v) = inv_id v"
  by (simp_all add: redelivering_row_def exhausted_row_def)

lemma redeliver_one_row:
  assumes "find_inv i st = Some v"
  shows "\<exists>v'. find_inv i (redeliver_one hk t i st) = Some v' \<and> redelivered t v v'"
proof -
  consider (kept) "\<not> lease_expired t v"
    | (exhausted) "lease_expired t v" "MAX_DISPATCH_ATTEMPTS \<le> del_attempts (inv_delivery v)"
    | (again) "lease_expired t v" "\<not> MAX_DISPATCH_ATTEMPTS \<le> del_attempts (inv_delivery v)" by blast
  then show ?thesis
  proof cases
    case kept
    then show ?thesis using assms by (simp add: redeliver_one_def redelivered_def Let_def)
  next
    case exhausted
    let ?n = "del_attempts (inv_delivery v)"
    let ?e = "mk_ev (Some i) ''delivery_exhausted'' ''warn''
        (''Delivery exhausted after '' @ show_nat ?n @ '' dispatch attempts without acknowledgement.'')
        (JObj [(''dispatchAttempts'', JNum (int ?n)),
               (''maxDispatchAttempts'', JNum (int MAX_DISPATCH_ATTEMPTS))])"
    let ?st1 = "append_event t ?e (upd_inv i exhausted_row st)"
    have f: "find_inv i ?st1 = Some (exhausted_row v)" using assms by (simp add: find_inv_upd_inv)
    have "\<not> is_terminal (inv_status (exhausted_row v))"
      using exhausted(1) by (simp add: lease_expired_def exhausted_row_def)
    from completeInvocation_row(1) [OF f this, of hk t "exhausted_body ?n"]
    obtain v' where v': "find_inv i (completeInvocation hk t i (exhausted_body ?n) ?st1) = Some v'"
      and c: "completed_as t (terminalStatus (effectiveBody (exhausted_row v) (exhausted_body ?n))) (exhausted_row v) v'"
      by blast
    have "inv_deadline v = None \<longrightarrow>
        terminalStatus (effectiveBody (exhausted_row v) (exhausted_body ?n)) = Failed"
      by (simp add: effectiveBody_def exhausted_row_def terminalStatus_def exhausted_body_def)
    then have "redelivered t v v'"
      using c exhausted by (simp add: redelivered_def completed_as_def exhausted_row_def)
    with v' show ?thesis using assms exhausted by (simp add: redeliver_one_def Let_def)
  next
    case again
    then show ?thesis using assms
      by (simp add: redeliver_one_def Let_def redelivered_def find_inv_upd_inv)
  qed
qed

interpretation redelivery: row_rel "redeliver_one hk t" "redelivered t"
proof
  fix i j :: string and st :: "'a server" and v
  show "find_inv i st = Some v \<Longrightarrow> \<exists>v'. find_inv i (redeliver_one hk t i st) = Some v' \<and> redelivered t v v'"
    by (rule redeliver_one_row)
  show "j \<noteq> i \<Longrightarrow> find_inv j (redeliver_one hk t i st) = find_inv j st"
    by (cases "find_inv i st")
      (auto simp: redeliver_one_def Let_def completeInvocation_other find_inv_upd_inv)
  show "map inv_id (invocations (redeliver_one hk t i st)) = map inv_id (invocations st)"
    by (cases "find_inv i st") (auto simp: redeliver_one_def Let_def completeInvocation_ids)
qed

text \<open>C7: the expiry sweep takes each claim whose lease ran out either back to the queue, with its
  attempts kept, or after the fifth attempt to an exhausted delivery and a terminal failure; every
  other row is as the supersession reclaim left it, and no expired claim remains.\<close>

theorem redelivery_bounded:
  assumes "distinct (map inv_id (invocations (reclaimSupersededBridgeSessions hk t st)))"
    and "find_inv j (reclaimSupersededBridgeSessions hk t st) = Some v"
  shows "\<exists>v'. find_inv j (redeliverExpiredDispatches hk t st) = Some v' \<and> redelivered t v v'
    \<and> \<not> lease_expired t v' \<and> (lease_expired t v \<and> del_attempts (inv_delivery v) < 5 \<longrightarrow>
          inv_status v' = Queued \<and> del_state (inv_delivery v') = DRedelivering)"
proof -
  let ?st1 = "reclaimSupersededBridgeSessions hk t st"
  have "j \<in> set (all_ids ?st1)"
    using find_inv_SomeD [OF assms(2)] by (auto simp: all_ids_def)
  then obtain v' where v': "find_inv j (redeliverExpiredDispatches hk t st) = Some v'" "redelivered t v v'"
    using redelivery.sweep_visited [of "all_ids ?st1" j ?st1 v] assms
    by (auto simp: redeliverExpiredDispatches_def Let_def all_ids_def)
  moreover have "\<not> lease_expired t v'"
    using v'(2) by (auto simp: redelivered_def lease_expired_def redelivering_row_def split: if_splits)
  moreover have "lease_expired t v \<and> del_attempts (inv_delivery v) < 5 \<longrightarrow>
      inv_status v' = Queued \<and> del_state (inv_delivery v') = DRedelivering"
    using v'(2) by (simp add: redelivered_def MAX_DISPATCH_ATTEMPTS_def redelivering_row_def)
  ultimately show ?thesis by blast
qed

theorem redelivery_bounded_witness:
  "\<exists>v'. find_inv ''inv_1'' (redeliverExpiredDispatches null_hooks 90
       (demo_server [demo_inv ''inv_1'' Dispatching DDispatching 2])) = Some v' \<and> inv_status v' = Queued"
proof -
  let ?v = "demo_inv ''inv_1'' Dispatching DDispatching 2"
  have r: "reclaimSupersededBridgeSessions null_hooks 90 (demo_server [?v]) = demo_server [?v]"
    by (simp add: reclaimSupersededBridgeSessions_def all_ids_def reclaim_superseded_def demo_find)
  have "distinct (map inv_id (invocations (reclaimSupersededBridgeSessions null_hooks 90 (demo_server [?v]))))"
    by (simp add: r)
  moreover have "find_inv ''inv_1'' (reclaimSupersededBridgeSessions null_hooks 90 (demo_server [?v])) = Some ?v"
    by (simp add: r demo_find)
  moreover have "lease_expired 90 ?v"
    by (simp add: lease_expired_def) (simp add: demo_inv_def)
  ultimately show ?thesis using redelivery_bounded [of null_hooks 90 "demo_server [?v]" "''inv_1''" ?v] by auto
qed

end
