(* ===== verification/RoundTelemetry.thy ===== *)
theory RoundTelemetry
  imports Server
begin

text \<open>
  What an event of a bridge writes beside the event log: services/round-telemetry.mjs (the rounds and tool
  records of a run, with a child span per round), read-models/file-ledger.mjs (the files it read and
  wrote) and read-models/request-context.mjs (the setup it started with), with the two callbacks of
  runtime/service-composer.mjs that store the last two on the invocation.  The fields of \<open>telemetry_env\<close>
  stand for the replacement of the secret patterns, for \<open>Number\<close> of a text, for \<open>Date.parse\<close> and for the
  price of a round in micro-dollars; numbers are integers, as in every JSON body here.  What goes to the
  archive is not kept.
\<close>

section \<open>Reading device data\<close>

record telemetry_env =
  te_scrub :: "string \<Rightarrow> string"
  te_number :: "string \<Rightarrow> int option"
  te_parse :: "string \<Rightarrow> instant option"
  te_price :: "string \<Rightarrow> int \<Rightarrow> int \<Rightarrow> int \<Rightarrow> int option"

text \<open>A member of an object, \<open>None\<close> when it is \<open>undefined\<close>.\<close>

fun jmember :: "json \<Rightarrow> string \<Rightarrow> json option" where
  "jmember (JObj kvs) k = map_of kvs k"
| "jmember v k = None"

text \<open>\<open>Number(v)\<close>, \<open>None\<close> for \<open>NaN\<close>; an array is read as the text of its only element.\<close>

fun js_number :: "telemetry_env \<Rightarrow> json \<Rightarrow> int option" where
  "js_number te JNull = Some 0"
| "js_number te (JBool b) = Some (if b then 1 else 0)"
| "js_number te (JNum n) = Some n"
| "js_number te (JStr s) = (if js_trim s = [] then Some 0 else te_number te s)"
| "js_number te (JArr []) = Some 0"
| "js_number te (JArr [v]) = (case v of JBool b \<Rightarrow> None | JObj kvs \<Rightarrow> None | _ \<Rightarrow> js_number te v)"
| "js_number te (JArr (v # w # vs)) = None"
| "js_number te (JObj kvs) = None"

text \<open>\<open>Number(data[k])\<close>; as numbers are integers, this is \<open>intOr(data[k], null)\<close> too.\<close>

definition member_number :: "telemetry_env \<Rightarrow> json \<Rightarrow> string \<Rightarrow> int option" where
  "member_number te d k = Option.bind (jmember d k) (js_number te)"

text \<open>\<open>Number(v ?? 0)\<close> when it is positive.\<close>

definition nonNeg :: "telemetry_env \<Rightarrow> json \<Rightarrow> int" where
  "nonNeg te v =
     (case js_number te (nullish_or v (JNum 0)) of Some n \<Rightarrow> (if 0 < n then n else 0) | None \<Rightarrow> 0)"

definition DIGEST_MAX :: nat where "DIGEST_MAX = 500"

definition redactDigest :: "telemetry_env \<Rightarrow> string \<Rightarrow> string option" where
  "redactDigest te text =
     (if text = [] then None
      else let v = te_scrub te text in Some (if DIGEST_MAX < length v then take (DIGEST_MAX - 3) v @ ''...'' else v))"

definition DIGEST_FIELDS :: "string list" where
  "DIGEST_FIELDS = [''responseDigest'', ''requestDigest'', ''inputDigest'', ''outputDigest'']"

definition redactRoundData :: "telemetry_env \<Rightarrow> json \<Rightarrow> json" where
  "redactRoundData te data =
     fold (\<lambda>k d. case jget d k of JStr s \<Rightarrow> jset d k (jstr (redactDigest te s)) | _ \<Rightarrow> d) DIGEST_FIELDS data"

definition told_or_now :: "instant \<Rightarrow> json \<Rightarrow> stamp" where
  "told_or_now t v = (case v of JStr s \<Rightarrow> Told s | _ \<Rightarrow> Clock t)"

definition text_or :: "string \<Rightarrow> json \<Rightarrow> string" where
  "text_or d v = coalesce (jstr_opt v) d"

definition parse_stamp :: "telemetry_env \<Rightarrow> stamp \<Rightarrow> instant option" where
  "parse_stamp te s = (case s of Clock t \<Rightarrow> Some t | Told x \<Rightarrow> te_parse te x)"

definition durationBetween :: "telemetry_env \<Rightarrow> stamp \<Rightarrow> stamp \<Rightarrow> int option" where
  "durationBetween te startedAt endedAt =
     (case (parse_stamp te startedAt, parse_stamp te endedAt) of
        (Some s, Some e) \<Rightarrow> (if s \<le> e then Some (e - s) else None)
      | _ \<Rightarrow> None)"

section \<open>Rounds\<close>

definition MAX_ROUNDS_PER_INVOCATION :: nat where "MAX_ROUNDS_PER_INVOCATION = 500"
definition MAX_ROUNDS_TOTAL :: nat where "MAX_ROUNDS_TOTAL = 5000"
definition MAX_TOOL_RECORDS_TOTAL :: nat where "MAX_TOOL_RECORDS_TOTAL = 5000"
definition MAX_SPANS_TOTAL :: nat where "MAX_SPANS_TOTAL = 20000"

definition ROUND_TERMINAL_STATUSES :: "string list" where
  "ROUND_TERMINAL_STATUSES = [''succeeded'', ''failed'', ''cancelled'']"

definition TOOL_STATUSES :: "string list" where
  "TOOL_STATUSES = [''started'', ''succeeded'', ''failed'']"

definition roundsForInvocation :: "string \<Rightarrow> 'w server \<Rightarrow> round list" where
  "roundsForInvocation i st = filter (\<lambda>r. rd_invocationId r = i) (rounds st)"

definition findRound :: "string \<Rightarrow> int option \<Rightarrow> 'w server \<Rightarrow> round option" where
  "findRound i roundIndex st =
     (case roundIndex of
        None \<Rightarrow> None
      | Some n \<Rightarrow> List.find (\<lambda>r. rd_invocationId r = i \<and> rd_roundIndex r = n) (rounds st))"

definition latestRound :: "string \<Rightarrow> 'w server \<Rightarrow> round option" where
  "latestRound i st = List.find (\<lambda>r. rd_invocationId r = i) (rounds st)"

definition upd_notes :: "(run_notes \<Rightarrow> run_notes) \<Rightarrow> invocation \<Rightarrow> invocation" where
  "upd_notes f v = v\<lparr>inv_notes := f (inv_notes v)\<rparr>"

definition bump_dropped :: "run_notes \<Rightarrow> run_notes" where
  "bump_dropped n = n\<lparr>nt_droppedRounds := nt_droppedRounds n + 1\<rparr>"

definition cap_event :: "string \<Rightarrow> event_in" where
  "cap_event i = mk_ev (Some i) ''log'' ''warn''
     (''Round telemetry capped at '' @ show_nat MAX_ROUNDS_PER_INVOCATION
       @ ''; further rounds archived, not kept in state, for this invocation.'') JNull"

text \<open>The event types of this file are no refusals, so the guard of \<open>appendEvent\<close> never throws on them.\<close>

definition atCap :: "instant \<Rightarrow> invocation \<Rightarrow> 'w server \<Rightarrow> bool \<times> 'w server" where
  "atCap t v st =
     (if length (roundsForInvocation (inv_id v) st) < MAX_ROUNDS_PER_INVOCATION then (False, st)
      else (let st1 = upd_inv (inv_id v) (upd_notes bump_dropped) st
            in (True, if nt_droppedRounds (inv_notes v) = 0 then append_event t (cap_event (inv_id v)) st1 else st1)))"

definition round_span :: "invocation \<Rightarrow> string \<Rightarrow> int \<Rightarrow> string \<Rightarrow> string \<Rightarrow> string \<Rightarrow> stamp \<Rightarrow> span" where
  "round_span v sid roundIndex kind provider model startedAt =
     \<lparr>sp_id = sid, sp_traceId = inv_traceId v, sp_parentSpanId = inv_rootSpanId v,
      sp_name = ''round.'' @ show_int roundIndex, sp_status = ''started'', sp_startedAt = startedAt, sp_endedAt = None,
      sp_attributes = JObj [(''roundIndex'', JNum roundIndex), (''kind'', JStr kind), (''provider'', JStr provider),
        (''model'', JStr model), (''gen_ai.system'', JStr provider), (''gen_ai.request.model'', JStr model),
        (''gen_ai.operation.name'', JStr (if kind = ''model_turn'' then ''chat'' else kind))]\<rparr>"

definition new_round :: "instant \<Rightarrow> invocation \<Rightarrow> string \<Rightarrow> string \<Rightarrow> int \<Rightarrow> json \<Rightarrow> string \<Rightarrow> round" where
  "new_round t v rid sid roundIndex data status =
     \<lparr>rd_id = rid, rd_invocationId = inv_id v, rd_traceId = inv_traceId v, rd_spanId = sid, rd_roundIndex = roundIndex,
      rd_kind = text_or ''model_turn'' (jget data ''kind''), rd_provider = text_or ''unknown'' (jget data ''provider''),
      rd_model = text_or ''unknown'' (jget data ''model''), rd_status = status,
      rd_startedAt = told_or_now t (jget data ''startedAt''), rd_endedAt = None, rd_durationMs = None,
      rd_inputTokens = 0, rd_outputTokens = 0, rd_cachedTokens = 0, rd_reasoningTokens = 0,
      rd_requestDigest = None, rd_responseDigest = None, rd_filesRead = [], rd_toolCallIds = [], rd_errorCode = None,
      rd_estimatedCost = None, rd_createdAt = t\<rparr>"

definition start_row :: "stamp \<Rightarrow> invocation \<Rightarrow> invocation" where
  "start_row s v = (if stamped (inv_startedAt v) then v else v\<lparr>inv_startedAt := Some s\<rparr>)"

definition createRound :: "telemetry_env \<Rightarrow> instant \<Rightarrow> invocation \<Rightarrow> json \<Rightarrow> string \<Rightarrow> 'w server \<Rightarrow> round \<times> 'w server" where
  "createRound te t v data status st =
     (let roundIndex = coalesce (member_number te data ''roundIndex'') (int (length (roundsForInvocation (inv_id v) st)));
          (sid, st1) = next_id ''spn_demo'' st;
          st2 = st1\<lparr>spans := round_span v sid roundIndex (text_or ''model_turn'' (jget data ''kind''))
                  (text_or ''unknown'' (jget data ''provider'')) (text_or ''unknown'' (jget data ''model''))
                  (told_or_now t (jget data ''startedAt'')) # spans st1\<rparr>;
          (rid, st3) = next_id ''rnd_demo'' st2;
          r = new_round t v rid sid roundIndex data status
      in (r, upd_inv (inv_id v) (start_row (rd_startedAt r)) (st3\<lparr>rounds := r # rounds st3\<rparr>)))"

definition handleRoundStarted :: "telemetry_env \<Rightarrow> instant \<Rightarrow> invocation \<Rightarrow> json \<Rightarrow> 'w server \<Rightarrow> 'w server" where
  "handleRoundStarted te t v data st =
     (if findRound (inv_id v) (member_number te data ''roundIndex'') st \<noteq> None then st
      else case atCap t v st of
             (True, st1) \<Rightarrow> st1
           | (False, st1) \<Rightarrow> snd (createRound te t v data ''started'' st1))"

definition completed_round :: "telemetry_env \<Rightarrow> instant \<Rightarrow> json \<Rightarrow> round \<Rightarrow> round" where
  "completed_round te t data r =
     (let status = (case jget data ''status'' of JStr s \<Rightarrow> if s \<in> set ROUND_TERMINAL_STATUSES then s else ''succeeded'' | _ \<Rightarrow> ''succeeded'');
          endedAt = told_or_now t (jget data ''endedAt'');
          input = nonNeg te (jget data ''inputTokens''); output = nonNeg te (jget data ''outputTokens'');
          cached = nonNeg te (jget data ''cachedTokens'');
          model = text_or (rd_model r) (jget data ''model'')
      in r\<lparr>rd_status := status, rd_endedAt := Some endedAt,
           rd_durationMs := (case member_number te data ''durationMs'' of
              Some n \<Rightarrow> Some n | None \<Rightarrow> durationBetween te (rd_startedAt r) endedAt),
           rd_inputTokens := input, rd_outputTokens := output, rd_cachedTokens := cached,
           rd_reasoningTokens := nonNeg te (jget data ''reasoningTokens''),
           rd_filesRead := (case jget data ''filesRead'' of JArr xs \<Rightarrow> first_keys (List.map_filter jstr_opt xs) | _ \<Rightarrow> []),
           rd_responseDigest := jstr_opt (jget data ''responseDigest''), rd_requestDigest := jstr_opt (jget data ''requestDigest''),
           rd_errorCode := jstr_opt (jget data ''errorCode''),
           rd_provider := text_or (rd_provider r) (jget data ''provider''), rd_model := model,
           rd_estimatedCost := te_price te model input cached output\<rparr>)"

definition ended_round_span :: "round \<Rightarrow> span \<Rightarrow> span" where
  "ended_round_span r sp =
     (if stamped (sp_endedAt sp) then sp
      else sp\<lparr>sp_status := (if rd_status r = ''succeeded'' then ''succeeded''
                            else if rd_status r = ''cancelled'' then ''cancelled'' else ''failed''),
              sp_endedAt := rd_endedAt r,
              sp_attributes := jset (jset (sp_attributes sp) ''gen_ai.usage.input_tokens'' (JNum (rd_inputTokens r)))
                 ''gen_ai.usage.output_tokens'' (JNum (rd_outputTokens r))\<rparr>)"

definition completeRoundSpan :: "round \<Rightarrow> 'w server \<Rightarrow> 'w server" where
  "completeRoundSpan r st = st\<lparr>spans := upd_where (\<lambda>sp. sp_id sp = rd_spanId r) (ended_round_span r) (spans st)\<rparr>"

definition finish_round :: "telemetry_env \<Rightarrow> instant \<Rightarrow> json \<Rightarrow> round \<Rightarrow> 'w server \<Rightarrow> 'w server" where
  "finish_round te t data r st =
     completeRoundSpan (completed_round te t data r)
       (st\<lparr>rounds := upd_where (\<lambda>x. rd_id x = rd_id r) (completed_round te t data) (rounds st)\<rparr>)"

definition handleRoundCompleted :: "telemetry_env \<Rightarrow> instant \<Rightarrow> invocation \<Rightarrow> json \<Rightarrow> 'w server \<Rightarrow> 'w server" where
  "handleRoundCompleted te t v data st =
     (case findRound (inv_id v) (member_number te data ''roundIndex'') st of
        Some r \<Rightarrow> finish_round te t data r st
      | None \<Rightarrow>
          (case atCap t v st of
             (True, st1) \<Rightarrow> st1
           | (False, st1) \<Rightarrow> (let (r, st2) = createRound te t v data ''started'' st1 in finish_round te t data r st2)))"

section \<open>Tool calls\<close>

definition SIDE_EFFECT_ACTIONS :: "string list" where
  "SIDE_EFFECT_ACTIONS = [''write'', ''command'']"

definition SIDE_EFFECT_RISK_TAGS :: "string list" where
  "SIDE_EFFECT_RISK_TAGS = [''write_local'', ''network_access'', ''credential_access'', ''shell_exec'', ''browser_control'',
     ''desktop_control'', ''destructive'', ''budget_spending'', ''policy_change'', ''secret_exposure'', ''external_data_transfer'']"

definition deriveSideEffect :: "string option \<Rightarrow> string option \<Rightarrow> json \<Rightarrow> bool" where
  "deriveSideEffect action riskTag explicit =
     (case explicit of
        JBool b \<Rightarrow> b
      | _ \<Rightarrow> (case action of Some a \<Rightarrow> a \<in> set SIDE_EFFECT_ACTIONS | None \<Rightarrow> False)
             \<or> (case riskTag of Some r \<Rightarrow> r \<in> set SIDE_EFFECT_RISK_TAGS | None \<Rightarrow> False))"

definition LOOP_MIN_REPEATS :: nat where "LOOP_MIN_REPEATS = 3"

record loop_signal =
  ls_looping :: bool
  ls_repeats :: nat
  ls_toolName :: "string option"

definition detectToolLoop :: "tool_record list \<Rightarrow> string \<Rightarrow> loop_signal" where
  "detectToolLoop records i =
     (let streak = filter (\<lambda>r. tv_invocationId r = i) records
      in case streak of
           [] \<Rightarrow> \<lparr>ls_looping = False, ls_repeats = 0, ls_toolName = None\<rparr>
         | head # _ \<Rightarrow>
             if coalesce (tv_inputDigest head) [] = []
             then \<lparr>ls_looping = False, ls_repeats = 0, ls_toolName = Some (tv_toolName head)\<rparr>
             else (let repeats = length (takeWhile (\<lambda>r. tv_toolName r = tv_toolName head \<and> tv_inputDigest r = tv_inputDigest head) streak)
                   in \<lparr>ls_looping = LOOP_MIN_REPEATS \<le> repeats, ls_repeats = repeats, ls_toolName = Some (tv_toolName head)\<rparr>))"

definition set_loop :: "instant \<Rightarrow> loop_signal \<Rightarrow> run_notes \<Rightarrow> run_notes" where
  "set_loop t s n =
     n\<lparr>nt_loopSuspected := Some \<lparr>tl_toolName = coalesce (ls_toolName s) [], tl_repeats = ls_repeats s, tl_at = t\<rparr>\<rparr>"

definition loop_event :: "string \<Rightarrow> loop_signal \<Rightarrow> event_in" where
  "loop_event i s = mk_ev (Some i) ''agent_loop_suspected'' ''warn''
     (''Possible tool loop: '' @ coalesce (ls_toolName s) [] @ '' called '' @ show_nat (ls_repeats s) @ [CHR 0xD7]
       @ '' with identical input.'')
     (JObj [(''toolName'', jstr (ls_toolName s)), (''repeats'', JNum (int (ls_repeats s)))])"

definition maybeFlagToolLoop :: "instant \<Rightarrow> string \<Rightarrow> 'w server \<Rightarrow> 'w server" where
  "maybeFlagToolLoop t i st =
     (let s = detectToolLoop (tool_records st) i
      in if \<not> ls_looping s then st
         else (let st1 = upd_inv i (upd_notes (set_loop t s)) st
               in if ls_repeats s = LOOP_MIN_REPEATS then append_event t (loop_event i s) st1 else st1))"

definition new_tool_record :: "telemetry_env \<Rightarrow> instant \<Rightarrow> string \<Rightarrow> string \<Rightarrow> round option \<Rightarrow> json \<Rightarrow> tool_record" where
  "new_tool_record te t i k r data =
     (let action = jstr_opt (jget data ''action''); riskTag = jstr_opt (jget data ''riskTag'')
      in \<lparr>tv_id = k, tv_invocationId = i, tv_roundId = map_option rd_id r,
          tv_toolName = text_or ''unknown'' (jget data ''toolName''),
          tv_toolUseId = (case jget data ''toolUseId'' of JStr s \<Rightarrow> if s = [] then None else Some (take 120 s) | _ \<Rightarrow> None),
          tv_inputDigest = jstr_opt (jget data ''inputDigest''), tv_outputDigest = jstr_opt (jget data ''outputDigest''),
          tv_targetPath = jstr_opt (jget data ''targetPath''), tv_action = action, tv_riskTag = riskTag,
          tv_sideEffect = deriveSideEffect action riskTag (jget data ''sideEffect''),
          tv_resultSize = map_option (max 0) (member_number te data ''resultSize''),
          tv_status = (case jget data ''status'' of JStr s \<Rightarrow> if s \<in> set TOOL_STATUSES then s else ''succeeded'' | _ \<Rightarrow> ''succeeded''),
          tv_startedAt = told_or_now t (jget data ''startedAt''), tv_endedAt = told_or_now t (jget data ''endedAt''),
          tv_createdAt = t\<rparr>)"

definition handleToolInvocation :: "telemetry_env \<Rightarrow> instant \<Rightarrow> invocation \<Rightarrow> json \<Rightarrow> 'w server \<Rightarrow> 'w server" where
  "handleToolInvocation te t v data st =
     (let round = coalesce_opt (findRound (inv_id v) (member_number te data ''roundIndex'') st) (latestRound (inv_id v) st);
          (k, st1) = next_id ''tiv_demo'' st;
          st2 = st1\<lparr>tool_records := new_tool_record te t (inv_id v) k round data # tool_records st1,
                    rounds := (case round of
                       None \<Rightarrow> rounds st1
                     | Some r \<Rightarrow> upd_where (\<lambda>x. rd_id x = rd_id r) (\<lambda>x. x\<lparr>rd_toolCallIds := rd_toolCallIds x @ [k]\<rparr>) (rounds st1))\<rparr>
      in maybeFlagToolLoop t (inv_id v) st2)"

section \<open>recordRoundEvent\<close>

definition cap_tables :: "'w server \<Rightarrow> 'w server" where
  "cap_tables st =
     st\<lparr>rounds := take MAX_ROUNDS_TOTAL (rounds st),
        tool_records := take MAX_TOOL_RECORDS_TOTAL (tool_records st), spans := take MAX_SPANS_TOTAL (spans st)\<rparr>"

definition recordRoundEvent :: "telemetry_env \<Rightarrow> instant \<Rightarrow> string \<Rightarrow> string \<Rightarrow> json \<Rightarrow> 'w server \<Rightarrow> 'w server" where
  "recordRoundEvent te t i type raw st =
     (case find_inv i st of
        None \<Rightarrow> st
      | Some v \<Rightarrow>
          if \<not> is_obj raw then st
          else (let data = redactRoundData te raw
                in if type = ''round_started'' then cap_tables (handleRoundStarted te t v data st)
                   else if type = ''round_completed'' then cap_tables (handleRoundCompleted te t v data st)
                   else if type = ''tool_invocation_created'' then cap_tables (handleToolInvocation te t v data st)
                   else st))"

section \<open>The file ledger\<close>

definition DEFAULT_CAP :: nat where "DEFAULT_CAP = 200"

text \<open>One access into the list it belongs to: a path already there is skipped, a full list is marked.\<close>

definition merge_path :: "string \<Rightarrow> string list \<times> bool \<Rightarrow> string list \<times> bool" where
  "merge_path path acc =
     (if path \<in> set (fst acc) then acc
      else if DEFAULT_CAP \<le> length (fst acc) then (fst acc, True) else (fst acc @ [path], snd acc))"

definition merge_access :: "json \<Rightarrow> file_ledger \<Rightarrow> file_ledger" where
  "merge_access access l =
     (let path = (case jget access ''path'' of JStr s \<Rightarrow> js_trim s | _ \<Rightarrow> [])
      in if path = [] then l
         else if jget access ''mode'' = JStr ''write''
         then (let (ws, tr) = merge_path path (fl_writes l, fl_truncated l) in l\<lparr>fl_writes := ws, fl_truncated := tr\<rparr>)
         else (let (rs, tr) = merge_path path (fl_reads l, fl_truncated l) in l\<lparr>fl_reads := rs, fl_truncated := tr\<rparr>))"

definition mergeFileAccesses :: "file_ledger option \<Rightarrow> json list \<Rightarrow> file_ledger" where
  "mergeFileAccesses ledger accesses =
     fold merge_access accesses (coalesce ledger \<lparr>fl_reads = [], fl_writes = [], fl_truncated = False\<rparr>)"

definition recordAgentFileAccess :: "string \<Rightarrow> json list \<Rightarrow> 'w server \<Rightarrow> 'w server" where
  "recordAgentFileAccess i accesses st =
     (if accesses = [] then st
      else upd_inv i (upd_notes (\<lambda>n. n\<lparr>nt_fileLedger := Some (mergeFileAccesses (nt_fileLedger n) accesses)\<rparr>)) st)"

section \<open>The request context\<close>

definition clampString :: "nat \<Rightarrow> json \<Rightarrow> string option" where
  "clampString m v =
     (case v of JStr s \<Rightarrow> if js_trim s = [] then None else Some (take m (js_trim s)) | _ \<Rightarrow> None)"

text \<open>The loops stop when the list is full.\<close>

definition clampNameList :: "json \<Rightarrow> string list" where
  "clampNameList v = (case v of JArr xs \<Rightarrow> take 200 (first_keys (List.map_filter (clampString 80) xs)) | _ \<Rightarrow> [])"

definition clamp_server :: "json \<Rightarrow> (string \<times> string option) option" where
  "clamp_server s = map_option (\<lambda>name. (name, clampString 40 (jget s ''status''))) (clampString 120 (jget s ''name''))"

definition clampMcpServers :: "json \<Rightarrow> (string \<times> string option) list" where
  "clampMcpServers v = (case v of JArr xs \<Rightarrow> take 50 (List.map_filter clamp_server xs) | _ \<Rightarrow> [])"

definition clamped_context :: "telemetry_env \<Rightarrow> json \<Rightarrow> request_context" where
  "clamped_context te raw =
     \<lparr>rq_provider = coalesce (clampString 40 (jget raw ''provider'')) ''anthropic'',
      rq_model = clampString 120 (jget raw ''model''), rq_permissionMode = clampString 40 (jget raw ''permissionMode''),
      rq_tools = clampNameList (jget raw ''tools''),
      rq_mcpServers = clampMcpServers (nullish_or (jget raw ''mcpServers'') (jget raw ''mcp_servers'')),
      rq_skills = clampNameList (jget raw ''skills''), rq_agents = clampNameList (jget raw ''agents''),
      rq_slashCommandCount =
        (case member_number te raw ''slashCommandCount'' of
           Some n \<Rightarrow> max 0 n
         | None \<Rightarrow> (case jget raw ''slash_commands'' of JArr xs \<Rightarrow> int (length xs) | _ \<Rightarrow> 0)),
      rq_sessionId = clampString 120 (nullish_or (jget raw ''sessionId'') (jget raw ''session_id''))\<rparr>"

definition sanitizeRequestContext :: "telemetry_env \<Rightarrow> json \<Rightarrow> request_context option" where
  "sanitizeRequestContext te raw =
     (let c = clamped_context te raw
      in if is_obj raw \<and> (rq_model c \<noteq> None \<or> rq_permissionMode c \<noteq> None \<or> rq_tools c \<noteq> [] \<or> rq_mcpServers c \<noteq> []
           \<or> rq_skills c \<noteq> [] \<or> rq_agents c \<noteq> [] \<or> 0 < rq_slashCommandCount c)
         then Some c else None)"

text \<open>The first report wins.\<close>

definition first_context :: "request_context \<Rightarrow> run_notes \<Rightarrow> run_notes" where
  "first_context c n = (if nt_requestContext n \<noteq> None then n else n\<lparr>nt_requestContext := Some c\<rparr>)"

definition recordRequestContext :: "telemetry_env \<Rightarrow> string \<Rightarrow> json \<Rightarrow> 'w server \<Rightarrow> 'w server" where
  "recordRequestContext te i raw st =
     (case sanitizeRequestContext te raw of
        None \<Rightarrow> st
      | Some c \<Rightarrow> upd_inv i (upd_notes (first_context c)) st)"

section \<open>What the event route does after the append\<close>

definition fold_event :: "telemetry_env \<Rightarrow> instant \<Rightarrow> string \<Rightarrow> string option \<Rightarrow> json \<Rightarrow> 'w server \<Rightarrow> 'w server" where
  "fold_event te t i type data st =
     (let st1 = (case jget data ''fileAccess'' of JArr xs \<Rightarrow> recordAgentFileAccess i xs st | _ \<Rightarrow> st);
          st2 = (if type \<in> set [Some ''round_started'', Some ''round_completed'', Some ''tool_invocation_created'']
                 then recordRoundEvent te t i (the type) data st1 else st1)
      in if type = Some ''request_context'' then recordRequestContext te i data st2 else st2)"

section \<open>What the telemetry touches\<close>

text \<open>The row of the event keeps everything but its start and its notes, a start once set, and a request context once
  reported.\<close>

definition noted :: "invocation \<Rightarrow> invocation \<Rightarrow> bool" where
  "noted v v' \<longleftrightarrow>
     (\<exists>s n. v' = v\<lparr>inv_startedAt := s, inv_notes := n\<rparr>
        \<and> (stamped (inv_startedAt v) \<longrightarrow> s = inv_startedAt v)
        \<and> (nt_requestContext (inv_notes v) \<noteq> None \<longrightarrow> nt_requestContext n = nt_requestContext (inv_notes v)))"

lemma noted_refl [simp]: "noted v v"
  unfolding noted_def by (intro exI [of _ "inv_startedAt v"] exI [of _ "inv_notes v"]) simp

lemma noted_trans: "noted u v \<Longrightarrow> noted v w \<Longrightarrow> noted u w"
proof -
  assume uv: "noted u v" and vw: "noted v w"
  obtain s n where v: "v = u\<lparr>inv_startedAt := s, inv_notes := n\<rparr>" "stamped (inv_startedAt u) \<longrightarrow> s = inv_startedAt u"
      "nt_requestContext (inv_notes u) \<noteq> None \<longrightarrow> nt_requestContext n = nt_requestContext (inv_notes u)"
    using uv unfolding noted_def by blast
  obtain s' n' where w: "w = v\<lparr>inv_startedAt := s', inv_notes := n'\<rparr>" "stamped (inv_startedAt v) \<longrightarrow> s' = inv_startedAt v"
      "nt_requestContext (inv_notes v) \<noteq> None \<longrightarrow> nt_requestContext n' = nt_requestContext (inv_notes v)"
    using vw unfolding noted_def by blast
  show ?thesis
    unfolding noted_def by (intro exI [of _ s'] exI [of _ n'] conjI) (use v w in auto)
qed

lemma noted_id: "noted v v' \<Longrightarrow> inv_id v' = inv_id v"
  unfolding noted_def by auto

definition touches :: "string \<Rightarrow> 'w server \<Rightarrow> 'w server \<Rightarrow> bool" where
  "touches i st st' \<longleftrightarrow> http st' = http st \<and> set (issued_ids st) \<subseteq> set (issued_ids st')
     \<and> (\<exists>f. (\<forall>v. noted v (f v)) \<and> invocations st' = upd_where (\<lambda>x. inv_id x = i) f (invocations st))"

lemma upd_where_twice:
  "(\<And>x. P x \<Longrightarrow> P (f x)) \<Longrightarrow> upd_where P g (upd_where P f xs) = upd_where P (\<lambda>x. g (f x)) xs"
  by (induction xs) auto

lemma touches_refl [simp]: "touches i st st"
  unfolding touches_def by (intro conjI exI [of _ "\<lambda>v. v"]) (simp_all add: upd_where_def)

lemma touches_trans: "touches i a b \<Longrightarrow> touches i b c \<Longrightarrow> touches i a c"
proof -
  assume ab: "touches i a b" and bc: "touches i b c"
  then obtain f g where f: "\<forall>v. noted v (f v)" "invocations b = upd_where (\<lambda>x. inv_id x = i) f (invocations a)"
    and g: "\<forall>v. noted v (g v)" "invocations c = upd_where (\<lambda>x. inv_id x = i) g (invocations b)"
    unfolding touches_def by blast
  have "invocations c = upd_where (\<lambda>x. inv_id x = i) (\<lambda>x. g (f x)) (invocations a)"
    unfolding g(2) f(2) by (rule upd_where_twice) (use f(1) noted_id in metis)
  then have "\<exists>h. (\<forall>v. noted v (h v)) \<and> invocations c = upd_where (\<lambda>x. inv_id x = i) h (invocations a)"
    by (intro exI [of _ "\<lambda>x. g (f x)"]) (use f(1) g(1) noted_trans in blast)
  then show ?thesis using ab bc unfolding touches_def by (elim conjE, intro conjI) (simp, blast, blast)
qed

lemma touches_same:
  "touches i st s \<Longrightarrow> invocations s' = invocations s \<Longrightarrow> set (issued_ids s) \<subseteq> set (issued_ids s') \<Longrightarrow> http s' = http s
   \<Longrightarrow> touches i st s'"
  unfolding touches_def by auto

lemma touches_upd:
  assumes "touches i st s" and "\<And>v. noted v (f v)"
  shows "touches i st (upd_inv i f s)"
  by (rule touches_trans [OF assms(1)]) (use assms(2) in \<open>auto simp: touches_def\<close>)

lemma noted_notes: "(\<And>n. nt_requestContext n \<noteq> None \<Longrightarrow> nt_requestContext (f n) = nt_requestContext n) \<Longrightarrow> noted v (upd_notes f v)"
  unfolding noted_def upd_notes_def by (intro exI [of _ "inv_startedAt v"] exI [of _ "f (inv_notes v)"]) simp

lemma noted_start: "noted v (start_row s v)"
  unfolding noted_def start_row_def
  by (intro exI [of _ "if stamped (inv_startedAt v) then inv_startedAt v else Some s"] exI [of _ "inv_notes v"]) simp

lemma touches_event: "touches i st s \<Longrightarrow> touches i st (append_event t e s)"
  by (erule touches_same) (simp_all add: append_event_issued)

lemma touches_refuse: "touches i st (refuse_unchecked t a st)"
  by (rule touches_same [OF touches_refl]) (simp_all add: refuse_unchecked_issued)

lemma touches_rows:
  "touches i st s \<Longrightarrow> touches i st (s\<lparr>spans := x\<rparr>)" "touches i st s \<Longrightarrow> touches i st (s\<lparr>rounds := y\<rparr>)"
  "touches i st s \<Longrightarrow> touches i st (s\<lparr>rounds := y, spans := x\<rparr>)"
  "touches i st s \<Longrightarrow> touches i st (s\<lparr>rounds := y, tool_records := z\<rparr>)"
  "touches i st s \<Longrightarrow> touches i st (s\<lparr>rounds := y, tool_records := z, spans := x\<rparr>)"
  by (erule touches_same; simp)+

lemma touches_tools: "touches i st s \<Longrightarrow> touches i st (s\<lparr>tool_records := z\<rparr>)"
  by (erule touches_same; simp)

lemma touches_id: "touches i st s \<Longrightarrow> touches i st (snd (next_id p s))"
  by (erule touches_same) (auto simp: next_id_def Let_def)

lemmas touches_steps = touches_event touches_rows touches_tools touches_id touches_upd noted_notes noted_start

lemma touches_cap: "touches (inv_id v) st s \<Longrightarrow> touches (inv_id v) st (snd (atCap t v s))"
  by (auto simp: atCap_def Let_def bump_dropped_def intro!: touches_steps)

lemma touches_create: "touches (inv_id v) st s \<Longrightarrow> touches (inv_id v) st (snd (createRound te t v data status s))"
  unfolding createRound_def Let_def case_prod_beta snd_conv
  by (intro touches_steps) simp_all

lemma touches_finish: "touches i st s \<Longrightarrow> touches i st (finish_round te t data r s)"
  by (auto simp: finish_round_def completeRoundSpan_def intro!: touches_steps)

lemma touches_started: "touches (inv_id v) st s \<Longrightarrow> touches (inv_id v) st (handleRoundStarted te t v data s)"
  using touches_cap [of v st s t] touches_create [of v st "snd (atCap t v s)" te t data]
  by (cases "atCap t v s") (auto simp: handleRoundStarted_def split: bool.split)

lemma touches_completed: "touches (inv_id v) st s \<Longrightarrow> touches (inv_id v) st (handleRoundCompleted te t v data s)"
  using touches_cap [of v st s t] touches_create [of v st "snd (atCap t v s)" te t data "''started''"]
  by (cases "atCap t v s") (auto simp: handleRoundCompleted_def case_prod_beta intro!: touches_finish split: bool.split option.split)

lemma touches_loop: "touches i st s \<Longrightarrow> touches i st (maybeFlagToolLoop t i s)"
  by (auto simp: maybeFlagToolLoop_def Let_def set_loop_def intro!: touches_steps)

lemma touches_tool: "touches (inv_id v) st s \<Longrightarrow> touches (inv_id v) st (handleToolInvocation te t v data s)"
  unfolding handleToolInvocation_def Let_def case_prod_beta
  by (intro touches_loop touches_steps)

lemma touches_capped: "touches i st s \<Longrightarrow> touches i st (cap_tables s)"
  by (erule touches_same) (simp_all add: cap_tables_def)

lemma touches_record: "touches i st (recordRoundEvent te t i type raw st)"
proof (cases "find_inv i st")
  case (Some v)
  then have "inv_id v = i" by (simp add: find_inv_SomeD)
  then show ?thesis
    using Some touches_started [OF touches_refl, of v st te t] touches_completed [OF touches_refl, of v st te t]
      touches_tool [OF touches_refl, of v st te t]
    by (auto simp: recordRoundEvent_def Let_def intro!: touches_capped)
qed (simp add: recordRoundEvent_def)

lemma touches_files: "touches i st (recordAgentFileAccess i xs st)"
  by (auto simp: recordAgentFileAccess_def intro!: touches_upd noted_notes)

lemma touches_context: "touches i st (recordRequestContext te i raw st)"
  by (auto simp: recordRequestContext_def first_context_def intro!: touches_upd noted_notes split: option.split)

lemma touches_fold: "touches i st (fold_event te t i type data st)"
proof -
  define s1 where "s1 = (case jget data ''fileAccess'' of JArr xs \<Rightarrow> recordAgentFileAccess i xs st | _ \<Rightarrow> st)"
  define s2 where "s2 = (if type \<in> set [Some ''round_started'', Some ''round_completed'', Some ''tool_invocation_created'']
      then recordRoundEvent te t i (the type) data s1 else s1)"
  have "touches i st s1" unfolding s1_def by (auto simp: touches_files split: json.split)
  moreover have "touches i s1 s2" unfolding s2_def using touches_record by auto
  moreover have "touches i s2 (fold_event te t i type data st)"
    unfolding fold_event_def Let_def s1_def [symmetric] s2_def [symmetric] by (auto simp: touches_context)
  ultimately show ?thesis by (blast intro: touches_trans)
qed

lemma touches_find:
  assumes "touches i st st'"
  shows "j \<noteq> i \<Longrightarrow> find_inv j st' = find_inv j st"
    and "find_inv i st = Some v \<Longrightarrow> \<exists>v'. find_inv i st' = Some v' \<and> noted v v'"
    and "find_inv i st = None \<Longrightarrow> find_inv i st' = None"
    and "map inv_id (invocations st') = map inv_id (invocations st)"
proof -
  obtain f where f: "\<forall>v. noted v (f v)" "invocations st' = upd_where (\<lambda>x. inv_id x = i) f (invocations st)"
    using assms unfolding touches_def by blast
  have same: "inv_id (f v) = inv_id v" for v using f(1) noted_id by blast
  have "find_inv j st' = find_inv j (upd_inv i f st)" for j unfolding find_inv_def using f(2) by simp
  then have *: "find_inv j st' = (if i = j then map_option f (find_inv j st) else find_inv j st)" for j
    using same by (simp add: find_inv_upd_inv)
  show "j \<noteq> i \<Longrightarrow> find_inv j st' = find_inv j st" "find_inv i st = None \<Longrightarrow> find_inv i st' = None" by (simp_all add: *)
  show "find_inv i st = Some v \<Longrightarrow> \<exists>v'. find_inv i st' = Some v' \<and> noted v v'" using f(1) by (simp add: *)
  show "map inv_id (invocations st') = map inv_id (invocations st)" unfolding f(2) by (rule map_inv_id_upd) (rule same)
qed

section \<open>Bounds\<close>

definition notes_ok :: "run_notes \<Rightarrow> bool" where
  "notes_ok n \<longleftrightarrow>
     (\<forall>l. nt_fileLedger n = Some l \<longrightarrow> length (fl_reads l) \<le> 200 \<and> length (fl_writes l) \<le> 200
        \<and> distinct (fl_reads l) \<and> distinct (fl_writes l))
     \<and> (\<forall>c. nt_requestContext n = Some c \<longrightarrow> length (rq_mcpServers c) \<le> 50
        \<and> (\<forall>names \<in> {rq_tools c, rq_skills c, rq_agents c}. length names \<le> 200 \<and> distinct names \<and> (\<forall>s \<in> set names. length s \<le> 80)))
     \<and> (\<forall>l. nt_loopSuspected n = Some l \<longrightarrow> 3 \<le> tl_repeats l)"

definition telemetry_ok :: "'w server \<Rightarrow> bool" where
  "telemetry_ok st \<longleftrightarrow> length (rounds st) \<le> 5000 \<and> length (tool_records st) \<le> 5000
     \<and> (\<forall>i. length (filter (\<lambda>r. rd_invocationId r = i) (rounds st)) \<le> 500)
     \<and> (\<forall>v \<in> set (invocations st). notes_ok (inv_notes v))"

lemma telemetry_frame [simp, frame]:
  "rounds (snd (next_id p st)) = rounds st" "tool_records (snd (next_id p st)) = tool_records st"
  "rounds (append_event t e st) = rounds st" "tool_records (append_event t e st) = tool_records st"
  "rounds (upd_inv i f st) = rounds st" "tool_records (upd_inv i f st) = tool_records st"
  by (simp_all add: next_id_def append_event_def log_push_def upd_inv_def Let_def case_prod_beta)

lemma telemetry_refuse [simp, frame]:
  "rounds (refuse_unchecked t a st) = rounds st" "tool_records (refuse_unchecked t a st) = tool_records st"
  by (simp_all add: refuse_unchecked_def refusal_push_def recordRefusalDailyStat_def Let_def case_prod_beta split: option.split)

text \<open>The notes of the rows.\<close>

definition rows_ok :: "'w server \<Rightarrow> bool" where
  "rows_ok st \<longleftrightarrow> (\<forall>v \<in> set (invocations st). notes_ok (inv_notes v))"

lemma noted_rows_upd: "rows_ok st \<Longrightarrow> (\<And>v. notes_ok (inv_notes v) \<Longrightarrow> notes_ok (inv_notes (f v))) \<Longrightarrow> rows_ok (upd_inv i f st)"
  by (auto simp: rows_ok_def set_upd_where)

lemma rows_same: "rows_ok st \<Longrightarrow> invocations st' = invocations st \<Longrightarrow> rows_ok st'"
  by (simp add: rows_ok_def)

lemma rows_notes: "rows_ok st \<Longrightarrow> (\<And>n. notes_ok n \<Longrightarrow> notes_ok (f n)) \<Longrightarrow> rows_ok (upd_inv i (upd_notes f) st)"
  by (rule noted_rows_upd) (simp_all add: upd_notes_def)

lemma rows_event: "rows_ok st \<Longrightarrow> rows_ok (append_event t e st)"
  by (erule rows_same) simp

lemma rows_cap: "rows_ok st \<Longrightarrow> rows_ok (snd (atCap t v st))"
  by (auto simp: atCap_def Let_def bump_dropped_def notes_ok_def intro!: rows_event rows_notes)

lemma rows_create: "rows_ok st \<Longrightarrow> rows_ok (snd (createRound te t v data status st))"
  unfolding createRound_def Let_def case_prod_beta snd_conv
  by (rule noted_rows_upd) (erule rows_same, simp_all add: start_row_def)

lemma rows_finish: "rows_ok st \<Longrightarrow> rows_ok (finish_round te t data r st)"
  by (erule rows_same) (simp add: finish_round_def completeRoundSpan_def)

lemma rows_loop: "rows_ok st \<Longrightarrow> rows_ok (maybeFlagToolLoop t i st)"
proof -
  have "3 \<le> ls_repeats (detectToolLoop rs i)" if "ls_looping (detectToolLoop rs i)" for rs
    using that by (auto simp: detectToolLoop_def Let_def LOOP_MIN_REPEATS_def split: list.splits if_splits)
  then show "rows_ok st \<Longrightarrow> ?thesis"
    by (auto simp: maybeFlagToolLoop_def Let_def set_loop_def notes_ok_def LOOP_MIN_REPEATS_def intro!: rows_event rows_notes)
qed

lemma rows_handlers:
  assumes "rows_ok st"
  shows "rows_ok (handleRoundStarted te t v data st)" and "rows_ok (handleRoundCompleted te t v data st)"
    and "rows_ok (handleToolInvocation te t v data st)"
proof -
  obtain b st1 where c: "atCap t v st = (b, st1)" by (meson surj_pair)
  have st1: "rows_ok st1" using rows_cap [OF assms, of t v] c by simp
  have cr: "rows_ok (snd (createRound te t v data s st1))" for s using rows_create [OF st1] .
  show "rows_ok (handleRoundStarted te t v data st)"
    using assms st1 cr c by (auto simp: handleRoundStarted_def split: bool.split)
  show "rows_ok (handleRoundCompleted te t v data st)"
    using assms st1 cr c by (auto simp: handleRoundCompleted_def case_prod_beta intro!: rows_finish split: bool.split option.split)
  show "rows_ok (handleToolInvocation te t v data st)"
    unfolding handleToolInvocation_def Let_def case_prod_beta
    by (rule rows_loop, rule rows_same [OF assms]) simp
qed

lemma merge_path_ok:
  "length (fst acc) \<le> 200 \<Longrightarrow> distinct (fst acc) \<Longrightarrow> length (fst (merge_path p acc)) \<le> 200 \<and> distinct (fst (merge_path p acc))"
  by (auto simp: merge_path_def DEFAULT_CAP_def)

definition ledger_ok :: "file_ledger \<Rightarrow> bool" where
  "ledger_ok l \<longleftrightarrow> length (fl_reads l) \<le> 200 \<and> length (fl_writes l) \<le> 200 \<and> distinct (fl_reads l) \<and> distinct (fl_writes l)"

lemma merge_access_ok: "ledger_ok l \<Longrightarrow> ledger_ok (merge_access a l)"
  using merge_path_ok [of "(fl_reads l, fl_truncated l)"] merge_path_ok [of "(fl_writes l, fl_truncated l)"]
  by (auto simp: merge_access_def ledger_ok_def Let_def case_prod_beta)

lemma merge_ok: "(\<And>l. ledger = Some l \<Longrightarrow> ledger_ok l) \<Longrightarrow> ledger_ok (mergeFileAccesses ledger xs)"
proof -
  have "ledger_ok l \<Longrightarrow> ledger_ok (fold merge_access xs l)" for l
    by (induction xs arbitrary: l) (simp_all add: merge_access_ok)
  then show "(\<And>l. ledger = Some l \<Longrightarrow> ledger_ok l) \<Longrightarrow> ?thesis"
    by (cases ledger) (auto simp: mergeFileAccesses_def ledger_ok_def)
qed

lemma rows_files: "rows_ok st \<Longrightarrow> rows_ok (recordAgentFileAccess i xs st)"
  using merge_ok unfolding recordAgentFileAccess_def
  by (auto simp: notes_ok_def ledger_ok_def intro!: rows_notes)

lemma clamp_names_ok: "length (clampNameList v) \<le> 200 \<and> distinct (clampNameList v) \<and> (\<forall>s \<in> set (clampNameList v). length s \<le> 80)"
proof -
  have "length s \<le> 80" if "s \<in> set (List.map_filter (clampString 80) xs)" for s xs
    using that by (induction xs) (auto simp: List.map_filter_simps clampString_def split: json.splits option.splits if_splits)
  then show ?thesis
    by (cases v) (auto simp: clampNameList_def first_keys_def dest: in_set_takeD)
qed

lemma rows_context: "rows_ok st \<Longrightarrow> rows_ok (recordRequestContext te i raw st)"
proof -
  have c: "length (rq_mcpServers c) \<le> 50 \<and> (\<forall>names \<in> {rq_tools c, rq_skills c, rq_agents c}. length names \<le> 200 \<and> distinct names \<and> (\<forall>s \<in> set names. length s \<le> 80))"
    if "sanitizeRequestContext te raw = Some c" for c
    using that clamp_names_ok by (auto simp: sanitizeRequestContext_def clamped_context_def clampMcpServers_def Let_def split: if_splits json.split)
  then show "rows_ok st \<Longrightarrow> ?thesis"
    unfolding recordRequestContext_def
    by (cases "sanitizeRequestContext te raw") (auto simp: first_context_def notes_ok_def intro!: rows_notes)
qed

text \<open>The tables.\<close>

definition rounds_ok :: "'w server \<Rightarrow> bool" where
  "rounds_ok st \<longleftrightarrow> (\<forall>i. length (filter (\<lambda>r. rd_invocationId r = i) (rounds st)) \<le> 500)"

lemma rounds_upd: "rounds_ok st \<Longrightarrow> (\<And>r. rd_invocationId (f r) = rd_invocationId r) \<Longrightarrow> rounds st' = upd_where P f (rounds st) \<Longrightarrow> rounds_ok st'"
proof -
  have "length (filter (\<lambda>r. rd_invocationId r = i) (upd_where P f xs)) = length (filter (\<lambda>r. rd_invocationId r = i) xs)"
    if "\<And>r. rd_invocationId (f r) = rd_invocationId r" for i xs
    by (induction xs) (simp_all add: that)
  then show "rounds_ok st \<Longrightarrow> (\<And>r. rd_invocationId (f r) = rd_invocationId r) \<Longrightarrow> rounds st' = upd_where P f (rounds st) \<Longrightarrow> ?thesis"
    by (simp add: rounds_ok_def)
qed

lemma cap_rounds: "rounds (snd (atCap t v st)) = rounds st" "\<not> fst (atCap t v st) \<longleftrightarrow> length (roundsForInvocation (inv_id v) st) < 500"
  by (simp_all add: atCap_def Let_def MAX_ROUNDS_PER_INVOCATION_def)

lemma create_rounds:
  "rounds (snd (createRound te t v data status st)) = fst (createRound te t v data status st) # rounds st"
  "rd_invocationId (fst (createRound te t v data status st)) = inv_id v"
  "rd_roundIndex (fst (createRound te t v data status st))
    = coalesce (member_number te data ''roundIndex'') (int (length (roundsForInvocation (inv_id v) st)))"
  by (simp_all add: createRound_def Let_def case_prod_beta new_round_def)

lemma rounds_create:
  "rounds_ok st \<Longrightarrow> length (roundsForInvocation (inv_id v) st) < 500 \<Longrightarrow> rounds_ok (snd (createRound te t v data s st))"
  by (auto simp: rounds_ok_def create_rounds roundsForInvocation_def)

lemma rounds_finish: "rounds_ok st \<Longrightarrow> rounds_ok (finish_round te t data r st)"
  by (erule rounds_upd [of _ "completed_round te t data"])
    (simp_all add: completed_round_def Let_def finish_round_def completeRoundSpan_def)

lemma loop_rounds: "rounds (maybeFlagToolLoop t i st) = rounds st"
  by (simp add: maybeFlagToolLoop_def Let_def)

lemma rounds_handlers:
  assumes "rounds_ok st"
  shows "rounds_ok (handleRoundStarted te t v data st)" and "rounds_ok (handleRoundCompleted te t v data st)"
    and "rounds_ok (handleToolInvocation te t v data st)"
proof -
  obtain b st1 where c: "atCap t v st = (b, st1)" by (meson surj_pair)
  have st1: "rounds st1 = rounds st" "\<not> b \<Longrightarrow> length (roundsForInvocation (inv_id v) st1) < 500"
    using cap_rounds [of t v st] c by (auto simp: roundsForInvocation_def)
  then have ok: "rounds_ok st1" using assms by (simp add: rounds_ok_def)
  have cr: "\<not> b \<Longrightarrow> rounds_ok (snd (createRound te t v data s st1))" for s using rounds_create [OF ok st1(2)] .
  show "rounds_ok (handleRoundStarted te t v data st)"
    using assms ok cr c by (auto simp: handleRoundStarted_def split: bool.split)
  show "rounds_ok (handleRoundCompleted te t v data st)"
    using assms ok cr c by (auto simp: handleRoundCompleted_def case_prod_beta intro!: rounds_finish split: bool.split option.split)
  have "rounds (handleToolInvocation te t v data st) = upd_where (\<lambda>x. \<exists>r. coalesce_opt (findRound (inv_id v) (member_number te data ''roundIndex'') st) (latestRound (inv_id v) st) = Some r \<and> rd_id x = rd_id r)
      (\<lambda>x. x\<lparr>rd_toolCallIds := rd_toolCallIds x @ [fst (next_id ''tiv_demo'' st)]\<rparr>) (rounds st)"
    by (auto simp: handleToolInvocation_def Let_def case_prod_beta loop_rounds upd_where_def split: option.split)
  then show "rounds_ok (handleToolInvocation te t v data st)" by (rule rounds_upd [OF assms, rotated]) simp
qed

lemma capped_ok: "rounds_ok s \<Longrightarrow> rows_ok s \<Longrightarrow> telemetry_ok (cap_tables s)"
proof -
  have "length (filter P (take n xs)) \<le> length (filter P xs)" for P n and xs :: "round list"
    by (metis append_take_drop_id filter_append le_add1 length_append)
  then show "rounds_ok s \<Longrightarrow> rows_ok s \<Longrightarrow> ?thesis"
    unfolding telemetry_ok_def rounds_ok_def rows_ok_def
    by (simp add: cap_tables_def MAX_ROUNDS_TOTAL_def MAX_TOOL_RECORDS_TOTAL_def) (meson le_trans)
qed

lemma telemetry_parts: "telemetry_ok st \<longleftrightarrow> rounds_ok st \<and> rows_ok st \<and> length (rounds st) \<le> 5000 \<and> length (tool_records st) \<le> 5000"
  by (auto simp: telemetry_ok_def rounds_ok_def rows_ok_def)

lemma record_ok:
  assumes "telemetry_ok st"
  shows "telemetry_ok (recordRoundEvent te t i type raw st)"
proof -
  have r: "rounds_ok st" and w: "rows_ok st" using assms by (simp_all only: telemetry_parts)
  show ?thesis
    unfolding recordRoundEvent_def Let_def
    by (split option.split, intro conjI allI impI)
      (simp_all only: assms if_cancel rounds_handlers [OF r] rows_handlers [OF w] capped_ok split: if_split, simp_all add: assms)
qed

lemma notes_tables:
  "rounds (recordAgentFileAccess i xs st) = rounds st" "tool_records (recordAgentFileAccess i xs st) = tool_records st"
  "rounds (recordRequestContext te i raw st) = rounds st" "tool_records (recordRequestContext te i raw st) = tool_records st"
  by (simp_all add: recordAgentFileAccess_def recordRequestContext_def split: option.split)

lemma notes_only_ok:
  assumes "telemetry_ok st"
  shows "telemetry_ok (recordAgentFileAccess i xs st)" and "telemetry_ok (recordRequestContext te i raw st)"
  using assms by (simp_all add: telemetry_parts rounds_ok_def notes_tables rows_files rows_context)

lemma fold_event_ok: "telemetry_ok st \<Longrightarrow> telemetry_ok (fold_event te t i type data st)"
  by (auto simp: fold_event_def Let_def intro!: notes_only_ok record_ok split: json.split)

section \<open>No round is dropped silently\<close>

lemma jmember_jset: "k \<noteq> k' \<Longrightarrow> jmember (jset d k v) k' = jmember d k'"
  by (cases d) auto

lemma redact_member: "k \<notin> set DIGEST_FIELDS \<Longrightarrow> jmember (redactRoundData te d) k = jmember d k"
proof -
  have "jmember (fold (\<lambda>k d. case jget d k of JStr s \<Rightarrow> jset d k (jstr (redactDigest te s)) | _ \<Rightarrow> d) ks d) k = jmember d k"
    if "k \<notin> set ks" for ks d
    using that by (induction ks arbitrary: d) (auto simp: jmember_jset split: json.split)
  then show "k \<notin> set DIGEST_FIELDS \<Longrightarrow> ?thesis" by (simp add: redactRoundData_def)
qed

lemma redact_number: "member_number te (redactRoundData te d) ''roundIndex'' = member_number te d ''roundIndex''"
  by (simp add: member_number_def redact_member DIGEST_FIELDS_def)

lemma started_round:
  assumes "findRound (inv_id v) (member_number te data ''roundIndex'') st = None"
  shows "if length (roundsForInvocation (inv_id v) st) < 500
    then \<exists>r. rounds (handleRoundStarted te t v data st) = r # rounds st \<and> rd_invocationId r = inv_id v \<and> rd_status r = ''started''
           \<and> rd_roundIndex r = coalesce (member_number te data ''roundIndex'') (int (length (roundsForInvocation (inv_id v) st)))
    else rounds (handleRoundStarted te t v data st) = rounds st
       \<and> invocations (handleRoundStarted te t v data st)
          = upd_where (\<lambda>x. inv_id x = inv_id v) (upd_notes bump_dropped) (invocations st)"
proof (cases "length (roundsForInvocation (inv_id v) st) < 500")
  case True
  then have "atCap t v st = (False, st)" by (simp add: atCap_def MAX_ROUNDS_PER_INVOCATION_def)
  moreover have "rd_status (fst (createRound te t v data ''started'' st)) = ''started''"
    by (simp add: createRound_def Let_def case_prod_beta new_round_def)
  ultimately show ?thesis using assms True
    by (auto simp: handleRoundStarted_def create_rounds intro!: exI [of _ "fst (createRound te t v data ''started'' st)"])
next
  case False
  then show ?thesis using assms by (auto simp: handleRoundStarted_def atCap_def Let_def MAX_ROUNDS_PER_INVOCATION_def)
qed

lemma files_row:
  "find_inv i st = Some v \<Longrightarrow> \<exists>w. find_inv i (recordAgentFileAccess i xs st) = Some w
     \<and> nt_droppedRounds (inv_notes w) = nt_droppedRounds (inv_notes v)"
  by (simp add: recordAgentFileAccess_def find_inv_upd_inv upd_notes_def)

lemma fold_started:
  assumes "find_inv i st = Some v" and "is_obj data" and "findRound i (member_number te data ''roundIndex'') st = None"
    and "length (rounds st) \<le> 5000"
  shows "let mine = filter (\<lambda>x. rd_invocationId x = i) (rounds st); st' = fold_event te t i (Some ''round_started'') data st
    in if length mine < 500
       then \<exists>q. rounds st' = take 5000 (q # rounds st) \<and> rd_invocationId q = i \<and> rd_status q = ''started''
              \<and> rd_roundIndex q = coalesce (member_number te data ''roundIndex'') (int (length mine))
       else rounds st' = rounds st
          \<and> (\<exists>v'. find_inv i st' = Some v' \<and> nt_droppedRounds (inv_notes v') = nt_droppedRounds (inv_notes v) + 1)"
proof -
  define s where "s = (case jget data ''fileAccess'' of JArr xs \<Rightarrow> recordAgentFileAccess i xs st | _ \<Rightarrow> st)"
  have rs: "rounds s = rounds st" unfolding s_def by (simp add: notes_tables split: json.split)
  obtain v1 where v1: "find_inv i s = Some v1" "nt_droppedRounds (inv_notes v1) = nt_droppedRounds (inv_notes v)"
    unfolding s_def using assms(1) files_row [OF assms(1)] by (cases "jget data ''fileAccess''") auto
  have id: "inv_id v1 = i" using v1(1) by (simp add: find_inv_SomeD)
  let ?d = "redactRoundData te data"
  have st': "fold_event te t i (Some ''round_started'') data st = cap_tables (handleRoundStarted te t v1 ?d s)"
    unfolding fold_event_def s_def [symmetric] by (simp add: recordRoundEvent_def v1(1) assms(2) Let_def)
  have none: "findRound (inv_id v1) (member_number te ?d ''roundIndex'') s = None"
    using assms(3) rs id by (simp add: redact_number findRound_def cong: option.case_cong)
  have mine: "roundsForInvocation i s = filter (\<lambda>x. rd_invocationId x = i) (rounds st)"
    by (simp add: roundsForInvocation_def rs)
  note step = started_round [OF none, of t, unfolded mine redact_number id rs]
  show ?thesis
  proof (cases "length (filter (\<lambda>x. rd_invocationId x = i) (rounds st)) < 500")
    case True
    then show ?thesis using step unfolding st' Let_def by (auto simp: cap_tables_def MAX_ROUNDS_TOTAL_def)
  next
    case False
    then have r: "rounds (handleRoundStarted te t v1 ?d s) = rounds st"
      and inv: "invocations (handleRoundStarted te t v1 ?d s) = invocations (upd_inv i (upd_notes bump_dropped) s)"
      using step by simp_all
    have "find_inv i (cap_tables (handleRoundStarted te t v1 ?d s)) = find_inv i (upd_inv i (upd_notes bump_dropped) s)"
      unfolding find_inv_def by (simp add: cap_tables_def inv)
    also have "\<dots> = Some (upd_notes bump_dropped v1)" using v1(1) by (simp add: find_inv_upd_inv upd_notes_def)
    finally show ?thesis using False r v1(2) assms(4) unfolding st' Let_def
      by (simp add: cap_tables_def MAX_ROUNDS_TOTAL_def upd_notes_def bump_dropped_def)
  qed
qed

text \<open>A round that is reported without an index is given the number of rounds the run has, which may be the index of one
  of them: two rounds of the run then share an index, and a later event finds only the newer one.\<close>

theorem unnumbered_round_collides:
  assumes "member_number te data ''roundIndex'' = None" and "length (roundsForInvocation (inv_id v) st) = 1"
    and "list_all (\<lambda>r. rd_roundIndex r = 1) (roundsForInvocation (inv_id v) st)"
  shows "\<not> distinct (map rd_roundIndex (roundsForInvocation (inv_id v) (handleRoundStarted te t v data st)))"
proof -
  obtain r where r: "roundsForInvocation (inv_id v) st = [r]" "rd_roundIndex r = 1"
    using assms(2,3) by (cases "roundsForInvocation (inv_id v) st") auto
  have "findRound (inv_id v) (member_number te data ''roundIndex'') st = None" by (simp add: assms(1) findRound_def)
  from started_round [OF this, of t] obtain q where
    "rounds (handleRoundStarted te t v data st) = q # rounds st" "rd_invocationId q = inv_id v" "rd_roundIndex q = 1"
    using assms(1,2) by auto
  then have "roundsForInvocation (inv_id v) (handleRoundStarted te t v data st) = [q, r]" "rd_roundIndex q = 1"
    using r by (simp_all add: roundsForInvocation_def)
  then show ?thesis using r(2) by simp
qed

definition null_telemetry :: telemetry_env where
  "null_telemetry = \<lparr>te_scrub = (\<lambda>s. s), te_number = (\<lambda>s. None), te_parse = (\<lambda>s. None), te_price = (\<lambda>m i c k. None)\<rparr>"

end
