(* ===== verification/BridgeRoutes.thy ===== *)
theory BridgeRoutes
  imports Dispatch InvocationCancel RoundTelemetry
begin

text \<open>
  routes/bridge.mjs: what the Desktop Bridge may do with an invocation over HTTP, behind the gate that
  compares the authenticated device (\<open>dev\<close>, from BridgeAuth) with the owner of the delivery.  A
  response is its status and, for an error, the error word; the body of a success is not modelled
  except where it carries state (the polled invocation, the cancel flags).
\<close>

section \<open>The gate\<close>

type_synonym response = "nat \<times> string option"

definition gate_evidence :: "string \<Rightarrow> string \<Rightarrow> invocation \<Rightarrow> json" where
  "gate_evidence dev operation v =
     JObj [(''operation'', JStr operation), (''deviceId'', JStr dev),
           (''deliveryDeviceId'', jstr (del_deviceId (inv_delivery v))),
           (''deliveryState'', JStr (delivery_str (del_state (inv_delivery v)))),
           (''invocationStatus'', JStr (status_str (inv_status v)))]"

definition appendBridgeRefusalEvent ::
    "instant \<Rightarrow> string \<Rightarrow> string \<Rightarrow> json \<Rightarrow> invocation \<Rightarrow> 'w server \<Rightarrow> 'w server" where
  "appendBridgeRefusalEvent t operation reason evidence v st =
     (let ev = jset evidence ''reason'' (JStr reason)
      in refuse_unchecked t
        \<lparr>ri_subject = Some (ref_to ''invocation'' (Some (inv_id v))),
         ri_requester = Some (ref_to ''local_user'' (coalesce_opt (del_deviceId (inv_delivery v)) (Some (dev_id st)))),
         ri_category = ''state'', ri_code = ''subject_not_actionable'',
         ri_decidedBy = Some (ref_to ''policy_engine'' (Some ''bridge_gate'')),
         ri_summary = Some (''Bridge '' @ operation @ '' refused: '' @ reason @ ''.''),
         ri_evidence = ev,
         ri_remedy = Some ''The delivery must be owned by this device and in an actionable state.'',
         ri_retryAfter = None, ri_appealTo = None,
         ri_event = Some (mk_ev (Some (inv_id v)) ''bridge_delivery_refused'' ''warn''
           (''Desktop Bridge '' @ operation @ '' refused: '' @ reason @ ''.'') ev)\<rparr> st)"

definition bridgeInvocationGate ::
    "instant \<Rightarrow> string \<Rightarrow> string \<Rightarrow> inv_status set \<Rightarrow> delivery_state set \<Rightarrow> string \<Rightarrow> 'w server
     \<Rightarrow> (response + invocation) \<times> 'w server" where
  "bridgeInvocationGate t dev operation allowedStatuses allowedDeliveryStates i st =
     (case find_inv i st of
        None \<Rightarrow> (Inl (404, Some ''invocation_not_found''), st)
      | Some v \<Rightarrow>
          if del_deviceId (inv_delivery v) \<noteq> Some dev
          then (Inl (403, Some ''bridge_invocation_not_owned''),
                appendBridgeRefusalEvent t operation ''bridge_invocation_not_owned''
                  (gate_evidence dev operation v) v st)
          else if inv_status v \<notin> allowedStatuses \<or> del_state (inv_delivery v) \<notin> allowedDeliveryStates
          then (Inl (409, Some ''bridge_invocation_not_active''),
                appendBridgeRefusalEvent t operation ''bridge_invocation_not_active''
                  (gate_evidence dev operation v) v st)
          else (Inr v, st))"

section \<open>Routes\<close>

text \<open>GET /api/bridge/next.  \<open>linked\<close> is the link state of the polling device; the queue it is served
  from is that of the primary device, \<open>device st\<close>.\<close>

definition bridge_next ::
    "'w hooks \<Rightarrow> (instant \<Rightarrow> int) \<Rightarrow> (string \<times> string) list \<Rightarrow> int \<Rightarrow> instant \<Rightarrow> string \<Rightarrow> bool \<Rightarrow> 'w server
     \<Rightarrow> string option \<times> 'w server" where
  "bridge_next hk date_key leases lease t dev linked st =
     (if \<not> linked then (None, st)
      else
        (let (next, st1) = nextDispatchableInvocation hk date_key leases lease t
                             (redeliverExpiredDispatches hk t st)
         in case next of
              None \<Rightarrow> (None, st1)
            | Some i \<Rightarrow> (Some i, markDispatched lease t i st1)))"

definition bridge_cancel_status ::
    "instant \<Rightarrow> string \<Rightarrow> string \<Rightarrow> 'w server \<Rightarrow> (response + bool) \<times> 'w server" where
  "bridge_cancel_status t dev i st =
     (case bridgeInvocationGate t dev ''cancel-status'' {Running, Cancelling} {DAcknowledged} i st of
        (Inl r, st1) \<Rightarrow> (Inl r, st1)
      | (Inr v, st1) \<Rightarrow> (Inr (can_state (inv_cancellation v) = CRequested), st1))"

definition bridge_cancellations :: "string \<Rightarrow> 'w server \<Rightarrow> string list" where
  "bridge_cancellations dev st =
     map inv_id (filter (\<lambda>v. del_deviceId (inv_delivery v) = Some dev
         \<and> del_state (inv_delivery v) = DAcknowledged
         \<and> inv_status v \<in> {Running, Cancelling}
         \<and> can_state (inv_cancellation v) = CRequested) (invocations st))"

definition bridge_ack :: "instant \<Rightarrow> string \<Rightarrow> string \<Rightarrow> 'w server \<Rightarrow> response \<times> 'w server" where
  "bridge_ack t dev i st =
     (case bridgeInvocationGate t dev ''ack'' {Dispatching} {DDispatching} i st of
        (Inl r, st1) \<Rightarrow> (r, st1)
      | (Inr v, st1) \<Rightarrow> ((200, None), acknowledgeInvocation t i st1))"

definition LOCAL_EXECUTION_REFUSAL_CODES :: "string list" where
  "LOCAL_EXECUTION_REFUSAL_CODES = [
     ''command_not_allowlisted'', ''cwd_outside_approved_root'', ''file_policy_exceeded'',
     ''network_policy_exceeded'', ''binary_unavailable'']"

definition localExecutionRefusalCode :: "json \<Rightarrow> string" where
  "localExecutionRefusalCode evidence =
     (case jget evidence ''refusalCode'' of
        JStr c \<Rightarrow> if c \<in> set LOCAL_EXECUTION_REFUSAL_CODES then c
                 else (case jget evidence ''code'' of
                         JStr d \<Rightarrow> if d \<in> set LOCAL_EXECUTION_REFUSAL_CODES then d else ''command_not_allowlisted''
                       | _ \<Rightarrow> ''command_not_allowlisted'')
      | _ \<Rightarrow> (case jget evidence ''code'' of
                JStr d \<Rightarrow> if d \<in> set LOCAL_EXECUTION_REFUSAL_CODES then d else ''command_not_allowlisted''
              | _ \<Rightarrow> ''command_not_allowlisted''))"

text \<open>\<open>CODE_CATEGORY\<close> is a map filled in the order of the taxonomy: the last category that has the code.\<close>

definition localExecutionRefusalCategory :: "string \<Rightarrow> string" where
  "localExecutionRefusalCategory code =
     coalesce (map_option fst (List.find (\<lambda>kv. code \<in> set (snd kv)) (rev refusalCodesByCategory))) ''policy''"

record bridge_event =
  be_type :: "string option"
  be_level :: "string option"
  be_message :: "string option"
  be_data :: json

definition local_refusal :: "bridge_event \<Rightarrow> invocation \<Rightarrow> refusal_in" where
  "local_refusal b v =
     (let evidence = (if is_object (be_data b) then be_data b else JObj []);
          code = localExecutionRefusalCode evidence
      in \<lparr>ri_subject = Some (ref_to ''capability_call'' (Some (inv_id v))),
          ri_requester = Some (ref_to ''local_user'' (Some (inv_requestedBy v))),
          ri_category = localExecutionRefusalCategory code, ri_code = code,
          ri_decidedBy = Some (ref_to ''policy_engine'' (Some ''local_execution_policy'')),
          ri_summary = Some (if coalesce (be_message b) [] = []
                             then ''Local execution policy refused the command.'' else the (be_message b)),
          ri_evidence = evidence,
          ri_remedy = Some (if code = ''binary_unavailable''
            then ''Install the required binary on the device that owns this project, or route the run to a device that has it.''
            else ''Adjust the command, cwd, or file/network policy to satisfy the device's local-execution allowlist.''),
          ri_retryAfter = None, ri_appealTo = Some ''device_owner'',
          ri_event = Some (mk_ev (Some (inv_id v)) ''local_execution_refused''
            (coalesce (be_level b) ''error'') (coalesce (be_message b) []) (be_data b))\<rparr>)"

text \<open>POST /api/bridge/events: the event is appended, or refused as a local execution, and then folded into the
  telemetry of the run (\<open>fold_event\<close> of RoundTelemetry).  A throw of the strict guard is \<open>Inl\<close>.\<close>

definition bridge_events ::
    "telemetry_env \<Rightarrow> bool \<Rightarrow> instant \<Rightarrow> string \<Rightarrow> string \<Rightarrow> bridge_event \<Rightarrow> 'w server \<Rightarrow> string + response \<times> 'w server" where
  "bridge_events te strict t dev i b st =
     (case bridgeInvocationGate t dev ''events'' {Running, Cancelling} {DAcknowledged} i st of
        (Inl r, st1) \<Rightarrow> Inr (r, st1)
      | (Inr v, st1) \<Rightarrow>
          (case (if be_type b = Some ''local_execution_refused'' then refuse t (local_refusal b v) st1
                 else appendEvent strict False t
                   (mk_ev (Some i) (coalesce (be_type b) ''log'') (coalesce (be_level b) ''info'')
                     (coalesce (be_message b) []) (be_data b)) st1) of
             Inl e \<Rightarrow> Inl e
           | Inr st2 \<Rightarrow> Inr ((200, None), fold_event te t i (be_type b) (be_data b) st2)))"

definition bridge_complete ::
    "'w hooks \<Rightarrow> instant \<Rightarrow> string \<Rightarrow> string \<Rightarrow> completion \<Rightarrow> 'w server \<Rightarrow> response \<times> 'w server" where
  "bridge_complete hk t dev i b st =
     (case bridgeInvocationGate t dev ''complete'' {Running, Cancelling} {DAcknowledged} i st of
        (Inl r, st1) \<Rightarrow> (r, st1)
      | (Inr v, st1) \<Rightarrow> ((200, None), completeInvocation hk t i b st1))"

definition KNOWN_ERROR_CODES :: "string list" where
  "KNOWN_ERROR_CODES = [''cancelled'', ''validation_failed'', ''agent_unavailable'', ''device_unlinked'',
     ''dispatch_timeout'', ''approval_timeout'', ''execution_timeout'', ''policy_blocked'', ''runtime_error'']"

definition refused_row :: "invocation \<Rightarrow> invocation" where
  "refused_row v = v\<lparr>inv_delivery := (inv_delivery v)\<lparr>del_state := DRefused\<rparr>\<rparr>"

definition delivery_refusal :: "string \<Rightarrow> string option \<Rightarrow> invocation \<Rightarrow> 'w server \<Rightarrow> refusal_in" where
  "delivery_refusal reason code v st =
     (let ev = JObj [(''reason'', JStr reason), (''errorCode'', jstr code),
                     (''dispatchAttempts'', JNum (int (del_attempts (inv_delivery v))))]
      in \<lparr>ri_subject = Some (ref_to ''invocation'' (Some (inv_id v))),
          ri_requester = Some (ref_to ''control_plane'' (Some (dev_id st))),
          ri_category = ''state'', ri_code = ''undeliverable'',
          ri_decidedBy = Some (ref_to ''arbiter'' (coalesce_opt (del_deviceId (inv_delivery v)) (Some (dev_id st)))),
          ri_summary = Some (''Desktop Bridge refused the delivery: '' @ reason),
          ri_evidence = ev,
          ri_remedy = Some ''Resolve the cause the bridge reported (missing agent, workspace, or unsupported adapter), then re-dispatch.'',
          ri_retryAfter = None, ri_appealTo = Some ''device_owner'',
          ri_event = Some (mk_ev (Some (inv_id v)) ''delivery_refused'' ''warn''
            (''Desktop Bridge refused the delivery: '' @ reason) ev)\<rparr>)"

text \<open>POST /api/bridge/refuse; \<open>reason\<close> and \<open>code\<close> are the trimmed body fields.\<close>

definition bridge_refuse ::
    "'w hooks \<Rightarrow> instant \<Rightarrow> string \<Rightarrow> string \<Rightarrow> string \<Rightarrow> string \<Rightarrow> 'w server \<Rightarrow> response \<times> 'w server" where
  "bridge_refuse hk t dev i reason code st =
     (case bridgeInvocationGate t dev ''refuse'' {Dispatching} {DDispatching} i st of
        (Inl r, st1) \<Rightarrow> (r, st1)
      | (Inr v, st1) \<Rightarrow>
          (let reason' = (if reason = [] then ''The bridge refused this delivery.'' else reason);
               code' = (if code \<in> set KNOWN_ERROR_CODES then Some code else None);
               st2 = refuse_unchecked t (delivery_refusal reason' code' v st1) (upd_inv i refused_row st1)
           in ((200, None),
               completeInvocation hk t i
                 \<lparr>bd_status = Some ''failed'', bd_summary = None,
                  bd_result = JObj ((''summary'', JStr reason')
                    # (case code' of None \<Rightarrow> [] | Some c \<Rightarrow> [(''errorCode'', JStr c)])),
                  bd_cost = JNull\<rparr> st2)))"

section \<open>The refusals of this file are in the taxonomy\<close>

text \<open>The routes call \<open>refuse\<close> with literal pairs, which never throws.\<close>

lemma bridge_refusals_in_taxonomy:
  "assertTaxonomy ''state'' ''subject_not_actionable'' = Inr ()"
  "assertTaxonomy ''state'' ''undeliverable'' = Inr ()"
  "list_all (\<lambda>c. assertTaxonomy (localExecutionRefusalCategory c) c = Inr ()) LOCAL_EXECUTION_REFUSAL_CODES"
  by code_simp+

lemma localExecutionRefusalCode_known:
  "localExecutionRefusalCode ev \<in> set LOCAL_EXECUTION_REFUSAL_CODES"
  by (auto simp: localExecutionRefusalCode_def LOCAL_EXECUTION_REFUSAL_CODES_def split: json.split)

lemma local_refusal_ok: "assertTaxonomy (ri_category (local_refusal b v)) (ri_code (local_refusal b v)) = Inr ()"
  using bridge_refusals_in_taxonomy(3) localExecutionRefusalCode_known
  by (simp add: local_refusal_def Let_def list_all_iff)

section \<open>What a bridge may change\<close>

lemma appendBridgeRefusal_frame [simp, frame]:
  "invocations (appendBridgeRefusalEvent t op r ev v st) = invocations st"
  "agents (appendBridgeRefusalEvent t op r ev v st) = agents st"
  "device (appendBridgeRefusalEvent t op r ev v st) = device st"
  by (simp_all add: appendBridgeRefusalEvent_def Let_def)

lemma find_inv_appendBridgeRefusal [simp]:
  "find_inv j (appendBridgeRefusalEvent t op r ev v st) = find_inv j st"
  by (rule find_inv_cong) simp

lemma gate_cases:
  "bridgeInvocationGate t dev op S D i st = (g, st1) \<Longrightarrow>
   invocations st1 = invocations st \<and> agents st1 = agents st \<and> device st1 = device st
   \<and> (case g of
        Inr v \<Rightarrow> st1 = st \<and> find_inv i st = Some v \<and> del_deviceId (inv_delivery v) = Some dev
                 \<and> inv_status v \<in> S \<and> del_state (inv_delivery v) \<in> D
      | Inl r \<Rightarrow> fst r \<in> {403, 404, 409}
          \<and> (case find_inv i st of None \<Rightarrow> True
             | Some v \<Rightarrow> del_deviceId (inv_delivery v) \<noteq> Some dev \<or> inv_status v \<notin> S
                         \<or> del_state (inv_delivery v) \<notin> D))"
  by (auto simp: bridgeInvocationGate_def split: option.splits if_splits)

lemma refused_row_id [simp]: "inv_id (refused_row v) = inv_id v"
  by (simp add: refused_row_def)

text \<open>What happened to an invocation in a bridge request: nothing, or the one transition the route is
  for, and then only on a delivery this device owns.\<close>

definition bridge_transition :: "string \<Rightarrow> invocation option \<Rightarrow> invocation option \<Rightarrow> bool" where
  "bridge_transition dev old new \<longleftrightarrow> new = old \<or>
     (\<exists>v v'. old = Some v \<and> new = Some v' \<and> del_deviceId (inv_delivery v) = Some dev
        \<and> (inv_status v = Dispatching \<and> del_state (inv_delivery v) = DDispatching
             \<and> (inv_status v' = Running \<and> del_state (inv_delivery v') = DAcknowledged
                \<or> is_terminal (inv_status v') \<and> del_state (inv_delivery v') = DRefused)
           \<or> inv_status v \<in> {Running, Cancelling} \<and> del_state (inv_delivery v) = DAcknowledged
             \<and> is_terminal (inv_status v') \<and> del_state (inv_delivery v') = DAcknowledged))"

lemma acknowledged_row_id [simp]: "inv_id (acknowledged_row t v) = inv_id v"
  by (simp add: acknowledged_row_def)

lemma ack_transition: "bridge_transition dev (find_inv j st) (find_inv j (snd (bridge_ack t dev i st)))"
proof -
  obtain g st1 where g: "bridgeInvocationGate t dev ''ack'' {Dispatching} {DDispatching} i st = (g, st1)"
    by fastforce
  note c = gate_cases [OF g]
  show ?thesis
  proof (cases g)
    case (Inl r)
    then show ?thesis using g c find_inv_cong [of st1 st] by (simp add: bridge_ack_def bridge_transition_def)
  next
    case (Inr v)
    then have v: "find_inv i st = Some v" "del_deviceId (inv_delivery v) = Some dev"
      "inv_status v = Dispatching" "del_state (inv_delivery v) = DDispatching" "st1 = st"
      using c by auto
    have "find_inv j (acknowledgeInvocation t i st)
        = (if i = j then Some (acknowledged_row t v) else find_inv j st)"
      using v by (auto simp: acknowledgeInvocation_def find_inv_upd_inv)
    then show ?thesis using g Inr v
      by (auto simp: bridge_ack_def bridge_transition_def acknowledged_row_def)
  qed
qed

lemma complete_transition:
  "bridge_transition dev (find_inv j st) (find_inv j (snd (bridge_complete hk t dev i b st)))"
proof -
  obtain g st1 where g: "bridgeInvocationGate t dev ''complete'' {Running, Cancelling} {DAcknowledged} i st = (g, st1)"
    by fastforce
  note c = gate_cases [OF g]
  show ?thesis
  proof (cases g)
    case (Inl r)
    then show ?thesis using g c find_inv_cong [of st1 st]
      by (simp add: bridge_complete_def bridge_transition_def)
  next
    case (Inr v)
    then have v: "find_inv i st = Some v" "del_deviceId (inv_delivery v) = Some dev"
      "inv_status v \<in> {Running, Cancelling}" "del_state (inv_delivery v) = DAcknowledged" "st1 = st"
      using c by auto
    show ?thesis
    proof (cases "j = i")
      case False
      then show ?thesis using g Inr v
        by (simp add: bridge_complete_def bridge_transition_def completeInvocation_other)
    next
      case True
      have "\<not> is_terminal (inv_status v)" using v(3) by auto
      from completeInvocation_row(1) [OF v(1) this, of hk t b]
      obtain v' where "find_inv i (completeInvocation hk t i b st) = Some v'"
        and "completed_as t (terminalStatus (effectiveBody v b)) v v'" by blast
      then show ?thesis using g Inr v True
        by (simp add: bridge_complete_def bridge_transition_def completed_as_def)
    qed
  qed
qed

lemma refuse_transition:
  "bridge_transition dev (find_inv j st) (find_inv j (snd (bridge_refuse hk t dev i reason code st)))"
proof -
  obtain g st1 where g: "bridgeInvocationGate t dev ''refuse'' {Dispatching} {DDispatching} i st = (g, st1)"
    by fastforce
  note c = gate_cases [OF g]
  show ?thesis
  proof (cases g)
    case (Inl r)
    then show ?thesis using g c find_inv_cong [of st1 st]
      by (simp add: bridge_refuse_def bridge_transition_def)
  next
    case (Inr v)
    then have v: "find_inv i st = Some v" "del_deviceId (inv_delivery v) = Some dev"
      "inv_status v = Dispatching" "del_state (inv_delivery v) = DDispatching" "st1 = st"
      using c by auto
    let ?st2 = "\<lambda>r. refuse_unchecked t r (upd_inv i refused_row st)"
    have f: "find_inv i (?st2 r) = Some (refused_row v)" for r
      using v(1) by (simp add: find_inv_upd_inv)
    have nt: "\<not> is_terminal (inv_status (refused_row v))" using v(3) by (simp add: refused_row_def)
    have step: "bridge_transition dev (find_inv j st) (find_inv j (completeInvocation hk t i b (?st2 r)))" for b r
    proof (cases "j = i")
      case False
      then show ?thesis
        by (simp add: bridge_transition_def completeInvocation_other find_inv_upd_inv)
    next
      case True
      from completeInvocation_row(1) [OF f nt, of hk t b r]
      obtain v' where "find_inv i (completeInvocation hk t i b (?st2 r)) = Some v'"
        and "completed_as t (terminalStatus (effectiveBody (refused_row v) b)) (refused_row v) v'" by blast
      then show ?thesis using v True
        by (simp add: bridge_transition_def completed_as_def refused_row_def)
    qed
    from step g Inr v(5) show ?thesis by (simp add: bridge_refuse_def Let_def)
  qed
qed

text \<open>A granted report is the append and then the telemetry; any other one only leaves a refusal.\<close>

lemma events_cases:
  assumes "bridge_events te strict t dev i b st = Inr (r, st')"
  obtains (granted) v st2 where "fst r = 200" "find_inv i st = Some v" "del_deviceId (inv_delivery v) = Some dev"
      "inv_status v \<in> {Running, Cancelling}" "del_state (inv_delivery v) = DAcknowledged"
      "invocations st2 = invocations st" "rounds st2 = rounds st" "tool_records st2 = tool_records st"
      "touches i st st2" "st' = fold_event te t i (be_type b) (be_data b) st2"
    | (refused) "fst r \<noteq> 200" "invocations st' = invocations st" "rounds st' = rounds st" "tool_records st' = tool_records st"
      "touches i st st'"
proof -
  obtain g st1 where g: "bridgeInvocationGate t dev ''events'' {Running, Cancelling} {DAcknowledged} i st = (g, st1)"
    by fastforce
  note c = gate_cases [OF g]
  show thesis
  proof (cases g)
    case (Inl x)
    then have eq: "r = x" "st' = st1" using assms g by (simp_all add: bridge_events_def)
    have "rounds st1 = rounds st \<and> tool_records st1 = tool_records st \<and> touches i st st1"
      using g by (auto simp: bridgeInvocationGate_def appendBridgeRefusalEvent_def Let_def touches_refuse split: option.splits if_splits)
    then show thesis using c Inl eq by (intro refused) auto
  next
    case (Inr v)
    then have v: "find_inv i st = Some v" "del_deviceId (inv_delivery v) = Some dev" "inv_status v \<in> {Running, Cancelling}"
      "del_state (inv_delivery v) = DAcknowledged" "st1 = st" using c by auto
    obtain st2 where st2: "(if be_type b = Some ''local_execution_refused'' then refuse t (local_refusal b v) st
             else appendEvent strict False t
               (mk_ev (Some i) (coalesce (be_type b) ''log'') (coalesce (be_level b) ''info'')
                 (coalesce (be_message b) []) (be_data b)) st) = Inr st2"
      and st': "r = (200, None)" "st' = fold_event te t i (be_type b) (be_data b) st2"
      using assms g Inr v(5) by (auto simp: bridge_events_def split: sum.splits)
    have "invocations st2 = invocations st \<and> rounds st2 = rounds st \<and> tool_records st2 = tool_records st \<and> touches i st st2"
      using st2 by (auto simp: appendEvent_def refuse_Inr_iff touches_refuse touches_event split: if_splits)
    then show thesis using st' v by (intro granted) auto
  qed
qed

lemma events_touch: "bridge_events te strict t dev i b st = Inr (r, st') \<Longrightarrow> touches i st st'"
  by (erule events_cases) (simp_all add: touches_trans [OF _ touches_fold])

lemma events_row:
  assumes "bridge_events te strict t dev i b st = Inr (r, st')"
  shows "if fst r = 200
    then \<exists>v v'. find_inv i st = Some v \<and> del_deviceId (inv_delivery v) = Some dev \<and> inv_status v \<in> {Running, Cancelling}
           \<and> del_state (inv_delivery v) = DAcknowledged \<and> find_inv i st' = Some v' \<and> noted v v'
    else invocations st' = invocations st"
  using assms
proof (cases rule: events_cases)
  case (granted v st2)
  obtain v' where "find_inv i st' = Some v'" "noted v v'"
    using touches_find(2) [OF events_touch [OF assms] granted(2)] by blast
  with granted show ?thesis by auto
qed simp

lemma routes_other:
  assumes "j \<noteq> i"
  shows "find_inv j (snd (bridge_ack t dev i st)) = find_inv j st"
    and "find_inv j (snd (bridge_complete hk t dev i b st)) = find_inv j st"
    and "find_inv j (snd (bridge_refuse hk t dev i reason code st)) = find_inv j st"
proof -
  have gate: "find_inv j st1 = find_inv j st" if "bridgeInvocationGate t dev op S D i st = (g, st1)" for op S D g st1
    using gate_cases [OF that] by (auto intro: find_inv_cong)
  show "find_inv j (snd (bridge_ack t dev i st)) = find_inv j st"
    using assms gate by (auto simp: bridge_ack_def acknowledgeInvocation_def find_inv_upd_inv split: prod.split sum.split option.split)
  show "find_inv j (snd (bridge_complete hk t dev i b st)) = find_inv j st"
    using assms gate by (auto simp: bridge_complete_def completeInvocation_other split: prod.split sum.split)
  show "find_inv j (snd (bridge_refuse hk t dev i reason code st)) = find_inv j st"
    using assms gate by (auto simp: bridge_refuse_def Let_def completeInvocation_other find_inv_upd_inv split: prod.split sum.split)
qed


section \<open>What the telemetry keeps\<close>

text \<open>C13: A report of a bridge keeps the bounds of the telemetry, and a round beyond them is counted.  If before a report
  there were at most 5000 rounds, 5000 tool records and 500 rounds of any one run, every file ledger held at most 200 paths to
  read and to write without repetition, the lists of every request context were within their caps, and every suspected loop had
  at least three calls, then all this holds after it.  A granted report that a new round started, with an object as its data,
  puts that round in front of the table, with the index it names or else the number of rounds the run has; when the run
  has its 500 rounds the table stays as it was and the report is counted on the run instead.\<close>

theorem telemetry_bounded:
  assumes "telemetry_ok st" and "bridge_events te strict t dev i ev st = Inr (r, st')"
  shows "telemetry_ok st'
    \<and> (fst r = 200 \<and> be_type ev = Some ''round_started'' \<and> is_obj (be_data ev)
         \<and> findRound i (member_number te (be_data ev) ''roundIndex'') st = None \<longrightarrow>
       (let mine = filter (\<lambda>x. rd_invocationId x = i) (rounds st)
        in if length mine < 500
           then \<exists>q. rounds st' = take 5000 (q # rounds st) \<and> rd_invocationId q = i \<and> rd_status q = ''started''
                  \<and> rd_roundIndex q = coalesce (member_number te (be_data ev) ''roundIndex'') (int (length mine))
           else rounds st' = rounds st
              \<and> (\<exists>v v'. find_inv i st = Some v \<and> find_inv i st' = Some v'
                    \<and> nt_droppedRounds (inv_notes v') = nt_droppedRounds (inv_notes v) + 1)))"
  using assms(2)
proof (cases rule: events_cases)
  case (granted v st2)
  have ok2: "telemetry_ok st2" using assms(1) granted(6-8) by (simp add: telemetry_ok_def)
  have "telemetry_ok st'" unfolding granted(10) by (rule fold_event_ok [OF ok2])
  moreover have "let mine = filter (\<lambda>x. rd_invocationId x = i) (rounds st)
        in if length mine < 500
           then \<exists>q. rounds st' = take 5000 (q # rounds st) \<and> rd_invocationId q = i \<and> rd_status q = ''started''
                  \<and> rd_roundIndex q = coalesce (member_number te (be_data ev) ''roundIndex'') (int (length mine))
           else rounds st' = rounds st
              \<and> (\<exists>v v'. find_inv i st = Some v \<and> find_inv i st' = Some v'
                    \<and> nt_droppedRounds (inv_notes v') = nt_droppedRounds (inv_notes v) + 1)"
    if ty: "be_type ev = Some ''round_started''" "is_obj (be_data ev)"
      and new: "findRound i (member_number te (be_data ev) ''roundIndex'') st = None"
  proof -
    have f: "find_inv i st2 = Some v" using granted(2,6) find_inv_cong [of st2 st] by simp
    have n: "findRound i (member_number te (be_data ev) ''roundIndex'') st2 = None" using new granted(7) by (simp add: findRound_def cong: option.case_cong)
    show ?thesis
      using fold_started [OF f ty(2) n, of t] ok2 granted(2,7) unfolding granted(10) ty(1) telemetry_ok_def Let_def by auto
  qed
  ultimately show ?thesis by blast
next
  case refused
  then show ?thesis using assms(1) by (simp add: telemetry_ok_def)
qed

definition demo_report :: bridge_event where
  "demo_report = \<lparr>be_type = Some ''round_started'', be_level = None, be_message = None, be_data = JObj []\<rparr>"

lemma demo_reported:
  "\<exists>st'. bridge_events null_telemetry False 7 ''dev_1'' ''inv_1'' demo_report
     (demo_server [demo_inv ''inv_1'' Running DAcknowledged 1]) = Inr ((200, None), st')"
  by (simp add: bridge_events_def bridgeInvocationGate_def demo_find appendEvent_def demo_report_def)


theorem telemetry_bounded_witness:
  "\<exists>st' q. bridge_events null_telemetry False 7 ''dev_1'' ''inv_1'' demo_report
       (demo_server [demo_inv ''inv_1'' Running DAcknowledged 1]) = Inr ((200, None), st')
     \<and> rounds st' = [q] \<and> rd_roundIndex q = 0"
proof -
  let ?st = "demo_server [demo_inv ''inv_1'' Running DAcknowledged 1]"
  obtain st' where e: "bridge_events null_telemetry False 7 ''dev_1'' ''inv_1'' demo_report ?st = Inr ((200, None), st')"
    using demo_reported by blast
  have r: "rounds (demo_server vs) = []" "tool_records (demo_server vs) = []" "inv_notes (demo_inv k s d n) = no_notes" for vs k s d n
    by (simp_all add: demo_server_def demo_inv_def)
  have ok: "telemetry_ok ?st" by (simp add: telemetry_ok_def r notes_ok_def no_notes_def)
  show ?thesis
    using telemetry_bounded [OF ok e] e
    by (auto simp: r demo_report_def findRound_def member_number_def Let_def)
qed

section \<open>Words outside the vocabulary\<close>

text \<open>The delivery words the bridge protocol leaves on a leased delivery.  Its acknowledgement and its first four expiries leave
  words of the protocol's vocabulary; its refusal leaves \<open>refused\<close> and its last expiry \<open>exhausted\<close>, which
  \<open>deliveryStates\<close> does not list.\<close>

theorem delivery_words:
  assumes "find_inv i st = Some v" and "inv_status v = Dispatching" and "del_state (inv_delivery v) = DDispatching"
    and "del_deviceId (inv_delivery v) = Some dev"
  shows "let word = (\<lambda>st. map_option (\<lambda>v. delivery_str (del_state (inv_delivery v))) (find_inv i st))
    in word (snd (bridge_ack t dev i st)) = Some ''acknowledged'' \<and> ''acknowledged'' \<in> set deliveryStates
     \<and> word (snd (bridge_refuse hk t dev i reason code st)) = Some ''refused'' \<and> ''refused'' \<notin> set deliveryStates
     \<and> (lease_expired t v \<longrightarrow> word (redeliver_one hk t i st)
           = Some (if del_attempts (inv_delivery v) < 5 then ''redelivering'' else ''exhausted''))
     \<and> ''redelivering'' \<in> set deliveryStates \<and> ''exhausted'' \<notin> set deliveryStates"
proof -
  have gate: "bridgeInvocationGate t dev op {Dispatching} {DDispatching} i st = (Inr v, st)" for op
    using assms by (simp add: bridgeInvocationGate_def)
  have "find_inv i (snd (bridge_ack t dev i st)) = Some (acknowledged_row t v)"
    using assms by (simp add: bridge_ack_def gate acknowledgeInvocation_def find_inv_upd_inv)
  moreover have "\<exists>v'. find_inv i (snd (bridge_refuse hk t dev i reason code st)) = Some v' \<and> del_state (inv_delivery v') = DRefused"
  proof -
    let ?st2 = "\<lambda>r. refuse_unchecked t r (upd_inv i refused_row st)"
    have f: "find_inv i (?st2 r) = Some (refused_row v)" for r using assms(1) by (simp add: find_inv_upd_inv)
    have nt: "\<not> is_terminal (inv_status (refused_row v))" using assms(2) by (simp add: refused_row_def)
    have "\<exists>v'. find_inv i (completeInvocation hk t i b (?st2 r)) = Some v' \<and> del_state (inv_delivery v') = DRefused" for b r
      using completeInvocation_row(1) [OF f nt, of hk t b r] by (auto simp: completed_as_def refused_row_def)
    then show ?thesis by (simp add: bridge_refuse_def gate Let_def)
  qed
  moreover have "\<exists>v'. find_inv i (redeliver_one hk t i st) = Some v'
      \<and> del_state (inv_delivery v') = (if del_attempts (inv_delivery v) < 5 then DRedelivering else DExhausted)" if "lease_expired t v"
    using redelivery.rel_row [OF assms(1), of hk t] that
    by (auto simp: redelivered_def MAX_DISPATCH_ATTEMPTS_def redelivering_row_def)
  ultimately show ?thesis
    by (auto simp: acknowledged_row_def deliveryStates_def)
qed

section \<open>Two gaps of the protocol\<close>

lemma fold_device: "(\<And>i s. device (op i s) = device s) \<Longrightarrow> device (fold op is st) = device st"
  by (induction \<open>is\<close> arbitrary: st) simp_all

lemma sweeps_device [simp]:
  "device (reclaimSupersededBridgeSessions hk t st) = device st"
  "device (reclaimStuckCancellations hk lease t st) = device st"
  "device (redeliverExpiredDispatches hk t st) = device st"
proof -
  have s: "device (reclaim_superseded hk t i s) = device s" for i and s :: "'a server"
    by (simp add: reclaim_superseded_def split: option.split)
  show r: "device (reclaimSupersededBridgeSessions hk t st) = device st"
    unfolding reclaimSupersededBridgeSessions_def by (rule fold_device) (rule s)
  show "device (reclaimStuckCancellations hk lease t st) = device st"
    unfolding reclaimStuckCancellations_def
    by (rule fold_device) (simp add: reclaim_stuck_def split: option.split)
  have "device (redeliver_one hk t i s) = device s" for i and s :: "'a server"
    by (simp add: redeliver_one_def Let_def split: option.split)
  from fold_device [of "redeliver_one hk t", OF this] r
  show "device (redeliverExpiredDispatches hk t st) = device st"
    by (simp add: redeliverExpiredDispatches_def Let_def)
qed

text \<open>A cancellation that arrives between the lease and the acknowledgement strands the run: the
  owning bridge is not told of it by the cancellation poll, its acknowledgement, refusal and
  completion are all answered 409 and change nothing, so the run keeps its slot until the grace
  period has passed since the last cancel request, and only then the reclaim ends it.\<close>

theorem cancel_before_ack_strands:
  assumes "find_inv i st = Some v" and "inv_status v = Dispatching"
    and "del_state (inv_delivery v) = DDispatching" and "del_deviceId (inv_delivery v) = Some dev"
    and "distinct (map inv_id (invocations st))"
  shows "let st1 = cancelInvocation hk t actor i st
    in (\<exists>v1. find_inv i st1 = Some v1 \<and> inv_status v1 = Cancelling
          \<and> (is_stuck lease t' v1 \<longleftrightarrow> t + cancelGraceMs lease \<le> t'))
       \<and> i \<notin> set (bridge_cancellations dev st1)
       \<and> fst (bridge_ack t' dev i st1) = (409, Some ''bridge_invocation_not_active'')
       \<and> fst (bridge_refuse hk t' dev i reason code st1) = (409, Some ''bridge_invocation_not_active'')
       \<and> fst (bridge_complete hk t' dev i b st1) = (409, Some ''bridge_invocation_not_active'')"
proof -
  let ?st1 = "cancelInvocation hk t actor i st"
  have "\<not> is_terminal (inv_status v)" using assms(2) by simp
  from cancelInvocation_row [OF assms(1) this, of hk t actor] assms(2)
  obtain v1 where v1: "find_inv i ?st1 = Some v1" and d: "inv_delivery v1 = inv_delivery v"
    and s: "inv_status v1 = Cancelling" and r: "can_requestedAt (inv_cancellation v1) = Some t"
    by (auto simp: cancelled_row_def)
  have stuck: "is_stuck lease t' v1 \<longleftrightarrow> t + cancelGraceMs lease \<le> t'"
    using s r by (auto simp: is_stuck_def)
  have "distinct (map inv_id (invocations ?st1))" using assms(5) by (simp add: cancelInvocation_ids)
  then have "x = v1" if "x \<in> set (invocations ?st1)" "inv_id x = i" for x
    using find_inv_unique [of ?st1 x] that v1 by simp
  then have "i \<notin> set (bridge_cancellations dev ?st1)"
    using d assms(3) by (auto simp: bridge_cancellations_def)
  moreover have "fst (bridgeInvocationGate t' dev op S {x} i ?st1) = Inl (409, Some ''bridge_invocation_not_active'')"
    if "Cancelling \<notin> S \<or> x \<noteq> DDispatching" for op S x
    using v1 d s assms(3,4) that by (auto simp: bridgeInvocationGate_def)
  then have "fst (bridge_ack t' dev i ?st1) = (409, Some ''bridge_invocation_not_active'')"
    "fst (bridge_refuse hk t' dev i reason code ?st1) = (409, Some ''bridge_invocation_not_active'')"
    "fst (bridge_complete hk t' dev i b ?st1) = (409, Some ''bridge_invocation_not_active'')"
    by (simp_all add: bridge_ack_def bridge_refuse_def bridge_complete_def case_prod_beta)
  ultimately show ?thesis using v1 s stuck by (simp add: Let_def)
qed

theorem cancel_before_ack_strands_witness:
  "\<exists>v1. find_inv ''inv_1'' (cancelInvocation null_hooks 7 None ''inv_1''
       (demo_server [demo_inv ''inv_1'' Dispatching DDispatching 1])) = Some v1
     \<and> inv_status v1 = Cancelling \<and> is_stuck 30000 60007 v1 \<and> \<not> is_stuck 30000 60006 v1"
proof -
  let ?v = "demo_inv ''inv_1'' Dispatching DDispatching 1"
  have d: "distinct (map inv_id (invocations (demo_server [?v])))" by simp
  have g: "cancelGraceMs 30000 = 60000" by (simp add: cancelGraceMs_def)
  have s: "inv_status ?v = Dispatching" "del_state (inv_delivery ?v) = DDispatching"
    "del_deviceId (inv_delivery ?v) = Some ''dev_1''" by simp_all
  from conjunct1 [OF cancel_before_ack_strands [unfolded Let_def, OF demo_find s d,
      where hk = null_hooks and t = 7 and actor = None and lease = 30000 and t' = 60007]]
  obtain v1 where v1: "find_inv ''inv_1'' (cancelInvocation null_hooks 7 None ''inv_1'' (demo_server [?v])) = Some v1"
    "inv_status v1 = Cancelling" "is_stuck 30000 60007 v1" by (auto simp: g)
  from conjunct1 [OF cancel_before_ack_strands [unfolded Let_def, OF demo_find s d,
      where hk = null_hooks and t = 7 and actor = None and lease = 30000 and t' = 60006]] v1(1)
  have "\<not> is_stuck 30000 60006 v1" by (auto simp: g)
  with v1 show ?thesis by blast
qed

text \<open>The poll serves the queue of the primary device to whichever device polls: when another
  linked device polls, the run it is handed is leased to the primary device with one more attempt
  spent, and the acknowledgement of the device that has it is refused as not owned.\<close>

theorem foreign_poll_burns_attempt:
  assumes "slots_ok (redeliverExpiredDispatches hk t st)"
    and "bridge_next hk date_key leases lease t dev True st = (Some i, st')"
    and "dev \<noteq> dev_id st"
  shows "bridge_next hk date_key leases lease t (dev_id st) True st = (Some i, st')
    \<and> (\<exists>v. find_inv i st' = Some v \<and> inv_status v = Dispatching
         \<and> del_deviceId (inv_delivery v) = Some (dev_id st) \<and> 0 < del_attempts (inv_delivery v))
    \<and> fst (bridge_ack t' dev i st') = (403, Some ''bridge_invocation_not_owned'')"
proof -
  let ?st0 = "redeliverExpiredDispatches hk t st"
  let ?st1 = "reclaimStuckCancellations hk lease t (reclaimSupersededBridgeSessions hk t ?st0)"
  from assms(2) have n: "map_option inv_id (select_next date_key leases t ?st1) = Some i"
    and st': "st' = markDispatched lease t i ?st1"
    by (auto simp: bridge_next_def nextDispatchableInvocation_def Let_def split: option.splits)
  then obtain v where sel: "select_next date_key leases t ?st1 = Some v" and vi: "inv_id v = i" by auto
  have ok: "slots_ok ?st1" by (intro reclaims_slots assms(1))
  have dev: "dev_id ?st1 = dev_id st" by (simp add: dev_id_def)
  have v: "v \<in> set (invocations ?st1)" "isBridgeExecuted ?st1 (dev_id st) v"
    "dispatch_reason_of leases ?st1 v = Dispatchable"
    using select_next_Some [OF sel] by (auto simp: dispatchable_def dev)
  have f: "find_inv i ?st1 = Some v"
    using ok find_inv_unique [OF _ v(1)] vi by (simp add: slots_ok_def)
  from dispatch_reason_Dispatchable [OF v(3)] v(2)
  have bel: "belongsToThisBridge v (findAgent (inv_agentId v) ?st1) (dev_id st)"
    by (auto simp: isBridgeExecuted_def split: if_splits)
  have own: "coalesce_opt (del_deviceId (inv_delivery v)) (Some (dev_id st)) = Some (dev_id st)"
    using bel by (cases "del_deviceId (inv_delivery v)") (simp_all add: belongsToThisBridge_def)
  let ?v' = "dispatched_row lease t (dev_id st) (dv_bridgeSessionId (device ?st1)) v"
  have f': "find_inv i st' = Some ?v'"
    using f vi by (simp add: st' markDispatched_def Let_def find_inv_upd_inv dev)
  have "bridge_next hk date_key leases lease t (dev_id st) True st = (Some i, st')"
    using assms(2) by (simp add: bridge_next_def)
  moreover have "fst (bridge_ack t' dev i st') = (403, Some ''bridge_invocation_not_owned'')"
    using f' own assms(3) by (simp add: bridge_ack_def bridgeInvocationGate_def)
  ultimately show ?thesis using f' own by simp
qed

theorem foreign_poll_burns_attempt_witness:
  "\<exists>st'. bridge_next null_hooks (\<lambda>t. 20260101) [] 30000 9 ''dev_2'' True
       (demo_server [demo_inv ''inv_1'' Queued DQueued 0]) = (Some ''inv_1'', st')
     \<and> fst (bridge_ack 10 ''dev_2'' ''inv_1'' st') = (403, Some ''bridge_invocation_not_owned'')"
proof -
  let ?st = "demo_server [demo_inv ''inv_1'' Queued DQueued 0]"
  have r: "redeliverExpiredDispatches null_hooks 9 ?st = ?st"
    by (simp add: redeliverExpiredDispatches_def reclaimSupersededBridgeSessions_def all_ids_def
        reclaim_superseded_def redeliver_one_def demo_find lease_expired_def Let_def)
  have ok: "slots_ok (redeliverExpiredDispatches null_hooks 9 ?st)"
    by (simp add: r slots_ok_def demo_dispatchable)
  have "max_concurrency ?st = 2" by (simp add: max_concurrency_def)
  then have "select_next (\<lambda>t. 20260101) [] 9 ?st = Some (demo_inv ''inv_1'' Queued DQueued 0)"
    using select_fair [of "dispatchable [] ?st" "dispatch_levels (\<lambda>t. 20260101) 9 ?st" "waited 9"]
    by (auto simp: select_next_def demo_dispatchable split: option.splits)
  then obtain st' where n: "bridge_next null_hooks (\<lambda>t. 20260101) [] 30000 9 ''dev_2'' True ?st = (Some ''inv_1'', st')"
    by (simp add: bridge_next_def r nextDispatchableInvocation_def Let_def demo_no_reclaim)
  have "''dev_2'' \<noteq> dev_id ?st" by (simp add: dev_id_def)
  from foreign_poll_burns_attempt [OF ok n this, where t' = 10] n show ?thesis by auto
qed

end
