(* ===== verification/Lifecycle.thy ===== *)
theory Lifecycle
  imports CreateRoute BridgeRoutes
begin

text \<open>
  The life of a run across all the operations that touch one: the creation route, the approval and
  denial of a held run, cancellation, device unlink, the bridge routes and the settling of remote HTTP
  requests, composed as one step function over the server state.  The specification is a small machine
  per run: it is held for a person, open, or over.
\<close>

section \<open>The specification\<close>

datatype phase = Held | Open | Over inv_status

definition phase_of :: "inv_status \<Rightarrow> phase" where
  "phase_of s = (if is_terminal s then Over s else if s = WaitingForLocalApproval then Held else Open)"

datatype cause = Submitted | Approved | Denied | CancelAsked | Worked

text \<open>One step of a run, labelled with what may cause it; \<open>None\<close> is a run that does not exist yet.\<close>

inductive life :: "cause \<Rightarrow> phase option \<Rightarrow> phase option \<Rightarrow> bool" where
  stay: "life c p p"
| submit: "p \<in> {Held, Open, Over Rejected} \<Longrightarrow> life Submitted None (Some p)"
| approve: "life Approved (Some Held) (Some Open)"
| deny: "life Denied (Some Held) (Some (Over Rejected))"
| cancel: "p \<in> {Held, Open} \<Longrightarrow> life CancelAsked (Some p) (Some (Over Cancelled))"
| work: "is_terminal s \<Longrightarrow> life Worked (Some Open) (Some (Over s))"

inductive_cases life_over: "life c (Some (Over s)) q"
inductive_cases life_held: "life c (Some Held) q"
inductive_simps life_worked: "life Worked p q"

lemma life_trans: "life c p q \<Longrightarrow> life c q r \<Longrightarrow> life c p r"
  by (induction c p q rule: life.induct) (auto elim!: life.cases intro: life.intros)

lemma over_stays: "life c (Some (Over s)) q \<Longrightarrow> q = Some (Over s)"
  by (erule life_over) simp_all

text \<open>A history of causes.\<close>

inductive lives :: "cause list \<Rightarrow> phase option \<Rightarrow> phase option \<Rightarrow> bool" where
  idle: "lives [] p p"
| onward: "life c p q \<Longrightarrow> lives cs q r \<Longrightarrow> lives (c # cs) p r"

inductive_cases lives_Cons: "lives (c # cs) p r"
inductive_cases lives_Nil: "lives [] p r"

lemma lives_over: "lives cs (Some (Over s)) q \<Longrightarrow> q = Some (Over s)"
  by (induction cs "Some (Over s)" q rule: lives.induct) (auto dest: over_stays)

lemma lives_held: "lives cs (Some Held) q \<Longrightarrow> q = Some Open \<Longrightarrow> Approved \<in> set cs"
proof (induction cs "Some Held" q rule: lives.induct)
  case (onward c q cs r)
  from onward(1) show ?case
    by (rule life_held) (use onward lives_over in auto)
qed simp

lemma lives_held_work:
  "lives cs (Some Held) q \<Longrightarrow> set cs \<inter> {Approved, Denied, CancelAsked} = {} \<Longrightarrow> q = Some Held"
proof (induction cs "Some Held" q rule: lives.induct)
  case (onward c q cs r)
  from onward(1) show ?case
    by (rule life_held) (use onward in auto)
qed simp

section \<open>The steps of the server\<close>

datatype action =
    Submit "string option" json "actor option"
  | Approve "actor option" string string
  | Deny "actor option" string string
  | Cancel "actor option" string
  | Unlink
  | Poll string bool
  | Ack string string
  | Report string string bridge_event
  | Finish string string completion
  | Refuse string string string string
  | Settle string completion

text \<open>What the server is configured with: the callbacks, the reading of telemetry, the local date, the worktrees
  with a reaction in progress, the lease, strict event types.\<close>

record 'w env =
  en_hooks :: "'w hooks"
  en_telemetry :: telemetry_env
  en_dateKey :: "instant \<Rightarrow> int"
  en_reactions :: "(string \<times> string) list"
  en_lease :: int
  en_strict :: bool

fun exec :: "'a session_tables_scheme env \<Rightarrow> instant \<times> action \<Rightarrow> 'a ses_server \<Rightarrow> 'a ses_server" where
  "exec en (t, Submit header body actor) st = snd (postInvocation t header actor body st)"
| "exec en (t, Approve actor aid i) st = approveInvocation (en_hooks en) t actor aid i st"
| "exec en (t, Deny actor aid i) st = denyInvocation (en_hooks en) t actor aid i st"
| "exec en (t, Cancel actor i) st = cancelInvocation (en_hooks en) t actor i st"
| "exec en (t, Unlink) st = cancelInvocationsForDeviceUnlink (en_hooks en) t st"
| "exec en (t, Poll dev linked) st =
     snd (bridge_next (en_hooks en) (en_dateKey en) (en_reactions en) (en_lease en) t dev linked st)"
| "exec en (t, Ack dev i) st = snd (bridge_ack t dev i st)"
| "exec en (t, Report dev i b) st =
     (case bridge_events (en_telemetry en) (en_strict en) t dev i b st of Inl e \<Rightarrow> st | Inr r \<Rightarrow> snd r)"
| "exec en (t, Finish dev i b) st = snd (bridge_complete (en_hooks en) t dev i b st)"
| "exec en (t, Refuse dev i reason code) st = snd (bridge_refuse (en_hooks en) t dev i reason code st)"
| "exec en (t, Settle i b) st = http_settle (en_hooks en) t i b st"

text \<open>What an action may cause for the run \<open>j\<close>: a decision is about the run it names.\<close>

fun causes :: "string \<Rightarrow> instant \<times> action \<Rightarrow> cause" where
  "causes j (t, Submit header body actor) = Submitted"
| "causes j (t, Approve actor aid i) = (if i = j then Approved else Worked)"
| "causes j (t, Deny actor aid i) = (if i = j then Denied else Worked)"
| "causes j (t, Cancel actor i) = (if i = j then CancelAsked else Worked)"
| "causes j (t, Unlink) = CancelAsked"
| "causes j (t, a) = Worked"

section \<open>The phase of a run\<close>

definition view :: "string \<Rightarrow> 'w server \<Rightarrow> phase option" where
  "view j st = map_option (\<lambda>v. phase_of (inv_status v)) (find_inv j st)"

lemma phase_of_simps [simp]:
  "is_terminal s \<Longrightarrow> phase_of s = Over s" "phase_of WaitingForLocalApproval = Held"
  "phase_of s = Over u \<longleftrightarrow> is_terminal s \<and> u = s"
  "phase_of s = Held \<longleftrightarrow> s = WaitingForLocalApproval"
  "phase_of s = Open \<longleftrightarrow> \<not> is_terminal s \<and> s \<noteq> WaitingForLocalApproval"
  "\<not> is_terminal s \<Longrightarrow> s \<noteq> WaitingForLocalApproval \<Longrightarrow> phase_of s = Open"
  by (cases s; auto simp: phase_of_def)+

lemma view_cong: "find_inv j st' = find_inv j st \<Longrightarrow> view j st' = view j st"
  by (simp add: view_def)

lemma view_same: "invocations st' = invocations st \<Longrightarrow> view j st' = view j st"
  by (rule view_cong) (rule find_inv_cong)

lemma view_complete:
  "view j (completeInvocation hk t i b st)
     = (if j = i \<and> (\<exists>v. find_inv i st = Some v \<and> \<not> is_terminal (inv_status v))
        then Some (Over (terminalStatus (effectiveBody (the (find_inv i st)) b)))
        else view j st)"
proof (cases "find_inv i st")
  case None
  then show ?thesis by (simp add: completeInvocation_missing)
next
  case (Some v)
  show ?thesis
  proof (cases "is_terminal (inv_status v)")
    case True
    then show ?thesis using Some by (simp add: completeInvocation_terminal)
  next
    case False
    from completeInvocation_row(1) [OF Some False, of hk t b] obtain v' where
      "find_inv i (completeInvocation hk t i b st) = Some v'"
      "completed_as t (terminalStatus (effectiveBody v b)) v v'" by blast
    then show ?thesis using Some False completeInvocation_other [of j i hk t b st]
      by (auto simp: view_def completed_as_def)
  qed
qed

lemma life_complete:
  "view i st \<noteq> Some Held \<Longrightarrow> life Worked (view j st) (view j (completeInvocation hk t i b st))"
  unfolding view_complete by (auto simp: life_worked view_def)

section \<open>What every operation leaves in place\<close>

definition http_ids :: "'w server \<Rightarrow> string set" where
  "http_ids st = fst ` set (hr_live (http st)) \<union> fst ` set (hr_pending (http st))"

definition quiet :: "'w server \<Rightarrow> 'w server \<Rightarrow> bool" where
  "quiet st st' \<longleftrightarrow>
     all_ids st' = all_ids st \<and> set (issued_ids st) \<subseteq> set (issued_ids st') \<and> http_ids st' \<subseteq> http_ids st"

named_theorems quiet "operations that add no run, forget no id and queue no request"

lemma quiet_refl [simp, quiet]: "quiet st st"
  by (simp add: quiet_def)

lemma quiet_trans: "quiet a b \<Longrightarrow> quiet b c \<Longrightarrow> quiet a c"
  unfolding quiet_def by auto

lemma quiet_same:
  "invocations st' = invocations st \<Longrightarrow> set (issued_ids st) \<subseteq> set (issued_ids st') \<Longrightarrow> http st' = http st
   \<Longrightarrow> quiet st st'"
  by (simp add: quiet_def all_ids_def http_ids_def)

lemma quiet_append_event: "quiet st s \<Longrightarrow> quiet st (append_event t e s)"
  by (erule quiet_trans) (rule quiet_same; simp add: append_event_issued)

lemma quiet_append_events: "quiet st s \<Longrightarrow> quiet st (append_events t es s)"
  by (erule quiet_trans) (rule quiet_same; simp add: append_events_issued)

lemma quiet_upd: "(\<And>v. inv_id (f v) = inv_id v) \<Longrightarrow> quiet st s \<Longrightarrow> quiet st (upd_inv i f s)"
  by (erule quiet_trans) (simp add: quiet_def all_ids_def http_ids_def)

lemma quiet_refuse: "quiet st s \<Longrightarrow> quiet st (refuse_unchecked t a s)"
  by (erule quiet_trans) (rule quiet_same; simp add: refuse_unchecked_issued)

lemma quiet_rows:
  "quiet st s \<Longrightarrow> quiet st (push_audit a s)" "quiet st s \<Longrightarrow> quiet st (recordAgentUsage t v x s)"
  "quiet st s \<Longrightarrow> quiet st (completeRootSpan t v x s)"
  "quiet st s \<Longrightarrow> quiet st (updateCompareRunForInvocation t v s)"
  "quiet st s \<Longrightarrow> quiet st (deny_pending t by aid s)"
  "quiet st s \<Longrightarrow> quiet st (decide_approval d t by ap s)" "quiet st s \<Longrightarrow> quiet st (decide_policy d rs by pid s)"
  "quiet st s \<Longrightarrow> quiet st (s\<lparr>world := w\<rparr>)" "quiet st s \<Longrightarrow> quiet st (s\<lparr>transcripts := ts\<rparr>)"
  "quiet st s \<Longrightarrow> quiet st (s\<lparr>audits := as, applications := ps\<rparr>)"
  by (erule quiet_trans; rule quiet_same; simp)+

lemmas quiet_steps = quiet_append_event quiet_append_events quiet_upd quiet_refuse quiet_rows

lemma quiet_hook: "quiet st s \<Longrightarrow> quiet st (snd (run_hook t h i r s))"
  by (cases "find_inv i s") (auto simp: run_hook_def Let_def case_prod_beta intro: quiet_steps)

lemma quiet_do_hook: "quiet st s \<Longrightarrow> quiet st (do_hook t h i r s)"
  by (simp add: do_hook_def quiet_hook)

lemma quiet_attach: "quiet st s \<Longrightarrow> quiet st (attachApplicationResult t i ids out s)"
  by (cases "find_inv i s")
     (auto simp: attachApplicationResult_def Let_def with_application_result_def intro!: quiet_steps)

lemma quiet_import: "quiet st s \<Longrightarrow> quiet st (import_step t h i r out s)"
  by (simp add: import_step_def case_prod_beta quiet_attach quiet_hook)

lemma quiet_complete_row: "quiet st s \<Longrightarrow> quiet st (complete_row hk t v b s)"
  unfolding complete_row_def Let_def case_prod_beta
  by (intro quiet_steps) (simp_all add: set_terminal_def)

lemma quiet_complete_audit: "quiet st s \<Longrightarrow> quiet st (complete_audit t i b s)"
  by (cases "find_inv i s") (auto simp: complete_audit_def Let_def intro!: quiet_steps)

lemma quiet_if: "quiet st a \<Longrightarrow> quiet st b \<Longrightarrow> quiet st (if c then a else b)"
  by simp

lemma quiet_complete_imports: "quiet st s \<Longrightarrow> quiet st (complete_imports hk t i b s)"
  unfolding complete_imports_def Let_def case_prod_beta
  by (intro quiet_attach quiet_if quiet_import quiet_do_hook) (simp_all add: quiet_hook)

lemma quiet_complete_close: "quiet st s \<Longrightarrow> quiet st (complete_close hk t v b s)"
  unfolding complete_close_def Let_def by (intro quiet_do_hook quiet_rows)

lemma quiet_complete: "quiet st s \<Longrightarrow> quiet st (completeInvocation hk t i b s)"
  by (cases "find_inv i s")
     (simp_all add: completeInvocation_def completeInvocationWork_def quiet_do_hook quiet_complete_close
       quiet_complete_imports quiet_complete_audit quiet_complete_row)

lemmas quiet_ops = quiet_steps quiet_do_hook quiet_complete

lemma quiet_fold: "(\<And>i s. quiet st s \<Longrightarrow> quiet st (op i s)) \<Longrightarrow> quiet st s \<Longrightarrow> quiet st (fold op is s)"
  by (induction \<open>is\<close> arbitrary: s) simp_all

lemma quiet_sweeps:
  "quiet st s \<Longrightarrow> quiet st (reclaimStuckCancellations hk lease t s)"
  "quiet st s \<Longrightarrow> quiet st (reclaimSupersededBridgeSessions hk t s)"
  "quiet st s \<Longrightarrow> quiet st (redeliverExpiredDispatches hk t s)"
proof -
  have a: "quiet st s \<Longrightarrow> quiet st (reclaim_stuck hk lease t i s)"
    and b: "quiet st s \<Longrightarrow> quiet st (reclaim_superseded hk t i s)"
    and c: "quiet st s \<Longrightarrow> quiet st (redeliver_one hk t i s)" for i s
    by (cases "find_inv i s"; auto simp: reclaim_stuck_def reclaim_superseded_def redeliver_one_def Let_def
        intro!: quiet_ops split: option.split)+
  show "quiet st s \<Longrightarrow> quiet st (reclaimStuckCancellations hk lease t s)"
    and d: "quiet st s \<Longrightarrow> quiet st (reclaimSupersededBridgeSessions hk t s)"
    and "quiet st s \<Longrightarrow> quiet st (redeliverExpiredDispatches hk t s)"
    by (simp_all add: reclaimStuckCancellations_def reclaimSupersededBridgeSessions_def
        redeliverExpiredDispatches_def Let_def quiet_fold a b c)
qed

lemma quiet_next: "quiet st s \<Longrightarrow> quiet st (snd (bridge_next hk dk rs lease t dev linked s))"
proof -
  have "quiet st x \<Longrightarrow> quiet st (markDispatched lease t i x)" for i x
    by (cases "find_inv i x") (auto simp: markDispatched_def Let_def intro!: quiet_steps)
  then show "quiet st s \<Longrightarrow> ?thesis"
    by (simp add: bridge_next_def nextDispatchableInvocation_def Let_def quiet_sweeps split: option.split)
qed

lemma quiet_gate: "bridgeInvocationGate t dev op S D i st = (g, st1) \<Longrightarrow> quiet st st1"
  by (auto simp: bridgeInvocationGate_def appendBridgeRefusalEvent_def Let_def intro: quiet_steps
      split: option.splits if_splits)

lemma quiet_bridge:
  "quiet st (snd (bridge_ack t dev i st))" "quiet st (snd (bridge_complete hk t dev i b st))"
  "quiet st (snd (bridge_refuse hk t dev i reason code st))"
  by (auto simp: bridge_ack_def bridge_complete_def bridge_refuse_def Let_def acknowledgeInvocation_def
      split: prod.split sum.split option.split dest: quiet_gate intro!: quiet_ops)

lemma quiet_events:
  assumes "bridge_events te strict t dev i b st = Inr (r, st')"
  shows "quiet st st'"
  using events_touch [OF assms] touches_find(4) [OF events_touch [OF assms]]
  by (simp add: quiet_def all_ids_def http_ids_def touches_def)

lemma view_events:
  assumes "bridge_events te strict t dev i b st = Inr (r, st')"
  shows "view j st' = view j st"
proof (cases "j = i")
  case True
  note f = touches_find [OF events_touch [OF assms]]
  show ?thesis
  proof (cases "find_inv i st")
    case (Some v)
    from f(2) [OF Some] obtain v' where "find_inv i st' = Some v'" "noted v v'" by blast
    then show ?thesis using True Some by (auto simp: view_def noted_def)
  qed (use True f(3) in \<open>simp add: view_def\<close>)
qed (use touches_find(1) [OF events_touch [OF assms]] in \<open>simp add: view_def\<close>)

lemma quiet_queued: "quiet st s \<Longrightarrow> quiet st (cancelQueuedInvocation t rs et em sm u i s)"
  by (cases "find_inv i s") (auto simp: cancelQueuedInvocation_def Let_def intro!: quiet_ops)

lemma quiet_http_cancel: "quiet st s \<Longrightarrow> quiet st (http_cancel t a i s)"
  by (auto simp: http_cancel_def abortDirectHttpRun_def Let_def intro!: quiet_ops split: option.split)

lemma quiet_cancel: "quiet st (cancelInvocation hk t actor i st)"
  by (auto simp: cancelInvocation_def Let_def intro!: quiet_queued quiet_http_cancel quiet_ops
      split: option.split)

lemma quiet_unlink: "quiet st (cancelInvocationsForDeviceUnlink hk t st)"
  unfolding cancelInvocationsForDeviceUnlink_def Let_def
  by (intro quiet_fold)
     (auto simp: unlink_queued_def requestRunningDeviceCancellation_def Let_def intro!: quiet_queued quiet_ops)

lemma quiet_approve_commit: "inv_id v = i \<Longrightarrow> quiet st (approve_commit t by ag aid v st)"
  by (auto simp: approve_commit_def intro!: quiet_ops)

lemma quiet_deny: "quiet st (denyInvocation hk t actor aid i st)"
  by (auto simp: denyInvocation_def deny_commit_def Let_def intro!: quiet_ops split: option.split)

section \<open>The HTTP runtime and the phases\<close>

lemma view_launch: "view i st \<noteq> Some Held \<Longrightarrow> (\<forall>s. view i st \<noteq> Some (Over s)) \<Longrightarrow> view j (http_launch t i a st) = view j st"
  by (cases "find_inv j st") (auto simp: view_def find_inv_launch)

lemma view_set_http [simp]: "view j (set_http f st) = view j st"
  by (simp add: view_def)

lemma view_start [simp]: "view j (startInvocationIfAllowed t i ag st) = view j st"
  using find_inv_start [of j t i ag st] by (auto simp: view_def)

lemma view_drain:
  "list_all (\<lambda>e. view (fst e) st \<noteq> Some Held) es \<Longrightarrow> view j (drainPending t es kept st) = view j st"
proof (induction t es kept st rule: drainPending.induct)
  case (2 t i a es kept st)
  show ?case
  proof (cases "case find_inv i st of Some v \<Rightarrow> is_terminal (inv_status v) | None \<Rightarrow> False")
    case True
    with 2 show ?thesis by simp
  next
    case False
    then have o: "\<forall>s. view i st \<noteq> Some (Over s)" by (auto simp: view_def)
    have l: "view k (http_launch t i a st) = view k st" for k
      by (rule view_launch [OF _ o]) (use 2(4) in simp)
    show ?thesis
    proof (cases "hasCapacity (ag_id a) (http st)")
      case True
      with False 2(3) 2(4) show ?thesis by (simp add: l)
    next
      case no: False
      with False 2(2) 2(4) show ?thesis by simp
    qed
  qed
qed simp

definition grows :: "string set \<Rightarrow> 'w server \<Rightarrow> 'w server \<Rightarrow> bool" where
  "grows I st st' \<longleftrightarrow>
     all_ids st' = all_ids st \<and> set (issued_ids st) \<subseteq> set (issued_ids st') \<and> http_ids st' \<subseteq> http_ids st \<union> I"

lemma grows_quiet: "grows I st st1 \<Longrightarrow> quiet st1 st2 \<Longrightarrow> grows I st st2"
  unfolding grows_def quiet_def by auto

lemma quiet_grows: "quiet st st1 \<Longrightarrow> grows I st1 st2 \<Longrightarrow> grows I st st2"
  unfolding grows_def quiet_def by auto

lemma grows_launch: "grows {i} st (http_launch t i a st)"
  unfolding http_launch_def
proof (rule grows_quiet)
  show "grows {i} st (upd_inv i (launched_row t) (set_http (claim_slot i (ag_id a)) st))"
    by (auto simp: grows_def all_ids_def http_ids_def claim_slot_def set_http_def)
qed (rule quiet_append_events, rule quiet_refl)

lemma grows_start: "grows (if view i st = Some Open then {i} else {}) st (startInvocationIfAllowed t i ag st)"
proof (cases "startInvocationIfAllowed t i ag st = st")
  case True
  then show ?thesis by (simp add: grows_def)
next
  case False
  then obtain a v where a: "ag = Some a" "find_inv i st = Some v"
    "\<not> is_terminal (inv_status v)" "inv_status v \<noteq> WaitingForLocalApproval"
    by (auto simp: startInvocationIfAllowed_def split: option.splits if_splits)
  then have "view i st = Some Open" by (simp add: view_def)
  moreover let ?st1 = "set_http (\<lambda>h. h\<lparr>hr_scheduled := i # hr_scheduled h\<rparr>) st"
  have s: "quiet st ?st1" by (simp add: quiet_def all_ids_def http_ids_def set_http_def)
  have "grows {i} st (append_event t e (set_http (\<lambda>h. h\<lparr>hr_pending := hr_pending h @ [(i, a)]\<rparr>)
      (upd_inv i (waiting_row t) ?st1)))" for e
    by (rule grows_quiet [OF _ quiet_append_event [OF quiet_refl]])
       (auto simp: grows_def all_ids_def http_ids_def set_http_def)
  moreover have "grows {i} st (http_launch t i a ?st1)" by (rule quiet_grows [OF s grows_launch])
  moreover have "grows {i} st st" by (auto simp: grows_def)
  ultimately show ?thesis using a False
    by (simp add: startInvocationIfAllowed_def Let_def)
qed

lemma grows_drain:
  "grows (fst ` set es \<union> fst ` set kept) (st\<lparr>http := (http st)\<lparr>hr_pending := []\<rparr>\<rparr>) (drainPending t es kept st)"
proof (induction t es kept st rule: drainPending.induct)
  case (1 t kept st)
  then show ?case by (auto simp: grows_def all_ids_def http_ids_def set_http_def)
next
  case (2 t i a es kept st)
  let ?cut = "\<lambda>s. s\<lparr>http := (http s)\<lparr>hr_pending := []\<rparr>\<rparr>"
  have launch: "grows {i} (?cut st) (?cut (http_launch t i a st))"
    using grows_launch [of i st t a] unfolding grows_def all_ids_def http_ids_def
    by (simp add: claim_slot_def)
  have join: "grows I a b \<Longrightarrow> grows J b c \<Longrightarrow> I \<union> J \<subseteq> K \<Longrightarrow> grows K a c" for I J K and a b c :: "'a server"
    unfolding grows_def by (intro conjI) (simp, blast, blast)
  show ?case
  proof (cases "case find_inv i st of Some v \<Rightarrow> is_terminal (inv_status v) | None \<Rightarrow> False")
    case True
    let ?st1 = "set_http (\<lambda>h. h\<lparr>hr_scheduled := filter (\<lambda>s. s \<noteq> i) (hr_scheduled h)\<rparr>) st"
    have "grows {} (?cut st) (?cut ?st1)" by (simp add: grows_def all_ids_def http_ids_def set_http_def)
    note step = join [OF this 2(1) [OF True]]
    show ?thesis unfolding drainPending.simps if_P [OF True] by (rule step) auto
  next
    case no: False
    show ?thesis
    proof (cases "hasCapacity (ag_id a) (http st)")
      case True
      then have "\<not> \<not> hasCapacity (ag_id a) (http st)" by simp
      note step = join [OF launch 2(3) [OF no this]]
      show ?thesis unfolding drainPending.simps if_not_P [OF no] using True by (simp, intro step) auto
    next
      case False
      have refl: "grows {} (?cut st) (?cut st)" by (simp add: grows_def)
      note step = join [OF refl 2(2) [OF no False]]
      show ?thesis unfolding drainPending.simps if_not_P [OF no] using False
        by (simp, intro step) auto
    qed
  qed
qed

lemma grows_drain_all: "grows {} st (drainPending t (hr_pending (http st)) [] st)"
proof -
  let ?cut = "st\<lparr>http := (http st)\<lparr>hr_pending := []\<rparr>\<rparr>"
  have "http_ids ?cut \<union> fst ` set (hr_pending (http st)) = http_ids st" by (simp add: http_ids_def)
  moreover have "all_ids ?cut = all_ids st" by (simp add: all_ids_def)
  ultimately show ?thesis
    using grows_drain [of "hr_pending (http st)" "[]" st t] by (simp add: grows_def)
qed

section \<open>The invariant of the server\<close>

text \<open>Row ids are distinct and were issued; what the HTTP runtime holds are runs that exist and are not
  held for approval.\<close>

definition server_ok :: "'w server \<Rightarrow> bool" where
  "server_ok st \<longleftrightarrow> rows_issued st \<and> distinct (all_ids st)
     \<and> (\<forall>i \<in> http_ids st. view i st \<noteq> None \<and> view i st \<noteq> Some Held)"

lemma life_alive: "life c p q \<Longrightarrow> p \<noteq> None \<and> p \<noteq> Some Held \<Longrightarrow> q \<noteq> None \<and> q \<noteq> Some Held"
  by (erule life.cases) auto

lemma server_ok_step:
  assumes "server_ok st" and "grows I st st'"
    and "\<And>j. life (c j) (view j st) (view j st')"
    and "\<And>j. j \<in> I \<Longrightarrow> view j st' \<noteq> None \<and> view j st' \<noteq> Some Held"
  shows "server_ok st'"
proof -
  have ids: "inv_id ` set (invocations st') = inv_id ` set (invocations st)"
    using assms(2) unfolding grows_def all_ids_def by (metis set_map)
  have "rows_issued st'" using assms(1,2) unfolding server_ok_def rows_issued_def grows_def ids by blast
  moreover have "distinct (all_ids st')" using assms(1,2) by (simp add: server_ok_def grows_def)
  moreover have "\<forall>i \<in> http_ids st'. view i st' \<noteq> None \<and> view i st' \<noteq> Some Held"
    using assms(1,2,4) life_alive [OF assms(3)] unfolding server_ok_def grows_def by blast
  ultimately show ?thesis by (simp add: server_ok_def)
qed

lemma server_ok_quiet:
  assumes "server_ok st" and "quiet st st'" and "\<And>j. life (c j) (view j st) (view j st')"
  shows "server_ok st'"
  by (rule server_ok_step [OF assms(1) _ assms(3), where I = "{}"]) (use assms(2) in \<open>simp_all add: grows_def quiet_def\<close>)

section \<open>Creation\<close>

lemma quiet_next_id: "quiet st s \<Longrightarrow> quiet st (snd (next_id p s))"
  by (erule quiet_trans) (rule quiet_same; auto simp: next_id_issued)

lemma quiet_tables:
  "quiet st s \<Longrightarrow> quiet st (s\<lparr>policy_records := ps\<rparr>)" "quiet st s \<Longrightarrow> quiet st (s\<lparr>approvals := as\<rparr>)"
  by (erule quiet_trans; rule quiet_same; simp)+

lemma quiet_create_record: "quiet (st\<lparr>invocations := v # invocations st\<rparr>) (snd (create_record t a pol p v st))"
  unfolding create_record_def createPolicyDecisionRecord_def Let_def case_prod_beta prod.sel
  by (intro quiet_steps quiet_tables quiet_next_id quiet_refl) simp

lemma quiet_reject: "quiet st s \<Longrightarrow> quiet st (reject_new t v pid reason refusal s)"
  unfolding reject_new_def Let_def deny_record_def by (intro quiet_steps quiet_tables) simp_all

lemma quiet_admit: "quiet st s \<Longrightarrow> quiet st (admit_new t a options pol v pid s)"
proof -
  have upd: "quiet st x \<Longrightarrow> (\<And>v. inv_id (f v) = inv_id v) \<Longrightarrow>
      quiet st (x\<lparr>invocations := upd_where (\<lambda>x. inv_id x = i) f (invocations x), policy_records := ps\<rparr>)" for x f i ps
    by (erule quiet_trans) (simp add: quiet_def all_ids_def http_ids_def upd_where_def comp_def cong: map_cong)
  show "quiet st s \<Longrightarrow> ?thesis"
    unfolding admit_new_def createApprovalRequest_def Let_def case_prod_beta prod.sel
    by (intro quiet_if upd quiet_steps quiet_tables quiet_next_id) simp_all
qed

lemma quiet_commit:
  obtains v did where
    "did = fst (next_id ''del_demo'' st)" and "v = create_row t task a options actor p did st"
    "quiet ((snd (next_id ''del_demo'' st))\<lparr>invocations := v # invocations st\<rparr>)
       (create_commit t task a options actor p st)"
proof
  let ?did = "fst (next_id ''del_demo'' st)" and ?st1 = "snd (next_id ''del_demo'' st)"
  let ?v = "create_row t task a options actor p ?did st"
  have q: "quiet (?st1\<lparr>invocations := ?v # invocations st\<rparr>)
      (snd (create_record t a (evaluateInvocationPolicy a options) p ?v ?st1))"
    using quiet_create_record [of ?v ?st1 t a _ p] by simp
  show "quiet (?st1\<lparr>invocations := ?v # invocations st\<rparr>) (create_commit t task a options actor p st)"
    unfolding create_commit_def Let_def case_prod_beta
    by (auto intro!: quiet_reject quiet_admit q split: option.split)
qed simp_all

lemma prepare_issued:
  "pp_id (fst (create_prepare t a options actor st)) \<in> set (issued_ids (snd (create_prepare t a options actor st)))"
proof -
  have "same_rows (snd (next_id ''inv_demo'' st)) (snd (create_prepare t a options actor st))"
    unfolding create_prepare_def Let_def case_prod_beta snd_conv
    by (rule same_rows_trans [OF _ rows_hold], rule same_rows_trans [OF _ rows_gates],
        rule same_rows_trans [OF _ rows_sessions], rule same_rows_trans [OF _ rows_quota], rule rows_trace)
  then show ?thesis by (auto simp: same_rows_def prepare_id next_id_issued)
qed

lemma created:
  assumes "rows_issued st" and "find_existing options actor st = None" and "\<not> bad_model a options"
    and "createInvocation t task (Some a) options actor st = Inr (i, st')"
  shows "all_ids st' = i # all_ids st" and "i \<notin> set (all_ids st)"
    and "insert i (set (issued_ids st)) \<subseteq> set (issued_ids st')" and "http_ids st' = http_ids st"
    and "life Submitted (view j st) (view j st')"
proof -
  let ?p = "fst (create_prepare t a options actor st)" and ?st1 = "snd (create_prepare t a options actor st)"
  from create_new [OF assms(2, 3), of t task] assms(4) have i: "i = pp_id ?p"
    and st': "st' = create_commit t task a options actor ?p ?st1" by simp_all
  have rows: "same_rows st ?st1" by (rule rows_prepare)
  obtain v did where v: "v = create_row t task a options actor ?p did ?st1"
    and q: "quiet ((snd (next_id ''del_demo'' ?st1))\<lparr>invocations := v # invocations ?st1\<rparr>) st'"
    unfolding st' by (rule quiet_commit)
  have vi: "inv_id v = i" by (simp add: v i)
  show ids: "all_ids st' = i # all_ids st"
    using q rows vi by (simp add: quiet_def all_ids_def same_rows_def)
  show fresh: "i \<notin> set (all_ids st)"
    using prepare_fresh(2) [OF assms(1), of t a options actor] by (simp add: i all_ids_def)
  have "i \<in> set (issued_ids ?st1)" unfolding i by (rule prepare_issued)
  then show "insert i (set (issued_ids st)) \<subseteq> set (issued_ids st')"
    using q rows by (auto simp: quiet_def same_rows_def next_id_issued)
  show "http_ids st' = http_ids st" by (simp add: http_ids_def st')
  obtain w where w: "inv_id w = i" "inv_status w = admitted_status a options (pp_gates ?p)"
    and fate: "case denial_reason (pp_gates ?p) of
        Some (code, reason) \<Rightarrow> refused_run w t code reason (invocations st) st st'
      | None \<Rightarrow> admitted_run w (requires_approval a options) (invocations st) st st'"
    unfolding st' i
    using outcome [OF assms(1) HOL.refl HOL.refl, where t = t and task = task and a = a and options = options and actor = actor]
    by metis
  obtain x y z where row: "invocations st' = stamped w x y z # invocations st"
    using fate by (auto simp: refused_run_def admitted_run_def split: option.splits if_splits)
  show "life Submitted (view j st) (view j st')"
  proof (cases "j = i")
    case False
    then have "view j st' = view j st" by (simp add: view_def find_inv_def row w(1))
    then show ?thesis by (simp add: stay)
  next
    case True
    have "find_inv i st = None"
      using fresh by (auto simp: find_inv_def all_ids_def find_None_iff)
    then have "view j st = None" using True by (simp add: view_def)
    moreover have "view j st' = Some (phase_of (inv_status w))" using True by (simp add: view_def find_inv_def row w(1))
    moreover have "phase_of (inv_status w) \<in> {Held, Open, Over Rejected}"
      unfolding w(2) by (simp add: admitted_status_def)
    ultimately show ?thesis by (simp add: submit)
  qed
qed

section \<open>Every operation is a step of the specification\<close>

lemma life_fold:
  assumes "\<And>i s. i \<in> set is \<Longrightarrow> P s \<Longrightarrow> life c (view j s) (view j (op i s)) \<and> P (op i s)" and "P st"
  shows "life c (view j st) (view j (fold op is st))"
  using assms
proof (induction \<open>is\<close> arbitrary: st)
  case Nil
  then show ?case by (simp add: stay)
next
  case (Cons i ids)
  from Cons.prems have "life c (view j st) (view j (op i st))" "P (op i st)" by auto
  with Cons.IH [of "op i st"] Cons.prems(1) show ?case by (auto intro: life_trans)
qed

lemma life_transition:
  assumes "bridge_transition dev (find_inv j st) (find_inv j st')"
  shows "life Worked (view j st) (view j st')"
  using assms unfolding bridge_transition_def by (auto simp: view_def life_worked)

lemma life_sweeps:
  "life Worked (view j st) (view j (reclaimStuckCancellations hk lease t st))"
  "life Worked (view j st) (view j (reclaimSupersededBridgeSessions hk t st))"
  "life Worked (view j st) (view j (redeliverExpiredDispatches hk t st))"
proof -
  have a: "life Worked (view j s) (view j (reclaim_stuck hk lease t i s))" for i s
    by (cases "find_inv i s") (auto simp: reclaim_stuck_def is_stuck_def view_def stay intro!: life_complete [unfolded view_def])
  have b: "life Worked (view j s) (view j (reclaim_superseded hk t i s))" for i s
  proof (cases "find_inv i s")
    case None
    then show ?thesis by (simp add: reclaim_superseded_def stay)
  next
    case (Some v)
    let ?s = "upd_inv i drop_supersession s"
    have same: "view k ?s = view k s" for k
      by (simp add: view_def find_inv_upd_inv option.map_comp comp_def drop_supersession_def)
    show ?thesis
    proof (cases "inv_status v \<in> INFLIGHT_STATUSES")
      case True
      then have "view i ?s \<noteq> Some Held" unfolding same using Some by (auto simp: view_def INFLIGHT_STATUSES_def)
      from life_complete [OF this, of j hk t, unfolded same] show ?thesis
        using Some by (simp add: reclaim_superseded_def stay split: option.split)
    qed (use Some in \<open>simp add: reclaim_superseded_def stay split: option.split\<close>)
  qed
  have c: "life Worked (view j s) (view j (redeliver_one hk t i s))" for i s
  proof (cases "j = i \<and> find_inv i s \<noteq> None")
    case True
    then obtain v v' where "find_inv j s = Some v" "find_inv j (redeliver_one hk t i s) = Some v'"
      "redelivered t v v'"
      using redelivery.rel_row [of i s _ hk t] by blast
    then show ?thesis
      by (auto simp: view_def life_worked redelivered_def lease_expired_def redelivering_row_def split: if_splits)
  next
    case False
    then show ?thesis
      using redelivery.rel_other [of j i hk t s] by (cases "j = i") (auto simp: redeliver_one_def view_def stay)
  qed
  show "life Worked (view j st) (view j (reclaimStuckCancellations hk lease t st))"
    and d: "life Worked (view j st) (view j (reclaimSupersededBridgeSessions hk t st))" for st
    unfolding reclaimStuckCancellations_def reclaimSupersededBridgeSessions_def
    by (rule life_fold [where P = "\<lambda>_. True"], simp add: a b, simp)+
  show "life Worked (view j st) (view j (redeliverExpiredDispatches hk t st))"
    unfolding redeliverExpiredDispatches_def Let_def
    by (rule life_trans [OF d], rule life_fold [where P = "\<lambda>_. True"], simp add: c, simp)
qed

lemma life_next:
  assumes "distinct (all_ids st)"
  shows "life Worked (view j st) (view j (snd (bridge_next hk dk rs lease t dev linked st)))"
proof -
  let ?st1 = "redeliverExpiredDispatches hk t st"
  let ?st2 = "reclaimStuckCancellations hk lease t (reclaimSupersededBridgeSessions hk t ?st1)"
  have sweeps: "life Worked (view j st) (view j ?st2)" by (blast intro: life_trans life_sweeps)
  have "quiet st ?st2" by (intro quiet_sweeps quiet_refl)
  then have d: "distinct (map inv_id (invocations ?st2))" using assms by (simp add: quiet_def all_ids_def)
  have mark: "view j (markDispatched lease t (inv_id v) ?st2) = view j ?st2"
    if "select_next dk rs t ?st2 = Some v" for v
  proof -
    have "v \<in> set (invocations ?st2)" and "dispatch_reason_of rs ?st2 v = Dispatchable"
      using select_next_Some [OF that] by (auto simp: dispatchable_def)
    then have "find_inv (inv_id v) ?st2 = Some v" and "inv_status v = Queued"
      using find_inv_unique [OF d] dispatch_reason_Dispatchable by auto
    then show ?thesis
      by (auto simp: markDispatched_def Let_def view_def find_inv_upd_inv dispatched_row_def)
  qed
  show ?thesis
    using sweeps mark
    by (auto simp: bridge_next_def nextDispatchableInvocation_def Let_def stay split: option.split)
qed

lemma life_settle:
  assumes "server_ok st"
  shows "life Worked (view j st) (view j (http_settle hk t i b st))"
    and "grows {} st (http_settle hk t i b st)"
proof -
  let ?st1 = "\<lambda>a. set_http (free_slot i a) (completeInvocation hk t i b st)"
  have q: "quiet st (?st1 a)" for a
    using quiet_complete [OF quiet_refl, of st hk t i b]
    by (auto simp: quiet_def http_ids_def all_ids_def set_http_def free_slot_def Let_def)
  have live: "view i st \<noteq> Some Held" if "map_of (hr_live (http st)) i = Some a" for a
    using assms map_of_SomeD [OF that] by (force simp: server_ok_def http_ids_def)
  have done1: "life Worked (view k st) (view k (?st1 a))" if "map_of (hr_live (http st)) i = Some a" for a k
    using life_complete [OF live [OF that], of k hk t b] by simp
  have held: "list_all (\<lambda>e. view (fst e) (?st1 a) \<noteq> Some Held) (hr_pending (http (?st1 a)))"
    if "map_of (hr_live (http st)) i = Some a" for a
  proof -
    have "server_ok (?st1 a)" by (rule server_ok_quiet [OF assms q done1 [OF that]])
    then show ?thesis by (auto simp: server_ok_def http_ids_def list_all_iff)
  qed
  show "life Worked (view j st) (view j (http_settle hk t i b st))"
    using done1 view_drain [OF held] by (auto simp: http_settle_def Let_def stay split: option.split)
  have "grows {} st (drainPending t (hr_pending (http (?st1 a))) [] (?st1 a))" for a
    by (rule quiet_grows [OF q grows_drain_all])
  then show "grows {} st (http_settle hk t i b st)"
    by (auto simp: http_settle_def Let_def grows_def split: option.split)
qed

lemma life_approve:
  "life (if i = j then Approved else Worked) (view j st) (view j (approveInvocation hk t actor aid i st))"
  and grows_approve: "server_ok st \<Longrightarrow> server_ok (approveInvocation hk t actor aid i st)"
proof -
  let ?st' = "approveInvocation hk t actor aid i st"
  have life: "life (if i = j then Approved else Worked) (view j st) (view j ?st')" for j
  proof (cases "undecided aid i st")
    case False
    then show ?thesis by (simp add: decided_final stay)
  next
    case True
    from undecided_find [OF True] obtain v where v: "find_inv i st = Some v" "inv_status v = WaitingForLocalApproval"
      by blast
    show ?thesis
    proof (cases "i = j")
      case True
      obtain v' where "find_inv i ?st' = Some v'" "inv_status v' \<in> {Queued, Running}"
        using approve_row(1) [OF \<open>undecided aid i st\<close> v(1)] by blast
      then have "view j ?st' = Some Open" using True by (auto simp: view_def)
      moreover have "view j st = Some Held" using v True by (simp add: view_def)
      ultimately show ?thesis using True by (simp add: approve)
    next
      case False
      with approve_row(2) [OF True v(1)] show ?thesis by (simp add: view_def stay)
    qed
  qed
  then show "life (if i = j then Approved else Worked) (view j st) (view j ?st')" .
  show "server_ok ?st'" if ok: "server_ok st"
  proof (cases "undecided aid i st")
    case False
    with ok show ?thesis by (simp add: decided_final)
  next
    case True
    from undecided_find [OF True] obtain v where v: "find_inv i st = Some v" by blast
    let ?c = "approve_commit t (actor_user actor) (findAgent (inv_agentId v) st) aid v st"
    let ?s = "startInvocationIfAllowed t i (findAgent (inv_agentId v) st) ?c"
    have eq: "?st' = do_hook t (hk_approved hk) i JNull ?s"
      using v True by (simp add: approveInvocation_def Let_def)
    have "quiet st ?c" using find_inv_SomeD [OF v] by (simp add: quiet_approve_commit)
    from grows_quiet [OF quiet_grows [OF this grows_start] quiet_do_hook [OF quiet_refl]]
    have g: "grows (if view i ?c = Some Open then {i} else {}) st ?st'" unfolding eq .
    have "view j ?st' = view j ?c" for j unfolding eq by (simp add: view_same [where st = ?s])
    with g show ?thesis by (intro server_ok_step [OF ok g life]) (auto split: if_splits)
  qed
qed

lemma life_deny: "life (if i = j then Denied else Worked) (view j st) (view j (denyInvocation hk t actor aid i st))"
proof (cases "undecided aid i st")
  case False
  then show ?thesis by (simp add: decided_final stay)
next
  case True
  from undecided_find [OF True] obtain v where "find_inv i st = Some v" "inv_status v = WaitingForLocalApproval"
    by blast
  with deny_effect(1) [OF True, of v j hk t actor] show ?thesis
    by (auto simp: view_def deny stay)
qed

lemma life_cancel:
  "life (if i = j then CancelAsked else Worked) (view j st) (view j (cancelInvocation hk t actor i st))"
proof (cases "i = j \<and> (\<exists>v. find_inv i st = Some v \<and> \<not> is_terminal (inv_status v))")
  case True
  then obtain v where v: "i = j" "find_inv i st = Some v" "\<not> is_terminal (inv_status v)" by blast
  from cancelInvocation_row [OF v(2, 3), of hk t actor] obtain v' where
    "find_inv i (cancelInvocation hk t actor i st) = Some v'" "cancelled_row hk t actor st v v'" by blast
  with v show ?thesis
    by (auto simp: view_def cancelled_row_def stay intro: cancel split: if_splits)
next
  case False
  then show ?thesis
    using cancelInvocation_other [of j i hk t actor st]
    by (cases "i = j") (auto simp: cancelInvocation_def view_def stay split: option.split)
qed

lemma ids_with_find:
  assumes "distinct (all_ids st)" and "i \<in> set (ids_with S st)"
  obtains v where "find_inv i st = Some v" and "inv_status v \<in> S"
  using assms find_inv_unique [of st] by (auto simp: all_ids_def ids_with_def)

lemma view_unlink_queued:
  "view i st \<noteq> None \<Longrightarrow> view j (unlink_queued t i st) = (if i = j then Some (Over Cancelled) else view j st)"
  by (auto simp: view_def unlink_queued_def cancel_queued.op_row queued_cancelled_def)

lemma view_request:
  "view i st = Some Open \<Longrightarrow> view j (requestRunningDeviceCancellation hk t i st) = view j st"
  by (auto simp: view_def requestRunningDeviceCancellation_def Let_def find_inv_upd_inv requested_cancel_def)

lemma life_unlink:
  assumes "distinct (all_ids st)"
  shows "life CancelAsked (view j st) (view j (cancelInvocationsForDeviceUnlink hk t st))"
proof -
  let ?Q = "{Queued, WaitingForLocalApproval}" and ?R = "{Dispatching, Running}"
  let ?P = "\<lambda>I s. \<forall>i \<in> I. view i s \<in> {Some Held, Some Open, Some (Over Cancelled)}"
  let ?q = "ids_with ?Q st" and ?st1 = "fold (unlink_queued t) (ids_with ?Q st) st"
  have "?P (set ?q) st"
    by (auto simp: view_def elim: ids_with_find [OF assms])
  then have first: "life CancelAsked (view j st) (view j ?st1)"
  proof (rule life_fold [where P = "?P (set ?q)", rotated])
    fix i and s :: "'a server"
    assume i: "i \<in> set ?q" and P: "?P (set ?q) s"
    then have v: "view k (unlink_queued t i s) = (if i = k then Some (Over Cancelled) else view k s)" for k
      by (intro view_unlink_queued) force
    have "view i s \<in> {Some Held, Some Open, Some (Over Cancelled)}" using i P by blast
    then have "life CancelAsked (view i s) (Some (Over Cancelled))" by (auto intro: cancel stay)
    with i P show "life CancelAsked (view j s) (view j (unlink_queued t i s)) \<and> ?P (set ?q) (unlink_queued t i s)"
      by (auto simp: v stay)
  qed
  have "quiet st ?st1" by (intro quiet_fold quiet_refl) (simp add: unlink_queued_def quiet_queued)
  then have d: "distinct (all_ids ?st1)" using assms by (simp add: quiet_def)
  have "\<forall>i \<in> set (ids_with ?R ?st1). view i ?st1 = Some Open"
    by (auto simp: view_def elim: ids_with_find [OF d])
  then have "life CancelAsked (view j ?st1)
      (view j (fold (requestRunningDeviceCancellation hk t) (ids_with ?R ?st1) ?st1))"
    by (rule life_fold [where P = "\<lambda>s. \<forall>i \<in> set (ids_with ?R ?st1). view i s = Some Open", rotated])
       (simp add: view_request stay)
  with first show ?thesis
    unfolding cancelInvocationsForDeviceUnlink_def Let_def by (rule life_trans)
qed

lemma life_submit:
  assumes "server_ok st"
  shows "life Submitted (view j st) (view j (snd (postInvocation t header actor body st)))"
    and "server_ok (snd (postInvocation t header actor body st))"
proof -
  let ?post = "postInvocation t header actor body st"
  have "(\<forall>j. life Submitted (view j st) (view j (snd ?post))) \<and> server_ok (snd ?post)"
  proof (cases rule: post_cases [where t = t and header = header and actor = actor and body = body and st = st])
    case (denied c e)
    with assms show ?thesis by (simp add: stay)
  next
    case (posted a i st1)
    let ?o = "route_options header body"
    let ?s = "startInvocationIfAllowed t i (Some a) st1"
    have nb: "\<not> bad_model a ?o" using posted(4) by (auto simp: createInvocation_def)
    have mid: "(\<forall>j. life Submitted (view j st) (view j st1)) \<and> server_ok st1"
    proof (cases "find_existing ?o actor st")
      case (Some v)
      with posted(4) nb have "st1 = st" by (simp add: createInvocation_def)
      with assms show ?thesis by (simp add: stay)
    next
      case None
      note c = created [OF _ None nb posted(4)]
      have ri: "rows_issued st" using assms by (simp add: server_ok_def)
      have alive: "\<forall>k \<in> http_ids st1. view k st1 \<noteq> None \<and> view k st1 \<noteq> Some Held"
        using assms life_alive [OF c(5) [OF ri]] unfolding c(4) [OF ri] server_ok_def by blast
      moreover have "rows_issued st1"
        using c(1) [OF ri] c(3) [OF ri] ri unfolding rows_issued_def all_ids_def
        by (metis (no_types, lifting) insert_subset list.simps(15) set_map subset_trans)
      moreover have "distinct (all_ids st1)"
        using assms c(1,2) [OF ri] by (simp add: server_ok_def)
      ultimately show ?thesis using c(5) [OF ri] by (simp add: server_ok_def)
    qed
    have g: "grows (if view i st1 = Some Open then {i} else {}) st1 ?s" by (rule grows_start)
    have "server_ok ?s"
      by (rule server_ok_step [OF _ g, where c = "\<lambda>_. Submitted"]) (use mid in \<open>auto simp: stay split: if_splits\<close>)
    with mid posted(5) show ?thesis by simp
  qed
  then show "life Submitted (view j st) (view j (snd ?post))" and "server_ok (snd ?post)" by blast+
qed

lemma exec_life:
  assumes "server_ok st"
  shows "life (causes j a) (view j st) (view j (exec en a st))" and "server_ok (exec en a st)"
proof -
  obtain t act where a: "a = (t, act)" by fastforce
  have d: "distinct (all_ids st)" using assms by (simp add: server_ok_def)
  have "(\<forall>j. life (causes j a) (view j st) (view j (exec en a st))) \<and> server_ok (exec en a st)"
  proof (cases act)
    case (Submit header body actor)
    then show ?thesis using life_submit [OF assms] a by simp
  next
    case (Approve actor aid i)
    have l: "life (if i = j then Approved else Worked) (view j st)
        (view j (approveInvocation (en_hooks en) t actor aid i st))" for j by (rule life_approve)
    with Approve a grows_approve [OF assms] show ?thesis by simp
  next
    case (Deny actor aid i)
    have l: "life (if i = j then Denied else Worked) (view j st) (view j (denyInvocation (en_hooks en) t actor aid i st))"
      for j by (rule life_deny)
    with Deny a server_ok_quiet [OF assms quiet_deny l] show ?thesis by simp
  next
    case (Cancel actor i)
    have l: "life (if i = j then CancelAsked else Worked) (view j st)
        (view j (cancelInvocation (en_hooks en) t actor i st))" for j by (rule life_cancel)
    with Cancel a server_ok_quiet [OF assms quiet_cancel l] show ?thesis by simp
  next
    case Unlink
    with a life_unlink [OF d] server_ok_quiet [OF assms quiet_unlink life_unlink [OF d]] show ?thesis by simp
  next
    case (Poll dev linked)
    with a life_next [OF d] server_ok_quiet [OF assms quiet_next [OF quiet_refl] life_next [OF d]]
    show ?thesis by simp
  next
    case (Ack dev i)
    then show ?thesis using a
      by (simp add: life_transition [OF ack_transition]
          server_ok_quiet [OF assms quiet_bridge(1) life_transition [OF ack_transition]])
  next
    case (Report dev i b)
    show ?thesis
    proof (cases "bridge_events (en_telemetry en) (en_strict en) t dev i b st")
      case (Inl e)
      with Report a assms show ?thesis by (simp add: stay)
    next
      case (Inr r)
      obtain x st' where r: "r = (x, st')" by fastforce
      note e = Inr [unfolded r]
      have l: "life Worked (view j st) (view j st')" for j
        by (simp add: view_events [OF e] stay)
      with Report a e server_ok_quiet [OF assms quiet_events [OF e] l] show ?thesis by simp
    qed
  next
    case (Finish dev i b)
    then show ?thesis using a
      by (simp add: life_transition [OF complete_transition]
          server_ok_quiet [OF assms quiet_bridge(2) life_transition [OF complete_transition]])
  next
    case (Refuse dev i reason code)
    then show ?thesis using a
      by (simp add: life_transition [OF refuse_transition]
          server_ok_quiet [OF assms quiet_bridge(3) life_transition [OF refuse_transition]])
  next
    case (Settle i b)
    with a life_settle(1) [OF assms] server_ok_step [OF assms life_settle(2) [OF assms] life_settle(1) [OF assms]]
    show ?thesis by simp
  qed
  then show "life (causes j a) (view j st) (view j (exec en a st))" and "server_ok (exec en a st)" by blast+
qed

section \<open>Runs of the server are runs of the specification\<close>

locale refinement =
  fixes step :: "'a \<Rightarrow> 's \<Rightarrow> 's"
    and ok :: "'s \<Rightarrow> bool"
    and abs_of :: "'s \<Rightarrow> 't"
    and spec :: "'a \<Rightarrow> 't \<Rightarrow> 't \<Rightarrow> bool"
  assumes ok_step: "ok s \<Longrightarrow> ok (step a s)"
    and simulated: "ok s \<Longrightarrow> spec a (abs_of s) (abs_of (step a s))"
begin

lemma ok_run: "ok s \<Longrightarrow> ok (fold step as s)"
  by (induction as arbitrary: s) (simp_all add: ok_step)

lemma run_simulated:
  assumes "\<And>p. R [] p p" and "\<And>a as p q r. spec a p q \<Longrightarrow> R as q r \<Longrightarrow> R (a # as) p r"
  shows "ok s \<Longrightarrow> R as (abs_of s) (abs_of (fold step as s))"
  by (induction as arbitrary: s) (auto intro: assms simulated ok_step)

end

interpretation server: refinement "exec en" server_ok "view j" "\<lambda>a. life (causes j a)"
  by unfold_locales (simp_all add: exec_life)

lemma server_run_lives:
  "server_ok st \<Longrightarrow> lives (map (causes j) as) (view j st) (view j (fold (exec en) as st))"
  by (rule server.run_simulated [where R = "\<lambda>as. lives (map (causes j) as)"])
     (auto intro: lives.intros)

text \<open>C3: whatever clients, users, bridges and remote agents do, in whatever order, the server stays well
  formed and each run lives by the specification: it comes into being held, open or rejected; a held run
  is moved only by an approval, a denial or a cancellation that names it (or the unlink of the device), an
  open one ends once, and one that is over never changes phase again.\<close>

theorem lifecycle_refines:
  assumes "server_ok st"
  shows "server_ok (fold (exec en) as st)
    \<and> lives (map (causes j) as) (view j st) (view j (fold (exec en) as st))"
  using assms by (simp add: server.ok_run server_run_lives)

fun approves :: "string \<Rightarrow> instant \<times> action \<Rightarrow> bool" where
  "approves j (t, Approve actor aid i) \<longleftrightarrow> i = j"
| "approves j a \<longleftrightarrow> False"

lemma causes_approved: "causes j a = Approved \<longleftrightarrow> approves j a"
  by (cases "(j, a)" rule: approves.cases) auto

definition by_people :: "string \<Rightarrow> instant \<times> action \<Rightarrow> bool" where
  "by_people j a \<longleftrightarrow> causes j a \<in> {Approved, Denied, CancelAsked}"

text \<open>C4: no sequence of requests, polls, completions and HTTP answers gets a run out of its hold: as long
  as no approval, denial or cancellation is about it, it stays held, and if it is found open an approval
  of that run was among the actions.  A run that is over keeps its status whatever follows.\<close>

theorem held_until_approved:
  assumes "server_ok st"
  shows "let q = view j (fold (exec en) as st)
    in case view j st of
         Some Held \<Rightarrow>
           (if list_ex (by_people j) as then q = Some Open \<longrightarrow> list_ex (approves j) as else q = Some Held)
       | Some (Over s) \<Rightarrow> q = Some (Over s)
       | _ \<Rightarrow> True"
proof -
  note l = server_run_lives [OF assms, of j as en]
  have people: "list_ex (by_people j) as \<longleftrightarrow> set (map (causes j) as) \<inter> {Approved, Denied, CancelAsked} \<noteq> {}"
    unfolding list_ex_iff by_people_def set_map by blast
  have ap: "list_ex (approves j) as \<longleftrightarrow> Approved \<in> set (map (causes j) as)"
    unfolding list_ex_iff causes_approved [symmetric] set_map by (metis image_iff)
  show ?thesis
  proof (cases "view j st")
    case (Some p)
    show ?thesis
    proof (cases p)
      case Held
      with Some l have h: "lives (map (causes j) as) (Some Held) (view j (fold (exec en) as st))" by simp
      show ?thesis unfolding people ap Some Held Let_def
        using lives_held [OF h] lives_held_work [OF h] by simp
    next
      case (Over s)
      with Some l lives_over show ?thesis by (auto simp: Let_def)
    qed (simp add: Some)
  qed simp
qed

definition demo_env :: "session_tables env" where
  "demo_env = \<lparr>en_hooks = null_hooks, en_telemetry = null_telemetry, en_dateKey = (\<lambda>t. t), en_reactions = [],
     en_lease = 30000, en_strict = False\<rparr>"

definition demo_held :: "session_tables server" where
  "demo_held = (demo_server_with demo_tables [demo_inv ''inv_1'' WaitingForLocalApproval DNotRequired 0])
     \<lparr>issued_ids := [''inv_1'']\<rparr>"

lemma demo_held_ok: "server_ok demo_held" "view ''inv_1'' demo_held = Some Held"
  by (simp_all add: server_ok_def rows_issued_def all_ids_def http_ids_def view_def find_inv_def demo_held_def
      demo_server_def)

theorem lifecycle_refines_witness:
  "lives [Worked, Denied] (Some Held)
     (view ''inv_1'' (fold (exec demo_env) [(5, Poll ''dev_1'' True), (6, Deny None ''apr_1'' ''inv_1'')] demo_held))"
  using lifecycle_refines [OF demo_held_ok(1), of demo_env
      "[(5, Poll ''dev_1'' True), (6, Deny None ''apr_1'' ''inv_1'')]" "''inv_1''"]
  by (simp add: demo_held_ok(2))

theorem held_until_approved_witness:
  "view ''inv_1'' (fold (exec demo_env)
     [(5, Poll ''dev_1'' True), (6, Ack ''dev_1'' ''inv_1''), (7, Settle ''inv_1'' stuck_body)] demo_held) = Some Held"
  using held_until_approved [OF demo_held_ok(1), where j = "''inv_1''" and en = demo_env
      and as = "[(5, Poll ''dev_1'' True), (6, Ack ''dev_1'' ''inv_1''), (7, Settle ''inv_1'' stuck_body)]"]
  by (simp add: demo_held_ok(2) by_people_def Let_def)

end
