(* ===== verification/BridgeAuth.thy ===== *)
theory BridgeAuth
  imports Prelude
begin

text \<open>
  runtime/device.mjs (the fleet and its primary device) and runtime/bridge-auth.mjs (the credential
  that names a device).  \<open>hash\<close> is the SHA-256 digest of node:crypto, \<open>tok\<close> the random token the
  crypto module drew, \<open>ttl\<close> the configured idle time to live.
\<close>

section \<open>State\<close>

record credential =
  bc_id :: string
  bc_deviceId :: string
  bc_tokenHash :: string
  bc_tokenPrefix :: string
  bc_issuedAt :: instant
  bc_lastSeenAt :: "instant option"
  bc_revokedAt :: "instant option"

record fleet_device =
  fd_id :: string
  fd_status :: string
  fd_unlinkState :: string
  fd_credential :: "credential option"
  fd_credentialRevokedAt :: "instant option"
  fd_bridgeSessionId :: "string option"
  fd_lastSeenAt :: "instant option"
  fd_livenessLostAt :: "instant option"
  fd_updatedAt :: "instant option"

datatype auth_result = Denied nat string | Granted string bool

section \<open>The fleet\<close>

definition findDevice :: "fleet_device list \<Rightarrow> string option \<Rightarrow> fleet_device option" where
  "findDevice ds i =
     (case i of None \<Rightarrow> None | Some x \<Rightarrow> if x = [] then None else List.find (\<lambda>d. fd_id d = x) ds)"

definition primaryDevice :: "fleet_device list \<Rightarrow> fleet_device option" where
  "primaryDevice ds = (case ds of [] \<Rightarrow> None | d # _ \<Rightarrow> Some d)"

definition upd_device :: "string \<Rightarrow> (fleet_device \<Rightarrow> fleet_device) \<Rightarrow> fleet_device list \<Rightarrow> fleet_device list" where
  "upd_device i = upd_where (\<lambda>d. fd_id d = i)"

section \<open>Credentials\<close>

definition credentialIsIdleExpired :: "int \<Rightarrow> instant \<Rightarrow> credential \<Rightarrow> bool" where
  "credentialIsIdleExpired ttl t c \<longleftrightarrow> ttl < t - coalesce (bc_lastSeenAt c) (bc_issuedAt c)"

definition new_credential :: "(string \<Rightarrow> string) \<Rightarrow> string \<Rightarrow> instant \<Rightarrow> string \<Rightarrow> credential" where
  "new_credential hash tok t i =
     \<lparr>bc_id = ''brg_cred_'' @ i, bc_deviceId = i, bc_tokenHash = hash tok, bc_tokenPrefix = take 8 tok,
      bc_issuedAt = t, bc_lastSeenAt = Some t, bc_revokedAt = None\<rparr>"

text \<open>Answers the token only when one was issued.\<close>

definition issueBridgeCredential ::
    "(string \<Rightarrow> string) \<Rightarrow> int \<Rightarrow> string \<Rightarrow> instant \<Rightarrow> string option \<Rightarrow> bool \<Rightarrow> fleet_device list
     \<Rightarrow> string option \<times> fleet_device list" where
  "issueBridgeCredential hash ttl tok t deviceId rot ds =
     (case (if coalesce deviceId [] \<noteq> [] then List.find (\<lambda>d. Some (fd_id d) = deviceId) ds
            else primaryDevice ds) of
        None \<Rightarrow> (None, ds)
      | Some d \<Rightarrow>
          if (case fd_credential d of None \<Rightarrow> False
              | Some c \<Rightarrow> \<not> rot \<and> \<not> credentialIsIdleExpired ttl t c)
          then (None, ds)
          else (Some tok, upd_device (fd_id d)
                 (\<lambda>x. x\<lparr>fd_credential := Some (new_credential hash tok t (fd_id d)),
                        fd_credentialRevokedAt := None\<rparr>) ds))"

definition has_hash :: "(string \<Rightarrow> string) \<Rightarrow> string \<Rightarrow> fleet_device \<Rightarrow> bool" where
  "has_hash hash tok d \<longleftrightarrow>
     (case fd_credential d of None \<Rightarrow> False | Some c \<Rightarrow> bc_tokenHash c \<noteq> [] \<and> bc_tokenHash c = hash tok)"

definition deviceForToken :: "(string \<Rightarrow> string) \<Rightarrow> string option \<Rightarrow> fleet_device list \<Rightarrow> fleet_device option" where
  "deviceForToken hash tok ds =
     (case tok of None \<Rightarrow> None | Some x \<Rightarrow> if x = [] then None else List.find (has_hash hash x) ds)"

definition seen :: "instant \<Rightarrow> fleet_device \<Rightarrow> fleet_device" where
  "seen t d =
     (let d1 = d\<lparr>fd_credential := map_option (\<lambda>c. c\<lparr>bc_lastSeenAt := Some t\<rparr>) (fd_credential d),
                 fd_lastSeenAt := Some t\<rparr>
      in if fd_status d \<noteq> ''online''
         then d1\<lparr>fd_status := ''online'', fd_livenessLostAt := None, fd_updatedAt := Some t\<rparr> else d1)"

text \<open>\<open>Granted i restored\<close>: the device the token names, and whether the request brought it back online
  (which appends the \<open>bridge_liveness_restored\<close> event).\<close>

definition requireBridgeCredential ::
    "(string \<Rightarrow> string) \<Rightarrow> int \<Rightarrow> instant \<Rightarrow> bool \<Rightarrow> string option \<Rightarrow> string option
     \<Rightarrow> fleet_device list \<Rightarrow> auth_result \<times> fleet_device list" where
  "requireBridgeCredential hash ttl t allowSessionMismatch tok session ds =
     (if \<not> list_ex (\<lambda>d. case fd_credential d of None \<Rightarrow> False | Some c \<Rightarrow> bc_tokenHash c \<noteq> []) ds
      then (Denied 401 ''bridge_credentials_required'', ds)
      else case deviceForToken hash tok ds of
        None \<Rightarrow> (Denied 401 ''invalid_bridge_credentials'', ds)
      | Some d \<Rightarrow>
          (case fd_credential d of
             None \<Rightarrow> (Denied 401 ''invalid_bridge_credentials'', ds)
           | Some c \<Rightarrow>
               if fd_unlinkState d \<noteq> ''linked'' \<or> fd_credentialRevokedAt d \<noteq> None \<or> bc_revokedAt c \<noteq> None
               then (Denied 403 ''device_credentials_revoked'', ds)
               else if credentialIsIdleExpired ttl t c
               then (Denied 401 ''bridge_credentials_expired'', ds)
               else if \<not> allowSessionMismatch \<and> coalesce (fd_bridgeSessionId d) [] \<noteq> []
                       \<and> session \<noteq> fd_bridgeSessionId d
               then (Denied 409 ''bridge_session_superseded'', ds)
               else (Granted (fd_id d) (fd_status d \<noteq> ''online''), upd_device (fd_id d) (seen t) ds)))"

text \<open>\<open>normalizeBridgeSessionId\<close>: a letter or digit, then 7 to 127 characters of the session alphabet,
  after trimming (\<open>trimmed\<close> is the trimmed header).\<close>

definition is_alnum :: "char \<Rightarrow> bool" where
  "is_alnum c \<longleftrightarrow> (let n = (of_char c :: nat) in 48 \<le> n \<and> n \<le> 57 \<or> 65 \<le> n \<and> n \<le> 90 \<or> 97 \<le> n \<and> n \<le> 122)"

definition session_char :: "char \<Rightarrow> bool" where
  "session_char c \<longleftrightarrow> is_alnum c \<or> c \<in> {CHR ''.'', CHR ''_'', CHR '':'', CHR ''-''}"

definition normalizeBridgeSessionId :: "string \<Rightarrow> string option" where
  "normalizeBridgeSessionId trimmed =
     (case trimmed of
        [] \<Rightarrow> None
      | c # cs \<Rightarrow> if is_alnum c \<and> list_all session_char cs \<and> 7 \<le> length cs \<and> length cs \<le> 127
                 then Some trimmed else None)"

section \<open>What a granted request establishes\<close>

lemma upd_device_id: "(\<And>d. fd_id (f d) = fd_id d) \<Longrightarrow> map fd_id (upd_device i f ds) = map fd_id ds"
  unfolding upd_device_def by (rule map_upd_where) simp

lemma find_upd_device:
  "(\<And>d. fd_id (f d) = fd_id d) \<Longrightarrow>
   List.find (\<lambda>d. fd_id d = j) (upd_device i f ds)
     = map_option (\<lambda>d. if fd_id d = i then f d else d) (List.find (\<lambda>d. fd_id d = j) ds)"
  unfolding upd_device_def by (rule find_upd_where) simp

lemma seen_simps [simp]: "fd_id (seen t d) = fd_id d" "fd_status (seen t d) = ''online''"
  "fd_lastSeenAt (seen t d) = Some t"
  by (simp_all add: seen_def Let_def)

lemma upd_seen:
  "map fd_id (upd_device i (seen t) ds) = map fd_id ds"
  "list_all (\<lambda>d. fd_id d = i \<or> d \<in> set ds) (upd_device i (seen t) ds)"
  "list_all (\<lambda>d. fd_id d = i \<longrightarrow> fd_status d = ''online'' \<and> fd_lastSeenAt d = Some t)
     (upd_device i (seen t) ds)"
proof -
  show "map fd_id (upd_device i (seen t) ds) = map fd_id ds" by (rule upd_device_id) simp
  show "list_all (\<lambda>d. fd_id d = i \<or> d \<in> set ds) (upd_device i (seen t) ds)"
    by (auto simp: upd_device_def set_upd_where list_all_iff)
  show "list_all (\<lambda>d. fd_id d = i \<longrightarrow> fd_status d = ''online'' \<and> fd_lastSeenAt d = Some t)
     (upd_device i (seen t) ds)"
    unfolding upd_device_def by (induction ds) simp_all
qed

text \<open>A bridge request is granted only to the device whose stored digest is that of the presented
  token, while that device is linked, not revoked, not idle beyond the time to live and, when a
  process has registered, only to that process; the grant marks exactly that device as seen and
  online, and a refused request changes no device.\<close>

theorem bridge_request_authenticated:
  "(case requireBridgeCredential hash ttl t mismatch tok session ds of
      (Denied code e, ds') \<Rightarrow> ds' = ds \<and> code \<in> {401, 403, 409}
    | (Granted i restored, ds') \<Rightarrow>
        (\<exists>d c. d \<in> set ds \<and> fd_id d = i \<and> fd_credential d = Some c
           \<and> tok \<noteq> None \<and> bc_tokenHash c = hash (the tok)
           \<and> fd_unlinkState d = ''linked'' \<and> fd_credentialRevokedAt d = None \<and> bc_revokedAt c = None
           \<and> t - coalesce (bc_lastSeenAt c) (bc_issuedAt c) \<le> ttl
           \<and> (mismatch \<or> coalesce (fd_bridgeSessionId d) [] = [] \<or> session = fd_bridgeSessionId d))
        \<and> map fd_id ds' = map fd_id ds
        \<and> list_all (\<lambda>d. fd_id d = i \<or> d \<in> set ds) ds'
        \<and> list_all (\<lambda>d. fd_id d = i \<longrightarrow> fd_status d = ''online'' \<and> fd_lastSeenAt d = Some t) ds')"
proof -
  let ?r = "requireBridgeCredential hash ttl t mismatch tok session ds"
  have granted: "(\<exists>d c. d \<in> set ds \<and> fd_id d = i \<and> fd_credential d = Some c
           \<and> tok \<noteq> None \<and> bc_tokenHash c = hash (the tok)
           \<and> fd_unlinkState d = ''linked'' \<and> fd_credentialRevokedAt d = None \<and> bc_revokedAt c = None
           \<and> t - coalesce (bc_lastSeenAt c) (bc_issuedAt c) \<le> ttl
           \<and> (mismatch \<or> coalesce (fd_bridgeSessionId d) [] = [] \<or> session = fd_bridgeSessionId d))
        \<and> ds' = upd_device i (seen t) ds"
    if eq: "?r = (Granted i restored, ds')" for i restored ds'
  proof -
    obtain d where d: "deviceForToken hash tok ds = Some d"
      using eq by (cases "deviceForToken hash tok ds") (simp_all add: requireBridgeCredential_def split: if_splits)
    obtain c where c: "fd_credential d = Some c"
      using eq d by (cases "fd_credential d") (simp_all add: requireBridgeCredential_def split: if_splits)
    obtain x where x: "tok = Some x" using d by (cases tok) (simp_all add: deviceForToken_def)
    from d x have "List.find (has_hash hash x) ds = Some d" by (simp add: deviceForToken_def split: if_splits)
    then have "d \<in> set ds" "has_hash hash x d" using find_SomeD by fast+
    then have "d \<in> set ds" "bc_tokenHash c = hash x" using c by (simp_all add: has_hash_def)
    moreover have "i = fd_id d" "ds' = upd_device i (seen t) ds" "fd_unlinkState d = ''linked''"
      "fd_credentialRevokedAt d = None" "bc_revokedAt c = None" "\<not> credentialIsIdleExpired ttl t c"
      "mismatch \<or> coalesce (fd_bridgeSessionId d) [] = [] \<or> session = fd_bridgeSessionId d"
      using eq d c by (auto simp: requireBridgeCredential_def split: if_splits)
    ultimately show ?thesis using c x by (auto simp: credentialIsIdleExpired_def intro!: exI [of _ d])
  qed
  have denied: "ds' = ds \<and> code \<in> {401, 403, 409}" if "?r = (Denied code e, ds')" for code e ds'
    using that by (auto simp: requireBridgeCredential_def split: if_splits option.splits)
  show ?thesis
  proof (cases ?r)
    case (Pair a ds')
    show ?thesis
    proof (cases a)
      case (Denied code e)
      with Pair denied [of code e ds'] show ?thesis by simp
    next
      case (Granted i restored)
      from granted [of i restored ds'] Pair Granted
      have ds': "ds' = upd_device i (seen t) ds" by simp
      from granted [of i restored ds'] Pair Granted show ?thesis
        by (simp add: ds' upd_seen)
    qed
  qed
qed

text \<open>The token just issued to a device names that device and no other, provided the digest does
  not collide with one already stored; a device whose credential was rotated away from it is no
  longer named by the old token.\<close>

theorem issued_token_names_device:
  assumes "distinct (map fd_id ds)"
    and "issueBridgeCredential hash ttl tok t deviceId rot ds = (Some tok, ds')"
    and "list_all (\<lambda>d. \<not> has_hash hash tok d) ds" and "hash tok \<noteq> []" and "tok \<noteq> []"
  shows "\<exists>d. deviceForToken hash (Some tok) ds' = Some d
     \<and> Some d = List.find (\<lambda>x. fd_id x = fd_id d) ds'
     \<and> (coalesce deviceId [] \<noteq> [] \<longrightarrow> Some (fd_id d) = deviceId)
     \<and> fd_credentialRevokedAt d = None \<and> fd_unlinkState d = fd_unlinkState (the (List.find (\<lambda>x. fd_id x = fd_id d) ds))
     \<and> (\<forall>old. hash old \<noteq> hash tok \<longrightarrow> \<not> has_hash hash old d)"
proof -
  from assms(2) obtain d where
    d: "(if coalesce deviceId [] \<noteq> [] then List.find (\<lambda>d. Some (fd_id d) = deviceId) ds
         else primaryDevice ds) = Some d"
    and ds': "ds' = upd_device (fd_id d) (\<lambda>x. x\<lparr>fd_credential := Some (new_credential hash tok t (fd_id d)),
                        fd_credentialRevokedAt := None\<rparr>) ds" (is "_ = upd_device _ ?f ds")
    by (auto simp: issueBridgeCredential_def split: option.splits if_splits)
  have mem: "d \<in> set ds"
    using d by (auto simp: primaryDevice_def split: if_splits list.splits dest: find_SomeD)
  have find: "List.find (\<lambda>x. fd_id x = fd_id d) ds = Some d"
    by (rule find_key_unique [OF assms(1) mem])
  have h: "has_hash hash old (?f d) \<longleftrightarrow> hash tok \<noteq> [] \<and> hash tok = hash old" for old
    by (simp add: has_hash_def new_credential_def)
  have "List.find (has_hash hash tok) ds' = Some (?f d)"
    using assms(1,3) mem unfolding ds' upd_device_def
  proof (induction ds)
    case Nil
    then show ?case by simp
  next
    case (Cons x xs)
    show ?case
    proof (cases "x = d")
      case True
      then show ?thesis using h [of tok] assms(4) by simp
    next
      case False
      with Cons.prems have "d \<in> set xs" by simp
      then have "fd_id x \<noteq> fd_id d" using Cons.prems(1) by auto
      with Cons \<open>d \<in> set xs\<close> show ?thesis by simp
    qed
  qed
  then have "deviceForToken hash (Some tok) ds' = Some (?f d)"
    using assms(5) by (simp add: deviceForToken_def)
  moreover have "List.find (\<lambda>x. fd_id x = fd_id d) ds' = Some (?f d)"
    unfolding ds' using find by (simp add: find_upd_device)
  moreover have "coalesce deviceId [] \<noteq> [] \<longrightarrow> Some (fd_id d) = deviceId"
    using d by (auto dest: find_SomeD split: if_splits)
  moreover have "\<forall>old. hash old \<noteq> hash tok \<longrightarrow> \<not> has_hash hash old (?f d)"
    using h by metis
  ultimately show ?thesis
    by (intro exI [of _ "?f d"] conjI) (simp_all add: find)
qed

definition fd0 :: "string \<Rightarrow> fleet_device" where
  "fd0 i = \<lparr>fd_id = i, fd_status = ''online'', fd_unlinkState = ''linked'', fd_credential = None,
     fd_credentialRevokedAt = None, fd_bridgeSessionId = None, fd_lastSeenAt = None,
     fd_livenessLostAt = None, fd_updatedAt = None\<rparr>"

theorem issued_token_names_device_witness:
  "\<exists>ds' d. issueBridgeCredential rev 100 ''tok'' 5 (Some ''b'') False [fd0 ''a'', fd0 ''b''] = (Some ''tok'', ds')
     \<and> deviceForToken rev (Some ''tok'') ds' = Some d \<and> fd_id d = ''b''"
proof -
  obtain ds' where i: "issueBridgeCredential rev 100 ''tok'' 5 (Some ''b'') False [fd0 ''a'', fd0 ''b''] = (Some ''tok'', ds')"
    by (simp add: issueBridgeCredential_def fd0_def)
  have "distinct (map fd_id [fd0 ''a'', fd0 ''b''])" by (simp add: fd0_def)
  moreover have "list_all (\<lambda>d. \<not> has_hash rev ''tok'' d) [fd0 ''a'', fd0 ''b'']"
    by (simp add: has_hash_def fd0_def)
  ultimately obtain d where "deviceForToken rev (Some ''tok'') ds' = Some d"
    and "coalesce (Some ''b'') [] \<noteq> [] \<longrightarrow> Some (fd_id d) = Some ''b''"
    using issued_token_names_device [OF _ i] by auto
  with i show ?thesis by auto
qed

theorem bridge_request_authenticated_witness:
  "\<exists>ds'. requireBridgeCredential rev 100 9 False (Some ''tok'') None
       (snd (issueBridgeCredential rev 100 ''tok'' 5 None False [(fd0 ''a'')\<lparr>fd_status := ''offline''\<rparr>]))
     = (Granted ''a'' True, ds') \<and> map fd_status ds' = [''online'']"
proof -
  let ?ds = "snd (issueBridgeCredential rev 100 ''tok'' 5 None False [(fd0 ''a'')\<lparr>fd_status := ''offline''\<rparr>])"
  let ?r = "requireBridgeCredential rev 100 9 False (Some ''tok'') None ?ds"
  have ds: "?ds = [(fd0 ''a'')\<lparr>fd_status := ''offline'',
      fd_credential := Some (new_credential rev ''tok'' 5 ''a'')\<rparr>]"
    by (simp add: issueBridgeCredential_def primaryDevice_def fd0_def upd_device_def)
  obtain ds' where r: "?r = (Granted ''a'' True, ds')"
    unfolding ds by (simp add: requireBridgeCredential_def deviceForToken_def has_hash_def fd0_def
        new_credential_def credentialIsIdleExpired_def)
  from bridge_request_authenticated [where hash = rev and ttl = 100 and t = 9 and mismatch = False
      and tok = "Some ''tok''" and session = None and ds = ?ds] r
  have "map fd_id ds' = map fd_id ?ds"
    and all: "list_all (\<lambda>d. fd_id d = ''a'' \<longrightarrow> fd_status d = ''online'' \<and> fd_lastSeenAt d = Some 9) ds'"
    by simp_all
  moreover have "map fd_id ?ds = [''a'']" unfolding ds by (simp add: fd0_def)
  ultimately have "map fd_id ds' = [''a'']" by (simp only:)
  then obtain d where "ds' = [d]" "fd_id d = ''a''" by auto
  with r all show ?thesis by simp
qed

end
