(* ===== verification/IssueClaims.thy ===== *)
theory IssueClaims
  imports Metering
begin

text \<open>
  services/issue-claims.mjs: the develop and review leases on issues, with their sweep, renewal, release
  and history.  The tables are the \<open>world\<close> of the server state.  The GitHub assignee mirror is
  fire-and-forget; the calls made to it are recorded in \<open>ic_mirrored\<close>, newest first.  \<open>render\<close> renders an
  instant for a message.
\<close>

section \<open>State\<close>

record claim =
  cm_id :: string
  cm_projectId :: string
  cm_issueNumber :: int
  cm_mode :: string
  cm_claimedBy :: string
  cm_teamId :: string
  cm_agentId :: "string option"
  cm_autoRunId :: "string option"
  cm_status :: string
  cm_leaseExpiresAt :: "instant option"
  cm_outcome :: "string option"
  cm_releasedBy :: "string option"
  cm_createdAt :: instant
  cm_updatedAt :: instant

record claim_event =
  ch_id :: string
  ch_claimId :: string
  ch_projectId :: string
  ch_issueNumber :: int
  ch_type :: string
  ch_mode :: string
  ch_claimedBy :: string
  ch_actorId :: string
  ch_autoRunId :: "string option"
  ch_outcome :: "string option"
  ch_at :: instant

record claim_tables =
  ic_claims :: "claim list"
  ic_history :: "claim_event list"
  ic_ttlMinutes :: int
  ic_mirrored :: "(string \<times> string \<times> int) list"

type_synonym 'a ic_server = "'a claim_tables_scheme server"

definition upd_ic :: "('a claim_tables_scheme \<Rightarrow> 'a claim_tables_scheme) \<Rightarrow> 'a ic_server \<Rightarrow> 'a ic_server" where
  "upd_ic f st = st\<lparr>world := f (world st)\<rparr>"

abbreviation claims :: "'a ic_server \<Rightarrow> claim list" where
  "claims st \<equiv> ic_claims (world st)"

definition CLAIM_MODES :: "string list" where
  "CLAIM_MODES = [''develop'', ''review'']"

definition DEFAULT_TTL_MINUTES :: int where
  "DEFAULT_TTL_MINUTES = 24 * 60"

section \<open>History, mirror, expiry\<close>

definition recordClaimHistory :: "instant \<Rightarrow> claim \<Rightarrow> string \<Rightarrow> string option \<Rightarrow> 'a ic_server \<Rightarrow> 'a ic_server" where
  "recordClaimHistory t c type actorId st =
     (let (i, st1) = next_id ''iche'' st;
          row = \<lparr>ch_id = i, ch_claimId = cm_id c, ch_projectId = cm_projectId c,
                 ch_issueNumber = cm_issueNumber c, ch_type = type, ch_mode = cm_mode c,
                 ch_claimedBy = cm_claimedBy c, ch_actorId = coalesce actorId (cm_claimedBy c),
                 ch_autoRunId = cm_autoRunId c, ch_outcome = cm_outcome c, ch_at = t\<rparr>
      in upd_ic (\<lambda>w. w\<lparr>ic_history := push_cap 1000 row (ic_history w)\<rparr>) st1)"

definition maybeMirrorAssignee :: "claim \<Rightarrow> string \<Rightarrow> 'a ic_server \<Rightarrow> 'a ic_server" where
  "maybeMirrorAssignee c action st =
     (if cm_mode c \<noteq> ''develop'' then st
      else upd_ic (\<lambda>w. w\<lparr>ic_mirrored := (action, cm_projectId c, cm_issueNumber c) # ic_mirrored w\<rparr>) st)"

definition claimTtlMinutes :: "'a ic_server \<Rightarrow> int" where
  "claimTtlMinutes st = (if 0 < ic_ttlMinutes (world st) then ic_ttlMinutes (world st) else DEFAULT_TTL_MINUTES)"

definition isExpired :: "instant \<Rightarrow> claim \<Rightarrow> bool" where
  "isExpired t c = (case cm_leaseExpiresAt c of None \<Rightarrow> False | Some e \<Rightarrow> e \<le> t)"

definition expired_row :: "instant \<Rightarrow> claim \<Rightarrow> claim" where
  "expired_row t c = c\<lparr>cm_status := ''expired'', cm_outcome := Some ''lease_expired'', cm_updatedAt := t\<rparr>"

definition set_claim :: "string \<Rightarrow> (claim \<Rightarrow> claim) \<Rightarrow> 'a ic_server \<Rightarrow> 'a ic_server" where
  "set_claim i f st = upd_ic (\<lambda>w. w\<lparr>ic_claims := upd_where (\<lambda>c. cm_id c = i) f (ic_claims w)\<rparr>) st"

definition expire_claim :: "instant \<Rightarrow> claim \<Rightarrow> 'a ic_server \<Rightarrow> 'a ic_server" where
  "expire_claim t c st =
     (let c' = expired_row t c;
          e = mk_ev None ''issue_claim_expired'' ''info''
            (''Issue claim '' @ cm_id c @ '' on #'' @ show_int (cm_issueNumber c)
              @ '' expired; the issue is back in the pool.'')
            (JObj [(''claimId'', JStr (cm_id c)), (''projectId'', JStr (cm_projectId c)),
                   (''issueNumber'', JNum (cm_issueNumber c)), (''claimedBy'', JStr (cm_claimedBy c))])
      in maybeMirrorAssignee c' ''remove''
           (recordClaimHistory t c' ''expired'' None (append_event t e (set_claim (cm_id c) (expired_row t) st))))"

definition lapsed :: "instant \<Rightarrow> claim \<Rightarrow> bool" where
  "lapsed t c \<longleftrightarrow> cm_status c = ''active'' \<and> isExpired t c"

definition sweepExpiredClaims :: "instant \<Rightarrow> 'a ic_server \<Rightarrow> nat \<times> 'a ic_server" where
  "sweepExpiredClaims t st =
     (let cs = filter (lapsed t) (claims st) in (length cs, fold (expire_claim t) cs st))"

definition activeClaimsForIssue :: "instant \<Rightarrow> string \<Rightarrow> int \<Rightarrow> 'a ic_server \<Rightarrow> claim list" where
  "activeClaimsForIssue t pid n st =
     filter (\<lambda>c. cm_status c = ''active'' \<and> cm_projectId c = pid \<and> cm_issueNumber c = n \<and> \<not> isExpired t c)
       (claims st)"

definition cap_rows :: "nat \<Rightarrow> claim list \<Rightarrow> claim list" where
  "cap_rows limit cs =
     filter (\<lambda>c. cm_status c = ''active'') cs @ take limit (filter (\<lambda>c. cm_status c \<noteq> ''active'') cs)"

section \<open>Claiming\<close>

datatype claim_result =
    NotClaimed string "claim option"
  | ClaimHeld claim bool

definition new_claim ::
    "instant \<Rightarrow> string \<Rightarrow> string \<Rightarrow> int \<Rightarrow> string \<Rightarrow> string \<Rightarrow> string \<Rightarrow> string option \<Rightarrow> string option \<Rightarrow> instant \<Rightarrow> claim" where
  "new_claim t i pid n mode user team agentId autoRunId lease =
     \<lparr>cm_id = i, cm_projectId = pid, cm_issueNumber = n, cm_mode = mode, cm_claimedBy = user, cm_teamId = team,
      cm_agentId = agentId, cm_autoRunId = autoRunId, cm_status = ''active'', cm_leaseExpiresAt = Some lease,
      cm_outcome = None, cm_releasedBy = None, cm_createdAt = t, cm_updatedAt = t\<rparr>"

definition renewed_row :: "instant \<Rightarrow> instant \<Rightarrow> string option \<Rightarrow> string option \<Rightarrow> claim \<Rightarrow> claim" where
  "renewed_row t lease autoRunId agentId c =
     c\<lparr>cm_leaseExpiresAt := Some lease, cm_updatedAt := t,
       cm_autoRunId := (if coalesce autoRunId [] \<noteq> [] then autoRunId else cm_autoRunId c),
       cm_agentId := (if coalesce agentId [] \<noteq> [] then agentId else cm_agentId c)\<rparr>"

definition add_claim :: "instant \<Rightarrow> claim \<Rightarrow> 'a ic_server \<Rightarrow> 'a ic_server" where
  "add_claim t c st =
     maybeMirrorAssignee c ''add''
       (recordClaimHistory t c ''claimed'' None
         (append_event t
           (mk_ev None ''issue_claimed'' ''info''
             (''Issue #'' @ show_int (cm_issueNumber c) @ '' claimed for '' @ cm_mode c @ '' by '' @ cm_claimedBy c @ ''.'')
             (JObj [(''claimId'', JStr (cm_id c)), (''projectId'', JStr (cm_projectId c)),
                    (''issueNumber'', JNum (cm_issueNumber c)), (''mode'', JStr (cm_mode c)),
                    (''claimedBy'', JStr (cm_claimedBy c)), (''autoRunId'', jstr (cm_autoRunId c))]))
           (upd_ic (\<lambda>w. w\<lparr>ic_claims := cap_rows 200 (c # ic_claims w)\<rparr>) st)))"

text \<open>\<open>issueNumber\<close> is \<open>None\<close> when it does not read as a finite number.\<close>

definition claimIssue ::
    "(instant \<Rightarrow> string) \<Rightarrow> instant \<Rightarrow> string \<Rightarrow> int option \<Rightarrow> actor option \<Rightarrow> string \<Rightarrow> string option \<Rightarrow> string option
     \<Rightarrow> 'a ic_server \<Rightarrow> claim_result \<times> 'a ic_server" where
  "claimIssue render t pid number actor mode agentId autoRunId st =
     (case number of
        None \<Rightarrow> (NotClaimed ''A projectId and a numeric issueNumber are required to claim an issue.'' None, st)
      | Some n \<Rightarrow>
          if pid = [] then (NotClaimed ''A projectId and a numeric issueNumber are required to claim an issue.'' None, st)
          else if mode \<notin> set CLAIM_MODES
          then (NotClaimed (''Unknown claim mode \"'' @ mode @ ''\" (develop | review).'') None, st)
          else
            (let st1 = snd (sweepExpiredClaims t st);
                 user = actor_user actor;
                 active = activeClaimsForIssue t pid n st1;
                 foreign = (if mode = ''develop''
                   then List.find (\<lambda>c. cm_mode c = ''develop'' \<and> cm_claimedBy c \<noteq> user) active else None)
             in case foreign of
                  Some f \<Rightarrow>
                    (NotClaimed (''Issue #'' @ show_int n @ '' is already claimed for development by '' @ cm_claimedBy f
                       @ '' (until '' @ render (coalesce (cm_leaseExpiresAt f) 0) @ '').'') (Some f), st1)
                | None \<Rightarrow>
                    (let lease = t + claimTtlMinutes st1 * 60000
                     in case List.find (\<lambda>c. cm_mode c = mode \<and> cm_claimedBy c = user) active of
                          Some own \<Rightarrow>
                            (ClaimHeld (renewed_row t lease autoRunId agentId own) True,
                             set_claim (cm_id own) (renewed_row t lease autoRunId agentId) st1)
                        | None \<Rightarrow>
                            (let (i, st2) = next_id ''icl'' st1;
                                 team = (case find_project (Some pid) st2 of
                                   Some p \<Rightarrow> teamOf p | None \<Rightarrow> ''team_local'');
                                 c = new_claim t i pid n mode user team agentId autoRunId lease
                             in (ClaimHeld c False, add_claim t c st2)))))"

section \<open>Releasing\<close>

definition released_row :: "instant \<Rightarrow> string \<Rightarrow> string \<Rightarrow> claim \<Rightarrow> claim" where
  "released_row t outcome by c =
     c\<lparr>cm_status := ''released'', cm_outcome := Some outcome, cm_releasedBy := Some by, cm_updatedAt := t\<rparr>"

definition releaseIssueClaim ::
    "instant \<Rightarrow> string \<Rightarrow> string \<Rightarrow> actor option \<Rightarrow> 'a ic_server \<Rightarrow> bool \<times> 'a ic_server" where
  "releaseIssueClaim t i outcome actor st =
     (case List.find (\<lambda>c. cm_id c = i) (claims st) of
        None \<Rightarrow> (False, st)
      | Some c \<Rightarrow>
          if cm_status c \<noteq> ''active'' then (False, st)
          else
            (let by = coalesce (Option.bind actor ac_userId) (cm_claimedBy c);
                 c' = released_row t outcome by c;
                 e = mk_ev None ''issue_claim_released'' ''info''
                   (''Issue claim '' @ cm_id c @ '' on #'' @ show_int (cm_issueNumber c) @ '' released ('' @ outcome @ '').'')
                   (JObj [(''claimId'', JStr (cm_id c)), (''projectId'', JStr (cm_projectId c)),
                          (''issueNumber'', JNum (cm_issueNumber c)), (''claimedBy'', JStr (cm_claimedBy c)),
                          (''releasedBy'', JStr by), (''outcome'', JStr outcome)])
             in (True, maybeMirrorAssignee c' ''remove''
                   (recordClaimHistory t c' ''released'' (Some by)
                     (append_event t e (set_claim i (released_row t outcome by) st))))))"

definition release_step :: "instant \<Rightarrow> string \<Rightarrow> string \<Rightarrow> string \<Rightarrow> nat \<times> 'a ic_server \<Rightarrow> nat \<times> 'a ic_server" where
  "release_step t run outcome i acc =
     (case acc of (n, st) \<Rightarrow>
        case List.find (\<lambda>c. cm_id c = i) (claims st) of
          None \<Rightarrow> acc
        | Some c \<Rightarrow>
            if cm_autoRunId c = Some run \<and> cm_status c = ''active''
            then (let (ok, st1) = releaseIssueClaim t i outcome None st in (if ok then n + 1 else n, st1))
            else acc)"

definition releaseClaimsForAutoRun :: "instant \<Rightarrow> string \<Rightarrow> string \<Rightarrow> 'a ic_server \<Rightarrow> nat \<times> 'a ic_server" where
  "releaseClaimsForAutoRun t run outcome st =
     (if run = [] then (0, st) else fold (release_step t run outcome) (map cm_id (claims st)) (0, st))"

definition listIssueClaims :: "instant \<Rightarrow> string option \<Rightarrow> bool \<Rightarrow> 'a ic_server \<Rightarrow> claim list \<times> 'a ic_server" where
  "listIssueClaims t pid includeSettled st =
     (let st1 = snd (sweepExpiredClaims t st)
      in (filter (\<lambda>c. (pid = None \<or> Some (cm_projectId c) = pid) \<and> (includeSettled \<or> cm_status c = ''active''))
            (claims st1), st1))"

definition issueHasActiveClaim :: "claim list \<Rightarrow> string \<Rightarrow> int \<Rightarrow> instant \<Rightarrow> bool" where
  "issueHasActiveClaim cs pid n cutoff \<longleftrightarrow>
     list_ex (\<lambda>c. cm_status c = ''active'' \<and> cm_projectId c = pid \<and> cm_issueNumber c = n
       \<and> (case cm_leaseExpiresAt c of None \<Rightarrow> True | Some e \<Rightarrow> cutoff < e)) cs"

section \<open>One developer per issue\<close>

definition active_claim :: "claim \<Rightarrow> bool" where
  "active_claim c \<longleftrightarrow> cm_status c = ''active''"

text \<open>What an active claim occupies: the development of an issue, or one user's review of it.\<close>

definition slot :: "claim \<Rightarrow> string \<times> int \<times> (string \<times> string) option" where
  "slot c = (cm_projectId c, cm_issueNumber c,
     if cm_mode c = ''develop'' then None else Some (cm_mode c, cm_claimedBy c))"

definition claims_ok :: "'a ic_server \<Rightarrow> bool" where
  "claims_ok st \<longleftrightarrow> cm_id ` set (claims st) \<subseteq> set (issued_ids st) \<and> distinct (map cm_id (claims st))
     \<and> distinct (map slot (filter active_claim (claims st)))"

lemma world_upd_ic [simp]: "world (upd_ic f st) = f (world st)"
  by (simp add: upd_ic_def)

lemma issued_upd_ic [simp]: "issued_ids (upd_ic f st) = issued_ids st"
  by (simp add: upd_ic_def)

lemma claims_set_claim [simp]: "claims (set_claim i f st) = upd_where (\<lambda>c. cm_id c = i) f (claims st)"
  by (simp add: set_claim_def)

lemma claims_history [simp]:
  "claims (recordClaimHistory t c type a st) = claims st"
  "set (issued_ids st) \<subseteq> set (issued_ids (recordClaimHistory t c type a st))"
  by (auto simp: recordClaimHistory_def Let_def case_prod_beta next_id_issued)

lemma claims_mirror [simp]:
  "claims (maybeMirrorAssignee c a st) = claims st"
  "issued_ids (maybeMirrorAssignee c a st) = issued_ids st"
  by (simp_all add: maybeMirrorAssignee_def)

lemma claims_append [simp]: "claims (append_event t e st) = claims st"
  by simp

lemma upd_shrinks:
  assumes "\<And>x. P (f x) \<Longrightarrow> P x \<and> key (f x) = key x"
  shows "distinct (map key (filter P xs)) \<Longrightarrow> distinct (map key (filter P (upd_where Q f xs)))"
    and "key ` set (filter P (upd_where Q f xs)) \<subseteq> key ` set (filter P xs)"
proof -
  show sub: "key ` set (filter P (upd_where Q f xs)) \<subseteq> key ` set (filter P xs)" for xs
    using assms by (induction xs) auto
  show "distinct (map key (filter P xs)) \<Longrightarrow> distinct (map key (filter P (upd_where Q f xs)))"
  proof (induction xs)
    case Nil
    then show ?case by simp
  next
    case (Cons x xs)
    let ?y = "if Q x then f x else x"
    have ih: "distinct (map key (filter P (upd_where Q f xs)))" using Cons by (simp split: if_splits)
    show ?case
    proof (cases "P ?y")
      case True
      then have "P x" "key ?y = key x" using assms by (auto split: if_splits)
      then have "key ?y \<notin> key ` set (filter P xs)" using Cons.prems by simp
      then have "key ?y \<notin> key ` set (filter P (upd_where Q f xs))" using sub [of xs] by blast
      then have "key ?y \<notin> set (map key (filter P (upd_where Q f xs)))" by simp
      with ih True show ?thesis unfolding upd_where_simps filter.simps if_P [OF True] list.map distinct.simps
        by blast
    next
      case False
      with ih show ?thesis by simp
    qed
  qed
qed

lemma claims_ok_upd:
  assumes "claims_ok st" and "set (issued_ids st) \<subseteq> set (issued_ids st')"
    and "claims st' = upd_where Q f (claims st)" and "\<And>c. cm_id (f c) = cm_id c"
    and "\<And>c. active_claim (f c) \<Longrightarrow> active_claim c \<and> slot (f c) = slot c"
  shows "claims_ok st'"
proof -
  have "map cm_id (claims st') = map cm_id (claims st)"
    unfolding assms(3) by (rule map_upd_where) (rule assms(4))
  then have "cm_id ` set (claims st') = cm_id ` set (claims st)" and "distinct (map cm_id (claims st'))"
    using assms(1) unfolding claims_ok_def by (metis list.set_map, simp)
  moreover have "distinct (map slot (filter active_claim (claims st')))"
    unfolding assms(3)
    by (rule upd_shrinks(1) [where P = active_claim and key = slot, OF assms(5)])
       (use assms(1) in \<open>auto simp: claims_ok_def\<close>)
  ultimately show ?thesis using assms(1,2) unfolding claims_ok_def by blast
qed

lemma row_effects [simp]:
  "cm_id (expired_row t c) = cm_id c" "\<not> active_claim (expired_row t c)"
  "cm_id (released_row t out u c) = cm_id c" "\<not> active_claim (released_row t out u c)"
  "cm_id (renewed_row t l r a c) = cm_id c" "active_claim (renewed_row t l r a c) = active_claim c"
  "slot (renewed_row t l r a c) = slot c"
  by (simp_all add: expired_row_def released_row_def renewed_row_def active_claim_def slot_def)

lemma issued_recorded:
  "set (issued_ids st) \<subseteq>
   set (issued_ids (maybeMirrorAssignee c a (recordClaimHistory t c' type u (append_event t' e st))))"
  unfolding claims_mirror by (rule order_trans [OF append_event_issued claims_history(2)])

lemma issued_set_claim [simp]: "issued_ids (set_claim i f st) = issued_ids st"
  by (simp add: set_claim_def)

lemma expire_claims:
  "claims (expire_claim t c st) = upd_where (\<lambda>x. cm_id x = cm_id c) (expired_row t) (claims st)"
  "set (issued_ids st) \<subseteq> set (issued_ids (expire_claim t c st))"
  using issued_recorded [of "set_claim (cm_id c) (expired_row t) st"]
  by (simp_all add: expire_claim_def Let_def)

lemma expire_ok: "claims_ok st \<Longrightarrow> claims_ok (expire_claim t c st)"
  by (erule claims_ok_upd [OF _ expire_claims(2) expire_claims(1)]) simp_all

lemma sweep_ok: "claims_ok st \<Longrightarrow> claims_ok (snd (sweepExpiredClaims t st))"
proof -
  have "claims_ok st \<Longrightarrow> claims_ok (fold (expire_claim t) cs st)" for cs
    by (induction cs arbitrary: st) (simp_all add: expire_ok)
  then show "claims_ok st \<Longrightarrow> ?thesis" by (simp add: sweepExpiredClaims_def Let_def)
qed

lemma swept_rows:
  "x \<in> set (claims (fold (expire_claim t) cs st)) \<Longrightarrow> active_claim x
   \<Longrightarrow> x \<in> set (claims st) \<and> (\<forall>c\<in>set cs. cm_id c \<noteq> cm_id x)"
proof (induction cs arbitrary: st)
  case (Cons c cs)
  then have "x \<in> set (upd_where (\<lambda>x. cm_id x = cm_id c) (expired_row t) (claims st))" and "\<forall>d\<in>set cs. cm_id d \<noteq> cm_id x"
    using Cons.IH [of "expire_claim t c st"] by (simp_all add: expire_claims(1))
  moreover from this(1) obtain y where "y \<in> set (claims st)" and "x = (if cm_id y = cm_id c then expired_row t y else y)"
    unfolding set_upd_where by blast
  ultimately show ?case using Cons.prems(2) by (cases "cm_id y = cm_id c") simp_all
qed simp

lemma sweep_active:
  "x \<in> set (claims (snd (sweepExpiredClaims t st))) \<Longrightarrow> active_claim x
   \<Longrightarrow> x \<in> set (claims st) \<and> \<not> lapsed t x"
  using swept_rows [of x t "filter (lapsed t) (claims st)" st] by (auto simp: sweepExpiredClaims_def Let_def)

lemma fold_expire_keeps:
  "\<forall>c\<in>set cs. cm_id c \<noteq> cm_id x \<Longrightarrow> x \<in> set (claims st) \<Longrightarrow> x \<in> set (claims (fold (expire_claim t) cs st))"
proof (induction cs arbitrary: st)
  case (Cons c cs)
  have "x \<in> set (claims (expire_claim t c st))"
    unfolding expire_claims(1) set_upd_where using Cons.prems
    by (intro rev_image_eqI [where x = x]) auto
  then show ?case using Cons by simp
qed simp

lemma sweep_keeps:
  assumes "claims_ok st" and "x \<in> set (claims st)" and "\<not> lapsed t x"
  shows "x \<in> set (claims (snd (sweepExpiredClaims t st)))"
proof -
  have "\<forall>c\<in>set (filter (lapsed t) (claims st)). cm_id c \<noteq> cm_id x"
    using assms by (auto simp: claims_ok_def distinct_map inj_on_def)
  from fold_expire_keeps [OF this assms(2)] show ?thesis by (simp add: sweepExpiredClaims_def Let_def)
qed

lemma actives_cap [simp]: "filter active_claim (cap_rows k cs) = filter active_claim cs"
proof -
  have "filter active_claim (take k (filter (\<lambda>c. cm_status c \<noteq> ''active'') cs)) = []"
    by (auto simp: filter_empty_conv active_claim_def dest: in_set_takeD)
  moreover have "filter (\<lambda>c. cm_status c = ''active'') cs = filter active_claim cs"
    by (rule filter_cong) (simp_all add: active_claim_def)
  ultimately show ?thesis by (simp add: cap_rows_def)
qed

lemma cap_rows_subset: "set (cap_rows k cs) \<subseteq> set cs"
  unfolding cap_rows_def by (auto dest: in_set_takeD)

lemma cap_rows_distinct: "distinct (map cm_id cs) \<Longrightarrow> distinct (map cm_id (cap_rows k cs))"
proof -
  assume d: "distinct (map cm_id cs)"
  then have inj: "inj_on cm_id (set cs)" and dc: "distinct cs" by (simp_all add: distinct_map)
  have "distinct (cap_rows k cs)"
    using dc unfolding cap_rows_def by (auto dest: in_set_takeD)
  then show ?thesis using inj_on_subset [OF inj cap_rows_subset] by (simp add: distinct_map)
qed

lemma claims_add [simp]: "claims (add_claim t c st) = cap_rows 200 (c # claims st)"
  by (simp add: add_claim_def)

lemma issued_add: "set (issued_ids st) \<subseteq> set (issued_ids (add_claim t c st))"
  using issued_recorded [of "upd_ic (\<lambda>w. w\<lparr>ic_claims := cap_rows 200 (c # ic_claims w)\<rparr>) st"]
  by (simp add: add_claim_def)

lemma add_ok:
  assumes "claims_ok st" and "cm_id c \<notin> set (issued_ids st)" and "cm_id c \<in> set (issued_ids st')"
    and "set (issued_ids st) \<subseteq> set (issued_ids st')" and "claims st' = claims st"
    and "active_claim c" and "slot c \<notin> slot ` set (filter active_claim (claims st))"
  shows "claims_ok (add_claim t c st')"
proof -
  have "cm_id c \<notin> cm_id ` set (claims st)" using assms(1,2) unfolding claims_ok_def by blast
  then have "distinct (map cm_id (c # claims st))" using assms(1) by (simp add: claims_ok_def)
  then have "distinct (map cm_id (claims (add_claim t c st')))"
    unfolding claims_add assms(5) by (rule cap_rows_distinct)
  moreover have "distinct (map slot (filter active_claim (c # claims st)))"
    using assms(1,6,7) by (simp add: claims_ok_def)
  then have "distinct (map slot (filter active_claim (claims (add_claim t c st'))))"
    unfolding claims_add assms(5) actives_cap .
  moreover have "cm_id ` set (claims (add_claim t c st')) \<subseteq> set (issued_ids (add_claim t c st'))"
    unfolding claims_add assms(5)
    using cap_rows_subset [of 200 "c # claims st"] issued_add [of st' t c] assms(1,3,4)
    unfolding claims_ok_def by auto blast
  ultimately show ?thesis by (simp add: claims_ok_def)
qed

lemma activeClaims_set:
  "c \<in> set (activeClaimsForIssue t pid n st) \<longleftrightarrow>
   c \<in> set (claims st) \<and> active_claim c \<and> cm_projectId c = pid \<and> cm_issueNumber c = n \<and> \<not> isExpired t c"
  by (auto simp: activeClaimsForIssue_def active_claim_def)

text \<open>After the sweep the active claims of an issue are exactly its unexpired ones.\<close>

lemma slot_taken:
  assumes "x \<in> set (claims (snd (sweepExpiredClaims t st)))" and "active_claim x"
  shows "x \<in> set (activeClaimsForIssue t (cm_projectId x) (cm_issueNumber x) (snd (sweepExpiredClaims t st)))"
  using sweep_active [OF assms] assms by (auto simp: activeClaims_set lapsed_def active_claim_def)

lemma free_slot:
  assumes "mode \<in> set CLAIM_MODES"
    and "mode = ''develop'' \<Longrightarrow> List.find (\<lambda>c. cm_mode c = ''develop'' \<and> cm_claimedBy c \<noteq> user)
           (activeClaimsForIssue t pid n (snd (sweepExpiredClaims t st))) = None"
    and "List.find (\<lambda>c. cm_mode c = mode \<and> cm_claimedBy c = user)
           (activeClaimsForIssue t pid n (snd (sweepExpiredClaims t st))) = None"
    and "x \<in> set (claims (snd (sweepExpiredClaims t st)))" and "active_claim x"
    and "cm_projectId x = pid" and "cm_issueNumber x = n"
  shows "(if mode = ''develop'' then None else Some (mode, user))
    \<noteq> (if cm_mode x = ''develop'' then None else Some (cm_mode x, cm_claimedBy x))"
proof -
  have x: "x \<in> set (activeClaimsForIssue t pid n (snd (sweepExpiredClaims t st)))"
    using slot_taken [OF assms(4,5)] assms(6,7) by simp
  then have "\<not> (cm_mode x = mode \<and> cm_claimedBy x = user)"
    using assms(3) unfolding find_None_iff by blast
  moreover have "mode = ''develop'' \<Longrightarrow> \<not> (cm_mode x = ''develop'' \<and> cm_claimedBy x \<noteq> user)"
    using assms(2) x unfolding find_None_iff by blast
  ultimately show ?thesis by (cases "mode = ''develop''"; cases "cm_mode x = ''develop''") (simp_all, metis)
qed

lemma new_claim_slot [simp]:
  "cm_id (new_claim t i pid n mode user team a r l) = i" "active_claim (new_claim t i pid n mode user team a r l)"
  "slot (new_claim t i pid n mode user team a r l) = (pid, n, if mode = ''develop'' then None else Some (mode, user))"
  by (simp_all add: new_claim_def active_claim_def slot_def)

lemma claims_next_id [simp]: "claims (snd (next_id p st)) = claims st"
  by (simp add: next_id_def Let_def)

lemma renew_ok: "claims_ok st \<Longrightarrow> claims_ok (set_claim i (renewed_row t l r a) st)"
  by (erule claims_ok_upd [where Q = "\<lambda>c. cm_id c = i" and f = "renewed_row t l r a"]) simp_all

lemma claim_ok: "claims_ok st \<Longrightarrow> claims_ok (snd (claimIssue render t pid number actor mode agentId run st))"
proof (cases "\<exists>n. number = Some n \<and> pid \<noteq> [] \<and> mode \<in> set CLAIM_MODES")
  case False
  then show "claims_ok st \<Longrightarrow> ?thesis" by (auto simp: claimIssue_def split: option.split)
next
  case True
  assume ok: "claims_ok st"
  from True obtain n where n: "number = Some n" "pid \<noteq> []" and m: "mode \<in> set CLAIM_MODES" by blast
  let ?s = "snd (sweepExpiredClaims t st)" and ?u = "actor_user actor"
  let ?foreign = "if mode = ''develop'' then List.find (\<lambda>c. cm_mode c = ''develop'' \<and> cm_claimedBy c \<noteq> ?u)
    (activeClaimsForIssue t pid n ?s) else None"
  let ?own = "List.find (\<lambda>c. cm_mode c = mode \<and> cm_claimedBy c = ?u) (activeClaimsForIssue t pid n ?s)"
  have ok1: "claims_ok ?s" by (rule sweep_ok [OF ok])
  show ?thesis
  proof (cases ?foreign)
    case (Some f)
    then show ?thesis using ok1 n m by (simp add: claimIssue_def Let_def)
  next
    case none: None
    show ?thesis
    proof (cases ?own)
      case (Some own)
      then show ?thesis using renew_ok [OF ok1] none n m by (simp add: claimIssue_def Let_def)
    next
      case None
      let ?p = "next_id ''icl'' ?s"
      have free: "slot x \<noteq> (pid, n, if mode = ''develop'' then None else Some (mode, ?u))"
        if "x \<in> set (filter active_claim (claims ?s))" for x
        using free_slot [of mode ?u t pid n st x] m none None that by (auto simp: slot_def split: if_splits)
      then have free': "(pid, n, if mode = ''develop'' then None else Some (mode, ?u))
        \<notin> slot ` set (filter active_claim (claims ?s))"
        unfolding image_iff by metis
      have "claims_ok (add_claim t (new_claim t (fst ?p) pid n mode ?u team agentId run lease) (snd ?p))" for team lease
        by (rule add_ok [OF ok1])
           (use free' in \<open>simp_all add: next_id_fresh next_id_issued subset_insertI split del: if_split\<close>)
      then show ?thesis using none None n m by (simp add: claimIssue_def Let_def case_prod_beta)
    qed
  qed
qed

lemma release_claims:
  "List.find (\<lambda>c. cm_id c = i) (claims st) = Some c \<Longrightarrow> cm_status c = ''active''
   \<Longrightarrow> claims (snd (releaseIssueClaim t i out a st))
     = upd_where (\<lambda>x. cm_id x = i) (released_row t out (coalesce (Option.bind a ac_userId) (cm_claimedBy c))) (claims st)
   \<and> set (issued_ids st) \<subseteq> set (issued_ids (snd (releaseIssueClaim t i out a st)))"
  using issued_recorded [of "set_claim i (released_row t out (coalesce (Option.bind a ac_userId) (cm_claimedBy c))) st"]
  by (simp add: releaseIssueClaim_def Let_def)

lemma release_ok: "claims_ok st \<Longrightarrow> claims_ok (snd (releaseIssueClaim t i out a st))"
proof (cases "\<exists>c. List.find (\<lambda>c. cm_id c = i) (claims st) = Some c \<and> cm_status c = ''active''")
  case True
  assume ok: "claims_ok st"
  from True obtain c where "List.find (\<lambda>c. cm_id c = i) (claims st) = Some c" "cm_status c = ''active''" by blast
  note r = release_claims [OF this, of t out a]
  show ?thesis by (rule claims_ok_upd [OF ok r [THEN conjunct2] r [THEN conjunct1]]) simp_all
next
  case False
  then show "claims_ok st \<Longrightarrow> ?thesis" by (auto simp: releaseIssueClaim_def split: option.split)
qed

lemma settle_ok: "claims_ok st \<Longrightarrow> claims_ok (snd (releaseClaimsForAutoRun t run out st))"
proof -
  have step: "claims_ok (snd acc) \<Longrightarrow> claims_ok (snd (release_step t run out i acc))" for i and acc :: "nat \<times> 'a ic_server"
    using release_ok [of "snd acc" t i out None]
    by (auto simp: release_step_def Let_def case_prod_beta split: option.split)
  have "claims_ok (snd acc) \<Longrightarrow> claims_ok (snd (fold (release_step t run out) is acc))" for "is" and acc :: "nat \<times> 'a ic_server"
    by (induction "is" arbitrary: acc) (simp_all add: step)
  from this [of "(0, st)"] show "claims_ok st \<Longrightarrow> ?thesis" by (simp add: releaseClaimsForAutoRun_def)
qed

section \<open>Any sequence of operations\<close>

datatype claim_op =
    OpClaim instant string "int option" "actor option" string "string option" "string option"
  | OpRelease instant string string "actor option"
  | OpSettle instant string string
  | OpList instant "string option" bool

fun claim_step :: "(instant \<Rightarrow> string) \<Rightarrow> claim_op \<Rightarrow> 'a ic_server \<Rightarrow> 'a ic_server" where
  "claim_step render (OpClaim t pid n a mode agent run) st = snd (claimIssue render t pid n a mode agent run st)"
| "claim_step render (OpRelease t i out a) st = snd (releaseIssueClaim t i out a st)"
| "claim_step render (OpSettle t run out) st = snd (releaseClaimsForAutoRun t run out st)"
| "claim_step render (OpList t pid settled) st = snd (listIssueClaims t pid settled st)"

lemma claim_step_ok: "claims_ok st \<Longrightarrow> claims_ok (claim_step render op st)"
  by (cases op) (simp_all add: claim_ok release_ok settle_ok sweep_ok listIssueClaims_def Let_def)

lemma claim_steps_ok: "claims_ok st \<Longrightarrow> claims_ok (fold (claim_step render) ops st)"
  by (induction ops arbitrary: st) (simp_all add: claim_step_ok)

definition developers :: "string \<Rightarrow> int \<Rightarrow> 'a ic_server \<Rightarrow> claim list" where
  "developers pid n st =
     filter (\<lambda>c. active_claim c \<and> cm_mode c = ''develop'' \<and> cm_projectId c = pid \<and> cm_issueNumber c = n) (claims st)"

lemma developers_slot: "c \<in> set (developers pid n st) \<longleftrightarrow>
    c \<in> set (claims st) \<and> active_claim c \<and> slot c = (pid, n, None)"
  by (auto simp: developers_def slot_def)

lemma one_developer:
  assumes "claims_ok st" and "c \<in> set (developers pid n st)" and "d \<in> set (developers pid n st)"
  shows "c = d"
proof -
  have "inj_on slot (set (filter active_claim (claims st)))"
    using assms(1) by (simp add: claims_ok_def distinct_map)
  then show ?thesis using assms(2,3) unfolding developers_slot by (auto elim: inj_onD)
qed

lemma developers_bound: "claims_ok st \<Longrightarrow> length (developers pid n st) \<le> 1"
proof -
  assume ok: "claims_ok st"
  have "distinct (developers pid n st)"
    unfolding developers_def using ok by (simp add: claims_ok_def distinct_map)
  then have "length (developers pid n st) = card (set (developers pid n st))"
    by (simp add: distinct_card)
  also have "\<dots> \<le> 1" using one_developer [OF ok] by (simp add: card_le_Suc0_iff_eq)
  finally show ?thesis .
qed

lemma find_id: "claims_ok st \<Longrightarrow> c \<in> set (claims st) \<Longrightarrow> List.find (\<lambda>x. cm_id x = cm_id c) (claims st) = Some c"
proof -
  assume "claims_ok st" and c: "c \<in> set (claims st)"
  then have "inj_on cm_id (set (claims st))" by (simp add: claims_ok_def distinct_map)
  with c show ?thesis
    by (cases "List.find (\<lambda>x. cm_id x = cm_id c) (claims st)")
       (auto simp: find_None_iff find_Some_iff inj_on_def)
qed

text \<open>What a granted development claim looks like in the table.\<close>

lemma claim_held:
  assumes "claims_ok st" and "claimIssue render t pid (Some n) a ''develop'' ag run st = (ClaimHeld c b, st')"
  shows "c \<in> set (developers pid n st')" and "cm_claimedBy c = actor_user a" and "pid \<noteq> []"
    and "cm_leaseExpiresAt c = Some (t + claimTtlMinutes (snd (sweepExpiredClaims t st)) * 60000)"
proof -
  let ?s = "snd (sweepExpiredClaims t st)" and ?u = "actor_user a"
  let ?act = "activeClaimsForIssue t pid n ?s"
  let ?lease = "t + claimTtlMinutes ?s * 60000"
  let ?foreign = "List.find (\<lambda>c. cm_mode c = ''develop'' \<and> cm_claimedBy c \<noteq> ?u) ?act"
  let ?own = "List.find (\<lambda>c. cm_mode c = ''develop'' \<and> cm_claimedBy c = ?u) ?act"
  have dev: "''develop'' \<in> set CLAIM_MODES" by (simp add: CLAIM_MODES_def)
  show pid: "pid \<noteq> []" using assms(2) by (auto simp: claimIssue_def)
  have none: "?foreign = None" using assms(2) pid dev by (auto simp: claimIssue_def Let_def split: option.splits)
  have "c \<in> set (developers pid n st') \<and> cm_claimedBy c = ?u \<and> cm_leaseExpiresAt c = Some ?lease"
  proof (cases ?own)
    case (Some own)
    have eq: "c = renewed_row t ?lease run ag own" "st' = set_claim (cm_id own) (renewed_row t ?lease run ag) ?s"
      using assms(2) pid dev none Some by (simp_all add: claimIssue_def Let_def)
    have own: "own \<in> set ?act" "cm_mode own = ''develop''" "cm_claimedBy own = ?u"
      using Some by (auto simp: find_Some_iff)
    then have "slot own = (pid, n, None)" "active_claim own" "own \<in> set (claims ?s)"
      by (simp_all add: activeClaims_set slot_def)
    moreover from this(3) have "c \<in> set (claims st')"
      unfolding eq claims_set_claim set_upd_where by (intro rev_image_eqI [where x = own]) simp_all
    ultimately show ?thesis using own(3) by (simp add: developers_slot eq(1)) (simp add: renewed_row_def)
  next
    case None
    obtain i team where c: "c = new_claim t i pid n ''develop'' ?u team ag run ?lease" and "c \<in> set (claims st')"
      using assms(2) pid dev none None
      by (auto simp: claimIssue_def Let_def case_prod_beta cap_rows_def new_claim_def)
    then show ?thesis by (simp add: developers_slot) (simp add: new_claim_def)
  qed
  then show "c \<in> set (developers pid n st')" and "cm_claimedBy c = ?u" and "cm_leaseExpiresAt c = Some ?lease"
    by simp_all
qed

text \<open>An issue whose development claims have all lapsed is granted to whoever asks.\<close>

lemma claim_admitted:
  assumes "pid \<noteq> []" and "\<And>x. x \<in> set (developers pid n st) \<Longrightarrow> lapsed t x"
  shows "\<exists>d. fst (claimIssue render t pid (Some n) a ''develop'' ag run st) = ClaimHeld d False
    \<and> cm_claimedBy d = actor_user a"
proof -
  have dev: "''develop'' \<in> set CLAIM_MODES" by (simp add: CLAIM_MODES_def)
  have "cm_mode c \<noteq> ''develop''" if "c \<in> set (activeClaimsForIssue t pid n (snd (sweepExpiredClaims t st)))" for c
    using that sweep_active [of c t st] assms(2) [of c]
    by (auto simp: activeClaims_set developers_def)
  then have "List.find (\<lambda>c. cm_mode c = ''develop'' \<and> cm_claimedBy c \<noteq> actor_user a)
      (activeClaimsForIssue t pid n (snd (sweepExpiredClaims t st))) = None"
    and "List.find (\<lambda>c. cm_mode c = ''develop'' \<and> cm_claimedBy c = actor_user a)
      (activeClaimsForIssue t pid n (snd (sweepExpiredClaims t st))) = None"
    unfolding find_None_iff by blast+
  then show ?thesis using assms(1) dev
    by (simp add: claimIssue_def Let_def case_prod_beta) (simp add: new_claim_def)
qed

lemma claim_blocked:
  assumes "claims_ok st" and "c \<in> set (developers pid n st)" and "\<not> lapsed t c"
    and "cm_claimedBy c \<noteq> actor_user a" and "pid \<noteq> []"
  shows "\<exists>msg. claimIssue render t pid (Some n) a ''develop'' ag run st
    = (NotClaimed msg (Some c), snd (sweepExpiredClaims t st))"
proof -
  let ?s = "snd (sweepExpiredClaims t st)"
  let ?act = "activeClaimsForIssue t pid n ?s"
  have dev: "''develop'' \<in> set CLAIM_MODES" by (simp add: CLAIM_MODES_def)
  have c: "c \<in> set (claims ?s)" "active_claim c" "slot c = (pid, n, None)"
    using sweep_keeps [OF assms(1) _ assms(3)] assms(2) by (simp_all add: developers_slot)
  then have "c \<in> set ?act" and md: "cm_mode c = ''develop''"
    using slot_taken [of c t st] by (auto simp: slot_def split: if_splits)
  then obtain f where f: "List.find (\<lambda>c. cm_mode c = ''develop'' \<and> cm_claimedBy c \<noteq> actor_user a) ?act = Some f"
    using assms(4) by (cases "List.find (\<lambda>c. cm_mode c = ''develop'' \<and> cm_claimedBy c \<noteq> actor_user a) ?act")
      (auto simp: find_None_iff)
  then have "f \<in> set ?act" "cm_mode f = ''develop''" by (auto simp: find_Some_iff)
  then have "f \<in> set (developers pid n ?s)" by (simp add: activeClaims_set developers_def)
  moreover have "c \<in> set (developers pid n ?s)" using c by (simp add: developers_slot)
  ultimately have "f = c" by (rule one_developer [OF sweep_ok [OF assms(1)]])
  with f dev assms(5) show ?thesis by (simp add: claimIssue_def Let_def)
qed

lemma ttl_sweep: "claimTtlMinutes (snd (sweepExpiredClaims t st)) = claimTtlMinutes st"
proof -
  have one: "ic_ttlMinutes (world (expire_claim t c s)) = ic_ttlMinutes (world s)" for c and s :: "'a ic_server"
    by (simp add: expire_claim_def maybeMirrorAssignee_def recordClaimHistory_def set_claim_def next_id_def Let_def)
  have "ic_ttlMinutes (world (fold (expire_claim t) cs s)) = ic_ttlMinutes (world s)" for cs and s :: "'a ic_server"
    by (induction cs arbitrary: s) (simp_all add: one)
  then show ?thesis by (simp add: sweepExpiredClaims_def Let_def claimTtlMinutes_def)
qed

lemma claim_after_release:
  assumes "claims_ok st" and c: "c \<in> set (developers pid n st)" and "pid \<noteq> []"
  shows "fst (releaseIssueClaim u (cm_id c) out by st)
    \<and> (\<exists>d. fst (claimIssue render u pid (Some n) a ''develop'' ag run (snd (releaseIssueClaim u (cm_id c) out by st)))
           = ClaimHeld d False \<and> cm_claimedBy d = actor_user a)"
proof -
  have in_c: "c \<in> set (claims st)" and act: "cm_status c = ''active''"
    using c by (simp_all add: developers_def active_claim_def)
  note found = find_id [OF assms(1) in_c]
  let ?s = "snd (releaseIssueClaim u (cm_id c) out by st)"
  have "x \<notin> set (developers pid n ?s)" for x
  proof
    assume x: "x \<in> set (developers pid n ?s)"
    then have "x \<in> set (upd_where (\<lambda>x. cm_id x = cm_id c)
        (released_row u out (coalesce (Option.bind by ac_userId) (cm_claimedBy c))) (claims st))"
      using release_claims [OF found act] by (simp add: developers_def)
    then obtain y where "y \<in> set (claims st)" and y: "x = (if cm_id y = cm_id c
        then released_row u out (coalesce (Option.bind by ac_userId) (cm_claimedBy c)) y else y)"
      unfolding set_upd_where by blast
    then have "cm_id x \<noteq> cm_id c" and "x \<in> set (developers pid n st)"
      using x by (auto simp: developers_slot split: if_splits)
    with one_developer [OF assms(1) c] show False by blast
  qed
  then have "\<exists>d. fst (claimIssue render u pid (Some n) a ''develop'' ag run ?s) = ClaimHeld d False
      \<and> cm_claimedBy d = actor_user a"
    by (intro claim_admitted [OF assms(3)]) blast
  then show ?thesis using found act by (simp add: releaseIssueClaim_def Let_def)
qed

section \<open>The properties\<close>

text \<open>C26: whatever sequence of claims, renewals, releases, run settlements and sweeps is run, at most one
  active claim develops an issue: any two claimants get one holder.  The claims keep distinct ids, and a
  user's reviews of an issue never pile up either.\<close>

theorem claims_exclusive:
  assumes "claims_ok st"
  shows "let st' = fold (claim_step render) ops st
    in claims_ok st' \<and> length (developers pid n st') \<le> 1
       \<and> (\<forall>c \<in> set (claims st'). \<forall>d \<in> set (claims st').
            active_claim c \<and> active_claim d \<and> slot c = slot d \<longrightarrow> c = d)"
proof -
  have ok: "claims_ok (fold (claim_step render) ops st)" by (rule claim_steps_ok [OF assms])
  then have "inj_on slot (set (filter active_claim (claims (fold (claim_step render) ops st))))"
    by (simp add: claims_ok_def distinct_map)
  then show ?thesis using ok developers_bound [OF ok] by (auto simp: Let_def elim: inj_onD)
qed

text \<open>A granted development claim keeps every other user out until its lease ends, with an answer that
  names the holder, and keeps unattended runs off the issue; once the lease has ended, or the holder has
  released it, the next user who asks is granted the issue.\<close>

theorem claim_admits_one:
  assumes ok: "claims_ok st"
    and held: "claimIssue render t pid (Some n) a ''develop'' ag run st = (ClaimHeld c b, st')"
    and "actor_user a' \<noteq> actor_user a"
  shows "(if u < t + claimTtlMinutes st * 60000
     then (\<exists>msg. fst (claimIssue render u pid (Some n) a' ''develop'' ag' run' st') = NotClaimed msg (Some c))
       \<and> issueHasActiveClaim (claims st') pid n u
     else (\<exists>d. fst (claimIssue render u pid (Some n) a' ''develop'' ag' run' st') = ClaimHeld d False
       \<and> cm_claimedBy d = actor_user a'))
    \<and> fst (releaseIssueClaim u (cm_id c) out by st')
    \<and> (\<exists>d. fst (claimIssue render u pid (Some n) a' ''develop'' ag' run' (snd (releaseIssueClaim u (cm_id c) out by st')))
           = ClaimHeld d False \<and> cm_claimedBy d = actor_user a')"
proof -
  note c = claim_held [OF ok held]
  have ok': "claims_ok st'" using claim_ok [OF ok, of render t pid "Some n" a "''develop''" ag run] held by simp
  have lease: "lapsed u c \<longleftrightarrow> t + claimTtlMinutes st * 60000 \<le> u"
    using c(1,4) by (simp add: lapsed_def isExpired_def developers_def active_claim_def ttl_sweep)
  have rel: "fst (releaseIssueClaim u (cm_id c) out by st')
    \<and> (\<exists>d. fst (claimIssue render u pid (Some n) a' ''develop'' ag' run' (snd (releaseIssueClaim u (cm_id c) out by st')))
           = ClaimHeld d False \<and> cm_claimedBy d = actor_user a')"
    by (rule claim_after_release [OF ok' c(1,3)])
  show ?thesis
  proof (cases "lapsed u c")
    case True
    then have "\<exists>d. fst (claimIssue render u pid (Some n) a' ''develop'' ag' run' st') = ClaimHeld d False
       \<and> cm_claimedBy d = actor_user a'"
      by (intro claim_admitted [OF c(3)]) (use one_developer [OF ok' c(1)] in blast)
    with True lease rel show ?thesis by simp
  next
    case False
    have "issueHasActiveClaim (claims st') pid n u"
      using c(1,4) False lease
      by (auto simp: issueHasActiveClaim_def list_ex_iff developers_def active_claim_def ttl_sweep intro!: bexI [of _ c])
    moreover obtain msg where "claimIssue render u pid (Some n) a' ''develop'' ag' run' st'
        = (NotClaimed msg (Some c), snd (sweepExpiredClaims u st'))"
      using claim_blocked [OF ok' c(1) False _ c(3), of a' render ag' run'] c(2) assms(3) by metis
    ultimately show ?thesis using False lease rel by simp
  qed
qed

definition demo_claims :: "unit ic_server" where
  "demo_claims = demo_server_with \<lparr>ic_claims = [], ic_history = [], ic_ttlMinutes = 0, ic_mirrored = []\<rparr> []"

lemma demo_claims_ok: "claims_ok demo_claims"
  by (simp add: claims_ok_def demo_claims_def)

lemma demo_claims_empty [simp]: "claims demo_claims = []" "claimTtlMinutes demo_claims = 1440"
  by (simp_all add: demo_claims_def claimTtlMinutes_def DEFAULT_TTL_MINUTES_def)

definition demo_user :: "string \<Rightarrow> actor option" where
  "demo_user u = Some \<lparr>ac_userId = Some u, ac_teamId = None, ac_role = ''member''\<rparr>"

lemma demo_claim:
  "\<exists>c. claimIssue (\<lambda>t. []) 5 ''prj_1'' (Some 42) (demo_user ''usr_a'') ''develop'' None None demo_claims
     = (ClaimHeld c False, snd (claimIssue (\<lambda>t. []) 5 ''prj_1'' (Some 42) (demo_user ''usr_a'') ''develop'' None None demo_claims))"
proof -
  have "x \<notin> set (developers ''prj_1'' 42 demo_claims)" for x by (simp add: developers_def)
  then have "\<exists>d. fst (claimIssue (\<lambda>t. []) 5 ''prj_1'' (Some 42) (demo_user ''usr_a'') ''develop'' None None demo_claims)
      = ClaimHeld d False \<and> cm_claimedBy d = actor_user (demo_user ''usr_a'')"
    by (intro claim_admitted) auto
  then show ?thesis
    by (cases "claimIssue (\<lambda>t. []) 5 ''prj_1'' (Some 42) (demo_user ''usr_a'') ''develop'' None None demo_claims") auto
qed

theorem claims_exclusive_witness:
  "length (developers ''prj_1'' 42 (fold (claim_step (\<lambda>t. []))
     [OpClaim 5 ''prj_1'' (Some 42) (demo_user ''usr_a'') ''develop'' None None,
      OpClaim 6 ''prj_1'' (Some 42) (demo_user ''usr_b'') ''develop'' None None] demo_claims)) \<le> 1"
  using claims_exclusive [OF demo_claims_ok] unfolding Let_def by blast

theorem claim_admits_one_witness:
  "\<exists>c msg st'. claimIssue (\<lambda>t. []) 5 ''prj_1'' (Some 42) (demo_user ''usr_a'') ''develop'' None None demo_claims
       = (ClaimHeld c False, st')
     \<and> fst (claimIssue (\<lambda>t. []) 6 ''prj_1'' (Some 42) (demo_user ''usr_b'') ''develop'' None None st')
       = NotClaimed msg (Some c)"
proof -
  let ?r = "claimIssue (\<lambda>t. []) 5 ''prj_1'' (Some 42) (demo_user ''usr_a'') ''develop'' None None demo_claims"
  obtain c where c: "?r = (ClaimHeld c False, snd ?r)" using demo_claim by blast
  have ne: "actor_user (demo_user ''usr_b'') \<noteq> actor_user (demo_user ''usr_a'')"
    by (simp add: actor_user_def demo_user_def)
  show ?thesis
    using conjunct1 [OF claim_admits_one [OF demo_claims_ok c ne, of 6 None None]] c by auto
qed

end
