(* ===== verification/JsText.thy ===== *)
theory JsText
  imports Prelude
begin

text \<open>
  What the sources use of the JavaScript library to turn values into text and back: \<open>JSON.stringify\<close>,
  \<open>JSON.parse\<close>, \<open>String.prototype.split\<close> and the base64url text of a \<open>Buffer\<close>.  A character is a code
  point below 256; text outside that range is outside this model and reads as malformed.  A number of a
  JSON text is kept exactly, as a mantissa and a count of decimals.  The interface \<open>codec\<close> is a decoder
  that reads back what its encoder wrote in front of any admissible rest.
\<close>

section \<open>The interface: a prefix codec\<close>

locale codec =
  fixes enc :: "'a \<Rightarrow> string" and dec :: "string \<Rightarrow> ('b \<times> string) option"
    and view :: "'a \<Rightarrow> 'b" and ok :: "'a \<Rightarrow> bool" and follow :: "string \<Rightarrow> bool"
  assumes reads_back: "ok x \<Longrightarrow> follow r \<Longrightarrow> dec (enc x @ r) = Some (view x, r)"
begin

definition whole :: "string \<Rightarrow> 'b option" where
  "whole s = (case dec s of None \<Rightarrow> None | Some (v, r) \<Rightarrow> if r = [] then Some v else None)"

lemma whole_reads: "ok x \<Longrightarrow> follow [] \<Longrightarrow> whole (enc x) = Some (view x)"
  using reads_back [of x "[]"] by (simp add: whole_def)

lemma enc_inj: "ok x \<Longrightarrow> ok y \<Longrightarrow> follow r \<Longrightarrow> enc x @ r = enc y @ r' \<Longrightarrow> follow r' \<Longrightarrow> view x = view y \<and> r = r'"
  using reads_back [of x r] reads_back [of y r'] by simp

end

section \<open>Values read from a text\<close>

datatype jval = VNull | VBool bool | VNum int nat | VStr string | VArr "jval list" | VObj "(string \<times> jval) list"

primrec vget_in :: "(string \<times> jval) list \<Rightarrow> string \<Rightarrow> jval" where
  "vget_in [] k = VNull"
| "vget_in (p # ps) k = (if fst p = k then snd p else vget_in ps k)"

fun vget :: "jval \<Rightarrow> string \<Rightarrow> jval" where
  "vget (VObj kvs) k = vget_in kvs k"
| "vget v k = VNull"

fun vstr :: "jval \<Rightarrow> string option" where
  "vstr (VStr s) = Some s"
| "vstr v = None"

fun vtruthy :: "jval \<Rightarrow> bool" where
  "vtruthy VNull = False"
| "vtruthy (VBool b) = b"
| "vtruthy (VNum n k) = (n \<noteq> 0)"
| "vtruthy (VStr s) = (s \<noteq> [])"
| "vtruthy (VArr vs) = True"
| "vtruthy (VObj kvs) = True"

fun of_json :: "json \<Rightarrow> jval" where
  "of_json JNull = VNull"
| "of_json (JBool b) = VBool b"
| "of_json (JNum n) = VNum n 0"
| "of_json (JStr s) = VStr s"
| "of_json (JArr xs) = VArr (map of_json xs)"
| "of_json (JObj kvs) = VObj (map (\<lambda>p. (fst p, of_json (snd p))) kvs)"

text \<open>A JavaScript object has each of its keys once.\<close>

fun json_ok :: "json \<Rightarrow> bool" where
  "json_ok (JArr xs) = list_all json_ok xs"
| "json_ok (JObj kvs) = (distinct (map fst kvs) \<and> list_all (\<lambda>p. json_ok (snd p)) kvs)"
| "json_ok j = True"

lemma vget_map: "vget_in (map (\<lambda>p. (fst p, of_json (snd p))) kvs) k
    = (case map_of kvs k of None \<Rightarrow> VNull | Some j \<Rightarrow> of_json j)"
  by (induction kvs) (simp_all split: option.split)

lemma vget_of_json: "vget (of_json (JObj kvs)) k = (case map_of kvs k of None \<Rightarrow> VNull | Some j \<Rightarrow> of_json j)"
  by (simp add: vget_map)

section \<open>JSON.stringify\<close>

fun join :: "string \<Rightarrow> string list \<Rightarrow> string" where
  "join sep [] = []"
| "join sep [x] = x"
| "join sep (x # xs) = x @ sep @ join sep xs"

definition hex_char :: "nat \<Rightarrow> char" where
  "hex_char d = (if d < 10 then char_of (48 + d) else char_of (87 + d))"

definition dquote :: char where "dquote = CHR 0x22"

definition backslash :: char where "backslash = CHR 0x5C"

definition esc_char :: "char \<Rightarrow> string" where
  "esc_char c =
     (let n = of_char c :: nat
      in if n = 34 then [backslash, c]
         else if n = 92 then [c, c]
         else if n = 8 then [backslash, CHR ''b'']
         else if n = 9 then [backslash, CHR ''t'']
         else if n = 10 then [backslash, CHR ''n'']
         else if n = 12 then [backslash, CHR ''f'']
         else if n = 13 then [backslash, CHR ''r'']
         else if n < 32 then [backslash, CHR ''u'', CHR ''0'', CHR ''0'', hex_char (n div 16), hex_char (n mod 16)]
         else [c])"

definition str_string :: "string \<Rightarrow> string" where
  "str_string s = dquote # concat (map esc_char s) @ [dquote]"

fun stringify :: "json \<Rightarrow> string" where
  "stringify JNull = ''null''"
| "stringify (JBool b) = (if b then ''true'' else ''false'')"
| "stringify (JNum n) = show_int n"
| "stringify (JStr s) = str_string s"
| "stringify (JArr xs) = ''['' @ join '','' (map stringify xs) @ '']''"
| "stringify (JObj kvs) =
     ''{'' @ join '','' (map (\<lambda>p. str_string (fst p) @ '':'' @ stringify (snd p)) kvs) @ ''}''"

text \<open>The same of a value that \<open>JSON.parse\<close> returned: its numbers may have decimals, and are well formed when
  their last decimal is not 0.\<close>

fun num_text :: "int \<Rightarrow> nat \<Rightarrow> string" where
  "num_text n 0 = show_int n"
| "num_text n (Suc k) =
     (let m = nat \<bar>n\<bar>; p = 10 ^ Suc k; frac = show_nat (m mod p)
      in (if n < 0 then ''-'' else []) @ show_nat (m div p) @ CHR ''.'' # replicate (Suc k - length frac) (CHR ''0'') @ frac)"

fun vstringify :: "jval \<Rightarrow> string" where
  "vstringify VNull = ''null''"
| "vstringify (VBool b) = (if b then ''true'' else ''false'')"
| "vstringify (VNum n k) = num_text n k"
| "vstringify (VStr s) = str_string s"
| "vstringify (VArr xs) = ''['' @ join '','' (map vstringify xs) @ '']''"
| "vstringify (VObj kvs) =
     ''{'' @ join '','' (map (\<lambda>p. str_string (fst p) @ '':'' @ vstringify (snd p)) kvs) @ ''}''"

fun jval_ok :: "jval \<Rightarrow> bool" where
  "jval_ok (VNum n k) = (k = 0 \<or> n mod 10 \<noteq> 0)"
| "jval_ok (VArr xs) = list_all jval_ok xs"
| "jval_ok (VObj kvs) = (distinct (map fst kvs) \<and> list_all (\<lambda>p. jval_ok (snd p)) kvs)"
| "jval_ok v = True"

lemma stringify_of_json: "vstringify (of_json j) = stringify j"
proof (induction j)
  case (JArr xs)
  then have "map (vstringify \<circ> of_json) xs = map stringify xs" by simp
  then show ?case by (metis map_map of_json.simps(5) stringify.simps(5) vstringify.simps(5))
next
  case (JObj kvs)
  have "vstringify (of_json (snd p)) = stringify (snd p)" if "p \<in> set kvs" for p
    using JObj [OF that snds.intros] by simp
  then have "map (\<lambda>p. str_string (fst p) @ '':'' @ vstringify (of_json (snd p))) kvs
      = map (\<lambda>p. str_string (fst p) @ '':'' @ stringify (snd p)) kvs" by simp
  then show ?case by (simp only: of_json.simps vstringify.simps stringify.simps map_map o_def fst_conv snd_conv)
qed simp_all

lemma of_json_ok: "json_ok j \<Longrightarrow> jval_ok (of_json j)"
proof (induction j)
  case (JObj kvs)
  have "jval_ok (of_json (snd p))" if "p \<in> set kvs" for p
    using JObj.IH [OF that snds.intros] JObj.prems that by (auto simp: list_all_iff)
  with JObj.prems show ?case by (auto simp: list_all_iff o_def)
qed (auto simp: list_all_iff)

section \<open>JSON.parse\<close>

definition is_ws :: "char \<Rightarrow> bool" where
  "is_ws c \<longleftrightarrow> (of_char c :: nat) \<in> {32, 9, 10, 13}"

definition skip_ws :: "string \<Rightarrow> string" where
  "skip_ws s = dropWhile is_ws s"

definition dec_digit :: "char \<Rightarrow> bool" where
  "dec_digit c \<longleftrightarrow> 48 \<le> (of_char c :: nat) \<and> (of_char c :: nat) \<le> 57"

definition hex_val :: "char \<Rightarrow> nat option" where
  "hex_val c =
     (let n = of_char c
      in if 48 \<le> n \<and> n \<le> 57 then Some (n - 48)
         else if 97 \<le> n \<and> n \<le> 102 then Some (n - 87)
         else if 65 \<le> n \<and> n \<le> 70 then Some (n - 55) else None)"

definition hex4 :: "char \<Rightarrow> char \<Rightarrow> char \<Rightarrow> char \<Rightarrow> char option" where
  "hex4 a b c d =
     (case (hex_val a, hex_val b, hex_val c, hex_val d) of
        (Some w, Some x, Some y, Some z) \<Rightarrow>
          if w = 0 \<and> x = 0 then Some (char_of (16 * y + z)) else None
      | _ \<Rightarrow> None)"

definition unescape :: "char \<Rightarrow> char option" where
  "unescape c =
     (let n = of_char c :: nat
      in if n \<in> {34, 92, 47} then Some c
         else if n = 98 then Some (CHR 0x08)
         else if n = 116 then Some (CHR 0x09)
         else if n = 110 then Some (CHR 0x0A)
         else if n = 102 then Some (CHR 0x0C)
         else if n = 114 then Some (CHR 0x0D) else None)"

fun push_fst :: "char \<Rightarrow> (string \<times> string) option \<Rightarrow> (string \<times> string) option" where
  "push_fst c None = None"
| "push_fst c (Some (s, r)) = Some (c # s, r)"

text \<open>The characters after the opening quote, up to the closing one.\<close>

fun str_body :: "string \<Rightarrow> (string \<times> string) option" where
  "str_body [] = None"
| "str_body (c # s) =
     (if c = dquote then Some ([], s)
      else if c = backslash
      then (case s of
              [] \<Rightarrow> None
            | e # r \<Rightarrow>
                if e = CHR ''u''
                then (case r of
                        w # x # y # z # r' \<Rightarrow>
                          (case hex4 w x y z of None \<Rightarrow> None | Some d \<Rightarrow> push_fst d (str_body r'))
                      | _ \<Rightarrow> None)
                else (case unescape e of None \<Rightarrow> None | Some d \<Rightarrow> push_fst d (str_body r)))
      else if (of_char c :: nat) < 32 then None
      else push_fst c (str_body s))"

definition sign_part :: "string \<Rightarrow> bool \<times> string" where
  "sign_part s = (case s of [] \<Rightarrow> (False, []) | c # r \<Rightarrow> if c = CHR ''-'' then (True, r) else (False, s))"

definition frac_part :: "string \<Rightarrow> (string \<times> string) option" where
  "frac_part s =
     (case s of
        [] \<Rightarrow> Some ([], [])
      | c # r \<Rightarrow>
          if c \<noteq> CHR ''.'' then Some ([], s)
          else if takeWhile dec_digit r = [] then None
          else Some (takeWhile dec_digit r, dropWhile dec_digit r))"

definition exp_part :: "string \<Rightarrow> (int \<times> string) option" where
  "exp_part s =
     (case s of
        [] \<Rightarrow> Some (0, [])
      | c # r \<Rightarrow>
          if c \<notin> {CHR ''e'', CHR ''E''} then Some (0, s)
          else (let (neg, r1) = (case r of d # r' \<Rightarrow> if d = CHR ''+'' then (False, r') else sign_part r | [] \<Rightarrow> (False, []));
                    ds = takeWhile dec_digit r1
                in if ds = [] then None
                   else Some (if neg then - int (read_nat ds) else int (read_nat ds), dropWhile dec_digit r1)))"

fun reduce_decimals :: "int \<Rightarrow> nat \<Rightarrow> int \<times> nat" where
  "reduce_decimals m 0 = (m, 0)"
| "reduce_decimals m (Suc k) = (if m mod 10 = 0 then reduce_decimals (m div 10) k else (m, Suc k))"

definition decimal :: "int \<Rightarrow> int \<Rightarrow> jval" where
  "decimal m e =
     (if 0 \<le> e then VNum (m * 10 ^ nat e) 0
      else (let (m', k) = reduce_decimals m (nat (- e)) in VNum m' k))"

definition p_num :: "string \<Rightarrow> (jval \<times> string) option" where
  "p_num s =
     (let (neg, s1) = sign_part s;
          ds = takeWhile dec_digit s1
      in if ds = [] \<or> (hd ds = CHR ''0'' \<and> ds \<noteq> ''0'') then None
         else (case frac_part (dropWhile dec_digit s1) of
                 None \<Rightarrow> None
               | Some (fs, s2) \<Rightarrow>
                   (case exp_part s2 of
                      None \<Rightarrow> None
                    | Some (e, s3) \<Rightarrow>
                        (let m = int (read_nat (ds @ fs))
                         in Some (decimal (if neg then - m else m) (e - int (length fs)), s3)))))"

definition keyword :: "string \<Rightarrow> jval \<Rightarrow> string \<Rightarrow> (jval \<times> string) option" where
  "keyword w v s = (if take (length w) s = w then Some (v, drop (length w) s) else None)"

fun p_string :: "string \<Rightarrow> (string \<times> string) option" where
  "p_string [] = None"
| "p_string (c # s) = (if c = dquote then str_body s else None)"

fun p_atom :: "string \<Rightarrow> (jval \<times> string) option" where
  "p_atom [] = None"
| "p_atom (c # s) =
     (if c = dquote then map_option (\<lambda>(t, r). (VStr t, r)) (str_body s)
      else if c = CHR ''n'' then keyword ''null'' VNull (c # s)
      else if c = CHR ''t'' then keyword ''true'' (VBool True) (c # s)
      else if c = CHR ''f'' then keyword ''false'' (VBool False) (c # s)
      else p_num (c # s))"

lemma skip_ws_length: "length (skip_ws s) \<le> length s"
  by (simp add: skip_ws_def length_dropWhile_le)

text \<open>
  A value, the elements of an array after \<open>[\<close>, and the members of an object after \<open>{\<close> (with the
  members read so far, so that a repeated key keeps its place and takes the last value).  Every
  recursive call is guarded by the text getting shorter, which it always does.
\<close>

function (sequential) p_val :: "string \<Rightarrow> (jval \<times> string) option"
  and p_elems :: "string \<Rightarrow> (jval list \<times> string) option"
  and p_members :: "(string \<times> jval) list \<Rightarrow> string \<Rightarrow> (jval \<times> string) option" where
  "p_val s =
     (case skip_ws s of
        [] \<Rightarrow> None
      | c # r \<Rightarrow>
          if c = CHR ''['' then
            (case skip_ws r of
               [] \<Rightarrow> None
             | d # r' \<Rightarrow> if d = CHR '']'' then Some (VArr [], r')
                 else if length r < length s then map_option (\<lambda>(vs, t). (VArr vs, t)) (p_elems r) else None)
          else if c = CHR ''{'' then
            (case skip_ws r of
               [] \<Rightarrow> None
             | d # r' \<Rightarrow> if d = CHR ''}'' then Some (VObj [], r')
                 else if length r < length s then p_members [] r else None)
          else p_atom (c # r))"
| "p_elems s =
     (case p_val s of
        None \<Rightarrow> None
      | Some (v, r) \<Rightarrow>
          (case skip_ws r of
             [] \<Rightarrow> None
           | c # r' \<Rightarrow>
               if c = CHR '']'' then Some ([v], r')
               else if c = CHR '','' \<and> length r' < length s
               then map_option (\<lambda>(vs, t). (v # vs, t)) (p_elems r') else None))"
| "p_members acc s =
     (case p_string (skip_ws s) of
        None \<Rightarrow> None
      | Some (k, r) \<Rightarrow>
          (case skip_ws r of
             [] \<Rightarrow> None
           | c # r1 \<Rightarrow>
               if c = CHR '':'' \<and> length r1 < length s
               then (case p_val r1 of
                       None \<Rightarrow> None
                     | Some (v, r2) \<Rightarrow>
                         (case skip_ws r2 of
                            [] \<Rightarrow> None
                          | d # r3 \<Rightarrow>
                              if d = CHR ''}'' then Some (VObj (assoc_set k v acc), r3)
                              else if d = CHR '','' \<and> length r3 < length s
                              then p_members (assoc_set k v acc) r3 else None))
               else None))"
  by pat_completeness auto
termination
  by (relation "measure (\<lambda>x. case x of Inl s \<Rightarrow> 2 * length s | Inr (Inl s) \<Rightarrow> 2 * length s + 1 | Inr (Inr (acc, s)) \<Rightarrow> 2 * length s + 1)")
     auto

definition parse :: "string \<Rightarrow> jval option" where
  "parse s = (case p_val s of None \<Rightarrow> None | Some (v, r) \<Rightarrow> if skip_ws r = [] then Some v else None)"

section \<open>Reading back what was written\<close>

lemma of_char_less: "(of_char c :: nat) < 256"
  by (metis of_char_mod_256 mod_less_divisor zero_less_numeral)

lemma hex_round: "d < 16 \<Longrightarrow> hex_val (hex_char d) = Some d"
  by (auto simp: hex_val_def hex_char_def Let_def of_char_of)

lemma hex4_round: "n < 256 \<Longrightarrow> hex4 (CHR ''0'') (CHR ''0'') (hex_char (n div 16)) (hex_char (n mod 16)) = Some (char_of n)"
  using hex_round [of "n div 16"] hex_round [of "n mod 16"] by (simp add: hex4_def hex_val_def)

lemma str_body_plain:
  "c \<noteq> dquote \<Longrightarrow> c \<noteq> backslash \<Longrightarrow> 32 \<le> (of_char c :: nat) \<Longrightarrow> str_body (c # s) = push_fst c (str_body s)"
  by simp

lemma str_body_escape:
  "e \<noteq> CHR ''u'' \<Longrightarrow> unescape e = Some d \<Longrightarrow> str_body (backslash # e # s) = push_fst d (str_body s)"
  by (simp add: dquote_def backslash_def)

lemma str_body_unicode:
  "hex4 w x y z = Some d \<Longrightarrow> str_body (backslash # CHR ''u'' # w # x # y # z # s) = push_fst d (str_body s)"
  by (simp add: dquote_def backslash_def)

declare str_body.simps(2) [simp del]

lemma str_body_esc: "str_body (esc_char c @ s) = push_fst c (str_body s)"
proof -
  let ?n = "of_char c :: nat"
  have c: "c = char_of ?n" by simp
  consider "?n = 34" | "?n = 92" | "?n = 8" | "?n = 9" | "?n = 10" | "?n = 12" | "?n = 13"
    | "?n < 32" "?n \<noteq> 8" "?n \<noteq> 9" "?n \<noteq> 10" "?n \<noteq> 12" "?n \<noteq> 13" | "32 \<le> ?n" "?n \<noteq> 34" "?n \<noteq> 92"
    by linarith
  then show ?thesis
  proof cases
    case 1
    then have "c \<noteq> CHR ''u''" "unescape c = Some c" by (auto simp: unescape_def)
    with 1 show ?thesis using str_body_escape [of c c s] by (simp add: esc_char_def Let_def backslash_def)
  next
    case 2
    then have "c \<noteq> CHR ''u''" "unescape c = Some c" by (auto simp: unescape_def)
    moreover have "c = backslash" by (rule char_code_eq [THEN iffD1]) (simp add: 2 backslash_def)
    ultimately show ?thesis using 2 str_body_escape [of c c s] by (simp add: esc_char_def Let_def)
  next
    case 8
    have "str_body (esc_char c @ s) = push_fst (char_of ?n) (str_body s)"
      using 8 str_body_unicode [OF hex4_round [OF of_char_less [of c]], of s]
      by (simp add: esc_char_def Let_def backslash_def)
    then show ?thesis by simp
  next
    case 9
    then have "c \<noteq> dquote" "c \<noteq> backslash" by (auto simp: dquote_def backslash_def)
    with 9 show ?thesis by (simp add: esc_char_def Let_def str_body_plain)
  qed (use char_code_eq [THEN iffD1, of c "CHR 0x08"] char_code_eq [THEN iffD1, of c "CHR 0x09"] char_code_eq [THEN iffD1, of c "CHR 0x0A"]
        char_code_eq [THEN iffD1, of c "CHR 0x0C"] char_code_eq [THEN iffD1, of c "CHR 0x0D"]
       in \<open>simp_all add: esc_char_def Let_def str_body_escape unescape_def\<close>)
qed

lemma str_body_reads: "str_body (concat (map esc_char s) @ dquote # r) = Some (s, r)"
  by (induction s) (simp_all add: str_body_esc str_body.simps(2))

interpretation strings: codec str_string p_string "\<lambda>s. s" "\<lambda>_. True" "\<lambda>_. True"
  by unfold_locales (simp add: str_string_def str_body_reads)

text \<open>Numbers: a decimal numeral is read up to the first character that cannot continue it.\<close>

definition num_end :: "string \<Rightarrow> bool" where
  "num_end r \<longleftrightarrow> (case r of [] \<Rightarrow> True | c # _ \<Rightarrow> \<not> dec_digit c \<and> c \<notin> {CHR ''.'', CHR ''e'', CHR ''E''})"

lemma digit_char_is: "d < 10 \<Longrightarrow> dec_digit (digit_char d)"
  by (simp add: dec_digit_def digit_char_def of_char_of)

lemma show_nat_digits: "list_all dec_digit (show_nat n)"
  by (induction n rule: show_nat.induct) (auto simp: show_nat.simps digit_char_is)

lemma show_nat_nonempty [simp]: "show_nat n \<noteq> []"
  by (simp add: show_nat.simps [of n])

lemma zero_char: "digit_char 0 = CHR ''0''"
proof -
  have "(of_char (CHR ''0'') :: nat) = 48" by simp
  then show ?thesis unfolding digit_char_def by (metis add_0_right char_of_char)
qed

lemma show_nat_hd: "hd (show_nat n) = CHR ''0'' \<longleftrightarrow> n = 0"
proof (induction n rule: show_nat.induct)
  case (1 n)
  show ?case
  proof (cases "n < 10")
    case True
    then have "digit_char n = CHR ''0'' \<longleftrightarrow> n = 0"
      using read_digit [of n] zero_char by auto
    with True show ?thesis by (simp add: show_nat.simps [of n])
  next
    case False
    then have "hd (show_nat n) = hd (show_nat (n div 10))" by (simp add: show_nat.simps [of n])
    with 1 False show ?thesis by simp
  qed
qed

lemma show_nat_0: "show_nat 0 = ''0''"
  by (simp add: show_nat.simps [of 0] zero_char)

lemma takeWhile_digits: "list_all P xs \<Longrightarrow> (case r of [] \<Rightarrow> True | c # _ \<Rightarrow> \<not> P c) \<Longrightarrow>
    takeWhile P (xs @ r) = xs \<and> dropWhile P (xs @ r) = r"
  by (cases r) (auto simp: list_all_iff takeWhile_append takeWhile_eq_all_conv)

lemma num_end_parts: "num_end r \<Longrightarrow> frac_part r = Some ([], r) \<and> exp_part r = Some (0, r)"
  by (auto simp: num_end_def frac_part_def exp_part_def split: list.splits)

lemma sign_digits: "sign_part (show_nat n @ r) = (False, show_nat n @ r)"
proof -
  obtain c t where c: "show_nat n = c # t" by (cases "show_nat n") auto
  then have "dec_digit c" using show_nat_digits [of n] by simp
  then have "c \<noteq> CHR ''-''" by (auto simp: dec_digit_def)
  with c show ?thesis by (simp add: sign_part_def)
qed

lemma sign_num: "sign_part ((if n < 0 then ''-'' else []) @ show_nat m @ r) = (n < (0::int), show_nat m @ r)"
  by (cases "n < 0") (simp_all add: sign_digits, simp add: sign_part_def)

lemma reduce_done: "n mod 10 \<noteq> 0 \<Longrightarrow> reduce_decimals n k = (n, k)"
  by (cases k) simp_all

lemma read_nat_append: "read_nat (xs @ ys) = read_nat xs * 10 ^ length ys + read_nat ys"
proof -
  have step: "foldl (\<lambda>acc c. 10 * acc + (of_char c - 48)) a ys = a * 10 ^ length ys + read_nat ys" for a
  proof (induction ys rule: rev_induct)
    case (snoc y ys)
    then show ?case by (simp add: read_nat_def algebra_simps)
  qed (simp add: read_nat_def)
  have "read_nat (xs @ ys) = foldl (\<lambda>acc c. 10 * acc + (of_char c - 48)) (read_nat xs) ys"
    by (simp add: read_nat_def)
  then show ?thesis by (simp only: step)
qed

lemma read_nat_zeros: "read_nat (replicate k (CHR ''0'')) = 0"
  by (induction k) (simp_all add: read_nat_def)

lemma length_show_nat: "n < 10 ^ k \<Longrightarrow> 0 < k \<Longrightarrow> length (show_nat n) \<le> k"
proof (induction n arbitrary: k rule: show_nat.induct)
  case (1 n)
  show ?case
  proof (cases "n < 10")
    case False
    then obtain j where j: "k = Suc j" "0 < j" using 1(2,3) by (cases k; cases "k - 1") auto
    then have "n div 10 < 10 ^ j" using 1(2) by simp
    with 1(1) False j show ?thesis by (simp add: show_nat.simps [of n])
  qed (use 1 in \<open>simp add: show_nat.simps [of n]\<close>)
qed

lemma p_num_reads:
  assumes "num_end r" and "k = 0 \<or> n mod 10 \<noteq> 0"
  shows "p_num (num_text n k @ r) = Some (VNum n k, r)"
proof -
  define m where "m = nat \<bar>n\<bar>"
  have head: "\<not> (show_nat x = [] \<or> hd (show_nat x) = CHR ''0'' \<and> show_nat x \<noteq> ''0'')" for x
    using show_nat_hd [of x] show_nat_0 by auto
  show ?thesis
  proof (cases k)
    case 0
    have nd: "case r of [] \<Rightarrow> True | c # _ \<Rightarrow> \<not> dec_digit c"
      using assms by (auto simp: num_end_def split: list.splits)
    have "show_int n @ r = (if n < 0 then ''-'' else []) @ show_nat m @ r" by (simp add: show_int_def m_def)
    then show ?thesis
      using head [of m] num_end_parts [OF assms(1)] takeWhile_digits [OF show_nat_digits nd, of m] sign_num [of n m r]
      by (simp only: p_num_def 0 num_text.simps) (simp add: read_show_nat decimal_def Let_def m_def)
  next
    case (Suc j)
    define p where "p = (10::nat) ^ Suc j"
    define fs where "fs = replicate (Suc j - length (show_nat (m mod p))) (CHR ''0'') @ show_nat (m mod p)"
    have nz: "n mod 10 \<noteq> 0" using assms(2) Suc by simp
    have len: "length fs = Suc j" using length_show_nat [of "m mod p" "Suc j"] by (simp add: fs_def p_def)
    have ds: "list_all dec_digit fs"
      using show_nat_digits [of "m mod p"] by (auto simp: fs_def list_all_iff dec_digit_def)
    have rd: "read_nat (show_nat (m div p) @ fs) = m"
      using read_nat_append [of "show_nat (m div p)" fs] len
      by (simp add: fs_def read_nat_append read_nat_zeros read_show_nat p_def div_mult_mod_eq del: power_Suc)
    have nd: "case r of [] \<Rightarrow> True | c # _ \<Rightarrow> \<not> dec_digit c"
      using assms by (auto simp: num_end_def split: list.splits)
    have fp: "frac_part (CHR ''.'' # fs @ r) = Some (fs, r)"
      using takeWhile_digits [OF ds nd] len by (auto simp: frac_part_def)
    have dot: "takeWhile dec_digit (show_nat x @ CHR ''.'' # t) = show_nat x"
        "dropWhile dec_digit (show_nat x @ CHR ''.'' # t) = CHR ''.'' # t" for x t
      using takeWhile_digits [OF show_nat_digits, of "CHR ''.'' # t" x] by (simp_all add: dec_digit_def)
    have tx: "num_text n k @ r = (if n < 0 then ''-'' else []) @ show_nat (m div p) @ CHR ''.'' # fs @ r"
      by (simp add: Suc m_def p_def fs_def Let_def)
    have whole: "(if n < 0 then - int m else int m) = n" by (simp add: m_def)
    show ?thesis
      unfolding p_num_def tx sign_num Let_def prod.case
      using head [of "m div p"] fp num_end_parts [OF assms(1)] rd len nz whole Suc
      by (auto simp: dot decimal_def reduce_done nat_add_distrib m_def)
  qed
qed

text \<open>Values.\<close>

definition starter :: "char \<Rightarrow> bool" where
  "starter c \<longleftrightarrow> \<not> is_ws c \<and> c \<noteq> CHR '']'' \<and> c \<noteq> CHR ''}''"

lemma skip_ws_id: "\<not> is_ws c \<Longrightarrow> skip_ws (c # s) = c # s"
  by (simp add: skip_ws_def)

lemma digit_starter: "dec_digit c \<Longrightarrow> starter c"
  by (auto simp: starter_def dec_digit_def is_ws_def)

lemma show_int_start: "\<exists>c t. show_int n = c # t \<and> (dec_digit c \<or> c = CHR ''-'')"
proof (cases "show_nat (nat \<bar>n\<bar>)")
  case (Cons c t)
  then show ?thesis using show_nat_digits [of "nat \<bar>n\<bar>"] by (cases "n < 0") (simp_all add: show_int_def)
qed simp

lemma num_text_start: "\<exists>c t. num_text n k = c # t \<and> (dec_digit c \<or> c = CHR ''-'')"
proof (cases k)
  case (Suc j)
  let ?m = "nat \<bar>n\<bar> div 10 ^ Suc j"
  obtain c t where "show_nat ?m = c # t" "dec_digit c"
    using show_nat_digits [of ?m] by (cases "show_nat ?m") simp_all
  with Suc show ?thesis by (cases "n < 0") (simp_all add: Let_def)
qed (use show_int_start [of n] in simp)

lemma vstringify_starts: "\<exists>c t. vstringify j = c # t \<and> starter c"
proof (cases j)
  case (VNum n k)
  then show ?thesis using num_text_start [of n k] digit_starter by (auto simp: starter_def is_ws_def)
qed (auto simp: starter_def is_ws_def str_string_def dquote_def)

declare p_val.simps [simp del] p_elems.simps [simp del] p_members.simps [simp del]

lemma p_atom_reads:
  assumes "num_end r" and "jval_ok j" and "\<And>xs. j \<noteq> VArr xs" and "\<And>kvs. j \<noteq> VObj kvs"
  shows "p_atom (vstringify j @ r) = Some (j, r)"
proof (cases j)
  case (VNum n k)
  obtain c t where c: "num_text n k = c # t" and "dec_digit c \<or> c = CHR ''-''" using num_text_start by blast
  then have "c \<noteq> dquote" "c \<noteq> CHR ''n''" "c \<noteq> CHR ''t''" "c \<noteq> CHR ''f''"
    by (auto simp: dquote_def dec_digit_def)
  then show ?thesis using p_num_reads [OF assms(1), of k n] assms(2) c VNum by simp
next
  case (VStr s)
  then show ?thesis by (simp add: str_string_def str_body_reads)
qed (use assms in \<open>auto simp: keyword_def dquote_def\<close>)

lemma p_val_atom:
  "c \<noteq> CHR ''['' \<Longrightarrow> c \<noteq> CHR ''{'' \<Longrightarrow> \<not> is_ws c \<Longrightarrow> p_val (c # s) = p_atom (c # s)"
  by (simp add: p_val.simps skip_ws_id)

lemma num_end_sep: "num_end (CHR '','' # r)" "num_end (CHR '']'' # r)" "num_end (CHR ''}'' # r)" "num_end []"
  by (simp_all add: num_end_def dec_digit_def)

lemma ws_sep [simp]: "skip_ws (CHR '','' # r) = CHR '','' # r" "skip_ws (CHR '']'' # r) = CHR '']'' # r"
  "skip_ws (CHR ''}'' # r) = CHR ''}'' # r" "skip_ws (CHR '':'' # r) = CHR '':'' # r" "skip_ws (dquote # r) = dquote # r"
  by (simp_all add: skip_ws_def is_ws_def dquote_def)

text \<open>The elements of an array, given that each element reads back.\<close>

lemma p_elems_reads:
  assumes "\<And>x r. x \<in> set xs \<Longrightarrow> num_end r \<Longrightarrow> p_val (vstringify x @ r) = Some (x, r)" and "xs \<noteq> []"
  shows "p_elems (join '','' (map vstringify xs) @ CHR '']'' # r) = Some (xs, r)"
  using assms
proof (induction xs)
  case (Cons x xs)
  show ?case
  proof (cases xs)
    case Nil
    then show ?thesis using Cons.prems(1) [of x "CHR '']'' # r"] by (simp add: p_elems.simps num_end_sep)
  next
    case (Cons y ys)
    then have "p_elems (join '','' (map vstringify xs) @ CHR '']'' # r) = Some (xs, r)"
      using Cons.IH Cons.prems(1) by simp
    with Cons show ?thesis
      using Cons.prems(1) [of x "CHR '','' # join '','' (map vstringify xs) @ CHR '']'' # r"]
      by (simp add: p_elems.simps num_end_sep)
  qed
qed simp

lemma is_ws_letter [simp]: "dquote \<noteq> CHR ''[''" "dquote \<noteq> CHR ''{''" "\<not> is_ws dquote"
  "\<not> is_ws (CHR ''n'')" "\<not> is_ws (CHR ''t'')" "\<not> is_ws (CHR ''f'')"
  "dquote \<noteq> CHR ''n''" "dquote \<noteq> CHR ''t''" "dquote \<noteq> CHR ''f''"
  "CHR ''n'' \<noteq> dquote" "CHR ''t'' \<noteq> dquote" "CHR ''f'' \<noteq> dquote"
  by (simp_all add: is_ws_def dquote_def)

lemma assoc_set_new: "k \<notin> fst ` set kvs \<Longrightarrow> assoc_set k v kvs = kvs @ [(k, v)]"
  by (induction kvs) auto

lemma p_members_reads:
  assumes "\<And>p r. p \<in> set kvs \<Longrightarrow> num_end r \<Longrightarrow> p_val (vstringify (snd p) @ r) = Some (snd p, r)"
    and "kvs \<noteq> []" and "distinct (map fst acc @ map fst kvs)"
  shows "p_members acc (join '','' (map (\<lambda>p. str_string (fst p) @ '':'' @ vstringify (snd p)) kvs) @ CHR ''}'' # r)
    = Some (VObj (acc @ kvs), r)"
  using assms
proof (induction kvs arbitrary: acc)
  case (Cons p kvs)
  have new: "assoc_set (fst p) (snd p) acc = acc @ [p]"
    using Cons.prems(3) assoc_set_new [of "fst p" acc "snd p"] by auto
  have step: "p_members acc (str_string (fst p) @ CHR '':'' # vstringify (snd p) @ d # t) =
      (if d = CHR ''}'' then Some (VObj (acc @ [p]), t)
       else if d = CHR '','' then p_members (acc @ [p]) t else None)"
    if "d \<in> {CHR ''}'', CHR '',''}" for d t
  proof -
    have "p_string (skip_ws (str_string (fst p) @ CHR '':'' # vstringify (snd p) @ d # t))
        = Some (fst p, CHR '':'' # vstringify (snd p) @ d # t)"
      using strings.reads_back [of "fst p"] by (simp add: str_string_def)
    moreover have "p_val (vstringify (snd p) @ d # t) = Some (snd p, d # t)"
      using that num_end_sep by (intro Cons.prems(1)) auto
    moreover have "skip_ws (d # t) = d # t" using that by auto
    ultimately show ?thesis using new by (simp add: p_members.simps [of acc] str_string_def)
  qed
  show ?case
  proof (cases kvs)
    case Nil
    then show ?thesis using step [of "CHR ''}''" r] by simp
  next
    case (Cons q qs)
    then have "p_members (acc @ [p])
        (join '','' (map (\<lambda>p. str_string (fst p) @ '':'' @ vstringify (snd p)) kvs) @ CHR ''}'' # r)
        = Some (VObj ((acc @ [p]) @ kvs), r)"
      using Cons.prems by (intro Cons.IH) auto
    with Cons show ?thesis by (simp add: step)
  qed
qed simp

lemma p_val_array: "c \<noteq> CHR '']'' \<Longrightarrow> \<not> is_ws c \<Longrightarrow>
    p_val (CHR ''['' # c # s) = map_option (\<lambda>(vs, t). (VArr vs, t)) (p_elems (c # s))"
  by (simp add: p_val.simps skip_ws_id is_ws_def)

lemma p_val_object: "c \<noteq> CHR ''}'' \<Longrightarrow> \<not> is_ws c \<Longrightarrow> p_val (CHR ''{'' # c # s) = p_members [] (c # s)"
  by (simp add: p_val.simps skip_ws_id is_ws_def)

lemma p_val_empty: "p_val (''[]'' @ r) = Some (VArr [], r)" "p_val (''{}'' @ r) = Some (VObj [], r)"
  by (simp_all add: p_val.simps skip_ws_id is_ws_def)

lemma p_val_reads: "jval_ok j \<Longrightarrow> num_end r \<Longrightarrow> p_val (vstringify j @ r) = Some (j, r)"
proof (induction j arbitrary: r)
  case (VArr xs)
  show ?case
  proof (cases xs)
    case Nil
    then show ?thesis using p_val_empty(1) by simp
  next
    case (Cons x ys)
    have "p_elems (join '','' (map vstringify xs) @ CHR '']'' # r) = Some (xs, r)"
      using VArr Cons by (intro p_elems_reads) (auto simp: list_all_iff)
    moreover obtain c t where "join '','' (map vstringify xs) @ CHR '']'' # r = c # t" and "starter c"
      using vstringify_starts [of x] Cons by (cases ys) auto
    ultimately show ?thesis using p_val_array [of c t] by (simp add: starter_def)
  qed
next
  case (VObj kvs)
  show ?case
  proof (cases kvs)
    case Nil
    then show ?thesis using p_val_empty(2) by simp
  next
    case (Cons p ps)
    let ?s = "join '','' (map (\<lambda>p. str_string (fst p) @ '':'' @ vstringify (snd p)) kvs) @ CHR ''}'' # r"
    have "p_val (vstringify (snd p) @ r') = Some (snd p, r')" if "p \<in> set kvs" "num_end r'" for p r'
      using that VObj.prems(1) by (intro VObj.IH [OF that(1) snds.intros]) (auto simp: list_all_iff)
    then have "p_members [] ?s = Some (VObj ([] @ kvs), r)"
      using VObj.prems Cons by (intro p_members_reads) simp_all
    moreover obtain t where "?s = dquote # t"
      using Cons by (cases ps) (auto simp: str_string_def)
    moreover have "dquote \<noteq> CHR ''}''" "\<not> is_ws dquote" by (simp_all add: dquote_def is_ws_def)
    ultimately show ?thesis using p_val_object [of dquote t] by simp
  qed
next
  case (VNum n k)
  obtain c t where c: "num_text n k = c # t" and "dec_digit c \<or> c = CHR ''-''" using num_text_start by blast
  then have "c \<noteq> CHR ''[''" "c \<noteq> CHR ''{''" "\<not> is_ws c" by (auto simp: dec_digit_def is_ws_def)
  then show ?case using p_atom_reads [of r "VNum n k"] VNum c by (simp add: p_val_atom)
qed (auto simp: p_val_atom is_ws_letter str_string_def str_body_reads keyword_def)

interpretation docs: codec vstringify p_val "\<lambda>v. v" jval_ok num_end
  by unfold_locales (rule p_val_reads)

lemma parse_vstringify: "jval_ok v \<Longrightarrow> parse (vstringify v) = Some v"
  using docs.reads_back [of v "[]"] by (simp add: parse_def num_end_sep skip_ws_def)

lemma parse_stringify: "json_ok j \<Longrightarrow> parse (stringify j) = Some (of_json j)"
  using parse_vstringify [of "of_json j"] of_json_ok by (simp add: stringify_of_json)

text \<open>The guards of the parser always hold: what is read is gone from the rest.\<close>

lemma push_fst_Some: "push_fst c x = Some (s, r) \<longleftrightarrow> (\<exists>t. x = Some (t, r) \<and> s = c # t)"
  by (cases x) auto

lemma str_body_shorter: "str_body s = Some (t, r) \<Longrightarrow> length r < length s"
proof (induction s arbitrary: t rule: str_body.induct)
  case (2 c s)
  then show ?case
    by (fastforce simp: str_body.simps(2) [of c] push_fst_Some split: if_splits list.splits option.splits)
qed simp

lemma dropWhile_shorter: "takeWhile P s \<noteq> [] \<Longrightarrow> length (dropWhile P s) < length s"
  by (cases s) (auto split: if_splits simp: le_imp_less_Suc length_dropWhile_le)

lemma sign_part_length: "length (snd (sign_part s)) \<le> length s"
  by (auto simp: sign_part_def split: list.splits)

lemma frac_part_length: "frac_part s = Some (f, r) \<Longrightarrow> length r \<le> length s"
  by (auto simp: frac_part_def le_SucI length_dropWhile_le split: list.splits if_splits)

lemma exp_part_length: "exp_part s = Some (e, r) \<Longrightarrow> length r \<le> length s"
proof -
  have le: "length (dropWhile dec_digit (snd (sign_part t))) \<le> length t" for t
    using sign_part_length [of t] length_dropWhile_le [of dec_digit "snd (sign_part t)"] by linarith
  show "exp_part s = Some (e, r) \<Longrightarrow> ?thesis"
    using le [of "tl s"]
    by (auto simp: exp_part_def Let_def case_prod_beta le_SucI length_dropWhile_le split: list.splits if_splits)
qed

lemma p_num_shorter: "p_num s = Some (v, r) \<Longrightarrow> length r < length s"
  using sign_part_length [of s] dropWhile_shorter [of dec_digit "snd (sign_part s)"]
  by (fastforce simp: p_num_def Let_def case_prod_beta split: if_splits option.splits
      dest!: frac_part_length exp_part_length)

lemma keyword_shorter: "keyword w x s = Some (v, r) \<Longrightarrow> w \<noteq> [] \<Longrightarrow> length r < length s"
  by (cases s) (auto simp: keyword_def split: if_splits)

lemma p_atom_shorter:
  assumes "p_atom s = Some (v, r)"
  shows "length r < length s"
proof (cases s)
  case (Cons c t)
  consider "c = dquote" | "c \<noteq> dquote" "p_num s = Some (v, r)"
    | w x where "c \<noteq> dquote" "w \<noteq> []" "keyword w x s = Some (v, r)"
    using assms Cons by (auto split: if_splits)
  then show ?thesis
  proof cases
    case 1
    then show ?thesis using assms Cons by (auto dest: str_body_shorter)
  qed (use p_num_shorter keyword_shorter in blast)+
qed (use assms in simp)

lemma p_string_shorter: "p_string s = Some (v, r) \<Longrightarrow> length r < length s"
  by (cases s) (auto split: if_splits dest: str_body_shorter)

lemma skip_ws_Cons: "skip_ws s = c # r \<Longrightarrow> length r < length s"
  using skip_ws_length [of s] by simp

lemma p_shorter:
  "p_val s = Some (v, r) \<Longrightarrow> length r < length s"
  "p_elems t = Some (vs, r) \<Longrightarrow> length r < length t"
  "p_members acc u = Some (v, r) \<Longrightarrow> length r < length u"
proof (induction s and t and acc u arbitrary: v r and vs r and v r rule: p_val_p_elems_p_members.induct)
  case (1 s)
  obtain c t where c: "skip_ws s = c # t" using 1(3) by (auto simp: p_val.simps split: list.splits)
  show ?case
  proof (cases "c = CHR ''['' \<or> c = CHR ''{''")
    case False
    then have "p_atom (c # t) = Some (v, r)" using 1(3) c by (simp add: p_val.simps [of s])
    then show ?thesis using p_atom_shorter skip_ws_length [of s] c by fastforce
  next
    case True
    then obtain d t' where d: "skip_ws t = d # t'"
      using 1(3) c by (auto simp: p_val.simps [of s] split: list.splits if_splits)
    have len: "length t < length s" "length t' < length t" using skip_ws_Cons [OF c] skip_ws_Cons [OF d] by simp_all
    note eval = 1(3) [unfolded p_val.simps [of s] c list.case]
    show ?thesis
    proof (cases "c = CHR ''[''")
      case arr: True
      show ?thesis
      proof (cases "d = CHR '']''")
        case True
        then show ?thesis using eval arr d len by simp
      next
        case False
        then obtain x where "p_elems t = Some (x, r)" using eval arr d len by auto
        then show ?thesis using 1(1) [OF c arr d False len(1)] len by fastforce
      qed
    next
      case obj: False
      then have c': "c = CHR ''{''" using True by simp
      show ?thesis
      proof (cases "d = CHR ''}''")
        case True
        then show ?thesis using eval c' d len by simp
      next
        case False
        then have "p_members [] t = Some (v, r)" using eval c' d len by simp
        then show ?thesis using 1(2) [OF c obj c' d False len(1)] len by fastforce
      qed
    qed
  qed
next
  case (2 s)
  obtain x r1 where x: "p_val s = Some (x, r1)" using 2(3) by (auto simp: p_elems.simps [of s] split: option.splits)
  obtain c r2 where c: "skip_ws r1 = c # r2"
    using 2(3) x by (auto simp: p_elems.simps [of s] split: list.splits)
  have "length r2 < length s" using 2(1) [OF x] skip_ws_Cons [OF c] by simp
  moreover have "r = r2 \<or> c = CHR '','' \<and> (\<exists>ys. p_elems r2 = Some (ys, r))"
    using 2(3) x c by (auto simp: p_elems.simps [of s] split: if_splits)
  ultimately show ?case using 2(2) [OF x refl c] by fastforce
next
  case (3 acc s)
  obtain k r0 where k: "p_string (skip_ws s) = Some (k, r0)"
    using 3(3) by (auto simp: p_members.simps [of acc s] split: option.splits)
  obtain c r1 where c: "skip_ws r0 = c # r1" "c = CHR '':''" "length r1 < length s"
    using 3(3) k by (auto simp: p_members.simps [of acc s] split: list.splits if_splits)
  obtain x r2 where x: "p_val r1 = Some (x, r2)"
    using 3(3) k c by (auto simp: p_members.simps [of acc s] split: option.splits)
  obtain d r3 where d: "skip_ws r2 = d # r3"
    using 3(3) k c x by (auto simp: p_members.simps [of acc s] split: list.splits)
  have len: "length r3 < length s" using 3(1) [OF k refl c(1) conjI [OF c(2,3)] x] skip_ws_Cons [OF d] c(3) by simp
  have "r = r3 \<or> d = CHR '','' \<and> d \<noteq> CHR ''}'' \<and> p_members (assoc_set k x acc) r3 = Some (v, r)"
    using 3(3) k c x d by (auto simp: p_members.simps [of acc s] split: if_splits)
  then show ?case using 3(2) [OF k refl c(1) conjI [OF c(2,3)] x refl d] len by fastforce
qed

text \<open>What is read is well formed.\<close>

lemma reduce_ok: "reduce_decimals m k = (m', k') \<Longrightarrow> k' = 0 \<or> m' mod 10 \<noteq> 0"
  by (induction m k rule: reduce_decimals.induct) (auto split: if_splits)

lemma decimal_ok: "jval_ok (decimal m e)"
  using reduce_ok [of m "nat (- e)"] by (auto simp: decimal_def split: prod.split)

lemma p_num_ok: "p_num s = Some (v, r) \<Longrightarrow> jval_ok v"
  by (auto simp: p_num_def Let_def decimal_ok split: prod.splits if_splits option.splits)

lemma p_atom_ok: "p_atom s = Some (v, r) \<Longrightarrow> jval_ok v"
  by (cases s) (auto simp: keyword_def split: if_splits intro: p_num_ok)

lemma p_ok:
  "p_val s = Some (v, r) \<Longrightarrow> jval_ok v"
  "p_elems t = Some (vs, r) \<Longrightarrow> list_all jval_ok vs"
  "p_members acc u = Some (v, r) \<Longrightarrow> jval_ok (VObj acc) \<Longrightarrow> jval_ok v"
proof (induction s and t and acc u arbitrary: v r and vs r and v r rule: p_val_p_elems_p_members.induct)
  case (1 s)
  obtain c t where c: "skip_ws s = c # t" using 1(3) by (auto simp: p_val.simps split: list.splits)
  note eval = 1(3) [unfolded p_val.simps [of s] c list.case]
  have len: "length t < length s" using skip_ws_Cons [OF c] .
  show ?case
  proof (cases "c = CHR ''['' \<or> c = CHR ''{''")
    case False
    then have "p_atom (c # t) = Some (v, r)" using eval by (simp only: de_Morgan_disj if_False)
    then show ?thesis by (rule p_atom_ok)
  next
    case True
    then obtain d t' where d: "skip_ws t = d # t'" using eval by (auto split: list.splits if_splits)
    consider "v = VArr [] \<or> v = VObj []" | x where "c = CHR ''[''" "d \<noteq> CHR '']''" "v = VArr x" "p_elems t = Some (x, r)"
      | "c \<noteq> CHR ''[''" "c = CHR ''{''" "d \<noteq> CHR ''}''" "p_members [] t = Some (v, r)"
      using eval d True by (auto split: if_splits)
    then show ?thesis
    proof cases
      case 2
      then show ?thesis using 1(1) [OF c 2(1) d 2(2) len 2(4)] by simp
    next
      case 3
      then show ?thesis using 1(2) [OF c 3(1,2) d 3(3) len 3(4)] by simp
    qed auto
  qed
next
  case (2 s)
  obtain x r1 where x: "p_val s = Some (x, r1)" using 2(3) by (auto simp: p_elems.simps [of s] split: option.splits)
  obtain c r2 where c: "skip_ws r1 = c # r2"
    using 2(3) x by (auto simp: p_elems.simps [of s] split: list.splits)
  have "vs = [x] \<or> c \<noteq> CHR '']'' \<and> (c = CHR '','' \<and> length r2 < length s) \<and> (\<exists>ys. p_elems r2 = Some (ys, r) \<and> vs = x # ys)"
    using 2(3) x c by (auto simp: p_elems.simps [of s] split: if_splits)
  then show ?case using 2(1) [OF x] 2(2) [OF x refl c] by fastforce
next
  case (3 acc s)
  obtain k r0 where k: "p_string (skip_ws s) = Some (k, r0)"
    using 3(3) by (auto simp: p_members.simps [of acc s] split: option.splits)
  obtain c r1 where c: "skip_ws r0 = c # r1" "c = CHR '':''" "length r1 < length s"
    using 3(3) k by (auto simp: p_members.simps [of acc s] split: list.splits if_splits)
  obtain x r2 where x: "p_val r1 = Some (x, r2)"
    using 3(3) k c by (auto simp: p_members.simps [of acc s] split: option.splits)
  obtain d r3 where d: "skip_ws r2 = d # r3"
    using 3(3) k c x by (auto simp: p_members.simps [of acc s] split: list.splits)
  have "jval_ok (VObj (assoc_set k x acc))"
    using 3(4) 3(1) [OF k refl c(1) conjI [OF c(2,3)] x] assoc_set_range [of k x acc] by (auto simp: list_all_iff)
  moreover have "v = VObj (assoc_set k x acc)
      \<or> d \<noteq> CHR ''}'' \<and> (d = CHR '','' \<and> length r3 < length s) \<and> p_members (assoc_set k x acc) r3 = Some (v, r)"
    using 3(3) k c x d by (auto simp: p_members.simps [of acc s] split: if_splits)
  ultimately show ?case using 3(2) [OF k refl c(1) conjI [OF c(2,3)] x refl d] by fastforce
qed

lemma parse_ok: "parse s = Some v \<Longrightarrow> jval_ok v"
  by (auto simp: parse_def split: option.splits if_splits intro: p_ok(1))

section \<open>Lines\<close>

definition newline :: char where "newline = CHR 0x0A"

text \<open>\<open>text.split("\n")\<close>\<close>

fun lines_of :: "string \<Rightarrow> string list" where
  "lines_of [] = [[]]"
| "lines_of (c # s) =
     (if c = newline then [] # lines_of s
      else (case lines_of s of [] \<Rightarrow> [[c]] | l # ls \<Rightarrow> (c # l) # ls))"

text \<open>\<open>!line.trim()\<close>\<close>

definition blank :: "string \<Rightarrow> bool" where
  "blank s \<longleftrightarrow> list_all js_space s"

lemma lines_of_ne [simp]: "lines_of s \<noteq> []"
  by (induction s) (auto split: list.splits)

lemma lines_of_append: "lines_of (s @ newline # t) = lines_of s @ lines_of t"
  by (induction s) (auto split: list.splits)

lemma lines_of_line: "newline \<notin> set s \<Longrightarrow> lines_of s = [s]"
  by (induction s) auto

lemma esc_no_newline: "newline \<notin> set (esc_char c)"
  by (auto simp: esc_char_def Let_def newline_def backslash_def hex_char_def split: if_splits dest: arg_cong [of _ _ "of_char :: char \<Rightarrow> nat"])

lemma str_no_newline: "newline \<notin> set (str_string s)"
  using esc_no_newline by (auto simp: str_string_def) (simp add: dquote_def newline_def)

lemma join_no_newline: "newline \<notin> set sep \<Longrightarrow> \<forall>x \<in> set xs. newline \<notin> set x \<Longrightarrow> newline \<notin> set (join sep xs)"
  by (induction sep xs rule: join.induct) auto

lemma stringify_no_newline: "newline \<notin> set (stringify j)"
proof (induction j)
  case (JNum n)
  have "newline \<notin> set (show_nat m)" for m
    using show_nat_digits [of m] by (auto simp: list_all_iff dec_digit_def newline_def)
  then show ?case by (simp add: show_int_def) (simp add: newline_def)
next
  case (JArr xs)
  then have "newline \<notin> set (join '','' (map stringify xs))"
    by (intro join_no_newline) (auto simp: newline_def)
  then show ?case by simp (simp add: newline_def)
next
  case (JObj kvs)
  have "newline \<notin> set (join '','' (map (\<lambda>p. str_string (fst p) @ '':'' @ stringify (snd p)) kvs))"
    using JObj [OF _ snds.intros] str_no_newline by (intro join_no_newline) (auto simp: newline_def)
  then show ?case by simp (simp add: newline_def)
qed (use str_no_newline in \<open>simp_all\<close>, simp_all add: newline_def)

section \<open>Buffers and base64url\<close>

text \<open>\<open>Buffer.from(text)\<close> and its \<open>toString("utf8")\<close>: a code point below 256 takes one or two bytes.\<close>

fun utf8 :: "string \<Rightarrow> nat list" where
  "utf8 [] = []"
| "utf8 (c # s) =
     (let n = of_char c in (if n < 128 then [n] else [192 + n div 64, 128 + n mod 64]) @ utf8 s)"

fun utf8_text :: "nat list \<Rightarrow> string option" where
  "utf8_text [] = Some []"
| "utf8_text (b # bs) =
     (if b < 128 then map_option (\<lambda>s. char_of b # s) (utf8_text bs)
      else (case bs of
              [] \<Rightarrow> None
            | b' # bs' \<Rightarrow>
                if b \<in> {194, 195} \<and> 128 \<le> b' \<and> b' < 192
                then map_option (\<lambda>s. char_of (64 * (b - 192) + (b' - 128)) # s) (utf8_text bs') else None))"

lemma utf8_round: "utf8_text (utf8 s) = Some s"
proof (induction s)
  case (Cons c s)
  let ?n = "of_char c :: nat"
  have "?n < 256" by (rule of_char_less)
  moreover have "64 * (?n div 64) + ?n mod 64 = ?n" by simp
  moreover have "128 \<le> n \<Longrightarrow> n < 256 \<Longrightarrow> 192 + n div 64 \<in> {194, 195}" for n :: nat
    using div_le_mono [of 128 n 64] less_mult_imp_div_less [of n 4 64] by auto
  then have "128 \<le> ?n \<Longrightarrow> 192 + ?n div 64 \<in> {194, 195}" using \<open>?n < 256\<close> by blast
  ultimately show ?case using Cons by (simp add: Let_def)
qed simp

lemma utf8_bytes: "\<forall>b \<in> set (utf8 s). b < 256"
proof (induction s)
  case (Cons c s)
  have "of_char c div 64 < (64::nat)" 
    using less_trans [OF of_char_less [of c], of "64 * 64"] by (intro less_mult_imp_div_less) simp
  moreover have "of_char c mod 64 < (128::nat)" by (rule less_trans [of _ 64]) simp_all
  ultimately show ?case using Cons of_char_less [of c] by (simp add: Let_def)
qed simp

definition b64_char :: "nat \<Rightarrow> char" where
  "b64_char n =
     (if n < 26 then char_of (65 + n) else if n < 52 then char_of (71 + n)
      else if n < 62 then char_of (n - 4) else if n = 62 then CHR ''-'' else CHR ''_'')"

definition b64_val :: "char \<Rightarrow> nat option" where
  "b64_val c =
     (let n = of_char c
      in if 65 \<le> n \<and> n \<le> 90 then Some (n - 65)
         else if 97 \<le> n \<and> n \<le> 122 then Some (n - 71)
         else if 48 \<le> n \<and> n \<le> 57 then Some (n + 4)
         else if n = 45 then Some 62 else if n = 95 then Some 63 else None)"

fun b64_enc :: "nat list \<Rightarrow> nat list" where
  "b64_enc (a # b # c # bs) =
     [a div 4, (a mod 4) * 16 + b div 16, (b mod 16) * 4 + c div 64, c mod 64] @ b64_enc bs"
| "b64_enc [a, b] = [a div 4, (a mod 4) * 16 + b div 16, (b mod 16) * 4]"
| "b64_enc [a] = [a div 4, (a mod 4) * 16]"
| "b64_enc [] = []"

fun b64_dec :: "nat list \<Rightarrow> nat list" where
  "b64_dec (w # x # y # z # r) =
     [w * 4 + x div 16, (x mod 16) * 16 + y div 4, (y mod 4) * 64 + z] @ b64_dec r"
| "b64_dec [w, x, y] = [w * 4 + x div 16, (x mod 16) * 16 + y div 4]"
| "b64_dec [w, x] = [w * 4 + x div 16]"
| "b64_dec _ = []"

definition base64url :: "string \<Rightarrow> string" where
  "base64url s = map b64_char (b64_enc (utf8 s))"

text \<open>Every character of the text in the alphabet, as the callers check first.\<close>

definition from_base64url :: "string \<Rightarrow> string option" where
  "from_base64url s = utf8_text (b64_dec (map (\<lambda>c. the (b64_val c)) s))"

lemma b64_char_round: "n < 64 \<Longrightarrow> b64_val (b64_char n) = Some n"
  by (auto simp: b64_char_def b64_val_def Let_def of_char_of)

lemma b64_enc_small: "\<forall>b \<in> set bs. b < 256 \<Longrightarrow> \<forall>n \<in> set (b64_enc bs). n < 64"
  by (induction bs rule: b64_enc.induct) (auto simp: less_mult_imp_div_less)

lemma b64_round: "\<forall>b \<in> set bs. b < 256 \<Longrightarrow> b64_dec (b64_enc bs) = bs"
  by (induction bs rule: b64_enc.induct) (auto simp: less_mult_imp_div_less)

lemma base64url_round: "from_base64url (base64url s) = Some s"
proof -
  have "map (\<lambda>c. the (b64_val c)) (base64url s) = b64_enc (utf8 s)"
    using b64_enc_small [OF utf8_bytes] by (auto simp: base64url_def b64_char_round intro!: map_idI)
  then show ?thesis by (simp add: from_base64url_def b64_round [OF utf8_bytes] utf8_round)
qed

lemma base64url_alphabet: "list_all (\<lambda>c. b64_val c \<noteq> None) (base64url s)"
  using b64_enc_small [OF utf8_bytes] by (auto simp: base64url_def b64_char_round list_all_iff)

lemma base64url_nonempty: "s \<noteq> [] \<Longrightarrow> base64url s \<noteq> []"
  by (metis base64url_round from_base64url_def list.map(1) b64_dec.simps(4) option.inject utf8_text.simps(1))

end
