(* ===== verification/RetentionArchive.thy ===== *)
theory RetentionArchive
  imports EventLog JsText
begin

text \<open>
  services/retention-archive.mjs, the part that keeps the events of an invocation: rows that leave the hot
  list are appended as JSON lines to the file of their invocation and read back from it.  A file is its
  text, under the name the digest of the invocation id gives (\<open>digest\<close> stands for SHA-256 in hex).
  \<open>fault\<close> says for which files a write fails in this call, after how many characters and with which error,
  so a torn line is a text like any other.  \<open>stamp\<close> renders an instant.
\<close>

section \<open>Rows and files\<close>

definition event_json :: "(instant \<Rightarrow> string) \<Rightarrow> event \<Rightarrow> json" where
  "event_json stamp e =
     JObj [(''id'', JStr (ev_id e)), (''invocationId'', jstr (ev_invocationId e)), (''type'', JStr (ev_type e)),
           (''level'', JStr (ev_level e)), (''message'', JStr (ev_message e)), (''data'', ev_data e),
           (''createdAt'', JStr (stamp (ev_createdAt e)))]"

record archive_files =
  af_enabled :: bool
  af_shards :: "(string \<times> string) list"
  af_maxOrdinal :: nat
  af_bootError :: "string option"

record archive_read =
  ar_entries :: "jval list"
  ar_malformed :: nat
  ar_readError :: "string option"

definition MAX_SAFE_INTEGER :: nat where
  "MAX_SAFE_INTEGER = 9007199254740991"

definition trailing_digits :: "string \<Rightarrow> string" where
  "trailing_digits s = rev (takeWhile dec_digit (rev s))"

definition numericIdOrdinal :: "string \<Rightarrow> nat option" where
  "numericIdOrdinal i =
     (let ds = trailing_digits i;
          before = dropWhile dec_digit (rev i)
      in if ds = [] \<or> before = [] \<or> hd before \<noteq> CHR ''_'' then None
         else if read_nat ds \<le> MAX_SAFE_INTEGER then Some (read_nat ds) else None)"

definition shard_text :: "string \<Rightarrow> (string \<times> string) list \<Rightarrow> string option" where
  "shard_text name fs = map_of fs name"

definition append_text :: "string \<Rightarrow> string \<Rightarrow> archive_files \<Rightarrow> archive_files" where
  "append_text name data f =
     f\<lparr>af_shards := assoc_set name (coalesce (shard_text name (af_shards f)) [] @ data) (af_shards f)\<rparr>"

section \<open>Writing\<close>

definition archive_line :: "(instant \<Rightarrow> string) \<Rightarrow> instant \<Rightarrow> event \<Rightarrow> string" where
  "archive_line stamp t e =
     stringify (JObj [(''archivedAt'', JStr (stamp t)), (''collection'', JStr ''events''), (''row'', event_json stamp e)])"

definition shard_data :: "(instant \<Rightarrow> string) \<Rightarrow> instant \<Rightarrow> event list \<Rightarrow> string" where
  "shard_data stamp t rows = newline # join [newline] (map (archive_line stamp t) rows) @ [newline]"

definition ordinal_le :: "event \<Rightarrow> event \<Rightarrow> bool" where
  "ordinal_le l r \<longleftrightarrow> coalesce (numericIdOrdinal (ev_id l)) 0 \<le> coalesce (numericIdOrdinal (ev_id r)) 0"

text \<open>The rows of one invocation, oldest first, and the invocations in order of appearance.\<close>

definition rows_of :: "string \<Rightarrow> event list \<Rightarrow> event list" where
  "rows_of i rows = sort_by ordinal_le (filter (\<lambda>r. ev_invocationId r = Some i) rows)"

definition archived_ids :: "event list \<Rightarrow> string list" where
  "archived_ids rows =
     rev (remdups (rev (filter (\<lambda>i. i \<noteq> []) (concat (map (\<lambda>r. case ev_invocationId r of None \<Rightarrow> [] | Some i \<Rightarrow> [i]) rows)))))"

fun write_shards ::
    "(string \<Rightarrow> string) \<Rightarrow> (string \<Rightarrow> (nat \<times> string) option) \<Rightarrow> (instant \<Rightarrow> string) \<Rightarrow> instant \<Rightarrow> event list
     \<Rightarrow> string list \<Rightarrow> archive_files \<Rightarrow> string option \<times> archive_files" where
  "write_shards digest fault stamp t rows [] f = (None, f)"
| "write_shards digest fault stamp t rows (i # is) f =
     (let data = shard_data stamp t (rows_of i rows)
      in case fault (digest i) of
           Some (n, err) \<Rightarrow> (Some err, append_text (digest i) (take n data) f)
         | None \<Rightarrow> write_shards digest fault stamp t rows is (append_text (digest i) data f))"

text \<open>\<open>Inl\<close> is the error of the result, \<open>Inr\<close> the count of archived rows.\<close>

definition archiveInvocationEvents ::
    "(string \<Rightarrow> string) \<Rightarrow> (string \<Rightarrow> (nat \<times> string) option) \<Rightarrow> (instant \<Rightarrow> string) \<Rightarrow> instant \<Rightarrow> event list
     \<Rightarrow> archive_files \<Rightarrow> (string + nat) \<times> archive_files" where
  "archiveInvocationEvents digest fault stamp t rows f =
     (if rows = [] then (Inr 0, f)
      else if \<not> af_enabled f then (Inl ''archive_disabled'', f)
      else (case af_bootError f of
              Some e \<Rightarrow> (Inl e, f)
            | None \<Rightarrow>
                if list_ex (\<lambda>r. numericIdOrdinal (ev_id r) = None) rows
                then (Inl ''event_archive_id_has_no_numeric_ordinal'', f)
                else (case write_shards digest fault stamp t rows (archived_ids rows) f of
                        (Some err, f') \<Rightarrow> (Inl err, f')
                      | (None, f') \<Rightarrow>
                          (Inr (sum_list (map (\<lambda>i. length (rows_of i rows)) (archived_ids rows))),
                           f'\<lparr>af_maxOrdinal :=
                             fold max (map (\<lambda>r. coalesce (numericIdOrdinal (ev_id r)) 0) rows) (af_maxOrdinal f')\<rparr>))))"

section \<open>Reading\<close>

definition archived_entry :: "string \<Rightarrow> jval \<Rightarrow> bool" where
  "archived_entry i v \<longleftrightarrow> vtruthy v \<and> vget v ''collection'' = VStr ''events'' \<and> vtruthy (vget v ''row'')
     \<and> vget (vget v ''row'') ''invocationId'' = VStr i"

primrec read_lines :: "string \<Rightarrow> string list \<Rightarrow> jval list \<times> nat" where
  "read_lines i [] = ([], 0)"
| "read_lines i (l # ls) =
     (let (es, bad) = read_lines i ls
      in if blank l then (es, bad)
         else (case parse l of
                 None \<Rightarrow> (es, bad + 1)
               | Some v \<Rightarrow> if archived_entry i v then (vget v ''row'' # es, bad) else (es, bad + 1)))"

definition readInvocationEventArchive ::
    "(string \<Rightarrow> string) \<Rightarrow> (string \<Rightarrow> string option) \<Rightarrow> string \<Rightarrow> archive_files \<Rightarrow> archive_read" where
  "readInvocationEventArchive digest readFault i f =
     (if \<not> af_enabled f then \<lparr>ar_entries = [], ar_malformed = 0, ar_readError = None\<rparr>
      else case readFault (digest i) of
             Some e \<Rightarrow> \<lparr>ar_entries = [], ar_malformed = 0, ar_readError = Some e\<rparr>
           | None \<Rightarrow>
               (case shard_text (digest i) (af_shards f) of
                  None \<Rightarrow> \<lparr>ar_entries = [], ar_malformed = 0, ar_readError = None\<rparr>
                | Some text \<Rightarrow>
                    (let (es, bad) = read_lines i (lines_of text)
                     in \<lparr>ar_entries = es, ar_malformed = bad, ar_readError = None\<rparr>)))"

section \<open>What is read back\<close>

lemma read_lines_append:
  "read_lines i (a @ b) = (fst (read_lines i a) @ fst (read_lines i b), snd (read_lines i a) + snd (read_lines i b))"
  by (induction a) (simp_all add: Let_def case_prod_beta split: option.split)

definition row_val :: "(instant \<Rightarrow> string) \<Rightarrow> event \<Rightarrow> jval" where
  "row_val stamp e = of_json (event_json stamp e)"

lemma line_reads:
  assumes "json_ok (ev_data e)" and "ev_invocationId e = Some i"
  shows "read_lines i (archive_line stamp t e # ls)
    = (row_val stamp e # fst (read_lines i ls), snd (read_lines i ls))"
proof -
  let ?doc = "JObj [(''archivedAt'', JStr (stamp t)), (''collection'', JStr ''events''), (''row'', event_json stamp e)]"
  have "json_ok ?doc" using assms(1) by (cases "ev_invocationId e") (simp_all add: event_json_def)
  then have p: "parse (archive_line stamp t e) = Some (of_json ?doc)"
    unfolding archive_line_def by (rule parse_stringify)
  moreover have "\<not> blank (archive_line stamp t e)"
    by (simp add: archive_line_def blank_def js_space_def)
  moreover have "archived_entry i (of_json ?doc)"
    using assms(2) by (simp add: archived_entry_def event_json_def)
  ultimately show ?thesis by (simp add: row_val_def Let_def case_prod_beta)
qed

declare read_lines.simps(2) [simp del]

lemma lines_read:
  "\<forall>e \<in> set es. json_ok (ev_data e) \<and> ev_invocationId e = Some i \<Longrightarrow>
   read_lines i (map (archive_line stamp t) es @ ls)
     = (map (row_val stamp) es @ fst (read_lines i ls), snd (read_lines i ls))"
  by (induction es) (simp_all add: line_reads)

lemma lines_of_join: "xs \<noteq> [] \<Longrightarrow> \<forall>x \<in> set xs. newline \<notin> set x \<Longrightarrow> lines_of (join [newline] xs) = xs"
proof (induction xs)
  case (Cons x xs)
  then show ?case using lines_of_append [of x] by (cases xs) (simp_all add: lines_of_line)
qed simp

lemma line_no_newline: "newline \<notin> set (archive_line stamp t e)"
  unfolding archive_line_def by (rule stringify_no_newline)

lemma read_shard:
  assumes "es \<noteq> []" and "\<forall>e \<in> set es. json_ok (ev_data e) \<and> ev_invocationId e = Some i"
  shows "read_lines i (lines_of (old @ shard_data stamp t es))
    = (fst (read_lines i (lines_of old)) @ map (row_val stamp) es, snd (read_lines i (lines_of old)))"
proof -
  have "lines_of (old @ shard_data stamp t es) = lines_of old @ map (archive_line stamp t) es @ [[]]"
    unfolding shard_data_def lines_of_append append_Cons [symmetric]
    using assms(1) line_no_newline lines_of_join [of "map (archive_line stamp t) es"]
    by (simp add: lines_of_append)
  then show ?thesis
    using lines_read [OF assms(2), of stamp t "[[]]"]
    by (simp add: read_lines_append read_lines.simps blank_def)
qed

text \<open>What a torn write leaves: every earlier line is whole, as the data starts a fresh line.\<close>

lemma read_torn:
  "\<exists>extra bad. read_lines i (lines_of (old @ take n (shard_data stamp t es)))
    = (fst (read_lines i (lines_of old)) @ extra, snd (read_lines i (lines_of old)) + bad)"
proof (cases n)
  case 0
  then show ?thesis by (intro exI [of _ "[]"] exI [of _ 0]) simp
next
  case (Suc m)
  then show ?thesis by (simp add: shard_data_def lines_of_append read_lines_append)
qed

lemma append_text_files:
  "shard_text n (af_shards (append_text m d f)) =
     (if n = m then Some (coalesce (shard_text n (af_shards f)) [] @ d) else shard_text n (af_shards f))"
  "af_enabled (append_text m d f) = af_enabled f"
  by (simp_all add: append_text_def shard_text_def map_of_assoc_set)

text \<open>The text of the file of an invocation, empty when there is none, reads like the file.\<close>

definition text_of :: "(string \<Rightarrow> string) \<Rightarrow> string \<Rightarrow> archive_files \<Rightarrow> string" where
  "text_of digest i f = coalesce (shard_text (digest i) (af_shards f)) []"

lemma read_text_of:
  "af_enabled f \<Longrightarrow> readInvocationEventArchive digest (\<lambda>_. None) i f =
     \<lparr>ar_entries = fst (read_lines i (lines_of (text_of digest i f))),
      ar_malformed = snd (read_lines i (lines_of (text_of digest i f))), ar_readError = None\<rparr>"
  by (auto simp: readInvocationEventArchive_def text_of_def blank_def case_prod_beta read_lines.simps split: option.split)

lemma write_shards_effect:
  assumes "inj_on digest (insert i (set is))" and "distinct is"
    and "write_shards digest fault stamp t rows is f = (err, f')"
  shows "af_enabled f' = af_enabled f
    \<and> (\<exists>d. text_of digest i f' = text_of digest i f @ d
        \<and> (if i \<notin> set is then d = []
           else (\<exists>n. d = take n (shard_data stamp t (rows_of i rows)))
             \<and> (err = None \<longrightarrow> d = shard_data stamp t (rows_of i rows))))"
  using assms
proof (induction "is" arbitrary: f)
  case Nil
  then show ?case by simp
next
  case (Cons j js)
  let ?data = "shard_data stamp t (rows_of j rows)"
  have grown: "text_of digest i (append_text (digest j) d f) = text_of digest i f @ (if i = j then d else [])" for d
    using Cons.prems(1) by (auto simp: text_of_def append_text_files inj_on_eq_iff)
  have hyps: "inj_on digest (insert i (set js))" "distinct js"
    using Cons.prems by (auto intro: inj_on_subset)
  show ?case
  proof (cases "fault (digest j)")
    case None
    then have "write_shards digest fault stamp t rows js (append_text (digest j) ?data f) = (err, f')"
      using Cons.prems(3) by (simp add: Let_def)
    note ih = Cons.IH [OF hyps this]
    show ?thesis
    proof (cases "i = j")
      case True
      then have "i \<notin> set js" using Cons.prems(2) by simp
      with ih True have "text_of digest i f' = text_of digest i (append_text (digest j) ?data f)"
        and en: "af_enabled f' = af_enabled f"
        by (auto simp: append_text_files)
      then have "text_of digest i f' = text_of digest i f @ ?data" unfolding grown using True by simp
      with True en show ?thesis by (auto intro!: exI [of _ ?data] exI [of _ "length ?data"])
    next
      case False
      with ih show ?thesis by (simp add: append_text_files grown)
    qed
  next
    case (Some x)
    obtain n e where "x = (n, e)" by fastforce
    with Some have "err = Some e" and f': "f' = append_text (digest j) (take n ?data) f"
      using Cons.prems(3) by (simp_all add: Let_def)
    then show ?thesis unfolding f' grown by (auto simp: append_text_files)
  qed
qed

lemma rows_of_set: "e \<in> set (rows_of i rows) \<longleftrightarrow> e \<in> set rows \<and> ev_invocationId e = Some i"
  by (auto simp: rows_of_def)

lemma archived_ids_set: "i \<in> set (archived_ids rows) \<longleftrightarrow> i \<noteq> [] \<and> rows_of i rows \<noteq> []"
proof -
  have "rows_of i rows \<noteq> [] \<longleftrightarrow> (\<exists>r\<in>set rows. ev_invocationId r = Some i)"
    by (auto simp: rows_of_def filter_empty_conv)
  moreover have "i \<in> set (case ev_invocationId r of None \<Rightarrow> [] | Some j \<Rightarrow> [j]) \<longleftrightarrow> ev_invocationId r = Some i" for r
    by (auto split: option.split)
  moreover have "i \<in> set (archived_ids rows) \<longleftrightarrow>
      i \<noteq> [] \<and> (\<exists>r\<in>set rows. i \<in> set (case ev_invocationId r of None \<Rightarrow> [] | Some j \<Rightarrow> [j]))"
    unfolding archived_ids_def by auto
  ultimately show ?thesis by metis
qed

lemma archived_ids_distinct: "distinct (archived_ids rows)"
  by (simp add: archived_ids_def)

lemma write_shards_ok: "(\<And>j. fault j = None) \<Longrightarrow> fst (write_shards digest fault stamp t rows is f) = None"
  by (induction "is" arbitrary: f) (simp_all add: Let_def)

lemma archive_ok:
  assumes "\<And>j. fault j = None" and "af_enabled f" and "af_bootError f = None"
    and "list_all (\<lambda>r. numericIdOrdinal (ev_id r) \<noteq> None) rows" and "rows \<noteq> []"
  shows "fst (archiveInvocationEvents digest fault stamp t rows f)
    = Inr (sum_list (map (\<lambda>i. length (rows_of i rows)) (archived_ids rows)))"
  using write_shards_ok [of fault digest stamp t rows "archived_ids rows" f] assms
  by (auto simp: archiveInvocationEvents_def list_all_iff list_ex_iff split: prod.split option.split)

section \<open>The property\<close>

text \<open>C15: rows that the archive reports as stored are read back, oldest first after everything that was
  read before, whatever the file held, so also behind a line that a crash tore; and when a write fails part
  way, no row that could be read before is lost.\<close>

theorem archive_reads_back:
  assumes "inj_on digest (insert i (set (archived_ids rows)))" and "\<forall>e \<in> set rows. json_ok (ev_data e)"
    and "i \<noteq> []" and "af_enabled f"
  shows "let (result, f') = archiveInvocationEvents digest fault stamp t rows f;
             old = readInvocationEventArchive digest (\<lambda>_. None) i f;
             new = readInvocationEventArchive digest (\<lambda>_. None) i f'
    in case result of
         Inr n \<Rightarrow> new = old\<lparr>ar_entries := ar_entries old @ map (row_val stamp) (rows_of i rows)\<rparr>
       | Inl err \<Rightarrow> (\<exists>extra. ar_entries new = ar_entries old @ extra) \<and> ar_malformed old \<le> ar_malformed new"
proof (cases "rows = [] \<or> af_bootError f \<noteq> None \<or> list_ex (\<lambda>r. numericIdOrdinal (ev_id r) = None) rows")
  case True
  then show ?thesis using assms(4)
    by (auto simp: archiveInvocationEvents_def rows_of_def Let_def split: option.splits)
next
  case False
  obtain err f' where w: "write_shards digest fault stamp t rows (archived_ids rows) f = (err, f')" by fastforce
  let ?data = "shard_data stamp t (rows_of i rows)"
  let ?old = "read_lines i (lines_of (text_of digest i f))"
  from write_shards_effect [OF assms(1) archived_ids_distinct w]
  obtain d where en: "af_enabled f'" and d: "text_of digest i f' = text_of digest i f @ d"
    and part: "if i \<notin> set (archived_ids rows) then d = [] else (\<exists>n. d = take n ?data) \<and> (err = None \<longrightarrow> d = ?data)"
    using assms(4) by blast
  note reads = read_text_of [OF assms(4)] read_text_of [OF en] d
  show ?thesis
  proof (cases err)
    case None
    have "read_lines i (lines_of (text_of digest i f @ d)) = (fst ?old @ map (row_val stamp) (rows_of i rows), snd ?old)"
    proof (cases "rows_of i rows = []")
      case True
      then show ?thesis using part archived_ids_set [of i rows] by simp
    next
      case False
      then have "d = ?data" using part archived_ids_set [of i rows] assms(3) None by simp
      then show ?thesis using read_shard [OF False, of i] assms(2) by (simp add: rows_of_set)
    qed
    moreover obtain n m where "archiveInvocationEvents digest fault stamp t rows f = (Inr n, f'\<lparr>af_maxOrdinal := m\<rparr>)"
      using False w None assms(4) by (simp add: archiveInvocationEvents_def)
    moreover have "readInvocationEventArchive digest (\<lambda>_. None) i (f'\<lparr>af_maxOrdinal := m\<rparr>)
        = readInvocationEventArchive digest (\<lambda>_. None) i f'"
      by (simp add: readInvocationEventArchive_def)
    ultimately show ?thesis by (simp add: reads)
  next
    case (Some e)
    obtain extra bad where "read_lines i (lines_of (text_of digest i f @ d)) = (fst ?old @ extra, snd ?old + bad)"
    proof (cases "i \<in> set (archived_ids rows)")
      case True
      then obtain n where "d = take n ?data" using part by (auto split: if_splits)
      with read_torn [of i "text_of digest i f" n stamp t "rows_of i rows"] show ?thesis using that by blast
    qed (use part that [of "[]" 0] in simp)
    then show ?thesis using False w Some assms(4)
      by (auto simp: archiveInvocationEvents_def Let_def reads)
  qed
qed

text \<open>A file whose only line was torn by a crash, and one event to archive.\<close>

definition torn_file :: archive_files where
  "torn_file = \<lparr>af_enabled = True, af_shards = [(''inv_1'', ''{'')], af_maxOrdinal = 0, af_bootError = None\<rparr>"

definition first_event :: event where
  "first_event = \<lparr>ev_id = ''evt_1'', ev_invocationId = Some ''inv_1'', ev_type = ''log'', ev_level = ''info'',
     ev_message = [], ev_data = JNull, ev_createdAt = 5\<rparr>"

lemma first_event_rows: "rows_of ''inv_1'' [first_event] = [first_event]"
  by (simp add: rows_of_def first_event_def)

theorem archive_reads_back_witness:
  "\<exists>f'. archiveInvocationEvents (\<lambda>i. i) (\<lambda>_. None) (\<lambda>t. ''now'') 9 [first_event] torn_file = (Inr 1, f')
     \<and> ar_entries (readInvocationEventArchive (\<lambda>i. i) (\<lambda>_. None) ''inv_1'' f')
       = ar_entries (readInvocationEventArchive (\<lambda>i. i) (\<lambda>_. None) ''inv_1'' torn_file)
         @ [row_val (\<lambda>t. ''now'') first_event]"
proof -
  let ?r = "archiveInvocationEvents (\<lambda>i. i) (\<lambda>_. None) (\<lambda>t. ''now'') 9 [first_event] torn_file"
  have ids: "archived_ids [first_event] = [''inv_1'']" by (simp add: archived_ids_def first_event_def)
  have "numericIdOrdinal (ev_id first_event) = Some 1"
    by (simp add: first_event_def numericIdOrdinal_def trailing_digits_def dec_digit_def read_nat_def MAX_SAFE_INTEGER_def)
  then have r: "fst ?r = Inr 1"
    by (subst archive_ok) (simp_all add: ids first_event_rows torn_file_def)
  have "\<forall>e \<in> set [first_event]. json_ok (ev_data e)" "af_enabled torn_file"
    by (simp_all add: first_event_def torn_file_def)
  from archive_reads_back [of "\<lambda>i. i" "''inv_1''" "[first_event]" torn_file "\<lambda>_. None" "\<lambda>t. ''now''" 9, OF _ this(1) _ this(2)] r
  show ?thesis by (cases ?r) (simp add: first_event_rows Let_def)
qed

end
