(* ===== verification/EventHistory.thy ===== *)
theory EventHistory
  imports RetentionArchive Completion
begin

text \<open>
  services/invocation-events.mjs: the history of an invocation, merged from the hot list and the archive,
  read in pages from the newest backwards.  Rows are values as they are read back.  \<open>lc\<close> is
  \<open>localeCompare\<close>.
\<close>

section \<open>Order of events\<close>

definition DEFAULT_PAGE_SIZE :: nat where "DEFAULT_PAGE_SIZE = 100"
definition MAX_PAGE_SIZE :: nat where "MAX_PAGE_SIZE = 200"
definition CURSOR_VERSION :: int where "CURSOR_VERSION = 1"
definition MAX_CURSOR_LENGTH :: nat where "MAX_CURSOR_LENGTH = 2048"

record event_key =
  ek_createdAt :: string
  ek_id :: string

text \<open>\<open>/([0-9]+)$/\<close>\<close>

definition event_ordinal :: "string \<Rightarrow> nat option" where
  "event_ordinal i = (if trailing_digits i = [] then None else Some (read_nat (trailing_digits i)))"

definition compareEventOrdinals :: "string \<Rightarrow> string \<Rightarrow> int" where
  "compareEventOrdinals l r =
     (case (event_ordinal l, event_ordinal r) of
        (Some m, Some n) \<Rightarrow> if m < n then -1 else if n < m then 1 else 0
      | (Some m, None) \<Rightarrow> -1
      | (None, Some n) \<Rightarrow> 1
      | (None, None) \<Rightarrow> 0)"

definition compareEvents :: "(string \<Rightarrow> string \<Rightarrow> int) \<Rightarrow> event_key \<Rightarrow> event_key \<Rightarrow> int" where
  "compareEvents lc l r =
     (let byOrdinal = compareEventOrdinals (ek_id l) (ek_id r);
          byTime = lc (ek_createdAt l) (ek_createdAt r)
      in if byOrdinal \<noteq> 0 then byOrdinal else if byTime \<noteq> 0 then byTime else lc (ek_id l) (ek_id r))"

section \<open>Rows\<close>

definition isInvocationEvent :: "jval \<Rightarrow> string \<Rightarrow> bool" where
  "isInvocationEvent v i \<longleftrightarrow>
     (case (vget v ''id'', vget v ''type'', vget v ''createdAt'') of
        (VStr j, VStr ty, VStr at) \<Rightarrow> j \<noteq> [] \<and> vget v ''invocationId'' = VStr i
      | _ \<Rightarrow> False)"

definition row_id :: "jval \<Rightarrow> string" where
  "row_id v = coalesce (vstr (vget v ''id'')) []"

definition key_of :: "jval \<Rightarrow> event_key" where
  "key_of v = \<lparr>ek_createdAt = coalesce (vstr (vget v ''createdAt'')) [], ek_id = row_id v\<rparr>"

definition drop_keys :: "string list \<Rightarrow> (string \<times> jval) list \<Rightarrow> (string \<times> jval) list" where
  "drop_keys ks kvs = filter (\<lambda>p. fst p \<notin> set ks) kvs"

definition row_type :: "jval \<Rightarrow> string" where
  "row_type v = coalesce (vstr (vget v ''type'')) []"

definition isCodexProviderEvent :: "jval \<Rightarrow> bool" where
  "isCodexProviderEvent v \<longleftrightarrow> starts_with (row_type v) ''codex_''
     \<or> vget (vget v ''data'') ''source'' = VStr ''codex_jsonl''"

definition isClaudeEvent :: "jval \<Rightarrow> bool" where
  "isClaudeEvent v \<longleftrightarrow> starts_with (row_type v) ''claude_''
     \<or> vget (vget v ''data'') ''source'' \<in> {VStr ''claude_sdk'', VStr ''claude_jsonl''}
     \<or> vget (vget v ''data'') ''runtime'' = VStr ''agent_sdk''"

definition publicEventData :: "jval \<Rightarrow> jval" where
  "publicEventData v =
     (case vget v ''data'' of
        VObj kvs \<Rightarrow>
          (let withoutProviderIds = drop_keys [''claudeSessionId'', ''resumeSessionId''] kvs
           in if \<not> isClaudeEvent v \<and> \<not> isCodexProviderEvent v then VObj withoutProviderIds
              else VObj (drop_keys [''sessionId'', ''threadId'', ''turnId''] withoutProviderIds))
      | d \<Rightarrow> d)"

definition publicInvocationEvent :: "jval \<Rightarrow> jval" where
  "publicInvocationEvent v =
     VObj [(''id'', vget v ''id''), (''invocationId'', vget v ''invocationId''), (''type'', vget v ''type''),
           (''level'', vget v ''level''),
           (''message'', if isCodexProviderEvent v
              \<and> (case vget v ''message'' of VStr m \<Rightarrow> starts_with m ''Codex thread started:'' | _ \<Rightarrow> False)
              then VStr ''Codex thread started.'' else vget v ''message''),
           (''data'', publicEventData v), (''createdAt'', vget v ''createdAt'')]"

section \<open>Merging the hot list and the archive\<close>

text \<open>The \<open>Map\<close> by id: the first archived copy is kept, a hot copy replaces it.  The count is
  \<open>invalidArchivedRows\<close>.\<close>

fun merge_archive :: "string \<Rightarrow> jval list \<Rightarrow> (string \<times> jval) list \<Rightarrow> nat \<Rightarrow> (string \<times> jval) list \<times> nat" where
  "merge_archive i [] m bad = (m, bad)"
| "merge_archive i (v # vs) m bad =
     (if \<not> isInvocationEvent v i then merge_archive i vs m (bad + 1)
      else merge_archive i vs (if map_of m (row_id v) = None then assoc_set (row_id v) v m else m) bad)"

fun merge_hot :: "string \<Rightarrow> jval list \<Rightarrow> (string \<times> jval) list \<Rightarrow> (string \<times> jval) list" where
  "merge_hot i [] m = m"
| "merge_hot i (v # vs) m = merge_hot i vs (if isInvocationEvent v i then assoc_set (row_id v) v m else m)"

definition before_eq :: "(string \<Rightarrow> string \<Rightarrow> int) \<Rightarrow> jval \<Rightarrow> jval \<Rightarrow> bool" where
  "before_eq lc l r \<longleftrightarrow> compareEvents lc (key_of l) (key_of r) \<le> 0"

definition allEvents :: "(string \<Rightarrow> string \<Rightarrow> int) \<Rightarrow> string \<Rightarrow> jval list \<Rightarrow> jval list \<Rightarrow> jval list" where
  "allEvents lc i archived hot =
     sort_by (before_eq lc) (map snd (merge_hot i hot (fst (merge_archive i archived [] 0))))"

section \<open>Cursors\<close>

definition cursor_json :: "string \<Rightarrow> event_key \<Rightarrow> json" where
  "cursor_json i k = JObj [(''v'', JNum CURSOR_VERSION), (''invocationId'', JStr i),
     (''createdAt'', JStr (ek_createdAt k)), (''id'', JStr (ek_id k))]"

definition encodeCursor :: "string \<Rightarrow> event_key \<Rightarrow> string" where
  "encodeCursor i k = base64url (stringify (cursor_json i k))"

definition decodeCursor :: "string \<Rightarrow> string \<Rightarrow> event_key option" where
  "decodeCursor s i =
     (if s = [] \<or> MAX_CURSOR_LENGTH < length s \<or> list_ex (\<lambda>c. b64_val c = None) s then None
      else (case Option.bind (from_base64url s) parse of
              None \<Rightarrow> None
            | Some v \<Rightarrow>
                if vget v ''v'' \<noteq> VNum CURSOR_VERSION 0 \<or> vget v ''invocationId'' \<noteq> VStr i then None
                else (case (vget v ''createdAt'', vget v ''id'') of
                        (VStr at, VStr j) \<Rightarrow> if at = [] \<or> j = [] then None else Some \<lparr>ek_createdAt = at, ek_id = j\<rparr>
                      | _ \<Rightarrow> None)))"

text \<open>\<open>limit\<close> is \<open>Math.floor(Number(value))\<close>, \<open>None\<close> when the value is absent, empty or not finite.\<close>

definition clampPageSize :: "int option \<Rightarrow> nat" where
  "clampPageSize limit =
     (case limit of None \<Rightarrow> DEFAULT_PAGE_SIZE | Some n \<Rightarrow> nat (max 1 (min (int MAX_PAGE_SIZE) n)))"

section \<open>Listing\<close>

definition invocationHistoryTruncated :: "invocation \<Rightarrow> jval list \<Rightarrow> retention \<Rightarrow> archive_read \<Rightarrow> nat \<Rightarrow> bool" where
  "invocationHistoryTruncated v rows r archive invalid \<longleftrightarrow>
     (let knownFailure = ret_globalTruncated r \<or> inv_id v \<in> set (ret_truncatedIds r);
          archiveDamaged = 0 < ar_malformed archive
            \<or> (case ar_readError archive of None \<Rightarrow> False | Some e \<Rightarrow> e \<noteq> []) \<or> 0 < invalid;
          expectedStart = (if truthy (jget (inv_metadata v) ''managedCodexSessionId'')
                           then ''codex_session_registered'' else ''invocation_created'')
      in knownFailure \<or> archiveDamaged \<or> \<not> list_ex (\<lambda>e. vget e ''type'' = VStr expectedStart) rows)"

record event_page =
  pg_events :: "jval list"
  pg_nextCursor :: "string option"
  pg_hasMore :: bool
  pg_retentionTruncated :: bool

definition eligible :: "(string \<Rightarrow> string \<Rightarrow> int) \<Rightarrow> event_key option \<Rightarrow> jval list \<Rightarrow> jval list" where
  "eligible lc boundary rows =
     (case boundary of None \<Rightarrow> rows | Some b \<Rightarrow> filter (\<lambda>e. compareEvents lc (key_of e) b < 0) rows)"

definition event_page_of ::
    "(string \<Rightarrow> string \<Rightarrow> int) \<Rightarrow> string \<Rightarrow> nat \<Rightarrow> event_key option \<Rightarrow> jval list \<Rightarrow> bool \<Rightarrow> event_page" where
  "event_page_of lc i pageSize boundary rows truncated =
     (let el = eligible lc boundary rows;
          pageStart = length el - pageSize;
          page = drop pageStart el;
          hasMore = 0 < pageStart
      in \<lparr>pg_events = map publicInvocationEvent page,
          pg_nextCursor = (if hasMore \<and> page \<noteq> [] then Some (encodeCursor i (key_of (publicInvocationEvent (hd page)))) else None),
          pg_hasMore = hasMore, pg_retentionTruncated = truncated\<rparr>)"

text \<open>\<open>None\<close> is the thrown \<open>invalid_cursor\<close>; \<open>stamp\<close> renders the time stamps of the hot rows.\<close>

definition listInvocationEvents ::
    "(string \<Rightarrow> string \<Rightarrow> int) \<Rightarrow> (instant \<Rightarrow> string) \<Rightarrow> archive_read \<Rightarrow> invocation \<Rightarrow> string option \<Rightarrow> int option
     \<Rightarrow> 'a core_scheme \<Rightarrow> event_page option" where
  "listInvocationEvents lc stamp archive v before limit st =
     (let i = inv_id v;
          pageSize = clampPageSize limit;
          hot = map (row_val stamp) (events st);
          rows = allEvents lc i (ar_entries archive) hot;
          invalid = snd (merge_archive i (ar_entries archive) [] 0);
          truncated = invocationHistoryTruncated v rows (event_retention st) archive invalid
      in case before of
           None \<Rightarrow> Some (event_page_of lc i pageSize None rows truncated)
         | Some c \<Rightarrow>
             (case decodeCursor c i of
                None \<Rightarrow> None
              | Some b \<Rightarrow> Some (event_page_of lc i pageSize (Some b) rows truncated)))"

section \<open>The order is a comparator\<close>

text \<open>What \<open>localeCompare\<close> is documented to be: antisymmetric in sign and transitive.\<close>

definition collates :: "(string \<Rightarrow> string \<Rightarrow> int) \<Rightarrow> bool" where
  "collates lc \<longleftrightarrow> (\<forall>x y. lc x y < 0 \<longleftrightarrow> 0 < lc y x) \<and> (\<forall>x y z. lc x y \<le> 0 \<longrightarrow> lc y z \<le> 0 \<longrightarrow> lc x z \<le> 0)"

lemma collates_total: "collates lc \<Longrightarrow> lc x y \<le> 0 \<or> lc y x \<le> 0"
  unfolding collates_def by (metis less_imp_le not_le)

definition ordinal_class :: "jval \<Rightarrow> int" where
  "ordinal_class v = (if event_ordinal (row_id v) = None then 1 else 0)"

definition ordinal_value :: "jval \<Rightarrow> int" where
  "ordinal_value v = int (coalesce (event_ordinal (row_id v)) 0)"

definition time_le :: "(string \<Rightarrow> string \<Rightarrow> int) \<Rightarrow> jval \<Rightarrow> jval \<Rightarrow> bool" where
  "time_le lc l r \<longleftrightarrow> lc (ek_createdAt (key_of l)) (ek_createdAt (key_of r)) < 0
     \<or> lc (ek_createdAt (key_of l)) (ek_createdAt (key_of r)) = 0 \<and> lc (row_id l) (row_id r) \<le> 0"

lemma time_comparator: "collates lc \<Longrightarrow> comparator (time_le lc)"
proof
  fix x y z
  assume c: "collates lc"
  then have s: "lc a b < 0 \<longleftrightarrow> 0 < lc b a" and t: "lc a b \<le> 0 \<Longrightarrow> lc b d \<le> 0 \<Longrightarrow> lc a d \<le> 0" for a b d
    unfolding collates_def by blast+
  show "time_le lc x y \<or> time_le lc y x"
    using collates_total [OF c] s unfolding time_le_def by (metis linorder_neqE_linordered_idom)
  show "time_le lc x y \<Longrightarrow> time_le lc y z \<Longrightarrow> time_le lc x z"
    using s t unfolding time_le_def by (smt (verit, best))
qed

lemma before_eq_keys: "collates lc \<Longrightarrow> before_eq lc = key_then ordinal_class (key_then ordinal_value (time_le lc))"
  by (intro ext) (auto simp: before_eq_def compareEvents_def compareEventOrdinals_def key_then_def ordinal_class_def
    ordinal_value_def time_le_def key_of_def Let_def split: option.splits)

lemma before_eq_comparator: "collates lc \<Longrightarrow> comparator (before_eq lc)"
  by (simp add: before_eq_keys key_then_comparator time_comparator)

lemma ordinals_swap: "compareEventOrdinals r l = - compareEventOrdinals l r"
  by (auto simp: compareEventOrdinals_def split: option.splits)

lemma compare_swap:
  assumes "collates lc"
  shows "compareEvents lc l r < 0 \<longleftrightarrow> 0 < compareEvents lc r l"
proof -
  have s: "lc a b < 0 \<longleftrightarrow> 0 < lc b a" for a b using assms unfolding collates_def by blast
  have "lc a b = 0 \<longleftrightarrow> lc b a = 0" for a b using s [of a b] s [of b a] by linarith
  then show ?thesis
    using s by (simp add: compareEvents_def Let_def ordinals_swap [of "ek_id r"])
qed

section \<open>Cursors read back\<close>

lemma key_of_public [simp]: "key_of (publicInvocationEvent v) = key_of v"
  by (simp add: key_of_def row_id_def publicInvocationEvent_def)

lemma decode_encode:
  assumes "length (encodeCursor i k) \<le> MAX_CURSOR_LENGTH" and "ek_createdAt k \<noteq> []" and "ek_id k \<noteq> []"
  shows "decodeCursor (encodeCursor i k) i = Some k"
proof -
  have "json_ok (cursor_json i k)" by (simp add: cursor_json_def)
  then have p: "parse (stringify (cursor_json i k)) = Some (of_json (cursor_json i k))" by (rule parse_stringify)
  have "encodeCursor i k \<noteq> []"
    unfolding encodeCursor_def by (rule base64url_nonempty) (simp add: cursor_json_def)
  moreover have "\<not> list_ex (\<lambda>c. b64_val c = None) (encodeCursor i k)"
    using base64url_alphabet [of "stringify (cursor_json i k)"] by (auto simp: encodeCursor_def list_ex_iff list_all_iff)
  ultimately show ?thesis
    using assms p by (simp add: decodeCursor_def encodeCursor_def base64url_round) (simp add: cursor_json_def)
qed

section \<open>Rows of the history\<close>

definition rows_ok :: "string \<Rightarrow> (string \<times> jval) list \<Rightarrow> bool" where
  "rows_ok i m \<longleftrightarrow> distinct (map fst m) \<and> (\<forall>(k, v) \<in> set m. k = row_id v \<and> isInvocationEvent v i)"

lemma rows_ok_set: "rows_ok i m \<Longrightarrow> isInvocationEvent v i \<Longrightarrow> rows_ok i (assoc_set (row_id v) v m)"
  using assoc_set_range [of "row_id v" v m] unfolding rows_ok_def by fastforce

lemma merge_archive_ok: "rows_ok i m \<Longrightarrow> rows_ok i (fst (merge_archive i vs m bad))"
  by (induction i vs m bad rule: merge_archive.induct) (simp_all add: rows_ok_set)

lemma merge_hot_ok: "rows_ok i m \<Longrightarrow> rows_ok i (merge_hot i vs m)"
  by (induction i vs m rule: merge_hot.induct) (simp_all add: rows_ok_set)

lemma allEvents_ok: "distinct (map row_id (allEvents lc i archived hot))"
  "\<forall>v \<in> set (allEvents lc i archived hot). isInvocationEvent v i"
proof -
  let ?m = "merge_hot i hot (fst (merge_archive i archived [] 0))"
  have ok: "rows_ok i ?m" by (intro merge_hot_ok merge_archive_ok) (simp add: rows_ok_def)
  then have eq: "map row_id (map snd ?m) = map fst ?m" by (auto simp: rows_ok_def)
  have "distinct (map row_id (map snd ?m))" unfolding eq using ok by (simp add: rows_ok_def)
  then show "distinct (map row_id (allEvents lc i archived hot))"
    unfolding allEvents_def distinct_map_sort_by .
  show "\<forall>v \<in> set (allEvents lc i archived hot). isInvocationEvent v i"
    using ok by (auto simp: allEvents_def rows_ok_def)
qed

lemma event_row_id: "isInvocationEvent v i \<Longrightarrow> ek_id (key_of v) \<noteq> []"
  by (auto simp: isInvocationEvent_def key_of_def row_id_def split: jval.splits)

section \<open>Walking the pages\<close>

primrec history_walk :: "nat \<Rightarrow> (string option \<Rightarrow> event_page option) \<Rightarrow> string option \<Rightarrow> jval list" where
  "history_walk 0 page c = []"
| "history_walk (Suc n) page c =
     (case page c of
        None \<Rightarrow> []
      | Some p \<Rightarrow>
          (case pg_nextCursor p of None \<Rightarrow> [] | Some c' \<Rightarrow> history_walk n page (Some c')) @ pg_events p)"

text \<open>Rows in strict order: the rows before the \<open>k\<close>-th are those its cursor selects.\<close>

definition strict_rows :: "(string \<Rightarrow> string \<Rightarrow> int) \<Rightarrow> jval list \<Rightarrow> bool" where
  "strict_rows lc rows \<longleftrightarrow> sorted_wrt (\<lambda>l r. compareEvents lc (key_of l) (key_of r) < 0) rows"

lemma eligible_take:
  assumes "collates lc" and "strict_rows lc rows" and "k < length rows"
  shows "eligible lc (Some (key_of (rows ! k))) rows = take k rows"
proof -
  let ?lt = "\<lambda>l r. compareEvents lc (key_of l) (key_of r) < 0"
  have lt: "?lt (rows ! a) (rows ! b)" if "a < b" "b < length rows" for a b
    using assms(2) that unfolding strict_rows_def sorted_wrt_iff_nth_less by blast
  have "\<not> ?lt (rows ! a) (rows ! k)" if "k \<le> a" "a < length rows" for a
  proof (cases "a = k")
    case True
    then show ?thesis using compare_swap [OF assms(1), of "key_of (rows ! k)" "key_of (rows ! k)"]
      by (metis less_asym)
  next
    case False
    then have "?lt (rows ! k) (rows ! a)" using that by (intro lt) auto
    then show ?thesis using compare_swap [OF assms(1), of "key_of (rows ! k)" "key_of (rows ! a)"] by simp
  qed
  then have "filter (\<lambda>e. ?lt e (rows ! k)) (drop k rows) = []"
    by (auto simp: filter_empty_conv in_set_conv_nth)
  moreover have "filter (\<lambda>e. ?lt e (rows ! k)) (take k rows) = take k rows"
    using lt [of _ k] assms(3) by (auto simp: filter_id_conv in_set_conv_nth)
  ultimately have "filter (\<lambda>e. ?lt e (rows ! k)) (take k rows @ drop k rows) = take k rows"
    by (simp only: filter_append append_Nil2)
  then show ?thesis by (simp add: eligible_def)
qed

lemma allEvents_strict:
  assumes "collates lc"
    and "\<forall>l \<in> set (allEvents lc i archived hot). \<forall>r \<in> set (allEvents lc i archived hot).
           compareEvents lc (key_of l) (key_of r) = 0 \<longrightarrow> row_id l = row_id r"
  shows "strict_rows lc (allEvents lc i archived hot)"
proof -
  let ?rows = "allEvents lc i archived hot"
  have sorted: "sorted_wrt (before_eq lc) ?rows"
    unfolding allEvents_def by (rule comparator.sorted_sort [OF before_eq_comparator [OF assms(1)]])
  have "compareEvents lc (key_of (?rows ! a)) (key_of (?rows ! b)) < 0" if "a < b" "b < length ?rows" for a b
  proof -
    have "row_id (?rows ! a) \<noteq> row_id (?rows ! b)"
      using allEvents_ok(1) [of lc i archived hot] that by (simp add: distinct_conv_nth)
    moreover have "?rows ! a \<in> set ?rows" "?rows ! b \<in> set ?rows" using that by simp_all
    ultimately have "compareEvents lc (key_of (?rows ! a)) (key_of (?rows ! b)) \<noteq> 0" using assms(2) by blast
    moreover have "before_eq lc (?rows ! a) (?rows ! b)"
      using sorted that unfolding sorted_wrt_iff_nth_less by blast
    ultimately show ?thesis by (simp add: before_eq_def)
  qed
  then show ?thesis unfolding strict_rows_def sorted_wrt_iff_nth_less by blast
qed

text \<open>The page at a cursor, over rows in strict order whose cursors can be read back.\<close>

definition page_at :: "(string \<Rightarrow> string \<Rightarrow> int) \<Rightarrow> string \<Rightarrow> nat \<Rightarrow> jval list \<Rightarrow> bool \<Rightarrow> string option \<Rightarrow> event_page option" where
  "page_at lc i pageSize rows tr c =
     (case c of
        None \<Rightarrow> Some (event_page_of lc i pageSize None rows tr)
      | Some s \<Rightarrow> map_option (\<lambda>b. event_page_of lc i pageSize (Some b) rows tr) (decodeCursor s i))"

definition cursor_of :: "string \<Rightarrow> jval list \<Rightarrow> nat \<Rightarrow> string option" where
  "cursor_of i rows k = (if k < length rows then Some (encodeCursor i (key_of (rows ! k))) else None)"

lemma page_at_cursor:
  assumes "collates lc" and "strict_rows lc rows" and "k \<le> length rows"
    and "\<forall>r \<in> set rows. decodeCursor (encodeCursor i (key_of r)) i = Some (key_of r)"
  shows "page_at lc i pageSize rows tr (cursor_of i rows k) = Some
    \<lparr>pg_events = map publicInvocationEvent (drop (k - pageSize) (take k rows)),
     pg_nextCursor = (if pageSize < k \<and> 0 < pageSize then cursor_of i rows (k - pageSize) else None),
     pg_hasMore = pageSize < k, pg_retentionTruncated = tr\<rparr>"
proof -
  have el: "eligible lc b rows = take k rows"
    if "b = (if k < length rows then Some (key_of (rows ! k)) else None)" for b
    using eligible_take [OF assms(1,2)] that assms(3) by (auto simp: eligible_def)
  have page: "page_at lc i pageSize rows tr (cursor_of i rows k)
      = Some (event_page_of lc i pageSize (if k < length rows then Some (key_of (rows ! k)) else None) rows tr)"
    using assms(4) by (simp add: page_at_def cursor_of_def)
  have len: "length (take k rows) = k" using assms(3) by simp
  have first: "hd (drop (k - pageSize) (take k rows)) = rows ! (k - pageSize)" if "pageSize < k" "0 < pageSize"
    using that assms(3) by (simp add: hd_drop_conv_nth)
  show ?thesis
    unfolding page using assms(3) first
    by (auto simp: event_page_of_def el len Let_def cursor_of_def)
qed

lemma walk_pages:
  assumes "collates lc" and "strict_rows lc rows" and "0 < pageSize"
    and "\<forall>r \<in> set rows. decodeCursor (encodeCursor i (key_of r)) i = Some (key_of r)"
  shows "k \<le> length rows \<Longrightarrow> k \<le> n * pageSize \<Longrightarrow> 0 < n \<Longrightarrow>
    history_walk n (page_at lc i pageSize rows tr) (cursor_of i rows k) = map publicInvocationEvent (take k rows)"
proof (induction n arbitrary: k)
  case (Suc n)
  note page = page_at_cursor [OF assms(1,2) Suc.prems(1) assms(4), of pageSize tr]
  show ?case
  proof (cases "pageSize < k")
    case True
    then have "history_walk n (page_at lc i pageSize rows tr) (cursor_of i rows (k - pageSize))
        = map publicInvocationEvent (take (k - pageSize) rows)"
      using Suc.prems by (intro Suc.IH) (auto intro: Suc_leI gr0I)
    moreover have "cursor_of i rows (k - pageSize) \<noteq> None" using True Suc.prems(1) assms(3) by (simp add: cursor_of_def)
    moreover have "take (k - pageSize) rows @ drop (k - pageSize) (take k rows) = take k rows"
      by (metis append_take_drop_id diff_le_self min.absorb1 take_take)
    ultimately show ?thesis using True assms(3) page by (auto simp flip: map_append)
  next
    case False
    then show ?thesis using page by simp
  qed
qed simp

lemma list_page_at:
  "(\<lambda>c. listInvocationEvents lc stamp archive v c limit st) =
   page_at lc (inv_id v) (clampPageSize limit) (allEvents lc (inv_id v) (ar_entries archive) (map (row_val stamp) (events st)))
     (invocationHistoryTruncated v (allEvents lc (inv_id v) (ar_entries archive) (map (row_val stamp) (events st)))
        (event_retention st) archive (snd (merge_archive (inv_id v) (ar_entries archive) [] 0)))"
  by (intro ext) (simp add: listInvocationEvents_def page_at_def Let_def split: option.split)

lemma merge_archive_mono: "k \<in> fst ` set m \<Longrightarrow> k \<in> fst ` set (fst (merge_archive i vs m bad))"
  by (induction i vs m bad rule: merge_archive.induct) simp_all

lemma merge_archive_in:
  "v \<in> set vs \<Longrightarrow> isInvocationEvent v i \<Longrightarrow> row_id v \<in> fst ` set (fst (merge_archive i vs m bad))"
proof (induction i vs m bad rule: merge_archive.induct)
  case (2 i w vs m bad)
  have "row_id w \<in> fst ` set (if map_of m (row_id w) = None then assoc_set (row_id w) w m else m)"
    by (auto simp: map_of_eq_None_iff)
  note merge_archive_mono [OF this, of i vs bad]
  with 2 show ?case by (cases "isInvocationEvent w i"; cases "v = w") simp_all
qed simp

lemma merge_hot_mono: "k \<in> fst ` set m \<Longrightarrow> k \<in> fst ` set (merge_hot i vs m)"
  by (induction i vs m rule: merge_hot.induct) simp_all

lemma merge_hot_in: "v \<in> set vs \<Longrightarrow> isInvocationEvent v i \<Longrightarrow> row_id v \<in> fst ` set (merge_hot i vs m)"
  by (induction i vs m rule: merge_hot.induct) (auto intro: merge_hot_mono)

lemma history_has:
  assumes "isInvocationEvent w i" and "w \<in> set archived \<or> w \<in> set hot"
  shows "\<exists>r \<in> set (allEvents lc i archived hot). row_id r = row_id w"
proof -
  let ?m = "merge_hot i hot (fst (merge_archive i archived [] 0))"
  have "row_id w \<in> fst ` set ?m"
    using assms merge_archive_in merge_hot_in merge_hot_mono by metis
  then obtain r where r: "(row_id w, r) \<in> set ?m" by auto
  have "rows_ok i ?m" by (intro merge_hot_ok merge_archive_ok) (simp add: rows_ok_def)
  with r have "row_id r = row_id w" by (auto simp: rows_ok_def)
  moreover have "r \<in> set (allEvents lc i archived hot)" using r by (force simp: allEvents_def)
  ultimately show ?thesis by blast
qed

lemma event_row: "ev_id x \<noteq> [] \<Longrightarrow> ev_invocationId x = Some i \<Longrightarrow>
    isInvocationEvent (row_val stamp x) i \<and> row_id (row_val stamp x) = ev_id x"
  by (simp add: isInvocationEvent_def row_val_def event_json_def row_id_def)

lemma accounted_events: "ev_invocationId x = Some i \<Longrightarrow> i \<noteq> [] \<Longrightarrow> accounted x st \<Longrightarrow> accounted x (append_events t es st)"
  by (induction t es st rule: append_events.induct) (simp_all add: accounted_append)

section \<open>The properties\<close>

text \<open>C14: following \<open>nextCursor\<close> from the newest page backwards returns every event of the invocation exactly
  once and in order, the pages being disjoint windows of the merged history; each cursor the server hands
  out is read back as the row it names, no page is larger than asked, and \<open>hasMore\<close> says whether a cursor
  follows.  The order must tell the rows apart, and a cursor must fit the 2048 characters the reader
  accepts.\<close>

theorem history_pages_partition:
  assumes "collates lc"
    and rows: "rows = allEvents lc (inv_id v) (ar_entries archive) (map (row_val stamp) (events st))"
    and "\<forall>l \<in> set rows. \<forall>r \<in> set rows. compareEvents lc (key_of l) (key_of r) = 0 \<longrightarrow> row_id l = row_id r"
    and fit: "\<forall>r \<in> set rows. ek_createdAt (key_of r) \<noteq> []
           \<and> length (encodeCursor (inv_id v) (key_of r)) \<le> MAX_CURSOR_LENGTH"
    and "length rows \<le> n * clampPageSize limit" and "0 < n"
  shows "history_walk n (\<lambda>c. listInvocationEvents lc stamp archive v c limit st) None = map publicInvocationEvent rows
    \<and> distinct (map row_id rows)
    \<and> sorted_wrt (\<lambda>l r. compareEvents lc (key_of l) (key_of r) < 0) rows
    \<and> (\<forall>k < length rows. \<exists>p. listInvocationEvents lc stamp archive v (Some (encodeCursor (inv_id v) (key_of (rows ! k)))) limit st = Some p
        \<and> pg_events p = map publicInvocationEvent (drop (k - clampPageSize limit) (take k rows))
        \<and> length (pg_events p) \<le> clampPageSize limit \<and> (pg_hasMore p \<longleftrightarrow> pg_nextCursor p \<noteq> None))"
proof -
  have strict: "strict_rows lc rows" unfolding rows by (rule allEvents_strict [OF assms(1)]) (use assms(3) rows in blast)
  have pos: "0 < clampPageSize limit"
    by (auto simp: clampPageSize_def DEFAULT_PAGE_SIZE_def split: option.split)
  have valid: "\<forall>r \<in> set rows. isInvocationEvent r (inv_id v)" unfolding rows by (rule allEvents_ok(2))
  have rd: "\<forall>r \<in> set rows. decodeCursor (encodeCursor (inv_id v) (key_of r)) (inv_id v) = Some (key_of r)"
    using fit valid event_row_id decode_encode by blast
  note pages = list_page_at [of lc stamp archive v limit st, folded rows]
  have "history_walk n (\<lambda>c. listInvocationEvents lc stamp archive v c limit st) None = map publicInvocationEvent rows"
    unfolding pages
    using walk_pages [OF assms(1) strict pos rd le_refl assms(5,6)] by (simp add: cursor_of_def)
  moreover have "\<exists>p. listInvocationEvents lc stamp archive v (Some (encodeCursor (inv_id v) (key_of (rows ! k)))) limit st = Some p
        \<and> pg_events p = map publicInvocationEvent (drop (k - clampPageSize limit) (take k rows))
        \<and> length (pg_events p) \<le> clampPageSize limit \<and> (pg_hasMore p \<longleftrightarrow> pg_nextCursor p \<noteq> None)"
    if "k < length rows" for k
    unfolding fun_cong [OF pages]
    using page_at_cursor [OF assms(1) strict less_imp_le [OF that] rd, of "clampPageSize limit"] that pos
      less_imp_diff_less [OF that, of "clampPageSize limit"]
    by (simp add: cursor_of_def)
  ultimately show ?thesis
    using strict allEvents_ok(1) [of lc "inv_id v" "ar_entries archive"] by (simp add: strict_rows_def rows)
qed

text \<open>An event that was appended for an invocation is found in its history after any number of further
  appends, or the history says it was truncated, as long as the archive returns the rows it stored.\<close>

theorem event_history_complete:
  assumes "ei_invocationId e = Some (inv_id v)" and "inv_id v \<noteq> []"
    and st': "st' = append_events t' es (append_event t e st)"
    and stored: "\<forall>x \<in> set (event_archive st'). ev_invocationId x = Some (inv_id v) \<longrightarrow> row_val stamp x \<in> set (ar_entries archive)"
    and p: "listInvocationEvents lc stamp archive v None limit st' = Some p"
  shows "\<exists>x \<in> set (events (append_event t e st)). ev_type x = ei_type e \<and> ev_id x \<notin> set (issued_ids st)
    \<and> (pg_retentionTruncated p
       \<or> (\<exists>r \<in> set (allEvents lc (inv_id v) (ar_entries archive) (map (row_val stamp) (events st'))). row_id r = ev_id x))"
proof -
  let ?x = "event_record t e (fst (next_id ''evt_demo'' st)) st"
  have x: "?x \<in> set (events (append_event t e st))"
    by (simp add: events_append_event push_cap_def EVENT_HOT_LIMIT_def)
  have fresh: "ev_id ?x \<notin> set (issued_ids st)" and inv: "ev_invocationId ?x = Some (inv_id v)" and ty: "ev_type ?x = ei_type e"
    using next_id_fresh [of "''evt_demo''" st] assms(1) by (simp_all add: event_record_def Let_def)
  have "ev_id ?x \<noteq> []"
    by (simp add: event_record_def Let_def next_id_def id_of_def)
  note row = event_row [OF this inv, of stamp]
  have "accounted ?x st'" unfolding st'
    by (rule accounted_events [OF inv assms(2)]) (use x in \<open>simp add: accounted_def\<close>)
  then consider "?x \<in> set (events st')" | "?x \<in> set (event_archive st')" | "history_truncated ?x (event_retention st')"
    by (auto simp: accounted_def)
  then have "pg_retentionTruncated p \<or> (\<exists>r \<in> set (allEvents lc (inv_id v) (ar_entries archive) (map (row_val stamp) (events st'))).
      row_id r = ev_id ?x)"
  proof cases
    case 1
    then show ?thesis using history_has [of "row_val stamp ?x" "inv_id v" _ "map (row_val stamp) (events st')"] row by auto
  next
    case 2
    then have "row_val stamp ?x \<in> set (ar_entries archive)" using stored inv by blast
    then show ?thesis using history_has [of "row_val stamp ?x" "inv_id v" "ar_entries archive"] row by auto
  next
    case 3
    then have "pg_retentionTruncated p"
      using p inv by (auto simp: listInvocationEvents_def event_page_of_def invocationHistoryTruncated_def
          history_truncated_def Let_def)
    then show ?thesis ..
  qed
  with x fresh ty show ?thesis by blast
qed

section \<open>Witnesses\<close>

definition no_archive :: archive_read where
  "no_archive = \<lparr>ar_entries = [], ar_malformed = 0, ar_readError = None\<rparr>"

definition second_event :: event where
  "second_event = first_event\<lparr>ev_id := ''evt_2''\<rparr>"

definition two_events :: core where
  "two_events = \<lparr>id_counter = 3, issued_ids = [''evt_1'', ''evt_2''], invocations = [],
     events = [second_event, first_event], event_archive = [],
     event_retention = \<lparr>ret_truncatedIds = [], ret_globalTruncated = False, ret_lastErrorAt = None, ret_lastError = None\<rparr>,
     event_archiver = (\<lambda>rows. ArchiveOk)\<rparr>"

lemma merged_rows: "snd ` set (merge_hot i vs m) \<subseteq> snd ` set m \<union> set vs"
proof (induction i vs m rule: merge_hot.induct)
  case (2 i v vs m)
  have "snd ` set (if isInvocationEvent v i then assoc_set (row_id v) v m else m) \<subseteq> insert v (snd ` set m)"
    using assoc_set_range [of "row_id v" v m] by auto
  then show ?case unfolding merge_hot.simps list.set by (intro order_trans [OF 2]) blast
qed simp

lemma two_rows: "set (allEvents lc i [] (map (row_val stamp) (events two_events)))
    \<subseteq> {row_val stamp first_event, row_val stamp second_event}"
  using merged_rows [of i "map (row_val stamp) (events two_events)" "[]"]
  by (auto simp: allEvents_def two_events_def)

lemma row_keys: "row_id (row_val stamp e) = ev_id e" "key_of (row_val stamp e) = \<lparr>ek_createdAt = stamp (ev_createdAt e), ek_id = ev_id e\<rparr>"
  by (simp_all add: row_id_def key_of_def row_val_def event_json_def)

lemma length_base64url: "3 * length (base64url s) \<le> 8 * length s + 8"
proof -
  have "length (utf8 s) \<le> 2 * length s" by (induction s) (simp_all add: Let_def)
  moreover have "3 * length (b64_enc bs) \<le> 4 * length bs + 8" for bs
    by (induction bs rule: b64_enc.induct) simp_all
  from this [of "utf8 s"] have "3 * length (base64url s) \<le> 4 * length (utf8 s) + 8" by (simp add: base64url_def)
  ultimately show ?thesis by linarith
qed

lemma length_str_string: "length (str_string s) \<le> 6 * length s + 2"
proof -
  have "length (esc_char c) \<le> 6" for c by (simp add: esc_char_def Let_def)
  then have "length (concat (map esc_char s)) \<le> 6 * length s"
    by (induction s) (simp_all add: add_mono)
  then show ?thesis by (simp add: str_string_def)
qed

text \<open>A cursor fits when the ids and the time stamp are of usual length.\<close>

lemma cursor_fits:
  assumes "length i + length (ek_createdAt k) + length (ek_id k) \<le> 60"
  shows "length (encodeCursor i k) \<le> MAX_CURSOR_LENGTH"
proof -
  have "length (stringify (cursor_json i k)) \<le> 600"
    using assms length_str_string [of i] length_str_string [of "ek_createdAt k"] length_str_string [of "ek_id k"]
      length_str_string [of "''v''"] length_str_string [of "''invocationId''"] length_str_string [of "''createdAt''"]
      length_str_string [of "''id''"]
    by (simp add: cursor_json_def CURSOR_VERSION_def show_int_def show_nat.simps)
  then show ?thesis
    using length_base64url [of "stringify (cursor_json i k)"] by (simp add: encodeCursor_def MAX_CURSOR_LENGTH_def)
qed

lemma demo_ordinals: "compareEventOrdinals ''evt_1'' ''evt_2'' = -1"
  by (simp add: compareEventOrdinals_def event_ordinal_def trailing_digits_def dec_digit_def read_nat_def)

theorem history_pages_partition_witness:
  "history_walk 2 (\<lambda>c. listInvocationEvents (\<lambda>_ _. 0) (\<lambda>t. ''now'') no_archive (demo_inv ''inv_1'' Queued DQueued 0) c (Some 1) two_events) None
   = map publicInvocationEvent (allEvents (\<lambda>_ _. 0) ''inv_1'' [] (map (row_val (\<lambda>t. ''now'')) (events two_events)))"
proof -
  let ?v = "demo_inv ''inv_1'' Queued DQueued 0" and ?stamp = "\<lambda>t :: instant. ''now''" and ?lc = "\<lambda>(_ :: string) (_ :: string). 0 :: int"
  let ?rows = "allEvents ?lc (inv_id ?v) (ar_entries no_archive) (map (row_val ?stamp) (events two_events))"
  have sub: "set ?rows \<subseteq> {row_val ?stamp first_event, row_val ?stamp second_event}"
    using two_rows by (simp add: no_archive_def)
  have ids: "ev_id first_event = ''evt_1''" "ev_id second_event = ''evt_2''"
    by (simp_all add: first_event_def second_event_def)
  have "card (row_id ` set ?rows) \<le> card {''evt_1'', ''evt_2''}"
    by (rule card_mono) (use sub ids row_keys(1) in auto)
  then have len: "length ?rows \<le> 2 * clampPageSize (Some 1)"
    using distinct_card [OF allEvents_ok(1) [of ?lc "inv_id ?v" "ar_entries no_archive" "map (row_val ?stamp) (events two_events)"]]
    by (simp add: clampPageSize_def MAX_PAGE_SIZE_def)
  have ord: "\<forall>l \<in> set ?rows. \<forall>r \<in> set ?rows. compareEvents ?lc (key_of l) (key_of r) = 0 \<longrightarrow> row_id l = row_id r"
  proof (intro ballI impI)
    fix l r assume "l \<in> set ?rows" "r \<in> set ?rows" and c: "compareEvents ?lc (key_of l) (key_of r) = 0"
    then have "l \<in> {row_val ?stamp first_event, row_val ?stamp second_event}"
      "r \<in> {row_val ?stamp first_event, row_val ?stamp second_event}" using sub by blast+
    then show "row_id l = row_id r" using c ordinals_swap [of "''evt_2''" "''evt_1''"] demo_ordinals
      by (auto simp: row_keys ids compareEvents_def Let_def)
  qed
  have fit: "\<forall>r \<in> set ?rows. ek_createdAt (key_of r) \<noteq> [] \<and> length (encodeCursor (inv_id ?v) (key_of r)) \<le> MAX_CURSOR_LENGTH"
    using sub by (auto simp: row_keys ids intro!: cursor_fits)
  have lc: "collates ?lc" by (simp add: collates_def)
  show ?thesis
    using conjunct1 [OF history_pages_partition [OF lc refl ord fit len]] by (simp add: no_archive_def)
qed

theorem event_history_complete_witness:
  "\<exists>p. listInvocationEvents (\<lambda>_ _. 0) (\<lambda>t. ''now'') no_archive (demo_inv ''inv_1'' Queued DQueued 0) None None
       (append_events 9 [] (append_event 8 (mk_ev (Some ''inv_1'') ''log'' ''info'' ''x'' JNull) two_events)) = Some p
     \<and> (\<exists>x \<in> set (events (append_event 8 (mk_ev (Some ''inv_1'') ''log'' ''info'' ''x'' JNull) two_events)). ev_type x = ''log'')"
proof -
  let ?e = "mk_ev (Some ''inv_1'') ''log'' ''info'' ''x'' JNull" and ?v = "demo_inv ''inv_1'' Queued DQueued 0"
  let ?st = "append_events 9 [] (append_event 8 ?e two_events)"
  obtain p where p: "listInvocationEvents (\<lambda>_ _. 0) (\<lambda>t. ''now'') no_archive ?v None None ?st = Some p"
    by (simp add: listInvocationEvents_def Let_def)
  have "event_archive ?st = []"
    by (simp add: append_event_def log_push_def two_events_def overflow_def EVENT_HOT_LIMIT_def case_prod_beta)
  then have "\<forall>x \<in> set (event_archive ?st). ev_invocationId x = Some (inv_id ?v) \<longrightarrow> row_val (\<lambda>t. ''now'') x \<in> set (ar_entries no_archive)"
    by simp
  from event_history_complete [OF _ _ refl this p] p show ?thesis by auto
qed

end
