(* ===== verification/Grants.thy ===== *)
theory Grants
  imports Metering JsText
begin

text \<open>
  services/approval-grants.mjs: issued, single-use approval tokens bound to an action and a target, with the
  fallback for free text.  Only the hash of a token is kept (\<open>digest\<close>); the random token of a mint is an
  argument.  \<open>ag_archived\<close> is what was handed to the archive of evicted rows, newest first.
\<close>

section \<open>State\<close>

record grant =
  gr_id :: string
  gr_tokenHash :: string
  gr_action :: string
  gr_targetId :: string
  gr_issuedBy :: string
  gr_teamId :: "string option"
  gr_sourceDecisionId :: "string option"
  gr_issuedAt :: instant
  gr_expiresAt :: instant
  gr_consumedAt :: "instant option"
  gr_consumedBy :: "string option"

record grant_tables =
  ag_grants :: "grant list"
  ag_archived :: "grant list"
  ag_legacyUses :: "(nat \<times> instant) option"
  ag_requireIssued :: bool

type_synonym 'a ag_server = "'a grant_tables_scheme server"

definition upd_ag :: "('a grant_tables_scheme \<Rightarrow> 'a grant_tables_scheme) \<Rightarrow> 'a ag_server \<Rightarrow> 'a ag_server" where
  "upd_ag f st = st\<lparr>world := f (world st)\<rparr>"

abbreviation grants :: "'a ag_server \<Rightarrow> grant list" where
  "grants st \<equiv> ag_grants (world st)"

definition GRANT_TTL_MS :: int where "GRANT_TTL_MS = 10 * 60 * 1000"
definition MAX_GRANTS :: nat where "MAX_GRANTS = 200"

definition isSystemActor :: "actor option \<Rightarrow> bool" where
  "isSystemActor a \<longleftrightarrow> (case Option.bind a ac_userId of None \<Rightarrow> False | Some u \<Rightarrow> starts_with u ''system'')"

section \<open>Minting\<close>

definition keepable :: "instant \<Rightarrow> grant \<Rightarrow> bool" where
  "keepable t g \<longleftrightarrow> gr_consumedAt g \<noteq> None \<or> t < gr_expiresAt g"

definition pruneGrants :: "instant \<Rightarrow> 'a ag_server \<Rightarrow> 'a ag_server" where
  "pruneGrants t st =
     (let kept = filter (keepable t) (grants st);
          evicted = filter (\<lambda>g. \<not> keepable t g) (grants st) @ drop MAX_GRANTS kept
      in upd_ag (\<lambda>w. w\<lparr>ag_archived := evicted @ ag_archived w, ag_grants := take MAX_GRANTS kept\<rparr>) st)"

definition new_grant ::
    "(string \<Rightarrow> string) \<Rightarrow> instant \<Rightarrow> string \<Rightarrow> string \<Rightarrow> string \<Rightarrow> string \<Rightarrow> string \<Rightarrow> string option \<Rightarrow> string option \<Rightarrow> grant" where
  "new_grant digest t i token action target by team source =
     \<lparr>gr_id = i, gr_tokenHash = digest token, gr_action = action, gr_targetId = target, gr_issuedBy = by,
      gr_teamId = team, gr_sourceDecisionId = source, gr_issuedAt = t, gr_expiresAt = t + GRANT_TTL_MS,
      gr_consumedAt = None, gr_consumedBy = None\<rparr>"

datatype grant_refusal = SystemActor | InvalidGrantRequest

definition issueApprovalGrant ::
    "(string \<Rightarrow> string) \<Rightarrow> instant \<Rightarrow> string \<Rightarrow> string option \<Rightarrow> string option \<Rightarrow> actor option
     \<Rightarrow> 'a ag_server \<Rightarrow> (grant_refusal + grant) \<times> 'a ag_server" where
  "issueApprovalGrant digest t token action targetId actor st =
     (let a = js_trim (coalesce action []); tg = js_trim (coalesce targetId [])
      in if isSystemActor actor then (Inl SystemActor, st)
         else if a = [] \<or> tg = [] then (Inl InvalidGrantRequest, st)
         else (let (i, st1) = next_id ''apg'' (pruneGrants t st);
                   g = new_grant digest t i token a tg (actor_user actor) (actor_team actor) None
               in (Inr g, upd_ag (\<lambda>w. w\<lparr>ag_grants := g # ag_grants w\<rparr>) st1)))"

definition mintDecisionGrant ::
    "(string \<Rightarrow> string) \<Rightarrow> instant \<Rightarrow> string \<Rightarrow> string \<Rightarrow> string \<Rightarrow> string option \<Rightarrow> string option \<Rightarrow> string option
     \<Rightarrow> 'a ag_server \<Rightarrow> 'a ag_server" where
  "mintDecisionGrant digest t token action targetId source decidedBy team st =
     (let (i, st1) = next_id ''apg'' (pruneGrants t st);
          g = new_grant digest t i token action targetId (coalesce decidedBy ''usr_local'') team source
      in upd_ag (\<lambda>w. w\<lparr>ag_grants := g # ag_grants w\<rparr>) st1)"

section \<open>Validating\<close>

datatype approval =
    NotApproved "string option" string "string option"
  | ApprovedByGrant string
  | ApprovedLegacy

definition grant_obstacle :: "instant \<Rightarrow> string option \<Rightarrow> string option \<Rightarrow> actor option \<Rightarrow> grant \<Rightarrow> string option" where
  "grant_obstacle t action targetId actor g =
     (if gr_consumedAt g \<noteq> None then Some ''grant_already_consumed''
      else if gr_expiresAt g \<le> t then Some ''grant_expired''
      else if gr_action g \<noteq> js_trim (coalesce action []) then Some ''grant_action_mismatch''
      else if gr_targetId g \<noteq> js_trim (coalesce targetId []) then Some ''grant_target_mismatch''
      else if gr_teamId g \<noteq> actor_team actor then Some ''grant_team_mismatch''
      else None)"

definition consumed_grant :: "instant \<Rightarrow> actor option \<Rightarrow> grant \<Rightarrow> grant" where
  "consumed_grant t actor g = g\<lparr>gr_consumedAt := Some t, gr_consumedBy := Some (actor_user actor)\<rparr>"

definition consumption_event :: "instant \<Rightarrow> actor option \<Rightarrow> grant \<Rightarrow> event_in" where
  "consumption_event t actor g =
     mk_ev None ''approval_grant_consumed'' ''info''
       (''Approval grant '' @ gr_id g @ '' consumed for '' @ gr_action g @ '' on '' @ gr_targetId g @ ''.'')
       (JObj [(''grantId'', JStr (gr_id g)), (''action'', JStr (gr_action g)), (''targetId'', JStr (gr_targetId g)),
              (''issuedBy'', JStr (gr_issuedBy g)), (''consumedBy'', JStr (actor_user actor)),
              (''sourceDecisionId'', jstr (gr_sourceDecisionId g))])"

definition legacy_event :: "string option \<Rightarrow> string option \<Rightarrow> actor option \<Rightarrow> event_in" where
  "legacy_event action targetId actor =
     mk_ev None ''approval_token_legacy_used'' ''warn''
       (''Legacy free-text approvalToken accepted for '' @ coalesce action ''unknown'' @ '' on ''
         @ coalesce targetId ''unknown'' @ '' - migrate this caller to issued grants.'')
       (JObj [(''action'', jstr action), (''targetId'', jstr targetId), (''actorId'', jstr (Option.bind actor ac_userId))])"

definition validateApprovalToken ::
    "(string \<Rightarrow> string) \<Rightarrow> instant \<Rightarrow> string option \<Rightarrow> string option \<Rightarrow> string option \<Rightarrow> actor option \<Rightarrow> bool
     \<Rightarrow> 'a ag_server \<Rightarrow> approval \<times> 'a ag_server" where
  "validateApprovalToken digest t token action targetId actor allowLegacy st =
     (let raw = js_trim (coalesce token [])
      in if raw = [] then (NotApproved None ''missing_token'' None, st)
         else (case List.find (\<lambda>g. gr_tokenHash g = digest raw) (grants st) of
                 Some g \<Rightarrow>
                   (case grant_obstacle t action targetId actor g of
                      Some reason \<Rightarrow> (NotApproved (Some ''grant'') reason (Some (gr_id g)), st)
                    | None \<Rightarrow>
                        (ApprovedByGrant (gr_id g),
                         append_event t (consumption_event t actor g)
                           (upd_ag (\<lambda>w. w\<lparr>ag_grants := upd_where (\<lambda>x. gr_id x = gr_id g) (consumed_grant t actor) (ag_grants w)\<rparr>) st)))
               | None \<Rightarrow>
                   if \<not> allowLegacy then (NotApproved None ''grant_required'' None, st)
                   else if ag_requireIssued (world st) then (NotApproved None ''grant_required_strict'' None, st)
                   else (ApprovedLegacy,
                         append_event t (legacy_event action targetId actor)
                           (upd_ag (\<lambda>w. w\<lparr>ag_legacyUses :=
                              Some (case ag_legacyUses w of None \<Rightarrow> 1 | Some (n, _) \<Rightarrow> n + 1, t)\<rparr>) st))))"

section \<open>Sequences of operations\<close>

datatype grant_op =
    GIssue instant string "string option" "string option" "actor option"
  | GMint instant string string string "string option" "string option" "string option"
  | GValidate instant "string option" "string option" "string option" "actor option" bool

fun grant_step :: "(string \<Rightarrow> string) \<Rightarrow> grant_op \<Rightarrow> 'a ag_server \<Rightarrow> 'a ag_server" where
  "grant_step digest (GIssue t tok a tg actor) st = snd (issueApprovalGrant digest t tok a tg actor st)"
| "grant_step digest (GMint t tok a tg src by team) st = mintDecisionGrant digest t tok a tg src by team st"
| "grant_step digest (GValidate t tok a tg actor legacy) st = snd (validateApprovalToken digest t tok a tg actor legacy st)"

fun minted_token :: "grant_op \<Rightarrow> string option" where
  "minted_token (GIssue t tok a tg actor) = Some tok"
| "minted_token (GMint t tok a tg src by team) = Some tok"
| "minted_token (GValidate t tok a tg actor legacy) = None"

lemma world_upd_ag [simp]: "world (upd_ag f st) = f (world st)"
  by (simp add: upd_ag_def)

lemma grants_prune: "set (grants (pruneGrants t st)) \<subseteq> {g \<in> set (grants st). keepable t g}"
  by (auto simp: pruneGrants_def Let_def dest: in_set_takeD)

lemma grants_next_id [simp]: "grants (snd (next_id p st)) = grants st"
  by (simp add: next_id_def Let_def)

lemma grants_append [simp]: "grants (append_event t e st) = grants st"
  by simp

text \<open>What an approval of an action on a target rests on: the token is that of an issued grant for exactly this action, target and
  team, unspent and unexpired, which is spent now; or, as long as issued grants are not required, any text that is
  no grant's token.\<close>

definition approved_for ::
    "(string \<Rightarrow> string) \<Rightarrow> instant \<Rightarrow> string \<Rightarrow> string \<Rightarrow> string \<Rightarrow> actor option \<Rightarrow> 'a ag_server \<Rightarrow> 'a ag_server \<Rightarrow> bool" where
  "approved_for digest t raw action target actor st st' \<longleftrightarrow> raw \<noteq> []
     \<and> (if \<exists>g \<in> set (grants st). gr_tokenHash g = digest raw
        then \<exists>g \<in> set (grants st). gr_tokenHash g = digest raw \<and> gr_consumedAt g = None \<and> t < gr_expiresAt g
               \<and> gr_action g = js_trim action \<and> gr_targetId g = js_trim target \<and> gr_teamId g = actor_team actor
               \<and> (\<forall>h \<in> set (grants st'). gr_id h = gr_id g \<longrightarrow> gr_consumedAt h = Some t)
        else \<not> ag_requireIssued (world st))"

lemma approval_rests_on:
  assumes "validateApprovalToken digest t token (Some a) (Some tg) actor True st = (r, st')"
    and "\<forall>k x g. r \<noteq> NotApproved k x g"
  shows "approved_for digest t (js_trim (coalesce token [])) a tg actor st st'"
proof -
  let ?raw = "js_trim (coalesce token [])"
  have ne: "?raw \<noteq> []" using assms by (auto simp: validateApprovalToken_def Let_def)
  show ?thesis
  proof (cases "List.find (\<lambda>g. gr_tokenHash g = digest ?raw) (grants st)")
    case None
    then have "\<not> (\<exists>g \<in> set (grants st). gr_tokenHash g = digest ?raw)" by (auto simp: find_None_iff)
    moreover have "\<not> ag_requireIssued (world st)" using assms None ne by (auto simp: validateApprovalToken_def split: if_splits)
    ultimately show ?thesis using ne by (simp add: approved_for_def)
  next
    case (Some g)
    then have "grant_obstacle t (Some a) (Some tg) actor g = None"
      and st': "st' = append_event t (consumption_event t actor g)
           (upd_ag (\<lambda>w. w\<lparr>ag_grants := upd_where (\<lambda>x. gr_id x = gr_id g) (consumed_grant t actor) (ag_grants w)\<rparr>) st)"
      using assms ne by (auto simp: validateApprovalToken_def Let_def split: option.splits)
    moreover have "grants st' = upd_where (\<lambda>x. gr_id x = gr_id g) (consumed_grant t actor) (grants st)" using st' by simp
    ultimately show ?thesis
      using find_SomeD [OF Some] ne unfolding approved_for_def
      by (auto simp: grant_obstacle_def set_upd_where consumed_grant_def not_le intro!: bexI [of _ g] split: if_splits)
  qed
qed

text \<open>A spent hash: no grant that carries it can be consumed any more.\<close>

definition spent :: "string \<Rightarrow> 'a ag_server \<Rightarrow> bool" where
  "spent h st \<longleftrightarrow> (\<forall>g \<in> set (grants st). gr_tokenHash g = h \<longrightarrow> gr_consumedAt g \<noteq> None)"

lemma spent_subset: "spent h st \<Longrightarrow> set (grants st') \<subseteq> set (grants st) \<Longrightarrow> spent h st'"
  unfolding spent_def by blast

lemma spent_add: "spent h st \<Longrightarrow> set (grants st') \<subseteq> insert g (set (grants st)) \<Longrightarrow> gr_tokenHash g \<noteq> h \<Longrightarrow> spent h st'"
  unfolding spent_def by blast

lemma spent_consume:
  "spent h st \<Longrightarrow> grants st' = upd_where P (consumed_grant t a) (grants st) \<Longrightarrow> spent h st'"
  by (auto simp: spent_def set_upd_where consumed_grant_def)

lemma issue_grants:
  "set (grants (snd (issueApprovalGrant digest t tok a tg actor st))) \<subseteq> set (grants st)
   \<or> (\<exists>g. gr_tokenHash g = digest tok \<and>
        set (grants (snd (issueApprovalGrant digest t tok a tg actor st))) \<subseteq> insert g (set (grants st)))"
proof (cases "isSystemActor actor \<or> js_trim (coalesce a []) = [] \<or> js_trim (coalesce tg []) = []")
  case False
  let ?g = "new_grant digest t (fst (next_id ''apg'' (pruneGrants t st))) tok (js_trim (coalesce a [])) (js_trim (coalesce tg []))
    (actor_user actor) (actor_team actor) None"
  have "gr_tokenHash ?g = digest tok" by (simp add: new_grant_def)
  moreover have "set (grants (snd (issueApprovalGrant digest t tok a tg actor st))) \<subseteq> insert ?g (set (grants st))"
    using False grants_prune [of t st] by (auto simp: issueApprovalGrant_def Let_def case_prod_beta)
  ultimately show ?thesis by blast
qed (auto simp: issueApprovalGrant_def Let_def)

lemma mint_grants:
  "\<exists>g. gr_tokenHash g = digest tok \<and>
     set (grants (mintDecisionGrant digest t tok a tg src by team st)) \<subseteq> insert g (set (grants st))"
proof -
  let ?g = "new_grant digest t (fst (next_id ''apg'' (pruneGrants t st))) tok a tg (coalesce by ''usr_local'') team src"
  have "gr_tokenHash ?g = digest tok" by (simp add: new_grant_def)
  moreover have "set (grants (mintDecisionGrant digest t tok a tg src by team st)) \<subseteq> insert ?g (set (grants st))"
    using grants_prune [of t st] by (auto simp: mintDecisionGrant_def Let_def case_prod_beta)
  ultimately show ?thesis by blast
qed

lemma validate_grants:
  "\<exists>P. grants (snd (validateApprovalToken digest t tok a tg actor legacy st))
     = upd_where P (consumed_grant t actor) (grants st)"
proof -
  have "upd_where (\<lambda>_. False) (consumed_grant t actor) xs = xs" for xs by (simp add: upd_where_def)
  then show ?thesis
    by (auto simp: validateApprovalToken_def Let_def split: option.split intro: exI [of _ "\<lambda>_. False"])
qed

lemma spent_step:
  assumes "spent h st" and "\<And>tok. minted_token op = Some tok \<Longrightarrow> digest tok \<noteq> h"
  shows "spent h (grant_step digest op st)"
proof (cases op)
  case (GIssue t tok a tg actor)
  then have ne: "digest tok \<noteq> h" using assms(2) by simp
  show ?thesis
    using issue_grants [of digest t tok a tg actor st]
  proof (elim disjE exE conjE)
    assume "set (grants (snd (issueApprovalGrant digest t tok a tg actor st))) \<subseteq> set (grants st)"
    then show ?thesis using spent_subset [OF assms(1)] GIssue by simp
  next
    fix g assume h: "gr_tokenHash g = digest tok"
      and "set (grants (snd (issueApprovalGrant digest t tok a tg actor st))) \<subseteq> insert g (set (grants st))"
    from spent_add [OF assms(1) this(2)] h ne show ?thesis using GIssue by simp
  qed
next
  case (GMint t tok a tg src who team)
  then have ne: "digest tok \<noteq> h" using assms(2) by simp
  obtain g where "gr_tokenHash g = digest tok"
    and "set (grants (mintDecisionGrant digest t tok a tg src who team st)) \<subseteq> insert g (set (grants st))"
    using mint_grants by blast
  from spent_add [OF assms(1) this(2)] this(1) ne show ?thesis using GMint by simp
next
  case (GValidate t tok a tg actor legacy)
  obtain P where "grants (snd (validateApprovalToken digest t tok a tg actor legacy st))
      = upd_where P (consumed_grant t actor) (grants st)"
    using validate_grants by blast
  then show ?thesis using spent_consume [OF assms(1)] GValidate by simp
qed

lemma spent_steps:
  "spent h st \<Longrightarrow> \<forall>op \<in> set ops. \<forall>tok. minted_token op = Some tok \<longrightarrow> digest tok \<noteq> h \<Longrightarrow>
   spent h (fold (grant_step digest) ops st)"
proof (induction ops arbitrary: st)
  case (Cons op ops)
  have "spent h (grant_step digest op st)" by (rule spent_step) (use Cons.prems in auto)
  with Cons show ?case by simp
qed simp

lemma spent_refused:
  assumes "spent (digest (js_trim (coalesce tok []))) st"
  shows "\<forall>i. fst (validateApprovalToken digest t tok a tg actor legacy st) \<noteq> ApprovedByGrant i"
    and "\<not> legacy \<Longrightarrow> \<exists>m r i. fst (validateApprovalToken digest t tok a tg actor legacy st) = NotApproved m r i"
proof -
  have "grant_obstacle t a tg actor g \<noteq> None" if "List.find (\<lambda>g. gr_tokenHash g = digest (js_trim (coalesce tok []))) (grants st) = Some g" for g
    using that assms by (auto simp: spent_def grant_obstacle_def find_Some_iff)
  then show "\<forall>i. fst (validateApprovalToken digest t tok a tg actor legacy st) \<noteq> ApprovedByGrant i"
    and "\<not> legacy \<Longrightarrow> \<exists>m r i. fst (validateApprovalToken digest t tok a tg actor legacy st) = NotApproved m r i"
    by (auto simp: validateApprovalToken_def Let_def split: option.split)
qed

lemma hash_unique:
  "distinct (map gr_tokenHash gs) \<Longrightarrow> x \<in> set gs \<Longrightarrow> y \<in> set gs \<Longrightarrow> gr_tokenHash x = gr_tokenHash y \<Longrightarrow> x = y"
  by (metis distinct_map inj_on_def)

lemma hash_found:
  assumes "distinct (map gr_tokenHash (grants st))" and "g \<in> set (grants st)"
  shows "List.find (\<lambda>x. gr_tokenHash x = gr_tokenHash g) (grants st) = Some g"
proof (cases "List.find (\<lambda>x. gr_tokenHash x = gr_tokenHash g) (grants st)")
  case None
  then show ?thesis using assms(2) by (auto simp: find_None_iff)
next
  case (Some x)
  then have "x \<in> set (grants st)" "gr_tokenHash x = gr_tokenHash g" by (auto simp: find_Some_iff)
  then show ?thesis using assms(2) Some hash_unique [OF assms(1)] by simp
qed

section \<open>The properties\<close>

text \<open>C17: a grant approves at most once.  After a token was accepted, no sequence of later operations that
  mints other tokens makes it acceptable as a grant again, for any action or target; where free text is not
  allowed it is refused outright.\<close>

theorem grant_approves_once:
  assumes "distinct (map gr_tokenHash (grants st))"
    and "validateApprovalToken digest t tok a tg actor legacy st = (ApprovedByGrant i, st1)"
    and "\<forall>op \<in> set ops. \<forall>new. minted_token op = Some new \<longrightarrow> digest new \<noteq> digest (js_trim (coalesce tok []))"
  shows "let later = validateApprovalToken digest t' tok a' tg' actor' legacy' (fold (grant_step digest) ops st1)
    in (\<forall>j. fst later \<noteq> ApprovedByGrant j) \<and> (legacy' \<or> (\<exists>m r j. fst later = NotApproved m r j))"
proof -
  let ?h = "digest (js_trim (coalesce tok []))"
  obtain g where g: "List.find (\<lambda>x. gr_tokenHash x = ?h) (grants st) = Some g"
    and st1: "grants st1 = upd_where (\<lambda>x. gr_id x = gr_id g) (consumed_grant t actor) (grants st)"
    using assms(2) by (auto simp: validateApprovalToken_def Let_def split: if_splits option.splits)
  have "gr_consumedAt (if gr_id x = gr_id g then consumed_grant t actor x else x) \<noteq> None"
    if "x \<in> set (grants st)" "gr_tokenHash x = ?h" for x
  proof -
    have "g \<in> set (grants st)" "gr_tokenHash g = ?h" using g by (auto simp: find_Some_iff)
    then have "x = g" using that hash_unique [OF assms(1)] by simp
    then show ?thesis by (simp add: consumed_grant_def)
  qed
  note used = this
  have "spent ?h st1" unfolding spent_def st1 set_upd_where
  proof (intro ballI impI)
    fix y assume "y \<in> (\<lambda>x. if gr_id x = gr_id g then consumed_grant t actor x else x) ` set (grants st)"
      and h: "gr_tokenHash y = ?h"
    then obtain x where x: "x \<in> set (grants st)"
      and y: "y = (if gr_id x = gr_id g then consumed_grant t actor x else x)" by blast
    then have "gr_tokenHash x = ?h" using h by (simp add: consumed_grant_def split: if_splits)
    with used x y show "gr_consumedAt y \<noteq> None" by simp
  qed
  then have "spent ?h (fold (grant_step digest) ops st1)" by (rule spent_steps) (rule assms(3))
  then show ?thesis
    using spent_refused [where digest = digest and tok = tok and st = "fold (grant_step digest) ops st1"]
    unfolding Let_def by blast
qed

text \<open>A stored token approves exactly when its grant is unconsumed, unexpired and bound to this action, target
  and team; it is then consumed by the actor, with an event, and nothing else of the grants changes.  In
  every other case the state is untouched and the answer names the grant.\<close>

theorem grant_validation:
  assumes "distinct (map gr_tokenHash (grants st))" and "g \<in> set (grants st)"
    and "gr_tokenHash g = digest (js_trim (coalesce tok []))" and "js_trim (coalesce tok []) \<noteq> []"
  shows "let (answer, st') = validateApprovalToken digest t tok a tg actor legacy st
    in if gr_consumedAt g = None \<and> t < gr_expiresAt g \<and> gr_action g = js_trim (coalesce a [])
          \<and> gr_targetId g = js_trim (coalesce tg []) \<and> gr_teamId g = actor_team actor
       then answer = ApprovedByGrant (gr_id g)
         \<and> grants st' = map (\<lambda>x. if gr_id x = gr_id g then consumed_grant t actor x else x) (grants st)
         \<and> ag_archived (world st') = ag_archived (world st)
         \<and> (\<exists>e \<in> set (events st'). ev_type e = ''approval_grant_consumed'' \<and> ev_id e \<notin> set (issued_ids st))
       else (\<exists>reason. answer = NotApproved (Some ''grant'') reason (Some (gr_id g))) \<and> st' = st"
proof -
  note f = hash_found [OF assms(1,2), unfolded assms(3)]
  let ?st = "upd_ag (\<lambda>w. w\<lparr>ag_grants := upd_where (\<lambda>x. gr_id x = gr_id g) (consumed_grant t actor) (ag_grants w)\<rparr>) st"
  have ev: "\<exists>e \<in> set (events (append_event t (consumption_event t actor g) ?st)).
      ev_type e = ''approval_grant_consumed'' \<and> ev_id e \<notin> set (issued_ids st)"
    using next_id_fresh [of "''evt_demo''" ?st]
    by (auto simp: events_append_event push_cap_def EVENT_HOT_LIMIT_def event_record_def consumption_event_def upd_ag_def Let_def)
  show ?thesis
  proof (cases "grant_obstacle t a tg actor g")
    case None
    then have ok: "gr_consumedAt g = None \<and> t < gr_expiresAt g \<and> gr_action g = js_trim (coalesce a [])
          \<and> gr_targetId g = js_trim (coalesce tg []) \<and> gr_teamId g = actor_team actor"
      by (auto simp: grant_obstacle_def split: if_splits)
    with None f ev assms(4) show ?thesis by (simp add: validateApprovalToken_def Let_def upd_where_def)
  next
    case (Some reason)
    then have "\<not> (gr_consumedAt g = None \<and> t < gr_expiresAt g \<and> gr_action g = js_trim (coalesce a [])
          \<and> gr_targetId g = js_trim (coalesce tg []) \<and> gr_teamId g = actor_team actor)"
      by (auto simp: grant_obstacle_def split: if_splits)
    moreover have "validateApprovalToken digest t tok a tg actor legacy st
        = (NotApproved (Some ''grant'') reason (Some (gr_id g)), st)"
      using Some f assms(4) by (simp add: validateApprovalToken_def Let_def)
    ultimately show ?thesis by auto
  qed
qed

text \<open>A defect: an expired grant is refused while it is stored, but the next mint prunes it, and from then on
  the same token is free text and is accepted as a legacy token.  Expiry, action and target bind a token
  only until someone else asks for a grant.\<close>

theorem pruned_grant_accepted:
  assumes "distinct (map gr_tokenHash (grants st))" and "g \<in> set (grants st)"
    and "gr_tokenHash g = digest tok" and "js_trim tok = tok" and "tok \<noteq> []"
    and "gr_consumedAt g = None" and "gr_expiresAt g \<le> t" and "\<not> ag_requireIssued (world st)"
    and "js_trim act \<noteq> []" and "js_trim targ \<noteq> []" and "\<not> isSystemActor other" and "digest tok2 \<noteq> digest tok"
  shows "fst (validateApprovalToken digest t (Some tok) a tg actor True st)
      = NotApproved (Some ''grant'') ''grant_expired'' (Some (gr_id g))
    \<and> fst (validateApprovalToken digest t (Some tok) a tg actor True
        (snd (issueApprovalGrant digest t tok2 (Some act) (Some targ) other st))) = ApprovedLegacy"
proof -
  note f = hash_found [OF assms(1,2), unfolded assms(3)]
  let ?st = "snd (issueApprovalGrant digest t tok2 (Some act) (Some targ) other st)"
  have first: "fst (validateApprovalToken digest t (Some tok) a tg actor True st)
      = NotApproved (Some ''grant'') ''grant_expired'' (Some (gr_id g))"
    using f assms(4-7) by (simp add: validateApprovalToken_def grant_obstacle_def Let_def)
  have "gr_tokenHash x \<noteq> digest tok" if "x \<in> set (grants st)" "keepable t x" for x
  proof
    assume "gr_tokenHash x = digest tok"
    then have "x = g" using that assms(2,3) hash_unique [OF assms(1)] by simp
    then show False using that assms(6,7) by (simp add: keepable_def)
  qed
  then have "\<forall>x \<in> set (grants ?st). gr_tokenHash x \<noteq> digest tok"
    using assms(9-12) grants_prune [of t st]
    by (auto simp: issueApprovalGrant_def Let_def case_prod_beta new_grant_def)
  then have "List.find (\<lambda>x. gr_tokenHash x = digest tok) (grants ?st) = None"
    by (simp add: find_None_iff)
  moreover have "ag_requireIssued (world ?st) = ag_requireIssued (world st)"
    by (simp add: issueApprovalGrant_def Let_def case_prod_beta next_id_def pruneGrants_def)
  ultimately show ?thesis using first assms(4,5,8) by (simp add: validateApprovalToken_def Let_def)
qed

definition demo_grants :: "grant_tables server" where
  "demo_grants = demo_server_with \<lparr>ag_grants =
     [new_grant (\<lambda>s. s) 1 ''apg_1'' ''aa'' ''merge'' ''run_1'' ''usr_a'' None None], ag_archived = [],
     ag_legacyUses = None, ag_requireIssued = False\<rparr> []"

lemma demo_grants_rows: "grants demo_grants = [new_grant (\<lambda>s. s) 1 ''apg_1'' ''aa'' ''merge'' ''run_1'' ''usr_a'' None None]"
  "ag_requireIssued (world demo_grants) = False"
  by (simp_all add: demo_grants_def)

lemma demo_grant_facts:
  "gr_tokenHash (new_grant (\<lambda>s. s) 1 ''apg_1'' ''aa'' ''merge'' ''run_1'' ''usr_a'' None None) = ''aa''"
  "js_trim ''aa'' = ''aa''" "js_trim ''merge'' = ''merge''" "js_trim ''run_1'' = ''run_1''"
  by (simp_all add: new_grant_def js_trim_def js_space_def)

lemma demo_validation:
  "fst (validateApprovalToken (\<lambda>s. s) 5 (Some ''aa'') (Some ''merge'') (Some ''run_1'') None True demo_grants) = ApprovedByGrant ''apg_1''"
  by (simp add: validateApprovalToken_def demo_grants_rows demo_grant_facts Let_def grant_obstacle_def)
     (simp add: new_grant_def GRANT_TTL_MS_def actor_team_def)

theorem grant_approves_once_witness:
  "\<exists>st1. validateApprovalToken (\<lambda>s. s) 5 (Some ''aa'') (Some ''merge'') (Some ''run_1'') None True demo_grants
       = (ApprovedByGrant ''apg_1'', st1)
     \<and> (\<forall>j. fst (validateApprovalToken (\<lambda>s. s) 6 (Some ''aa'') (Some ''merge'') (Some ''run_1'') None True
           (fold (grant_step (\<lambda>s. s)) [GMint 5 ''bb'' ''merge'' ''run_2'' None None None] st1)) \<noteq> ApprovedByGrant j)"
proof -
  let ?r = "validateApprovalToken (\<lambda>s. s) 5 (Some ''aa'') (Some ''merge'') (Some ''run_1'') None True demo_grants"
  have d: "distinct (map gr_tokenHash (grants demo_grants))" by (simp add: demo_grants_rows)
  have r: "?r = (ApprovedByGrant ''apg_1'', snd ?r)" using demo_validation by (metis prod.collapse)
  have "\<forall>op \<in> set [GMint 5 ''bb'' ''merge'' ''run_2'' None None None]. \<forall>new. minted_token op = Some new \<longrightarrow>
      new \<noteq> js_trim (coalesce (Some ''aa'') [])" by (simp add: demo_grant_facts)
  note grant_approves_once [OF d r this, of 6 "Some ''merge''" "Some ''run_1''" None True]
  with r show ?thesis unfolding Let_def by blast
qed

theorem grant_validation_witness:
  "fst (validateApprovalToken (\<lambda>s. s) 5 (Some ''aa'') (Some ''merge'') (Some ''run_1'') None True demo_grants)
   = ApprovedByGrant ''apg_1''"
proof -
  let ?g = "new_grant (\<lambda>s. s) 1 ''apg_1'' ''aa'' ''merge'' ''run_1'' ''usr_a'' None None"
  have d: "distinct (map gr_tokenHash (grants demo_grants))" "?g \<in> set (grants demo_grants)"
    "gr_tokenHash ?g = (\<lambda>s. s) (js_trim (coalesce (Some ''aa'') []))" "js_trim (coalesce (Some ''aa'') []) \<noteq> []"
    by (simp_all add: demo_grants_rows demo_grant_facts)
  have c: "gr_consumedAt ?g = None \<and> 5 < gr_expiresAt ?g \<and> gr_action ?g = js_trim (coalesce (Some ''merge'') [])
      \<and> gr_targetId ?g = js_trim (coalesce (Some ''run_1'') []) \<and> gr_teamId ?g = actor_team None"
    by (simp add: demo_grant_facts) (simp add: new_grant_def GRANT_TTL_MS_def actor_team_def)
  show ?thesis
    using grant_validation [where digest = "\<lambda>s. s" and tok = "Some ''aa''" and st = demo_grants and g = ?g
        and t = 5 and a = "Some ''merge''" and tg = "Some ''run_1''" and actor = None and legacy = True, OF d] c
    by (cases "validateApprovalToken (\<lambda>s. s) 5 (Some ''aa'') (Some ''merge'') (Some ''run_1'') None True demo_grants")
       (simp add: new_grant_def)
qed

theorem pruned_grant_accepted_witness:
  "fst (validateApprovalToken (\<lambda>s. s) 700000 (Some ''aa'') (Some ''merge'') (Some ''run_9'') None True
     (snd (issueApprovalGrant (\<lambda>s. s) 700000 ''bb'' (Some ''x'') (Some ''y'') None demo_grants))) = ApprovedLegacy"
proof -
  let ?g = "new_grant (\<lambda>s. s) 1 ''apg_1'' ''aa'' ''merge'' ''run_1'' ''usr_a'' None None"
  have "js_trim ''x'' \<noteq> []" "js_trim ''y'' \<noteq> []" by (simp_all add: js_trim_def js_space_def)
  then show ?thesis
    using conjunct2 [OF pruned_grant_accepted [where st = demo_grants and g = ?g and digest = "\<lambda>s. s" and tok = "''aa''"
        and t = 700000 and act = "''x''" and targ = "''y''" and other = None and ?tok2.0 = "''bb''"
        and a = "Some ''merge''" and tg = "Some ''run_9''" and actor = None]]
    by (simp add: demo_grants_rows demo_grant_facts isSystemActor_def) (simp add: new_grant_def GRANT_TTL_MS_def)
qed

end
