(* ===== verification/FirstMatch.thy ===== *)
theory FirstMatch
  imports Prelude
begin

text \<open>
  Rows found by \<open>find\<close> and changed in place: the code mutates the object \<open>find\<close> returned, which is the first match.
\<close>

fun upd_first :: "('a \<Rightarrow> bool) \<Rightarrow> ('a \<Rightarrow> 'a) \<Rightarrow> 'a list \<Rightarrow> 'a list" where
  "upd_first P f [] = []"
| "upd_first P f (x # xs) = (if P x then f x # xs else x # upd_first P f xs)"

lemma length_upd_first [simp]: "length (upd_first P f xs) = length xs"
  by (induction xs) auto

lemma map_upd_first: "(\<And>x. x \<in> set xs \<Longrightarrow> P x \<Longrightarrow> g (f x) = g x) \<Longrightarrow> map g (upd_first P f xs) = map g xs"
  by (induction xs) auto

lemma set_upd_first: "y \<in> set (upd_first P f xs) \<Longrightarrow> y \<in> set xs \<or> (\<exists>x. List.find P xs = Some x \<and> y = f x)"
  by (induction xs) (auto split: if_splits)

lemma find_upd_first_same:
  "(\<And>x. P x \<Longrightarrow> P (f x)) \<Longrightarrow> List.find P (upd_first P f xs) = map_option f (List.find P xs)"
  by (induction xs) auto

lemma find_upd_first_other:
  "(\<And>x. Q x \<Longrightarrow> \<not> P x \<and> \<not> P (f x)) \<Longrightarrow> List.find P (upd_first Q f xs) = List.find P xs"
  by (induction xs) auto

lemma find_filter: "(\<And>x. P x \<Longrightarrow> Q x) \<Longrightarrow> List.find P (filter Q xs) = List.find P xs"
  by (induction xs) auto

lemma find_filter_none: "(\<And>x. P x \<Longrightarrow> \<not> Q x) \<Longrightarrow> List.find P (filter Q xs) = None"
  by (induction xs) auto

lemma find_map_same: "(\<And>x. P (f x) = P x) \<Longrightarrow> List.find P (map f xs) = map_option f (List.find P xs)"
  by (induction xs) auto

lemma find_append: "List.find P (xs @ ys) = (case List.find P xs of None \<Rightarrow> List.find P ys | Some x \<Rightarrow> Some x)"
  by (induction xs) auto

lemma find_take: "List.find P (take n xs) = List.find P xs \<or> List.find P (take n xs) = None"
proof (induction xs arbitrary: n)
  case (Cons x xs)
  then show ?case by (cases n) auto
qed simp

end
