(* ===== verification/Store.thy ===== *)
theory Store
  imports JsText FirstMatch
begin

text \<open>
  runtime/store/in-memory-store.mjs: the transactional store over the collections of the state, and its
  process-local history.  A row is a finite map from keys to values, so \<open>Object.assign\<close> is \<open>++\<close>; the id of
  a row is its \<open>id\<close> key.  The interface \<open>record_store\<close> is the contract of a transaction handle; the staged
  handle of an outer transaction and the direct handle of a nested one both provide it.
\<close>

section \<open>The interface\<close>

type_synonym row = "string \<Rightarrow> json option"

definition rid :: "row \<Rightarrow> json option" where
  "rid r = r ''id''"

text \<open>What a handle promises, over a state satisfying \<open>ok\<close>: the lookups form one map per collection, which
  the three writes change at one key.\<close>

locale record_store =
  fixes lookup :: "'s \<Rightarrow> string \<Rightarrow> json \<Rightarrow> row option"
    and ins :: "string \<Rightarrow> row \<Rightarrow> 's \<Rightarrow> 's"
    and upd :: "string \<Rightarrow> json \<Rightarrow> row \<Rightarrow> 's \<Rightarrow> 's"
    and del :: "string \<Rightarrow> json \<Rightarrow> 's \<Rightarrow> 's"
    and ok :: "'s \<Rightarrow> bool"
  assumes lookup_ins: "ok s \<Longrightarrow> rid r = Some i \<Longrightarrow> lookup s c i = None \<Longrightarrow>
      lookup (ins c r s) d j = (if d = c \<and> j = i then Some r else lookup s d j)"
    and lookup_upd: "ok s \<Longrightarrow> p ''id'' = None \<Longrightarrow>
      lookup (upd c i p s) d j = (if d = c \<and> j = i then map_option (\<lambda>r. r ++ p) (lookup s d j) else lookup s d j)"
    and lookup_del: "ok s \<Longrightarrow> lookup (del c i s) d j = (if d = c \<and> j = i then None else lookup s d j)"
    and ok_ins: "ok s \<Longrightarrow> rid r = Some i \<Longrightarrow> lookup s c i = None \<Longrightarrow> ok (ins c r s)"
    and ok_upd: "ok s \<Longrightarrow> p ''id'' = None \<Longrightarrow> ok (upd c i p s)"
    and ok_del: "ok s \<Longrightarrow> ok (del c i s)"

section \<open>Operations of a transaction body\<close>

datatype tx_op =
    TGet string json
  | TInsert string row
  | TUpdate string json row
  | TDelete string json

text \<open>The abstract store: a map per collection.  \<open>spec_allowed\<close> is what a body must keep to: it inserts
  only ids that are absent and does not rewrite ids.\<close>

type_synonym spec = "string \<Rightarrow> json \<Rightarrow> row option"

fun spec_step :: "tx_op \<Rightarrow> spec \<Rightarrow> spec" where
  "spec_step (TGet c i) m = m"
| "spec_step (TInsert c r) m = (case rid r of None \<Rightarrow> m | Some i \<Rightarrow> m(c := (m c)(i := Some r)))"
| "spec_step (TUpdate c i p) m = m(c := (m c)(i := map_option (\<lambda>r. r ++ p) (m c i)))"
| "spec_step (TDelete c i) m = m(c := (m c)(i := None))"

fun spec_allowed :: "tx_op \<Rightarrow> spec \<Rightarrow> bool" where
  "spec_allowed (TInsert c r) m = (case rid r of None \<Rightarrow> False | Some i \<Rightarrow> i \<noteq> JNull \<and> m c i = None)"
| "spec_allowed (TUpdate c i p) m = (p ''id'' = None)"
| "spec_allowed _ m = True"

fun spec_run :: "tx_op list \<Rightarrow> spec \<Rightarrow> spec" where
  "spec_run [] m = m"
| "spec_run (op # ops) m = spec_run ops (spec_step op m)"

fun spec_reads :: "tx_op list \<Rightarrow> spec \<Rightarrow> row option list" where
  "spec_reads [] m = []"
| "spec_reads (op # ops) m = (case op of TGet c i \<Rightarrow> [m c i] | _ \<Rightarrow> []) @ spec_reads ops (spec_step op m)"

fun allowed_run :: "tx_op list \<Rightarrow> spec \<Rightarrow> bool" where
  "allowed_run [] m = True"
| "allowed_run (op # ops) m = (spec_allowed op m \<and> allowed_run ops (spec_step op m))"

context record_store
begin

fun step :: "tx_op \<Rightarrow> 's \<Rightarrow> 's" where
  "step (TGet c i) s = s"
| "step (TInsert c r) s = ins c r s"
| "step (TUpdate c i p) s = upd c i p s"
| "step (TDelete c i) s = del c i s"

fun reads :: "tx_op list \<Rightarrow> 's \<Rightarrow> row option list" where
  "reads [] s = []"
| "reads (op # ops) s = (case op of TGet c i \<Rightarrow> [lookup s c i] | _ \<Rightarrow> []) @ reads ops (step op s)"

lemma step_refines:
  "ok s \<Longrightarrow> spec_allowed op (lookup s) \<Longrightarrow> lookup (step op s) = spec_step op (lookup s) \<and> ok (step op s)"
  by (cases op) (auto simp: fun_eq_iff lookup_ins lookup_upd lookup_del ok_ins ok_upd ok_del split: option.splits)

lemma run_refines:
  "ok s \<Longrightarrow> allowed_run ops (lookup s) \<Longrightarrow>
   lookup (fold step ops s) = spec_run ops (lookup s) \<and> ok (fold step ops s)
   \<and> reads ops s = spec_reads ops (lookup s)"
  by (induction ops arbitrary: s) (simp_all add: step_refines)

end

section \<open>The direct handle\<close>

type_synonym collections = "string \<Rightarrow> row list option"

definition collectionArray :: "collections \<Rightarrow> string \<Rightarrow> row list" where
  "collectionArray S c = coalesce (S c) []"

definition store_get :: "collections \<Rightarrow> string \<Rightarrow> json \<Rightarrow> row option" where
  "store_get S c i = List.find (\<lambda>r. rid r = Some i) (collectionArray S c)"

definition store_query :: "collections \<Rightarrow> string \<Rightarrow> (row \<Rightarrow> bool) option \<Rightarrow> row list" where
  "store_query S c P = (case P of None \<Rightarrow> collectionArray S c | Some p \<Rightarrow> filter p (collectionArray S c))"

definition direct_insert :: "string \<Rightarrow> row \<Rightarrow> collections \<Rightarrow> collections" where
  "direct_insert c r S = S(c := Some (r # filter (\<lambda>x. rid x \<noteq> rid r) (collectionArray S c)))"

definition direct_update :: "string \<Rightarrow> json \<Rightarrow> row \<Rightarrow> collections \<Rightarrow> collections" where
  "direct_update c i p S =
     (case S c of None \<Rightarrow> S | Some rs \<Rightarrow> S(c := Some (upd_first (\<lambda>r. rid r = Some i) (\<lambda>r. r ++ p) rs)))"

definition direct_delete :: "string \<Rightarrow> json \<Rightarrow> collections \<Rightarrow> collections" where
  "direct_delete c i S = (case S c of None \<Rightarrow> S | Some rs \<Rightarrow> S(c := Some (filter (\<lambda>r. rid r \<noteq> Some i) rs)))"

section \<open>The staged handle\<close>

record stage =
  sg_inserts :: "row list"
  sg_updates :: "(json \<times> row) list"
  sg_deletes :: "json list"

definition newStage :: stage where
  "newStage = \<lparr>sg_inserts = [], sg_updates = [], sg_deletes = []\<rparr>"

type_synonym staged = "string \<Rightarrow> stage option"

definition stageFor :: "string \<Rightarrow> staged \<Rightarrow> stage" where
  "stageFor c T = coalesce (T c) newStage"

text \<open>A transaction: the state it reads and the writes it holds back.\<close>

type_synonym outer_tx = "collections \<times> staged"

definition staged_rows :: "stage \<Rightarrow> row list \<Rightarrow> row list" where
  "staged_rows s base =
     map (\<lambda>r. case Option.bind (rid r) (map_of (sg_updates s)) of None \<Rightarrow> r | Some p \<Rightarrow> r ++ p)
       (filter (\<lambda>r. rid r \<notin> Some ` set (sg_deletes s)) base)"

definition effectiveRows :: "outer_tx \<Rightarrow> string \<Rightarrow> row list" where
  "effectiveRows x c =
     (case snd x c of
        None \<Rightarrow> collectionArray (fst x) c
      | Some s \<Rightarrow> sg_inserts s @ staged_rows s (collectionArray (fst x) c))"

definition tx_get :: "outer_tx \<Rightarrow> string \<Rightarrow> json \<Rightarrow> row option" where
  "tx_get x c i =
     (let base = store_get (fst x) c i
      in case snd x c of
           None \<Rightarrow> base
         | Some s \<Rightarrow>
             if i \<in> set (sg_deletes s) then None
             else (case List.find (\<lambda>r. rid r = Some i) (sg_inserts s) of
                     Some r \<Rightarrow> Some r
                   | None \<Rightarrow> (case (base, map_of (sg_updates s) i) of (Some b, Some p) \<Rightarrow> Some (b ++ p) | _ \<Rightarrow> base)))"

definition tx_query :: "outer_tx \<Rightarrow> string \<Rightarrow> (row \<Rightarrow> bool) option \<Rightarrow> row list" where
  "tx_query x c P = (case P of None \<Rightarrow> effectiveRows x c | Some p \<Rightarrow> filter p (effectiveRows x c))"

definition put_stage :: "string \<Rightarrow> (stage \<Rightarrow> stage) \<Rightarrow> outer_tx \<Rightarrow> outer_tx" where
  "put_stage c f x = (fst x, (snd x)(c := Some (f (stageFor c (snd x)))))"

definition tx_insert :: "string \<Rightarrow> row \<Rightarrow> outer_tx \<Rightarrow> outer_tx" where
  "tx_insert c r = put_stage c (\<lambda>s. s\<lparr>sg_deletes := filter (\<lambda>i. Some i \<noteq> rid r) (sg_deletes s),
                                     sg_inserts := sg_inserts s @ [r]\<rparr>)"

definition set_update :: "json \<Rightarrow> row \<Rightarrow> (json \<times> row) list \<Rightarrow> (json \<times> row) list" where
  "set_update i p us = (i, coalesce (map_of us i) Map.empty ++ p) # filter (\<lambda>u. fst u \<noteq> i) us"

definition tx_update :: "string \<Rightarrow> json \<Rightarrow> row \<Rightarrow> outer_tx \<Rightarrow> outer_tx" where
  "tx_update c i p = put_stage c (\<lambda>s.
     if list_ex (\<lambda>r. rid r = Some i) (sg_inserts s)
     then s\<lparr>sg_inserts := upd_first (\<lambda>r. rid r = Some i) (\<lambda>r. r ++ p) (sg_inserts s)\<rparr>
     else s\<lparr>sg_updates := set_update i p (sg_updates s)\<rparr>)"

definition tx_delete :: "string \<Rightarrow> json \<Rightarrow> outer_tx \<Rightarrow> outer_tx" where
  "tx_delete c i = put_stage c (\<lambda>s. s\<lparr>sg_inserts := filter (\<lambda>r. rid r \<noteq> Some i) (sg_inserts s),
     sg_updates := filter (\<lambda>u. fst u \<noteq> i) (sg_updates s),
     sg_deletes := (if i \<in> set (sg_deletes s) then sg_deletes s else i # sg_deletes s)\<rparr>)"

text \<open>The commit: deletes, then updates, then the inserts in front.\<close>

definition commit_rows :: "stage \<Rightarrow> row list \<Rightarrow> row list" where
  "commit_rows s base =
     (let kept = filter (\<lambda>r. rid r \<notin> Some ` set (sg_deletes s)) base;
          updated = map (\<lambda>r. case Option.bind (rid r) (map_of (sg_updates s)) of None \<Rightarrow> r | Some p \<Rightarrow> r ++ p) kept
      in sg_inserts s @ updated)"

definition commit :: "outer_tx \<Rightarrow> collections" where
  "commit x = (\<lambda>c. case snd x c of
     None \<Rightarrow> fst x c
   | Some s \<Rightarrow> Some (commit_rows s (collectionArray (fst x) c)))"

section \<open>Both handles provide the interface\<close>

lemma rid_patch [simp]: "p ''id'' = None \<Longrightarrow> rid (r ++ p) = rid r"
  by (simp add: rid_def map_add_def)

lemma rid_upd_first: "p ''id'' = None \<Longrightarrow> map rid (upd_first P (\<lambda>r. r ++ p) xs) = map rid xs"
  by (induction xs) auto

interpretation direct: record_store store_get direct_insert direct_update direct_delete "\<lambda>_. True"
proof
  fix s :: collections and r p :: row and i j :: json and c d :: string
  show "rid r = Some i \<Longrightarrow> store_get s c i = None \<Longrightarrow>
      store_get (direct_insert c r s) d j = (if d = c \<and> j = i then Some r else store_get s d j)"
    by (auto simp: store_get_def direct_insert_def collectionArray_def intro!: find_filter)
  show "p ''id'' = None \<Longrightarrow> store_get (direct_update c i p s) d j =
      (if d = c \<and> j = i then map_option (\<lambda>r. r ++ p) (store_get s d j) else store_get s d j)"
    by (auto simp: store_get_def direct_update_def collectionArray_def find_upd_first_same split: option.split
        intro!: find_upd_first_other)
  show "store_get (direct_delete c i s) d j = (if d = c \<and> j = i then None else store_get s d j)"
    by (auto simp: store_get_def direct_delete_def collectionArray_def split: option.split
        intro!: find_filter_none find_filter find_filter [symmetric])
qed simp_all

definition stage_ok :: "stage \<Rightarrow> bool" where
  "stage_ok s \<longleftrightarrow> (\<forall>r \<in> set (sg_inserts s). \<forall>i \<in> set (sg_deletes s). rid r \<noteq> Some i)
     \<and> (\<forall>u \<in> set (sg_updates s). snd u ''id'' = None)"

definition tx_ok :: "outer_tx \<Rightarrow> bool" where
  "tx_ok x \<longleftrightarrow> (\<forall>c s. snd x c = Some s \<longrightarrow> stage_ok s)"

lemma stage_ok_for: "tx_ok x \<Longrightarrow> stage_ok (stageFor c (snd x))"
  by (cases "snd x c") (auto simp: tx_ok_def stageFor_def newStage_def stage_ok_def)

lemma tx_ok_put: "tx_ok x \<Longrightarrow> stage_ok (f (stageFor c (snd x))) \<Longrightarrow> tx_ok (put_stage c f x)"
  by (auto simp: tx_ok_def put_stage_def)

text \<open>The lookup through a stage, with the empty stage for a collection not written yet.\<close>

definition stage_get :: "stage \<Rightarrow> row option \<Rightarrow> json \<Rightarrow> row option" where
  "stage_get s base i =
     (if i \<in> set (sg_deletes s) then None
      else (case List.find (\<lambda>r. rid r = Some i) (sg_inserts s) of
              Some r \<Rightarrow> Some r
            | None \<Rightarrow> (case (base, map_of (sg_updates s) i) of (Some b, Some p) \<Rightarrow> Some (b ++ p) | _ \<Rightarrow> base)))"

lemma tx_get_stage: "tx_get x c i = stage_get (stageFor c (snd x)) (store_get (fst x) c i) i"
  by (simp add: tx_get_def stage_get_def stageFor_def newStage_def Let_def split: option.split)

lemma tx_get_put: "tx_get (put_stage c f x) d i =
    (if d = c then stage_get (f (stageFor c (snd x))) (store_get (fst x) c i) i else tx_get x d i)"
  by (simp add: tx_get_stage put_stage_def stageFor_def)

lemma map_of_filter_ne: "map_of (filter (\<lambda>u. fst u \<noteq> i) us) j = (if j = i then None else map_of us j)"
  by (induction us) auto

lemma map_of_set_update: "map_of (set_update i p us) j = (if j = i then Some (coalesce (map_of us i) Map.empty ++ p) else map_of us j)"
  by (auto simp: set_update_def map_of_filter_ne)

lemma stage_get_insert:
  assumes "stage_ok s" and "rid r = Some i" and "stage_get s base i = None"
  shows "stage_get (s\<lparr>sg_deletes := filter (\<lambda>k. Some k \<noteq> rid r) (sg_deletes s), sg_inserts := sg_inserts s @ [r]\<rparr>) b j
    = (if j = i then Some r else stage_get s b j)"
proof (cases "j = i")
  case True
  have "List.find (\<lambda>x. rid x = Some i) (sg_inserts s) = None"
  proof (cases "i \<in> set (sg_deletes s)")
    case True
    then show ?thesis using assms(1) by (auto simp: stage_ok_def find_None_iff)
  qed (use assms(3) in \<open>auto simp: stage_get_def split: option.splits\<close>)
  then show ?thesis using True assms(2) by (simp add: stage_get_def find_append)
next
  case False
  then show ?thesis using assms(2) by (simp add: stage_get_def find_append split: option.split)
qed

lemma stage_get_update:
  assumes "stage_ok s" and "p ''id'' = None"
  shows "stage_get (if list_ex (\<lambda>r. rid r = Some i) (sg_inserts s)
      then s\<lparr>sg_inserts := upd_first (\<lambda>r. rid r = Some i) (\<lambda>r. r ++ p) (sg_inserts s)\<rparr>
      else s\<lparr>sg_updates := set_update i p (sg_updates s)\<rparr>) b j
    = (if j = i then map_option (\<lambda>r. r ++ p) (stage_get s b j) else stage_get s b j)"
proof (cases "list_ex (\<lambda>r. rid r = Some i) (sg_inserts s)")
  case True
  then obtain r where "List.find (\<lambda>r. rid r = Some i) (sg_inserts s) = Some r"
    by (cases "List.find (\<lambda>r. rid r = Some i) (sg_inserts s)") (auto simp: find_None_iff list_ex_iff)
  moreover have "j \<noteq> i \<Longrightarrow> List.find (\<lambda>r. rid r = Some j) (upd_first (\<lambda>r. rid r = Some i) (\<lambda>r. r ++ p) (sg_inserts s))
      = List.find (\<lambda>r. rid r = Some j) (sg_inserts s)"
    using assms(2) by (intro find_upd_first_other) auto
  ultimately show ?thesis using True assms(2)
    by (cases "j = i") (auto simp: stage_get_def find_upd_first_same split: option.split)
next
  case False
  then have "List.find (\<lambda>r. rid r = Some i) (sg_inserts s) = None" by (auto simp: find_None_iff list_ex_iff)
  then show ?thesis using False
    by (cases "map_of (sg_updates s) i") (auto simp: stage_get_def map_of_set_update split: option.split)
qed

lemma stage_get_delete:
  "stage_get (s\<lparr>sg_inserts := filter (\<lambda>r. rid r \<noteq> Some i) (sg_inserts s),
     sg_updates := filter (\<lambda>u. fst u \<noteq> i) (sg_updates s),
     sg_deletes := (if i \<in> set (sg_deletes s) then sg_deletes s else i # sg_deletes s)\<rparr>) b j
   = (if j = i then None else stage_get s b j)"
proof -
  have "List.find (\<lambda>r. rid r = Some j) (filter (\<lambda>r. rid r \<noteq> Some i) xs) = List.find (\<lambda>r. rid r = Some j) xs"
    if "j \<noteq> i" for xs
    by (rule find_filter) (use that in auto)
  then show ?thesis by (auto simp: stage_get_def map_of_filter_ne split: option.split)
qed

lemma upd_first_rids: "p ''id'' = None \<Longrightarrow> rid ` set (upd_first P (\<lambda>r. r ++ p) xs) = rid ` set xs"
  by (metis list.set_map rid_upd_first)

lemma stage_ok_update:
  assumes "stage_ok s" and "p ''id'' = None"
  shows "stage_ok (if list_ex (\<lambda>r. rid r = Some i) (sg_inserts s)
      then s\<lparr>sg_inserts := upd_first (\<lambda>r. rid r = Some i) (\<lambda>r. r ++ p) (sg_inserts s)\<rparr>
      else s\<lparr>sg_updates := set_update i p (sg_updates s)\<rparr>)"
proof -
  have "rid r \<in> rid ` set (sg_inserts s)"
    if "r \<in> set (upd_first (\<lambda>r. rid r = Some i) (\<lambda>r. r ++ p) (sg_inserts s))" for r
    using that upd_first_rids [where p = p, OF assms(2)] by blast
  moreover have "(coalesce (map_of (sg_updates s) i) Map.empty ++ p) ''id'' = None"
  proof (cases "map_of (sg_updates s) i")
    case (Some q)
    then have "(i, q) \<in> set (sg_updates s)" by (rule map_of_SomeD)
    then show ?thesis using assms Some by (force simp: stage_ok_def map_add_def)
  qed (use assms in \<open>simp add: map_add_def\<close>)
  ultimately show ?thesis using assms(1) by (fastforce simp: stage_ok_def set_update_def)
qed

interpretation staged: record_store tx_get tx_insert tx_update tx_delete tx_ok
proof
  fix x :: outer_tx and r p :: row and i j :: json and c d :: string
  assume ok: "tx_ok x"
  note st = stage_ok_for [OF ok, of c]
  show "rid r = Some i \<Longrightarrow> tx_get x c i = None \<Longrightarrow>
      tx_get (tx_insert c r x) d j = (if d = c \<and> j = i then Some r else tx_get x d j)"
    unfolding tx_insert_def tx_get_put using stage_get_insert [OF st, of r i] by (simp add: tx_get_stage)
  show "p ''id'' = None \<Longrightarrow> tx_get (tx_update c i p x) d j =
      (if d = c \<and> j = i then map_option (\<lambda>r. r ++ p) (tx_get x d j) else tx_get x d j)"
    unfolding tx_update_def tx_get_put using stage_get_update [OF st, of p i] by (simp add: tx_get_stage)
  show "tx_get (tx_delete c i x) d j = (if d = c \<and> j = i then None else tx_get x d j)"
    unfolding tx_delete_def tx_get_put using stage_get_delete [of i] by (simp add: tx_get_stage)
  show "rid r = Some i \<Longrightarrow> tx_get x c i = None \<Longrightarrow> tx_ok (tx_insert c r x)"
    unfolding tx_insert_def by (rule tx_ok_put [OF ok]) (use st in \<open>auto simp: stage_ok_def\<close>)
  show "p ''id'' = None \<Longrightarrow> tx_ok (tx_update c i p x)"
    unfolding tx_update_def
    by (intro tx_ok_put [OF ok] stage_ok_update [OF st])
  show "tx_ok (tx_delete c i x)"
    unfolding tx_delete_def by (rule tx_ok_put [OF ok]) (use st in \<open>auto simp: stage_ok_def\<close>)
qed

lemma store_get_commit:
  assumes "tx_ok x"
  shows "store_get (commit x) c i = tx_get x c i"
proof (cases "snd x c")
  case None
  then show ?thesis by (simp add: store_get_def commit_def collectionArray_def tx_get_def)
next
  case (Some s)
  then have ok: "stage_ok s" using assms by (simp add: tx_ok_def)
  let ?f = "\<lambda>r. case Option.bind (rid r) (map_of (sg_updates s)) of None \<Rightarrow> r | Some p \<Rightarrow> r ++ p"
  let ?kept = "filter (\<lambda>r. rid r \<notin> Some ` set (sg_deletes s)) (collectionArray (fst x) c)"
  have idf: "rid (?f r) = rid r" for r
    using ok by (auto simp: stage_ok_def split: option.split dest!: map_of_SomeD bind_eq_Some_conv [THEN iffD1])
  have rows: "collectionArray (commit x) c = sg_inserts s @ map ?f ?kept"
    using Some by (simp add: commit_def collectionArray_def commit_rows_def)
  have base: "List.find (\<lambda>r. rid r = Some i) (map ?f ?kept) =
      (if i \<in> set (sg_deletes s) then None else map_option ?f (store_get (fst x) c i))"
  proof (cases "i \<in> set (sg_deletes s)")
    case True
    then have "List.find (\<lambda>r. rid r = Some i) ?kept = None" by (intro find_filter_none) auto
    with True show ?thesis by (subst find_map_same) (simp_all add: idf)
  next
    case False
    then have "List.find (\<lambda>r. rid r = Some i) ?kept = store_get (fst x) c i"
      unfolding store_get_def by (intro find_filter) auto
    with False show ?thesis by (subst find_map_same) (simp_all add: idf)
  qed
  have del: "i \<in> set (sg_deletes s) \<Longrightarrow> List.find (\<lambda>r. rid r = Some i) (sg_inserts s) = None"
    using ok by (auto simp: stage_ok_def find_None_iff)
  have hit: "store_get (fst x) c i = Some b \<Longrightarrow> rid b = Some i" for b
    by (auto simp: store_get_def find_Some_iff)
  have "store_get (commit x) c i = (case List.find (\<lambda>r. rid r = Some i) (sg_inserts s) of
      None \<Rightarrow> (if i \<in> set (sg_deletes s) then None else map_option ?f (store_get (fst x) c i)) | Some r \<Rightarrow> Some r)"
    unfolding store_get_def [of "commit x"] rows find_append base ..
  also have "\<dots> = tx_get x c i"
    using Some del hit by (auto simp: tx_get_def Let_def split: option.split)
  finally show ?thesis .
qed

section \<open>Transactions\<close>

text \<open>A body is a sequence of operations of its handle, nested transactions and possibly a throw.  A nested
  transaction runs on the direct handle.  \<open>insert\<close> throws on a record without id.\<close>

datatype body_op = Op tx_op | Nested "tx_op list" | Throw

definition op_throws :: "tx_op \<Rightarrow> bool" where
  "op_throws op \<longleftrightarrow> (case op of TInsert c r \<Rightarrow> rid r = None \<or> rid r = Some JNull | _ \<Rightarrow> False)"

fun run_direct :: "tx_op list \<Rightarrow> collections \<Rightarrow> bool \<times> collections" where
  "run_direct [] S = (True, S)"
| "run_direct (op # ops) S = (if op_throws op then (False, S) else run_direct ops (direct.step op S))"

fun run_body :: "body_op list \<Rightarrow> outer_tx \<Rightarrow> bool \<times> outer_tx" where
  "run_body [] x = (True, x)"
| "run_body (Op op # ops) x = (if op_throws op then (False, x) else run_body ops (staged.step op x))"
| "run_body (Nested ns # ops) x =
     (case run_direct ns (fst x) of
        (fine, S) \<Rightarrow> if fine then run_body ops (S, snd x) else (False, (S, snd x)))"
| "run_body (Throw # ops) x = (False, x)"

text \<open>The outer transaction: whether it returned, the state, and how often the commit barrier ran.\<close>

definition transaction :: "body_op list \<Rightarrow> collections \<Rightarrow> bool \<times> collections \<times> nat" where
  "transaction body S =
     (case run_body body (S, Map.empty) of
        (True, x) \<Rightarrow> (True, commit x, 1)
      | (False, x) \<Rightarrow> (False, fst x, 0))"

lemma tx_ok_empty: "tx_ok (S, Map.empty)"
  by (simp add: tx_ok_def)

lemma tx_get_empty: "tx_get (S, Map.empty) = store_get S"
  by (intro ext) (simp add: tx_get_def)

lemma staged_base: "fst (staged.step op x) = fst x"
  by (cases op) (simp_all add: tx_insert_def tx_update_def tx_delete_def put_stage_def)

lemma allowed_not_throwing: "spec_allowed op m \<Longrightarrow> \<not> op_throws op"
  by (cases op) (auto simp: op_throws_def split: option.splits)

lemma run_body_ops: "tx_ok x \<Longrightarrow> allowed_run ops (tx_get x) \<Longrightarrow>
    run_body (map Op ops @ rest) x = run_body rest (fold staged.step ops x)"
proof (induction ops arbitrary: x)
  case (Cons op ops)
  then have "tx_get (staged.step op x) = spec_step op (tx_get x) \<and> tx_ok (staged.step op x)"
    using staged.step_refines by simp
  moreover have "\<not> op_throws op" using Cons.prems(2) by (auto dest: allowed_not_throwing)
  ultimately show ?case using Cons by simp
qed simp

lemma run_direct_ops: "allowed_run ops (store_get S) \<Longrightarrow> run_direct ops S = (True, fold direct.step ops S)"
proof (induction ops arbitrary: S)
  case (Cons op ops)
  then have "store_get (direct.step op S) = spec_step op (store_get S)" using direct.step_refines by simp
  moreover have "\<not> op_throws op" using Cons.prems by (auto dest: allowed_not_throwing)
  ultimately show ?case using Cons by simp
qed simp

section \<open>History\<close>

text \<open>\<open>appendHistory\<close> and its queries: rows appended once per collection and id, in the order of a
  sequence number.  \<open>js_text\<close> is the text of an id in a template or \<open>String(..)\<close>.\<close>

definition js_text :: "json \<Rightarrow> string" where
  "js_text j = (case j of JStr s \<Rightarrow> s | _ \<Rightarrow> stringify j)"

record history_entry =
  he_seq :: nat
  he_collection :: string
  he_invocationId :: json
  he_row :: row

record history =
  hi_seq :: nat
  hi_entries :: "history_entry list"
  hi_keys :: "string list"

definition row_get :: "row \<Rightarrow> string \<Rightarrow> json" where
  "row_get r k = coalesce (r k) JNull"

definition historyKeyOf :: "string \<Rightarrow> row \<Rightarrow> string" where
  "historyKeyOf c r = c @ '':'' @ js_text (row_get r ''id'')"

definition scope_of :: "row \<Rightarrow> json" where
  "scope_of r = nullish_or (row_get r ''invocationId'') (nullish_or (row_get r ''subjectId'') (row_get r ''traceId''))"

definition append_row :: "string \<Rightarrow> row \<Rightarrow> nat \<times> history \<Rightarrow> nat \<times> history" where
  "append_row c r acc =
     (case acc of (n, h) \<Rightarrow>
        if row_get r ''id'' = JNull \<or> historyKeyOf c r \<in> set (hi_keys h) then acc
        else (n + 1, h\<lparr>hi_seq := hi_seq h + 1, hi_keys := historyKeyOf c r # hi_keys h,
               hi_entries := hi_entries h @ [\<lparr>he_seq = hi_seq h + 1, he_collection = c,
                 he_invocationId = scope_of r, he_row = r\<rparr>]\<rparr>))"

definition appendHistory :: "string \<Rightarrow> row list \<Rightarrow> history \<Rightarrow> nat \<times> history" where
  "appendHistory c rows h = fold (append_row c) rows (0, h)"

definition scopeMatches :: "json \<Rightarrow> history_entry \<Rightarrow> bool" where
  "scopeMatches scope e \<longleftrightarrow> scope \<noteq> JNull \<and> js_text (he_invocationId e) = js_text scope"

definition entry_key :: "history_entry \<Rightarrow> string" where
  "entry_key e = historyKeyOf (he_collection e) (he_row e)"

definition drop_entries :: "(history_entry \<Rightarrow> bool) \<Rightarrow> history \<Rightarrow> nat \<times> history" where
  "drop_entries P h =
     (length (filter P (hi_entries h)),
      h\<lparr>hi_entries := filter (\<lambda>e. \<not> P e) (hi_entries h),
        hi_keys := filter (\<lambda>k. k \<notin> entry_key ` set (filter P (hi_entries h))) (hi_keys h)\<rparr>)"

definition deleteHistory :: "string \<Rightarrow> json \<Rightarrow> history \<Rightarrow> nat \<times> history" where
  "deleteHistory c scope h =
     (if scope = JNull then (0, h) else drop_entries (\<lambda>e. he_collection e = c \<and> scopeMatches scope e) h)"

definition redactHistory :: "string \<Rightarrow> json \<Rightarrow> (row \<Rightarrow> row) \<Rightarrow> history \<Rightarrow> history" where
  "redactHistory c scope f h =
     (if scope = JNull then h
      else h\<lparr>hi_entries := upd_where (\<lambda>e. he_collection e = c \<and> scopeMatches scope e)
               (\<lambda>e. e\<lparr>he_row := f (he_row e)\<rparr>) (hi_entries h)\<rparr>)"

definition entry_stamp :: "history_entry \<Rightarrow> json" where
  "entry_stamp e = nullish_or (row_get (he_row e) ''createdAt'')
     (nullish_or (row_get (he_row e) ''at'') (row_get (he_row e) ''startedAt''))"

definition reapHistory :: "json \<Rightarrow> history \<Rightarrow> nat \<times> history" where
  "reapHistory before h =
     (if before = JNull then (0, h)
      else drop_entries (\<lambda>e. entry_stamp e \<noteq> JNull \<and> \<not> str_le (js_text before) (js_text (entry_stamp e))) h)"

text \<open>\<open>limit\<close> is \<open>Number.parseInt(limit, 10)\<close>, \<open>None\<close> when it is not a number; \<open>before\<close> a finite number.\<close>

definition history_cap :: "int option \<Rightarrow> nat" where
  "history_cap limit = nat (min 2000 (max 1 (case limit of None \<Rightarrow> 100 | Some n \<Rightarrow> if n = 0 then 100 else n)))"

definition queryHistory ::
    "string \<Rightarrow> json \<Rightarrow> nat option \<Rightarrow> int option \<Rightarrow> bool \<Rightarrow> history \<Rightarrow> row list \<times> nat option" where
  "queryHistory c scope before limit asc h =
     (let cap = history_cap limit;
          hits = filter (\<lambda>e. he_collection e = c
            \<and> (scope = JNull \<or> js_text (he_invocationId e) = js_text scope)
            \<and> (case before of None \<Rightarrow> True | Some b \<Rightarrow> if asc then b < he_seq e else he_seq e < b)) (hi_entries h);
          sorted = sort_by (\<lambda>a b. if asc then he_seq a \<le> he_seq b else he_seq b \<le> he_seq a) hits;
          page = take cap sorted
      in (map he_row page, if cap < length sorted \<and> page \<noteq> [] then Some (he_seq (last page)) else None))"

definition history_ok :: "history \<Rightarrow> bool" where
  "history_ok h \<longleftrightarrow> sorted_wrt (<) (map he_seq (hi_entries h)) \<and> (\<forall>e \<in> set (hi_entries h). he_seq e \<le> hi_seq h)
     \<and> distinct (map entry_key (hi_entries h)) \<and> entry_key ` set (hi_entries h) \<subseteq> set (hi_keys h)"

lemma append_row_ok: "history_ok (snd acc) \<Longrightarrow> history_ok (snd (append_row c r acc))"
  by (cases acc) (auto simp: append_row_def history_ok_def entry_key_def sorted_wrt_append less_Suc_eq_le le_SucI)

lemma append_history_ok: "history_ok h \<Longrightarrow> history_ok (snd (appendHistory c rows h))"
proof -
  have "history_ok (snd acc) \<Longrightarrow> history_ok (snd (fold (append_row c) rows acc))" for acc
    by (induction rows arbitrary: acc) (simp_all add: append_row_ok)
  from this [of "(0, h)"] show "history_ok h \<Longrightarrow> ?thesis" by (simp add: appendHistory_def)
qed

lemma sorted_filter_seq: "sorted_wrt (<) (map he_seq es) \<Longrightarrow> sorted_wrt (<) (map he_seq (filter P es))"
  by (induction es) auto

lemma drop_entries_ok:
  assumes "history_ok h"
  shows "history_ok (snd (drop_entries P h))"
proof -
  have inj: "inj_on entry_key (set (hi_entries h))" and d: "distinct (hi_entries h)"
    using assms by (simp_all add: history_ok_def distinct_map)
  have "entry_key e \<notin> entry_key ` set (filter P (hi_entries h))" if "e \<in> set (hi_entries h)" "\<not> P e" for e
    using inj that by (auto dest: inj_onD)
  moreover have "distinct (map entry_key (filter (\<lambda>e. \<not> P e) (hi_entries h)))"
    using inj d by (auto simp: distinct_map intro: inj_on_subset)
  ultimately show ?thesis
    using assms by (auto simp: history_ok_def drop_entries_def sorted_filter_seq)
qed

lemma redact_ok: "(\<And>r. row_get (f r) ''id'' = row_get r ''id'') \<Longrightarrow> history_ok h \<Longrightarrow> history_ok (redactHistory c scope f h)"
proof -
  assume f: "\<And>r. row_get (f r) ''id'' = row_get r ''id''" and ok: "history_ok h"
  let ?es = "upd_where (\<lambda>e. he_collection e = c \<and> scopeMatches scope e) (\<lambda>e. e\<lparr>he_row := f (he_row e)\<rparr>) (hi_entries h)"
  have seq: "map he_seq ?es = map he_seq (hi_entries h)" and key: "map entry_key ?es = map entry_key (hi_entries h)"
    by (rule map_upd_where; simp add: entry_key_def historyKeyOf_def f)+
  have s1: "he_seq ` set ?es = he_seq ` set (hi_entries h)" using seq by (metis list.set_map)
  have s2: "entry_key ` set ?es = entry_key ` set (hi_entries h)" using key by (metis list.set_map)
  have "he_seq e \<le> hi_seq h" if "e \<in> set ?es" for e
  proof -
    have "he_seq e \<in> he_seq ` set (hi_entries h)" using that s1 by blast
    then show ?thesis using ok by (auto simp: history_ok_def)
  qed
  moreover have "entry_key ` set ?es \<subseteq> set (hi_keys h)" unfolding s2 using ok by (simp add: history_ok_def)
  ultimately show ?thesis using ok seq key by (simp add: redactHistory_def history_ok_def)
qed

datatype history_op =
    HAppend string "row list" | HDelete string json | HReap json | HRedact string json "row \<Rightarrow> row"

fun history_step :: "history_op \<Rightarrow> history \<Rightarrow> history" where
  "history_step (HAppend c rows) h = snd (appendHistory c rows h)"
| "history_step (HDelete c scope) h = snd (deleteHistory c scope h)"
| "history_step (HReap before) h = snd (reapHistory before h)"
| "history_step (HRedact c scope f) h = redactHistory c scope f h"

fun keeps_id :: "history_op \<Rightarrow> bool" where
  "keeps_id (HRedact c scope f) = (\<forall>r. row_get (f r) ''id'' = row_get r ''id'')"
| "keeps_id _ = True"

lemma history_step_ok: "keeps_id op \<Longrightarrow> history_ok h \<Longrightarrow> history_ok (history_step op h)"
  by (cases op) (simp_all add: append_history_ok deleteHistory_def reapHistory_def drop_entries_ok redact_ok)

lemma history_steps_ok: "list_all keeps_id ops \<Longrightarrow> history_ok h \<Longrightarrow> history_ok (fold history_step ops h)"
  by (induction ops arbitrary: h) (simp_all add: history_step_ok)

text \<open>Reading a history page by page, oldest first.\<close>

primrec history_read :: "nat \<Rightarrow> string \<Rightarrow> json \<Rightarrow> nat option \<Rightarrow> int option \<Rightarrow> history \<Rightarrow> row list" where
  "history_read 0 c scope before limit h = []"
| "history_read (Suc n) c scope before limit h =
     (let (rows, next) = queryHistory c scope before limit True h
      in rows @ (case next of None \<Rightarrow> [] | Some b \<Rightarrow> history_read n c scope (Some b) limit h))"

definition history_rows :: "string \<Rightarrow> json \<Rightarrow> history \<Rightarrow> history_entry list" where
  "history_rows c scope h = filter (\<lambda>e. he_collection e = c
     \<and> (scope = JNull \<or> js_text (he_invocationId e) = js_text scope)) (hi_entries h)"

lemma sort_by_sorted: "sorted_wrt le xs \<Longrightarrow> sort_by le xs = xs"
proof (induction xs)
  case (Cons x xs)
  then show ?case by (cases xs) simp_all
qed simp

lemma filter_after:
  assumes "sorted_wrt (<) (map he_seq es)" and "k < length es"
  shows "filter (\<lambda>e. he_seq (es ! k) < he_seq e) es = drop (Suc k) es"
  using assms
proof (induction es arbitrary: k)
  case (Cons e es)
  show ?case
  proof (cases k)
    case 0
    then show ?thesis using Cons.prems by (simp add: filter_id_conv)
  next
    case (Suc m)
    then have "\<not> he_seq (es ! m) < he_seq e" using Cons.prems by (simp add: less_imp_le not_less)
    then show ?thesis using Cons Suc by simp
  qed
qed simp

text \<open>The cursor of the first \<open>k\<close> rows selects the rows behind them.\<close>

definition behind :: "history_entry list \<Rightarrow> nat \<Rightarrow> nat option" where
  "behind es k = (if k = 0 then None else Some (he_seq (es ! (k - 1))))"

lemma query_page:
  assumes "history_ok h" and "k < length (history_rows c scope h) \<or> k = 0"
  shows "queryHistory c scope (behind (history_rows c scope h) k) limit True h =
    (let es = drop k (history_rows c scope h); cap = history_cap limit
     in (map he_row (take cap es), if cap < length es then Some (he_seq (es ! (cap - 1))) else None))"
proof -
  let ?es = "history_rows c scope h"
  have sorted: "sorted_wrt (<) (map he_seq ?es)"
    using assms(1) by (simp add: history_ok_def history_rows_def sorted_filter_seq)
  have cap: "0 < history_cap limit" by (simp add: history_cap_def split: option.split)
  have hits: "filter (\<lambda>e. he_collection e = c
            \<and> (scope = JNull \<or> js_text (he_invocationId e) = js_text scope)
            \<and> (case behind ?es k of None \<Rightarrow> True | Some b \<Rightarrow> if True then b < he_seq e else he_seq e < b))
        (hi_entries h) = drop k ?es"
  proof (cases k)
    case 0
    then show ?thesis by (simp add: behind_def history_rows_def conj_assoc)
  next
    case (Suc m)
    then have "filter (\<lambda>e. he_seq (?es ! m) < he_seq e) ?es = drop k ?es"
      using filter_after [OF sorted, of m] assms(2) by simp
    then have "filter (\<lambda>e. (he_collection e = c \<and> (scope = JNull \<or> js_text (he_invocationId e) = js_text scope))
        \<and> he_seq (?es ! m) < he_seq e) (hi_entries h) = drop k ?es"
      by (simp add: history_rows_def conj_commute)
    then show ?thesis using Suc by (simp add: behind_def conj_assoc)
  qed
  have "sorted_wrt (\<lambda>a b. he_seq a < he_seq b) (drop k ?es)"
    using sorted_wrt_drop [OF sorted, of k] by (simp add: drop_map sorted_wrt_map)
  then have "sorted_wrt (\<lambda>a b. he_seq a \<le> he_seq b) (drop k ?es)"
    by (rule sorted_wrt_mono_rel [rotated]) simp
  then have srt: "sort_by (\<lambda>a b. he_seq a \<le> he_seq b) (drop k ?es) = drop k ?es" by (rule sort_by_sorted)
  have "last (take (history_cap limit) (drop k ?es)) = drop k ?es ! (history_cap limit - 1)"
    if "history_cap limit < length (drop k ?es)"
    using that cap by (subst last_conv_nth) (auto simp: min_def)
  then show ?thesis
    unfolding queryHistory_def Let_def hits using cap by (auto simp: srt)
qed

lemma history_read_from:
  assumes "history_ok h"
  shows "k < length (history_rows c scope h) \<or> k = 0 \<Longrightarrow> length (history_rows c scope h) - k \<le> n * history_cap limit \<Longrightarrow> 0 < n \<Longrightarrow>
    history_read n c scope (behind (history_rows c scope h) k) limit h = map he_row (drop k (history_rows c scope h))"
proof (induction n arbitrary: k)
  case (Suc n)
  let ?es = "history_rows c scope h" and ?cap = "history_cap limit"
  note page = query_page [OF assms Suc.prems(1), of limit, unfolded Let_def]
  show ?case
  proof (cases "?cap < length (drop k ?es)")
    case True
    have cap: "0 < ?cap" by (simp add: history_cap_def split: option.split)
    define v where "v = he_seq (drop k ?es ! (?cap - 1))"
    have b: "behind ?es (k + ?cap) = Some v"
      using True cap by (simp add: behind_def v_def)
    have v: "he_seq (?es ! (k + (?cap - Suc 0))) = v" using True by (simp add: v_def)
    have "0 < n" using True Suc.prems(2) by (cases n) auto
    moreover have "length ?es - (k + ?cap) \<le> n * ?cap" using Suc.prems(2) by simp
    moreover have "k + ?cap < length ?es" using True by simp
    ultimately have "history_read n c scope (behind ?es (k + ?cap)) limit h = map he_row (drop (k + ?cap) ?es)"
      by (intro Suc.IH) simp_all
    then have "history_read (Suc n) c scope (behind ?es k) limit h
        = map he_row (take ?cap (drop k ?es)) @ map he_row (drop (k + ?cap) ?es)"
      unfolding history_read.simps page using True b v by simp
    also have "\<dots> = map he_row (drop k ?es)"
      by (metis append_take_drop_id drop_drop add.commute map_append)
    finally show ?thesis .
  next
    case False
    then show ?thesis by (simp add: page)
  qed
qed simp

section \<open>The properties\<close>

text \<open>C16: a transaction that inserts only absent ids stores what the same writes would store one by one on
  the state itself: every lookup after the commit, and every lookup inside the body, answers as the
  sequential store does, and the durable barrier runs once.  If the body throws, at any point, the state is
  the one it started from and nothing is flushed.\<close>

theorem transaction_refines_direct:
  assumes "allowed_run ops (store_get S)"
  shows "(\<exists>S'. transaction (map Op ops) S = (True, S', 1)
        \<and> store_get S' = store_get (snd (run_direct ops S)) \<and> store_get S' = spec_run ops (store_get S))
    \<and> staged.reads ops (S, Map.empty) = direct.reads ops S
    \<and> staged.reads ops (S, Map.empty) = spec_reads ops (store_get S)
    \<and> transaction (map Op ops @ Throw # rest) S = (False, S, 0)"
proof -
  note st = staged.run_refines [OF tx_ok_empty, of ops S, unfolded tx_get_empty, OF assms]
  note di = direct.run_refines [OF TrueI assms]
  have run: "run_body (map Op ops @ more) (S, Map.empty) = run_body more (fold staged.step ops (S, Map.empty))" for more
    using run_body_ops [OF tx_ok_empty, of ops S more] assms by (simp add: tx_get_empty)
  have "fst (fold staged.step ops x) = fst x" for x
    by (induction ops arbitrary: x) (simp_all add: staged_base)
  then have throw: "transaction (map Op ops @ Throw # rest) S = (False, S, 0)"
    using run [of "Throw # rest"] by (simp add: transaction_def)
  have "transaction (map Op ops) S = (True, commit (fold staged.step ops (S, Map.empty)), 1)"
    using run [of "[]"] by (simp add: transaction_def)
  moreover have "store_get (commit (fold staged.step ops (S, Map.empty))) = spec_run ops (store_get S)"
    using st store_get_commit by (metis ext)
  ultimately show ?thesis using st di throw run_direct_ops [OF assms] by simp
qed

text \<open>A defect: deleting a stored row and inserting its successor under the same id within one transaction
  leaves both rows in the collection, because the insert takes the delete back; done one by one the
  collection holds the new row alone.\<close>

theorem reinsert_keeps_old_row:
  assumes "S c = Some [old]" and "rid old = Some i" and "rid new = Some i" and "i \<noteq> JNull"
  shows "transaction [Op (TDelete c i), Op (TInsert c new)] S = (True, S(c := Some [new, old]), 1)
    \<and> snd (run_direct [TDelete c i, TInsert c new] S) = S(c := Some [new])"
proof -
  have "op_throws (TDelete c i) = False" "op_throws (TInsert c new) = False"
    using assms(3,4) by (simp_all add: op_throws_def)
  then show ?thesis using assms
    by (auto simp: transaction_def tx_insert_def tx_delete_def put_stage_def stageFor_def newStage_def commit_def
        commit_rows_def collectionArray_def direct_delete_def direct_insert_def fun_eq_iff)
qed

text \<open>A divergence from the header: rows inserted in one transaction end up oldest first, while the direct
  handle and every unshift put the newest first.\<close>

lemma insert_order:
  assumes "S c = Some rows" and "rid a = Some i" and "rid b = Some j" and "i \<noteq> j" and "i \<noteq> JNull" and "j \<noteq> JNull"
    and "\<forall>r \<in> set rows. rid r \<noteq> Some i \<and> rid r \<noteq> Some j"
  shows "collectionArray (fst (snd (transaction [Op (TInsert c a), Op (TInsert c b)] S))) c = [a, b] @ rows
    \<and> collectionArray (snd (run_direct [TInsert c a, TInsert c b] S)) c = [b, a] @ rows"
proof -
  have "op_throws (TInsert c a) = False" "op_throws (TInsert c b) = False"
    using assms by (simp_all add: op_throws_def)
  moreover have "filter (\<lambda>r. rid r \<noteq> Some i) rows = rows" "filter (\<lambda>r. rid r \<noteq> Some j) rows = rows"
    using assms(7) by (auto simp: filter_id_conv)
  ultimately show ?thesis using assms(1-6)
    by (simp add: transaction_def tx_insert_def put_stage_def stageFor_def newStage_def commit_def
        commit_rows_def collectionArray_def direct_insert_def)
qed

text \<open>The history holds a row once per collection and id through any sequence of appends, erasures,
  retention sweeps and redactions, and reading it page by page, each page from the cursor of the one before,
  gives every matching row exactly once in the order it was appended.\<close>

theorem history_once_and_paged:
  assumes "history_ok h" and "list_all keeps_id ops"
    and "length (history_rows c scope (fold history_step ops h)) \<le> n * history_cap limit" and "0 < n"
  shows "let h' = fold history_step ops h
    in distinct (map entry_key (hi_entries h')) \<and> sorted_wrt (<) (map he_seq (hi_entries h'))
       \<and> history_read n c scope None limit h' = map he_row (history_rows c scope h')
       \<and> hi_entries (snd (appendHistory c (map he_row (history_rows c JNull h')) h')) = hi_entries h'"
proof -
  let ?h = "fold history_step ops h"
  have ok: "history_ok ?h" by (rule history_steps_ok [OF assms(2,1)])
  have "\<forall>r \<in> set (map he_row (history_rows c JNull ?h)). historyKeyOf c r \<in> set (hi_keys ?h)"
    using ok by (auto simp: history_ok_def history_rows_def entry_key_def)
  then have "\<forall>r \<in> set rows. historyKeyOf c r \<in> set (hi_keys ?h) \<Longrightarrow> fold (append_row c) rows (0, ?h) = (0, ?h)" for rows
    by (induction rows) (simp_all add: append_row_def)
  then have "snd (appendHistory c (map he_row (history_rows c JNull ?h)) ?h) = ?h"
    using \<open>\<forall>r \<in> set (map he_row (history_rows c JNull ?h)). historyKeyOf c r \<in> set (hi_keys ?h)\<close>
    by (simp add: appendHistory_def)
  then show ?thesis
    using ok history_read_from [OF ok, of 0 c scope n limit] assms(3,4)
    by (simp add: history_ok_def behind_def Let_def)
qed

section \<open>Witnesses\<close>

definition demo_row :: "string \<Rightarrow> row" where
  "demo_row i = [''id'' \<mapsto> JStr i]"

lemma demo_rid [simp]: "rid (demo_row i) = Some (JStr i)"
  by (simp add: rid_def demo_row_def)

theorem transaction_refines_direct_witness:
  "\<exists>S'. transaction (map Op [TInsert ''runs'' (demo_row ''r2''), TDelete ''runs'' (JStr ''r1''), TGet ''runs'' (JStr ''r2'')])
       [''runs'' \<mapsto> [demo_row ''r1'']] = (True, S', 1)
     \<and> store_get S' ''runs'' (JStr ''r2'') = Some (demo_row ''r2'') \<and> store_get S' ''runs'' (JStr ''r1'') = None"
proof -
  let ?ops = "[TInsert ''runs'' (demo_row ''r2''), TDelete ''runs'' (JStr ''r1''), TGet ''runs'' (JStr ''r2'')]"
  let ?S = "[''runs'' \<mapsto> [demo_row ''r1'']]"
  have "allowed_run ?ops (store_get ?S)" by (simp add: store_get_def collectionArray_def)
  note t = conjunct1 [OF transaction_refines_direct [OF this]]
  have "spec_run ?ops (store_get ?S) ''runs'' (JStr ''r2'') = Some (demo_row ''r2'')"
    "spec_run ?ops (store_get ?S) ''runs'' (JStr ''r1'') = None" by simp_all
  with t show ?thesis by metis
qed

theorem reinsert_keeps_old_row_witness:
  "transaction [Op (TDelete ''runs'' (JStr ''r1'')), Op (TInsert ''runs'' ((demo_row ''r1'')(''a'' \<mapsto> JNull)))]
      [''runs'' \<mapsto> [demo_row ''r1'']]
    = (True, [''runs'' \<mapsto> [(demo_row ''r1'')(''a'' \<mapsto> JNull), demo_row ''r1'']], 1)"
  using reinsert_keeps_old_row [of "[''runs'' \<mapsto> [demo_row ''r1'']]" "''runs''" "demo_row ''r1''" "JStr ''r1''"
      "(demo_row ''r1'')(''a'' \<mapsto> JNull)"]
  by (simp add: rid_def demo_row_def)

theorem history_once_and_paged_witness:
  "history_read 2 ''events'' JNull None (Some 1) (fold history_step [HAppend ''events'' [demo_row ''e1'', demo_row ''e1'', demo_row ''e2'']]
     \<lparr>hi_seq = 0, hi_entries = [], hi_keys = []\<rparr>) = [demo_row ''e1'', demo_row ''e2'']"
proof -
  let ?h = "\<lparr>hi_seq = 0, hi_entries = [], hi_keys = []\<rparr>"
  let ?ops = "[HAppend ''events'' [demo_row ''e1'', demo_row ''e1'', demo_row ''e2'']]"
  have ok: "history_ok ?h" "list_all keeps_id ?ops" by (simp_all add: history_ok_def)
  have ids: "row_get (demo_row i) ''id'' = JStr i" for i by (simp add: row_get_def demo_row_def)
  have rows: "map he_row (history_rows ''events'' JNull (fold history_step ?ops ?h)) = [demo_row ''e1'', demo_row ''e2'']"
    by (simp add: appendHistory_def append_row_def ids historyKeyOf_def js_text_def history_rows_def)
  then have len: "length (history_rows ''events'' JNull (fold history_step ?ops ?h)) \<le> 2 * history_cap (Some 1)"
    using arg_cong [OF rows, of length] unfolding length_map by (simp add: history_cap_def)
  show ?thesis
    using history_once_and_paged [OF ok len] rows unfolding Let_def by simp
qed

end
