(* ===== verification/ArgvText.thy ===== *)
theory ArgvText
  imports JsText
begin

text \<open>
  What the argv policies of the device and of the server use of the JavaScript and Node libraries: anchored
  patterns over a closed character class, \<open>split\<close> on separators, \<open>String(value)\<close> of a JSON value, and
  \<open>path.resolve\<close> on a POSIX device (\<open>sep\<close> is the slash).  The working directory of the process is absolute.
\<close>

section \<open>Patterns\<close>

definition between :: "char \<Rightarrow> char \<Rightarrow> char \<Rightarrow> bool" where
  "between a b c \<longleftrightarrow> (of_char a :: nat) \<le> of_char c \<and> (of_char c :: nat) \<le> of_char b"

definition is_lower :: "char \<Rightarrow> bool" where
  "is_lower = between (CHR ''a'') (CHR ''z'')"

definition is_alpha :: "char \<Rightarrow> bool" where
  "is_alpha c \<longleftrightarrow> is_lower c \<or> between (CHR ''A'') (CHR ''Z'') c"

definition is_alnum :: "char \<Rightarrow> bool" where
  "is_alnum c \<longleftrightarrow> is_alpha c \<or> dec_digit c"

definition matches :: "(char \<Rightarrow> bool) list \<Rightarrow> string \<Rightarrow> bool" where
  "matches ps s \<longleftrightarrow> list_all2 (\<lambda>p c. p c) ps s"

text \<open>\<open>[first][more]{lo,hi}\<close>, anchored at both ends.\<close>

definition class_run :: "(char \<Rightarrow> bool) \<Rightarrow> (char \<Rightarrow> bool) \<Rightarrow> nat \<Rightarrow> string \<Rightarrow> bool" where
  "class_run first more hi s \<longleftrightarrow> (case s of [] \<Rightarrow> False | c # r \<Rightarrow> first c \<and> length r \<le> hi \<and> list_all more r)"

fun contains :: "string \<Rightarrow> string \<Rightarrow> bool" where
  "contains [] p = (p = [])"
| "contains (c # s) p = (starts_with (c # s) p \<or> contains s p)"

fun split_at :: "(char \<Rightarrow> bool) \<Rightarrow> string \<Rightarrow> string list" where
  "split_at P [] = [[]]"
| "split_at P (c # s) =
     (if P c then [] # split_at P s
      else (case split_at P s of [] \<Rightarrow> [[c]] | w # ws \<Rightarrow> (c # w) # ws))"

abbreviation slash :: char where "slash \<equiv> CHR ''/''"

definition is_slash :: "char \<Rightarrow> bool" where
  "is_slash c \<longleftrightarrow> c = slash \<or> c = backslash"

lemma starts_with_Nil [simp]: "starts_with s []"
  by (simp add: starts_with_def)

lemma starts_with_self [simp]: "starts_with (p @ s) p"
  by (simp add: starts_with_def)

lemma starts_with_iff: "starts_with s p \<longleftrightarrow> (\<exists>r. s = p @ r)"
  unfolding starts_with_def by (metis append_take_drop_id append_eq_conv_conj)

lemma starts_with_trans: "starts_with s p \<Longrightarrow> starts_with p q \<Longrightarrow> starts_with s q"
  by (auto simp: starts_with_iff)

lemma ends_with_iff: "ends_with s p \<longleftrightarrow> (\<exists>r. s = r @ p)"
proof
  assume "ends_with s p"
  then have "s = take (length s - length p) s @ p"
    unfolding ends_with_def by (metis append_take_drop_id)
  then show "\<exists>r. s = r @ p" by blast
qed (auto simp: ends_with_def)

lemma split_at_ne [simp]: "split_at P s \<noteq> []"
  by (induction s) (auto split: list.splits)

lemma split_at_append: "P c \<Longrightarrow> split_at P (s @ c # t) = split_at P s @ split_at P t"
  by (induction s) (auto split: list.splits)

lemma split_at_plain: "list_all (\<lambda>c. \<not> P c) s \<Longrightarrow> split_at P s = [s]"
  by (induction s) auto

text \<open>A coarser separator set cuts into words that a finer one either keeps or cuts further.\<close>

lemma split_at_finer:
  assumes "w \<in> set (split_at Q s)" and "\<And>c. Q c \<Longrightarrow> P c" and "list_all (\<lambda>c. \<not> P c) w"
  shows "w \<in> set (split_at P s)"
proof -
  have "(list_all (\<lambda>c. \<not> P c) (hd (split_at Q s)) \<longrightarrow> hd (split_at P s) = hd (split_at Q s))
      \<and> (\<forall>w \<in> set (tl (split_at Q s)). list_all (\<lambda>c. \<not> P c) w \<longrightarrow> w \<in> set (tl (split_at P s)))"
  proof (induction s)
    case (Cons c s)
    obtain v vs u us where "split_at Q s = v # vs" "split_at P s = u # us"
      by (metis list.exhaust split_at_ne)
    with Cons show ?case using assms(2) [of c] by auto
  qed simp
  moreover obtain v vs u us where "split_at Q s = v # vs" "split_at P s = u # us"
    by (metis list.exhaust split_at_ne)
  ultimately show ?thesis using assms(1,3) by auto
qed

section \<open>\<open>String(value)\<close>\<close>

fun jv_string :: "jval \<Rightarrow> string" where
  "jv_string VNull = ''null''"
| "jv_string (VBool b) = (if b then ''true'' else ''false'')"
| "jv_string (VNum n k) = num_text n k"
| "jv_string (VStr s) = s"
| "jv_string (VArr xs) = join '','' (map (\<lambda>x. if x = VNull then [] else jv_string x) xs)"
| "jv_string (VObj kvs) = ''[object Object]''"

text \<open>\<open>String(value ?? "")\<close>\<close>

definition vtext :: "jval \<Rightarrow> string" where
  "vtext v = (if v = VNull then [] else jv_string v)"

lemma vtext_VStr [simp]: "vtext (VStr s) = s"
  by (simp add: vtext_def)

lemma vtext_VNull [simp]: "vtext VNull = []"
  by (simp add: vtext_def)

fun is_vobj :: "jval \<Rightarrow> bool" where
  "is_vobj (VObj kvs) = True"
| "is_vobj v = False"

section \<open>\<open>trim\<close> and \<open>toLowerCase\<close>\<close>

lemma js_trim_length: "length (js_trim s) \<le> length s"
  unfolding js_trim_def by (metis length_dropWhile_le length_rev le_trans)

lemma dropWhile_suffix: "\<exists>a. s = a @ dropWhile P s"
  by (metis takeWhile_dropWhile_id)

lemma js_trim_sub: "\<exists>a b. s = a @ js_trim s @ b"
proof -
  let ?t = "dropWhile js_space s"
  obtain a where a: "s = a @ ?t" using dropWhile_suffix by blast
  obtain b where "rev ?t = b @ dropWhile js_space (rev ?t)" using dropWhile_suffix by blast
  then have "?t = rev (dropWhile js_space (rev ?t)) @ rev b" by (metis rev_append rev_rev_ident)
  then have "?t = js_trim s @ rev b" by (simp add: js_trim_def)
  with a show ?thesis by metis
qed

lemma set_js_trim: "set (js_trim s) \<subseteq> set s"
  using js_trim_sub [of s] by (metis Un_iff set_append subsetI)

lemma js_trim_Nil [simp]: "js_trim [] = []"
  by (simp add: js_trim_def)

lemma js_trim_plain:
  assumes "s = [] \<or> \<not> js_space (hd s) \<and> \<not> js_space (last s)"
  shows "js_trim s = s"
proof -
  have keep: "dropWhile js_space t = t" if "t = [] \<or> \<not> js_space (hd t)" for t
    using that by (cases t) auto
  have "dropWhile js_space s = s" "dropWhile js_space (rev s) = rev s"
    using assms by (auto intro!: keep simp: hd_rev)
  then show ?thesis by (simp add: js_trim_def)
qed

lemma js_trim_trim: "js_trim (js_trim s) = js_trim s"
proof -
  let ?t = "dropWhile js_space s"
  have "js_trim s = [] \<or> \<not> js_space (hd (js_trim s)) \<and> \<not> js_space (last (js_trim s))"
  proof (cases "js_trim s")
    case (Cons c r)
    then have ne: "dropWhile js_space (rev ?t) \<noteq> []" by (auto simp: js_trim_def)
    have "\<not> js_space (last (js_trim s))"
      using hd_dropWhile [OF ne] by (simp add: js_trim_def last_rev)
    moreover have "\<exists>b. ?t = js_trim s @ b"
      unfolding js_trim_def using dropWhile_suffix [of "rev ?t" js_space] by (metis rev_append rev_rev_ident)
    then obtain b where b: "?t = js_trim s @ b" by blast
    then have "?t \<noteq> []" "hd ?t = hd (js_trim s)" using Cons by (cases "js_trim s"; simp)+
    then have "\<not> js_space (hd (js_trim s))" using hd_dropWhile [of js_space s] by simp
    ultimately show ?thesis by simp
  qed simp
  then show ?thesis by (rule js_trim_plain)
qed

section \<open>\<open>path\<close> on a POSIX device\<close>

definition isAbsolute :: "string \<Rightarrow> bool" where
  "isAbsolute p \<longleftrightarrow> starts_with p ''/''"

text \<open>One segment of a path: empty and \<open>.\<close> stay, \<open>..\<close> climbs and stops at the root.\<close>

definition path_step :: "string list \<Rightarrow> string \<Rightarrow> string list" where
  "path_step st seg = (if seg = [] \<or> seg = ''.'' then st else if seg = ''..'' then butlast st else st @ [seg])"

definition path_walk :: "string list \<Rightarrow> string \<Rightarrow> string list" where
  "path_walk st p = foldl path_step st (split_at (\<lambda>c. c = slash) p)"

definition render :: "string list \<Rightarrow> string" where
  "render segs = slash # join ''/'' segs"

text \<open>\<open>path.resolve(p)\<close> in a process whose working directory is \<open>base\<close>.\<close>

definition resolve :: "string \<Rightarrow> string \<Rightarrow> string" where
  "resolve base p = render (if isAbsolute p then path_walk [] p else path_walk (path_walk [] base) p)"

definition pathWithin :: "string \<Rightarrow> string \<Rightarrow> string \<Rightarrow> bool" where
  "pathWithin base root target =
     (let r = resolve base root; t = resolve base target in t = r \<or> starts_with t (r @ ''/''))"

lemma path_walk_extends:
  assumes "''..'' \<notin> set (split_at (\<lambda>c. c = slash) p)"
  shows "\<exists>E. path_walk st p = st @ E"
proof -
  have "\<exists>E. foldl path_step st segs = st @ E" if "''..'' \<notin> set segs" for segs
    using that
  proof (induction segs arbitrary: st)
    case (Cons seg segs)
    then obtain E where "foldl path_step (path_step st seg) segs = path_step st seg @ E" by auto
    moreover have "\<exists>D. path_step st seg = st @ D" using Cons.prems by (auto simp: path_step_def)
    ultimately show ?case by auto
  qed simp
  then show ?thesis using assms by (simp add: path_walk_def)
qed

lemma join_append: "xs \<noteq> [] \<Longrightarrow> ys \<noteq> [] \<Longrightarrow> join sep (xs @ ys) = join sep xs @ sep @ join sep ys"
proof (induction xs)
  case (Cons x xs)
  then show ?case by (cases xs; cases ys) simp_all
qed simp

lemma render_extends: "st \<noteq> [] \<Longrightarrow> render (st @ E) = render st \<or> starts_with (render (st @ E)) (render st @ ''/'')"
  by (cases "E = []") (auto simp: render_def join_append starts_with_iff)

lemma resolve_absolute: "isAbsolute p \<Longrightarrow> resolve b p = resolve b' p"
  by (simp add: resolve_def)

text \<open>A relative path with no climbing segment stays below the directory it is resolved against.\<close>

lemma resolve_below:
  assumes "\<not> isAbsolute p" and "''..'' \<notin> set (split_at (\<lambda>c. c = slash) p)"
    and "resolve b c \<noteq> ''/''" and "isAbsolute c"
  shows "resolve c p = resolve b c \<or> starts_with (resolve c p) (resolve b c @ ''/'')"
proof -
  obtain E where E: "path_walk (path_walk [] c) p = path_walk [] c @ E"
    using path_walk_extends [OF assms(2)] by blast
  have "path_walk [] c \<noteq> []" using assms(3,4) by (auto simp: resolve_def render_def)
  then show ?thesis using render_extends [of "path_walk [] c" E] assms(1,4) E by (simp add: resolve_def)
qed

text \<open>\<open>r\<close> is the directory \<open>d\<close> or below it.\<close>

definition below :: "string \<Rightarrow> string \<Rightarrow> bool" where
  "below d r \<longleftrightarrow> r = d \<or> starts_with r (d @ ''/'')"

lemma pathWithin_below: "pathWithin base root target \<longleftrightarrow> below (resolve base root) (resolve base target)"
  by (simp add: pathWithin_def below_def Let_def)

lemma below_trans: "below d r \<Longrightarrow> below r t \<Longrightarrow> below d t"
  by (auto simp: below_def starts_with_iff)

lemma below_root: "below d ''/'' \<Longrightarrow> d \<noteq> ''/'' \<Longrightarrow> d = []"
  by (cases d) (auto simp: below_def starts_with_iff)

lemma resolve_ne [simp]: "resolve b p \<noteq> []"
  by (simp add: resolve_def render_def)

end
