(* ===== verification/WrapperPlan.thy ===== *)
theory WrapperPlan
  imports Grants ArgvText
begin

text \<open>
  How the server turns a registered application command and a caller's input into the argv a device is asked
  to run: the wrapper part of services/applications.mjs and the canonical registrations of git, ccusage,
  pdfcpu, OfficeCLI and the Excalidraw CLI.  A descriptor is typed: its fields have the types they declare,
  optional ones are \<open>None\<close>.  The input is a JSON value.  The tokens are built by \<open>resolveWrapperInputArgs\<close>;
  a value passes only through the validator of its declared type.
\<close>

section \<open>Descriptors and commands\<close>

record arg_input =
  ai_key :: string
  ai_flag :: "string option"
  ai_positional :: bool
  ai_type :: string
  ai_values :: "string list"
  ai_verbs :: "string list"

record command_desc =
  cd_id :: string
  cd_commandType :: "string option"
  cd_command :: string
  cd_segment :: "string option"
  cd_argOrder :: "string option"
  cd_args :: "string list"
  cd_cwd :: "string option"
  cd_cwdPolicy :: "string option"
  cd_status :: "string option"
  cd_riskLevel :: "string option"
  cd_requiresApproval :: "bool option"
  cd_argInputs :: "arg_input list"
  cd_timeoutSeconds :: "int option"
  cd_filePolicy :: "string option"
  cd_networkPolicy :: "string option"

record wrapper_command =
  wc_id :: string
  wc_commandType :: string
  wc_command :: string
  wc_segment :: string
  wc_argOrder :: string
  wc_args :: "string list"
  wc_cwd :: string
  wc_cwdPolicy :: string
  wc_status :: string
  wc_riskLevel :: string
  wc_requiresApproval :: bool
  wc_argInputs :: "arg_input list"
  wc_timeoutSeconds :: int
  wc_filePolicy :: string
  wc_networkPolicy :: string

record registered_app =
  app_id :: string
  app_status :: string
  app_projectId :: "string option"
  app_ownerTeamId :: "string option"
  app_wrapper :: "wrapper_command list option"

section \<open>Normalisation at registration\<close>

definition WRAPPER_ARG_INPUT_TYPES :: "string list" where
  "WRAPPER_ARG_INPUT_TYPES = [''date'', ''token'', ''enum'', ''string'', ''office_file'', ''pdf_file'', ''csv_file'',
     ''excalidraw_file'', ''png_file'', ''boolean-flag'', ''git-rev'', ''count'', ''props'', ''json_commands'', ''json_data'']"

definition RESERVED_WRAPPER_ARG_INPUT_KEYS :: "string list" where
  "RESERVED_WRAPPER_ARG_INPUT_KEYS = [''approvalToken'', ''idempotencyKey'', ''permissionLevel'', ''permissionMode'',
     ''applicationWrapper'', ''automationId'', ''scheduled'', ''projectId'', ''worktreeId'']"

definition slug_char :: "char \<Rightarrow> bool" where
  "slug_char c \<longleftrightarrow> is_lower c \<or> dec_digit c \<or> c \<in> {CHR ''.'', CHR ''_'', CHR ''-''}"

text \<open>\<open>replace(/[^a-z0-9._-]+/g, "-")\<close>: a run of other characters becomes one dash.\<close>

fun slug_runs :: "bool \<Rightarrow> string \<Rightarrow> string" where
  "slug_runs run [] = []"
| "slug_runs run (c # s) =
     (if slug_char c then c # slug_runs False s else if run then slug_runs True s else CHR ''-'' # slug_runs True s)"

definition strip_dashes :: "string \<Rightarrow> string" where
  "strip_dashes s = rev (dropWhile (\<lambda>c. c = CHR ''-'') (rev (dropWhile (\<lambda>c. c = CHR ''-'') s)))"

definition slugify :: "string \<Rightarrow> string" where
  "slugify v = take 72 (strip_dashes (slug_runs False (js_lower (js_trim v))))"

definition stringOrNull :: "string option \<Rightarrow> string option" where
  "stringOrNull v = (let text = js_trim (coalesce v []) in if text = [] then None else Some text)"

definition normalizeStringList :: "string list \<Rightarrow> string list" where
  "normalizeStringList xs = take 20 (filter (\<lambda>s. s \<noteq> []) (map js_trim xs))"

definition one_of :: "string list \<Rightarrow> string \<Rightarrow> string option \<Rightarrow> string" where
  "one_of allowed fallback v = (let text = js_trim (coalesce v []) in if text \<in> set allowed then text else fallback)"

definition normalizeWrapperCommandType :: "string option \<Rightarrow> string" where
  "normalizeWrapperCommandType = one_of [''npm_script'', ''bin'', ''custom''] ''custom''"

definition normalizeWrapperCommandStatus :: "string option \<Rightarrow> string" where
  "normalizeWrapperCommandStatus = one_of [''draft'', ''approved'', ''disabled''] ''draft''"

definition normalizeWrapperCwdPolicy :: "string option \<Rightarrow> string" where
  "normalizeWrapperCwdPolicy v = (if js_trim (coalesce v []) = ''invocation_root'' then ''invocation_root'' else ''fixed'')"

definition normalizeTimeoutSeconds :: "int option \<Rightarrow> int" where
  "normalizeTimeoutSeconds v = max 1 (min 600 (coalesce v 30))"

definition normalizeAccessPolicy :: "string option \<Rightarrow> string \<Rightarrow> string" where
  "normalizeAccessPolicy v fallback = one_of [''forbidden'', ''read_only'', ''workspace_write'', ''network''] fallback v"

definition normalizeRiskLevel :: "string option \<Rightarrow> string \<Rightarrow> string" where
  "normalizeRiskLevel v fallback =
     (let text = js_lower (js_trim (coalesce v [])) in if text \<in> set [''low'', ''medium'', ''high'', ''critical''] then text else fallback)"

definition input_key_ok :: "string \<Rightarrow> bool" where
  "input_key_ok = class_run is_alpha (\<lambda>c. is_alnum c \<or> c = CHR ''_'') 39"

definition long_flag_ok :: "string \<Rightarrow> bool" where
  "long_flag_ok f \<longleftrightarrow> starts_with f ''--''
     \<and> (case drop 2 f of [] \<Rightarrow> False | c # r \<Rightarrow> (is_lower c \<or> dec_digit c) \<and> list_all (\<lambda>c. is_lower c \<or> dec_digit c \<or> c = CHR ''-'') r)"

definition normalizeArgInput :: "nat \<Rightarrow> arg_input \<Rightarrow> string + arg_input" where
  "normalizeArgInput index entry =
     (let key = js_trim (ai_key entry);
          flag = js_trim (coalesce (ai_flag entry) []);
          type' = (if ai_type entry \<in> set WRAPPER_ARG_INPUT_TYPES then ai_type entry else ''token'')
      in if \<not> input_key_ok key
         then Inl (''NPM wrapper argInput at index '' @ show_nat index @ '' requires an alphanumeric key.'')
         else if key \<in> set RESERVED_WRAPPER_ARG_INPUT_KEYS
         then Inl (''NPM wrapper argInput '' @ key @ '' uses a reserved control-plane key.'')
         else if ai_positional entry \<and> coalesce (ai_flag entry) [] \<noteq> []
         then Inl (''NPM wrapper argInput '' @ key @ '' cannot be both positional and a --flag.'')
         else if \<not> ai_positional entry \<and> \<not> long_flag_ok flag
         then Inl (''NPM wrapper argInput '' @ key @ '' requires a valid --flag.'')
         else Inr \<lparr>ai_key = key, ai_flag = (if ai_positional entry then None else Some flag),
                   ai_positional = ai_positional entry, ai_type = type',
                   ai_values = (if type' = ''enum'' then normalizeStringList (ai_values entry) else []),
                   ai_verbs = (if type' = ''json_commands'' then normalizeStringList (ai_verbs entry) else [])\<rparr>)"

text \<open>\<open>map\<close> with a function that may throw.\<close>

fun map_from :: "nat \<Rightarrow> (nat \<Rightarrow> 'a \<Rightarrow> 'e + 'b) \<Rightarrow> 'a list \<Rightarrow> 'e + 'b list" where
  "map_from i f [] = Inr []"
| "map_from i f (x # xs) =
     (case f i x of Inl e \<Rightarrow> Inl e
      | Inr y \<Rightarrow> (case map_from (Suc i) f xs of Inl e \<Rightarrow> Inl e | Inr ys \<Rightarrow> Inr (y # ys)))"

definition normalizeWrapperArgInputs :: "arg_input list \<Rightarrow> string + arg_input list" where
  "normalizeWrapperArgInputs argInputs = map_from 0 normalizeArgInput (take 20 argInputs)"

definition normalizeWrapperCommand :: "nat \<Rightarrow> command_desc \<Rightarrow> string + wrapper_command" where
  "normalizeWrapperCommand index c =
     (let ident = slugify (cd_id c);
          commandType = normalizeWrapperCommandType (Some (coalesce (cd_commandType c) ''custom''));
          filePolicy = normalizeAccessPolicy (cd_filePolicy c) ''read_only''
      in if ident = []
         then Inl (''NPM wrapper command at index '' @ show_nat index @ '' requires id, name, script, or bin.'')
         else (case stringOrNull (Some (cd_command c)) of
                 None \<Rightarrow> Inl (''NPM wrapper command '' @ ident @ '' requires command, script, or bin.'')
               | Some commandText \<Rightarrow>
                   (case normalizeWrapperArgInputs (cd_argInputs c) of
                      Inl e \<Rightarrow> Inl e
                    | Inr inputs \<Rightarrow>
                        Inr \<lparr>wc_id = ident, wc_commandType = commandType, wc_command = commandText,
                             wc_segment = (if cd_segment c = Some ''apply'' then ''apply'' else ''wrapper''),
                             wc_argOrder = (if cd_argOrder c = Some ''positionals_first'' then ''positionals_first'' else ''flags_first''),
                             wc_args = normalizeStringList (cd_args c),
                             wc_cwd = coalesce (stringOrNull (cd_cwd c)) ''.'',
                             wc_cwdPolicy = normalizeWrapperCwdPolicy (cd_cwdPolicy c),
                             wc_status = normalizeWrapperCommandStatus (cd_status c),
                             wc_riskLevel = normalizeRiskLevel (cd_riskLevel c) (if commandType = ''npm_script'' then ''medium'' else ''high''),
                             wc_requiresApproval =
                               (if cd_segment c = Some ''apply'' \<or> filePolicy = ''workspace_write'' then True
                                else cd_requiresApproval c \<noteq> Some False),
                             wc_argInputs = inputs,
                             wc_timeoutSeconds = normalizeTimeoutSeconds (cd_timeoutSeconds c),
                             wc_filePolicy = filePolicy,
                             wc_networkPolicy = normalizeAccessPolicy (cd_networkPolicy c) ''forbidden''\<rparr>)))"

definition normalizeWrapperCommands :: "command_desc list \<Rightarrow> string + wrapper_command list" where
  "normalizeWrapperCommands commands = map_from 0 normalizeWrapperCommand (take 30 commands)"

text \<open>A binary source: a bare program name, and every command invokes it.\<close>

definition binary_name_ok :: "string \<Rightarrow> bool" where
  "binary_name_ok = class_run is_lower (\<lambda>c. is_lower c \<or> dec_digit c \<or> c = CHR ''_'' \<or> c = CHR ''-'') 31"

abbreviation quoted :: "string \<Rightarrow> string" where
  "quoted s \<equiv> dquote # s @ [dquote]"

definition normalizeBinarySource :: "string \<Rightarrow> command_desc list \<Rightarrow> string + wrapper_command list" where
  "normalizeBinarySource name commands =
     (let binary = js_trim name
      in if \<not> binary_name_ok binary
         then Inl ''Binary application source must be a bare program name (no path separators or absolute paths).''
         else (case normalizeWrapperCommands commands of
                 Inl e \<Rightarrow> Inl e
               | Inr cs \<Rightarrow>
                   (case List.find (\<lambda>c. wc_command c \<noteq> binary) cs of
                      Some c \<Rightarrow> Inl (''Binary application command '' @ quoted (wc_id c) @ '' must invoke '' @ quoted binary @ '', not '' @ quoted (wc_command c) @ ''.'')
                    | None \<Rightarrow> Inr cs)))"

section \<open>Validators of the server\<close>

definition has_newline :: "string \<Rightarrow> bool" where
  "has_newline s \<longleftrightarrow> list_ex (\<lambda>c. c = CHR 0x0D \<or> c = CHR 0x0A) s"

definition has_control :: "string \<Rightarrow> bool" where
  "has_control s \<longleftrightarrow> list_ex (\<lambda>c. c = CHR 0x0D \<or> c = CHR 0x0A \<or> c = CHR 0x00) s"

definition drive_prefix :: "string \<Rightarrow> bool" where
  "drive_prefix s \<longleftrightarrow> (case s of c # d # r \<Rightarrow> is_alpha c \<and> d = CHR '':'' | _ \<Rightarrow> False)"

definition scheme_prefix :: "string \<Rightarrow> bool" where
  "scheme_prefix s \<longleftrightarrow> (case s of [] \<Rightarrow> False | c # r \<Rightarrow>
     is_alpha c \<and> starts_with (dropWhile (\<lambda>c. is_alnum c \<or> c \<in> {CHR ''+'', CHR ''.'', CHR ''-''}) r) '':'')"

definition has_extension :: "string list \<Rightarrow> string \<Rightarrow> bool" where
  "has_extension exts v \<longleftrightarrow> list_ex (\<lambda>e. ends_with (js_lower v) (CHR ''.'' # e)) exts"

definition iso_date :: "string \<Rightarrow> bool" where
  "iso_date = matches (replicate 4 dec_digit @ [\<lambda>c. c = CHR ''-''] @ replicate 2 dec_digit @ [\<lambda>c. c = CHR ''-''] @ replicate 2 dec_digit)"

definition token_start :: "char \<Rightarrow> bool" where
  "token_start c \<longleftrightarrow> is_alnum c \<or> c \<in> {CHR ''_'', CHR ''+'', CHR ''/'', CHR '':'', CHR ''.''}"

definition token_text :: "string \<Rightarrow> bool" where
  "token_text = class_run token_start (\<lambda>c. token_start c \<or> c = CHR ''-'') 63"

definition count_text :: "string \<Rightarrow> bool" where
  "count_text v \<longleftrightarrow> class_run dec_digit dec_digit 3 v \<and> 1 \<le> read_nat v \<and> read_nat v \<le> 1000"

definition git_rev :: "string \<Rightarrow> bool" where
  "git_rev v \<longleftrightarrow>
     (let ok = (\<lambda>c. is_alnum c \<or> c \<in> {CHR ''.'', CHR ''_'', CHR ''/'', CHR ''-''})
      in class_run ok ok 99 v \<and> \<not> contains v ''..'')"

definition isSafeRelFilePath :: "string \<Rightarrow> bool" where
  "isSafeRelFilePath v \<longleftrightarrow> 1 \<le> length v \<and> length v \<le> 200 \<and> \<not> has_control v
     \<and> hd v \<notin> {slash, CHR ''~'', backslash} \<and> \<not> drive_prefix v \<and> ''..'' \<notin> set (split_at is_slash v)"

definition isValidWrapperArgValue :: "arg_input \<Rightarrow> string \<Rightarrow> bool" where
  "isValidWrapperArgValue spec v =
     (let t = ai_type spec
      in if t = ''date'' then iso_date v
         else if t = ''token'' then token_text v
         else if t = ''enum'' then v \<in> set (ai_values spec)
         else if t = ''string'' then length v \<le> 200 \<and> \<not> has_newline v
         else if t = ''git-rev'' then git_rev v
         else if t = ''count'' then count_text v
         else if t = ''office_file'' then isSafeRelFilePath v \<and> has_extension [''docx'', ''xlsx'', ''pptx''] v
         else if t = ''pdf_file'' then isSafeRelFilePath v \<and> has_extension [''pdf''] v
         else if t = ''csv_file'' then isSafeRelFilePath v \<and> has_extension [''csv'', ''tsv''] v
         else if t = ''excalidraw_file'' then isSafeRelFilePath v \<and> has_extension [''excalidraw''] v
         else if t = ''png_file'' then isSafeRelFilePath v \<and> has_extension [''png''] v
         else False)"

definition OFFICECLI_SOURCE_PROP_KEYS :: "string list" where
  "OFFICECLI_SOURCE_PROP_KEYS = [''src'', ''path'', ''preview'', ''data'', ''image'', ''imagefill'', ''img'', ''poster'', ''fallback'']"

definition OFFICECLI_CONTENT_PROP_KEYS :: "string list" where
  "OFFICECLI_CONTENT_PROP_KEYS = [''value'', ''formula'', ''text'', ''link'', ''href'', ''target'', ''url'', ''hyperlink'', ''anchor'', ''tooltip'']"

definition image_prefix :: "string \<Rightarrow> bool" where
  "image_prefix v \<longleftrightarrow> starts_with (js_lower v) ''image:''"

lemma image_prefix_shorter: "image_prefix (js_trim v) \<Longrightarrow> length (drop 6 (js_trim v)) < length v"
proof -
  assume "image_prefix (js_trim v)"
  then obtain r where "js_lower (js_trim v) = ''image:'' @ r" by (auto simp: image_prefix_def starts_with_iff)
  then have "length (js_lower (js_trim v)) = length ''image:'' + length r" by simp
  then have "6 \<le> length (js_trim v)" by (simp add: js_lower_def)
  then show ?thesis using js_trim_length [of v] by simp
qed

text \<open>The path after \<open>image:\<close> is checked in turn.\<close>

function isSafeMediaSource :: "string \<Rightarrow> bool" where
  "isSafeMediaSource value =
     (if 500 < length value \<or> has_control value then False
      else if image_prefix (js_trim value) then isSafeMediaSource (drop 6 (js_trim value))
      else if starts_with (js_lower (js_trim value)) ''data:'' then True
      else if scheme_prefix (js_trim value) then False
      else isSafeRelFilePath (js_trim value))"
  by pat_completeness auto
termination
  by (relation "measure length") (use image_prefix_shorter in auto)

declare isSafeMediaSource.simps [simp del]

definition isEscapingLocalPath :: "string \<Rightarrow> bool" where
  "isEscapingLocalPath value =
     (let v = js_trim value
      in v \<noteq> [] \<and> hd v \<in> {slash, CHR ''~'', backslash} \<or> drive_prefix v \<or> ''..'' \<in> set (split_at is_slash v))"

definition officecliPropUnsafe :: "string \<Rightarrow> string \<Rightarrow> bool" where
  "officecliPropUnsafe key v =
     (let k = js_lower key
      in if k \<in> set OFFICECLI_CONTENT_PROP_KEYS then False
         else if k \<in> set OFFICECLI_SOURCE_PROP_KEYS then \<not> isSafeMediaSource v
         else if image_prefix v then \<not> isSafeMediaSource v
         else isEscapingLocalPath v)"

fun propsHaveUnsafeSource :: "jval \<Rightarrow> bool" where
  "propsHaveUnsafeSource (VObj kvs) = list_ex (\<lambda>p. officecliPropUnsafe (fst p) (vtext (snd p))) kvs"
| "propsHaveUnsafeSource v = False"

definition JSON_COMMANDS_MAX_ITEMS :: nat where "JSON_COMMANDS_MAX_ITEMS = 100"
definition JSON_COMMANDS_MAX_BYTES :: nat where "JSON_COMMANDS_MAX_BYTES = 16 * 1024"

text \<open>A string is parsed; anything else stands for itself.\<close>

definition json_input :: "jval \<Rightarrow> jval option" where
  "json_input raw = (case raw of VStr s \<Rightarrow> parse s | _ \<Rightarrow> Some raw)"

definition compact_json :: "jval \<Rightarrow> string option" where
  "compact_json v = (let text = vstringify v in if JSON_COMMANDS_MAX_BYTES < length text then None else Some text)"

definition batch_item_ok :: "string list \<Rightarrow> jval \<Rightarrow> bool" where
  "batch_item_ok verbs item \<longleftrightarrow> is_vobj item \<and> jv_string (vget item ''command'') \<in> set verbs
     \<and> \<not> propsHaveUnsafeSource (vget item ''props'')"

definition normalizeJsonCommands :: "jval \<Rightarrow> string list \<Rightarrow> string option" where
  "normalizeJsonCommands raw verbs =
     (case json_input raw of
        Some (VArr items) \<Rightarrow>
          if items = [] \<or> JSON_COMMANDS_MAX_ITEMS < length items \<or> \<not> list_all (batch_item_ok verbs) items then None
          else compact_json (VArr items)
      | _ \<Rightarrow> None)"

fun is_json_object :: "jval \<Rightarrow> bool" where
  "is_json_object (VObj kvs) = True"
| "is_json_object (VArr xs) = True"
| "is_json_object v = False"

definition normalizeJsonData :: "jval \<Rightarrow> string option" where
  "normalizeJsonData raw =
     (case json_input raw of
        None \<Rightarrow> None
      | Some v \<Rightarrow> if is_json_object v then compact_json v else None)"

section \<open>From inputs to tokens\<close>

definition prop_key_ok :: "string \<Rightarrow> bool" where
  "prop_key_ok = class_run is_alpha (\<lambda>c. is_alnum c \<or> c \<in> {CHR ''.'', CHR ''_'', CHR ''-''}) 39"

text \<open>\<open>room\<close> is how many pairs may still be emitted.\<close>

fun prop_tokens :: "string \<Rightarrow> nat \<Rightarrow> (string \<times> jval) list \<Rightarrow> string list" where
  "prop_tokens flag room [] = []"
| "prop_tokens flag room (p # ps) =
     (let text = vtext (snd p)
      in if room = 0 then []
         else if \<not> prop_key_ok (fst p) \<or> 200 < length text \<or> has_newline text \<or> officecliPropUnsafe (fst p) text
         then prop_tokens flag room ps
         else flag # (fst p @ ''='' @ text) # prop_tokens flag (room - 1) ps)"

text \<open>The flag tokens and the positional tokens of one declared input.\<close>

definition input_tokens :: "arg_input \<Rightarrow> jval \<Rightarrow> string list \<times> string list" where
  "input_tokens spec input =
     (let raw = vget input (ai_key spec); flag = coalesce (ai_flag spec) ''null''; value = js_trim (jv_string raw)
      in if raw = VNull then ([], [])
         else if ai_type spec = ''props'' then (case raw of VObj kvs \<Rightarrow> (prop_tokens flag 30 kvs, []) | _ \<Rightarrow> ([], []))
         else if ai_type spec = ''json_data''
         then (case normalizeJsonData raw of None \<Rightarrow> ([], []) | Some d \<Rightarrow> ([flag, d], []))
         else if ai_type spec = ''json_commands''
         then (case normalizeJsonCommands raw (ai_verbs spec) of None \<Rightarrow> ([], []) | Some d \<Rightarrow> ([flag, d], []))
         else if ai_type spec = ''boolean-flag''
         then (if raw = VBool True \<or> raw = VStr ''true'' then ([flag], []) else ([], []))
         else if value = [] \<or> starts_with value ''-'' \<or> \<not> isValidWrapperArgValue spec value then ([], [])
         else if ai_positional spec then ([], [value])
         else ([flag, value], []))"

definition resolveWrapperInputArgs :: "arg_input list \<Rightarrow> jval \<Rightarrow> bool \<Rightarrow> string list" where
  "resolveWrapperInputArgs argInputs input positionalsFirst =
     (let flagArgs = concat (map (\<lambda>s. fst (input_tokens s input)) argInputs);
          positionalArgs = concat (map (\<lambda>s. snd (input_tokens s input)) argInputs)
      in if \<not> is_vobj input then []
         else if positionalsFirst then positionalArgs @ flagArgs else flagArgs @ positionalArgs)"

section \<open>Plans\<close>

record wrapper_plan =
  wp_execCommand :: string
  wp_execArgs :: "string list"
  wp_cwd :: "string option"
  wp_cwdPolicy :: string
  wp_capability :: string
  wp_filePolicy :: string
  wp_networkPolicy :: string
  wp_timeoutSeconds :: int

definition wrapperSegment :: "wrapper_command \<Rightarrow> string" where
  "wrapperSegment c = (if wc_segment c = ''apply'' then ''apply'' else ''wrapper'')"

definition findNpmWrapperCommand :: "registered_app \<Rightarrow> string \<Rightarrow> wrapper_command option" where
  "findNpmWrapperCommand app commandId =
     (case app_wrapper app of None \<Rightarrow> None
      | Some commands \<Rightarrow> List.find (\<lambda>c. wc_id c = commandId \<and> wc_status c = ''approved'') commands)"

definition capability_of :: "registered_app \<Rightarrow> wrapper_command \<Rightarrow> string" where
  "capability_of app c = ''app.'' @ slugify (app_id app) @ ''.'' @ wrapperSegment c @ ''.'' @ wc_id c"

definition applicationWrapperExecutionPlan :: "registered_app \<Rightarrow> string \<Rightarrow> jval \<Rightarrow> wrapper_plan option" where
  "applicationWrapperExecutionPlan app commandId input =
     (case findNpmWrapperCommand app commandId of
        None \<Rightarrow> None
      | Some c \<Rightarrow>
          Some \<lparr>wp_execCommand = wc_command c,
                wp_execArgs = wc_args c @ resolveWrapperInputArgs (wc_argInputs c) input (wc_argOrder c = ''positionals_first''),
                wp_cwd = (if wc_cwdPolicy c = ''invocation_root'' then None else Some (wc_cwd c)),
                wp_cwdPolicy = wc_cwdPolicy c,
                wp_capability = capability_of app c,
                wp_filePolicy = wc_filePolicy c, wp_networkPolicy = wc_networkPolicy c,
                wp_timeoutSeconds = wc_timeoutSeconds c\<rparr>)"

definition actorCanAccessApplication :: "project list \<Rightarrow> actor option \<Rightarrow> registered_app \<Rightarrow> bool" where
  "actorCanAccessApplication prjs actor app =
     (case actor_team actor of
        None \<Rightarrow> True
      | Some team \<Rightarrow> team = [] \<or>
          (if coalesce (app_projectId app) [] \<noteq> []
           then (case List.find (\<lambda>p. Some (pr_id p) = app_projectId app) prjs of
                   None \<Rightarrow> False | Some p \<Rightarrow> teamOf p = team)
           else coalesce (app_ownerTeamId app) ''team_local'' = team))"

definition approvalCheck ::
    "(string \<Rightarrow> string) \<Rightarrow> instant \<Rightarrow> jval \<Rightarrow> string \<Rightarrow> string \<Rightarrow> actor option \<Rightarrow> 'a ag_server \<Rightarrow> approval \<times> 'a ag_server" where
  "approvalCheck digest t input action targetId actor st =
     (let token = vtext (vget input ''approvalToken'')
      in if js_trim token = [] then (NotApproved None ''missing_token'' None, st)
         else validateApprovalToken digest t (Some token) (Some action) (Some targetId) actor True st)"

datatype plan_answer = PlanRefused nat string | Planned wrapper_plan

definition planApplicationWrapperInvocation ::
    "(string \<Rightarrow> string) \<Rightarrow> instant \<Rightarrow> registered_app list \<Rightarrow> project list \<Rightarrow> string \<Rightarrow> string \<Rightarrow> jval \<Rightarrow> actor option
     \<Rightarrow> 'a ag_server \<Rightarrow> plan_answer \<times> 'a ag_server" where
  "planApplicationWrapperInvocation digest t apps prjs applicationId commandId input actor st =
     (case List.find (\<lambda>a. app_id a = applicationId) apps of
        None \<Rightarrow> (PlanRefused 404 ''capability_not_found'', st)
      | Some app \<Rightarrow>
          if \<not> actorCanAccessApplication prjs actor app then (PlanRefused 404 ''capability_not_found'', st)
          else if app_status app = ''archived'' then (PlanRefused 409 ''application_archived'', st)
          else if app_status app = ''offline'' then (PlanRefused 409 ''application_offline'', st)
          else (case findNpmWrapperCommand app commandId of
                  None \<Rightarrow> (PlanRefused 404 ''wrapper_command_not_found'', st)
                | Some c \<Rightarrow>
                    (let (approval, st1) =
                           (if wc_requiresApproval c
                            then approvalCheck digest t input (''wrapper:'' @ commandId) applicationId actor st
                            else (ApprovedLegacy, st))
                     in case approval of
                          NotApproved kind reason g \<Rightarrow> (PlanRefused 409 ''approval_required'', st1)
                        | _ \<Rightarrow>
                            (case applicationWrapperExecutionPlan app commandId input of
                               None \<Rightarrow> (PlanRefused 404 ''wrapper_command_not_found'', st1)
                             | Some plan \<Rightarrow> (Planned plan, st1)))))"

section \<open>The canonical registrations\<close>

definition flag_input :: "string \<Rightarrow> string \<Rightarrow> string \<Rightarrow> arg_input" where
  "flag_input key flag type' = \<lparr>ai_key = key, ai_flag = Some flag, ai_positional = False, ai_type = type', ai_values = [], ai_verbs = []\<rparr>"

definition pos_input :: "string \<Rightarrow> string \<Rightarrow> arg_input" where
  "pos_input key type' = \<lparr>ai_key = key, ai_flag = None, ai_positional = True, ai_type = type', ai_values = [], ai_verbs = []\<rparr>"

abbreviation enum_input :: "arg_input \<Rightarrow> string list \<Rightarrow> arg_input" where
  "enum_input a vs \<equiv> a\<lparr>ai_values := vs\<rparr>"

abbreviation verb_input :: "arg_input \<Rightarrow> string list \<Rightarrow> arg_input" where
  "verb_input a vs \<equiv> a\<lparr>ai_verbs := vs\<rparr>"

definition bin_command :: "string \<Rightarrow> string \<Rightarrow> string list \<Rightarrow> arg_input list \<Rightarrow> command_desc" where
  "bin_command program ident args inputs =
     \<lparr>cd_id = ident, cd_commandType = Some ''bin'', cd_command = program, cd_segment = None, cd_argOrder = None,
      cd_args = args, cd_cwd = None, cd_cwdPolicy = Some ''invocation_root'', cd_status = Some ''approved'',
      cd_riskLevel = Some ''low'', cd_requiresApproval = Some False, cd_argInputs = inputs, cd_timeoutSeconds = None,
      cd_filePolicy = Some ''read_only'', cd_networkPolicy = Some ''forbidden''\<rparr>"

definition git_command :: "string \<Rightarrow> string list \<Rightarrow> arg_input list \<Rightarrow> command_desc" where
  "git_command ident args inputs = bin_command ''git'' ident args inputs"

definition GIT_WRAPPER_COMMANDS :: "command_desc list" where
  "GIT_WRAPPER_COMMANDS = [
     git_command ''status''
       [''--no-pager'', ''status'', ''--porcelain=v2'', ''--branch'']
       [],
     git_command ''log''
       [''--no-pager'', ''log'', ''-z'', ''--format=%H%x1f%an%x1f%aI%x1f%s'', ''--max-count=50'']
       [flag_input ''since'' ''--since'' ''date'',
        flag_input ''until'' ''--until'' ''date'',
        flag_input ''author'' ''--author'' ''token'',
        flag_input ''maxCount'' ''--max-count'' ''count''],
     git_command ''diff_stat''
       [''--no-pager'', ''diff'', ''--stat'', ''--no-color'']
       [],
     git_command ''branch_list''
       [''--no-pager'', ''branch'', ''--list'', ''--format=%(refname:short)%1f%(objectname)'']
       [],
     git_command ''head''
       [''--no-pager'', ''rev-parse'', ''HEAD'']
       [],
     git_command ''show''
       [''--no-pager'', ''show'', ''--stat'', ''--no-color'']
       [pos_input ''rev'' ''git-rev''],
     git_command ''diff_ref''
       [''--no-pager'', ''diff'', ''--stat'', ''--no-color'']
       [pos_input ''rev'' ''git-rev'']]"

definition ccusage_command :: "string \<Rightarrow> string list \<Rightarrow> command_desc" where
  "ccusage_command ident args =
     (bin_command ''ccusage'' ident (args @ [''--offline''])
        [flag_input ''since'' ''--since'' ''date'', flag_input ''until'' ''--until'' ''date'',
         flag_input ''timezone'' ''--timezone'' ''token''])
       \<lparr>cd_cwdPolicy := None, cd_requiresApproval := Some (ident = ''session'')\<rparr>"

definition CCUSAGE_REPORT_WRAPPERS :: "command_desc list" where
  "CCUSAGE_REPORT_WRAPPERS = [
     ccusage_command ''daily'' [''daily'', ''--json''],
     ccusage_command ''weekly'' [''weekly'', ''--json''],
     ccusage_command ''monthly'' [''monthly'', ''--json''],
     ccusage_command ''session'' [''session'', ''--json''],
     ccusage_command ''codex_daily'' [''codex'', ''daily'', ''--json''],
     ccusage_command ''claude_daily'' [''claude'', ''daily'', ''--json'']]"

definition pdf_command :: "string \<Rightarrow> string list \<Rightarrow> command_desc" where
  "pdf_command ident args = bin_command ''pdfcpu'' ident args [pos_input ''file'' ''pdf_file'']"

definition PDFCPU_READ_COMMANDS :: "command_desc list" where
  "PDFCPU_READ_COMMANDS = [
     pdf_command ''validate'' [''validate'', ''--offline'', ''--conf'', ''disable'', ''--mode'', ''strict''],
     pdf_command ''info'' [''info'', ''--offline'', ''--conf'', ''disable'', ''--json'']]"

definition OFFICECLI_VIEW_MODES :: "string list" where
  "OFFICECLI_VIEW_MODES = [''text'', ''annotated'', ''outline'', ''stats'', ''issues'', ''forms'', ''html'']"

definition OFFICECLI_ELEMENT_TYPES :: "string list" where
  "OFFICECLI_ELEMENT_TYPES = [''paragraph'', ''run'', ''table'', ''sheet'', ''row'', ''column'', ''cell'',
     ''slide'', ''shape'', ''picture'', ''diagram'', ''flowchart'', ''ole'', ''video'']"

definition OFFICECLI_BATCH_VERBS :: "string list" where
  "OFFICECLI_BATCH_VERBS = [''add'', ''set'', ''remove'', ''move'', ''swap'']"

definition office_read :: "string \<Rightarrow> string list \<Rightarrow> arg_input list \<Rightarrow> command_desc" where
  "office_read = bin_command ''officecli''"

definition office_write :: "string \<Rightarrow> string option \<Rightarrow> arg_input list \<Rightarrow> command_desc" where
  "office_write ident order inputs =
     (bin_command ''officecli'' ident [ident] inputs)
       \<lparr>cd_argOrder := order, cd_segment := Some ''apply'', cd_riskLevel := Some ''medium'',
        cd_requiresApproval := Some True, cd_filePolicy := Some ''workspace_write''\<rparr>"

definition OFFICECLI_WRAPPER_COMMANDS :: "command_desc list" where
  "OFFICECLI_WRAPPER_COMMANDS = [
     office_read ''get'' [''get'', ''--json''] [pos_input ''file'' ''office_file'',
        pos_input ''path'' ''string''],
     office_read ''query'' [''query'', ''--json''] [pos_input ''file'' ''office_file'',
        pos_input ''selector'' ''string''],
     office_read ''view'' [''view''] [pos_input ''file'' ''office_file'',
        enum_input (pos_input ''mode'' ''enum'') OFFICECLI_VIEW_MODES],
     office_read ''validate'' [''validate'', ''--json''] [pos_input ''file'' ''office_file''],
     office_read ''dump'' [''dump''] [pos_input ''file'' ''office_file'',
        pos_input ''path'' ''string'']]"

definition OFFICECLI_WRITE_COMMANDS :: "command_desc list" where
  "OFFICECLI_WRITE_COMMANDS = [
     office_write ''create'' None
       [pos_input ''file'' ''office_file''],
     office_write ''remove'' None
       [pos_input ''file'' ''office_file'',
        pos_input ''path'' ''string''],
     office_write ''set'' (Some ''positionals_first'')
       [pos_input ''file'' ''office_file'',
        pos_input ''path'' ''string'',
        flag_input ''props'' ''--prop'' ''props''],
     office_write ''add'' (Some ''positionals_first'')
       [pos_input ''file'' ''office_file'',
        pos_input ''parent'' ''string'',
        enum_input (flag_input ''type'' ''--type'' ''enum'') OFFICECLI_ELEMENT_TYPES,
        flag_input ''props'' ''--prop'' ''props''],
     office_write ''swap'' None
       [pos_input ''file'' ''office_file'',
        pos_input ''path1'' ''string'',
        pos_input ''path2'' ''string''],
     office_write ''move'' (Some ''positionals_first'')
       [pos_input ''file'' ''office_file'',
        pos_input ''path'' ''string'',
        flag_input ''to'' ''--to'' ''string'',
        flag_input ''after'' ''--after'' ''string'',
        flag_input ''before'' ''--before'' ''string''],
     office_write ''import'' (Some ''positionals_first'')
       [pos_input ''file'' ''office_file'',
        pos_input ''parent'' ''string'',
        pos_input ''source'' ''csv_file'',
        flag_input ''header'' ''--header'' ''boolean-flag'',
        enum_input (flag_input ''format'' ''--format'' ''enum'') [''csv'', ''tsv'']],
     office_write ''merge'' (Some ''positionals_first'')
       [pos_input ''template'' ''office_file'',
        pos_input ''output'' ''office_file'',
        flag_input ''data'' ''--data'' ''json_data'',
        flag_input ''force'' ''--force'' ''boolean-flag''],
     office_write ''batch'' (Some ''positionals_first'')
       [pos_input ''file'' ''office_file'',
        verb_input (flag_input ''commands'' ''--commands'' ''json_commands'') OFFICECLI_BATCH_VERBS]]"

definition excalidraw_write :: "string \<Rightarrow> arg_input list \<Rightarrow> command_desc" where
  "excalidraw_write ident inputs =
     (bin_command ''excalidraw-cli'' ident [] inputs)
       \<lparr>cd_segment := Some ''apply'', cd_riskLevel := Some ''medium'',
        cd_requiresApproval := Some True, cd_filePolicy := Some ''workspace_write''\<rparr>"

definition EXCALIDRAW_CLI_WRITE_COMMANDS :: "command_desc list" where
  "EXCALIDRAW_CLI_WRITE_COMMANDS = [
     excalidraw_write ''export'' [pos_input ''input'' ''excalidraw_file'',
        pos_input ''output'' ''png_file'']]"

text \<open>The normalised form of a descriptor whose fields are already in the form the registry keeps.\<close>

definition plain :: "command_desc \<Rightarrow> wrapper_command" where
  "plain c =
     \<lparr>wc_id = cd_id c, wc_commandType = coalesce (cd_commandType c) ''custom'', wc_command = cd_command c,
      wc_segment = coalesce (cd_segment c) ''wrapper'', wc_argOrder = coalesce (cd_argOrder c) ''flags_first'',
      wc_args = cd_args c, wc_cwd = ''.'', wc_cwdPolicy = coalesce (cd_cwdPolicy c) ''fixed'',
      wc_status = coalesce (cd_status c) ''draft'', wc_riskLevel = coalesce (cd_riskLevel c) ''high'',
      wc_requiresApproval = coalesce (cd_requiresApproval c) True, wc_argInputs = cd_argInputs c,
      wc_timeoutSeconds = 30, wc_filePolicy = coalesce (cd_filePolicy c) ''read_only'',
      wc_networkPolicy = coalesce (cd_networkPolicy c) ''forbidden''\<rparr>"


text \<open>The registered applications, under the ids of their registrations.\<close>

definition canonical_apps :: "(string \<times> command_desc list) list" where
  "canonical_apps = [
     (''app_git'', GIT_WRAPPER_COMMANDS), (''app_ccusage'', CCUSAGE_REPORT_WRAPPERS), (''app_pdfcpu'', PDFCPU_READ_COMMANDS),
     (''app_officecli'', OFFICECLI_WRAPPER_COMMANDS @ OFFICECLI_WRITE_COMMANDS),
     (''app_excalidraw_cli'', EXCALIDRAW_CLI_WRITE_COMMANDS)]"

end
