(* ===== verification/WrapperRegistry.thy ===== *)
theory WrapperRegistry
  imports WrapperPlan
begin

text \<open>
  What registration does to wrapper commands: the canonical descriptors come out as they are, and no
  registration can carry a command that writes without an approval or that runs another program than its
  binary source declares.
\<close>

lemma map_from_right: "(\<And>j x. x \<in> set xs \<Longrightarrow> f j x = Inr (g x)) \<Longrightarrow> map_from i f xs = Inr (map g xs)"
  by (induction i f xs rule: map_from.induct) simp_all

lemma index_irrelevant: "normalizeWrapperCommand i c = Inr w \<Longrightarrow> normalizeWrapperCommand j c = Inr w"
  by (auto simp: normalizeWrapperCommand_def Let_def split: if_splits option.splits sum.splits)

definition stays_plain :: "command_desc \<Rightarrow> bool" where
  "stays_plain c \<longleftrightarrow> (case normalizeWrapperCommand 0 c of Inl e \<Rightarrow> False | Inr w \<Rightarrow> w = plain c)"

lemma stays_plain_any: "stays_plain c \<Longrightarrow> normalizeWrapperCommand i c = Inr (plain c)"
  by (cases "normalizeWrapperCommand 0 c") (auto simp: stays_plain_def dest: index_irrelevant)

lemma table_plain: "list_all stays_plain cs \<Longrightarrow> length cs \<le> 30 \<Longrightarrow> normalizeWrapperCommands cs = Inr (map plain cs)"
  unfolding normalizeWrapperCommands_def by (simp add: list_all_iff map_from_right stays_plain_any)

lemma git_plain: "list_all stays_plain GIT_WRAPPER_COMMANDS"
  by code_simp

lemma ccusage_plain: "list_all stays_plain CCUSAGE_REPORT_WRAPPERS"
  by code_simp

lemma pdf_plain: "list_all stays_plain PDFCPU_READ_COMMANDS"
  by code_simp

lemma office_read_plain: "list_all stays_plain OFFICECLI_WRAPPER_COMMANDS"
  by code_simp

lemma office_write_plain: "list_all stays_plain OFFICECLI_WRITE_COMMANDS"
  by code_simp

lemma excalidraw_plain: "list_all stays_plain EXCALIDRAW_CLI_WRITE_COMMANDS"
  by code_simp

lemma canonical_normalised: "(i, cs) \<in> set canonical_apps \<Longrightarrow> normalizeWrapperCommands cs = Inr (map plain cs)"
proof (rule table_plain)
  assume *: "(i, cs) \<in> set canonical_apps"
  then show "list_all stays_plain cs"
    using git_plain ccusage_plain pdf_plain office_read_plain office_write_plain excalidraw_plain
    unfolding canonical_apps_def by auto
  have "list_all (\<lambda>(i, cs). length cs \<le> 30) canonical_apps" by code_simp
  with * show "length cs \<le> 30" by (auto simp: list_all_iff)
qed

section \<open>What a registration cannot carry\<close>

lemma map_from_elems: "map_from i f xs = Inr ys \<Longrightarrow> y \<in> set ys \<Longrightarrow> \<exists>j x. f j x = Inr y"
  by (induction i f xs arbitrary: ys rule: map_from.induct) (fastforce split: sum.splits)+

lemma write_needs_approval:
  "normalizeWrapperCommand j d = Inr c \<Longrightarrow> wc_segment c = ''apply'' \<or> wc_filePolicy c = ''workspace_write''
    \<Longrightarrow> wc_requiresApproval c"
  by (auto simp: normalizeWrapperCommand_def Let_def split: if_splits option.splits sum.splits)

lemma binary_source_runs_binary:
  assumes "normalizeBinarySource name descs = Inr cs" and "c \<in> set cs"
  shows "wc_command c = js_trim name \<and> slash \<notin> set (wc_command c)"
proof -
  have b: "binary_name_ok (js_trim name)" and none: "List.find (\<lambda>c. wc_command c \<noteq> js_trim name) cs = None"
    using assms(1) by (auto simp: normalizeBinarySource_def Let_def split: if_splits sum.splits option.splits)
  have "wc_command c = js_trim name" using none assms(2) by (auto simp: find_None_iff)
  moreover have "slash \<notin> set (js_trim name)"
    using b by (cases "js_trim name")
      (auto simp: binary_name_ok_def class_run_def list_all_iff is_lower_def between_def dec_digit_def)
  ultimately show ?thesis by simp
qed

lemma planned_command:
  assumes "planApplicationWrapperInvocation digest t apps prjs i k input actor st = (Planned plan, st')"
    and "List.find (\<lambda>a. app_id a = i) apps = Some app"
  shows "\<exists>c. findNpmWrapperCommand app k = Some c \<and> wp_filePolicy plan = wc_filePolicy c \<and> wp_capability plan = capability_of app c
    \<and> (wc_requiresApproval c \<longrightarrow> (\<exists>r. approvalCheck digest t input (''wrapper:'' @ k) i actor st = (r, st')
          \<and> (\<forall>a b d. r \<noteq> NotApproved a b d)))"
proof -
  define check where "check = approvalCheck digest t input (''wrapper:'' @ k) i actor st"
  note eval = assms(1) [unfolded planApplicationWrapperInvocation_def assms(2) option.case, folded check_def]
  obtain c where c: "findNpmWrapperCommand app k = Some c"
    using eval by (cases "findNpmWrapperCommand app k") (auto split: if_splits)
  have "wp_filePolicy plan = wc_filePolicy c \<and> wp_capability plan = capability_of app c"
    using eval c by (cases check) (auto simp: applicationWrapperExecutionPlan_def split: if_splits approval.splits)
  moreover have "\<exists>r. check = (r, st') \<and> (\<forall>a b d. r \<noteq> NotApproved a b d)" if "wc_requiresApproval c"
    using eval c that by (cases check) (auto simp: applicationWrapperExecutionPlan_def split: if_splits approval.splits)
  ultimately show ?thesis using c by (auto simp: check_def)
qed

lemma apply_capability:
  assumes "findNpmWrapperCommand app k = Some c" and "capability_of app c = ''app.'' @ slugify (app_id app) @ ''.apply.'' @ k"
  shows "wc_segment c = ''apply''"
proof -
  have "wc_id c = k" using assms(1) by (auto simp: findNpmWrapperCommand_def dest: find_SomeD split: option.splits)
  then show ?thesis using assms(2) by (auto simp: capability_of_def wrapperSegment_def split: if_splits)
qed

text \<open>C22: A plan that writes was approved.  Whatever descriptors were registered, if the server plans a command whose
  capability lies in the apply segment or whose file policy is workspace_write, then the caller's token was checked for exactly
  this command on exactly this application, and the plan rests on an issued grant for that action, target and team,
  which was unspent and unexpired and is spent by the plan; only as long as issued grants are not required, a text that is not
  blank and belongs to no grant is accepted instead.\<close>

theorem write_plan_approved:
  assumes "normalizeWrapperCommands descs = Inr commands"
    and "List.find (\<lambda>a. app_id a = i) apps = Some app" and "app_wrapper app = Some commands"
    and "planApplicationWrapperInvocation digest t apps prjs i k input actor st = (Planned plan, st')"
    and "wp_capability plan = ''app.'' @ slugify i @ ''.apply.'' @ k \<or> wp_filePolicy plan = ''workspace_write''"
  shows "approved_for digest t (js_trim (vtext (vget input ''approvalToken''))) (''wrapper:'' @ k) i actor st st'"
proof -
  obtain c where c: "findNpmWrapperCommand app k = Some c" "wp_filePolicy plan = wc_filePolicy c" "wp_capability plan = capability_of app c"
      "wc_requiresApproval c \<longrightarrow> (\<exists>r. approvalCheck digest t input (''wrapper:'' @ k) i actor st = (r, st')
        \<and> (\<forall>a b d. r \<noteq> NotApproved a b d))"
    using planned_command [OF assms(4,2)] by auto
  have "c \<in> set commands" using c(1) assms(3) by (auto simp: findNpmWrapperCommand_def dest: find_SomeD)
  then obtain j d where n: "normalizeWrapperCommand j d = Inr c"
    using assms(1) map_from_elems unfolding normalizeWrapperCommands_def by metis
  have "app_id app = i" using find_SomeD [OF assms(2)] by simp
  then have "wc_segment c = ''apply'' \<or> wc_filePolicy c = ''workspace_write''"
    using assms(5) c(2,3) apply_capability [OF c(1)] by auto
  from write_needs_approval [OF n this] c(4)
  obtain r where r: "approvalCheck digest t input (''wrapper:'' @ k) i actor st = (r, st')" "\<forall>a b d. r \<noteq> NotApproved a b d"
    by blast
  have "validateApprovalToken digest t (Some (vtext (vget input ''approvalToken''))) (Some (''wrapper:'' @ k)) (Some i) actor True st = (r, st')"
    using r by (auto simp: approvalCheck_def Let_def split: if_splits)
  from approval_rests_on [OF this r(2)] show ?thesis by simp
qed

definition demo_scene_app :: registered_app where
  "demo_scene_app = \<lparr>app_id = ''app_excalidraw_cli'', app_status = ''active'', app_projectId = None, app_ownerTeamId = None,
     app_wrapper = Some (map plain EXCALIDRAW_CLI_WRITE_COMMANDS)\<rparr>"

definition demo_scene_input :: jval where
  "demo_scene_input = VObj [(''input'', VStr ''a.excalidraw''), (''output'', VStr ''b.png''), (''approvalToken'', VStr ''aa'')]"

definition demo_strict :: "grant_tables server" where
  "demo_strict = demo_server_with \<lparr>ag_grants =
     [new_grant (\<lambda>s. s) 1 ''apg_1'' ''aa'' ''wrapper:export'' ''app_excalidraw_cli'' ''usr_a'' None None], ag_archived = [],
     ag_legacyUses = None, ag_requireIssued = True\<rparr> []"

lemma demo_strict_rows:
  "grants demo_strict = [new_grant (\<lambda>s. s) 1 ''apg_1'' ''aa'' ''wrapper:export'' ''app_excalidraw_cli'' ''usr_a'' None None]"
  "ag_requireIssued (world demo_strict)"
  by (simp_all add: demo_strict_def)

lemma demo_scene_token: "vtext (vget demo_scene_input ''approvalToken'') = ''aa''" "js_trim ''aa'' = ''aa''"
  "js_trim ''wrapper:export'' = ''wrapper:export''" "js_trim ''app_excalidraw_cli'' = ''app_excalidraw_cli''"
  by code_simp+

lemma demo_scene_command: "findNpmWrapperCommand demo_scene_app ''export'' = Some (plain (hd EXCALIDRAW_CLI_WRITE_COMMANDS))"
  "wc_filePolicy (plain (hd EXCALIDRAW_CLI_WRITE_COMMANDS)) = ''workspace_write''"
  "wc_requiresApproval (plain (hd EXCALIDRAW_CLI_WRITE_COMMANDS))"
  by code_simp+

lemma demo_strict_validation:
  "\<exists>st'. validateApprovalToken (\<lambda>s. s) 5 (Some ''aa'') (Some ''wrapper:export'') (Some ''app_excalidraw_cli'') None True demo_strict
     = (ApprovedByGrant ''apg_1'', st')"
  by (simp add: validateApprovalToken_def demo_strict_rows demo_scene_token Let_def grant_obstacle_def)
     (simp add: new_grant_def GRANT_TTL_MS_def actor_team_def demo_scene_token)

lemma demo_scene_plan:
  "\<exists>plan st'. planApplicationWrapperInvocation (\<lambda>s. s) 5 [demo_scene_app] [] ''app_excalidraw_cli'' ''export'' demo_scene_input None demo_strict
     = (Planned plan, st') \<and> wp_filePolicy plan = ''workspace_write''"
proof -
  obtain st' where "validateApprovalToken (\<lambda>s. s) 5 (Some ''aa'') (Some ''wrapper:export'') (Some ''app_excalidraw_cli'') None True demo_strict
     = (ApprovedByGrant ''apg_1'', st')" using demo_strict_validation by blast
  then have "approvalCheck (\<lambda>s. s) 5 demo_scene_input (''wrapper:'' @ ''export'') ''app_excalidraw_cli'' None demo_strict = (ApprovedByGrant ''apg_1'', st')"
    by (simp add: approvalCheck_def demo_scene_token)
  moreover have "app_id demo_scene_app = ''app_excalidraw_cli''" "app_status demo_scene_app = ''active''"
    "actorCanAccessApplication [] None demo_scene_app"
    by (simp_all add: demo_scene_app_def actorCanAccessApplication_def actor_team_def)
  ultimately show ?thesis
    by (simp add: planApplicationWrapperInvocation_def demo_scene_command applicationWrapperExecutionPlan_def)
qed

theorem write_plan_approved_witness:
  "\<exists>plan st'. planApplicationWrapperInvocation (\<lambda>s. s) 5 [demo_scene_app] [] ''app_excalidraw_cli'' ''export'' demo_scene_input None demo_strict
       = (Planned plan, st')
     \<and> (\<exists>g \<in> set (grants demo_strict). gr_tokenHash g = ''aa'' \<and> (\<forall>h \<in> set (grants st'). gr_id h = gr_id g \<longrightarrow> gr_consumedAt h = Some 5))"
proof -
  obtain plan st' where p: "planApplicationWrapperInvocation (\<lambda>s. s) 5 [demo_scene_app] [] ''app_excalidraw_cli'' ''export'' demo_scene_input None demo_strict
     = (Planned plan, st')" "wp_filePolicy plan = ''workspace_write''" using demo_scene_plan by blast
  have n: "normalizeWrapperCommands EXCALIDRAW_CLI_WRITE_COMMANDS = Inr (map plain EXCALIDRAW_CLI_WRITE_COMMANDS)"
    using canonical_normalised [of "''app_excalidraw_cli''"] by (simp add: canonical_apps_def)
  have f: "List.find (\<lambda>a. app_id a = ''app_excalidraw_cli'') [demo_scene_app] = Some demo_scene_app"
    "app_wrapper demo_scene_app = Some (map plain EXCALIDRAW_CLI_WRITE_COMMANDS)"
    by (simp_all add: demo_scene_app_def)
  have "approved_for (\<lambda>s. s) 5 ''aa'' ''wrapper:export'' ''app_excalidraw_cli'' None demo_strict st'"
    using write_plan_approved [OF n f p(1) disjI2 [OF p(2)]] by (simp add: demo_scene_token)
  then show ?thesis using p(1) by (auto simp: approved_for_def demo_strict_rows split: if_splits)
qed

end
