(* ===== verification/DevicePolicy.thy ===== *)
theory DevicePolicy
  imports ArgvText
begin

text \<open>
  apps/desktop/src/local-execution-policy.mjs: what a device agrees to spawn, whatever the server asked for.
  The validators and the argv specifications of this theory are the device's own copies.  A JavaScript throw
  is \<open>Inl\<close>.  The file system, the working directory of the bridge and the search for a binary are fields of
  \<open>device\<close>; \<open>work\<close> and \<open>adapter\<close> are the JSON values the server sent.  Of the evidence a refusal carries the
  model keeps the kind of the command and the refusal code, which the server reads.
\<close>

section \<open>Validators of the device\<close>

definition isIsoDate :: "string \<Rightarrow> bool" where
  "isIsoDate v \<longleftrightarrow> length v = 10 \<and> v ! 4 = CHR ''-'' \<and> v ! 7 = CHR ''-''
     \<and> list_all dec_digit (take 4 v @ take 2 (drop 5 v) @ drop 8 v)"

definition tz_char :: "char \<Rightarrow> bool" where
  "tz_char c \<longleftrightarrow> is_alpha c \<or> dec_digit c \<or> c = CHR ''_'' \<or> c = CHR ''+'' \<or> c = CHR ''/'' \<or> c = CHR '':'' \<or> c = CHR ''.''"

definition isGitToken :: "string \<Rightarrow> bool" where
  "isGitToken v \<longleftrightarrow> (case v of [] \<Rightarrow> False | c # r \<Rightarrow>
     tz_char c \<and> length r \<le> 63 \<and> list_all (\<lambda>d. tz_char d \<or> d = CHR ''-'') r)"

definition isMaxCount :: "string \<Rightarrow> bool" where
  "isMaxCount v \<longleftrightarrow> 1 \<le> length v \<and> length v \<le> 4 \<and> list_all dec_digit v \<and> 1 \<le> read_nat v \<and> read_nat v \<le> 1000"

definition isGitRev :: "string \<Rightarrow> bool" where
  "isGitRev v \<longleftrightarrow> 1 \<le> length v \<and> length v \<le> 100
     \<and> list_all (\<lambda>c. is_alpha c \<or> dec_digit c \<or> c = CHR ''.'' \<or> c = CHR ''_'' \<or> c = CHR ''/'' \<or> c = CHR ''-'') v
     \<and> \<not> contains v ''..''"

definition line_break :: "char \<Rightarrow> bool" where
  "line_break c \<longleftrightarrow> c = CHR 0x0D \<or> c = CHR 0x0A"

definition isOfficeArg :: "string \<Rightarrow> bool" where
  "isOfficeArg v \<longleftrightarrow> 1 \<le> length v \<and> length v \<le> 200 \<and> \<not> list_ex line_break v"

definition windows_drive :: "string \<Rightarrow> bool" where
  "windows_drive v \<longleftrightarrow> (case v of [] \<Rightarrow> False | c # r \<Rightarrow> is_alpha c \<and> starts_with r '':'')"

definition isSafeRelPath :: "string \<Rightarrow> bool" where
  "isSafeRelPath v \<longleftrightarrow> 1 \<le> length v \<and> length v \<le> 200
     \<and> \<not> list_ex (\<lambda>c. line_break c \<or> c = CHR 0x00) v
     \<and> \<not> starts_with v ''/'' \<and> \<not> starts_with v ''~'' \<and> \<not> starts_with v [backslash]
     \<and> \<not> windows_drive v \<and> ''..'' \<notin> set (split_at is_slash v)"

definition file_type :: "string list \<Rightarrow> string \<Rightarrow> bool" where
  "file_type exts v \<longleftrightarrow> isSafeRelPath v \<and> list_ex (\<lambda>e. ends_with (js_lower v) e) exts"

definition isOfficeFile :: "string \<Rightarrow> bool" where
  "isOfficeFile = file_type [''.docx'', ''.xlsx'', ''.pptx'']"

definition isPdfFile :: "string \<Rightarrow> bool" where
  "isPdfFile = file_type [''.pdf'']"

definition isOfficeCsvFile :: "string \<Rightarrow> bool" where
  "isOfficeCsvFile = file_type [''.csv'', ''.tsv'']"

definition isExcalidrawSceneFile :: "string \<Rightarrow> bool" where
  "isExcalidrawSceneFile = file_type [''.excalidraw'']"

definition isExcalidrawPngFile :: "string \<Rightarrow> bool" where
  "isExcalidrawPngFile = file_type [''.png'']"

text \<open>\<open>typeof parsed === "object"\<close> of a parsed value other than \<open>null\<close>.\<close>

fun object_or_array :: "jval \<Rightarrow> bool" where
  "object_or_array (VObj kvs) = True"
| "object_or_array (VArr xs) = True"
| "object_or_array v = False"

definition isOfficeJsonData :: "string \<Rightarrow> bool" where
  "isOfficeJsonData v \<longleftrightarrow> length v \<le> 16 * 1024
     \<and> (case parse v of None \<Rightarrow> False | Some parsed \<Rightarrow> object_or_array parsed)"

definition OFFICE_VIEW_MODES :: "string list" where
  "OFFICE_VIEW_MODES = [''text'', ''annotated'', ''outline'', ''stats'', ''issues'', ''forms'', ''html'']"

definition isOfficeViewMode :: "string \<Rightarrow> bool" where
  "isOfficeViewMode v \<longleftrightarrow> v \<in> set OFFICE_VIEW_MODES"

definition OFFICE_SOURCE_PROP_KEYS :: "string list" where
  "OFFICE_SOURCE_PROP_KEYS = [''src'', ''path'', ''preview'', ''data'', ''image'', ''imagefill'', ''img'', ''poster'', ''fallback'']"

definition OFFICE_CONTENT_PROP_KEYS :: "string list" where
  "OFFICE_CONTENT_PROP_KEYS = [''value'', ''formula'', ''text'',
     ''link'', ''href'', ''target'', ''url'', ''hyperlink'', ''anchor'', ''tooltip'']"

text \<open>\<open>/^image:(.*)$/i\<close>: what follows the prefix.\<close>

definition image_fill :: "string \<Rightarrow> string option" where
  "image_fill v = (if js_lower (take 6 v) = ''image:'' then Some (drop 6 v) else None)"

definition uri_scheme :: "string \<Rightarrow> bool" where
  "uri_scheme v \<longleftrightarrow> v \<noteq> [] \<and> is_alpha (hd v)
     \<and> (case dropWhile (\<lambda>c. is_alpha c \<or> dec_digit c \<or> c = CHR ''+'' \<or> c = CHR ''.'' \<or> c = CHR ''-'') (tl v) of
          [] \<Rightarrow> False | c # r \<Rightarrow> c = CHR '':'')"

lemma image_fill_shorter: "image_fill (js_trim v) = Some r \<Longrightarrow> length r < length v"
proof -
  assume "image_fill (js_trim v) = Some r"
  then have l: "js_lower (take 6 (js_trim v)) = ''image:''" and r: "r = drop 6 (js_trim v)"
    by (auto simp: image_fill_def split: if_splits)
  from l have "length (js_lower (take 6 (js_trim v))) = length ''image:''" by (rule arg_cong)
  then have "6 \<le> length (js_trim v)" by (simp add: js_lower_def)
  then show ?thesis using r js_trim_length [of v] by simp
qed

function isOfficeSafeMediaSource :: "string \<Rightarrow> bool" where
  "isOfficeSafeMediaSource v =
     (if 500 < length v \<or> list_ex (\<lambda>c. line_break c \<or> c = CHR 0x00) v then False
      else (case image_fill (js_trim v) of
              Some rest \<Rightarrow> isOfficeSafeMediaSource rest
            | None \<Rightarrow>
                if js_lower (take 5 (js_trim v)) = ''data:'' then True
                else \<not> uri_scheme (js_trim v) \<and> isSafeRelPath (js_trim v)))"
  by pat_completeness auto
termination
  by (relation "measure length") (use image_fill_shorter in auto)

declare isOfficeSafeMediaSource.simps [simp del]

definition isOfficeEscapingLocalPath :: "string \<Rightarrow> bool" where
  "isOfficeEscapingLocalPath val =
     (let v = js_trim val
      in starts_with v ''/'' \<or> starts_with v ''~'' \<or> starts_with v [backslash]
         \<or> windows_drive v \<or> ''..'' \<in> set (split_at is_slash v))"

definition isOfficePropUnsafe :: "string \<Rightarrow> string \<Rightarrow> bool" where
  "isOfficePropUnsafe key v =
     (let k = js_lower key
      in k \<notin> set OFFICE_CONTENT_PROP_KEYS
         \<and> (if k \<in> set OFFICE_SOURCE_PROP_KEYS \<or> image_fill v \<noteq> None then \<not> isOfficeSafeMediaSource v
            else isOfficeEscapingLocalPath v))"

text \<open>\<open>/^([a-zA-Z][a-zA-Z0-9._-]{0,39})=([^\r\n]{0,200})$/\<close>: a key has no \<open>=\<close>, so the first one ends it.\<close>

definition isOfficePropPair :: "string \<Rightarrow> bool" where
  "isOfficePropPair v =
     (let key = takeWhile (\<lambda>c. c \<noteq> CHR ''='') v; rest = dropWhile (\<lambda>c. c \<noteq> CHR ''='') v
      in key \<noteq> [] \<and> length key \<le> 40 \<and> is_alpha (hd key)
         \<and> list_all (\<lambda>c. is_alpha c \<or> dec_digit c \<or> c = CHR ''.'' \<or> c = CHR ''_'' \<or> c = CHR ''-'') (tl key)
         \<and> rest \<noteq> [] \<and> length (tl rest) \<le> 200 \<and> \<not> list_ex line_break (tl rest)
         \<and> \<not> isOfficePropUnsafe key (tl rest))"

definition OFFICE_ELEMENT_TYPES :: "string list" where
  "OFFICE_ELEMENT_TYPES = [''paragraph'', ''run'', ''table'', ''sheet'', ''row'', ''column'', ''cell'',
     ''slide'', ''shape'', ''picture'', ''diagram'', ''flowchart'', ''ole'', ''video'']"

definition isOfficeElementType :: "string \<Rightarrow> bool" where
  "isOfficeElementType v \<longleftrightarrow> v \<in> set OFFICE_ELEMENT_TYPES"

definition OFFICE_BATCH_VERBS :: "string list" where
  "OFFICE_BATCH_VERBS = [''add'', ''set'', ''remove'', ''move'', ''swap'']"

fun officeItemPropsSafe :: "jval \<Rightarrow> bool" where
  "officeItemPropsSafe (VObj kvs) = list_all (\<lambda>p. \<not> isOfficePropUnsafe (fst p) (vtext (snd p))) kvs"
| "officeItemPropsSafe v = True"

definition isOfficeBatchCommands :: "string \<Rightarrow> bool" where
  "isOfficeBatchCommands v \<longleftrightarrow> length v \<le> 16 * 1024
     \<and> (case parse v of
          Some (VArr items) \<Rightarrow> items \<noteq> [] \<and> length items \<le> 100
            \<and> list_all (\<lambda>item. is_vobj item \<and> jv_string (vget item ''command'') \<in> set OFFICE_BATCH_VERBS
                \<and> officeItemPropsSafe (vget item ''props'')) items
        | _ \<Rightarrow> False)"

section \<open>Argv specifications\<close>

datatype flag_check = Valueless | Checked "string \<Rightarrow> bool"

record argv_spec =
  as_base :: "string list"
  as_flags :: "(string \<times> flag_check) list"
  as_positionals :: "(string \<Rightarrow> bool) list"
  as_minPositionals :: nat

abbreviation spec0 :: "string list \<Rightarrow> (string \<Rightarrow> bool) list \<Rightarrow> argv_spec" where
  "spec0 base positionals \<equiv> \<lparr>as_base = base, as_flags = [], as_positionals = positionals, as_minPositionals = 0\<rparr>"

definition OFFICECLI_WRAPPER_ARGS :: "(string \<times> argv_spec) list" where
  "OFFICECLI_WRAPPER_ARGS = [
     (''get'', spec0 [''get'', ''--json''] [isOfficeFile, isOfficeArg]),
     (''query'', spec0 [''query'', ''--json''] [isOfficeFile, isOfficeArg]),
     (''view'', spec0 [''view''] [isOfficeFile, isOfficeViewMode]),
     (''validate'', spec0 [''validate'', ''--json''] [isOfficeFile]),
     (''dump'', spec0 [''dump''] [isOfficeFile, isOfficeArg])]"

definition PDFCPU_WRAPPER_ARGS :: "(string \<times> argv_spec) list" where
  "PDFCPU_WRAPPER_ARGS = [
     (''validate'', (spec0 [''validate'', ''--offline'', ''--conf'', ''disable'', ''--mode'', ''strict''] [isPdfFile])
        \<lparr>as_minPositionals := 1\<rparr>),
     (''info'', (spec0 [''info'', ''--offline'', ''--conf'', ''disable'', ''--json''] [isPdfFile])
        \<lparr>as_minPositionals := 1\<rparr>)]"

definition OFFICECLI_APPLY_WRAPPER_ARGS :: "(string \<times> argv_spec) list" where
  "OFFICECLI_APPLY_WRAPPER_ARGS = [
     (''create'', spec0 [''create''] [isOfficeFile]),
     (''remove'', spec0 [''remove''] [isOfficeFile, isOfficeArg]),
     (''set'', (spec0 [''set''] [isOfficeFile, isOfficeArg])\<lparr>as_flags := [(''--prop'', Checked isOfficePropPair)]\<rparr>),
     (''add'', (spec0 [''add''] [isOfficeFile, isOfficeArg])
        \<lparr>as_flags := [(''--type'', Checked isOfficeElementType), (''--prop'', Checked isOfficePropPair)]\<rparr>),
     (''batch'', (spec0 [''batch''] [isOfficeFile])\<lparr>as_flags := [(''--commands'', Checked isOfficeBatchCommands)]\<rparr>),
     (''swap'', spec0 [''swap''] [isOfficeFile, isOfficeArg, isOfficeArg]),
     (''move'', (spec0 [''move''] [isOfficeFile, isOfficeArg])
        \<lparr>as_flags := [(''--to'', Checked isOfficeArg), (''--after'', Checked isOfficeArg), (''--before'', Checked isOfficeArg)]\<rparr>),
     (''import'', (spec0 [''import''] [isOfficeFile, isOfficeArg, isOfficeCsvFile])
        \<lparr>as_flags := [(''--header'', Valueless), (''--format'', Checked (\<lambda>v. v = ''csv'' \<or> v = ''tsv''))]\<rparr>),
     (''merge'', (spec0 [''merge''] [isOfficeFile, isOfficeFile])
        \<lparr>as_flags := [(''--data'', Checked isOfficeJsonData), (''--force'', Valueless)]\<rparr>)]"

definition EXCALIDRAW_CLI_APPLY_WRAPPER_ARGS :: "(string \<times> argv_spec) list" where
  "EXCALIDRAW_CLI_APPLY_WRAPPER_ARGS = [
     (''export'', (spec0 [] [isExcalidrawSceneFile, isExcalidrawPngFile])\<lparr>as_minPositionals := 2\<rparr>)]"

record git_spec =
  gs_base :: "string list"
  gs_flags :: "(string \<times> (string \<Rightarrow> bool)) list"
  gs_positional :: "(string \<Rightarrow> bool) option"
  gs_maxPositionals :: nat

abbreviation git0 :: "string list \<Rightarrow> git_spec" where
  "git0 base \<equiv> \<lparr>gs_base = base, gs_flags = [], gs_positional = None, gs_maxPositionals = 0\<rparr>"

definition GIT_WRAPPER_ARGS :: "(string \<times> git_spec) list" where
  "GIT_WRAPPER_ARGS = [
     (''status'', git0 [''--no-pager'', ''status'', ''--porcelain=v2'', ''--branch'']),
     (''log'', (git0 [''--no-pager'', ''log'', ''-z'', ''--format=%H%x1f%an%x1f%aI%x1f%s'', ''--max-count=50''])
        \<lparr>gs_flags := [(''--since'', isIsoDate), (''--until'', isIsoDate), (''--author'', isGitToken), (''--max-count'', isMaxCount)]\<rparr>),
     (''diff_stat'', git0 [''--no-pager'', ''diff'', ''--stat'', ''--no-color'']),
     (''branch_list'', git0 [''--no-pager'', ''branch'', ''--list'', ''--format=%(refname:short)%1f%(objectname)'']),
     (''head'', git0 [''--no-pager'', ''rev-parse'', ''HEAD'']),
     (''show'', (git0 [''--no-pager'', ''show'', ''--stat'', ''--no-color''])\<lparr>gs_positional := Some isGitRev, gs_maxPositionals := 1\<rparr>),
     (''diff_ref'', (git0 [''--no-pager'', ''diff'', ''--stat'', ''--no-color''])\<lparr>gs_positional := Some isGitRev, gs_maxPositionals := 1\<rparr>)]"

definition CCUSAGE_WRAPPER_ARGS :: "(string \<times> string list) list" where
  "CCUSAGE_WRAPPER_ARGS = [
     (''daily'', [''daily'', ''--json'', ''--offline'']),
     (''weekly'', [''weekly'', ''--json'', ''--offline'']),
     (''monthly'', [''monthly'', ''--json'', ''--offline'']),
     (''session'', [''session'', ''--json'', ''--offline'']),
     (''codex_daily'', [''codex'', ''daily'', ''--json'', ''--offline'']),
     (''claude_daily'', [''claude'', ''daily'', ''--json'', ''--offline''])]"

section \<open>Matching an argv\<close>

text \<open>\<open>table[key]\<close> for a key of small letters, digits and underscores: an object literal also answers the two
  such names it inherits from \<open>Object.prototype\<close>.\<close>

datatype 'a member = Own 'a | Inherited string | Missing

definition object_get :: "(string \<times> 'a) list \<Rightarrow> string \<Rightarrow> 'a member" where
  "object_get table k =
     (case map_of table k of
        Some v \<Rightarrow> Own v
      | None \<Rightarrow> if k = ''constructor'' \<or> k = ''__proto__'' then Inherited k else Missing)"

definition stringArrayStartsWith :: "string list \<Rightarrow> string list \<Rightarrow> bool" where
  "stringArrayStartsWith v prefix \<longleftrightarrow> length prefix \<le> length v \<and> take (length prefix) v = prefix"

text \<open>\<open>officecliArgvMatches\<close>: the loop over the arguments after the base, with the count of positionals so far;
  \<open>None\<close> is a refusal.\<close>

fun office_walk :: "argv_spec \<Rightarrow> nat \<Rightarrow> string list \<Rightarrow> nat option" where
  "office_walk spec i [] = Some i"
| "office_walk spec i (token # rest) =
     (if starts_with token ''-''
      then (case map_of (as_flags spec) token of
              None \<Rightarrow> None
            | Some Valueless \<Rightarrow> office_walk spec i rest
            | Some (Checked validate) \<Rightarrow>
                (case rest of
                   [] \<Rightarrow> None
                 | v # rest' \<Rightarrow> if validate v then office_walk spec i rest' else None))
      else if i < length (as_positionals spec) \<and> (as_positionals spec ! i) token
      then office_walk spec (Suc i) rest else None)"

definition officecliArgvMatches :: "argv_spec member option \<Rightarrow> string list \<Rightarrow> string + bool" where
  "officecliArgvMatches found args =
     (case found of
        None \<Rightarrow> Inr False
      | Some Missing \<Rightarrow> Inr False
      | Some (Inherited k) \<Rightarrow> Inl ''TypeError''
      | Some (Own spec) \<Rightarrow>
          Inr (stringArrayStartsWith args (as_base spec)
               \<and> (case office_walk spec 0 (drop (length (as_base spec)) args) of
                    None \<Rightarrow> False | Some n \<Rightarrow> as_minPositionals spec \<le> n)))"

text \<open>\<open>/^<prefix>([a-z0-9_]+)$/\<close>\<close>

definition command_name :: "string \<Rightarrow> string \<Rightarrow> string option" where
  "command_name prefix cap =
     (let r = drop (length prefix) cap
      in if starts_with cap prefix \<and> r \<noteq> [] \<and> list_all (\<lambda>c. is_lower c \<or> dec_digit c \<or> c = CHR ''_'') r
         then Some r else None)"

definition pdfcpuArgsAllowed :: "string \<Rightarrow> string list \<Rightarrow> string + bool" where
  "pdfcpuArgsAllowed cap args =
     officecliArgvMatches (map_option (object_get PDFCPU_WRAPPER_ARGS) (command_name ''app.app_pdfcpu.wrapper.'' cap)) args"

definition excalidrawCliApplyArgsAllowed :: "string \<Rightarrow> string list \<Rightarrow> string + bool" where
  "excalidrawCliApplyArgsAllowed cap args =
     officecliArgvMatches (map_option (object_get EXCALIDRAW_CLI_APPLY_WRAPPER_ARGS)
       (command_name ''app.app_excalidraw_cli.apply.'' cap)) args"

definition officecliApplyArgsAllowed :: "string \<Rightarrow> string list \<Rightarrow> string + bool" where
  "officecliApplyArgsAllowed cap args =
     officecliArgvMatches (map_option (object_get OFFICECLI_APPLY_WRAPPER_ARGS) (command_name ''app.app_officecli.apply.'' cap)) args"

definition officecliArgsAllowed :: "string \<Rightarrow> string list \<Rightarrow> string + bool" where
  "officecliArgsAllowed cap args =
     officecliArgvMatches (map_option (object_get OFFICECLI_WRAPPER_ARGS) (command_name ''app.app_officecli.wrapper.'' cap)) args"

fun ccusage_pairs :: "string list \<Rightarrow> bool" where
  "ccusage_pairs [] = True"
| "ccusage_pairs [flag] = False"
| "ccusage_pairs (flag # v # rest) =
     ((if flag = ''--since'' \<or> flag = ''--until'' then isIsoDate v
       else if flag = ''--timezone'' then isGitToken v else False) \<and> ccusage_pairs rest)"

text \<open>The inherited \<open>constructor\<close> is a function of length 1 without \<open>every\<close>; \<open>__proto__\<close> has no length.\<close>

definition ccusageArgsAllowed :: "string \<Rightarrow> string list \<Rightarrow> string + bool" where
  "ccusageArgsAllowed cap args =
     (case map_option (object_get CCUSAGE_WRAPPER_ARGS) (command_name ''app.app_ccusage.wrapper.'' cap) of
        Some (Own base) \<Rightarrow> Inr (stringArrayStartsWith args base \<and> ccusage_pairs (drop (length base) args))
      | Some (Inherited k) \<Rightarrow> if k = ''constructor'' \<and> args \<noteq> [] then Inl ''TypeError'' else Inr False
      | _ \<Rightarrow> Inr False)"

fun git_walk :: "git_spec \<Rightarrow> nat \<Rightarrow> string list \<Rightarrow> bool" where
  "git_walk spec n [] = True"
| "git_walk spec n (token # rest) =
     (if starts_with token ''-''
      then (case (map_of (gs_flags spec) token, rest) of
              (Some validate, v # rest') \<Rightarrow> validate v \<and> git_walk spec n rest'
            | _ \<Rightarrow> False)
      else (case gs_positional spec of
              None \<Rightarrow> False
            | Some validate \<Rightarrow> n < gs_maxPositionals spec \<and> validate token \<and> git_walk spec (Suc n) rest))"

definition gitArgsAllowed :: "string \<Rightarrow> string list \<Rightarrow> string + bool" where
  "gitArgsAllowed cap args =
     (case map_option (object_get GIT_WRAPPER_ARGS) (command_name ''app.app_git.wrapper.'' cap) of
        Some (Own spec) \<Rightarrow> Inr (stringArrayStartsWith args (gs_base spec) \<and> git_walk spec 0 (drop (length (gs_base spec)) args))
      | Some (Inherited k) \<Rightarrow> Inl ''TypeError''
      | _ \<Rightarrow> Inr False)"

definition wrapperArgsAllowed :: "string \<Rightarrow> string list \<Rightarrow> string + bool" where
  "wrapperArgsAllowed cap args =
     (if starts_with cap ''app.app_ccusage.wrapper.'' then ccusageArgsAllowed cap args
      else if starts_with cap ''app.app_git.wrapper.'' then gitArgsAllowed cap args
      else if starts_with cap ''app.app_officecli.wrapper.'' then officecliArgsAllowed cap args
      else if starts_with cap ''app.app_pdfcpu.wrapper.'' then pdfcpuArgsAllowed cap args
      else if starts_with cap ''app.app_officecli.apply.'' then officecliApplyArgsAllowed cap args
      else if starts_with cap ''app.app_excalidraw_cli.apply.'' then excalidrawCliApplyArgsAllowed cap args
      else Inr False)"

section \<open>The argv of the wrapper runner\<close>

record wrapper_argv =
  wa_ok :: bool
  wa_capability :: "string option"
  wa_execCommand :: "string option"
  wa_execArgs :: "string list"
  wa_cwd :: "string option"
  wa_reason :: string

definition argv0 :: wrapper_argv where
  "argv0 = \<lparr>wa_ok = True, wa_capability = None, wa_execCommand = None, wa_execArgs = [], wa_cwd = None, wa_reason = []\<rparr>"

definition argv_bad :: "string \<Rightarrow> wrapper_argv \<Rightarrow> wrapper_argv" where
  "argv_bad reason p = p\<lparr>wa_ok := False, wa_reason := reason\<rparr>"

text \<open>\<open>valueAt\<close> at the head of what is left.\<close>

definition valueAt :: "bool \<Rightarrow> string list \<Rightarrow> string" where
  "valueAt allowFlag rest =
     (case rest of [] \<Rightarrow> [] | v # _ \<Rightarrow> if \<not> allowFlag \<and> starts_with v ''--'' then [] else v)"

definition argv_end :: "wrapper_argv \<Rightarrow> wrapper_argv" where
  "argv_end p =
     (if coalesce (wa_execCommand p) [] = [] then argv_bad ''missing --exec-command'' p
      else if coalesce (wa_capability p) [] = [] then argv_bad ''missing --capability'' p
      else if starts_with (coalesce (wa_execCommand p) []) ''-'' then argv_bad ''flag-shaped --exec-command'' p
      else p)"

function parse_argv :: "wrapper_argv \<Rightarrow> string list \<Rightarrow> wrapper_argv" where
  "parse_argv p [] = argv_end p"
| "parse_argv p (arg # rest) =
     (if arg = ''--capability'' then
        (if wa_capability p \<noteq> None then argv_bad ''duplicate --capability'' p
         else parse_argv (p\<lparr>wa_capability := Some (valueAt False rest)\<rparr>) (tl rest))
      else if arg = ''--exec-command'' then
        (if wa_execCommand p \<noteq> None then argv_bad ''duplicate --exec-command'' p
         else parse_argv (p\<lparr>wa_execCommand := Some (valueAt True rest)\<rparr>) (tl rest))
      else if arg = ''--exec-arg'' then
        parse_argv (p\<lparr>wa_execArgs := wa_execArgs p @ [valueAt True rest]\<rparr>) (tl rest)
      else if arg = ''--cwd'' then
        (if wa_cwd p \<noteq> None then argv_bad ''duplicate --cwd'' p
         else parse_argv (p\<lparr>wa_cwd := Some (valueAt False rest)\<rparr>) (tl rest))
      else argv_bad (''unsupported argument '' @ arg) p)"
  by pat_completeness auto
termination
  by (relation "measure (\<lambda>(p, args). length args)") auto

declare parse_argv.simps(2) [simp del]

text \<open>The loop starts after the script.\<close>

definition parseApplicationWrapperArgs :: "string list \<Rightarrow> wrapper_argv" where
  "parseApplicationWrapperArgs args = parse_argv argv0 (tl args)"

section \<open>The manifest\<close>

record wrapper_entry =
  we_command :: string
  we_capabilityPrefix :: string
  we_filePolicy :: string
  we_networkPolicy :: string

record kind_policy =
  kp_file :: "string list"
  kp_network :: "string list"

record manifest =
  mf_version :: int
  mf_execPath :: string
  mf_demoAgentPath :: "string option"
  mf_codexFixtureAgentPath :: "string option"
  mf_nodeWrappers :: "string list"
  mf_codexExecWrappers :: "string list"
  mf_claudeApplyWrappers :: "string list"
  mf_applicationWrapperCommands :: "wrapper_entry list"
  mf_policies :: "(string \<times> kind_policy) list"

abbreviation entry :: "string \<Rightarrow> string \<Rightarrow> string \<Rightarrow> wrapper_entry" where
  "entry command prefix file \<equiv>
     \<lparr>we_command = command, we_capabilityPrefix = prefix, we_filePolicy = file, we_networkPolicy = ''forbidden''\<rparr>"

abbreviation kind :: "string list \<Rightarrow> string list \<Rightarrow> kind_policy" where
  "kind file network \<equiv> \<lparr>kp_file = file, kp_network = network\<rparr>"

text \<open>The probes of a command serve the readiness report and are not read by the gate.\<close>

definition createLocalExecutionPolicyManifest :: "string option \<Rightarrow> string option \<Rightarrow> string \<Rightarrow> manifest" where
  "createLocalExecutionPolicyManifest demoAgentPath codexFixtureAgentPath execPath =
     \<lparr>mf_version = 1, mf_execPath = execPath, mf_demoAgentPath = demoAgentPath,
      mf_codexFixtureAgentPath = codexFixtureAgentPath,
      mf_nodeWrappers = [''tools/agents/application-wrapper.mjs'', ''tools/agents/codex-review-wrapper.mjs'',
        ''tools/agents/claude-review-wrapper.mjs''],
      mf_codexExecWrappers = [''tools/agents/codex-exec-wrapper.mjs''],
      mf_claudeApplyWrappers = [''tools/agents/claude-apply-wrapper.mjs''],
      mf_applicationWrapperCommands = [
        entry ''ccusage'' ''app.app_ccusage.wrapper.'' ''read_only'',
        entry ''git'' ''app.app_git.wrapper.'' ''read_only'',
        entry ''git-bash'' ''app.setup.git_bash.'' ''read_only'',
        entry ''wsl'' ''app.setup.wsl.'' ''read_only'',
        entry ''claude'' ''app.app_claude.'' ''read_only'',
        entry ''codex'' ''app.setup.codex.'' ''read_only'',
        entry ''officecli'' ''app.app_officecli.wrapper.'' ''read_only'',
        entry ''pdfcpu'' ''app.app_pdfcpu.wrapper.'' ''read_only'',
        entry ''officecli'' ''app.app_officecli.apply.'' ''workspace_write'',
        entry ''excalidraw-cli'' ''app.app_excalidraw_cli.wrapper.'' ''read_only'',
        entry ''excalidraw-cli'' ''app.app_excalidraw_cli.apply.'' ''workspace_write''],
      mf_policies = [
        (''demoAgent'', kind [''read_only''] [''forbidden'']),
        (''codex'', kind [''native_controls'', ''workspace_write'', ''read_only''] [''native_controls'', ''restricted'', ''network'']),
        (''claude'', kind [''native_controls'', ''workspace_write'', ''read_only''] [''native_controls'', ''restricted'', ''network'']),
        (''wrapper'', kind [''read_only''] [''forbidden'']),
        (''codexExec'', kind [''native_controls'', ''workspace_write'', ''read_only''] [''native_controls'', ''restricted'', ''forbidden'']),
        (''claudeApply'', kind [''workspace_write'', ''read_only''] [''forbidden'']),
        (''officecliApply'', kind [''workspace_write'', ''read_only''] [''forbidden'']),
        (''excalidrawCliApply'', kind [''workspace_write'', ''read_only''] [''forbidden''])]\<rparr>"

definition FILE_POLICIES :: "string list" where
  "FILE_POLICIES = [''forbidden'', ''read_only'', ''workspace_write'', ''native_controls'']"

definition NETWORK_POLICIES :: "string list" where
  "NETWORK_POLICIES = [''forbidden'', ''restricted'', ''network'', ''native_controls'']"

section \<open>Policies and spawn plans\<close>

record local_policy =
  lp_filePolicy :: string
  lp_networkPolicy :: string
  lp_source :: string

record spawn_plan =
  sp_command :: string
  sp_args :: "string list option"
  sp_cwd :: string
  sp_localPolicy :: "local_policy option"
  sp_codexAdditionalWritableRoots :: "string list"

record device =
  dv_exists :: "string \<Rightarrow> bool"
  dv_cwd :: string
  dv_binary :: "string \<Rightarrow> bool"

abbreviation plan_args :: "spawn_plan \<Rightarrow> string list" where
  "plan_args p \<equiv> coalesce (sp_args p) []"

definition first_arg :: "spawn_plan \<Rightarrow> string" where
  "first_arg p = (case plan_args p of [] \<Rightarrow> [] | a # _ \<Rightarrow> a)"

definition normalizePolicy :: "jval \<Rightarrow> string \<Rightarrow> string" where
  "normalizePolicy v fallback =
     (let text = js_trim (vtext v)
      in if text \<in> set FILE_POLICIES \<or> text \<in> set NETWORK_POLICIES then text else fallback)"

definition normalizeCwdPolicy :: "jval \<Rightarrow> string" where
  "normalizeCwdPolicy v = (if js_trim (vtext v) = ''invocation_root'' then ''invocation_root'' else ''fixed'')"

definition work_metadata :: "jval \<Rightarrow> jval" where
  "work_metadata work =
     (let m = vget (vget work ''options'') ''metadata'' in if is_vobj m then m else VObj [])"

definition applicationWrapperSpec :: "jval \<Rightarrow> jval option" where
  "applicationWrapperSpec work =
     (let w = vget (work_metadata work) ''applicationWrapper'' in if is_vobj w then Some w else None)"

definition command_is :: "string list \<Rightarrow> string \<Rightarrow> bool" where
  "command_is names command =
     (let n = js_lower (js_trim command)
      in list_ex (\<lambda>name. n = name \<or> ends_with n (''/'' @ name) \<or> ends_with n (backslash # name)) names)"

definition isCodexCli :: "string \<Rightarrow> bool" where
  "isCodexCli = command_is [''codex'', ''codex.cmd'', ''codex.ps1'', ''codex.exe'']"

definition isClaudeCli :: "string \<Rightarrow> bool" where
  "isClaudeCli = command_is [''claude'', ''claude.cmd'', ''claude.ps1'', ''claude.exe'']"

definition forward :: "string \<Rightarrow> string" where
  "forward = map (\<lambda>c. if c = backslash then slash else c)"

fun string_items :: "jval \<Rightarrow> string list" where
  "string_items (VArr xs) = map jv_string xs"
| "string_items v = []"

abbreviation adapter_command :: "jval \<Rightarrow> string" where
  "adapter_command adapter \<equiv> vtext (vget adapter ''command'')"

definition usesCodexExecWrapper :: "jval \<Rightarrow> bool" where
  "usesCodexExecWrapper adapter \<longleftrightarrow> adapter_command adapter = ''node''
     \<and> list_ex (\<lambda>a. ends_with (forward a) ''tools/agents/codex-exec-wrapper.mjs'') (string_items (vget adapter ''args''))"

definition usesClaudeApplyWrapper :: "jval \<Rightarrow> bool" where
  "usesClaudeApplyWrapper adapter \<longleftrightarrow> adapter_command adapter = ''node''
     \<and> list_ex (\<lambda>a. ends_with (forward a) ''tools/agents/claude-apply-wrapper.mjs'') (string_items (vget adapter ''args''))"

definition policy_of :: "jval \<Rightarrow> string \<Rightarrow> string \<Rightarrow> string \<Rightarrow> local_policy" where
  "policy_of v file network source =
     \<lparr>lp_filePolicy = normalizePolicy (vget v ''filePolicy'') file,
      lp_networkPolicy = normalizePolicy (vget v ''networkPolicy'') network, lp_source = source\<rparr>"

definition localPolicyForAdapter :: "jval \<Rightarrow> jval \<Rightarrow> local_policy" where
  "localPolicyForAdapter adapter work =
     (case applicationWrapperSpec work of
        Some wrapper \<Rightarrow> policy_of wrapper ''read_only'' ''forbidden'' ''application_wrapper''
      | None \<Rightarrow>
          if isCodexCli (adapter_command adapter) \<or> isClaudeCli (adapter_command adapter)
          then policy_of adapter ''native_controls'' ''native_controls'' ''coding_cli_native_controls''
          else if usesCodexExecWrapper adapter
          then policy_of adapter ''native_controls'' ''restricted'' ''codex_exec_wrapper_native_controls''
          else if usesClaudeApplyWrapper adapter
          then policy_of adapter ''workspace_write'' ''forbidden'' ''claude_apply_wrapper''
          else policy_of adapter ''read_only'' ''forbidden'' ''adapter_default'')"

definition collectApprovedRoots :: "string \<Rightarrow> jval \<Rightarrow> string list" where
  "collectApprovedRoots base work =
     (let m = work_metadata work;
          given = [vget (vget work ''project'') ''path'', vget m ''worktreePath'', vget m ''projectPath'']
      in first_keys (map (resolve base) (filter (\<lambda>s. js_trim s \<noteq> []) (List.map_filter vstr given))))"

definition samePath :: "string \<Rightarrow> string \<Rightarrow> string option \<Rightarrow> bool" where
  "samePath base a b = (case b of None \<Rightarrow> False | Some p \<Rightarrow> a \<noteq> [] \<and> p \<noteq> [] \<and> resolve base a = resolve base p)"

section \<open>Which kind of command a plan is\<close>

definition runs_script :: "manifest \<Rightarrow> string list \<Rightarrow> spawn_plan \<Rightarrow> bool" where
  "runs_script mf suffixes p \<longleftrightarrow>
     (sp_command p = ''node'' \<or> sp_command p = mf_execPath mf)
     \<and> list_ex (\<lambda>suffix. ends_with (forward (first_arg p)) suffix) suffixes"

definition isAllowlistedCodexSpawn :: "manifest \<Rightarrow> spawn_plan \<Rightarrow> bool" where
  "isAllowlistedCodexSpawn mf p =
     (if isCodexCli (sp_command p) then first_arg p \<in> {''exec'', ''resume''}
      else sp_command p = mf_execPath mf
        \<and> ends_with (forward (first_arg p)) ''/node_modules/@openai/codex/bin/codex.js''
        \<and> (case plan_args p of a # b # _ \<Rightarrow> b \<in> {''exec'', ''resume''} | _ \<Rightarrow> False))"

definition isAllowlistedNodeWrapper :: "manifest \<Rightarrow> jval \<Rightarrow> spawn_plan \<Rightarrow> bool" where
  "isAllowlistedNodeWrapper mf adapter p \<longleftrightarrow> runs_script mf (mf_nodeWrappers mf) p \<and> adapter_command adapter = ''node''"

definition isApplicationWrapperSpawn :: "manifest \<Rightarrow> spawn_plan \<Rightarrow> bool" where
  "isApplicationWrapperSpawn mf p = runs_script mf [''tools/agents/application-wrapper.mjs''] p"

definition spawn_capability :: "spawn_plan \<Rightarrow> string" where
  "spawn_capability p = coalesce (wa_capability (parseApplicationWrapperArgs (plan_args p))) []"

definition classifySpawn :: "device \<Rightarrow> manifest \<Rightarrow> jval \<Rightarrow> spawn_plan \<Rightarrow> string option" where
  "classifySpawn dev mf adapter p =
     (if sp_command p = mf_execPath mf \<and> samePath (dv_cwd dev) (first_arg p) (mf_demoAgentPath mf) then Some ''demoAgent''
      else if sp_command p = mf_execPath mf \<and> samePath (dv_cwd dev) (first_arg p) (mf_codexFixtureAgentPath mf) then Some ''codex''
      else if isCodexCli (adapter_command adapter) \<and> isAllowlistedCodexSpawn mf p then Some ''codex''
      else if isClaudeCli (adapter_command adapter) \<and> isClaudeCli (sp_command p) then Some ''claude''
      else if runs_script mf (mf_codexExecWrappers mf) p then Some ''codexExec''
      else if runs_script mf (mf_claudeApplyWrappers mf) p then Some ''claudeApply''
      else if isApplicationWrapperSpawn mf p \<and> starts_with (spawn_capability p) ''app.app_officecli.apply.'' then Some ''officecliApply''
      else if isApplicationWrapperSpawn mf p \<and> starts_with (spawn_capability p) ''app.app_excalidraw_cli.apply.'' then Some ''excalidrawCliApply''
      else if isAllowlistedNodeWrapper mf adapter p then Some ''wrapper''
      else None)"

definition policyAllowed :: "manifest \<Rightarrow> string \<Rightarrow> local_policy \<Rightarrow> bool" where
  "policyAllowed mf commandKind lp =
     (case map_of (mf_policies mf) commandKind of
        None \<Rightarrow> False
      | Some k \<Rightarrow> lp_filePolicy lp \<in> set (kp_file k) \<and> lp_networkPolicy lp \<in> set (kp_network k))"

section \<open>The workspace arguments of Codex\<close>

fun optionValues :: "string list \<Rightarrow> string list \<Rightarrow> string list" where
  "optionValues names [] = []"
| "optionValues names (arg # rest) =
     (if arg \<in> set names
      then (case rest of [] \<Rightarrow> [[]] | v # rest' \<Rightarrow> v # optionValues names rest')
      else (case List.find (\<lambda>name. starts_with arg (name @ ''='')) names of
              Some name \<Rightarrow> drop (length name + 1) arg # optionValues names rest
            | None \<Rightarrow> optionValues names rest))"

definition full_access :: string where
  "full_access = ''--dangerously-bypass-approvals-and-sandbox''"

text \<open>\<open>args[args.indexOf("exec") + 1]\<close>, when there is an \<open>exec\<close>.\<close>

definition after_exec :: "string list \<Rightarrow> string option" where
  "after_exec args =
     (case dropWhile (\<lambda>a. a \<noteq> ''exec'') args of _ # b # _ \<Rightarrow> Some b | _ \<Rightarrow> None)"

text \<open>The answer is the reason and the code of a refusal, or \<open>None\<close>.\<close>

definition codexWorkspaceArgumentGate :: "device \<Rightarrow> spawn_plan \<Rightarrow> string option \<Rightarrow> (string \<times> string) option" where
  "codexWorkspaceArgumentGate dev p permissionDecision =
     (let args = plan_args p;
          resumed = (after_exec args = Some ''resume'');
          cdValues = optionValues [''--cd'', ''-C''] args;
          sandboxValues = optionValues [''--sandbox'', ''-s''] args;
          addDirValues = optionValues [''--add-dir''] args;
          expectedAddDirs = sp_codexAdditionalWritableRoots p;
          norm = resolve (dv_cwd dev)
      in if full_access \<in> set args then
           (if permissionDecision = Some ''approved'' then None
            else Some (''Local execution gate refused full-access Codex execution without approval evidence.'', ''full_access_unapproved''))
         else if resumed then
           (if cdValues \<noteq> [] \<or> sandboxValues \<noteq> [] \<or> addDirValues \<noteq> []
            then Some (''Local execution gate refused unsupported workspace flags on a resumed Codex session.'', ''invalid_codex_resume_contract'')
            else None)
         else if ''exec'' \<notin> set args \<or> length sandboxValues \<noteq> 1 \<or> hd sandboxValues \<notin> {''read-only'', ''workspace-write''} then
           Some (''Local execution gate requires fresh Codex runs to use the read-only or workspace-write sandbox.'', ''invalid_codex_sandbox'')
         else if length cdValues \<noteq> 1 \<or> \<not> list_all (\<lambda>v. norm v = norm (sp_cwd p)) cdValues then
           Some (''Local execution gate refused a Codex --cd outside the invocation working directory.'', ''codex_cwd_mismatch'')
         else if hd sandboxValues = ''read-only'' then
           (if addDirValues \<noteq> [] \<or> expectedAddDirs \<noteq> []
            then Some (''Local execution gate refused writable --add-dir roots on a read-only Codex run.'', ''codex_read_only_writable_root'')
            else None)
         else if set (map norm addDirValues) \<noteq> set (map norm expectedAddDirs)
                 \<or> \<not> list_all (\<lambda>v. dv_exists dev (norm v) \<and> contains (js_lower (norm v)) ''/.git/worktrees/'') expectedAddDirs then
           Some (''Local execution gate refused an untrusted Codex --add-dir writable root.'', ''codex_add_dir_mismatch'')
         else None)"

section \<open>The gate of the application wrapper\<close>

record wrapper_gate =
  wg_allowed :: bool
  wg_reason :: string
  wg_code :: "string option"
  wg_refusalCode :: "string option"

definition wg_refuse :: "string \<Rightarrow> string \<Rightarrow> string option \<Rightarrow> wrapper_gate" where
  "wg_refuse reason code refusalCode =
     \<lparr>wg_allowed = False, wg_reason = reason, wg_code = Some code, wg_refusalCode = refusalCode\<rparr>"

definition wg_ok :: wrapper_gate where
  "wg_ok = \<lparr>wg_allowed = True, wg_reason = ''Local execution gate allowed the application wrapper command.'',
            wg_code = None, wg_refusalCode = None\<rparr>"

definition applicationWrapperGate :: "device \<Rightarrow> jval \<Rightarrow> spawn_plan \<Rightarrow> local_policy \<Rightarrow> string list \<Rightarrow> manifest \<Rightarrow> string + wrapper_gate" where
  "applicationWrapperGate dev work p lp approvedRoots mf =
     (let parsed = parseApplicationWrapperArgs (plan_args p);
          command = coalesce (wa_execCommand parsed) []; cap = coalesce (wa_capability parsed) [];
          cwd = coalesce (wa_cwd parsed) []
      in case applicationWrapperSpec work of
        None \<Rightarrow> Inr (wg_refuse ''Local execution gate refused an application wrapper without server-resolved metadata.'' ''validation_failed'' None)
      | Some spec \<Rightarrow>
          if \<not> wa_ok parsed then
            Inr (wg_refuse (''Local execution gate refused malformed application wrapper argv: '' @ wa_reason parsed) ''validation_failed'' None)
          else if command \<noteq> js_trim (vtext (vget spec ''execCommand'')) then
            Inr (wg_refuse ''Local execution gate refused application wrapper command metadata mismatch.'' ''validation_failed'' None)
          else if wa_execArgs parsed \<noteq> string_items (vget spec ''execArgs'') then
            Inr (wg_refuse ''Local execution gate refused application wrapper args metadata mismatch.'' ''validation_failed'' None)
          else if cap \<noteq> js_trim (vtext (vget spec ''capability'')) then
            Inr (wg_refuse ''Local execution gate refused application wrapper capability metadata mismatch.'' ''validation_failed'' None)
          else if vget spec ''filePolicy'' \<noteq> VStr (lp_filePolicy lp) \<or> vget spec ''networkPolicy'' \<noteq> VStr (lp_networkPolicy lp) then
            Inr (wg_refuse ''Local execution gate refused application wrapper policy metadata mismatch.'' ''validation_failed'' None)
          else (case List.find (\<lambda>e. command = we_command e \<and> starts_with cap (we_capabilityPrefix e)) (mf_applicationWrapperCommands mf) of
                  None \<Rightarrow> Inr (wg_refuse ''Local execution gate refused a non-allowlisted application wrapper command.'' ''policy_blocked'' None)
                | Some allow \<Rightarrow>
                    if lp_filePolicy lp \<noteq> we_filePolicy allow \<or> lp_networkPolicy lp \<noteq> we_networkPolicy allow then
                      Inr (wg_refuse ''Local execution gate refused an application wrapper policy outside the command allowlist.'' ''policy_blocked''
                        (Some (if lp_filePolicy lp \<noteq> we_filePolicy allow then ''file_policy_exceeded'' else ''network_policy_exceeded'')))
                    else if normalizeCwdPolicy (vget spec ''cwdPolicy'') = ''invocation_root'' \<and> cwd = [] then
                      Inr (wg_refuse ''Local execution gate refused an invocation-root application wrapper command with no resolved working directory.''
                        ''policy_blocked'' (Some ''cwd_outside_approved_root''))
                    else if cwd \<noteq> [] \<and> (\<not> isAbsolute cwd \<or> \<not> dv_exists dev cwd) then
                      Inr (wg_refuse ''Local execution gate refused an application wrapper cwd that is missing or non-absolute.''
                        ''runtime_error'' (Some ''cwd_outside_approved_root''))
                    else if cwd \<noteq> [] \<and> approvedRoots \<noteq> [] \<and> \<not> list_ex (\<lambda>root. pathWithin (dv_cwd dev) root cwd) approvedRoots then
                      Inr (wg_refuse ''Local execution gate refused an application wrapper cwd outside the approved project or worktree root.''
                        ''policy_blocked'' (Some ''cwd_outside_approved_root''))
                    else (case wrapperArgsAllowed cap (wa_execArgs parsed) of
                            Inl e \<Rightarrow> Inl e
                          | Inr ok \<Rightarrow>
                              if \<not> ok then
                                Inr (wg_refuse ''Local execution gate refused application wrapper args outside the local allowlist.'' ''policy_blocked'' None)
                              else if \<not> dv_binary dev command then
                                Inr (wg_refuse (''Local execution gate refused an application wrapper command whose binary '' @ dquote # command
                                    @ dquote # '' is not available on this device.'') ''runtime_error'' (Some ''binary_unavailable''))
                              else Inr wg_ok)))"

section \<open>The gate of the bridge\<close>

record gate =
  g_allowed :: bool
  g_reason :: string
  g_code :: "string option"
  g_commandKind :: "string option"
  g_refusalCode :: "string option"

definition localExecutionGate ::
    "device \<Rightarrow> manifest \<Rightarrow> jval \<Rightarrow> jval \<Rightarrow> spawn_plan \<Rightarrow> string option \<Rightarrow> string + gate" where
  "localExecutionGate dev mf work adapter p permissionDecision =
     (let lp = (case sp_localPolicy p of Some lp \<Rightarrow> lp | None \<Rightarrow> localPolicyForAdapter adapter work);
          commandKind = classifySpawn dev mf adapter p;
          approvedRoots = collectApprovedRoots (dv_cwd dev) work;
          args = plan_args p;
          refused = (\<lambda>reason code refusalCode.
            Inr \<lparr>g_allowed = False, g_reason = reason, g_code = Some code, g_commandKind = commandKind, g_refusalCode = refusalCode\<rparr>);
          worktreeRoot = vget (vget (vget work ''options'') ''metadata'') ''worktreePath'';
          writeCwd = (case wa_cwd (parseApplicationWrapperArgs args) of Some c \<Rightarrow> c | None \<Rightarrow> sp_cwd p)
      in if vget adapter ''type'' \<noteq> VStr ''cli'' then
           refused (''Local execution gate refused adapter type ''
             @ (if vget adapter ''type'' = VNull then ''unknown'' else jv_string (vget adapter ''type'')) @ ''.'') ''agent_unavailable'' None
         else if sp_command p = [] \<or> sp_args p = None then
           refused ''Local execution gate refused an incomplete spawn plan.'' ''validation_failed'' None
         else if sp_cwd p = [] \<or> \<not> isAbsolute (sp_cwd p) \<or> \<not> dv_exists dev (sp_cwd p) then
           refused ''Local execution gate refused a missing or non-absolute working directory.'' ''runtime_error'' None
         else if approvedRoots \<noteq> [] \<and> \<not> list_ex (\<lambda>root. pathWithin (dv_cwd dev) root (sp_cwd p)) approvedRoots then
           refused ''Local execution gate refused a working directory outside the approved project or worktree root.''
             ''policy_blocked'' (Some ''cwd_outside_approved_root'')
         else if list_ex (\<lambda>arg. CHR 0x00 \<in> set arg) args then
           refused ''Local execution gate refused an argv containing a NUL byte.'' ''validation_failed'' None
         else if lp_filePolicy lp \<notin> set FILE_POLICIES \<or> lp_networkPolicy lp \<notin> set NETWORK_POLICIES then
           refused ''Local execution gate refused an unknown file or network policy.'' ''validation_failed'' None
         else if full_access \<in> set args \<and> permissionDecision \<noteq> Some ''approved'' then
           refused ''Local execution gate refused full-access Codex execution without approval evidence.'' ''policy_blocked'' None
         else (case commandKind of
           None \<Rightarrow> refused ''Local execution gate refused a non-allowlisted command.'' ''policy_blocked'' None
         | Some ck \<Rightarrow>
             (case (if ck = ''codex'' then codexWorkspaceArgumentGate dev p permissionDecision else None) of
                Some (reason, refusalCode) \<Rightarrow> refused reason ''policy_blocked'' (Some refusalCode)
              | None \<Rightarrow>
                  if \<not> policyAllowed mf ck lp then
                    refused ''Local execution gate refused a command whose file or network policy exceeds the local allowlist.'' ''policy_blocked''
                      (Some (case map_of (mf_policies mf) ck of
                               Some k \<Rightarrow> if lp_filePolicy lp \<notin> set (kp_file k) then ''file_policy_exceeded'' else ''network_policy_exceeded''
                             | None \<Rightarrow> ''network_policy_exceeded''))
                  else if (ck = ''officecliApply'' \<or> ck = ''excalidrawCliApply'')
                          \<and> (case vstr worktreeRoot of
                               None \<Rightarrow> True
                             | Some root \<Rightarrow> js_trim root = [] \<or> \<not> pathWithin (dv_cwd dev) root writeCwd) then
                    refused ''Local execution gate refused an application write outside a worktree - writes must run in the invocation's worktree, never the project clone.''
                      ''policy_blocked'' (Some ''cwd_outside_approved_root'')
                  else if isApplicationWrapperSpawn mf p then
                    (case applicationWrapperGate dev work p lp approvedRoots mf of
                       Inl e \<Rightarrow> Inl e
                     | Inr wg \<Rightarrow>
                         if \<not> wg_allowed wg then refused (wg_reason wg) (coalesce (wg_code wg) ''policy_blocked'') (wg_refusalCode wg)
                         else Inr \<lparr>g_allowed = True, g_reason = ''Local execution gate allowed the governed command.'', g_code = None,
                                   g_commandKind = Some ck, g_refusalCode = None\<rparr>)
                  else Inr \<lparr>g_allowed = True, g_reason = ''Local execution gate allowed the governed command.'', g_code = None,
                            g_commandKind = Some ck, g_refusalCode = None\<rparr>)))"

end
