(* ===== verification/WrapperChain.thy ===== *)
theory WrapperChain
  imports WrapperRegistry DevicePolicy
begin

text \<open>
  The path of a wrapper command across the three programs that handle it: the server plans an argv
  (WrapperPlan), the bridge relays it to the runner as discrete tokens, the device's gate reads those tokens
  back and matches them against its own allowlist (DevicePolicy), and the runner parses them once more and
  spawns.  The lemmas show that the two independently kept allowlists agree, that the gate and the runner read
  the same command, and that an accepted file operand stays in the worktree.
\<close>

section \<open>The two sets of validators are the same functions\<close>

lemma same_newline: "has_newline v = list_ex line_break v"
  by (simp add: has_newline_def line_break_def [abs_def])

lemma same_control: "has_control v = list_ex (\<lambda>c. line_break c \<or> c = CHR 0x00) v"
  by (simp add: has_control_def line_break_def)

lemma same_iso_date: "iso_date v = isIsoDate v"
proof -
  have "isIsoDate v" if "iso_date v"
    using that by (auto simp: iso_date_def isIsoDate_def matches_def list_all2_Cons1 numeral_eq_Suc)
  moreover have "iso_date v" if "isIsoDate v"
  proof -
    have "length v = Suc (Suc (Suc (Suc (Suc (Suc (Suc (Suc (Suc (Suc 0)))))))))" using that by (simp add: isIsoDate_def)
    then obtain a b c d e f g h i j where "v = [a, b, c, d, e, f, g, h, i, j]" by (auto simp: length_Suc_conv)
    with that show ?thesis by (simp add: iso_date_def isIsoDate_def matches_def numeral_eq_Suc)
  qed
  ultimately show ?thesis by blast
qed

lemma same_token: "token_text v = isGitToken v"
  by (cases v) (auto simp: token_text_def isGitToken_def class_run_def token_start_def tz_char_def is_alnum_def list_all_iff)

lemma same_count: "count_text v = isMaxCount v"
  by (cases v) (auto simp: count_text_def isMaxCount_def class_run_def)

lemma same_git_rev: "git_rev v = isGitRev v"
  by (cases v) (auto simp: git_rev_def isGitRev_def class_run_def is_alnum_def list_all_iff Let_def)

lemma same_drive: "drive_prefix v = windows_drive v"
  by (auto simp: drive_prefix_def windows_drive_def starts_with_def split: list.splits)

lemma same_rel_path: "isSafeRelFilePath v = isSafeRelPath v"
  by (cases v) (auto simp: isSafeRelFilePath_def isSafeRelPath_def same_control same_drive starts_with_def)

lemma same_file_type:
  "(isSafeRelFilePath v \<and> has_extension [''docx'', ''xlsx'', ''pptx''] v) = isOfficeFile v"
  "(isSafeRelFilePath v \<and> has_extension [''pdf''] v) = isPdfFile v"
  "(isSafeRelFilePath v \<and> has_extension [''csv'', ''tsv''] v) = isOfficeCsvFile v"
  "(isSafeRelFilePath v \<and> has_extension [''excalidraw''] v) = isExcalidrawSceneFile v"
  "(isSafeRelFilePath v \<and> has_extension [''png''] v) = isExcalidrawPngFile v"
  by (simp_all add: same_rel_path has_extension_def file_type_def isOfficeFile_def isPdfFile_def isOfficeCsvFile_def
      isExcalidrawSceneFile_def isExcalidrawPngFile_def)

lemma lower_take: "js_lower (take n v) = take n (js_lower v)"
  by (simp add: js_lower_def take_map)

lemma prefix_takes: "starts_with s ''image:'' \<longleftrightarrow> take 6 s = ''image:''" "starts_with s ''data:'' \<longleftrightarrow> take 5 s = ''data:''"
  by (simp_all add: starts_with_def numeral_eq_Suc)

lemma same_image: "image_prefix v \<longleftrightarrow> image_fill v = Some (drop 6 v)" "image_fill v = None \<longleftrightarrow> \<not> image_prefix v"
  by (simp_all add: image_prefix_def image_fill_def prefix_takes lower_take)

lemma same_scheme: "scheme_prefix v = uri_scheme v"
proof (cases v)
  case (Cons c r)
  have cls: "(\<lambda>c. is_alnum c \<or> c \<in> {CHR ''+'', CHR ''.'', CHR ''-''})
      = (\<lambda>c. is_alpha c \<or> dec_digit c \<or> c = CHR ''+'' \<or> c = CHR ''.'' \<or> c = CHR ''-'')"
    by (auto simp: is_alnum_def)
  have colon: "starts_with t '':'' = (case t of [] \<Rightarrow> False | d # u \<Rightarrow> d = CHR '':'')" for t
    by (cases t) (simp_all add: starts_with_def)
  show ?thesis
    unfolding scheme_prefix_def uri_scheme_def Cons list.case list.sel cls colon by simp
qed (simp add: scheme_prefix_def uri_scheme_def)

lemma same_media: "isSafeMediaSource v = isOfficeSafeMediaSource v"
proof (induction v rule: isSafeMediaSource.induct)
  case (1 v)
  show ?case
  proof (cases "500 < length v \<or> has_control v")
    case True
    then show ?thesis
      by (simp add: isSafeMediaSource.simps [of v] isOfficeSafeMediaSource.simps [of v] same_control)
  next
    case ok: False
    show ?thesis
    proof (cases "image_prefix (js_trim v)")
      case True
      with ok 1 show ?thesis
        by (simp add: isSafeMediaSource.simps [of v] isOfficeSafeMediaSource.simps [of v] same_control same_image(1))
    next
      case False
      then have "image_fill (js_trim v) = None" by (simp add: same_image(2))
      with ok False show ?thesis
        by (simp add: isSafeMediaSource.simps [of v] isOfficeSafeMediaSource.simps [of v] same_control
            same_scheme same_rel_path prefix_takes lower_take)
    qed
  qed
qed

lemma same_escape: "isEscapingLocalPath v = isOfficeEscapingLocalPath v"
  by (cases "js_trim v") (auto simp: isEscapingLocalPath_def isOfficeEscapingLocalPath_def same_drive starts_with_def Let_def)

lemma same_prop: "officecliPropUnsafe k v = isOfficePropUnsafe k v"
  by (auto simp: officecliPropUnsafe_def isOfficePropUnsafe_def OFFICECLI_SOURCE_PROP_KEYS_def OFFICE_SOURCE_PROP_KEYS_def
      OFFICECLI_CONTENT_PROP_KEYS_def OFFICE_CONTENT_PROP_KEYS_def same_media same_escape same_image(2) Let_def)

lemma same_item_props: "propsHaveUnsafeSource v \<longleftrightarrow> \<not> officeItemPropsSafe v"
  by (cases v) (simp_all add: same_prop list_ex_iff list_all_iff)

text \<open>A well-formed input has well-formed parts.\<close>

lemma vget_ok: "jval_ok v \<Longrightarrow> jval_ok (vget v k)"
proof (cases v)
  case (VObj kvs)
  have "jval_ok (vget_in kvs k)" if "list_all (\<lambda>p. jval_ok (snd p)) kvs"
    using that by (induction kvs) auto
  then show "jval_ok v \<Longrightarrow> ?thesis" using VObj by simp
qed simp_all

lemma json_input_ok: "jval_ok raw \<Longrightarrow> json_input raw = Some v \<Longrightarrow> jval_ok v"
  by (cases raw) (auto simp: json_input_def intro: parse_ok)

lemma compact_json_reads:
  "jval_ok v \<Longrightarrow> compact_json v = Some text \<Longrightarrow> length text \<le> 16 * 1024 \<and> parse text = Some v"
  by (auto simp: compact_json_def JSON_COMMANDS_MAX_BYTES_def Let_def parse_vstringify split: if_splits)

text \<open>A batch or a data document that the server lets through is one the device lets through.\<close>

lemma commands_pass:
  assumes "jval_ok raw" and "normalizeJsonCommands raw OFFICECLI_BATCH_VERBS = Some text"
  shows "isOfficeBatchCommands text"
proof -
  obtain items where i: "json_input raw = Some (VArr items)" "items \<noteq> []" "length items \<le> 100"
      "list_all (batch_item_ok OFFICECLI_BATCH_VERBS) items" "compact_json (VArr items) = Some text"
    using assms(2) by (auto simp: normalizeJsonCommands_def JSON_COMMANDS_MAX_ITEMS_def split: option.splits jval.splits if_splits)
  have "length text \<le> 16 * 1024" "parse text = Some (VArr items)"
    using compact_json_reads [OF json_input_ok [OF assms(1) i(1)] i(5)] by simp_all
  then show ?thesis
    using i(2,3,4) by (simp add: isOfficeBatchCommands_def batch_item_ok_def same_item_props list_all_iff
        OFFICECLI_BATCH_VERBS_def OFFICE_BATCH_VERBS_def)
qed

lemma data_pass:
  assumes "jval_ok raw" and "normalizeJsonData raw = Some text"
  shows "isOfficeJsonData text"
proof -
  obtain v where v: "json_input raw = Some v" "is_json_object v" "compact_json v = Some text"
    using assms(2) by (auto simp: normalizeJsonData_def split: option.splits if_splits)
  have "object_or_array v" using v(2) by (cases v) simp_all
  with compact_json_reads [OF json_input_ok [OF assms(1) v(1)] v(3)] show ?thesis
    by (simp add: isOfficeJsonData_def)
qed

lemma prop_pair_passes:
  assumes "prop_key_ok k" and "length t \<le> 200" and "\<not> has_newline t" and "\<not> officecliPropUnsafe k t"
  shows "isOfficePropPair (k @ CHR ''='' # t)"
proof -
  have k: "list_all (\<lambda>c. c \<noteq> CHR ''='') k"
    using assms(1) by (cases k) (auto simp: prop_key_ok_def class_run_def list_all_iff is_alnum_def is_alpha_def
        is_lower_def between_def dec_digit_def)
  have split: "takeWhile (\<lambda>c. c \<noteq> CHR ''='') (k @ CHR ''='' # t) = k"
      "dropWhile (\<lambda>c. c \<noteq> CHR ''='') (k @ CHR ''='' # t) = CHR ''='' # t"
    using takeWhile_digits [OF k, of "CHR ''='' # t"] by simp_all
  show ?thesis
    unfolding isOfficePropPair_def split Let_def
    using assms by (cases k) (auto simp: prop_key_ok_def class_run_def list_all_iff is_alnum_def same_newline same_prop)
qed

section \<open>The interface of an argv matcher\<close>

text \<open>A matcher consumes a declared flag with its value, a declared flag without one, and the next positional.\<close>

locale argv_matcher =
  fixes walk :: "nat \<Rightarrow> string list \<Rightarrow> bool" and pair :: "string \<Rightarrow> string \<Rightarrow> bool"
    and solo :: "string \<Rightarrow> bool" and pos :: "nat \<Rightarrow> string \<Rightarrow> bool"
  assumes walk_pair: "pair f v \<Longrightarrow> walk i (f # v # r) = walk i r"
    and walk_solo: "solo f \<Longrightarrow> walk i (f # r) = walk i r"
    and walk_pos: "\<not> starts_with p ''-'' \<Longrightarrow> pos i p \<Longrightarrow> walk i (p # r) = walk (Suc i) r"
begin

inductive groups :: "string list \<Rightarrow> bool" where
  none: "groups []"
| alone: "solo f \<Longrightarrow> groups r \<Longrightarrow> groups (f # r)"
| valued: "pair f v \<Longrightarrow> groups r \<Longrightarrow> groups (f # v # r)"

lemma groups_append: "groups xs \<Longrightarrow> groups ys \<Longrightarrow> groups (xs @ ys)"
  by (induction rule: groups.induct) (auto intro: groups.intros)

lemma groups_concat: "(\<And>x. x \<in> set xss \<Longrightarrow> groups x) \<Longrightarrow> groups (concat xss)"
  by (induction xss) (auto intro: groups_append groups.none)

lemma groups_walk: "groups xs \<Longrightarrow> walk i (xs @ ys) = walk i ys"
  by (induction rule: groups.induct) (auto simp: walk_pair walk_solo)

lemma positionals_walk:
  "list_all (\<lambda>p. \<not> starts_with p ''-'') ps \<Longrightarrow> (\<And>k. k < length ps \<Longrightarrow> pos (i + k) (ps ! k)) \<Longrightarrow>
    walk i (ps @ ys) = walk (i + length ps) ys"
proof (induction ps arbitrary: i)
  case (Cons p ps)
  have "pos (Suc i + k) (ps ! k)" if "k < length ps" for k
    using Cons.prems(2) [of "Suc k"] that by simp
  then have "walk (Suc i) (ps @ ys) = walk (Suc i + length ps) ys" using Cons by (intro Cons.IH) simp_all
  moreover have "pos i p" using Cons.prems(2) [of 0] by simp
  ultimately show ?case using Cons.prems(1) by (simp add: walk_pos)
qed simp

lemma either_order:
  assumes "groups flags" and "list_all (\<lambda>p. \<not> starts_with p ''-'') ps" and "\<And>k. k < length ps \<Longrightarrow> pos k (ps ! k)"
  shows "walk 0 (flags @ ps) = walk (length ps) []" and "walk 0 (ps @ flags) = walk (length ps) []"
  using groups_walk [OF assms(1), of 0 ps] groups_walk [OF assms(1), of "length ps" "[]"]
    positionals_walk [OF assms(2), of 0 flags] positionals_walk [OF assms(2), of 0 "[]"] assms(3) by simp_all

end

definition office_accepts :: "argv_spec \<Rightarrow> nat \<Rightarrow> string list \<Rightarrow> bool" where
  "office_accepts spec i args = (case office_walk spec i args of None \<Rightarrow> False | Some n \<Rightarrow> as_minPositionals spec \<le> n)"

definition office_pair :: "argv_spec \<Rightarrow> string \<Rightarrow> string \<Rightarrow> bool" where
  "office_pair spec f v \<longleftrightarrow> starts_with f ''-''
     \<and> (case map_of (as_flags spec) f of Some (Checked validate) \<Rightarrow> validate v | _ \<Rightarrow> False)"

definition office_solo :: "argv_spec \<Rightarrow> string \<Rightarrow> bool" where
  "office_solo spec f \<longleftrightarrow> starts_with f ''-'' \<and> (case map_of (as_flags spec) f of Some Valueless \<Rightarrow> True | _ \<Rightarrow> False)"

definition office_pos :: "argv_spec \<Rightarrow> nat \<Rightarrow> string \<Rightarrow> bool" where
  "office_pos spec i p \<longleftrightarrow> i < length (as_positionals spec) \<and> (as_positionals spec ! i) p"

interpretation office: argv_matcher "office_accepts spec" "office_pair spec" "office_solo spec" "office_pos spec"
  for spec
  by unfold_locales
    (auto simp: office_accepts_def office_pair_def office_solo_def office_pos_def split: option.splits flag_check.splits)

definition git_pair :: "git_spec \<Rightarrow> string \<Rightarrow> string \<Rightarrow> bool" where
  "git_pair spec f v \<longleftrightarrow> starts_with f ''-'' \<and> (case map_of (gs_flags spec) f of Some validate \<Rightarrow> validate v | None \<Rightarrow> False)"

definition git_pos :: "git_spec \<Rightarrow> nat \<Rightarrow> string \<Rightarrow> bool" where
  "git_pos spec i p \<longleftrightarrow> (case gs_positional spec of Some validate \<Rightarrow> i < gs_maxPositionals spec \<and> validate p | None \<Rightarrow> False)"

interpretation git: argv_matcher "git_walk spec" "git_pair spec" "\<lambda>f. False" "git_pos spec"
  for spec
  by unfold_locales (auto simp: git_pair_def git_pos_def split: option.splits)

definition ccusage_pair :: "string \<Rightarrow> string \<Rightarrow> bool" where
  "ccusage_pair f v \<longleftrightarrow> (f = ''--since'' \<or> f = ''--until'') \<and> isIsoDate v \<or> f = ''--timezone'' \<and> isGitToken v"

interpretation ccusage: argv_matcher "\<lambda>i. ccusage_pairs" ccusage_pair "\<lambda>f. False" "\<lambda>i p. False"
  by unfold_locales (auto simp: ccusage_pair_def)

section \<open>What the server emits for an input\<close>

definition token_kinds :: "string list" where
  "token_kinds = [''props'', ''json_data'', ''json_commands'', ''boolean-flag'']"

text \<open>The values that can follow the flag of an input, or stand for it as a positional.\<close>

definition emits :: "arg_input \<Rightarrow> string \<Rightarrow> bool" where
  "emits s v \<longleftrightarrow>
     (if ai_type s = ''props'' then isOfficePropPair v
      else if ai_type s = ''json_data'' then isOfficeJsonData v
      else if ai_type s = ''json_commands'' then ai_verbs s = OFFICECLI_BATCH_VERBS \<longrightarrow> isOfficeBatchCommands v
      else v \<noteq> [] \<and> \<not> starts_with v ''-'' \<and> isValidWrapperArgValue s v)"

lemma positional_tokens:
  assumes "ai_positional s" and "ai_type s \<notin> set token_kinds"
  shows "fst (input_tokens s input) = []"
    and "snd (input_tokens s input) = [] \<or> (\<exists>v. snd (input_tokens s input) = [v] \<and> emits s v \<and> \<not> starts_with v ''-'')"
  using assms by (auto simp: input_tokens_def emits_def token_kinds_def Let_def)

context argv_matcher
begin

lemma prop_groups:
  assumes "\<And>v. isOfficePropPair v \<Longrightarrow> pair f v"
  shows "groups (prop_tokens f room ps)"
  by (induction ps arbitrary: room) (auto simp: Let_def intro!: groups.intros assms prop_pair_passes)

lemma flag_groups:
  assumes "\<not> ai_positional s" and "ai_flag s = Some f" and "jval_ok input"
    and "\<And>v. emits s v \<Longrightarrow> pair f v" and "ai_type s = ''boolean-flag'' \<Longrightarrow> solo f"
  shows "groups (fst (input_tokens s input)) \<and> snd (input_tokens s input) = []"
proof -
  let ?raw = "vget input (ai_key s)"
  have ok: "jval_ok ?raw" using assms(3) by (rule vget_ok)
  consider "ai_type s = ''props''" | "ai_type s = ''json_data''" | "ai_type s = ''json_commands''"
    | "ai_type s = ''boolean-flag''" | "ai_type s \<notin> set token_kinds"
    by (auto simp: token_kinds_def)
  then show ?thesis
  proof cases
    case 1
    then have "groups (prop_tokens f 30 kvs)" for kvs using assms(4) by (intro prop_groups) (simp add: emits_def)
    with 1 assms(2) show ?thesis by (auto simp: input_tokens_def Let_def intro: groups.none split: jval.split)
  next
    case 2
    have "pair f d" if "normalizeJsonData ?raw = Some d" for d
      using assms(4) [of d] data_pass [OF ok that] 2 by (simp add: emits_def)
    with 2 assms(2) show ?thesis by (auto simp: input_tokens_def Let_def intro!: groups.intros split: option.split)
  next
    case 3
    have "emits s d" if "normalizeJsonCommands ?raw (ai_verbs s) = Some d" for d
      using commands_pass [OF ok, of d] that 3 by (auto simp: emits_def)
    with 3 assms(2,4) show ?thesis by (auto simp: input_tokens_def Let_def intro!: groups.intros split: option.split)
  next
    case 4
    with assms(2,5) show ?thesis by (auto simp: input_tokens_def Let_def intro!: groups.intros)
  next
    case 5
    with assms(1,2,4) show ?thesis
      by (auto simp: input_tokens_def Let_def emits_def token_kinds_def intro!: groups.intros)
  qed
qed

end

section \<open>A complete plan is accepted\<close>

text \<open>Every value a declared input can put on the argv is one the matcher takes at that place.\<close>

definition covers :: "(string \<Rightarrow> string \<Rightarrow> bool) \<Rightarrow> (string \<Rightarrow> bool) \<Rightarrow> (nat \<Rightarrow> string \<Rightarrow> bool) \<Rightarrow> arg_input list \<Rightarrow> bool" where
  "covers pair solo pos inputs \<longleftrightarrow>
     (\<forall>s \<in> set inputs.
        if ai_positional s then ai_type s \<notin> set token_kinds
        else (\<exists>f. ai_flag s = Some f \<and> (\<forall>v. emits s v \<longrightarrow> pair f v) \<and> (ai_type s = ''boolean-flag'' \<longrightarrow> solo f)))
     \<and> list_all (\<lambda>(k, s). \<forall>v. emits s v \<longrightarrow> pos k v) (enumerate 0 (filter ai_positional inputs))"

text \<open>The caller gave a value for every positional, and the server kept it.\<close>

definition complete :: "arg_input list \<Rightarrow> jval \<Rightarrow> bool" where
  "complete inputs input \<longleftrightarrow> is_vobj input \<and> list_all (\<lambda>s. ai_positional s \<longrightarrow> snd (input_tokens s input) \<noteq> []) inputs"

context argv_matcher
begin

lemma planned_walk:
  assumes "covers pair solo pos inputs" and "complete inputs input" and "jval_ok input"
  shows "walk 0 (resolveWrapperInputArgs inputs input first) = walk (length (filter ai_positional inputs)) []"
proof -
  define P where "P = filter ai_positional inputs"
  define flags where "flags = concat (map (\<lambda>s. fst (input_tokens s input)) inputs)"
  define ps where "ps = concat (map (\<lambda>s. snd (input_tokens s input)) inputs)"
  have cov: "ai_type s \<notin> set token_kinds" if "s \<in> set inputs" "ai_positional s" for s
    using assms(1) that by (auto simp: covers_def)
  have flag: "groups (fst (input_tokens s input)) \<and> snd (input_tokens s input) = []"
    if s: "s \<in> set inputs" "\<not> ai_positional s" for s
  proof -
    obtain f where f: "ai_flag s = Some f" "\<And>v. emits s v \<Longrightarrow> pair f v" "ai_type s = ''boolean-flag'' \<Longrightarrow> solo f"
      using assms(1) s by (auto simp: covers_def split: if_splits)
    show ?thesis by (rule flag_groups [OF s(2) f(1) assms(3) f(2,3)])
  qed
  have pos1: "fst (input_tokens s input) = [] \<and> snd (input_tokens s input) = [hd (snd (input_tokens s input))]
      \<and> emits s (hd (snd (input_tokens s input))) \<and> \<not> starts_with (hd (snd (input_tokens s input))) ''-''"
    if s: "s \<in> set inputs" "ai_positional s" for s
  proof -
    have "snd (input_tokens s input) \<noteq> []" using assms(2) s by (auto simp: complete_def list_all_iff)
    then show ?thesis using positional_tokens [OF s(2) cov [OF s], of input] by auto
  qed
  have "groups (fst (input_tokens s input))" if "s \<in> set inputs" for s
    using flag [OF that] pos1 [OF that] groups.none by (cases "ai_positional s") auto
  then have g: "groups flags" unfolding flags_def by (intro groups_concat) auto
  have "concat (map (\<lambda>s. snd (input_tokens s input)) xs) = map (\<lambda>s. hd (snd (input_tokens s input))) (filter ai_positional xs)"
    if "set xs \<subseteq> set inputs" for xs
    using that
  proof (induction xs)
    case (Cons s xs)
    then show ?case using flag [of s] pos1 [of s] by (cases "ai_positional s") auto
  qed simp
  then have ps: "ps = map (\<lambda>s. hd (snd (input_tokens s input))) P" by (simp add: ps_def P_def)
  have inP: "s \<in> set inputs \<and> ai_positional s" if "s \<in> set P" for s using that by (simp add: P_def)
  have nodash: "list_all (\<lambda>p. \<not> starts_with p ''-'') ps" using pos1 inP by (auto simp: ps list_all_iff)
  have places: "pos k (ps ! k)" if "k < length ps" for k
  proof -
    have k: "k < length P" using that by (simp add: ps)
    have "(k, P ! k) \<in> set (enumerate 0 P)" using k by (simp add: in_set_enumerate_eq)
    then have "\<forall>v. emits (P ! k) v \<longrightarrow> pos k v" using assms(1) by (auto simp: covers_def list_all_iff P_def)
    then show ?thesis using pos1 [of "P ! k"] inP [of "P ! k"] k by (simp add: ps)
  qed
  have "resolveWrapperInputArgs inputs input first = (if first then ps @ flags else flags @ ps)"
    using assms(2) by (simp add: resolveWrapperInputArgs_def complete_def flags_def ps_def Let_def)
  then show ?thesis using either_order [OF g nodash places] by (simp add: ps P_def)
qed

end

text \<open>Capabilities of one application do not start with the prefix of another.\<close>

fun clash :: "string \<Rightarrow> string \<Rightarrow> bool" where
  "clash (x # xs) (y # ys) = (x \<noteq> y \<or> clash xs ys)"
| "clash xs ys = False"

lemma clash_prefix: "clash p q \<Longrightarrow> \<not> starts_with (p @ s) q"
  by (induction p q rule: clash.induct) (auto simp: starts_with_iff)

lemma command_name_of: "r \<noteq> [] \<Longrightarrow> list_all (\<lambda>c. is_lower c \<or> dec_digit c \<or> c = CHR ''_'') r \<Longrightarrow> command_name p (p @ r) = Some r"
  by (simp add: command_name_def)

lemma base_then: "stringArrayStartsWith (base @ rest) base" "drop (length base) (base @ rest) = rest"
  by (simp_all add: stringArrayStartsWith_def)

text \<open>The tables of the two sides, command by command.\<close>

lemma emit_kinds:
  "emits (flag_input k f ''date'') v \<Longrightarrow> isIsoDate v"
  "emits (flag_input k f ''token'') v \<Longrightarrow> isGitToken v"
  "emits (flag_input k f ''count'') v \<Longrightarrow> isMaxCount v"
  "emits (flag_input k f ''string'') v \<Longrightarrow> isOfficeArg v"
  "emits (flag_input k f ''props'') v \<Longrightarrow> isOfficePropPair v"
  "emits (flag_input k f ''json_data'') v \<Longrightarrow> isOfficeJsonData v"
  "emits (verb_input (flag_input k f ''json_commands'') OFFICECLI_BATCH_VERBS) v \<Longrightarrow> isOfficeBatchCommands v"
  "emits (enum_input (flag_input k f ''enum'') vs) v \<Longrightarrow> v \<in> set vs"
  "emits (enum_input (pos_input k ''enum'') vs) v \<Longrightarrow> v \<in> set vs"
  "emits (pos_input k ''git-rev'') v \<Longrightarrow> isGitRev v"
  "emits (pos_input k ''string'') v \<Longrightarrow> isOfficeArg v"
  "emits (pos_input k ''office_file'') v \<Longrightarrow> isOfficeFile v"
  "emits (pos_input k ''pdf_file'') v \<Longrightarrow> isPdfFile v"
  "emits (pos_input k ''csv_file'') v \<Longrightarrow> isOfficeCsvFile v"
  "emits (pos_input k ''excalidraw_file'') v \<Longrightarrow> isExcalidrawSceneFile v"
  "emits (pos_input k ''png_file'') v \<Longrightarrow> isExcalidrawPngFile v"
  by (simp_all add: emits_def flag_input_def pos_input_def isValidWrapperArgValue_def same_iso_date same_token same_count
      same_git_rev same_file_type isOfficeArg_def same_newline Suc_le_eq)

lemma boolean_emits_nothing: "emits (flag_input k f ''boolean-flag'') v = False"
  by (simp add: emits_def flag_input_def isValidWrapperArgValue_def)

lemma input_shapes:
  "ai_positional (flag_input k f t) = False" "ai_flag (flag_input k f t) = Some f" "ai_type (flag_input k f t) = t"
  "ai_positional (pos_input k t) = True" "ai_type (pos_input k t) = t"
  by (simp_all add: flag_input_def pos_input_def)

definition git_fits :: "command_desc \<Rightarrow> bool" where
  "git_fits c \<longleftrightarrow> (\<exists>spec. map_of GIT_WRAPPER_ARGS (cd_id c) = Some spec \<and> gs_base spec = cd_args c
     \<and> covers (git_pair spec) (\<lambda>f. False) (git_pos spec) (cd_argInputs c))"

lemma git_tables: "\<forall>c \<in> set GIT_WRAPPER_COMMANDS. git_fits c"
  by (auto simp: GIT_WRAPPER_COMMANDS_def git_fits_def GIT_WRAPPER_ARGS_def git_command_def bin_command_def covers_def
      input_shapes token_kinds_def git_pair_def git_pos_def starts_with_def dest: emit_kinds)

definition office_fits :: "(string \<times> argv_spec) list \<Rightarrow> command_desc \<Rightarrow> bool" where
  "office_fits table c \<longleftrightarrow> (\<exists>spec. map_of table (cd_id c) = Some spec \<and> as_base spec = cd_args c
     \<and> as_minPositionals spec \<le> length (filter ai_positional (cd_argInputs c))
     \<and> covers (office_pair spec) (office_solo spec) (office_pos spec) (cd_argInputs c))"

lemmas fits_defs = office_fits_def bin_command_def covers_def input_shapes token_kinds_def office_pair_def
  office_solo_def office_pos_def starts_with_def

lemma pdf_tables: "\<forall>c \<in> set PDFCPU_READ_COMMANDS. office_fits PDFCPU_WRAPPER_ARGS c"
  by (auto simp: PDFCPU_READ_COMMANDS_def PDFCPU_WRAPPER_ARGS_def pdf_command_def fits_defs dest: emit_kinds)

lemma excalidraw_tables: "\<forall>c \<in> set EXCALIDRAW_CLI_WRITE_COMMANDS. office_fits EXCALIDRAW_CLI_APPLY_WRAPPER_ARGS c"
  by (auto simp: EXCALIDRAW_CLI_WRITE_COMMANDS_def EXCALIDRAW_CLI_APPLY_WRAPPER_ARGS_def excalidraw_write_def fits_defs
      dest: emit_kinds)

lemma same_enums: "OFFICECLI_VIEW_MODES = OFFICE_VIEW_MODES" "OFFICECLI_ELEMENT_TYPES = OFFICE_ELEMENT_TYPES"
  by (simp_all add: OFFICECLI_VIEW_MODES_def OFFICE_VIEW_MODES_def OFFICECLI_ELEMENT_TYPES_def OFFICE_ELEMENT_TYPES_def)

lemma office_read_tables: "\<forall>c \<in> set OFFICECLI_WRAPPER_COMMANDS. office_fits OFFICECLI_WRAPPER_ARGS c"
  by (auto simp: OFFICECLI_WRAPPER_COMMANDS_def OFFICECLI_WRAPPER_ARGS_def office_read_def same_enums isOfficeViewMode_def fits_defs
      dest: emit_kinds)

lemma office_write_tables: "\<forall>c \<in> set OFFICECLI_WRITE_COMMANDS. office_fits OFFICECLI_APPLY_WRAPPER_ARGS c"
  by (auto simp: OFFICECLI_WRITE_COMMANDS_def OFFICECLI_APPLY_WRAPPER_ARGS_def office_write_def same_enums isOfficeElementType_def
      boolean_emits_nothing fits_defs dest: emit_kinds)

lemma ccusage_tables: "\<forall>c \<in> set CCUSAGE_REPORT_WRAPPERS. map_of CCUSAGE_WRAPPER_ARGS (cd_id c) = Some (cd_args c)
    \<and> covers ccusage_pair (\<lambda>f. False) (\<lambda>i p. False) (cd_argInputs c)"
  by (auto simp: CCUSAGE_REPORT_WRAPPERS_def CCUSAGE_WRAPPER_ARGS_def ccusage_command_def bin_command_def covers_def input_shapes
      token_kinds_def ccusage_pair_def dest: emit_kinds)

definition plain_name :: "string \<Rightarrow> bool" where
  "plain_name r \<longleftrightarrow> r \<noteq> [] \<and> list_all (\<lambda>c. is_lower c \<or> dec_digit c \<or> c = CHR ''_'') r"

lemma office_accepted:
  assumes "office_fits table c" and "complete (cd_argInputs c) input" and "jval_ok input" and "plain_name (cd_id c)"
  shows "officecliArgvMatches (map_option (object_get table) (command_name p (p @ cd_id c)))
    (cd_args c @ resolveWrapperInputArgs (cd_argInputs c) input first) = Inr True"
proof -
  obtain spec where spec: "map_of table (cd_id c) = Some spec" "as_base spec = cd_args c"
      "as_minPositionals spec \<le> length (filter ai_positional (cd_argInputs c))"
      "covers (office_pair spec) (office_solo spec) (office_pos spec) (cd_argInputs c)"
    using assms(1) by (auto simp: office_fits_def)
  have "office_accepts spec 0 (resolveWrapperInputArgs (cd_argInputs c) input first)"
    using office.planned_walk [OF spec(4) assms(2,3), of first] spec(3) by (simp add: office_accepts_def)
  moreover have "command_name p (p @ cd_id c) = Some (cd_id c)"
    using assms(4) by (intro command_name_of) (simp_all add: plain_name_def)
  ultimately show ?thesis
    using spec(1,2) by (auto simp: officecliArgvMatches_def object_get_def base_then office_accepts_def split: option.splits)
qed

lemma git_accepted:
  assumes "git_fits c" and "complete (cd_argInputs c) input" and "jval_ok input" and "plain_name (cd_id c)"
  shows "gitArgsAllowed (''app.app_git.wrapper.'' @ cd_id c)
    (cd_args c @ resolveWrapperInputArgs (cd_argInputs c) input first) = Inr True"
proof -
  obtain spec where spec: "map_of GIT_WRAPPER_ARGS (cd_id c) = Some spec" "gs_base spec = cd_args c"
      "covers (git_pair spec) (\<lambda>f. False) (git_pos spec) (cd_argInputs c)"
    using assms(1) by (auto simp: git_fits_def)
  have "git_walk spec 0 (resolveWrapperInputArgs (cd_argInputs c) input first)"
    using git.planned_walk [OF spec(3) assms(2,3), of first] by simp
  moreover have "command_name ''app.app_git.wrapper.'' (''app.app_git.wrapper.'' @ cd_id c) = Some (cd_id c)"
    using assms(4) by (intro command_name_of) (simp_all add: plain_name_def)
  ultimately show ?thesis
    unfolding gitArgsAllowed_def using spec(1,2) by (simp add: object_get_def base_then)
qed

lemma dispatch:
  "wrapperArgsAllowed (''app.app_git.wrapper.'' @ r) args = gitArgsAllowed (''app.app_git.wrapper.'' @ r) args"
  "wrapperArgsAllowed (''app.app_ccusage.wrapper.'' @ r) args = ccusageArgsAllowed (''app.app_ccusage.wrapper.'' @ r) args"
  "wrapperArgsAllowed (''app.app_pdfcpu.wrapper.'' @ r) args = pdfcpuArgsAllowed (''app.app_pdfcpu.wrapper.'' @ r) args"
  "wrapperArgsAllowed (''app.app_officecli.wrapper.'' @ r) args = officecliArgsAllowed (''app.app_officecli.wrapper.'' @ r) args"
  "wrapperArgsAllowed (''app.app_officecli.apply.'' @ r) args = officecliApplyArgsAllowed (''app.app_officecli.apply.'' @ r) args"
  "wrapperArgsAllowed (''app.app_excalidraw_cli.apply.'' @ r) args
     = excalidrawCliApplyArgsAllowed (''app.app_excalidraw_cli.apply.'' @ r) args"
  by (simp_all only: wrapperArgsAllowed_def starts_with_self if_True) (simp_all add: starts_with_def)

lemma canonical_names:
  "list_all (\<lambda>(i, cs). slugify i = i \<and> distinct (map cd_id cs)
     \<and> list_all (\<lambda>c. plain_name (cd_id c) \<and> cd_status c = Some ''approved'') cs) canonical_apps"
  by code_simp

lemma plain_shape:
  "wc_id (plain c) = cd_id c" "wc_args (plain c) = cd_args c" "wc_argInputs (plain c) = cd_argInputs c"
  "wc_command (plain c) = cd_command c" "wc_status (plain c) = coalesce (cd_status c) ''draft''"
  "wc_segment (plain c) = coalesce (cd_segment c) ''wrapper''"
  "wc_filePolicy (plain c) = coalesce (cd_filePolicy c) ''read_only''"
  "wc_networkPolicy (plain c) = coalesce (cd_networkPolicy c) ''forbidden''"
  "wc_cwdPolicy (plain c) = coalesce (cd_cwdPolicy c) ''fixed''"
  by (simp_all add: plain_def)

lemma canonical_find:
  assumes "(i, cs) \<in> set canonical_apps" and "c \<in> set cs" and "app_wrapper app = Some (map plain cs)"
  shows "findNpmWrapperCommand app (cd_id c) = Some (plain c)" and "plain_name (cd_id c)" and "slugify i = i"
proof -
  have all: "slugify i = i" "distinct (map cd_id cs)" "list_all (\<lambda>c. plain_name (cd_id c) \<and> cd_status c = Some ''approved'') cs"
    using canonical_names assms(1) by (auto simp: list_all_iff)
  show "slugify i = i" "plain_name (cd_id c)" using all assms(2) by (auto simp: list_all_iff)
  have "List.find (\<lambda>w. wc_id w = wc_id (plain c)) (map plain cs) = Some (plain c)"
    using all(2) assms(2) by (intro find_key_unique) (simp_all add: plain_shape o_def)
  moreover have "List.find (\<lambda>w. wc_id w = cd_id c \<and> wc_status w = ''approved'') (map plain cs)
      = List.find (\<lambda>w. wc_id w = cd_id c) (map plain cs)"
    using all(3) by (intro find_cong refl) (auto simp: list_all_iff plain_shape)
  ultimately show "findNpmWrapperCommand app (cd_id c) = Some (plain c)"
    by (simp add: findNpmWrapperCommand_def assms(3) plain_shape)
qed

text \<open>The program, the prefix of the capabilities and the file policy of each group of canonical commands.\<close>

definition cap_prefix :: "string \<Rightarrow> command_desc \<Rightarrow> string" where
  "cap_prefix i c = ''app.'' @ i @ ''.'' @ (if cd_segment c = Some ''apply'' then ''apply'' else ''wrapper'') @ ''.''"

definition homes :: "(string \<times> string \<times> string) list" where
  "homes = [
     (''git'', ''app.app_git.wrapper.'', ''read_only''), (''ccusage'', ''app.app_ccusage.wrapper.'', ''read_only''),
     (''pdfcpu'', ''app.app_pdfcpu.wrapper.'', ''read_only''), (''officecli'', ''app.app_officecli.wrapper.'', ''read_only''),
     (''officecli'', ''app.app_officecli.apply.'', ''workspace_write''),
     (''excalidraw-cli'', ''app.app_excalidraw_cli.apply.'', ''workspace_write'')]"

lemma home_of:
  assumes "(i, cs) \<in> set canonical_apps" and "c \<in> set cs"
  shows "(cd_command c, cap_prefix i c, coalesce (cd_filePolicy c) ''read_only'') \<in> set homes"
    and "coalesce (cd_networkPolicy c) ''forbidden'' = ''forbidden''"
proof -
  have "list_all (\<lambda>(i, cs). list_all (\<lambda>c. (cd_command c, cap_prefix i c, coalesce (cd_filePolicy c) ''read_only'') \<in> set homes
      \<and> coalesce (cd_networkPolicy c) ''forbidden'' = ''forbidden'') cs) canonical_apps"
    by code_simp
  then show "(cd_command c, cap_prefix i c, coalesce (cd_filePolicy c) ''read_only'') \<in> set homes"
      "coalesce (cd_networkPolicy c) ''forbidden'' = ''forbidden''"
    using assms unfolding list_all_iff by fast+
qed

lemma starts_with_step: "starts_with (x # xs) (y # ys) = (x = y \<and> starts_with xs ys)"
  by (simp add: starts_with_def)

lemma entry_find:
  assumes "(prog, p, f) \<in> set homes"
  shows "List.find (\<lambda>e. prog = we_command e \<and> starts_with (p @ r) (we_capabilityPrefix e))
      (mf_applicationWrapperCommands (createLocalExecutionPolicyManifest d x ep)) = Some (entry prog p f)"
proof -
  have "list_all (\<lambda>(prog, p, f). List.find (\<lambda>e. prog = we_command e \<and> starts_with (p @ r) (we_capabilityPrefix e))
      (mf_applicationWrapperCommands (createLocalExecutionPolicyManifest d x ep)) = Some (entry prog p f)) homes"
    by (simp add: homes_def createLocalExecutionPolicyManifest_def starts_with_step)
  then show ?thesis using assms unfolding list_all_iff by fast
qed

text \<open>The six groups.\<close>

lemma segments:
  "list_all (\<lambda>c. cd_segment c = None) (GIT_WRAPPER_COMMANDS @ CCUSAGE_REPORT_WRAPPERS @ PDFCPU_READ_COMMANDS @ OFFICECLI_WRAPPER_COMMANDS)"
  "list_all (\<lambda>c. cd_segment c = Some ''apply'') (OFFICECLI_WRITE_COMMANDS @ EXCALIDRAW_CLI_WRITE_COMMANDS)"
  by code_simp+

lemma canonical_args_accepted:
  assumes "(i, cs) \<in> set canonical_apps" and "c \<in> set cs"
    and "complete (cd_argInputs c) input" and "jval_ok input" and "plain_name (cd_id c)"
  shows "wrapperArgsAllowed (cap_prefix i c @ cd_id c) (cd_args c @ resolveWrapperInputArgs (cd_argInputs c) input first) = Inr True"
proof -
  note seg = segments [unfolded list_all_append list_all_iff]
  have d: "(i = ''app_git'' \<and> cs = GIT_WRAPPER_COMMANDS) \<or> (i = ''app_ccusage'' \<and> cs = CCUSAGE_REPORT_WRAPPERS)
      \<or> (i = ''app_pdfcpu'' \<and> cs = PDFCPU_READ_COMMANDS)
      \<or> (i = ''app_officecli'' \<and> cs = OFFICECLI_WRAPPER_COMMANDS @ OFFICECLI_WRITE_COMMANDS)
      \<or> (i = ''app_excalidraw_cli'' \<and> cs = EXCALIDRAW_CLI_WRITE_COMMANDS)"
    using assms(1) by (simp only: canonical_apps_def list.set insert_iff empty_iff prod.inject simp_thms)
  show ?thesis
    using d
  proof (elim disjE conjE)
    assume i: "i = ''app_git''" and cs: "cs = GIT_WRAPPER_COMMANDS"
    have c: "c \<in> set GIT_WRAPPER_COMMANDS" using assms(2) by (simp only: cs)
    have p: "cap_prefix i c = ''app.app_git.wrapper.''" using seg c by (simp add: cap_prefix_def i)
    show ?thesis unfolding p dispatch by (rule git_accepted [OF git_tables [rule_format, OF c] assms(3,4,5)])
  next
    assume i: "i = ''app_ccusage''" and cs: "cs = CCUSAGE_REPORT_WRAPPERS"
    have c: "c \<in> set CCUSAGE_REPORT_WRAPPERS" using assms(2) by (simp only: cs)
    have p: "cap_prefix i c = ''app.app_ccusage.wrapper.''" using seg c by (simp add: cap_prefix_def i)
    note t = ccusage_tables [rule_format, OF c]
    have "ccusage_pairs (resolveWrapperInputArgs (cd_argInputs c) input first)"
      using ccusage.planned_walk [OF conjunct2 [OF t] assms(3,4), of first] by simp
    moreover have "command_name ''app.app_ccusage.wrapper.'' (''app.app_ccusage.wrapper.'' @ cd_id c) = Some (cd_id c)"
      using assms(5) by (intro command_name_of) (simp_all add: plain_name_def)
    ultimately show ?thesis
      unfolding p dispatch ccusageArgsAllowed_def using conjunct1 [OF t] by (simp only: object_get_def option.map option.case member.case base_then simp_thms)
  next
    assume i: "i = ''app_pdfcpu''" and cs: "cs = PDFCPU_READ_COMMANDS"
    have c: "c \<in> set PDFCPU_READ_COMMANDS" using assms(2) by (simp only: cs)
    have p: "cap_prefix i c = ''app.app_pdfcpu.wrapper.''" using seg c by (simp add: cap_prefix_def i)
    show ?thesis unfolding p dispatch pdfcpuArgsAllowed_def
      by (rule office_accepted [OF pdf_tables [rule_format, OF c] assms(3,4,5)])
  next
    assume i: "i = ''app_officecli''" and cs: "cs = OFFICECLI_WRAPPER_COMMANDS @ OFFICECLI_WRITE_COMMANDS"
    have "c \<in> set OFFICECLI_WRAPPER_COMMANDS \<or> c \<in> set OFFICECLI_WRITE_COMMANDS" using assms(2) by (simp only: cs set_append Un_iff)
    then show ?thesis
    proof
      assume c: "c \<in> set OFFICECLI_WRAPPER_COMMANDS"
      have p: "cap_prefix i c = ''app.app_officecli.wrapper.''" using seg c by (simp add: cap_prefix_def i)
      show ?thesis unfolding p dispatch officecliArgsAllowed_def
        by (rule office_accepted [OF office_read_tables [rule_format, OF c] assms(3,4,5)])
    next
      assume c: "c \<in> set OFFICECLI_WRITE_COMMANDS"
      have p: "cap_prefix i c = ''app.app_officecli.apply.''" using seg c by (simp add: cap_prefix_def i)
      show ?thesis unfolding p dispatch officecliApplyArgsAllowed_def
        by (rule office_accepted [OF office_write_tables [rule_format, OF c] assms(3,4,5)])
    qed
  next
    assume i: "i = ''app_excalidraw_cli''" and cs: "cs = EXCALIDRAW_CLI_WRITE_COMMANDS"
    have c: "c \<in> set EXCALIDRAW_CLI_WRITE_COMMANDS" using assms(2) by (simp only: cs)
    have p: "cap_prefix i c = ''app.app_excalidraw_cli.apply.''" using seg c by (simp add: cap_prefix_def i)
    show ?thesis unfolding p dispatch excalidrawCliApplyArgsAllowed_def
      by (rule office_accepted [OF excalidraw_tables [rule_format, OF c] assms(3,4,5)])
  qed
qed

lemma canonical_capability:
  assumes "(i, cs) \<in> set canonical_apps" and "c \<in> set cs" and "app_id app = i" and "app_wrapper app = Some (map plain cs)"
  shows "capability_of app (plain c) = cap_prefix i c @ cd_id c"
proof -
  have "cd_segment c = None \<or> cd_segment c = Some ''apply''"
  proof -
    have "list_all (\<lambda>(i, cs). list_all (\<lambda>c. cd_segment c = None \<or> cd_segment c = Some ''apply'') cs) canonical_apps"
      by code_simp
    then show ?thesis using assms(1,2) unfolding list_all_iff by fast
  qed
  then show ?thesis
    using canonical_find(3) [OF assms(1,2,4)] assms(3)
    by (auto simp: capability_of_def cap_prefix_def wrapperSegment_def plain_shape)
qed

text \<open>C19: Whatever the server plans from a canonical command, the device lets through.  Register one of the five
  canonical applications, plan one of its commands on an input that gives every positional a value the server keeps:
  then the argv of the plan passes the device's own allowlist, and the device's manifest has an entry for this
  program and capability, with exactly the file and network policy of the plan.  The two copies of the validators and of
  the argv tables, which the code keeps apart on purpose, agree.\<close>

theorem server_plan_accepted:
  assumes "(i, descs) \<in> set canonical_apps" and "c \<in> set descs"
    and "normalizeWrapperCommands descs = Inr commands"
    and "app_id app = i" and "app_wrapper app = Some commands"
    and "complete (cd_argInputs c) input" and "jval_ok input"
  shows "\<exists>plan e. applicationWrapperExecutionPlan app (cd_id c) input = Some plan
      \<and> wrapperArgsAllowed (wp_capability plan) (wp_execArgs plan) = Inr True
      \<and> List.find (\<lambda>e. wp_execCommand plan = we_command e \<and> starts_with (wp_capability plan) (we_capabilityPrefix e))
          (mf_applicationWrapperCommands (createLocalExecutionPolicyManifest demo fixture execPath)) = Some e
      \<and> we_filePolicy e = wp_filePolicy plan \<and> we_networkPolicy e = wp_networkPolicy plan"
proof -
  have w: "app_wrapper app = Some (map plain descs)"
    using canonical_normalised [OF assms(1)] assms(3,5) by simp
  note found = canonical_find [OF assms(1,2) w]
  note cap = canonical_capability [OF assms(1,2,4) w]
  show ?thesis
    using canonical_args_accepted [OF assms(1,2,6,7) found(2)] entry_find [OF home_of(1) [OF assms(1,2)], of "cd_id c" demo fixture execPath]
      home_of(2) [OF assms(1,2)] cap
    by (simp add: applicationWrapperExecutionPlan_def found(1) plain_shape)
qed

definition demo_git :: registered_app where
  "demo_git = \<lparr>app_id = ''app_git'', app_status = ''active'', app_projectId = None, app_ownerTeamId = None,
     app_wrapper = Some (map plain GIT_WRAPPER_COMMANDS)\<rparr>"

definition demo_rev :: jval where
  "demo_rev = VObj [(''rev'', VStr ''HEAD'')]"

lemma demo_complete: "complete (cd_argInputs (git_command ''show'' [''--no-pager'', ''show'', ''--stat'', ''--no-color''] [pos_input ''rev'' ''git-rev''])) demo_rev"
  by code_simp

theorem server_plan_accepted_witness:
  "\<exists>plan. applicationWrapperExecutionPlan demo_git ''show'' demo_rev = Some plan
    \<and> wrapperArgsAllowed (wp_capability plan) (wp_execArgs plan) = Inr True"
proof -
  let ?c = "git_command ''show'' [''--no-pager'', ''show'', ''--stat'', ''--no-color''] [pos_input ''rev'' ''git-rev'']"
  have m: "(''app_git'', GIT_WRAPPER_COMMANDS) \<in> set canonical_apps" by (simp add: canonical_apps_def)
  have c: "?c \<in> set GIT_WRAPPER_COMMANDS" by (simp add: GIT_WRAPPER_COMMANDS_def)
  have n: "normalizeWrapperCommands GIT_WRAPPER_COMMANDS = Inr (map plain GIT_WRAPPER_COMMANDS)"
    by (rule canonical_normalised [OF m])
  have j: "jval_ok demo_rev" "complete (cd_argInputs ?c) demo_rev"
    using demo_complete by (simp_all add: demo_rev_def git_command_def bin_command_def)
  show ?thesis
    using server_plan_accepted [OF m c n _ _ j(2,1), of demo_git None None "''node''"]
    by (auto simp: demo_git_def git_command_def bin_command_def)
qed

end
