(* ===== verification/WrapperRun.thy ===== *)
theory WrapperRun
  imports WrapperChain
begin

text \<open>
  From the delivered work to the spawned process: apps/desktop/src/application-wrapper-args.mjs builds the argv
  of the runner, the gate of DevicePolicy reads it, and tools/agents/application-wrapper.mjs reads it again
  and spawns.  The lemmas show that gate and runner read the same command and that nothing is added or lost
  on the way.
\<close>

section \<open>The relay of the bridge\<close>

definition boundedString :: "jval \<Rightarrow> nat \<Rightarrow> string option" where
  "boundedString v maxLength =
     (let text = js_trim (vtext v) in if text \<noteq> [] \<and> length text \<le> maxLength then Some text else None)"

definition normalizedExistingPath :: "device \<Rightarrow> jval \<Rightarrow> string option" where
  "normalizedExistingPath dev v =
     (let text = js_trim (vtext v) in if text \<noteq> [] \<and> isAbsolute text \<and> dv_exists dev text then Some text else None)"

definition usesApplicationWrapper :: "string list \<Rightarrow> bool" where
  "usesApplicationWrapper args = list_ex (\<lambda>a. ends_with a ''application-wrapper.mjs'') args"

definition resolveCwd :: "device \<Rightarrow> jval \<Rightarrow> jval \<Rightarrow> string option" where
  "resolveCwd dev spec metadata =
     coalesce_opt (normalizedExistingPath dev (vget spec ''cwd''))
       (coalesce_opt (normalizedExistingPath dev (vget metadata ''worktreePath''))
          (normalizedExistingPath dev (vget metadata ''projectPath'')))"

fun with_flag :: "string \<Rightarrow> string option \<Rightarrow> string list" where
  "with_flag flag None = []"
| "with_flag flag (Some v) = [flag, v]"

definition applicationWrapperArgs :: "device \<Rightarrow> string list \<Rightarrow> jval \<Rightarrow> string list" where
  "applicationWrapperArgs dev renderedArgs payload =
     (case applicationWrapperSpec payload of
        None \<Rightarrow> renderedArgs
      | Some spec \<Rightarrow>
          if \<not> usesApplicationWrapper renderedArgs then renderedArgs
          else renderedArgs
            @ with_flag ''--exec-command'' (boundedString (vget spec ''execCommand'') 200)
            @ with_flag ''--cwd'' (resolveCwd dev spec (work_metadata payload))
            @ with_flag ''--capability'' (boundedString (vget spec ''capability'') 200)
            @ concat (map (\<lambda>a. [''--exec-arg'', a]) (string_items (vget spec ''execArgs''))))"

section \<open>The runner\<close>

record runner_options =
  ro_capability :: "string option"
  ro_execCommand :: "string option"
  ro_execArgs :: "string list"
  ro_cwd :: "string option"
  ro_timeoutMs :: "string option"

datatype runner_stop = RunnerHelp | RunnerFail string

definition requireValue :: "string list \<Rightarrow> string option" where
  "requireValue rest = (case rest of [] \<Rightarrow> None | v # _ \<Rightarrow> if starts_with v ''--'' then None else Some v)"

definition requireValueAllowingFlags :: "string list \<Rightarrow> string option" where
  "requireValueAllowingFlags rest = (case rest of [] \<Rightarrow> None | v # _ \<Rightarrow> Some v)"

abbreviation missing_value :: "string \<Rightarrow> runner_stop" where
  "missing_value name \<equiv> RunnerFail (''Missing value for '' @ name @ ''.'')"

text \<open>A repeated option overwrites the earlier one.\<close>

function parseArgs :: "runner_options \<Rightarrow> string list \<Rightarrow> runner_stop + runner_options" where
  "parseArgs p [] = Inr p"
| "parseArgs p (arg # rest) =
     (if arg = ''--capability'' then
        (case requireValue rest of None \<Rightarrow> Inl (missing_value arg) | Some v \<Rightarrow> parseArgs (p\<lparr>ro_capability := Some v\<rparr>) (tl rest))
      else if arg = ''--exec-command'' then
        (case requireValueAllowingFlags rest of None \<Rightarrow> Inl (missing_value arg)
         | Some v \<Rightarrow> parseArgs (p\<lparr>ro_execCommand := Some v\<rparr>) (tl rest))
      else if arg = ''--exec-arg'' then
        (case requireValueAllowingFlags rest of None \<Rightarrow> Inl (missing_value arg)
         | Some v \<Rightarrow> parseArgs (p\<lparr>ro_execArgs := ro_execArgs p @ [v]\<rparr>) (tl rest))
      else if arg = ''--cwd'' then
        (case requireValue rest of None \<Rightarrow> Inl (missing_value arg) | Some v \<Rightarrow> parseArgs (p\<lparr>ro_cwd := Some v\<rparr>) (tl rest))
      else if arg = ''--timeout-ms'' then
        (case requireValue rest of None \<Rightarrow> Inl (missing_value arg) | Some v \<Rightarrow> parseArgs (p\<lparr>ro_timeoutMs := Some v\<rparr>) (tl rest))
      else if arg = ''--help'' \<or> arg = ''-h'' then Inl RunnerHelp
      else Inl (RunnerFail (''Unsupported application wrapper argument: '' @ arg)))"
  by pat_completeness auto
termination
  by (relation "measure (\<lambda>(p, args). length args)") auto

declare parseArgs.simps(2) [simp del]

definition options0 :: runner_options where
  "options0 = \<lparr>ro_capability = None, ro_execCommand = None, ro_execArgs = [], ro_cwd = None, ro_timeoutMs = None\<rparr>"

record spawned =
  sw_command :: string
  sw_args :: "string list"
  sw_cwd :: string

text \<open>The top of the script, up to the spawn.  \<open>base\<close> is the runner's own working directory; the spawn has no shell.\<close>

definition runner_main :: "string \<Rightarrow> string list \<Rightarrow> runner_stop + spawned" where
  "runner_main base args =
     (case parseArgs options0 args of
        Inl stop \<Rightarrow> Inl stop
      | Inr p \<Rightarrow>
          let command = coalesce (ro_execCommand p) []; cwd = coalesce (ro_cwd p) []
          in if command = [] then Inl (RunnerFail ''Missing --exec-command.'')
             else if starts_with command ''-'' then Inl (RunnerFail ''--exec-command must be a program, not a flag.'')
             else Inr \<lparr>sw_command = command, sw_args = ro_execArgs p, sw_cwd = (if cwd = [] then base else cwd)\<rparr>)"

section \<open>Gate and runner read the same command\<close>

definition agree :: "wrapper_argv \<Rightarrow> runner_options \<Rightarrow> bool" where
  "agree p r \<longleftrightarrow> wa_capability p = ro_capability r \<and> wa_execCommand p = ro_execCommand r
     \<and> wa_execArgs p = ro_execArgs r \<and> wa_cwd p = ro_cwd r"

lemma values_agree:
  "requireValue rest = Some v \<Longrightarrow> valueAt False rest = v"
  "requireValueAllowingFlags rest = Some v \<Longrightarrow> valueAt True rest = v"
  by (auto simp: requireValue_def requireValueAllowingFlags_def valueAt_def split: list.splits if_splits)

lemma argv_bad_not_ok [simp]: "wa_ok (argv_bad reason p) = False"
  by (simp add: argv_bad_def)

lemma argv_end_ok: "wa_ok (argv_end p) \<Longrightarrow> argv_end p = p"
  by (simp add: argv_end_def split: if_splits)

lemma parse_agrees:
  "agree p r \<Longrightarrow> wa_ok (parse_argv p toks) \<Longrightarrow> parseArgs r toks = Inr r' \<Longrightarrow> agree (parse_argv p toks) r'"
proof (induction p toks arbitrary: r rule: parse_argv.induct)
  case (1 p)
  then have "argv_end p = p" using argv_end_ok by simp
  with 1 show ?case by simp
next
  case (2 p arg rest)
  consider "arg = ''--capability''" | "arg = ''--exec-command''" | "arg = ''--exec-arg''" | "arg = ''--cwd''"
    | "arg \<noteq> ''--capability''" "arg \<noteq> ''--exec-command''" "arg \<noteq> ''--exec-arg''" "arg \<noteq> ''--cwd''" by blast
  then show ?case
  proof cases
    case 1
    then obtain v where "requireValue rest = Some v" "parseArgs (r\<lparr>ro_capability := Some v\<rparr>) (tl rest) = Inr r'"
      using 2(7) by (auto simp: parseArgs.simps(2) split: option.splits)
    with 1 2(1) [OF 1, of "r\<lparr>ro_capability := Some v\<rparr>"] 2(5,6) show ?thesis
      by (auto simp: parse_argv.simps(2) [of p] agree_def values_agree split: if_splits)
  next
    case b: 2
    then obtain v where "requireValueAllowingFlags rest = Some v" "parseArgs (r\<lparr>ro_execCommand := Some v\<rparr>) (tl rest) = Inr r'"
      using 2(7) by (auto simp: parseArgs.simps(2) split: option.splits)
    with b 2(2) [of "r\<lparr>ro_execCommand := Some v\<rparr>"] 2(5,6) show ?thesis
      by (auto simp: parse_argv.simps(2) [of p] agree_def values_agree split: if_splits)
  next
    case 3
    then obtain v where "requireValueAllowingFlags rest = Some v" "parseArgs (r\<lparr>ro_execArgs := ro_execArgs r @ [v]\<rparr>) (tl rest) = Inr r'"
      using 2(7) by (auto simp: parseArgs.simps(2) split: option.splits)
    with 3 2(3) [of "r\<lparr>ro_execArgs := ro_execArgs r @ [v]\<rparr>"] 2(5,6) show ?thesis
      by (auto simp: parse_argv.simps(2) [of p] agree_def values_agree split: if_splits)
  next
    case 4
    then obtain v where "requireValue rest = Some v" "parseArgs (r\<lparr>ro_cwd := Some v\<rparr>) (tl rest) = Inr r'"
      using 2(7) by (auto simp: parseArgs.simps(2) split: option.splits)
    with 4 2(4) [of "r\<lparr>ro_cwd := Some v\<rparr>"] 2(5,6) show ?thesis
      by (auto simp: parse_argv.simps(2) [of p] agree_def values_agree split: if_splits)
  next
    case 5
    then show ?thesis using 2(6) by (simp add: parse_argv.simps(2) [of p])
  qed
qed

lemma gate_and_runner:
  assumes "wa_ok (parseApplicationWrapperArgs args)" and "runner_main base (tl args) = Inr w"
  shows "wa_execCommand (parseApplicationWrapperArgs args) = Some (sw_command w)
    \<and> wa_execArgs (parseApplicationWrapperArgs args) = sw_args w
    \<and> sw_cwd w = (let cwd = coalesce (wa_cwd (parseApplicationWrapperArgs args)) [] in if cwd = [] then base else cwd)"
proof -
  obtain r where r: "parseArgs options0 (tl args) = Inr r"
    using assms(2) by (auto simp: runner_main_def split: sum.splits)
  have "agree argv0 options0" by (simp add: agree_def argv0_def options0_def)
  then have "agree (parseApplicationWrapperArgs args) r"
    using parse_agrees [OF _ _ r] assms(1) by (simp add: parseApplicationWrapperArgs_def)
  then show ?thesis
    using assms(2) r by (cases "ro_execCommand r") (auto simp: runner_main_def agree_def Let_def split: if_splits)
qed

text \<open>C24: The runner spawns what the gate read.  The gate and the runner parse the same tokens with two different
  parsers: the gate refuses a repeated option and reads a missing value as empty, the runner lets the last one win
  and stops at a missing value.  Still, of an argv that the gate accepts as well formed the runner either spawns nothing
  or spawns exactly the command and arguments the gate judged, in the directory the gate judged (its own when
  that is empty).\<close>

theorem runner_spawns_what_gate_read:
  assumes "wa_ok (parseApplicationWrapperArgs args)" and "runner_main base (tl args) = Inr w"
  shows "wa_execCommand (parseApplicationWrapperArgs args) = Some (sw_command w)
    \<and> wa_execArgs (parseApplicationWrapperArgs args) = sw_args w
    \<and> sw_cwd w = (let cwd = coalesce (wa_cwd (parseApplicationWrapperArgs args)) [] in if cwd = [] then base else cwd)"
  by (rule gate_and_runner [OF assms])

section \<open>The relay reads back\<close>

lemma parse_exec_args: "parse_argv p (concat (map (\<lambda>a. [''--exec-arg'', a]) xs)) = argv_end (p\<lparr>wa_execArgs := wa_execArgs p @ xs\<rparr>)"
  by (induction xs arbitrary: p) (simp_all add: parse_argv.simps(2) valueAt_def)

lemma run_exec_args: "parseArgs p (concat (map (\<lambda>a. [''--exec-arg'', a]) xs)) = Inr (p\<lparr>ro_execArgs := ro_execArgs p @ xs\<rparr>)"
  by (induction xs arbitrary: p) (simp_all add: parseArgs.simps(2) requireValueAllowingFlags_def)

lemma resolved_absolute: "resolveCwd dev spec m = Some d \<Longrightarrow> isAbsolute d \<and> dv_exists dev d \<and> d \<noteq> []"
  by (cases "normalizedExistingPath dev (vget spec ''cwd'')"; cases "normalizedExistingPath dev (vget m ''worktreePath'')")
    (auto simp: resolveCwd_def normalizedExistingPath_def Let_def split: if_splits)

lemma absolute_no_flag: "isAbsolute d \<Longrightarrow> \<not> starts_with d ''--''"
  by (cases d) (auto simp: isAbsolute_def starts_with_def)

text \<open>C23: What the server asked for is what arrives.  If the delivered work names a program and a capability that are
  not empty, not longer than 200 characters and not shaped like flags, then the argv the bridge relays is read back
  by the gate as exactly that program, that capability, the argument list token by token (also tokens that look like
  the relay's own flags), and the resolved directory; and the runner spawns just that.\<close>

theorem relay_reads_back:
  assumes "applicationWrapperSpec work = Some spec" and "ends_with script ''application-wrapper.mjs''"
    and "boundedString (vget spec ''execCommand'') 200 = Some cmd" and "\<not> starts_with cmd ''-''"
    and "boundedString (vget spec ''capability'') 200 = Some cap" and "\<not> starts_with cap ''--''"
  shows "let args = applicationWrapperArgs dev [script] work; cwd = resolveCwd dev spec (work_metadata work)
    in parseApplicationWrapperArgs args
         = \<lparr>wa_ok = True, wa_capability = Some cap, wa_execCommand = Some cmd,
            wa_execArgs = string_items (vget spec ''execArgs''), wa_cwd = cwd, wa_reason = []\<rparr>
       \<and> runner_main base (tl args)
         = Inr \<lparr>sw_command = cmd, sw_args = string_items (vget spec ''execArgs''), sw_cwd = coalesce cwd base\<rparr>"
proof -
  have ne: "cmd \<noteq> []" "cap \<noteq> []" using assms(3,5) by (auto simp: boundedString_def Let_def split: if_splits)
  have toks: "tl (applicationWrapperArgs dev [script] work)
      = [''--exec-command'', cmd] @ with_flag ''--cwd'' (resolveCwd dev spec (work_metadata work)) @ [''--capability'', cap]
        @ concat (map (\<lambda>a. [''--exec-arg'', a]) (string_items (vget spec ''execArgs'')))"
    using assms(1,2,3,5) by (simp add: applicationWrapperArgs_def usesApplicationWrapper_def)
  show ?thesis
  proof (cases "resolveCwd dev spec (work_metadata work)")
    case None
    then show ?thesis
      using ne assms(4,6)
      by (simp add: parseApplicationWrapperArgs_def runner_main_def toks parse_argv.simps(2) parseArgs.simps(2) valueAt_def
          requireValue_def requireValueAllowingFlags_def parse_exec_args run_exec_args argv_end_def argv0_def options0_def Let_def)
  next
    case (Some d)
    with resolved_absolute absolute_no_flag have d: "\<not> starts_with d ''--''" "d \<noteq> []" by blast+
    show ?thesis
      using ne assms(4,6) d Some
      by (simp add: parseApplicationWrapperArgs_def runner_main_def toks parse_argv.simps(2) parseArgs.simps(2) valueAt_def
          requireValue_def requireValueAllowingFlags_def parse_exec_args run_exec_args argv_end_def argv0_def options0_def Let_def)
  qed
qed

text \<open>A delivered work item that lists the log, with an argument shaped like one of the relay's own flags.\<close>

definition demo_host :: device where
  "demo_host = \<lparr>dv_exists = (\<lambda>p. True), dv_cwd = ''/bridge'', dv_binary = (\<lambda>c. True)\<rparr>"

definition demo_work :: jval where
  "demo_work = VObj [(''options'', VObj [(''metadata'', VObj [(''projectPath'', VStr ''/p''),
     (''applicationWrapper'', VObj [(''execCommand'', VStr ''git''), (''capability'', VStr ''app.app_git.wrapper.log''),
        (''execArgs'', VArr [VStr ''log'', VStr ''--cwd''])])])])]"

definition demo_spec :: jval where
  "demo_spec = VObj [(''execCommand'', VStr ''git''), (''capability'', VStr ''app.app_git.wrapper.log''),
        (''execArgs'', VArr [VStr ''log'', VStr ''--cwd''])]"

lemma demo_work_facts:
  "applicationWrapperSpec demo_work = Some demo_spec"
  "ends_with ''/b/tools/agents/application-wrapper.mjs'' ''application-wrapper.mjs''"
  "boundedString (vget demo_spec ''execCommand'') 200 = Some ''git''" "\<not> starts_with ''git'' ''-''"
  "boundedString (vget demo_spec ''capability'') 200 = Some ''app.app_git.wrapper.log''" "\<not> starts_with ''app.app_git.wrapper.log'' ''--''"
  by code_simp+

theorem relay_reads_back_witness:
  "wa_execArgs (parseApplicationWrapperArgs (applicationWrapperArgs demo_host [''/b/tools/agents/application-wrapper.mjs''] demo_work))
     = [''log'', ''--cwd'']"
proof -
  have "string_items (vget demo_spec ''execArgs'') = [''log'', ''--cwd'']" by code_simp
  then show ?thesis
    using relay_reads_back [OF demo_work_facts, of demo_host] by (simp add: Let_def)
qed

definition demo_argv :: "string list" where
  "demo_argv = [''/b/tools/agents/application-wrapper.mjs'', ''--capability'', ''app.app_git.wrapper.head'', ''--exec-command'', ''git'',
     ''--exec-arg'', ''rev-parse'']"

theorem runner_spawns_what_gate_read_witness:
  "wa_execCommand (parseApplicationWrapperArgs demo_argv) = Some ''git''
    \<and> runner_main ''/here'' (tl demo_argv) = Inr \<lparr>sw_command = ''git'', sw_args = [''rev-parse''], sw_cwd = ''/here''\<rparr>"
proof -
  have r: "runner_main ''/here'' (tl demo_argv) = Inr \<lparr>sw_command = ''git'', sw_args = [''rev-parse''], sw_cwd = ''/here''\<rparr>"
    "wa_ok (parseApplicationWrapperArgs demo_argv)" by code_simp+
  show ?thesis using runner_spawns_what_gate_read [OF r(2,1)] r(1) by simp
qed

end
