(* ===== verification/DeviceSafety.thy ===== *)
theory DeviceSafety
  imports WrapperRun
begin

text \<open>
  What the gate of the device guarantees of every plan it lets through: an application that writes finds
  its files in the worktree of its run, a Codex run is confined to its sandbox and directory unless a
  person approved full access, and what happens on a capability whose name is an inherited property.
\<close>

section \<open>What an allowed plan has passed\<close>

definition plan_policy :: "jval \<Rightarrow> jval \<Rightarrow> spawn_plan \<Rightarrow> local_policy" where
  "plan_policy work adapter p = (case sp_localPolicy p of Some lp \<Rightarrow> lp | None \<Rightarrow> localPolicyForAdapter adapter work)"

definition work_worktree :: "jval \<Rightarrow> jval" where
  "work_worktree work = vget (vget (vget work ''options'') ''metadata'') ''worktreePath''"

definition write_cwd :: "spawn_plan \<Rightarrow> string" where
  "write_cwd p = (case wa_cwd (parseApplicationWrapperArgs (plan_args p)) of Some c \<Rightarrow> c | None \<Rightarrow> sp_cwd p)"

lemma past:
  assumes "(if b then Inr \<lparr>g_allowed = False, g_reason = r, g_code = c, g_commandKind = k, g_refusalCode = rc\<rparr> else y) = Inr g"
    and "g_allowed g"
  shows "\<not> b \<and> y = Inr g"
  using assms by (auto split: if_splits)

lemma gate_allowed:
  assumes "localExecutionGate dev mf work adapter p perm = Inr g" and "g_allowed g"
  obtains ck where "classifySpawn dev mf adapter p = Some ck" "g_commandKind g = Some ck"
    "vget adapter ''type'' = VStr ''cli''" "isAbsolute (sp_cwd p)" "dv_exists dev (sp_cwd p)"
    "collectApprovedRoots (dv_cwd dev) work = [] \<or> list_ex (\<lambda>root. pathWithin (dv_cwd dev) root (sp_cwd p)) (collectApprovedRoots (dv_cwd dev) work)"
    "\<not> list_ex (\<lambda>arg. CHR 0x00 \<in> set arg) (plan_args p)"
    "full_access \<in> set (plan_args p) \<longrightarrow> perm = Some ''approved''"
    "ck = ''codex'' \<longrightarrow> codexWorkspaceArgumentGate dev p perm = None"
    "policyAllowed mf ck (plan_policy work adapter p)"
    "ck = ''officecliApply'' \<or> ck = ''excalidrawCliApply'' \<longrightarrow>
       (\<exists>root. work_worktree work = VStr root \<and> js_trim root \<noteq> [] \<and> pathWithin (dv_cwd dev) root (write_cwd p))"
    "isApplicationWrapperSpawn mf p \<longrightarrow>
       (\<exists>wg. applicationWrapperGate dev work p (plan_policy work adapter p) (collectApprovedRoots (dv_cwd dev) work) mf = Inr wg \<and> wg_allowed wg)"
proof -
  note allowed = assms(2)
  have vs: "vstr v = Some s \<longleftrightarrow> v = VStr s" for v s by (cases v) auto
  note eval = assms(1) [unfolded localExecutionGate_def Let_def, folded plan_policy_def work_worktree_def write_cwd_def]
  note s1 = past [OF eval allowed]
  note s2 = past [OF conjunct2 [OF s1] allowed]
  note s3 = past [OF conjunct2 [OF s2] allowed]
  note s4 = past [OF conjunct2 [OF s3] allowed]
  note s5 = past [OF conjunct2 [OF s4] allowed]
  note s6 = past [OF conjunct2 [OF s5] allowed]
  note s7 = past [OF conjunct2 [OF s6] allowed]
  obtain ck where ck: "classifySpawn dev mf adapter p = Some ck"
    using conjunct2 [OF s7] allowed by (cases "classifySpawn dev mf adapter p") auto
  note t1 = conjunct2 [OF s7, unfolded ck option.case]
  have codex: "(if ck = ''codex'' then codexWorkspaceArgumentGate dev p perm else None) = None"
    using t1 allowed by (cases "if ck = ''codex'' then codexWorkspaceArgumentGate dev p perm else None") auto
  note t2 = past [OF t1 [unfolded codex option.case] allowed]
  note t3 = past [OF conjunct2 [OF t2] allowed]
  have wrap: "\<exists>wg. applicationWrapperGate dev work p (plan_policy work adapter p) (collectApprovedRoots (dv_cwd dev) work) mf = Inr wg \<and> wg_allowed wg"
    if "isApplicationWrapperSpawn mf p"
    using conjunct2 [OF t3] allowed that
    by (cases "applicationWrapperGate dev work p (plan_policy work adapter p) (collectApprovedRoots (dv_cwd dev) work) mf")
      (auto split: if_splits)
  have kind: "g_commandKind g = Some ck"
  proof (cases "isApplicationWrapperSpawn mf p")
    case True
    with wrap obtain wg where "applicationWrapperGate dev work p (plan_policy work adapter p) (collectApprovedRoots (dv_cwd dev) work) mf = Inr wg"
      "wg_allowed wg" by blast
    then show ?thesis using conjunct2 [OF t3] True by auto
  qed (use conjunct2 [OF t3] in auto)
  show thesis
  proof (rule that [OF ck kind])
    show "ck = ''officecliApply'' \<or> ck = ''excalidrawCliApply'' \<longrightarrow>
       (\<exists>root. work_worktree work = VStr root \<and> js_trim root \<noteq> [] \<and> pathWithin (dv_cwd dev) root (write_cwd p))"
      using conjunct1 [OF t3] by (cases "vstr (work_worktree work)") (auto simp: vs)
    show "ck = ''codex'' \<longrightarrow> codexWorkspaceArgumentGate dev p perm = None" by (metis codex)
    show "policyAllowed mf ck (plan_policy work adapter p)" using conjunct1 [OF t2] by simp
    show "isApplicationWrapperSpawn mf p \<longrightarrow>
       (\<exists>wg. applicationWrapperGate dev work p (plan_policy work adapter p) (collectApprovedRoots (dv_cwd dev) work) mf = Inr wg \<and> wg_allowed wg)"
      using wrap by blast
  qed (use s1 s2 s3 s4 s5 s6 s7 in \<open>simp_all\<close>)
qed

lemma wg_past:
  assumes "(if b then Inr (wg_refuse r c rc) else y) = Inr wg" and "wg_allowed wg"
  shows "\<not> b \<and> y = Inr wg"
  using assms by (auto simp: wg_refuse_def split: if_splits)

lemma parse_ok_some: "wa_ok (parse_argv p toks) \<Longrightarrow> \<exists>cmd cap. wa_execCommand (parse_argv p toks) = Some cmd \<and> cmd \<noteq> []
    \<and> wa_capability (parse_argv p toks) = Some cap \<and> cap \<noteq> []"
proof (induction p toks rule: parse_argv.induct)
  case (1 p)
  then show ?case
    by (cases "wa_execCommand p"; cases "wa_capability p") (auto simp: argv_end_def split: if_splits)
next
  case (2 p arg rest)
  then show ?case by (auto simp: parse_argv.simps(2) [of p] split: if_splits)
qed

lemma wrapper_gate_allowed:
  assumes "applicationWrapperGate dev work p lp roots mf = Inr wg" and "wg_allowed wg"
  obtains spec cmd cap e where "applicationWrapperSpec work = Some spec" "wa_ok (parseApplicationWrapperArgs (plan_args p))"
    "wa_execCommand (parseApplicationWrapperArgs (plan_args p)) = Some cmd" "cmd = js_trim (vtext (vget spec ''execCommand''))"
    "wa_capability (parseApplicationWrapperArgs (plan_args p)) = Some cap" "cap = js_trim (vtext (vget spec ''capability''))"
    "wa_execArgs (parseApplicationWrapperArgs (plan_args p)) = string_items (vget spec ''execArgs'')"
    "List.find (\<lambda>e. cmd = we_command e \<and> starts_with cap (we_capabilityPrefix e)) (mf_applicationWrapperCommands mf) = Some e"
    "lp_filePolicy lp = we_filePolicy e" "lp_networkPolicy lp = we_networkPolicy e"
    "coalesce (wa_cwd (parseApplicationWrapperArgs (plan_args p))) [] \<noteq> [] \<longrightarrow>
       isAbsolute (coalesce (wa_cwd (parseApplicationWrapperArgs (plan_args p))) [])
       \<and> (roots = [] \<or> list_ex (\<lambda>root. pathWithin (dv_cwd dev) root (coalesce (wa_cwd (parseApplicationWrapperArgs (plan_args p))) [])) roots)"
    "wrapperArgsAllowed cap (wa_execArgs (parseApplicationWrapperArgs (plan_args p))) = Inr True" "dv_binary dev cmd"
proof -
  note allowed = assms(2)
  note eval = assms(1) [unfolded applicationWrapperGate_def Let_def]
  obtain spec where spec: "applicationWrapperSpec work = Some spec"
    using eval allowed by (cases "applicationWrapperSpec work") (auto simp: wg_refuse_def)
  note s1 = wg_past [OF eval [unfolded spec option.case] allowed]
  have ok: "wa_ok (parseApplicationWrapperArgs (plan_args p))" using s1 by blast
  obtain cmd cap where cmd: "wa_execCommand (parseApplicationWrapperArgs (plan_args p)) = Some cmd" "cmd \<noteq> []"
    and cap: "wa_capability (parseApplicationWrapperArgs (plan_args p)) = Some cap" "cap \<noteq> []"
    using parse_ok_some ok unfolding parseApplicationWrapperArgs_def by blast
  note s2 = wg_past [OF conjunct2 [OF s1, unfolded cmd(1) cap(1) coalesce.simps] allowed]
  note s3 = wg_past [OF conjunct2 [OF s2] allowed]
  note s4 = wg_past [OF conjunct2 [OF s3] allowed]
  note s5 = wg_past [OF conjunct2 [OF s4] allowed]
  obtain e where e: "List.find (\<lambda>e. cmd = we_command e \<and> starts_with cap (we_capabilityPrefix e)) (mf_applicationWrapperCommands mf) = Some e"
    using conjunct2 [OF s5] allowed
    by (cases "List.find (\<lambda>e. cmd = we_command e \<and> starts_with cap (we_capabilityPrefix e)) (mf_applicationWrapperCommands mf)")
      (auto simp: wg_refuse_def)
  note s6 = wg_past [OF conjunct2 [OF s5, unfolded e option.case] allowed]
  note s7 = wg_past [OF conjunct2 [OF s6] allowed]
  note s8 = wg_past [OF conjunct2 [OF s7] allowed]
  note s9 = wg_past [OF conjunct2 [OF s8] allowed]
  obtain b where b: "wrapperArgsAllowed cap (wa_execArgs (parseApplicationWrapperArgs (plan_args p))) = Inr b"
    using conjunct2 [OF s9] by (cases "wrapperArgsAllowed cap (wa_execArgs (parseApplicationWrapperArgs (plan_args p)))") auto
  note s10 = wg_past [OF conjunct2 [OF s9, unfolded b sum.case] allowed]
  note s11 = wg_past [OF conjunct2 [OF s10] allowed]
  show thesis
    by (rule that [OF spec ok cmd(1) _ cap(1) _ _ e]) (use s1 s2 s3 s4 s5 s6 s7 s8 s9 s10 s11 b in auto)
qed

section \<open>An allowed write stays in its worktree\<close>

text \<open>A path that neither starts at a root nor climbs, on any system: no leading slash, tilde, backslash or drive letter, and
  no segment \<open>..\<close> between slashes or backslashes.\<close>

definition free_path :: "string \<Rightarrow> bool" where
  "free_path v \<longleftrightarrow> \<not> starts_with v ''/'' \<and> \<not> starts_with v ''~'' \<and> \<not> starts_with v [backslash]
     \<and> \<not> windows_drive v \<and> ''..'' \<notin> set (split_at is_slash v)"

lemma safe_free: "isSafeRelPath v \<Longrightarrow> free_path v"
  by (simp add: isSafeRelPath_def free_path_def)

lemma not_escaping_free: "\<not> isOfficeEscapingLocalPath v \<Longrightarrow> free_path (js_trim v)"
  by (simp add: isOfficeEscapingLocalPath_def free_path_def Let_def)

lemma free_below:
  assumes "free_path v" and "isAbsolute c" and "below r (resolve b c)" and "r \<noteq> ''/''" and "r \<noteq> []"
  shows "below r (resolve c v)"
proof -
  have "''..'' \<notin> set (split_at (\<lambda>c. c = slash) v)"
  proof
    assume "''..'' \<in> set (split_at (\<lambda>c. c = slash) v)"
    then have "''..'' \<in> set (split_at is_slash v)"
      by (rule split_at_finer) (auto simp: is_slash_def backslash_def)
    then show False using assms(1) by (simp add: free_path_def)
  qed
  moreover have "\<not> isAbsolute v" using assms(1) by (simp add: free_path_def isAbsolute_def)
  moreover have "resolve b c \<noteq> ''/''" using below_root assms(3,4,5) by metis
  ultimately have "below (resolve b c) (resolve c v)"
    using resolve_below assms(2) unfolding below_def by blast
  with assms(3) show ?thesis by (rule below_trans)
qed

text \<open>The positionals of an argv, as the matcher counts them.\<close>

fun office_positionals :: "argv_spec \<Rightarrow> string list \<Rightarrow> string list" where
  "office_positionals spec [] = []"
| "office_positionals spec (token # rest) =
     (if starts_with token ''-''
      then (case map_of (as_flags spec) token of
              Some (Checked v) \<Rightarrow> office_positionals spec (tl rest)
            | _ \<Rightarrow> office_positionals spec rest)
      else token # office_positionals spec rest)"

lemma walk_positionals:
  "office_walk spec i toks = Some n \<Longrightarrow> k < length (office_positionals spec toks) \<Longrightarrow>
    i + k < length (as_positionals spec) \<and> (as_positionals spec ! (i + k)) (office_positionals spec toks ! k)"
proof (induction spec i toks arbitrary: k rule: office_walk.induct)
  case (2 spec i token rest)
  show ?case
  proof (cases "starts_with token ''-''")
    case True
    then obtain fc where fc: "map_of (as_flags spec) token = Some fc" using 2(4) by (auto split: option.splits)
    show ?thesis
    proof (cases fc)
      case Valueless
      then show ?thesis using 2(1) [OF True fc Valueless] 2(4,5) True fc by simp
    next
      case (Checked v)
      then obtain w rest' where r: "rest = w # rest'" "v w" using 2(4) True fc by (auto split: list.splits if_splits)
      then show ?thesis using 2(2) [OF True fc Checked r] 2(4,5) True fc Checked by simp
    qed
  next
    case False
    then have ok: "i < length (as_positionals spec) \<and> (as_positionals spec ! i) token" and w: "office_walk spec (Suc i) rest = Some n"
      using 2(4) by (auto split: if_splits)
    show ?thesis
    proof (cases k)
      case 0
      then show ?thesis using ok False by simp
    next
      case (Suc m)
      then show ?thesis using 2(3) [OF False ok w, of m] 2(5) False by simp
    qed
  qed
qed simp

text \<open>The positionals of a write command that name files.\<close>

fun file_places :: "string \<Rightarrow> nat list" where
  "file_places name = (if name = ''import'' then [0, 2] else if name = ''merge'' \<or> name = ''export'' then [0, 1] else [0])"

text \<open>The flags of an argv that take a value.\<close>

fun office_flag_values :: "argv_spec \<Rightarrow> string list \<Rightarrow> (string \<times> string) list" where
  "office_flag_values spec [] = []"
| "office_flag_values spec (token # rest) =
     (if starts_with token ''-''
      then (case map_of (as_flags spec) token of
              Some (Checked v) \<Rightarrow> (case rest of [] \<Rightarrow> [] | x # rest' \<Rightarrow> (token, x) # office_flag_values spec rest')
            | _ \<Rightarrow> office_flag_values spec rest)
      else office_flag_values spec rest)"

lemma walk_values:
  "office_walk spec i toks = Some n \<Longrightarrow> (flag, v) \<in> set (office_flag_values spec toks) \<Longrightarrow>
    \<exists>check. map_of (as_flags spec) flag = Some (Checked check) \<and> check v"
proof (induction spec i toks rule: office_walk.induct)
  case (2 spec i token rest)
  show ?case
  proof (cases "starts_with token ''-''")
    case True
    then obtain fc where fc: "map_of (as_flags spec) token = Some fc" using 2(4) by (auto split: option.splits)
    show ?thesis
    proof (cases fc)
      case Valueless
      then show ?thesis using 2(1) [OF True fc Valueless] 2(4,5) True fc by simp
    next
      case (Checked check)
      then obtain w rest' where r: "rest = w # rest'" "check w" using 2(4) True fc by (auto split: list.splits if_splits)
      then show ?thesis using 2(2) [OF True fc Checked r] 2(4,5) True fc Checked by auto
    qed
  next
    case False
    then show ?thesis using 2(3) [OF False] 2(4,5) by (auto split: if_splits)
  qed
qed simp

text \<open>What a property of a document can name.  The value of a content key is text or a link.  The value of a source key, and
  an image fill of any key, is a media source: what is left of it without blanks and \<open>image:\<close> prefixes,
  which is no file when it is inline data.  Any other value is taken as a path, in case the program reads it as one.\<close>

function media_ref :: "string \<Rightarrow> string" where
  "media_ref v = (case image_fill (js_trim v) of Some rest \<Rightarrow> media_ref rest | None \<Rightarrow> js_trim v)"
  by pat_completeness auto
termination
  by (relation "measure length") (use image_fill_shorter in auto)

declare media_ref.simps [simp del]

datatype named_file = Operand string | Media string | Unknown string

definition prop_names :: "string \<Rightarrow> string \<Rightarrow> named_file list" where
  "prop_names key v =
     (if js_lower key \<in> set [''value'', ''formula'', ''text'', ''link'', ''href'', ''target'', ''url'', ''hyperlink'', ''anchor'', ''tooltip''] then []
      else if js_lower key \<in> set [''src'', ''path'', ''preview'', ''data'', ''image'', ''imagefill'', ''img'', ''poster'', ''fallback''] \<or> image_fill v \<noteq> None
      then (if js_lower (take 5 (media_ref v)) = ''data:'' then [] else [Media (media_ref v)])
      else [Unknown (js_trim v)])"

fun item_names :: "jval \<Rightarrow> named_file list" where
  "item_names (VObj kvs) = concat (map (\<lambda>p. prop_names (fst p) (vtext (snd p))) kvs)"
| "item_names v = []"

definition flag_names :: "string \<times> string \<Rightarrow> named_file list" where
  "flag_names fv =
     (if fst fv = ''--prop'' then prop_names (takeWhile (\<lambda>c. c \<noteq> CHR ''='') (snd fv)) (tl (dropWhile (\<lambda>c. c \<noteq> CHR ''='') (snd fv)))
      else if fst fv = ''--commands'' then
        (case parse (snd fv) of Some (VArr items) \<Rightarrow> concat (map (\<lambda>item. item_names (vget item ''props'')) items) | _ \<Rightarrow> [])
      else [])"

text \<open>Everything the arguments of a write command name: the operands that are files, the properties of \<open>--prop\<close>, and those of
  every command of a \<open>--commands\<close> batch.\<close>

definition named_files :: "string \<Rightarrow> argv_spec \<Rightarrow> string list \<Rightarrow> named_file list" where
  "named_files name spec toks =
     (let operands = office_positionals spec toks
      in map (\<lambda>k. Operand (operands ! k)) (filter (\<lambda>k. k < length operands) (file_places name))
         @ concat (map flag_names (office_flag_values spec toks)))"

fun free_name :: "named_file \<Rightarrow> bool" where
  "free_name (Operand f) = free_path f"
| "free_name (Media f) = (free_path f \<and> \<not> uri_scheme f)"
| "free_name (Unknown f) = free_path f"

fun path_of :: "named_file \<Rightarrow> string" where
  "path_of (Operand f) = f"
| "path_of (Media f) = f"
| "path_of (Unknown f) = f"

definition confined :: "string \<Rightarrow> string \<Rightarrow> named_file \<Rightarrow> bool" where
  "confined root cwd f \<longleftrightarrow> below root (resolve cwd (path_of f)) \<and> free_name f"

lemma safe_media: "isOfficeSafeMediaSource v \<Longrightarrow> js_lower (take 5 (media_ref v)) = ''data:'' \<or> free_path (media_ref v) \<and> \<not> uri_scheme (media_ref v)"
proof (induction v rule: media_ref.induct)
  case (1 v)
  then show ?case
    by (cases "image_fill (js_trim v)")
      (auto simp: isOfficeSafeMediaSource.simps [of v] media_ref.simps [of v] safe_free split: if_splits)
qed

lemma safe_props: "\<not> isOfficePropUnsafe key v \<Longrightarrow> f \<in> set (prop_names key v) \<Longrightarrow> free_name f"
  using safe_media [of v] not_escaping_free [of v]
  by (auto simp: isOfficePropUnsafe_def prop_names_def Let_def OFFICE_CONTENT_PROP_KEYS_def OFFICE_SOURCE_PROP_KEYS_def split: if_splits)

lemma safe_item: "officeItemPropsSafe props \<Longrightarrow> f \<in> set (item_names props) \<Longrightarrow> free_name f"
  by (cases props) (auto simp: list_all_iff dest: safe_props)

lemma pair_names: "isOfficePropPair v \<Longrightarrow> f \<in> set (flag_names (''--prop'', v)) \<Longrightarrow> free_name f"
  by (auto simp: isOfficePropPair_def flag_names_def Let_def intro: safe_props)

lemma batch_names: "isOfficeBatchCommands v \<Longrightarrow> f \<in> set (flag_names (''--commands'', v)) \<Longrightarrow> free_name f"
  by (auto simp: isOfficeBatchCommands_def flag_names_def list_all_iff dest: safe_item split: option.splits jval.splits)

definition write_tables :: "(string \<times> (string \<times> argv_spec) list) list" where
  "write_tables = [(''app.app_officecli.apply.'', OFFICECLI_APPLY_WRAPPER_ARGS),
     (''app.app_excalidraw_cli.apply.'', EXCALIDRAW_CLI_APPLY_WRAPPER_ARGS)]"

definition only_safe :: "(string \<Rightarrow> bool) \<Rightarrow> bool" where
  "only_safe check \<longleftrightarrow> (\<forall>v. check v \<longrightarrow> isSafeRelPath v)"

lemma only_safe_files: "only_safe isOfficeFile" "only_safe isOfficeCsvFile" "only_safe isExcalidrawSceneFile" "only_safe isExcalidrawPngFile"
  by (simp_all add: only_safe_def file_type_def isOfficeFile_def isOfficeCsvFile_def isExcalidrawSceneFile_def isExcalidrawPngFile_def)

lemma tables_files:
  "list_all (\<lambda>(prefix, table). list_all (\<lambda>(name, spec). list_all (\<lambda>k. k < length (as_positionals spec)
     \<longrightarrow> only_safe (as_positionals spec ! k)) (file_places name)) table) write_tables"
  by (simp add: write_tables_def OFFICECLI_APPLY_WRAPPER_ARGS_def EXCALIDRAW_CLI_APPLY_WRAPPER_ARGS_def only_safe_files)

lemma table_files:
  assumes "(prefix, table) \<in> set write_tables" and "(name, spec) \<in> set table" and "k \<in> set (file_places name)"
    and "k < length (as_positionals spec)" and "(as_positionals spec ! k) v"
  shows "isSafeRelPath v"
  using tables_files assms unfolding list_all_iff only_safe_def by fast

lemma tables_flags:
  "list_all (\<lambda>(prefix, table). list_all (\<lambda>(name, spec).
     (map_of (as_flags spec) ''--prop'' = None \<or> map_of (as_flags spec) ''--prop'' = Some (Checked isOfficePropPair))
     \<and> (map_of (as_flags spec) ''--commands'' = None \<or> map_of (as_flags spec) ''--commands'' = Some (Checked isOfficeBatchCommands))) table) write_tables"
  by (simp add: write_tables_def OFFICECLI_APPLY_WRAPPER_ARGS_def EXCALIDRAW_CLI_APPLY_WRAPPER_ARGS_def)

lemma flags_free:
  assumes "(prefix, table) \<in> set write_tables" and "(name, spec) \<in> set table" and "office_walk spec i toks = Some n"
    and "fv \<in> set (office_flag_values spec toks)" and "f \<in> set (flag_names fv)"
  shows "free_name f"
proof -
  obtain flag v where fv: "fv = (flag, v)" by fastforce
  have "\<exists>c. map_of (as_flags spec) flag = Some (Checked c) \<and> c v" by (rule walk_values [OF assms(3) assms(4) [unfolded fv]])
  then obtain c where check: "map_of (as_flags spec) flag = Some (Checked c)" "c v" by blast
  have "flag_names fv = []" if "flag \<noteq> ''--prop''" "flag \<noteq> ''--commands''"
    unfolding flag_names_def fv fst_conv if_not_P [OF that(1)] if_not_P [OF that(2)] by (rule refl)
  then have "flag = ''--prop'' \<or> flag = ''--commands''" using assms(5) by (metis empty_iff list.set(1))
  then show ?thesis
  proof
    assume p: "flag = ''--prop''"
    then have "c = isOfficePropPair" using tables_flags assms(1,2) check(1) unfolding list_all_iff by fastforce
    then show ?thesis using pair_names [of v f] check(2) assms(5) fv p by simp
  next
    assume p: "flag = ''--commands''"
    then have "c = isOfficeBatchCommands" using tables_flags assms(1,2) check(1) unfolding list_all_iff by fastforce
    then show ?thesis using batch_names [of v f] check(2) assms(5) fv p by simp
  qed
qed

lemma names_free:
  assumes "(prefix, table) \<in> set write_tables" and "map_of table name = Some spec" and "office_walk spec 0 toks = Some n"
    and "f \<in> set (named_files name spec toks)"
  shows "free_name f"
proof -
  have in_table: "(name, spec) \<in> set table" using assms(2) by (rule map_of_SomeD)
  consider k where "k \<in> set (file_places name)" "k < length (office_positionals spec toks)" "f = Operand (office_positionals spec toks ! k)"
    | fv where "fv \<in> set (office_flag_values spec toks)" "f \<in> set (flag_names fv)"
    using assms(4) by (auto simp: named_files_def Let_def)
  then show ?thesis
  proof cases
    case 1
    then show ?thesis
      using table_files [OF assms(1) in_table 1(1)] walk_positionals [OF assms(3) 1(2)] safe_free by simp
  next
    case 2
    then show ?thesis using flags_free [OF assms(1) in_table assms(3)] by blast
  qed
qed

lemma write_kind:
  assumes "classifySpawn dev mf adapter p = Some ck" and "ck = ''officecliApply'' \<or> ck = ''excalidrawCliApply''"
  shows "isApplicationWrapperSpawn mf p \<and> (\<exists>prefix \<in> set (map fst write_tables). starts_with (spawn_capability p) prefix)"
  using assms unfolding classifySpawn_def write_tables_def by (auto split: if_splits)

lemma matched:
  assumes "officecliArgvMatches (map_option (object_get table) (command_name prefix cap)) args = Inr True"
  obtains name spec n where "command_name prefix cap = Some name" "map_of table name = Some spec"
    "take (length (as_base spec)) args = as_base spec"
    "office_walk spec 0 (drop (length (as_base spec)) args) = Some n" "as_minPositionals spec \<le> n"
  using assms
  by (cases "command_name prefix cap")
    (auto simp: officecliArgvMatches_def object_get_def stringArrayStartsWith_def split: option.splits if_splits)

lemma write_matched:
  assumes "(prefix, table) \<in> set write_tables" and "starts_with cap prefix" and "wrapperArgsAllowed cap args = Inr True"
  shows "officecliArgvMatches (map_option (object_get table) (command_name prefix cap)) args = Inr True"
proof -
  obtain r where r: "cap = prefix @ r" using assms(2) by (auto simp: starts_with_iff)
  have "prefix = ''app.app_officecli.apply.'' \<and> table = OFFICECLI_APPLY_WRAPPER_ARGS
      \<or> prefix = ''app.app_excalidraw_cli.apply.'' \<and> table = EXCALIDRAW_CLI_APPLY_WRAPPER_ARGS"
    using assms(1) by (simp only: write_tables_def list.set insert_iff empty_iff prod.inject simp_thms)
  then show ?thesis
  proof (elim disjE conjE)
    assume p: "prefix = ''app.app_officecli.apply.''" "table = OFFICECLI_APPLY_WRAPPER_ARGS"
    show ?thesis using assms(3) unfolding r p dispatch officecliApplyArgsAllowed_def by assumption
  next
    assume p: "prefix = ''app.app_excalidraw_cli.apply.''" "table = EXCALIDRAW_CLI_APPLY_WRAPPER_ARGS"
    show ?thesis using assms(3) unfolding r p dispatch excalidrawCliApplyArgsAllowed_def by assumption
  qed
qed

lemma spawn_cwd:
  assumes "wa_ok (parseApplicationWrapperArgs args)" and "runner_main base (tl args) = Inr w"
  shows "wa_execArgs (parseApplicationWrapperArgs args) = sw_args w
    \<and> sw_cwd w = (let cwd = coalesce (wa_cwd (parseApplicationWrapperArgs args)) [] in if cwd = [] then base else cwd)"
  using gate_and_runner [OF assms] by simp

text \<open>C20: An allowed write stays in the worktree.  If the gate lets an application write through, the runner has a working
  directory that is not the empty string, and the worktree of the run is not the root of the file system, then the
  argv is that of one of the write commands the device lists, and everything it names is confined: the operands that are files,
  the value of every \<open>--prop\<close>, and the value of every property that a command of a \<open>--commands\<close> batch has in an object
  \<open>props\<close>, unless it is content, a link or inline data.  Confined means that resolved in the directory the runner spawns the program in it
  is the worktree or lies below it, and that it has no leading slash, tilde, backslash or drive letter and no climbing
  segment; a media source is no URI either.\<close>

theorem write_stays_in_worktree:
  assumes "localExecutionGate dev mf work adapter p perm = Inr g" and "g_allowed g"
    and "g_commandKind g = Some ''officecliApply'' \<or> g_commandKind g = Some ''excalidrawCliApply''"
    and "runner_main (sp_cwd p) (tl (plan_args p)) = Inr w"
    and "wa_cwd (parseApplicationWrapperArgs (plan_args p)) \<noteq> Some []"
    and "work_worktree work = VStr root" and "resolve (dv_cwd dev) root \<noteq> ''/''"
  shows "\<exists>(prefix, table) \<in> set write_tables. \<exists>name spec. command_name prefix (spawn_capability p) = Some name
      \<and> map_of table name = Some spec
      \<and> take (length (as_base spec)) (sw_args w) = as_base spec
      \<and> (\<forall>f \<in> set (named_files name spec (drop (length (as_base spec)) (sw_args w))).
            confined (resolve (dv_cwd dev) root) (sw_cwd w) f)"
proof -
  let ?a = "parseApplicationWrapperArgs (plan_args p)"
  from assms(1,2) show ?thesis
  proof (rule gate_allowed)
    fix ck
    assume ck: "classifySpawn dev mf adapter p = Some ck" "g_commandKind g = Some ck" "isAbsolute (sp_cwd p)"
      "ck = ''officecliApply'' \<or> ck = ''excalidrawCliApply'' \<longrightarrow>
         (\<exists>root. work_worktree work = VStr root \<and> js_trim root \<noteq> [] \<and> pathWithin (dv_cwd dev) root (write_cwd p))"
      "isApplicationWrapperSpawn mf p \<longrightarrow> (\<exists>wg. applicationWrapperGate dev work p (plan_policy work adapter p)
         (collectApprovedRoots (dv_cwd dev) work) mf = Inr wg \<and> wg_allowed wg)"
    have wr: "ck = ''officecliApply'' \<or> ck = ''excalidrawCliApply''" using assms(3) ck(2) by auto
    have "\<exists>prefix \<in> set (map fst write_tables). starts_with (spawn_capability p) prefix" and wrap: "isApplicationWrapperSpawn mf p"
      using write_kind [OF ck(1) wr] by blast+
    then obtain prefix table where pt: "(prefix, table) \<in> set write_tables" "starts_with (spawn_capability p) prefix" by auto
    have within: "pathWithin (dv_cwd dev) root (write_cwd p)" using ck(4) wr assms(6) by auto
    obtain wg where wg: "applicationWrapperGate dev work p (plan_policy work adapter p) (collectApprovedRoots (dv_cwd dev) work) mf = Inr wg" "wg_allowed wg"
      using ck(5) wrap by blast
    show ?thesis
      using wg
    proof (rule wrapper_gate_allowed)
      fix cap
      assume ok: "wa_ok ?a" "wa_capability ?a = Some cap" "wrapperArgsAllowed cap (wa_execArgs ?a) = Inr True"
        "coalesce (wa_cwd ?a) [] \<noteq> [] \<longrightarrow> isAbsolute (coalesce (wa_cwd ?a) []) \<and> (collectApprovedRoots (dv_cwd dev) work = []
           \<or> list_ex (\<lambda>root. pathWithin (dv_cwd dev) root (coalesce (wa_cwd ?a) [])) (collectApprovedRoots (dv_cwd dev) work))"
      note sp = spawn_cwd [OF ok(1) assms(4)]
      have cap: "cap = spawn_capability p" using ok(2) by (simp add: spawn_capability_def)
      have cwd: "sw_cwd w = write_cwd p" "isAbsolute (sw_cwd w)"
        using sp assms(5) ok(4) ck(3) by (cases "wa_cwd ?a"; auto simp: write_cwd_def Let_def)+
      have args: "wrapperArgsAllowed (spawn_capability p) (sw_args w) = Inr True" using ok(3) sp cap by simp
      from write_matched [OF pt args] obtain name spec n where m: "command_name prefix (spawn_capability p) = Some name"
        "map_of table name = Some spec" "take (length (as_base spec)) (sw_args w) = as_base spec"
        "office_walk spec 0 (drop (length (as_base spec)) (sw_args w)) = Some n"
        by (rule matched)
      have "confined (resolve (dv_cwd dev) root) (sw_cwd w) f"
        if f: "f \<in> set (named_files name spec (drop (length (as_base spec)) (sw_args w)))" for f
      proof -
        have free: "free_name f" by (rule names_free [OF pt(1) m(2,4) f])
        then have "free_path (path_of f)" by (cases f) simp_all
        moreover have "below (resolve (dv_cwd dev) root) (resolve (dv_cwd dev) (sw_cwd w))"
          using within cwd(1) by (simp add: pathWithin_below)
        ultimately have "below (resolve (dv_cwd dev) root) (resolve (sw_cwd w) (path_of f))"
          by (rule free_below [OF _ cwd(2)]) (use assms(7) in simp_all)
        with free show ?thesis by (simp add: confined_def)
      qed
      then show ?thesis
        by (intro bexI [OF _ pt(1)]) (simp only: prod.case, use m(1,2,3) in blast)
    qed
  qed
qed

definition demo_manifest :: manifest where
  "demo_manifest = createLocalExecutionPolicyManifest None None ''/bin/node''"

definition demo_adapter :: jval where
  "demo_adapter = VObj [(''type'', VStr ''cli''), (''command'', VStr ''node'')]"

text \<open>A work item whose server-resolved wrapper creates a document in the worktree of the run.\<close>

definition demo_create :: jval where
  "demo_create = VObj [(''options'', VObj [(''metadata'', VObj [(''worktreePath'', VStr ''/w/t''),
     (''applicationWrapper'', VObj [(''execCommand'', VStr ''officecli''), (''capability'', VStr ''app.app_officecli.apply.create''),
        (''execArgs'', VArr [VStr ''create'', VStr ''a.docx'']), (''cwdPolicy'', VStr ''invocation_root''),
        (''filePolicy'', VStr ''workspace_write''), (''networkPolicy'', VStr ''forbidden'')])])])]"

definition demo_plan :: spawn_plan where
  "demo_plan = \<lparr>sp_command = ''node'', sp_args = Some (applicationWrapperArgs demo_host [''/b/tools/agents/application-wrapper.mjs''] demo_create),
     sp_cwd = ''/w/t'', sp_localPolicy = None, sp_codexAdditionalWritableRoots = []\<rparr>"

lemma demo_args: "applicationWrapperArgs demo_host [''/b/tools/agents/application-wrapper.mjs''] demo_create
  = [''/b/tools/agents/application-wrapper.mjs'', ''--exec-command'', ''officecli'', ''--cwd'', ''/w/t'',
     ''--capability'', ''app.app_officecli.apply.create'', ''--exec-arg'', ''create'', ''--exec-arg'', ''a.docx'']"
  by code_simp

lemma demo_gate: "localExecutionGate demo_host demo_manifest demo_create demo_adapter demo_plan None
  = Inr \<lparr>g_allowed = True, g_reason = ''Local execution gate allowed the governed command.'', g_code = None,
         g_commandKind = Some ''officecliApply'', g_refusalCode = None\<rparr>"
  by code_simp

lemma demo_run: "runner_main ''/w/t'' (tl (plan_args demo_plan)) = Inr \<lparr>sw_command = ''officecli'', sw_args = [''create'', ''a.docx''], sw_cwd = ''/w/t''\<rparr>"
  unfolding demo_plan_def demo_args spawn_plan.simps coalesce.simps by code_simp

lemma demo_spawn: "spawn_capability demo_plan = ''app.app_officecli.apply.create''"
  "wa_cwd (parseApplicationWrapperArgs (plan_args demo_plan)) = Some ''/w/t''"
  unfolding spawn_capability_def demo_plan_def demo_args spawn_plan.simps coalesce.simps by code_simp+

theorem write_stays_in_worktree_witness:
  "\<exists>(prefix, table) \<in> set write_tables. \<exists>name spec. command_name prefix (spawn_capability demo_plan) = Some name
      \<and> map_of table name = Some spec
      \<and> take (length (as_base spec)) [''create'', ''a.docx''] = as_base spec
      \<and> (\<forall>f \<in> set (named_files name spec (drop (length (as_base spec)) [''create'', ''a.docx''])).
            confined (resolve ''/bridge'' ''/w/t'') ''/w/t'' f)"
proof -
  have r: "resolve (dv_cwd demo_host) ''/w/t'' \<noteq> ''/''" by code_simp
  have w: "work_worktree demo_create = VStr ''/w/t''" by code_simp
  have c: "wa_cwd (parseApplicationWrapperArgs (plan_args demo_plan)) \<noteq> Some []" by (simp add: demo_spawn(2))
  have k: "sp_cwd demo_plan = ''/w/t''" by (simp add: demo_plan_def)
  show ?thesis
    using write_stays_in_worktree [OF demo_gate _ _ _ c w r, unfolded k, OF _ _ demo_run]
    by (simp only: gate.simps spawned.simps demo_host_def device.simps simp_thms)
qed

section \<open>A Codex run stays in its sandbox\<close>

lemma image_all: "f ` A = f ` B \<Longrightarrow> \<forall>v \<in> B. P (f v) \<Longrightarrow> a \<in> A \<Longrightarrow> P (f a)"
  by (metis imageE imageI)

lemma codex_gate_open:
  assumes "codexWorkspaceArgumentGate dev p perm = None" and "full_access \<notin> set (plan_args p)" and "after_exec (plan_args p) \<noteq> Some ''resume''"
  shows "\<exists>mode d. optionValues [''--sandbox'', ''-s''] (plan_args p) = [mode] \<and> mode \<in> {''read-only'', ''workspace-write''}
    \<and> optionValues [''--cd'', ''-C''] (plan_args p) = [d] \<and> resolve (dv_cwd dev) d = resolve (dv_cwd dev) (sp_cwd p)
    \<and> (mode = ''read-only'' \<longrightarrow> optionValues [''--add-dir''] (plan_args p) = [])
    \<and> (\<forall>a \<in> set (optionValues [''--add-dir''] (plan_args p)). dv_exists dev (resolve (dv_cwd dev) a)
         \<and> contains (js_lower (resolve (dv_cwd dev) a)) ''/.git/worktrees/'')"
proof -
  have "length (optionValues [''--sandbox'', ''-s''] (plan_args p)) = 1" "length (optionValues [''--cd'', ''-C''] (plan_args p)) = 1"
    using assms by (auto simp: codexWorkspaceArgumentGate_def Let_def split: if_splits)
  then obtain mode d where one: "optionValues [''--sandbox'', ''-s''] (plan_args p) = [mode]" "optionValues [''--cd'', ''-C''] (plan_args p) = [d]"
    by (auto simp: length_Suc_conv)
  let ?norm = "resolve (dv_cwd dev)"
  have "set (map ?norm (optionValues [''--add-dir''] (plan_args p))) = set (map ?norm (sp_codexAdditionalWritableRoots p))
      \<and> (\<forall>v \<in> set (sp_codexAdditionalWritableRoots p). dv_exists dev (?norm v) \<and> contains (js_lower (?norm v)) ''/.git/worktrees/'')"
    if "mode \<noteq> ''read-only''"
    using assms one that unfolding codexWorkspaceArgumentGate_def Let_def list_all_iff by (auto split: if_splits)
  then have "dv_exists dev (?norm a) \<and> contains (js_lower (?norm a)) ''/.git/worktrees/''"
    if "mode \<noteq> ''read-only''" "a \<in> set (optionValues [''--add-dir''] (plan_args p))" for a
    using that image_all [of ?norm "set (optionValues [''--add-dir''] (plan_args p))" "set (sp_codexAdditionalWritableRoots p)"
        "\<lambda>d. dv_exists dev d \<and> contains (js_lower d) ''/.git/worktrees/''" a] by simp
  moreover have "mode \<in> {''read-only'', ''workspace-write''} \<and> ?norm d = ?norm (sp_cwd p)
      \<and> (mode = ''read-only'' \<longrightarrow> optionValues [''--add-dir''] (plan_args p) = [])"
    using assms one unfolding codexWorkspaceArgumentGate_def Let_def by (auto split: if_splits)
  ultimately show ?thesis using one by fastforce
qed

text \<open>C21: Codex without approval is confined.  If the gate lets a Codex run through and no person approved full access, then
  the run does not ask for it; a resumed session carries no workspace flags; and a fresh run names exactly one sandbox, which is
  read-only or workspace-write, exactly one directory, which is the one it is spawned in and lies in an approved root when there is one, and
  writable roots beyond it only in existing directories of git's worktree store, none of them when read-only.\<close>

theorem codex_sandboxed:
  assumes "localExecutionGate dev mf work adapter p perm = Inr g" and "g_allowed g"
    and "g_commandKind g = Some ''codex''" and "perm \<noteq> Some ''approved''"
  shows "full_access \<notin> set (plan_args p)
    \<and> (collectApprovedRoots (dv_cwd dev) work = []
       \<or> list_ex (\<lambda>root. pathWithin (dv_cwd dev) root (sp_cwd p)) (collectApprovedRoots (dv_cwd dev) work))
    \<and> (if after_exec (plan_args p) = Some ''resume''
       then optionValues [''--sandbox'', ''-s''] (plan_args p) = [] \<and> optionValues [''--cd'', ''-C''] (plan_args p) = []
         \<and> optionValues [''--add-dir''] (plan_args p) = []
       else \<exists>mode d. optionValues [''--sandbox'', ''-s''] (plan_args p) = [mode] \<and> mode \<in> {''read-only'', ''workspace-write''}
         \<and> optionValues [''--cd'', ''-C''] (plan_args p) = [d] \<and> resolve (dv_cwd dev) d = resolve (dv_cwd dev) (sp_cwd p)
         \<and> (mode = ''read-only'' \<longrightarrow> optionValues [''--add-dir''] (plan_args p) = [])
         \<and> (\<forall>a \<in> set (optionValues [''--add-dir''] (plan_args p)). dv_exists dev (resolve (dv_cwd dev) a)
              \<and> contains (js_lower (resolve (dv_cwd dev) a)) ''/.git/worktrees/''))"
  using assms(1,2)
proof (rule gate_allowed)
  fix ck
  assume ck: "g_commandKind g = Some ck" "full_access \<in> set (plan_args p) \<longrightarrow> perm = Some ''approved''"
    "ck = ''codex'' \<longrightarrow> codexWorkspaceArgumentGate dev p perm = None"
    and roots: "collectApprovedRoots (dv_cwd dev) work = []
      \<or> list_ex (\<lambda>root. pathWithin (dv_cwd dev) root (sp_cwd p)) (collectApprovedRoots (dv_cwd dev) work)"
  have none: "full_access \<notin> set (plan_args p)" and open_gate: "codexWorkspaceArgumentGate dev p perm = None"
    using ck assms(3,4) by auto
  show ?thesis
  proof (cases "after_exec (plan_args p) = Some ''resume''")
    case True
    with open_gate none show ?thesis using roots by (auto simp: codexWorkspaceArgumentGate_def Let_def split: if_splits)
  next
    case False
    with codex_gate_open [OF open_gate none] none roots show ?thesis by (simp only: if_False simp_thms)
  qed
qed

definition demo_task :: jval where
  "demo_task = VObj [(''options'', VObj [(''metadata'', VObj [(''worktreePath'', VStr ''/w/t'')])])]"

definition demo_codex :: jval where
  "demo_codex = VObj [(''type'', VStr ''cli''), (''command'', VStr ''codex'')]"

definition codex_plan :: spawn_plan where
  "codex_plan = \<lparr>sp_command = ''codex'', sp_args = Some [''exec'', ''--sandbox'', ''workspace-write'', ''--cd'', ''/w/t'',
       ''--add-dir'', ''/r/.git/worktrees/t'', ''fix it''],
     sp_cwd = ''/w/t'', sp_localPolicy = None, sp_codexAdditionalWritableRoots = [''/r/.git/worktrees/t'']\<rparr>"

lemma codex_gate: "localExecutionGate demo_host demo_manifest demo_task demo_codex codex_plan None
  = Inr \<lparr>g_allowed = True, g_reason = ''Local execution gate allowed the governed command.'', g_code = None,
         g_commandKind = Some ''codex'', g_refusalCode = None\<rparr>"
  by code_simp

theorem codex_sandboxed_witness:
  "full_access \<notin> set (plan_args codex_plan) \<and> optionValues [''--sandbox'', ''-s''] (plan_args codex_plan) = [''workspace-write'']"
proof -
  have f: "after_exec (plan_args codex_plan) \<noteq> Some ''resume''"
    "optionValues [''--sandbox'', ''-s''] (plan_args codex_plan) = [''workspace-write'']" by code_simp+
  show ?thesis
    using codex_sandboxed [OF codex_gate] f(2) by simp
qed

section \<open>Inherited names\<close>

lemma plain_capability:
  assumes "list_all (\<lambda>c. is_lower c \<or> dec_digit c \<or> c = CHR ''_'') n" and "n \<noteq> []"
  shows "command_name prefix (prefix @ n) = Some n"
  using assms by (simp add: command_name_def Let_def)

lemma object_get_miss:
  "n \<notin> set (map fst table) \<Longrightarrow>
    object_get table n = (if n = ''constructor'' \<or> n = ''__proto__'' then Inherited n else Missing)"
  using map_of_eq_None_iff [of table n] by (simp add: object_get_def)

lemma office_miss:
  "n \<notin> set (map fst table) \<Longrightarrow> officecliArgvMatches (Some (object_get table n)) args
    = (if n = ''constructor'' \<or> n = ''__proto__'' then Inl ''TypeError'' else Inr False)"
  by (simp add: object_get_miss officecliArgvMatches_def)

definition argv_tables :: "(string \<times> string list) list" where
  "argv_tables = [(''app.app_git.wrapper.'', map fst GIT_WRAPPER_ARGS),
     (''app.app_officecli.wrapper.'', map fst OFFICECLI_WRAPPER_ARGS), (''app.app_pdfcpu.wrapper.'', map fst PDFCPU_WRAPPER_ARGS),
     (''app.app_officecli.apply.'', map fst OFFICECLI_APPLY_WRAPPER_ARGS),
     (''app.app_excalidraw_cli.apply.'', map fst EXCALIDRAW_CLI_APPLY_WRAPPER_ARGS)]"

lemma unlisted_command:
  assumes "list_all (\<lambda>c. is_lower c \<or> dec_digit c \<or> c = CHR ''_'') n" and "n \<noteq> []"
    and "(prefix, names) \<in> set argv_tables" and "n \<notin> set names"
  shows "wrapperArgsAllowed (prefix @ n) args
    = (if n = ''constructor'' \<or> n = ''__proto__'' then Inl ''TypeError'' else Inr False)"
proof -
  have "(prefix = ''app.app_git.wrapper.'' \<and> names = map fst GIT_WRAPPER_ARGS)
      \<or> (prefix = ''app.app_officecli.wrapper.'' \<and> names = map fst OFFICECLI_WRAPPER_ARGS)
      \<or> (prefix = ''app.app_pdfcpu.wrapper.'' \<and> names = map fst PDFCPU_WRAPPER_ARGS)
      \<or> (prefix = ''app.app_officecli.apply.'' \<and> names = map fst OFFICECLI_APPLY_WRAPPER_ARGS)
      \<or> (prefix = ''app.app_excalidraw_cli.apply.'' \<and> names = map fst EXCALIDRAW_CLI_APPLY_WRAPPER_ARGS)"
    using assms(3) unfolding argv_tables_def by (simp only: list.set insert_iff empty_iff prod.inject simp_thms)
  then show ?thesis
  proof (elim disjE conjE)
    assume p: "prefix = ''app.app_git.wrapper.''" "names = map fst GIT_WRAPPER_ARGS"
    show ?thesis unfolding p(1) dispatch gitArgsAllowed_def plain_capability [OF assms(1,2)] option.map
      using object_get_miss [of n GIT_WRAPPER_ARGS] assms(4) p(2) by simp
  next
    assume p: "prefix = ''app.app_officecli.wrapper.''" "names = map fst OFFICECLI_WRAPPER_ARGS"
    show ?thesis unfolding p(1) dispatch officecliArgsAllowed_def plain_capability [OF assms(1,2)] option.map
      using office_miss [of n OFFICECLI_WRAPPER_ARGS] assms(4) p(2) by blast
  next
    assume p: "prefix = ''app.app_pdfcpu.wrapper.''" "names = map fst PDFCPU_WRAPPER_ARGS"
    show ?thesis unfolding p(1) dispatch pdfcpuArgsAllowed_def plain_capability [OF assms(1,2)] option.map
      using office_miss [of n PDFCPU_WRAPPER_ARGS] assms(4) p(2) by blast
  next
    assume p: "prefix = ''app.app_officecli.apply.''" "names = map fst OFFICECLI_APPLY_WRAPPER_ARGS"
    show ?thesis unfolding p(1) dispatch officecliApplyArgsAllowed_def plain_capability [OF assms(1,2)] option.map
      using office_miss [of n OFFICECLI_APPLY_WRAPPER_ARGS] assms(4) p(2) by blast
  next
    assume p: "prefix = ''app.app_excalidraw_cli.apply.''" "names = map fst EXCALIDRAW_CLI_APPLY_WRAPPER_ARGS"
    show ?thesis unfolding p(1) dispatch excalidrawCliApplyArgsAllowed_def plain_capability [OF assms(1,2)] option.map
      using office_miss [of n EXCALIDRAW_CLI_APPLY_WRAPPER_ARGS] assms(4) p(2) by blast
  qed
qed


text \<open>The gate has come to the last check of an application wrapper: everything else about the plan is in order, and it names
  the capability \<open>cap\<close>.\<close>

definition at_argv_check :: "device \<Rightarrow> manifest \<Rightarrow> jval \<Rightarrow> jval \<Rightarrow> spawn_plan \<Rightarrow> string option \<Rightarrow> string \<Rightarrow> bool" where
  "at_argv_check dev mf work adapter p perm cap \<longleftrightarrow>
     (let lp = plan_policy work adapter p; roots = collectApprovedRoots (dv_cwd dev) work;
          parsed = parseApplicationWrapperArgs (plan_args p); cwd = coalesce (wa_cwd parsed) [];
          within = (\<lambda>d. roots = [] \<or> list_ex (\<lambda>root. pathWithin (dv_cwd dev) root d) roots)
      in vget adapter ''type'' = VStr ''cli'' \<and> sp_command p \<noteq> [] \<and> sp_args p \<noteq> None
       \<and> sp_cwd p \<noteq> [] \<and> isAbsolute (sp_cwd p) \<and> dv_exists dev (sp_cwd p) \<and> within (sp_cwd p)
       \<and> \<not> list_ex (\<lambda>arg. CHR 0x00 \<in> set arg) (plan_args p)
       \<and> lp_filePolicy lp \<in> set FILE_POLICIES \<and> lp_networkPolicy lp \<in> set NETWORK_POLICIES \<and> full_access \<notin> set (plan_args p)
       \<and> (case classifySpawn dev mf adapter p of
            None \<Rightarrow> False
          | Some ck \<Rightarrow> ck \<noteq> ''codex'' \<and> policyAllowed mf ck lp
              \<and> (ck = ''officecliApply'' \<or> ck = ''excalidrawCliApply'' \<longrightarrow>
                   (case vstr (work_worktree work) of
                      None \<Rightarrow> False | Some root \<Rightarrow> js_trim root \<noteq> [] \<and> pathWithin (dv_cwd dev) root (write_cwd p))))
       \<and> isApplicationWrapperSpawn mf p \<and> wa_ok parsed \<and> wa_capability parsed = Some cap
       \<and> (case applicationWrapperSpec work of
            None \<Rightarrow> False
          | Some spec \<Rightarrow> coalesce (wa_execCommand parsed) [] = js_trim (vtext (vget spec ''execCommand''))
              \<and> wa_execArgs parsed = string_items (vget spec ''execArgs'') \<and> cap = js_trim (vtext (vget spec ''capability''))
              \<and> vget spec ''filePolicy'' = VStr (lp_filePolicy lp) \<and> vget spec ''networkPolicy'' = VStr (lp_networkPolicy lp)
              \<and> \<not> (normalizeCwdPolicy (vget spec ''cwdPolicy'') = ''invocation_root'' \<and> cwd = []))
       \<and> (case List.find (\<lambda>e. coalesce (wa_execCommand parsed) [] = we_command e \<and> starts_with cap (we_capabilityPrefix e))
               (mf_applicationWrapperCommands mf) of
            None \<Rightarrow> False
          | Some allow \<Rightarrow> lp_filePolicy lp = we_filePolicy allow \<and> lp_networkPolicy lp = we_networkPolicy allow)
       \<and> (cwd \<noteq> [] \<longrightarrow> isAbsolute cwd \<and> dv_exists dev cwd \<and> within cwd))"

lemma argv_check_decides:
  assumes "at_argv_check dev mf work adapter p perm cap"
    and "wrapperArgsAllowed cap (wa_execArgs (parseApplicationWrapperArgs (plan_args p))) = r"
  shows "case r of
      Inl e \<Rightarrow> localExecutionGate dev mf work adapter p perm = Inl e
    | Inr ok \<Rightarrow> \<not> ok \<longrightarrow> (\<exists>g. localExecutionGate dev mf work adapter p perm = Inr g \<and> \<not> g_allowed g \<and> g_code g = Some ''policy_blocked'')"
proof -
  obtain ck where ck: "classifySpawn dev mf adapter p = Some ck"
    using assms(1) unfolding at_argv_check_def Let_def by (cases "classifySpawn dev mf adapter p") auto
  obtain spec where spec: "applicationWrapperSpec work = Some spec"
    using assms(1) unfolding at_argv_check_def Let_def by (cases "applicationWrapperSpec work") auto
  obtain e where e: "List.find (\<lambda>e. coalesce (wa_execCommand (parseApplicationWrapperArgs (plan_args p))) [] = we_command e
      \<and> starts_with cap (we_capabilityPrefix e)) (mf_applicationWrapperCommands mf) = Some e"
    using assms(1) unfolding at_argv_check_def Let_def
    by (cases "List.find (\<lambda>e. coalesce (wa_execCommand (parseApplicationWrapperArgs (plan_args p))) [] = we_command e
      \<and> starts_with cap (we_capabilityPrefix e)) (mf_applicationWrapperCommands mf)") auto
  let ?parsed = "parseApplicationWrapperArgs (plan_args p)" and ?lp = "plan_policy work adapter p"
  let ?roots = "collectApprovedRoots (dv_cwd dev) work" and ?cwd = "coalesce (wa_cwd (parseApplicationWrapperArgs (plan_args p))) []"
  note all = assms(1) [unfolded at_argv_check_def Let_def ck spec e option.case]
  have cap: "coalesce (wa_capability ?parsed) [] = cap" using all by simp
  have w: "\<not> \<not> wa_ok ?parsed" "\<not> coalesce (wa_execCommand ?parsed) [] \<noteq> js_trim (vtext (vget spec ''execCommand''))"
    "\<not> wa_execArgs ?parsed \<noteq> string_items (vget spec ''execArgs'')" "\<not> cap \<noteq> js_trim (vtext (vget spec ''capability''))"
    "\<not> (vget spec ''filePolicy'' \<noteq> VStr (lp_filePolicy ?lp) \<or> vget spec ''networkPolicy'' \<noteq> VStr (lp_networkPolicy ?lp))"
    "\<not> (lp_filePolicy ?lp \<noteq> we_filePolicy e \<or> lp_networkPolicy ?lp \<noteq> we_networkPolicy e)"
    "\<not> (normalizeCwdPolicy (vget spec ''cwdPolicy'') = ''invocation_root'' \<and> ?cwd = [])"
    "\<not> (?cwd \<noteq> [] \<and> (\<not> isAbsolute ?cwd \<or> \<not> dv_exists dev ?cwd))"
    "\<not> (?cwd \<noteq> [] \<and> ?roots \<noteq> [] \<and> \<not> list_ex (\<lambda>root. pathWithin (dv_cwd dev) root ?cwd) ?roots)"
    using all by blast+
  have gate: "\<not> vget adapter ''type'' \<noteq> VStr ''cli''" "\<not> (sp_command p = [] \<or> sp_args p = None)"
    "\<not> (sp_cwd p = [] \<or> \<not> isAbsolute (sp_cwd p) \<or> \<not> dv_exists dev (sp_cwd p))"
    "\<not> (?roots \<noteq> [] \<and> \<not> list_ex (\<lambda>root. pathWithin (dv_cwd dev) root (sp_cwd p)) ?roots)"
    "\<not> list_ex (\<lambda>arg. CHR 0x00 \<in> set arg) (plan_args p)"
    "\<not> (lp_filePolicy ?lp \<notin> set FILE_POLICIES \<or> lp_networkPolicy ?lp \<notin> set NETWORK_POLICIES)"
    "\<not> (full_access \<in> set (plan_args p) \<and> perm \<noteq> Some ''approved'')" "ck \<noteq> ''codex''" "\<not> \<not> policyAllowed mf ck ?lp"
    using all by blast+
  have root: "\<not> ((ck = ''officecliApply'' \<or> ck = ''excalidrawCliApply'')
      \<and> (case vstr (work_worktree work) of None \<Rightarrow> True | Some root \<Rightarrow> js_trim root = [] \<or> \<not> pathWithin (dv_cwd dev) root (write_cwd p)))"
    using all by (cases "vstr (work_worktree work)") auto
  have spawn: "isApplicationWrapperSpawn mf p" using all by blast
  have wrap: "applicationWrapperGate dev work p ?lp ?roots mf
      = (case r of Inl x \<Rightarrow> Inl x | Inr ok \<Rightarrow>
           if \<not> ok then Inr (wg_refuse ''Local execution gate refused application wrapper args outside the local allowlist.'' ''policy_blocked'' None)
           else if \<not> dv_binary dev (coalesce (wa_execCommand ?parsed) [])
           then Inr (wg_refuse (''Local execution gate refused an application wrapper command whose binary '' @ dquote # coalesce (wa_execCommand ?parsed) []
                  @ dquote # '' is not available on this device.'') ''runtime_error'' (Some ''binary_unavailable''))
           else Inr wg_ok)"
    unfolding applicationWrapperGate_def Let_def spec option.case cap e assms(2)
      if_not_P [OF w(1)] if_not_P [OF w(2)] if_not_P [OF w(3)] if_not_P [OF w(4)] if_not_P [OF w(5)] if_not_P [OF w(6)]
      if_not_P [OF w(7)] if_not_P [OF w(8)] if_not_P [OF w(9)] by (rule refl)
  note out = localExecutionGate_def [of dev mf work adapter p perm, unfolded Let_def,
      folded plan_policy_def work_worktree_def write_cwd_def, unfolded ck option.case
      if_not_P [OF gate(1)] if_not_P [OF gate(2)] if_not_P [OF gate(3)] if_not_P [OF gate(4)] if_not_P [OF gate(5)] if_not_P [OF gate(6)]
      if_not_P [OF gate(7)] if_not_P [OF gate(8)] option.case if_not_P [OF gate(9)] if_not_P [OF root] if_P [OF spawn] wrap]
  show ?thesis
  proof (cases r)
    case (Inl x)
    then show ?thesis using out by simp
  next
    case (Inr ok)
    then show ?thesis using out by (simp add: wg_refuse_def)
  qed
qed

text \<open>C25: An unlisted command is refused, but for two names the gate throws.  Let the gate have found everything else in
  order about an application wrapper whose capability is that of git or of the office programs, with a name that is
  not in the table of the listed commands.  The names are looked up in object literals: the gate answers with a
  refusal, except for the inherited names constructor and __proto__, for which the lookup finds something without a
  base and the whole gate ends in a TypeError instead of an answer.\<close>

theorem inherited_name_throws:
  assumes "at_argv_check dev mf work adapter p perm (prefix @ n)"
    and "list_all (\<lambda>c. is_lower c \<or> dec_digit c \<or> c = CHR ''_'') n" and "n \<noteq> []"
    and "(prefix, names) \<in> set argv_tables" and "n \<notin> set names"
  shows "if n = ''constructor'' \<or> n = ''__proto__''
    then localExecutionGate dev mf work adapter p perm = Inl ''TypeError''
    else \<exists>g. localExecutionGate dev mf work adapter p perm = Inr g \<and> \<not> g_allowed g \<and> g_code g = Some ''policy_blocked''"
  using argv_check_decides [OF assms(1) unlisted_command [OF assms(2-5)]] by (simp split: if_splits)

text \<open>A work item whose metadata asks git for a command by an inherited name.\<close>

definition demo_inherited :: jval where
  "demo_inherited = VObj [(''options'', VObj [(''metadata'', VObj [(''worktreePath'', VStr ''/w/t''),
     (''applicationWrapper'', VObj [(''execCommand'', VStr ''git''), (''capability'', VStr ''app.app_git.wrapper.constructor''),
        (''execArgs'', VArr [VStr ''status'']), (''cwdPolicy'', VStr ''invocation_root''),
        (''filePolicy'', VStr ''read_only''), (''networkPolicy'', VStr ''forbidden'')])])])]"

definition inherited_plan :: spawn_plan where
  "inherited_plan = \<lparr>sp_command = ''node'', sp_args = Some (applicationWrapperArgs demo_host [''/b/tools/agents/application-wrapper.mjs''] demo_inherited),
     sp_cwd = ''/w/t'', sp_localPolicy = None, sp_codexAdditionalWritableRoots = []\<rparr>"

lemma demo_at_check: "at_argv_check demo_host demo_manifest demo_inherited demo_adapter inherited_plan None (''app.app_git.wrapper.'' @ ''constructor'')"
  by code_simp

theorem inherited_name_throws_witness:
  "localExecutionGate demo_host demo_manifest demo_inherited demo_adapter inherited_plan None = Inl ''TypeError''"
proof -
  have n: "list_all (\<lambda>c. is_lower c \<or> dec_digit c \<or> c = CHR ''_'') ''constructor''"
    "''constructor'' \<notin> set (map fst GIT_WRAPPER_ARGS)" by code_simp+
  have t: "(''app.app_git.wrapper.'', map fst GIT_WRAPPER_ARGS) \<in> set argv_tables" by (simp add: argv_tables_def)
  show ?thesis
    using inherited_name_throws [OF demo_at_check n(1) _ t n(2)] by simp
qed

end
