(* ===== verification/Identity.thy ===== *)
theory Identity
  imports ArgvText FirstMatch
begin

text \<open>
  services/identity-security.mjs and runtime/auth.mjs: browser sessions, the challenges of an enterprise login
  and the actor a request acts as.  \<open>digest\<close> is SHA-256 of node:crypto; the secrets and ids its random
  generator draws are arguments of the operations that draw them.  A cookie is the decoded value the request
  carries, an authorization header a line without line breaks.
\<close>

section \<open>State\<close>

record identity_user =
  iu_id :: string
  iu_teamId :: "string option"
  iu_role :: "string option"
  iu_sessionEpoch :: "int option"
  iu_passwordHash :: "string option"
  iu_credentialUpdatedAt :: "instant option"

record session =
  se_id :: string
  se_tokenHash :: string
  se_csrfHash :: string
  se_userId :: string
  se_teamId :: "string option"
  se_mode :: string
  se_sessionEpoch :: int
  se_createdAt :: instant
  se_lastSeenAt :: instant
  se_idleExpiresAt :: instant
  se_absoluteExpiresAt :: instant
  se_revokedAt :: "instant option"
  se_childLearner :: "string option"

record bearer_token =
  bt_token :: string
  bt_userId :: string
  bt_expiresAt :: instant
  bt_revokedAt :: "instant option"

datatype challenge_state = Pending | Authorized | Consumed | Expired | Cancelled | Rejected

record challenge =
  ch_id :: string
  ch_provider :: string
  ch_state :: challenge_state
  ch_bindingHash :: string
  ch_deviceHash :: "string option"
  ch_authorizationUriHash :: string
  ch_createdAt :: instant
  ch_expiresAt :: instant
  ch_authorizedAt :: "instant option"
  ch_consumedAt :: "instant option"
  ch_providerSubjectHash :: "string option"
  ch_failureCode :: "string option"

record identity_event =
  ie_id :: string
  ie_type :: string
  ie_outcome :: string
  ie_data :: "(string \<times> json) list"
  ie_at :: instant

record identity_state =
  id_users :: "identity_user list"
  id_sessions :: "session list"
  id_tokens :: "bearer_token list"
  id_challenges :: "challenge list"
  id_audit :: "identity_event list"

section \<open>Sessions\<close>

definition SESSION_IDLE_MS :: int where "SESSION_IDLE_MS = 30 * 60 * 1000"
definition SESSION_ABSOLUTE_MS :: int where "SESSION_ABSOLUTE_MS = 12 * 60 * 60 * 1000"
definition CHALLENGE_TTL_MS :: int where "CHALLENGE_TTL_MS = 2 * 60 * 1000"

abbreviation epoch_of :: "identity_user \<Rightarrow> int" where
  "epoch_of u \<equiv> coalesce (iu_sessionEpoch u) 0"

definition find_user :: "'a identity_state_scheme \<Rightarrow> string \<Rightarrow> identity_user option" where
  "find_user st i = List.find (\<lambda>u. iu_id u = i) (id_users st)"

definition auditIdentity :: "identity_event \<Rightarrow> 'a identity_state_scheme \<Rightarrow> 'a identity_state_scheme" where
  "auditIdentity e st = st\<lparr>id_audit := take 500 (e # id_audit st)\<rparr>"

text \<open>The random draws of one operation: the session secret, the CSRF secret, the id of the new record and the id of
  the audit event.\<close>

record draws =
  dr_secret :: string
  dr_csrf :: string
  dr_id :: string
  dr_audit :: string

definition new_session :: "(string \<Rightarrow> string) \<Rightarrow> draws \<Rightarrow> identity_user \<Rightarrow> instant \<Rightarrow> string \<Rightarrow> session" where
  "new_session digest d user t mode =
     \<lparr>se_id = dr_id d, se_tokenHash = digest (dr_secret d), se_csrfHash = digest (dr_csrf d),
      se_userId = iu_id user, se_teamId = iu_teamId user, se_mode = mode, se_sessionEpoch = epoch_of user,
      se_createdAt = t, se_lastSeenAt = t, se_idleExpiresAt = t + SESSION_IDLE_MS,
      se_absoluteExpiresAt = t + SESSION_ABSOLUTE_MS, se_revokedAt = None, se_childLearner = None\<rparr>"

definition createServerSession ::
    "(string \<Rightarrow> string) \<Rightarrow> draws \<Rightarrow> identity_user \<Rightarrow> instant \<Rightarrow> string \<Rightarrow> 'a identity_state_scheme
     \<Rightarrow> session \<times> 'a identity_state_scheme" where
  "createServerSession digest d user t mode st =
     (let s = new_session digest d user t mode
      in (s, auditIdentity
               \<lparr>ie_id = dr_audit d, ie_type = ''identity.session.created'', ie_outcome = ''created'',
                ie_data = [(''sessionId'', JStr (se_id s)), (''userId'', JStr (se_userId s)), (''teamId'', jstr (se_teamId s))],
                ie_at = se_createdAt s\<rparr>
               (st\<lparr>id_sessions := take 200 (s # id_sessions st)\<rparr>)))"

text \<open>A request keeps a session alive, at most once a minute and never beyond its absolute end.\<close>

definition touch :: "instant \<Rightarrow> session \<Rightarrow> session" where
  "touch t s = s\<lparr>se_lastSeenAt := t, se_idleExpiresAt := min (t + SESSION_IDLE_MS) (se_absoluteExpiresAt s)\<rparr>"

definition resolveServerSession ::
    "(string \<Rightarrow> string) \<Rightarrow> string option \<Rightarrow> instant \<Rightarrow> 'a identity_state_scheme
     \<Rightarrow> (session \<times> identity_user \<times> bool) option \<times> 'a identity_state_scheme" where
  "resolveServerSession digest cookie t st =
     (let secret = coalesce cookie []; mine = (\<lambda>s. se_tokenHash s = digest secret)
      in if secret = [] then (None, st)
         else (case List.find mine (id_sessions st) of
                 None \<Rightarrow> (None, st)
               | Some s \<Rightarrow>
                   if se_revokedAt s \<noteq> None then (None, st)
                   else if se_idleExpiresAt s \<le> t \<or> se_absoluteExpiresAt s \<le> t then (None, st)
                   else (case find_user st (se_userId s) of
                           None \<Rightarrow> (None, st)
                         | Some user \<Rightarrow>
                             if iu_teamId user \<noteq> se_teamId s \<or> epoch_of user \<noteq> se_sessionEpoch s then (None, st)
                             else if 60000 \<le> t - se_lastSeenAt s
                             then (Some (touch t s, user, True), st\<lparr>id_sessions := upd_first mine (touch t) (id_sessions st)\<rparr>)
                             else (Some (s, user, False), st))))"

definition revokeServerSession :: "draws \<Rightarrow> string \<Rightarrow> instant \<Rightarrow> 'a identity_state_scheme \<Rightarrow> bool \<times> 'a identity_state_scheme" where
  "revokeServerSession d sessionId t st =
     (case List.find (\<lambda>s. se_id s = sessionId) (id_sessions st) of
        None \<Rightarrow> (False, st)
      | Some s \<Rightarrow>
          if se_revokedAt s \<noteq> None then (False, st)
          else (True, auditIdentity
                  \<lparr>ie_id = dr_audit d, ie_type = ''identity.session.revoked'', ie_outcome = ''current_device'',
                   ie_data = [(''sessionId'', JStr (se_id s)), (''userId'', JStr (se_userId s)), (''teamId'', jstr (se_teamId s))],
                   ie_at = t\<rparr>
                  (st\<lparr>id_sessions := upd_first (\<lambda>s. se_id s = sessionId) (\<lambda>s. s\<lparr>se_revokedAt := Some t\<rparr>) (id_sessions st)\<rparr>)))"

definition live_of :: "string \<Rightarrow> session \<Rightarrow> bool" where
  "live_of userId s \<longleftrightarrow> se_userId s = userId \<and> se_revokedAt s = None"

definition revokeAllUserSessions :: "draws \<Rightarrow> string \<Rightarrow> instant \<Rightarrow> 'a identity_state_scheme \<Rightarrow> nat \<times> 'a identity_state_scheme" where
  "revokeAllUserSessions d userId t st =
     (case find_user st userId of
        None \<Rightarrow> (0, st)
      | Some user \<Rightarrow>
          (let revoked = length (filter (live_of userId) (id_sessions st))
           in (revoked, auditIdentity
                  \<lparr>ie_id = dr_audit d, ie_type = ''identity.session.revoked'', ie_outcome = ''all_devices'',
                   ie_data = [(''userId'', JStr userId), (''revokedCount'', JNum (int revoked))], ie_at = t\<rparr>
                  (st\<lparr>id_users := upd_first (\<lambda>u. iu_id u = userId) (\<lambda>u. u\<lparr>iu_sessionEpoch := Some (epoch_of u + 1)\<rparr>) (id_users st),
                      id_sessions := upd_where (live_of userId) (\<lambda>s. s\<lparr>se_revokedAt := Some t\<rparr>) (id_sessions st)\<rparr>))))"

text \<open>Both hashes are hexadecimal texts of the digest, so their bytes are equal exactly when the texts are.\<close>

definition validSessionCsrf :: "(string \<Rightarrow> string) \<Rightarrow> string option \<Rightarrow> string option \<Rightarrow> bool" where
  "validSessionCsrf digest header csrfHash \<longleftrightarrow>
     coalesce header [] \<noteq> [] \<and> coalesce csrfHash [] \<noteq> [] \<and> digest (coalesce header []) = coalesce csrfHash []"

section \<open>Challenges\<close>

definition find_challenge :: "'a identity_state_scheme \<Rightarrow> string \<Rightarrow> challenge option" where
  "find_challenge st i = List.find (\<lambda>c. ch_id c = i) (id_challenges st)"

definition set_challenge :: "string \<Rightarrow> (challenge \<Rightarrow> challenge) \<Rightarrow> 'a identity_state_scheme \<Rightarrow> 'a identity_state_scheme" where
  "set_challenge i f st = st\<lparr>id_challenges := upd_first (\<lambda>c. ch_id c = i) f (id_challenges st)\<rparr>"

definition challenge_event :: "draws \<Rightarrow> string \<Rightarrow> string \<Rightarrow> challenge \<Rightarrow> instant \<Rightarrow> identity_event" where
  "challenge_event d type' outcome c t =
     \<lparr>ie_id = dr_audit d, ie_type = type', ie_outcome = outcome,
      ie_data = [(''challengeId'', JStr (ch_id c)), (''provider'', JStr (ch_provider c))], ie_at = t\<rparr>"

definition new_challenge ::
    "(string \<Rightarrow> string) \<Rightarrow> draws \<Rightarrow> string \<Rightarrow> string \<Rightarrow> string \<Rightarrow> string option \<Rightarrow> instant \<Rightarrow> challenge" where
  "new_challenge digest d provider bindingSecret authorizationUri deviceContext t =
     \<lparr>ch_id = dr_id d, ch_provider = provider, ch_state = Pending, ch_bindingHash = digest bindingSecret,
      ch_deviceHash = (if coalesce deviceContext [] = [] then None else map_option digest deviceContext),
      ch_authorizationUriHash = digest authorizationUri, ch_createdAt = t, ch_expiresAt = t + CHALLENGE_TTL_MS,
      ch_authorizedAt = None, ch_consumedAt = None, ch_providerSubjectHash = None, ch_failureCode = None\<rparr>"

definition createIdentityChallenge ::
    "(string \<Rightarrow> string) \<Rightarrow> draws \<Rightarrow> string \<Rightarrow> string \<Rightarrow> string \<Rightarrow> string option \<Rightarrow> instant \<Rightarrow> 'a identity_state_scheme
     \<Rightarrow> challenge \<times> 'a identity_state_scheme" where
  "createIdentityChallenge digest d provider bindingSecret authorizationUri deviceContext t st =
     (let c = new_challenge digest d provider bindingSecret authorizationUri deviceContext t
      in (c, auditIdentity (challenge_event d ''identity.challenge.created'' ''pending'' c t)
               (st\<lparr>id_challenges := take 500 (c # id_challenges st)\<rparr>)))"

definition expire_now :: "draws \<Rightarrow> challenge \<Rightarrow> instant \<Rightarrow> 'a identity_state_scheme \<Rightarrow> 'a identity_state_scheme" where
  "expire_now d c t st =
     auditIdentity (challenge_event d ''identity.challenge.expired'' ''expired'' c t)
       (set_challenge (ch_id c) (\<lambda>c. c\<lparr>ch_state := Expired\<rparr>) st)"

text \<open>The answer is an error or the challenge.\<close>

definition authorizeIdentityChallenge ::
    "(string \<Rightarrow> string) \<Rightarrow> draws \<Rightarrow> string \<Rightarrow> string \<Rightarrow> string \<Rightarrow> instant \<Rightarrow> 'a identity_state_scheme
     \<Rightarrow> (string + challenge) \<times> 'a identity_state_scheme" where
  "authorizeIdentityChallenge digest d i bindingSecret providerSubject t st =
     (case find_challenge st i of
        None \<Rightarrow> (Inl ''challenge_not_found'', st)
      | Some c \<Rightarrow>
          if ch_state c \<noteq> Pending then (Inl ''challenge_not_pending'', st)
          else if ch_expiresAt c \<le> t then (Inl ''challenge_expired'', expire_now d c t st)
          else if ch_bindingHash c \<noteq> digest bindingSecret then
            (Inl ''challenge_binding_mismatch'',
             auditIdentity (challenge_event d ''identity.provider.rejected'' ''binding_mismatch'' c t) st)
          else
            (let f = (\<lambda>c. c\<lparr>ch_state := Authorized, ch_providerSubjectHash := Some (digest providerSubject), ch_authorizedAt := Some t\<rparr>)
             in (Inr (f c), set_challenge i f st)))"

definition consumeIdentityChallenge ::
    "(string \<Rightarrow> string) \<Rightarrow> draws \<Rightarrow> string \<Rightarrow> string \<Rightarrow> instant \<Rightarrow> 'a identity_state_scheme
     \<Rightarrow> (string + challenge) \<times> 'a identity_state_scheme" where
  "consumeIdentityChallenge digest d i bindingSecret t st =
     (case find_challenge st i of
        None \<Rightarrow> (Inl ''challenge_not_found'', st)
      | Some c \<Rightarrow>
          if ch_bindingHash c \<noteq> digest bindingSecret then (Inl ''challenge_binding_mismatch'', st)
          else if ch_state c = Consumed then
            (Inl ''challenge_replayed'', auditIdentity (challenge_event d ''identity.challenge.replayed'' ''rejected'' c t) st)
          else if ch_state c \<noteq> Authorized then (Inl ''challenge_not_authorized'', st)
          else if ch_expiresAt c \<le> t then (Inl ''challenge_expired'', set_challenge i (\<lambda>c. c\<lparr>ch_state := Expired\<rparr>) st)
          else
            (let f = (\<lambda>c. c\<lparr>ch_state := Consumed, ch_consumedAt := Some t\<rparr>)
             in (Inr (f c), auditIdentity (challenge_event d ''identity.challenge.consumed'' ''consumed'' c t) (set_challenge i f st))))"

definition open_challenge :: "challenge \<Rightarrow> bool" where
  "open_challenge c \<longleftrightarrow> ch_state c = Pending \<or> ch_state c = Authorized"

definition expireIdentityChallenge :: "draws \<Rightarrow> string \<Rightarrow> instant \<Rightarrow> 'a identity_state_scheme \<Rightarrow> bool \<times> 'a identity_state_scheme" where
  "expireIdentityChallenge d i t st =
     (case find_challenge st i of
        None \<Rightarrow> (False, st)
      | Some c \<Rightarrow> if \<not> open_challenge c \<or> t < ch_expiresAt c then (False, st) else (True, expire_now d c t st))"

definition cancelIdentityChallenge ::
    "(string \<Rightarrow> string) \<Rightarrow> draws \<Rightarrow> string \<Rightarrow> string \<Rightarrow> instant \<Rightarrow> 'a identity_state_scheme
     \<Rightarrow> (string + challenge) \<times> 'a identity_state_scheme" where
  "cancelIdentityChallenge digest d i bindingSecret t st =
     (case find_challenge st i of
        None \<Rightarrow> (Inl ''challenge_not_found'', st)
      | Some c \<Rightarrow>
          if ch_bindingHash c \<noteq> digest bindingSecret then (Inl ''challenge_not_found'', st)
          else if \<not> open_challenge c then (Inl ''challenge_terminal'', st)
          else (Inr (c\<lparr>ch_state := Cancelled\<rparr>),
                auditIdentity (challenge_event d ''identity.challenge.cancelled'' ''cancelled'' c t)
                  (set_challenge i (\<lambda>c. c\<lparr>ch_state := Cancelled\<rparr>) st)))"

definition rejectIdentityChallenge ::
    "draws \<Rightarrow> string \<Rightarrow> string \<Rightarrow> instant \<Rightarrow> 'a identity_state_scheme \<Rightarrow> (string + challenge) \<times> 'a identity_state_scheme" where
  "rejectIdentityChallenge d i reasonCode t st =
     (case find_challenge st i of
        None \<Rightarrow> (Inl ''challenge_terminal'', st)
      | Some c \<Rightarrow>
          if \<not> open_challenge c then (Inl ''challenge_terminal'', st)
          else
            (let f = (\<lambda>c. c\<lparr>ch_state := Rejected, ch_failureCode := Some (take 80 reasonCode)\<rparr>)
             in (Inr (f c),
                 auditIdentity \<lparr>ie_id = dr_audit d, ie_type = ''identity.provider.rejected'', ie_outcome = ''rejected'',
                     ie_data = [(''challengeId'', JStr (ch_id c)), (''provider'', JStr (ch_provider c)), (''reasonCode'', JStr (take 80 reasonCode))],
                     ie_at = t\<rparr>
                   (set_challenge i f st))))"

section \<open>The policy and the actor of a request\<close>

record identity_policy =
  ap_requireAuth :: bool
  ap_localMode :: bool
  ap_passwordMode :: bool
  ap_legacyLocalLogin :: bool
  ap_legacyBearerIssue :: bool
  ap_legacyBearerRead :: bool
  ap_secureCookies :: bool
  ap_configuredProviders :: "string list"

definition js_upper :: "string \<Rightarrow> string" where
  "js_upper = map (\<lambda>c. if is_lower c then char_of ((of_char c :: nat) - 32) else c)"

definition enterpriseIdentityProviders :: "string list" where
  "enterpriseIdentityProviders = [''wecom'', ''feishu'', ''dingtalk'']"

text \<open>The order of \<open>Set\<close> is that of first insertion.\<close>

definition identityPolicyFromEnv :: "(string \<Rightarrow> string option) \<Rightarrow> identity_policy" where
  "identityPolicyFromEnv env =
     (let is1 = (\<lambda>k. env k = Some ''1''); not0 = (\<lambda>k. env k \<noteq> Some ''0'');
          requireAuth = is1 ''MYAGENT_REQUIRE_AUTH'';
          issue = is1 ''MYAGENT_LEGACY_BEARER_AUTH'';
          configured = filter (\<lambda>p. not0 (''MYAGENT_IDENTITY_'' @ js_upper p @ ''_ENABLED''))
            (filter (\<lambda>v. v \<in> set enterpriseIdentityProviders)
              (map js_trim (split_at (\<lambda>c. c = CHR '','') (coalesce (env ''MYAGENT_IDENTITY_PROVIDERS'') []))))
      in \<lparr>ap_requireAuth = requireAuth,
          ap_localMode = is1 ''MYAGENT_LOCAL_MODE'' \<or> (\<not> requireAuth \<and> not0 ''MYAGENT_LOCAL_MODE''),
          ap_passwordMode = not0 ''MYAGENT_PASSWORD_AUTH'',
          ap_legacyLocalLogin = is1 ''MYAGENT_LEGACY_LOCAL_LOGIN'',
          ap_legacyBearerIssue = issue,
          ap_legacyBearerRead = not0 ''MYAGENT_LEGACY_BEARER_AUTH'',
          ap_secureCookies = is1 ''MYAGENT_SECURE_COOKIES'' \<or> (not0 ''MYAGENT_SECURE_COOKIES'' \<and> env ''NODE_ENV'' = Some ''production''),
          ap_configuredProviders = (if issue then [] else first_keys configured)\<rparr>)"

record resolved_actor =
  ra_userId :: "string option"
  ra_teamId :: "string option"
  ra_role :: string
  ra_authenticated :: bool
  ra_authMethod :: string
  ra_sessionId :: "string option"
  ra_sessionExpiresAt :: "instant option"
  ra_csrfHash :: "string option"
  ra_childLearner :: "string option"

text \<open>\<open>/^Bearer\s+(.+)$/i\<close> and the trim; an empty token is as good as none.\<close>

definition bearer :: "string option \<Rightarrow> string option" where
  "bearer header =
     (let h = coalesce header []; rest = drop 6 h
      in if js_lower (take 6 h) = ''bearer'' \<and> 2 \<le> length rest \<and> js_space (hd rest)
         then (if js_trim rest = [] then None else Some (js_trim rest)) else None)"

definition tokenLive :: "instant \<Rightarrow> bearer_token \<Rightarrow> bool" where
  "tokenLive t b \<longleftrightarrow> bt_revokedAt b = None \<and> t < bt_expiresAt b"

definition cookie_actor :: "session \<Rightarrow> identity_user \<Rightarrow> resolved_actor" where
  "cookie_actor s u =
     \<lparr>ra_userId = Some (iu_id u), ra_teamId = iu_teamId u, ra_role = coalesce (iu_role u) ''owner'', ra_authenticated = True,
      ra_authMethod = ''cookie'', ra_sessionId = Some (se_id s), ra_sessionExpiresAt = Some (se_absoluteExpiresAt s),
      ra_csrfHash = Some (se_csrfHash s), ra_childLearner = se_childLearner s\<rparr>"

definition anonymous :: resolved_actor where
  "anonymous = \<lparr>ra_userId = None, ra_teamId = None, ra_role = ''anonymous'', ra_authenticated = False, ra_authMethod = ''none'',
     ra_sessionId = None, ra_sessionExpiresAt = None, ra_csrfHash = None, ra_childLearner = None\<rparr>"

definition live_token :: "identity_policy \<Rightarrow> string option \<Rightarrow> instant \<Rightarrow> 'a identity_state_scheme \<Rightarrow> bearer_token option" where
  "live_token policy header t st =
     (case (if ap_legacyBearerRead policy then bearer header else None) of
        None \<Rightarrow> None
      | Some token \<Rightarrow> List.find (\<lambda>b. bt_token b = token \<and> tokenLive t b) (id_tokens st))"

definition resolveActor ::
    "(string \<Rightarrow> string) \<Rightarrow> identity_policy \<Rightarrow> string option \<Rightarrow> string option \<Rightarrow> instant \<Rightarrow> 'a identity_state_scheme
     \<Rightarrow> resolved_actor \<times> 'a identity_state_scheme" where
  "resolveActor digest policy cookie header t st =
     (case resolveServerSession digest cookie t st of
        (Some (s, u, touched), st1) \<Rightarrow> (cookie_actor s u, st1)
      | (None, st1) \<Rightarrow>
          (let rec = live_token policy header t st1;
               first = (case id_users st1 of [] \<Rightarrow> None | u # _ \<Rightarrow> Some u);
               user = coalesce_opt (Option.bind rec (\<lambda>b. find_user st1 (bt_userId b)))
                 (coalesce_opt (find_user st1 ''usr_local'') first)
           in if rec = None \<and> ap_requireAuth policy then (anonymous, st1)
              else (\<lparr>ra_userId = Some (case user of None \<Rightarrow> ''usr_local'' | Some u \<Rightarrow> iu_id u),
                     ra_teamId = Some (case Option.bind user iu_teamId of None \<Rightarrow> ''team_local'' | Some team \<Rightarrow> team),
                     ra_role = (case Option.bind user iu_role of None \<Rightarrow> ''owner'' | Some r \<Rightarrow> r),
                     ra_authenticated = (rec \<noteq> None),
                     ra_authMethod = (if rec \<noteq> None then ''bearer'' else ''none''),
                     ra_sessionId = None, ra_sessionExpiresAt = map_option bt_expiresAt rec,
                     ra_csrfHash = None, ra_childLearner = None\<rparr>, st1)))"

end
