(* ===== verification/Recovery.thy ===== *)
theory Recovery
  imports Identity
begin

text \<open>
  services/password-recovery.mjs, the password functions of runtime/auth.mjs and the sign-in routes of
  routes/identity.mjs: the throttle of an account, security alerts, recovery grants and the routes that start and
  end a session.  SHA-256, scrypt (its hexadecimal text), the Unicode normal form and the
  credential the process draws for unknown accounts are fields of \<open>crypto\<close>.
\<close>

section \<open>State\<close>

record crypto =
  cr_digest :: "string \<Rightarrow> string"
  cr_nfkc :: "string \<Rightarrow> string"
  cr_scrypt :: "string \<Rightarrow> string \<Rightarrow> string"
  cr_dummy :: string

record attempt =
  la_id :: string
  la_keyHash :: string
  la_failureCount :: nat
  la_firstFailedAt :: instant
  la_lastFailedAt :: instant
  la_nextAllowedAt :: instant
  la_disabled :: bool
  la_lockedUntil :: "instant option"

record security_alert =
  sa_id :: string
  sa_type :: string
  sa_severity :: string
  sa_status :: string
  sa_teamId :: string
  sa_userId :: "string option"
  sa_identifierHash :: string
  sa_count :: nat
  sa_failureCount :: nat
  sa_createdAt :: instant
  sa_updatedAt :: instant

record recovery_grant =
  rg_id :: string
  rg_tokenHash :: string
  rg_purpose :: string
  rg_teamId :: string
  rg_userId :: string
  rg_issuedBy :: "string option"
  rg_createdAt :: instant
  rg_expiresAt :: instant
  rg_consumedAt :: "instant option"
  rg_revokedAt :: "instant option"

record recovery_state = identity_state +
  rs_loginAttempts :: "attempt list"
  rs_recoveryAttempts :: "attempt list"
  rs_alerts :: "security_alert list"
  rs_grants :: "recovery_grant list"

definition RECOVERY_GRANT_TTL_MS :: int where "RECOVERY_GRANT_TTL_MS = 15 * 60 * 1000"
definition PASSWORD_MIN_LENGTH :: nat where "PASSWORD_MIN_LENGTH = 15"
definition PASSWORD_MAX_LENGTH :: nat where "PASSWORD_MAX_LENGTH = 128"
definition LOGIN_WINDOW_MS :: int where "LOGIN_WINDOW_MS = 15 * 60 * 1000"
definition TEMPORARY_LOCK_MS :: int where "TEMPORARY_LOCK_MS = 15 * 60 * 1000"
definition LOGIN_ALERT_THRESHOLD :: nat where "LOGIN_ALERT_THRESHOLD = 5"
definition LOGIN_DISABLE_THRESHOLD :: nat where "LOGIN_DISABLE_THRESHOLD = 20"
definition RECOVERY_DISABLE_THRESHOLD :: nat where "RECOVERY_DISABLE_THRESHOLD = 10"
definition MAX_LOGIN_RECORDS :: nat where "MAX_LOGIN_RECORDS = 1000"
definition MAX_RECOVERY_GRANTS :: nat where "MAX_RECOVERY_GRANTS = 500"
definition MAX_SECURITY_ALERTS :: nat where "MAX_SECURITY_ALERTS = 500"

definition COMMON_PASSWORDS :: "string list" where
  "COMMON_PASSWORDS = [''123456789012345'', ''passwordpassword'', ''qwertyuiopasdfg'', ''letmeinletmein'', ''adminadminadmin'']"

definition normalizedIdentifier :: "crypto \<Rightarrow> string \<Rightarrow> string" where
  "normalizedIdentifier cr v = js_lower (cr_nfkc cr (js_trim v))"

definition tenantAwareLoginKey :: "crypto \<Rightarrow> string \<Rightarrow> string \<Rightarrow> string" where
  "tenantAwareLoginKey cr team user = cr_digest cr (normalizedIdentifier cr team @ CHR 0x00 # normalizedIdentifier cr user)"

section \<open>The throttle of an account\<close>

definition passwordDelayMs :: "nat \<Rightarrow> int" where
  "passwordDelayMs n = (if n < 3 then 0 else min 30000 (1000 * 2 ^ (n - 3)))"

definition attempt_alive :: "instant \<Rightarrow> attempt \<Rightarrow> bool" where
  "attempt_alive t r \<longleftrightarrow> (la_disabled r \<and> (case la_lockedUntil r of None \<Rightarrow> False | Some u \<Rightarrow> t < u)) \<or> t - LOGIN_WINDOW_MS < la_lastFailedAt r"

definition prune_attempts :: "instant \<Rightarrow> attempt list \<Rightarrow> attempt list" where
  "prune_attempts t rs = take MAX_LOGIN_RECORDS (filter (attempt_alive t) rs)"

definition attempt_of :: "string \<Rightarrow> attempt list \<Rightarrow> attempt option" where
  "attempt_of key rs = List.find (\<lambda>r. la_keyHash r = key) rs"

record throttle =
  th_allowed :: bool
  th_retryAfterSeconds :: int
  th_disabled :: bool

text \<open>\<open>passwordLoginStatus\<close> and \<open>passwordRecoveryStatus\<close> read their own table by the same rule.\<close>

definition throttle_of :: "instant \<Rightarrow> attempt option \<Rightarrow> throttle" where
  "throttle_of t rec =
     (case rec of
        None \<Rightarrow> \<lparr>th_allowed = True, th_retryAfterSeconds = 0, th_disabled = False\<rparr>
      | Some r \<Rightarrow>
          (let until = (if la_disabled r then coalesce (la_lockedUntil r) t else la_nextAllowedAt r);
               retryMs = max 0 (until - t)
           in \<lparr>th_allowed = (retryMs = 0),
               th_retryAfterSeconds = (if retryMs = 0 then 0 else max 1 ((retryMs + 999) div 1000)),
               th_disabled = (la_disabled r \<and> 0 < retryMs)\<rparr>))"

definition failed_attempt :: "string \<Rightarrow> nat \<Rightarrow> string \<Rightarrow> instant \<Rightarrow> attempt option \<Rightarrow> attempt" where
  "failed_attempt prefix limit key t old =
     (let n = Suc (case old of None \<Rightarrow> 0 | Some r \<Rightarrow> la_failureCount r)
      in \<lparr>la_id = (case old of None \<Rightarrow> prefix @ key | Some r \<Rightarrow> la_id r), la_keyHash = key, la_failureCount = n,
          la_firstFailedAt = (case old of None \<Rightarrow> t | Some r \<Rightarrow> la_firstFailedAt r), la_lastFailedAt = t,
          la_nextAllowedAt = t + passwordDelayMs n, la_disabled = (limit \<le> n),
          la_lockedUntil = (if limit \<le> n then Some (t + TEMPORARY_LOCK_MS) else None)\<rparr>)"

definition record_failure :: "string \<Rightarrow> nat \<Rightarrow> string \<Rightarrow> instant \<Rightarrow> attempt list \<Rightarrow> attempt \<times> attempt list" where
  "record_failure prefix limit key t rs =
     (let rs1 = prune_attempts t rs; old = attempt_of key rs1; new = failed_attempt prefix limit key t old
      in (new, case old of None \<Rightarrow> new # rs1 | Some r \<Rightarrow> upd_first (\<lambda>r. la_keyHash r = key) (\<lambda>r. new) rs1))"

definition passwordLoginStatus :: "crypto \<Rightarrow> string \<Rightarrow> string \<Rightarrow> instant \<Rightarrow> 'a recovery_state_scheme \<Rightarrow> throttle \<times> 'a recovery_state_scheme" where
  "passwordLoginStatus cr team user t st =
     (let rs = prune_attempts t (rs_loginAttempts st)
      in (throttle_of t (attempt_of (tenantAwareLoginKey cr team user) rs), st\<lparr>rs_loginAttempts := rs\<rparr>))"

definition passwordRecoveryStatus :: "crypto \<Rightarrow> string \<Rightarrow> string \<Rightarrow> instant \<Rightarrow> 'a recovery_state_scheme \<Rightarrow> throttle \<times> 'a recovery_state_scheme" where
  "passwordRecoveryStatus cr team user t st =
     (let rs = prune_attempts t (rs_recoveryAttempts st)
      in (throttle_of t (attempt_of (tenantAwareLoginKey cr team user) rs), st\<lparr>rs_recoveryAttempts := rs\<rparr>))"

section \<open>Alerts\<close>

definition upsertSecurityAlert ::
    "crypto \<Rightarrow> string \<Rightarrow> string \<Rightarrow> string \<Rightarrow> string option \<Rightarrow> string \<Rightarrow> nat \<Rightarrow> instant \<Rightarrow> security_alert list \<Rightarrow> security_alert list" where
  "upsertSecurityAlert cr alertId type' teamId userId identifier failureCount t alerts =
     (let h = cr_digest cr (normalizedIdentifier cr identifier);
          mine = (\<lambda>a. sa_type a = type' \<and> sa_teamId a = teamId \<and> sa_identifierHash a = h \<and> sa_status a = ''open'');
          limit = (if type' = ''recovery_token_rejected'' then RECOVERY_DISABLE_THRESHOLD else LOGIN_DISABLE_THRESHOLD)
      in take MAX_SECURITY_ALERTS
           (case List.find mine alerts of
              Some a \<Rightarrow> upd_first mine (\<lambda>a. a\<lparr>sa_count := sa_count a + 1, sa_failureCount := failureCount, sa_updatedAt := t\<rparr>) alerts
            | None \<Rightarrow>
                \<lparr>sa_id = alertId, sa_type = type', sa_severity = (if limit \<le> failureCount then ''high'' else ''warning''), sa_status = ''open'',
                 sa_teamId = teamId, sa_userId = userId, sa_identifierHash = h, sa_count = 1, sa_failureCount = failureCount,
                 sa_createdAt = t, sa_updatedAt = t\<rparr> # alerts))"

definition recover_alerts :: "string \<Rightarrow> string \<Rightarrow> string \<Rightarrow> instant \<Rightarrow> security_alert list \<Rightarrow> security_alert list" where
  "recover_alerts type' teamId userId t =
     upd_where (\<lambda>a. sa_type a = type' \<and> sa_teamId a = teamId \<and> sa_userId a = Some userId \<and> sa_status a = ''open'')
       (\<lambda>a. a\<lparr>sa_status := ''recovered'', sa_updatedAt := t\<rparr>)"

definition listIdentitySecurityAlerts :: "resolved_actor \<Rightarrow> 'a recovery_state_scheme \<Rightarrow> security_alert list option" where
  "listIdentitySecurityAlerts actor st =
     (if \<not> ra_authenticated actor \<or> ra_role actor \<notin> {''owner'', ''admin''} then None
      else Some (filter (\<lambda>a. Some (sa_teamId a) = ra_teamId actor) (rs_alerts st)))"

section \<open>Recording failures\<close>

definition recordPasswordLoginFailure ::
    "crypto \<Rightarrow> draws \<Rightarrow> string \<Rightarrow> string \<Rightarrow> bool \<Rightarrow> instant \<Rightarrow> 'a recovery_state_scheme \<Rightarrow> throttle \<times> 'a recovery_state_scheme" where
  "recordPasswordLoginFailure cr d team user userExists t st =
     (let (r, rs) = record_failure ''ila_'' LOGIN_DISABLE_THRESHOLD (tenantAwareLoginKey cr team user) t (rs_loginAttempts st);
          st1 = st\<lparr>rs_loginAttempts := rs,
                    rs_alerts := (if LOGIN_ALERT_THRESHOLD \<le> la_failureCount r
                      then upsertSecurityAlert cr (dr_id d) ''password_login_throttled'' team (if userExists then Some user else None) user
                             (la_failureCount r) t (rs_alerts st)
                      else rs_alerts st)\<rparr>;
          st2 = auditIdentity
                  \<lparr>ie_id = dr_audit d, ie_type = ''identity.password.rejected'',
                   ie_outcome = (if la_disabled r then ''temporarily_locked'' else ''invalid_credentials''),
                   ie_data = [(''teamId'', JStr team), (''userIdHash'', JStr (cr_digest cr (normalizedIdentifier cr user))),
                     (''failureCount'', JNum (int (la_failureCount r)))],
                   ie_at = t\<rparr> st1
      in passwordLoginStatus cr team user t st2)"

definition recordPasswordRecoveryFailure ::
    "crypto \<Rightarrow> draws \<Rightarrow> string \<Rightarrow> string \<Rightarrow> bool \<Rightarrow> instant \<Rightarrow> 'a recovery_state_scheme \<Rightarrow> throttle \<times> 'a recovery_state_scheme" where
  "recordPasswordRecoveryFailure cr d team user userExists t st =
     (let (r, rs) = record_failure ''ira_'' RECOVERY_DISABLE_THRESHOLD (tenantAwareLoginKey cr team user) t (rs_recoveryAttempts st);
          st1 = st\<lparr>rs_recoveryAttempts := rs,
                    rs_alerts := (if LOGIN_ALERT_THRESHOLD \<le> la_failureCount r
                      then upsertSecurityAlert cr (dr_id d) ''recovery_token_rejected'' team (if userExists then Some user else None) user
                             (la_failureCount r) t (rs_alerts st)
                      else rs_alerts st)\<rparr>
      in passwordRecoveryStatus cr team user t st1)"

definition clearPasswordLoginFailures :: "crypto \<Rightarrow> string \<Rightarrow> string \<Rightarrow> instant \<Rightarrow> 'a recovery_state_scheme \<Rightarrow> 'a recovery_state_scheme" where
  "clearPasswordLoginFailures cr team user t st =
     st\<lparr>rs_loginAttempts := filter (\<lambda>r. la_keyHash r \<noteq> tenantAwareLoginKey cr team user) (rs_loginAttempts st),
         rs_alerts := recover_alerts ''password_login_throttled'' team user t (rs_alerts st)\<rparr>"

definition clearPasswordRecoveryFailures :: "crypto \<Rightarrow> string \<Rightarrow> string \<Rightarrow> instant \<Rightarrow> 'a recovery_state_scheme \<Rightarrow> 'a recovery_state_scheme" where
  "clearPasswordRecoveryFailures cr team user t st =
     st\<lparr>rs_recoveryAttempts := filter (\<lambda>r. la_keyHash r \<noteq> tenantAwareLoginKey cr team user) (rs_recoveryAttempts st),
         rs_alerts := recover_alerts ''recovery_token_rejected'' team user t (rs_alerts st)\<rparr>"

section \<open>Passwords\<close>

definition validateNewPassword :: "crypto \<Rightarrow> string \<Rightarrow> string \<Rightarrow> string \<Rightarrow> string option" where
  "validateNewPassword cr password team user =
     (let normalized = filter (\<lambda>c. \<not> js_space c) (normalizedIdentifier cr password);
          contextValues = filter (\<lambda>s. 4 \<le> length s) (map (normalizedIdentifier cr) [team, user])
      in if length password < PASSWORD_MIN_LENGTH then Some ''password_too_short''
         else if PASSWORD_MAX_LENGTH < length password then Some ''password_too_long''
         else if normalized \<in> set COMMON_PASSWORDS \<or> list_ex (contains normalized) contextValues then Some ''password_blocklisted''
         else None)"

definition hashPassword :: "crypto \<Rightarrow> string \<Rightarrow> string \<Rightarrow> string" where
  "hashPassword cr salt password = ''scrypt$'' @ salt @ ''$'' @ cr_scrypt cr password salt"

text \<open>Callers give a stored value whose hash part is hexadecimal, so equal bytes are texts equal up to letter case.\<close>

definition verifyPassword :: "crypto \<Rightarrow> string \<Rightarrow> string \<Rightarrow> bool" where
  "verifyPassword cr password stored =
     (case split_at (\<lambda>c. c = CHR ''$'') stored of
        scheme # salt # hash # rest \<Rightarrow>
          scheme = ''scrypt'' \<and> salt \<noteq> [] \<and> hash \<noteq> [] \<and> js_lower hash = cr_scrypt cr password salt
      | _ \<Rightarrow> False)"

section \<open>Recovery grants\<close>

definition canIssuePasswordRecovery :: "resolved_actor \<Rightarrow> identity_user option \<Rightarrow> bool" where
  "canIssuePasswordRecovery actor target =
     (case target of None \<Rightarrow> False
      | Some u \<Rightarrow>
          ra_authenticated actor \<and> ra_role actor \<in> {''owner'', ''admin''}
          \<and> ra_teamId actor = iu_teamId u \<and> iu_teamId u \<noteq> Some ''team_local'' \<and> ra_userId actor \<noteq> Some (iu_id u)
          \<and> (if ra_role actor = ''admin'' then iu_role u \<in> {Some ''operator'', Some ''viewer''} else iu_role u \<noteq> Some ''owner''))"

definition open_grant :: "string \<Rightarrow> string \<Rightarrow> string \<Rightarrow> recovery_grant \<Rightarrow> bool" where
  "open_grant team user purpose g \<longleftrightarrow> rg_teamId g = team \<and> rg_userId g = user \<and> rg_purpose g = purpose
     \<and> rg_consumedAt g = None \<and> rg_revokedAt g = None"

definition new_grant :: "crypto \<Rightarrow> draws \<Rightarrow> string \<Rightarrow> string \<Rightarrow> string \<Rightarrow> string option \<Rightarrow> instant \<Rightarrow> recovery_grant" where
  "new_grant cr d purpose team user issuer t =
     \<lparr>rg_id = dr_id d, rg_tokenHash = cr_digest cr (dr_secret d), rg_purpose = purpose, rg_teamId = team, rg_userId = user,
      rg_issuedBy = issuer, rg_createdAt = t, rg_expiresAt = t + RECOVERY_GRANT_TTL_MS, rg_consumedAt = None, rg_revokedAt = None\<rparr>"

definition createPasswordRecoveryGrant ::
    "crypto \<Rightarrow> draws \<Rightarrow> resolved_actor \<Rightarrow> identity_user option \<Rightarrow> string \<Rightarrow> instant \<Rightarrow> 'a recovery_state_scheme
     \<Rightarrow> (string + string \<times> recovery_grant) \<times> 'a recovery_state_scheme" where
  "createPasswordRecoveryGrant cr d issuer target purpose t st =
     (if purpose \<noteq> ''password_reset'' then (Inl ''invalid_recovery_purpose'', st)
      else if \<not> canIssuePasswordRecovery issuer target then (Inl ''recovery_forbidden'', st)
      else (case target of None \<Rightarrow> (Inl ''recovery_forbidden'', st)
            | Some u \<Rightarrow>
                (let team = coalesce (iu_teamId u) []; user = iu_id u;
                     g = new_grant cr d purpose team user (ra_userId issuer) t;
                     older = upd_where (open_grant team user purpose) (\<lambda>g. g\<lparr>rg_revokedAt := Some t\<rparr>) (rs_grants st);
                     st1 = auditIdentity
                       \<lparr>ie_id = dr_audit d, ie_type = ''identity.recovery.requested'', ie_outcome = ''created'',
                        ie_data = [(''grantId'', JStr (rg_id g)), (''teamId'', JStr team), (''userId'', JStr user),
                          (''issuedBy'', jstr (ra_userId issuer)), (''purpose'', JStr purpose)],
                        ie_at = t\<rparr> (st\<lparr>rs_grants := take MAX_RECOVERY_GRANTS (g # older)\<rparr>)
                 in (Inr (dr_secret d, g), clearPasswordRecoveryFailures cr team user t st1))))"

datatype recovery_answer = PasswordRefused string | RecoveryThrottled int | RecoveryFailed | RecoveryDone nat

definition matching_grant :: "crypto \<Rightarrow> string \<Rightarrow> string \<Rightarrow> string \<Rightarrow> string \<Rightarrow> recovery_grant \<Rightarrow> bool" where
  "matching_grant cr token team user purpose g \<longleftrightarrow> rg_tokenHash g = cr_digest cr token \<and> rg_teamId g = team
     \<and> rg_userId g = user \<and> rg_purpose g = purpose"

definition team_user :: "'a identity_state_scheme \<Rightarrow> string \<Rightarrow> string \<Rightarrow> identity_user option" where
  "team_user st team user = List.find (\<lambda>u. iu_id u = user \<and> iu_teamId u = Some team) (id_users st)"

definition usable_grant :: "instant \<Rightarrow> recovery_grant \<Rightarrow> bool" where
  "usable_grant t g \<longleftrightarrow> rg_consumedAt g = None \<and> rg_revokedAt g = None \<and> t < rg_expiresAt g"

definition rotated :: "crypto \<Rightarrow> string \<Rightarrow> string \<Rightarrow> instant \<Rightarrow> identity_user \<Rightarrow> identity_user" where
  "rotated cr salt newPassword t u = u\<lparr>iu_passwordHash := Some (hashPassword cr salt newPassword), iu_credentialUpdatedAt := Some t\<rparr>"

definition reject_recovery ::
    "crypto \<Rightarrow> draws \<Rightarrow> string \<Rightarrow> string \<Rightarrow> string \<Rightarrow> bool \<Rightarrow> instant \<Rightarrow> 'a recovery_state_scheme
     \<Rightarrow> recovery_answer \<times> 'a recovery_state_scheme" where
  "reject_recovery cr d team user purpose userExists t st =
     (RecoveryFailed, auditIdentity
        \<lparr>ie_id = dr_audit d, ie_type = ''identity.recovery.rejected'', ie_outcome = ''invalid_or_expired'',
         ie_data = [(''teamId'', JStr team), (''userIdHash'', JStr (cr_digest cr (normalizedIdentifier cr user))), (''purpose'', JStr purpose)],
         ie_at = t\<rparr>
        (snd (recordPasswordRecoveryFailure cr d team user userExists t st)))"

definition completePasswordRecovery ::
    "crypto \<Rightarrow> draws \<Rightarrow> string \<Rightarrow> string \<Rightarrow> string \<Rightarrow> string \<Rightarrow> string \<Rightarrow> string \<Rightarrow> instant \<Rightarrow> 'a recovery_state_scheme
     \<Rightarrow> recovery_answer \<times> 'a recovery_state_scheme" where
  "completePasswordRecovery cr d salt team user purpose token newPassword t st =
     (case validateNewPassword cr newPassword team user of
        Some e \<Rightarrow> (PasswordRefused e, st)
      | None \<Rightarrow>
          (let (status, st1) = passwordRecoveryStatus cr team user t st
           in if \<not> th_allowed status then (RecoveryThrottled (th_retryAfterSeconds status), st1)
              else (case (List.find (matching_grant cr token team user purpose) (rs_grants st1), team_user st1 team user) of
                      (Some g, Some u) \<Rightarrow>
                        if team \<noteq> ''team_local'' \<and> usable_grant t g then
                          (let st2 = st1\<lparr>rs_grants := upd_first (matching_grant cr token team user purpose)
                                           (\<lambda>g. g\<lparr>rg_consumedAt := Some t\<rparr>) (rs_grants st1),
                                         id_users := upd_first (\<lambda>u. iu_id u = user \<and> iu_teamId u = Some team)
                                           (rotated cr salt newPassword t) (id_users st1)\<rparr>;
                               (n, st3) = revokeAllUserSessions d user t st2;
                               st4 = clearPasswordRecoveryFailures cr team user t (clearPasswordLoginFailures cr team user t st3)
                           in (RecoveryDone n, auditIdentity
                                 \<lparr>ie_id = dr_audit d, ie_type = ''identity.recovery.completed'', ie_outcome = ''completed'',
                                  ie_data = [(''grantId'', JStr (rg_id g)), (''teamId'', JStr team), (''userId'', JStr user),
                                    (''purpose'', JStr purpose), (''revokedSessions'', JNum (int n))],
                                  ie_at = t\<rparr> st4))
                        else reject_recovery cr d team user purpose True t st1
                    | (_, found) \<Rightarrow> reject_recovery cr d team user purpose (found \<noteq> None) t st1)))"

section \<open>The throttle\<close>

lemma attempt_of_key: "attempt_of key rs = Some r \<Longrightarrow> la_keyHash r = key"
  by (auto simp: attempt_of_def dest: find_SomeD)

lemma find_filter_first:
  "List.find P xs = Some x \<Longrightarrow> Q x \<Longrightarrow> List.find P (filter Q xs) = Some x"
  by (induction xs) (auto split: if_splits)

lemma find_filter_gone:
  assumes "List.find (\<lambda>r. f r = k) xs = Some x" and "\<not> Q x" and "distinct (map f xs)"
  shows "List.find (\<lambda>r. f r = k) (filter Q xs) = None"
  using assms by (induction xs) (auto simp: find_None_iff image_iff split: if_splits)

lemma keys_upd_first: "la_keyHash new = key \<Longrightarrow> map la_keyHash (upd_first (\<lambda>r. la_keyHash r = key) (\<lambda>r. new) rs) = map la_keyHash rs"
  by (rule map_upd_first) simp

lemma prune_distinct: "distinct (map la_keyHash rs) \<Longrightarrow> distinct (map la_keyHash (prune_attempts t rs))"
  unfolding prune_attempts_def take_map [symmetric]
  by (intro distinct_take distinct_map_filter)

lemma prune_length: "length (prune_attempts t rs) \<le> MAX_LOGIN_RECORDS"
  by (simp add: prune_attempts_def)

lemma failed_key [simp]: "la_keyHash (failed_attempt p n key t old) = key"
  by (simp add: failed_attempt_def Let_def)

lemma find_upd_const:
  "P new \<Longrightarrow> List.find P xs \<noteq> None \<Longrightarrow> List.find P (upd_first P (\<lambda>x. new) xs) = Some new"
  by (induction xs) auto

lemma attempt_of_failure: "attempt_of key (snd (record_failure p n key t rs)) = Some (fst (record_failure p n key t rs))"
  by (cases "attempt_of key (prune_attempts t rs)")
    (auto simp: record_failure_def Let_def attempt_of_def intro!: find_upd_const)

text \<open>The failed record is among the first thousand of its table.\<close>

lemma find_take_pos:
  "length xs \<le> n \<Longrightarrow> List.find P (take n xs) = List.find P xs"
  "P x \<Longrightarrow> 0 < n \<Longrightarrow> List.find P (take n (x # xs)) = Some x"
  by (simp_all add: take_Cons split: nat.splits)

definition lock_wait :: "nat \<Rightarrow> nat \<Rightarrow> int" where
  "lock_wait limit n = (if limit \<le> n then TEMPORARY_LOCK_MS else passwordDelayMs n)"

lemma passwordDelay_bounds: "0 \<le> passwordDelayMs n" "passwordDelayMs n \<le> 30000"
  by (simp_all add: passwordDelayMs_def)

lemma prune_keeps:
  assumes "attempt_of key rs = Some r" and "attempt_alive t r" and "length rs \<le> MAX_LOGIN_RECORDS \<or> (\<exists>rest. rs = r # rest)"
  shows "attempt_of key (prune_attempts t rs) = Some r"
proof -
  have f: "List.find (\<lambda>r. la_keyHash r = key) (filter (attempt_alive t) rs) = Some r"
    using assms(1,2) by (simp add: attempt_of_def find_filter_first)
  from assms(3) show ?thesis
  proof
    assume "length rs \<le> MAX_LOGIN_RECORDS"
    then have "length (filter (attempt_alive t) rs) \<le> MAX_LOGIN_RECORDS" by (meson length_filter_le le_trans)
    then show ?thesis using f by (simp add: prune_attempts_def attempt_of_def)
  next
    assume "\<exists>rest. rs = r # rest"
    then show ?thesis using assms attempt_of_key [OF assms(1)]
      by (auto simp: prune_attempts_def attempt_of_def MAX_LOGIN_RECORDS_def)
  qed
qed

lemma find_take_none: "List.find P xs = None \<Longrightarrow> List.find P (take n xs) = None"
  by (auto simp: find_None_iff dest: in_set_takeD)

lemma prune_drops:
  "attempt_of key rs = Some r \<Longrightarrow> \<not> attempt_alive t r \<Longrightarrow> distinct (map la_keyHash rs) \<Longrightarrow> attempt_of key (prune_attempts t rs) = None"
  by (simp add: prune_attempts_def attempt_of_def find_take_none find_filter_gone)

lemma record_failure_distinct:
  assumes "distinct (map la_keyHash rs)"
  shows "distinct (map la_keyHash (snd (record_failure p n key t rs)))"
  using prune_distinct [OF assms, of t]
  by (auto simp: record_failure_def Let_def keys_upd_first attempt_of_def find_None_iff split: option.splits)

lemma record_failure_place:
  "length (snd (record_failure p n key t rs)) \<le> MAX_LOGIN_RECORDS
    \<or> (\<exists>rest. snd (record_failure p n key t rs) = fst (record_failure p n key t rs) # rest)"
  by (auto simp: record_failure_def Let_def prune_length split: option.splits)

lemma failed_alive: "attempt_alive t (fst (record_failure p n key t rs))"
  by (simp add: record_failure_def Let_def failed_attempt_def attempt_alive_def LOGIN_WINDOW_MS_def)

lemma failed_throttle:
  assumes "r = fst (record_failure p n key t rs)" and "t \<le> t'"
  shows "th_allowed (throttle_of t' (if attempt_alive t' r then Some r else None)) \<longleftrightarrow> t + lock_wait n (la_failureCount r) \<le> t'"
  using assms(2) passwordDelay_bounds [of "la_failureCount r"] unfolding assms(1)
  by (auto simp: record_failure_def failed_attempt_def Let_def throttle_of_def attempt_alive_def lock_wait_def LOGIN_WINDOW_MS_def TEMPORARY_LOCK_MS_def)

lemma record_then_status:
  assumes "distinct (map la_keyHash rs)" and "t \<le> t'"
  shows "th_allowed (throttle_of t' (attempt_of key (prune_attempts t' (prune_attempts t (snd (record_failure p n key t rs))))))
    \<longleftrightarrow> t + lock_wait n (la_failureCount (fst (record_failure p n key t rs))) \<le> t'"
proof -
  let ?r = "fst (record_failure p n key t rs)" and ?rs = "prune_attempts t (snd (record_failure p n key t rs))"
  have here: "attempt_of key ?rs = Some ?r"
    by (rule prune_keeps [OF attempt_of_failure failed_alive record_failure_place])
  have "attempt_of key (prune_attempts t' ?rs) = (if attempt_alive t' ?r then Some ?r else None)"
    using prune_keeps [OF here] prune_drops [OF here] prune_length prune_distinct [OF record_failure_distinct [OF assms(1)]]
    by auto
  then show ?thesis using failed_throttle [OF refl assms(2)] by simp
qed

lemma failure_attempts:
  "rs_loginAttempts (snd (recordPasswordLoginFailure cr d team user ex t st)) =
     prune_attempts t (snd (record_failure ''ila_'' LOGIN_DISABLE_THRESHOLD (tenantAwareLoginKey cr team user) t (rs_loginAttempts st)))"
  by (simp add: recordPasswordLoginFailure_def Let_def auditIdentity_def passwordLoginStatus_def split: prod.splits)

definition failures_of :: "crypto \<Rightarrow> string \<Rightarrow> string \<Rightarrow> 'a recovery_state_scheme \<Rightarrow> nat" where
  "failures_of cr team user st =
     (case attempt_of (tenantAwareLoginKey cr team user) (rs_loginAttempts st) of None \<Rightarrow> 0 | Some r \<Rightarrow> la_failureCount r)"

lemma failures_recorded:
  "failures_of cr team user (snd (recordPasswordLoginFailure cr d team user ex t st))
    = la_failureCount (fst (record_failure ''ila_'' LOGIN_DISABLE_THRESHOLD (tenantAwareLoginKey cr team user) t (rs_loginAttempts st)))"
  by (simp add: failures_of_def failure_attempts prune_keeps [OF attempt_of_failure failed_alive record_failure_place])

lemma failure_count:
  "la_failureCount (fst (record_failure p n key t rs))
    = Suc (case attempt_of key (prune_attempts t rs) of None \<Rightarrow> 0 | Some r \<Rightarrow> la_failureCount r)"
  by (simp add: record_failure_def Let_def failed_attempt_def)

text \<open>C29: The throttle of an account is exact.  After a rejected password at a time \<open>t\<close>, which makes it the \<open>n\<close>-th failure counted for
  the account, a later sign-in is admitted exactly from \<open>t\<close> plus the wait of \<open>n\<close>: fifteen minutes from the twentieth failure
  on, before that nothing for the first two, then one second doubling up to thirty seconds.\<close>

theorem login_throttle:
  assumes "recordPasswordLoginFailure cr d team user ex t st = (th, st1)" and "distinct (map la_keyHash (rs_loginAttempts st))"
    and "t \<le> t'" and "n = failures_of cr team user st1"
  shows "(th_allowed (fst (passwordLoginStatus cr team user t' st1))
      \<longleftrightarrow> t + (if 20 \<le> n then 15 * 60 * 1000 else if n < 3 then 0 else min 30000 (1000 * 2 ^ (n - 3))) \<le> t')
    \<and> n = Suc (case attempt_of (tenantAwareLoginKey cr team user) (prune_attempts t (rs_loginAttempts st)) of
                 None \<Rightarrow> 0 | Some r \<Rightarrow> la_failureCount r)
    \<and> distinct (map la_keyHash (rs_loginAttempts st1))"
proof -
  have st1: "st1 = snd (recordPasswordLoginFailure cr d team user ex t st)" using assms(1) by simp
  have n: "n = la_failureCount (fst (record_failure ''ila_'' LOGIN_DISABLE_THRESHOLD (tenantAwareLoginKey cr team user) t (rs_loginAttempts st)))"
    using assms(4) failures_recorded st1 by metis
  have w: "lock_wait LOGIN_DISABLE_THRESHOLD n = (if 20 \<le> n then 15 * 60 * 1000 else if n < 3 then 0 else min 30000 (1000 * 2 ^ (n - 3)))"
    by (simp add: lock_wait_def LOGIN_DISABLE_THRESHOLD_def TEMPORARY_LOCK_MS_def passwordDelayMs_def)
  have "th_allowed (fst (passwordLoginStatus cr team user t' st1)) \<longleftrightarrow> t + lock_wait LOGIN_DISABLE_THRESHOLD n \<le> t'"
    unfolding st1 n passwordLoginStatus_def Let_def failure_attempts fst_conv by (rule record_then_status [OF assms(2,3)])
  moreover have "distinct (map la_keyHash (rs_loginAttempts st1))"
    unfolding st1 failure_attempts by (intro prune_distinct record_failure_distinct assms(2))
  ultimately show ?thesis unfolding w by (simp add: n failure_count)
qed

lemma fresh_failure:
  assumes "key \<notin> set (map la_keyHash (prune_attempts t rs))"
  shows "map la_keyHash (prune_attempts t (prune_attempts t (snd (record_failure p n key t rs))))
    = take MAX_LOGIN_RECORDS (key # map la_keyHash (prune_attempts t rs))"
proof -
  have none: "attempt_of key (prune_attempts t rs) = None"
    using assms by (auto simp: attempt_of_def find_None_iff)
  have alive: "\<forall>r \<in> set (prune_attempts t rs). attempt_alive t r"
    by (auto simp: prune_attempts_def dest: in_set_takeD)
  obtain new where new: "record_failure p n key t rs = (new, new # prune_attempts t rs)" "la_keyHash new = key"
    by (simp add: record_failure_def Let_def none)
  have "attempt_alive t new" using failed_alive [of t p n key rs] new by simp
  then have "prune_attempts t (new # prune_attempts t rs) = take MAX_LOGIN_RECORDS (new # prune_attempts t rs)"
    using alive unfolding prune_attempts_def [of t "new # prune_attempts t rs"] by (simp add: filter_id_conv)
  moreover have "prune_attempts t (take MAX_LOGIN_RECORDS (new # prune_attempts t rs)) = take MAX_LOGIN_RECORDS (new # prune_attempts t rs)"
  proof -
    have "\<forall>r \<in> set (take MAX_LOGIN_RECORDS (new # prune_attempts t rs)). attempt_alive t r"
      using alive \<open>attempt_alive t new\<close> by (metis in_set_takeD set_ConsD)
    then show ?thesis unfolding prune_attempts_def [of t "take MAX_LOGIN_RECORDS (new # prune_attempts t rs)"] by (simp add: filter_id_conv)
  qed
  ultimately show ?thesis by (simp add: new take_map [symmetric])
qed

definition flood :: "crypto \<Rightarrow> draws \<Rightarrow> string \<Rightarrow> instant \<Rightarrow> 'a recovery_state_scheme \<Rightarrow> string list \<Rightarrow> 'a recovery_state_scheme" where
  "flood cr d team t st users = foldl (\<lambda>st u. snd (recordPasswordLoginFailure cr d team u False t st)) st users"

lemma take_cons_take: "take n (x # take n xs) = take n (x # xs)"
  by (cases n) (simp_all add: min_def)

lemma flood_keys:
  fixes K cr team defines "K \<equiv> tenantAwareLoginKey cr team"
  assumes "distinct (map K users)" and "\<forall>r \<in> set (rs_loginAttempts st). la_keyHash r \<notin> set (map K users)"
  shows "map la_keyHash (prune_attempts t (rs_loginAttempts (flood cr d team t st users)))
    = take MAX_LOGIN_RECORDS (rev (map K users) @ map la_keyHash (filter (attempt_alive t) (rs_loginAttempts st)))"
  using assms(2,3)
proof (induction users rule: rev_induct)
  case Nil
  then show ?case by (simp add: flood_def prune_attempts_def take_map)
next
  case (snoc u us)
  have prev: "map la_keyHash (prune_attempts t (rs_loginAttempts (flood cr d team t st us)))
      = take MAX_LOGIN_RECORDS (rev (map K us) @ map la_keyHash (filter (attempt_alive t) (rs_loginAttempts st)))"
    using snoc by auto
  have new: "K u \<notin> set (map la_keyHash (prune_attempts t (rs_loginAttempts (flood cr d team t st us))))"
    unfolding prev using snoc(2,3) by (fastforce dest!: in_set_takeD)
  have "flood cr d team t st (us @ [u]) = snd (recordPasswordLoginFailure cr d team u False t (flood cr d team t st us))"
    by (simp add: flood_def)
  then show ?case
    using fresh_failure [OF new, folded K_def] unfolding prev take_cons_take
    by (simp add: failure_attempts K_def [symmetric] del: take_append)
qed

lemma flooded:
  assumes "distinct (map (tenantAwareLoginKey cr team) users)" and "MAX_LOGIN_RECORDS \<le> length users"
    and "tenantAwareLoginKey cr team user \<notin> set (map (tenantAwareLoginKey cr team) users)"
    and "\<forall>r \<in> set (rs_loginAttempts st). la_keyHash r \<notin> set (map (tenantAwareLoginKey cr team) users)"
  shows "th_allowed (fst (passwordLoginStatus cr team user t (flood cr d team t st users)))"
proof -
  let ?rs = "prune_attempts t (rs_loginAttempts (flood cr d team t st users))"
  have "map la_keyHash ?rs = take MAX_LOGIN_RECORDS (rev (map (tenantAwareLoginKey cr team) users))"
    using flood_keys [OF assms(1,4)] assms(2) by simp
  then have "set (map la_keyHash ?rs) \<subseteq> set (map (tenantAwareLoginKey cr team) users)"
    by (metis set_rev set_take_subset)
  then have "attempt_of (tenantAwareLoginKey cr team user) ?rs = None"
    using assms(3) unfolding attempt_of_def find_None_iff set_map image_subset_iff by metis
  then show ?thesis by (simp add: passwordLoginStatus_def Let_def throttle_of_def)
qed

text \<open>Too many unknown names unlock an account.  The table of failures holds a thousand rows and drops the oldest
  ones, so a thousand rejected sign-ins for other names at one moment forget the lock of an account, whatever it was:
  its next password is admitted at once.\<close>

theorem flooded_lock_forgotten:
  assumes "distinct (map (tenantAwareLoginKey cr team) users)" and "1000 \<le> length users"
    and "tenantAwareLoginKey cr team user \<notin> set (map (tenantAwareLoginKey cr team) users)"
    and "\<forall>r \<in> set (rs_loginAttempts st). la_keyHash r \<notin> set (map (tenantAwareLoginKey cr team) users)"
  shows "th_allowed (fst (passwordLoginStatus cr team user t
    (foldl (\<lambda>st u. snd (recordPasswordLoginFailure cr d team u False t st)) st users)))"
  using flooded [OF assms(1) _ assms(3,4)] assms(2) by (simp add: flood_def MAX_LOGIN_RECORDS_def)

section \<open>Instances\<close>

definition plain_crypto :: crypto where
  "plain_crypto = \<lparr>cr_digest = (\<lambda>s. s), cr_nfkc = (\<lambda>s. s), cr_scrypt = (\<lambda>p s. []), cr_dummy = []\<rparr>"

definition quiet :: recovery_state where
  "quiet = \<lparr>id_users = [], id_sessions = [], id_tokens = [], id_challenges = [], id_audit = [],
     rs_loginAttempts = [], rs_recoveryAttempts = [], rs_alerts = [], rs_grants = []\<rparr>"

definition no_draws :: draws where
  "no_draws = \<lparr>dr_secret = [], dr_csrf = [], dr_id = [], dr_audit = []\<rparr>"

definition locked :: recovery_state where
  "locked = quiet\<lparr>rs_loginAttempts := [\<lparr>la_id = ''ila'', la_keyHash = tenantAwareLoginKey plain_crypto ''t'' ''bob'', la_failureCount = 19,
     la_firstFailedAt = 0, la_lastFailedAt = 0, la_nextAllowedAt = 0, la_disabled = False, la_lockedUntil = None\<rparr>]\<rparr>"

definition locked_out :: recovery_state where
  "locked_out = snd (recordPasswordLoginFailure plain_crypto no_draws ''t'' ''bob'' True 1 locked)"

theorem login_throttle_witness:
  "\<not> th_allowed (fst (passwordLoginStatus plain_crypto ''t'' ''bob'' 900000 locked_out))
    \<and> th_allowed (fst (passwordLoginStatus plain_crypto ''t'' ''bob'' 900001 locked_out))"
proof -
  obtain th where r: "recordPasswordLoginFailure plain_crypto no_draws ''t'' ''bob'' True 1 locked = (th, locked_out)"
    by (simp add: locked_out_def prod_eq_iff)
  have n: "20 = failures_of plain_crypto ''t'' ''bob'' locked_out" by code_simp
  have d: "distinct (map la_keyHash (rs_loginAttempts locked))" by (simp add: locked_def)
  show ?thesis
    using login_throttle [OF r d, of 900000 20] login_throttle [OF r d, of 900001 20] n by simp
qed

definition crowd :: "string list" where
  "crowd = map (\<lambda>n. replicate (Suc n) (CHR ''a'')) [0..<1000]"

lemma key_as:
  "tenantAwareLoginKey plain_crypto ''t'' (replicate (Suc n) (CHR ''a'')) = CHR ''t'' # CHR 0x00 # replicate (Suc n) (CHR ''a'')"
proof -
  have t: "js_lower (js_trim ''t'') = ''t''" and c: "lower_char (CHR ''a'') = CHR ''a''" "\<not> js_space (CHR ''a'')" by code_simp+
  have r: "dropWhile js_space (replicate (Suc n) (CHR ''a'')) = replicate (Suc n) (CHR ''a'')" using c(2) by simp
  have "js_trim (replicate (Suc n) (CHR ''a'')) = replicate (Suc n) (CHR ''a'')" unfolding js_trim_def r rev_replicate by (rule refl)
  then have "js_lower (js_trim (replicate (Suc n) (CHR ''a''))) = replicate (Suc n) (CHR ''a'')" by (simp add: js_lower_def c(1) del: replicate_Suc)
  then show ?thesis using t by (simp add: tenantAwareLoginKey_def normalizedIdentifier_def plain_crypto_def del: replicate_Suc)
qed

lemma crowd_keys: "map (tenantAwareLoginKey plain_crypto ''t'') crowd = map (\<lambda>n. CHR ''t'' # CHR 0x00 # replicate (Suc n) (CHR ''a'')) [0..<1000]"
  unfolding crowd_def list.map_comp comp_def key_as by (rule refl)

lemma locked_out_key: "map la_keyHash (rs_loginAttempts locked_out) = [tenantAwareLoginKey plain_crypto ''t'' ''bob'']"
  by code_simp

lemma bob_apart: "tenantAwareLoginKey plain_crypto ''t'' ''bob'' \<notin> set (map (tenantAwareLoginKey plain_crypto ''t'') crowd)"
proof -
  have "tenantAwareLoginKey plain_crypto ''t'' ''bob'' = CHR ''t'' # CHR 0x00 # ''bob''" by code_simp
  then show ?thesis unfolding crowd_keys by auto
qed

theorem flooded_lock_forgotten_witness:
  "\<not> th_allowed (fst (passwordLoginStatus plain_crypto ''t'' ''bob'' 2 locked_out))
    \<and> th_allowed (fst (passwordLoginStatus plain_crypto ''t'' ''bob'' 2
        (foldl (\<lambda>st u. snd (recordPasswordLoginFailure plain_crypto no_draws ''t'' u False 2 st)) locked_out crowd)))"
proof -
  have refused: "\<not> th_allowed (fst (passwordLoginStatus plain_crypto ''t'' ''bob'' 2 locked_out))" by code_simp
  have d: "distinct (map (tenantAwareLoginKey plain_crypto ''t'') crowd)"
    unfolding crowd_keys distinct_map by (auto simp: inj_on_def replicate_eq_replicate)
  have n: "1000 \<le> length crowd" by (simp add: crowd_def)
  have old: "\<forall>r \<in> set (rs_loginAttempts locked_out). la_keyHash r \<notin> set (map (tenantAwareLoginKey plain_crypto ''t'') crowd)"
    using locked_out_key bob_apart by (cases "rs_loginAttempts locked_out") auto
  from flooded_lock_forgotten [OF d n bob_apart old] refused show ?thesis by blast
qed

end
