(* ===== verification/SignIn.thy ===== *)
theory SignIn
  imports Recovery
begin

text \<open>
  routes/identity.mjs: the requests that start and end a session, issue and complete a password recovery and watch or
  cancel a challenge.  A body field is the text \<open>String\<close> gives for it, absent for null and undefined.  An answer is its
  status with what the caller learns; cookies set on the response are the secrets the operations drew.
\<close>

definition boundedIdentifier :: "crypto \<Rightarrow> nat \<Rightarrow> string option \<Rightarrow> string" where
  "boundedIdentifier cr maxLength v =
     (let text' = js_trim (coalesce v []) in if length text' \<le> maxLength then text' else ''invalid_'' @ cr_digest cr text')"

definition legacyBearer :: "string \<Rightarrow> identity_user \<Rightarrow> instant \<Rightarrow> 'a identity_state_scheme \<Rightarrow> 'a identity_state_scheme" where
  "legacyBearer token user t st =
     st\<lparr>id_tokens := take 20 (\<lparr>bt_token = token, bt_userId = iu_id user, bt_expiresAt = t + 30 * 24 * 60 * 60 * 1000, bt_revokedAt = None\<rparr>
                              # id_tokens st)\<rparr>"

section \<open>Signing in\<close>

record signin_body =
  sb_mode :: "string option"
  sb_userId :: "string option"
  sb_teamId :: "string option"
  sb_password :: "string option"

text \<open>A refusal has its status, its error and the seconds of the Retry-After header, zero for none.\<close>

datatype signin_answer = SignInRefused nat string int | SignedIn session "string option"

definition signin_mode :: "identity_policy \<Rightarrow> signin_body \<Rightarrow> string option" where
  "signin_mode policy body =
     (let requested = (if coalesce (sb_mode body) [] = [] then None else sb_mode body);
          legacyRequest = (requested = None \<and> ap_legacyLocalLogin policy)
      in case requested of
           Some m \<Rightarrow> Some m
         | None \<Rightarrow> if legacyRequest \<and> coalesce (sb_userId body) [] \<noteq> [] then Some ''password''
                   else if legacyRequest then Some ''local'' else None)"

definition hash_hex_char :: "char \<Rightarrow> bool" where
  "hash_hex_char c \<longleftrightarrow> c \<in> set ''0123456789abcdefABCDEF''"

definition scrypt_hash_ok :: "string \<Rightarrow> bool" where
  "scrypt_hash_ok stored =
     (case split_at (\<lambda>c. c = CHR ''$'') stored of
        [scheme, salt, hash] \<Rightarrow> js_lower scheme = ''scrypt'' \<and> length salt = 32 \<and> list_all hash_hex_char salt
          \<and> length hash = 128 \<and> list_all hash_hex_char hash
      | _ \<Rightarrow> False)"

definition bounded_password :: "signin_body \<Rightarrow> string" where
  "bounded_password body =
     (let supplied = coalesce (sb_password body) [] in if length supplied \<le> 128 then supplied else ''oversized-password-input'')"

text \<open>An unknown account, or one whose stored hash is not of the shape, is checked against the credential of the process.\<close>

definition stored_hash :: "crypto \<Rightarrow> identity_user option \<Rightarrow> string" where
  "stored_hash cr user =
     (case Option.bind user iu_passwordHash of
        None \<Rightarrow> cr_dummy cr
      | Some h \<Rightarrow> if scrypt_hash_ok h then h else cr_dummy cr)"

definition credential_accepted :: "crypto \<Rightarrow> identity_policy \<Rightarrow> string \<Rightarrow> identity_user option \<Rightarrow> bool" where
  "credential_accepted cr policy password user =
     (case user of None \<Rightarrow> False
      | Some u \<Rightarrow>
          (let has = (coalesce (iu_passwordHash u) [] \<noteq> [])
           in (ap_legacyLocalLogin policy \<and> \<not> has) \<or> (has \<and> verifyPassword cr password (stored_hash cr user))))"

definition signin_team :: "crypto \<Rightarrow> identity_policy \<Rightarrow> signin_body \<Rightarrow> 'a identity_state_scheme \<Rightarrow> string option" where
  "signin_team cr policy body st =
     (let asked = boundedIdentifier cr 128 (sb_teamId body)
      in if asked \<noteq> [] then Some asked
         else if ap_legacyLocalLogin policy then Option.bind (find_user st (boundedIdentifier cr 128 (sb_userId body))) iu_teamId
         else Some [])"

definition passwordSignIn ::
    "crypto \<Rightarrow> draws \<Rightarrow> identity_policy \<Rightarrow> signin_body \<Rightarrow> instant \<Rightarrow> 'a recovery_state_scheme
     \<Rightarrow> (signin_answer + identity_user) \<times> 'a recovery_state_scheme" where
  "passwordSignIn cr d policy body t st =
     (if \<not> ap_passwordMode policy then (Inl (SignInRefused 403 ''password_mode_disabled'' 0), st)
      else
        (let uid = boundedIdentifier cr 128 (sb_userId body); lookup = signin_team cr policy body st; team = coalesce lookup [];
             strict = (\<not> ap_legacyLocalLogin policy);
             (status, st1) = (if strict then passwordLoginStatus cr team uid t st else (throttle_of t None, st));
             user = List.find (\<lambda>u. iu_id u = uid \<and> iu_teamId u = lookup) (id_users st1)
         in if \<not> th_allowed status then (Inl (SignInRefused 429 ''invalid_credentials'' (th_retryAfterSeconds status)), st1)
            else if \<not> credential_accepted cr policy (bounded_password body) user then
              (Inl (SignInRefused 401 ''invalid_credentials'' 0),
               if strict then snd (recordPasswordLoginFailure cr d team uid (user \<noteq> None) t st1) else st1)
            else (Inr (the user), if strict then clearPasswordLoginFailures cr team uid t st1 else st1)))"

text \<open>The clock is read once for the check and once for the session.\<close>

definition signIn ::
    "crypto \<Rightarrow> draws \<Rightarrow> string \<Rightarrow> identity_policy \<Rightarrow> signin_body \<Rightarrow> instant \<Rightarrow> instant \<Rightarrow> 'a recovery_state_scheme
     \<Rightarrow> signin_answer \<times> 'a recovery_state_scheme" where
  "signIn cr d token policy body t t' st =
     (case signin_mode policy body of
        None \<Rightarrow> (SignInRefused 400 ''identity_mode_required'' 0, st)
      | Some mode \<Rightarrow>
          (let (checked, st1) =
             (if mode = ''local'' then
                (if \<not> ap_localMode policy then (Inl (SignInRefused 403 ''local_mode_disabled'' 0), st)
                 else (case find_user st ''usr_local'' of
                         None \<Rightarrow> (Inl (SignInRefused 503 ''identity_unavailable'' 0), st)
                       | Some u \<Rightarrow> (Inr u, st)))
              else if mode = ''password'' then passwordSignIn cr d policy body t st
              else (Inl (SignInRefused 400 ''unsupported_identity_mode'' 0), st))
           in case checked of
                Inl refusal \<Rightarrow> (refusal, st1)
              | Inr u \<Rightarrow>
                  (let (s, st2) = createServerSession (cr_digest cr) d u t' mode st1
                   in if ap_legacyBearerIssue policy then (SignedIn s (Some token), legacyBearer token u t' st2)
                      else (SignedIn s None, st2))))"

section \<open>Signing out\<close>

text \<open>\<open>/^Bearer\s+/i\<close> is taken off the front; without it the whole header is the token.\<close>

definition strip_bearer :: "string option \<Rightarrow> string" where
  "strip_bearer header =
     (let h = coalesce header []
      in if js_lower (take 6 h) = ''bearer'' \<and> takeWhile js_space (drop 6 h) \<noteq> [] then dropWhile js_space (drop 6 h) else h)"

definition signOut :: "draws \<Rightarrow> resolved_actor \<Rightarrow> string option \<Rightarrow> instant \<Rightarrow> 'a identity_state_scheme \<Rightarrow> 'a identity_state_scheme" where
  "signOut d actor header t st =
     (let st1 = (case ra_sessionId actor of None \<Rightarrow> st | Some i \<Rightarrow> if i = [] then st else snd (revokeServerSession d i t st));
          token = strip_bearer header
      in if token = [] then st1 else st1\<lparr>id_tokens := filter (\<lambda>b. bt_token b \<noteq> token) (id_tokens st1)\<rparr>)"

definition signOutEverywhere :: "draws \<Rightarrow> resolved_actor \<Rightarrow> instant \<Rightarrow> 'a identity_state_scheme \<Rightarrow> nat \<times> 'a identity_state_scheme" where
  "signOutEverywhere d actor t st =
     (if \<not> ra_authenticated actor \<or> coalesce (ra_userId actor) [] = [] then (401, st)
      else (204, snd (revokeAllUserSessions d (coalesce (ra_userId actor) []) t st)))"

section \<open>Recovery\<close>

definition issueRecovery ::
    "crypto \<Rightarrow> draws \<Rightarrow> resolved_actor \<Rightarrow> string option \<Rightarrow> string option \<Rightarrow> instant \<Rightarrow> 'a recovery_state_scheme
     \<Rightarrow> (nat \<times> (string \<times> recovery_grant) option) \<times> 'a recovery_state_scheme" where
  "issueRecovery cr d actor userId purpose t st =
     (let target = List.find (\<lambda>u. iu_id u = boundedIdentifier cr 128 userId \<and> iu_teamId u = ra_teamId actor) (id_users st)
      in case createPasswordRecoveryGrant cr d actor target (coalesce purpose ''password_reset'') t st of
           (Inl e, st1) \<Rightarrow> ((403, None), st1)
         | (Inr issued, st1) \<Rightarrow> ((201, Some issued), st1))"

record recovery_body =
  rb_teamId :: "string option"
  rb_userId :: "string option"
  rb_purpose :: "string option"
  rb_recoveryToken :: "string option"
  rb_newPassword :: "string option"

definition completeRecovery ::
    "crypto \<Rightarrow> draws \<Rightarrow> string \<Rightarrow> recovery_body \<Rightarrow> instant \<Rightarrow> 'a recovery_state_scheme \<Rightarrow> (nat \<times> recovery_answer) \<times> 'a recovery_state_scheme" where
  "completeRecovery cr d salt body t st =
     (let (a, st1) = completePasswordRecovery cr d salt (boundedIdentifier cr 128 (rb_teamId body)) (boundedIdentifier cr 128 (rb_userId body))
            (coalesce (rb_purpose body) ''password_reset'') (boundedIdentifier cr 256 (rb_recoveryToken body))
            (coalesce (rb_newPassword body) []) t st
      in ((case a of PasswordRefused e \<Rightarrow> 400 | RecoveryThrottled s \<Rightarrow> 429 | RecoveryFailed \<Rightarrow> 401 | RecoveryDone n \<Rightarrow> 200, a), st1))"

definition securityAlerts :: "resolved_actor \<Rightarrow> 'a recovery_state_scheme \<Rightarrow> nat \<times> security_alert list" where
  "securityAlerts actor st = (case listIdentitySecurityAlerts actor st of None \<Rightarrow> (403, []) | Some alerts \<Rightarrow> (200, alerts))"

section \<open>Watching and cancelling a challenge\<close>

text \<open>\<open>cancel\<close> tells DELETE from GET; the answer is the state the caller sees, none for the 404.\<close>

definition challengeRoute ::
    "(string \<Rightarrow> string) \<Rightarrow> draws \<Rightarrow> draws \<Rightarrow> bool \<Rightarrow> string \<Rightarrow> string option \<Rightarrow> instant \<Rightarrow> instant \<Rightarrow> 'a identity_state_scheme
     \<Rightarrow> challenge option \<times> 'a identity_state_scheme" where
  "challengeRoute digest d d' cancel i binding t t' st =
     (let secret = coalesce binding []
      in case find_challenge st i of
           None \<Rightarrow> (None, st)
         | Some c \<Rightarrow>
             if secret = [] \<or> ch_bindingHash c \<noteq> digest secret then (None, st)
             else
               (let st1 = snd (expireIdentityChallenge d i t st);
                    st2 = (if cancel then snd (cancelIdentityChallenge digest d' i secret t' st1) else st1)
                in (find_challenge st2 i, st2)))"

end
