(* ===== verification/IdentityRuns.thy ===== *)
theory IdentityRuns
  imports Identity
begin

text \<open>
  Sequences of identity operations: which requests a session still answers, what a revocation ends for good, and the
  life of a challenge against its abstract machine.
\<close>

section \<open>Steps\<close>

text \<open>\<open>hash_ok\<close> says which hashes the secrets of later sessions may have, \<open>id_ok\<close> which ids later challenges may have; an id
  that is drawn is not one of the table.\<close>

inductive id_step :: "(string \<Rightarrow> string) \<Rightarrow> (string \<Rightarrow> bool) \<Rightarrow> (string \<Rightarrow> bool) \<Rightarrow> 'a identity_state_scheme \<Rightarrow> 'a identity_state_scheme \<Rightarrow> bool"
  for digest hash_ok id_ok where
  login: "hash_ok (digest (dr_secret d)) \<Longrightarrow> id_step digest hash_ok id_ok st (snd (createServerSession digest d u t mode st))"
| request: "id_step digest hash_ok id_ok st (snd (resolveServerSession digest cookie t st))"
| logout: "id_step digest hash_ok id_ok st (snd (revokeServerSession d i t st))"
| logout_all: "id_step digest hash_ok id_ok st (snd (revokeAllUserSessions d i t st))"
| challenge: "id_ok (dr_id d) \<Longrightarrow> find_challenge st (dr_id d) = None \<Longrightarrow>
    id_step digest hash_ok id_ok st (snd (createIdentityChallenge digest d p b uri dev t st))"
| authorize: "id_step digest hash_ok id_ok st (snd (authorizeIdentityChallenge digest d i b sub t st))"
| consume: "id_step digest hash_ok id_ok st (snd (consumeIdentityChallenge digest d i b t st))"
| expire: "id_step digest hash_ok id_ok st (snd (expireIdentityChallenge d i t st))"
| cancel: "id_step digest hash_ok id_ok st (snd (cancelIdentityChallenge digest d i b t st))"
| reject: "id_step digest hash_ok id_ok st (snd (rejectIdentityChallenge d i r t st))"

inductive_cases id_stepE: "id_step digest hash_ok id_ok st st'"

lemmas challenge_ops = createIdentityChallenge_def authorizeIdentityChallenge_def consumeIdentityChallenge_def
  expireIdentityChallenge_def cancelIdentityChallenge_def rejectIdentityChallenge_def expire_now_def set_challenge_def auditIdentity_def

text \<open>No operation on a challenge touches a session, and the other way round.\<close>

lemma challenge_ops_sessions [frame]:
  "id_sessions (snd (createIdentityChallenge digest d p b uri dev t st)) = id_sessions st"
  "id_sessions (snd (authorizeIdentityChallenge digest d i b sub t st)) = id_sessions st"
  "id_sessions (snd (consumeIdentityChallenge digest d i b t st)) = id_sessions st"
  "id_sessions (snd (expireIdentityChallenge d i t st)) = id_sessions st"
  "id_sessions (snd (cancelIdentityChallenge digest d i b t st)) = id_sessions st"
  "id_sessions (snd (rejectIdentityChallenge d i r t st)) = id_sessions st"
  by (auto simp: challenge_ops Let_def split: option.splits)

lemma session_ops_challenges [frame]:
  "id_challenges (snd (createServerSession digest d u t mode st)) = id_challenges st"
  "id_challenges (snd (resolveServerSession digest cookie t st)) = id_challenges st"
  "id_challenges (snd (revokeServerSession d i t st)) = id_challenges st"
  "id_challenges (snd (revokeAllUserSessions d i t st)) = id_challenges st"
  by (auto simp: createServerSession_def resolveServerSession_def revokeServerSession_def revokeAllUserSessions_def auditIdentity_def
      Let_def split: option.splits)

section \<open>What every session keeps\<close>

text \<open>An invariant of sessions that a new one has, a request keeps and a revocation keeps.\<close>

locale session_law =
  fixes law :: "session \<Rightarrow> bool" and digest :: "string \<Rightarrow> string" and hash_ok :: "string \<Rightarrow> bool"
  assumes law_new: "hash_ok (digest (dr_secret d)) \<Longrightarrow> law (new_session digest d u t mode)"
    and law_touch: "law s \<Longrightarrow> law (touch t s)"
    and law_revoke: "law s \<Longrightarrow> law (s\<lparr>se_revokedAt := Some t\<rparr>)"
begin

lemma step_keeps:
  assumes "id_step digest hash_ok id_ok st st'" and "\<forall>s \<in> set (id_sessions st). law s"
  shows "\<forall>s \<in> set (id_sessions st'). law s"
  using assms
proof (cases rule: id_step.cases)
  case (login d u t mode)
  then show ?thesis
    using assms(2) law_new set_take_subset [of 200 "new_session digest d u t mode # id_sessions st"]
    by (auto simp: createServerSession_def auditIdentity_def Let_def)
next
  case (request cookie t)
  then show ?thesis
    using assms(2) law_touch
    by (auto simp: resolveServerSession_def Let_def split: option.splits dest!: set_upd_first find_SomeD)
next
  case (logout d i t)
  then show ?thesis
    using assms(2) law_revoke
    by (auto simp: revokeServerSession_def auditIdentity_def split: option.splits dest!: set_upd_first find_SomeD)
next
  case (logout_all d i t)
  then show ?thesis
    using assms(2) law_revoke
    by (auto simp: revokeAllUserSessions_def auditIdentity_def Let_def set_upd_where split: option.splits)
qed (use assms(2) in \<open>simp_all add: frame\<close>)

lemma run_keeps:
  "(id_step digest hash_ok id_ok)\<^sup>*\<^sup>* st st' \<Longrightarrow> \<forall>s \<in> set (id_sessions st). law s \<Longrightarrow> \<forall>s \<in> set (id_sessions st'). law s"
  by (induction rule: rtranclp_induct) (use step_keeps in blast)+

end

definition timely :: "session \<Rightarrow> bool" where
  "timely s \<longleftrightarrow> se_absoluteExpiresAt s = se_createdAt s + SESSION_ABSOLUTE_MS
     \<and> se_idleExpiresAt s \<le> se_absoluteExpiresAt s \<and> se_idleExpiresAt s \<le> se_lastSeenAt s + SESSION_IDLE_MS"

interpretation timely: session_law timely digest hash_ok for digest hash_ok
  by unfold_locales (auto simp: timely_def new_session_def touch_def SESSION_ABSOLUTE_MS_def SESSION_IDLE_MS_def)

definition ended :: "string \<Rightarrow> session \<Rightarrow> bool" where
  "ended h s \<longleftrightarrow> (se_tokenHash s = h \<longrightarrow> se_revokedAt s \<noteq> None)"

interpretation ended: session_law "ended h" digest "\<lambda>x. x \<noteq> h" for h digest
  by unfold_locales (auto simp: ended_def new_session_def touch_def)

section \<open>Which requests a session answers\<close>

lemma resolve_sound:
  assumes "resolveServerSession digest cookie t st = (Some (s, u, touched), st')"
  shows "\<exists>s0. List.find (\<lambda>x. se_tokenHash x = digest (coalesce cookie [])) (id_sessions st) = Some s0
    \<and> se_revokedAt s0 = None \<and> t < se_idleExpiresAt s0 \<and> t < se_absoluteExpiresAt s0
    \<and> find_user st (se_userId s0) = Some u \<and> iu_teamId u = se_teamId s0 \<and> epoch_of u = se_sessionEpoch s0
    \<and> s = (if touched then touch t s0 else s0)"
  using assms by (auto simp: resolveServerSession_def Let_def split: option.splits if_splits)

text \<open>C28: A session answers only its own user, and only for a while.  After any operations on an identity state that began
  without sessions, a cookie resolves only through a session whose stored hash is the digest of the cookie, that was not
  revoked, whose user still exists with the same team and the same session epoch, less than thirty minutes after its
  last recorded request and less than twelve hours after the login, however often it was used.\<close>

theorem session_resolution:
  assumes "(id_step digest hash_ok id_ok)\<^sup>*\<^sup>* st0 st" and "id_sessions st0 = []"
    and "resolveServerSession digest cookie t st = (Some (s, u, touched), st')"
  shows "\<exists>s0 \<in> set (id_sessions st). se_tokenHash s0 = digest (coalesce cookie []) \<and> se_revokedAt s0 = None
    \<and> find_user st (se_userId s0) = Some u \<and> iu_teamId u = se_teamId s0 \<and> epoch_of u = se_sessionEpoch s0
    \<and> t < se_lastSeenAt s0 + 30 * 60 * 1000 \<and> t < se_createdAt s0 + 12 * 60 * 60 * 1000
    \<and> se_id s = se_id s0 \<and> se_absoluteExpiresAt s = se_absoluteExpiresAt s0"
proof -
  obtain s0 where s0: "List.find (\<lambda>x. se_tokenHash x = digest (coalesce cookie [])) (id_sessions st) = Some s0"
    "se_revokedAt s0 = None" "t < se_idleExpiresAt s0" "t < se_absoluteExpiresAt s0"
    "find_user st (se_userId s0) = Some u" "iu_teamId u = se_teamId s0" "epoch_of u = se_sessionEpoch s0"
    "s = (if touched then touch t s0 else s0)"
    using resolve_sound [OF assms(3)] by blast
  have "timely s0" using timely.run_keeps [OF assms(1)] assms(2) find_SomeD [OF s0(1)] by simp
  then show ?thesis
    using s0 find_SomeD [OF s0(1)]
    by (intro bexI [of _ s0]) (auto simp: timely_def touch_def SESSION_ABSOLUTE_MS_def SESSION_IDLE_MS_def)
qed

section \<open>What a revocation ends\<close>

lemma revoke_all_ends:
  assumes "find_user st uid = Some u" and "\<forall>s \<in> set (id_sessions st). se_tokenHash s = h \<longrightarrow> se_userId s = uid"
  shows "\<forall>s \<in> set (id_sessions (snd (revokeAllUserSessions d uid t st))). ended h s"
  using assms by (auto simp: revokeAllUserSessions_def auditIdentity_def Let_def set_upd_where live_of_def ended_def)

lemma ended_unresolved:
  assumes "\<forall>s \<in> set (id_sessions st). ended (digest secret) s"
  shows "fst (resolveServerSession digest (Some secret) t st) = None"
proof (rule ccontr)
  assume "fst (resolveServerSession digest (Some secret) t st) \<noteq> None"
  then obtain s u touched st' where "resolveServerSession digest (Some secret) t st = (Some (s, u, touched), st')"
    by (cases "resolveServerSession digest (Some secret) t st") auto
  with resolve_sound obtain s0 where
    "List.find (\<lambda>x. se_tokenHash x = digest (coalesce (Some secret) [])) (id_sessions st) = Some s0" "se_revokedAt s0 = None"
    by blast
  then show False using assms by (auto simp: ended_def dest: find_SomeD)
qed

lemma unresolved_same:
  "fst (resolveServerSession digest cookie t st) = None \<Longrightarrow> snd (resolveServerSession digest cookie t st) = st"
  by (auto simp: resolveServerSession_def Let_def split: option.splits if_splits)

text \<open>Signing out everywhere is final.  After all sessions of a user are revoked, no cookie of theirs resolves again,
  whatever operations follow, as long as no later login draws the same secret; and while authentication is
  required, a request with that cookie and no live bearer token acts as nobody.\<close>

theorem logout_everywhere:
  assumes "find_user st uid = Some u" and "revokeAllUserSessions d uid t st = (n, st1)"
    and "\<forall>s \<in> set (id_sessions st). se_tokenHash s = digest secret \<longrightarrow> se_userId s = uid"
    and "(id_step digest (\<lambda>h. h \<noteq> digest secret) id_ok)\<^sup>*\<^sup>* st1 st2"
  shows "fst (resolveServerSession digest (Some secret) t' st2) = None
    \<and> (ap_requireAuth policy \<longrightarrow> live_token policy header t' st2 = None
      \<longrightarrow> fst (resolveActor digest policy (Some secret) header t' st2) = anonymous)"
proof -
  have "\<forall>s \<in> set (id_sessions st1). ended (digest secret) s"
    using revoke_all_ends [OF assms(1,3), of d t] assms(2) by simp
  then have "\<forall>s \<in> set (id_sessions st2). ended (digest secret) s" by (rule ended.run_keeps [OF assms(4)])
  then have none: "fst (resolveServerSession digest (Some secret) t' st2) = None" by (rule ended_unresolved)
  then show ?thesis
    using unresolved_same [OF none]
    by (cases "resolveServerSession digest (Some secret) t' st2") (simp add: resolveActor_def Let_def)
qed

text \<open>A live bearer token of a deleted user acts as the local owner.  When the user of a live token is gone, the
  actor falls back to the seeded local user but keeps the mark of an authenticated request: the token now carries the authority of
  the local user, even when authentication is required.\<close>

theorem orphan_token_is_local_user:
  assumes "fst (resolveServerSession digest cookie t st) = None" and "live_token policy header t st = Some b"
    and "find_user st (bt_userId b) = None" and "find_user st ''usr_local'' = Some l"
  shows "let a = fst (resolveActor digest policy cookie header t st)
    in ra_authenticated a \<and> ra_userId a = Some ''usr_local'' \<and> ra_role a = coalesce (iu_role l) ''owner''"
proof -
  have "iu_id l = ''usr_local''" using assms(4) by (auto simp: find_user_def dest: find_SomeD)
  then show ?thesis
    using assms unresolved_same [OF assms(1)]
    by (cases "resolveServerSession digest cookie t st"; cases "iu_role l") (simp_all add: resolveActor_def Let_def)
qed

section \<open>The life of a challenge\<close>

definition phase_of :: "'a identity_state_scheme \<Rightarrow> string \<Rightarrow> challenge_state option" where
  "phase_of st i = map_option ch_state (find_challenge st i)"

text \<open>The abstract machine of one challenge: \<open>None\<close> is an id the table does not hold, because it was never drawn or its
  row fell off the end of the bounded table.  \<open>fresh\<close> says that the id may still be drawn.\<close>

inductive phase_edge :: "bool \<Rightarrow> challenge_state option \<Rightarrow> challenge_state option \<Rightarrow> bool" for fresh where
  stay: "phase_edge fresh p p"
| evicted: "phase_edge fresh p None"
| opened: "fresh \<Longrightarrow> phase_edge fresh None (Some Pending)"
| granted: "phase_edge fresh (Some Pending) (Some Authorized)"
| used: "phase_edge fresh (Some Authorized) (Some Consumed)"
| closed: "p \<in> {Pending, Authorized} \<Longrightarrow> q \<in> {Expired, Cancelled, Rejected} \<Longrightarrow> phase_edge fresh (Some p) (Some q)"

inductive_simps from_consumed: "phase_edge fresh (Some Consumed) q"
inductive_simps from_none: "phase_edge fresh None q"

lemma phase_set:
  assumes "\<And>c. ch_id (f c) = ch_id c"
  shows "phase_of (set_challenge i f st) j = (if j = i then map_option (\<lambda>c. ch_state (f c)) (find_challenge st i) else phase_of st j)"
  using assms find_upd_first_same [of "\<lambda>c. ch_id c = i" f "id_challenges st"]
    find_upd_first_other [of "\<lambda>c. ch_id c = i" "\<lambda>c. ch_id c = j" f "id_challenges st"]
  by (auto simp: phase_of_def find_challenge_def set_challenge_def option.map_comp comp_def)

lemma phase_audit [simp]: "phase_of (auditIdentity e st) j = phase_of st j" "find_challenge (auditIdentity e st) j = find_challenge st j"
  by (simp_all add: phase_of_def find_challenge_def auditIdentity_def)

lemma phase_found: "find_challenge st i = Some c \<Longrightarrow> phase_of st i = Some (ch_state c)"
  by (simp add: phase_of_def)

lemma phase_frame: "id_challenges st' = id_challenges st \<Longrightarrow> phase_of st' j = phase_of st j"
  by (simp add: phase_of_def find_challenge_def)

lemmas session_phase = session_ops_challenges [THEN phase_frame]

lemma create_edge:
  assumes "find_challenge st (dr_id d) = None" and "dr_id d = j \<Longrightarrow> fresh"
  shows "phase_edge fresh (phase_of st j) (phase_of (snd (createIdentityChallenge digest d p b uri dev t st)) j)"
proof (cases "dr_id d = j")
  case True
  then show ?thesis
    using assms by (auto simp: createIdentityChallenge_def new_challenge_def phase_of_def find_challenge_def Let_def auditIdentity_def intro: phase_edge.intros)
next
  case False
  then show ?thesis
    using find_take [of "\<lambda>c. ch_id c = j" 499 "id_challenges st"]
    by (auto simp: createIdentityChallenge_def new_challenge_def phase_of_def find_challenge_def Let_def auditIdentity_def intro: phase_edge.intros)
qed

lemma found_id: "find_challenge st i = Some c \<Longrightarrow> ch_id c = i"
  by (auto simp: find_challenge_def dest: find_SomeD)

lemma edge_at:
  assumes "find_challenge st i = Some c" and "\<And>c. ch_id (f c) = ch_id c" and "phase_edge fresh (Some (ch_state c)) (Some (ch_state (f c)))"
  shows "phase_edge fresh (phase_of st j) (phase_of (set_challenge i f st) j)"
  using assms by (auto simp: phase_set phase_found intro: phase_edge.stay)

lemma authorize_edge: "phase_edge fresh (phase_of st j) (phase_of (snd (authorizeIdentityChallenge digest d i b sub t st)) j)"
  by (cases "find_challenge st i")
    (auto simp: authorizeIdentityChallenge_def expire_now_def Let_def found_id intro!: edge_at intro: phase_edge.intros)

lemma consume_edge: "phase_edge fresh (phase_of st j) (phase_of (snd (consumeIdentityChallenge digest d i b t st)) j)"
  by (cases "find_challenge st i")
    (auto simp: consumeIdentityChallenge_def Let_def intro!: edge_at intro: phase_edge.intros)

lemma closing_edge:
  "phase_edge fresh (phase_of st j) (phase_of (snd (expireIdentityChallenge d i t st)) j)"
  "phase_edge fresh (phase_of st j) (phase_of (snd (cancelIdentityChallenge digest d i b t st)) j)"
  "phase_edge fresh (phase_of st j) (phase_of (snd (rejectIdentityChallenge d i r t st)) j)"
  by (cases "find_challenge st i";
      auto simp: expireIdentityChallenge_def cancelIdentityChallenge_def rejectIdentityChallenge_def expire_now_def open_challenge_def
        Let_def found_id intro!: edge_at intro: phase_edge.intros)+

lemma step_edge:
  assumes "id_step digest hash_ok id_ok st st'"
  shows "phase_edge (id_ok j) (phase_of st j) (phase_of st' j)"
  using assms
proof (cases rule: id_step.cases)
  case (challenge d p b uri dev t)
  show ?thesis unfolding challenge(1) by (rule create_edge) (use challenge in auto)
qed (simp_all add: session_phase phase_edge.stay authorize_edge consume_edge closing_edge)

lemma stays_used:
  assumes "(id_step digest hash_ok (\<lambda>k. k \<noteq> i))\<^sup>*\<^sup>* st st'" and "phase_of st i \<in> {Some Consumed, None}"
  shows "phase_of st' i \<in> {Some Consumed, None}"
  using assms
proof (induction rule: rtranclp_induct)
  case (step y z)
  from step_edge [OF step(2), of i] step(3,4) show ?case by (auto simp: from_consumed from_none)
qed

text \<open>A challenge lives by its machine.  Every operation moves every challenge along an edge of the machine: it opens
  pending, can be authorized only while pending and consumed only while authorized, and never leaves the state of
  being consumed, expired, cancelled or rejected, except that its row may fall off the bounded table.\<close>

theorem challenge_refines:
  assumes "id_step digest hash_ok id_ok st st'"
  shows "phase_edge (id_ok j) (phase_of st j) (phase_of st' j)"
  by (rule step_edge [OF assms])

text \<open>C32: A challenge is used once.  When consuming a challenge succeeds, it had been authorized, the caller held the secret it is
  bound to and its two minutes were not over; and whatever operations follow, as long as the id is not drawn again,
  neither consuming nor authorizing it ever succeeds again.\<close>

theorem challenge_single_use:
  assumes "consumeIdentityChallenge digest d i b t st = (Inr c, st1)"
    and "(id_step digest hash_ok (\<lambda>k. k \<noteq> i))\<^sup>*\<^sup>* st1 st2"
  shows "(\<exists>c0. find_challenge st i = Some c0 \<and> ch_state c0 = Authorized \<and> ch_bindingHash c0 = digest b \<and> t < ch_expiresAt c0)
    \<and> (\<exists>e. fst (consumeIdentityChallenge digest d' i b' t' st2) = Inl e)
    \<and> (\<exists>e. fst (authorizeIdentityChallenge digest d' i b' sub t' st2) = Inl e)"
proof -
  obtain c0 where c0: "find_challenge st i = Some c0" "ch_state c0 = Authorized" "ch_bindingHash c0 = digest b" "t < ch_expiresAt c0"
    using assms(1) by (auto simp: consumeIdentityChallenge_def Let_def split: option.splits if_splits)
  have "phase_of (snd (consumeIdentityChallenge digest d i b t st)) i = Some Consumed"
    using c0 by (simp add: consumeIdentityChallenge_def Let_def phase_set)
  then have "phase_of st2 i \<in> {Some Consumed, None}" using stays_used [OF assms(2)] assms(1) by simp
  then show ?thesis
    using c0 by (cases "find_challenge st2 i") (auto simp: phase_of_def consumeIdentityChallenge_def authorizeIdentityChallenge_def)
qed

section \<open>Instances\<close>

definition ann :: identity_user where
  "ann = \<lparr>iu_id = ''usr_a'', iu_teamId = Some ''team_a'', iu_role = Some ''operator'', iu_sessionEpoch = None, iu_passwordHash = None,
     iu_credentialUpdatedAt = None\<rparr>"

definition local_owner :: identity_user where
  "local_owner = \<lparr>iu_id = ''usr_local'', iu_teamId = Some ''team_local'', iu_role = Some ''owner'', iu_sessionEpoch = None, iu_passwordHash = None,
     iu_credentialUpdatedAt = None\<rparr>"

definition demo_identity :: identity_state where
  "demo_identity = \<lparr>id_users = [ann, local_owner], id_sessions = [],
     id_tokens = [\<lparr>bt_token = ''tok'', bt_userId = ''usr_gone'', bt_expiresAt = 100, bt_revokedAt = None\<rparr>],
     id_challenges = [], id_audit = []\<rparr>"

definition demo_draws :: draws where
  "demo_draws = \<lparr>dr_secret = ''sid'', dr_csrf = ''csrf'', dr_id = ''ids_1'', dr_audit = ''ida_1''\<rparr>"

definition logged_in :: identity_state where
  "logged_in = snd (createServerSession (\<lambda>s. s) demo_draws ann 0 ''password'' demo_identity)"

lemmas demo_defs = demo_identity_def demo_draws_def ann_def local_owner_def

lemma logged_in_step: "id_step (\<lambda>s. s) (\<lambda>h. True) (\<lambda>i. True) demo_identity logged_in"
  unfolding logged_in_def by (rule id_step.login) simp

lemma demo_resolves: "\<exists>s. resolveServerSession (\<lambda>s. s) (Some ''sid'') 5 logged_in = (Some (s, ann, False), logged_in)"
  by (simp add: resolveServerSession_def logged_in_def createServerSession_def new_session_def auditIdentity_def find_user_def demo_defs
      SESSION_IDLE_MS_def SESSION_ABSOLUTE_MS_def Let_def)

theorem session_resolution_witness:
  "\<exists>s0 \<in> set (id_sessions logged_in). se_tokenHash s0 = ''sid'' \<and> find_user logged_in (se_userId s0) = Some ann"
proof -
  obtain s where s: "resolveServerSession (\<lambda>s. s) (Some ''sid'') 5 logged_in = (Some (s, ann, False), logged_in)"
    using demo_resolves by blast
  have e: "id_sessions demo_identity = []" by (simp add: demo_identity_def)
  have r: "(id_step (\<lambda>s. s) (\<lambda>h. True) (\<lambda>i. True))\<^sup>*\<^sup>* demo_identity logged_in"
    using logged_in_step by (rule r_into_rtranclp)
  from session_resolution [OF r e s] show ?thesis by auto
qed

lemma ann_found: "find_user logged_in ''usr_a'' = Some ann"
  by (simp add: find_user_def logged_in_def createServerSession_def auditIdentity_def demo_defs Let_def)

lemma demo_sessions: "map se_userId (id_sessions logged_in) = [''usr_a'']"
  by (simp add: logged_in_def createServerSession_def auditIdentity_def new_session_def demo_defs Let_def)

theorem logout_everywhere_witness:
  "fst (resolveServerSession (\<lambda>s. s) (Some ''sid'') 7 (snd (revokeAllUserSessions demo_draws ''usr_a'' 6 logged_in))) = None"
proof -
  have own: "\<forall>s \<in> set (id_sessions logged_in). se_tokenHash s = ''sid'' \<longrightarrow> se_userId s = ''usr_a''"
    using demo_sessions by (cases "id_sessions logged_in") auto
  obtain n st1 where r: "revokeAllUserSessions demo_draws ''usr_a'' 6 logged_in = (n, st1)" by (meson surj_pair)
  have "fst (resolveServerSession (\<lambda>s. s) (Some ''sid'') 7 st1) = None"
    using logout_everywhere [where digest = "\<lambda>s. s" and secret = "''sid''", OF ann_found r own] by blast
  then show ?thesis by (simp add: r)
qed

definition strict_policy :: identity_policy where
  "strict_policy = identityPolicyFromEnv (\<lambda>k. if k = ''MYAGENT_REQUIRE_AUTH'' then Some ''1'' else None)"

lemma demo_token: "live_token strict_policy (Some ''Bearer tok'') 5 demo_identity
    = Some \<lparr>bt_token = ''tok'', bt_userId = ''usr_gone'', bt_expiresAt = 100, bt_revokedAt = None\<rparr>"
proof -
  have "bearer (Some ''Bearer tok'') = Some ''tok''" "ap_legacyBearerRead strict_policy" by code_simp+
  then show ?thesis by (simp add: live_token_def tokenLive_def demo_identity_def)
qed

theorem orphan_token_is_local_user_witness:
  "ra_authenticated (fst (resolveActor (\<lambda>s. s) strict_policy None (Some ''Bearer tok'') 5 demo_identity))
    \<and> ra_userId (fst (resolveActor (\<lambda>s. s) strict_policy None (Some ''Bearer tok'') 5 demo_identity)) = Some ''usr_local''
    \<and> ra_role (fst (resolveActor (\<lambda>s. s) strict_policy None (Some ''Bearer tok'') 5 demo_identity)) = ''owner''"
proof -
  have n: "fst (resolveServerSession (\<lambda>s. s) None 5 demo_identity) = None" by (simp add: resolveServerSession_def)
  have g: "find_user demo_identity (bt_userId \<lparr>bt_token = ''tok'', bt_userId = ''usr_gone'', bt_expiresAt = 100, bt_revokedAt = None\<rparr>) = None"
    "find_user demo_identity ''usr_local'' = Some local_owner"
    by (simp_all add: find_user_def demo_defs)
  show ?thesis
    using orphan_token_is_local_user [OF n demo_token g] by (simp add: Let_def local_owner_def)
qed

definition opened_challenge :: identity_state where
  "opened_challenge = snd (createIdentityChallenge (\<lambda>s. s) (demo_draws\<lparr>dr_id := ''idc''\<rparr>) ''feishu'' ''bind'' ''uri'' None 0 demo_identity)"

definition granted_challenge :: identity_state where
  "granted_challenge = snd (authorizeIdentityChallenge (\<lambda>s. s) demo_draws ''idc'' ''bind'' ''sub'' 1 opened_challenge)"

lemma demo_consumed: "\<exists>c st1. consumeIdentityChallenge (\<lambda>s. s) demo_draws ''idc'' ''bind'' 2 granted_challenge = (Inr c, st1)"
  by (simp add: granted_challenge_def opened_challenge_def createIdentityChallenge_def new_challenge_def authorizeIdentityChallenge_def
      consumeIdentityChallenge_def find_challenge_def set_challenge_def auditIdentity_def demo_defs CHALLENGE_TTL_MS_def Let_def)

theorem challenge_single_use_witness:
  "\<exists>st1 e. snd (consumeIdentityChallenge (\<lambda>s. s) demo_draws ''idc'' ''bind'' 2 granted_challenge) = st1
    \<and> fst (consumeIdentityChallenge (\<lambda>s. s) demo_draws ''idc'' ''bind'' 3 st1) = Inl e"
proof -
  obtain c st1 where c: "consumeIdentityChallenge (\<lambda>s. s) demo_draws ''idc'' ''bind'' 2 granted_challenge = (Inr c, st1)"
    using demo_consumed by blast
  from challenge_single_use [OF c rtranclp.rtrancl_refl, of "demo_draws" "''bind''" 3] show ?thesis by (simp add: c)
qed

theorem challenge_refines_witness:
  "phase_edge True (phase_of demo_identity ''idc'') (phase_of logged_in ''idc'')"
  using challenge_refines [OF logged_in_step, of "''idc''"] by simp

end
