(* ===== verification/AccountSafety.thy ===== *)
theory AccountSafety
  imports SignIn IdentityRuns
begin

text \<open>
  What the sign-in and recovery routes guarantee together: who gets a session, what a completed recovery changes, that a
  recovery token works once, and that the new password signs in.
\<close>

section \<open>A completed recovery\<close>

lemmas recovery_clears = clearPasswordRecoveryFailures_def clearPasswordLoginFailures_def auditIdentity_def

lemma reject_not_done [simp]: "reject_recovery cr d team user purpose ex t st \<noteq> (RecoveryDone n, st')"
  by (simp add: reject_recovery_def)

definition rotated_state ::
    "crypto \<Rightarrow> string \<Rightarrow> string \<Rightarrow> string \<Rightarrow> string \<Rightarrow> string \<Rightarrow> string \<Rightarrow> instant \<Rightarrow> 'a recovery_state_scheme \<Rightarrow> 'a recovery_state_scheme" where
  "rotated_state cr salt team user purpose token newPassword t st =
     (let st1 = snd (passwordRecoveryStatus cr team user t st)
      in st1\<lparr>rs_grants := upd_first (matching_grant cr token team user purpose) (\<lambda>g. g\<lparr>rg_consumedAt := Some t\<rparr>) (rs_grants st1),
             id_users := upd_first (\<lambda>u. iu_id u = user \<and> iu_teamId u = Some team) (rotated cr salt newPassword t) (id_users st1)\<rparr>)"

lemma recovery_done:
  assumes "completePasswordRecovery cr d salt team user purpose token newPassword t st = (RecoveryDone n, st')"
  shows "validateNewPassword cr newPassword team user = None \<and> team \<noteq> ''team_local''
    \<and> (\<exists>g. List.find (matching_grant cr token team user purpose) (rs_grants st) = Some g \<and> usable_grant t g)
    \<and> (\<exists>u. team_user st team user = Some u)
    \<and> n = fst (revokeAllUserSessions d user t (rotated_state cr salt team user purpose token newPassword t st))
    \<and> (\<exists>e. st' = auditIdentity e (clearPasswordRecoveryFailures cr team user t (clearPasswordLoginFailures cr team user t
          (snd (revokeAllUserSessions d user t (rotated_state cr salt team user purpose token newPassword t st))))))"
  using assms
  by (auto simp: completePasswordRecovery_def rotated_state_def passwordRecoveryStatus_def team_user_def Let_def case_prod_beta
      split: option.splits if_splits)

text \<open>With distinct ids the first user of the id is the one of the team.\<close>

lemma find_key_only:
  assumes "distinct (map f xs)" and "List.find (\<lambda>x. f x = k \<and> P x) xs = Some u"
  shows "List.find (\<lambda>x. f x = k) xs = Some u \<and> upd_first (\<lambda>x. f x = k \<and> P x) g xs = upd_first (\<lambda>x. f x = k) g xs"
proof -
  have "\<And>x. x \<in> set xs \<Longrightarrow> f x = k \<Longrightarrow> x = u"
    using assms find_SomeD [OF assms(2)] by (auto simp: distinct_map inj_on_def)
  then have "\<And>x. x \<in> set xs \<Longrightarrow> (f x = k \<and> P x) = (f x = k)" using find_SomeD [OF assms(2)] by blast
  then have "List.find (\<lambda>x. f x = k \<and> P x) xs = List.find (\<lambda>x. f x = k) xs
    \<and> upd_first (\<lambda>x. f x = k \<and> P x) g xs = upd_first (\<lambda>x. f x = k) g xs"
    by (induction xs) auto
  then show ?thesis using assms(2) by simp
qed

lemma rotated_users:
  assumes "distinct (map iu_id (id_users st))" and "team_user st team user = Some u"
  shows "id_users (rotated_state cr salt team user purpose token newPassword t st)
      = upd_first (\<lambda>u. iu_id u = user) (rotated cr salt newPassword t) (id_users st)"
    and "find_user st user = Some u"
  using find_key_only [OF assms(1), where P = "\<lambda>u. iu_teamId u = Some team"] assms(2)
  by (simp_all add: rotated_state_def passwordRecoveryStatus_def Let_def team_user_def find_user_def)

lemma find_user_rotated:
  assumes "distinct (map iu_id (id_users st))" and "team_user st team user = Some u"
  shows "find_user (rotated_state cr salt team user purpose token newPassword t st) k
    = (if k = user then Some (rotated cr salt newPassword t u) else find_user st k)"
proof (cases "k = user")
  case True
  then show ?thesis
    using rotated_users [OF assms] find_upd_first_same [of "\<lambda>u. iu_id u = user" "rotated cr salt newPassword t" "id_users st"]
    by (simp add: find_user_def rotated_def)
next
  case False
  then show ?thesis
    using rotated_users(1) [OF assms]
      find_upd_first_other [of "\<lambda>u. iu_id u = user" "\<lambda>u. iu_id u = k" "rotated cr salt newPassword t" "id_users st"]
    by (simp add: find_user_def rotated_def)
qed

lemma find_user_revoked:
  assumes "find_user st user = Some u"
  shows "find_user (snd (revokeAllUserSessions d user t st)) k
    = (if k = user then Some (u\<lparr>iu_sessionEpoch := Some (epoch_of u + 1)\<rparr>) else find_user st k)"
  using assms find_upd_first_same [of "\<lambda>u. iu_id u = user" "\<lambda>u. u\<lparr>iu_sessionEpoch := Some (epoch_of u + 1)\<rparr>" "id_users st"]
    find_upd_first_other [of "\<lambda>u. iu_id u = user" "\<lambda>u. iu_id u = k" "\<lambda>u. u\<lparr>iu_sessionEpoch := Some (epoch_of u + 1)\<rparr>" "id_users st"]
  by (auto simp: revokeAllUserSessions_def auditIdentity_def Let_def find_user_def)

lemma revoked_sessions:
  assumes "find_user st user = Some u"
  shows "id_sessions (snd (revokeAllUserSessions d user t st)) = upd_where (live_of user) (\<lambda>s. s\<lparr>se_revokedAt := Some t\<rparr>) (id_sessions st)"
    and "fst (revokeAllUserSessions d user t st) = length (filter (live_of user) (id_sessions st))"
    and "id_tokens (snd (revokeAllUserSessions d user t st)) = id_tokens st"
  using assms by (simp_all add: revokeAllUserSessions_def auditIdentity_def Let_def)

lemma rotated_frame:
  "id_sessions (rotated_state cr salt team user purpose token newPassword t st) = id_sessions st"
  "id_tokens (rotated_state cr salt team user purpose token newPassword t st) = id_tokens st"
  by (simp_all add: rotated_state_def passwordRecoveryStatus_def Let_def)

lemma clears_frame:
  "id_users (clearPasswordRecoveryFailures cr team user t st) = id_users st"
  "id_users (clearPasswordLoginFailures cr team user t st) = id_users st"
  "id_sessions (clearPasswordRecoveryFailures cr team user t st) = id_sessions st"
  "id_sessions (clearPasswordLoginFailures cr team user t st) = id_sessions st"
  "id_tokens (clearPasswordRecoveryFailures cr team user t st) = id_tokens st"
  "id_tokens (clearPasswordLoginFailures cr team user t st) = id_tokens st"
  "rs_grants (clearPasswordRecoveryFailures cr team user t st) = rs_grants st"
  "rs_grants (clearPasswordLoginFailures cr team user t st) = rs_grants st"
  by (simp_all add: recovery_clears)

lemma audit_frame:
  "id_users (auditIdentity e st) = id_users st" "id_sessions (auditIdentity e st) = id_sessions st"
  "id_tokens (auditIdentity e st) = id_tokens st" "find_user (auditIdentity e st) k = find_user st k"
  by (simp_all add: auditIdentity_def find_user_def)

lemma find_user_clears:
  "find_user (clearPasswordRecoveryFailures cr team user t st) k = find_user st k"
  "find_user (clearPasswordLoginFailures cr team user t st) k = find_user st k"
  by (simp_all add: recovery_clears find_user_def)

lemmas recovery_frame = clears_frame audit_frame find_user_clears rotated_frame

lemma completed_effect:
  assumes "completePasswordRecovery cr d salt team user purpose token newPassword t st = (RecoveryDone n, st')"
    and "distinct (map iu_id (id_users st))"
  shows "(\<exists>g \<in> set (rs_grants st). matching_grant cr token team user purpose g \<and> usable_grant t g)
    \<and> validateNewPassword cr newPassword team user = None \<and> team \<noteq> ''team_local''
    \<and> (\<exists>u. team_user st team user = Some u
         \<and> find_user st' user = Some (u\<lparr>iu_passwordHash := Some (hashPassword cr salt newPassword), iu_credentialUpdatedAt := Some t,
              iu_sessionEpoch := Some (epoch_of u + 1)\<rparr>))
    \<and> (\<forall>k. k \<noteq> user \<longrightarrow> find_user st' k = find_user st k)
    \<and> id_sessions st' = map (\<lambda>s. if se_userId s = user \<and> se_revokedAt s = None then s\<lparr>se_revokedAt := Some t\<rparr> else s) (id_sessions st)
    \<and> n = length (filter (\<lambda>s. se_userId s = user \<and> se_revokedAt s = None) (id_sessions st))
    \<and> id_tokens st' = id_tokens st"
proof -
  obtain g u e where g: "List.find (matching_grant cr token team user purpose) (rs_grants st) = Some g" "usable_grant t g"
    and pw: "validateNewPassword cr newPassword team user = None" "team \<noteq> ''team_local''" and u: "team_user st team user = Some u"
    and n: "n = fst (revokeAllUserSessions d user t (rotated_state cr salt team user purpose token newPassword t st))"
    and st': "st' = auditIdentity e (clearPasswordRecoveryFailures cr team user t (clearPasswordLoginFailures cr team user t
          (snd (revokeAllUserSessions d user t (rotated_state cr salt team user purpose token newPassword t st)))))"
    using recovery_done [OF assms(1)] by blast
  note found = find_user_rotated [OF assms(2) u, of cr salt purpose token newPassword t]
  note now = found [of user, simplified]
  have "find_user st' k = (if k = user then Some ((rotated cr salt newPassword t u)\<lparr>iu_sessionEpoch := Some (epoch_of u + 1)\<rparr>) else find_user st k)" for k
    unfolding st' recovery_frame find_user_revoked [OF now] found by (simp add: rotated_def)
  moreover have "id_sessions st' = upd_where (live_of user) (\<lambda>s. s\<lparr>se_revokedAt := Some t\<rparr>) (id_sessions st)" "id_tokens st' = id_tokens st"
    "n = length (filter (live_of user) (id_sessions st))"
    unfolding st' n recovery_frame revoked_sessions [OF now] by simp_all
  moreover have "live_of user = (\<lambda>s. se_userId s = user \<and> se_revokedAt s = None)" by (rule ext) (simp add: live_of_def)
  ultimately show ?thesis
    using pw u g find_SomeD [OF g(1)] by (auto simp: rotated_def upd_where_def)
qed

text \<open>What a completed recovery changes.  It presupposes a matching grant that was neither used, revoked nor expired, an
  acceptable password and an account outside the local team.  The account then has the new password and the next
  session epoch, every session of it is revoked and counted, and no other account or session changes; but bearer
  tokens are not touched.\<close>

theorem recovery_effect:
  assumes "completePasswordRecovery cr d salt team user purpose token newPassword t st = (RecoveryDone n, st')"
    and "distinct (map iu_id (id_users st))"
  shows "(\<exists>g \<in> set (rs_grants st). matching_grant cr token team user purpose g \<and> usable_grant t g)
    \<and> validateNewPassword cr newPassword team user = None \<and> team \<noteq> ''team_local''
    \<and> (\<exists>u. team_user st team user = Some u
         \<and> find_user st' user = Some (u\<lparr>iu_passwordHash := Some (hashPassword cr salt newPassword), iu_credentialUpdatedAt := Some t,
              iu_sessionEpoch := Some (epoch_of u + 1)\<rparr>))
    \<and> (\<forall>k. k \<noteq> user \<longrightarrow> find_user st' k = find_user st k)
    \<and> id_sessions st' = map (\<lambda>s. if se_userId s = user \<and> se_revokedAt s = None then s\<lparr>se_revokedAt := Some t\<rparr> else s) (id_sessions st)
    \<and> n = length (filter (\<lambda>s. se_userId s = user \<and> se_revokedAt s = None) (id_sessions st))
    \<and> id_tokens st' = id_tokens st"
  by (rule completed_effect [OF assms])

section \<open>A recovery token works once\<close>

text \<open>One request or identity operation.  \<open>h\<close> is the hash no later grant gets.\<close>

inductive account_step :: "crypto \<Rightarrow> string \<Rightarrow> 'a recovery_state_scheme \<Rightarrow> 'a recovery_state_scheme \<Rightarrow> bool" for cr h where
  identity: "id_step (cr_digest cr) hash_ok id_ok st st' \<Longrightarrow> account_step cr h st st'"
| sign_in: "account_step cr h st (snd (signIn cr d token policy body t t' st))"
| sign_out: "account_step cr h st (signOut d actor header t st)"
| issue: "cr_digest cr (dr_secret d) \<noteq> h \<Longrightarrow> account_step cr h st (snd (issueRecovery cr d actor userId purpose t st))"
| recover: "account_step cr h st (snd (completeRecovery cr d salt body t st))"

lemma id_ops_grants:
  "rs_grants (snd (createServerSession digest d u t mode st)) = rs_grants st"
  "rs_grants (snd (resolveServerSession digest cookie t st)) = rs_grants st"
  "rs_grants (snd (revokeServerSession d i t st)) = rs_grants st"
  "rs_grants (snd (revokeAllUserSessions d i t st)) = rs_grants st"
  "rs_grants (snd (createIdentityChallenge digest d p b uri dev t st)) = rs_grants st"
  "rs_grants (snd (authorizeIdentityChallenge digest d i b sub t st)) = rs_grants st"
  "rs_grants (snd (consumeIdentityChallenge digest d i b t st)) = rs_grants st"
  "rs_grants (snd (expireIdentityChallenge d i t st)) = rs_grants st"
  "rs_grants (snd (cancelIdentityChallenge digest d i b t st)) = rs_grants st"
  "rs_grants (snd (rejectIdentityChallenge d i r t st)) = rs_grants st"
  by (auto simp: createServerSession_def resolveServerSession_def revokeServerSession_def revokeAllUserSessions_def challenge_ops Let_def
      split: option.splits)

lemma id_step_grants: "id_step digest hash_ok id_ok st st' \<Longrightarrow> rs_grants st' = rs_grants st"
  by (erule id_stepE) (auto simp: id_ops_grants)

lemma throttle_ops_grants:
  "rs_grants (snd (passwordLoginStatus cr team user t st)) = rs_grants st"
  "rs_grants (snd (recordPasswordLoginFailure cr d team user ex t st)) = rs_grants st"
  "rs_grants (snd (recordPasswordRecoveryFailure cr d team user ex t st)) = rs_grants st"
  "rs_grants (clearPasswordLoginFailures cr team user t st) = rs_grants st"
  "rs_grants (snd (reject_recovery cr d team user purpose ex t st)) = rs_grants st"
  by (simp_all add: passwordLoginStatus_def recordPasswordLoginFailure_def recordPasswordRecoveryFailure_def passwordRecoveryStatus_def
      reject_recovery_def recovery_clears Let_def case_prod_beta)

lemma password_sign_in_grants: "rs_grants (snd (passwordSignIn cr d policy body t st)) = rs_grants st"
  by (simp add: passwordSignIn_def Let_def case_prod_beta throttle_ops_grants)

lemma sign_in_grants: "rs_grants (snd (signIn cr d token policy body t t' st)) = rs_grants st"
  using password_sign_in_grants [of cr d policy body t st]
  by (simp add: signIn_def Let_def case_prod_beta legacyBearer_def id_ops_grants split: option.splits sum.splits)

lemma sign_out_grants: "rs_grants (signOut d actor header t st) = rs_grants st"
  by (simp add: signOut_def Let_def id_ops_grants split: option.splits)

definition spent :: "crypto \<Rightarrow> string \<Rightarrow> string \<Rightarrow> string \<Rightarrow> string \<Rightarrow> 'a recovery_state_scheme \<Rightarrow> bool" where
  "spent cr token team user purpose st \<longleftrightarrow>
     (case List.find (matching_grant cr token team user purpose) (rs_grants st) of
        None \<Rightarrow> True | Some g \<Rightarrow> rg_consumedAt g \<noteq> None \<or> rg_revokedAt g \<noteq> None)"

lemma spent_issue:
  assumes "spent cr token team user purpose st" and "cr_digest cr (dr_secret d) \<noteq> cr_digest cr token"
  shows "spent cr token team user purpose (snd (createPasswordRecoveryGrant cr d issuer target purpose' t st))"
proof (cases "purpose' \<noteq> ''password_reset'' \<or> \<not> canIssuePasswordRecovery issuer target \<or> target = None")
  case True
  then show ?thesis using assms(1) by (auto simp: createPasswordRecoveryGrant_def split: option.splits)
next
  case False
  then obtain u where u: "target = Some u" by blast
  let ?P = "matching_grant cr token team user purpose"
  let ?f = "\<lambda>g. if open_grant (coalesce (iu_teamId u) []) (iu_id u) purpose' g then g\<lparr>rg_revokedAt := Some t\<rparr> else g"
  let ?g = "new_grant cr d purpose' (coalesce (iu_teamId u) []) (iu_id u) (ra_userId issuer) t"
  have grants: "rs_grants (snd (createPasswordRecoveryGrant cr d issuer target purpose' t st))
      = take MAX_RECOVERY_GRANTS (?g # map ?f (rs_grants st))"
    using False u by (simp add: createPasswordRecoveryGrant_def Let_def recovery_clears upd_where_def)
  have "List.find ?P (?g # map ?f (rs_grants st)) = map_option ?f (List.find ?P (rs_grants st))"
    using assms(2) find_map_same [of ?P ?f "rs_grants st"] by (simp add: matching_grant_def new_grant_def)
  then show ?thesis
    using assms(1) find_take [of ?P MAX_RECOVERY_GRANTS "?g # map ?f (rs_grants st)"]
    unfolding spent_def grants by (cases "List.find ?P (rs_grants st)") (auto simp del: List.find.simps split: option.splits if_splits)
qed

lemma complete_grants:
  "rs_grants (snd (completePasswordRecovery cr d salt team user purpose token pw t st)) = rs_grants st
    \<or> rs_grants (snd (completePasswordRecovery cr d salt team user purpose token pw t st))
      = upd_first (matching_grant cr token team user purpose) (\<lambda>g. g\<lparr>rg_consumedAt := Some t\<rparr>) (rs_grants st)"
  by (auto simp: completePasswordRecovery_def passwordRecoveryStatus_def throttle_ops_grants clears_frame auditIdentity_def
      revokeAllUserSessions_def Let_def case_prod_beta split: option.splits)

lemma spent_complete:
  assumes "spent cr token team user purpose st"
  shows "spent cr token team user purpose (snd (completePasswordRecovery cr d salt team' user' purpose' token' pw t st))"
proof -
  let ?P = "matching_grant cr token team user purpose" and ?Q = "matching_grant cr token' team' user' purpose'"
  show ?thesis
  proof (cases "\<exists>g. ?P g \<and> ?Q g")
    case True
    then have "?Q = ?P" by (auto simp: matching_grant_def fun_eq_iff)
    then show ?thesis
      using assms complete_grants [of cr d salt team' user' purpose' token' pw t st]
        find_upd_first_same [of ?P "\<lambda>g. g\<lparr>rg_consumedAt := Some t\<rparr>" "rs_grants st"]
      by (auto simp: spent_def matching_grant_def split: option.splits)
  next
    case False
    then have "List.find ?P (upd_first ?Q (\<lambda>g. g\<lparr>rg_consumedAt := Some t\<rparr>) (rs_grants st)) = List.find ?P (rs_grants st)"
      by (intro find_upd_first_other) (auto simp: matching_grant_def)
    then show ?thesis
      using assms complete_grants [of cr d salt team' user' purpose' token' pw t st]
      by (auto simp: spent_def)
  qed
qed

lemma issue_state:
  "snd (issueRecovery cr d actor userId purpose t st) = snd (createPasswordRecoveryGrant cr d actor
     (List.find (\<lambda>u. iu_id u = boundedIdentifier cr 128 userId \<and> iu_teamId u = ra_teamId actor) (id_users st))
     (coalesce purpose ''password_reset'') t st)"
  by (simp add: issueRecovery_def Let_def split: prod.splits sum.splits)

lemma step_spent:
  assumes "account_step cr (cr_digest cr token) st st'" and "spent cr token team user purpose st"
  shows "spent cr token team user purpose st'"
  using assms
proof (cases rule: account_step.cases)
  case (issue d actor userId purpose' t)
  then show ?thesis
    using spent_issue [OF assms(2)] by (simp add: issue_state)
next
  case (recover d salt body t)
  then show ?thesis using spent_complete [OF assms(2)] by (simp add: completeRecovery_def case_prod_beta Let_def)
qed (auto simp: spent_def id_step_grants sign_in_grants sign_out_grants)

lemma run_spent:
  "(account_step cr (cr_digest cr token))\<^sup>*\<^sup>* st st' \<Longrightarrow> spent cr token team user purpose st \<Longrightarrow> spent cr token team user purpose st'"
  by (induction rule: rtranclp_induct) (use step_spent in blast)+

lemma done_spends:
  assumes "completePasswordRecovery cr d salt team user purpose token newPassword t st = (RecoveryDone n, st')"
  shows "spent cr token team user purpose st'"
proof -
  let ?P = "matching_grant cr token team user purpose" and ?st = "rotated_state cr salt team user purpose token newPassword t st"
  obtain e where "st' = auditIdentity e (clearPasswordRecoveryFailures cr team user t (clearPasswordLoginFailures cr team user t
      (snd (revokeAllUserSessions d user t ?st))))"
    using recovery_done [OF assms] by blast
  then have "rs_grants st' = upd_first ?P (\<lambda>g. g\<lparr>rg_consumedAt := Some t\<rparr>) (rs_grants st)"
    by (simp add: auditIdentity_def clears_frame id_ops_grants) (simp add: rotated_state_def passwordRecoveryStatus_def Let_def)
  moreover have "\<And>g. ?P (g\<lparr>rg_consumedAt := Some t\<rparr>) = ?P g" by (simp add: matching_grant_def)
  ultimately show ?thesis by (auto simp: spent_def find_upd_first_same split: option.splits)
qed

lemma spent_grant_refused:
  assumes "spent cr token team user purpose st"
  shows "fst (completePasswordRecovery cr d salt team user purpose token newPassword t st) \<noteq> RecoveryDone m"
proof
  assume "fst (completePasswordRecovery cr d salt team user purpose token newPassword t st) = RecoveryDone m"
  then obtain st' where "completePasswordRecovery cr d salt team user purpose token newPassword t st = (RecoveryDone m, st')"
    by (metis prod.collapse)
  from recovery_done [OF this] assms show False by (auto simp: spent_def usable_grant_def)
qed

text \<open>C31: A recovery token works once.  After a completed recovery, whatever sign-ins, sign-outs, recoveries, session and challenge operations
  follow, the same token never completes a recovery of that account again, as long as no later grant draws a secret of
  the same hash.\<close>

theorem recovery_token_once:
  assumes "completePasswordRecovery cr d salt team user purpose token newPassword t st = (RecoveryDone n, st1)"
    and "(account_step cr (cr_digest cr token))\<^sup>*\<^sup>* st1 st2"
  shows "fst (completePasswordRecovery cr d' salt' team user purpose token newPassword' t' st2) \<noteq> RecoveryDone m"
  by (rule spent_grant_refused [OF run_spent [OF assms(2) done_spends [OF assms(1)]]])

section \<open>Who gets a session\<close>

lemma password_sign_in_accepts:
  assumes "passwordSignIn cr d policy body t st = (Inr u, st')" and "\<not> ap_legacyLocalLogin policy"
  shows "ap_passwordMode policy \<and> u \<in> set (id_users st) \<and> iu_id u = boundedIdentifier cr 128 (sb_userId body)
    \<and> iu_teamId u = Some (boundedIdentifier cr 128 (sb_teamId body))
    \<and> th_allowed (fst (passwordLoginStatus cr (boundedIdentifier cr 128 (sb_teamId body)) (boundedIdentifier cr 128 (sb_userId body)) t st))
    \<and> credential_accepted cr policy (bounded_password body) (Some u)"
proof -
  let ?team = "boundedIdentifier cr 128 (sb_teamId body)" and ?uid = "boundedIdentifier cr 128 (sb_userId body)"
  let ?user = "List.find (\<lambda>u. iu_id u = ?uid \<and> iu_teamId u = Some ?team) (id_users st)"
  have team: "signin_team cr policy body st = Some ?team" using assms(2) by (simp add: signin_team_def Let_def)
  have users: "id_users (snd (passwordLoginStatus cr ?team ?uid t st)) = id_users st" by (simp add: passwordLoginStatus_def Let_def)
  have "ap_passwordMode policy \<and> th_allowed (fst (passwordLoginStatus cr ?team ?uid t st))
      \<and> credential_accepted cr policy (bounded_password body) ?user \<and> u = the ?user"
    using assms by (auto simp: passwordSignIn_def Let_def team users case_prod_beta split: if_splits)
  moreover from this obtain v where "?user = Some v" by (cases ?user) (auto simp: credential_accepted_def)
  ultimately show ?thesis by (auto dest: find_SomeD)
qed

lemma fresh_session: "fst (createServerSession digest d u t mode st) = new_session digest d u t mode"
  by (simp add: createServerSession_def Let_def)

lemma sign_in_signed:
  assumes "signIn cr d token policy body t t' st = (SignedIn s b, st')"
  shows "\<exists>mode u. signin_mode policy body = Some mode \<and> s = new_session (cr_digest cr) d u t' mode
    \<and> b = (if ap_legacyBearerIssue policy then Some token else None)
    \<and> (mode = ''local'' \<and> ap_localMode policy \<and> find_user st ''usr_local'' = Some u
       \<or> mode = ''password'' \<and> fst (passwordSignIn cr d policy body t st) = Inr u)"
proof (cases "signin_mode policy body")
  case None
  then show ?thesis using assms by (simp add: signIn_def)
next
  case (Some mode)
  consider (l) "mode = ''local''" | (p) "mode = ''password''" "mode \<noteq> ''local''" | (other) "mode \<noteq> ''local''" "mode \<noteq> ''password''" by blast
  then show ?thesis
  proof cases
    case l
    then show ?thesis
      using assms Some
      by (cases "ap_localMode policy"; cases "find_user st ''usr_local''")
        (auto simp: signIn_def case_prod_beta fresh_session split: if_splits)
  next
    case p
    obtain c st1 where c: "passwordSignIn cr d policy body t st = (c, st1)" by (meson surj_pair)
    show ?thesis
    proof (cases c)
      case (Inl refusal)
      then have "refusal = SignedIn s b" using assms Some p c by (simp add: signIn_def)
      moreover have "\<exists>i e w. refusal = SignInRefused i e w"
        using c unfolding Inl passwordSignIn_def Let_def case_prod_beta by (auto split: if_splits)
      ultimately show ?thesis by auto
    next
      case (Inr u)
      then show ?thesis
        using assms Some p c by (auto simp: signIn_def case_prod_beta fresh_session split: if_splits)
    qed
  next
    case other
    then show ?thesis using assms Some by (simp add: signIn_def)
  qed
qed

lemma strict_mode: "\<not> ap_legacyLocalLogin policy \<Longrightarrow> signin_mode policy body = Some mode \<Longrightarrow> sb_mode body = Some mode"
  by (auto simp: signin_mode_def Let_def split: option.splits if_splits)

lemma accepted_hash:
  assumes "credential_accepted cr policy pw (Some u)" and "\<not> ap_legacyLocalLogin policy" and "\<not> verifyPassword cr pw (cr_dummy cr)"
  shows "\<exists>h. iu_passwordHash u = Some h \<and> scrypt_hash_ok h \<and> verifyPassword cr pw h"
  using assms by (auto simp: credential_accepted_def stored_hash_def Let_def split: option.splits if_splits)

text \<open>C27: Who gets a session.  Without the legacy login, a session is only handed out in local mode to the local user, where local mode is
  on, or to the account of the given team and name whose stored scrypt hash verifies the password, when its throttle
  admits it.  The session is the fresh one of that user, team and epoch, and a bearer token comes with it only where
  issuing them is on.\<close>

theorem sign_in_sound:
  assumes "signIn cr d token policy body t t' st = (SignedIn s bearer', st')" and "\<not> ap_legacyLocalLogin policy"
    and "\<not> verifyPassword cr (bounded_password body) (cr_dummy cr)"
  shows "\<exists>u \<in> set (id_users st). s = new_session (cr_digest cr) d u t' (coalesce (sb_mode body) [])
    \<and> (sb_mode body = Some ''local'' \<and> ap_localMode policy \<and> iu_id u = ''usr_local''
       \<or> sb_mode body = Some ''password'' \<and> ap_passwordMode policy
         \<and> iu_id u = boundedIdentifier cr 128 (sb_userId body) \<and> iu_teamId u = Some (boundedIdentifier cr 128 (sb_teamId body))
         \<and> th_allowed (fst (passwordLoginStatus cr (boundedIdentifier cr 128 (sb_teamId body)) (boundedIdentifier cr 128 (sb_userId body)) t st))
         \<and> (\<exists>h. iu_passwordHash u = Some h \<and> scrypt_hash_ok h \<and> verifyPassword cr (bounded_password body) h))
    \<and> (bearer' = (if ap_legacyBearerIssue policy then Some token else None))"
proof -
  obtain mode u where m: "signin_mode policy body = Some mode" and s: "s = new_session (cr_digest cr) d u t' mode"
    "bearer' = (if ap_legacyBearerIssue policy then Some token else None)"
    and how: "mode = ''local'' \<and> ap_localMode policy \<and> find_user st ''usr_local'' = Some u
       \<or> mode = ''password'' \<and> fst (passwordSignIn cr d policy body t st) = Inr u"
    using sign_in_signed [OF assms(1)] by blast
  have mode: "sb_mode body = Some mode" by (rule strict_mode [OF assms(2) m])
  from how show ?thesis
  proof
    assume "mode = ''local'' \<and> ap_localMode policy \<and> find_user st ''usr_local'' = Some u"
    then show ?thesis using s mode by (auto simp: find_user_def dest!: find_SomeD intro!: bexI [of _ u])
  next
    assume p: "mode = ''password'' \<and> fst (passwordSignIn cr d policy body t st) = Inr u"
    then obtain st1 where "passwordSignIn cr d policy body t st = (Inr u, st1)" by (metis prod.collapse)
    note acc = password_sign_in_accepts [OF this assms(2)]
    with accepted_hash [OF _ assms(2,3), of u] s mode p show ?thesis by (intro bexI [of _ u]) simp_all
  qed
qed

section \<open>The new password signs in\<close>

definition lower_hex :: "char \<Rightarrow> bool" where
  "lower_hex c \<longleftrightarrow> c \<in> set ''0123456789abcdef''"

lemma lower_hex_char: "lower_hex c \<Longrightarrow> hash_hex_char c \<and> js_lower [c] = [c] \<and> c \<noteq> CHR ''$''"
  by (auto simp: lower_hex_def hash_hex_char_def js_lower_def lower_char_def)

lemma lower_hex_text: "list_all lower_hex h \<Longrightarrow> list_all hash_hex_char h \<and> js_lower h = h \<and> list_all (\<lambda>c. c \<noteq> CHR ''$'') h"
  by (induction h) (auto simp: js_lower_def dest!: lower_hex_char)

lemma split_hash:
  assumes "list_all lower_hex salt" and "list_all lower_hex h"
  shows "split_at (\<lambda>c. c = CHR ''$'') (''scrypt$'' @ salt @ ''$'' @ h) = [''scrypt'', salt, h]"
  using lower_hex_text [OF assms(1)] lower_hex_text [OF assms(2)]
    split_at_append [of "\<lambda>c. c = CHR ''$''" "CHR ''$''" "''scrypt''" "salt @ CHR ''$'' # h"]
    split_at_append [of "\<lambda>c. c = CHR ''$''" "CHR ''$''" salt h]
  by (simp add: split_at_plain)

lemma hashed_verifies:
  assumes "list_all lower_hex salt" and "length salt = 32"
    and "list_all lower_hex (cr_scrypt cr pw salt)" and "length (cr_scrypt cr pw salt) = 128"
  shows "scrypt_hash_ok (hashPassword cr salt pw) \<and> verifyPassword cr pw (hashPassword cr salt pw)"
proof -
  have parts: "split_at (\<lambda>c. c = CHR ''$'') (hashPassword cr salt pw) = [''scrypt'', salt, cr_scrypt cr pw salt]"
    unfolding hashPassword_def by (rule split_hash [OF assms(1,3)])
  have "salt \<noteq> []" "cr_scrypt cr pw salt \<noteq> []" using assms(2,4) by auto
  then show ?thesis
    using lower_hex_text [OF assms(1)] lower_hex_text [OF assms(3)] assms(2,4)
    by (simp add: scrypt_hash_ok_def verifyPassword_def parts) (simp add: js_lower_def lower_char_def)
qed

lemma cleared_throttle:
  assumes "\<forall>r \<in> set (rs_loginAttempts st). la_keyHash r \<noteq> tenantAwareLoginKey cr team user"
  shows "th_allowed (fst (passwordLoginStatus cr team user t st))"
proof -
  have "attempt_of (tenantAwareLoginKey cr team user) (prune_attempts t (rs_loginAttempts st)) = None"
    using assms by (auto simp: attempt_of_def find_None_iff prune_attempts_def dest: in_set_takeD)
  then show ?thesis by (simp add: passwordLoginStatus_def Let_def throttle_of_def)
qed

lemma fresh_resolves:
  assumes "find_user st (iu_id u) = Some u" and "dr_secret d \<noteq> []"
  shows "fst (resolveServerSession digest (Some (dr_secret d)) t (snd (createServerSession digest d u t mode st)))
    = Some (new_session digest d u t mode, u, False)"
  using assms
  by (simp add: resolveServerSession_def createServerSession_def new_session_def auditIdentity_def find_user_def Let_def
      SESSION_IDLE_MS_def SESSION_ABSOLUTE_MS_def)

lemma password_signs_in:
  assumes "\<not> ap_legacyLocalLogin policy" and "ap_passwordMode policy"
    and "team_user st (boundedIdentifier cr 128 (sb_teamId body)) (boundedIdentifier cr 128 (sb_userId body)) = Some u"
    and "th_allowed (fst (passwordLoginStatus cr (boundedIdentifier cr 128 (sb_teamId body)) (boundedIdentifier cr 128 (sb_userId body)) t st))"
    and "iu_passwordHash u = Some h" and "scrypt_hash_ok h" and "verifyPassword cr (bounded_password body) h"
  shows "fst (passwordSignIn cr d policy body t st) = Inr u \<and> id_users (snd (passwordSignIn cr d policy body t st)) = id_users st"
proof -
  let ?team = "boundedIdentifier cr 128 (sb_teamId body)" and ?uid = "boundedIdentifier cr 128 (sb_userId body)"
  have team: "signin_team cr policy body st = Some ?team" using assms(1) by (simp add: signin_team_def Let_def)
  have users: "id_users (snd (passwordLoginStatus cr ?team ?uid t st)) = id_users st" by (simp add: passwordLoginStatus_def Let_def)
  have user: "List.find (\<lambda>u. iu_id u = ?uid \<and> iu_teamId u = Some ?team) (id_users st) = Some u"
    using assms(3) by (simp add: team_user_def)
  have "h \<noteq> []" using assms(6) by (auto simp: scrypt_hash_ok_def)
  then have "credential_accepted cr policy (bounded_password body) (Some u)"
    using assms(5-7) by (simp add: credential_accepted_def stored_hash_def)
  then show ?thesis
    using assms(1,2,4) user by (simp add: passwordSignIn_def Let_def team users case_prod_beta clears_frame)
qed

lemma find_more: "List.find (\<lambda>x. f x = k) xs = Some u \<Longrightarrow> P u \<Longrightarrow> List.find (\<lambda>x. f x = k \<and> P x) xs = Some u"
  by (induction xs) (auto split: if_splits)

lemma recovered_user:
  assumes "completePasswordRecovery cr d salt team user purpose token newPassword t st = (RecoveryDone n, st')"
    and "distinct (map iu_id (id_users st))"
  shows "\<exists>u. team_user st' team user = Some u \<and> find_user st' user = Some u \<and> iu_passwordHash u = Some (hashPassword cr salt newPassword)
    \<and> iu_teamId u = Some team \<and> validateNewPassword cr newPassword team user = None"
proof -
  obtain u where u: "team_user st team user = Some u" and valid: "validateNewPassword cr newPassword team user = None"
    and now: "find_user st' user = Some (u\<lparr>iu_passwordHash := Some (hashPassword cr salt newPassword), iu_credentialUpdatedAt := Some t,
              iu_sessionEpoch := Some (epoch_of u + 1)\<rparr>)" (is "_ = Some ?u")
    using completed_effect [OF assms] by blast
  have "iu_teamId u = Some team" using u by (auto simp: team_user_def dest: find_SomeD)
  then have "team_user st' team user = Some ?u"
    using now unfolding team_user_def find_user_def by (intro find_more) simp_all
  then show ?thesis using now valid \<open>iu_teamId u = Some team\<close> by (intro exI [of _ ?u]) simp
qed

lemma done_clears:
  assumes "completePasswordRecovery cr d salt team user purpose token newPassword t st = (RecoveryDone n, st')"
  shows "\<forall>r \<in> set (rs_loginAttempts st'). la_keyHash r \<noteq> tenantAwareLoginKey cr team user"
  using recovery_done [OF assms] by (auto simp: recovery_clears)

lemma resolve_tokens:
  "fst (resolveServerSession digest cookie t (st\<lparr>id_tokens := x\<rparr>)) = fst (resolveServerSession digest cookie t st)"
  by (simp add: resolveServerSession_def find_user_def Let_def split: option.split)

lemma accepted_signs_in:
  assumes "signin_mode policy body = Some ''password''" and "passwordSignIn cr d policy body t st = (Inr u, st1)"
    and "find_user st1 (iu_id u) = Some u" and "dr_secret d \<noteq> []"
  shows "\<exists>s b st2. signIn cr d token policy body t t' st = (SignedIn s b, st2)
    \<and> fst (resolveServerSession (cr_digest cr) (Some (dr_secret d)) t' st2) = Some (s, u, False)"
proof -
  obtain s st2 where s: "createServerSession (cr_digest cr) d u t' ''password'' st1 = (s, st2)" by (meson surj_pair)
  have r: "fst (resolveServerSession (cr_digest cr) (Some (dr_secret d)) t' st2) = Some (s, u, False)"
    using fresh_resolves [OF assms(3,4), of "cr_digest cr" t' "''password''"] fresh_session [of "cr_digest cr" d u t' "''password''" st1] s by simp
  have "fst (resolveServerSession (cr_digest cr) (Some (dr_secret d)) t' (legacyBearer token u t' st2)) = Some (s, u, False)"
    using r by (simp add: legacyBearer_def resolve_tokens)
  then show ?thesis using r s assms(1,2) by (simp add: signIn_def)
qed

text \<open>C30: A recovered account can be used.  When completing a recovery answers 200, a sign-in with the same names and the new
  password is admitted and accepted whatever failures the account had before, and its cookie resolves to that account at once; scrypt is
  taken to give 128 lower-case hexadecimal digits and the salt to be 32 of them.\<close>

theorem recovery_then_sign_in:
  assumes "completeRecovery cr d salt rb t st = ((200, a), st1)" and "distinct (map iu_id (id_users st))"
    and "\<forall>p s. length (cr_scrypt cr p s) = 128 \<and> list_all lower_hex (cr_scrypt cr p s)"
    and "length salt = 32" and "list_all lower_hex salt"
    and "\<not> ap_legacyLocalLogin policy" and "ap_passwordMode policy" and "dr_secret d' \<noteq> []"
    and "body = \<lparr>sb_mode = Some ''password'', sb_userId = rb_userId rb, sb_teamId = rb_teamId rb, sb_password = rb_newPassword rb\<rparr>"
  shows "\<exists>s b st2 u. signIn cr d' token policy body t' t'' st1 = (SignedIn s b, st2)
    \<and> iu_id u = boundedIdentifier cr 128 (rb_userId rb) \<and> iu_teamId u = Some (boundedIdentifier cr 128 (rb_teamId rb))
    \<and> fst (resolveServerSession (cr_digest cr) (Some (dr_secret d')) t'' st2) = Some (s, u, False)"
proof -
  let ?team = "boundedIdentifier cr 128 (rb_teamId rb)" and ?uid = "boundedIdentifier cr 128 (rb_userId rb)"
    and ?pw = "coalesce (rb_newPassword rb) []"
  obtain n purpose token' where c: "completePasswordRecovery cr d salt ?team ?uid purpose token' ?pw t st = (RecoveryDone n, st1)"
    using assms(1) by (auto simp: completeRecovery_def Let_def split: prod.splits recovery_answer.splits)
  obtain u where u: "team_user st1 ?team ?uid = Some u" "find_user st1 ?uid = Some u"
    "iu_passwordHash u = Some (hashPassword cr salt ?pw)" "iu_teamId u = Some ?team"
    and valid: "validateNewPassword cr ?pw ?team ?uid = None"
    using recovered_user [OF c assms(2)] by blast
  have "bounded_password body = ?pw"
    using valid assms(9) by (auto simp: validateNewPassword_def bounded_password_def PASSWORD_MAX_LENGTH_def Let_def split: if_splits)
  then have hash: "scrypt_hash_ok (hashPassword cr salt ?pw)" "verifyPassword cr (bounded_password body) (hashPassword cr salt ?pw)"
    using hashed_verifies [OF assms(5,4)] assms(3) by simp_all
  have signed: "fst (passwordSignIn cr d' policy body t' st1) = Inr u \<and> id_users (snd (passwordSignIn cr d' policy body t' st1)) = id_users st1"
  proof (rule password_signs_in [OF assms(6,7) _ _ u(3) hash])
    show "team_user st1 (boundedIdentifier cr 128 (sb_teamId body)) (boundedIdentifier cr 128 (sb_userId body)) = Some u"
      using u(1) assms(9) by simp
    show "th_allowed (fst (passwordLoginStatus cr (boundedIdentifier cr 128 (sb_teamId body)) (boundedIdentifier cr 128 (sb_userId body)) t' st1))"
      using cleared_throttle [OF done_clears [OF c]] assms(9) by simp
  qed
  obtain st2 where p: "passwordSignIn cr d' policy body t' st1 = (Inr u, st2)" "id_users st2 = id_users st1"
    using signed by (metis prod.collapse)
  have mode: "signin_mode policy body = Some ''password''" using assms(9) by (simp add: signin_mode_def)
  have uid: "iu_id u = ?uid" using u(2) by (auto simp: find_user_def dest: find_SomeD)
  then have found: "find_user st2 (iu_id u) = Some u" using u(2) p(2) by (simp add: find_user_def)
  show ?thesis
    using accepted_signs_in [OF mode p(1) found assms(8)] uid u(4) by blast
qed

section \<open>Instances\<close>

definition demo_crypto :: crypto where
  "demo_crypto = \<lparr>cr_digest = (\<lambda>s. s), cr_nfkc = (\<lambda>s. s), cr_scrypt = (\<lambda>p s. replicate 128 (if p = ''correct horse battery'' then CHR ''a'' else CHR ''b'')),
     cr_dummy = []\<rparr>"

definition demo_salt :: string where "demo_salt = replicate 32 (CHR ''0'')"

definition demo_grant :: recovery_grant where
  "demo_grant = \<lparr>rg_id = ''irg_1'', rg_tokenHash = ''rgr_1'', rg_purpose = ''password_reset'', rg_teamId = ''team_a'', rg_userId = ''usr_a'',
     rg_issuedBy = Some ''usr_b'', rg_createdAt = 0, rg_expiresAt = 900000, rg_consumedAt = None, rg_revokedAt = None\<rparr>"

definition demo_accounts :: recovery_state where
  "demo_accounts = \<lparr>id_users = [ann], id_sessions = [], id_tokens = [], id_challenges = [], id_audit = [],
     rs_loginAttempts = [], rs_recoveryAttempts = [], rs_alerts = [], rs_grants = [demo_grant]\<rparr>"

definition demo_recovery_body :: recovery_body where
  "demo_recovery_body = \<lparr>rb_teamId = Some ''team_a'', rb_userId = Some ''usr_a'', rb_purpose = None, rb_recoveryToken = Some ''rgr_1'',
     rb_newPassword = Some ''correct horse battery''\<rparr>"

definition demo_signin_body :: signin_body where
  "demo_signin_body = \<lparr>sb_mode = Some ''password'', sb_userId = Some ''usr_a'', sb_teamId = Some ''team_a'', sb_password = Some ''correct horse battery''\<rparr>"

definition recovered :: recovery_state where
  "recovered = snd (completePasswordRecovery demo_crypto demo_draws demo_salt ''team_a'' ''usr_a'' ''password_reset'' ''rgr_1'' ''correct horse battery'' 5 demo_accounts)"

lemma demo_done: "fst (completePasswordRecovery demo_crypto demo_draws demo_salt ''team_a'' ''usr_a'' ''password_reset'' ''rgr_1''
    ''correct horse battery'' 5 demo_accounts) = RecoveryDone 0"
  by code_simp

lemma demo_route: "fst (completeRecovery demo_crypto demo_draws demo_salt demo_recovery_body 5 demo_accounts) = (200, RecoveryDone 0)"
  by code_simp

lemma demo_completed:
  "completePasswordRecovery demo_crypto demo_draws demo_salt ''team_a'' ''usr_a'' ''password_reset'' ''rgr_1'' ''correct horse battery'' 5
     demo_accounts = (RecoveryDone 0, recovered)"
  using demo_done by (simp add: recovered_def prod_eq_iff)

lemma demo_ids: "distinct (map iu_id (id_users demo_accounts))"
  by (simp add: demo_accounts_def)

theorem recovery_effect_witness: "find_user recovered ''usr_b'' = find_user demo_accounts ''usr_b'' \<and> id_tokens recovered = []"
  using recovery_effect [OF demo_completed demo_ids] by (simp add: demo_accounts_def)

theorem recovery_token_once_witness:
  "fst (completePasswordRecovery demo_crypto demo_draws demo_salt ''team_a'' ''usr_a'' ''password_reset'' ''rgr_1'' ''another good password'' 6
      (signOut demo_draws anonymous None 6 recovered)) \<noteq> RecoveryDone 0"
proof -
  have "account_step demo_crypto (cr_digest demo_crypto ''rgr_1'') recovered (signOut demo_draws anonymous None 6 recovered)"
    by (rule account_step.sign_out)
  then have "(account_step demo_crypto (cr_digest demo_crypto ''rgr_1''))\<^sup>*\<^sup>* recovered (signOut demo_draws anonymous None 6 recovered)"
    by (rule r_into_rtranclp)
  then show ?thesis by (rule recovery_token_once [OF demo_completed])
qed

lemma demo_strict: "\<not> ap_legacyLocalLogin strict_policy" "ap_passwordMode strict_policy"
  by code_simp+

lemma demo_signs_in: "\<exists>s b st'. signIn demo_crypto demo_draws ''tok'' strict_policy demo_signin_body 6 7 recovered = (SignedIn s b, st')"
proof -
  have "(case fst (signIn demo_crypto demo_draws ''tok'' strict_policy demo_signin_body 6 7 recovered) of SignedIn s b \<Rightarrow> True | _ \<Rightarrow> False)"
    by code_simp
  then show ?thesis
    by (cases "signIn demo_crypto demo_draws ''tok'' strict_policy demo_signin_body 6 7 recovered") (auto split: signin_answer.splits)
qed

theorem sign_in_sound_witness:
  "\<exists>s b st'. signIn demo_crypto demo_draws ''tok'' strict_policy demo_signin_body 6 7 recovered = (SignedIn s b, st')
    \<and> (\<exists>u \<in> set (id_users recovered). s = new_session (\<lambda>s. s) demo_draws u 7 ''password'')"
proof -
  obtain s b st' where s: "signIn demo_crypto demo_draws ''tok'' strict_policy demo_signin_body 6 7 recovered = (SignedIn s b, st')"
    using demo_signs_in by blast
  have "\<not> verifyPassword demo_crypto (bounded_password demo_signin_body) (cr_dummy demo_crypto)"
    by (simp add: demo_crypto_def verifyPassword_def)
  from sign_in_sound [OF s demo_strict(1) this]
  have "\<exists>u \<in> set (id_users recovered). s = new_session (\<lambda>s. s) demo_draws u 7 ''password''"
    by (simp add: demo_signin_body_def demo_crypto_def) blast
  with s show ?thesis by blast
qed

theorem recovery_then_sign_in_witness:
  "\<exists>s b st2. signIn demo_crypto demo_draws ''tok'' strict_policy demo_signin_body 6 7
     (snd (completeRecovery demo_crypto demo_draws demo_salt demo_recovery_body 5 demo_accounts)) = (SignedIn s b, st2)"
proof -
  have c: "completeRecovery demo_crypto demo_draws demo_salt demo_recovery_body 5 demo_accounts
      = ((200, RecoveryDone 0), snd (completeRecovery demo_crypto demo_draws demo_salt demo_recovery_body 5 demo_accounts))"
    using demo_route by (simp add: prod_eq_iff)
  have k: "\<forall>p s. length (cr_scrypt demo_crypto p s) = 128 \<and> list_all lower_hex (cr_scrypt demo_crypto p s)"
    by (auto simp: demo_crypto_def lower_hex_def list_all_iff)
  have salt: "length demo_salt = 32" "list_all lower_hex demo_salt" "dr_secret demo_draws \<noteq> []"
    by (simp_all add: demo_salt_def demo_draws_def lower_hex_def list_all_iff)
  have body: "demo_signin_body = \<lparr>sb_mode = Some ''password'', sb_userId = rb_userId demo_recovery_body, sb_teamId = rb_teamId demo_recovery_body,
      sb_password = rb_newPassword demo_recovery_body\<rparr>"
    by (simp add: demo_signin_body_def demo_recovery_body_def)
  from recovery_then_sign_in [OF c demo_ids k salt(1,2) demo_strict salt(3) body, of "''tok''" 6 7] show ?thesis by blast
qed

end
