(* ===== verification/RequestGate.thy ===== *)
theory RequestGate
  imports SignIn
begin

text \<open>
  The guards every request passes before a handler sees it: runtime/loopback-guard.mjs, runtime/route-authority.mjs and
  the head of the listener of runtime/http-server.mjs.  The hostname a URL parser reads from a Host header is a
  parameter; the path is the parsed one, which starts with a slash.  The comparison of secrets is by their bytes.
\<close>

section \<open>The loopback guard\<close>

definition LOOPBACK_HOSTNAMES :: "string list" where
  "LOOPBACK_HOSTNAMES = [''127.0.0.1'', ''localhost'', ''[::1]'']"

definition configuredLoopbackToken :: "(string \<Rightarrow> string option) \<Rightarrow> string option" where
  "configuredLoopbackToken env =
     (let token = js_trim (coalesce (env ''MYAGENT_LOOPBACK_TOKEN'') []) in if 32 \<le> length token then Some token else None)"

definition hostAllowed :: "(string \<Rightarrow> string option) \<Rightarrow> (string \<Rightarrow> string option) \<Rightarrow> string option \<Rightarrow> bool" where
  "hostAllowed url_hostname env hostHeader =
     (let raw = js_trim (coalesce hostHeader [])
      in raw \<noteq> [] \<and>
         (case url_hostname raw of
            None \<Rightarrow> False
          | Some hostname \<Rightarrow>
              hostname \<in> set LOOPBACK_HOSTNAMES
              \<or> js_lower hostname \<in> set (filter (\<lambda>v. v \<noteq> [])
                  (map (\<lambda>v. js_lower (js_trim v)) (split_at (\<lambda>c. c = CHR '','') (coalesce (env ''MYAGENT_ALLOWED_HOSTS'') []))))))"

definition loopbackTokenValid :: "string option \<Rightarrow> string option \<Rightarrow> bool" where
  "loopbackTokenValid header token = (case token of None \<Rightarrow> False | Some expected \<Rightarrow> expected \<noteq> [] \<and> coalesce header [] = expected)"

section \<open>The authority of a role\<close>

text \<open>A rule is an anchored path: fixed segments, and \<open>[^/]+\<close> for any that is not empty.  A rule of the source with
  alternatives or an optional end is one line for each path it stands for.\<close>

datatype segment = Seg string | AnySeg

type_synonym path_rule = "segment list"

fun segment_match :: "segment \<Rightarrow> string \<Rightarrow> bool" where
  "segment_match (Seg s) t \<longleftrightarrow> s = t"
| "segment_match AnySeg t \<longleftrightarrow> t \<noteq> []"

definition rule_match :: "path_rule \<Rightarrow> string \<Rightarrow> bool" where
  "rule_match rule path = (case split_at (\<lambda>c. c = slash) path of [] \<Rightarrow> False | s # ss \<Rightarrow> s = [] \<and> list_all2 segment_match rule ss)"

definition manageRules :: "path_rule list" where
  "manageRules = [
     [Seg ''api'', Seg ''agent-skills''],
     [Seg ''api'', Seg ''agent-skills'', AnySeg],
     [Seg ''api'', Seg ''agents''],
     [Seg ''api'', Seg ''agents'', Seg ''probe''],
     [Seg ''api'', Seg ''agents'', AnySeg, Seg ''enable''],
     [Seg ''api'', Seg ''agents'', AnySeg, Seg ''disable''],
     [Seg ''api'', Seg ''agents'', AnySeg, Seg ''health-check''],
     [Seg ''api'', Seg ''device''],
     [Seg ''api'', Seg ''device'', Seg ''unlink''],
     [Seg ''api'', Seg ''device'', Seg ''relink''],
     [Seg ''api'', Seg ''runtimes'', Seg ''install'', Seg ''plan''],
     [Seg ''api'', Seg ''runtimes'', Seg ''install'', Seg ''runs''],
     [Seg ''api'', Seg ''runtimes'', Seg ''install'', Seg ''runs'', AnySeg, Seg ''cancel''],
     [Seg ''api'', Seg ''applications'', Seg ''install'', Seg ''plan''],
     [Seg ''api'', Seg ''applications'', Seg ''install'', Seg ''runs''],
     [Seg ''api'', Seg ''applications'', Seg ''install'', Seg ''runs'', AnySeg, Seg ''cancel''],
     [Seg ''api'', Seg ''applications'', Seg ''quick-register''],
     [Seg ''api'', Seg ''applications'', Seg ''register''],
     [Seg ''api'', Seg ''applications'', AnySeg, Seg ''auto-recovery''],
     [Seg ''api'', Seg ''applications'', AnySeg, Seg ''health-probe''],
     [Seg ''api'', Seg ''applications'', AnySeg, Seg ''probe''],
     [Seg ''api'', Seg ''applications'', AnySeg, Seg ''repair''],
     [Seg ''api'', Seg ''applications'', AnySeg, Seg ''online''],
     [Seg ''api'', Seg ''applications'', AnySeg, Seg ''offline''],
     [Seg ''api'', Seg ''applications'', AnySeg, Seg ''archive''],
     [Seg ''api'', Seg ''applications'', AnySeg, Seg ''refresh''],
     [Seg ''api'', Seg ''applications'', AnySeg, Seg ''orchestrations'', Seg ''generate''],
     [Seg ''api'', Seg ''discovery''],
     [Seg ''api'', Seg ''discovery'', AnySeg, Seg ''candidates'', AnySeg, Seg ''register''],
     [Seg ''api'', Seg ''integration-artifacts''],
     [Seg ''api'', Seg ''integration-artifacts'', AnySeg, Seg ''generate''],
     [Seg ''api'', Seg ''integration-artifacts'', AnySeg, Seg ''approve''],
     [Seg ''api'', Seg ''integration-artifacts'', AnySeg, Seg ''reject''],
     [Seg ''api'', Seg ''integration-artifacts'', AnySeg, Seg ''archive''],
     [Seg ''api'', Seg ''integration-artifacts'', AnySeg, Seg ''review''],
     [Seg ''api'', Seg ''integration-artifacts'', AnySeg, Seg ''probe''],
     [Seg ''api'', Seg ''integration-artifacts'', AnySeg, Seg ''register''],
     [Seg ''api'', Seg ''integration-retention''],
     [Seg ''api'', Seg ''integration-builder'', Seg ''draft''],
     [Seg ''api'', Seg ''channels''],
     [Seg ''api'', Seg ''channels'', AnySeg, Seg ''allowlist''],
     [Seg ''api'', Seg ''channels'', AnySeg, Seg ''task-project''],
     [Seg ''api'', Seg ''channels'', AnySeg, Seg ''approval-policy''],
     [Seg ''api'', Seg ''channels'', AnySeg, Seg ''notification-policy''],
     [Seg ''api'', Seg ''channels'', AnySeg, Seg ''enable''],
     [Seg ''api'', Seg ''channels'', AnySeg, Seg ''disable''],
     [Seg ''api'', Seg ''channels'', AnySeg, Seg ''identities''],
     [Seg ''api'', Seg ''channels'', AnySeg, Seg ''identities'', AnySeg],
     [Seg ''api'', Seg ''budgets''],
     [Seg ''api'', Seg ''automations''],
     [Seg ''api'', Seg ''automations'', AnySeg],
     [Seg ''api'', Seg ''auto-run-settings''],
     [Seg ''api'', Seg ''report-schedule''],
     [Seg ''api'', Seg ''capability-resolutions''],
     [Seg ''api'', Seg ''teams''],
     [Seg ''api'', Seg ''teams'', AnySeg, Seg ''alert-webhook''],
     [Seg ''api'', Seg ''users''],
     [Seg ''api'', Seg ''observability'', Seg ''delete''],
     [Seg ''api'', Seg ''mail'', Seg ''task-policies''],
     [Seg ''api'', Seg ''hosts''],
     [Seg ''api'', Seg ''hosts'', AnySeg],
     [Seg ''api'', Seg ''hosts'', AnySeg, Seg ''observe-fingerprint''],
     [Seg ''api'', Seg ''hosts'', AnySeg, Seg ''confirm-fingerprint''],
     [Seg ''api'', Seg ''hosts'', AnySeg, Seg ''verify''],
     [Seg ''api'', Seg ''hosts'', AnySeg, Seg ''file-scopes''],
     [Seg ''api'', Seg ''hosts'', AnySeg, Seg ''file-scopes'', AnySeg],
     [Seg ''api'', Seg ''hosts'', AnySeg, Seg ''tls-activation-profiles''],
     [Seg ''api'', Seg ''hosts'', AnySeg, Seg ''health'', Seg ''monitoring''],
     [Seg ''api'', Seg ''sites'', AnySeg, Seg ''deployment-target''],
     [Seg ''api'', Seg ''sites'', AnySeg, Seg ''deployment-target'', Seg ''verify''],
     [Seg ''api'', Seg ''sites'', AnySeg, Seg ''domain-tls-binding''],
     [Seg ''api'', Seg ''sites'', AnySeg, Seg ''domain-tls-binding'', Seg ''deployment''],
     [Seg ''api'', Seg ''site-pilot'', Seg ''campaigns''],
     [Seg ''api'', Seg ''site-pilot'', Seg ''campaigns'', AnySeg],
     [Seg ''api'', Seg ''site-pilot'', Seg ''campaigns'', AnySeg, Seg ''invitations''],
     [Seg ''api'', Seg ''host-operations-pilot'', Seg ''campaigns''],
     [Seg ''api'', Seg ''host-operations-pilot'', Seg ''campaigns'', AnySeg]]"

definition operateRules :: "path_rule list" where
  "operateRules = [
     [Seg ''api'', Seg ''hosts'', AnySeg, Seg ''assistant'', Seg ''plan''],
     [Seg ''api'', Seg ''hosts'', AnySeg, Seg ''assistant'', Seg ''diagnose''],
     [Seg ''api'', Seg ''hosts'', AnySeg, Seg ''assistant'', Seg ''cases''],
     [Seg ''api'', Seg ''hosts'', AnySeg, Seg ''assistant'', Seg ''remediation-plan''],
     [Seg ''api'', Seg ''hosts'', AnySeg, Seg ''assistant'', Seg ''remediation-plans'', AnySeg, Seg ''confirm''],
     [Seg ''api'', Seg ''hosts'', AnySeg, Seg ''assistant'', Seg ''remediation-plans'', AnySeg, Seg ''recheck''],
     [Seg ''api'', Seg ''hosts'', AnySeg, Seg ''health'', Seg ''check''],
     [Seg ''api'', Seg ''hosts'', AnySeg, Seg ''diagnostics''],
     [Seg ''api'', Seg ''host-file-scopes'', AnySeg, Seg ''transfers''],
     [Seg ''api'', Seg ''host-file-scopes'', AnySeg, Seg ''transfers'', Seg ''upload''],
     [Seg ''api'', Seg ''host-file-scopes'', AnySeg, Seg ''transfers'', Seg ''download''],
     [Seg ''api'', Seg ''sites'', AnySeg, Seg ''domain-tls-binding'', Seg ''verify-dns''],
     [Seg ''api'', Seg ''sites'', AnySeg, Seg ''domain-tls-binding'', Seg ''issue-staging''],
     [Seg ''api'', Seg ''sites'', AnySeg, Seg ''domain-tls-binding'', Seg ''deploy-staging''],
     [Seg ''api'', Seg ''approvals'', Seg ''grants''],
     [Seg ''api'', Seg ''approvals'', AnySeg, Seg ''approve''],
     [Seg ''api'', Seg ''approvals'', AnySeg, Seg ''deny''],
     [Seg ''api'', Seg ''pending-decisions'', AnySeg, Seg ''claim''],
     [Seg ''api'', Seg ''pending-decisions'', AnySeg, Seg ''release''],
     [Seg ''api'', Seg ''invocations''],
     [Seg ''api'', Seg ''invocations'', AnySeg, Seg ''cancel''],
     [Seg ''api'', Seg ''invocations'', AnySeg, Seg ''troubleshoot''],
     [Seg ''api'', Seg ''auto-runs'', AnySeg, Seg ''reverify''],
     [Seg ''api'', Seg ''compare-runs''],
     [Seg ''api'', Seg ''compare-runs'', AnySeg, Seg ''prefer''],
     [Seg ''api'', Seg ''compare-runs'', AnySeg, Seg ''promote''],
     [Seg ''api'', Seg ''local-schedule'', Seg ''apply''],
     [Seg ''api'', Seg ''local-schedule'', Seg ''rollover''],
     [Seg ''api'', Seg ''local-schedule'', Seg ''urgent''],
     [Seg ''api'', Seg ''capabilities'', AnySeg, Seg ''invocations''],
     [Seg ''api'', Seg ''tools'', AnySeg, Seg ''invocations''],
     [Seg ''api'', Seg ''claude-apply'', Seg ''authorizations'', AnySeg, Seg ''rollback''],
     [Seg ''api'', Seg ''channels'', AnySeg, Seg ''deliveries'', AnySeg, Seg ''retry''],
     [Seg ''api'', Seg ''channel-tasks'', AnySeg, Seg ''route''],
     [Seg ''api'', Seg ''channel-tasks'', AnySeg, Seg ''dismiss''],
     [Seg ''api'', Seg ''channel-tasks'', AnySeg, Seg ''retry''],
     [Seg ''api'', Seg ''channel-tasks'', AnySeg, Seg ''reroute''],
     [Seg ''api'', Seg ''channel-tasks'', AnySeg, Seg ''takeover''],
     [Seg ''api'', Seg ''channel-tasks'', AnySeg, Seg ''wechat-draft-reconciliation''],
     [Seg ''api'', Seg ''channel-tasks'', AnySeg, Seg ''commands''],
     [Seg ''api'', Seg ''automations'', AnySeg, Seg ''run''],
     [Seg ''api'', Seg ''report-schedule'', Seg ''post-now''],
     [Seg ''api'', Seg ''applications'', AnySeg, Seg ''orchestrations'', AnySeg, Seg ''run''],
     [Seg ''api'', Seg ''applications'', AnySeg, Seg ''orchestrations'', AnySeg, Seg ''runs'', AnySeg, Seg ''recovery'', Seg ''actions''],
     [Seg ''api'', Seg ''mail'', Seg ''task-policies'', Seg ''evaluate'']]"

datatype capability = Manage | Operate

definition MUTATING_METHODS :: "string list" where
  "MUTATING_METHODS = [''POST'', ''PUT'', ''PATCH'', ''DELETE'']"

definition requiredProfessionalCapability :: "string \<Rightarrow> string \<Rightarrow> capability option" where
  "requiredProfessionalCapability method path =
     (if js_upper method \<notin> set MUTATING_METHODS then None
      else if list_ex (\<lambda>r. rule_match r path) operateRules then Some Operate
      else if list_ex (\<lambda>r. rule_match r path) manageRules then Some Manage
      else None)"

definition roleAllowsProfessionalCapability :: "string \<Rightarrow> capability option \<Rightarrow> bool" where
  "roleAllowsProfessionalCapability role c =
     (case c of None \<Rightarrow> True
      | Some Manage \<Rightarrow> role \<in> {''owner'', ''admin''}
      | Some Operate \<Rightarrow> role \<in> {''owner'', ''admin'', ''operator''})"

section \<open>The head of the listener\<close>

record request =
  rq_method :: string
  rq_path :: string
  rq_host :: "string option"
  rq_cookie :: "string option"
  rq_authorization :: "string option"
  rq_csrf :: "string option"
  rq_loopback :: "string option"
  rq_desktop :: "string option"
  rq_contentType :: "string option"

datatype verdict = Refuse nat string | Preflight | Health | Observe | Credential | Handle resolved_actor

text \<open>\<open>/^Observer\s+(.+)$/i\<close>: the greedy blanks leave at least one character.\<close>

definition observer_supplied :: "string option \<Rightarrow> string" where
  "observer_supplied header =
     (let h = coalesce header []; rest = drop 8 h
      in if js_lower (take 8 h) = ''observer'' \<and> 2 \<le> length rest \<and> js_space (hd rest)
         then (if list_all js_space rest then [last rest] else dropWhile js_space rest) else [])"

text \<open>The bytes of a text in UTF-8, whose number \<open>timingSafeEqual\<close> wants equal: it throws when they differ.\<close>

definition byte_length :: "string \<Rightarrow> nat" where
  "byte_length s = sum_list (map (\<lambda>c. if (of_char c :: nat) < 128 then 1 else 2) s)"

definition validObserverToken :: "(string \<Rightarrow> string option) \<Rightarrow> string option \<Rightarrow> bool option" where
  "validObserverToken env header =
     (let expected = coalesce (env ''MYAGENTTOOL_OBSERVER_TOKEN'') []; supplied = observer_supplied header
      in if length expected < 24 \<or> length supplied \<noteq> length expected then Some False
         else if byte_length supplied \<noteq> byte_length expected then None
         else Some (supplied = expected))"

definition binary_upload :: "string \<Rightarrow> string \<Rightarrow> bool" where
  "binary_upload method path \<longleftrightarrow>
     method = ''PUT'' \<and> rule_match [Seg ''api'', Seg ''projects'', AnySeg, Seg ''task-material-drafts'', AnySeg, Seg ''files'', AnySeg] path
     \<or> method = ''POST'' \<and> rule_match [Seg ''api'', Seg ''workflow-memory'', Seg ''template-learning'', AnySeg, Seg ''files''] path
     \<or> method = ''PUT'' \<and> rule_match [Seg ''api'', Seg ''sites'', AnySeg, Seg ''assets''] path
     \<or> method = ''POST'' \<and> rule_match [Seg ''api'', Seg ''host-file-scopes'', AnySeg, Seg ''transfers'', Seg ''upload''] path"

definition content_type_refused :: "request \<Rightarrow> bool" where
  "content_type_refused rq =
     (let declared = js_lower (js_trim (coalesce (rq_contentType rq) []))
      in rq_method rq \<in> {''POST'', ''PUT'', ''PATCH''} \<and> starts_with (rq_path rq) ''/api/'' \<and> \<not> binary_upload (rq_method rq) (rq_path rq)
         \<and> declared \<noteq> [] \<and> \<not> starts_with declared ''application/json'')"

definition public_path :: "string \<Rightarrow> string \<Rightarrow> bool" where
  "public_path method path \<longleftrightarrow>
     (method = ''POST'' \<and> path = ''/api/session'') \<or> (method = ''POST'' \<and> path = ''/api/identity/recovery/complete'')
     \<or> path = ''/api/identity/options'' \<or> starts_with path ''/api/identity/challenges''
     \<or> starts_with path ''/api/bridge/''
     \<or> path \<in> {''/api/webhooks/github/work-items'', ''/api/webhooks/gitlab/work-items'', ''/api/webhooks/gitea/work-items''}"

definition child_confined :: "resolved_actor \<Rightarrow> string \<Rightarrow> string \<Rightarrow> bool" where
  "child_confined actor method path \<longleftrightarrow>
     coalesce (ra_childLearner actor) [] \<noteq> [] \<and> starts_with path ''/api/'' \<and> \<not> starts_with path ''/api/private-tutor/''
     \<and> \<not> (method = ''GET'' \<and> path = ''/api/session'')"

definition authorize_request :: "(string \<Rightarrow> string) \<Rightarrow> identity_policy \<Rightarrow> request \<Rightarrow> resolved_actor \<Rightarrow> verdict" where
  "authorize_request digest policy rq actor =
     (let public = public_path (rq_method rq) (rq_path rq)
      in if ap_requireAuth policy \<and> \<not> public \<and> \<not> ra_authenticated actor then Refuse 401 ''unauthenticated''
         else if rq_method rq \<in> set MUTATING_METHODS \<and> \<not> public \<and> ra_authMethod actor = ''cookie''
              \<and> \<not> validSessionCsrf digest (rq_csrf rq) (ra_csrfHash actor) then Refuse 403 ''csrf_invalid''
         else if child_confined actor (rq_method rq) (rq_path rq) then Refuse 403 ''private_tutor_child_mode_restricted''
         else if \<not> public \<and> \<not> roleAllowsProfessionalCapability (ra_role actor) (requiredProfessionalCapability (rq_method rq) (rq_path rq))
              then Refuse 403 ''role_forbidden''
         else Handle actor)"

definition gateRequest ::
    "(string \<Rightarrow> string) \<Rightarrow> (string \<Rightarrow> string option) \<Rightarrow> (string \<Rightarrow> string option) \<Rightarrow> request \<Rightarrow> instant \<Rightarrow> 'a identity_state_scheme
     \<Rightarrow> verdict \<times> 'a identity_state_scheme" where
  "gateRequest digest url_hostname env rq t st =
     (let policy = identityPolicyFromEnv env; token = configuredLoopbackToken env; method = rq_method rq; path = rq_path rq
      in if \<not> hostAllowed url_hostname env (rq_host rq) then (Refuse 403 ''host_not_allowed'', st)
         else if method = ''OPTIONS'' then (Preflight, st)
         else if method = ''GET'' \<and> path = ''/health'' then (Health, st)
         else
           (let (actor, st1) = resolveActor digest policy (rq_cookie rq) (rq_authorization rq) t st
            in (if path = ''/api/terminal-observation/v1'' then
                  (if method \<noteq> ''GET'' then Refuse 405 ''observer_read_only''
                   else (case validObserverToken env (rq_authorization rq) of
                           None \<Rightarrow> Refuse 500 ''internal_error''
                         | Some ok \<Rightarrow> if ok then Observe else Refuse 401 ''invalid_observer_token''))
                else if token \<noteq> None \<and> starts_with path ''/api/'' \<and> \<not> loopbackTokenValid (rq_loopback rq) token
                     \<and> \<not> (ra_authenticated actor \<and> ra_authMethod actor = ''cookie'') then Refuse 401 ''loopback_token_required''
                else if content_type_refused rq then Refuse 415 ''unsupported_content_type''
                else if path = ''/api/internal/site-credentials'' then
                  (if coalesce (env ''MYAGENT_DESKTOP_CREDENTIAL_TOKEN'') [] \<noteq> []
                      \<and> coalesce (rq_desktop rq) [] = coalesce (env ''MYAGENT_DESKTOP_CREDENTIAL_TOKEN'') []
                   then (if method \<in> {''PUT'', ''DELETE''} then Credential else Refuse 405 ''method_not_allowed'')
                   else Refuse 404 ''not_found'')
                else authorize_request digest policy rq actor, st1)))"

end
