(* ===== verification/RequestSafety.thy ===== *)
theory RequestSafety
  imports RequestGate IdentityRuns
begin

text \<open>
  What holds of every request that reaches a handler, and that the two tables of rules never overlap.
\<close>

section \<open>The tables of rules\<close>

fun may_overlap :: "path_rule \<Rightarrow> path_rule \<Rightarrow> bool" where
  "may_overlap [] [] \<longleftrightarrow> True"
| "may_overlap (Seg s # r) (Seg t # q) \<longleftrightarrow> (if s = t then may_overlap r q else False)"
| "may_overlap (AnySeg # r) (b # q) \<longleftrightarrow> may_overlap r q"
| "may_overlap (Seg s # r) (AnySeg # q) \<longleftrightarrow> may_overlap r q"
| "may_overlap _ _ \<longleftrightarrow> False"

lemma both_segments_overlap:
  "list_all2 segment_match r ss \<Longrightarrow> list_all2 segment_match q ss \<Longrightarrow> may_overlap r q"
  by (induction r q arbitrary: ss rule: may_overlap.induct) (auto simp: list_all2_Cons1)

lemma both_match_overlap: "rule_match r path \<Longrightarrow> rule_match q path \<Longrightarrow> may_overlap r q"
  by (auto simp: rule_match_def split: list.splits intro: both_segments_overlap)

lemma tables_apart: "list_all (\<lambda>r. list_all (\<lambda>q. \<not> may_overlap r q) manageRules) operateRules"
  by code_simp

lemma never_both: "list_ex (\<lambda>r. rule_match r path) operateRules \<Longrightarrow> \<not> list_ex (\<lambda>r. rule_match r path) manageRules"
  using tables_apart both_match_overlap by (fastforce simp: list_ex_iff list_all_iff)

text \<open>C35: The order of the two tables does not matter.  No path matches a rule of both, so the capability a request needs is the
  same when the management rules are tried first: the precedence the code gives to operational actions never decides.\<close>

theorem capability_order_irrelevant:
  "requiredProfessionalCapability method path =
     (if js_upper method \<notin> set MUTATING_METHODS then None
      else if list_ex (\<lambda>r. rule_match r path) manageRules then Some Manage
      else if list_ex (\<lambda>r. rule_match r path) operateRules then Some Operate
      else None)"
  using never_both by (auto simp: requiredProfessionalCapability_def)

section \<open>Requests that reach a handler\<close>

lemma authorize_handles: "authorize_request digest policy rq actor = Handle a \<Longrightarrow> a = actor"
  by (auto simp: authorize_request_def Let_def split: if_splits)

lemma handled:
  assumes "gateRequest digest url_hostname env rq t st = (Handle actor, st')"
  shows "hostAllowed url_hostname env (rq_host rq) \<and> resolveActor digest (identityPolicyFromEnv env) (rq_cookie rq) (rq_authorization rq) t st = (actor, st')
    \<and> (configuredLoopbackToken env \<noteq> None \<and> starts_with (rq_path rq) ''/api/'' \<longrightarrow>
         loopbackTokenValid (rq_loopback rq) (configuredLoopbackToken env) \<or> ra_authenticated actor \<and> ra_authMethod actor = ''cookie'')
    \<and> authorize_request digest (identityPolicyFromEnv env) rq actor = Handle actor"
proof -
  obtain a st1 where r: "resolveActor digest (identityPolicyFromEnv env) (rq_cookie rq) (rq_authorization rq) t st = (a, st1)"
    by (meson surj_pair)
  have "authorize_request digest (identityPolicyFromEnv env) rq a = Handle actor"
    "hostAllowed url_hostname env (rq_host rq)" "st' = st1"
    "configuredLoopbackToken env \<noteq> None \<and> starts_with (rq_path rq) ''/api/'' \<longrightarrow>
         loopbackTokenValid (rq_loopback rq) (configuredLoopbackToken env) \<or> ra_authenticated a \<and> ra_authMethod a = ''cookie''"
    using assms unfolding gateRequest_def Let_def r by (auto split: if_splits option.splits)
  then show ?thesis using r authorize_handles by blast
qed

lemma policy_requires: "ap_requireAuth (identityPolicyFromEnv env) \<longleftrightarrow> env ''MYAGENT_REQUIRE_AUTH'' = Some ''1''"
  by (simp add: identityPolicyFromEnv_def Let_def)

lemma mutating_upper: "m \<in> set MUTATING_METHODS \<Longrightarrow> js_upper m \<in> set MUTATING_METHODS"
proof -
  have "list_all (\<lambda>m. js_upper m \<in> set MUTATING_METHODS) MUTATING_METHODS" by code_simp
  then show "m \<in> set MUTATING_METHODS \<Longrightarrow> ?thesis" by (auto simp: list_all_iff)
qed

lemma manage_needed:
  "m \<in> set MUTATING_METHODS \<Longrightarrow> list_ex (\<lambda>r. rule_match r p) manageRules \<Longrightarrow> requiredProfessionalCapability m p = Some Manage"
  using never_both mutating_upper by (auto simp: requiredProfessionalCapability_def)

lemma operate_needed:
  "m \<in> set MUTATING_METHODS \<Longrightarrow> list_ex (\<lambda>r. rule_match r p) operateRules \<Longrightarrow> requiredProfessionalCapability m p = Some Operate"
  using mutating_upper by (simp add: requiredProfessionalCapability_def)

text \<open>C33: What a handler can rely on.  A request that reaches a handler named an allowed host and, where a launch token is configured,
  carried it or rode an authenticated cookie session.  Outside the public paths its actor is authenticated when
  authentication is required, a write of a cookie session carried the CSRF secret of that session, a write to a
  management path is an owner's or an administrator's, and one to an operational path also an operator's.  A browser
  in child mode gets no further than the tutor and the reading of its session.\<close>

theorem gate_sound:
  assumes "gateRequest digest url_hostname env rq t st = (Handle actor, st')"
  shows "hostAllowed url_hostname env (rq_host rq)
    \<and> resolveActor digest (identityPolicyFromEnv env) (rq_cookie rq) (rq_authorization rq) t st = (actor, st')
    \<and> (configuredLoopbackToken env \<noteq> None \<and> starts_with (rq_path rq) ''/api/'' \<longrightarrow>
         loopbackTokenValid (rq_loopback rq) (configuredLoopbackToken env) \<or> ra_authenticated actor \<and> ra_authMethod actor = ''cookie'')
    \<and> (\<not> public_path (rq_method rq) (rq_path rq) \<longrightarrow>
         (env ''MYAGENT_REQUIRE_AUTH'' = Some ''1'' \<longrightarrow> ra_authenticated actor)
       \<and> (rq_method rq \<in> set MUTATING_METHODS \<longrightarrow>
            (ra_authMethod actor = ''cookie'' \<longrightarrow> coalesce (rq_csrf rq) [] \<noteq> [] \<and> ra_csrfHash actor = Some (digest (coalesce (rq_csrf rq) [])))
          \<and> (list_ex (\<lambda>r. rule_match r (rq_path rq)) manageRules \<longrightarrow> ra_role actor \<in> {''owner'', ''admin''})
          \<and> (list_ex (\<lambda>r. rule_match r (rq_path rq)) operateRules \<longrightarrow> ra_role actor \<in> {''owner'', ''admin'', ''operator''})))
    \<and> (coalesce (ra_childLearner actor) [] \<noteq> [] \<and> starts_with (rq_path rq) ''/api/'' \<longrightarrow>
         starts_with (rq_path rq) ''/api/private-tutor/'' \<or> rq_method rq = ''GET'' \<and> rq_path rq = ''/api/session'')"
proof -
  note h = handled [OF assms]
  have auth: "\<not> public_path (rq_method rq) (rq_path rq) \<Longrightarrow> env ''MYAGENT_REQUIRE_AUTH'' = Some ''1'' \<Longrightarrow> ra_authenticated actor"
    "\<not> public_path (rq_method rq) (rq_path rq) \<Longrightarrow> rq_method rq \<in> set MUTATING_METHODS \<Longrightarrow> ra_authMethod actor = ''cookie''
      \<Longrightarrow> validSessionCsrf digest (rq_csrf rq) (ra_csrfHash actor)"
    "\<not> child_confined actor (rq_method rq) (rq_path rq)"
    "\<not> public_path (rq_method rq) (rq_path rq)
      \<Longrightarrow> roleAllowsProfessionalCapability (ra_role actor) (requiredProfessionalCapability (rq_method rq) (rq_path rq))"
    using h by (auto simp: authorize_request_def Let_def policy_requires split: if_splits)
  have csrf: "validSessionCsrf digest (rq_csrf rq) (ra_csrfHash actor)
      \<Longrightarrow> coalesce (rq_csrf rq) [] \<noteq> [] \<and> ra_csrfHash actor = Some (digest (coalesce (rq_csrf rq) []))"
    by (cases "ra_csrfHash actor") (auto simp: validSessionCsrf_def)
  show ?thesis
    using h auth csrf manage_needed [of "rq_method rq" "rq_path rq"] operate_needed [of "rq_method rq" "rq_path rq"]
    by (auto simp: roleAllowsProfessionalCapability_def child_confined_def)
qed

text \<open>C34: A signed-out cookie opens no door.  After all sessions of a user are revoked, and whatever identity operations follow in which no
  later login draws the same secret, a request with the old cookie and no live bearer token passes the guards only on a
  public path, when authentication is required.\<close>

theorem revoked_cookie_refused:
  assumes "find_user st uid = Some u" and "revokeAllUserSessions d uid t st = (n, st1)"
    and "\<forall>s \<in> set (id_sessions st). se_tokenHash s = digest secret \<longrightarrow> se_userId s = uid"
    and "(id_step digest (\<lambda>h. h \<noteq> digest secret) id_ok)\<^sup>*\<^sup>* st1 st2"
    and "env ''MYAGENT_REQUIRE_AUTH'' = Some ''1''" and "rq_cookie rq = Some secret"
    and "live_token (identityPolicyFromEnv env) (rq_authorization rq) t' st2 = None"
    and "gateRequest digest url_hostname env rq t' st2 = (Handle actor, st3)"
  shows "public_path (rq_method rq) (rq_path rq)"
proof (rule ccontr)
  assume "\<not> public_path (rq_method rq) (rq_path rq)"
  then have a: "ra_authenticated actor"
    using handled [OF assms(8)] assms(5) by (auto simp: authorize_request_def Let_def policy_requires split: if_splits)
  have "\<forall>s \<in> set (id_sessions st1). ended (digest secret) s"
    using revoke_all_ends [OF assms(1,3), of d t] assms(2) by simp
  then have "\<forall>s \<in> set (id_sessions st2). ended (digest secret) s" by (rule ended.run_keeps [OF assms(4)])
  then have none: "fst (resolveServerSession digest (Some secret) t' st2) = None" by (rule ended_unresolved)
  then have "fst (resolveActor digest (identityPolicyFromEnv env) (rq_cookie rq) (rq_authorization rq) t' st2) = anonymous"
    using unresolved_same [OF none] assms(5-7)
    by (cases "resolveServerSession digest (Some secret) t' st2") (simp add: resolveActor_def Let_def policy_requires)
  then show False using a handled [OF assms(8)] by (simp add: anonymous_def)
qed

section \<open>Instances\<close>

definition strict_env :: "string \<Rightarrow> string option" where
  "strict_env k = (if k = ''MYAGENT_REQUIRE_AUTH'' then Some ''1'' else None)"

definition local_host :: "string \<Rightarrow> string option" where
  "local_host h = Some ''localhost''"

definition demo_request :: "string \<Rightarrow> string \<Rightarrow> request" where
  "demo_request method path = \<lparr>rq_method = method, rq_path = path, rq_host = Some ''localhost:4317'', rq_cookie = Some ''sid'',
     rq_authorization = None, rq_csrf = Some ''csrf'', rq_loopback = None, rq_desktop = None, rq_contentType = Some ''application/json''\<rparr>"

definition passes :: "verdict \<Rightarrow> bool" where
  "passes v = (case v of Handle a \<Rightarrow> True | _ \<Rightarrow> False)"

lemma passesE: "passes (fst r) \<Longrightarrow> \<exists>a st. r = (Handle a, st)"
  by (cases r) (auto simp: passes_def split: verdict.splits)

lemma demo_handled: "passes (fst (gateRequest (\<lambda>s. s) local_host strict_env (demo_request ''POST'' ''/api/invocations'') 5 logged_in))"
  by code_simp

lemma demo_refused:
  "fst (gateRequest (\<lambda>s. s) local_host strict_env ((demo_request ''POST'' ''/api/budgets'')\<lparr>rq_csrf := Some ''x''\<rparr>) 5 logged_in) = Refuse 403 ''csrf_invalid''"
  "fst (gateRequest (\<lambda>s. s) local_host strict_env (demo_request ''POST'' ''/api/budgets'') 5 logged_in) = Refuse 403 ''role_forbidden''"
  by code_simp+

theorem gate_sound_witness:
  "\<exists>a st. gateRequest (\<lambda>s. s) local_host strict_env (demo_request ''POST'' ''/api/invocations'') 5 logged_in = (Handle a, st)
    \<and> ra_authenticated a"
proof -
  obtain a st where g: "gateRequest (\<lambda>s. s) local_host strict_env (demo_request ''POST'' ''/api/invocations'') 5 logged_in = (Handle a, st)"
    using passesE [OF demo_handled] by blast
  have "\<not> public_path (rq_method (demo_request ''POST'' ''/api/invocations'')) (rq_path (demo_request ''POST'' ''/api/invocations''))"
    "strict_env ''MYAGENT_REQUIRE_AUTH'' = Some ''1''"
    by code_simp+
  with gate_sound [OF g] g show ?thesis by blast
qed

lemma demo_public: "passes (fst (gateRequest (\<lambda>s. s) local_host strict_env (demo_request ''POST'' ''/api/session'') 7
    (snd (revokeAllUserSessions demo_draws ''usr_a'' 6 logged_in))))"
  by code_simp

theorem revoked_cookie_refused_witness:
  "public_path ''POST'' ''/api/session''
    \<and> fst (gateRequest (\<lambda>s. s) local_host strict_env (demo_request ''POST'' ''/api/invocations'') 7
         (snd (revokeAllUserSessions demo_draws ''usr_a'' 6 logged_in))) = Refuse 401 ''unauthenticated''"
proof -
  have own: "\<forall>s \<in> set (id_sessions logged_in). se_tokenHash s = ''sid'' \<longrightarrow> se_userId s = ''usr_a''"
    using demo_sessions by (cases "id_sessions logged_in") auto
  obtain n st1 where r: "revokeAllUserSessions demo_draws ''usr_a'' 6 logged_in = (n, st1)" by (meson surj_pair)
  obtain a st3 where g: "gateRequest (\<lambda>s. s) local_host strict_env (demo_request ''POST'' ''/api/session'') 7 st1 = (Handle a, st3)"
    using passesE [OF demo_public] r by auto
  have refused: "fst (gateRequest (\<lambda>s. s) local_host strict_env (demo_request ''POST'' ''/api/invocations'') 7
      (snd (revokeAllUserSessions demo_draws ''usr_a'' 6 logged_in))) = Refuse 401 ''unauthenticated''"
    by code_simp
  have side: "strict_env ''MYAGENT_REQUIRE_AUTH'' = Some ''1''" "rq_cookie (demo_request ''POST'' ''/api/session'') = Some ''sid''"
    "live_token (identityPolicyFromEnv strict_env) (rq_authorization (demo_request ''POST'' ''/api/session'')) 7 st1 = None"
    by (simp_all add: strict_env_def demo_request_def live_token_def bearer_def)
  have "public_path (rq_method (demo_request ''POST'' ''/api/session'')) (rq_path (demo_request ''POST'' ''/api/session''))"
    using revoked_cookie_refused [where digest = "\<lambda>s. s" and secret = "''sid''", OF ann_found r own rtranclp.rtrancl_refl side g] .
  with refused show ?thesis by (simp add: demo_request_def)
qed

end
