(* ===== verification/ChannelDelivery.thy ===== *)
theory ChannelDelivery
  imports Grants FirstMatch
begin

text \<open>
  services/channel-delivery.mjs: outbound messages of a channel as durable rows, claimed for sending one at a time, with
  bounded retries, a terminal failure and an operator's retry.  The send of a provider is asynchronous: a claim before it
  and a settlement after it are two operations, and what the provider answered is an argument.  Fixed texts shown to a
  user are the constructors of \<open>notice\<close>.
\<close>

section \<open>State\<close>

datatype delivery_status = DQueued | DSending | DDelivered | DUnconfirmed | DRetrying | DFailed

text \<open>What a thread shows as next action and as last progress: free text, or one of the texts of this service.\<close>

datatype notice = Words string | RetryInConsole | ResultNotDelivered | MayResend | ResultUnseen | ViewResult | ResultSent

record task_context =
  tc_messageId :: "string option"
  tc_principalId :: "string option"
  tc_terminalId :: "string option"
  tc_projectId :: "string option"
  tc_workItemId :: "string option"
  tc_threadId :: "string option"
  tc_traceId :: "string option"
  tc_deliveryKind :: "string option"
  tc_notificationEvent :: "string option"

record task_context_in = task_context +
  tc_channelId :: "string option"
  tc_conversationId :: "string option"

record report_source =
  sc_workItemId :: "string option"
  sc_reportDraftId :: "string option"
  sc_reportDeliveryId :: "string option"
  sc_contentDigest :: "string option"
  sc_chunkIndex :: "nat option"
  sc_chunkCount :: "nat option"

record media_asset =
  ma_id :: "string option"
  ma_projectId :: "string option"
  ma_terminalId :: "string option"
  ma_path :: "string option"
  ma_name :: "string option"
  ma_family :: "string option"
  ma_mimeType :: "string option"
  ma_size :: "int option"
  ma_hash :: "string option"

record channel_delivery =
  cd_id :: string
  cd_channelId :: string
  cd_conversationId :: string
  cd_ownerTeamId :: string
  cd_invocationId :: "string option"
  cd_taskContext :: "task_context option"
  cd_sourceContext :: "report_source option"
  cd_toUser :: string
  cd_replyContext :: json
  cd_content :: string
  cd_mediaAssets :: "media_asset list"
  cd_dedupeKey :: "string option"
  cd_status :: delivery_status
  cd_attempts :: nat
  cd_nextAttemptAt :: "instant option"
  cd_providerReceiptId :: "string option"
  cd_providerClientId :: "string option"
  cd_providerAcceptedAt :: "instant option"
  cd_nextManualRetryAt :: "instant option"
  cd_lastResentAt :: "instant option"
  cd_resendCount :: nat
  cd_resendOfDeliveryId :: "string option"
  cd_userConfirmedAt :: "instant option"
  cd_userConfirmedByEventId :: "string option"
  cd_userReportedMissingAt :: "instant option"
  cd_lastManualRetryRequestId :: "string option"
  cd_lastErrorCode :: "string option"
  cd_createdAt :: instant
  cd_updatedAt :: instant

record channel =
  cn_id :: string
  cn_provider :: "string option"
  cn_status :: string
  cn_ownerTeamId :: "string option"

record conversation =
  cv_id :: string
  cv_channelId :: string
  cv_externalUserId :: string
  cv_replyContext :: json

record task_thread =
  tt_id :: string
  tt_channelId :: string
  tt_conversationId :: string
  tt_lastDeliveryId :: "string option"
  tt_lastDeliveryStatus :: "delivery_status option"
  tt_lastDeliveryError :: "string option"
  tt_lastActivityAt :: "instant option"
  tt_updatedAt :: "instant option"
  tt_nextAction :: notice
  tt_lastProgressAt :: "instant option"
  tt_lastProgressSummary :: notice
  tt_workItemId :: "string option"
  tt_sourceEventIds :: "string list"
  tt_exportedAsset :: "media_asset option"
  tt_resultSummary :: "string option"

record notification_log =
  nl_deliveryId :: "string option"
  nl_deliveryStatus :: "delivery_status option"
  nl_deliveryError :: "string option"
  nl_updatedAt :: instant
  nl_deliveredAt :: "instant option"

record channel_tables = grant_tables +
  ct_channels :: "channel list"
  ct_conversations :: "conversation list"
  ct_threads :: "task_thread list"
  ct_notifications :: "notification_log list"
  ct_deliveries :: "channel_delivery list"

type_synonym 'a cd_server = "'a channel_tables_scheme server"

definition upd_ct :: "('a channel_tables_scheme \<Rightarrow> 'a channel_tables_scheme) \<Rightarrow> 'a cd_server \<Rightarrow> 'a cd_server" where
  "upd_ct f st = st\<lparr>world := f (world st)\<rparr>"

abbreviation deliveries :: "'a cd_server \<Rightarrow> channel_delivery list" where
  "deliveries st \<equiv> ct_deliveries (world st)"

definition find_delivery :: "'a cd_server \<Rightarrow> string \<Rightarrow> channel_delivery option" where
  "find_delivery st i = List.find (\<lambda>d. cd_id d = i) (deliveries st)"

definition findChannel :: "'a cd_server \<Rightarrow> string \<Rightarrow> channel option" where
  "findChannel st i = List.find (\<lambda>c. cn_id c = i) (ct_channels (world st))"

definition findConversation :: "'a cd_server \<Rightarrow> string \<Rightarrow> conversation option" where
  "findConversation st i = List.find (\<lambda>c. cv_id c = i) (ct_conversations (world st))"

text \<open>A handler that writes through a row object updates the row of that id.\<close>

definition set_delivery :: "string \<Rightarrow> (channel_delivery \<Rightarrow> channel_delivery) \<Rightarrow> 'a cd_server \<Rightarrow> 'a cd_server" where
  "set_delivery i f = upd_ct (\<lambda>w. w\<lparr>ct_deliveries := upd_where (\<lambda>d. cd_id d = i) f (ct_deliveries w)\<rparr>)"

definition CHANNEL_DELIVERY_RETRY_ACTION :: string where "CHANNEL_DELIVERY_RETRY_ACTION = ''channel.delivery.retry''"
definition MAX_DELIVERY_ATTEMPTS :: nat where "MAX_DELIVERY_ATTEMPTS = 5"
definition MANUAL_RESEND_COOLDOWN_MS :: int where "MANUAL_RESEND_COOLDOWN_MS = 10 * 60 * 1000"
definition BASE_BACKOFF_MS :: int where "BASE_BACKOFF_MS = 5000"
definition MAX_BACKOFF_MS :: int where "MAX_BACKOFF_MS = 10 * 60 * 1000"
definition RATE_LIMIT_BACKOFF_MS :: int where "RATE_LIMIT_BACKOFF_MS = 60 * 1000"
definition MAX_CONTENT_CHARS :: nat where "MAX_CONTENT_CHARS = 2048"
definition MAX_MEDIA_ASSETS :: nat where "MAX_MEDIA_ASSETS = 5"
definition MAX_CHANNEL_DELIVERIES :: nat where "MAX_CHANNEL_DELIVERIES = 10000"
definition TERMINAL_DELIVERY_RETENTION_MS :: int where "TERMINAL_DELIVERY_RETENTION_MS = 30 * 24 * 60 * 60 * 1000"
definition STALE_SENDING_MS :: int where "STALE_SENDING_MS = 2 * 60 * 1000"

definition backoffMs :: "nat \<Rightarrow> bool \<Rightarrow> int" where
  "backoffMs attempts rateLimited =
     (if rateLimited then RATE_LIMIT_BACKOFF_MS else min (BASE_BACKOFF_MS * 2 ^ (attempts - 1)) MAX_BACKOFF_MS)"

section \<open>The thread and the notification of a delivery\<close>

definition threadForDelivery :: "'a cd_server \<Rightarrow> channel_delivery \<Rightarrow> task_thread option" where
  "threadForDelivery st d =
     (let threadId = coalesce (Option.bind (cd_taskContext d) tc_threadId) []
      in if threadId = [] then None
         else List.find (\<lambda>th. tt_id th = threadId \<and> tt_channelId th = cd_channelId d \<and> tt_conversationId th = cd_conversationId d)
                (ct_threads (world st)))"

definition error_text :: "string option \<Rightarrow> string option" where
  "error_text e = (if coalesce e [] = [] then None else map_option (take 120) e)"

definition is_result :: "channel_delivery \<Rightarrow> bool" where
  "is_result d \<longleftrightarrow> Option.bind (cd_taskContext d) tc_deliveryKind = Some ''result''
     \<or> Option.bind (cd_taskContext d) tc_notificationEvent = Some ''succeeded''"

definition thread_note :: "instant \<Rightarrow> delivery_status \<Rightarrow> bool \<Rightarrow> task_thread \<Rightarrow> task_thread" where
  "thread_note t status result th =
     (let shown = (\<lambda>a p. th\<lparr>tt_nextAction := a, tt_lastProgressAt := Some t, tt_lastProgressSummary := p\<rparr>)
      in if \<not> result then th
         else if status = DFailed then shown RetryInConsole ResultNotDelivered
         else if status = DUnconfirmed then shown MayResend ResultUnseen
         else if status = DDelivered then shown ViewResult ResultSent else th)"

definition updateThreadDelivery ::
    "instant \<Rightarrow> channel_delivery \<Rightarrow> delivery_status \<Rightarrow> string option \<Rightarrow> 'a cd_server \<Rightarrow> 'a cd_server" where
  "updateThreadDelivery t d status errorCode st =
     (let st1 = upd_ct (\<lambda>w. w\<lparr>ct_notifications := upd_first (\<lambda>n. nl_deliveryId n = Some (cd_id d))
            (\<lambda>n. n\<lparr>nl_deliveryStatus := Some status, nl_deliveryError := error_text errorCode, nl_updatedAt := t,
                    nl_deliveredAt := (if status = DDelivered then Some t else nl_deliveredAt n)\<rparr>) (ct_notifications w)\<rparr>) st
      in case threadForDelivery st1 d of
           None \<Rightarrow> st1
         | Some th \<Rightarrow>
             upd_ct (\<lambda>w. w\<lparr>ct_threads := upd_first (\<lambda>x. tt_id x = tt_id th \<and> tt_channelId x = tt_channelId th \<and> tt_conversationId x = tt_conversationId th)
               (\<lambda>x. thread_note t status (is_result d)
                  (x\<lparr>tt_lastDeliveryId := Some (cd_id d), tt_lastDeliveryStatus := Some status, tt_lastDeliveryError := error_text errorCode,
                     tt_lastActivityAt := Some t, tt_updatedAt := Some t\<rparr>))
               (ct_threads w)\<rparr>) st1)"

section \<open>New deliveries\<close>

text \<open>The fields of an asset are the texts \<open>String\<close> gives; an absent or empty one is null.\<close>

definition clip :: "nat \<Rightarrow> string option \<Rightarrow> string option" where
  "clip n v = (if coalesce v [] = [] then None else map_option (take n) v)"

definition normalizeMediaAssets :: "media_asset list \<Rightarrow> media_asset list" where
  "normalizeMediaAssets assets =
     filter (\<lambda>a. ma_projectId a \<noteq> None \<and> ma_path a \<noteq> None)
       (map (\<lambda>a. \<lparr>ma_id = clip 200 (ma_id a), ma_projectId = clip 200 (ma_projectId a), ma_terminalId = clip 200 (ma_terminalId a),
                  ma_path = clip 1000 (map_option (map (\<lambda>c. if c = CHR 0x5C then CHR ''/'' else c)) (ma_path a)),
                  ma_name = clip 200 (ma_name a), ma_family = clip 40 (ma_family a), ma_mimeType = clip 120 (ma_mimeType a),
                  ma_size = ma_size a, ma_hash = clip 120 (ma_hash a)\<rparr>)
          (take MAX_MEDIA_ASSETS assets))"

definition active :: "delivery_status \<Rightarrow> bool" where
  "active s \<longleftrightarrow> s \<in> {DQueued, DRetrying, DSending}"

definition pruneDeliveryHistory :: "instant \<Rightarrow> channel_delivery list \<Rightarrow> channel_delivery list" where
  "pruneDeliveryHistory t rows =
     (let cutoff = t - TERMINAL_DELIVERY_RETENTION_MS;
          live = filter (\<lambda>r. active (cd_status r)) rows;
          historical = sort_key (\<lambda>r. - cd_updatedAt r) (filter (\<lambda>r. \<not> active (cd_status r) \<and> cutoff \<le> cd_updatedAt r) rows);
          retained = live @ take (MAX_CHANNEL_DELIVERIES - length live) historical
      in if length rows \<le> MAX_CHANNEL_DELIVERIES \<and> \<not> list_ex (\<lambda>r. \<not> active (cd_status r) \<and> cd_updatedAt r < cutoff) rows then rows
         else if length retained < length rows then retained else rows)"

definition deliveryKinds :: "string list" where
  "deliveryKinds = [''result'', ''status_notification'']"

definition notificationEvents :: "string list" where
  "notificationEvents = [''queued'', ''started'', ''progress'', ''waiting_user'', ''waiting_approval'', ''needs_attention'', ''succeeded'',
     ''failed'', ''cancelled'', ''human_takeover'']"

definition kept_context :: "channel \<Rightarrow> conversation \<Rightarrow> task_context_in option \<Rightarrow> task_context option" where
  "kept_context ch cv ctx =
     (case ctx of None \<Rightarrow> None
      | Some c \<Rightarrow>
          if tc_channelId c \<noteq> Some (cn_id ch) \<or> tc_conversationId c \<noteq> Some (cv_id cv) then None
          else Some \<lparr>tc_messageId = tc_messageId c, tc_principalId = tc_principalId c, tc_terminalId = tc_terminalId c,
                 tc_projectId = tc_projectId c, tc_workItemId = tc_workItemId c, tc_threadId = tc_threadId c, tc_traceId = tc_traceId c,
                 tc_deliveryKind = (if tc_deliveryKind c \<in> Some ` set deliveryKinds then tc_deliveryKind c else None),
                 tc_notificationEvent = (if tc_notificationEvent c \<in> Some ` set notificationEvents then tc_notificationEvent c else None)\<rparr>)"

definition deliveryRow ::
    "instant \<Rightarrow> channel \<Rightarrow> conversation \<Rightarrow> string option \<Rightarrow> string \<Rightarrow> task_context_in option \<Rightarrow> media_asset list \<Rightarrow> string option
     \<Rightarrow> report_source option \<Rightarrow> string \<Rightarrow> channel_delivery" where
  "deliveryRow t ch cv invocationId content ctx assets key source i =
     \<lparr>cd_id = i, cd_channelId = cn_id ch, cd_conversationId = cv_id cv, cd_ownerTeamId = coalesce (cn_ownerTeamId ch) ''team_local'',
      cd_invocationId = (if coalesce invocationId [] = [] then None else invocationId),
      cd_taskContext = kept_context ch cv ctx, cd_sourceContext = source, cd_toUser = cv_externalUserId cv,
      cd_replyContext = cv_replyContext cv, cd_content = take MAX_CONTENT_CHARS content, cd_mediaAssets = assets, cd_dedupeKey = key,
      cd_status = DQueued, cd_attempts = 0, cd_nextAttemptAt = Some t, cd_providerReceiptId = None, cd_providerClientId = None,
      cd_providerAcceptedAt = None, cd_nextManualRetryAt = None, cd_lastResentAt = None, cd_resendCount = 0, cd_resendOfDeliveryId = None,
      cd_userConfirmedAt = None, cd_userConfirmedByEventId = None, cd_userReportedMissingAt = None, cd_lastManualRetryRequestId = None,
      cd_lastErrorCode = None, cd_createdAt = t, cd_updatedAt = t\<rparr>"

definition push_deliveries :: "instant \<Rightarrow> channel_delivery list \<Rightarrow> 'a cd_server \<Rightarrow> 'a cd_server" where
  "push_deliveries t new st =
     (let st1 = upd_ct (\<lambda>w. w\<lparr>ct_deliveries := ct_deliveries w @ new\<rparr>) st;
          st2 = fold (\<lambda>d. updateThreadDelivery t d DQueued None) new st1
      in upd_ct (\<lambda>w. w\<lparr>ct_deliveries := pruneDeliveryHistory t (ct_deliveries w)\<rparr>) st2)"

datatype enqueued = InvalidDelivery | Enqueued string | AlreadyQueued string

definition dedupe_row :: "channel \<Rightarrow> conversation \<Rightarrow> string \<Rightarrow> channel_delivery \<Rightarrow> bool" where
  "dedupe_row ch cv key d \<longleftrightarrow> cd_channelId d = cn_id ch \<and> cd_conversationId d = cv_id cv \<and> cd_dedupeKey d = Some key \<and> cd_status d \<noteq> DFailed"

definition enqueueChannelDelivery ::
    "instant \<Rightarrow> string \<Rightarrow> string \<Rightarrow> string option \<Rightarrow> string \<Rightarrow> task_context_in option \<Rightarrow> media_asset list \<Rightarrow> string option
     \<Rightarrow> 'a cd_server \<Rightarrow> enqueued \<times> 'a cd_server" where
  "enqueueChannelDelivery t channelId conversationId invocationId content ctx mediaAssets dedupeKey st =
     (let text' = js_trim content; assets = normalizeMediaAssets mediaAssets;
          key = (if coalesce dedupeKey [] = [] then None else map_option (\<lambda>k. take 240 (js_trim k)) dedupeKey)
      in case (findChannel st channelId, findConversation st conversationId) of
           (Some ch, Some cv) \<Rightarrow>
             if cv_channelId cv \<noteq> cn_id ch \<or> text' = [] \<and> assets = [] then (InvalidDelivery, st)
             else
               (case (if coalesce key [] = [] then None else List.find (dedupe_row ch cv (coalesce key [])) (deliveries st)) of
                  Some d \<Rightarrow> (AlreadyQueued (cd_id d), st)
                | None \<Rightarrow>
                    (let (i, st1) = next_id ''chdl'' st
                     in (Enqueued i, push_deliveries t [deliveryRow t ch cv invocationId text' ctx assets key None i] st1)))
         | _ \<Rightarrow> (InvalidDelivery, st))"

text \<open>A batch is queued whole or not at all.\<close>

fun batch_rows ::
    "instant \<Rightarrow> channel \<Rightarrow> conversation \<Rightarrow> string option \<Rightarrow> task_context_in option \<Rightarrow> report_source option \<Rightarrow> nat \<Rightarrow> nat \<Rightarrow> string list
     \<Rightarrow> 'a cd_server \<Rightarrow> channel_delivery list \<times> 'a cd_server" where
  "batch_rows t ch cv invId ctx source n chunkCount [] st = ([], st)"
| "batch_rows t ch cv invId ctx source n chunkCount (c # cs) st =
     (let (i, st1) = next_id ''chdl'' st;
          (rows, st2) = batch_rows t ch cv invId ctx source (Suc n) chunkCount cs st1
      in (deliveryRow t ch cv invId c ctx [] None (map_option (\<lambda>s. s\<lparr>sc_chunkIndex := Some (Suc n), sc_chunkCount := Some chunkCount\<rparr>) source) i # rows, st2))"

definition enqueueChannelDeliveryBatch ::
    "instant \<Rightarrow> string \<Rightarrow> string \<Rightarrow> string option \<Rightarrow> string list \<Rightarrow> task_context_in option \<Rightarrow> report_source option
     \<Rightarrow> 'a cd_server \<Rightarrow> string list option \<times> 'a cd_server" where
  "enqueueChannelDeliveryBatch t channelId conversationId invocationId chunks ctx source st =
     (case (findChannel st channelId, findConversation st conversationId) of
        (Some ch, Some cv) \<Rightarrow>
          if cv_channelId cv \<noteq> cn_id ch \<or> chunks = [] \<or> 50 < length chunks
             \<or> list_ex (\<lambda>c. js_trim c = [] \<or> MAX_CONTENT_CHARS < length c) chunks then (None, st)
          else (let (rows, st1) = batch_rows t ch cv invocationId ctx source 0 (length chunks) chunks st
                in (Some (map cd_id rows), push_deliveries t rows st1))
      | _ \<Rightarrow> (None, st))"

section \<open>Sending\<close>

text \<open>What the provider answered: accepted, with its message id, its client id and whether the user saw it, or refused.\<close>

datatype send_outcome = SendOk "string option" "string option" bool | SendFailed bool string

definition claimed_row :: "instant \<Rightarrow> channel_delivery \<Rightarrow> channel_delivery" where
  "claimed_row t d = d\<lparr>cd_status := DSending, cd_attempts := cd_attempts d + 1, cd_updatedAt := t\<rparr>"

definition claimDelivery :: "instant \<Rightarrow> string \<Rightarrow> 'a cd_server \<Rightarrow> channel_delivery option \<times> 'a cd_server" where
  "claimDelivery t i st =
     (case find_delivery st i of
        None \<Rightarrow> (None, st)
      | Some d \<Rightarrow>
          if cd_status d \<notin> {DQueued, DRetrying} then (None, st)
          else (Some (claimed_row t d), set_delivery i (claimed_row t) st))"

definition accepted_row :: "instant \<Rightarrow> string option \<Rightarrow> string option \<Rightarrow> bool \<Rightarrow> channel_delivery \<Rightarrow> channel_delivery" where
  "accepted_row t msgid clientId confirmed d =
     d\<lparr>cd_status := (if confirmed then DDelivered else DUnconfirmed), cd_providerReceiptId := (if coalesce msgid [] = [] then None else msgid),
       cd_providerClientId := (if coalesce clientId [] \<noteq> [] then clientId
                               else if coalesce (cd_providerClientId d) [] \<noteq> [] then cd_providerClientId d else Some (cd_id d)),
       cd_providerAcceptedAt := Some t, cd_nextManualRetryAt := (if confirmed then None else Some (t + MANUAL_RESEND_COOLDOWN_MS)),
       cd_lastErrorCode := None, cd_updatedAt := t\<rparr>"

definition accepted_event :: "bool \<Rightarrow> channel_delivery \<Rightarrow> event_in" where
  "accepted_event confirmed d =
     mk_ev (cd_invocationId d) (if confirmed then ''channel_delivery_recorded'' else ''channel_delivery_unconfirmed'')
       (if confirmed then ''info'' else ''warn'')
       (''Channel '' @ cd_channelId d @ '': delivery '' @ cd_id d
          @ (if confirmed then '' delivered.'' else '' accepted without confirmed user delivery.''))
       (JObj [(''channelId'', JStr (cd_channelId d)), (''deliveryId'', JStr (cd_id d)), (''conversationId'', JStr (cd_conversationId d)),
          (''providerReceiptId'', jstr (cd_providerReceiptId d)), (''providerClientId'', jstr (cd_providerClientId d)),
          (''confirmed'', JBool confirmed), (''attempts'', JNum (int (cd_attempts d)))])"

definition undeliverable :: "string \<Rightarrow> channel_delivery \<Rightarrow> refusal_in" where
  "undeliverable errcode d =
     \<lparr>ri_subject = Some (ref_to ''channel_delivery'' (Some (cd_id d))),
      ri_requester = Some (ref_to ''channel_conversation'' (Some (cd_conversationId d))),
      ri_category = ''state'', ri_code = ''undeliverable'', ri_decidedBy = Some (ref_to ''server'' (Some (cd_channelId d))),
      ri_summary = Some (''Channel delivery '' @ cd_id d @ '' failed terminally (errcode '' @ errcode @ '', '' @ show_nat (cd_attempts d) @ '' attempts).''),
      ri_evidence = JObj [(''channelId'', JStr (cd_channelId d)), (''deliveryId'', JStr (cd_id d)), (''errcode'', JStr errcode),
         (''attempts'', JNum (int (cd_attempts d)))],
      ri_remedy = Some ''Fix the provider-side condition, then retry the delivery from the console.'', ri_retryAfter = None, ri_appealTo = None,
      ri_event = Some (mk_ev (cd_invocationId d) ''channel_delivery_failed'' ''error''
         (''Channel '' @ cd_channelId d @ '': delivery '' @ cd_id d @ '' failed terminally ('' @ errcode @ '').'')
         (JObj [(''channelId'', JStr (cd_channelId d)), (''deliveryId'', JStr (cd_id d)), (''errcode'', JStr errcode),
            (''attempts'', JNum (int (cd_attempts d)))]))\<rparr>"

definition retry_row :: "instant \<Rightarrow> string \<Rightarrow> channel_delivery \<Rightarrow> channel_delivery" where
  "retry_row t errcode d = d\<lparr>cd_status := DRetrying, cd_lastErrorCode := Some errcode,
     cd_nextAttemptAt := Some (t + backoffMs (cd_attempts d) (errcode = ''45009'')), cd_updatedAt := t\<rparr>"

definition failed_row :: "instant \<Rightarrow> string \<Rightarrow> channel_delivery \<Rightarrow> channel_delivery" where
  "failed_row t errcode d = d\<lparr>cd_status := DFailed, cd_lastErrorCode := Some errcode, cd_updatedAt := t\<rparr>"

text \<open>The row is written without another look at its status: only a claim precedes it.\<close>

definition settled_row :: "instant \<Rightarrow> send_outcome \<Rightarrow> channel_delivery \<Rightarrow> channel_delivery" where
  "settled_row t outcome d =
     (case outcome of
        SendOk msgid clientId confirmed \<Rightarrow> accepted_row t msgid clientId confirmed d
      | SendFailed retryable errcode \<Rightarrow>
          if retryable \<and> cd_attempts d < MAX_DELIVERY_ATTEMPTS then retry_row t errcode d else failed_row t errcode d)"

definition settleDelivery :: "instant \<Rightarrow> string \<Rightarrow> send_outcome \<Rightarrow> 'a cd_server \<Rightarrow> 'a cd_server" where
  "settleDelivery t i outcome st =
     (case find_delivery st i of
        None \<Rightarrow> st
      | Some d0 \<Rightarrow>
          (let d = settled_row t outcome d0;
               st1 = updateThreadDelivery t d (cd_status d)
                       (case outcome of SendOk _ _ _ \<Rightarrow> None | SendFailed _ e \<Rightarrow> Some e) (set_delivery i (settled_row t outcome) st)
           in case outcome of
                SendOk msgid clientId confirmed \<Rightarrow> append_event t (accepted_event confirmed d) st1
              | SendFailed retryable errcode \<Rightarrow>
                  if cd_status d = DRetrying then st1 else refuse_unchecked t (undeliverable errcode d) st1))"

definition senderFor :: "(string option \<Rightarrow> (channel_delivery \<Rightarrow> send_outcome) option) \<Rightarrow> 'a cd_server \<Rightarrow> channel_delivery \<Rightarrow> send_outcome" where
  "senderFor senders st d =
     (case senders (Option.bind (findChannel st (cd_channelId d)) cn_provider) of
        None \<Rightarrow> SendFailed True ''no_sender'' | Some send \<Rightarrow> send d)"

definition attemptDelivery ::
    "(string option \<Rightarrow> (channel_delivery \<Rightarrow> send_outcome) option) \<Rightarrow> instant \<Rightarrow> string \<Rightarrow> 'a cd_server \<Rightarrow> 'a cd_server" where
  "attemptDelivery senders t i st =
     (case claimDelivery t i st of
        (None, st1) \<Rightarrow> st1
      | (Some d, st1) \<Rightarrow> settleDelivery t i (senderFor senders st1 d) st1)"

section \<open>The sweep\<close>

definition stranded :: "instant \<Rightarrow> channel_delivery \<Rightarrow> bool" where
  "stranded t d \<longleftrightarrow> cd_status d = DSending \<and> STALE_SENDING_MS < t - cd_updatedAt d"

definition recovered_row :: "instant \<Rightarrow> channel_delivery \<Rightarrow> channel_delivery" where
  "recovered_row t d = d\<lparr>cd_status := DRetrying, cd_lastErrorCode := Some ''stranded_sending'', cd_nextAttemptAt := Some t, cd_updatedAt := t\<rparr>"

definition recover_one :: "instant \<Rightarrow> channel_delivery \<Rightarrow> 'a cd_server \<Rightarrow> 'a cd_server" where
  "recover_one t d st =
     updateThreadDelivery t (recovered_row t d) DRetrying (Some ''stranded_sending'') (set_delivery (cd_id d) (recovered_row t) st)"

definition recoverStranded :: "instant \<Rightarrow> 'a cd_server \<Rightarrow> 'a cd_server" where
  "recoverStranded t st = fold (recover_one t) (filter (stranded t) (deliveries st)) st"

definition due_now :: "instant \<Rightarrow> 'a cd_server \<Rightarrow> channel_delivery \<Rightarrow> bool" where
  "due_now t st d \<longleftrightarrow> cd_status d \<in> {DQueued, DRetrying}
     \<and> map_option cn_status (findChannel st (cd_channelId d)) = Some ''enabled''
     \<and> (case cd_nextAttemptAt d of None \<Rightarrow> True | Some n \<Rightarrow> n \<le> t)"

definition due_ids :: "instant \<Rightarrow> 'a cd_server \<Rightarrow> string list" where
  "due_ids t st = map cd_id (filter (due_now t st) (deliveries st))"

text \<open>The sends of a sweep follow each other; here nothing else happens in between.\<close>

definition runSweep ::
    "(string option \<Rightarrow> (channel_delivery \<Rightarrow> send_outcome) option) \<Rightarrow> instant \<Rightarrow> 'a cd_server \<Rightarrow> nat \<times> 'a cd_server" where
  "runSweep senders t st =
     (let st1 = recoverStranded t st; due = due_ids t st1
      in (length due, fold (attemptDelivery senders t) due st1))"

section \<open>Retry and acknowledgement\<close>

definition requeued_row :: "instant \<Rightarrow> string option \<Rightarrow> channel_delivery \<Rightarrow> channel_delivery" where
  "requeued_row t requestId d =
     d\<lparr>cd_status := DQueued, cd_attempts := 0, cd_providerClientId := Some (cd_id d @ ''-retry-'' @ show_int t),
       cd_resendCount := cd_resendCount d + 1, cd_lastResentAt := Some t,
       cd_lastManualRetryRequestId := (case requestId of None \<Rightarrow> None | Some r \<Rightarrow> if take 200 (js_trim r) = [] then None else Some (take 200 (js_trim r))),
       cd_nextManualRetryAt := None, cd_lastErrorCode := None, cd_nextAttemptAt := Some t, cd_updatedAt := t\<rparr>"

datatype retry_answer = RetryRefused nat string string | Requeued string

definition retryChannelDelivery ::
    "(string \<Rightarrow> string) \<Rightarrow> instant \<Rightarrow> string \<Rightarrow> string \<Rightarrow> string option \<Rightarrow> string option \<Rightarrow> actor option \<Rightarrow> 'a cd_server
     \<Rightarrow> retry_answer \<times> 'a cd_server" where
  "retryChannelDelivery digest t channelId deliveryId token requestId actor st =
     (case findChannel st channelId of
        None \<Rightarrow> (RetryRefused 404 ''channel_not_found'' [], st)
      | Some ch \<Rightarrow>
          if (case Option.bind actor ac_teamId of None \<Rightarrow> False | Some team \<Rightarrow> team \<noteq> [] \<and> coalesce (cn_ownerTeamId ch) ''team_local'' \<noteq> team)
          then (RetryRefused 404 ''channel_not_found'' [], st)
          else (case List.find (\<lambda>d. cd_id d = deliveryId \<and> cd_channelId d = cn_id ch) (deliveries st) of
                  None \<Rightarrow> (RetryRefused 404 ''delivery_not_found'' [], st)
                | Some d \<Rightarrow>
                    if cd_status d \<notin> {DFailed, DUnconfirmed} then (RetryRefused 409 ''delivery_not_retryable'' [], st)
                    else if cd_status d = DUnconfirmed \<and> (case cd_nextManualRetryAt d of None \<Rightarrow> False | Some n \<Rightarrow> t < n)
                    then (RetryRefused 409 ''delivery_retry_cooldown'' [], st)
                    else (case validateApprovalToken digest t token (Some CHANNEL_DELIVERY_RETRY_ACTION) (Some (cd_id d)) actor True st of
                            (NotApproved kind reason g, st1) \<Rightarrow> (RetryRefused 409 ''approval_required'' reason, st1)
                          | (approved, st1) \<Rightarrow>
                              (let d1 = requeued_row t requestId d;
                                   st2 = updateThreadDelivery t d1 DQueued None (set_delivery (cd_id d) (requeued_row t requestId) st1)
                               in (Requeued (cd_id d), append_event t
                                     (mk_ev (cd_invocationId d) ''channel_delivery_retry_requested'' ''info''
                                        (''Channel '' @ cn_id ch @ '': delivery '' @ cd_id d @ '' re-queued by operator.'')
                                        (JObj [(''channelId'', JStr (cn_id ch)), (''deliveryId'', JStr (cd_id d))])) st2)))))"

datatype ack_answer = Acknowledged string instant | AlreadyAcknowledged string instant | NoUnconfirmedResult

definition confirmed_row :: "instant \<Rightarrow> string option \<Rightarrow> channel_delivery \<Rightarrow> channel_delivery" where
  "confirmed_row t sourceEventId d =
     d\<lparr>cd_status := DDelivered, cd_userConfirmedAt := Some t, cd_userConfirmedByEventId := clip 200 sourceEventId,
       cd_nextManualRetryAt := None, cd_lastErrorCode := None, cd_updatedAt := t\<rparr>"

definition newest :: "channel_delivery list \<Rightarrow> channel_delivery option" where
  "newest rows = (case sort_key (\<lambda>r. - cd_updatedAt r) rows of [] \<Rightarrow> None | d # _ \<Rightarrow> Some d)"

definition latest_result :: "string \<Rightarrow> string \<Rightarrow> string \<Rightarrow> channel_delivery list \<Rightarrow> channel_delivery option" where
  "latest_result channelId conversationId threadId rows =
     newest (filter (\<lambda>d. cd_channelId d = channelId \<and> cd_conversationId d = conversationId
       \<and> Option.bind (cd_taskContext d) tc_threadId = Some threadId \<and> Option.bind (cd_taskContext d) tc_deliveryKind = Some ''result'') rows)"

definition acknowledgeChannelDelivery ::
    "instant \<Rightarrow> string \<Rightarrow> string \<Rightarrow> string \<Rightarrow> string option \<Rightarrow> 'a cd_server \<Rightarrow> ack_answer \<times> 'a cd_server" where
  "acknowledgeChannelDelivery t channelId conversationId threadId sourceEventId st =
     (case latest_result channelId conversationId threadId (deliveries st) of
        None \<Rightarrow> (NoUnconfirmedResult, st)
      | Some d \<Rightarrow>
          if cd_status d = DUnconfirmed then
            (let d1 = confirmed_row t sourceEventId d;
                 st1 = updateThreadDelivery t d1 DDelivered None (set_delivery (cd_id d) (confirmed_row t sourceEventId) st)
             in (Acknowledged (cd_id d) t, append_event t
                   (mk_ev (cd_invocationId d) ''channel_delivery_user_confirmed'' ''info''
                      (''Channel '' @ cd_channelId d @ '': delivery '' @ cd_id d @ '' confirmed visible by the channel user.'')
                      (JObj [(''channelId'', JStr (cd_channelId d)), (''conversationId'', JStr (cd_conversationId d)), (''deliveryId'', JStr (cd_id d)),
                         (''threadId'', jstr (Option.bind (cd_taskContext d) tc_threadId)), (''sourceEventId'', jstr (clip 200 sourceEventId))])) st1))
          else (case (cd_status d, cd_userConfirmedAt d) of
                  (DDelivered, Some at) \<Rightarrow> (AlreadyAcknowledged (cd_id d) at, st)
                | _ \<Rightarrow> (NoUnconfirmedResult, st)))"

section \<open>Resending a result\<close>

text \<open>What is sent again: a stored delivery, or the file a task exported.  The context a row stores names no channel and no
  conversation.\<close>

record resend_source =
  rs_id :: "string option"
  rs_status :: "delivery_status option"
  rs_nextManualRetryAt :: "instant option"
  rs_channelId :: string
  rs_conversationId :: string
  rs_invocationId :: "string option"
  rs_content :: string
  rs_mediaAssets :: "media_asset list"
  rs_resendCount :: nat
  rs_taskContext :: task_context_in

definition stored_context :: "task_context option \<Rightarrow> task_context_in" where
  "stored_context ctx =
     (let get = (\<lambda>f. Option.bind ctx f)
      in \<lparr>tc_messageId = get tc_messageId, tc_principalId = get tc_principalId, tc_terminalId = get tc_terminalId, tc_projectId = get tc_projectId,
          tc_workItemId = get tc_workItemId, tc_threadId = get tc_threadId, tc_traceId = get tc_traceId, tc_deliveryKind = get tc_deliveryKind,
          tc_notificationEvent = get tc_notificationEvent, tc_channelId = None, tc_conversationId = None\<rparr>)"

definition thread_context :: "task_thread \<Rightarrow> task_context_in" where
  "thread_context th =
     \<lparr>tc_messageId = None, tc_principalId = None, tc_terminalId = None, tc_projectId = None, tc_workItemId = tt_workItemId th,
      tc_threadId = Some (tt_id th), tc_traceId = None, tc_deliveryKind = Some ''result'', tc_notificationEvent = None,
      tc_channelId = Some (tt_channelId th), tc_conversationId = Some (tt_conversationId th)\<rparr>"

definition row_source :: "channel_delivery \<Rightarrow> resend_source" where
  "row_source d =
     \<lparr>rs_id = Some (cd_id d), rs_status = Some (cd_status d), rs_nextManualRetryAt = cd_nextManualRetryAt d, rs_channelId = cd_channelId d,
      rs_conversationId = cd_conversationId d, rs_invocationId = cd_invocationId d, rs_content = cd_content d, rs_mediaAssets = cd_mediaAssets d,
      rs_resendCount = cd_resendCount d, rs_taskContext = stored_context (cd_taskContext d)\<rparr>"

definition sendable :: "channel_delivery \<Rightarrow> bool" where
  "sendable d \<longleftrightarrow> cd_status d \<noteq> DSending \<and> (cd_content d \<noteq> [] \<or> cd_mediaAssets d \<noteq> [])"

definition task_delivery :: "string \<Rightarrow> string \<Rightarrow> string \<Rightarrow> channel_delivery \<Rightarrow> bool" where
  "task_delivery channelId conversationId threadId d \<longleftrightarrow>
     cd_channelId d = channelId \<and> cd_conversationId d = conversationId \<and> Option.bind (cd_taskContext d) tc_threadId = Some threadId
     \<and> (coalesce (cd_invocationId d) [] \<noteq> [] \<or> coalesce (Option.bind (cd_taskContext d) tc_workItemId) [] \<noteq> []) \<and> sendable d"

text \<open>Rows written before contexts were stored are found by the keys of the thread's events.\<close>

definition legacy_delivery :: "task_thread \<Rightarrow> channel_delivery \<Rightarrow> bool" where
  "legacy_delivery th d \<longleftrightarrow>
     cd_channelId d = tt_channelId th \<and> cd_conversationId d = tt_conversationId th
     \<and> cd_dedupeKey d \<in> (\<lambda>e. Some (''channel-event:'' @ e @ '':reply'')) ` set (tt_sourceEventIds th) \<and> sendable d"

text \<open>The fixed text of an exported file without a summary is the argument \<open>again\<close>.\<close>

definition resend_source_of :: "string \<Rightarrow> string \<Rightarrow> string \<Rightarrow> string \<Rightarrow> 'a cd_server \<Rightarrow> resend_source option" where
  "resend_source_of again channelId conversationId threadId st =
     (let thread = List.find (\<lambda>th. tt_id th = threadId \<and> tt_channelId th = channelId \<and> tt_conversationId th = conversationId) (ct_threads (world st))
      in case newest (filter (task_delivery channelId conversationId threadId) (deliveries st)) of
           Some d \<Rightarrow> Some (row_source d)
         | None \<Rightarrow>
             (case thread of
                None \<Rightarrow> None
              | Some th \<Rightarrow>
                  (case newest (filter (legacy_delivery th) (deliveries st)) of
                     Some d \<Rightarrow> Some ((row_source d)\<lparr>rs_taskContext := thread_context th\<rparr>)
                   | None \<Rightarrow>
                       (case tt_exportedAsset th of
                          Some a \<Rightarrow>
                            if coalesce (ma_path a) [] = [] then None
                            else Some \<lparr>rs_id = None, rs_status = None, rs_nextManualRetryAt = None, rs_channelId = tt_channelId th,
                                   rs_conversationId = tt_conversationId th, rs_invocationId = None,
                                   rs_content = coalesce (tt_resultSummary th) again, rs_mediaAssets = [a], rs_resendCount = 0,
                                   rs_taskContext = thread_context th\<rparr>
                        | None \<Rightarrow> None))))"

datatype resend_answer = NoResult | RecentlyAccepted "string option" instant | NotQueued | Resent string "string option"

definition copy_row :: "instant \<Rightarrow> resend_source \<Rightarrow> channel_delivery \<Rightarrow> channel_delivery" where
  "copy_row t src d = d\<lparr>cd_resendOfDeliveryId := rs_id src, cd_resendCount := rs_resendCount src + 1, cd_lastResentAt := Some t\<rparr>"

definition report_missing :: "instant \<Rightarrow> resend_source \<Rightarrow> 'a cd_server \<Rightarrow> 'a cd_server" where
  "report_missing t src st =
     (if rs_status src = Some DUnconfirmed then set_delivery (coalesce (rs_id src) []) (\<lambda>d. d\<lparr>cd_userReportedMissingAt := Some t\<rparr>) st else st)"

definition resend_copy :: "instant \<Rightarrow> string \<Rightarrow> resend_source \<Rightarrow> 'a cd_server \<Rightarrow> resend_answer \<times> 'a cd_server" where
  "resend_copy t threadId src st =
     (case enqueueChannelDelivery t (rs_channelId src) (rs_conversationId src) (rs_invocationId src) (rs_content src)
             (Some ((rs_taskContext src)\<lparr>tc_deliveryKind := Some ''result''\<rparr>)) (rs_mediaAssets src) None st of
        (Enqueued i, st1) \<Rightarrow>
          (Resent i (rs_id src), append_event t
             (mk_ev (rs_invocationId src) ''channel_delivery_resend_requested'' ''info''
                (''Channel '' @ rs_channelId src @ '': task result resend queued.'')
                (JObj [(''channelId'', JStr (rs_channelId src)), (''conversationId'', JStr (rs_conversationId src)), (''threadId'', JStr threadId),
                   (''sourceDeliveryId'', jstr (rs_id src)), (''deliveryId'', JStr i)])) (set_delivery i (copy_row t src) st1))
      | (_, st1) \<Rightarrow> (NotQueued, st1))"

definition resendChannelDelivery ::
    "string \<Rightarrow> instant \<Rightarrow> string \<Rightarrow> string \<Rightarrow> string \<Rightarrow> 'a cd_server \<Rightarrow> resend_answer \<times> 'a cd_server" where
  "resendChannelDelivery again t channelId conversationId threadId st =
     (case resend_source_of again channelId conversationId threadId st of
        None \<Rightarrow> (NoResult, st)
      | Some src \<Rightarrow>
          (let st1 = report_missing t src st
           in case (if rs_status src = Some DUnconfirmed then rs_nextManualRetryAt src else None) of
                Some n \<Rightarrow> if t < n then (RecentlyAccepted (rs_id src) n, st1) else resend_copy t threadId src st1
              | None \<Rightarrow> resend_copy t threadId src st1))"

section \<open>Boot\<close>

text \<open>Rows that an older build marked delivered for the provider of WeChat are unconfirmed.\<close>

definition demoted_row :: "channel_delivery \<Rightarrow> channel_delivery" where
  "demoted_row d =
     (let accepted = coalesce (cd_providerAcceptedAt d) (cd_updatedAt d)
      in d\<lparr>cd_status := DUnconfirmed, cd_providerAcceptedAt := Some accepted,
           cd_nextManualRetryAt := Some (coalesce (cd_nextManualRetryAt d) (accepted + MANUAL_RESEND_COOLDOWN_MS))\<rparr>)"

definition demote_accepted :: "'a cd_server \<Rightarrow> 'a cd_server" where
  "demote_accepted st =
     upd_ct (\<lambda>w. w\<lparr>ct_deliveries := upd_where (\<lambda>d. Option.bind (findChannel st (cd_channelId d)) cn_provider = Some ''wechat_ilink''
         \<and> cd_status d = DDelivered \<and> cd_userConfirmedAt d = None) demoted_row (ct_deliveries w)\<rparr>) st"

fun keep_latest :: "channel_delivery list \<Rightarrow> (string \<times> channel_delivery) list \<Rightarrow> (string \<times> channel_delivery) list" where
  "keep_latest [] m = m"
| "keep_latest (d # ds) m =
     (let k = coalesce (Option.bind (cd_taskContext d) tc_threadId) []
      in keep_latest ds
           (if k = [] then m
            else (case map_of m k of
                    None \<Rightarrow> m @ [(k, d)]
                  | Some p \<Rightarrow> if cd_updatedAt p < cd_updatedAt d then map (\<lambda>(j, x). if j = k then (j, d) else (j, x)) m else m)))"

definition recoverThreadDeliveryState :: "instant \<Rightarrow> 'a cd_server \<Rightarrow> nat \<times> 'a cd_server" where
  "recoverThreadDeliveryState t st =
     (let st1 = demote_accepted st;
          rows = filter (\<lambda>d. threadForDelivery st1 d \<noteq> None) (map snd (keep_latest (deliveries st1) []))
      in (length rows, fold (\<lambda>d. updateThreadDelivery t d (cd_status d) (cd_lastErrorCode d)) rows st1))"

end
