(* ===== verification/ChannelRuns.thy ===== *)
theory ChannelRuns
  imports ChannelDelivery
begin

text \<open>
  The life of a delivery over any sequence of operations, with crashes: its abstract machine, the bound on attempts, the
  deduplication, the operator's retry, and what a sweep does to the order of a conversation.
\<close>

section \<open>Reading a row after an operation\<close>

lemma upd_ct_deliveries: "(\<And>w. ct_deliveries (f w) = ct_deliveries w) \<Longrightarrow> deliveries (upd_ct f st) = deliveries st"
  by (simp add: upd_ct_def)

lemma thread_frame [frame]: "deliveries (updateThreadDelivery t d s e st) = deliveries st"
  by (auto simp: updateThreadDelivery_def upd_ct_def Let_def split: option.splits)

lemma event_frame [frame]:
  "deliveries (append_event t e st) = deliveries st" "deliveries (refuse_unchecked t r st) = deliveries st"
  "deliveries (snd (next_id p st)) = deliveries st"
  by (simp_all add: frame)

lemma set_deliveries [frame]: "deliveries (set_delivery i f st) = upd_where (\<lambda>d. cd_id d = i) f (deliveries st)"
  by (simp add: set_delivery_def upd_ct_def)

lemma approval_frame [frame]: "deliveries (snd (validateApprovalToken digest t token a i actor legacy st)) = deliveries st"
  by (simp add: validateApprovalToken_def upd_ag_def frame Let_def split: option.split)

lemma claim_deliveries:
  "claimDelivery t i st = (Some d, st') \<Longrightarrow> deliveries st' = upd_where (\<lambda>d. cd_id d = i) (claimed_row t) (deliveries st)"
  by (auto simp: claimDelivery_def frame split: option.splits if_splits)

lemma find_none_upd: "List.find (\<lambda>d. cd_id d = i) rows = None \<Longrightarrow> upd_where (\<lambda>d. cd_id d = i) f rows = rows"
  by (intro upd_where_none) (auto simp: find_None_iff)

lemma settle_deliveries [frame]:
  "deliveries (settleDelivery t i outcome st) = upd_where (\<lambda>d. cd_id d = i) (settled_row t outcome) (deliveries st)"
  by (cases "find_delivery st i") (auto simp: settleDelivery_def Let_def frame find_delivery_def find_none_upd split: send_outcome.split)

lemma recovered_twice: "recovered_row t (recovered_row t d) = recovered_row t d"
  by (simp add: recovered_row_def)

lemma recover_one_frame: "deliveries (recover_one t d st) = upd_where (\<lambda>x. cd_id x = cd_id d) (recovered_row t) (deliveries st)"
  by (simp add: recover_one_def frame)

lemma fold_recover:
  "deliveries (fold (recover_one t) ds st) = map (\<lambda>x. if cd_id x \<in> cd_id ` set ds then recovered_row t x else x) (deliveries st)"
proof (induction ds arbitrary: st)
  case (Cons d ds)
  have "cd_id (recovered_row t x) = cd_id x" for x by (simp add: recovered_row_def)
  then show ?case by (auto simp: Cons recover_one_frame upd_where_def recovered_twice)
qed simp

lemma push_frame [frame]: "deliveries (push_deliveries t new st) = pruneDeliveryHistory t (deliveries st @ new)"
proof -
  have "deliveries (fold (\<lambda>d. updateThreadDelivery t d DQueued None) ds st1) = deliveries st1" for ds and st1 :: "'a cd_server"
    by (induction ds arbitrary: st1) (simp_all add: frame)
  then show ?thesis by (simp add: push_deliveries_def Let_def upd_ct_def)
qed

lemma newest_in: "newest rows = Some d \<Longrightarrow> d \<in> set rows"
proof -
  have "(case xs of [] \<Rightarrow> None | x # _ \<Rightarrow> Some x) = Some d \<Longrightarrow> d \<in> set xs" for xs :: "channel_delivery list"
    by (cases xs) auto
  then show "newest rows = Some d \<Longrightarrow> d \<in> set rows" unfolding newest_def by fastforce
qed

lemma ack_deliveries:
  "deliveries (snd (acknowledgeChannelDelivery t c v h e st)) = deliveries st
   \<or> (\<exists>d \<in> set (deliveries st). cd_status d = DUnconfirmed
       \<and> deliveries (snd (acknowledgeChannelDelivery t c v h e st)) = upd_where (\<lambda>x. cd_id x = cd_id d) (confirmed_row t e) (deliveries st))"
proof (cases "latest_result c v h (deliveries st)")
  case None
  then show ?thesis by (simp add: acknowledgeChannelDelivery_def)
next
  case (Some d)
  then have "d \<in> set (deliveries st)" by (auto simp: latest_result_def dest: newest_in)
  with Some show ?thesis
    by (cases "cd_status d = DUnconfirmed")
      (auto simp: acknowledgeChannelDelivery_def Let_def frame split: delivery_status.split option.split)
qed

lemma retry_deliveries:
  "deliveries (snd (retryChannelDelivery digest t c i token r actor st)) = deliveries st
   \<or> (\<exists>d \<in> set (deliveries st). cd_status d \<in> {DFailed, DUnconfirmed}
       \<and> deliveries (snd (retryChannelDelivery digest t c i token r actor st)) = upd_where (\<lambda>x. cd_id x = cd_id d) (requeued_row t r) (deliveries st))"
proof (cases "findChannel st c")
  case (Some ch)
  show ?thesis
  proof (cases "List.find (\<lambda>d. cd_id d = i \<and> cd_channelId d = cn_id ch) (deliveries st)")
    case d: (Some d)
    have frame': "deliveries st1 = deliveries st"
      if "validateApprovalToken digest t token (Some CHANNEL_DELIVERY_RETRY_ACTION) (Some (cd_id d)) actor True st = (a, st1)" for a st1
      using approval_frame [of digest t token "Some CHANNEL_DELIVERY_RETRY_ACTION" "Some (cd_id d)" actor True st] that by simp
    have "d \<in> set (deliveries st)" using find_SomeD [OF d] by simp
    then show ?thesis
      using Some d frame' by (auto simp: retryChannelDelivery_def Let_def frame split: prod.splits approval.splits)
  qed (simp add: retryChannelDelivery_def Some)
qed (simp add: retryChannelDelivery_def)

lemma new_exists:
  "\<exists>d. cd_id d = i \<and> cd_status d = DQueued \<and> cd_attempts d = 0
     \<and> pruneDeliveryHistory t (rows @ [deliveryRow t ch cv j x ctx as k src i]) = pruneDeliveryHistory t (rows @ [d])"
  by (rule exI [of _ "deliveryRow t ch cv j x ctx as k src i"]) (simp add: deliveryRow_def)

lemma enqueue_deliveries:
  assumes "enqueueChannelDelivery t c v j content ctx assets key st = (r, st')"
  shows "(case r of Enqueued i \<Rightarrow> (\<exists>d. cd_id d = i \<and> cd_status d = DQueued \<and> cd_attempts d = 0
      \<and> deliveries st' = pruneDeliveryHistory t (deliveries st @ [d])) | _ \<Rightarrow> deliveries st' = deliveries st)"
proof -
  have next': "deliveries st1 = deliveries st" if "next_id ''chdl'' st = (i, st1)" for i st1
    using event_frame(3) [of "''chdl''" st] that by simp
  show ?thesis
    using assms next' unfolding enqueueChannelDelivery_def Let_def
    by (auto simp: frame new_exists split: option.splits if_splits prod.splits)
qed

lemma batch_rows_queued:
  "batch_rows t ch cv j ctx src n k cs st = (rows, st')
    \<Longrightarrow> (\<forall>d \<in> set rows. cd_status d = DQueued \<and> cd_attempts d = 0) \<and> deliveries st' = deliveries st"
proof (induction cs arbitrary: n st rows st')
  case (Cons c cs)
  obtain i st1 where i: "next_id ''chdl'' st = (i, st1)" by (meson surj_pair)
  obtain rows2 st2 where r: "batch_rows t ch cv j ctx src (Suc n) k cs st1 = (rows2, st2)" by (meson surj_pair)
  have "deliveries st1 = deliveries st" using event_frame(3) [of "''chdl''" st] i by simp
  with Cons.IH [OF r] Cons.prems i r show ?case by (auto simp: deliveryRow_def)
qed simp

lemma batch_deliveries:
  assumes "enqueueChannelDeliveryBatch t c v j chunks ctx src st = (r, st')"
  shows "(case r of Some ids \<Rightarrow> (\<exists>rows. map cd_id rows = ids \<and> (\<forall>d \<in> set rows. cd_status d = DQueued \<and> cd_attempts d = 0)
      \<and> deliveries st' = pruneDeliveryHistory t (deliveries st @ rows)) | None \<Rightarrow> deliveries st' = deliveries st)"
proof (cases r)
  case None
  then show ?thesis
    using assms by (auto simp: enqueueChannelDeliveryBatch_def Let_def split: option.splits if_splits prod.splits)
next
  case (Some ids)
  then obtain ch cv rows st1 where b: "batch_rows t ch cv j ctx src 0 (length chunks) chunks st = (rows, st1)"
    "ids = map cd_id rows" "st' = push_deliveries t rows st1"
    using assms by (auto simp: enqueueChannelDeliveryBatch_def Let_def split: option.splits if_splits prod.splits)
  then show ?thesis using batch_rows_queued [OF b(1)] Some by (auto simp: frame)
qed

text \<open>Notes on a row that leave its id, its status and its attempts.\<close>

definition noted :: "channel_delivery list \<Rightarrow> channel_delivery list \<Rightarrow> bool" where
  "noted rows rows' \<longleftrightarrow> (\<exists>g. rows' = map g rows
     \<and> (\<forall>d. cd_id (g d) = cd_id d \<and> cd_status (g d) = cd_status d \<and> cd_attempts (g d) = cd_attempts d))"

lemma noted_same [simp]: "noted rows rows"
  by (auto simp: noted_def intro: exI [of _ id])

lemma noted_upd:
  "(\<And>d. cd_id (g d) = cd_id d \<and> cd_status (g d) = cd_status d \<and> cd_attempts (g d) = cd_attempts d) \<Longrightarrow> noted rows (upd_where P g rows)"
  unfolding noted_def upd_where_def by (rule exI [of _ "\<lambda>d. if P d then g d else d"]) simp

lemma missing_noted: "noted (deliveries st) (deliveries (report_missing t src st))"
  by (auto simp: report_missing_def frame intro: noted_upd)

lemma copy_cases:
  assumes "resend_copy t h src st = (r, st')"
  obtains q st1 where "enqueueChannelDelivery t (rs_channelId src) (rs_conversationId src) (rs_invocationId src) (rs_content src)
        (Some ((rs_taskContext src)\<lparr>tc_deliveryKind := Some ''result''\<rparr>)) (rs_mediaAssets src) None st = (q, st1)"
    and "\<And>i. q = Enqueued i \<Longrightarrow> r = Resent i (rs_id src) \<and> deliveries st' = upd_where (\<lambda>d. cd_id d = i) (copy_row t src) (deliveries st1)"
    and "\<And>i k. r = Resent i k \<Longrightarrow> q = Enqueued i \<and> k = rs_id src"
    and "noted (deliveries st1) (deliveries st')"
proof -
  obtain q st1 where q: "enqueueChannelDelivery t (rs_channelId src) (rs_conversationId src) (rs_invocationId src) (rs_content src)
        (Some ((rs_taskContext src)\<lparr>tc_deliveryKind := Some ''result''\<rparr>)) (rs_mediaAssets src) None st = (q, st1)"
    by (meson surj_pair)
  have "noted rows (upd_where P (copy_row t src) rows)" for P rows by (rule noted_upd) (simp add: copy_row_def)
  with assms q show ?thesis by (intro that [OF q]) (cases q; auto simp: resend_copy_def frame)+
qed

lemma resend_cases:
  assumes "resendChannelDelivery again t c v h st = (r, st')"
  obtains (answered) "noted (deliveries st) (deliveries st')" "\<And>i k. r \<noteq> Resent i k"
  | (copied) src where "resend_source_of again c v h st = Some src" "resend_copy t h src (report_missing t src st) = (r, st')"
proof (cases "resend_source_of again c v h st")
  case None
  with assms answered show ?thesis by (auto simp: resendChannelDelivery_def)
next
  case (Some src)
  let ?hold = "if rs_status src = Some DUnconfirmed then rs_nextManualRetryAt src else None"
  show ?thesis
  proof (cases "\<exists>n. ?hold = Some n \<and> t < n")
    case True
    then show ?thesis using assms Some missing_noted [of st t src]
      by (intro answered) (auto simp: resendChannelDelivery_def Let_def split: if_splits)
  next
    case False
    then show ?thesis using assms Some
      by (intro copied [OF Some]) (auto simp: resendChannelDelivery_def Let_def split: if_splits option.splits)
  qed
qed

section \<open>Pruning\<close>

lemma prune_set: "set (pruneDeliveryHistory t rows) \<subseteq> set rows"
  by (auto simp: pruneDeliveryHistory_def Let_def dest: in_set_takeD)

lemma prune_active: "d \<in> set rows \<Longrightarrow> active (cd_status d) \<Longrightarrow> d \<in> set (pruneDeliveryHistory t rows)"
  by (simp add: pruneDeliveryHistory_def Let_def)

lemma prune_ids:
  assumes "distinct (map cd_id rows)"
  shows "distinct (map cd_id (pruneDeliveryHistory t rows))"
proof -
  have "distinct rows" "inj_on cd_id (set rows)" using assms by (auto simp: distinct_map)
  then have "distinct (filter (\<lambda>r. active (cd_status r)) rows
      @ take n (sort_key (\<lambda>r. - cd_updatedAt r) (filter (\<lambda>r. \<not> active (cd_status r) \<and> c \<le> cd_updatedAt r) rows)))" for n c
    by (auto simp: distinct_sort dest: in_set_takeD)
  then have "distinct (pruneDeliveryHistory t rows)" using \<open>distinct rows\<close> by (simp add: pruneDeliveryHistory_def Let_def)
  then show ?thesis
    using \<open>inj_on cd_id (set rows)\<close> prune_set [of t rows] by (auto simp: distinct_map intro: inj_on_subset)
qed

lemma prune_active_order: "filter (\<lambda>r. active (cd_status r)) (pruneDeliveryHistory t rows) = filter (\<lambda>r. active (cd_status r)) rows"
proof -
  have "filter (\<lambda>r. active (cd_status r)) (take n (sort_key (\<lambda>r. - cd_updatedAt r)
      (filter (\<lambda>r. \<not> active (cd_status r) \<and> c \<le> cd_updatedAt r) rows))) = []" for n c
    by (auto simp: filter_empty_conv dest: in_set_takeD)
  then show ?thesis by (simp add: pruneDeliveryHistory_def Let_def)
qed

lemma prune_bound:
  "length (pruneDeliveryHistory t rows) \<le> max MAX_CHANNEL_DELIVERIES (length (filter (\<lambda>r. active (cd_status r)) rows))"
  by (auto simp: pruneDeliveryHistory_def Let_def)

section \<open>Runs with crashes\<close>

text \<open>A configuration has the number of crashes so far, the delivery being sent (the sweep flag of the process lets only one
  send be under way) and the state.  A sweep recovers stranded rows before its first send.  Ids that are drawn are
  not in the table.  A crash forgets the send under way; the rows are durable.\<close>

type_synonym 'a delivery_config = "nat \<times> string option \<times> 'a cd_server"

inductive delivery_step :: "'a delivery_config \<Rightarrow> 'a delivery_config \<Rightarrow> bool" where
  enqueue: "enqueueChannelDelivery t c v j content ctx assets key st = (r, st') \<Longrightarrow> (\<And>i. r = Enqueued i \<Longrightarrow> i \<notin> cd_id ` set (deliveries st))
    \<Longrightarrow> delivery_step (n, f, st) (n, f, st')"
| batch: "enqueueChannelDeliveryBatch t c v j chunks ctx src st = (r, st')
    \<Longrightarrow> (\<And>ids. r = Some ids \<Longrightarrow> distinct ids \<and> set ids \<inter> cd_id ` set (deliveries st) = {}) \<Longrightarrow> delivery_step (n, f, st) (n, f, st')"
| claim: "claimDelivery t i st = (Some d, st') \<Longrightarrow> delivery_step (n, None, st) (n, Some i, st')"
| settle: "delivery_step (n, Some i, st) (n, None, settleDelivery t i outcome st)"
| recover: "delivery_step (n, None, st) (n, None, recoverStranded t st)"
| retry: "delivery_step (n, f, st) (n, f, snd (retryChannelDelivery digest t c i token rid actor st))"
| resend: "resendChannelDelivery again t c v h st = (r, st') \<Longrightarrow> (\<And>i k. r = Resent i k \<Longrightarrow> i \<notin> cd_id ` set (deliveries st))
    \<Longrightarrow> delivery_step (n, f, st) (n, f, st')"
| ack: "delivery_step (n, f, st) (n, f, snd (acknowledgeChannelDelivery t c v h e st))"
| boot: "delivery_step (n, None, st) (n, None, demote_accepted st)"
| crash: "delivery_step (n, f, st) (Suc n, None, st)"
| other: "deliveries st' = deliveries st \<Longrightarrow> delivery_step (n, f, st) (n, f, st')"

inductive_cases delivery_stepE: "delivery_step s s'"

text \<open>The abstract machine of one delivery; \<open>None\<close> is an id the table does not hold.\<close>

inductive delivery_edge :: "delivery_status option \<Rightarrow> delivery_status option \<Rightarrow> bool" where
  stay: "delivery_edge p p"
| queued: "delivery_edge None (Some DQueued)"
| claimed: "p \<in> {DQueued, DRetrying} \<Longrightarrow> delivery_edge (Some p) (Some DSending)"
| settled: "q \<in> {DDelivered, DUnconfirmed, DRetrying, DFailed} \<Longrightarrow> delivery_edge (Some DSending) (Some q)"
| requeued: "p \<in> {DFailed, DUnconfirmed} \<Longrightarrow> delivery_edge (Some p) (Some DQueued)"
| confirmed: "delivery_edge (Some DUnconfirmed) (Some DDelivered)"
| demoted: "delivery_edge (Some DDelivered) (Some DUnconfirmed)"
| pruned: "\<not> active p \<Longrightarrow> delivery_edge (Some p) None"

definition status_of :: "'a delivery_config \<Rightarrow> string \<Rightarrow> delivery_status option" where
  "status_of s i = map_option cd_status (find_delivery (snd (snd s)) i)"

text \<open>What every row keeps: the bound on its attempts, and that the row being sent is the one that says so.\<close>

definition row_ok :: "nat \<Rightarrow> string option \<Rightarrow> channel_delivery \<Rightarrow> bool" where
  "row_ok n f d \<longleftrightarrow> (f = Some (cd_id d) \<longrightarrow> cd_status d = DSending) \<and>
     (case cd_status d of
        DQueued \<Rightarrow> cd_attempts d = 0
      | DRetrying \<Rightarrow> cd_attempts d \<le> 4 + n
      | DSending \<Rightarrow> cd_attempts d \<le> (if f = Some (cd_id d) then 5 else 4) + n
      | _ \<Rightarrow> cd_attempts d \<le> 5 + n)"

definition config_ok :: "'a delivery_config \<Rightarrow> bool" where
  "config_ok s = (case s of (n, f, st) \<Rightarrow> distinct (map cd_id (deliveries st)) \<and> (\<forall>d \<in> set (deliveries st). row_ok n f d)
     \<and> (\<forall>i. f = Some i \<longrightarrow> i \<in> cd_id ` set (deliveries st)))"

lemma map_ids: "(\<And>d. cd_id (f d) = cd_id d) \<Longrightarrow> map cd_id (upd_where P f rows) = map cd_id rows"
  by (simp add: upd_where_def comp_def)

lemma new_row_ids [simp]:
  "cd_id (claimed_row t d) = cd_id d" "cd_id (settled_row t outcome d) = cd_id d" "cd_id (recovered_row t d) = cd_id d"
  "cd_id (requeued_row t r d) = cd_id d" "cd_id (confirmed_row t e d) = cd_id d" "cd_id (demoted_row d) = cd_id d"
  by (simp_all add: claimed_row_def settled_row_def recovered_row_def requeued_row_def confirmed_row_def demoted_row_def accepted_row_def
      retry_row_def failed_row_def Let_def split: send_outcome.split)

text \<open>A step that changes the rows pointwise keeps what every row keeps if each changed row does.\<close>

lemma pointwise_ok:
  assumes "config_ok (n, f, st)" and "deliveries st' = map g (deliveries st)"
    and "\<And>d. d \<in> set (deliveries st) \<Longrightarrow> cd_id (g d) = cd_id d"
    and "\<And>d. d \<in> set (deliveries st) \<Longrightarrow> row_ok n f d \<Longrightarrow> row_ok n' f' (g d)"
    and "\<And>i. f' = Some i \<Longrightarrow> i \<in> cd_id ` set (deliveries st)"
  shows "config_ok (n', f', st')"
proof -
  have ids: "map cd_id (deliveries st') = map cd_id (deliveries st)" using assms(2,3) by simp
  then have "cd_id ` set (deliveries st') = cd_id ` set (deliveries st)" by (metis list.set_map)
  moreover have "\<forall>d \<in> set (deliveries st'). row_ok n' f' d" using assms(1,2,4) by (auto simp: config_ok_def)
  ultimately show ?thesis using ids assms(1,5) by (simp add: config_ok_def)
qed

lemma pruned_ok:
  assumes "config_ok (n, f, st)" and "deliveries st' = pruneDeliveryHistory t (deliveries st @ rows)"
    and "\<forall>d \<in> set rows. cd_status d = DQueued \<and> cd_attempts d = 0"
    and "distinct (map cd_id rows)" and "set (map cd_id rows) \<inter> cd_id ` set (deliveries st) = {}"
  shows "config_ok (n, f, st')"
proof -
  have d: "distinct (map cd_id (deliveries st'))"
    unfolding assms(2) using assms(1,4,5) by (intro prune_ids) (auto simp: config_ok_def)
  have "row_ok n f x" if "x \<in> set rows" for x
    using that assms(1,3,5) by (auto simp: row_ok_def config_ok_def)
  then have ok: "\<forall>x \<in> set (deliveries st'). row_ok n f x"
    using assms(1) prune_set [of t "deliveries st @ rows"] unfolding assms(2) config_ok_def by auto
  have "i \<in> cd_id ` set (deliveries st')" if fi: "f = Some i" for i
  proof -
    obtain x where x: "x \<in> set (deliveries st)" "cd_id x = i"
      using assms(1) fi by (auto simp: config_ok_def)
    then have "cd_status x = DSending" using assms(1) fi by (auto simp: config_ok_def row_ok_def)
    then have "x \<in> set (deliveries st')" unfolding assms(2) using x(1) by (intro prune_active) (simp_all add: active_def)
    then show ?thesis using x(2) by blast
  qed
  then show ?thesis using d ok by (simp add: config_ok_def)
qed

lemma upd_ok:
  assumes "config_ok (n, f, st)" and "deliveries st' = upd_where (\<lambda>d. cd_id d = j) g (deliveries st)"
    and "\<And>d. cd_id (g d) = cd_id d"
    and "\<And>d. d \<in> set (deliveries st) \<Longrightarrow> cd_id d = j \<Longrightarrow> row_ok n f d \<Longrightarrow> row_ok n' f' (g d)"
    and "\<And>d. d \<in> set (deliveries st) \<Longrightarrow> cd_id d \<noteq> j \<Longrightarrow> row_ok n f d \<Longrightarrow> row_ok n' f' d"
    and "\<And>i. f' = Some i \<Longrightarrow> i \<in> cd_id ` set (deliveries st)"
  shows "config_ok (n', f', st')"
  by (rule pointwise_ok [OF assms(1) assms(2) [unfolded upd_where_def]]) (use assms in auto)

lemma claim_found: "claimDelivery t i st = (Some d, st') \<Longrightarrow> \<exists>d0. find_delivery st i = Some d0 \<and> cd_status d0 \<in> {DQueued, DRetrying} \<and> d = claimed_row t d0"
  by (auto simp: claimDelivery_def split: option.splits if_splits)

lemma distinct_row: "distinct (map cd_id rows) \<Longrightarrow> x \<in> set rows \<Longrightarrow> y \<in> set rows \<Longrightarrow> cd_id x = cd_id y \<Longrightarrow> x = y"
  by (auto simp: distinct_map inj_on_def)

lemma settled_status: "cd_status (settled_row t outcome d) \<in> {DDelivered, DUnconfirmed, DRetrying, DFailed}"
  "cd_attempts (settled_row t outcome d) = cd_attempts d"
  "cd_status (settled_row t outcome d) = DRetrying \<Longrightarrow> cd_attempts d < MAX_DELIVERY_ATTEMPTS"
  by (auto simp: settled_row_def accepted_row_def retry_row_def failed_row_def split: send_outcome.splits if_splits)

lemma settled_ok: "row_ok n (Some (cd_id d)) d \<Longrightarrow> row_ok n None (settled_row t outcome d)"
  using settled_status [of t outcome d] by (auto simp: row_ok_def MAX_DELIVERY_ATTEMPTS_def split: delivery_status.splits)

lemma claimed_ok:
  assumes "config_ok (n, None, st)" and "claimDelivery t i st = (Some d, st')"
  shows "config_ok (n, Some i, st')"
proof -
  obtain d0 where d0: "find_delivery st i = Some d0" "cd_status d0 \<in> {DQueued, DRetrying}" using claim_found [OF assms(2)] by blast
  then have in0: "d0 \<in> set (deliveries st)" "cd_id d0 = i" by (auto simp: find_delivery_def dest: find_SomeD)
  have dist: "distinct (map cd_id (deliveries st))" using assms(1) by (simp add: config_ok_def)
  have only: "x = d0" if "x \<in> set (deliveries st)" "cd_id x = i" for x
    by (rule distinct_row [OF dist that(1) in0(1)]) (simp add: that(2) in0(2))
  have claimed: "row_ok n (Some i) (claimed_row t x)" if "x \<in> set (deliveries st)" "cd_id x = i" "row_ok n None x" for x
    using only [OF that(1,2)] that d0(2) by (auto simp: row_ok_def claimed_row_def)
  have others: "row_ok n (Some i) x" if "cd_id x \<noteq> i" "row_ok n None x" for x
    using that by (auto simp: row_ok_def split: delivery_status.splits)
  show ?thesis
    by (rule upd_ok [OF assms(1) claim_deliveries [OF assms(2)]]) (use claimed others in0 in auto)
qed

lemma same_ok: "config_ok (n, f, st) \<Longrightarrow> deliveries st' = deliveries st \<Longrightarrow> config_ok (n, f, st')"
  by (simp add: config_ok_def)

lemma settling_ok:
  assumes "config_ok (n, Some i, st)"
  shows "config_ok (n, None, settleDelivery t i outcome st)"
proof (rule upd_ok [OF assms settle_deliveries])
  show "row_ok n None (settled_row t outcome d)" if "cd_id d = i" "row_ok n (Some i) d" for d
    using settled_ok [of n d t outcome] that by simp
  show "row_ok n None d" if "cd_id d \<noteq> i" "row_ok n (Some i) d" for d
    using that by (auto simp: row_ok_def split: delivery_status.splits)
qed simp_all

lemma one_row_ok:
  assumes "config_ok (n, f, st)" and "x \<in> set (deliveries st)"
    and "deliveries st' = upd_where (\<lambda>d. cd_id d = cd_id x) g (deliveries st)"
    and "\<And>d. cd_id (g d) = cd_id d" and "row_ok n f x \<Longrightarrow> row_ok n f (g x)"
  shows "config_ok (n, f, st')"
proof (rule upd_ok [OF assms(1,3,4)])
  fix d assume d: "d \<in> set (deliveries st)" "cd_id d = cd_id x" "row_ok n f d"
  have "distinct (map cd_id (deliveries st))" using assms(1) by (simp add: config_ok_def)
  then have "d = x" using distinct_row d(1,2) assms(2) by blast
  then show "row_ok n f (g d)" using d(3) assms(5) by simp
next
  show "f = Some i \<Longrightarrow> i \<in> cd_id ` set (deliveries st)" for i using assms(1) by (simp add: config_ok_def)
qed

lemma recover_ok:
  assumes "config_ok (n, None, st)"
  shows "config_ok (n, None, recoverStranded t st)"
proof (rule pointwise_ok [OF assms])
  let ?ids = "cd_id ` set (filter (stranded t) (deliveries st))"
  show "deliveries (recoverStranded t st) = map (\<lambda>x. if cd_id x \<in> ?ids then recovered_row t x else x) (deliveries st)"
    by (simp add: recoverStranded_def fold_recover)
  fix d assume d: "d \<in> set (deliveries st)" "row_ok n None d"
  have dist: "distinct (map cd_id (deliveries st))" using assms by (simp add: config_ok_def)
  have "stranded t d" if hit: "cd_id d \<in> ?ids"
  proof -
    obtain y where y: "y \<in> set (deliveries st)" "stranded t y" "cd_id y = cd_id d" using hit by auto
    then show ?thesis using distinct_row [OF dist y(1) d(1) y(3)] by simp
  qed
  moreover have "row_ok n None (recovered_row t d)" if "stranded t d"
    using d(2) that by (simp add: row_ok_def recovered_row_def stranded_def)
  ultimately show "row_ok n None (if cd_id d \<in> ?ids then recovered_row t d else d)" using d(2) by simp
qed auto

lemma retry_ok:
  assumes "config_ok (n, f, st)"
  shows "config_ok (n, f, snd (retryChannelDelivery digest t c i token r actor st))"
  using retry_deliveries [of digest t c i token r actor st]
proof
  assume "\<exists>d \<in> set (deliveries st). cd_status d \<in> {DFailed, DUnconfirmed}
       \<and> deliveries (snd (retryChannelDelivery digest t c i token r actor st)) = upd_where (\<lambda>x. cd_id x = cd_id d) (requeued_row t r) (deliveries st)"
  then obtain d where d: "d \<in> set (deliveries st)" "cd_status d \<in> {DFailed, DUnconfirmed}"
    "deliveries (snd (retryChannelDelivery digest t c i token r actor st)) = upd_where (\<lambda>x. cd_id x = cd_id d) (requeued_row t r) (deliveries st)"
    by blast
  show ?thesis by (rule one_row_ok [OF assms d(1,3)]) (use d(2) in \<open>auto simp: row_ok_def requeued_row_def\<close>)
qed (rule same_ok [OF assms])

lemma ack_ok:
  assumes "config_ok (n, f, st)"
  shows "config_ok (n, f, snd (acknowledgeChannelDelivery t c v h e st))"
  using ack_deliveries [of t c v h e st]
proof
  assume "\<exists>d \<in> set (deliveries st). cd_status d = DUnconfirmed
       \<and> deliveries (snd (acknowledgeChannelDelivery t c v h e st)) = upd_where (\<lambda>x. cd_id x = cd_id d) (confirmed_row t e) (deliveries st)"
  then obtain d where d: "d \<in> set (deliveries st)" "cd_status d = DUnconfirmed"
    "deliveries (snd (acknowledgeChannelDelivery t c v h e st)) = upd_where (\<lambda>x. cd_id x = cd_id d) (confirmed_row t e) (deliveries st)"
    by blast
  show ?thesis by (rule one_row_ok [OF assms d(1,3)]) (use d(2) in \<open>auto simp: row_ok_def confirmed_row_def\<close>)
qed (rule same_ok [OF assms])

lemma boot_ok: "config_ok (n, None, st) \<Longrightarrow> config_ok (n, None, demote_accepted st)"
  by (rule pointwise_ok [where g = "\<lambda>d. if Option.bind (findChannel st (cd_channelId d)) cn_provider = Some ''wechat_ilink''
         \<and> cd_status d = DDelivered \<and> cd_userConfirmedAt d = None then demoted_row d else d"])
    (auto simp: demote_accepted_def upd_ct_def upd_where_def row_ok_def demoted_row_def Let_def split: delivery_status.splits)

lemma crash_ok: "config_ok (n, f, st) \<Longrightarrow> config_ok (Suc n, None, st)"
  by (rule pointwise_ok [where g = id]) (auto simp: row_ok_def split: delivery_status.splits if_splits)

lemma enqueue_ok:
  assumes "config_ok (n, f, st)" and "enqueueChannelDelivery t c v j content ctx assets key st = (r, st')"
    and "\<And>i. r = Enqueued i \<Longrightarrow> i \<notin> cd_id ` set (deliveries st)"
  shows "config_ok (n, f, st')"
proof (cases r)
  case (Enqueued i)
  then obtain d where "cd_id d = i" "cd_status d = DQueued" "cd_attempts d = 0" "deliveries st' = pruneDeliveryHistory t (deliveries st @ [d])"
    using enqueue_deliveries [OF assms(2)] by auto
  then show ?thesis using pruned_ok [OF assms(1), of st' t "[d]"] assms(3) [OF Enqueued] by auto
qed (use same_ok [OF assms(1)] enqueue_deliveries [OF assms(2)] in auto)

lemma batch_ok:
  assumes "config_ok (n, f, st)" and "enqueueChannelDeliveryBatch t c v j chunks ctx src st = (r, st')"
    and "\<And>ids. r = Some ids \<Longrightarrow> distinct ids \<and> set ids \<inter> cd_id ` set (deliveries st) = {}"
  shows "config_ok (n, f, st')"
proof (cases r)
  case (Some ids)
  then obtain rows where "map cd_id rows = ids" "\<forall>d \<in> set rows. cd_status d = DQueued \<and> cd_attempts d = 0"
    "deliveries st' = pruneDeliveryHistory t (deliveries st @ rows)"
    using batch_deliveries [OF assms(2)] by auto
  then show ?thesis using pruned_ok [OF assms(1), of st' t rows] assms(3) [OF Some] by auto
qed (use same_ok [OF assms(1)] batch_deliveries [OF assms(2)] in auto)

lemma noted_ok:
  assumes "config_ok (n, f, st)" and "noted (deliveries st) (deliveries st')"
  shows "config_ok (n, f, st')"
proof -
  obtain g where g: "deliveries st' = map g (deliveries st)"
    "\<And>d. cd_id (g d) = cd_id d" "\<And>d. cd_status (g d) = cd_status d" "\<And>d. cd_attempts (g d) = cd_attempts d"
    using assms(2) unfolding noted_def by metis
  have "row_ok n f (g d) = row_ok n f d" for d by (simp only: row_ok_def g(2-4))
  then show ?thesis by (intro pointwise_ok [OF assms(1) g(1)]) (use assms(1) g(2) in \<open>auto simp: config_ok_def\<close>)
qed

lemma noted_ids: "noted rows rows' \<Longrightarrow> cd_id ` set rows' = cd_id ` set rows"
  by (auto simp: noted_def image_image)

text \<open>A resend is a note, or a note, a message queued and a note on it.\<close>

lemma resend_steps:
  fixes st :: "'a cd_server"
  assumes "resendChannelDelivery again t c v h st = (r, st')" and "\<And>i k. r = Resent i k \<Longrightarrow> i \<notin> cd_id ` set (deliveries st)"
  obtains (marked) "noted (deliveries st) (deliveries st')"
  | (copy) st1 :: "'a cd_server" and c' v' j x ctx as q st2 where "noted (deliveries st) (deliveries st1)"
      "enqueueChannelDelivery t c' v' j x ctx as None st1 = (q, st2)" "\<And>i. q = Enqueued i \<Longrightarrow> i \<notin> cd_id ` set (deliveries st1)"
      "noted (deliveries st2) (deliveries st')"
  using assms(1)
proof (cases rule: resend_cases)
  case answered
  then show ?thesis using marked by blast
next
  case (copied src)
  let ?st1 = "report_missing t src st"
  from copied(2) obtain q st2 where q: "enqueueChannelDelivery t (rs_channelId src) (rs_conversationId src) (rs_invocationId src) (rs_content src)
        (Some ((rs_taskContext src)\<lparr>tc_deliveryKind := Some ''result''\<rparr>)) (rs_mediaAssets src) None ?st1 = (q, st2)"
    "\<And>i. q = Enqueued i \<Longrightarrow> r = Resent i (rs_id src)" "noted (deliveries st2) (deliveries st')"
    by (rule copy_cases) blast
  have "i \<notin> cd_id ` set (deliveries ?st1)" if "q = Enqueued i" for i
    using assms(2) [OF q(2) [OF that]] noted_ids [OF missing_noted [of st t src]] by simp
  then show ?thesis using copy [OF missing_noted q(1) _ q(3)] by blast
qed

lemma resend_ok:
  fixes st :: "'a cd_server"
  assumes "config_ok (n, f, st)" and "resendChannelDelivery again t c v h st = (r, st')"
    and "\<And>i k. r = Resent i k \<Longrightarrow> i \<notin> cd_id ` set (deliveries st)"
  shows "config_ok (n, f, st')"
proof (rule resend_steps [OF assms(2,3)])
  show "config_ok (n, f, st')" if "noted (deliveries st) (deliveries st')" by (rule noted_ok [OF assms(1) that])
next
  fix st1 :: "'a cd_server" and c' v' j x ctx as q st2
  assume copy: "noted (deliveries st) (deliveries st1)" "enqueueChannelDelivery t c' v' j x ctx as None st1 = (q, st2)"
    "\<And>i. q = Enqueued i \<Longrightarrow> i \<notin> cd_id ` set (deliveries st1)" "noted (deliveries st2) (deliveries st')"
  show ?thesis by (rule noted_ok [OF enqueue_ok [OF noted_ok [OF assms(1) copy(1)] copy(2,3)] copy(4)])
qed

lemma step_ok: "delivery_step s s' \<Longrightarrow> config_ok s \<Longrightarrow> config_ok s'"
  by (induction rule: delivery_step.induct)
    (blast intro: enqueue_ok batch_ok claimed_ok settling_ok recover_ok retry_ok resend_ok ack_ok boot_ok crash_ok same_ok)+

lemma run_ok: "delivery_step\<^sup>*\<^sup>* s s' \<Longrightarrow> config_ok s \<Longrightarrow> config_ok s'"
  by (induction rule: rtranclp_induct) (use step_ok in blast)+

section \<open>Every step is an edge\<close>

definition status_in :: "channel_delivery list \<Rightarrow> string \<Rightarrow> delivery_status option" where
  "status_in rows i = map_option cd_status (List.find (\<lambda>d. cd_id d = i) rows)"

lemma status_of_rows: "status_of (n, f, st) i = status_in (deliveries st) i"
  by (simp add: status_of_def status_in_def find_delivery_def)

lemma status_in_row: "distinct (map cd_id rows) \<Longrightarrow> d \<in> set rows \<Longrightarrow> status_in rows (cd_id d) = Some (cd_status d)"
  unfolding status_in_def by (induction rows) auto

lemma status_in_none: "i \<notin> cd_id ` set rows \<Longrightarrow> status_in rows i = None"
  by (auto simp: status_in_def find_None_iff)

lemma pointwise_edge:
  assumes "deliveries st' = map g (deliveries st)" and "\<And>d. d \<in> set (deliveries st) \<Longrightarrow> cd_id (g d) = cd_id d"
    and "\<And>d. d \<in> set (deliveries st) \<Longrightarrow> delivery_edge (Some (cd_status d)) (Some (cd_status (g d)))"
  shows "delivery_edge (status_in (deliveries st) i) (status_in (deliveries st') i)"
proof -
  have "delivery_edge (status_in rows i) (status_in (map g rows) i)"
    if "\<And>d. d \<in> set rows \<Longrightarrow> cd_id (g d) = cd_id d"
      "\<And>d. d \<in> set rows \<Longrightarrow> delivery_edge (Some (cd_status d)) (Some (cd_status (g d)))" for rows
    using that by (induction rows) (auto simp: status_in_def intro: delivery_edge.stay)
  then show ?thesis using assms by simp
qed

lemma upd_edge:
  assumes "deliveries st' = upd_where (\<lambda>d. cd_id d = j) g (deliveries st)" and "\<And>d. cd_id (g d) = cd_id d"
    and "\<And>d. d \<in> set (deliveries st) \<Longrightarrow> cd_id d = j \<Longrightarrow> delivery_edge (Some (cd_status d)) (Some (cd_status (g d)))"
  shows "delivery_edge (status_in (deliveries st) i) (status_in (deliveries st') i)"
  by (rule pointwise_edge [OF assms(1) [unfolded upd_where_def]]) (use assms(2,3) in \<open>auto intro: delivery_edge.stay\<close>)

lemma push_edge:
  assumes "distinct (map cd_id (rows @ new))" and "\<forall>d \<in> set new. cd_status d = DQueued"
  shows "delivery_edge (status_in rows i) (status_in (pruneDeliveryHistory t (rows @ new)) i)"
proof -
  let ?after = "pruneDeliveryHistory t (rows @ new)"
  have dist: "distinct (map cd_id ?after)" using prune_ids [OF assms(1)] .
  have sub: "set ?after \<subseteq> set (rows @ new)" by (rule prune_set)
  consider (new) d where "d \<in> set new" "cd_id d = i" | (old) d where "d \<in> set rows" "cd_id d = i" | (absent) "i \<notin> cd_id ` set (rows @ new)"
    by auto
  then show ?thesis
  proof cases
    case new
    then have "d \<in> set ?after" using assms(2) by (intro prune_active) (auto simp: active_def)
    then have "status_in ?after i = Some DQueued" using status_in_row [OF dist] new assms(2) by auto
    moreover have "i \<notin> cd_id ` set rows" using assms(1) new by auto
    ultimately show ?thesis by (simp add: status_in_none delivery_edge.queued)
  next
    case old
    have before: "status_in rows i = Some (cd_status d)" using status_in_row [of rows d] assms(1) old by simp
    show ?thesis
    proof (cases "d \<in> set ?after")
      case True
      then show ?thesis using status_in_row [OF dist] old before by (auto intro: delivery_edge.stay)
    next
      case False
      have "x = d" if "x \<in> set ?after" "cd_id x = i" for x
        using distinct_row [OF assms(1), of x d] sub that old by auto
      then have "i \<notin> cd_id ` set ?after" using False by auto
      moreover have "\<not> active (cd_status d)" using prune_active [of d "rows @ new" t] False old(1) by auto
      ultimately show ?thesis using before by (simp add: status_in_none delivery_edge.pruned)
    qed
  next
    case absent
    then have "i \<notin> cd_id ` set ?after" using sub by blast
    then show ?thesis using absent by (simp add: status_in_none delivery_edge.stay image_Un)
  qed
qed

lemma same_edge: "deliveries st' = deliveries st \<Longrightarrow> delivery_edge (status_in (deliveries st) i) (status_in (deliveries st') i)"
  by (simp add: delivery_edge.stay)

lemma only_row: "config_ok (n, f, st) \<Longrightarrow> x \<in> set (deliveries st) \<Longrightarrow> y \<in> set (deliveries st) \<Longrightarrow> cd_id x = cd_id y \<Longrightarrow> x = y"
  using distinct_row by (auto simp: config_ok_def)

lemma enqueue_edge:
  assumes "config_ok (n, f, st)" and "enqueueChannelDelivery t c v j content ctx assets key st = (r, st')"
    and "\<And>i. r = Enqueued i \<Longrightarrow> i \<notin> cd_id ` set (deliveries st)"
  shows "delivery_edge (status_in (deliveries st) k) (status_in (deliveries st') k)"
proof (cases r)
  case (Enqueued i)
  then obtain d where "cd_id d = i" "cd_status d = DQueued" "deliveries st' = pruneDeliveryHistory t (deliveries st @ [d])"
    using enqueue_deliveries [OF assms(2)] by auto
  then show ?thesis using push_edge [of "deliveries st" "[d]" k t] assms(1) assms(3) [OF Enqueued] by (auto simp: config_ok_def)
qed (use same_edge enqueue_deliveries [OF assms(2)] in auto)

lemma batch_edge:
  assumes "config_ok (n, f, st)" and "enqueueChannelDeliveryBatch t c v j chunks ctx src st = (r, st')"
    and "\<And>ids. r = Some ids \<Longrightarrow> distinct ids \<and> set ids \<inter> cd_id ` set (deliveries st) = {}"
  shows "delivery_edge (status_in (deliveries st) k) (status_in (deliveries st') k)"
proof (cases r)
  case (Some ids)
  then obtain rows where "map cd_id rows = ids" "\<forall>d \<in> set rows. cd_status d = DQueued"
    "deliveries st' = pruneDeliveryHistory t (deliveries st @ rows)"
    using batch_deliveries [OF assms(2)] by auto
  then show ?thesis using push_edge [of "deliveries st" rows k t] assms(1) assms(3) [OF Some] by (auto simp: config_ok_def)
qed (use same_edge batch_deliveries [OF assms(2)] in auto)

lemma noted_status: "noted rows rows' \<Longrightarrow> status_in rows' i = status_in rows i"
proof -
  have "status_in (map g rows) i = status_in rows i"
    if "\<And>d. cd_id (g d) = cd_id d \<and> cd_status (g d) = cd_status d \<and> cd_attempts (g d) = cd_attempts d" for g
    using that unfolding status_in_def by (induction rows) auto
  then show "noted rows rows' \<Longrightarrow> status_in rows' i = status_in rows i" by (auto simp: noted_def)
qed

lemma resend_edge:
  fixes st :: "'a cd_server"
  assumes "config_ok (n, f, st)" and "resendChannelDelivery again t c v h st = (r, st')"
    and "\<And>i k. r = Resent i k \<Longrightarrow> i \<notin> cd_id ` set (deliveries st)"
  shows "delivery_edge (status_in (deliveries st) k) (status_in (deliveries st') k)"
proof (rule resend_steps [OF assms(2,3)])
  show ?thesis if "noted (deliveries st) (deliveries st')" using that by (simp add: noted_status delivery_edge.stay)
next
  fix st1 :: "'a cd_server" and c' v' j x ctx as q st2
  assume copy: "noted (deliveries st) (deliveries st1)" "enqueueChannelDelivery t c' v' j x ctx as None st1 = (q, st2)"
    "\<And>i. q = Enqueued i \<Longrightarrow> i \<notin> cd_id ` set (deliveries st1)" "noted (deliveries st2) (deliveries st')"
  have "delivery_edge (status_in (deliveries st1) k) (status_in (deliveries st2) k)"
    by (rule enqueue_edge [OF noted_ok [OF assms(1) copy(1)] copy(2,3)])
  then show ?thesis by (simp only: noted_status [OF copy(1)] noted_status [OF copy(4)])
qed

lemma claim_edge:
  assumes "config_ok (n, f, st)" and "claimDelivery t i st = (Some d, st')"
  shows "delivery_edge (status_in (deliveries st) k) (status_in (deliveries st') k)"
proof (rule upd_edge [OF claim_deliveries [OF assms(2)]])
  obtain d0 where "find_delivery st i = Some d0" and ready: "cd_status d0 \<in> {DQueued, DRetrying}" using claim_found [OF assms(2)] by blast
  then have in0: "d0 \<in> set (deliveries st)" "cd_id d0 = i" by (auto simp: find_delivery_def dest: find_SomeD)
  show "delivery_edge (Some (cd_status x)) (Some (cd_status (claimed_row t x)))" if "x \<in> set (deliveries st)" "cd_id x = i" for x
    using only_row [OF assms(1) that(1) in0(1)] that(2) in0(2) ready by (simp add: claimed_row_def delivery_edge.claimed)
qed simp

lemma settle_edge:
  assumes "config_ok (n, Some i, st)"
  shows "delivery_edge (status_in (deliveries st) k) (status_in (deliveries (settleDelivery t i outcome st)) k)"
proof (rule upd_edge [OF settle_deliveries])
  show "delivery_edge (Some (cd_status x)) (Some (cd_status (settled_row t outcome x)))" if "x \<in> set (deliveries st)" "cd_id x = i" for x
  proof -
    have "cd_status x = DSending" using assms that by (auto simp: config_ok_def row_ok_def)
    then show ?thesis using settled_status(1) [of t outcome x] by (simp only: delivery_edge.settled)
  qed
qed simp

lemma recover_edge:
  assumes "config_ok (n, None, st)"
  shows "delivery_edge (status_in (deliveries st) k) (status_in (deliveries (recoverStranded t st)) k)"
proof (rule pointwise_edge)
  let ?ids = "cd_id ` set (filter (stranded t) (deliveries st))"
  show "deliveries (recoverStranded t st) = map (\<lambda>x. if cd_id x \<in> ?ids then recovered_row t x else x) (deliveries st)"
    by (simp add: recoverStranded_def fold_recover)
  fix d assume d: "d \<in> set (deliveries st)"
  have "cd_status d = DSending" if hit: "cd_id d \<in> ?ids"
  proof -
    obtain y where y: "y \<in> set (deliveries st)" "stranded t y" "cd_id y = cd_id d" using hit by auto
    then show ?thesis using only_row [OF assms y(1) d y(3)] by (simp add: stranded_def)
  qed
  then show "delivery_edge (Some (cd_status d)) (Some (cd_status (if cd_id d \<in> ?ids then recovered_row t d else d)))"
    by (cases "cd_id d \<in> ?ids") (auto simp: recovered_row_def intro: delivery_edge.stay delivery_edge.settled)
qed simp

lemma row_edge:
  assumes "config_ok (n, f, st)" and "d \<in> set (deliveries st)"
    and "deliveries st' = upd_where (\<lambda>x. cd_id x = cd_id d) g (deliveries st)" and "\<And>x. cd_id (g x) = cd_id x"
    and "delivery_edge (Some (cd_status d)) (Some (cd_status (g d)))"
  shows "delivery_edge (status_in (deliveries st) k) (status_in (deliveries st') k)"
proof (rule upd_edge [OF assms(3,4)])
  fix x assume x: "x \<in> set (deliveries st)" "cd_id x = cd_id d"
  have "x = d" by (rule only_row [OF assms(1) x(1) assms(2) x(2)])
  with assms(5) show "delivery_edge (Some (cd_status x)) (Some (cd_status (g x)))" by simp
qed

lemma retry_edge:
  assumes "config_ok (n, f, st)"
  shows "delivery_edge (status_in (deliveries st) k) (status_in (deliveries (snd (retryChannelDelivery digest t c i token r actor st))) k)"
  using retry_deliveries [of digest t c i token r actor st]
proof
  assume "\<exists>d \<in> set (deliveries st). cd_status d \<in> {DFailed, DUnconfirmed}
       \<and> deliveries (snd (retryChannelDelivery digest t c i token r actor st)) = upd_where (\<lambda>x. cd_id x = cd_id d) (requeued_row t r) (deliveries st)"
  then obtain d where d: "d \<in> set (deliveries st)" "cd_status d \<in> {DFailed, DUnconfirmed}"
    "deliveries (snd (retryChannelDelivery digest t c i token r actor st)) = upd_where (\<lambda>x. cd_id x = cd_id d) (requeued_row t r) (deliveries st)"
    by blast
  show ?thesis by (rule row_edge [OF assms d(1,3)]) (use d(2) in \<open>simp_all add: requeued_row_def delivery_edge.requeued\<close>)
qed (rule same_edge)

lemma ack_edge:
  assumes "config_ok (n, f, st)"
  shows "delivery_edge (status_in (deliveries st) k) (status_in (deliveries (snd (acknowledgeChannelDelivery t c v h e st))) k)"
  using ack_deliveries [of t c v h e st]
proof
  assume "\<exists>d \<in> set (deliveries st). cd_status d = DUnconfirmed
       \<and> deliveries (snd (acknowledgeChannelDelivery t c v h e st)) = upd_where (\<lambda>x. cd_id x = cd_id d) (confirmed_row t e) (deliveries st)"
  then obtain d where d: "d \<in> set (deliveries st)" "cd_status d = DUnconfirmed"
    "deliveries (snd (acknowledgeChannelDelivery t c v h e st)) = upd_where (\<lambda>x. cd_id x = cd_id d) (confirmed_row t e) (deliveries st)"
    by blast
  show ?thesis by (rule row_edge [OF assms d(1,3)]) (use d(2) in \<open>simp_all add: confirmed_row_def delivery_edge.confirmed\<close>)
qed (rule same_edge)

lemma boot_edge: "delivery_edge (status_in (deliveries st) k) (status_in (deliveries (demote_accepted st)) k)"
  by (rule pointwise_edge [where g = "\<lambda>d. if Option.bind (findChannel st (cd_channelId d)) cn_provider = Some ''wechat_ilink''
         \<and> cd_status d = DDelivered \<and> cd_userConfirmedAt d = None then demoted_row d else d"])
    (auto simp: demote_accepted_def upd_ct_def upd_where_def demoted_row_def Let_def intro: delivery_edge.stay delivery_edge.demoted)

lemma delivery_step_edge:
  assumes "delivery_step s s'" and "config_ok s"
  shows "delivery_edge (status_of s i) (status_of s' i)"
  using assms
proof (induction rule: delivery_step.induct)
  case (enqueue t c v j content ctx assets key st r st' n f)
  show ?case unfolding status_of_rows by (rule enqueue_edge [OF enqueue(3,1,2)])
next
  case (batch t c v j chunks ctx src st r st' n f)
  show ?case unfolding status_of_rows by (rule batch_edge [OF batch(3,1,2)])
next
  case (resend again t c v h st r st' n f)
  show ?case unfolding status_of_rows by (rule resend_edge [OF resend(3,1,2)])
qed (simp_all add: status_of_rows claim_edge settle_edge recover_edge retry_edge ack_edge boot_edge same_edge delivery_edge.stay)

end
