(* ===== verification/ChannelSafety.thy ===== *)
theory ChannelSafety
  imports ChannelRuns
begin

text \<open>
  What the delivery service promises: the life of a delivery, the bound on its attempts, deduplication, giving up with a
  refusal, the operator's retry, and the order a failed send costs a conversation.
\<close>

section \<open>Life and attempts\<close>

lemma start_ok: "deliveries st = [] \<Longrightarrow> config_ok (0, None, st)"
  by (simp add: config_ok_def)

text \<open>C36: A delivery lives by its machine.  Along any run from an empty table, with crashes, every operation moves every delivery along an edge:
  it is queued once, sent only from queued or retrying, left by a send for one of the four outcomes, queued
  again only from a terminal failure or an unconfirmed send, and never forgotten while it is queued, retrying or
  being sent.\<close>

theorem delivery_life:
  assumes "delivery_step\<^sup>*\<^sup>* (0, None, st0) s" and "deliveries st0 = []" and "delivery_step s s'"
  shows "delivery_edge (status_of s i) (status_of s' i)"
  by (rule delivery_step_edge [OF assms(3) run_ok [OF assms(1) start_ok [OF assms(2)]]])

text \<open>C37: Attempts are bounded by the crashes.  Along any run from an empty table no delivery is attempted more than five times since
  it was last queued, plus once for every crash; without a crash five is the bound.\<close>

theorem attempts_bounded:
  assumes "delivery_step\<^sup>*\<^sup>* (0, None, st0) (n, f, st)" and "deliveries st0 = []" and "d \<in> set (deliveries st)"
  shows "cd_attempts d \<le> MAX_DELIVERY_ATTEMPTS + n"
proof -
  have "row_ok n f d" using run_ok [OF assms(1) start_ok [OF assms(2)]] assms(3) by (simp add: config_ok_def)
  then show ?thesis by (auto simp: row_ok_def MAX_DELIVERY_ATTEMPTS_def split: delivery_status.splits if_splits)
qed

section \<open>Deduplication\<close>

lemma channel_frame:
  "ct_channels (world (updateThreadDelivery t d s e st)) = ct_channels (world st)"
  "ct_conversations (world (updateThreadDelivery t d s e st)) = ct_conversations (world st)"
  by (auto simp: updateThreadDelivery_def upd_ct_def Let_def split: option.splits)

lemma push_channels:
  "ct_channels (world (push_deliveries t new st)) = ct_channels (world st)"
  "ct_conversations (world (push_deliveries t new st)) = ct_conversations (world st)"
proof -
  have "ct_channels (world (fold (\<lambda>d. updateThreadDelivery t d DQueued None) ds x)) = ct_channels (world x)
      \<and> ct_conversations (world (fold (\<lambda>d. updateThreadDelivery t d DQueued None) ds x)) = ct_conversations (world x)"
    for ds and x :: "'a cd_server"
    by (induction ds arbitrary: x) (simp_all add: channel_frame)
  then show "ct_channels (world (push_deliveries t new st)) = ct_channels (world st)"
    "ct_conversations (world (push_deliveries t new st)) = ct_conversations (world st)"
    by (simp_all add: push_deliveries_def Let_def upd_ct_def)
qed

lemma only_match_found:
  assumes "set rows' \<subseteq> set (rows @ [new])" and "new \<in> set rows'" and "P new" and "List.find P rows = None"
  shows "List.find P rows' = Some new"
proof (cases "List.find P rows'")
  case None
  then show ?thesis using assms(2,3) by (simp add: find_None_iff)
next
  case (Some x)
  then have x: "x \<in> set rows'" "P x" by (simp_all add: find_SomeD)
  then have "x \<notin> set rows" using assms(4) by (auto simp: find_None_iff)
  then show ?thesis using Some x(1) assms(1) by auto
qed

lemma clean_key: "js_trim k \<noteq> [] \<Longrightarrow> take 240 (js_trim k) \<noteq> [] \<and> k \<noteq> []"
  by (auto simp: js_trim_def)

text \<open>C39: A key is queued once.  After a message was queued under a key, or was found queued under it, queueing any other message
  under the same key in the same conversation changes nothing and answers with the same delivery.\<close>

theorem enqueue_once:
  assumes "enqueueChannelDelivery t c v j content ctx assets (Some key) st = (r, st1)" and "r = Enqueued i \<or> r = AlreadyQueued i"
    and "js_trim key \<noteq> []" and "js_trim content' \<noteq> []"
  shows "enqueueChannelDelivery t' c v j' content' ctx' assets' (Some key) st1 = (AlreadyQueued i, st1)"
proof -
  let ?key = "take 240 (js_trim key)"
  obtain ch cv where ch: "findChannel st c = Some ch" "findConversation st v = Some cv" "cv_channelId cv = cn_id ch"
    using assms(1,2) by (auto simp: enqueueChannelDelivery_def Let_def split: option.splits if_splits)
  let ?P = "dedupe_row ch cv ?key"
  have same: "findChannel st1 c = Some ch \<and> findConversation st1 v = Some cv \<and> (\<exists>d. List.find ?P (deliveries st1) = Some d \<and> cd_id d = i)"
  proof (cases "List.find ?P (deliveries st)")
    case (Some d)
    then show ?thesis
      using assms(1,2) ch clean_key [OF assms(3)] by (auto simp: enqueueChannelDelivery_def Let_def split: if_splits)
  next
    case None
    obtain k st2 where k: "next_id ''chdl'' st = (k, st2)" by (meson surj_pair)
    have w: "world st2 = world st" using k by (auto simp: next_id_def Let_def)
    let ?new = "deliveryRow t ch cv j (js_trim content) ctx (normalizeMediaAssets assets) (Some ?key) None k"
    have st1: "st1 = push_deliveries t [?new] st2" "i = k"
      using assms(1,2) ch None k clean_key [OF assms(3)]
      by (auto simp: enqueueChannelDelivery_def Let_def split: if_splits)
    have "?P ?new" "active (cd_status ?new)" by (simp_all add: dedupe_row_def deliveryRow_def active_def)
    then have "List.find ?P (pruneDeliveryHistory t (deliveries st @ [?new])) = Some ?new"
      using None by (intro only_match_found [where rows = "deliveries st"] prune_set prune_active) auto
    moreover have "deliveries st1 = pruneDeliveryHistory t (deliveries st @ [?new])" unfolding st1 by (simp add: frame w)
    ultimately show ?thesis
      using ch w st1 by (simp add: findChannel_def findConversation_def push_channels) (simp add: deliveryRow_def)
  qed
  then show ?thesis
    using ch(3) assms(4) clean_key [OF assms(3)] by (auto simp: enqueueChannelDelivery_def Let_def)
qed

section \<open>Giving up\<close>

lemma find_by_id:
  "(\<And>d. cd_id (g d) = cd_id d) \<Longrightarrow> List.find (\<lambda>d. cd_id d = i) (upd_where (\<lambda>d. cd_id d = j) g rows)
     = (if i = j then map_option g (List.find (\<lambda>d. cd_id d = i) rows) else List.find (\<lambda>d. cd_id d = i) rows)"
  by (induction rows) auto

lemma claim_row:
  assumes "find_delivery st i = Some d" and "cd_status d \<in> {DQueued, DRetrying}"
  shows "\<exists>st1. claimDelivery t i st = (Some (claimed_row t d), st1)
    \<and> (\<forall>k. find_delivery st1 k = (if k = i then Some (claimed_row t d) else find_delivery st k))"
  using assms find_by_id [of "claimed_row t"] by (auto simp: claimDelivery_def find_delivery_def frame)

lemma settle_row:
  "find_delivery (settleDelivery t i outcome st) k = (if k = i then map_option (settled_row t outcome) (find_delivery st i) else find_delivery st k)"
  using find_by_id [of "settled_row t outcome" k i "deliveries st"] by (simp add: find_delivery_def frame)

text \<open>One attempt: the outcome is the sender's answer to the claimed row.\<close>

lemma attempt_row:
  assumes "find_delivery st i = Some d" and "cd_status d \<in> {DQueued, DRetrying}"
  shows "\<exists>st1. findChannel st1 = findChannel st
    \<and> attemptDelivery senders t i st = settleDelivery t i (senderFor senders st1 (claimed_row t d)) st1
    \<and> find_delivery st1 i = Some (claimed_row t d)
    \<and> (\<forall>k. find_delivery (attemptDelivery senders t i st) k
        = (if k = i then Some (settled_row t (senderFor senders st1 (claimed_row t d)) (claimed_row t d)) else find_delivery st k))"
proof -
  obtain st1 where c: "claimDelivery t i st = (Some (claimed_row t d), st1)"
    "\<And>k. find_delivery st1 k = (if k = i then Some (claimed_row t d) else find_delivery st k)"
    using claim_row [OF assms] by blast
  have "findChannel st1 = findChannel st"
    using c(1) by (auto simp: claimDelivery_def findChannel_def set_delivery_def upd_ct_def fun_eq_iff split: option.splits if_splits)
  then show ?thesis using c by (intro exI [of _ st1]) (simp add: attemptDelivery_def settle_row)
qed

definition never_accepts :: "(string option \<Rightarrow> (channel_delivery \<Rightarrow> send_outcome) option) \<Rightarrow> bool" where
  "never_accepts senders \<longleftrightarrow> (\<forall>p send d. senders p = Some send \<longrightarrow> (\<exists>e. send d = SendFailed True e))"

lemma failing_answer: "never_accepts senders \<Longrightarrow> \<exists>e. senderFor senders st d = SendFailed True e"
  by (auto simp: never_accepts_def senderFor_def split: option.split)

lemma failing_attempt:
  assumes "find_delivery st i = Some d" and "cd_status d \<in> {DQueued, DRetrying}" and "never_accepts senders"
  shows "\<exists>d'. find_delivery (attemptDelivery senders t i st) i = Some d' \<and> cd_attempts d' = Suc (cd_attempts d)
    \<and> cd_status d' = (if Suc (cd_attempts d) < MAX_DELIVERY_ATTEMPTS then DRetrying else DFailed)"
proof -
  obtain st1 where "attemptDelivery senders t i st = settleDelivery t i (senderFor senders st1 (claimed_row t d)) st1"
    "\<forall>k. find_delivery (attemptDelivery senders t i st) k
      = (if k = i then Some (settled_row t (senderFor senders st1 (claimed_row t d)) (claimed_row t d)) else find_delivery st k)"
    using attempt_row [OF assms(1,2), of senders t] by blast
  moreover obtain e where "senderFor senders st1 (claimed_row t d) = SendFailed True e" using failing_answer [OF assms(3)] by blast
  ultimately show ?thesis by (auto simp: settled_row_def claimed_row_def retry_row_def failed_row_def)
qed

lemma failing_attempts:
  assumes "find_delivery st i = Some d" and "cd_status d \<in> {DQueued, DRetrying}" and "never_accepts senders"
    and "cd_attempts d + length ts < MAX_DELIVERY_ATTEMPTS"
  shows "\<exists>d'. find_delivery (foldl (\<lambda>st t. attemptDelivery senders t i st) st ts) i = Some d' \<and> cd_attempts d' = cd_attempts d + length ts
    \<and> cd_status d' = (if ts = [] then cd_status d else DRetrying)"
  using assms
proof (induction ts arbitrary: st d)
  case (Cons t ts)
  obtain d1 where d1: "find_delivery (attemptDelivery senders t i st) i = Some d1" "cd_attempts d1 = Suc (cd_attempts d)" "cd_status d1 = DRetrying"
    using failing_attempt [OF Cons.prems(1-3), of t] Cons.prems(4) by auto
  have "\<exists>d'. find_delivery (foldl (\<lambda>st t. attemptDelivery senders t i st) (attemptDelivery senders t i st) ts) i = Some d'
      \<and> cd_attempts d' = cd_attempts d1 + length ts \<and> cd_status d' = (if ts = [] then cd_status d1 else DRetrying)"
    by (rule Cons.IH [OF d1(1) _ Cons.prems(3)]) (use d1 Cons.prems(4) in auto)
  then show ?case using d1 by (auto split: if_splits)
qed auto

lemma refusal_head:
  "\<exists>r rs. refusals (refuse_unchecked t a st) = r # rs \<and> rf_code r = ri_code a \<and> rf_subject r = coalesce (ri_subject a) (ref_to ''invocation'' None)"
  by (simp add: refuse_unchecked_def case_prod_beta Let_def refusal_push_def push_cap_def REFUSALS_CAP_def refusal_row_def recordRefusalDailyStat_def)

lemma last_attempt_refuses:
  assumes "find_delivery st i = Some d" and "cd_status d \<in> {DQueued, DRetrying}" and "never_accepts senders"
    and "Suc (cd_attempts d) = MAX_DELIVERY_ATTEMPTS"
  shows "\<exists>d' r rs. find_delivery (attemptDelivery senders t i st) i = Some d' \<and> cd_status d' = DFailed \<and> cd_attempts d' = MAX_DELIVERY_ATTEMPTS
    \<and> refusals (attemptDelivery senders t i st) = r # rs \<and> rf_code r = ''undeliverable'' \<and> rf_subject r = ref_to ''channel_delivery'' (Some i)"
proof -
  obtain st1 where st1: "attemptDelivery senders t i st = settleDelivery t i (senderFor senders st1 (claimed_row t d)) st1"
    "find_delivery st1 i = Some (claimed_row t d)"
    using attempt_row [OF assms(1,2), of senders t] by blast
  obtain e where e: "senderFor senders st1 (claimed_row t d) = SendFailed True e" using failing_answer [OF assms(3)] by blast
  have id: "cd_id d = i" using assms(1) by (auto simp: find_delivery_def dest: find_SomeD)
  have row: "settled_row t (SendFailed True e) (claimed_row t d) = failed_row t e (claimed_row t d)"
    using assms(4) by (simp add: settled_row_def claimed_row_def)
  have "\<exists>st2. settleDelivery t i (SendFailed True e) st1 = refuse_unchecked t (undeliverable e (failed_row t e (claimed_row t d))) st2"
    using st1(2) row by (simp add: settleDelivery_def Let_def) (auto simp: failed_row_def)
  then obtain st2 where "attemptDelivery senders t i st = refuse_unchecked t (undeliverable e (failed_row t e (claimed_row t d))) st2"
    using st1(1) e by auto
  moreover obtain r rs where "refusals (refuse_unchecked t (undeliverable e (failed_row t e (claimed_row t d))) st2) = r # rs"
    "rf_code r = ''undeliverable''" "rf_subject r = ref_to ''channel_delivery'' (Some i)"
    using refusal_head [of t "undeliverable e (failed_row t e (claimed_row t d))" st2] id
    by (auto simp: undeliverable_def failed_row_def claimed_row_def)
  ultimately show ?thesis using failing_attempt [OF assms(1-3), of t] assms(4) by auto
qed

text \<open>C38: A delivery that cannot be made is given up with a refusal.  When every send of a queued delivery fails for now, four attempts leave
  it retrying and the fifth ends it as failed, with a refusal on record that names the delivery.\<close>

theorem gives_up_with_refusal:
  assumes "find_delivery st i = Some d" and "cd_status d = DQueued" and "cd_attempts d = 0" and "never_accepts senders"
    and "length ts = 4"
  shows "let st4 = foldl (\<lambda>st t. attemptDelivery senders t i st) st ts; st5 = attemptDelivery senders t i st4
    in map_option cd_status (find_delivery st4 i) = Some DRetrying
     \<and> (\<exists>d' r rs. find_delivery st5 i = Some d' \<and> cd_status d' = DFailed \<and> cd_attempts d' = 5
          \<and> refusals st5 = r # rs \<and> rf_code r = ''undeliverable'' \<and> rf_subject r = ref_to ''channel_delivery'' (Some i))"
proof -
  let ?st4 = "foldl (\<lambda>st t. attemptDelivery senders t i st) st ts"
  have "ts \<noteq> []" using assms(5) by auto
  then obtain d4 where d4: "find_delivery ?st4 i = Some d4" "cd_attempts d4 = 4" "cd_status d4 = DRetrying"
    using failing_attempts [OF assms(1) _ assms(4), of ts] assms(2,3,5) by (auto simp: MAX_DELIVERY_ATTEMPTS_def)
  then show ?thesis
    using last_attempt_refuses [OF d4(1) _ assms(4), of t] by (auto simp: Let_def MAX_DELIVERY_ATTEMPTS_def)
qed

section \<open>The operator's retry\<close>

lemma retry_grants [frame]: "grants (set_delivery i f st) = grants st" "grants (updateThreadDelivery t d s e st) = grants st"
  by (simp_all add: set_delivery_def updateThreadDelivery_def upd_ct_def Let_def split: option.split)

text \<open>C40: Only an approved retry sends again.  A delivery is only requeued through the channel it belongs to, when it failed
  terminally or was accepted without confirmation and its cooldown is over; an actor with a team is of the
  team that owns the channel (the code does not check an actor without one).  The request rests on an issued
  grant for exactly this action, delivery and team, which was unspent and unexpired and is spent by it; only as long as
  issued grants are not required, a text that is not blank and belongs to no grant is accepted instead.  The
  delivery starts over: queued and due at once, with no attempts and a key for the provider that names this
  retry, with channel, conversation and content as they were; every other delivery is kept.\<close>

theorem retry_needs_approval:
  assumes "retryChannelDelivery digest t c i token r actor st = (Requeued j, st')"
  shows "j = i \<and> (\<exists>ch d. findChannel st c = Some ch \<and> d \<in> set (deliveries st) \<and> cd_id d = i \<and> cd_channelId d = cn_id ch
    \<and> (\<forall>team. Option.bind actor ac_teamId = Some team \<longrightarrow> team = [] \<or> team = coalesce (cn_ownerTeamId ch) ''team_local'')
    \<and> (cd_status d = DFailed \<or> cd_status d = DUnconfirmed \<and> (\<forall>n. cd_nextManualRetryAt d = Some n \<longrightarrow> n \<le> t))
    \<and> approved_for digest t (js_trim (coalesce token [])) CHANNEL_DELIVERY_RETRY_ACTION i actor st st'
    \<and> (\<exists>q. deliveries st' = map (\<lambda>x. if cd_id x = i then q x else x) (deliveries st) \<and> cd_id (q d) = i
         \<and> cd_status (q d) = DQueued \<and> cd_attempts (q d) = 0 \<and> cd_nextAttemptAt (q d) = Some t
         \<and> cd_providerClientId (q d) = Some (i @ ''-retry-'' @ show_int t)
         \<and> cd_channelId (q d) = cd_channelId d \<and> cd_conversationId (q d) = cd_conversationId d \<and> cd_content (q d) = cd_content d))"
proof -
  obtain ch where ch: "findChannel st c = Some ch"
    using assms by (cases "findChannel st c") (auto simp: retryChannelDelivery_def)
  then have team: "\<not> (case Option.bind actor ac_teamId of None \<Rightarrow> False | Some team \<Rightarrow> team \<noteq> [] \<and> coalesce (cn_ownerTeamId ch) ''team_local'' \<noteq> team)"
    using assms by (auto simp: retryChannelDelivery_def)
  have first: "fst (retryChannelDelivery digest t c i token r actor st) = Requeued j" using assms by simp
  obtain d where d: "List.find (\<lambda>d. cd_id d = i \<and> cd_channelId d = cn_id ch) (deliveries st) = Some d"
    using first ch team by (cases "List.find (\<lambda>d. cd_id d = i \<and> cd_channelId d = cn_id ch) (deliveries st)")
      (simp_all add: retryChannelDelivery_def)
  have in_d: "d \<in> set (deliveries st)" "cd_id d = i" "cd_channelId d = cn_id ch" using find_SomeD [OF d] by simp_all
  let ?v = "validateApprovalToken digest t token (Some CHANNEL_DELIVERY_RETRY_ACTION) (Some (cd_id d)) actor True st"
  have retryable: "cd_status d \<in> {DFailed, DUnconfirmed}"
    using first ch team d by (cases "cd_status d") (simp_all add: retryChannelDelivery_def)
  have cool: "\<not> (cd_status d = DUnconfirmed \<and> (case cd_nextManualRetryAt d of None \<Rightarrow> False | Some n \<Rightarrow> t < n))"
  proof
    assume "cd_status d = DUnconfirmed \<and> (case cd_nextManualRetryAt d of None \<Rightarrow> False | Some n \<Rightarrow> t < n)"
    then show False using first ch team d by (simp add: retryChannelDelivery_def)
  qed
  have sent: "(case ?v of (NotApproved kind reason g, st1) \<Rightarrow> (RetryRefused 409 ''approval_required'' reason, st1)
      | (approved, st1) \<Rightarrow>
          (let d1 = requeued_row t r d; st2 = updateThreadDelivery t d1 DQueued None (set_delivery (cd_id d) (requeued_row t r) st1)
           in (Requeued (cd_id d), append_event t
                 (mk_ev (cd_invocationId d) ''channel_delivery_retry_requested'' ''info''
                    (''Channel '' @ cn_id ch @ '': delivery '' @ cd_id d @ '' re-queued by operator.'')
                    (JObj [(''channelId'', JStr (cn_id ch)), (''deliveryId'', JStr (cd_id d))])) st2))) = (Requeued j, st')"
    using assms ch team d retryable cool by (cases "cd_status d = DFailed") (simp_all add: retryChannelDelivery_def)
  obtain a st1 where v: "?v = (a, st1)" by (meson surj_pair)
  have frame': "deliveries st1 = deliveries st"
    using approval_frame [of digest t token "Some CHANNEL_DELIVERY_RETRY_ACTION" "Some (cd_id d)" actor True st] v by simp
  have done': "(\<forall>kind reason g. a \<noteq> NotApproved kind reason g) \<and> j = i \<and> deliveries st' = upd_where (\<lambda>x. cd_id x = i) (requeued_row t r) (deliveries st)
      \<and> grants st' = grants st1"
    using sent v frame' in_d(2) by (cases a) (auto simp: Let_def frame)
  then have "approved_for digest t (js_trim (coalesce token [])) CHANNEL_DELIVERY_RETRY_ACTION i actor st st1"
    using approval_rests_on v in_d(2) by blast
  then have rests: "approved_for digest t (js_trim (coalesce token [])) CHANNEL_DELIVERY_RETRY_ACTION i actor st st'"
    using done' by (simp add: approved_for_def)
  have over: "\<exists>q. deliveries st' = map (\<lambda>x. if cd_id x = i then q x else x) (deliveries st) \<and> cd_id (q d) = i
         \<and> cd_status (q d) = DQueued \<and> cd_attempts (q d) = 0 \<and> cd_nextAttemptAt (q d) = Some t
         \<and> cd_providerClientId (q d) = Some (i @ ''-retry-'' @ show_int t)
         \<and> cd_channelId (q d) = cd_channelId d \<and> cd_conversationId (q d) = cd_conversationId d \<and> cd_content (q d) = cd_content d"
    using done' in_d(2) by (intro exI [of _ "requeued_row t r"]) (simp add: requeued_row_def upd_where_def)
  have status: "cd_status d = DFailed \<or> cd_status d = DUnconfirmed \<and> (\<forall>n. cd_nextManualRetryAt d = Some n \<longrightarrow> n \<le> t)"
    using cool retryable by auto
  have owner: "\<forall>team. Option.bind actor ac_teamId = Some team \<longrightarrow> team = [] \<or> team = coalesce (cn_ownerTeamId ch) ''team_local''"
    using team by auto
  have "j = i" using done' by blast
  then show ?thesis using ch in_d owner status rests over by (intro conjI exI [of _ ch] exI [of _ d]) assumption+
qed

section \<open>The order of a conversation\<close>

lemma sender_is [simp]: "senderFor (\<lambda>p. Some send) st d = send d"
  by (simp add: senderFor_def split: option.split)

lemma attempt_at:
  assumes "find_delivery st i = Some d" and "cd_status d \<in> {DQueued, DRetrying}"
  shows "find_delivery (attemptDelivery (\<lambda>p. Some send) t i st) k
    = (if k = i then Some (settled_row t (send (claimed_row t d)) (claimed_row t d)) else find_delivery st k)"
  using attempt_row [OF assms, of "\<lambda>p. Some send" t] by auto

lemma backoff_positive [simp]: "0 < backoffMs n limited"
proof -
  have "(0::int) < 5000 * 2 ^ (n - 1)" by simp
  then show ?thesis by (simp add: backoffMs_def RATE_LIMIT_BACKOFF_MS_def MAX_BACKOFF_MS_def BASE_BACKOFF_MS_def)
qed

text \<open>A failed send loses its place.  When two messages of a conversation are due and the first fails for now while the second is
  accepted, the sweep ends with the second delivered and the first waiting for a later attempt: the user reads
  them in the other order.\<close>

theorem retry_loses_order:
  assumes "deliveries st = [a, b]" and "cd_id a \<noteq> cd_id b" and "cd_conversationId a = cd_conversationId b"
    and "due_now t st a" and "due_now t st b" and "cd_attempts a < 4"
    and "send (claimed_row t a) = SendFailed True e" and "send (claimed_row t b) = SendOk m c True"
  shows "\<exists>a' b' n. find_delivery (snd (runSweep (\<lambda>p. Some send) t st)) (cd_id a) = Some a' \<and> cd_status a' = DRetrying
    \<and> cd_nextAttemptAt a' = Some n \<and> t < n
    \<and> find_delivery (snd (runSweep (\<lambda>p. Some send) t st)) (cd_id b) = Some b' \<and> cd_status b' = DDelivered
    \<and> cd_conversationId b' = cd_conversationId a'"
proof -
  have open_rows: "cd_status a \<in> {DQueued, DRetrying}" "cd_status b \<in> {DQueued, DRetrying}"
    using assms(4,5) by (simp_all add: due_now_def)
  then have "filter (stranded t) (deliveries st) = []" using assms(1) by (auto simp: stranded_def)
  then have sweep: "snd (runSweep (\<lambda>p. Some send) t st)
      = attemptDelivery (\<lambda>p. Some send) t (cd_id b) (attemptDelivery (\<lambda>p. Some send) t (cd_id a) st)"
    using assms(1,4,5) by (simp add: runSweep_def recoverStranded_def due_ids_def)
  have found: "find_delivery st (cd_id a) = Some a" "find_delivery st (cd_id b) = Some b"
    using assms(1,2) by (simp_all add: find_delivery_def)
  let ?st1 = "attemptDelivery (\<lambda>p. Some send) t (cd_id a) st"
  have b1: "find_delivery ?st1 (cd_id b) = Some b" using attempt_at [OF found(1) open_rows(1)] found(2) assms(2) by simp
  show ?thesis
    unfolding sweep attempt_at [OF b1 open_rows(2)] using assms(2,3,6-8) attempt_at [OF found(1) open_rows(1)]
    by (simp add: settled_row_def retry_row_def accepted_row_def MAX_DELIVERY_ATTEMPTS_def)
      (simp add: claimed_row_def)
qed

section \<open>A result sent again\<close>

lemma enqueued_row:
  assumes "enqueueChannelDelivery t c v j content ctx assets None st = (Enqueued i, st')"
  obtains ch cv where "deliveries st'
    = pruneDeliveryHistory t (deliveries st @ [deliveryRow t ch cv j (js_trim content) ctx (normalizeMediaAssets assets) None None i])"
proof -
  obtain k st1 where k: "next_id ''chdl'' st = (k, st1)" by (meson surj_pair)
  then have "deliveries st1 = deliveries st" using event_frame(3) [of "''chdl''" st] by simp
  then show ?thesis
    using assms k that by (auto simp: enqueueChannelDelivery_def Let_def frame split: option.splits if_splits)
qed

lemma copy_found:
  assumes "\<And>d. d \<in> set old \<Longrightarrow> cd_id d \<noteq> i" and "cd_id new = i" and "active (cd_status new)" and "\<And>d. cd_id (g d) = cd_id d"
    and "rows = upd_where (\<lambda>d. cd_id d = i) g (pruneDeliveryHistory t (old @ [new]))"
  shows "List.find (\<lambda>d. cd_id d = i) rows = Some (g new) \<and> (\<forall>x \<in> set rows. cd_id x = i \<longrightarrow> x = g new)"
proof -
  have sub: "set (pruneDeliveryHistory t (old @ [new])) \<subseteq> set (old @ [new])" by (rule prune_set)
  have "new \<in> set (pruneDeliveryHistory t (old @ [new]))" using assms(3) by (simp add: prune_active)
  then have in_rows: "g new \<in> set rows" using assms(2) unfolding assms(5) upd_where_def by force
  moreover have only: "\<forall>x \<in> set rows. cd_id x = i \<longrightarrow> x = g new"
    using sub assms(1,2,4) unfolding assms(5) upd_where_def by auto
  moreover have "\<exists>x. List.find (\<lambda>d. cd_id d = i) rows = Some x"
    using in_rows assms(2,4) by (cases "List.find (\<lambda>d. cd_id d = i) rows") (auto simp: find_None_iff)
  ultimately show ?thesis by (auto dest: find_SomeD)
qed

text \<open>A result that is sent again leaves its task.  The copy has the content of the newest delivery of the task, but not its context: the
  stored context names no channel, so the new row is queued without one, and no acknowledgement of the task finds it.\<close>

theorem resend_loses_task:
  assumes "resendChannelDelivery again t c v h st = (Resent i k, st')"
    and "newest (filter (task_delivery c v h) (deliveries st)) = Some d" and "i \<notin> cd_id ` set (deliveries st)"
  shows "\<exists>x. find_delivery st' i = Some x \<and> cd_status x = DQueued \<and> cd_resendOfDeliveryId x = Some (cd_id d)
      \<and> cd_content x = take MAX_CONTENT_CHARS (js_trim (cd_content d)) \<and> cd_taskContext x = None"
    and "\<forall>y. latest_result c v h (deliveries st') = Some y \<longrightarrow> cd_id y \<noteq> i"
proof -
  have src: "resend_source_of again c v h st = Some (row_source d)" using assms(2) by (simp add: resend_source_of_def Let_def)
  have copy: "resend_copy t h (row_source d) (report_missing t (row_source d) st) = (Resent i k, st')"
    using assms(1) by (rule resend_cases) (use src in auto)
  let ?ctx = "Some ((rs_taskContext (row_source d))\<lparr>tc_deliveryKind := Some ''result''\<rparr>)"
  let ?st1 = "report_missing t (row_source d) st"
  obtain st2 where q: "enqueueChannelDelivery t (rs_channelId (row_source d)) (rs_conversationId (row_source d)) (rs_invocationId (row_source d))
        (rs_content (row_source d)) ?ctx (rs_mediaAssets (row_source d)) None ?st1 = (Enqueued i, st2)"
    "deliveries st' = upd_where (\<lambda>x. cd_id x = i) (copy_row t (row_source d)) (deliveries st2)"
    using copy by (rule copy_cases) blast
  from q(1) obtain ch cv where st2: "deliveries st2 = pruneDeliveryHistory t (deliveries ?st1
      @ [deliveryRow t ch cv (rs_invocationId (row_source d)) (js_trim (rs_content (row_source d))) ?ctx
           (normalizeMediaAssets (rs_mediaAssets (row_source d))) None None i])" by (rule enqueued_row)
  let ?new = "deliveryRow t ch cv (rs_invocationId (row_source d)) (js_trim (rs_content (row_source d))) ?ctx
           (normalizeMediaAssets (rs_mediaAssets (row_source d))) None None i"
  have fresh: "cd_id x \<noteq> i" if "x \<in> set (deliveries ?st1)" for x
    using that assms(3) noted_ids [OF missing_noted [of st t "row_source d"]] by blast
  have found: "List.find (\<lambda>x. cd_id x = i) (deliveries st') = Some (copy_row t (row_source d) ?new)
      \<and> (\<forall>x \<in> set (deliveries st'). cd_id x = i \<longrightarrow> x = copy_row t (row_source d) ?new)"
    by (rule copy_found [OF fresh _ _ _ q(2) [unfolded st2]]) (simp_all add: deliveryRow_def active_def copy_row_def)
  have lost: "cd_taskContext (copy_row t (row_source d) ?new) = None"
    by (simp add: copy_row_def deliveryRow_def kept_context_def row_source_def stored_context_def Let_def)
  show "\<exists>x. find_delivery st' i = Some x \<and> cd_status x = DQueued \<and> cd_resendOfDeliveryId x = Some (cd_id d)
      \<and> cd_content x = take MAX_CONTENT_CHARS (js_trim (cd_content d)) \<and> cd_taskContext x = None"
    using found lost unfolding find_delivery_def by (auto simp: copy_row_def deliveryRow_def row_source_def)
  show "\<forall>y. latest_result c v h (deliveries st') = Some y \<longrightarrow> cd_id y \<noteq> i"
    using found lost by (auto simp: latest_result_def dest!: newest_in)
qed

section \<open>Concrete runs\<close>

definition demo_channel_row :: channel where
  "demo_channel_row = \<lparr>cn_id = ''chn_1'', cn_provider = Some ''wecom'', cn_status = ''enabled'', cn_ownerTeamId = None\<rparr>"

definition demo_conversation :: conversation where
  "demo_conversation = \<lparr>cv_id = ''cnv_1'', cv_channelId = ''chn_1'', cv_externalUserId = ''ann'', cv_replyContext = JNull\<rparr>"

definition demo_delivery :: "string \<Rightarrow> channel_delivery" where
  "demo_delivery i = deliveryRow 1 demo_channel_row demo_conversation None ''hi'' None [] None None i"

definition demo_channels :: "channel_delivery list \<Rightarrow> unit cd_server" where
  "demo_channels rows = demo_server_with \<lparr>ag_grants =
     [new_grant (\<lambda>s. s) 1 ''apg_1'' ''aa'' ''channel.delivery.retry'' ''chdl_1'' ''usr_a'' None None], ag_archived = [],
     ag_legacyUses = None, ag_requireIssued = False, ct_channels = [demo_channel_row], ct_conversations = [demo_conversation],
     ct_threads = [], ct_notifications = [], ct_deliveries = rows\<rparr> []"

lemma demo_channels_rows [simp]: "deliveries (demo_channels rows) = rows"
  "ct_channels (world (demo_channels rows)) = [demo_channel_row]" "ct_conversations (world (demo_channels rows)) = [demo_conversation]"
  by (simp_all add: demo_channels_def)

lemma demo_delivery_row [simp]: "cd_id (demo_delivery i) = i" "cd_status (demo_delivery i) = DQueued" "cd_attempts (demo_delivery i) = 0"
  "cd_channelId (demo_delivery i) = ''chn_1''" "cd_conversationId (demo_delivery i) = ''cnv_1''" "cd_nextAttemptAt (demo_delivery i) = Some 1"
  by (simp_all add: demo_delivery_def deliveryRow_def demo_channel_row_def demo_conversation_def)

abbreviation demo_enqueue :: "string \<Rightarrow> unit cd_server \<Rightarrow> enqueued \<times> unit cd_server" where
  "demo_enqueue text' \<equiv> enqueueChannelDelivery 5 ''chn_1'' ''cnv_1'' None text' None [] (Some ''k'')"

lemma demo_trim: "js_trim ''hi'' = ''hi''" "js_trim ''k'' = ''k''" "js_trim ''ho'' = ''ho''"
  by (simp_all add: js_trim_def js_space_def)

lemma demo_enqueued: "\<exists>i. fst (demo_enqueue ''hi'' (demo_channels [])) = Enqueued i"
  by (simp add: enqueueChannelDelivery_def findChannel_def findConversation_def demo_channel_row_def demo_conversation_def demo_trim
      split: prod.split)

lemma demo_enqueue_step:
  "delivery_step (0, None, demo_channels []) (0, None, snd (demo_enqueue ''hi'' (demo_channels [])))"
  by (rule delivery_step.enqueue [OF prod.collapse [symmetric]]) simp

theorem delivery_life_witness:
  "\<forall>i. delivery_edge (status_of (0, None, demo_channels []) i) (status_of (0, None, snd (demo_enqueue ''hi'' (demo_channels []))) i)"
  using delivery_life [OF rtranclp.rtrancl_refl _ demo_enqueue_step] by simp

theorem attempts_bounded_witness:
  "\<exists>d \<in> set (deliveries (snd (demo_enqueue ''hi'' (demo_channels [])))). cd_attempts d \<le> MAX_DELIVERY_ATTEMPTS + 0"
proof -
  obtain i where "demo_enqueue ''hi'' (demo_channels []) = (Enqueued i, snd (demo_enqueue ''hi'' (demo_channels [])))"
    using demo_enqueued by (metis prod.collapse)
  from enqueue_deliveries [OF this] obtain d where "cd_status d = DQueued"
    "deliveries (snd (demo_enqueue ''hi'' (demo_channels []))) = pruneDeliveryHistory 5 ([] @ [d])" by auto
  then have "d \<in> set (deliveries (snd (demo_enqueue ''hi'' (demo_channels []))))" by (simp add: prune_active active_def)
  then show ?thesis using attempts_bounded [OF r_into_rtranclp [of delivery_step, OF demo_enqueue_step]] by auto
qed

theorem enqueue_once_witness:
  "\<exists>i. demo_enqueue ''ho'' (snd (demo_enqueue ''hi'' (demo_channels []))) = (AlreadyQueued i, snd (demo_enqueue ''hi'' (demo_channels [])))"
proof -
  obtain i where i: "demo_enqueue ''hi'' (demo_channels []) = (Enqueued i, snd (demo_enqueue ''hi'' (demo_channels [])))"
    using demo_enqueued by (metis prod.collapse)
  show ?thesis by (rule exI, rule enqueue_once [OF i]) (simp_all add: demo_trim)
qed

theorem gives_up_with_refusal_witness:
  "\<exists>d. find_delivery (foldl (\<lambda>st t. attemptDelivery (\<lambda>p. Some (\<lambda>d. SendFailed True ''60020'')) t ''chdl_1'' st)
     (demo_channels [demo_delivery ''chdl_1'']) [1, 2, 3, 4]) ''chdl_1'' = Some d \<and> cd_status d = DRetrying"
  using gives_up_with_refusal [where st = "demo_channels [demo_delivery ''chdl_1'']" and i = "''chdl_1''" and d = "demo_delivery ''chdl_1''"
      and senders = "\<lambda>p. Some (\<lambda>d. SendFailed True ''60020'')" and ts = "[1, 2, 3, 4]" and t = 5]
  by (simp add: find_delivery_def never_accepts_def Let_def)

theorem retry_needs_approval_witness:
  "\<exists>d \<in> set (deliveries (demo_channels [(demo_delivery ''chdl_1'')\<lparr>cd_status := DFailed\<rparr>])). cd_status d = DFailed
    \<and> fst (retryChannelDelivery (\<lambda>s. s) 5 ''chn_1'' ''chdl_1'' (Some ''aa'') None None
         (demo_channels [(demo_delivery ''chdl_1'')\<lparr>cd_status := DFailed\<rparr>])) = Requeued (cd_id d)"
proof -
  let ?st = "demo_channels [(demo_delivery ''chdl_1'')\<lparr>cd_status := DFailed\<rparr>]"
  let ?r = "retryChannelDelivery (\<lambda>s. s) 5 ''chn_1'' ''chdl_1'' (Some ''aa'') None None ?st"
  have "fst (validateApprovalToken (\<lambda>s. s) 5 (Some ''aa'') (Some CHANNEL_DELIVERY_RETRY_ACTION) (Some ''chdl_1'') None True ?st) = ApprovedByGrant ''apg_1''"
    by (simp add: validateApprovalToken_def demo_channels_def demo_grant_facts Let_def grant_obstacle_def CHANNEL_DELIVERY_RETRY_ACTION_def)
      (simp add: new_grant_def GRANT_TTL_MS_def actor_team_def js_trim_def js_space_def)
  then have r: "?r = (Requeued ''chdl_1'', snd ?r)"
    by (cases "validateApprovalToken (\<lambda>s. s) 5 (Some ''aa'') (Some CHANNEL_DELIVERY_RETRY_ACTION) (Some ''chdl_1'') None True ?st")
      (simp add: retryChannelDelivery_def findChannel_def demo_channel_row_def Let_def)
  obtain d where d: "d \<in> set (deliveries ?st)" "cd_id d = ''chdl_1''" using retry_needs_approval [OF r]
    by - (elim conjE exE, rule that)
  then have "cd_status d = DFailed" by simp
  moreover have "fst ?r = Requeued (cd_id d)" using r d(2) by (metis fst_conv)
  ultimately show ?thesis using d(1) by blast
qed

theorem retry_loses_order_witness:
  "\<exists>b. find_delivery (snd (runSweep (\<lambda>p. Some (\<lambda>d. if cd_id d = ''chdl_1'' then SendFailed True ''60020'' else SendOk None None True)) 5
      (demo_channels [demo_delivery ''chdl_1'', demo_delivery ''chdl_2'']))) ''chdl_2'' = Some b \<and> cd_status b = DDelivered"
  using retry_loses_order [where st = "demo_channels [demo_delivery ''chdl_1'', demo_delivery ''chdl_2'']"
      and a = "demo_delivery ''chdl_1''" and b = "demo_delivery ''chdl_2''" and t = 5 and e = "''60020''" and m = None and c = None
      and send = "\<lambda>d. if cd_id d = ''chdl_1'' then SendFailed True ''60020'' else SendOk None None True"]
  by (auto simp: due_now_def findChannel_def demo_channel_row_def)

definition demo_result :: channel_delivery where
  "demo_result = (demo_delivery ''res_1'')\<lparr>cd_status := DFailed, cd_taskContext := Some \<lparr>tc_messageId = None, tc_principalId = None,
     tc_terminalId = None, tc_projectId = None, tc_workItemId = Some ''wi_1'', tc_threadId = Some ''thr_1'', tc_traceId = None,
     tc_deliveryKind = Some ''result'', tc_notificationEvent = None\<rparr>\<rparr>"

theorem resend_loses_task_witness:
  "\<exists>i x. fst (resendChannelDelivery [] 5 ''chn_1'' ''cnv_1'' ''thr_1'' (demo_channels [demo_result])) = Resent i (Some ''res_1'')
     \<and> find_delivery (snd (resendChannelDelivery [] 5 ''chn_1'' ''cnv_1'' ''thr_1'' (demo_channels [demo_result]))) i = Some x
     \<and> cd_taskContext x = None"
proof -
  let ?r = "resendChannelDelivery [] 5 ''chn_1'' ''cnv_1'' ''thr_1'' (demo_channels [demo_result])"
  have new: "newest (filter (task_delivery ''chn_1'' ''cnv_1'' ''thr_1'') (deliveries (demo_channels [demo_result]))) = Some demo_result"
    by (simp add: newest_def task_delivery_def sendable_def demo_result_def demo_delivery_def deliveryRow_def demo_channel_row_def
        demo_conversation_def MAX_CONTENT_CHARS_def)
  have row: "js_trim (cd_content demo_result) = ''hi''" "cd_status demo_result = DFailed" "cd_channelId demo_result = ''chn_1''"
    "cd_conversationId demo_result = ''cnv_1''" "cd_id demo_result = ''res_1''"
    by (simp_all add: demo_result_def demo_delivery_def deliveryRow_def demo_trim MAX_CONTENT_CHARS_def demo_channel_row_def demo_conversation_def)
  have src: "resend_source_of [] ''chn_1'' ''cnv_1'' ''thr_1'' (demo_channels [demo_result]) = Some (row_source demo_result)"
    unfolding resend_source_of_def Let_def new by simp
  obtain i st1 where i: "next_id ''chdl'' (demo_channels [demo_result]) = (i, st1)" by (meson surj_pair)
  have "fst ?r = Resent i (Some ''res_1'')"
    using row i src by (simp add: resendChannelDelivery_def Let_def row_source_def report_missing_def resend_copy_def
        enqueueChannelDelivery_def findChannel_def findConversation_def demo_channel_row_def demo_conversation_def)
  then have r: "?r = (Resent i (Some ''res_1''), snd ?r)" by (metis prod.collapse)
  have "i \<noteq> ''res_1''" using i by (auto simp: next_id_def Let_def id_of_def)
  then have "i \<notin> cd_id ` set (deliveries (demo_channels [demo_result]))" using row(5) by simp
  from resend_loses_task(1) [OF r new this] obtain x where "find_delivery (snd ?r) i = Some x" "cd_taskContext x = None" by blast
  moreover have "fst ?r = Resent i (Some ''res_1'')" by (subst r) (rule fst_conv)
  ultimately show ?thesis by blast
qed

end
