(* ===== verification/Spec2Isabelle.thy ===== *)
theory Spec2Isabelle
  imports Lifecycle WorkScheduler BridgeAuth Protocol IssueClaims EventHistory Grants Store DeviceSafety AccountSafety
    RequestSafety ChannelSafety
begin

text \<open>
  Verification library of the control plane (apps/server and packages/protocol) and of the gate and the wrapper
  runner of its device (apps/desktop, tools/agents).

  \<^bold>\<open>The program.\<close>  The server accepts tasks for agents, decides whether each may run, and follows it to
  its end.  A client posts an invocation; the server checks the client's scope, the platform quota, the
  budget of the project, the usage quota of the requester and the risk of the agent, and either rejects
  the run, holds it for a person, queues it for the Desktop Bridge of a device, or sends it to a remote
  HTTP agent.  A bridge polls for work, acknowledges what it was leased, reports events and completes; a
  lease that is not acknowledged in time is given out again, a bounded number of times.  Completion books
  the cost, writes the audit and the usage, releases what was reserved and ends the traces.  Every refusal
  goes through one writer with a closed taxonomy, every event through one append path.  People sign in with a
  password, locally or through an enterprise provider, and act through a cookie session; guards before every handler
  decide which request gets that far.  Messages to a chat channel are durable rows that a sweep sends, retries and gives
  up.  On the device, a gate of
  its own checks every spawn: the server plans the argv of an application, the bridge relays it as text, the
  gate reads it back and the runner spawns it.

  \<^bold>\<open>How the state is modelled.\<close>  The process-wide \<open>state\<close> object is a record, extended layer by layer as the
  services use it: ids (Ids), the core with invocations, events and refusals (Model, EventLog, Refusals),
  the tables of the invocation services (Server), the finance tables (Budget), metering (Metering) and
  provider sessions (Sessions).  The identity tables are a record of their own (Identity), extended by those of
  password recovery (Recovery); the store (Store) is generic in its tables, the tables of the channels (ChannelDelivery) extend those of the grants.  An operation takes the time \<open>t\<close> of its call and the state and returns the
  state; what a handler answers is returned beside it.  A throw is \<open>Inl\<close>.  A JSON value keeps the untyped
  fields a client may send (Prelude: \<open>json\<close>, \<open>truthy\<close>, \<open>nullish_or\<close>, \<open>jget\<close>).  Rows of a table are a list, newest
  first where the source unshifts; rows that the source mutates in place are rewritten by id.  The commit
  of a unit of work is the returned state: the code runs each of these operations without an await.

  \<^bold>\<open>Theories.\<close>
  \<^item> Prelude: JSON, list operations with bounds (\<open>push_cap\<close>), stable sort, decimal numerals, the locales
    \<open>bounded_log\<close> and \<open>comparator\<close>.
  \<^item> Ids: \<open>nextId\<close> of runtime/service-composer.mjs and the locale \<open>id_source\<close>.
  \<^item> Model, Server: the rows, the state, and the operations shared by the services (spans, usage, audit,
    compare runs); the locales \<open>row_rel\<close> and \<open>row_op\<close> say what a sweep over rows does.
  \<^item> Protocol: packages/protocol/src/index.mjs, its vocabularies and self check.
  \<^item> EventLog: runtime/event-log.mjs.  Refusals: runtime/refusal-log.mjs, the refusal listing and
    \<open>firstRefusal\<close>.
  \<^item> Completion: services/invocations/completion.mjs.  DirectHttp: direct-http.mjs.  InvocationCancel:
    cancellation.mjs.  Approval: approval.mjs.  Dispatch: dispatch.mjs, dispatch-eligibility.mjs,
    dispatch-fairness.mjs, agent-failover.mjs.
  \<^item> Budget, Metering: services/m3.mjs, its budget, reservation, quota, price and ledger part.
  \<^item> Sessions: services/codex.mjs and the model and permission rules of packages/protocol.
  \<^item> Creation: services/invocations/creation.mjs.  CreateRoute: POST /api/invocations of
    routes/invocations.mjs with the tenant guard of runtime/auth.mjs.
  \<^item> RoundTelemetry: services/round-telemetry.mjs, read-models/file-ledger.mjs and read-models/request-context.mjs, with
    the callbacks of runtime/service-composer.mjs that store the last two: what a reported event writes beside the log.
  \<^item> BridgeAuth: runtime/bridge-auth.mjs and runtime/device.mjs.  BridgeRoutes: routes/bridge.mjs.
  \<^item> WorkScheduler: services/work-item-auto-scheduler-policy.mjs.
  \<^item> IssueClaims: services/issue-claims.mjs, who may develop an issue.
  \<^item> JsText: JSON text, its parser and printer, UTF-8 and base64url.  RetentionArchive:
    services/retention-archive.mjs, the event shards.  EventHistory: services/invocation-events.mjs, the pages of events.
  \<^item> Grants: services/approval-grants.mjs.  Store: runtime/store/in-memory-store.mjs, transactions.
  \<^item> ArgvText: strings, paths and argv as JavaScript reads them.  WrapperPlan, WrapperRegistry: the wrapper commands of
    services/applications.mjs and the registered applications.  DevicePolicy: apps/desktop/src/local-execution-policy.mjs.
    WrapperChain: the plan of the server against the gate of the device.  WrapperRun: the relay and the runner of
    tools/agents/application-wrapper.mjs.  DeviceSafety: what a spawn that passed the gate can do.
  \<^item> Identity: services/identity-security.mjs, runtime/identity-policy.mjs and \<open>resolveActor\<close> of runtime/auth.mjs.
    IdentityRuns: sequences of its operations; the locale \<open>session_law\<close>.  Recovery: services/password-recovery.mjs.
    SignIn: routes/identity.mjs.  AccountSafety: the routes together.
  \<^item> FirstMatch: lists changed at their first match.  RequestGate: the guards of runtime/http-server.mjs with
    runtime/loopback-guard.mjs and runtime/route-authority.mjs.  RequestSafety: what passing them means.
  \<^item> ChannelDelivery: services/channel-delivery.mjs.  ChannelRuns: its operations and crashes as a step relation, the
    abstract machine of a delivery and the invariant of the table.  ChannelSafety: what the service promises.
  \<^item> Lifecycle: all operations on a run composed, against an abstract machine of its phases.

  \<^bold>\<open>What is proved.\<close>  Per run: creation has exactly the outcome its gates say and is idempotent under a key;
  a high-risk run waits for a person whatever the request says; a decision is taken once; a completion is
  final and leaves the whole record; a cancel denies the pending approval of the run and no other; only the device that
  owns a delivery moves it, and what it reports changes of a run only its start and its telemetry notes; a lease is retried at
  most five times; and over any sequence of actions a run lives by the machine of Lifecycle.  Per resource:
  one developer per issue, slots of the device and of the HTTP runtime, budget limits under concurrent holds, platform quota,
  bounded logs that lose nothing silently, bounded telemetry.  Per algorithm: the fair choice, the scheduling order and its
  score, the longest-prefix price, the drain at unlink.  Per history: pages partition the events, cursors and
  archive lines read back, nothing is lost without the truncation flag; a transaction is its direct run; an approval
  grant approves once.  On the device: what the server plans is let through, a plan that writes was approved, what is relayed reads back, the runner
  spawns what the gate read, everything a write names (operands, properties, batch commands) stays in the worktree of the
  run, Codex stays in its sandbox, and an unlisted command is refused.  For accounts: who
  gets a session, how long it answers, what a revocation ends, the exact throttle, a challenge and a recovery token
  used once, and a recovered account that can sign in.  For requests: what a handler can rely on, that a revoked cookie
  reaches no handler, and that the two tables of authority do not overlap.  For messages: the life of a delivery as a
  refinement, its bounded attempts, one row per key, giving up with a refusal, and the approval for
  exactly this delivery that a retry needs.  Several theorems state behaviour that looks
  unintended (their text says so): queued cancellation that leaves holds and spans open, a cancel before
  the acknowledgement that strands a run, polls of a foreign device, a usage quota that rejects without a
  record, a client that switches its own hold off, a pruned grant that is accepted again, a reinsert that keeps the
  old row, inherited names that make the gate throw, delivery words outside the protocol's vocabulary, two
  rounds of a run under one index, a token of a deleted user that acts as the local owner, a lock
  that a flood of unknown names forgets, a message overtaken by its successors after a failed
  send, a result sent again that no longer belongs to its task.

  \<^bold>\<open>Parameters.\<close>  Code outside the modelled files is an argument: the callbacks of completion and approval
  (\<open>hooks\<close>; their type lets them emit events and change the tables of other services, not invocations, so what a callback of the composition
  might write back to a run is outside these theorems), the reading of device data by the telemetry (\<open>telemetry_env\<close>: the
  secret patterns, \<open>Number\<close> of a text, \<open>Date.parse\<close>, the price of a round), the durable archive of events and refusals, the digest and random token of node:crypto, the
  locale comparison of strings, the local date, the outcome of an HTTP exchange, the environment's prices
  and thresholds, the text of a time stamp, torn writes of an archive, the file system of the device with its
  search for a binary, scrypt and the Unicode normal form, the parser of a host name, the answer of a chat provider.  No theorem assumes more of them than its statement says.

  \<^bold>\<open>Numbers and bounds.\<close>  Times are whole milliseconds.  Money is whole micro-dollars, where the source keeps
  decimal numbers rounded to six places; JSON numbers are exact decimals.  Counts are unbounded, as they stay far
  below 2^53.  A text is a list of code points below 256.  Paths are POSIX paths.  The recursions that are not
  structural (\<open>mint_from\<close> of Ids, the parser of JsText, the media sources of the device, the argv readers \<open>parse_argv\<close>
  and \<open>parseArgs\<close>) have their termination proved by a measure, so nothing here needs fuel.

  \<^bold>\<open>Not modelled.\<close>  HTTP parsing, sockets and the wiring of services; the database and snapshots (a returned state
  is a committed one); the orchestration services (auto-runs, work items, planning), the conversations of channels, tutor and
  business features; the process supervision of the desktop and the console.  Within the modelled files: hook
  events and evidence of Codex sessions, billing providers and exports of m3, heartbeat and pairing routes of the
  bridge, alert delivery, rendering of skills into a worktree, the archive of globally evicted rows and of rounds over their cap, and the boot
  scan of ids, Windows paths, probes and the output of a child process, the life cycle and health of
  applications, the parsing and setting of cookies, CORS headers, the texts that tell a channel of a
  completed run.
\<close>

end
